(* ===== verification/Liq_Prelude.thy ===== *)
theory Liq_Prelude
  imports Main "HOL-Library.AList" "HOL-Library.Signed_Division" "HOL-Library.Word"
    "HOL-Library.Product_Lexorder"
begin

unbundle bit_operations_syntax

section \<open>Prelude: the JavaScript the sources use\<close>

text \<open>
  What the components share.  A thrown \<open>Error\<close> is a left value carrying its message, a
  returned value a right value.  A \<open>bigint\<close> is an \<open>int\<close>; its division truncates
  towards zero, which is \<open>sdiv\<close> of the library, and its remainder is \<open>smod\<close>.  A
  \<open>number\<close> that the sources use as an integer is an \<open>int\<close> too, and
  \<open>safe_integer\<close> is \<open>Number.isSafeInteger\<close> on it.  A \<open>Map\<close> is an
  association list in insertion order, updated in place by \<open>AList.update\<close>.
\<close>

named_theorems result_simps \<open>unfolding of the result combinators\<close>
named_theorems js_arith \<open>truncating division on nonnegative operands\<close>

type_synonym err = string
type_synonym 'a res = "err + 'a"

subsection \<open>Results\<close>

definition bind_ok :: "'e + 'a \<Rightarrow> ('a \<Rightarrow> 'e + 'b) \<Rightarrow> 'e + 'b" where
  "bind_ok m f = (case m of Inl e \<Rightarrow> Inl e | Inr x \<Rightarrow> f x)"

definition ensure :: "bool \<Rightarrow> err \<Rightarrow> unit res" where
  "ensure b e = (if b then Inr () else Inl e)"

fun map_res :: "('a \<Rightarrow> 'e + 'b) \<Rightarrow> 'a list \<Rightarrow> 'e + 'b list" where
  "map_res f [] = Inr []"
| "map_res f (x # xs) =
     (case f x of Inl e \<Rightarrow> Inl e
      | Inr y \<Rightarrow> (case map_res f xs of Inl e \<Rightarrow> Inl e | Inr ys \<Rightarrow> Inr (y # ys)))"

fun fold_res :: "('s \<Rightarrow> 'a \<Rightarrow> 'e + 's) \<Rightarrow> 's \<Rightarrow> 'a list \<Rightarrow> 'e + 's" where
  "fold_res f s [] = Inr s"
| "fold_res f s (x # xs) = (case f s x of Inl e \<Rightarrow> Inl e | Inr s' \<Rightarrow> fold_res f s' xs)"

lemma bind_ok_simps [simp, result_simps]:
  "bind_ok (Inl e) f = Inl e" "bind_ok (Inr x) f = f x"
  by (simp_all add: bind_ok_def)

lemma bind_ok_Inr_iff: "bind_ok m f = Inr y \<longleftrightarrow> (\<exists>x. m = Inr x \<and> f x = Inr y)"
  by (cases m) (auto simp: bind_ok_def)

lemma bind_ok_Inr_E:
  assumes "bind_ok m f = Inr y"
  obtains x where "m = Inr x" "f x = Inr y"
  using assms by (auto simp: bind_ok_Inr_iff)

lemma ensure_Inr_iff [simp]: "ensure b e = Inr u \<longleftrightarrow> b"
  by (simp add: ensure_def)

lemma ensure_True [simp]: "ensure True e = Inr ()"
  and ensure_False [simp]: "ensure False e = Inl e"
  by (simp_all add: ensure_def)

lemma map_res_Inr_iff:
  "map_res f xs = Inr ys \<longleftrightarrow> list_all2 (\<lambda>x y. f x = Inr y) xs ys"
proof (induction xs arbitrary: ys)
  case Nil
  then show ?case by auto
next
  case (Cons x xs)
  show ?case
  proof (cases "f x")
    case (Inl e)
    then show ?thesis by (cases ys) auto
  next
    case (Inr y)
    then show ?thesis
      by (cases ys; cases "map_res f xs") (auto simp flip: Cons.IH)
  qed
qed

lemma map_res_length: "map_res f xs = Inr ys \<Longrightarrow> length ys = length xs"
  by (auto simp: map_res_Inr_iff dest: list_all2_lengthD)

lemma map_res_set: "map_res f xs = Inr ys \<Longrightarrow> y \<in> set ys \<Longrightarrow> \<exists>x\<in>set xs. f x = Inr y"
  by (induction xs arbitrary: ys) (auto split: sum.splits)

lemma map_res_total: "\<forall>x\<in>set xs. \<exists>y. f x = Inr y \<Longrightarrow> \<exists>ys. map_res f xs = Inr ys"
proof (induction xs)
  case Nil
  then show ?case by simp
next
  case (Cons x xs)
  then obtain y ys where "f x = Inr y" "map_res f xs = Inr ys" by auto
  then show ?case by simp
qed

lemma fold_res_append:
  "fold_res f s (xs @ ys) = bind_ok (fold_res f s xs) (\<lambda>s'. fold_res f s' ys)"
  by (induction xs arbitrary: s) (auto split: sum.splits)

lemma fold_res_invariant:
  assumes "fold_res f s xs = Inr s'" "P s"
    and "\<And>s x s'. P s \<Longrightarrow> x \<in> set xs \<Longrightarrow> f s x = Inr s' \<Longrightarrow> P s'"
  shows "P s'"
  using assms
proof (induction xs arbitrary: s)
  case Nil
  then show ?case by simp
next
  case (Cons x xs)
  from Cons.prems(1) obtain s1 where s1: "f s x = Inr s1" "fold_res f s1 xs = Inr s'"
    by (auto split: sum.splits)
  from s1(1) Cons.prems have "P s1" by auto
  with s1(2) show ?case using Cons.IH Cons.prems(3) by (meson list.set_intros(2))
qed

subsection \<open>Integers\<close>

definition safe_integer :: "int \<Rightarrow> bool" where
  "safe_integer n \<longleftrightarrow> \<bar>n\<bar> \<le> 9007199254740991"

lemma sdiv_nonneg [js_arith]: "0 \<le> a \<Longrightarrow> 0 \<le> b \<Longrightarrow> a sdiv b = a div (b::int)"
  by (auto simp: signed_divide_int_def sgn_if)

lemma smod_nonneg [js_arith]: "0 \<le> a \<Longrightarrow> 0 \<le> b \<Longrightarrow> a smod b = a mod (b::int)"
  by (auto simp: signed_modulo_int_def sgn_if)

text \<open>Division of a nonnegative \<open>bigint\<close>, rounded up.\<close>

lemma ceil_div_bounds:
  fixes a b :: int
  assumes "0 < b"
  shows "a \<le> b * ((a + b - 1) div b)" and "b * ((a + b - 1) div b) < a + b"
proof -
  have *: "b * ((a + b - 1) div b) + (a + b - 1) mod b = a + b - 1" by simp
  have "0 \<le> (a + b - 1) mod b" "(a + b - 1) mod b < b" using assms by simp_all
  with * show "a \<le> b * ((a + b - 1) div b)" "b * ((a + b - 1) div b) < a + b"
    by linarith+
qed

lemma floor_div_bounds:
  fixes a b :: int
  assumes "0 < b"
  shows "b * (a div b) \<le> a" and "a < b * (a div b) + b"
proof -
  have *: "b * (a div b) + a mod b = a" by simp
  have "0 \<le> a mod b" "a mod b < b" using assms by simp_all
  with * show "b * (a div b) \<le> a" "a < b * (a div b) + b" by linarith+
qed

lemma le_div_iff:
  fixes a b c :: int
  assumes "0 < b"
  shows "c \<le> a div b \<longleftrightarrow> b * c \<le> a"
proof
  assume "c \<le> a div b"
  then have "b * c \<le> b * (a div b)" using assms by simp
  with floor_div_bounds(1) [OF assms, of a] show "b * c \<le> a" by linarith
next
  assume "b * c \<le> a"
  from zdiv_mono1 [OF this assms] assms show "c \<le> a div b" by simp
qed

lemma div_le_iff:
  fixes a b c :: int
  assumes "0 < b"
  shows "a div b \<le> c \<longleftrightarrow> a < b * (c + 1)"
  using le_div_iff [OF assms, of "c + 1" a] by linarith

lemma ceil_div_le_iff:
  fixes a b c :: int
  assumes "0 < b"
  shows "(a + b - 1) div b \<le> c \<longleftrightarrow> a \<le> b * c"
proof -
  have "(a + b - 1) div b \<le> c \<longleftrightarrow> a + b - 1 < b * (c + 1)" by (rule div_le_iff [OF assms])
  also have "\<dots> \<longleftrightarrow> a \<le> b * c" by (auto simp: algebra_simps)
  finally show ?thesis .
qed

subsection \<open>Strings\<close>

definition lower_char :: "char \<Rightarrow> char" where
  "lower_char c = (if 65 \<le> (of_char c :: nat) \<and> (of_char c :: nat) \<le> 90
     then char_of ((of_char c :: nat) + 32) else c)"

text \<open>\<open>toLowerCase\<close> on the ASCII strings that addresses and hashes are.\<close>

definition lower :: "string \<Rightarrow> string" where
  "lower s = map lower_char s"

lemma lower_char_idem [simp]: "lower_char (lower_char c) = lower_char c"
  by (auto simp: lower_char_def)

lemma lower_idem [simp]: "lower (lower s) = lower s"
  by (simp add: lower_def comp_def)

lemma lower_length [simp]: "length (lower s) = length s"
  by (simp add: lower_def)

text \<open>
  \<open>toString\<close> of an integer and \<open>BigInt\<close> of a string that matches
  \<open>/^-?\d+$/\<close>.  The decimal strings of the sources' result objects are kept as the
  integers they denote; \<open>parse_show_int\<close> is what justifies that.
\<close>

definition show_digit :: "nat \<Rightarrow> char" where
  "show_digit d = char_of (48 + d)"

fun show_nat :: "nat \<Rightarrow> string" where
  "show_nat n = (if n < 10 then [show_digit n] else show_nat (n div 10) @ [show_digit (n mod 10)])"

declare show_nat.simps [simp del]

definition show_int :: "int \<Rightarrow> string" where
  "show_int i = (if i < 0 then CHR ''-'' # show_nat (nat (- i)) else show_nat (nat i))"

definition is_digit :: "char \<Rightarrow> bool" where
  "is_digit c \<longleftrightarrow> 48 \<le> (of_char c :: nat) \<and> (of_char c :: nat) \<le> 57"

definition parse_nat :: "string \<Rightarrow> nat" where
  "parse_nat s = foldl (\<lambda>a c. 10 * a + (of_char c - 48)) 0 s"

definition digits_only :: "string \<Rightarrow> bool" where
  "digits_only s \<longleftrightarrow> s \<noteq> [] \<and> list_all is_digit s"

definition parse_int :: "string \<Rightarrow> int option" where
  "parse_int s = (case s of
      [] \<Rightarrow> None
    | c # cs \<Rightarrow> (if c = CHR ''-'' then (if digits_only cs then Some (- int (parse_nat cs)) else None)
        else if digits_only s then Some (int (parse_nat s)) else None))"

lemma of_char_show_digit: "d < 10 \<Longrightarrow> of_char (show_digit d) = 48 + d"
  by (simp add: show_digit_def)

lemma show_nat_digits: "digits_only (show_nat n)"
proof (induction n rule: show_nat.induct)
  case (1 n)
  then show ?case
    by (subst show_nat.simps) (auto simp: digits_only_def is_digit_def of_char_show_digit)
qed

lemma parse_show_nat: "parse_nat (show_nat n) = n"
proof (induction n rule: show_nat.induct)
  case (1 n)
  then show ?case
    by (subst show_nat.simps) (auto simp: parse_nat_def of_char_show_digit)
qed

lemma show_nat_no_minus: "show_nat n \<noteq> CHR ''-'' # cs"
  using show_nat_digits [of n] by (auto simp: digits_only_def is_digit_def)

theorem parse_show_int: "parse_int (show_int i) = Some i"
proof (cases "i < 0")
  case True
  then show ?thesis
    by (simp add: show_int_def parse_int_def show_nat_digits parse_show_nat)
next
  case False
  obtain c cs where *: "show_nat (nat i) = c # cs"
    using show_nat_digits [of "nat i"] by (cases "show_nat (nat i)") (auto simp: digits_only_def)
  then have "c \<noteq> CHR ''-''" using show_nat_no_minus by blast
  moreover have "digits_only (c # cs)" "parse_nat (c # cs) = nat i"
    using show_nat_digits [of "nat i"] parse_show_nat [of "nat i"] by (simp_all add: *)
  ultimately show ?thesis using False by (simp add: show_int_def parse_int_def *)
qed

lemma show_int_inj [simp]: "show_int i = show_int j \<longleftrightarrow> i = j"
  by (metis option.inject parse_show_int)

subsection \<open>Sets and maps in insertion order\<close>

text \<open>\<open>[...new Set(xs)]\<close>: the first occurrences, in order.\<close>

definition set_spread :: "'a list \<Rightarrow> 'a list" where
  "set_spread xs = foldl (\<lambda>acc x. if x \<in> set acc then acc else acc @ [x]) [] xs"

lemma set_spread_aux:
  "distinct acc \<Longrightarrow>
     set (foldl (\<lambda>acc x. if x \<in> set acc then acc else acc @ [x]) acc xs) = set acc \<union> set xs \<and>
     distinct (foldl (\<lambda>acc x. if x \<in> set acc then acc else acc @ [x]) acc xs)"
  by (induction xs arbitrary: acc) auto

lemma set_spread_set [simp]: "set (set_spread xs) = set xs"
  and set_spread_distinct [simp]: "distinct (set_spread xs)"
  using set_spread_aux [of "[]" xs] by (simp_all add: set_spread_def)

lemma set_spread_Nil_iff [simp]: "set_spread xs = [] \<longleftrightarrow> xs = []"
  by (metis set_empty set_spread_set)

text \<open>\<open>set.add\<close> and \<open>set.delete\<close> on a set kept as a list in insertion order.\<close>

definition set_add :: "'a \<Rightarrow> 'a list \<Rightarrow> 'a list" where
  "set_add x xs = (if x \<in> set xs then xs else xs @ [x])"

definition set_del :: "'a \<Rightarrow> 'a list \<Rightarrow> 'a list" where
  "set_del x xs = filter (\<lambda>y. y \<noteq> x) xs"

lemma set_add_set [simp]: "set (set_add x xs) = insert x (set xs)"
  by (auto simp: set_add_def)

lemma set_del_set [simp]: "set (set_del x xs) = set xs - {x}"
  by (auto simp: set_del_def)

lemma set_add_distinct [simp]: "distinct (set_add x xs) = distinct xs"
  by (auto simp: set_add_def)

lemma set_del_distinct [simp]: "distinct xs \<Longrightarrow> distinct (set_del x xs)"
  by (simp add: set_del_def)

subsection \<open>Neighbours in a list\<close>

text \<open>\<open>for (i...) { interval[i], checkpoint[i], checkpoint[i + 1] }\<close>.\<close>

lemma zip_neighbours:
  assumes "length is = length cs - 1" "2 \<le> length cs"
  shows "length (zip is (zip cs (tl cs))) = length is" "zip is (zip cs (tl cs)) \<noteq> []"
    "map (\<lambda>x. snd (snd x)) (zip is (zip cs (tl cs))) = tl cs"
    "snd (snd (last (zip is (zip cs (tl cs))))) = last cs"
proof -
  show l: "length (zip is (zip cs (tl cs))) = length is" using assms by simp
  then show ne: "zip is (zip cs (tl cs)) \<noteq> []" using assms by (cases "zip is (zip cs (tl cs))") auto
  have "map (\<lambda>x. snd (snd x)) (zip is (zip cs (tl cs))) = map snd (map snd (zip is (zip cs (tl cs))))"
    by simp
  also have "\<dots> = tl cs" using assms by (simp add: map_snd_zip_take)
  finally show m: "map (\<lambda>x. snd (snd x)) (zip is (zip cs (tl cs))) = tl cs" .
  have "snd (snd (last (zip is (zip cs (tl cs))))) = last (map (\<lambda>x. snd (snd x)) (zip is (zip cs (tl cs))))"
    using last_map [OF ne, of "\<lambda>x. snd (snd x)"] by simp
  also have "\<dots> = last cs" unfolding m using assms(2) by (cases cs; cases "tl cs") auto
  finally show "snd (snd (last (zip is (zip cs (tl cs))))) = last cs" .
qed

lemma last_indexed: "xs \<noteq> [] \<Longrightarrow> snd (last (zip [0..<length xs] xs)) = last xs"
  by (subst last_zip) auto

end
