(* ===== verification/Tick_Math.thy ===== *)
theory Tick_Math
  imports Liq_Prelude Complex_Main
begin

section \<open>Ticks and square-root prices\<close>

text \<open>
  The tick table of \<open>src/backtest/principal.ts\<close>: the canonical bounds, the multipliers
  and \<open>sqrtRatioAtTick\<close>.  The lemmas show that the integer computation is strictly
  increasing in the tick over the whole canonical domain: the multiplier chain stays within
  20 units of an exact product of rationals, whose factor per tick is bounded by
  \<open>tick_gap\<close>, and the gap survives the inversion for positive ticks and the rounding up of
  the last 32 bits.
\<close>

definition MIN_TICK :: int where "MIN_TICK = -887272"
definition MAX_TICK :: int where "MAX_TICK = 887272"
definition MIN_SQRT_RATIO :: int where "MIN_SQRT_RATIO = 4295128739"
definition MAX_SQRT_RATIO :: int where
  "MAX_SQRT_RATIO = 1461446703485210103287273052203988822378723970342"
definition Q96 :: int where "Q96 = 2 ^ 96"
definition Q128 :: int where "Q128 = 2 ^ 128"
definition UINT128_MAX :: int where "UINT128_MAX = 2 ^ 128 - 1"
definition UINT256_MAX :: int where "UINT256_MAX = 2 ^ 256 - 1"

lemmas tick_consts = MIN_TICK_def MAX_TICK_def MIN_SQRT_RATIO_def MAX_SQRT_RATIO_def
  Q96_def Q128_def UINT128_MAX_def UINT256_MAX_def

definition TICK_MULTIPLIERS :: "int list" where
  "TICK_MULTIPLIERS = [
     0xfffcb933bd6fad37aa2d162d1a594001,
     0xfff97272373d413259a46990580e213a,
     0xfff2e50f5f656932ef12357cf3c7fdcc,
     0xffe5caca7e10e4e61c3624eaa0941cd0,
     0xffcb9843d60f6159c9db58835c926644,
     0xff973b41fa98c081472e6896dfb254c0,
     0xff2ea16466c96a3843ec78b326b52861,
     0xfe5dee046a99a2a811c461f1969c3053,
     0xfcbe86c7900a88aedcffc83b479aa3a4,
     0xf987a7253ac413176f2b074cf7815e54,
     0xf3392b0822b70005940c7a398e4b70f3,
     0xe7159475a2c29b7443b29c7fa6e889d9,
     0xd097f3bdfd2022b8845ad8f792aa5825,
     0xa9f746462d870fdf8a65dc1f90e061e5,
     0x70d869a156d2a1b890bb3df62baf32f7,
     0x31be135f97d08fd981231505542fcfa6,
     0x9aa508b5b7a84e1c677de54f3e99bc9,
     0x5d6af8dedb81196699c329225ee604,
     0x2216e584f5fa1ea926041bedfe98,
     0x48a170391f7dc42444e8fa2]"

definition requireTick :: "int \<Rightarrow> unit res" where
  "requireTick tick =
     (if \<not> safe_integer tick \<or> tick < MIN_TICK \<or> tick > MAX_TICK
      then Inl (''Tick '' @ show_int tick @ '' is outside the canonical Uniswap V3 range'')
      else Inr ())"

text \<open>The loop of \<open>sqrtRatioAtTick\<close> over the bits of the absolute tick.\<close>

definition tick_step :: "int \<Rightarrow> nat \<times> int \<Rightarrow> int \<Rightarrow> int" where
  "tick_step a = (\<lambda>(i, m) ratio.
     if a AND push_bit i 1 \<noteq> 0 then drop_bit 128 (ratio * m) else ratio)"

definition tick_ratio :: "int \<Rightarrow> int" where
  "tick_ratio a =
     fold (tick_step a) (zip [1..<length TICK_MULTIPLIERS] (tl TICK_MULTIPLIERS))
       (if a AND 1 = 0 then Q128 else TICK_MULTIPLIERS ! 0)"

definition round_up_32 :: "int \<Rightarrow> int" where
  "round_up_32 ratio =
     drop_bit 32 ratio + (if ratio AND (push_bit 32 1 - 1) = 0 then 0 else 1)"

definition sqrt_ratio :: "int \<Rightarrow> int" where
  "sqrt_ratio tick =
     (let ratio = tick_ratio \<bar>tick\<bar>
      in round_up_32 (if tick > 0 then UINT256_MAX sdiv ratio else ratio))"

definition sqrtRatioAtTick :: "int \<Rightarrow> int res" where
  "sqrtRatioAtTick tick = bind_ok (requireTick tick) (\<lambda>_. Inr (sqrt_ratio tick))"

subsection \<open>The multiplier chain as an exact product\<close>

fun chain_prod :: "int list \<Rightarrow> int \<Rightarrow> real" where
  "chain_prod [] a = 1"
| "chain_prod (m # ms) a = (if odd a then m / 2 ^ 128 else 1) * chain_prod ms (a div 2)"

fun chain_ok :: "real \<Rightarrow> int list \<Rightarrow> bool" where
  "chain_ok q [] = True"
| "chain_ok q (m # ms) = (m / 2 ^ 128 \<le> q \<and> chain_ok (q * (m / 2 ^ 128)) ms)"

definition in_unit :: "int list \<Rightarrow> bool" where
  "in_unit ms \<longleftrightarrow> (\<forall>m\<in>set ms. 0 < m \<and> m \<le> 2 ^ 128)"

lemma chain_prod_pos: "in_unit ms \<Longrightarrow> 0 < chain_prod ms a"
  by (induction ms a rule: chain_prod.induct) (auto simp: in_unit_def)

fun chain_min :: "int list \<Rightarrow> real" where
  "chain_min [] = 1"
| "chain_min (m # ms) = m / 2 ^ 128 * chain_min ms"

lemma chain_prod_ge: "in_unit ms \<Longrightarrow> chain_min ms \<le> chain_prod ms a"
proof (induction ms a rule: chain_prod.induct)
  case (1 a)
  then show ?case by simp
next
  case (2 m ms a)
  then have IH: "chain_min ms \<le> chain_prod ms (a div 2)"
    and m: "0 < real_of_int m / 2 ^ 128" "real_of_int m / 2 ^ 128 \<le> 1"
    and pos: "0 < chain_prod ms (a div 2)"
    by (auto simp: in_unit_def chain_prod_pos)
  have "real_of_int m / 2 ^ 128 * chain_min ms \<le> real_of_int m / 2 ^ 128 * chain_prod ms (a div 2)"
    using IH m(1) by (intro mult_left_mono) auto
  moreover have "real_of_int m / 2 ^ 128 * chain_prod ms (a div 2) \<le> 1 * chain_prod ms (a div 2)"
    using m pos by (intro mult_right_mono) auto
  ultimately show ?case
    using order_trans by (cases "odd a") (simp_all only: chain_prod.simps chain_min.simps if_True
      if_False mult_1 not_False_eq_True)
qed

lemma chain_prod_step:
  "in_unit ms \<Longrightarrow> chain_ok q ms \<Longrightarrow> 0 < q \<Longrightarrow> 0 \<le> a \<Longrightarrow> a + 1 < 2 ^ length ms \<Longrightarrow>
     chain_prod ms (a + 1) \<le> q * chain_prod ms a"
proof (induction ms arbitrary: q a)
  case Nil
  then show ?case by simp
next
  case (Cons m ms)
  let ?x = "real_of_int m / 2 ^ 128"
  have x: "0 < ?x" "in_unit ms" using Cons.prems(1) by (auto simp: in_unit_def)
  have pos: "0 < chain_prod ms (a div 2)" by (rule chain_prod_pos [OF x(2)])
  show ?case
  proof (cases "odd a")
    case True
    then have up: "(a + 1) div 2 = a div 2 + 1" "even (a + 1)" by presburger+
    have "a div 2 + 1 < 2 ^ length ms" using Cons.prems(5) True by simp presburger
    with Cons.IH [of "q * ?x" "a div 2"] Cons.prems x
    have "chain_prod ms (a div 2 + 1) \<le> q * ?x * chain_prod ms (a div 2)" by simp
    with True up show ?thesis by (simp add: algebra_simps)
  next
    case False
    then have "(a + 1) div 2 = a div 2" "odd (a + 1)" by presburger+
    moreover have "?x * chain_prod ms (a div 2) \<le> q * chain_prod ms (a div 2)"
      using Cons.prems(2) pos by (intro mult_right_mono) auto
    ultimately show ?thesis using False by simp
  qed
qed

lemma and_push_bit_eq_0_iff: "(a::int) AND push_bit j 1 = 0 \<longleftrightarrow> even (a div 2 ^ j)"
  by (simp add: and_exp_eq_0_iff_not_bit bit_iff_odd)

lemma and_power_eq_0_iff: "(a::int) AND 2 ^ j = 0 \<longleftrightarrow> even (a div 2 ^ j)"
  by (simp add: and_exp_eq_0_iff_not_bit bit_iff_odd)

lemma tick_step_error:
  fixes X e :: real and a m r :: int and j :: nat
  assumes "0 \<le> r" "real_of_int r \<le> X" "X \<le> r + e" "0 < m" "m \<le> 2 ^ 128" "0 \<le> e"
  defines "x \<equiv> if odd (a div 2 ^ j) then real_of_int m / 2 ^ 128 else 1"
  shows "0 \<le> tick_step a (j, m) r" and "tick_step a (j, m) r \<le> X * x"
    and "X * x \<le> tick_step a (j, m) r + (e + 1)"
proof -
  let ?r = "tick_step a (j, m) r"
  have "0 \<le> ?r \<and> real_of_int ?r \<le> X * x \<and> X * x \<le> ?r + (e + 1)"
  proof (cases "odd (a div 2 ^ j)")
    case False
    then have "?r = r" "x = 1" by (simp_all add: tick_step_def and_power_eq_0_iff x_def)
    with assms show ?thesis by simp
  next
    case True
    then have r: "?r = r * m div 2 ^ 128" and x: "x = real_of_int m / 2 ^ 128"
      by (simp_all add: tick_step_def and_power_eq_0_iff x_def drop_bit_eq_div)
    have "0 \<le> r * m" using assms by simp
    then have nn: "0 \<le> ?r" by (simp add: r pos_imp_zdiv_nonneg_iff)
    have "2 ^ 128 * ?r \<le> r * m" "r * m < 2 ^ 128 * ?r + 2 ^ 128"
      unfolding r by (rule floor_div_bounds, simp)+
    then have "real_of_int (2 ^ 128 * ?r) \<le> real_of_int (r * m)"
      "real_of_int (r * m) < real_of_int (2 ^ 128 * ?r + 2 ^ 128)"
      by (simp_all only: of_int_le_iff of_int_less_iff)
    then have lo: "real_of_int ?r \<le> r * x" and hi: "r * x < ?r + 1" by (simp_all add: x field_simps)
    have x01: "0 \<le> x" "x \<le> 1" using assms(4,5) by (simp_all add: x)
    have "r * x \<le> X * x" using assms(2) x01 by (intro mult_right_mono) auto
    moreover have "X * x \<le> (r + e) * x" using assms(3) x01 by (intro mult_right_mono) auto
    moreover have "e * x \<le> e * 1" using assms(6) x01 by (intro mult_left_mono) auto
    ultimately show ?thesis using lo hi nn by (simp add: algebra_simps)
  qed
  then show "0 \<le> ?r" "?r \<le> X * x" "X * x \<le> ?r + (e + 1)" by auto
qed

lemma tick_fold_error:
  fixes X e :: real and a r :: int and j :: nat
  assumes "in_unit ms" "0 \<le> r" "real_of_int r \<le> X" "X \<le> r + e" "0 \<le> e"
  defines "r' \<equiv> fold (tick_step a) (zip [j..<j + length ms] ms) r"
  shows "0 \<le> r' \<and> real_of_int r' \<le> X * chain_prod ms (a div 2 ^ j) \<and>
    X * chain_prod ms (a div 2 ^ j) \<le> r' + (e + length ms)"
  unfolding r'_def using assms(1-5)
proof (induction ms arbitrary: r X e j)
  case Nil
  then show ?case by simp
next
  case (Cons m ms)
  let ?x = "if odd (a div 2 ^ j) then real_of_int m / 2 ^ 128 else 1"
  have m: "0 < m" "m \<le> 2 ^ 128" "in_unit ms" using Cons.prems(1) by (auto simp: in_unit_def)
  note step = tick_step_error [OF Cons.prems(2,3,4) m(1,2) Cons.prems(5), of a j]
  have "a div 2 ^ j div 2 = a div 2 ^ Suc j" by (metis power_Suc2 zdiv_zmult2_eq zero_le_numeral)
  then have split: "X * chain_prod (m # ms) (a div 2 ^ j) = X * ?x * chain_prod ms (a div 2 ^ Suc j)"
    by simp
  have zip: "zip [j..<j + length (m # ms)] (m # ms) = (j, m) # zip [Suc j..<Suc j + length ms] ms"
    by (simp add: upt_conv_Cons del: upt_Suc)
  from Cons.IH [OF m(3) step, of "Suc j"] Cons.prems(5)
  show ?case unfolding split zip by (simp add: add.assoc)
qed

subsection \<open>The gap between neighbouring ticks\<close>

definition tick_gap :: real where "tick_gap = 20009 / 20010"

text \<open>The two numeric facts about the table, in fixed point with 128 fractional bits.\<close>

fun chain_ok_fix :: "int \<Rightarrow> int list \<Rightarrow> bool" where
  "chain_ok_fix q [] = True"
| "chain_ok_fix q (m # ms) = (m \<le> q \<and> chain_ok_fix (q * m div 2 ^ 128) ms)"

fun chain_min_fix :: "int \<Rightarrow> int list \<Rightarrow> int" where
  "chain_min_fix k [] = k"
| "chain_min_fix k (m # ms) = chain_min_fix (k * m div 2 ^ 128) ms"

lemma fix_mult_le: "real_of_int (q * m div 2 ^ 128) \<le> real_of_int q * (real_of_int m / 2 ^ 128)"
  using real_of_int_div4 [of "q * m" "2 ^ 128"] by simp

lemma chain_ok_mono: "in_unit ms \<Longrightarrow> chain_ok q ms \<Longrightarrow> q \<le> q' \<Longrightarrow> chain_ok q' ms"
proof (induction ms arbitrary: q q')
  case Nil
  then show ?case by simp
next
  case (Cons m ms)
  have "q * (m / 2 ^ 128) \<le> q' * (m / 2 ^ 128)"
    using Cons.prems by (intro mult_right_mono) (auto simp: in_unit_def)
  then have "chain_ok (q' * (m / 2 ^ 128)) ms"
    using Cons.IH [of "q * (m / 2 ^ 128)"] Cons.prems by (simp add: in_unit_def)
  with Cons.prems show ?case by simp
qed

lemma chain_ok_fix: "in_unit ms \<Longrightarrow> chain_ok_fix q ms \<Longrightarrow> chain_ok (q / 2 ^ 128) ms"
proof (induction ms arbitrary: q)
  case Nil
  then show ?case by simp
next
  case (Cons m ms)
  then have ms: "in_unit ms" and IH: "chain_ok (real_of_int (q * m div 2 ^ 128) / 2 ^ 128) ms"
    by (auto simp: in_unit_def)
  have "real_of_int (q * m div 2 ^ 128) / 2 ^ 128 \<le> q / 2 ^ 128 * (m / 2 ^ 128)"
    using divide_right_mono [OF fix_mult_le, of "2 ^ 128" q m] by simp
  from chain_ok_mono [OF ms IH this] Cons.prems(2) show ?case by (simp add: divide_right_mono)
qed

lemma chain_min_fix: "in_unit ms \<Longrightarrow> real_of_int (chain_min_fix k ms) \<le> k * chain_min ms"
proof (induction ms arbitrary: k)
  case Nil
  then show ?case by simp
next
  case (Cons m ms)
  then have ms: "in_unit ms" by (simp add: in_unit_def)
  then have "0 < chain_min ms" by (induction ms) (auto simp: in_unit_def)
  then have "real_of_int (k * m div 2 ^ 128) * chain_min ms \<le> k * (m / 2 ^ 128) * chain_min ms"
    using fix_mult_le by (intro mult_right_mono) auto
  with Cons.IH [OF ms, of "k * m div 2 ^ 128"] show ?case by simp
qed

lemma multipliers_in_unit: "in_unit TICK_MULTIPLIERS"
  by (simp add: in_unit_def TICK_MULTIPLIERS_def)

lemma multipliers_ok: "chain_ok tick_gap TICK_MULTIPLIERS"
proof -
  have "chain_ok_fix (20009 * 2 ^ 128 div 20010) TICK_MULTIPLIERS"
    by (simp add: TICK_MULTIPLIERS_def)
  note chain_ok_fix [OF multipliers_in_unit this]
  moreover have "real_of_int (20009 * 2 ^ 128 div 20010) / 2 ^ 128 \<le> tick_gap"
    by (simp add: tick_gap_def)
  ultimately show ?thesis by (rule chain_ok_mono [OF multipliers_in_unit])
qed

lemma multipliers_min: "2 ^ 52 \<le> 2 ^ 128 * chain_min TICK_MULTIPLIERS"
proof -
  have "(2 ^ 52 :: int) \<le> chain_min_fix (2 ^ 128) TICK_MULTIPLIERS"
    by (simp add: TICK_MULTIPLIERS_def)
  then have "real_of_int (2 ^ 52) \<le> real_of_int (chain_min_fix (2 ^ 128) TICK_MULTIPLIERS)"
    by (simp only: of_int_le_iff)
  also have "\<dots> \<le> real_of_int (2 ^ 128) * chain_min TICK_MULTIPLIERS"
    by (rule chain_min_fix [OF multipliers_in_unit])
  finally show ?thesis by simp
qed

lemma length_multipliers [simp]: "length TICK_MULTIPLIERS = 20"
  by (simp add: TICK_MULTIPLIERS_def)

lemma multipliers_Cons: "TICK_MULTIPLIERS = TICK_MULTIPLIERS ! 0 # tl TICK_MULTIPLIERS"
  by (simp add: TICK_MULTIPLIERS_def)

lemma tick_ratio_error:
  "real_of_int (tick_ratio a) \<le> 2 ^ 128 * chain_prod TICK_MULTIPLIERS a \<and>
   2 ^ 128 * chain_prod TICK_MULTIPLIERS a \<le> real_of_int (tick_ratio a) + 19"
proof -
  let ?ms = "tl TICK_MULTIPLIERS" and ?m = "TICK_MULTIPLIERS ! 0"
  let ?r = "if a AND 1 = 0 then Q128 else ?m"
  have ms: "in_unit ?ms" "0 < ?m"
    using multipliers_in_unit multipliers_Cons by (metis in_unit_def list.set_intros)+
  have l: "length TICK_MULTIPLIERS = 1 + length ?ms" "real (length ?ms) = 19" by simp_all
  have odd: "a AND 1 = 0 \<longleftrightarrow> even a" using and_power_eq_0_iff [of a 0] by simp
  have r: "0 \<le> ?r" "real_of_int ?r \<le> real_of_int ?r + 0" using ms(2) by (simp_all add: Q128_def)
  from tick_fold_error [OF ms(1) r(1) order_refl r(2) order_refl, of a 1]
  have "real_of_int (tick_ratio a) \<le> ?r * chain_prod ?ms (a div 2) \<and>
    ?r * chain_prod ?ms (a div 2) \<le> real_of_int (tick_ratio a) + 19"
    unfolding tick_ratio_def l(1) by (simp only: l(2) power_one_right add_0_left simp_thms)
  moreover have "?r * chain_prod ?ms (a div 2) = 2 ^ 128 * chain_prod TICK_MULTIPLIERS a"
    by (subst (2) multipliers_Cons) (simp add: odd Q128_def)
  ultimately show ?thesis by simp
qed

lemma chain_prod_le_1: "in_unit ms \<Longrightarrow> chain_prod ms a \<le> 1"
proof (induction ms a rule: chain_prod.induct)
  case (1 a)
  then show ?case by simp
next
  case (2 m ms a)
  then have "chain_prod ms (a div 2) \<le> 1" "0 < chain_prod ms (a div 2)" "real_of_int m / 2 ^ 128 \<le> 1"
    "0 < real_of_int m / 2 ^ 128"
    by (auto simp: in_unit_def chain_prod_pos)
  then show ?case using mult_le_one [of "real_of_int m / 2 ^ 128" "chain_prod ms (a div 2)"] by simp
qed

lemma chain_prod_bounds:
  "2 ^ 52 \<le> 2 ^ 128 * chain_prod TICK_MULTIPLIERS a"
  "2 ^ 128 * chain_prod TICK_MULTIPLIERS a \<le> 2 ^ 128"
proof -
  show "2 ^ 52 \<le> 2 ^ 128 * chain_prod TICK_MULTIPLIERS a"
    by (rule order_trans [OF multipliers_min mult_left_mono [OF chain_prod_ge]])
      (simp_all add: multipliers_in_unit)
  show "2 ^ 128 * chain_prod TICK_MULTIPLIERS a \<le> 2 ^ 128"
    using chain_prod_le_1 [OF multipliers_in_unit, of a] by simp
qed

lemma tick_ratio_bounds: "2 ^ 51 \<le> tick_ratio a" "tick_ratio a \<le> 2 ^ 128"
proof -
  have "real_of_int (2 ^ 51) \<le> real_of_int (tick_ratio a)"
    using chain_prod_bounds(1) [of a] tick_ratio_error [of a] by simp
  then show "2 ^ 51 \<le> tick_ratio a" by (simp only: of_int_le_iff)
  have "real_of_int (tick_ratio a) \<le> real_of_int (2 ^ 128)"
    using chain_prod_bounds(2) [of a] tick_ratio_error [of a] by simp
  then show "tick_ratio a \<le> 2 ^ 128" by (simp only: of_int_le_iff)
qed

lemma tick_ratio_gap:
  assumes "0 \<le> a" "a + 1 < 2 ^ 20"
  shows "tick_ratio (a + 1) + 2 ^ 33 + 2 ^ 32 \<le> tick_ratio a"
proof -
  let ?P = "\<lambda>a. 2 ^ 128 * chain_prod TICK_MULTIPLIERS a"
  have step: "?P (a + 1) \<le> tick_gap * ?P a"
    using chain_prod_step [OF multipliers_in_unit multipliers_ok, of a] assms
    by (simp add: tick_gap_def)
  have "real_of_int (tick_ratio (a + 1)) \<le> tick_gap * ?P a"
    using step tick_ratio_error [of "a + 1"] by linarith
  moreover have "?P a \<le> tick_ratio a + 19" using tick_ratio_error [of a] by simp
  ultimately have "real_of_int (tick_ratio (a + 1) + 2 ^ 33 + 2 ^ 32) \<le> real_of_int (tick_ratio a)"
    using chain_prod_bounds(1) [of a] by (simp add: tick_gap_def)
  then show ?thesis by (simp only: of_int_le_iff)
qed

lemma tick_ratio_0: "tick_ratio 0 = 2 ^ 128"
  by (simp add: tick_ratio_def tick_step_def TICK_MULTIPLIERS_def upt_conv_Cons Q128_def)

subsection \<open>Strict monotonicity\<close>

lemma round_up_32_ceil: "round_up_32 r = (r + 2 ^ 32 - 1) div 2 ^ 32"
proof -
  let ?b = "2 ^ 32 :: int"
  define d m where "d = r div ?b" and "m = r mod ?b"
  let ?q = "d + (if m = 0 then 0 else 1)"
  have r: "r = ?b * d + m" "0 \<le> m" "m < ?b" by (simp_all add: d_def m_def)
  have "(r + ?b - 1) div ?b \<le> ?q"
    by (subst ceil_div_le_iff, simp) (use r in auto)
  moreover have "?q \<le> (r + ?b - 1) div ?b"
    by (subst le_div_iff, simp) (use r in auto)
  moreover have "round_up_32 r = ?q"
    using take_bit_eq_mask [of 32 r]
    by (simp add: round_up_32_def drop_bit_eq_div take_bit_eq_mod mask_eq_exp_minus_1 d_def m_def)
  ultimately show ?thesis by simp
qed

lemma round_up_32_strict:
  assumes "r + 2 ^ 32 \<le> r'"
  shows "round_up_32 r < round_up_32 r'"
proof -
  have "(r + 2 ^ 32 - 1 + 2 ^ 32) div 2 ^ 32 \<le> (r' + 2 ^ 32 - 1) div 2 ^ 32"
    using assms by (intro zdiv_mono1) auto
  then show ?thesis by (simp add: round_up_32_ceil)
qed

lemma inverse_gap:
  assumes "0 < r" "r + 2 ^ 33 + 2 ^ 32 \<le> r'" "r' \<le> 2 ^ 128"
  shows "UINT256_MAX div r' + 2 ^ 32 + 1 \<le> UINT256_MAX div r"
proof -
  let ?q = "UINT256_MAX div r'"
  have r': "0 < r'" using assms by simp
  have q: "r' * ?q \<le> UINT256_MAX" using floor_div_bounds(1) [OF r'] .
  have "r' * (2 ^ 128 - 1) \<le> 2 ^ 128 * (2 ^ 128 - 1)" using assms(3) by (intro mult_right_mono) auto
  then have "2 ^ 128 - 1 \<le> ?q" by (simp add: le_div_iff [OF r'] UINT256_MAX_def)
  then have *: "(2 ^ 33 + 2 ^ 32) * (2 ^ 128 - 1) \<le> (2 ^ 33 + 2 ^ 32) * ?q" "0 \<le> ?q" by simp_all
  have "r * (2 ^ 32 + 1) \<le> 2 ^ 128 * (2 ^ 32 + 1)" using assms by (intro mult_right_mono) auto
  moreover have "(r + (2 ^ 33 + 2 ^ 32)) * ?q \<le> r' * ?q"
    using assms(2) *(2) by (intro mult_right_mono) auto
  ultimately have "r * (?q + 2 ^ 32 + 1) \<le> UINT256_MAX"
    using q *(1) by (simp add: algebra_simps)
  then show ?thesis using le_div_iff [OF assms(1)] by (simp add: add.assoc)
qed

lemma sqrt_ratio_next:
  assumes "- (2 ^ 20) < t" "t + 1 < 2 ^ 20"
  shows "sqrt_ratio t < sqrt_ratio (t + 1)"
proof (cases "t < 0")
  case True
  then have t: "\<bar>t\<bar> = \<bar>t + 1\<bar> + 1" "\<not> 0 < t" "\<not> 0 < t + 1" by auto
  then show ?thesis
    using True assms tick_ratio_gap [of "\<bar>t + 1\<bar>"]
    by (simp add: sqrt_ratio_def Let_def round_up_32_strict)
next
  case False
  let ?r = "tick_ratio t" and ?r' = "tick_ratio (t + 1)"
  have pos: "0 < ?r" "0 < ?r'" using tick_ratio_bounds(1) [of t] tick_ratio_bounds(1) [of "t + 1"]
    by simp_all
  have "?r' + 2 ^ 33 + 2 ^ 32 \<le> ?r" using False assms tick_ratio_gap [of t] by simp
  from inverse_gap [OF pos(2) this tick_ratio_bounds(2)]
  have gap: "UINT256_MAX div ?r + 2 ^ 32 + 1 \<le> UINT256_MAX div ?r'" .
  have new: "sqrt_ratio (t + 1) = round_up_32 (UINT256_MAX div ?r')"
    using False pos by (simp add: sqrt_ratio_def Let_def sdiv_nonneg UINT256_MAX_def)
  have old: "sqrt_ratio t = round_up_32 (UINT256_MAX div ?r + (if t = 0 then 1 else 0))"
    using False pos
    by (auto simp: sqrt_ratio_def Let_def sdiv_nonneg tick_ratio_0 UINT256_MAX_def)
  show ?thesis unfolding old new by (rule round_up_32_strict) (use gap in auto)
qed

lemma sqrt_ratio_strict_mono:
  assumes "t < u" "- (2 ^ 20) < t" "u < 2 ^ 20"
  shows "sqrt_ratio t < sqrt_ratio u"
  using assms
proof (induction u rule: int_gr_induct)
  case base
  then show ?case using sqrt_ratio_next [of t] by simp
next
  case (step u)
  then show ?case using sqrt_ratio_next [of u] by fastforce
qed

text \<open>What \<open>simp\<close> needs to evaluate a ratio at a numeral.\<close>

lemmas tick_eval = sqrt_ratio_def tick_ratio_def tick_step_def round_up_32_def tick_consts
  TICK_MULTIPLIERS_def upt_conv_Cons signed_divide_int_def

lemma sqrt_ratio_min: "sqrt_ratio MIN_TICK = MIN_SQRT_RATIO"
  by (simp add: tick_eval)

lemma sqrt_ratio_max: "sqrt_ratio MAX_TICK = MAX_SQRT_RATIO"
  by (simp add: tick_eval)

subsection \<open>The price table as an interface\<close>

text \<open>
  What the callers of \<open>sqrtRatioAtTick\<close> rely on: the ratios increase strictly over the
  tick domain.  Every other fact about ranges and ticks follows from that.
\<close>

locale tick_prices =
  fixes ratio :: "int \<Rightarrow> int" and lo hi :: int
  assumes lo_less_hi: "lo < hi"
    and ratio_strict: "lo \<le> t \<Longrightarrow> t < u \<Longrightarrow> u \<le> hi \<Longrightarrow> ratio t < ratio u"
begin

lemma ratio_less_iff:
  "lo \<le> t \<Longrightarrow> t \<le> hi \<Longrightarrow> lo \<le> u \<Longrightarrow> u \<le> hi \<Longrightarrow> ratio t < ratio u \<longleftrightarrow> t < u"
  using ratio_strict [of t u] ratio_strict [of u t] by (cases t u rule: linorder_cases) auto

lemma ratio_le_iff:
  "lo \<le> t \<Longrightarrow> t \<le> hi \<Longrightarrow> lo \<le> u \<Longrightarrow> u \<le> hi \<Longrightarrow> ratio t \<le> ratio u \<longleftrightarrow> t \<le> u"
  using ratio_less_iff [of u t] by (simp add: not_less flip: not_le)

lemma ratio_range: "lo \<le> t \<Longrightarrow> t \<le> hi \<Longrightarrow> ratio lo \<le> ratio t \<and> ratio t \<le> ratio hi"
  using ratio_le_iff [of lo t] ratio_le_iff [of t hi] lo_less_hi by simp

text \<open>A price belongs to at most one tick.\<close>

lemma tick_unique:
  assumes "lo \<le> t" "t < hi" "ratio t \<le> p" "p < ratio (t + 1)"
    and "lo \<le> u" "u < hi" "ratio u \<le> p" "p < ratio (u + 1)"
  shows "t = u"
proof (rule ccontr)
  assume "t \<noteq> u"
  then have "t + 1 \<le> u \<or> u + 1 \<le> t" by linarith
  then have "ratio (t + 1) \<le> ratio u \<or> ratio (u + 1) \<le> ratio t"
    using assms(1,2,5,6) ratio_le_iff by auto
  then show False using assms by auto
qed

end

interpretation ticks: tick_prices sqrt_ratio MIN_TICK MAX_TICK
  by unfold_locales (auto simp: MIN_TICK_def MAX_TICK_def intro!: sqrt_ratio_strict_mono)

lemma sqrtRatioAtTick_Inr_iff:
  "sqrtRatioAtTick t = Inr p \<longleftrightarrow> MIN_TICK \<le> t \<and> t \<le> MAX_TICK \<and> p = sqrt_ratio t"
  by (auto simp: sqrtRatioAtTick_def requireTick_def safe_integer_def MIN_TICK_def MAX_TICK_def)

lemma sqrt_ratio_range:
  "MIN_TICK \<le> t \<Longrightarrow> t \<le> MAX_TICK \<Longrightarrow> MIN_SQRT_RATIO \<le> sqrt_ratio t \<and> sqrt_ratio t \<le> MAX_SQRT_RATIO"
  using ticks.ratio_range [of t] by (simp add: sqrt_ratio_min sqrt_ratio_max)

lemma sqrt_ratio_pos: "MIN_TICK \<le> t \<Longrightarrow> t \<le> MAX_TICK \<Longrightarrow> 0 < sqrt_ratio t"
  using sqrt_ratio_range [of t] by (simp add: MIN_SQRT_RATIO_def)

subsection \<open>Properties\<close>

text \<open>
  \<open>sqrtRatioAtTick\<close> is strictly increasing over the canonical tick domain: of two
  ticks that it accepts, the larger one has the larger price, and the smaller one the
  smaller.
\<close>

theorem sqrtRatioAtTick_strict_mono:
  assumes "sqrtRatioAtTick t = Inr p" "sqrtRatioAtTick u = Inr q"
  shows "t < u \<longleftrightarrow> p < q"
  using assms ticks.ratio_less_iff by (auto simp: sqrtRatioAtTick_Inr_iff)

theorem sqrtRatioAtTick_strict_mono_witness:
  "sqrtRatioAtTick (- 1) = Inr 79224201403219477170569942574 \<and>
   sqrtRatioAtTick 1 = Inr 79232123823359799118286999568 \<and>
   ((-1::int) < 1 \<longleftrightarrow> (79224201403219477170569942574::int) < 79232123823359799118286999568)"
proof -
  have a: "sqrtRatioAtTick (- 1) = Inr 79224201403219477170569942574"
    and b: "sqrtRatioAtTick 1 = Inr 79232123823359799118286999568"
    by (simp_all add: sqrtRatioAtTick_Inr_iff tick_eval)
  from a b sqrtRatioAtTick_strict_mono [OF a b] show ?thesis by blast
qed

text \<open>
  \<open>sqrtRatioAtTick\<close> accepts exactly the canonical ticks, and its results run from
  \<open>MIN_SQRT_RATIO\<close> at the lowest tick to \<open>MAX_SQRT_RATIO\<close> at the highest, so a
  tick's price never leaves the canonical price range.
\<close>

theorem sqrtRatioAtTick_domain_and_range:
  "((\<exists>p. sqrtRatioAtTick t = Inr p) \<longleftrightarrow> MIN_TICK \<le> t \<and> t \<le> MAX_TICK) \<and>
   sqrtRatioAtTick MIN_TICK = Inr MIN_SQRT_RATIO \<and> sqrtRatioAtTick MAX_TICK = Inr MAX_SQRT_RATIO \<and>
   {p. sqrtRatioAtTick t = Inr p} \<subseteq> {MIN_SQRT_RATIO..MAX_SQRT_RATIO}"
proof (intro conjI)
  show "(\<exists>p. sqrtRatioAtTick t = Inr p) \<longleftrightarrow> MIN_TICK \<le> t \<and> t \<le> MAX_TICK"
    by (auto simp: sqrtRatioAtTick_Inr_iff)
  show "sqrtRatioAtTick MIN_TICK = Inr MIN_SQRT_RATIO" "sqrtRatioAtTick MAX_TICK = Inr MAX_SQRT_RATIO"
    by (simp_all add: sqrtRatioAtTick_Inr_iff sqrt_ratio_min sqrt_ratio_max)
      (simp_all add: MIN_TICK_def MAX_TICK_def)
  show "{p. sqrtRatioAtTick t = Inr p} \<subseteq> {MIN_SQRT_RATIO..MAX_SQRT_RATIO}"
    using sqrt_ratio_range by (auto simp: sqrtRatioAtTick_Inr_iff)
qed

end
