(* ===== verification/Fee_Accounting.thy ===== *)
theory Fee_Accounting
  imports Tick_Math
begin

section \<open>Fee growth and position fees\<close>

text \<open>
  \<open>src/accounting/math.ts\<close>: the subtraction modulo \<open>2^256\<close> of the pool contract's
  fee-growth counters, the growth inside a range, and the fees a position can claim.  The
  source works on unbounded \<open>bigint\<close>s and reduces by hand; the lemmas show that this is
  subtraction of 256-bit words.
\<close>

definition Q256 :: int where "Q256 = 2 ^ 256"

definition uint256 :: "int \<Rightarrow> int" where
  "uint256 x = (let reduced = x smod Q256 in if reduced < 0 then reduced + Q256 else reduced)"

definition subtractUint256 :: "int \<Rightarrow> int \<Rightarrow> int" where
  "subtractUint256 left right = uint256 (left - right)"

definition feeGrowthInside :: "int \<Rightarrow> int \<Rightarrow> int \<Rightarrow> int \<Rightarrow> int \<Rightarrow> int \<Rightarrow> int" where
  "feeGrowthInside currentTick feeGrowthGlobal lowerOutside lowerTick upperTick upperOutside =
     (let below = (if currentTick \<ge> lowerTick then lowerOutside
                   else subtractUint256 feeGrowthGlobal lowerOutside);
          above = (if currentTick < upperTick then upperOutside
                   else subtractUint256 feeGrowthGlobal upperOutside)
      in subtractUint256 (subtractUint256 feeGrowthGlobal below) above)"

record position_fee_input =
  feeGrowthInside0Last :: int
  feeGrowthInside0Now :: int
  feeGrowthInside1Last :: int
  feeGrowthInside1Now :: int
  fi_liquidity :: int
  tokensOwed0 :: int
  tokensOwed1 :: int

record position_fees =
  claimable0 :: int
  claimable1 :: int
  pending0 :: int
  pending1 :: int

definition calculatePositionFees :: "position_fee_input \<Rightarrow> position_fees res" where
  "calculatePositionFees i =
     (if fi_liquidity i < 0 \<or> fi_liquidity i > UINT128_MAX \<or> tokensOwed0 i < 0 \<or>
         tokensOwed0 i > UINT128_MAX \<or> tokensOwed1 i < 0 \<or> tokensOwed1 i > UINT128_MAX
      then Inl ''Position fee accounting input exceeds uint128 bounds''
      else
        let p0 = (subtractUint256 (feeGrowthInside0Now i) (feeGrowthInside0Last i) * fi_liquidity i) sdiv Q128;
            p1 = (subtractUint256 (feeGrowthInside1Now i) (feeGrowthInside1Last i) * fi_liquidity i) sdiv Q128
        in if p0 > UINT128_MAX \<or> p1 > UINT128_MAX \<or> tokensOwed0 i + p0 > UINT128_MAX \<or>
              tokensOwed1 i + p1 > UINT128_MAX
           then Inl ''Position fee accounting exceeds uint128 bounds''
           else Inr \<lparr>claimable0 = tokensOwed0 i + p0, claimable1 = tokensOwed1 i + p1,
                     pending0 = p0, pending1 = p1\<rparr>)"

subsection \<open>The reduction is arithmetic modulo \<open>2^256\<close>\<close>

lemma uint256_mod: "uint256 x = x mod Q256"
proof -
  have q: "0 < Q256" by (simp add: Q256_def)
  show ?thesis
  proof (cases "0 \<le> x")
    case True
    then show ?thesis using q by (simp add: uint256_def Let_def smod_nonneg not_less)
  next
    case False
    then have r: "x smod Q256 = - ((- x) mod Q256)" using q by (simp add: signed_modulo_int_def)
    have m: "(- x) mod Q256 = (if x mod Q256 = 0 then 0 else Q256 - x mod Q256)"
      by (rule zmod_zminus1_eq_if)
    have "0 \<le> x mod Q256" "x mod Q256 < Q256" using q by simp_all
    then show ?thesis unfolding uint256_def Let_def r m by auto
  qed
qed

lemma subtractUint256_mod: "subtractUint256 a b = (a - b) mod Q256"
  by (simp add: subtractUint256_def uint256_mod)

lemma subtractUint256_range: "0 \<le> subtractUint256 a b" "subtractUint256 a b < Q256"
  by (simp_all add: subtractUint256_mod Q256_def)

lemma diff_mod_cancel: "(g - (x + (g - y) mod m)) mod m = (y - x) mod (m::int)"
  using mod_diff_right_eq [of "g - x" "g - y" m] by (simp add: algebra_simps)

lemma feeGrowthInside_mod:
  "feeGrowthInside t g lo a b uo =
     (if t < a then lo - uo else if t < b then g - lo - uo else uo - lo) mod Q256" if "a \<le> b"
  using that by (auto simp: feeGrowthInside_def Let_def subtractUint256_mod mod_simps algebra_simps diff_mod_cancel)

lemma calculatePositionFees_Inr:
  assumes "calculatePositionFees i = Inr f"
  shows "0 \<le> fi_liquidity i" "fi_liquidity i \<le> UINT128_MAX"
    and "pending0 f = subtractUint256 (feeGrowthInside0Now i) (feeGrowthInside0Last i) * fi_liquidity i div Q128"
    and "pending1 f = subtractUint256 (feeGrowthInside1Now i) (feeGrowthInside1Last i) * fi_liquidity i div Q128"
    and "claimable0 f = tokensOwed0 i + pending0 f" "claimable1 f = tokensOwed1 i + pending1 f"
    and "0 \<le> tokensOwed0 i" "0 \<le> tokensOwed1 i"
    and "claimable0 f \<le> UINT128_MAX" "claimable1 f \<le> UINT128_MAX"
  using assms
  by (auto simp: calculatePositionFees_def Let_def sdiv_nonneg subtractUint256_range Q128_def
      split: if_splits)

subsection \<open>Properties\<close>

text \<open>
  \<open>subtractUint256\<close>, written with \<open>bigint\<close> remainders and a sign fix-up, is exactly
  the subtraction of 256-bit machine words, for every pair of integers, negative ones too.
\<close>

theorem subtractUint256_is_word_subtraction:
  "subtractUint256 a b = uint (word_of_int a - word_of_int b :: 256 word)"
proof -
  have "word_of_int a - word_of_int b = (word_of_int (a - b) :: 256 word)" by simp
  then show ?thesis by (simp only: uint_word_of_int subtractUint256_mod Q256_def) simp
qed

text \<open>
  fee growth accrues to a range exactly while the pool's tick is inside it: adding any
  growth \<open>d\<close> to the pool's global counter adds \<open>d\<close>, modulo \<open>2^256\<close>, to the growth inside
  \<open>[a, b)\<close> when \<open>a \<le> t < b\<close>, and adds nothing when \<open>t\<close> is outside.
\<close>

theorem feeGrowthInside_accrues_in_range:
  assumes "a < b"
  shows "feeGrowthInside t (g + d) lo a b uo =
    (if a \<le> t \<and> t < b then uint256 (feeGrowthInside t g lo a b uo + d)
     else feeGrowthInside t g lo a b uo)"
  using assms by (auto simp: feeGrowthInside_mod uint256_mod mod_simps algebra_simps)

theorem feeGrowthInside_accrues_in_range_witness:
  "(-60::int) < 60 \<and> feeGrowthInside 0 (100 + 7) 10 (-60) 60 20 = 77 \<and>
   feeGrowthInside 60 (100 + 7) 10 (-60) 60 20 = feeGrowthInside 60 100 10 (-60) 60 20"
proof -
  have h: "(-60::int) < 60" by simp
  from feeGrowthInside_accrues_in_range [OF h, of 0 100 7 10 20]
    feeGrowthInside_accrues_in_range [OF h, of 60 100 7 10 20]
  show ?thesis by (simp add: feeGrowthInside_mod uint256_mod Q256_def)
qed

text \<open>
  Growth inside is additive over adjacent ranges: with the same outside counter at the
  shared tick, the growth inside \<open>[a, b)\<close> and the growth inside \<open>[b, c)\<close> add up, modulo
  \<open>2^256\<close>, to the growth inside \<open>[a, c)\<close>, wherever the pool's tick is.
\<close>

theorem feeGrowthInside_additive:
  assumes "a \<le> b" "b \<le> c"
  shows "uint256 (feeGrowthInside t g ao a b bo + feeGrowthInside t g bo b c co) =
    feeGrowthInside t g ao a c co"
  using assms by (auto simp: feeGrowthInside_mod uint256_mod mod_simps algebra_simps)

theorem feeGrowthInside_additive_witness:
  "(-60::int) \<le> 0 \<and> (0::int) \<le> 60 \<and>
   uint256 (feeGrowthInside 5 100 3 (-60) 0 4 + feeGrowthInside 5 100 4 0 60 9) =
     feeGrowthInside 5 100 3 (-60) 60 9"
proof -
  have h: "(-60::int) \<le> 0" "(0::int) \<le> 60" by simp_all
  from feeGrowthInside_additive [OF h, of 5 100 3 4 9] h show ?thesis by blast
qed


definition sample_fees :: position_fee_input where
  "sample_fees = \<lparr>feeGrowthInside0Last = 2 ^ 256 - 2 ^ 130, feeGrowthInside0Now = 2 ^ 130,
     feeGrowthInside1Last = 0, feeGrowthInside1Now = 5, fi_liquidity = 1000,
     tokensOwed0 = 1, tokensOwed1 = 2\<rparr>"


end
