(* ===== verification/Backtest_Domain.thy ===== *)
theory Backtest_Domain
  imports Liq_Prelude
begin

section \<open>Shared records of the backtests\<close>

text \<open>
  \<open>src/backtest/domain.ts\<close>: the accounting runs every snapshot refers to, and the inputs
  and outputs of the stable-fee baseline.  Decimal strings are the integers they denote;
  literal fields (\<open>schemaVersion\<close>, \<open>executionEligible: false\<close>, \<open>methodology\<close>) keep
  their values.
\<close>

record AccountingRunSource =
  blockHash :: string
  blockNumber :: int
  chainId :: int
  observedAt :: string
  runId :: string

record AccountingRunReference = AccountingRunSource +
  blockTimestamp :: string

record PoolIntervalInput =
  pi_activePositionsFrom :: int
  pi_activePositionsTo :: int
  pi_fee :: int
  pi_poolAddress :: string
  pi_rwaSymbol :: string
  pi_token0 :: string
  pi_token1 :: string

record PositionIntervalInput =
  feeGrowthInside0LastFromX128 :: int
  feeGrowthInside0LastToX128 :: int
  feeGrowthInside1LastFromX128 :: int
  feeGrowthInside1LastToX128 :: int
  liquidityFrom :: int
  liquidityTo :: int
  px_ownerAddress :: string
  pending0From :: int
  pending0To :: int
  pending1From :: int
  pending1To :: int
  px_poolAddress :: string
  px_tickLower :: int
  px_tickUpper :: int
  touched :: bool

record StableFeePoolBaseline =
  accrued0 :: int
  accrued1 :: int
  activePositionsFrom :: int
  activePositionsTo :: int
  enteredPositions :: int
  exitedPositions :: int
  sb_fee :: int
  pairedActivePositions :: int
  sb_poolAddress :: string
  sb_rwaSymbol :: string
  stablePositions :: int
  sb_token0 :: string
  sb_token1 :: string
  touchedPositions :: int

record StableFeeTotals =
  t_enteredPositions :: int
  t_exitedPositions :: int
  t_pairedActivePositions :: int
  t_stablePositions :: int
  t_touchedPositions :: int

record StableFeeBaseline =
  blockDelta :: int
  computedAt :: string
  elapsedSeconds :: int
  executionEligible :: bool
  from_run :: AccountingRunReference
  limitations :: "string list"
  methodology :: string
  baseline_pools :: "StableFeePoolBaseline list"
  schemaVersion :: int
  streamKey :: string
  to_run :: AccountingRunReference
  totals :: StableFeeTotals

end
