(* ===== verification/Principal.thy ===== *)
theory Principal
  imports Tick_Math Backtest_Domain
begin

section \<open>Principal amounts of a position\<close>

text \<open>
  The rest of \<open>src/backtest/principal.ts\<close>: the token amounts a position's liquidity
  stands for at a price, and the reconstruction of a snapshot of pools and positions.  The
  loops over pools and positions are folds over the loop variables; the sets of seen keys
  are lists.
\<close>

datatype PrincipalRegion = above_range | below_range | in_range

record PrincipalPositionSource =
  liquidity :: int
  ownerAddress :: string
  tickLower :: int
  tickUpper :: int

record PrincipalPoolSource =
  activePositions :: int
  pool_fee :: int
  pool_poolAddress :: string
  pool_positions :: "PrincipalPositionSource list"
  pool_rwaSymbol :: string
  pool_sqrtPriceX96 :: int
  pool_tick :: int
  pool_token0 :: string
  pool_token1 :: string

record PrincipalPositionSnapshot = PrincipalPositionSource +
  ps_amount0 :: int
  ps_amount1 :: int
  ps_poolAddress :: string
  ps_region :: PrincipalRegion
  ps_sqrtRatioLowerX96 :: int
  ps_sqrtRatioUpperX96 :: int

record PrincipalPoolSnapshot =
  aboveRangePositions :: int
  pp_amount0 :: int
  pp_amount1 :: int
  belowRangePositions :: int
  pp_fee :: int
  inRangePositions :: int
  pp_poolAddress :: string
  positionCount :: int
  pp_rwaSymbol :: string
  pp_sqrtPriceX96 :: int
  pp_tick :: int
  pp_token0 :: string
  pp_token1 :: string

record PrincipalTotals =
  total_above :: int
  total_below :: int
  total_in :: int
  total_count :: int

record PrincipalSnapshot =
  snap_computedAt :: string
  snap_executionEligible :: bool
  snap_methodology :: string
  snap_pools :: "PrincipalPoolSnapshot list"
  snap_positions :: "PrincipalPositionSnapshot list"
  snap_run :: AccountingRunReference
  snap_schemaVersion :: int
  snap_streamKey :: string
  snap_totals :: PrincipalTotals

definition requireLiquidity :: "int \<Rightarrow> unit res" where
  "requireLiquidity L =
     (if L < 0 \<or> L > UINT128_MAX then Inl ''Liquidity must fit uint128'' else Inr ())"

definition requireSqrtRatio :: "int \<Rightarrow> unit res" where
  "requireSqrtRatio p =
     (if p < MIN_SQRT_RATIO \<or> p \<ge> MAX_SQRT_RATIO
      then Inl ''Current sqrt ratio is outside the canonical pool range'' else Inr ())"

definition amount0ForLiquidity :: "int \<Rightarrow> int \<Rightarrow> int \<Rightarrow> int" where
  "amount0ForLiquidity a b L = (push_bit 96 L * (b - a)) sdiv b sdiv a"

definition amount1ForLiquidity :: "int \<Rightarrow> int \<Rightarrow> int \<Rightarrow> int" where
  "amount1ForLiquidity a b L = (L * (b - a)) sdiv Q96"

record amounts =
  amount0 :: int
  amount1 :: int
  region :: PrincipalRegion

record principal_amounts = amounts +
  sqrtRatioLowerX96 :: int
  sqrtRatioUpperX96 :: int

definition amountsForLiquidity :: "int \<Rightarrow> int \<Rightarrow> int \<Rightarrow> int \<Rightarrow> amounts res" where
  "amountsForLiquidity L price ratioA ratioB =
     bind_ok (requireLiquidity L) (\<lambda>_.
     bind_ok (requireSqrtRatio price) (\<lambda>_.
       let (lower, upper) = (if ratioA > ratioB then (ratioB, ratioA) else (ratioA, ratioB)) in
       if lower < MIN_SQRT_RATIO \<or> upper > MAX_SQRT_RATIO \<or> lower \<ge> upper
       then Inl ''Position sqrt ratios are outside the canonical range''
       else
         let (region, a0, a1) =
           (if price \<le> lower then (below_range, amount0ForLiquidity lower upper L, 0)
            else if price < upper
            then (in_range, amount0ForLiquidity price upper L, amount1ForLiquidity lower price L)
            else (above_range, 0, amount1ForLiquidity lower upper L)) in
         if a0 > UINT256_MAX \<or> a1 > UINT256_MAX then Inl ''Principal amount exceeds uint256''
         else Inr \<lparr>amount0 = a0, amount1 = a1, region = region\<rparr>))"

definition principalAmounts :: "int \<Rightarrow> int \<Rightarrow> int \<Rightarrow> int \<Rightarrow> principal_amounts res" where
  "principalAmounts L price lowerTick upperTick =
     bind_ok (requireLiquidity L) (\<lambda>_.
     bind_ok (requireSqrtRatio price) (\<lambda>_.
     bind_ok (requireTick lowerTick) (\<lambda>_.
     bind_ok (requireTick upperTick) (\<lambda>_.
       if lowerTick \<ge> upperTick then Inl ''Position lower tick must be below upper tick''
       else
         bind_ok (sqrtRatioAtTick lowerTick) (\<lambda>ratioLower.
         bind_ok (sqrtRatioAtTick upperTick) (\<lambda>ratioUpper.
         bind_ok (amountsForLiquidity L price ratioLower ratioUpper) (\<lambda>am.
           Inr (amounts.extend am
             (principal_amounts.fields ratioLower ratioUpper)))))))))"

definition validatePoolTick :: "PrincipalPoolSource \<Rightarrow> unit res" where
  "validatePoolTick pool =
     bind_ok (requireTick (pool_tick pool)) (\<lambda>_.
     bind_ok (requireSqrtRatio (pool_sqrtPriceX96 pool)) (\<lambda>_.
     bind_ok (sqrtRatioAtTick (pool_tick pool)) (\<lambda>atTick.
     bind_ok (if pool_tick pool = MAX_TICK then Inr MAX_SQRT_RATIO
              else sqrtRatioAtTick (pool_tick pool + 1)) (\<lambda>beforeNextTick.
       if pool_sqrtPriceX96 pool < atTick \<or> pool_sqrtPriceX96 pool \<ge> beforeNextTick
       then Inl (''Pool tick and sqrt price disagree for '' @ pool_poolAddress pool)
       else Inr ()))))"

text \<open>The variables of the loop over one pool's positions.\<close>

record position_loop =
  l_amount0 :: int
  l_amount1 :: int
  l_above :: int
  l_below :: int
  l_in :: int
  l_keys :: "string list"
  l_out :: "PrincipalPositionSnapshot list"

definition principal_position_key :: "PrincipalPositionSource \<Rightarrow> string" where
  "principal_position_key position =
     lower (ownerAddress position) @ '':'' @ show_int (tickLower position) @ '':'' @
     show_int (tickUpper position)"

definition position_step ::
  "PrincipalPoolSource \<Rightarrow> position_loop \<Rightarrow> PrincipalPositionSource \<Rightarrow> position_loop res" where
  "position_step pool s position =
     (if liquidity position \<le> 0 then Inl ''Principal reconstruction requires active positions''
      else
        let positionKey = principal_position_key position in
        if positionKey \<in> set (l_keys s)
        then Inl (''Duplicate principal position '' @ lower (pool_poolAddress pool) @ '':'' @ positionKey)
        else
          bind_ok (principalAmounts (liquidity position) (pool_sqrtPriceX96 pool)
                     (tickLower position) (tickUpper position)) (\<lambda>am.
            Inr \<lparr>l_amount0 = l_amount0 s + amount0 am,
                 l_amount1 = l_amount1 s + amount1 am,
                 l_above = l_above s + (if region am = above_range then 1 else 0),
                 l_below = l_below s + (if region am = below_range then 1 else 0),
                 l_in = l_in s + (if region am = in_range then 1 else 0),
                 l_keys = l_keys s @ [positionKey],
                 l_out = l_out s @ [PrincipalPositionSource.extend position
                   (PrincipalPositionSnapshot.fields (amount0 am) (amount1 am)
                      (pool_poolAddress pool) (region am)
                      (sqrtRatioLowerX96 am) (sqrtRatioUpperX96 am))]\<rparr>))"

record pool_loop =
  l_poolKeys :: "string list"
  l_pools :: "PrincipalPoolSnapshot list"
  l_positions :: "PrincipalPositionSnapshot list"

definition pool_step :: "pool_loop \<Rightarrow> PrincipalPoolSource \<Rightarrow> pool_loop res" where
  "pool_step s pool =
     (let key = lower (pool_poolAddress pool) in
      if key \<in> set (l_poolKeys s) then Inl (''Duplicate principal pool '' @ key)
      else
        bind_ok (validatePoolTick pool) (\<lambda>_.
        if int (length (pool_positions pool)) \<noteq> activePositions pool
        then Inl (''Active position count disagrees for '' @ pool_poolAddress pool)
        else
          bind_ok (fold_res (position_step pool)
                     \<lparr>l_amount0 = 0, l_amount1 = 0, l_above = 0, l_below = 0, l_in = 0,
                      l_keys = [], l_out = l_positions s\<rparr> (pool_positions pool)) (\<lambda>l.
            Inr \<lparr>l_poolKeys = l_poolKeys s @ [key],
                 l_pools = l_pools s @
                   [\<lparr>aboveRangePositions = l_above l, pp_amount0 = l_amount0 l,
                     pp_amount1 = l_amount1 l, belowRangePositions = l_below l,
                     pp_fee = pool_fee pool, inRangePositions = l_in l,
                     pp_poolAddress = pool_poolAddress pool,
                     positionCount = int (length (pool_positions pool)),
                     pp_rwaSymbol = pool_rwaSymbol pool, pp_sqrtPriceX96 = pool_sqrtPriceX96 pool,
                     pp_tick = pool_tick pool, pp_token0 = pool_token0 pool,
                     pp_token1 = pool_token1 pool\<rparr>],
                 l_positions = l_out l\<rparr>)))"

definition add_pool_totals :: "PrincipalTotals \<Rightarrow> PrincipalPoolSnapshot \<Rightarrow> PrincipalTotals" where
  "add_pool_totals acc pool =
     \<lparr>total_above = total_above acc + aboveRangePositions pool,
      total_below = total_below acc + belowRangePositions pool,
      total_in = total_in acc + inRangePositions pool,
      total_count = total_count acc + positionCount pool\<rparr>"

definition reconstructPrincipalSnapshot ::
  "string \<Rightarrow> PrincipalPoolSource list \<Rightarrow> AccountingRunReference \<Rightarrow> string \<Rightarrow> PrincipalSnapshot res"
where
  "reconstructPrincipalSnapshot now pools run stream =
     bind_ok (fold_res pool_step \<lparr>l_poolKeys = [], l_pools = [], l_positions = []\<rparr> pools) (\<lambda>l.
       Inr \<lparr>snap_computedAt = now, snap_executionEligible = False,
            snap_methodology = ''canonical_liquidity_amounts_floor'',
            snap_pools = l_pools l, snap_positions = l_positions l, snap_run = run,
            snap_schemaVersion = 1, snap_streamKey = stream,
            snap_totals = foldl add_pool_totals
              \<lparr>total_above = 0, total_below = 0, total_in = 0, total_count = 0\<rparr> (l_pools l)\<rparr>)"

subsection \<open>The amounts in closed form\<close>

lemma amount0ForLiquidity_eq:
  assumes "0 \<le> L" "0 < a" "a \<le> b"
  shows "amount0ForLiquidity a b L = L * 2 ^ 96 * (b - a) div (a * b)"
proof -
  have "0 \<le> L * 2 ^ 96 * (b - a)" using assms by simp
  then have "0 \<le> L * 2 ^ 96 * (b - a) div b" using assms by (simp add: pos_imp_zdiv_nonneg_iff)
  with assms show ?thesis
    by (simp add: amount0ForLiquidity_def push_bit_eq_mult sdiv_nonneg mult.commute [of a b]
        zdiv_zmult2_eq)
qed

lemma amount1ForLiquidity_eq:
  "0 \<le> L \<Longrightarrow> a \<le> b \<Longrightarrow> amount1ForLiquidity a b L = L * (b - a) div 2 ^ 96"
  by (simp add: amount1ForLiquidity_def Q96_def sdiv_nonneg)

lemma amount0ForLiquidity_bound:
  assumes "0 \<le> L" "L \<le> UINT128_MAX" "0 < a" "a \<le> b"
  shows "0 \<le> amount0ForLiquidity a b L" "amount0ForLiquidity a b L \<le> UINT256_MAX"
proof -
  have pos: "0 < a * b" using assms by simp
  show "0 \<le> amount0ForLiquidity a b L"
    using assms pos by (simp add: amount0ForLiquidity_eq pos_imp_zdiv_nonneg_iff)
  have "L * 2 ^ 96 * (b - a) \<le> L * 2 ^ 96 * b" using assms by (intro mult_left_mono) auto
  also have "\<dots> \<le> L * 2 ^ 96 * (a * b)" using assms by (intro mult_left_mono) auto
  also have "\<dots> \<le> UINT128_MAX * 2 ^ 96 * (a * b)" using assms by (intro mult_right_mono) auto
  also have "\<dots> < a * b * (UINT256_MAX + 1)"
    using pos by (simp add: UINT128_MAX_def UINT256_MAX_def)
  finally show "amount0ForLiquidity a b L \<le> UINT256_MAX"
    using assms by (simp add: amount0ForLiquidity_eq div_le_iff [OF pos])
qed

lemma amount1ForLiquidity_bound:
  assumes "0 \<le> L" "L \<le> UINT128_MAX" "0 < a" "a \<le> b" "b \<le> MAX_SQRT_RATIO"
  shows "0 \<le> amount1ForLiquidity a b L" "amount1ForLiquidity a b L \<le> UINT256_MAX"
proof -
  show "0 \<le> amount1ForLiquidity a b L"
    using assms by (simp add: amount1ForLiquidity_eq pos_imp_zdiv_nonneg_iff)
  have "L * (b - a) \<le> UINT128_MAX * MAX_SQRT_RATIO"
    using assms by (intro mult_mono) (auto simp: UINT128_MAX_def)
  also have "\<dots> < 2 ^ 96 * (UINT256_MAX + 1)"
    by (simp add: UINT128_MAX_def UINT256_MAX_def MAX_SQRT_RATIO_def)
  finally show "amount1ForLiquidity a b L \<le> UINT256_MAX"
    using assms by (simp add: amount1ForLiquidity_eq div_le_iff)
qed

text \<open>The price moved into the range.\<close>

definition clamp_price :: "int \<Rightarrow> int \<Rightarrow> int \<Rightarrow> int" where
  "clamp_price a b p = (if p < a then a else if p > b then b else p)"

lemma clamp_price_bounds: "a \<le> b \<Longrightarrow> a \<le> clamp_price a b p \<and> clamp_price a b p \<le> b"
  by (simp add: clamp_price_def)

lemma clamp_price_mono: "a \<le> b \<Longrightarrow> p \<le> q \<Longrightarrow> clamp_price a b p \<le> clamp_price a b q"
  by (auto simp: clamp_price_def)

definition region_of :: "int \<Rightarrow> int \<Rightarrow> int \<Rightarrow> PrincipalRegion" where
  "region_of a b p = (if p \<le> a then below_range else if p < b then in_range else above_range)"

definition amounts_at :: "int \<Rightarrow> int \<Rightarrow> int \<Rightarrow> int \<Rightarrow> amounts" where
  "amounts_at L p a b =
     \<lparr>amount0 = L * 2 ^ 96 * (b - clamp_price a b p) div (clamp_price a b p * b),
      amount1 = L * (clamp_price a b p - a) div 2 ^ 96, region = region_of a b p\<rparr>"

definition position_valid :: "int \<Rightarrow> int \<Rightarrow> int \<Rightarrow> int \<Rightarrow> bool" where
  "position_valid L p lo hi \<longleftrightarrow> 0 \<le> L \<and> L \<le> UINT128_MAX \<and> MIN_SQRT_RATIO \<le> p \<and>
     p < MAX_SQRT_RATIO \<and> MIN_TICK \<le> lo \<and> lo < hi \<and> hi \<le> MAX_TICK"

lemma amountsForLiquidity_ok:
  assumes "0 \<le> L" "L \<le> UINT128_MAX" "MIN_SQRT_RATIO \<le> p" "p < MAX_SQRT_RATIO"
    and "MIN_SQRT_RATIO \<le> a" "a < b" "b \<le> MAX_SQRT_RATIO"
  shows "amountsForLiquidity L p a b = Inr (amounts_at L p a b)"
proof -
  have pos: "0 < a" "0 < p" using assms by (auto simp: MIN_SQRT_RATIO_def)
  note b0 = amount0ForLiquidity_bound [OF assms(1,2)]
  note b1 = amount1ForLiquidity_bound [OF assms(1,2)]
  have z: "0 \<le> UINT256_MAX" by (simp add: UINT256_MAX_def)
  show ?thesis
    using assms pos z b0(2) [of a b] b0(2) [of p b] b1(2) [of a b] b1(2) [of a p]
    by (auto simp: amountsForLiquidity_def requireLiquidity_def requireSqrtRatio_def Let_def
        amounts_at_def region_of_def clamp_price_def amount0ForLiquidity_eq amount1ForLiquidity_eq)
qed

lemma principalAmounts_Inr_iff:
  "principalAmounts L p lo hi = Inr r \<longleftrightarrow>
     position_valid L p lo hi \<and>
     r = amounts.extend (amounts_at L p (sqrt_ratio lo) (sqrt_ratio hi))
           (principal_amounts.fields (sqrt_ratio lo) (sqrt_ratio hi))"
proof (cases "position_valid L p lo hi")
  case True
  then have v: "0 \<le> L" "L \<le> UINT128_MAX" "MIN_SQRT_RATIO \<le> p" "p < MAX_SQRT_RATIO"
    "MIN_TICK \<le> lo" "lo < hi" "hi \<le> MAX_TICK" by (auto simp: position_valid_def)
  then have req: "requireLiquidity L = Inr ()" "requireSqrtRatio p = Inr ()"
    "requireTick lo = Inr ()" "requireTick hi = Inr ()"
    by (auto simp: requireLiquidity_def requireSqrtRatio_def requireTick_def safe_integer_def
        MIN_TICK_def MAX_TICK_def)
  have ratio: "sqrtRatioAtTick lo = Inr (sqrt_ratio lo)" "sqrtRatioAtTick hi = Inr (sqrt_ratio hi)"
    using v by (simp_all add: sqrtRatioAtTick_Inr_iff)
  have "amountsForLiquidity L p (sqrt_ratio lo) (sqrt_ratio hi) =
      Inr (amounts_at L p (sqrt_ratio lo) (sqrt_ratio hi))"
    using v sqrt_ratio_range [of lo] sqrt_ratio_range [of hi] ticks.ratio_strict [of lo hi]
    by (intro amountsForLiquidity_ok) auto
  with True v req ratio show ?thesis by (auto simp: principalAmounts_def)
next
  case False
  then have "principalAmounts L p lo hi \<noteq> Inr r"
    by (auto simp: principalAmounts_def bind_ok_Inr_iff requireLiquidity_def requireSqrtRatio_def
        requireTick_def position_valid_def split: if_splits)
  with False show ?thesis by simp
qed

lemma principalAmounts_amounts:
  assumes "principalAmounts L p lo hi = Inr r"
  shows "position_valid L p lo hi"
    and "amount0 r = amount0 (amounts_at L p (sqrt_ratio lo) (sqrt_ratio hi))"
    and "amount1 r = amount1 (amounts_at L p (sqrt_ratio lo) (sqrt_ratio hi))"
    and "region r = region_of (sqrt_ratio lo) (sqrt_ratio hi) p"
  using assms by (auto simp: principalAmounts_Inr_iff amounts.defs principal_amounts.defs amounts_at_def)

lemma amount0_at_antimono:
  fixes a b c c' L :: int
  assumes "0 \<le> L" "0 < c" "c \<le> c'" "c' \<le> b"
  shows "L * 2 ^ 96 * (b - c') div (c' * b) \<le> L * 2 ^ 96 * (b - c) div (c * b)"
proof -
  let ?k = "L * 2 ^ 96 * (b - c') div (c' * b)"
  have pos: "0 < c * b" "0 < c' * b" using assms by auto
  have k: "0 \<le> ?k" using assms pos by (simp add: pos_imp_zdiv_nonneg_iff)
  have "c * b * ?k \<le> c' * b * ?k" using assms k by (intro mult_right_mono) auto
  also have "\<dots> \<le> L * 2 ^ 96 * (b - c')" by (rule floor_div_bounds(1) [OF pos(2)])
  also have "\<dots> \<le> L * 2 ^ 96 * (b - c)" using assms by (intro mult_left_mono) auto
  finally show ?thesis by (simp add: le_div_iff [OF pos(1)])
qed

lemma amounts_at_price_mono:
  assumes "0 \<le> L" "0 < a" "a \<le> b" "p \<le> q"
  shows "amount0 (amounts_at L q a b) \<le> amount0 (amounts_at L p a b)"
    and "amount1 (amounts_at L p a b) \<le> amount1 (amounts_at L q a b)"
proof -
  have c: "a \<le> clamp_price a b p" "clamp_price a b p \<le> clamp_price a b q" "clamp_price a b q \<le> b"
    using assms clamp_price_bounds clamp_price_mono by simp_all
  show "amount0 (amounts_at L q a b) \<le> amount0 (amounts_at L p a b)"
    using amount0_at_antimono [of L "clamp_price a b p" "clamp_price a b q" b] assms c
    by (simp add: amounts_at_def)
  have "L * (clamp_price a b p - a) \<le> L * (clamp_price a b q - a)"
    using assms c by (intro mult_left_mono) auto
  then show "amount1 (amounts_at L p a b) \<le> amount1 (amounts_at L q a b)"
    by (simp add: amounts_at_def zdiv_mono1)
qed

lemma amounts_at_liquidity_mono:
  assumes "0 \<le> L" "L \<le> L'" "0 < a" "a \<le> b"
  shows "amount0 (amounts_at L p a b) \<le> amount0 (amounts_at L' p a b)"
    and "amount1 (amounts_at L p a b) \<le> amount1 (amounts_at L' p a b)"
  using assms clamp_price_bounds [of a b p]
  by (auto simp: amounts_at_def intro!: zdiv_mono1 mult_right_mono)

lemma amounts_at_nonneg:
  "0 \<le> L \<Longrightarrow> 0 < a \<Longrightarrow> a \<le> b \<Longrightarrow>
     0 \<le> amount0 (amounts_at L p a b) \<and> 0 \<le> amount1 (amounts_at L p a b)"
  using clamp_price_bounds [of a b p] by (simp add: amounts_at_def pos_imp_zdiv_nonneg_iff)

subsection \<open>The snapshot loops\<close>

lemma position_step_Inr:
  assumes "position_step pool s pos = Inr s'"
  obtains ps where "l_out s' = l_out s @ [ps]" "l_amount0 s' = l_amount0 s + ps_amount0 ps"
    "l_amount1 s' = l_amount1 s + ps_amount1 ps"
    "l_above s' + l_below s' + l_in s' = l_above s + l_below s + l_in s + 1"
    "principal_position_key pos \<notin> set (l_keys s)"
    "l_keys s' = l_keys s @ [principal_position_key pos]"
proof -
  from assms obtain am where am: "principalAmounts (liquidity pos) (pool_sqrtPriceX96 pool)
      (tickLower pos) (tickUpper pos) = Inr am"
    by (auto simp: position_step_def Let_def bind_ok_Inr_iff split: if_splits)
  show ?thesis
  proof (rule that [of "PrincipalPositionSource.extend pos
      (PrincipalPositionSnapshot.fields (amount0 am) (amount1 am) (pool_poolAddress pool) (region am)
        (sqrtRatioLowerX96 am) (sqrtRatioUpperX96 am))"])
  qed (use assms am in \<open>cases "region am"; auto simp: position_step_def Let_def bind_ok_Inr_iff
      PrincipalPositionSource.defs PrincipalPositionSnapshot.defs split: if_splits\<close>)+
qed

lemma position_loop_Inr:
  assumes "fold_res (position_step pool) s ps = Inr s'"
  shows "\<exists>out. l_out s' = l_out s @ out \<and> length out = length ps \<and>
    l_amount0 s' = l_amount0 s + sum_list (map ps_amount0 out) \<and>
    l_amount1 s' = l_amount1 s + sum_list (map ps_amount1 out) \<and>
    l_above s' + l_below s' + l_in s' = l_above s + l_below s + l_in s + int (length ps) \<and>
    (distinct (l_keys s) \<longrightarrow> distinct (l_keys s @ map principal_position_key ps))"
  using assms
proof (induction ps arbitrary: s)
  case Nil
  then show ?case by simp
next
  case (Cons p ps)
  then obtain s1 where s1: "position_step pool s p = Inr s1" "fold_res (position_step pool) s1 ps = Inr s'"
    by (auto split: sum.splits)
  from position_step_Inr [OF s1(1)] obtain o1 where o1: "l_out s1 = l_out s @ [o1]"
    "l_amount0 s1 = l_amount0 s + ps_amount0 o1" "l_amount1 s1 = l_amount1 s + ps_amount1 o1"
    "l_above s1 + l_below s1 + l_in s1 = l_above s + l_below s + l_in s + 1"
    "principal_position_key p \<notin> set (l_keys s)"
    "l_keys s1 = l_keys s @ [principal_position_key p]" by blast
  from Cons.IH [OF s1(2)] obtain out where out: "l_out s' = l_out s1 @ out" "length out = length ps"
    "l_amount0 s' = l_amount0 s1 + sum_list (map ps_amount0 out)"
    "l_amount1 s' = l_amount1 s1 + sum_list (map ps_amount1 out)"
    "l_above s' + l_below s' + l_in s' = l_above s1 + l_below s1 + l_in s1 + int (length ps)"
    "distinct (l_keys s1) \<longrightarrow> distinct (l_keys s1 @ map principal_position_key ps)" by blast
  show ?case by (rule exI [of _ "o1 # out"]) (use o1 out in auto)
qed

definition totals_agree :: "pool_loop \<Rightarrow> bool" where
  "totals_agree s \<longleftrightarrow>
     sum_list (map pp_amount0 (l_pools s)) = sum_list (map ps_amount0 (l_positions s)) \<and>
     sum_list (map pp_amount1 (l_pools s)) = sum_list (map ps_amount1 (l_positions s)) \<and>
     sum_list (map positionCount (l_pools s)) = int (length (l_positions s)) \<and>
     (\<forall>p\<in>set (l_pools s). aboveRangePositions p + belowRangePositions p + inRangePositions p =
        positionCount p)"

lemma pool_step_totals:
  assumes "pool_step s pool = Inr s'" "totals_agree s"
  shows "totals_agree s'"
proof -
  let ?init = "\<lparr>l_amount0 = 0, l_amount1 = 0, l_above = 0, l_below = 0, l_in = 0,
    l_keys = [], l_out = l_positions s\<rparr>"
  from assms(1) obtain l where l: "fold_res (position_step pool) ?init (pool_positions pool) = Inr l"
    by (auto simp: pool_step_def Let_def bind_ok_Inr_iff split: if_splits)
  from position_loop_Inr [OF l] assms l show ?thesis
    by (auto simp: pool_step_def Let_def bind_ok_Inr_iff totals_agree_def split: if_splits)
qed

lemma pool_loop_shape:
  assumes "fold_res pool_step s pools = Inr s'"
  shows "length (l_positions s') = length (l_positions s) + sum_list (map (length \<circ> pool_positions) pools) \<and>
    map pp_poolAddress (l_pools s') = map pp_poolAddress (l_pools s) @ map pool_poolAddress pools"
  using assms
proof (induction pools arbitrary: s)
  case Nil
  then show ?case by simp
next
  case (Cons pool pools)
  then obtain s1 where s1: "pool_step s pool = Inr s1" "fold_res pool_step s1 pools = Inr s'"
    by (auto split: sum.splits)
  then have "length (l_positions s1) = length (l_positions s) + length (pool_positions pool)"
    "map pp_poolAddress (l_pools s1) = map pp_poolAddress (l_pools s) @ [pool_poolAddress pool]"
    by (auto simp: pool_step_def Let_def bind_ok_Inr_iff split: if_splits dest!: position_loop_Inr)
  with Cons.IH [OF s1(2)] show ?case by simp
qed

lemma add_pool_totals_sum:
  fixes t :: PrincipalTotals
  shows "total_count (foldl add_pool_totals t ps) = total_count t + sum_list (map positionCount ps)"
    and "total_above (foldl add_pool_totals t ps) + total_below (foldl add_pool_totals t ps) +
           total_in (foldl add_pool_totals t ps) =
         total_above t + total_below t + total_in t +
           sum_list (map (\<lambda>p. aboveRangePositions p + belowRangePositions p + inRangePositions p) ps)"
  by (induction ps arbitrary: t) (auto simp: add_pool_totals_def)

subsection \<open>Properties\<close>

text \<open>
  C37: \<open>principalAmounts\<close> returns exactly when its inputs are canonical: a uint128
  liquidity, a pool price inside the canonical price range and an ordered pair of canonical
  ticks.  The range check on the two square-root ratios and the uint256 overflow check that
  \<open>amountsForLiquidity\<close> makes after that can never fire.
\<close>

theorem principalAmounts_returns_iff:
  "(\<exists>r. principalAmounts L p lo hi = Inr r) \<longleftrightarrow>
     0 \<le> L \<and> L \<le> UINT128_MAX \<and> MIN_SQRT_RATIO \<le> p \<and> p < MAX_SQRT_RATIO \<and>
     MIN_TICK \<le> lo \<and> lo < hi \<and> hi \<le> MAX_TICK"
  by (simp add: principalAmounts_Inr_iff position_valid_def)

text \<open>
  C17: the amounts are the exact rational amounts of the position rounded down, although
  token 0 is computed by two successive truncating divisions: with the pool price moved into
  the range \<open>[A, B]\<close> of the position, \<open>amount0\<close> is the floor of
  \<open>L * 2^96 * (B - c) / (c * B)\<close>, \<open>amount1\<close> is the floor of
  \<open>L * (c - A) / 2^96\<close>, and the region is decided by where the price lies.
\<close>

theorem principalAmounts_exact_floor:
  assumes "principalAmounts L p lo hi = Inr r"
  defines "A \<equiv> sqrt_ratio lo" and "B \<equiv> sqrt_ratio hi"
  defines "c \<equiv> min B (max A p)"
  shows "0 \<le> amount0 r \<and> c * B * amount0 r \<le> L * 2 ^ 96 * (B - c) \<and>
    L * 2 ^ 96 * (B - c) < c * B * (amount0 r + 1) \<and>
    0 \<le> amount1 r \<and> 2 ^ 96 * amount1 r \<le> L * (c - A) \<and> L * (c - A) < 2 ^ 96 * (amount1 r + 1) \<and>
    (region r = below_range \<longleftrightarrow> p \<le> A) \<and> (region r = above_range \<longleftrightarrow> B \<le> p)"
proof -
  note am = principalAmounts_amounts [OF assms(1)]
  from am(1) have v: "0 \<le> L" "0 < A" "A < B"
    using ticks.ratio_strict [of lo hi] sqrt_ratio_pos [of lo]
    by (auto simp: position_valid_def A_def B_def)
  have c: "clamp_price A B p = c" using v by (auto simp: clamp_price_def c_def)
  then have cb: "A \<le> c" "c \<le> B" using v clamp_price_bounds [of A B p] by auto
  have pos: "0 < c * B" using v cb by simp
  have a0: "amount0 r = L * 2 ^ 96 * (B - c) div (c * B)" and a1: "amount1 r = L * (c - A) div 2 ^ 96"
    using am(2,3) c by (simp_all add: amounts_at_def A_def B_def)
  show ?thesis
    unfolding a0 a1 am(4)
    using v cb pos floor_div_bounds [OF pos, of "L * 2 ^ 96 * (B - c)"]
      floor_div_bounds [of "2 ^ 96" "L * (c - A)"]
    by (auto simp: pos_imp_zdiv_nonneg_iff region_of_def distrib_left simp flip: A_def B_def)
qed

theorem principalAmounts_exact_floor_witness:
  "\<exists>r. principalAmounts 1000000 (2 ^ 96) (- 60) 60 = Inr r \<and> amount0 r = 2995 \<and>
     2 ^ 96 * amount1 r \<le> 1000000 * (2 ^ 96 - sqrt_ratio (- 60))"
proof -
  let ?r = "amounts.extend (amounts_at 1000000 (2 ^ 96) (sqrt_ratio (- 60)) (sqrt_ratio 60))
    (principal_amounts.fields (sqrt_ratio (- 60)) (sqrt_ratio 60))"
  have r: "principalAmounts 1000000 (2 ^ 96) (- 60) 60 = Inr ?r"
    by (simp add: principalAmounts_Inr_iff position_valid_def tick_consts)
  have e: "sqrt_ratio (- 60) = 78990846045029531151608375686"
    "sqrt_ratio 60 = 79466191966197645195421774833" by (simp_all add: tick_eval)
  have "amount0 ?r = 2995"
    by (simp add: amounts.defs principal_amounts.defs amounts_at_def clamp_price_def e)
  moreover from principalAmounts_exact_floor [OF r]
  have "2 ^ 96 * amount1 ?r \<le> 1000000 * (2 ^ 96 - sqrt_ratio (- 60))" by (simp add: e)
  ultimately show ?thesis using r by blast
qed

text \<open>
  Inventory moves one way with the price: at a higher pool price the same position
  holds no more of token 0 and no less of token 1.
\<close>

theorem principalAmounts_price_monotone:
  assumes "principalAmounts L p lo hi = Inr r" "principalAmounts L q lo hi = Inr r'" "p \<le> q"
  shows "amount0 r' \<le> amount0 r \<and> amount1 r \<le> amount1 r'"
proof -
  note r = principalAmounts_amounts [OF assms(1)] and r' = principalAmounts_amounts [OF assms(2)]
  have "0 \<le> L" "0 < sqrt_ratio lo" "sqrt_ratio lo \<le> sqrt_ratio hi"
    using r(1) ticks.ratio_strict [of lo hi] sqrt_ratio_pos [of lo]
    by (auto simp: position_valid_def less_imp_le)
  from amounts_at_price_mono [OF this assms(3)] show ?thesis by (simp add: r r')
qed

theorem principalAmounts_price_monotone_witness:
  "\<exists>r r'. principalAmounts 1000000 (2 ^ 96) (- 60) 60 = Inr r \<and>
     principalAmounts 1000000 79267784519130042428790663799 (- 60) 60 = Inr r' \<and>
     amount0 r' \<le> amount0 r \<and> amount1 r \<le> amount1 r'"
proof -
  obtain r r' where r: "principalAmounts 1000000 (2 ^ 96) (- 60) 60 = Inr r"
    "principalAmounts 1000000 79267784519130042428790663799 (- 60) 60 = Inr r'"
    by (simp add: principalAmounts_Inr_iff position_valid_def tick_consts)
  from principalAmounts_price_monotone [OF r] r show ?thesis by simp
qed

text \<open>
  a reconstructed snapshot accounts for every position once: its pool amounts add up to
  its position amounts, its position count is the number of positions listed and of all the
  positions given, the three region counts add up to it, and there is one pool entry per
  given pool, in order.
\<close>

theorem reconstructPrincipalSnapshot_conserves:
  assumes "reconstructPrincipalSnapshot now pools run stream = Inr snap"
  shows "sum_list (map pp_amount0 (snap_pools snap)) = sum_list (map ps_amount0 (snap_positions snap)) \<and>
    sum_list (map pp_amount1 (snap_pools snap)) = sum_list (map ps_amount1 (snap_positions snap)) \<and>
    total_count (snap_totals snap) = int (length (snap_positions snap)) \<and>
    total_above (snap_totals snap) + total_below (snap_totals snap) + total_in (snap_totals snap) =
      total_count (snap_totals snap) \<and>
    length (snap_positions snap) = sum_list (map (length \<circ> pool_positions) pools) \<and>
    map pp_poolAddress (snap_pools snap) = map pool_poolAddress pools"
proof -
  from assms obtain l where l: "fold_res pool_step \<lparr>l_poolKeys = [], l_pools = [], l_positions = []\<rparr> pools = Inr l"
    and snap: "snap_pools snap = l_pools l" "snap_positions snap = l_positions l"
      "snap_totals snap = foldl add_pool_totals
         \<lparr>total_above = 0, total_below = 0, total_in = 0, total_count = 0\<rparr> (l_pools l)"
    by (auto simp: reconstructPrincipalSnapshot_def bind_ok_Inr_iff)
  have t: "totals_agree l"
  proof (rule fold_res_invariant [OF l])
    show "totals_agree \<lparr>l_poolKeys = [], l_pools = [], l_positions = []\<rparr>"
      by (simp add: totals_agree_def)
  qed (rule pool_step_totals)
  then have "map (\<lambda>p. aboveRangePositions p + belowRangePositions p + inRangePositions p) (l_pools l) =
      map positionCount (l_pools l)"
    by (simp add: totals_agree_def)
  then have "sum_list (map (\<lambda>p. aboveRangePositions p + belowRangePositions p + inRangePositions p)
      (l_pools l)) = sum_list (map positionCount (l_pools l))"
    by (simp only:)
  with t pool_loop_shape [OF l] show ?thesis
    unfolding snap by (simp add: add_pool_totals_sum totals_agree_def)
qed

text \<open>A snapshot of one pool with one position, to exercise the reconstruction.\<close>

definition sample_pool :: PrincipalPoolSource where
  "sample_pool = \<lparr>activePositions = 1, pool_fee = 3000, pool_poolAddress = ''0xA'',
     pool_positions = [\<lparr>liquidity = 1000000, ownerAddress = ''0xB'', tickLower = - 60, tickUpper = 60\<rparr>],
     pool_rwaSymbol = ''NVDA'', pool_sqrtPriceX96 = 2 ^ 96, pool_tick = 0,
     pool_token0 = ''0x1'', pool_token1 = ''0x2''\<rparr>"

definition sample_run :: AccountingRunReference where
  "sample_run = \<lparr>blockHash = ''0xh'', blockNumber = 1, chainId = 1, observedAt = ''t'',
     runId = ''r'', blockTimestamp = ''t''\<rparr>"

theorem reconstructPrincipalSnapshot_conserves_witness:
  "\<exists>snap. reconstructPrincipalSnapshot ''now'' [sample_pool] sample_run ''s'' = Inr snap \<and>
     length (snap_positions snap) = 1 \<and> total_count (snap_totals snap) = 1"
proof -
  obtain am where am: "principalAmounts 1000000 79228162514264337593543950336 (- 60) 60 = Inr am"
    by (simp add: principalAmounts_Inr_iff position_valid_def tick_consts)
  have "sqrt_ratio 0 = 79228162514264337593543950336" "sqrt_ratio 1 = 79232123823359799118286999568"
    by (simp_all add: tick_eval)
  then have "validatePoolTick sample_pool = Inr ()"
    by (simp add: validatePoolTick_def sample_pool_def requireTick_def safe_integer_def
        requireSqrtRatio_def sqrtRatioAtTick_def MIN_TICK_def MAX_TICK_def MIN_SQRT_RATIO_def
        MAX_SQRT_RATIO_def)
  then obtain snap where snap: "reconstructPrincipalSnapshot ''now'' [sample_pool] sample_run ''s'' = Inr snap"
    by (auto simp: reconstructPrincipalSnapshot_def pool_step_def position_step_def Let_def
        sample_pool_def am)
  with reconstructPrincipalSnapshot_conserves [OF snap] show ?thesis by (simp add: sample_pool_def)
qed

end
