(* ===== verification/Position_Math.thy ===== *)
theory Position_Math
  imports Principal
begin

section \<open>Position amounts and paper mints\<close>

text \<open>
  \<open>src/v3/position-math.ts\<close>: the exact amounts of a position with a rounding direction,
  and the liquidity, spent amounts and idle remainder of a paper mint.  A failed
  \<open>assert\<close> is an \<open>AssertionError\<close>.
\<close>

definition assertion :: "bool \<Rightarrow> unit res" where
  "assertion b = ensure b ''AssertionError''"

record TickRange =
  range_tickLower :: int
  range_tickUpper :: int

definition ceilDiv :: "int \<Rightarrow> int \<Rightarrow> int" where
  "ceilDiv a b = (a + b - 1) sdiv b"

definition position_delta :: "int \<Rightarrow> bool \<Rightarrow> int \<Rightarrow> int \<Rightarrow> nat \<Rightarrow> int res" where
  "position_delta L roundUp a b token =
     bind_ok (assertion (a > 0 \<and> b \<ge> a \<and> L \<ge> 0)) (\<lambda>_.
       let numerator = (if token = 0 then L * Q96 * (b - a) else L * (b - a));
           denominator = (if token = 0 then a * b else Q96)
       in Inr (if roundUp then ceilDiv numerator denominator else numerator sdiv denominator))"

record position_amounts =
  pos_amount0 :: int
  pos_amount1 :: int

definition positionAmounts :: "int \<Rightarrow> TickRange \<Rightarrow> int \<Rightarrow> bool \<Rightarrow> position_amounts res" where
  "positionAmounts price rg L roundUp =
     bind_ok (sqrtRatioAtTick (range_tickLower rg)) (\<lambda>lower.
     bind_ok (sqrtRatioAtTick (range_tickUpper rg)) (\<lambda>upper.
       let bounded = (if price < lower then lower else if price > upper then upper else price) in
       bind_ok (position_delta L roundUp bounded upper 0) (\<lambda>a0.
       bind_ok (position_delta L roundUp lower bounded 1) (\<lambda>a1.
         Inr \<lparr>pos_amount0 = a0, pos_amount1 = a1\<rparr>))))"

record PaperMint =
  mint_liquidity :: int
  mint_amount0 :: int
  mint_amount1 :: int
  idle0 :: int
  idle1 :: int

definition mint_l0 :: "int \<Rightarrow> int \<Rightarrow> int \<Rightarrow> int" where
  "mint_l0 x lo hi = (x * ((lo * hi) sdiv Q96)) sdiv (hi - lo)"

definition mint_l1 :: "int \<Rightarrow> int \<Rightarrow> int \<Rightarrow> int" where
  "mint_l1 y lo hi = (y * Q96) sdiv (hi - lo)"

definition mint_liquidity_for :: "int \<Rightarrow> int \<Rightarrow> int \<Rightarrow> int \<Rightarrow> int \<Rightarrow> int" where
  "mint_liquidity_for price a b x y =
     (if price \<le> a then mint_l0 x a b
      else if price \<ge> b then mint_l1 y a b
      else let l0 = mint_l0 x price b; l1 = mint_l1 y a price in if l0 < l1 then l0 else l1)"

definition replayPaperMint :: "int \<Rightarrow> TickRange \<Rightarrow> int \<Rightarrow> int \<Rightarrow> int \<Rightarrow> PaperMint res" where
  "replayPaperMint price rg am0 am1 reserve0 =
     bind_ok (assertion (am0 \<ge> reserve0 \<and> reserve0 \<ge> 0 \<and> am1 \<ge> 0)) (\<lambda>_.
     bind_ok (sqrtRatioAtTick (range_tickLower rg)) (\<lambda>a.
     bind_ok (sqrtRatioAtTick (range_tickUpper rg)) (\<lambda>b.
     bind_ok (assertion (a < b)) (\<lambda>_.
       let L = mint_liquidity_for price a b (am0 - reserve0) am1 in
       bind_ok (assertion (L \<ge> 0 \<and> L < Q128)) (\<lambda>_.
       bind_ok (positionAmounts price rg L True) (\<lambda>spent.
       bind_ok (assertion (pos_amount0 spent \<le> am0 - reserve0 \<and> pos_amount1 spent \<le> am1)) (\<lambda>_.
         Inr \<lparr>mint_liquidity = L, mint_amount0 = pos_amount0 spent, mint_amount1 = pos_amount1 spent,
              idle0 = am0 - pos_amount0 spent, idle1 = am1 - pos_amount1 spent\<rparr>)))))))"

subsection \<open>Closed forms\<close>

lemma assertion_Inr_iff [simp]: "assertion b = Inr u \<longleftrightarrow> b"
  and assertion_True [simp]: "assertion True = Inr ()"
  by (simp_all add: assertion_def)

text \<open>Division of a nonnegative numerator in the chosen direction.\<close>

definition round_div :: "bool \<Rightarrow> int \<Rightarrow> int \<Rightarrow> int" where
  "round_div up n d = (if up then (n + d - 1) div d else n div d)"

lemma round_div_bounds:
  assumes "0 \<le> n" "0 < d"
  shows "round_div False n d \<le> round_div True n d" "round_div True n d \<le> round_div False n d + 1"
    and "0 \<le> round_div False n d"
proof -
  note f = floor_div_bounds [OF assms(2), of n]
  show "round_div False n d \<le> round_div True n d"
    using assms by (simp add: round_div_def zdiv_mono1)
  have "n \<le> d * (n div d + 1)" using f(2) by (simp add: distrib_left)
  then show "round_div True n d \<le> round_div False n d + 1"
    using ceil_div_le_iff [OF assms(2)] by (simp add: round_div_def)
  show "0 \<le> round_div False n d" using assms by (simp add: round_div_def pos_imp_zdiv_nonneg_iff)
qed

definition amount0_at :: "bool \<Rightarrow> int \<Rightarrow> int \<Rightarrow> int \<Rightarrow> int" where
  "amount0_at up L c b = round_div up (L * 2 ^ 96 * (b - c)) (c * b)"

definition amount1_at :: "bool \<Rightarrow> int \<Rightarrow> int \<Rightarrow> int \<Rightarrow> int" where
  "amount1_at up L a c = round_div up (L * (c - a)) (2 ^ 96)"

lemma position_delta_eq:
  assumes "0 < a" "a \<le> b" "0 \<le> L"
  shows "position_delta L up a b 0 = Inr (amount0_at up L a b)"
    and "position_delta L up a b 1 = Inr (amount1_at up L a b)"
proof -
  have "0 < a * b" using assms by simp
  moreover have "0 \<le> L * 2 ^ 96 * (b - a)" "0 \<le> L * (b - a)" using assms by simp_all
  moreover from calculation have "0 \<le> L * 2 ^ 96 * (b - a) + a * b - 1" by linarith
  ultimately show "position_delta L up a b 0 = Inr (amount0_at up L a b)"
    and "position_delta L up a b 1 = Inr (amount1_at up L a b)"
    using assms by (simp_all add: position_delta_def assertion_def amount0_at_def amount1_at_def
        round_div_def ceilDiv_def Q96_def sdiv_nonneg Let_def)
qed

lemma positionAmounts_ok:
  assumes "MIN_TICK \<le> range_tickLower rg" "range_tickLower rg \<le> range_tickUpper rg"
    and "range_tickUpper rg \<le> MAX_TICK" "0 \<le> L"
  defines "a \<equiv> sqrt_ratio (range_tickLower rg)" and "b \<equiv> sqrt_ratio (range_tickUpper rg)"
  shows "positionAmounts p rg L up =
    Inr \<lparr>pos_amount0 = amount0_at up L (clamp_price a b p) b,
         pos_amount1 = amount1_at up L a (clamp_price a b p)\<rparr>"
proof -
  have "0 < a" "a \<le> b"
    using assms sqrt_ratio_pos [of "range_tickLower rg"]
      ticks.ratio_le_iff [of "range_tickLower rg" "range_tickUpper rg"] by simp_all
  moreover from this have "a \<le> clamp_price a b p" "clamp_price a b p \<le> b"
    using clamp_price_bounds by auto
  moreover have "sqrtRatioAtTick (range_tickLower rg) = Inr a" "sqrtRatioAtTick (range_tickUpper rg) = Inr b"
    using assms by (simp_all add: sqrtRatioAtTick_Inr_iff)
  ultimately show ?thesis
    using assms(4) position_delta_eq
    by (simp add: positionAmounts_def Let_def flip: clamp_price_def)
qed

subsection \<open>A mint never overspends\<close>

lemma mint_l0_fits:
  assumes "0 \<le> x" "0 < c" "c < b" "0 \<le> L" "L \<le> mint_l0 x c b"
  shows "amount0_at True L c b \<le> x"
proof -
  have cb: "0 < c * b" "0 < b - c" using assms by simp_all
  have q: "0 \<le> c * b div 2 ^ 96" using cb by (simp add: pos_imp_zdiv_nonneg_iff)
  have "L * (b - c) \<le> x * (c * b div 2 ^ 96)"
    using assms(5) le_div_iff [OF cb(2), of L] assms(1) cb q
    by (simp add: mint_l0_def Q96_def sdiv_nonneg mult.commute)
  then have "2 ^ 96 * (L * (b - c)) \<le> 2 ^ 96 * (x * (c * b div 2 ^ 96))" by simp
  also have "\<dots> = x * (2 ^ 96 * (c * b div 2 ^ 96))" by (simp only: mult.left_commute)
  also have "\<dots> \<le> x * (c * b)"
    using assms(1) floor_div_bounds(1) [of "2 ^ 96" "c * b"] by (intro mult_left_mono) simp_all
  finally have "L * 2 ^ 96 * (b - c) \<le> c * b * x" by (simp only: ac_simps)
  then show ?thesis using ceil_div_le_iff [OF cb(1)] by (simp add: amount0_at_def round_div_def)
qed

lemma mint_l1_fits:
  assumes "0 \<le> y" "a < c" "0 \<le> L" "L \<le> mint_l1 y a c"
  shows "amount1_at True L a c \<le> y"
proof -
  have "L * (c - a) \<le> y * 2 ^ 96"
    using assms le_div_iff [of "c - a" L "y * 2 ^ 96"]
    by (simp add: mint_l1_def Q96_def sdiv_nonneg mult.commute)
  then show ?thesis using ceil_div_le_iff [of "2 ^ 96"]
    by (simp add: amount1_at_def round_div_def mult.commute)
qed

lemma amount_at_same [simp]:
  "0 < c \<Longrightarrow> amount0_at up L c c = 0" "amount1_at up L c c = 0"
  by (auto simp: amount0_at_def amount1_at_def round_div_def zdiv_eq_0_iff)

lemma mint_l0_nonneg: "0 \<le> x \<Longrightarrow> 0 < c \<Longrightarrow> c < b \<Longrightarrow> 0 \<le> mint_l0 x c b"
  by (simp add: mint_l0_def Q96_def sdiv_nonneg pos_imp_zdiv_nonneg_iff)

lemma mint_l1_nonneg: "0 \<le> y \<Longrightarrow> a < c \<Longrightarrow> 0 \<le> mint_l1 y a c"
  by (simp add: mint_l1_def Q96_def sdiv_nonneg pos_imp_zdiv_nonneg_iff)

lemma mint_fits:
  fixes p :: int
  assumes "0 \<le> x" "0 \<le> y" "0 < a" "a < b"
  defines "L \<equiv> mint_liquidity_for p a b x y"
  shows "0 \<le> L" "amount0_at True L (clamp_price a b p) b \<le> x"
    and "amount1_at True L a (clamp_price a b p) \<le> y"
proof -
  show n: "0 \<le> L"
    using assms by (simp add: L_def mint_liquidity_for_def Let_def mint_l0_nonneg mint_l1_nonneg)
  consider "p \<le> a" | "a < p" "p < b" | "b \<le> p" by linarith
  then show "amount0_at True L (clamp_price a b p) b \<le> x"
    by cases (use assms n in \<open>auto simp: clamp_price_def mint_liquidity_for_def Let_def
      intro!: mint_l0_fits\<close>)
  consider "p \<le> a" | "a < p" "p < b" | "b \<le> p" by linarith
  then show "amount1_at True L a (clamp_price a b p) \<le> y"
    by cases (use assms n in \<open>auto simp: clamp_price_def mint_liquidity_for_def Let_def
      intro!: mint_l1_fits\<close>)
qed

definition mint_valid :: "int \<Rightarrow> TickRange \<Rightarrow> int \<Rightarrow> int \<Rightarrow> int \<Rightarrow> bool" where
  "mint_valid p rg am0 am1 reserve0 \<longleftrightarrow>
     0 \<le> reserve0 \<and> reserve0 \<le> am0 \<and> 0 \<le> am1 \<and> MIN_TICK \<le> range_tickLower rg \<and>
     range_tickLower rg < range_tickUpper rg \<and> range_tickUpper rg \<le> MAX_TICK \<and>
     mint_liquidity_for p (sqrt_ratio (range_tickLower rg)) (sqrt_ratio (range_tickUpper rg))
       (am0 - reserve0) am1 < Q128"

lemma replayPaperMint_Inr_iff:
  defines "a \<equiv> (\<lambda>rg. sqrt_ratio (range_tickLower rg))" and "b \<equiv> (\<lambda>rg. sqrt_ratio (range_tickUpper rg))"
  shows "replayPaperMint p rg am0 am1 reserve0 = Inr m \<longleftrightarrow>
    mint_valid p rg am0 am1 reserve0 \<and>
    (let L = mint_liquidity_for p (a rg) (b rg) (am0 - reserve0) am1;
         s0 = amount0_at True L (clamp_price (a rg) (b rg) p) (b rg);
         s1 = amount1_at True L (a rg) (clamp_price (a rg) (b rg) p)
     in m = \<lparr>mint_liquidity = L, mint_amount0 = s0, mint_amount1 = s1,
             idle0 = am0 - s0, idle1 = am1 - s1\<rparr>)"
proof (cases "mint_valid p rg am0 am1 reserve0")
  case True
  then have v: "0 \<le> reserve0" "reserve0 \<le> am0" "0 \<le> am1" "MIN_TICK \<le> range_tickLower rg"
    "range_tickLower rg < range_tickUpper rg" "range_tickUpper rg \<le> MAX_TICK"
    and L: "mint_liquidity_for p (a rg) (b rg) (am0 - reserve0) am1 < Q128"
    by (simp_all add: mint_valid_def a_def b_def)
  have ab: "0 < a rg" "a rg < b rg"
    using v ticks.ratio_strict sqrt_ratio_pos by (simp_all add: a_def b_def)
  have r: "sqrtRatioAtTick (range_tickLower rg) = Inr (a rg)"
    "sqrtRatioAtTick (range_tickUpper rg) = Inr (b rg)"
    using v by (simp_all add: sqrtRatioAtTick_Inr_iff a_def b_def)
  note fits = mint_fits [OF _ v(3) ab, of "am0 - reserve0" p]
  have "positionAmounts p rg (mint_liquidity_for p (a rg) (b rg) (am0 - reserve0) am1) True =
    Inr \<lparr>pos_amount0 = amount0_at True (mint_liquidity_for p (a rg) (b rg) (am0 - reserve0) am1)
           (clamp_price (a rg) (b rg) p) (b rg),
         pos_amount1 = amount1_at True (mint_liquidity_for p (a rg) (b rg) (am0 - reserve0) am1)
           (a rg) (clamp_price (a rg) (b rg) p)\<rparr>"
    using v fits(1) positionAmounts_ok [of rg _ p True] by (simp add: a_def b_def)
  then show ?thesis
    using True v ab L fits by (auto simp: replayPaperMint_def Let_def r)
next
  case False
  have "replayPaperMint p rg am0 am1 reserve0 \<noteq> Inr m"
  proof
    assume h: "replayPaperMint p rg am0 am1 reserve0 = Inr m"
    then obtain u w where r: "sqrtRatioAtTick (range_tickLower rg) = Inr u"
      "sqrtRatioAtTick (range_tickUpper rg) = Inr w"
      and o: "u < w" "mint_liquidity_for p u w (am0 - reserve0) am1 < Q128"
      "reserve0 \<le> am0" "0 \<le> reserve0" "0 \<le> am1"
      by (auto simp: replayPaperMint_def Let_def bind_ok_Inr_iff)
    then have "MIN_TICK \<le> range_tickLower rg" "range_tickUpper rg \<le> MAX_TICK"
      "u = sqrt_ratio (range_tickLower rg)" "w = sqrt_ratio (range_tickUpper rg)"
      "range_tickLower rg < range_tickUpper rg"
      using ticks.ratio_less_iff by (auto simp: sqrtRatioAtTick_Inr_iff)
    with o False show False by (simp add: mint_valid_def)
  qed
  with False show ?thesis by simp
qed

subsection \<open>Properties\<close>

text \<open>
  C38: \<open>positionAmounts\<close> and \<open>principalAmounts\<close>, two independent implementations,
  agree: on every canonical position the floor-rounded amounts are the principal amounts, and
  the amounts rounded up exceed them by at most one base unit per token.
\<close>

theorem positionAmounts_agrees_with_principal:
  assumes "principalAmounts L p lo hi = Inr r"
  shows "positionAmounts p \<lparr>range_tickLower = lo, range_tickUpper = hi\<rparr> L False =
      Inr \<lparr>pos_amount0 = amount0 r, pos_amount1 = amount1 r\<rparr> \<and>
    (\<exists>up. positionAmounts p \<lparr>range_tickLower = lo, range_tickUpper = hi\<rparr> L True = Inr up \<and>
      amount0 r \<le> pos_amount0 up \<and> pos_amount0 up \<le> amount0 r + 1 \<and>
      amount1 r \<le> pos_amount1 up \<and> pos_amount1 up \<le> amount1 r + 1)"
proof -
  note am = principalAmounts_amounts [OF assms]
  let ?a = "sqrt_ratio lo" and ?b = "sqrt_ratio hi"
  let ?c = "clamp_price ?a ?b p"
  have v: "0 \<le> L" "MIN_TICK \<le> lo" "lo \<le> hi" "hi \<le> MAX_TICK" "0 < ?a" "?a < ?b"
    using am(1) ticks.ratio_strict [of lo hi] sqrt_ratio_pos [of lo]
    by (auto simp: position_valid_def)
  then have c: "?a \<le> ?c" "?c \<le> ?b" using clamp_price_bounds [of ?a ?b p] by auto
  with v have n: "0 \<le> L * 2 ^ 96 * (?b - ?c)" "0 < ?c * ?b" "0 \<le> L * (?c - ?a)" by simp_all
  have f: "amount0 r = amount0_at False L ?c ?b" "amount1 r = amount1_at False L ?a ?c"
    using am(2,3) by (simp_all add: amounts_at_def amount0_at_def amount1_at_def round_div_def)
  note b = round_div_bounds [OF n(1,2)] round_div_bounds [OF n(3), of "2 ^ 96"]
  show ?thesis
    using v b positionAmounts_ok [of "\<lparr>range_tickLower = lo, range_tickUpper = hi\<rparr>" L p]
    by (simp add: f) (simp add: amount0_at_def amount1_at_def)
qed

theorem positionAmounts_agrees_with_principal_witness:
  "\<exists>r. principalAmounts 1000000 (2 ^ 96) (- 60) 60 = Inr r \<and>
     positionAmounts (2 ^ 96) \<lparr>range_tickLower = - 60, range_tickUpper = 60\<rparr> 1000000 False =
       Inr \<lparr>pos_amount0 = amount0 r, pos_amount1 = amount1 r\<rparr>"
proof -
  obtain r where r: "principalAmounts 1000000 (2 ^ 96) (- 60) 60 = Inr r"
    by (simp add: principalAmounts_Inr_iff position_valid_def tick_consts)
  from positionAmounts_agrees_with_principal [OF r] r show ?thesis by blast
qed

text \<open>
  A paper mint is returned exactly when the reserve and the amounts are sensible, the
  ticks are canonical and ordered, and the liquidity fits 128 bits: the final assertion, that
  the rounded-up spent amounts stay within the offered ones, can never fail.
\<close>

theorem replayPaperMint_never_overspends:
  "(\<exists>m. replayPaperMint p rg am0 am1 reserve0 = Inr m) \<longleftrightarrow>
     0 \<le> reserve0 \<and> reserve0 \<le> am0 \<and> 0 \<le> am1 \<and> MIN_TICK \<le> range_tickLower rg \<and>
     range_tickLower rg < range_tickUpper rg \<and> range_tickUpper rg \<le> MAX_TICK \<and>
     mint_liquidity_for p (sqrt_ratio (range_tickLower rg)) (sqrt_ratio (range_tickUpper rg))
       (am0 - reserve0) am1 < Q128"
  by (simp add: replayPaperMint_Inr_iff mint_valid_def Let_def)

text \<open>
  A paper mint conserves both tokens: what is spent and what stays idle add up to what
  was offered, the reserve of token 0 stays idle, nothing is negative, and the spent amounts
  are those of a position with the minted liquidity, rounded up.
\<close>

theorem replayPaperMint_conserves:
  assumes "replayPaperMint p rg am0 am1 reserve0 = Inr m"
  shows "mint_amount0 m + idle0 m = am0 \<and> mint_amount1 m + idle1 m = am1 \<and>
    reserve0 \<le> idle0 m \<and> 0 \<le> idle1 m \<and> 0 \<le> mint_liquidity m \<and>
    positionAmounts p rg (mint_liquidity m) True =
      Inr \<lparr>pos_amount0 = mint_amount0 m, pos_amount1 = mint_amount1 m\<rparr>"
proof -
  let ?a = "sqrt_ratio (range_tickLower rg)" and ?b = "sqrt_ratio (range_tickUpper rg)"
  from assms have v: "mint_valid p rg am0 am1 reserve0" by (simp add: replayPaperMint_Inr_iff)
  then have ab: "0 < ?a" "?a < ?b"
    using ticks.ratio_strict sqrt_ratio_pos by (simp_all add: mint_valid_def)
  note fits = mint_fits [OF _ _ ab, of "am0 - reserve0" am1 p]
  show ?thesis
    using assms v fits positionAmounts_ok [of rg "mint_liquidity m" p True]
    by (auto simp: replayPaperMint_Inr_iff mint_valid_def Let_def)
qed

theorem replayPaperMint_conserves_witness:
  "\<exists>m. replayPaperMint (2 ^ 96) \<lparr>range_tickLower = - 60, range_tickUpper = 60\<rparr>
       1000000000 1000000000 1000 = Inr m \<and>
     mint_amount0 m + idle0 m = 1000000000 \<and> 1000 \<le> idle0 m"
proof -
  have e: "sqrt_ratio (- 60) = 78990846045029531151608375686"
    "sqrt_ratio 60 = 79466191966197645195421774833" by (simp_all add: tick_eval)
  obtain m where m: "replayPaperMint (2 ^ 96) \<lparr>range_tickLower = - 60, range_tickUpper = 60\<rparr>
       1000000000 1000000000 1000 = Inr m"
    by (simp add: replayPaperMint_Inr_iff mint_valid_def mint_liquidity_for_def mint_l0_def
        mint_l1_def Let_def e tick_consts Q128_def Q96_def sdiv_nonneg)
  from replayPaperMint_conserves [OF m] m show ?thesis by auto
qed

end
