(* ===== verification/Swap_Math.thy ===== *)
theory Swap_Math
  imports Position_Math
begin

section \<open>Swap steps and the reconstruction of observed swaps\<close>

text \<open>
  \<open>src/research/swap.ts\<close>: the exact integer swap step of the pool contract, the search
  for the tick of a price, and the reconstruction of an observed swap as a list of fee
  segments.  The loop of one attempt stops after 20,001 steps in the code, which is the
  recursion's counter here; an exception inside an attempt is caught by the caller, which
  then tries the next reading of the event.
\<close>

definition MAX256 :: int where "MAX256 = 2 ^ 256 - 1"

definition ceilDiv_checked :: "int \<Rightarrow> int \<Rightarrow> int res" where
  "ceilDiv_checked a b =
     bind_ok (ensure (a \<ge> 0 \<and> b > 0) ''Invalid unsigned division'') (\<lambda>_.
       Inr ((a + b - 1) sdiv b))"

definition delta :: "int \<Rightarrow> int \<Rightarrow> int \<Rightarrow> int \<Rightarrow> bool \<Rightarrow> int res" where
  "delta a0 b0 liq token up =
     (let (a, b) = (if a0 > b0 then (b0, a0) else (a0, b0)) in
      bind_ok (assertion (a > 0 \<and> liq \<ge> 0)) (\<lambda>_.
        let numerator = (if token = 0 then liq * Q96 * (b - a) else liq * (b - a));
            denominator = (if token = 0 then a * b else Q96)
        in if up then ceilDiv_checked numerator denominator else Inr (numerator sdiv denominator)))"

definition nextPrice :: "int \<Rightarrow> int \<Rightarrow> int \<Rightarrow> int \<Rightarrow> bool \<Rightarrow> int res" where
  "nextPrice p l amount token add =
     bind_ok (assertion (p > 0 \<and> l > 0 \<and> amount \<ge> 0)) (\<lambda>_.
       if amount = 0 then Inr p
       else if token = 1 then
         (if add then Inr (p + (amount * Q96) sdiv l)
          else bind_ok (ceilDiv_checked (amount * Q96) l) (\<lambda>c. Inr (p - c)))
       else
         let n = l * Q96; product = amount * p in
         if add \<and> (product > MAX256 \<or> n + product > MAX256)
         then ceilDiv_checked n (n sdiv p + amount)
         else
           bind_ok (assertion (product \<le> MAX256 \<and> (add \<or> n > product))) (\<lambda>_.
             ceilDiv_checked (n * p) (if add then n + product else n - product)))"

record SwapStep =
  step_price :: int
  step_in :: int
  step_out :: int
  step_fee :: int

definition swapStep :: "int \<Rightarrow> int \<Rightarrow> int \<Rightarrow> int \<Rightarrow> int \<Rightarrow> SwapStep res" where
  "swapStep p target l remaining feePips =
     bind_ok (assertion (feePips \<ge> 0 \<and> feePips < 1000000)) (\<lambda>_.
       let down = (p \<ge> target); exactIn = (remaining \<ge> 0);
           inputToken = (if down then 0 else 1); outputToken = (if down then 1 else 0);
           denominator = 1000000 - feePips;
           available = (if exactIn then (remaining * denominator) sdiv 1000000 else - remaining)
       in
       bind_ok (delta p target l (if exactIn then inputToken else outputToken) exactIn) (\<lambda>needed.
       bind_ok (if available \<ge> needed then Inr target
                else nextPrice p l available (if exactIn then inputToken else outputToken) exactIn) (\<lambda>price.
       bind_ok (delta p price l inputToken True) (\<lambda>amountIn.
       bind_ok (delta p price l outputToken False) (\<lambda>out.
         let amountOut = (if \<not> exactIn \<and> out > - remaining then - remaining else out) in
         bind_ok (if exactIn \<and> price \<noteq> target then Inr (remaining - amountIn)
                  else ceilDiv_checked (amountIn * feePips) denominator) (\<lambda>feeAmount.
         bind_ok (assertion (feeAmount \<ge> 0 \<and> price \<ge> MIN_SQRT_RATIO \<and> price \<le> MAX_SQRT_RATIO)) (\<lambda>_.
           Inr \<lparr>step_price = price, step_in = amountIn, step_out = amountOut, step_fee = feeAmount\<rparr>)))))))"

text \<open>The loop of \<open>tickAtPrice\<close>; \<open>Math.ceil((low + high) / 2)\<close> is \<open>(low + high + 1) div 2\<close>.\<close>

function tick_search :: "int \<Rightarrow> int \<Rightarrow> int \<Rightarrow> int res" where
  "tick_search price low high =
     (if low < high then
        let mid = (low + high + 1) div 2 in
        bind_ok (sqrtRatioAtTick mid) (\<lambda>r.
          if r \<le> price then tick_search price mid high else tick_search price low (mid - 1))
      else Inr low)"
  by auto
termination by (relation "measure (\<lambda>(_, low, high). nat (high - low))") auto

declare tick_search.simps [simp del]

definition tickAtPrice :: "int \<Rightarrow> int res" where
  "tickAtPrice price =
     bind_ok (assertion (price \<ge> MIN_SQRT_RATIO \<and> price < MAX_SQRT_RATIO)) (\<lambda>_.
       tick_search price MIN_TICK MAX_TICK)"

function lower_bound_loop :: "int list \<Rightarrow> int \<Rightarrow> nat \<Rightarrow> nat \<Rightarrow> nat" where
  "lower_bound_loop ticks tick low high =
     (if low < high then
        let mid = (low + high) div 2 in
        if ticks ! mid < tick then lower_bound_loop ticks tick (mid + 1) high
        else lower_bound_loop ticks tick low mid
      else low)"
  by auto
termination by (relation "measure (\<lambda>(_, _, low, high). high - low)") auto

declare lower_bound_loop.simps [simp del]

definition lowerBound :: "int list \<Rightarrow> int \<Rightarrow> nat" where
  "lowerBound ticks tick = lower_bound_loop ticks tick 0 (length ticks)"

record FeeSegment =
  seg_from :: int
  seg_to :: int
  seg_tickBefore :: int
  seg_liquidity :: int
  seg_fee :: int
  seg_token :: int
  seg_crossed :: "int option"

record ObservedSwap =
  obs_price :: int
  obs_tick :: int
  obs_liquidity :: int
  obs_amount0 :: int
  obs_amount1 :: int

record SwapSource =
  src_price :: int
  src_tick :: int
  src_liquidity :: int
  src_fee :: int
  src_spacing :: int
  src_ticks :: "int list"
  src_net :: "int \<Rightarrow> int"

text \<open>The variables of one attempt's loop.\<close>

record attempt_state =
  at_price :: int
  at_tick :: int
  at_liquidity :: int
  at_remaining :: int
  at_in :: int
  at_out :: int
  at_segments :: "FeeSegment list"

definition next_boundary :: "SwapSource \<Rightarrow> bool \<Rightarrow> int \<Rightarrow> int \<times> bool" where
  "next_boundary source down tick =
     (let spacing = src_spacing source;
          compressed = tick div spacing + (if down then 0 else 1);
          wordBoundary = compressed div 256 * 256 + (if down then 0 else 255);
          index = int (lowerBound (src_ticks source) (compressed * spacing + (if down then 1 else 0)));
          i = (if down then index - 1 else index);
          candidate = (if 0 \<le> i \<and> i < int (length (src_ticks source))
                       then Some (src_ticks source ! nat i) else None)
      in case candidate of
           None \<Rightarrow> (max MIN_TICK (min MAX_TICK (wordBoundary * spacing)), False)
         | Some c \<Rightarrow>
             let initialized = (if down then c \<ge> wordBoundary * spacing else c \<le> wordBoundary * spacing)
             in (max MIN_TICK (min MAX_TICK (if initialized then c else wordBoundary * spacing)), initialized))"

definition tick_after :: "ObservedSwap \<Rightarrow> int \<Rightarrow> int res" where
  "tick_after observed price =
     (if price = obs_price observed \<and> obs_tick observed \<ge> MIN_TICK \<and> obs_tick observed < MAX_TICK
      then bind_ok (sqrtRatioAtTick (obs_tick observed)) (\<lambda>lo.
             if lo \<le> price
             then bind_ok (sqrtRatioAtTick (obs_tick observed + 1)) (\<lambda>hi.
                    if price < hi then Inr (obs_tick observed) else tickAtPrice price)
             else tickAtPrice price)
      else tickAtPrice price)"

text \<open>One iteration; \<open>None\<close> is the \<open>return null\<close> of the attempt.\<close>

definition attempt_step ::
  "SwapSource \<Rightarrow> ObservedSwap \<Rightarrow> bool \<Rightarrow> bool \<Rightarrow> int \<Rightarrow> int \<Rightarrow> int \<Rightarrow> attempt_state \<Rightarrow> attempt_state option res"
where
  "attempt_step source observed down exactIn input output limit s =
     (let (nextTick, initialized) = next_boundary source down (at_tick s) in
      bind_ok (sqrtRatioAtTick nextTick) (\<lambda>boundary.
      let target = (if down then (if boundary < limit then limit else boundary)
                    else (if boundary > limit then limit else boundary)) in
      bind_ok (swapStep (at_price s) target (at_liquidity s) (at_remaining s) (src_fee source)) (\<lambda>r.
      let totalIn = at_in s + (step_in r + step_fee r);
          totalOut = at_out s + step_out r in
      if totalIn > input \<or> totalOut > output then Inr None
      else
        let crossed = (if step_price r = boundary \<and> initialized then Some nextTick else None);
            segment = \<lparr>seg_from = at_price s, seg_to = step_price r, seg_tickBefore = at_tick s,
              seg_liquidity = at_liquidity s, seg_fee = step_fee r,
              seg_token = (if down then 0 else 1), seg_crossed = crossed\<rparr>;
            remaining = at_remaining s + (if exactIn then - (step_in r + step_fee r) else step_out r);
            liquidity = (if step_price r = boundary \<and> initialized
              then at_liquidity s + (if down then - 1 else 1) * src_net source nextTick
              else at_liquidity s)
        in
        bind_ok (if step_price r = boundary then Inr (if down then nextTick - 1 else nextTick)
                 else if at_price s \<noteq> step_price r then tick_after observed (step_price r)
                 else Inr (at_tick s)) (\<lambda>tick.
          if liquidity < 0 \<or> liquidity \<ge> 2 ^ 128 then Inr None
          else if (if down then step_price r < obs_price observed else step_price r > obs_price observed)
          then Inr None
          else Inr (Some \<lparr>at_price = step_price r, at_tick = tick, at_liquidity = liquidity,
                 at_remaining = remaining, at_in = totalIn, at_out = totalOut,
                 at_segments = at_segments s @ [segment]\<rparr>)))))"

text \<open>The loop; the counter is the number of iterations left of the 20,001 allowed.\<close>

fun attempt_loop ::
  "SwapSource \<Rightarrow> ObservedSwap \<Rightarrow> bool \<Rightarrow> bool \<Rightarrow> int \<Rightarrow> int \<Rightarrow> int \<Rightarrow> nat \<Rightarrow> attempt_state \<Rightarrow>
   attempt_state option res"
where
  "attempt_loop source observed down exactIn input output limit k s =
     (if at_remaining s \<noteq> 0 \<and> at_price s \<noteq> limit then
        (case k of 0 \<Rightarrow> Inr None
         | Suc k' \<Rightarrow>
             bind_ok (attempt_step source observed down exactIn input output limit s) (\<lambda>r.
               case r of None \<Rightarrow> Inr None
               | Some s' \<Rightarrow> attempt_loop source observed down exactIn input output limit k' s'))
      else Inr (Some s))"

declare attempt_loop.simps [simp del]

definition attempt ::
  "SwapSource \<Rightarrow> ObservedSwap \<Rightarrow> bool \<Rightarrow> int \<Rightarrow> int \<Rightarrow> bool \<Rightarrow> bool \<Rightarrow> FeeSegment list option res"
where
  "attempt source observed down input output exactIn useEndLimit =
     (let unspent = (if useEndLimit then 1 else 0);
          remaining = (if exactIn then input + unspent else - (output + unspent));
          limit = (if useEndLimit then obs_price observed
                   else if down then MIN_SQRT_RATIO + 1 else MAX_SQRT_RATIO - 1) in
      if src_price source = limit then Inr None
      else
        bind_ok (attempt_loop source observed down exactIn input output limit 20001
                   \<lparr>at_price = src_price source, at_tick = src_tick source,
                    at_liquidity = src_liquidity source, at_remaining = remaining,
                    at_in = 0, at_out = 0, at_segments = []\<rparr>) (\<lambda>r.
          case r of None \<Rightarrow> Inr None
          | Some s \<Rightarrow> Inr (if at_price s = obs_price observed \<and> at_tick s = obs_tick observed \<and>
                at_liquidity s = obs_liquidity observed \<and> at_in s = input \<and> at_out s = output
              then Some (at_segments s) else None)))"

text \<open>\<open>try \{ ... \} catch \{\}\<close>: a throwing attempt counts as one that returned null.\<close>

fun first_attempt ::
  "(bool \<Rightarrow> bool \<Rightarrow> FeeSegment list option res) \<Rightarrow> (bool \<times> bool) list \<Rightarrow> FeeSegment list option"
where
  "first_attempt f [] = None"
| "first_attempt f ((exactIn, endLimit) # rest) =
     (case f exactIn endLimit of Inr (Some segments) \<Rightarrow> Some segments | _ \<Rightarrow> first_attempt f rest)"

definition reconstructSwap :: "SwapSource \<Rightarrow> ObservedSwap \<Rightarrow> FeeSegment list res" where
  "reconstructSwap source observed =
     (let down = (obs_price observed < src_price source \<or>
                  (obs_price observed = src_price source \<and> obs_amount0 observed > 0));
          input = (if down then obs_amount0 observed else obs_amount1 observed);
          output = - (if down then obs_amount1 observed else obs_amount0 observed) in
      bind_ok (ensure (input \<ge> 0 \<and> output \<ge> 0) ''Invalid observed swap direction'') (\<lambda>_.
      bind_ok (assertion (src_spacing source > 0)) (\<lambda>_.
        case first_attempt (attempt source observed down input output)
               [(True, False), (False, False), (True, True), (False, True)] of
          Some segments \<Rightarrow> Inr segments
        | None \<Rightarrow> Inl ''Observed swap cannot be reconstructed exactly'')))"

subsection \<open>The swap step\<close>

lemma ceilDiv_checked_Inr_iff:
  "ceilDiv_checked a b = Inr r \<longleftrightarrow> 0 \<le> a \<and> 0 < b \<and> r = (a + b - 1) div b"
  by (auto simp: ceilDiv_checked_def bind_ok_Inr_iff sdiv_nonneg)

lemma delta_Inr_iff:
  "delta a b l token up = Inr d \<longleftrightarrow>
     0 < min a b \<and> 0 \<le> l \<and>
     d = (if token = 0 then amount0_at up l (min a b) (max a b) else amount1_at up l (min a b) (max a b))"
proof (cases "0 < min a b \<and> 0 \<le> l")
  case True
  then have "0 < min a b * max a b" by (auto simp: min_def max_def)
  moreover have "0 \<le> l * 2 ^ 96 * (max a b - min a b)" "0 \<le> l * (max a b - min a b)"
    using True by auto
  moreover from calculation have "0 \<le> l * 2 ^ 96 * (max a b - min a b) + min a b * max a b - 1"
    by linarith
  moreover have "(if a > b then (b, a) else (a, b)) = (min a b, max a b)" by auto
  ultimately show ?thesis
    using True by (simp add: delta_def Let_def amount0_at_def amount1_at_def round_div_def
        ceilDiv_checked_def Q96_def sdiv_nonneg) auto
qed (auto simp: delta_def bind_ok_Inr_iff)

lemma ge_ceil: "0 < b \<Longrightarrow> r = (a + b - 1) div b \<Longrightarrow> a \<le> b * (r :: int)"
  using ceil_div_bounds(1) by blast

text \<open>
  The price after a partial step, one lemma per branch: on which side of the old price it is,
  that it uses no more (gives no less) than the amount, and which targets it cannot pass.
\<close>

lemma nextPrice_in0:
  assumes "nextPrice p l x 0 True = Inr q"
  shows "0 < l" "0 < p" "q \<le> p" "l * Q96 * (p - q) \<le> x * p * q"
    and "\<And>t. 0 < t \<Longrightarrow> x * p * t < l * Q96 * (p - t) \<Longrightarrow> t < q"
proof -
  let ?n = "l * Q96"
  from assms have v: "0 < p" "0 < l" "0 \<le> x" by (auto simp: nextPrice_def bind_ok_Inr_iff)
  have n: "0 < ?n" using v by (simp add: Q96_def)
  consider "x = 0" "q = p" | "0 < x" "q = (?n + (?n div p + x) - 1) div (?n div p + x)"
    | "0 < x" "q = (?n * p + (?n + x * p) - 1) div (?n + x * p)"
    using assms v n by (auto simp: nextPrice_def Let_def ceilDiv_checked_Inr_iff sdiv_nonneg
        bind_ok_Inr_iff split: if_splits)
  then have "q \<le> p \<and> ?n * (p - q) \<le> x * p * q \<and> (\<forall>t>0. x * p * t < ?n * (p - t) \<longrightarrow> t < q)"
  proof cases
    case 1
    have "t < p" if "0 < ?n * (p - t)" for t using zero_less_mult_pos [OF that n] by simp
    with 1 show ?thesis by simp
  next
    case 2
    let ?f = "?n div p" and ?d = "?n div p + x"
    have f: "0 \<le> ?f" "p * ?f \<le> ?n" "?n < p * ?f + p"
      using v n floor_div_bounds [of p ?n] by (simp_all add: pos_imp_zdiv_nonneg_iff)
    have d: "0 < ?d" using f 2 by simp
    have q: "?n \<le> ?d * q" by (rule ge_ceil [OF d 2(2)])
    then have q0: "0 \<le> q" using n d by (smt (verit) mult_pos_neg)
    have le: "q \<le> c \<longleftrightarrow> ?n \<le> ?d * c" for c using ceil_div_le_iff [OF d] 2(2) by simp
    have "p * 1 \<le> p * x" using v 2(1) by (intro mult_left_mono) auto
    moreover have "?d * p = p * ?f + p * x" by (simp add: algebra_simps)
    ultimately have "?n \<le> ?d * p" using f by linarith
    then have qp: "q \<le> p" by (simp only: le)
    have "p * ?n \<le> p * (?d * q)" using q v by simp
    also have "\<dots> = (p * ?f) * q + x * p * q" by (simp add: algebra_simps)
    also have "\<dots> \<le> ?n * q + x * p * q" using mult_right_mono [OF f(2) q0] by simp
    finally have use: "?n * (p - q) \<le> x * p * q" by (simp add: algebra_simps)
    have "t < q" if t: "0 < t" "x * p * t < ?n * (p - t)" for t
    proof -
      have "p * (?d * t) = (p * ?f) * t + x * p * t" by (simp add: algebra_simps)
      also have "\<dots> \<le> ?n * t + x * p * t" using mult_right_mono [OF f(2), of t] t by simp
      also have "\<dots> < p * ?n" using t by (simp add: algebra_simps)
      finally have "?d * t < ?n" using v by simp
      then show ?thesis using le [of t] by linarith
    qed
    with qp use show ?thesis by blast
  next
    case 3
    have "0 < x * p" using v 3 by simp
    then have d: "0 < ?n + x * p" using n by linarith
    have q: "?n * p \<le> (?n + x * p) * q" by (rule ge_ceil [OF d 3(2)])
    have le: "q \<le> c \<longleftrightarrow> ?n * p \<le> (?n + x * p) * c" for c
      using ceil_div_le_iff [OF d] 3(2) by simp
    have "0 \<le> x * p * p" using v by simp
    then have "?n * p \<le> (?n + x * p) * p" by (simp only: distrib_right)
    then have "q \<le> p" by (simp only: le)
    moreover have "?n * (p - q) \<le> x * p * q" using q by (simp add: algebra_simps)
    moreover have "t < q" if "x * p * t < ?n * (p - t)" for t
      using that le [of t] by (simp add: algebra_simps)
    ultimately show ?thesis by blast
  qed
  with v show "0 < l" "0 < p" "q \<le> p" "?n * (p - q) \<le> x * p * q"
    "\<And>t. 0 < t \<Longrightarrow> x * p * t < ?n * (p - t) \<Longrightarrow> t < q" by auto
qed

lemma nextPrice_in1:
  assumes "nextPrice p l x 1 True = Inr q"
  shows "0 < l" "0 < p" "p \<le> q" "l * (q - p) \<le> x * Q96"
    and "\<And>t. x * Q96 < l * (t - p) \<Longrightarrow> q < t"
proof -
  from assms have v: "0 < p" "0 < l" "0 \<le> x" and q: "q = p + x * Q96 div l"
    by (auto simp: nextPrice_def bind_ok_Inr_iff sdiv_nonneg Q96_def split: if_splits)
  have x: "0 \<le> x * Q96" using v by (simp add: Q96_def)
  then have "0 \<le> x * Q96 div l" using v by (simp add: pos_imp_zdiv_nonneg_iff)
  with v q show "0 < l" "0 < p" "p \<le> q" "l * (q - p) \<le> x * Q96"
    using floor_div_bounds(1) [of l "x * Q96"] by simp_all
  show "q < t" if "x * Q96 < l * (t - p)" for t
    using that div_le_iff [OF v(2), of "x * Q96" "t - p - 1"] by (simp add: q algebra_simps)
qed

lemma nextPrice_out1:
  assumes "nextPrice p l x 1 False = Inr q"
  shows "0 < l" "0 < p" "q \<le> p" "x * Q96 \<le> l * (p - q)"
    and "\<And>t. x * Q96 \<le> l * (p - t) \<Longrightarrow> t \<le> q"
proof -
  from assms have v: "0 < p" "0 < l" "0 \<le> x" and q: "q = p - (x * Q96 + l - 1) div l"
    by (auto simp: nextPrice_def bind_ok_Inr_iff ceilDiv_checked_Inr_iff split: if_splits)
  have x: "0 \<le> x * Q96" using v by (simp add: Q96_def)
  then have "0 \<le> (x * Q96 + l - 1) div l" using v by (simp add: pos_imp_zdiv_nonneg_iff)
  with v q show "0 < l" "0 < p" "q \<le> p" "x * Q96 \<le> l * (p - q)"
    using ge_ceil [OF v(2) refl, of "x * Q96"] by simp_all
  show "t \<le> q" if "x * Q96 \<le> l * (p - t)" for t
    using that ceil_div_le_iff [OF v(2), of "x * Q96" "p - t"] by (simp add: q)
qed

lemma nextPrice_out0:
  assumes "nextPrice p l x 0 False = Inr q"
  shows "0 < l" "0 < p" "p \<le> q" "x * p * q \<le> l * Q96 * (q - p)"
    and "\<And>t. x * p * t \<le> l * Q96 * (t - p) \<Longrightarrow> 0 < x \<Longrightarrow> q \<le> t"
proof -
  let ?n = "l * Q96"
  from assms have v: "0 < p" "0 < l" "0 \<le> x" by (auto simp: nextPrice_def bind_ok_Inr_iff)
  consider "x = 0" "q = p" | "0 < x" "0 < ?n - x * p" "q = (?n * p + (?n - x * p) - 1) div (?n - x * p)"
    using assms v by (auto simp: nextPrice_def Let_def ceilDiv_checked_Inr_iff bind_ok_Inr_iff
        split: if_splits)
  then have "p \<le> q \<and> x * p * q \<le> ?n * (q - p) \<and> (\<forall>t. x * p * t \<le> ?n * (t - p) \<longrightarrow> 0 < x \<longrightarrow> q \<le> t)"
  proof cases
    case 1
    then show ?thesis by simp
  next
    case 2
    have q: "?n * p \<le> (?n - x * p) * q" by (rule ge_ceil [OF 2(2,3)])
    have le: "q \<le> c \<longleftrightarrow> ?n * p \<le> (?n - x * p) * c" for c
      using ceil_div_le_iff [OF 2(2)] 2(3) by simp
    have "0 < x * p * p" using v 2(1) by simp
    then have "\<not> q \<le> p - 1" using 2(2) by (simp only: le) (simp add: algebra_simps)
    then have "p \<le> q" by linarith
    moreover have "x * p * q \<le> ?n * (q - p)" using q by (simp add: algebra_simps)
    moreover have "q \<le> t" if "x * p * t \<le> ?n * (t - p)" for t
      using that le [of t] by (simp add: algebra_simps)
    ultimately show ?thesis by blast
  qed
  with v show "0 < l" "0 < p" "p \<le> q" "x * p * q \<le> ?n * (q - p)"
    "\<And>t. x * p * t \<le> ?n * (t - p) \<Longrightarrow> 0 < x \<Longrightarrow> q \<le> t" by auto
qed

text \<open>The rounded amounts as thresholds, with the scale kept symbolic.\<close>

lemma amount0_up_le: "0 < a * b \<Longrightarrow> amount0_at True l a b \<le> x \<longleftrightarrow> l * Q96 * (b - a) \<le> a * b * x"
  and amount0_down_ge: "0 < a * b \<Longrightarrow> x \<le> amount0_at False l a b \<longleftrightarrow> a * b * x \<le> l * Q96 * (b - a)"
  and amount1_up_le: "amount1_at True l a b \<le> x \<longleftrightarrow> l * (b - a) \<le> Q96 * x"
  and amount1_down_ge: "x \<le> amount1_at False l a b \<longleftrightarrow> Q96 * x \<le> l * (b - a)"
  unfolding amount0_at_def amount1_at_def round_div_def Q96_def
  by (simp_all only: if_True if_False ceil_div_le_iff le_div_iff zero_less_power zero_less_numeral)

text \<open>
  What a step does before it rounds the fee, \<open>swap_move\<close>: the new price, the input and the
  output, with the amount it may use.
\<close>

definition exact_move :: "int \<Rightarrow> int \<Rightarrow> int \<Rightarrow> int \<Rightarrow> bool \<Rightarrow> int \<Rightarrow> int res" where
  "exact_move p target l available exactIn token =
     bind_ok (delta p target l token exactIn) (\<lambda>needed.
       if available \<ge> needed then Inr target else nextPrice p l available token exactIn)"

lemma exact_move_in:
  assumes "exact_move p target l x True (if target \<le> p then 0 else 1) = Inr q"
    and "delta p q l (if target \<le> p then 0 else 1) True = Inr d"
  shows "min p target \<le> q" "q \<le> max p target" "d \<le> x"
proof -
  from assms(1) have g: "0 < p" "0 < target" "0 \<le> l"
    by (auto simp: exact_move_def bind_ok_Inr_iff delta_Inr_iff)
  have "min p target \<le> q \<and> q \<le> max p target \<and> d \<le> x"
  proof (cases "target \<le> p")
    case True
    then have d: "d = amount0_at True l (min p q) (max p q)" and pq: "0 < q"
      using assms(2) by (auto simp: delta_Inr_iff)
    show ?thesis
    proof (cases "x \<ge> amount0_at True l target p")
      case True
      with \<open>target \<le> p\<close> assms(1) have "q = target"
        by (simp add: exact_move_def bind_ok_Inr_iff delta_Inr_iff)
      with \<open>target \<le> p\<close> True show ?thesis by (simp add: d)
    next
      case False
      with \<open>target \<le> p\<close> assms(1) have n: "nextPrice p l x 0 True = Inr q"
        by (simp add: exact_move_def bind_ok_Inr_iff delta_Inr_iff)
      have tp: "0 < target * p" "0 < q * p" using g pq by simp_all
      have "x * p * target < l * Q96 * (p - target)"
        using False by (simp only: amount0_up_le [OF tp(1)] not_le ac_simps)
      then have "target < q" using nextPrice_in0(5) [OF n] g by simp
      moreover have "d \<le> x"
        using nextPrice_in0(3,4) [OF n] amount0_up_le [OF tp(2)] by (simp add: d ac_simps)
      ultimately show ?thesis using nextPrice_in0(3) [OF n] by simp
    qed
  next
    case False
    then have d: "d = amount1_at True l (min p q) (max p q)"
      using assms(2) by (auto simp: delta_Inr_iff)
    show ?thesis
    proof (cases "x \<ge> amount1_at True l p target")
      case True
      with \<open>\<not> target \<le> p\<close> assms(1) have "q = target"
        by (simp add: exact_move_def bind_ok_Inr_iff delta_Inr_iff)
      with \<open>\<not> target \<le> p\<close> True show ?thesis by (simp add: d)
    next
      case ne: False
      with False assms(1) have n: "nextPrice p l x 1 True = Inr q"
        by (simp add: exact_move_def bind_ok_Inr_iff delta_Inr_iff)
      have "x * Q96 < l * (target - p)"
        using ne by (simp only: amount1_up_le not_le ac_simps)
      then have "q < target" using nextPrice_in1(5) [OF n] by simp
      moreover have "d \<le> x"
        using nextPrice_in1(3,4) [OF n] by (simp add: d amount1_up_le ac_simps)
      ultimately show ?thesis using nextPrice_in1(3) [OF n] by simp
    qed
  qed
  then show "min p target \<le> q" "q \<le> max p target" "d \<le> x" by auto
qed

lemma exact_move_out:
  assumes "exact_move p target l x False (if target \<le> p then 1 else 0) = Inr q" "0 < x"
    and "delta p q l (if target \<le> p then 1 else 0) False = Inr d"
  shows "min p target \<le> q" "q \<le> max p target" "q \<noteq> target \<Longrightarrow> x \<le> d"
proof -
  from assms(1) have g: "0 < p" "0 < target" "0 \<le> l"
    by (auto simp: exact_move_def bind_ok_Inr_iff delta_Inr_iff)
  have "min p target \<le> q \<and> q \<le> max p target \<and> (q \<noteq> target \<longrightarrow> x \<le> d)"
  proof (cases "target \<le> p")
    case True
    then have d: "d = amount1_at False l (min p q) (max p q)"
      using assms(3) by (auto simp: delta_Inr_iff)
    show ?thesis
    proof (cases "x \<ge> amount1_at False l target p")
      case False
      with True assms(1) have n: "nextPrice p l x 1 False = Inr q"
        by (simp add: exact_move_def bind_ok_Inr_iff delta_Inr_iff)
      have "x * Q96 \<le> l * (p - target)"
        using False amount1_down_ge [of x l target p] by (simp add: ac_simps)
      then have "target \<le> q" using nextPrice_out1(5) [OF n] by simp
      moreover have "x \<le> d"
        using nextPrice_out1(3,4) [OF n] by (simp add: d amount1_down_ge ac_simps)
      ultimately show ?thesis using nextPrice_out1(3) [OF n] True by simp
    qed (use True assms(1) in \<open>simp add: exact_move_def bind_ok_Inr_iff delta_Inr_iff\<close>)
  next
    case False
    then have d: "d = amount0_at False l (min p q) (max p q)" and q: "0 < q"
      using assms(3) by (auto simp: delta_Inr_iff)
    show ?thesis
    proof (cases "x \<ge> amount0_at False l p target")
      case ne: False
      with False assms(1) have n: "nextPrice p l x 0 False = Inr q"
        by (simp add: exact_move_def bind_ok_Inr_iff delta_Inr_iff)
      have tp: "0 < p * target" "0 < p * q" using g q by simp_all
      have "x * p * target \<le> l * Q96 * (target - p)"
        using ne amount0_down_ge [OF tp(1), of x l] by (simp add: ac_simps)
      then have "q \<le> target" using nextPrice_out0(5) [OF n] assms(2) by simp
      moreover have "x \<le> d"
        using nextPrice_out0(3,4) [OF n] amount0_down_ge [OF tp(2), of x] by (simp add: d ac_simps)
      ultimately show ?thesis using nextPrice_out0(3) [OF n] by simp
    qed (use False assms(1) in \<open>simp add: exact_move_def bind_ok_Inr_iff delta_Inr_iff\<close>)
  qed
  then show "min p target \<le> q" "q \<le> max p target" "q \<noteq> target \<Longrightarrow> x \<le> d" by auto
qed

lemma swapStep_cases:
  assumes "swapStep p target l remaining feePips = Inr s"
  defines "exactIn \<equiv> remaining \<ge> 0"
  obtains available amountOut where
    "0 \<le> feePips" "feePips < 1000000"
    "available = (if exactIn then remaining * (1000000 - feePips) div 1000000 else - remaining)"
    "exact_move p target l available exactIn
       (if exactIn then if target \<le> p then 0 else 1 else if target \<le> p then 1 else 0) = Inr (step_price s)"
    "delta p (step_price s) l (if target \<le> p then 0 else 1) True = Inr (step_in s)"
    "delta p (step_price s) l (if target \<le> p then 1 else 0) False = Inr amountOut"
    "step_out s = (if \<not> exactIn \<and> amountOut > - remaining then - remaining else amountOut)"
    "step_fee s = (if exactIn \<and> step_price s \<noteq> target then remaining - step_in s
       else (step_in s * feePips + (1000000 - feePips) - 1) div (1000000 - feePips))"
    "0 \<le> step_fee s" "MIN_SQRT_RATIO \<le> step_price s" "step_price s \<le> MAX_SQRT_RATIO"
  using assms
  by (auto simp: swapStep_def Let_def bind_ok_Inr_iff exact_move_def ceilDiv_checked_Inr_iff
      sdiv_nonneg split: if_splits)

lemma amounts_at_nonneg':
  assumes "0 \<le> l" "0 < a" "a \<le> b"
  shows "0 \<le> amount0_at up l a b" "0 \<le> amount1_at up l a b"
proof -
  have "0 \<le> round_div up n d" if "0 \<le> n" "0 < d" for n d
    using round_div_bounds [OF that] by (cases up) auto
  with assms show "0 \<le> amount0_at up l a b" "0 \<le> amount1_at up l a b"
    by (simp_all add: amount0_at_def amount1_at_def)
qed

lemma delta_nonneg: "delta a b l token up = Inr d \<Longrightarrow> 0 \<le> d"
  by (auto simp: delta_Inr_iff min_def max_def amounts_at_nonneg' split: if_splits)

text \<open>The fee on a step that reached its target still fits what is left of the input.\<close>

lemma fee_fits:
  fixes a f r :: int
  assumes "0 \<le> f" "f < 1000000" "a \<le> r * (1000000 - f) div 1000000"
  shows "a + (a * f + (1000000 - f) - 1) div (1000000 - f) \<le> r"
proof -
  have "1000000 * a \<le> r * (1000000 - f)" using assms(3) le_div_iff [of 1000000 a] by simp
  then have "a * f \<le> (1000000 - f) * (r - a)" by (simp add: algebra_simps)
  then have "(a * f + (1000000 - f) - 1) div (1000000 - f) \<le> r - a"
    using ceil_div_le_iff [of "1000000 - f" "a * f" "r - a"] assms by simp
  then show ?thesis by simp
qed

subsection \<open>The searches\<close>

lemma tick_search_correct:
  assumes "MIN_TICK \<le> low" "low \<le> high" "high \<le> MAX_TICK" "sqrt_ratio low \<le> price"
    and "high < MAX_TICK \<Longrightarrow> price < sqrt_ratio (high + 1)"
  shows "\<exists>t. tick_search price low high = Inr t \<and> low \<le> t \<and> t \<le> high \<and> sqrt_ratio t \<le> price \<and>
    (t < MAX_TICK \<longrightarrow> price < sqrt_ratio (t + 1))"
  using assms
proof (induction price low high rule: tick_search.induct)
  case (1 price low high)
  let ?m = "(low + high + 1) div 2"
  show ?case
  proof (cases "low < high")
    case False
    then show ?thesis using "1.prems" by (simp add: tick_search.simps)
  next
    case True
    then have m: "low < ?m" "?m \<le> high" by auto
    then have r: "sqrtRatioAtTick ?m = Inr (sqrt_ratio ?m)"
      using "1.prems" by (simp add: sqrtRatioAtTick_Inr_iff)
    show ?thesis
    proof (cases "sqrt_ratio ?m \<le> price")
      case le: True
      have "\<exists>t. tick_search price ?m high = Inr t \<and> ?m \<le> t \<and> t \<le> high \<and> sqrt_ratio t \<le> price \<and>
          (t < MAX_TICK \<longrightarrow> price < sqrt_ratio (t + 1))"
        using "1.IH"(1) [OF True refl le] "1.prems" m le by auto
      then show ?thesis using True le m by (subst tick_search.simps) (auto simp: r Let_def)
    next
      case gt: False
      have "\<exists>t. tick_search price low (?m - 1) = Inr t \<and> low \<le> t \<and> t \<le> ?m - 1 \<and>
          sqrt_ratio t \<le> price \<and> (t < MAX_TICK \<longrightarrow> price < sqrt_ratio (t + 1))"
        using "1.IH"(2) [OF True refl gt] "1.prems" m gt by auto
      then show ?thesis using True gt m by (subst tick_search.simps) (auto simp: r Let_def)
    qed
  qed
qed

lemma tickAtPrice_Inr_iff:
  "tickAtPrice price = Inr t \<longleftrightarrow>
     MIN_TICK \<le> t \<and> t < MAX_TICK \<and> sqrt_ratio t \<le> price \<and> price < sqrt_ratio (t + 1)"
proof
  have dom: "MIN_TICK \<le> MAX_TICK" by (simp add: tick_consts)
  assume l: "tickAtPrice price = Inr t"
  then have p: "MIN_SQRT_RATIO \<le> price" "price < MAX_SQRT_RATIO"
    and s: "tick_search price MIN_TICK MAX_TICK = Inr t"
    by (auto simp: tickAtPrice_def bind_ok_Inr_iff)
  with tick_search_correct [of MIN_TICK MAX_TICK price, OF _ dom]
  have t: "MIN_TICK \<le> t" "t \<le> MAX_TICK" "sqrt_ratio t \<le> price"
    "t < MAX_TICK \<Longrightarrow> price < sqrt_ratio (t + 1)"
    by (auto simp: sqrt_ratio_min)
  moreover have "t \<noteq> MAX_TICK" using t(3) p by (auto simp: sqrt_ratio_max)
  ultimately show "MIN_TICK \<le> t \<and> t < MAX_TICK \<and> sqrt_ratio t \<le> price \<and> price < sqrt_ratio (t + 1)"
    by simp
next
  have dom: "MIN_TICK \<le> MAX_TICK" by (simp add: tick_consts)
  assume r: "MIN_TICK \<le> t \<and> t < MAX_TICK \<and> sqrt_ratio t \<le> price \<and> price < sqrt_ratio (t + 1)"
  then have p: "MIN_SQRT_RATIO \<le> price" "price < MAX_SQRT_RATIO"
    using sqrt_ratio_range [of t] sqrt_ratio_range [of "t + 1"] by auto
  then obtain u where u: "tick_search price MIN_TICK MAX_TICK = Inr u"
    and b: "MIN_TICK \<le> u" "u \<le> MAX_TICK" "sqrt_ratio u \<le> price"
      "u < MAX_TICK \<longrightarrow> price < sqrt_ratio (u + 1)"
    using tick_search_correct [of MIN_TICK MAX_TICK price, OF _ dom]
    by (auto simp: sqrt_ratio_min)
  have "u \<noteq> MAX_TICK" using b p by (auto simp: sqrt_ratio_max)
  then have "price < sqrt_ratio (u + 1)" using b by simp
  with b(3) r have "sqrt_ratio u < sqrt_ratio (t + 1)" "sqrt_ratio t < sqrt_ratio (u + 1)"
    by linarith+
  then have "u < t + 1" "t < u + 1" using b r \<open>u \<noteq> MAX_TICK\<close> by (simp_all add: ticks.ratio_less_iff)
  with u p show "tickAtPrice price = Inr t" by (simp add: tickAtPrice_def)
qed

lemma sorted_split_at:
  assumes "sorted ticks" "m < length ticks"
  shows "ticks ! m < t \<Longrightarrow> i \<le> m \<Longrightarrow> ticks ! i < t"
    and "\<not> ticks ! m < t \<Longrightarrow> m \<le> i \<Longrightarrow> i < length ticks \<Longrightarrow> t \<le> ticks ! (i :: nat)"
  using assms sorted_nth_mono [of ticks i m] sorted_nth_mono [of ticks m i] by auto

lemma lower_bound_loop_correct:
  assumes "sorted ticks" "lo \<le> hi" "hi \<le> length ticks"
    and "\<And>i. i < lo \<Longrightarrow> ticks ! i < tick"
    and "\<And>i. hi \<le> i \<Longrightarrow> i < length ticks \<Longrightarrow> tick \<le> ticks ! i"
  shows "lower_bound_loop ticks tick lo hi \<le> hi \<and>
    (\<forall>i<lower_bound_loop ticks tick lo hi. ticks ! i < tick) \<and>
    (\<forall>i. lower_bound_loop ticks tick lo hi \<le> i \<longrightarrow> i < length ticks \<longrightarrow> tick \<le> ticks ! i)"
  using assms
proof (induction ticks tick lo hi rule: lower_bound_loop.induct)
  case (1 ticks tick lo hi)
  let ?m = "(lo + hi) div 2"
  consider "lo = hi" | "lo < hi" "ticks ! ?m < tick" | "lo < hi" "\<not> ticks ! ?m < tick"
    using "1.prems"(2) by linarith
  then show ?case
  proof cases
    case 1
    have "lower_bound_loop ticks tick lo hi = hi"
      by (subst lower_bound_loop.simps) (simp add: 1)
    with "1.prems" 1 show ?thesis by auto
  next
    case 2
    have e: "lower_bound_loop ticks tick lo hi = lower_bound_loop ticks tick (?m + 1) hi"
      by (subst lower_bound_loop.simps) (simp add: 2 Let_def)
    have m: "?m < hi" using 2 by auto
    then have "\<And>i. i < ?m + 1 \<Longrightarrow> ticks ! i < tick"
      using sorted_split_at(1) [OF "1.prems"(1) _ 2(2)] "1.prems"(3) by simp
    with m show ?thesis
      unfolding e using "1.prems" by (intro "1.IH"(1) [OF 2(1) refl 2(2)]) auto
  next
    case 3
    have e: "lower_bound_loop ticks tick lo hi = lower_bound_loop ticks tick lo ?m"
      by (subst lower_bound_loop.simps) (simp add: 3 Let_def)
    have m: "?m < hi" "lo \<le> ?m" using 3 by auto
    then have "\<And>i. ?m \<le> i \<Longrightarrow> i < length ticks \<Longrightarrow> tick \<le> ticks ! i"
      using sorted_split_at(2) [OF "1.prems"(1) _ 3(2)] "1.prems"(3) by simp
    with m have "lower_bound_loop ticks tick lo ?m \<le> ?m \<and>
        (\<forall>i<lower_bound_loop ticks tick lo ?m. ticks ! i < tick) \<and>
        (\<forall>i. lower_bound_loop ticks tick lo ?m \<le> i \<longrightarrow> i < length ticks \<longrightarrow> tick \<le> ticks ! i)"
      using "1.prems" by (intro "1.IH"(2) [OF 3(1) refl 3(2)]) auto
    with m show ?thesis unfolding e by auto
  qed
qed

lemma lowerBound_correct:
  assumes "sorted ticks"
  shows "lowerBound ticks tick \<le> length ticks"
    and "\<And>i. i < lowerBound ticks tick \<Longrightarrow> ticks ! i < tick"
    and "\<And>i. lowerBound ticks tick \<le> i \<Longrightarrow> i < length ticks \<Longrightarrow> tick \<le> ticks ! i"
proof -
  have "lowerBound ticks tick \<le> length ticks \<and> (\<forall>i<lowerBound ticks tick. ticks ! i < tick) \<and>
      (\<forall>i. lowerBound ticks tick \<le> i \<longrightarrow> i < length ticks \<longrightarrow> tick \<le> ticks ! i)"
    unfolding lowerBound_def by (rule lower_bound_loop_correct [OF assms]) simp_all
  then show "lowerBound ticks tick \<le> length ticks"
    and "\<And>i. i < lowerBound ticks tick \<Longrightarrow> ticks ! i < tick"
    and "\<And>i. lowerBound ticks tick \<le> i \<Longrightarrow> i < length ticks \<Longrightarrow> tick \<le> ticks ! i" by blast+
qed

lemma lowerBound_counts: "sorted ticks \<Longrightarrow> lowerBound ticks tick = length (filter (\<lambda>x. x < tick) ticks)"
proof -
  assume s: "sorted ticks"
  note l = lowerBound_correct [OF s, where tick = tick]
  have "filter (\<lambda>x. x < tick) (take (lowerBound ticks tick) ticks) = take (lowerBound ticks tick) ticks"
    using l by (auto simp: filter_id_conv in_set_conv_nth)
  moreover have "filter (\<lambda>x. x < tick) (drop (lowerBound ticks tick) ticks) = []"
    using l(3) by (auto simp: filter_empty_conv in_set_conv_nth not_less)
  ultimately have "filter (\<lambda>x. x < tick) ticks = take (lowerBound ticks tick) ticks"
    by (metis append_Nil2 append_take_drop_id filter_append)
  then show ?thesis using l(1) by simp
qed

subsection \<open>Reconstructed swaps\<close>

text \<open>
  A list of segments that connects a price and a liquidity to another price and liquidity,
  the liquidity changing by the net liquidity of each crossed tick, whose price the segment
  then ends at.
\<close>

definition crossed_net :: "(int \<Rightarrow> int) \<Rightarrow> bool \<Rightarrow> FeeSegment \<Rightarrow> int" where
  "crossed_net net down s = (case seg_crossed s of None \<Rightarrow> 0 | Some t \<Rightarrow> (if down then - 1 else 1) * net t)"

definition segment_ok :: "bool \<Rightarrow> FeeSegment \<Rightarrow> bool" where
  "segment_ok down s \<longleftrightarrow> 0 \<le> seg_fee s \<and> 0 \<le> seg_liquidity s \<and> seg_token s = (if down then 0 else 1) \<and>
     (case seg_crossed s of None \<Rightarrow> True | Some t \<Rightarrow> sqrtRatioAtTick t = Inr (seg_to s))"

fun connects :: "(int \<Rightarrow> int) \<Rightarrow> bool \<Rightarrow> int \<Rightarrow> int \<Rightarrow> FeeSegment list \<Rightarrow> int \<Rightarrow> int \<Rightarrow> bool" where
  "connects net down p l [] p' l' \<longleftrightarrow> p = p' \<and> l = l'"
| "connects net down p l (s # ss) p' l' \<longleftrightarrow>
     seg_from s = p \<and> seg_liquidity s = l \<and> segment_ok down s \<and>
     connects net down (seg_to s) (l + crossed_net net down s) ss p' l'"

lemma connects_snoc:
  "connects net down p l (ss @ [s]) p' l' \<longleftrightarrow>
     connects net down p l ss (seg_from s) (seg_liquidity s) \<and> segment_ok down s \<and>
     seg_to s = p' \<and> seg_liquidity s + crossed_net net down s = l'"
  by (induction ss arbitrary: p l) auto

definition attempt_inv :: "SwapSource \<Rightarrow> bool \<Rightarrow> attempt_state \<Rightarrow> bool" where
  "attempt_inv source down s \<longleftrightarrow>
     connects (src_net source) down (src_price source) (src_liquidity source) (at_segments s)
       (at_price s) (at_liquidity s) \<and>
     sum_list (map seg_fee (at_segments s)) \<le> at_in s"

lemma swapStep_nonneg:
  assumes "swapStep p target l remaining feePips = Inr s"
  shows "0 \<le> step_in s" "0 \<le> step_fee s" "0 \<le> l"
proof -
  have d: "delta p (step_price s) l (if target \<le> p then 0 else 1) True = Inr (step_in s)"
    by (rule swapStep_cases [OF assms])
  show "0 \<le> step_in s" by (rule delta_nonneg [OF d])
  show "0 \<le> step_fee s" by (rule swapStep_cases [OF assms])
  show "0 \<le> l" using d by (simp only: delta_Inr_iff)
qed

lemma attempt_step_Some:
  assumes "attempt_step source observed down exactIn input out limit s = Inr (Some s')"
  obtains r t boundary target crossed where
    "sqrtRatioAtTick t = Inr boundary"
    "swapStep (at_price s) target (at_liquidity s) (at_remaining s) (src_fee source) = Inr r"
    "crossed \<Longrightarrow> step_price r = boundary"
    "at_price s' = step_price r"
    "at_liquidity s' = at_liquidity s + (if crossed then (if down then - 1 else 1) * src_net source t else 0)"
    "at_in s' = at_in s + (step_in r + step_fee r)"
    "at_segments s' = at_segments s @ [\<lparr>seg_from = at_price s, seg_to = step_price r,
       seg_tickBefore = at_tick s, seg_liquidity = at_liquidity s, seg_fee = step_fee r,
       seg_token = (if down then 0 else 1), seg_crossed = (if crossed then Some t else None)\<rparr>]"
proof -
  obtain t ini where nb: "next_boundary source down (at_tick s) = (t, ini)" by fastforce
  from assms obtain boundary where b: "sqrtRatioAtTick t = Inr boundary"
    by (auto simp: attempt_step_def nb Let_def bind_ok_Inr_iff)
  define target where "target = (if down then (if boundary < limit then limit else boundary)
    else (if boundary > limit then limit else boundary))"
  from assms obtain r where r:
    "swapStep (at_price s) target (at_liquidity s) (at_remaining s) (src_fee source) = Inr r"
    by (auto simp: attempt_step_def nb b Let_def bind_ok_Inr_iff simp flip: target_def)
  show thesis
    by (rule that [OF b r, of "step_price r = boundary \<and> ini"])
      (use assms in \<open>auto simp: attempt_step_def nb b Let_def bind_ok_Inr_iff r
        simp flip: target_def split: if_splits\<close>)
qed

lemma attempt_step_inv:
  assumes "attempt_step source observed down exactIn input out limit s = Inr (Some s')"
    and "attempt_inv source down s"
  shows "attempt_inv source down s'"
  using assms(1)
proof (rule attempt_step_Some)
  fix r t boundary target crossed
  assume h: "sqrtRatioAtTick t = Inr boundary"
    "swapStep (at_price s) target (at_liquidity s) (at_remaining s) (src_fee source) = Inr r"
    "crossed \<Longrightarrow> step_price r = boundary" "at_price s' = step_price r"
    "at_liquidity s' = at_liquidity s + (if crossed then (if down then - 1 else 1) * src_net source t else 0)"
    "at_in s' = at_in s + (step_in r + step_fee r)"
    "at_segments s' = at_segments s @ [\<lparr>seg_from = at_price s, seg_to = step_price r,
       seg_tickBefore = at_tick s, seg_liquidity = at_liquidity s, seg_fee = step_fee r,
       seg_token = (if down then 0 else 1), seg_crossed = (if crossed then Some t else None)\<rparr>]"
  then show ?thesis
    using assms(2) swapStep_nonneg [OF h(2)]
    by (simp add: attempt_inv_def connects_snoc segment_ok_def crossed_net_def)
qed

lemma attempt_loop_inv:
  assumes "attempt_loop source observed down exactIn input out limit k s = Inr (Some s')"
    and "attempt_inv source down s"
  shows "attempt_inv source down s'"
  using assms
proof (induction k arbitrary: s)
  case 0
  then show ?case by (subst (asm) attempt_loop.simps) (auto split: if_splits)
next
  case (Suc k)
  show ?case
  proof (cases "at_remaining s \<noteq> 0 \<and> at_price s \<noteq> limit")
    case False
    with Suc.prems show ?thesis by (subst (asm) attempt_loop.simps) simp
  next
    case True
    with Suc.prems(1) obtain s1 where
      "attempt_step source observed down exactIn input out limit s = Inr (Some s1)"
      "attempt_loop source observed down exactIn input out limit k s1 = Inr (Some s')"
      by (subst (asm) attempt_loop.simps) (auto simp: bind_ok_Inr_iff split: option.splits)
    with Suc.IH Suc.prems(2) attempt_step_inv show ?thesis by blast
  qed
qed

lemma attempt_sound:
  assumes "attempt source observed down input out exactIn useEndLimit = Inr (Some segs)"
  shows "connects (src_net source) down (src_price source) (src_liquidity source) segs
      (obs_price observed) (obs_liquidity observed)"
    and "sum_list (map seg_fee segs) \<le> input"
  using assms
  by (auto simp: attempt_def Let_def bind_ok_Inr_iff attempt_inv_def
      dest!: attempt_loop_inv split: if_splits option.splits)

lemma first_attempt_Some:
  "first_attempt f cs = Some segs \<Longrightarrow> \<exists>a b. f a b = Inr (Some segs)"
  by (induction f cs rule: first_attempt.induct) (auto split: sum.splits option.splits)

subsection \<open>Properties\<close>

text \<open>
  a swap step moves the price between the pool price and the target and never beyond;
  an exact-input step takes no more than the remaining input, fee included, and an
  exact-output step gives no more than the remaining output; a step that stops short of its
  target has used up exactly what remained.
\<close>

theorem swapStep_sound:
  assumes "swapStep p target l remaining feePips = Inr s"
  shows "min p target \<le> step_price s \<and> step_price s \<le> max p target \<and>
    0 \<le> step_in s \<and> 0 \<le> step_out s \<and> 0 \<le> step_fee s \<and>
    (if 0 \<le> remaining
     then step_in s + step_fee s \<le> remaining \<and>
       (step_price s \<noteq> target \<longrightarrow> step_in s + step_fee s = remaining)
     else step_out s \<le> - remaining \<and> (step_price s \<noteq> target \<longrightarrow> step_out s = - remaining))"
proof -
  from assms obtain available amountOut where
    f: "0 \<le> feePips" "feePips < 1000000"
    and av: "available = (if remaining \<ge> 0 then remaining * (1000000 - feePips) div 1000000 else - remaining)"
    and mv: "exact_move p target l available (remaining \<ge> 0)
       (if remaining \<ge> 0 then if target \<le> p then 0 else 1 else if target \<le> p then 1 else 0) =
       Inr (step_price s)"
    and i: "delta p (step_price s) l (if target \<le> p then 0 else 1) True = Inr (step_in s)"
    and out: "delta p (step_price s) l (if target \<le> p then 1 else 0) False = Inr amountOut"
      "step_out s = (if \<not> remaining \<ge> 0 \<and> amountOut > - remaining then - remaining else amountOut)"
    and fee: "step_fee s = (if remaining \<ge> 0 \<and> step_price s \<noteq> target then remaining - step_in s
       else (step_in s * feePips + (1000000 - feePips) - 1) div (1000000 - feePips))"
      "0 \<le> step_fee s"
    by (rule swapStep_cases)
  have nn: "0 \<le> step_in s" "0 \<le> step_out s"
    using delta_nonneg [OF i] delta_nonneg [OF out(1)] out(2) by auto
  show ?thesis
  proof (cases "0 \<le> remaining")
    case True
    note m = exact_move_in [OF _ i, of available] fee_fits [OF f, of "step_in s" remaining]
    from True mv av m nn fee show ?thesis by auto
  next
    case False
    note m = exact_move_out [OF _ _ out(1), of available]
    from False mv av m nn fee out(2) show ?thesis by auto
  qed
qed

theorem swapStep_sound_witness:
  "\<exists>s. swapStep (2 ^ 96) 78990846045029531151608375686 1000000 1000 3000 = Inr s \<and>
     step_price s = 79149250711305166342700278159 \<and> step_in s + step_fee s = 1000"
proof -
  let ?s = "\<lparr>step_price = 79149250711305166342700278159, step_in = 997, step_out = 996, step_fee = 3\<rparr>"
  have s: "swapStep (2 ^ 96) 78990846045029531151608375686 1000000 1000 3000 = Inr ?s"
    by (simp add: swapStep_def Let_def delta_def nextPrice_def ceilDiv_checked_def sdiv_nonneg
        Q96_def MAX256_def MIN_SQRT_RATIO_def MAX_SQRT_RATIO_def)
  from swapStep_sound [OF s] show ?thesis unfolding s by simp
qed

text \<open>
  \<open>tickAtPrice\<close> inverts the tick table: it returns \<open>t\<close> exactly when the price is at
  least the ratio of \<open>t\<close> and below the ratio of the next tick; the search always ends.
\<close>

theorem tickAtPrice_correct:
  "tickAtPrice price = Inr t \<longleftrightarrow>
     MIN_TICK \<le> t \<and> t < MAX_TICK \<and> sqrt_ratio t \<le> price \<and> price < sqrt_ratio (t + 1)"
  by (rule tickAtPrice_Inr_iff)

text \<open>
  C19: a swap is only reconstructed as a chain of segments that leads from the pool's price
  and active liquidity to the observed ones, every change of liquidity being the net
  liquidity of a tick crossed at exactly that tick's price; every fee is charged in the input
  token, none is negative, and together they do not exceed the observed input.
\<close>

theorem reconstructSwap_sound:
  assumes "reconstructSwap source observed = Inr segs"
  shows "\<exists>down. connects (src_net source) down (src_price source) (src_liquidity source) segs
      (obs_price observed) (obs_liquidity observed) \<and>
    down = (obs_price observed < src_price source \<or>
            obs_price observed = src_price source \<and> 0 < obs_amount0 observed) \<and>
    sum_list (map seg_fee segs) \<le> (if down then obs_amount0 observed else obs_amount1 observed)"
proof -
  let ?down = "obs_price observed < src_price source \<or>
    obs_price observed = src_price source \<and> 0 < obs_amount0 observed"
  let ?in = "if ?down then obs_amount0 observed else obs_amount1 observed"
  let ?out = "- (if ?down then obs_amount1 observed else obs_amount0 observed)"
  from assms have "first_attempt (attempt source observed ?down ?in ?out)
      [(True, False), (False, False), (True, True), (False, True)] = Some segs"
    unfolding reconstructSwap_def Let_def bind_ok_Inr_iff
    by (elim exE conjE) (simp only: sum.inject sum.simps split: option.splits)
  from first_attempt_Some [OF this] obtain a b where
    "attempt source observed ?down ?in ?out a b = Inr (Some segs)" by blast
  from attempt_sound [OF this] show ?thesis by blast
qed

text \<open>A sell of 4,000 units that crosses the tick at \<open>- 60\<close>.\<close>

definition sample_source :: SwapSource where
  "sample_source = \<lparr>src_price = 79228162514264337593543950336, src_tick = 0, src_liquidity = 1000000,
     src_fee = 3000, src_spacing = 60, src_ticks = [- 60, 60],
     src_net = (\<lambda>t. if t = - 60 then - 500000 else 0)\<rparr>"

definition sample_swap :: ObservedSwap where
  "sample_swap = \<lparr>obs_price = 78939321899070182150504540578, obs_tick = - 74,
     obs_liquidity = 1500000, obs_amount0 = 4000, obs_amount1 = - 3970\<rparr>"

lemmas swap_eval = swapStep_def delta_def nextPrice_def ceilDiv_checked_def sdiv_nonneg
  Q96_def MAX256_def MIN_SQRT_RATIO_def MAX_SQRT_RATIO_def Let_def

lemma sample_ratios:
  "sqrtRatioAtTick 0 = Inr 79228162514264337593543950336"
  "sqrtRatioAtTick (- 60) = Inr 78990846045029531151608375686"
  "sqrtRatioAtTick (- 15360) = Inr 36758526794156967312715787618"
  "sqrtRatioAtTick (- 74) = Inr 78935574563601330463190702538"
  "sqrtRatioAtTick (- 73) = Inr 78939521243664975490301918266"
  by (simp_all add: sqrtRatioAtTick_Inr_iff tick_consts) (simp_all add: tick_eval)

lemma sample_boundaries:
  "next_boundary sample_source True 0 = (0, False)"
  "next_boundary sample_source True (- 1) = (- 60, True)"
  "next_boundary sample_source True (- 61) = (- 15360, False)"
  by (simp_all add: next_boundary_def sample_source_def lowerBound_counts tick_consts Let_def)

lemma sample_steps:
  "swapStep 79228162514264337593543950336 79228162514264337593543950336 1000000 4000 3000 =
     Inr \<lparr>step_price = 79228162514264337593543950336, step_in = 0, step_out = 0, step_fee = 0\<rparr>"
  "swapStep 79228162514264337593543950336 78990846045029531151608375686 1000000 4000 3000 =
     Inr \<lparr>step_price = 78990846045029531151608375686, step_in = 3005, step_out = 2995, step_fee = 10\<rparr>"
  "swapStep 78990846045029531151608375686 36758526794156967312715787618 1500000 985 3000 =
     Inr \<lparr>step_price = 78939321899070182150504540578, step_in = 982, step_out = 975, step_fee = 3\<rparr>"
  by (simp_all add: swap_eval assertion_def ensure_def)

lemma sample_attempt:
  "\<exists>segs. attempt sample_source sample_swap True 4000 3970 True False = Inr (Some segs) \<and> length segs = 3"
proof -
  have src: "src_price sample_source = 79228162514264337593543950336" "src_tick sample_source = 0"
    "src_liquidity sample_source = 1000000" "src_fee sample_source = 3000"
    "src_net sample_source (- 60) = - 500000"
    by (simp_all add: sample_source_def)
  have "tick_after sample_swap 78939321899070182150504540578 = Inr (- 74)"
    by (simp add: tick_after_def sample_swap_def sample_ratios tick_consts)
  then show ?thesis
    by (simp add: attempt_def attempt_loop.simps attempt_step_def sample_boundaries sample_ratios
        sample_steps src MIN_SQRT_RATIO_def MAX_SQRT_RATIO_def Let_def)
      (simp add: sample_swap_def)
qed

theorem reconstructSwap_sound_witness:
  "\<exists>segs. reconstructSwap sample_source sample_swap = Inr segs \<and> length segs = 3 \<and>
     sum_list (map seg_fee segs) \<le> 4000"
proof -
  obtain segs where "attempt sample_source sample_swap True 4000 3970 True False = Inr (Some segs)"
    and l: "length segs = 3" using sample_attempt by blast
  then have r: "reconstructSwap sample_source sample_swap = Inr segs"
    by (simp add: reconstructSwap_def sample_source_def sample_swap_def Let_def)
  have "obs_amount0 sample_swap = 4000" "obs_price sample_swap < src_price sample_source"
    by (simp_all add: sample_source_def sample_swap_def)
  with reconstructSwap_sound [OF r] r l show ?thesis by auto
qed

end
