(* ===== verification/Tick_Book.thy ===== *)
theory Tick_Book
  imports Liq_Prelude
begin

section \<open>The tick book of a replayed pool\<close>

text \<open>
  The class \<open>TickBook\<close> of \<open>src/replay/state.ts\<close> and the records of
  \<open>src/replay/domain.ts\<close>.  The private fields are the record \<open>TickBook\<close>: the
  \<open>Map\<close> in insertion order and the sorted array of its keys.  A method that throws leaves
  the book as it was.  The locale \<open>tick_book\<close> at the end is what the replay relies on.
\<close>

record ReplayCoordinate =
  rc_blockNumber :: int
  rc_blockHash :: string
  rc_transactionHash :: string
  rc_transactionIndex :: int
  rc_logIndex :: int

record ReplayPoolState =
  rp_poolAddress :: string
  rp_chainId :: int
  rp_rwaSymbol :: string
  rp_fee :: int
  rp_initialized :: bool
  rp_sqrtPriceX96 :: "int option"
  rp_tick :: "int option"
  rp_liquidity :: int
  rp_observationCardinalityNext :: "int option"
  rp_feeProtocol0 :: int
  rp_feeProtocol1 :: int
  rp_eventCount :: int
  rp_mintCount :: int
  rp_burnCount :: int
  rp_swapCount :: int
  rp_collectCount :: int
  rp_flashCount :: int
  rp_lastEventBlock :: "int option"
  rp_lastEventTransactionIndex :: "int option"
  rp_lastEventLogIndex :: "int option"

record ReplayTickState =
  rt_poolAddress :: string
  rt_tick :: int
  rt_liquidityGross :: int
  rt_liquidityNet :: int

record ReplayPositionState =
  rq_poolAddress :: string
  rq_ownerAddress :: string
  rq_tickLower :: int
  rq_tickUpper :: int
  rq_liquidity :: int
  rq_mintedLiquidity :: int
  rq_burnedLiquidity :: int
  rq_mintedAmount0 :: int
  rq_mintedAmount1 :: int
  rq_burnedAmount0 :: int
  rq_burnedAmount1 :: int
  rq_collectedAmount0 :: int
  rq_collectedAmount1 :: int

function book_lower_bound_loop :: "int list \<Rightarrow> int \<Rightarrow> nat \<Rightarrow> nat \<Rightarrow> nat" where
  "book_lower_bound_loop values needle low high =
     (if low < high then
        let middle = (low + high) div 2 in
        if values ! middle < needle then book_lower_bound_loop values needle (middle + 1) high
        else book_lower_bound_loop values needle low middle
      else low)"
  by auto
termination by (relation "measure (\<lambda>(_, _, low, high). high - low)") auto

declare book_lower_bound_loop.simps [simp del]

definition book_lowerBound :: "int list \<Rightarrow> int \<Rightarrow> nat" where
  "book_lowerBound values needle = book_lower_bound_loop values needle 0 (length values)"

record TickBook =
  byTick :: "(int \<times> ReplayTickState) list"
  sortedTicks :: "int list"

definition book_add :: "TickBook \<Rightarrow> ReplayTickState \<Rightarrow> TickBook res" where
  "book_add b tick =
     (if rt_liquidityGross tick \<le> 0
      then Inl (''Stored tick '' @ rt_poolAddress tick @ '':'' @ show_int (rt_tick tick) @
                '' has no gross liquidity'')
      else Inr \<lparr>byTick = AList.update (rt_tick tick) tick (byTick b),
                sortedTicks = sortedTicks b @ [rt_tick tick]\<rparr>)"

definition new_TickBook :: "ReplayTickState list \<Rightarrow> TickBook res" where
  "new_TickBook ticks = fold_res book_add \<lparr>byTick = [], sortedTicks = []\<rparr> (sort_key rt_tick ticks)"

definition book_get :: "TickBook \<Rightarrow> int \<Rightarrow> ReplayTickState option" where
  "book_get b tick = map_of (byTick b) tick"

definition book_values :: "TickBook \<Rightarrow> ReplayTickState list" where
  "book_values b = map snd (byTick b)"

definition book_update ::
  "TickBook \<Rightarrow> string \<Rightarrow> int \<Rightarrow> int \<Rightarrow> bool \<Rightarrow> (TickBook \<times> ReplayTickState option) res" where
  "book_update b poolAddress tick liquidityDelta isUpper =
     (let existing = map_of (byTick b) tick;
          gross = (case existing of None \<Rightarrow> 0 | Some e \<Rightarrow> rt_liquidityGross e) + liquidityDelta;
          net = (case existing of None \<Rightarrow> 0 | Some e \<Rightarrow> rt_liquidityNet e) +
                (if isUpper then - liquidityDelta else liquidityDelta);
          i = book_lowerBound (sortedTicks b) tick
      in
      if gross < 0
      then Inl (''Tick gross-liquidity underflow at '' @ poolAddress @ '':'' @ show_int tick)
      else if gross = 0 then
        (if net \<noteq> 0
         then Inl (''Cleared tick '' @ poolAddress @ '':'' @ show_int tick @ '' has nonzero net liquidity'')
         else if existing \<noteq> None
         then Inr (\<lparr>byTick = AList.delete tick (byTick b),
                    sortedTicks = take i (sortedTicks b) @ drop (Suc i) (sortedTicks b)\<rparr>, None)
         else Inr (b, None))
      else
        let updated = (case existing of
              None \<Rightarrow> \<lparr>rt_poolAddress = poolAddress, rt_tick = tick,
                         rt_liquidityGross = gross, rt_liquidityNet = net\<rparr>
            | Some e \<Rightarrow> e\<lparr>rt_liquidityGross := gross, rt_liquidityNet := net\<rparr>)
        in Inr (\<lparr>byTick = AList.update tick updated (byTick b),
                 sortedTicks = (if existing = None
                   then take i (sortedTicks b) @ [tick] @ drop i (sortedTicks b) else sortedTicks b)\<rparr>,
                Some updated))"

text \<open>The loop of \<open>netBetweenExclusiveInclusive\<close> over the sorted ticks from \<open>start\<close> on.\<close>

fun net_loop :: "(int \<times> ReplayTickState) list \<Rightarrow> int \<Rightarrow> int list \<Rightarrow> int \<Rightarrow> int res" where
  "net_loop m toTick [] acc = Inr acc"
| "net_loop m toTick (tick # ticks) acc =
     (if tick > toTick then Inr acc
      else case map_of m tick of
             None \<Rightarrow> Inl ''TypeError''
           | Some s \<Rightarrow> net_loop m toTick ticks (acc + rt_liquidityNet s))"

definition netBetweenExclusiveInclusive :: "TickBook \<Rightarrow> int \<Rightarrow> int \<Rightarrow> int res" where
  "netBetweenExclusiveInclusive b fromTick toTick =
     (if toTick \<le> fromTick then Inr 0
      else net_loop (byTick b) toTick
             (drop (book_lowerBound (sortedTicks b) (fromTick + 1)) (sortedTicks b)) 0)"

subsection \<open>The invariant\<close>

definition book_ok :: "TickBook \<Rightarrow> bool" where
  "book_ok b \<longleftrightarrow> distinct (map fst (byTick b)) \<and> sorted_wrt (<) (sortedTicks b) \<and>
     set (sortedTicks b) = fst ` set (byTick b) \<and>
     (\<forall>(t, s) \<in> set (byTick b). rt_tick s = t \<and> 0 < rt_liquidityGross s)"

definition book_gross :: "TickBook \<Rightarrow> int \<Rightarrow> int" where
  "book_gross b t = (case map_of (byTick b) t of None \<Rightarrow> 0 | Some s \<Rightarrow> rt_liquidityGross s)"

definition book_net :: "TickBook \<Rightarrow> int \<Rightarrow> int" where
  "book_net b t = (case map_of (byTick b) t of None \<Rightarrow> 0 | Some s \<Rightarrow> rt_liquidityNet s)"

lemma book_lower_bound_loop_correct:
  assumes "sorted_wrt (<) xs" "lo \<le> hi" "hi \<le> length xs"
    and "\<And>i. i < lo \<Longrightarrow> xs ! i < t" "\<And>i. hi \<le> i \<Longrightarrow> i < length xs \<Longrightarrow> t \<le> xs ! i"
  shows "book_lower_bound_loop xs t lo hi \<le> hi \<and>
    (\<forall>i<book_lower_bound_loop xs t lo hi. xs ! i < t) \<and>
    (\<forall>i. book_lower_bound_loop xs t lo hi \<le> i \<longrightarrow> i < length xs \<longrightarrow> t \<le> xs ! i)"
  using assms
proof (induction xs t lo hi rule: book_lower_bound_loop.induct)
  case (1 xs t lo hi)
  let ?m = "(lo + hi) div 2"
  have mono: "i \<le> j \<Longrightarrow> j < length xs \<Longrightarrow> xs ! i \<le> xs ! j" for i j
    using sorted_wrt_nth_less [OF "1.prems"(1), of i j] by (cases "i = j") auto
  consider "lo = hi" | "lo < hi" "xs ! ?m < t" | "lo < hi" "\<not> xs ! ?m < t"
    using "1.prems"(2) by linarith
  then show ?case
  proof cases
    case 1
    have "book_lower_bound_loop xs t lo hi = hi"
      by (subst book_lower_bound_loop.simps) (simp add: 1)
    with "1.prems" 1 show ?thesis by auto
  next
    case 2
    have e: "book_lower_bound_loop xs t lo hi = book_lower_bound_loop xs t (?m + 1) hi"
      by (subst book_lower_bound_loop.simps) (simp add: 2 Let_def)
    have m: "?m < hi" using 2 by auto
    have "xs ! i < t" if "i < ?m + 1" for i using mono [of i ?m] that m "1.prems"(3) 2(2) by simp
    with m show ?thesis
      unfolding e using "1.prems" by (intro "1.IH"(1) [OF 2(1) refl 2(2)]) auto
  next
    case 3
    have e: "book_lower_bound_loop xs t lo hi = book_lower_bound_loop xs t lo ?m"
      by (subst book_lower_bound_loop.simps) (simp add: 3 Let_def)
    have m: "?m < hi" "lo \<le> ?m" using 3 by auto
    have "t \<le> xs ! i" if "?m \<le> i" "i < length xs" for i using mono [of ?m i] that 3(2) by simp
    with m have "book_lower_bound_loop xs t lo ?m \<le> ?m \<and>
        (\<forall>i<book_lower_bound_loop xs t lo ?m. xs ! i < t) \<and>
        (\<forall>i. book_lower_bound_loop xs t lo ?m \<le> i \<longrightarrow> i < length xs \<longrightarrow> t \<le> xs ! i)"
      using "1.prems" by (intro "1.IH"(2) [OF 3(1) refl 3(2)]) auto
    with m show ?thesis unfolding e by auto
  qed
qed

lemma book_lowerBound_split:
  fixes t :: int
  assumes "sorted_wrt (<) xs"
  defines "i \<equiv> book_lowerBound xs t"
  shows "\<forall>x\<in>set (take i xs). x < t" "\<forall>x\<in>set (drop i xs). t \<le> x"
proof -
  have "i \<le> length xs \<and> (\<forall>j<i. xs ! j < t) \<and> (\<forall>j. i \<le> j \<longrightarrow> j < length xs \<longrightarrow> t \<le> xs ! j)"
    unfolding i_def book_lowerBound_def
    by (rule book_lower_bound_loop_correct [OF assms(1)]) simp_all
  then show "\<forall>x\<in>set (take i xs). x < t" "\<forall>x\<in>set (drop i xs). t \<le> x"
    by (auto simp: in_set_conv_nth)
qed

lemma splice_insert:
  fixes xs :: "int list"
  assumes "sorted_wrt (<) xs" "t \<notin> set xs"
  defines "i \<equiv> book_lowerBound xs t"
  shows "sorted_wrt (<) (take i xs @ [t] @ drop i xs)" "set (take i xs @ [t] @ drop i xs) = insert t (set xs)"
proof -
  note s = book_lowerBound_split [OF assms(1), of t, folded i_def]
  have "\<forall>x\<in>set (drop i xs). t < x"
    using s(2) assms(2) by (metis in_set_dropD order_le_less)
  then show "sorted_wrt (<) (take i xs @ [t] @ drop i xs)"
    using assms(1) s(1) by (auto simp: sorted_wrt_append sorted_wrt_take sorted_wrt_drop
        dest: order.strict_trans)
  have "set xs = set (take i xs) \<union> set (drop i xs)" by (metis append_take_drop_id set_append)
  then show "set (take i xs @ [t] @ drop i xs) = insert t (set xs)" by auto
qed

lemma splice_delete:
  fixes xs :: "int list"
  assumes "sorted_wrt (<) xs" "t \<in> set xs"
  defines "i \<equiv> book_lowerBound xs t"
  shows "sorted_wrt (<) (take i xs @ drop (Suc i) xs)" "set (take i xs @ drop (Suc i) xs) = set xs - {t}"
proof -
  note s = book_lowerBound_split [OF assms(1), of t, folded i_def]
  have e: "xs = take i xs @ drop i xs" by simp
  have "t \<in> set (drop i xs)" using s(1) assms(2) by (metis UnE e less_irrefl set_append)
  then obtain y ys where d: "drop i xs = y # ys" by (cases "drop i xs") auto
  moreover have "sorted_wrt (<) (drop i xs)" using assms(1) by (simp add: sorted_wrt_drop)
  ultimately have "y = t" using \<open>t \<in> set (drop i xs)\<close> s(2) by auto
  have x: "xs = take i xs @ t # ys" using e d \<open>y = t\<close> by simp
  have ys: "drop (Suc i) xs = ys" using d by (metis drop_Suc list.sel(3) tl_drop)
  from assms(1) x have sw: "sorted_wrt (<) (take i xs @ t # ys)" by simp
  then show "sorted_wrt (<) (take i xs @ drop (Suc i) xs)" by (simp add: ys sorted_wrt_append)
  have "set (take i xs @ ys) = set (take i xs @ t # ys) - {t}"
    using sw by (auto simp: sorted_wrt_append)
  then show "set (take i xs @ drop (Suc i) xs) = set xs - {t}" by (simp add: ys flip: x)
qed

lemma book_ok_tick: "book_ok b \<Longrightarrow> map_of (byTick b) t = Some s \<Longrightarrow> rt_tick s = t \<and> 0 < rt_liquidityGross s"
  by (auto simp: book_ok_def dest!: map_of_SomeD)

lemma book_ok_member: "book_ok b \<Longrightarrow> t \<in> set (sortedTicks b) \<longleftrightarrow> map_of (byTick b) t \<noteq> None"
  by (simp add: book_ok_def map_of_eq_None_iff)

lemma book_ok_gross_nonneg: "book_ok b \<Longrightarrow> 0 \<le> book_gross b t"
  using book_ok_tick by (fastforce simp: book_gross_def split: option.splits)

lemma set_update_pair: "(k, v) \<in> set (AList.update k' v' xs) \<Longrightarrow> (k, v) = (k', v') \<or> (k, v) \<in> set xs"
  by (induction xs) (auto split: if_splits)

lemma map_of_delete: "map_of (AList.delete k xs) = (map_of xs)(k := None)"
  by (rule ext) (simp add: delete_conv')

lemma map_of_update: "map_of (AList.update k v xs) = (map_of xs)(k \<mapsto> v)"
  by (rule ext) (simp add: update_conv')

lemma keys_update: "fst ` set (AList.update k v xs) = insert k (fst ` set xs)"
  by (induction xs) auto

lemma keys_delete: "fst ` set (AList.delete k xs) = fst ` set xs - {k}"
  by (auto simp: AList.delete_eq image_iff)

lemma book_update_ok:
  assumes "book_ok b" "book_update b addr t d up = Inr (b', r)"
  shows "book_ok b'"
proof -
  let ?i = "book_lowerBound (sortedTicks b) t"
  have b: "distinct (map fst (byTick b))" "sorted_wrt (<) (sortedTicks b)"
    "set (sortedTicks b) = fst ` set (byTick b)"
    "\<And>t s. (t, s) \<in> set (byTick b) \<Longrightarrow> rt_tick s = t \<and> 0 < rt_liquidityGross s"
    using assms(1) by (auto simp: book_ok_def)
  show ?thesis
  proof (cases "map_of (byTick b) t")
    case None
    then have n: "t \<notin> set (sortedTicks b)" by (simp add: b(3) map_of_eq_None_iff)
    from None assms(2) consider "b' = b" | s where
      "b' = \<lparr>byTick = AList.update t s (byTick b),
             sortedTicks = take ?i (sortedTicks b) @ [t] @ drop ?i (sortedTicks b)\<rparr>"
      "rt_tick s = t" "0 < rt_liquidityGross s"
      by (auto simp: book_update_def Let_def split: if_splits)
    then show ?thesis
    proof cases
      case 1
      with assms(1) show ?thesis by simp
    next
      case 2
      note s = splice_insert [OF b(2) n]
      have "set (sortedTicks b') = fst ` set (byTick b')"
        unfolding 2(1) by (simp only: TickBook.simps keys_update s(2) b(3))
      moreover have "distinct (map fst (byTick b'))" using b(1) by (simp add: 2(1) distinct_update)
      moreover have "sorted_wrt (<) (sortedTicks b')" using s(1) by (simp add: 2(1))
      moreover have "\<forall>(t, s) \<in> set (byTick b'). rt_tick s = t \<and> 0 < rt_liquidityGross s"
        using b(4) 2(2,3) by (auto simp: 2(1) dest!: set_update_pair)
      ultimately show ?thesis by (simp add: book_ok_def)
    qed
  next
    case (Some e)
    then have n: "t \<in> set (sortedTicks b)" by (force simp: b(3) dest: map_of_SomeD)
    from Some b(4) have e: "rt_tick e = t" by (auto dest: map_of_SomeD)
    from Some e assms(2) consider "b' = \<lparr>byTick = AList.delete t (byTick b),
             sortedTicks = take ?i (sortedTicks b) @ drop (Suc ?i) (sortedTicks b)\<rparr>" | s where
      "b' = \<lparr>byTick = AList.update t s (byTick b), sortedTicks = sortedTicks b\<rparr>"
      "rt_tick s = t" "0 < rt_liquidityGross s"
      by (auto simp: book_update_def Let_def split: if_splits)
    then show ?thesis
    proof cases
      case 1
      note s = splice_delete [OF b(2) n]
      have "set (sortedTicks b') = fst ` set (byTick b')"
        unfolding 1 by (simp only: TickBook.simps keys_delete s(2) b(3))
      moreover have "distinct (map fst (byTick b'))" using b(1) by (simp add: 1 distinct_delete)
      moreover have "sorted_wrt (<) (sortedTicks b')" using s(1) by (simp add: 1)
      moreover have "\<forall>(t, s) \<in> set (byTick b'). rt_tick s = t \<and> 0 < rt_liquidityGross s"
        using b(4) by (auto simp: 1 AList.delete_eq)
      ultimately show ?thesis by (simp add: book_ok_def)
    next
      case 2
      have "set (sortedTicks b') = fst ` set (byTick b')"
        using n b(3) by (auto simp: 2(1) keys_update)
      moreover have "distinct (map fst (byTick b'))" using b(1) by (simp add: 2(1) distinct_update)
      moreover have "\<forall>(t, s) \<in> set (byTick b'). rt_tick s = t \<and> 0 < rt_liquidityGross s"
        using b(4) 2(2,3) by (auto simp: 2(1) dest!: set_update_pair)
      ultimately show ?thesis using b(2) by (simp add: book_ok_def 2(1))
    qed
  qed
qed

lemma book_update_effect:
  assumes "book_ok b" "book_update b addr t d up = Inr (b', r)"
  shows "book_gross b' x = book_gross b x + (if x = t then d else 0)"
    and "book_net b' x = book_net b x + (if x = t then if up then - d else d else 0)"
  using assms(2)
  by (auto simp: book_update_def book_gross_def book_net_def Let_def map_of_delete map_of_update
      split: if_splits option.splits)

lemma book_update_result:
  assumes "book_ok b" "book_update b addr t d up = Inr (b', r)"
  shows "r = map_of (byTick b') t"
  using assms(2)
  by (auto simp: book_update_def Let_def map_of_delete map_of_update split: if_splits option.splits)

lemma book_update_returns:
  assumes "book_ok b" "0 \<le> book_gross b t + d"
    and "book_gross b t + d = 0 \<Longrightarrow> book_net b t + (if up then - d else d) = 0"
  shows "\<exists>b' r. book_update b addr t d up = Inr (b', r)"
  using assms by (auto simp: book_update_def book_gross_def book_net_def Let_def split: option.splits)

lemma net_loop_sum:
  assumes "sorted_wrt (<) ts" "\<And>t. t \<in> set ts \<Longrightarrow> map_of m t \<noteq> None"
  shows "net_loop m to ts acc =
    Inr (acc + (\<Sum>t | t \<in> set ts \<and> t \<le> to. case map_of m t of None \<Rightarrow> 0 | Some s \<Rightarrow> rt_liquidityNet s))"
  using assms
proof (induction ts arbitrary: acc)
  case Nil
  then show ?case by simp
next
  case (Cons t ts)
  obtain s where s: "map_of m t = Some s" using Cons.prems(2) [of t] by auto
  show ?case
  proof (cases "to < t")
    case True
    then have "{u. u \<in> set (t # ts) \<and> u \<le> to} = {}" using Cons.prems(1) by auto
    with True show ?thesis by (simp only: net_loop.simps if_True sum.empty) simp
  next
    case False
    then have e: "{u. (u = t \<or> u \<in> set ts) \<and> u \<le> to} = insert t {u. u \<in> set ts \<and> u \<le> to}" by auto
    have "t \<notin> {u. u \<in> set ts \<and> u \<le> to}" using Cons.prems(1) by auto
    with False Cons show ?thesis by (simp add: e s)
  qed
qed

lemma netBetween_sum:
  assumes "book_ok b"
  shows "netBetweenExclusiveInclusive b from to = Inr (\<Sum>t\<in>{from<..to}. book_net b t)"
proof (cases "to \<le> from")
  case True
  then show ?thesis by (simp add: netBetweenExclusiveInclusive_def)
next
  case False
  let ?i = "book_lowerBound (sortedTicks b) (from + 1)"
  let ?ts = "drop ?i (sortedTicks b)"
  have b: "sorted_wrt (<) (sortedTicks b)" using assms by (simp add: book_ok_def)
  note sp = book_lowerBound_split [OF b, of "from + 1"]
  have "sorted_wrt (<) ?ts" using b by (simp add: sorted_wrt_drop)
  moreover have "map_of (byTick b) t \<noteq> None" if "t \<in> set ?ts" for t
    using that book_ok_member [OF assms] in_set_dropD by metis
  ultimately have "net_loop (byTick b) to ?ts 0 =
      Inr (\<Sum>t | t \<in> set ?ts \<and> t \<le> to. book_net b t)"
    by (simp add: net_loop_sum book_net_def)
  moreover have "(\<Sum>t | t \<in> set ?ts \<and> t \<le> to. book_net b t) = (\<Sum>t\<in>{from<..to}. book_net b t)"
  proof (rule sum.mono_neutral_left)
    show "{t. t \<in> set ?ts \<and> t \<le> to} \<subseteq> {from<..to}" using sp(2) by auto
    show "\<forall>t\<in>{from<..to} - {t. t \<in> set ?ts \<and> t \<le> to}. book_net b t = 0"
    proof
      fix t assume t: "t \<in> {from<..to} - {t. t \<in> set ?ts \<and> t \<le> to}"
      then have "t \<notin> set ?ts" "t \<notin> set (take ?i (sortedTicks b))" using sp(1) by auto
      then have "t \<notin> set (sortedTicks b)" by (metis UnE append_take_drop_id set_append)
      then show "book_net b t = 0" using book_ok_member [OF assms] by (simp add: book_net_def)
    qed
  qed simp
  ultimately show ?thesis using False by (simp add: netBetweenExclusiveInclusive_def)
qed

subsection \<open>The contract of the book\<close>

text \<open>
  What the replay relies on: an update changes the gross and net liquidity of one tick, the
  sum between two ticks is the sum of the nets there.  The client lemma is the arithmetic of
  a swap: when the nets are those of a set of positions, the net crossed between two ticks is
  the difference of the liquidity active at them.
\<close>

locale liquidity_book =
  fixes ok :: "'b \<Rightarrow> bool"
    and gross :: "'b \<Rightarrow> int \<Rightarrow> int"
    and net :: "'b \<Rightarrow> int \<Rightarrow> int"
    and update :: "'b \<Rightarrow> string \<Rightarrow> int \<Rightarrow> int \<Rightarrow> bool \<Rightarrow> ('b \<times> ReplayTickState option) res"
    and between :: "'b \<Rightarrow> int \<Rightarrow> int \<Rightarrow> int res"
  assumes update_ok: "ok b \<Longrightarrow> update b addr t d up = Inr (b', r) \<Longrightarrow> ok b'"
    and update_gross: "ok b \<Longrightarrow> update b addr t d up = Inr (b', r) \<Longrightarrow>
      gross b' x = gross b x + (if x = t then d else 0)"
    and update_net: "ok b \<Longrightarrow> update b addr t d up = Inr (b', r) \<Longrightarrow>
      net b' x = net b x + (if x = t then if up then - d else d else 0)"
    and update_returns: "ok b \<Longrightarrow> 0 \<le> gross b t + d \<Longrightarrow>
      (gross b t + d = 0 \<Longrightarrow> net b t + (if up then - d else d) = 0) \<Longrightarrow>
      \<exists>b' r. update b addr t d up = Inr (b', r)"
    and between_sum: "ok b \<Longrightarrow> between b from to = Inr (\<Sum>t\<in>{from<..to}. net b t)"
begin

definition represents :: "'b \<Rightarrow> (int \<times> int \<times> int) list \<Rightarrow> bool" where
  "represents b ps \<longleftrightarrow>
     (\<forall>(lo, hi, L) \<in> set ps. lo < hi \<and> 0 \<le> L) \<and>
     (\<forall>t. gross b t = (\<Sum>(lo, hi, L)\<leftarrow>ps. (if lo = t then L else 0) + (if hi = t then L else 0))) \<and>
     (\<forall>t. net b t = (\<Sum>(lo, hi, L)\<leftarrow>ps. (if lo = t then L else 0) - (if hi = t then L else 0)))"

definition active :: "(int \<times> int \<times> int) list \<Rightarrow> int \<Rightarrow> int" where
  "active ps t = (\<Sum>(lo, hi, L)\<leftarrow>ps. if lo \<le> t \<and> t < hi then L else 0)"

lemma sum_nets_active:
  assumes "\<forall>(lo, hi, L) \<in> set ps. lo < hi \<and> 0 \<le> L" "a \<le> c"
  shows "(\<Sum>t\<in>{a<..c}. (\<Sum>(lo, hi, L)\<leftarrow>ps. (if lo = t then L else 0) - (if hi = t then L else 0))) =
    active ps c - active ps a"
  using assms(1)
proof (induction ps)
  case Nil
  then show ?case by (simp add: active_def)
next
  case (Cons p ps)
  obtain lo hi L where p: "p = (lo, hi, L)" by (cases p)
  have "(\<Sum>t\<in>{a<..c}. (if lo = t then L else 0) - (if hi = t then L else 0)) =
      (if a < lo \<and> lo \<le> c then L else 0) - (if a < hi \<and> hi \<le> c then L else 0)"
    by (simp add: sum_subtractf)
  with Cons assms(2) show ?case by (auto simp: active_def p sum.distrib)
qed

lemma crossed_active:
  assumes "ok b" "represents b ps"
  shows "bind_ok (if t \<le> u then between b t u else bind_ok (between b u t) (\<lambda>x. Inr (- x)))
    (\<lambda>x. Inr (active ps t + x)) = Inr (active ps u)"
  using assms sum_nets_active [of ps t u] sum_nets_active [of ps u t]
  by (simp add: between_sum represents_def)

lemma active_nonneg:
  "\<forall>(lo, hi, L) \<in> set ps. lo < hi \<and> 0 \<le> L \<Longrightarrow> 0 \<le> active ps t"
  by (induction ps) (auto simp: active_def)

lemma represents_gross_ge:
  assumes "represents b ps" "(lo, hi, L) \<in> set ps"
  shows "L \<le> gross b lo" "L \<le> gross b hi"
proof -
  define g where "g t = (\<lambda>(lo, hi, L). (if lo = t then L else 0) + (if hi = t then L else (0::int)))"
    for t :: int
  have gross: "gross b t = sum_list (map (g t) ps)" for t
    using assms(1) by (simp add: represents_def g_def)
  have v: "lo < hi" "0 \<le> L" and nn: "x \<in> set ps \<Longrightarrow> 0 \<le> g t x" for t x
    using assms by (auto simp: represents_def g_def)
  have "g t (lo, hi, L) \<le> gross b t" for t
    unfolding gross using nn assms(2) by (intro member_le_sum_list) auto
  from this [of lo] this [of hi] v show "L \<le> gross b lo" "L \<le> gross b hi"
    by (auto simp: g_def)
qed

end

interpretation tick_books: liquidity_book book_ok book_gross book_net book_update
  netBetweenExclusiveInclusive
  by unfold_locales
    (auto simp: book_update_effect netBetween_sum intro: book_update_ok book_update_returns)

end
