(* ===== verification/Replay_State.thy ===== *)
theory Replay_State
  imports Tick_Book
begin

section \<open>Replaying pool events\<close>

text \<open>
  The class \<open>V3ReplayState\<close> of \<open>src/replay/state.ts\<close>.  Its private maps and sets are
  the fields of \<open>V3ReplayState\<close>; the pool objects the methods mutate in place are the
  entries of the map.  Nothing is rolled back when a method throws, so an error carries the
  state it was thrown in.  The arguments of an event are a decoded JSON value.  The address
  functions of the library \<open>viem\<close> are the parameters \<open>isAddress\<close> and
  \<open>getAddress\<close>.
\<close>

datatype js_value =
    JNull
  | JBool bool
  | JInt int            \<comment> \<open>a \<open>number\<close> with an integer value\<close>
  | JFrac               \<comment> \<open>any other \<open>number\<close>\<close>
  | JStr string
  | JArr "js_value list"
  | JObj "(string \<times> js_value) list"

type_synonym js_args = "(string \<times> js_value) list"

record StoredReplayEvent = ReplayCoordinate +
  ev_poolAddress :: string
  ev_eventName :: string
  ev_args :: js_value

record ReplayChanges =
  ch_deletedTicks :: "(string \<times> int) list"
  ch_pools :: "ReplayPoolState list"
  ch_positions :: "ReplayPositionState list"
  ch_ticks :: "ReplayTickState list"

record V3ReplayState =
  st_pools :: "(string \<times> ReplayPoolState) list"
  st_ticks :: "(string \<times> TickBook) list"
  st_positions :: "(string \<times> ReplayPositionState) list"
  dirtyPools :: "string list"
  dirtyTicks :: "string list"
  deletedTicks :: "(string \<times> string \<times> int) list"
  dirtyPositions :: "string list"

type_synonym 'a act = "(err \<times> V3ReplayState) + 'a"

definition replay_MIN_TICK :: int where "replay_MIN_TICK = - 887272"
definition replay_MAX_TICK :: int where "replay_MAX_TICK = 887272"

definition poolKey :: "string \<Rightarrow> string" where
  "poolKey address = lower address"

definition tickKey :: "string \<Rightarrow> int \<Rightarrow> string" where
  "tickKey address tick = poolKey address @ '':'' @ show_int tick"

definition positionKey :: "string \<Rightarrow> string \<Rightarrow> int \<Rightarrow> int \<Rightarrow> string" where
  "positionKey poolAddress ownerAddress tickLower tickUpper =
     poolKey poolAddress @ '':'' @ lower ownerAddress @ '':'' @ show_int tickLower @ '':'' @
     show_int tickUpper"

subsection \<open>Reading the arguments\<close>

definition requireArgs :: "js_value \<Rightarrow> string \<Rightarrow> js_args res" where
  "requireArgs v eventName =
     (case v of JObj kvs \<Rightarrow> Inr kvs | _ \<Rightarrow> Inl (eventName @ '' arguments are not an object''))"

definition requireBigInt :: "js_args \<Rightarrow> string \<Rightarrow> string \<Rightarrow> int res" where
  "requireBigInt args name eventName =
     (let err = Inl (eventName @ ''.'' @ name @ '' is not an exact integer'') in
      case map_of args name of
        Some (JStr s) \<Rightarrow> (case parse_int s of Some i \<Rightarrow> Inr i | None \<Rightarrow> err)
      | Some (JInt i) \<Rightarrow> if safe_integer i then Inr i else err
      | _ \<Rightarrow> err)"

definition requireUint :: "js_args \<Rightarrow> string \<Rightarrow> string \<Rightarrow> int res" where
  "requireUint args name eventName =
     bind_ok (requireBigInt args name eventName) (\<lambda>v.
       if v < 0 then Inl (eventName @ ''.'' @ name @ '' is negative'') else Inr v)"

definition requireInteger :: "js_args \<Rightarrow> string \<Rightarrow> string \<Rightarrow> int res" where
  "requireInteger args name eventName =
     (let err = Inl (eventName @ ''.'' @ name @ '' is not a safe integer'') in
      case map_of args name of
        Some (JInt i) \<Rightarrow> if safe_integer i then Inr i else err
      | Some (JStr s) \<Rightarrow>
          (case parse_int s of Some i \<Rightarrow> if safe_integer i then Inr i else err | None \<Rightarrow> err)
      | _ \<Rightarrow> err)"

definition replay_requireTick :: "js_args \<Rightarrow> string \<Rightarrow> string \<Rightarrow> int res" where
  "replay_requireTick args name eventName =
     bind_ok (requireInteger args name eventName) (\<lambda>tick.
       if tick < replay_MIN_TICK \<or> tick > replay_MAX_TICK
       then Inl (eventName @ ''.'' @ name @ '' is outside the v3 tick range'') else Inr tick)"

definition requireAddress ::
  "(string \<Rightarrow> bool) \<Rightarrow> (string \<Rightarrow> string) \<Rightarrow> js_args \<Rightarrow> string \<Rightarrow> string \<Rightarrow> string res" where
  "requireAddress isAddress getAddress args name eventName =
     (let err = Inl (eventName @ ''.'' @ name @ '' is not an address'') in
      case map_of args name of
        Some (JStr s) \<Rightarrow> if isAddress s then Inr (lower (getAddress s)) else err
      | _ \<Rightarrow> err)"

subsection \<open>The state and its handlers\<close>

text \<open>A check that leaves the state as it is: its error is thrown in state \<open>s\<close>.\<close>

definition at_state :: "V3ReplayState \<Rightarrow> 'a res \<Rightarrow> ('a \<Rightarrow> 'b act) \<Rightarrow> 'b act" where
  "at_state s r f = (case r of Inl e \<Rightarrow> Inl (e, s) | Inr x \<Rightarrow> f x)"

definition upd_pool ::
  "string \<Rightarrow> (ReplayPoolState \<Rightarrow> ReplayPoolState) \<Rightarrow> V3ReplayState \<Rightarrow> V3ReplayState" where
  "upd_pool key f s = s\<lparr>st_pools := AList.map_entry key f (st_pools s)\<rparr>"

definition put_position :: "string \<Rightarrow> ReplayPositionState \<Rightarrow> V3ReplayState \<Rightarrow> V3ReplayState" where
  "put_position key p s = s\<lparr>st_positions := AList.update key p (st_positions s)\<rparr>"

definition new_pool :: "ReplayTickState list \<Rightarrow> V3ReplayState \<Rightarrow> ReplayPoolState \<Rightarrow> V3ReplayState res" where
  "new_pool ticks s pool =
     (let key = poolKey (rp_poolAddress pool) in
      bind_ok (new_TickBook (filter (\<lambda>t. poolKey (rt_poolAddress t) = key) ticks)) (\<lambda>book.
        Inr (s\<lparr>st_pools := AList.update key pool (st_pools s),
               st_ticks := AList.update key book (st_ticks s)\<rparr>)))"

definition new_V3ReplayState ::
  "ReplayPoolState list \<Rightarrow> ReplayPositionState list \<Rightarrow> ReplayTickState list \<Rightarrow> V3ReplayState res" where
  "new_V3ReplayState pools positions ticks =
     bind_ok (fold_res (new_pool ticks)
         \<lparr>st_pools = [], st_ticks = [], st_positions = [], dirtyPools = [], dirtyTicks = [],
          deletedTicks = [], dirtyPositions = []\<rparr> pools) (\<lambda>s.
       Inr (foldl (\<lambda>s p. put_position (positionKey (rq_poolAddress p) (rq_ownerAddress p)
              (rq_tickLower p) (rq_tickUpper p)) p s) s positions))"

definition poolStates :: "V3ReplayState \<Rightarrow> ReplayPoolState list" where
  "poolStates s = map snd (st_pools s)"

definition tickStates :: "V3ReplayState \<Rightarrow> ReplayTickState list" where
  "tickStates s = concat (map (book_values \<circ> snd) (st_ticks s))"

definition positionStates :: "V3ReplayState \<Rightarrow> ReplayPositionState list" where
  "positionStates s = map snd (st_positions s)"

text \<open>\<open>key.lastIndexOf(":")\<close> and the two slices around it; \<open>Number\<close> of the second one.\<close>

definition before_colon :: "string \<Rightarrow> string" where
  "before_colon key = rev (drop 1 (dropWhile (\<lambda>c. c \<noteq> CHR '':'') (rev key)))"

definition after_colon :: "string \<Rightarrow> string" where
  "after_colon key = rev (takeWhile (\<lambda>c. c \<noteq> CHR '':'') (rev key))"

definition dirty_tick_state :: "V3ReplayState \<Rightarrow> string \<Rightarrow> ReplayTickState list" where
  "dirty_tick_state s key =
     (case map_of (st_ticks s) (before_colon key) of
        None \<Rightarrow> []
      | Some book \<Rightarrow>
          (case parse_int (after_colon key) of
             None \<Rightarrow> []
           | Some tick \<Rightarrow> (case book_get book tick of None \<Rightarrow> [] | Some t \<Rightarrow> [t])))"

definition changes :: "V3ReplayState \<Rightarrow> ReplayChanges" where
  "changes s =
     \<lparr>ch_deletedTicks = map snd (deletedTicks s),
      ch_pools = map (\<lambda>key. the (map_of (st_pools s) key)) (dirtyPools s),
      ch_positions = map (\<lambda>key. the (map_of (st_positions s) key)) (dirtyPositions s),
      ch_ticks = concat (map (dirty_tick_state s) (dirtyTicks s))\<rparr>"

definition clearChanges :: "V3ReplayState \<Rightarrow> V3ReplayState" where
  "clearChanges s = s\<lparr>dirtyPools := [], dirtyTicks := [], deletedTicks := [], dirtyPositions := []\<rparr>"

definition requireInitialized :: "ReplayPoolState \<Rightarrow> string \<Rightarrow> unit res" where
  "requireInitialized pool eventName =
     (if \<not> rp_initialized pool \<or> rp_tick pool = None
      then Inl (eventName @ '' occurred before Initialize for '' @ rp_poolAddress pool) else Inr ())"

definition applyInitialize :: "string \<Rightarrow> ReplayPoolState \<Rightarrow> js_args \<Rightarrow> V3ReplayState \<Rightarrow> V3ReplayState act" where
  "applyInitialize key pool args s =
     (if rp_initialized pool
      then Inl (''Pool '' @ rp_poolAddress pool @ '' initialized more than once'', s)
      else
        at_state s (requireUint args ''sqrtPriceX96'' ''Initialize'') (\<lambda>price.
        if price = 0 then Inl (''Pool '' @ rp_poolAddress pool @ '' initialized at a zero price'', s)
        else
          let s1 = upd_pool key (\<lambda>p. p\<lparr>rp_initialized := True, rp_sqrtPriceX96 := Some price\<rparr>) s in
          at_state s1 (replay_requireTick args ''tick'' ''Initialize'') (\<lambda>tick.
            Inr (upd_pool key (\<lambda>p. p\<lparr>rp_tick := Some tick, rp_liquidity := 0,
                   rp_observationCardinalityNext := Some 1\<rparr>) s1))))"

definition updateTick :: "string \<Rightarrow> int \<Rightarrow> int \<Rightarrow> bool \<Rightarrow> V3ReplayState \<Rightarrow> V3ReplayState act" where
  "updateTick poolAddress tick delta isUpper s =
     (let address = poolKey poolAddress; key = tickKey address tick in
      case map_of (st_ticks s) address of
        None \<Rightarrow> Inl (''TypeError'', s)
      | Some book \<Rightarrow>
          at_state s (book_update book poolAddress tick delta isUpper) (\<lambda>(book', updated).
            let s1 = s\<lparr>st_ticks := AList.update address book' (st_ticks s)\<rparr> in
            Inr (case updated of
                None \<Rightarrow> s1\<lparr>dirtyTicks := set_del key (dirtyTicks s1),
                           deletedTicks := AList.update key (poolAddress, tick) (deletedTicks s1)\<rparr>
              | Some _ \<Rightarrow> s1\<lparr>deletedTicks := AList.delete key (deletedTicks s1),
                             dirtyTicks := set_add key (dirtyTicks s1)\<rparr>)))"

definition empty_position :: "string \<Rightarrow> string \<Rightarrow> int \<Rightarrow> int \<Rightarrow> ReplayPositionState" where
  "empty_position poolAddress ownerAddress tickLower tickUpper =
     \<lparr>rq_poolAddress = poolAddress, rq_ownerAddress = ownerAddress, rq_tickLower = tickLower,
      rq_tickUpper = tickUpper, rq_liquidity = 0, rq_mintedLiquidity = 0, rq_burnedLiquidity = 0,
      rq_mintedAmount0 = 0, rq_mintedAmount1 = 0, rq_burnedAmount0 = 0, rq_burnedAmount1 = 0,
      rq_collectedAmount0 = 0, rq_collectedAmount1 = 0\<rparr>"

definition change_position :: "bool \<Rightarrow> int \<Rightarrow> int \<Rightarrow> int \<Rightarrow> ReplayPositionState \<Rightarrow> ReplayPositionState" where
  "change_position burn amount a0 a1 p =
     (if burn then p\<lparr>rq_liquidity := rq_liquidity p - amount,
        rq_burnedLiquidity := rq_burnedLiquidity p + amount,
        rq_burnedAmount0 := rq_burnedAmount0 p + a0, rq_burnedAmount1 := rq_burnedAmount1 p + a1\<rparr>
      else p\<lparr>rq_liquidity := rq_liquidity p + amount,
        rq_mintedLiquidity := rq_mintedLiquidity p + amount,
        rq_mintedAmount0 := rq_mintedAmount0 p + a0, rq_mintedAmount1 := rq_mintedAmount1 p + a1\<rparr>)"

text \<open>\<open>applyLiquidityChange\<close> once its arguments are read.\<close>

definition changeLiquidity ::
  "string \<Rightarrow> ReplayPoolState \<Rightarrow> bool \<Rightarrow> string \<Rightarrow> int \<Rightarrow> int \<Rightarrow> int \<Rightarrow> int \<Rightarrow> int \<Rightarrow> V3ReplayState \<Rightarrow>
   V3ReplayState act"
where
  "changeLiquidity poolkey pool burn owner lo hi amount a0 a1 s =
     (let delta = (if burn then - amount else amount);
          key = positionKey (rp_poolAddress pool) owner lo hi
      in
      if map_of (st_positions s) key = None \<and> burn
      then Inl (''Burn references an unknown position '' @ key, s)
      else
        let (position, s1) = (case map_of (st_positions s) key of
               Some p \<Rightarrow> (p, s)
             | None \<Rightarrow> let p = empty_position (rp_poolAddress pool) owner lo hi in (p, put_position key p s))
        in
        if rq_liquidity position + delta < 0
        then Inl (''Position liquidity underflow for '' @ key, s1)
        else
          let s2 = put_position key (change_position burn amount a0 a1 position) s1;
              s3 = s2\<lparr>dirtyPositions := set_add key (dirtyPositions s2)\<rparr>
          in
          bind_ok (updateTick (rp_poolAddress pool) lo delta False s3) (\<lambda>s4.
          bind_ok (updateTick (rp_poolAddress pool) hi delta True s4) (\<lambda>s5.
            case rp_tick pool of
              None \<Rightarrow> Inr s5
            | Some t \<Rightarrow>
                if t \<ge> lo \<and> t < hi then
                  (if rp_liquidity pool + delta < 0
                   then Inl (''Active liquidity underflow for '' @ rp_poolAddress pool, s5)
                   else Inr (upd_pool poolkey (\<lambda>p. p\<lparr>rp_liquidity := rp_liquidity p + delta\<rparr>) s5))
                else Inr s5)))"

definition applyLiquidityChange ::
  "(string \<Rightarrow> bool) \<Rightarrow> (string \<Rightarrow> string) \<Rightarrow> string \<Rightarrow> ReplayPoolState \<Rightarrow> js_args \<Rightarrow> bool \<Rightarrow>
   V3ReplayState \<Rightarrow> V3ReplayState act"
where
  "applyLiquidityChange isAddress getAddress key pool args burn s =
     (let eventName = (if burn then ''Burn'' else ''Mint'') in
      at_state s (requireInitialized pool eventName) (\<lambda>_.
      at_state s (requireAddress isAddress getAddress args ''owner'' eventName) (\<lambda>owner.
      at_state s (replay_requireTick args ''tickLower'' eventName) (\<lambda>lo.
      at_state s (replay_requireTick args ''tickUpper'' eventName) (\<lambda>hi.
      if lo \<ge> hi then Inl (eventName @ '' has an invalid tick range'', s)
      else
        at_state s (requireUint args ''amount'' eventName) (\<lambda>amount.
        at_state s (requireUint args ''amount0'' eventName) (\<lambda>a0.
        at_state s (requireUint args ''amount1'' eventName) (\<lambda>a1.
          changeLiquidity key pool burn owner lo hi amount a0 a1 s))))))))"

definition applyCollect ::
  "(string \<Rightarrow> bool) \<Rightarrow> (string \<Rightarrow> string) \<Rightarrow> ReplayPoolState \<Rightarrow> js_args \<Rightarrow> V3ReplayState \<Rightarrow> V3ReplayState act"
where
  "applyCollect isAddress getAddress pool args s =
     at_state s (requireInitialized pool ''Collect'') (\<lambda>_.
     at_state s (requireAddress isAddress getAddress args ''owner'' ''Collect'') (\<lambda>owner.
     at_state s (replay_requireTick args ''tickLower'' ''Collect'') (\<lambda>lo.
     at_state s (replay_requireTick args ''tickUpper'' ''Collect'') (\<lambda>hi.
     at_state s (requireUint args ''amount0'' ''Collect'') (\<lambda>a0.
     at_state s (requireUint args ''amount1'' ''Collect'') (\<lambda>a1.
       let key = positionKey (rp_poolAddress pool) owner lo hi in
       case map_of (st_positions s) key of
         None \<Rightarrow> if a0 = 0 \<and> a1 = 0 then Inr s
                 else Inl (''Collect references an unknown position '' @ key, s)
       | Some p \<Rightarrow>
           let s1 = put_position key (p\<lparr>rq_collectedAmount0 := rq_collectedAmount0 p + a0,
                      rq_collectedAmount1 := rq_collectedAmount1 p + a1\<rparr>) s
           in Inr (s1\<lparr>dirtyPositions := set_add key (dirtyPositions s1)\<rparr>)))))))"

definition applySwap ::
  "string \<Rightarrow> ReplayPoolState \<Rightarrow> js_args \<Rightarrow> StoredReplayEvent \<Rightarrow> V3ReplayState \<Rightarrow> V3ReplayState act" where
  "applySwap key pool args event s =
     at_state s (requireInitialized pool ''Swap'') (\<lambda>_.
     at_state s (replay_requireTick args ''tick'' ''Swap'') (\<lambda>nextTick.
     at_state s (requireUint args ''liquidity'' ''Swap'') (\<lambda>nextLiquidity.
       case map_of (st_ticks s) (poolKey (rp_poolAddress pool)) of
         None \<Rightarrow> Inl (''TypeError'', s)
       | Some book \<Rightarrow>
           let tick = the (rp_tick pool) in
           at_state s
             (if nextTick \<ge> tick then netBetweenExclusiveInclusive book tick nextTick
              else bind_ok (netBetweenExclusiveInclusive book nextTick tick) (\<lambda>n. Inr (- n))) (\<lambda>crossedNet.
           let expected = rp_liquidity pool + crossedNet in
           if expected \<noteq> nextLiquidity
           then Inl (''Swap liquidity mismatch for '' @ rp_poolAddress pool @ '' at '' @
                  show_int (rc_blockNumber event) @ '':'' @ show_int (rc_transactionIndex event) @ '':'' @
                  show_int (rc_logIndex event) @ ''; expected '' @ show_int expected @
                  '', event '' @ show_int nextLiquidity, s)
           else
             at_state s (requireUint args ''sqrtPriceX96'' ''Swap'') (\<lambda>price.
               Inr (upd_pool key (\<lambda>p. p\<lparr>rp_sqrtPriceX96 := Some price, rp_tick := Some nextTick,
                      rp_liquidity := nextLiquidity\<rparr>) s))))))"

definition show_option :: "int option \<Rightarrow> string" where
  "show_option x = (case x of None \<Rightarrow> ''null'' | Some i \<Rightarrow> show_int i)"

definition applyCardinality :: "string \<Rightarrow> ReplayPoolState \<Rightarrow> js_args \<Rightarrow> V3ReplayState \<Rightarrow> V3ReplayState act" where
  "applyCardinality key pool args s =
     (let eventName = ''IncreaseObservationCardinalityNext'' in
      at_state s (requireInitialized pool eventName) (\<lambda>_.
      at_state s (requireInteger args ''observationCardinalityNextOld'' eventName) (\<lambda>oldValue.
      at_state s (requireInteger args ''observationCardinalityNextNew'' eventName) (\<lambda>nextValue.
        if rp_observationCardinalityNext pool \<noteq> Some oldValue
        then Inl (''Observation-cardinality mismatch for '' @ rp_poolAddress pool @ '': expected old '' @
               show_option (rp_observationCardinalityNext pool) @ '', event '' @ show_int oldValue, s)
        else Inr (upd_pool key (\<lambda>p. p\<lparr>rp_observationCardinalityNext := Some nextValue\<rparr>) s)))))"

definition applyFeeProtocol :: "string \<Rightarrow> ReplayPoolState \<Rightarrow> js_args \<Rightarrow> V3ReplayState \<Rightarrow> V3ReplayState act" where
  "applyFeeProtocol key pool args s =
     at_state s (requireInitialized pool ''SetFeeProtocol'') (\<lambda>_.
     at_state s (requireInteger args ''feeProtocol0Old'' ''SetFeeProtocol'') (\<lambda>old0.
     at_state s (requireInteger args ''feeProtocol1Old'' ''SetFeeProtocol'') (\<lambda>old1.
       if rp_feeProtocol0 pool \<noteq> old0 \<or> rp_feeProtocol1 pool \<noteq> old1
       then Inl (''Fee-protocol mismatch for '' @ rp_poolAddress pool @ '': expected '' @
              show_int (rp_feeProtocol0 pool) @ ''/'' @ show_int (rp_feeProtocol1 pool) @
              '', event '' @ show_int old0 @ ''/'' @ show_int old1, s)
       else
         at_state s (requireInteger args ''feeProtocol0New'' ''SetFeeProtocol'') (\<lambda>new0.
           let s1 = upd_pool key (\<lambda>p. p\<lparr>rp_feeProtocol0 := new0\<rparr>) s in
           at_state s1 (requireInteger args ''feeProtocol1New'' ''SetFeeProtocol'') (\<lambda>new1.
             Inr (upd_pool key (\<lambda>p. p\<lparr>rp_feeProtocol1 := new1\<rparr>) s1))))))"

text \<open>The dispatch of \<open>apply\<close> on the event's name, with its counters.\<close>

definition applyEvent ::
  "(string \<Rightarrow> bool) \<Rightarrow> (string \<Rightarrow> string) \<Rightarrow> string \<Rightarrow> ReplayPoolState \<Rightarrow> js_args \<Rightarrow> StoredReplayEvent \<Rightarrow>
   V3ReplayState \<Rightarrow> V3ReplayState act"
where
  "applyEvent isAddress getAddress key pool args event s =
     (let name = ev_eventName event in
      if name = ''Initialize'' then applyInitialize key pool args s
      else if name = ''Mint'' then
        bind_ok (applyLiquidityChange isAddress getAddress key pool args False s) (\<lambda>s'.
          Inr (upd_pool key (\<lambda>p. p\<lparr>rp_mintCount := rp_mintCount p + 1\<rparr>) s'))
      else if name = ''Burn'' then
        bind_ok (applyLiquidityChange isAddress getAddress key pool args True s) (\<lambda>s'.
          Inr (upd_pool key (\<lambda>p. p\<lparr>rp_burnCount := rp_burnCount p + 1\<rparr>) s'))
      else if name = ''Collect'' then
        bind_ok (applyCollect isAddress getAddress pool args s) (\<lambda>s'.
          Inr (upd_pool key (\<lambda>p. p\<lparr>rp_collectCount := rp_collectCount p + 1\<rparr>) s'))
      else if name = ''Swap'' then
        bind_ok (applySwap key pool args event s) (\<lambda>s'.
          Inr (upd_pool key (\<lambda>p. p\<lparr>rp_swapCount := rp_swapCount p + 1\<rparr>) s'))
      else if name = ''Flash'' then
        at_state s (requireInitialized pool name) (\<lambda>_.
          Inr (upd_pool key (\<lambda>p. p\<lparr>rp_flashCount := rp_flashCount p + 1\<rparr>) s))
      else if name = ''IncreaseObservationCardinalityNext'' then applyCardinality key pool args s
      else if name = ''SetFeeProtocol'' then applyFeeProtocol key pool args s
      else if name = ''CollectProtocol'' then at_state s (requireInitialized pool name) (\<lambda>_. Inr s)
      else Inl (''Unsupported v3 event '' @ name, s))"

definition apply_event ::
  "(string \<Rightarrow> bool) \<Rightarrow> (string \<Rightarrow> string) \<Rightarrow> StoredReplayEvent \<Rightarrow> V3ReplayState \<Rightarrow> V3ReplayState act" where
  "apply_event isAddress getAddress event s =
     (let key = poolKey (ev_poolAddress event) in
      case map_of (st_pools s) key of
        None \<Rightarrow> Inl (''Event references an unregistered pool '' @ ev_poolAddress event, s)
      | Some pool \<Rightarrow>
          at_state s (requireArgs (ev_args event) (ev_eventName event)) (\<lambda>args.
          bind_ok (applyEvent isAddress getAddress key pool args event s) (\<lambda>s1.
            let s2 = upd_pool key (\<lambda>p. p\<lparr>rp_eventCount := rp_eventCount p + 1,
                       rp_lastEventBlock := Some (rc_blockNumber event),
                       rp_lastEventTransactionIndex := Some (rc_transactionIndex event),
                       rp_lastEventLogIndex := Some (rc_logIndex event)\<rparr>) s1
            in Inr (s2\<lparr>dirtyPools := set_add key (dirtyPools s2)\<rparr>))))"

subsection \<open>Keys\<close>

lemma show_int_no_colon: "CHR '':'' \<notin> set (show_int i)"
proof -
  have "CHR '':'' \<notin> set (show_nat n)" for n
    using show_nat_digits [of n] by (auto simp: digits_only_def list_all_iff is_digit_def)
  then show ?thesis by (simp add: show_int_def)
qed

lemma colon_while:
  assumes "c \<notin> set xs"
  shows "takeWhile (\<lambda>x. x \<noteq> c) (xs @ c # ys) = xs" "dropWhile (\<lambda>x. x \<noteq> c) (xs @ c # ys) = c # ys"
  using assms by (induction xs) auto

lemma split_first_colon:
  assumes "xs @ CHR '':'' # ys = xs' @ CHR '':'' # ys'" "CHR '':'' \<notin> set xs" "CHR '':'' \<notin> set xs'"
  shows "xs = xs' \<and> ys = ys'"
  by (metis assms colon_while list.inject)

lemma split_last_colon:
  assumes "xs @ CHR '':'' # ys = xs' @ CHR '':'' # ys'" "CHR '':'' \<notin> set ys" "CHR '':'' \<notin> set ys'"
  shows "xs = xs' \<and> ys = ys'"
proof -
  from assms(1) have "rev (xs @ CHR '':'' # ys) = rev (xs' @ CHR '':'' # ys')" by (rule arg_cong)
  then have "rev ys @ CHR '':'' # rev xs = rev ys' @ CHR '':'' # rev xs'" by simp
  from split_first_colon [OF this] assms show ?thesis by simp
qed

lemma tickKey_inj: "tickKey a t = tickKey a' t' \<longleftrightarrow> poolKey a = poolKey a' \<and> t = t'"
  using split_last_colon [of "poolKey a" "show_int t" "poolKey a'" "show_int t'"]
  by (auto simp: tickKey_def show_int_no_colon)

lemma key_parts [simp]:
  "before_colon (xs @ CHR '':'' # show_int t) = xs" "after_colon (xs @ CHR '':'' # show_int t) = show_int t"
proof -
  have n: "CHR '':'' \<notin> set (rev (show_int t))" using show_int_no_colon by simp
  show "before_colon (xs @ CHR '':'' # show_int t) = xs" "after_colon (xs @ CHR '':'' # show_int t) = show_int t"
    using colon_while [OF n, of "rev xs"] by (simp_all add: before_colon_def after_colon_def)
qed

lemma poolKey_idem [simp]: "poolKey (poolKey a) = poolKey a"
  by (simp add: poolKey_def)

lemma positionKey_inj:
  assumes "positionKey a ow lo hi = positionKey a' ow' lo' hi'"
    and "CHR '':'' \<notin> set (poolKey a)" "CHR '':'' \<notin> set (poolKey a')"
  shows "poolKey a = poolKey a' \<and> lo = lo' \<and> hi = hi'"
proof -
  have hi: "(poolKey a @ CHR '':'' # lower ow @ CHR '':'' # show_int lo) @ CHR '':'' # show_int hi =
      (poolKey a' @ CHR '':'' # lower ow' @ CHR '':'' # show_int lo') @ CHR '':'' # show_int hi'"
    using assms(1) by (simp add: positionKey_def)
  note h = split_last_colon [OF hi show_int_no_colon show_int_no_colon]
  then have lo: "(poolKey a @ CHR '':'' # lower ow) @ CHR '':'' # show_int lo =
      (poolKey a' @ CHR '':'' # lower ow') @ CHR '':'' # show_int lo'" by simp
  note l = split_last_colon [OF lo show_int_no_colon show_int_no_colon]
  then have "poolKey a @ CHR '':'' # lower ow = poolKey a' @ CHR '':'' # lower ow'" by blast
  with split_first_colon [OF this assms(2,3)] h l show ?thesis by simp
qed

subsection \<open>Sums over the positions of a pool\<close>

type_synonym position_map = "(string \<times> ReplayPositionState) list"

definition triples :: "string \<Rightarrow> position_map \<Rightarrow> (int \<times> int \<times> int) list" where
  "triples k ps = map (\<lambda>(_, q). (rq_tickLower q, rq_tickUpper q, rq_liquidity q))
     (filter (\<lambda>(_, q). poolKey (rq_poolAddress q) = k) ps)"

definition triple_sum :: "(int \<Rightarrow> int \<Rightarrow> int \<Rightarrow> int) \<Rightarrow> (int \<times> int \<times> int) list \<Rightarrow> int" where
  "triple_sum f xs = (\<Sum>(lo, hi, L)\<leftarrow>xs. f lo hi L)"

lemma update_update [simp]: "AList.update k v (AList.update k w xs) = AList.update k v xs"
  by (induction xs) auto

lemma triples_other:
  assumes "poolKey (rq_poolAddress q) \<noteq> k"
    and "\<And>q0. map_of ps key = Some q0 \<Longrightarrow> poolKey (rq_poolAddress q0) \<noteq> k"
  shows "triples k (AList.update key q ps) = triples k ps"
  using assms(2) by (induction ps) (auto simp: triples_def assms(1))

lemma triples_sum_update:
  assumes "distinct (map fst ps)" "poolKey (rq_poolAddress q) = k"
    and "\<And>q0. map_of ps key = Some q0 \<Longrightarrow> poolKey (rq_poolAddress q0) = k"
  shows "triple_sum f (triples k (AList.update key q ps)) =
    triple_sum f (triples k ps) + f (rq_tickLower q) (rq_tickUpper q) (rq_liquidity q) -
    (case map_of ps key of None \<Rightarrow> 0
     | Some q0 \<Rightarrow> f (rq_tickLower q0) (rq_tickUpper q0) (rq_liquidity q0))"
  using assms
proof (induction ps)
  case Nil
  then show ?case by (simp add: triples_def triple_sum_def)
next
  case (Cons kv ps)
  obtain k1 q1 where kv: "kv = (k1, q1)" by (cases kv)
  show ?case
  proof (cases "k1 = key")
    case True
    then show ?thesis using Cons.prems by (simp add: kv triples_def triple_sum_def)
  next
    case False
    then have "triple_sum f (triples k (AList.update key q ps)) =
      triple_sum f (triples k ps) + f (rq_tickLower q) (rq_tickUpper q) (rq_liquidity q) -
      (case map_of ps key of None \<Rightarrow> 0
       | Some q0 \<Rightarrow> f (rq_tickLower q0) (rq_tickUpper q0) (rq_liquidity q0))"
      using Cons.prems by (intro Cons.IH) (auto simp: kv)
    then show ?thesis using False by (auto simp: kv triples_def triple_sum_def)
  qed
qed

lemma triples_set_update:
  "set (triples k (AList.update key q ps)) \<subseteq>
     insert (rq_tickLower q, rq_tickUpper q, rq_liquidity q) (set (triples k ps))"
  by (induction ps) (auto simp: triples_def split: if_splits)

lemma triples_member:
  "map_of ps key = Some q \<Longrightarrow> poolKey (rq_poolAddress q) = k \<Longrightarrow>
     (rq_tickLower q, rq_tickUpper q, rq_liquidity q) \<in> set (triples k ps)"
  by (force simp: triples_def dest: map_of_SomeD)

definition gross_at :: "(int \<times> int \<times> int) list \<Rightarrow> int \<Rightarrow> int" where
  "gross_at xs t = triple_sum (\<lambda>lo hi L. (if lo = t then L else 0) + (if hi = t then L else 0)) xs"

definition net_at :: "(int \<times> int \<times> int) list \<Rightarrow> int \<Rightarrow> int" where
  "net_at xs t = triple_sum (\<lambda>lo hi L. (if lo = t then L else 0) - (if hi = t then L else 0)) xs"

definition active_at :: "(int \<times> int \<times> int) list \<Rightarrow> int \<Rightarrow> int" where
  "active_at xs t = triple_sum (\<lambda>lo hi L. if lo \<le> t \<and> t < hi then L else 0) xs"

definition proper :: "(int \<times> int \<times> int) list \<Rightarrow> bool" where
  "proper xs \<longleftrightarrow> (\<forall>(lo, hi, L) \<in> set xs. lo < hi \<and> 0 \<le> L)"

lemma represents_iff:
  "tick_books.represents b xs \<longleftrightarrow>
     proper xs \<and> (\<forall>t. book_gross b t = gross_at xs t) \<and> (\<forall>t. book_net b t = net_at xs t)"
  by (simp add: tick_books.represents_def proper_def gross_at_def net_at_def triple_sum_def)

lemma active_iff: "tick_books.active xs t = active_at xs t"
  by (simp add: tick_books.active_def active_at_def triple_sum_def)

lemma net_le_gross: "proper xs \<Longrightarrow> \<bar>net_at xs t\<bar> \<le> gross_at xs t"
  by (induction xs) (auto simp: proper_def net_at_def gross_at_def triple_sum_def)

subsection \<open>Consistent states\<close>

definition pool_consistent :: "V3ReplayState \<Rightarrow> string \<Rightarrow> ReplayPoolState \<Rightarrow> bool" where
  "pool_consistent s k pool \<longleftrightarrow>
     poolKey (rp_poolAddress pool) = k \<and> CHR '':'' \<notin> set k \<and>
     (\<exists>b. map_of (st_ticks s) k = Some b \<and> book_ok b \<and>
          tick_books.represents b (triples k (st_positions s))) \<and>
     (rp_initialized pool \<longleftrightarrow> rp_tick pool \<noteq> None) \<and>
     (rp_tick pool = None \<longrightarrow> (\<forall>(lo, hi, L) \<in> set (triples k (st_positions s)). L = 0)) \<and>
     (\<forall>t. rp_tick pool = Some t \<longrightarrow> rp_liquidity pool = active_at (triples k (st_positions s)) t)"

definition consistent :: "V3ReplayState \<Rightarrow> bool" where
  "consistent s \<longleftrightarrow>
     distinct (map fst (st_positions s)) \<and>
     (\<forall>k pool. map_of (st_pools s) k = Some pool \<longrightarrow> pool_consistent s k pool) \<and>
     (\<forall>key q. map_of (st_positions s) key = Some q \<longrightarrow>
        CHR '':'' \<notin> set (poolKey (rq_poolAddress q)) \<and>
        key = positionKey (rq_poolAddress q) (rq_ownerAddress q) (rq_tickLower q) (rq_tickUpper q))"

lemma map_of_upd_pool:
  "map_of (st_pools (upd_pool key f s)) k =
     (if k = key then map_option f (map_of (st_pools s) k) else map_of (st_pools s) k)"
proof -
  have "map_of (AList.map_entry key f xs) k =
      (if k = key then map_option f (map_of xs k) else map_of xs k)" for xs
    by (induction xs) auto
  then show ?thesis by (simp add: upd_pool_def)
qed

lemma upd_pool_frame [simp]:
  "st_ticks (upd_pool key f s) = st_ticks s" "st_positions (upd_pool key f s) = st_positions s"
  "dirtyTicks (upd_pool key f s) = dirtyTicks s" "deletedTicks (upd_pool key f s) = deletedTicks s"
  "dirtyPositions (upd_pool key f s) = dirtyPositions s" "dirtyPools (upd_pool key f s) = dirtyPools s"
  by (simp_all add: upd_pool_def)

lemma put_position_frame [simp]:
  "st_ticks (put_position key q s) = st_ticks s" "st_pools (put_position key q s) = st_pools s"
  "st_positions (put_position key q s) = AList.update key q (st_positions s)"
  "dirtyTicks (put_position key q s) = dirtyTicks s" "deletedTicks (put_position key q s) = deletedTicks s"
  "dirtyPositions (put_position key q s) = dirtyPositions s" "dirtyPools (put_position key q s) = dirtyPools s"
  by (simp_all add: put_position_def)

lemma pool_consistent_frame:
  assumes "pool_consistent s k pool" "map_of (st_ticks s') k = map_of (st_ticks s) k"
    and "triples k (st_positions s') = triples k (st_positions s)"
    and "rp_poolAddress pool' = rp_poolAddress pool" "rp_tick pool' = rp_tick pool"
    and "rp_initialized pool' = rp_initialized pool" "rp_liquidity pool' = rp_liquidity pool"
  shows "pool_consistent s' k pool'"
  using assms by (simp add: pool_consistent_def)

lemma consistent_upd_pool:
  assumes "consistent s"
    and "\<And>p. map_of (st_pools s) key = Some p \<Longrightarrow> pool_consistent s key p \<Longrightarrow> pool_consistent s key (f p)"
  shows "consistent (upd_pool key f s)"
proof -
  have "pool_consistent (upd_pool key f s) k pool" if "pool_consistent s k pool" for k pool
    using that by (rule pool_consistent_frame) simp_all
  then show ?thesis using assms by (auto simp: consistent_def map_of_upd_pool split: if_splits)
qed

lemma consistent_dirty:
  "consistent (s\<lparr>dirtyPools := a\<rparr>) = consistent s" "consistent (s\<lparr>dirtyPositions := b\<rparr>) = consistent s"
  "consistent (s\<lparr>dirtyTicks := c\<rparr>) = consistent s" "consistent (s\<lparr>deletedTicks := d\<rparr>) = consistent s"
  by (simp_all add: consistent_def pool_consistent_def)

lemma updateTick_Inr:
  assumes "map_of (st_ticks s) (poolKey a) = Some b" "book_update b a t d up = Inr (b', r)"
  obtains s' where "updateTick a t d up s = Inr s'" "st_pools s' = st_pools s"
    "st_positions s' = st_positions s" "map_of (st_ticks s') = (map_of (st_ticks s))(poolKey a \<mapsto> b')"
    "dirtyPositions s' = dirtyPositions s"
  using assms by (cases r) (auto simp: updateTick_def Let_def at_state_def map_of_update)

text \<open>
  The two tick updates of a liquidity change: when the position's change fits the book, both
  succeed and the book then represents the changed positions.
\<close>

lemma two_updates:
  assumes "book_ok b" "tick_books.represents b xs" "proper ys" "lo < hi"
    and sums: "\<And>f. f lo hi 0 = 0 \<Longrightarrow> triple_sum f ys = triple_sum f xs + (f lo hi (L + d) - f lo hi L)"
    and nn: "\<And>t. 0 \<le> gross_at ys t"
  obtains b1 r1 b2 r2 where
    "book_update b a lo d False = Inr (b1, r1)" "book_update b1 a hi d True = Inr (b2, r2)"
    "book_ok b2" "tick_books.represents b2 ys"
proof -
  have g: "gross_at ys t = book_gross b t + (if t = lo then d else 0) + (if t = hi then d else 0)"
    and n: "net_at ys t = book_net b t + (if t = lo then d else 0) - (if t = hi then d else 0)" for t
    using assms(2,4) by (auto simp: represents_iff gross_at_def net_at_def sums)
  have z: "net_at ys t = 0" if "gross_at ys t = 0" for t using net_le_gross [OF assms(3), of t] that by simp
  obtain b1 r1 where u1: "book_update b a lo d False = Inr (b1, r1)"
    using book_update_returns [OF assms(1), of lo d False a] g [of lo] n [of lo] z [of lo]
      assms(4) nn [of lo] by auto
  note e1 = book_update_effect [OF assms(1) u1] and ok1 = book_update_ok [OF assms(1) u1]
  obtain b2 r2 where u2: "book_update b1 a hi d True = Inr (b2, r2)"
    using book_update_returns [OF ok1, of hi d True a] g [of hi] n [of hi] z [of hi]
      assms(4) nn [of hi] e1 by auto
  note e2 = book_update_effect [OF ok1 u2] and ok2 = book_update_ok [OF ok1 u2]
  have "tick_books.represents b2 ys" using assms(3) by (simp add: represents_iff e1 e2 g n)
  with u1 u2 ok2 show thesis by (rule that)
qed

lemma gross_nonneg: "proper xs \<Longrightarrow> 0 \<le> gross_at xs t"
  using net_le_gross [of xs t] by linarith

lemma active_at_nonneg: "proper xs \<Longrightarrow> 0 \<le> active_at xs t"
  by (simp add: proper_def tick_books.active_nonneg flip: active_iff)

definition position_liquidity :: "V3ReplayState \<Rightarrow> string \<Rightarrow> int" where
  "position_liquidity s key = (case map_of (st_positions s) key of None \<Rightarrow> 0 | Some q \<Rightarrow> rq_liquidity q)"

text \<open>The positions after a liquidity change, when the position covers it.\<close>

definition signed_amount :: "bool \<Rightarrow> int \<Rightarrow> int" where
  "signed_amount burn amount = (if burn then - amount else amount)"

definition covers :: "V3ReplayState \<Rightarrow> bool \<Rightarrow> string \<Rightarrow> int \<Rightarrow> bool" where
  "covers s burn key amount \<longleftrightarrow>
     0 \<le> amount \<and> (burn \<longrightarrow> map_of (st_positions s) key \<noteq> None \<and> amount \<le> position_liquidity s key)"

definition old_position :: "V3ReplayState \<Rightarrow> ReplayPoolState \<Rightarrow> string \<Rightarrow> int \<Rightarrow> int \<Rightarrow> ReplayPositionState" where
  "old_position s pool ow lo hi =
     (case map_of (st_positions s) (positionKey (rp_poolAddress pool) ow lo hi) of
        Some q \<Rightarrow> q | None \<Rightarrow> empty_position (rp_poolAddress pool) ow lo hi)"

lemma found_position:
  assumes "consistent s" "map_of (st_positions s) (positionKey a ow lo hi) = Some q"
    and "CHR '':'' \<notin> set (poolKey a)"
  shows "poolKey (rq_poolAddress q) = poolKey a \<and> rq_tickLower q = lo \<and> rq_tickUpper q = hi \<and>
    positionKey (rq_poolAddress q) (rq_ownerAddress q) lo hi = positionKey a ow lo hi"
proof -
  have q: "CHR '':'' \<notin> set (poolKey (rq_poolAddress q))" "positionKey a ow lo hi =
      positionKey (rq_poolAddress q) (rq_ownerAddress q) (rq_tickLower q) (rq_tickUpper q)"
    using assms(1,2) by (auto simp: consistent_def)
  from positionKey_inj [OF q(2) assms(3) q(1)] q(2) show ?thesis by simp
qed

lemma old_position_facts:
  fixes pool :: ReplayPoolState
  assumes "consistent s" "map_of (st_pools s) k = Some pool"
  defines "a \<equiv> rp_poolAddress pool" and "key \<equiv> (\<lambda>ow lo hi. positionKey (rp_poolAddress pool) ow lo hi)"
    and "q \<equiv> (\<lambda>ow lo hi. old_position s pool ow lo hi)"
  shows "poolKey (rq_poolAddress (q ow lo hi)) = k" "rq_tickLower (q ow lo hi) = lo"
    "rq_tickUpper (q ow lo hi) = hi" "rq_liquidity (q ow lo hi) = position_liquidity s (key ow lo hi)"
    "positionKey (rq_poolAddress (q ow lo hi)) (rq_ownerAddress (q ow lo hi)) lo hi = key ow lo hi"
    "map_of (st_positions s) (key ow lo hi) = Some r \<Longrightarrow> r = q ow lo hi"
proof -
  have k: "poolKey a = k" "CHR '':'' \<notin> set (poolKey a)"
    using assms(1,2) by (auto simp: consistent_def pool_consistent_def a_def)
  show "poolKey (rq_poolAddress (q ow lo hi)) = k" "rq_tickLower (q ow lo hi) = lo"
    "rq_tickUpper (q ow lo hi) = hi" "rq_liquidity (q ow lo hi) = position_liquidity s (key ow lo hi)"
    "positionKey (rq_poolAddress (q ow lo hi)) (rq_ownerAddress (q ow lo hi)) lo hi = key ow lo hi"
    "map_of (st_positions s) (key ow lo hi) = Some r \<Longrightarrow> r = q ow lo hi"
    using found_position [OF assms(1) _ k(2), of ow lo hi] k(1)
    by (auto simp: q_def key_def old_position_def empty_position_def position_liquidity_def a_def
        split: option.splits)
qed

lemma position_liquidity_nonneg:
  assumes "consistent s" "map_of (st_pools s) k = Some pool"
  shows "0 \<le> position_liquidity s (positionKey (rp_poolAddress pool) ow lo hi)"
proof (cases "map_of (st_positions s) (positionKey (rp_poolAddress pool) ow lo hi)")
  case None
  then show ?thesis by (simp add: position_liquidity_def)
next
  case (Some q)
  note o = old_position_facts [OF assms, of ow lo hi]
  have "proper (triples k (st_positions s))"
    using assms by (auto simp: consistent_def pool_consistent_def represents_iff)
  moreover have "(lo, hi, rq_liquidity q) \<in> set (triples k (st_positions s))"
    using triples_member [OF Some, of k] o(1-3) o(6) [OF Some] by simp
  ultimately show ?thesis using Some by (auto simp: proper_def position_liquidity_def)
qed

lemma changed_positions:
  fixes pool :: ReplayPoolState and ow :: string and lo hi amount x y :: int and burn :: bool
  assumes c: "consistent s" and pool: "map_of (st_pools s) k = Some pool" and lh: "lo < hi"
  defines "key \<equiv> positionKey (rp_poolAddress pool) ow lo hi"
    and "q1 \<equiv> change_position burn amount x y (old_position s pool ow lo hi)"
  defines "ps \<equiv> AList.update key q1 (st_positions s)"
  assumes cov: "covers s burn key amount"
  shows "proper (triples k ps)"
    and "f lo hi 0 = 0 \<Longrightarrow> triple_sum f (triples k ps) = triple_sum f (triples k (st_positions s)) +
      (f lo hi (position_liquidity s key + signed_amount burn amount) - f lo hi (position_liquidity s key))"
    and "k' \<noteq> k \<Longrightarrow> triples k' ps = triples k' (st_positions s)"
    and "poolKey (rq_poolAddress q1) = k"
    and "positionKey (rq_poolAddress q1) (rq_ownerAddress q1) (rq_tickLower q1) (rq_tickUpper q1) = key"
proof -
  note o = old_position_facts [OF c pool, of ow lo hi, folded key_def]
  have q1: "poolKey (rq_poolAddress q1) = k" "rq_tickLower q1 = lo" "rq_tickUpper q1 = hi"
    "rq_liquidity q1 = position_liquidity s key + signed_amount burn amount"
    "rq_ownerAddress q1 = rq_ownerAddress (old_position s pool ow lo hi)"
    "rq_poolAddress q1 = rq_poolAddress (old_position s pool ow lo hi)"
    using o by (simp_all add: q1_def change_position_def signed_amount_def)
  have pr: "proper (triples k (st_positions s))"
    using c pool by (auto simp: consistent_def pool_consistent_def represents_iff)
  have "0 \<le> position_liquidity s key + signed_amount burn amount"
    using cov position_liquidity_nonneg [OF c pool, of ow lo hi]
    by (auto simp: covers_def signed_amount_def key_def)
  then show "proper (triples k ps)"
    using pr triples_set_update [of k key q1 "st_positions s"] q1 lh by (auto simp: proper_def ps_def)
  have dst: "distinct (map fst (st_positions s))" using c by (simp add: consistent_def)
  have pk: "map_of (st_positions s) key = Some r \<Longrightarrow> poolKey (rq_poolAddress r) = k" for r
    using o(1) o(6) [of r] by simp
  show "triple_sum f (triples k ps) = triple_sum f (triples k (st_positions s)) +
      (f lo hi (position_liquidity s key + signed_amount burn amount) - f lo hi (position_liquidity s key))"
    if "f lo hi 0 = 0"
    using triples_sum_update [OF dst q1(1), of key f] pk q1 that o(2,3,6)
    by (auto simp: ps_def position_liquidity_def split: option.splits)
  show "triples k' ps = triples k' (st_positions s)" if "k' \<noteq> k"
    unfolding ps_def using that q1(1) pk by (intro triples_other) auto
  show "poolKey (rq_poolAddress q1) = k" by (rule q1(1))
  show "positionKey (rq_poolAddress q1) (rq_ownerAddress q1) (rq_tickLower q1) (rq_tickUpper q1) = key"
    using o(5) by (simp add: q1)
qed

lemma put_position_twice [simp]: "put_position key q (put_position key r s) = put_position key q s"
  by (simp add: put_position_def)

definition touched :: "V3ReplayState \<Rightarrow> string \<Rightarrow> ReplayPositionState \<Rightarrow> V3ReplayState" where
  "touched s key q = (put_position key q s)\<lparr>dirtyPositions := set_add key (dirtyPositions s)\<rparr>"

lemma touched_frame [simp]:
  "st_ticks (touched s key q) = st_ticks s" "st_pools (touched s key q) = st_pools s"
  "st_positions (touched s key q) = AList.update key q (st_positions s)"
  by (simp_all add: touched_def)

lemma changeLiquidity_covered:
  fixes pool :: ReplayPoolState and ow :: string and lo hi amount x y :: int and burn :: bool
  assumes "consistent s" "map_of (st_pools s) k = Some pool" "rp_tick pool = Some t"
  defines "key \<equiv> positionKey (rp_poolAddress pool) ow lo hi" and "d \<equiv> signed_amount burn amount"
  assumes cov: "covers s burn key amount"
  shows "changeLiquidity k pool burn ow lo hi amount x y s =
    bind_ok (updateTick (rp_poolAddress pool) lo d False
      (touched s key (change_position burn amount x y (old_position s pool ow lo hi)))) (\<lambda>s4.
    bind_ok (updateTick (rp_poolAddress pool) hi d True s4) (\<lambda>s5.
      if t \<ge> lo \<and> t < hi then
        (if rp_liquidity pool + d < 0
         then Inl (''Active liquidity underflow for '' @ rp_poolAddress pool, s5)
         else Inr (upd_pool k (\<lambda>p. p\<lparr>rp_liquidity := rp_liquidity p + d\<rparr>) s5))
      else Inr s5))"
proof -
  have L: "rq_liquidity (old_position s pool ow lo hi) = position_liquidity s key"
    using old_position_facts(4) [OF assms(1,2)] by (simp add: key_def)
  have "0 \<le> position_liquidity s key + d"
    using cov position_liquidity_nonneg [OF assms(1,2), of ow lo hi]
    by (auto simp: covers_def d_def signed_amount_def key_def)
  then have le: "\<not> rq_liquidity (old_position s pool ow lo hi) + d < 0" by (simp add: L)
  show ?thesis
  proof (cases "map_of (st_positions s) key")
    case (Some q)
    then have "old_position s pool ow lo hi = q" by (simp add: old_position_def key_def)
    with Some le show ?thesis
      unfolding d_def signed_amount_def
      by (simp add: changeLiquidity_def Let_def touched_def assms(3) flip: key_def)
  next
    case None
    then have "old_position s pool ow lo hi = empty_position (rp_poolAddress pool) ow lo hi"
      by (simp add: old_position_def key_def)
    moreover have "\<not> burn" using None cov by (auto simp: covers_def)
    ultimately show ?thesis using None le
      unfolding d_def signed_amount_def
      by (simp add: changeLiquidity_def Let_def touched_def assms(3) flip: key_def)
  qed
qed

lemma consistent_after_change:
  assumes c: "consistent s" and pool: "map_of (st_pools s) k = Some pool"
    and tk: "map_of (st_ticks s') = (map_of (st_ticks s))(k \<mapsto> b)" "book_ok b"
      "tick_books.represents b (triples k (st_positions s'))"
    and pos: "st_positions s' = AList.update key q (st_positions s)" "poolKey (rq_poolAddress q) = k"
      "positionKey (rq_poolAddress q) (rq_ownerAddress q) (rq_tickLower q) (rq_tickUpper q) = key"
      "\<And>k'. k' \<noteq> k \<Longrightarrow> triples k' (st_positions s') = triples k' (st_positions s)"
    and pl: "\<And>k'. map_of (st_pools s') k' = (if k' = k then Some pool' else map_of (st_pools s) k')"
    and p: "rp_poolAddress pool' = rp_poolAddress pool" "rp_tick pool' = Some t" "rp_initialized pool'"
      "rp_liquidity pool' = active_at (triples k (st_positions s')) t"
  shows "consistent s'"
proof -
  have pk: "pool_consistent s k pool" using c pool by (simp add: consistent_def)
  then have kk: "CHR '':'' \<notin> set k" "poolKey (rp_poolAddress pool) = k" by (auto simp: pool_consistent_def)
  have new: "pool_consistent s' k pool'" using kk tk p by (simp add: pool_consistent_def)
  have old: "pool_consistent s' k' p'" if "k' \<noteq> k" "map_of (st_pools s) k' = Some p'" for k' p'
  proof (rule pool_consistent_frame)
    show "pool_consistent s k' p'" using c that by (simp add: consistent_def)
    show "map_of (st_ticks s') k' = map_of (st_ticks s) k'" using that by (simp add: tk(1))
  qed (simp_all add: pos(4) [OF that(1)])
  have dst: "distinct (map fst (st_positions s'))"
    using c by (simp add: pos(1) consistent_def distinct_update)
  have m: "map_of (st_positions s') = (map_of (st_positions s))(key \<mapsto> q)"
    by (simp only: pos(1) map_of_update)
  show ?thesis
    unfolding consistent_def
  proof (intro conjI allI impI dst)
    fix k' pl assume "map_of (st_pools s') k' = Some pl"
    then show "pool_consistent s' k' pl" using new old by (auto simp: pl split: if_splits)
  next
    fix key' r assume r: "map_of (st_positions s') key' = Some r"
    then show "CHR '':'' \<notin> set (poolKey (rq_poolAddress r))"
      using c pos(2) kk by (auto simp: consistent_def m split: if_splits)
    show "key' = positionKey (rq_poolAddress r) (rq_ownerAddress r) (rq_tickLower r) (rq_tickUpper r)"
      using r c pos(3) by (auto simp: consistent_def m split: if_splits)
  qed
qed

lemma changeLiquidity_consistent:
  assumes c: "consistent s" and pool: "map_of (st_pools s) k = Some pool" and t: "rp_tick pool = Some t"
    and lh: "lo < hi" and cov: "covers s burn (positionKey (rp_poolAddress pool) ow lo hi) amount"
  shows "\<exists>s'. changeLiquidity k pool burn ow lo hi amount x y s = Inr s' \<and> consistent s'"
proof -
  let ?a = "rp_poolAddress pool" and ?d = "signed_amount burn amount"
  let ?key = "positionKey ?a ow lo hi"
  define q1 where "q1 = change_position burn amount x y (old_position s pool ow lo hi)"
  define ps where "ps = AList.update ?key q1 (st_positions s)"
  note ch = changed_positions [OF c pool lh cov, where x = x and y = y, folded q1_def, folded ps_def]
  have "pool_consistent s k pool" using c pool by (simp add: consistent_def)
  then obtain b where k: "poolKey ?a = k" and b: "map_of (st_ticks s) k = Some b" "book_ok b"
    and rep: "tick_books.represents b (triples k (st_positions s))"
    and liq: "rp_liquidity pool = active_at (triples k (st_positions s)) t" "rp_initialized pool"
    by (auto simp: pool_consistent_def t)
  obtain b1 r1 b2 r2 where u: "book_update b ?a lo ?d False = Inr (b1, r1)"
    "book_update b1 ?a hi ?d True = Inr (b2, r2)" and b2: "book_ok b2"
    "tick_books.represents b2 (triples k ps)"
    using two_updates [OF b(2) rep ch(1) lh, of "position_liquidity s ?key" ?d ?a] ch(2)
      gross_nonneg [OF ch(1)] by metis
  obtain s4 where s4: "updateTick ?a lo ?d False (touched s ?key q1) = Inr s4"
    "st_pools s4 = st_pools s" "st_positions s4 = ps"
    "map_of (st_ticks s4) = (map_of (st_ticks s))(k \<mapsto> b1)"
    using updateTick_Inr [of "touched s ?key q1" ?a b lo ?d False b1 r1] b u(1) k
    by (auto simp: ps_def)
  obtain s5 where s5: "updateTick ?a hi ?d True s4 = Inr s5" "st_pools s5 = st_pools s"
    "st_positions s5 = ps" "map_of (st_ticks s5) = (map_of (st_ticks s))(k \<mapsto> b2)"
    using updateTick_Inr [of s4 ?a b1 hi ?d True b2 r2] s4 u(2) k by auto
  let ?in = "lo \<le> t \<and> t < hi"
  have act: "active_at (triples k ps) t = rp_liquidity pool + (if ?in then ?d else 0)"
    using lh by (simp add: active_at_def ch(2) liq(1))
  have nn: "0 \<le> active_at (triples k ps) t" by (rule active_at_nonneg [OF ch(1)])
  note eq = changeLiquidity_covered [OF c pool t cov, where x = x and y = y, folded q1_def]
  show ?thesis
  proof (cases ?in)
    case True
    let ?s = "upd_pool k (\<lambda>p. p\<lparr>rp_liquidity := rp_liquidity p + ?d\<rparr>) s5"
    have "consistent ?s"
      by (rule consistent_after_change [OF c pool, of ?s b2 ?key q1
            "pool\<lparr>rp_liquidity := rp_liquidity pool + ?d\<rparr>" t])
        (use s5 b2 ch act True pool liq t in \<open>simp_all add: map_of_upd_pool ps_def\<close>)
    then show ?thesis using act nn True by (simp add: eq s4(1) s5(1))
  next
    case False
    have "consistent s5"
      by (rule consistent_after_change [OF c pool, of s5 b2 ?key q1 pool t])
        (use s5 b2 ch act False pool liq t in \<open>auto simp: ps_def\<close>)
    then show ?thesis using False by (auto simp: eq s4(1) s5(1))
  qed
qed

subsection \<open>Every event keeps the state consistent\<close>

lemma at_state_Inr_iff: "at_state s r f = Inr y \<longleftrightarrow> (\<exists>x. r = Inr x \<and> f x = Inr y)"
  by (auto simp: at_state_def split: sum.splits)

lemmas handler_simps = at_state_Inr_iff bind_ok_Inr_iff Let_def

lemma requireUint_nonneg: "requireUint args name ev = Inr v \<Longrightarrow> 0 \<le> v"
  by (auto simp: requireUint_def bind_ok_Inr_iff split: if_splits)

lemma requireInitialized_iff:
  "requireInitialized pool ev = Inr u \<longleftrightarrow> rp_initialized pool \<and> (\<exists>t. rp_tick pool = Some t)"
  by (auto simp: requireInitialized_def)

lemma changeLiquidity_Inr_covers:
  assumes "changeLiquidity k pool burn ow lo hi amount x y s = Inr s'" "0 \<le> amount"
  shows "covers s burn (positionKey (rp_poolAddress pool) ow lo hi) amount"
  using assms
  by (auto simp: changeLiquidity_def covers_def position_liquidity_def Let_def split: if_splits option.splits)

lemma applyLiquidityChange_Inr:
  assumes "applyLiquidityChange ia ga k pool args burn s = Inr s'"
  obtains ow lo hi amount x y t where "rp_tick pool = Some t" "lo < hi" "0 \<le> amount"
    "changeLiquidity k pool burn ow lo hi amount x y s = Inr s'"
proof -
  from assms obtain ow lo hi amount x y t ev where "rp_tick pool = Some t" "\<not> lo \<ge> hi"
    "requireUint args ''amount'' ev = Inr amount"
    "changeLiquidity k pool burn ow lo hi amount x y s = Inr s'"
    unfolding applyLiquidityChange_def Let_def at_state_Inr_iff requireInitialized_iff
    by (elim exE conjE) (auto split: if_split_asm simp: at_state_Inr_iff)
  then show thesis by (intro that) (auto dest: requireUint_nonneg)
qed

lemma applyLiquidityChange_consistent:
  assumes "consistent s" "map_of (st_pools s) k = Some pool"
    and "applyLiquidityChange ia ga k pool args burn s = Inr s'"
  shows "consistent s'"
  using assms(3)
proof (rule applyLiquidityChange_Inr)
  fix ow lo hi amount x y t
  assume h: "rp_tick pool = Some t" "lo < hi" "0 \<le> amount"
    "changeLiquidity k pool burn ow lo hi amount x y s = Inr s'"
  from changeLiquidity_consistent [OF assms(1,2) h(1,2) changeLiquidity_Inr_covers [OF h(4,3)], of x y]
  show ?thesis using h(4) by auto
qed

lemma consistent_pool:
  assumes "consistent s" "map_of (st_pools s) k = Some pool"
  shows "poolKey (rp_poolAddress pool) = k" "rp_initialized pool \<longleftrightarrow> rp_tick pool \<noteq> None"
    and "rp_tick pool = Some t \<Longrightarrow> rp_liquidity pool = active_at (triples k (st_positions s)) t"
    and "rp_tick pool = None \<Longrightarrow> active_at (triples k (st_positions s)) u = 0"
    and "\<exists>b. map_of (st_ticks s) k = Some b \<and> book_ok b \<and>
      tick_books.represents b (triples k (st_positions s))"
proof -
  have z: "\<forall>(lo, hi, L) \<in> set xs. L = 0 \<Longrightarrow> active_at xs u = 0" for xs
    by (induction xs) (auto simp: active_at_def triple_sum_def)
  have "pool_consistent s k pool" using assms by (simp add: consistent_def)
  then show "poolKey (rp_poolAddress pool) = k" "rp_initialized pool \<longleftrightarrow> rp_tick pool \<noteq> None"
    "rp_tick pool = Some t \<Longrightarrow> rp_liquidity pool = active_at (triples k (st_positions s)) t"
    "rp_tick pool = None \<Longrightarrow> active_at (triples k (st_positions s)) u = 0"
    "\<exists>b. map_of (st_ticks s) k = Some b \<and> book_ok b \<and>
      tick_books.represents b (triples k (st_positions s))"
    using z by (auto simp: pool_consistent_def)
qed

lemma pool_consistent_move:
  assumes "pool_consistent s k pool" "rp_poolAddress pool' = rp_poolAddress pool"
    and "rp_initialized pool'" "rp_tick pool' = Some t"
    and "rp_liquidity pool' = active_at (triples k (st_positions s)) t"
  shows "pool_consistent s k pool'"
  using assms by (simp add: pool_consistent_def)

lemma upd_pool_twice: "upd_pool key f (upd_pool key g s) = upd_pool key (\<lambda>p. f (g p)) s"
proof -
  have "AList.map_entry key f (AList.map_entry key g xs) = AList.map_entry key (\<lambda>p. f (g p)) xs" for xs
    by (induction xs) auto
  then show ?thesis by (simp add: upd_pool_def)
qed

lemma applyInitialize_consistent:
  assumes "consistent s" "map_of (st_pools s) k = Some pool" "applyInitialize k pool args s = Inr s'"
  shows "consistent s'"
proof -
  from assms(3) obtain price tick where n: "\<not> rp_initialized pool" and s': "s' = upd_pool k (\<lambda>p.
      p\<lparr>rp_initialized := True, rp_sqrtPriceX96 := Some price, rp_tick := Some tick, rp_liquidity := 0,
        rp_observationCardinalityNext := Some 1\<rparr>) s"
    by (auto simp: applyInitialize_def handler_simps upd_pool_twice split: if_splits)
  have "active_at (triples k (st_positions s)) tick = 0"
    using consistent_pool [OF assms(1,2)] n by simp
  then show ?thesis
    unfolding s' by (intro consistent_upd_pool [OF assms(1)]) (erule pool_consistent_move, auto)
qed

lemma crossed_liquidity:
  assumes "book_ok b" "tick_books.represents b xs"
    and "(if t \<le> u then netBetweenExclusiveInclusive b t u
      else bind_ok (netBetweenExclusiveInclusive b u t) (\<lambda>n. Inr (- n))) = Inr c"
  shows "active_at xs t + c = active_at xs u"
  using tick_books.crossed_active [OF assms(1,2), of t u] assms(3) by (simp add: active_iff)

lemma applySwap_Inr:
  assumes "consistent s" "map_of (st_pools s) k = Some pool" "applySwap k pool args ev s = Inr s'"
  obtains tick price where
    "s' = upd_pool k (\<lambda>p. p\<lparr>rp_sqrtPriceX96 := Some price, rp_tick := Some tick,
       rp_liquidity := active_at (triples k (st_positions s)) tick\<rparr>) s"
    "rp_initialized pool"
proof -
  note c = consistent_pool [OF assms(1,2)]
  obtain b where b: "map_of (st_ticks s) k = Some b" "book_ok b"
    "tick_books.represents b (triples k (st_positions s))" using c(5) by blast
  from assms(3) obtain t u crossed liq price where
    h: "rp_initialized pool" "rp_tick pool = Some t" "rp_liquidity pool + crossed = liq"
      "s' = upd_pool k (\<lambda>p. p\<lparr>rp_sqrtPriceX96 := Some price, rp_tick := Some u, rp_liquidity := liq\<rparr>) s"
    and cr: "(if t \<le> u then netBetweenExclusiveInclusive b t u
      else bind_ok (netBetweenExclusiveInclusive b u t) (\<lambda>n. Inr (- n))) = Inr crossed"
    by (auto simp: applySwap_def at_state_Inr_iff Let_def requireInitialized_iff c(1) b(1)
        split: if_splits)
  have "liq = active_at (triples k (st_positions s)) u"
    using crossed_liquidity [OF b(2,3) cr] c(3) [OF h(2)] h(3) by simp
  with h show thesis by (intro that) auto
qed

lemma applySwap_consistent:
  assumes "consistent s" "map_of (st_pools s) k = Some pool" "applySwap k pool args ev s = Inr s'"
  shows "consistent s'"
  using assms
proof (rule applySwap_Inr)
  fix tick price
  assume s': "s' = upd_pool k (\<lambda>p. p\<lparr>rp_sqrtPriceX96 := Some price, rp_tick := Some tick,
       rp_liquidity := active_at (triples k (st_positions s)) tick\<rparr>) s" and i: "rp_initialized pool"
  show ?thesis
    unfolding s' using assms(2) i
    by (intro consistent_upd_pool [OF assms(1)]) (erule pool_consistent_move, auto)
qed

lemma triples_same:
  assumes "map_of ps key = Some q" "rq_poolAddress q' = rq_poolAddress q" "rq_tickLower q' = rq_tickLower q"
    and "rq_tickUpper q' = rq_tickUpper q" "rq_liquidity q' = rq_liquidity q"
  shows "triples k (AList.update key q' ps) = triples k ps"
  using assms(1)
proof (induction ps)
  case Nil
  then show ?case by simp
next
  case (Cons kv ps)
  obtain k1 q1 where kv: "kv = (k1, q1)" by (cases kv)
  show ?case
  proof (cases "k1 = key")
    case True
    with Cons.prems have "q1 = q" by (simp add: kv)
    with True show ?thesis by (simp add: kv triples_def assms(2-5))
  next
    case False
    with Cons have "triples k (AList.update key q' ps) = triples k ps" by (simp add: kv)
    with False show ?thesis by (simp add: kv triples_def)
  qed
qed

lemma applyCollect_Inr:
  assumes "applyCollect ia ga pool args s = Inr s'"
  obtains "s' = s" | key q x y where "map_of (st_positions s) key = Some q"
    "s' = touched s key (q\<lparr>rq_collectedAmount0 := x, rq_collectedAmount1 := y\<rparr>)"
proof -
  from assms obtain ow lo hi x y where c: "(case map_of (st_positions s) (positionKey (rp_poolAddress pool) ow lo hi) of
      None \<Rightarrow> if x = 0 \<and> y = 0 then Inr s
        else Inl (''Collect references an unknown position '' @ positionKey (rp_poolAddress pool) ow lo hi, s)
    | Some q \<Rightarrow> Inr (touched s (positionKey (rp_poolAddress pool) ow lo hi)
        (q\<lparr>rq_collectedAmount0 := rq_collectedAmount0 q + x,
           rq_collectedAmount1 := rq_collectedAmount1 q + y\<rparr>))) = Inr s'"
    unfolding applyCollect_def Let_def at_state_Inr_iff touched_def put_position_frame by blast
  then show thesis
    by (cases "map_of (st_positions s) (positionKey (rp_poolAddress pool) ow lo hi)")
      (auto split: if_split_asm intro: that)
qed

lemma applyCollect_consistent:
  assumes c: "consistent s" and r: "applyCollect ia ga pool args s = Inr s'"
  shows "consistent s'"
proof -
  from r consider "s' = s" | key q x y where "map_of (st_positions s) key = Some q"
    "s' = touched s key (q\<lparr>rq_collectedAmount0 := x, rq_collectedAmount1 := y\<rparr>)"
    by (rule applyCollect_Inr)
  then show ?thesis
  proof cases
    case 2
    let ?q = "q\<lparr>rq_collectedAmount0 := x, rq_collectedAmount1 := y\<rparr>"
    have t: "triples k (st_positions s') = triples k (st_positions s)" for k
      using triples_same [OF 2(1), of ?q k] by (simp add: 2(2))
    have m: "map_of (st_positions s') = (map_of (st_positions s))(key \<mapsto> ?q)"
      by (simp add: 2(2) map_of_update)
    have "pool_consistent s' k p" if "map_of (st_pools s') k = Some p" for k p
      by (rule pool_consistent_frame [of s k p]) (use c that t in \<open>auto simp: consistent_def 2(2)\<close>)
    moreover have "distinct (map fst (st_positions s'))"
      using c by (simp add: 2(2) consistent_def distinct_update)
    moreover have "CHR '':'' \<notin> set (poolKey (rq_poolAddress r)) \<and> key' =
        positionKey (rq_poolAddress r) (rq_ownerAddress r) (rq_tickLower r) (rq_tickUpper r)"
      if "map_of (st_positions s') key' = Some r" for key' r
      using that c 2(1) by (auto simp: m consistent_def split: if_splits)
    ultimately show ?thesis by (simp add: consistent_def)
  qed (simp add: c)
qed

text \<open>Updates of a pool that its consistency does not see, counters and protocol fees.\<close>

definition plain :: "(ReplayPoolState \<Rightarrow> ReplayPoolState) \<Rightarrow> bool" where
  "plain f \<longleftrightarrow> (\<forall>p. rp_poolAddress (f p) = rp_poolAddress p \<and> rp_tick (f p) = rp_tick p \<and>
     rp_initialized (f p) = rp_initialized p \<and> rp_liquidity (f p) = rp_liquidity p)"

lemma consistent_upd_plain: "consistent s \<Longrightarrow> plain f \<Longrightarrow> consistent (upd_pool k f s)"
  by (rule consistent_upd_pool, assumption)
    (rule pool_consistent_frame, auto simp: plain_def)

lemma upd_pool_id: "upd_pool k (\<lambda>p. p) s = s"
proof -
  have "AList.map_entry k (\<lambda>p. p) xs = xs" for xs :: "(string \<times> ReplayPoolState) list"
    by (induction xs) auto
  then show ?thesis by (simp add: upd_pool_def)
qed

lemma applyCardinality_Inr:
  "applyCardinality k pool args s = Inr s' \<Longrightarrow> \<exists>f. s' = upd_pool k f s \<and> plain f"
  by (auto simp: applyCardinality_def handler_simps plain_def split: if_split_asm)

lemma applyFeeProtocol_Inr:
  assumes "applyFeeProtocol k pool args s = Inr s'"
  shows "\<exists>f. s' = upd_pool k f s \<and> plain f"
proof -
  from assms obtain x y where "s' = upd_pool k (\<lambda>p. p\<lparr>rp_feeProtocol0 := x, rp_feeProtocol1 := y\<rparr>) s"
    by (auto simp: applyFeeProtocol_def handler_simps upd_pool_twice split: if_split_asm)
  moreover have "plain (\<lambda>p. p\<lparr>rp_feeProtocol0 := x, rp_feeProtocol1 := y\<rparr>)" by (simp add: plain_def)
  ultimately show ?thesis by blast
qed

lemma applyEvent_Inr:
  assumes r: "applyEvent ia ga k pool args ev s = Inr s'"
  obtains (initialize) "applyInitialize k pool args s = Inr s'"
    | (liquidity) burn s1 f where "applyLiquidityChange ia ga k pool args burn s = Inr s1"
        "s' = upd_pool k f s1" "plain f"
    | (collect) s1 f where "applyCollect ia ga pool args s = Inr s1" "s' = upd_pool k f s1" "plain f"
    | (swap) s1 f where "applySwap k pool args ev s = Inr s1" "s' = upd_pool k f s1" "plain f"
    | (other) f where "s' = upd_pool k f s" "plain f"
proof -
  let ?n = "ev_eventName ev"
  consider "?n = ''Initialize''" | "?n = ''Mint''" | "?n = ''Burn''" | "?n = ''Collect''" | "?n = ''Swap''"
    | "?n = ''Flash''" | "?n = ''IncreaseObservationCardinalityNext''" | "?n = ''SetFeeProtocol''"
    | "?n = ''CollectProtocol''"
    using r by (simp add: applyEvent_def Let_def split: if_split_asm)
  then show thesis
  proof cases
    case 1
    with r show thesis by (intro initialize) (simp add: applyEvent_def)
  next
    case 2
    with r obtain s1 where "applyLiquidityChange ia ga k pool args False s = Inr s1"
      "s' = upd_pool k (\<lambda>p. p\<lparr>rp_mintCount := rp_mintCount p + 1\<rparr>) s1"
      by (auto simp: applyEvent_def bind_ok_Inr_iff)
    then show thesis by (rule liquidity) (simp add: plain_def)
  next
    case 3
    with r obtain s1 where "applyLiquidityChange ia ga k pool args True s = Inr s1"
      "s' = upd_pool k (\<lambda>p. p\<lparr>rp_burnCount := rp_burnCount p + 1\<rparr>) s1"
      by (auto simp: applyEvent_def bind_ok_Inr_iff)
    then show thesis by (rule liquidity) (simp add: plain_def)
  next
    case 4
    with r obtain s1 where "applyCollect ia ga pool args s = Inr s1"
      "s' = upd_pool k (\<lambda>p. p\<lparr>rp_collectCount := rp_collectCount p + 1\<rparr>) s1"
      by (auto simp: applyEvent_def bind_ok_Inr_iff)
    then show thesis by (rule collect) (simp add: plain_def)
  next
    case 5
    with r obtain s1 where "applySwap k pool args ev s = Inr s1"
      "s' = upd_pool k (\<lambda>p. p\<lparr>rp_swapCount := rp_swapCount p + 1\<rparr>) s1"
      by (auto simp: applyEvent_def bind_ok_Inr_iff)
    then show thesis by (rule swap) (simp add: plain_def)
  next
    case 6
    with r have "s' = upd_pool k (\<lambda>p. p\<lparr>rp_flashCount := rp_flashCount p + 1\<rparr>) s"
      by (auto simp: applyEvent_def at_state_Inr_iff)
    then show thesis by (rule other) (simp add: plain_def)
  next
    case 7
    with r show thesis using applyCardinality_Inr other by (fastforce simp: applyEvent_def)
  next
    case 8
    with r show thesis using applyFeeProtocol_Inr other by (fastforce simp: applyEvent_def)
  next
    case 9
    with r have "s' = upd_pool k (\<lambda>p. p) s"
      by (auto simp: applyEvent_def at_state_Inr_iff upd_pool_id)
    then show thesis by (rule other) (simp add: plain_def)
  qed
qed

lemma applyEvent_consistent:
  assumes "consistent s" "map_of (st_pools s) k = Some pool"
    and "applyEvent ia ga k pool args ev s = Inr s'"
  shows "consistent s'"
  using assms(3)
proof (cases rule: applyEvent_Inr)
  case initialize
  then show ?thesis by (rule applyInitialize_consistent [OF assms(1,2)])
next
  case (liquidity burn s1 f)
  then show ?thesis using applyLiquidityChange_consistent [OF assms(1,2)] consistent_upd_plain by blast
next
  case (collect s1 f)
  then show ?thesis using applyCollect_consistent [OF assms(1)] consistent_upd_plain by blast
next
  case (swap s1 f)
  then show ?thesis using applySwap_consistent [OF assms(1,2)] consistent_upd_plain by blast
next
  case (other f)
  then show ?thesis using assms(1) consistent_upd_plain by blast
qed

lemma apply_event_Inr:
  assumes "apply_event ia ga ev s = Inr s'"
  obtains pool args s1 f where "map_of (st_pools s) (poolKey (ev_poolAddress ev)) = Some pool"
    "applyEvent ia ga (poolKey (ev_poolAddress ev)) pool args ev s = Inr s1" "plain f"
    "s' = (upd_pool (poolKey (ev_poolAddress ev)) f s1)
       \<lparr>dirtyPools := set_add (poolKey (ev_poolAddress ev)) (dirtyPools s1)\<rparr>"
proof -
  let ?f = "\<lambda>p. p\<lparr>rp_eventCount := rp_eventCount p + 1, rp_lastEventBlock := Some (rc_blockNumber ev),
    rp_lastEventTransactionIndex := Some (rc_transactionIndex ev),
    rp_lastEventLogIndex := Some (rc_logIndex ev)\<rparr>"
  have "plain ?f" by (simp add: plain_def)
  with assms show thesis
    by (auto simp: apply_event_def handler_simps split: option.splits intro: that)
qed

lemma apply_event_consistent:
  assumes "consistent s" "apply_event ia ga ev s = Inr s'"
  shows "consistent s'"
  using assms(2)
proof (rule apply_event_Inr)
  fix pool args s1 f
  assume h: "map_of (st_pools s) (poolKey (ev_poolAddress ev)) = Some pool"
    "applyEvent ia ga (poolKey (ev_poolAddress ev)) pool args ev s = Inr s1" "plain f"
    "s' = (upd_pool (poolKey (ev_poolAddress ev)) f s1)
       \<lparr>dirtyPools := set_add (poolKey (ev_poolAddress ev)) (dirtyPools s1)\<rparr>"
  have "consistent s1" by (rule applyEvent_consistent [OF assms(1) h(1,2)])
  then show ?thesis by (simp add: h(3,4) consistent_dirty consistent_upd_plain)
qed

end
