(* ===== verification/Replay_Changes.thy ===== *)
theory Replay_Changes
  imports Replay_State
begin

section \<open>Runs of the replay and the changes they report\<close>

text \<open>
  Sequences of successfully applied events as an inductive reachability relation, and the
  bookkeeping of \<open>changes\<close>: the dirty and deleted sets name everything that differs from
  the state in which they were last cleared.  The properties of the replay stand here.
\<close>

inductive replay_reach ::
  "(string \<Rightarrow> bool) \<Rightarrow> (string \<Rightarrow> string) \<Rightarrow> V3ReplayState \<Rightarrow> V3ReplayState \<Rightarrow> bool"
  for isAddress getAddress s0
where
  start: "replay_reach isAddress getAddress s0 s0"
| step: "replay_reach isAddress getAddress s0 s \<Longrightarrow> apply_event isAddress getAddress ev s = Inr s' \<Longrightarrow>
    replay_reach isAddress getAddress s0 s'"

inductive_cases replay_reachE: "replay_reach ia ga s0 s"

lemma replay_reach_consistent: "replay_reach ia ga s0 s \<Longrightarrow> consistent s0 \<Longrightarrow> consistent s"
  by (induction rule: replay_reach.induct) (auto intro: apply_event_consistent)

subsection \<open>Fresh states\<close>

definition fresh_pool :: "ReplayPoolState \<Rightarrow> bool" where
  "fresh_pool p \<longleftrightarrow> \<not> rp_initialized p \<and> rp_tick p = None \<and> CHR '':'' \<notin> set (poolKey (rp_poolAddress p))"

lemma empty_book: "new_TickBook [] = Inr \<lparr>byTick = [], sortedTicks = []\<rparr>"
  by (simp add: new_TickBook_def)

lemma empty_book_ok: "book_ok \<lparr>byTick = [], sortedTicks = []\<rparr>"
  "tick_books.represents \<lparr>byTick = [], sortedTicks = []\<rparr> []"
  by (simp_all add: book_ok_def represents_iff proper_def book_gross_def book_net_def gross_at_def
      net_at_def triple_sum_def)

lemma new_pool_fresh:
  assumes "new_pool [] s p = Inr s'" "fresh_pool p" "consistent s" "st_positions s = []"
  shows "consistent s' \<and> st_positions s' = []"
proof -
  let ?k = "poolKey (rp_poolAddress p)" and ?e = "\<lparr>byTick = [], sortedTicks = []\<rparr>"
  have s': "s' = s\<lparr>st_pools := AList.update ?k p (st_pools s), st_ticks := AList.update ?k ?e (st_ticks s)\<rparr>"
    using assms(1) by (simp add: new_pool_def Let_def empty_book)
  have "pool_consistent s' k q" if "map_of (st_pools s') k = Some q" for k q
  proof (cases "k = ?k")
    case True
    with that have "q = p" by (simp add: s' map_of_update)
    then show ?thesis using assms(2,4) True empty_book_ok
      by (simp add: pool_consistent_def s' map_of_update fresh_pool_def triples_def)
  next
    case False
    with that have "map_of (st_pools s) k = Some q" by (simp add: s' map_of_update)
    then have "pool_consistent s k q" using assms(3) by (simp add: consistent_def)
    then show ?thesis by (rule pool_consistent_frame) (use False in \<open>simp_all add: s' map_of_update\<close>)
  qed
  then show ?thesis using assms(4) by (simp add: consistent_def s')
qed

lemma fresh_consistent:
  assumes "new_V3ReplayState pools [] [] = Inr s0" "\<forall>p\<in>set pools. fresh_pool p"
  shows "consistent s0"
proof -
  from assms(1) have f: "fold_res (new_pool []) \<lparr>st_pools = [], st_ticks = [], st_positions = [],
      dirtyPools = [], dirtyTicks = [], deletedTicks = [], dirtyPositions = []\<rparr> pools = Inr s0"
    by (auto simp: new_V3ReplayState_def bind_ok_Inr_iff)
  have "consistent s0 \<and> st_positions s0 = []"
  proof (rule fold_res_invariant [OF f])
    show "consistent s' \<and> st_positions s' = []"
      if "consistent s \<and> st_positions s = []" "p \<in> set pools" "new_pool [] s p = Inr s'" for s p s'
      using new_pool_fresh [OF that(3)] that assms(2) by blast
  qed (simp add: consistent_def)
  then show ?thesis by simp
qed

subsection \<open>Tracking of changes\<close>

definition book_lookup :: "V3ReplayState \<Rightarrow> string \<Rightarrow> int \<Rightarrow> ReplayTickState option" where
  "book_lookup s a t = (case map_of (st_ticks s) a of None \<Rightarrow> None | Some b \<Rightarrow> map_of (byTick b) t)"

definition tick_key :: "string \<Rightarrow> int \<Rightarrow> string" where
  "tick_key a t = a @ CHR '':'' # show_int t"

lemma tick_key_inj [simp]: "tick_key a t = tick_key a' t' \<longleftrightarrow> a = a' \<and> t = t'"
  using split_last_colon [of a "show_int t" a' "show_int t'"] by (auto simp: tick_key_def show_int_no_colon)

lemma tickKey_tick_key: "tickKey a t = tick_key (poolKey a) t"
  by (simp add: tickKey_def tick_key_def)

definition tracked :: "V3ReplayState \<Rightarrow> string set \<Rightarrow> V3ReplayState \<Rightarrow> bool" where
  "tracked s0 X s \<longleftrightarrow>
     (\<forall>a t x. book_lookup s a t = Some x \<longrightarrow> book_lookup s0 a t \<noteq> Some x \<longrightarrow> tick_key a t \<in> set (dirtyTicks s)) \<and>
     (\<forall>a t. book_lookup s a t = None \<longrightarrow> book_lookup s0 a t \<noteq> None \<longrightarrow>
        (\<exists>addr. map_of (deletedTicks s) (tick_key a t) = Some (addr, t) \<and> poolKey addr = a)) \<and>
     (\<forall>key. map_of (st_positions s) key \<noteq> map_of (st_positions s0) key \<longrightarrow> key \<in> set (dirtyPositions s)) \<and>
     (\<forall>k. k \<notin> X \<longrightarrow> map_of (st_pools s) k \<noteq> map_of (st_pools s0) k \<longrightarrow> k \<in> set (dirtyPools s))"

lemma tracked_start: "tracked s X (clearChanges s)"
  by (simp add: tracked_def clearChanges_def book_lookup_def)

lemma tracked_upd_pool: "tracked s0 {k} s \<Longrightarrow> tracked s0 {k} (upd_pool k f s)"
  by (simp add: tracked_def book_lookup_def map_of_upd_pool)

lemma tracked_touched: "tracked s0 X s \<Longrightarrow> tracked s0 X (touched s key q)"
  by (simp add: tracked_def book_lookup_def touched_def map_of_update)

lemma updateTick_Inr_E:
  assumes "updateTick a t d up s = Inr s'"
  obtains b b' r where "map_of (st_ticks s) (poolKey a) = Some b" "book_update b a t d up = Inr (b', r)"
    "s' = (let s1 = s\<lparr>st_ticks := AList.update (poolKey a) b' (st_ticks s)\<rparr> in
       case r of None \<Rightarrow> s1\<lparr>dirtyTicks := set_del (tick_key (poolKey a) t) (dirtyTicks s),
                   deletedTicks := AList.update (tick_key (poolKey a) t) (a, t) (deletedTicks s)\<rparr>
       | Some _ \<Rightarrow> s1\<lparr>deletedTicks := AList.delete (tick_key (poolKey a) t) (deletedTicks s),
                   dirtyTicks := set_add (tick_key (poolKey a) t) (dirtyTicks s)\<rparr>)"
  using assms
  by (auto simp: updateTick_def Let_def at_state_Inr_iff tickKey_tick_key split: option.splits)

lemma book_update_other:
  assumes "book_update b a t d up = Inr (b', r)"
  shows "map_of (byTick b') t = r" "x \<noteq> t \<Longrightarrow> map_of (byTick b') x = map_of (byTick b) x"
  using assms
  by (auto simp: book_update_def Let_def map_of_delete map_of_update split: if_split_asm option.splits)

lemma updateTick_tracked:
  assumes "updateTick a t d up s = Inr s'" "tracked s0 X s"
  shows "tracked s0 X s'"
  using assms(1)
proof (rule updateTick_Inr_E)
  fix b b' r
  let ?k = "poolKey a"
  assume b: "map_of (st_ticks s) ?k = Some b" and u: "book_update b a t d up = Inr (b', r)"
    and s': "s' = (let s1 = s\<lparr>st_ticks := AList.update ?k b' (st_ticks s)\<rparr> in
       case r of None \<Rightarrow> s1\<lparr>dirtyTicks := set_del (tick_key ?k t) (dirtyTicks s),
                   deletedTicks := AList.update (tick_key ?k t) (a, t) (deletedTicks s)\<rparr>
       | Some _ \<Rightarrow> s1\<lparr>deletedTicks := AList.delete (tick_key ?k t) (deletedTicks s),
                   dirtyTicks := set_add (tick_key ?k t) (dirtyTicks s)\<rparr>)"
  have l: "book_lookup s' c x = (if c = ?k \<and> x = t then r else book_lookup s c x)" for c x
    using book_update_other [OF u] b
    by (cases r) (auto simp: s' Let_def book_lookup_def map_of_update)
  have frame: "st_positions s' = st_positions s" "st_pools s' = st_pools s"
    "dirtyPositions s' = dirtyPositions s" "dirtyPools s' = dirtyPools s"
    by (cases r; simp add: s' Let_def)+
  show ?thesis
  proof (cases r)
    case None
    then have "dirtyTicks s' = set_del (tick_key ?k t) (dirtyTicks s)"
      "map_of (deletedTicks s') = (map_of (deletedTicks s))(tick_key ?k t \<mapsto> (a, t))"
      by (simp_all add: s' Let_def map_of_update)
    with assms(2) None show ?thesis by (auto simp: tracked_def l frame split: if_split_asm)
  next
    case (Some y)
    then have "dirtyTicks s' = set_add (tick_key ?k t) (dirtyTicks s)"
      "map_of (deletedTicks s') = (map_of (deletedTicks s))(tick_key ?k t := None)"
      by (simp_all add: s' Let_def map_of_delete)
    with assms(2) Some show ?thesis by (auto simp: tracked_def l frame split: if_split_asm)
  qed
qed

lemma changeLiquidity_Inr:
  assumes "changeLiquidity k pool burn ow lo hi amount x y s = Inr s'"
  obtains key q d s4 s5 where "updateTick (rp_poolAddress pool) lo d False (touched s key q) = Inr s4"
    "updateTick (rp_poolAddress pool) hi d True s4 = Inr s5" "s' = s5 \<or> (\<exists>f. s' = upd_pool k f s5)"
proof (cases "map_of (st_positions s) (positionKey (rp_poolAddress pool) ow lo hi)")
  case None
  with assms show thesis
    by (auto simp: changeLiquidity_def Let_def bind_ok_Inr_iff touched_def split: if_split_asm option.splits
        intro: that)
next
  case (Some p)
  with assms show thesis
    by (auto simp: changeLiquidity_def Let_def bind_ok_Inr_iff touched_def split: if_split_asm option.splits
        intro: that)
qed

lemma changeLiquidity_tracked:
  assumes "changeLiquidity k pool burn ow lo hi amount x y s = Inr s'" "tracked s0 {k} s"
  shows "tracked s0 {k} s'"
  using assms(1)
  by (rule changeLiquidity_Inr)
    (use assms(2) in \<open>blast dest: updateTick_tracked intro: tracked_touched tracked_upd_pool\<close>)

lemma applyEvent_tracked:
  assumes "applyEvent ia ga k pool args ev s = Inr s'" "tracked s0 {k} s"
  shows "tracked s0 {k} s'"
  using assms(1)
proof (cases rule: applyEvent_Inr)
  case initialize
  then obtain f where "s' = upd_pool k f s"
    by (auto simp: applyInitialize_def handler_simps upd_pool_twice split: if_split_asm)
  with assms(2) show ?thesis by (simp add: tracked_upd_pool)
next
  case (liquidity burn s1 f)
  from liquidity(1) show ?thesis
    by (rule applyLiquidityChange_Inr)
      (use liquidity(2) assms(2) in \<open>simp add: changeLiquidity_tracked tracked_upd_pool\<close>)
next
  case (collect s1 f)
  from collect(1) show ?thesis
    by (rule applyCollect_Inr)
      (use collect(2) assms(2) in \<open>simp_all add: tracked_touched tracked_upd_pool\<close>)
next
  case (swap s1 f)
  then obtain g where "s1 = upd_pool k g s"
    by (auto simp: applySwap_def at_state_Inr_iff Let_def split: if_split_asm option.splits)
  with swap assms(2) show ?thesis by (simp add: tracked_upd_pool)
next
  case (other f)
  with assms(2) show ?thesis by (simp add: tracked_upd_pool)
qed

lemma apply_event_tracked:
  assumes "apply_event ia ga ev s = Inr s'" "tracked s0 {} s"
  shows "tracked s0 {} s'"
  using assms(1)
proof (rule apply_event_Inr)
  fix pool args s1 f
  let ?k = "poolKey (ev_poolAddress ev)"
  assume h: "applyEvent ia ga ?k pool args ev s = Inr s1"
    "s' = (upd_pool ?k f s1)\<lparr>dirtyPools := set_add ?k (dirtyPools s1)\<rparr>"
  have "tracked s0 {?k} s" using assms(2) by (simp add: tracked_def)
  from applyEvent_tracked [OF h(1) this] have "tracked s0 {?k} (upd_pool ?k f s1)"
    by (rule tracked_upd_pool)
  then show ?thesis unfolding h(2) tracked_def book_lookup_def by simp blast
qed

lemma replay_reach_tracked:
  "replay_reach ia ga s1 s \<Longrightarrow> tracked s0 {} s1 \<Longrightarrow> tracked s0 {} s"
  by (induction rule: replay_reach.induct) (auto intro: apply_event_tracked)

lemma dirty_tick_found:
  assumes "book_lookup s a t = Some x"
  shows "dirty_tick_state s (tick_key a t) = [x]"
  using assms
  by (auto simp: dirty_tick_state_def tick_key_def book_lookup_def book_get_def parse_show_int
      split: option.splits)

subsection \<open>Properties\<close>

text \<open>The liquidity of the positions of pool \<open>k\<close> whose range contains the tick \<open>t\<close>.\<close>

definition liquidity_in_range :: "V3ReplayState \<Rightarrow> string \<Rightarrow> int \<Rightarrow> int" where
  "liquidity_in_range s k t =
     (\<Sum>(_, q)\<leftarrow>st_positions s.
        if poolKey (rq_poolAddress q) = k \<and> rq_tickLower q \<le> t \<and> t < rq_tickUpper q
        then rq_liquidity q else 0)"

lemma liquidity_in_range_active: "liquidity_in_range s k t = active_at (triples k (st_positions s)) t"
proof -
  have "(\<Sum>(_, q)\<leftarrow>ps. if poolKey (rq_poolAddress q) = k \<and> rq_tickLower q \<le> t \<and> t < rq_tickUpper q
        then rq_liquidity q else 0) = active_at (triples k ps) t" for ps
    by (induction ps) (auto simp: triples_def active_at_def triple_sum_def)
  then show ?thesis by (simp add: liquidity_in_range_def)
qed

text \<open>
  C1: after any sequence of successfully applied events from freshly registered pools, every
  initialized pool's active liquidity is the total liquidity of the positions whose range
  contains its tick, its tick book is well formed, and at each tick the book's net liquidity
  is what the positions starting there add minus what those ending there remove.
\<close>

theorem replay_liquidity_invariant:
  assumes "new_V3ReplayState pools [] [] = Inr s0" "\<forall>p\<in>set pools. fresh_pool p"
    and "replay_reach isAddress getAddress s0 s"
    and "map_of (st_pools s) k = Some pool" "rp_tick pool = Some t"
  shows "rp_liquidity pool = liquidity_in_range s k t \<and>
    (\<exists>b. map_of (st_ticks s) k = Some b \<and> book_ok b \<and>
      (\<forall>u. book_net b u = liquidity_in_range s k u - liquidity_in_range s k (u - 1)))"
proof -
  have c: "consistent s" by (rule replay_reach_consistent [OF assms(3) fresh_consistent [OF assms(1,2)]])
  note cp = consistent_pool [OF c assms(4)]
  obtain b where b: "map_of (st_ticks s) k = Some b" "book_ok b"
    "tick_books.represents b (triples k (st_positions s))" using cp(5) by blast
  have "book_net b u = active_at (triples k (st_positions s)) u - active_at (triples k (st_positions s)) (u - 1)" for u
  proof -
    have "{u - 1<..u} = {u}" by auto
    then have "netBetweenExclusiveInclusive b (u - 1) u = Inr (book_net b u)"
      by (simp add: netBetween_sum [OF b(2)])
    then show ?thesis using crossed_liquidity [OF b(2,3), of "u - 1" u] by simp
  qed
  then show ?thesis using b cp(3) [OF assms(5)] by (simp add: liquidity_in_range_active)
qed

text \<open>
  C26: in a consistent state a swap event is accepted exactly when the liquidity it reports
  is the liquidity of the positions whose range contains its tick: the check against the
  crossed ticks misses no mismatch and rejects no genuine swap.
\<close>

theorem swap_accepted_iff_liquidity_matches:
  assumes "consistent s" "map_of (st_pools s) k = Some pool" "rp_tick pool = Some t"
    and "replay_requireTick args ''tick'' ''Swap'' = Inr u"
    and "requireUint args ''liquidity'' ''Swap'' = Inr L"
    and "requireUint args ''sqrtPriceX96'' ''Swap'' = Inr price"
  shows "(\<exists>s'. applySwap k pool args ev s = Inr s') \<longleftrightarrow> L = liquidity_in_range s k u"
proof -
  note cp = consistent_pool [OF assms(1,2)]
  obtain b where b: "map_of (st_ticks s) k = Some b" "book_ok b"
    "tick_books.represents b (triples k (st_positions s))" using cp(5) by blast
  let ?m = "if t \<le> u then netBetweenExclusiveInclusive b t u
      else bind_ok (netBetweenExclusiveInclusive b u t) (\<lambda>n. Inr (- n))"
  obtain c where c: "?m = Inr c" using netBetween_sum [OF b(2)] by (cases "t \<le> u") auto
  have L: "rp_liquidity pool + c = liquidity_in_range s k u"
    using crossed_liquidity [OF b(2,3) c] cp(3) [OF assms(3)] by (simp add: liquidity_in_range_active)
  have "rp_initialized pool" using cp(2) assms(3) by simp
  then have "(\<exists>s'. applySwap k pool args ev s = Inr s') \<longleftrightarrow> rp_liquidity pool + c = L"
    using assms(3-6) b(1) cp(1) c
    by (cases "t \<le> u") (simp_all add: applySwap_def at_state_Inr_iff requireInitialized_iff Let_def)
  then show ?thesis using L by auto
qed

text \<open>
  In a consistent state a mint always succeeds and a burn succeeds exactly when its
  position is known and holds the burned liquidity: the underflow checks on the ticks and on
  the active liquidity, and the check that a cleared tick has no net liquidity, never fire.
\<close>

theorem liquidity_change_accepted_iff:
  assumes "consistent s" "map_of (st_pools s) k = Some pool" "rp_tick pool = Some t"
    and "lo < hi" "0 \<le> amount"
  shows "(\<exists>s'. changeLiquidity k pool burn owner lo hi amount x y s = Inr s') \<longleftrightarrow>
    (burn \<longrightarrow> (\<exists>q. map_of (st_positions s) (positionKey (rp_poolAddress pool) owner lo hi) = Some q \<and>
      amount \<le> rq_liquidity q))"
proof -
  let ?key = "positionKey (rp_poolAddress pool) owner lo hi"
  have "covers s burn ?key amount \<longleftrightarrow>
      (burn \<longrightarrow> (\<exists>q. map_of (st_positions s) ?key = Some q \<and> amount \<le> rq_liquidity q))"
    using assms(5) by (auto simp: covers_def position_liquidity_def)
  then show ?thesis
    using changeLiquidity_consistent [OF assms(1-4)] changeLiquidity_Inr_covers assms(5) by blast
qed

text \<open>
  \<open>changes\<close> is complete: after any sequence of successful events since the changes
  were last cleared, every tick, position and pool that differs from what it was then is in
  the reported lists, and every tick that was there and is gone is among the deleted ones.
\<close>

theorem changes_complete:
  assumes "replay_reach isAddress getAddress (clearChanges s0) s"
  shows "(\<forall>a t x. book_lookup s a t = Some x \<longrightarrow> book_lookup s0 a t = Some x \<or> x \<in> set (ch_ticks (changes s))) \<and>
    (\<forall>a t. book_lookup s a t = None \<longrightarrow> book_lookup s0 a t = None \<or>
      (\<exists>addr. poolKey addr = a \<and> (addr, t) \<in> set (ch_deletedTicks (changes s)))) \<and>
    (\<forall>key q. map_of (st_positions s) key = Some q \<longrightarrow>
      map_of (st_positions s0) key = Some q \<or> q \<in> set (ch_positions (changes s))) \<and>
    (\<forall>k p. map_of (st_pools s) k = Some p \<longrightarrow>
      map_of (st_pools s0) k = Some p \<or> p \<in> set (ch_pools (changes s)))"
proof -
  have tr: "tracked s0 {} s" by (rule replay_reach_tracked [OF assms tracked_start])
  have ticks: "x \<in> set (ch_ticks (changes s))"
    if "book_lookup s a t = Some x" "tick_key a t \<in> set (dirtyTicks s)" for a t x
    using that dirty_tick_found [OF that(1)] by (force simp: changes_def)
  have del: "(addr, t) \<in> set (ch_deletedTicks (changes s))"
    if "map_of (deletedTicks s) key = Some (addr, t)" for key addr t
    using map_of_SomeD [OF that] by (force simp: changes_def)
  have pos: "q \<in> set (ch_positions (changes s))"
    if "map_of (st_positions s) key = Some q" "key \<in> set (dirtyPositions s)" for key q
    using that by (force simp: changes_def)
  have pools: "p \<in> set (ch_pools (changes s))"
    if "map_of (st_pools s) k = Some p" "k \<in> set (dirtyPools s)" for k p
    using that by (force simp: changes_def)
  show ?thesis
  proof (intro conjI allI impI)
    fix a t x assume "book_lookup s a t = Some x"
    then show "book_lookup s0 a t = Some x \<or> x \<in> set (ch_ticks (changes s))"
      using tr ticks unfolding tracked_def by blast
  next
    fix a t assume "book_lookup s a t = None"
    then show "book_lookup s0 a t = None \<or>
        (\<exists>addr. poolKey addr = a \<and> (addr, t) \<in> set (ch_deletedTicks (changes s)))"
      using tr del unfolding tracked_def by blast
  next
    fix key q assume "map_of (st_positions s) key = Some q"
    then show "map_of (st_positions s0) key = Some q \<or> q \<in> set (ch_positions (changes s))"
      using tr pos unfolding tracked_def by metis
  next
    fix k p assume "map_of (st_pools s) k = Some p"
    then show "map_of (st_pools s0) k = Some p \<or> p \<in> set (ch_pools (changes s))"
      using tr pools unfolding tracked_def by (metis empty_iff)
  qed
qed

subsection \<open>A replayed pool\<close>

definition sample_pool_state :: ReplayPoolState where
  "sample_pool_state = \<lparr>rp_poolAddress = ''0xp'', rp_chainId = 1, rp_rwaSymbol = ''NVDA'', rp_fee = 3000,
     rp_initialized = False, rp_sqrtPriceX96 = None, rp_tick = None, rp_liquidity = 0,
     rp_observationCardinalityNext = None, rp_feeProtocol0 = 0, rp_feeProtocol1 = 0,
     rp_eventCount = 0, rp_mintCount = 0, rp_burnCount = 0, rp_swapCount = 0, rp_collectCount = 0,
     rp_flashCount = 0, rp_lastEventBlock = None, rp_lastEventTransactionIndex = None,
     rp_lastEventLogIndex = None\<rparr>"

definition sample_event :: "string \<Rightarrow> int \<Rightarrow> js_args \<Rightarrow> StoredReplayEvent" where
  "sample_event name n args = \<lparr>rc_blockNumber = n, rc_blockHash = ''h'', rc_transactionHash = ''t'',
     rc_transactionIndex = 0, rc_logIndex = 0, ev_poolAddress = ''0xp'', ev_eventName = name,
     ev_args = JObj args\<rparr>"

definition sample_events :: "StoredReplayEvent list" where
  "sample_events =
     [sample_event ''Initialize'' 1 [(''sqrtPriceX96'', JStr ''79228162514264337593543950336''), (''tick'', JInt 0)],
      sample_event ''Mint'' 2 [(''owner'', JStr ''0xa''), (''tickLower'', JInt (- 60)), (''tickUpper'', JInt 60),
        (''amount'', JStr ''500''), (''amount0'', JStr ''3''), (''amount1'', JStr ''3'')],
      sample_event ''Swap'' 3 [(''tick'', JInt 10), (''liquidity'', JStr ''500''), (''sqrtPriceX96'', JStr ''7'')]]"

definition sample_start :: V3ReplayState where
  "sample_start = \<lparr>st_pools = [(''0xp'', sample_pool_state)],
     st_ticks = [(''0xp'', \<lparr>byTick = [], sortedTicks = []\<rparr>)], st_positions = [], dirtyPools = [],
     dirtyTicks = [], deletedTicks = [], dirtyPositions = []\<rparr>"

definition replayed_run :: "V3ReplayState act" where
  "replayed_run = fold_res (\<lambda>s e. apply_event (\<lambda>_. True) (\<lambda>a. a) e s) sample_start sample_events"

lemmas replay_eval = apply_event_def applyEvent_def applyInitialize_def applyLiquidityChange_def
  changeLiquidity_def applySwap_def at_state_def requireInitialized_def requireArgs_def requireBigInt_def
  requireUint_def requireInteger_def replay_requireTick_def requireAddress_def upd_pool_def put_position_def
  updateTick_def book_update_def change_position_def empty_position_def netBetweenExclusiveInclusive_def
  book_lowerBound_def book_lower_bound_loop.simps set_add_def set_del_def safe_integer_def replay_MIN_TICK_def
  replay_MAX_TICK_def parse_int_def parse_nat_def digits_only_def is_digit_def poolKey_def tickKey_def
  positionKey_def lower_def lower_char_def show_int_def show_nat.simps show_digit_def Let_def

lemma replayed_run_facts:
  "\<exists>s pool q x. replayed_run = Inr s \<and> map_of (st_pools s) ''0xp'' = Some pool \<and> rp_tick pool = Some 10 \<and>
     rp_liquidity pool = 500 \<and> rp_poolAddress pool = ''0xp'' \<and>
     map_of (st_positions s) (positionKey ''0xp'' ''0xa'' (- 60) 60) = Some q \<and> rq_liquidity q = 500 \<and>
     book_lookup s ''0xp'' 60 = Some x \<and> rt_liquidityNet x = - 500 \<and>
     liquidity_in_range s ''0xp'' 70 = 0"
  by (simp add: replayed_run_def sample_events_def sample_event_def sample_start_def sample_pool_state_def
      replay_eval book_lookup_def liquidity_in_range_def)

lemma fold_reach:
  "fold_res (\<lambda>s e. apply_event ia ga e s) s evs = Inr s' \<Longrightarrow> replay_reach ia ga s0 s \<Longrightarrow> replay_reach ia ga s0 s'"
  by (induction evs arbitrary: s) (auto split: sum.splits intro: replay_reach.step)

lemma sample_start_new: "new_V3ReplayState [sample_pool_state] [] [] = Inr sample_start"
  and sample_fresh: "\<forall>p\<in>set [sample_pool_state]. fresh_pool p"
  and sample_clear: "clearChanges sample_start = sample_start"
  by (simp_all add: new_V3ReplayState_def new_pool_def empty_book sample_start_def sample_pool_state_def
      poolKey_def lower_def lower_char_def Let_def fresh_pool_def clearChanges_def)

lemma sample_reach: "replayed_run = Inr s \<Longrightarrow> replay_reach (\<lambda>_. True) (\<lambda>a. a) sample_start s"
  using fold_reach replay_reach.start unfolding replayed_run_def by blast

lemma sample_consistent: "replayed_run = Inr s \<Longrightarrow> consistent s"
  using replay_reach_consistent [OF sample_reach fresh_consistent [OF sample_start_new sample_fresh]] .

theorem replay_liquidity_invariant_witness:
  "\<exists>s pool. replayed_run = Inr s \<and> map_of (st_pools s) ''0xp'' = Some pool \<and>
     rp_liquidity pool = 500 \<and> liquidity_in_range s ''0xp'' 10 = 500"
proof -
  obtain s pool where r: "replayed_run = Inr s"
    and p: "map_of (st_pools s) ''0xp'' = Some pool" "rp_tick pool = Some 10" "rp_liquidity pool = 500"
    using replayed_run_facts by blast
  from replay_liquidity_invariant [OF sample_start_new sample_fresh sample_reach [OF r] p(1,2)] r p
  show ?thesis by auto
qed

theorem swap_accepted_iff_liquidity_matches_witness:
  "\<exists>s pool. replayed_run = Inr s \<and> map_of (st_pools s) ''0xp'' = Some pool \<and>
     (\<exists>s'. applySwap ''0xp'' pool [(''tick'', JInt 70), (''liquidity'', JStr ''0''), (''sqrtPriceX96'', JStr ''7'')]
        (sample_event ''Swap'' 4 []) s = Inr s') \<and>
     \<not> (\<exists>s'. applySwap ''0xp'' pool [(''tick'', JInt 70), (''liquidity'', JStr ''5''), (''sqrtPriceX96'', JStr ''7'')]
        (sample_event ''Swap'' 4 []) s = Inr s')"
proof -
  let ?args = "\<lambda>L. [(''tick'', JInt 70), (''liquidity'', JStr L), (''sqrtPriceX96'', JStr ''7'')]"
  obtain s pool where r: "replayed_run = Inr s" "liquidity_in_range s ''0xp'' 70 = 0"
    and p: "map_of (st_pools s) ''0xp'' = Some pool" "rp_tick pool = Some 10"
    using replayed_run_facts by blast
  have a: "replay_requireTick (?args L) ''tick'' ''Swap'' = Inr 70"
    "requireUint (?args L) ''sqrtPriceX96'' ''Swap'' = Inr 7"
    "requireUint (?args ''0'') ''liquidity'' ''Swap'' = Inr 0"
    "requireUint (?args ''5'') ''liquidity'' ''Swap'' = Inr 5" for L
    by (simp_all add: replay_eval)
  note th = swap_accepted_iff_liquidity_matches [OF sample_consistent [OF r(1)] p a(1) _ a(2)]
  from th [OF a(3), of "sample_event ''Swap'' 4 []"] th [OF a(4), of "sample_event ''Swap'' 4 []"] p(1) r
  show ?thesis by auto
qed

theorem liquidity_change_accepted_iff_witness:
  "\<exists>s pool. replayed_run = Inr s \<and> map_of (st_pools s) ''0xp'' = Some pool \<and>
     (\<exists>s'. changeLiquidity ''0xp'' pool True ''0xa'' (- 60) 60 500 0 0 s = Inr s') \<and>
     \<not> (\<exists>s'. changeLiquidity ''0xp'' pool True ''0xa'' (- 60) 60 501 0 0 s = Inr s')"
proof -
  obtain s pool q where r: "replayed_run = Inr s"
    and p: "map_of (st_pools s) ''0xp'' = Some pool" "rp_tick pool = Some 10" "rp_poolAddress pool = ''0xp''"
    and q: "map_of (st_positions s) (positionKey ''0xp'' ''0xa'' (- 60) 60) = Some q" "rq_liquidity q = 500"
    using replayed_run_facts by blast
  note th = liquidity_change_accepted_iff [OF sample_consistent [OF r] p(1,2), where lo = "- 60" and hi = 60
      and burn = True and owner = "''0xa''" and x = 0 and y = 0]
  from th [of 500] th [of 501] p q r show ?thesis by auto
qed

theorem changes_complete_witness:
  "\<exists>s x. replayed_run = Inr s \<and> x \<in> set (ch_ticks (changes s)) \<and> rt_liquidityNet x = - 500"
proof -
  obtain s x where r: "replayed_run = Inr s"
    and x: "book_lookup s ''0xp'' 60 = Some x" "rt_liquidityNet x = - 500"
    using replayed_run_facts by blast
  have c: "replay_reach (\<lambda>_. True) (\<lambda>a. a) (clearChanges sample_start) s"
    using sample_reach [OF r] sample_clear by simp
  have "book_lookup sample_start ''0xp'' 60 = None"
    by (simp add: book_lookup_def sample_start_def)
  with changes_complete [OF c] x r show ?thesis by fastforce
qed

end
