(* ===== verification/Range_Sim.thy ===== *)
theory Range_Sim
  imports Principal Fee_Accounting
begin

section \<open>Ranges, quote values and sizing\<close>

text \<open>
  \<open>src/simulator/math.ts\<close> and the records of \<open>src/simulator/domain.ts\<close> that both
  simulators share.  The locale \<open>budget_search\<close> is the contract of the bisection that sizes
  a position: a value that does not decrease with the liquidity.
\<close>

definition Q192 :: int where "Q192 = 2 ^ 192"

record RangePoolCheckpoint =
  feeGrowthGlobal0X128 :: int
  feeGrowthGlobal1X128 :: int
  cp_liquidity :: int
  cp_sqrtPriceX96 :: int
  cp_tick :: int

definition tickSpacingForFee :: "int \<Rightarrow> int res" where
  "tickSpacingForFee fee =
     (case map_of [(100, 1), (500, 10), (3000, 60), (10000, 200)] fee of
        None \<Rightarrow> Inl (''Unsupported canonical fee tier '' @ show_int fee)
      | Some spacing \<Rightarrow> Inr spacing)"

record TickBounds =
  tb_tickLower :: int
  tb_tickUpper :: int

definition centeredRange :: "int \<Rightarrow> int \<Rightarrow> int \<Rightarrow> TickBounds res" where
  "centeredRange currentTick halfWidthSpacings tickSpacing =
     (if \<not> safe_integer halfWidthSpacings \<or> halfWidthSpacings \<le> 0
      then Inl ''Range half-width must be a positive safe integer''
      else if \<not> safe_integer tickSpacing \<or> tickSpacing \<le> 0
      then Inl ''Tick spacing must be a positive safe integer''
      else
        let center = currentTick div tickSpacing * tickSpacing;
            offset = halfWidthSpacings * tickSpacing
        in
        if \<not> safe_integer offset then Inl ''Range half-width exceeds the safe tick domain''
        else
          let lo = center - offset; hi = center + offset in
          if lo < MIN_TICK \<or> hi > MAX_TICK \<or> lo \<ge> hi \<or> currentTick < lo \<or> currentTick \<ge> hi
          then Inl ''Centered range is outside the canonical tick domain''
          else Inr \<lparr>tb_tickLower = lo, tb_tickUpper = hi\<rparr>)"

definition validateTickAndSqrtPrice :: "RangePoolCheckpoint \<Rightarrow> unit res" where
  "validateTickAndSqrtPrice p =
     (if \<not> safe_integer (cp_tick p) \<or> cp_tick p < MIN_TICK \<or> cp_tick p > MAX_TICK
      then Inl (''Pool tick '' @ show_int (cp_tick p) @ '' is outside the canonical range'')
      else if cp_sqrtPriceX96 p < MIN_SQRT_RATIO \<or> cp_sqrtPriceX96 p \<ge> MAX_SQRT_RATIO
      then Inl ''Pool sqrt price is outside the canonical range''
      else
        bind_ok (sqrtRatioAtTick (cp_tick p)) (\<lambda>atTick.
        bind_ok (if cp_tick p = MAX_TICK then Inr MAX_SQRT_RATIO else sqrtRatioAtTick (cp_tick p + 1)) (\<lambda>beforeNext.
          if cp_sqrtPriceX96 p < atTick \<or> cp_sqrtPriceX96 p \<ge> beforeNext
          then Inl ''Pool tick and sqrt price disagree'' else Inr ())))"

text \<open>The three token addresses of a pool with its quote token.\<close>

record quote_tokens =
  qt_quoteToken :: string
  qt_token0 :: string
  qt_token1 :: string

definition quoteIsToken0 :: "quote_tokens \<Rightarrow> bool" where
  "quoteIsToken0 t \<longleftrightarrow> lower (qt_quoteToken t) = lower (qt_token0 t)"

definition quoteIsToken1 :: "quote_tokens \<Rightarrow> bool" where
  "quoteIsToken1 t \<longleftrightarrow> lower (qt_quoteToken t) = lower (qt_token1 t)"

definition quoteValue :: "int \<Rightarrow> int \<Rightarrow> quote_tokens \<Rightarrow> int \<Rightarrow> int res" where
  "quoteValue a0 a1 t sqrtPriceX96 =
     (if a0 < 0 \<or> a1 < 0 then Inl ''Token amounts must be nonnegative''
      else if sqrtPriceX96 \<le> 0 then Inl ''Pool sqrt price must be positive''
      else if quoteIsToken0 t = quoteIsToken1 t then Inl ''Exactly one pool token must be the quote token''
      else
        let priceX192 = sqrtPriceX96 * sqrtPriceX96 in
        Inr (if quoteIsToken0 t then a0 + (a1 * Q192) sdiv priceX192
             else a1 + (a0 * priceX192) sdiv Q192))"

definition valueForLiquidity :: "quote_tokens \<Rightarrow> int \<Rightarrow> TickBounds \<Rightarrow> int \<Rightarrow> int res" where
  "valueForLiquidity t price rg L =
     bind_ok (principalAmounts L price (tb_tickLower rg) (tb_tickUpper rg)) (\<lambda>principal.
       quoteValue (amount0 principal) (amount1 principal) t price)"

text \<open>The bisection; \<open>lower + (upper - lower + 1n) / 2n\<close> lies above \<open>lower\<close>.\<close>

function size_search :: "(int \<Rightarrow> int res) \<Rightarrow> int \<Rightarrow> int \<Rightarrow> int \<Rightarrow> int res" where
  "size_search value budget lo up =
     (if lo < up then
        let middle = lo + (up - lo + 1) div 2 in
        bind_ok (value middle) (\<lambda>v.
          if v \<le> budget then size_search value budget middle up
          else size_search value budget lo (middle - 1))
      else Inr lo)"
  by auto
termination by (relation "measure (\<lambda>(_, _, lo, up). nat (up - lo))") auto

declare size_search.simps [simp del]

record SizedPosition =
  sz_amount0 :: int
  sz_amount1 :: int
  idleQuote :: int
  sz_liquidity :: int

definition sizeLiquidityForQuoteBudget ::
  "int \<Rightarrow> quote_tokens \<Rightarrow> int \<Rightarrow> TickBounds \<Rightarrow> SizedPosition res" where
  "sizeLiquidityForQuoteBudget budget t price rg =
     (if budget \<le> 0 then Inl ''Quote budget must be positive''
      else
        bind_ok (size_search (valueForLiquidity t price rg) budget 0 UINT128_MAX) (\<lambda>L.
        bind_ok (principalAmounts L price (tb_tickLower rg) (tb_tickUpper rg)) (\<lambda>principal.
        bind_ok (quoteValue (amount0 principal) (amount1 principal) t price) (\<lambda>deployedValue.
          Inr \<lparr>sz_amount0 = amount0 principal, sz_amount1 = amount1 principal,
               idleQuote = budget - deployedValue, sz_liquidity = L\<rparr>))))"

subsection \<open>Quote values\<close>

definition value_at :: "quote_tokens \<Rightarrow> int \<Rightarrow> int \<Rightarrow> int \<Rightarrow> int" where
  "value_at t price a0 a1 =
     (if quoteIsToken0 t then a0 + a1 * Q192 div (price * price) else a1 + a0 * (price * price) div Q192)"

lemma quoteValue_Inr_iff:
  "quoteValue a0 a1 t price = Inr v \<longleftrightarrow>
     0 \<le> a0 \<and> 0 \<le> a1 \<and> 0 < price \<and> quoteIsToken0 t \<noteq> quoteIsToken1 t \<and> v = value_at t price a0 a1"
proof (cases "0 \<le> a0 \<and> 0 \<le> a1 \<and> 0 < price")
  case True
  then have "0 \<le> a1 * Q192" "0 \<le> a0 * (price * price)" "0 < price * price" "0 < Q192"
    by (simp_all add: Q192_def)
  with True show ?thesis by (auto simp: quoteValue_def value_at_def Let_def sdiv_nonneg)
qed (auto simp: quoteValue_def)

lemma value_at_mono:
  assumes "a0 \<le> b0" "a1 \<le> b1" "0 < price"
  shows "value_at t price a0 a1 \<le> value_at t price b0 b1"
proof -
  have "a1 * Q192 \<le> b1 * Q192" "a0 * (price * price) \<le> b0 * (price * price)" "0 < price * price" "0 < Q192"
    using assms by (simp_all add: Q192_def mult_right_mono)
  with assms show ?thesis by (simp add: value_at_def add_mono zdiv_mono1)
qed

lemma value_at_zero [simp]: "value_at t price 0 0 = 0"
  by (simp add: value_at_def)

lemma value_at_nonneg: "0 \<le> a0 \<Longrightarrow> 0 \<le> a1 \<Longrightarrow> 0 < price \<Longrightarrow> 0 \<le> value_at t price a0 a1"
  using value_at_mono [of 0 a0 0 a1 price t] by simp

text \<open>Quote tokens held idle count one for one.\<close>

lemma value_at_idle:
  "value_at t price (a0 + (if quoteIsToken0 t then x else 0)) (a1 + (if quoteIsToken0 t then 0 else x)) =
     value_at t price a0 a1 + x"
  by (simp add: value_at_def)

subsection \<open>The sizing search\<close>

locale budget_search =
  fixes valid :: "'c \<Rightarrow> bool" and worth :: "'c \<Rightarrow> int \<Rightarrow> int" and limit :: int
  assumes limit_nonneg: "0 \<le> limit"
    and worth_mono: "valid c \<Longrightarrow> 0 \<le> x \<Longrightarrow> x \<le> y \<Longrightarrow> y \<le> limit \<Longrightarrow> worth c x \<le> worth c y"
    and worth_zero: "valid c \<Longrightarrow> worth c 0 = 0"
begin

lemma search_from:
  assumes "valid c" "0 \<le> lo" "lo \<le> up" "up \<le> limit" "worth c lo \<le> budget"
    and "\<And>y. up < y \<Longrightarrow> y \<le> limit \<Longrightarrow> budget < worth c y"
    and "\<And>x. 0 \<le> x \<Longrightarrow> x \<le> limit \<Longrightarrow> val x = Inr (worth c x)"
  shows "\<exists>L. size_search val budget lo up = Inr L \<and> 0 \<le> L \<and> L \<le> limit \<and> worth c L \<le> budget \<and>
    (\<forall>y. L < y \<longrightarrow> y \<le> limit \<longrightarrow> budget < worth c y)"
  using assms
proof (induction val budget lo up rule: size_search.induct)
  case (1 val budget lo up)
  let ?m = "lo + (up - lo + 1) div 2"
  consider "lo = up" | "lo < up" "worth c ?m \<le> budget" | "lo < up" "\<not> worth c ?m \<le> budget"
    using "1.prems"(3) by linarith
  then show ?case
  proof cases
    case 1
    then have "size_search val budget lo up = Inr lo" by (subst size_search.simps) simp
    then show ?thesis using "1.prems" 1 by blast
  next
    case 2
    then have m: "lo < ?m" "?m \<le> up" by auto
    then have v: "val ?m = Inr (worth c ?m)" using "1.prems" by simp
    have e: "size_search val budget lo up = size_search val budget ?m up"
      by (subst size_search.simps) (simp add: 2 v Let_def)
    show ?thesis
      unfolding e by (rule "1.IH"(1) [OF 2(1) refl 2(2)]) (use "1.prems" m 2 in auto)
  next
    case 3
    then have m: "lo < ?m" "?m \<le> up" by auto
    then have v: "val ?m = Inr (worth c ?m)" using "1.prems" by simp
    have e: "size_search val budget lo up = size_search val budget lo (?m - 1)"
      by (subst size_search.simps) (simp add: 3 v Let_def)
    have above: "budget < worth c y" if "?m - 1 < y" "y \<le> limit" for y
    proof -
      have "worth c ?m \<le> worth c y" using that "1.prems" m by (intro worth_mono) auto
      with 3 show ?thesis by simp
    qed
    show ?thesis
      unfolding e by (rule "1.IH"(2) [OF 3(1) refl 3(2)]) (use "1.prems" m above in auto)
  qed
qed

lemma search_finds_largest:
  assumes "valid c" "0 \<le> budget" "\<And>x. 0 \<le> x \<Longrightarrow> x \<le> limit \<Longrightarrow> val x = Inr (worth c x)"
  shows "\<exists>L. size_search val budget 0 limit = Inr L \<and> 0 \<le> L \<and> L \<le> limit \<and> worth c L \<le> budget \<and>
    (\<forall>y. L < y \<longrightarrow> y \<le> limit \<longrightarrow> budget < worth c y)"
  using assms limit_nonneg worth_zero by (intro search_from) auto

end

text \<open>A position's value at a price, as the search sees it.\<close>

record sizing =
  sc_tokens :: quote_tokens
  sc_price :: int
  sc_range :: TickBounds

definition sizing_valid :: "sizing \<Rightarrow> bool" where
  "sizing_valid c \<longleftrightarrow> position_valid 0 (sc_price c) (tb_tickLower (sc_range c)) (tb_tickUpper (sc_range c)) \<and>
     quoteIsToken0 (sc_tokens c) \<noteq> quoteIsToken1 (sc_tokens c)"

definition position_worth :: "sizing \<Rightarrow> int \<Rightarrow> int" where
  "position_worth c L =
     (let am = amounts_at L (sc_price c) (sqrt_ratio (tb_tickLower (sc_range c)))
                 (sqrt_ratio (tb_tickUpper (sc_range c)))
      in value_at (sc_tokens c) (sc_price c) (amount0 am) (amount1 am))"

lemma sizing_ratios:
  assumes "sizing_valid c"
  shows "0 < sqrt_ratio (tb_tickLower (sc_range c))"
    "sqrt_ratio (tb_tickLower (sc_range c)) \<le> sqrt_ratio (tb_tickUpper (sc_range c))" "0 < sc_price c"
  using assms ticks.ratio_strict [of "tb_tickLower (sc_range c)" "tb_tickUpper (sc_range c)"]
    sqrt_ratio_pos [of "tb_tickLower (sc_range c)"]
  by (auto simp: sizing_valid_def position_valid_def MIN_SQRT_RATIO_def)

interpretation sizing: budget_search sizing_valid position_worth UINT128_MAX
proof
  show "0 \<le> UINT128_MAX" by (simp add: UINT128_MAX_def)
next
  fix c x y assume c: "sizing_valid c" and xy: "0 \<le> x" "x \<le> y" "y \<le> UINT128_MAX"
  note r = sizing_ratios [OF c]
  show "position_worth c x \<le> position_worth c y"
    unfolding position_worth_def Let_def
    using amounts_at_liquidity_mono [OF xy(1,2) r(1,2)] r(3) by (intro value_at_mono) auto
next
  fix c show "position_worth c 0 = 0"
    by (simp add: position_worth_def amounts_at_def)
qed

lemma valueForLiquidity_worth:
  assumes "sizing_valid c" "0 \<le> L" "L \<le> UINT128_MAX"
  shows "valueForLiquidity (sc_tokens c) (sc_price c) (sc_range c) L = Inr (position_worth c L)"
proof -
  have v: "position_valid L (sc_price c) (tb_tickLower (sc_range c)) (tb_tickUpper (sc_range c))"
    using assms by (simp add: sizing_valid_def position_valid_def)
  note r = sizing_ratios [OF assms(1)]
  show ?thesis
    using v r amounts_at_nonneg [OF assms(2) r(1,2), of "sc_price c"] assms(1)
    by (simp add: valueForLiquidity_def bind_ok_Inr_iff principalAmounts_Inr_iff quoteValue_Inr_iff
        position_worth_def sizing_valid_def amounts.defs principal_amounts.defs amounts_at_def Let_def)
qed

lemma valueForLiquidity_valid:
  "valueForLiquidity t price rg L = Inr v \<Longrightarrow> sizing_valid \<lparr>sc_tokens = t, sc_price = price, sc_range = rg\<rparr>"
  by (auto simp: valueForLiquidity_def bind_ok_Inr_iff principalAmounts_Inr_iff quoteValue_Inr_iff
      sizing_valid_def position_valid_def UINT128_MAX_def)

lemma size_Inr:
  assumes "sizeLiquidityForQuoteBudget budget t price rg = Inr r"
  defines "c \<equiv> \<lparr>sc_tokens = t, sc_price = price, sc_range = rg\<rparr>"
  shows "sizing_valid c" "0 < budget" "0 \<le> sz_liquidity r" "sz_liquidity r \<le> UINT128_MAX"
    "idleQuote r = budget - position_worth c (sz_liquidity r)" "0 \<le> idleQuote r"
    "\<And>y. sz_liquidity r < y \<Longrightarrow> y \<le> UINT128_MAX \<Longrightarrow> budget < position_worth c y"
    "sz_amount0 r = amount0 (amounts_at (sz_liquidity r) price (sqrt_ratio (tb_tickLower rg)) (sqrt_ratio (tb_tickUpper rg)))"
    "sz_amount1 r = amount1 (amounts_at (sz_liquidity r) price (sqrt_ratio (tb_tickLower rg)) (sqrt_ratio (tb_tickUpper rg)))"
proof -
  from assms(1) obtain L pr v where h: "0 < budget"
    "size_search (valueForLiquidity t price rg) budget 0 UINT128_MAX = Inr L"
    "principalAmounts L price (tb_tickLower rg) (tb_tickUpper rg) = Inr pr"
    "quoteValue (amount0 pr) (amount1 pr) t price = Inr v"
    "r = \<lparr>sz_amount0 = amount0 pr, sz_amount1 = amount1 pr, idleQuote = budget - v, sz_liquidity = L\<rparr>"
    by (auto simp: sizeLiquidityForQuoteBudget_def bind_ok_Inr_iff split: if_splits)
  have val: "valueForLiquidity t price rg L = Inr v" using h by (simp add: valueForLiquidity_def)
  show c: "sizing_valid c" unfolding c_def by (rule valueForLiquidity_valid [OF val])
  have w: "valueForLiquidity t price rg x = Inr (position_worth c x)" if "0 \<le> x" "x \<le> UINT128_MAX" for x
    using valueForLiquidity_worth [OF c that] by (simp add: c_def)
  obtain L' where s: "size_search (valueForLiquidity t price rg) budget 0 UINT128_MAX = Inr L'" "0 \<le> L'"
    "L' \<le> UINT128_MAX" "position_worth c L' \<le> budget" "\<forall>y. L' < y \<longrightarrow> y \<le> UINT128_MAX \<longrightarrow> budget < position_worth c y"
    using sizing.search_finds_largest [OF c, of budget "valueForLiquidity t price rg"] w h(1) by auto
  then have L: "L' = L" using h(2) by simp
  have v: "v = position_worth c L" using w [of L] s L val by simp
  show "0 < budget" "0 \<le> sz_liquidity r" "sz_liquidity r \<le> UINT128_MAX"
    "idleQuote r = budget - position_worth c (sz_liquidity r)" "0 \<le> idleQuote r"
    "\<And>y. sz_liquidity r < y \<Longrightarrow> y \<le> UINT128_MAX \<Longrightarrow> budget < position_worth c y"
    using h s L v by auto
  show "sz_amount0 r = amount0 (amounts_at (sz_liquidity r) price (sqrt_ratio (tb_tickLower rg)) (sqrt_ratio (tb_tickUpper rg)))"
    "sz_amount1 r = amount1 (amounts_at (sz_liquidity r) price (sqrt_ratio (tb_tickLower rg)) (sqrt_ratio (tb_tickUpper rg)))"
    using principalAmounts_amounts(2,3) [OF h(3)] by (simp_all add: h(5))
qed

subsection \<open>Properties\<close>

text \<open>
  C24: sizing spends a budget exactly: the liquidity is the largest uint128 whose floored
  principal is worth at most the budget, what is left over is idle quote and never negative,
  and together they are worth the whole budget.
\<close>

theorem sizing_is_maximal:
  assumes "sizeLiquidityForQuoteBudget budget t price rg = Inr r"
  shows "valueForLiquidity t price rg (sz_liquidity r) = Inr (budget - idleQuote r) \<and> 0 \<le> idleQuote r \<and>
    quoteValue (sz_amount0 r) (sz_amount1 r) t price = Inr (budget - idleQuote r) \<and>
    (\<forall>L. 0 \<le> L \<and> L \<le> UINT128_MAX \<longrightarrow>
      (L \<le> sz_liquidity r \<longleftrightarrow> (\<exists>v. valueForLiquidity t price rg L = Inr v \<and> v \<le> budget)))"
proof -
  let ?c = "\<lparr>sc_tokens = t, sc_price = price, sc_range = rg\<rparr>"
  note s = size_Inr [OF assms]
  have w: "valueForLiquidity t price rg x = Inr (position_worth ?c x)" if "0 \<le> x" "x \<le> UINT128_MAX" for x
    using valueForLiquidity_worth [OF s(1) that] by simp
  have q: "quoteValue (sz_amount0 r) (sz_amount1 r) t price = Inr (position_worth ?c (sz_liquidity r))"
    using s(1,3) sizing_ratios [OF s(1)] amounts_at_nonneg [OF s(3), of "sqrt_ratio (tb_tickLower rg)"
        "sqrt_ratio (tb_tickUpper rg)" price]
    by (simp add: quoteValue_Inr_iff position_worth_def s(8,9) sizing_valid_def Let_def)
  have "L \<le> sz_liquidity r \<longleftrightarrow> position_worth ?c L \<le> budget" if L: "0 \<le> L" "L \<le> UINT128_MAX" for L
  proof
    assume "L \<le> sz_liquidity r"
    then have "position_worth ?c L \<le> position_worth ?c (sz_liquidity r)"
      using s(1,4) L by (intro sizing.worth_mono) auto
    also have "\<dots> \<le> budget" using s(5,6) by simp
    finally show "position_worth ?c L \<le> budget" .
  next
    assume "position_worth ?c L \<le> budget"
    then show "L \<le> sz_liquidity r" using s(7) [of L] L by (meson not_le)
  qed
  then show ?thesis using s(3-6) w q by auto
qed

definition sample_tokens :: quote_tokens where
  "sample_tokens = \<lparr>qt_quoteToken = ''0x2'', qt_token0 = ''0x1'', qt_token1 = ''0x2''\<rparr>"

lemma sample_worth:
  "valueForLiquidity sample_tokens (2 ^ 96) \<lparr>tb_tickLower = - 60, tb_tickUpper = 60\<rparr> 1000000 = Inr 5990"
proof -
  have e: "sqrt_ratio (- 60) = 78990846045029531151608375686"
    "sqrt_ratio 60 = 79466191966197645195421774833" by (simp_all add: tick_eval)
  show ?thesis
    by (simp add: valueForLiquidity_def bind_ok_Inr_iff principalAmounts_Inr_iff position_valid_def
        tick_consts UINT128_MAX_def e amounts.defs principal_amounts.defs amounts_at_def clamp_price_def
        quoteValue_Inr_iff value_at_def quoteIsToken0_def quoteIsToken1_def sample_tokens_def lower_def
        lower_char_def Q192_def)
qed

lemma sample_sizing:
  assumes "5990 \<le> budget"
  shows "\<exists>r. sizeLiquidityForQuoteBudget budget sample_tokens (2 ^ 96)
    \<lparr>tb_tickLower = - 60, tb_tickUpper = 60\<rparr> = Inr r \<and> 1000000 \<le> sz_liquidity r"
proof -
  let ?rg = "\<lparr>tb_tickLower = - 60, tb_tickUpper = 60\<rparr>"
  let ?c = "\<lparr>sc_tokens = sample_tokens, sc_price = 2 ^ 96, sc_range = ?rg\<rparr>"
  have c: "sizing_valid ?c" using valueForLiquidity_valid [OF sample_worth] .
  have w: "valueForLiquidity sample_tokens (2 ^ 96) ?rg x = Inr (position_worth ?c x)"
    if "0 \<le> x" "x \<le> UINT128_MAX" for x
    using valueForLiquidity_worth [OF c that] by simp
  obtain L where L: "size_search (valueForLiquidity sample_tokens (2 ^ 96) ?rg) budget 0 UINT128_MAX = Inr L"
    "0 \<le> L" "L \<le> UINT128_MAX"
    using sizing.search_finds_largest [OF c _ w, of budget] assms by auto
  from w [OF L(2,3)] obtain pr v where p: "principalAmounts L (2 ^ 96) (tb_tickLower ?rg) (tb_tickUpper ?rg) = Inr pr"
    "quoteValue (amount0 pr) (amount1 pr) sample_tokens (2 ^ 96) = Inr v"
    unfolding valueForLiquidity_def bind_ok_Inr_iff by blast
  then obtain r where r: "sizeLiquidityForQuoteBudget budget sample_tokens (2 ^ 96) ?rg = Inr r"
    unfolding sizeLiquidityForQuoteBudget_def L(1) bind_ok_simps using assms by simp
  have "1000000 \<le> UINT128_MAX" by (simp add: UINT128_MAX_def)
  with w [of 1000000] sample_worth have "position_worth ?c 1000000 = 5990" by simp
  with size_Inr(7) [OF r, of 1000000] assms \<open>1000000 \<le> UINT128_MAX\<close> have "\<not> sz_liquidity r < 1000000"
    by auto
  with r show ?thesis by auto
qed

theorem sizing_is_maximal_witness:
  "\<exists>r. sizeLiquidityForQuoteBudget 1000000 sample_tokens (2 ^ 96)
      \<lparr>tb_tickLower = - 60, tb_tickUpper = 60\<rparr> = Inr r \<and> 1000000 \<le> sz_liquidity r \<and> 0 \<le> idleQuote r"
proof -
  obtain r where r: "sizeLiquidityForQuoteBudget 1000000 sample_tokens (2 ^ 96)
      \<lparr>tb_tickLower = - 60, tb_tickUpper = 60\<rparr> = Inr r" "1000000 \<le> sz_liquidity r"
    using sample_sizing [of 1000000] by auto
  with sizing_is_maximal [OF r(1)] show ?thesis by blast
qed

end
