(* ===== verification/Ranking.thy ===== *)
theory Ranking
  imports Liq_Prelude
begin

section \<open>Ranking candidates\<close>

text \<open>
  The ranking that \<open>src/simulator/evaluate.ts\<close> and \<open>src/simulator/replay.ts\<close> share: the
  completed candidates sorted by alpha, best first, equal alphas by half-width, and a map
  from half-width to rank.  The locale \<open>candidate_ranking\<close> is what a kind of candidate has to
  provide for the ranks to mean something.
\<close>

definition rank_order :: "('a \<Rightarrow> bool) \<Rightarrow> ('a \<Rightarrow> int) \<Rightarrow> ('a \<Rightarrow> int) \<Rightarrow> 'a list \<Rightarrow> 'a list" where
  "rank_order isComplete alpha width cs =
     sort_key (\<lambda>c. (- alpha c, width c)) (filter isComplete cs)"

text \<open>\<open>new Map(ranked.map((candidate, index) => [width, index + 1]))\<close>; a later entry wins.\<close>

definition rank_table :: "('a \<Rightarrow> int) \<Rightarrow> 'a list \<Rightarrow> int \<Rightarrow> nat option" where
  "rank_table width ranked = map_of (rev (zip (map width ranked) (map Suc [0..<length ranked])))"

lemma rank_table_nth:
  assumes "distinct (map width ranked)" "i < length ranked"
  shows "rank_table width ranked (width (ranked ! i)) = Some (Suc i)"
proof -
  let ?z = "zip (map width ranked) (map Suc [0..<length ranked])"
  have "(width (ranked ! i), Suc i) \<in> set ?z"
    using assms(2) by (auto simp: set_zip intro!: exI [of _ i])
  moreover have "distinct (map fst (rev ?z))" using assms(1) by (simp flip: rev_map)
  ultimately show ?thesis by (simp add: rank_table_def)
qed

lemma rank_table_other: "w \<notin> set (map width ranked) \<Longrightarrow> rank_table width ranked w = None"
  by (auto simp: rank_table_def map_of_eq_None_iff dest: set_zip_leftD)

lemma rank_order_set: "set (rank_order d alpha width cs) = {c \<in> set cs. d c}"
  and rank_order_length: "length (rank_order d alpha width cs) = length (filter d cs)"
  by (auto simp: rank_order_def)

lemma rank_order_widths:
  assumes "distinct (map width cs)"
  shows "distinct (map width (rank_order d alpha width cs))"
  using distinct_map_filter [OF assms, of d] by (simp add: rank_order_def distinct_map)

lemma rank_order_before:
  fixes d :: "'a \<Rightarrow> bool" and alpha :: "'a \<Rightarrow> int"
  assumes "distinct (map width cs)"
  defines "ys \<equiv> rank_order d alpha width cs"
  assumes "i < length ys" "j < length ys"
  shows "i < j \<longleftrightarrow> alpha (ys ! j) < alpha (ys ! i) \<or>
    alpha (ys ! j) = alpha (ys ! i) \<and> width (ys ! i) < width (ys ! j)"
proof -
  let ?k = "\<lambda>c. (- alpha c, width c)"
  have s: "sorted (map ?k ys)" by (simp add: ys_def rank_order_def)
  have "distinct (map (snd \<circ> ?k) ys)" using rank_order_widths [OF assms(1)] by (simp add: ys_def comp_def)
  then have "distinct (map ?k ys)" by (metis distinct_map map_map)
  with s have "sorted_wrt (<) (map ?k ys)" by (simp add: strict_sorted_iff)
  then have lt: "i < j \<Longrightarrow> j < length ys \<Longrightarrow> ?k (ys ! i) < ?k (ys ! j)" for i j
    using sorted_wrt_nth_less [of "(<)" "map ?k ys" i j] by simp
  have "i < j \<longleftrightarrow> ?k (ys ! i) < ?k (ys ! j)"
    using lt [of i j] lt [of j i] assms(3,4) by (metis linorder_neqE_nat order_less_asym less_irrefl)
  then show ?thesis by auto
qed

locale candidate_ranking =
  fixes isComplete :: "'a \<Rightarrow> bool" and alpha :: "'a \<Rightarrow> int" and width :: "'a \<Rightarrow> int"
    and get_rank :: "'a \<Rightarrow> nat option" and put_rank :: "nat option \<Rightarrow> 'a \<Rightarrow> 'a"
  assumes put_get: "get_rank (put_rank r c) = r"
    and put_complete: "isComplete (put_rank r c) = isComplete c"
    and put_alpha: "alpha (put_rank r c) = alpha c"
    and put_width: "width (put_rank r c) = width c"
begin

definition table :: "'a list \<Rightarrow> int \<Rightarrow> nat option" where
  "table cs = rank_table width (rank_order isComplete alpha width cs)"

definition ranked :: "'a list \<Rightarrow> 'a list" where
  "ranked cs = map (\<lambda>c. put_rank (table cs (width c)) c) cs"

lemma table_complete:
  assumes "distinct (map width cs)" "c \<in> set cs" "isComplete c"
  obtains i where "i < length (rank_order isComplete alpha width cs)"
    "rank_order isComplete alpha width cs ! i = c" "table cs (width c) = Some (Suc i)"
proof -
  have "c \<in> set (rank_order isComplete alpha width cs)" using assms by (simp add: rank_order_set)
  then obtain i where i: "i < length (rank_order isComplete alpha width cs)"
    "rank_order isComplete alpha width cs ! i = c" by (auto simp: in_set_conv_nth)
  with rank_table_nth [OF rank_order_widths [OF assms(1)] i(1)] show thesis
    by (intro that) (simp_all add: table_def)
qed

lemma table_excluded:
  assumes "distinct (map width cs)" "c \<in> set cs" "\<not> isComplete c"
  shows "table cs (width c) = None"
proof -
  have "c' = c" if "c' \<in> set cs" "width c' = width c" for c'
    using that assms(1,2) by (auto simp: distinct_map inj_on_def)
  then have "width c \<notin> set (map width (rank_order isComplete alpha width cs))"
    using assms(3) by (auto simp: rank_order_set)
  then show ?thesis by (simp add: table_def rank_table_other)
qed

lemma ranked_ranks:
  assumes "distinct (map width cs)"
  shows "c \<in> set (ranked cs) \<Longrightarrow> isComplete c \<longleftrightarrow> get_rank c \<noteq> None"
    and "set (map get_rank (filter isComplete (ranked cs))) = Some ` {1..length (filter isComplete cs)}"
    and "c \<in> set (ranked cs) \<Longrightarrow> c' \<in> set (ranked cs) \<Longrightarrow> isComplete c \<Longrightarrow> isComplete c' \<Longrightarrow>
      the (get_rank c) < the (get_rank c') \<longleftrightarrow>
      alpha c' < alpha c \<or> alpha c' = alpha c \<and> width c < width c'"
proof -
  note t = table_complete [OF assms] and x = table_excluded [OF assms]
  show "isComplete c \<longleftrightarrow> get_rank c \<noteq> None" if "c \<in> set (ranked cs)"
  proof -
    from that obtain b where b: "b \<in> set cs" "c = put_rank (table cs (width b)) b"
      by (auto simp: ranked_def)
    then have c: "get_rank c = table cs (width b)" "isComplete c = isComplete b"
      by (simp_all add: put_get put_complete)
    show ?thesis
    proof (cases "isComplete b")
      case True
      from t [OF b(1) True] obtain i where "table cs (width b) = Some (Suc i)" by blast
      then show ?thesis using True c by simp
    next
      case False
      then show ?thesis using x [OF b(1)] c by simp
    qed
  qed
  let ?ys = "rank_order isComplete alpha width cs"
  have "filter isComplete (ranked cs) = map (\<lambda>c. put_rank (table cs (width c)) c) (filter isComplete cs)"
    by (simp add: ranked_def filter_map comp_def put_complete)
  then have "set (map get_rank (filter isComplete (ranked cs))) = (\<lambda>c. table cs (width c)) ` set ?ys"
    by (auto simp: put_get rank_order_set)
  also have "\<dots> = Some ` {1..length (filter isComplete cs)}"
  proof (rule set_eqI)
    fix r
    have tab: "i < length ?ys \<Longrightarrow> table cs (width (?ys ! i)) = Some (Suc i)" for i
      using rank_table_nth [OF rank_order_widths [OF assms]] by (simp add: table_def)
    have "r \<in> (\<lambda>c. table cs (width c)) ` set ?ys \<longleftrightarrow> (\<exists>i<length ?ys. r = table cs (width (?ys ! i)))"
      by (metis (no_types, lifting) image_iff in_set_conv_nth)
    also have "\<dots> \<longleftrightarrow> (\<exists>i<length ?ys. r = Some (Suc i))" using tab by metis
    also have "\<dots> \<longleftrightarrow> r \<in> Some ` {1..length (filter isComplete cs)}"
      by (cases r; cases "the r") (auto simp: rank_order_length)
    finally show "r \<in> (\<lambda>c. table cs (width c)) ` set ?ys \<longleftrightarrow>
      r \<in> Some ` {1..length (filter isComplete cs)}" .
  qed
  finally show "set (map get_rank (filter isComplete (ranked cs))) = Some ` {1..length (filter isComplete cs)}" .
  show "the (get_rank c) < the (get_rank c') \<longleftrightarrow> alpha c' < alpha c \<or> alpha c' = alpha c \<and> width c < width c'"
    if h: "c \<in> set (ranked cs)" "c' \<in> set (ranked cs)" "isComplete c" "isComplete c'"
  proof -
    from h obtain b b' where b: "b \<in> set cs" "c = put_rank (table cs (width b)) b" "isComplete b"
      "b' \<in> set cs" "c' = put_rank (table cs (width b')) b'" "isComplete b'"
      by (auto simp: ranked_def put_complete)
    obtain i where i: "i < length ?ys" "?ys ! i = b" "table cs (width b) = Some (Suc i)"
      using t [OF b(1,3)] by blast
    obtain j where j: "j < length ?ys" "?ys ! j = b'" "table cs (width b') = Some (Suc j)"
      using t [OF b(4,6)] by blast
    show ?thesis
      using rank_order_before [OF assms i(1) j(1)] i(2,3) j(2,3)
      by (simp add: b(2,5) put_get put_alpha put_width)
  qed
qed

end

end
