(* ===== verification/Static_Sim.thy ===== *)
theory Static_Sim
  imports Range_Sim Ranking
begin

section \<open>Simulation of static centered ranges\<close>

text \<open>
  \<open>src/simulator/evaluate.ts\<close>: candidates of several widths around the first tick, valued
  over one observed interval and ranked.  Decimal strings are the integers they denote, a
  nullable field is an option.  The clock and \<open>sha256\<close> are parameters.
\<close>

record RangeSimulationSource =
  ss_fee :: int
  ss_from :: AccountingRunReference
  ss_fromPool :: RangePoolCheckpoint
  ss_pathMaxTick :: int
  ss_pathMinTick :: int
  ss_poolAddress :: string
  ss_tokens :: quote_tokens
  ss_rwaSymbol :: string
  ss_streamKey :: string
  ss_swapCount :: int
  ss_to :: AccountingRunReference
  ss_toPool :: RangePoolCheckpoint

datatype candidate_status = Complete | Excluded

record RangePolicyCandidate =
  pc_absolutePnlQuote :: "int option"
  pc_divergenceQuote :: "int option"
  pc_endAmount0 :: "int option"
  pc_endAmount1 :: "int option"
  pc_endPrincipalValueQuote :: "int option"
  pc_exclusionReason :: "string option"
  pc_fee0 :: "int option"
  pc_fee1 :: "int option"
  pc_feeValueQuote :: "int option"
  pc_grossEndValueQuote :: "int option"
  pc_halfWidthSpacings :: int
  pc_hodlEndValueQuote :: "int option"
  pc_idleQuote :: int
  pc_liquidity :: int
  pc_liquiditySharePpm :: int
  pc_lpAlphaQuote :: "int option"
  pc_netEndValueQuote :: "int option"
  pc_rank :: "nat option"
  pc_startAmount0 :: int
  pc_startAmount1 :: int
  pc_status :: candidate_status
  pc_tickLower :: int
  pc_tickUpper :: int

record RangePolicySimulation =
  rs_assumptions :: "string list"
  rs_budgetQuote :: int
  rs_candidates :: "RangePolicyCandidate list"
  rs_completedCandidates :: nat
  rs_computedAt :: string
  rs_costQuote :: int
  rs_excludedCandidates :: nat
  rs_executionEligible :: bool
  rs_fee :: int
  rs_from :: AccountingRunReference
  rs_methodology :: string
  rs_pathMaxTick :: int
  rs_pathMinTick :: int
  rs_policySetHash :: string
  rs_poolAddress :: string
  rs_quoteDecimals :: int
  rs_rwaSymbol :: string
  rs_schemaVersion :: int
  rs_streamKey :: string
  rs_swapCount :: int
  rs_tickSpacing :: int
  rs_to :: AccountingRunReference
  rs_tokens :: quote_tokens

definition static_validateSource :: "RangeSimulationSource \<Rightarrow> unit res" where
  "static_validateSource s =
     (if blockNumber (ss_from s) \<ge> blockNumber (ss_to s)
      then Inl ''Simulation checkpoints must be strictly block-ordered''
      else if chainId (ss_from s) \<noteq> chainId (ss_to s)
      then Inl ''Simulation checkpoints have different chain IDs''
      else if cp_liquidity (ss_fromPool s) \<le> 0 \<or> cp_liquidity (ss_toPool s) \<le> 0
      then Inl ''Simulation pool must have active liquidity at both endpoints''
      else
        bind_ok (validateTickAndSqrtPrice (ss_fromPool s)) (\<lambda>_.
        bind_ok (validateTickAndSqrtPrice (ss_toPool s)) (\<lambda>_.
          if ss_pathMinTick s > ss_pathMaxTick s \<or> ss_pathMinTick s > cp_tick (ss_fromPool s) \<or>
             ss_pathMinTick s > cp_tick (ss_toPool s) \<or> ss_pathMaxTick s < cp_tick (ss_fromPool s) \<or>
             ss_pathMaxTick s < cp_tick (ss_toPool s)
          then Inl ''Observed tick path does not include both endpoints'' else Inr ())))"

text \<open>\<open>JSON.stringify\<close> of an object of decimal strings and numbers, in the order given.\<close>

definition quoted :: "string \<Rightarrow> string" where
  "quoted s = CHR 0x22 # s @ [CHR 0x22]"

fun join_comma :: "string list \<Rightarrow> string" where
  "join_comma [] = []"
| "join_comma [x] = x"
| "join_comma (x # y # zs) = x @ '','' @ join_comma (y # zs)"

definition json_ints :: "int list \<Rightarrow> string" where
  "json_ints xs = ''['' @ join_comma (map show_int xs) @ '']''"

definition json_object :: "(string \<times> string) list \<Rightarrow> string" where
  "json_object kvs = CHR 0x7B # join_comma (map (\<lambda>(k, v). quoted k @ '':'' @ v) kvs) @ [CHR 0x7D]"

definition static_policyHash :: "(string \<Rightarrow> string) \<Rightarrow> int \<Rightarrow> int \<Rightarrow> int list \<Rightarrow> string" where
  "static_policyHash sha256 budget cost widths =
     ''sha256:'' @ sha256 (json_object
       [(''budgetQuote'', quoted (show_int budget)), (''costQuote'', quoted (show_int cost)),
        (''halfWidths'', json_ints widths)])"

definition checked_half_widths :: "int list \<Rightarrow> int list res" where
  "checked_half_widths given =
     (let widths = sort given in
      if widths = [] \<or> \<not> distinct widths \<or> list_ex (\<lambda>w. \<not> safe_integer w \<or> w \<le> 0) widths
      then Inl ''Half-widths must be unique positive safe integers'' else Inr widths)"

definition static_base ::
  "RangeSimulationSource \<Rightarrow> int \<Rightarrow> TickBounds \<Rightarrow> SizedPosition \<Rightarrow> RangePolicyCandidate" where
  "static_base s halfWidth rg start =
     \<lparr>pc_absolutePnlQuote = None, pc_divergenceQuote = None, pc_endAmount0 = None, pc_endAmount1 = None,
      pc_endPrincipalValueQuote = None, pc_exclusionReason = None, pc_fee0 = None, pc_fee1 = None,
      pc_feeValueQuote = None, pc_grossEndValueQuote = None, pc_halfWidthSpacings = halfWidth,
      pc_hodlEndValueQuote = None, pc_idleQuote = idleQuote start, pc_liquidity = sz_liquidity start,
      pc_liquiditySharePpm = (sz_liquidity start * 1000000) sdiv cp_liquidity (ss_fromPool s),
      pc_lpAlphaQuote = None, pc_netEndValueQuote = None, pc_rank = None,
      pc_startAmount0 = sz_amount0 start, pc_startAmount1 = sz_amount1 start, pc_status = Excluded,
      pc_tickLower = tb_tickLower rg, pc_tickUpper = tb_tickUpper rg\<rparr>"

definition static_candidate ::
  "int \<Rightarrow> int \<Rightarrow> RangeSimulationSource \<Rightarrow> int \<Rightarrow> int \<Rightarrow> RangePolicyCandidate res" where
  "static_candidate budget cost s spacing halfWidth =
     (let growth0 = subtractUint256 (feeGrowthGlobal0X128 (ss_toPool s)) (feeGrowthGlobal0X128 (ss_fromPool s));
          growth1 = subtractUint256 (feeGrowthGlobal1X128 (ss_toPool s)) (feeGrowthGlobal1X128 (ss_fromPool s));
          toPrice = cp_sqrtPriceX96 (ss_toPool s)
      in
      bind_ok (centeredRange (cp_tick (ss_fromPool s)) halfWidth spacing) (\<lambda>rg.
      bind_ok (sizeLiquidityForQuoteBudget budget (ss_tokens s) (cp_sqrtPriceX96 (ss_fromPool s)) rg) (\<lambda>start.
        let base = static_base s halfWidth rg start;
            pathCertified = (ss_pathMinTick s \<ge> tb_tickLower rg \<and> ss_pathMaxTick s < tb_tickUpper rg)
        in
        if sz_liquidity start = 0 \<or> \<not> pathCertified
        then Inr (base\<lparr>pc_exclusionReason := Some (if sz_liquidity start = 0
               then ''budget_too_small_for_nonzero_liquidity'' else ''observed_tick_path_crossed_range'')\<rparr>)
        else
          let fee0 = (growth0 * sz_liquidity start) sdiv Q128;
              fee1 = (growth1 * sz_liquidity start) sdiv Q128
          in
          bind_ok (principalAmounts (sz_liquidity start) toPrice (tb_tickLower rg) (tb_tickUpper rg)) (\<lambda>end.
          bind_ok (quoteValue (amount0 end) (amount1 end) (ss_tokens s) toPrice) (\<lambda>endPrincipalValue.
          bind_ok (quoteValue fee0 fee1 (ss_tokens s) toPrice) (\<lambda>feeValue.
          let grossEndValue = endPrincipalValue + feeValue + idleQuote start;
              netEndValue = grossEndValue - cost
          in
          bind_ok (quoteValue (sz_amount0 start + (if quoteIsToken0 (ss_tokens s) then idleQuote start else 0))
                     (sz_amount1 start + (if quoteIsToken1 (ss_tokens s) then idleQuote start else 0))
                     (ss_tokens s) toPrice) (\<lambda>hodlEndValue.
            Inr (base\<lparr>pc_absolutePnlQuote := Some (netEndValue - budget),
                      pc_divergenceQuote := Some (endPrincipalValue + idleQuote start - hodlEndValue),
                      pc_endAmount0 := Some (amount0 end), pc_endAmount1 := Some (amount1 end),
                      pc_endPrincipalValueQuote := Some endPrincipalValue,
                      pc_fee0 := Some fee0, pc_fee1 := Some fee1, pc_feeValueQuote := Some feeValue,
                      pc_grossEndValueQuote := Some grossEndValue,
                      pc_hodlEndValueQuote := Some hodlEndValue,
                      pc_lpAlphaQuote := Some (netEndValue - hodlEndValue),
                      pc_netEndValueQuote := Some netEndValue, pc_status := Complete\<rparr>))))))))"

definition static_complete :: "RangePolicyCandidate \<Rightarrow> bool" where
  "static_complete c \<longleftrightarrow> pc_status c = Complete"

definition static_alpha :: "RangePolicyCandidate \<Rightarrow> int" where
  "static_alpha c = the (pc_lpAlphaQuote c)"

definition static_rank_candidates :: "RangePolicyCandidate list \<Rightarrow> RangePolicyCandidate list" where
  "static_rank_candidates cs =
     (let ranks = rank_table pc_halfWidthSpacings (rank_order static_complete static_alpha pc_halfWidthSpacings cs)
      in map (\<lambda>c. if static_complete c then c\<lparr>pc_rank := ranks (pc_halfWidthSpacings c)\<rparr> else c) cs)"

definition simulateStaticCenteredRanges ::
  "(string \<Rightarrow> string) \<Rightarrow> string \<Rightarrow> int \<Rightarrow> int \<Rightarrow> int list \<Rightarrow> RangeSimulationSource \<Rightarrow> RangePolicySimulation res"
where
  "simulateStaticCenteredRanges sha256 now budget cost givenWidths s =
     bind_ok (static_validateSource s) (\<lambda>_.
       if budget \<le> 0 then Inl ''Simulation budget must be positive''
       else if cost < 0 \<or> cost > budget then Inl ''Simulation cost must be between zero and the budget''
       else
         bind_ok (checked_half_widths givenWidths) (\<lambda>widths.
         bind_ok (tickSpacingForFee (ss_fee s)) (\<lambda>spacing.
           if quoteIsToken0 (ss_tokens s) = quoteIsToken1 (ss_tokens s)
           then Inl ''Simulation pool must contain the quote token exactly once''
           else
             bind_ok (map_res (static_candidate budget cost s spacing) widths) (\<lambda>candidates.
               let ranked = static_rank_candidates candidates in
               Inr \<lparr>rs_assumptions =
                       [''pool_spot_mark_to_market_not_oracle'', ''observed_price_path_assumed_unchanged'',
                        ''observed_fee_growth_zero_impact_no_self_dilution'',
                        ''same_post_entry_inventory_hodl_benchmark'',
                        ''configured_cost_applied_once_to_each_candidate'', ''no_fee_compounding'',
                        ''single_interval_static_ranges_no_rebalancing'', ''crossed_range_paths_excluded''],
                     rs_budgetQuote = budget, rs_candidates = ranked,
                     rs_completedCandidates = length (filter static_complete ranked),
                     rs_computedAt = now, rs_costQuote = cost,
                     rs_excludedCandidates = length (filter (\<lambda>c. pc_status c = Excluded) ranked),
                     rs_executionEligible = False, rs_fee = ss_fee s, rs_from = ss_from s,
                     rs_methodology = ''static_centered_observed_fee_growth_v1'',
                     rs_pathMaxTick = ss_pathMaxTick s, rs_pathMinTick = ss_pathMinTick s,
                     rs_policySetHash = static_policyHash sha256 budget cost widths,
                     rs_poolAddress = ss_poolAddress s, rs_quoteDecimals = 6,
                     rs_rwaSymbol = ss_rwaSymbol s, rs_schemaVersion = 1, rs_streamKey = ss_streamKey s,
                     rs_swapCount = ss_swapCount s, rs_tickSpacing = spacing, rs_to = ss_to s,
                     rs_tokens = ss_tokens s\<rparr>))))"

subsection \<open>Candidates\<close>

text \<open>What a candidate's numbers have to satisfy.\<close>

definition static_sound :: "int \<Rightarrow> int \<Rightarrow> RangeSimulationSource \<Rightarrow> RangePolicyCandidate \<Rightarrow> bool" where
  "static_sound budget cost s c \<longleftrightarrow>
     (static_complete c \<longleftrightarrow> pc_liquidity c \<noteq> 0 \<and> pc_tickLower c \<le> ss_pathMinTick s \<and>
        ss_pathMaxTick s < pc_tickUpper c) \<and>
     (static_complete c \<longrightarrow> (\<exists>principal fees net hodl.
        0 \<le> principal \<and> 0 \<le> fees \<and>
        valueForLiquidity (ss_tokens s) (cp_sqrtPriceX96 (ss_toPool s))
          \<lparr>tb_tickLower = pc_tickLower c, tb_tickUpper = pc_tickUpper c\<rparr> (pc_liquidity c) = Inr principal \<and>
        pc_feeValueQuote c = Some fees \<and> pc_netEndValueQuote c = Some net \<and>
        net = principal + fees + pc_idleQuote c - cost \<and>
        pc_hodlEndValueQuote c = Some hodl \<and>
        quoteValue (pc_startAmount0 c) (pc_startAmount1 c) (ss_tokens s) (cp_sqrtPriceX96 (ss_toPool s)) =
          Inr (hodl - pc_idleQuote c) \<and>
        pc_absolutePnlQuote c = Some (net - budget) \<and> pc_lpAlphaQuote c = Some (net - hodl) \<and>
        pc_divergenceQuote c = Some (principal + pc_idleQuote c - hodl)))"

lemma static_candidate_sound:
  assumes "static_candidate budget cost s spacing w = Inr c"
  shows "static_sound budget cost s c \<and> pc_halfWidthSpacings c = w \<and> pc_rank c = None"
proof -
  from assms obtain rg start where rg: "centeredRange (cp_tick (ss_fromPool s)) w spacing = Inr rg"
    and start: "sizeLiquidityForQuoteBudget budget (ss_tokens s) (cp_sqrtPriceX96 (ss_fromPool s)) rg = Inr start"
    by (auto simp: static_candidate_def Let_def bind_ok_Inr_iff)
  note sz = size_Inr [OF start]
  let ?t = "ss_tokens s" and ?p = "cp_sqrtPriceX96 (ss_toPool s)"
  show ?thesis
  proof (cases "sz_liquidity start = 0 \<or> \<not> (ss_pathMinTick s \<ge> tb_tickLower rg \<and> ss_pathMaxTick s < tb_tickUpper rg)")
    case True
    with assms show ?thesis
      by (auto simp: static_candidate_def Let_def rg start static_base_def static_sound_def static_complete_def)
  next
    case False
    with assms obtain pr v f hodl fee0 fee1 where
      h: "principalAmounts (sz_liquidity start) ?p (tb_tickLower rg) (tb_tickUpper rg) = Inr pr"
        "quoteValue (amount0 pr) (amount1 pr) ?t ?p = Inr v" "quoteValue fee0 fee1 ?t ?p = Inr f"
      and hodl: "quoteValue (sz_amount0 start + (if quoteIsToken0 ?t then idleQuote start else 0))
          (sz_amount1 start + (if quoteIsToken1 ?t then idleQuote start else 0)) ?t ?p = Inr hodl"
      and c: "c = (static_base s w rg start)\<lparr>pc_absolutePnlQuote := Some (v + f + idleQuote start - cost - budget),
          pc_divergenceQuote := Some (v + idleQuote start - hodl),
          pc_endAmount0 := Some (amount0 pr), pc_endAmount1 := Some (amount1 pr),
          pc_endPrincipalValueQuote := Some v, pc_fee0 := Some fee0, pc_fee1 := Some fee1,
          pc_feeValueQuote := Some f, pc_grossEndValueQuote := Some (v + f + idleQuote start),
          pc_hodlEndValueQuote := Some hodl,
          pc_lpAlphaQuote := Some (v + f + idleQuote start - cost - hodl),
          pc_netEndValueQuote := Some (v + f + idleQuote start - cost), pc_status := Complete\<rparr>"
      by (auto simp: static_candidate_def Let_def rg start bind_ok_Inr_iff)
    have rg': "\<lparr>tb_tickLower = tb_tickLower rg, tb_tickUpper = tb_tickUpper rg\<rparr> = rg" by simp
    have n: "0 \<le> sz_amount0 start" "0 \<le> sz_amount1 start"
      using sz(3,8,9) amounts_at_nonneg [OF sz(3)] sizing_ratios [OF sz(1)] by simp_all
    have idle: "quoteValue (sz_amount0 start) (sz_amount1 start) ?t ?p = Inr (hodl - idleQuote start)"
      using hodl n by (auto simp: quoteValue_Inr_iff value_at_def split: if_splits)
    have v: "valueForLiquidity ?t ?p rg (sz_liquidity start) = Inr v"
      using h by (simp add: valueForLiquidity_def)
    have nn: "0 \<le> v" "0 \<le> f" using h(2,3) by (auto simp: quoteValue_Inr_iff value_at_nonneg)
    show ?thesis
      unfolding static_sound_def c using False idle v nn
      by (simp add: static_base_def static_complete_def rg')
  qed
qed

interpretation static_ranks: candidate_ranking static_complete static_alpha pc_halfWidthSpacings pc_rank
  "\<lambda>r c. c\<lparr>pc_rank := r\<rparr>"
  by unfold_locales (simp_all add: static_complete_def static_alpha_def)

lemma static_rank_candidates_ranked:
  assumes "distinct (map pc_halfWidthSpacings cs)" "\<forall>c\<in>set cs. pc_rank c = None"
  shows "static_rank_candidates cs = static_ranks.ranked cs"
proof -
  have "(if static_complete c then c\<lparr>pc_rank := static_ranks.table cs (pc_halfWidthSpacings c)\<rparr> else c) =
      c\<lparr>pc_rank := static_ranks.table cs (pc_halfWidthSpacings c)\<rparr>" if "c \<in> set cs" for c
    using static_ranks.table_excluded [OF assms(1) that] assms(2) that by auto
  then show ?thesis
    by (simp add: static_rank_candidates_def static_ranks.ranked_def Let_def flip: static_ranks.table_def)
qed

lemma static_sound_rank [simp]: "static_sound b c s (x\<lparr>pc_rank := r\<rparr>) = static_sound b c s x"
  by (simp add: static_sound_def static_complete_def)

lemma simulate_Inr:
  assumes "simulateStaticCenteredRanges sha256 now budget cost widths s = Inr sim"
  obtains cs where "rs_candidates sim = static_ranks.ranked cs" "map pc_halfWidthSpacings cs = sort widths"
    "distinct widths" "\<forall>c\<in>set cs. static_sound budget cost s c"
    "rs_completedCandidates sim = length (filter static_complete (rs_candidates sim))"
    "rs_excludedCandidates sim = length (filter (\<lambda>c. pc_status c = Excluded) (rs_candidates sim))"
proof -
  from assms obtain spacing cs where d: "distinct widths"
    and cs: "map_res (static_candidate budget cost s spacing) (sort widths) = Inr cs"
    and sim: "rs_candidates sim = static_rank_candidates cs"
      "rs_completedCandidates sim = length (filter static_complete (rs_candidates sim))"
      "rs_excludedCandidates sim = length (filter (\<lambda>c. pc_status c = Excluded) (rs_candidates sim))"
    by (auto simp: simulateStaticCenteredRanges_def checked_half_widths_def Let_def bind_ok_Inr_iff split: if_splits)
      blast+
  have l: "list_all2 (\<lambda>w c. static_candidate budget cost s spacing w = Inr c) (sort widths) cs"
    using cs by (simp add: map_res_Inr_iff)
  have w: "map pc_halfWidthSpacings cs = sort widths"
    using l static_candidate_sound by (induction rule: list_all2_induct) auto
  have sound: "\<forall>c\<in>set cs. static_sound budget cost s c \<and> pc_rank c = None"
    using map_res_set [OF cs] static_candidate_sound by blast
  have "distinct (map pc_halfWidthSpacings cs)" using d by (simp add: w)
  then show thesis
    using that [of cs] w d sound sim static_rank_candidates_ranked [of cs] by auto
qed

subsection \<open>Properties\<close>

text \<open>
  Every candidate of a static simulation is completed exactly when it has liquidity and
  the observed path stayed inside its range, and a completed candidate's books balance: its
  net value is the principal at the end plus fees and idle quote less the cost, its hold
  value is the starting inventory with the idle quote at the end price, and its alpha is its
  divergence plus its fees less the cost.
\<close>

theorem static_simulation_accounts:
  assumes "simulateStaticCenteredRanges sha256 now budget cost widths s = Inr sim"
    and "c \<in> set (rs_candidates sim)"
  shows "(pc_status c = Complete \<longleftrightarrow> pc_liquidity c \<noteq> 0 \<and> pc_tickLower c \<le> ss_pathMinTick s \<and>
      ss_pathMaxTick s < pc_tickUpper c) \<and>
    (pc_status c = Complete \<longrightarrow> (\<exists>principal fees net hodl.
      valueForLiquidity (ss_tokens s) (cp_sqrtPriceX96 (ss_toPool s))
        \<lparr>tb_tickLower = pc_tickLower c, tb_tickUpper = pc_tickUpper c\<rparr> (pc_liquidity c) = Inr principal \<and>
      quoteValue (pc_startAmount0 c) (pc_startAmount1 c) (ss_tokens s) (cp_sqrtPriceX96 (ss_toPool s)) =
        Inr (hodl - pc_idleQuote c) \<and>
      pc_feeValueQuote c = Some fees \<and> 0 \<le> fees \<and> pc_hodlEndValueQuote c = Some hodl \<and>
      pc_netEndValueQuote c = Some net \<and> net = principal + fees + pc_idleQuote c - cost \<and>
      pc_absolutePnlQuote c = Some (net - budget) \<and>
      (\<exists>d. pc_divergenceQuote c = Some d \<and> pc_lpAlphaQuote c = Some (d + fees - cost))))"
proof -
  obtain cs where cs: "rs_candidates sim = static_ranks.ranked cs" "\<forall>c\<in>set cs. static_sound budget cost s c"
    by (rule simulate_Inr [OF assms(1)])
  then have "static_sound budget cost s c" using assms(2) by (auto simp: static_ranks.ranked_def)
  then show ?thesis by (fastforce simp: static_sound_def static_complete_def)
qed

text \<open>
  The ranking of a static simulation is a ranking: exactly the completed candidates have
  a rank, the ranks are 1 up to the number of completed candidates, each given once, and a
  candidate comes before another exactly when its alpha is higher, or equal at a smaller
  width.
\<close>

theorem static_simulation_ranking:
  assumes "simulateStaticCenteredRanges sha256 now budget cost widths s = Inr sim"
  shows "map pc_halfWidthSpacings (rs_candidates sim) = sort widths \<and>
    rs_completedCandidates sim + rs_excludedCandidates sim = length widths \<and>
    (\<forall>c\<in>set (rs_candidates sim). pc_status c = Complete \<longleftrightarrow> pc_rank c \<noteq> None) \<and>
    set (map pc_rank (filter (\<lambda>c. pc_status c = Complete) (rs_candidates sim))) =
      Some ` {1..rs_completedCandidates sim} \<and>
    (\<forall>c\<in>set (rs_candidates sim). \<forall>c'\<in>set (rs_candidates sim).
      pc_status c = Complete \<and> pc_status c' = Complete \<longrightarrow>
      (the (pc_rank c) < the (pc_rank c') \<longleftrightarrow>
        the (pc_lpAlphaQuote c') < the (pc_lpAlphaQuote c) \<or>
        the (pc_lpAlphaQuote c') = the (pc_lpAlphaQuote c) \<and>
          pc_halfWidthSpacings c < pc_halfWidthSpacings c'))"
proof -
  obtain cs where cs: "rs_candidates sim = static_ranks.ranked cs" "map pc_halfWidthSpacings cs = sort widths"
      "distinct widths"
    and n: "rs_completedCandidates sim = length (filter static_complete (rs_candidates sim))"
      "rs_excludedCandidates sim = length (filter (\<lambda>c. pc_status c = Excluded) (rs_candidates sim))"
    by (rule simulate_Inr [OF assms])
  have d: "distinct (map pc_halfWidthSpacings cs)" using cs(2,3) by simp
  note r = static_ranks.ranked_ranks [OF d, folded cs(1)]
  have w: "map pc_halfWidthSpacings (rs_candidates sim) = sort widths"
    using cs(1,2) by (simp add: static_ranks.ranked_def comp_def)
  have e: "(\<lambda>c. pc_status c = Excluded) = (\<lambda>c. \<not> static_complete c)"
    by (rule ext) (metis candidate_status.exhaust candidate_status.distinct(1) static_complete_def)
  have "length (filter static_complete (rs_candidates sim)) = length (filter static_complete cs)"
    by (simp add: cs(1) static_ranks.ranked_def filter_map comp_def static_ranks.put_complete)
  moreover have "length (rs_candidates sim) = length widths"
    using arg_cong [OF w, of length] by simp
  ultimately show ?thesis
    using w r sum_length_filter_compl [of static_complete "rs_candidates sim"]
    by (simp add: n e static_complete_def static_alpha_def)
qed

subsection \<open>A simulated interval\<close>

definition sample_checkpoint :: RangePoolCheckpoint where
  "sample_checkpoint = \<lparr>feeGrowthGlobal0X128 = 0, feeGrowthGlobal1X128 = 0, cp_liquidity = 1,
     cp_sqrtPriceX96 = 79228162514264337593543950336, cp_tick = 0\<rparr>"

definition sample_run_at :: "int \<Rightarrow> AccountingRunReference" where
  "sample_run_at n = \<lparr>blockHash = ''h'', blockNumber = n, chainId = 1, observedAt = ''t'',
     runId = show_int n, blockTimestamp = ''t''\<rparr>"

definition sample_interval :: RangeSimulationSource where
  "sample_interval = \<lparr>ss_fee = 3000, ss_from = sample_run_at 1, ss_fromPool = sample_checkpoint,
     ss_pathMaxTick = 5, ss_pathMinTick = - 5, ss_poolAddress = ''0xp'', ss_tokens = sample_tokens,
     ss_rwaSymbol = ''NVDA'', ss_streamKey = ''s'', ss_swapCount = 1, ss_to = sample_run_at 2,
     ss_toPool = sample_checkpoint\<rparr>"

lemma sample_checkpoint_valid: "validateTickAndSqrtPrice sample_checkpoint = Inr ()"
proof -
  have "sqrt_ratio 0 = 79228162514264337593543950336" "sqrt_ratio 1 = 79232123823359799118286999568"
    by (simp_all add: tick_eval)
  then show ?thesis
    by (simp add: validateTickAndSqrtPrice_def sample_checkpoint_def safe_integer_def sqrtRatioAtTick_def
        requireTick_def tick_consts)
qed

lemma sample_range: "centeredRange 0 1 60 = Inr \<lparr>tb_tickLower = - 60, tb_tickUpper = 60\<rparr>"
  by (simp add: centeredRange_def safe_integer_def tick_consts Let_def)

lemma sample_quote: "0 \<le> a0 \<Longrightarrow> 0 \<le> a1 \<Longrightarrow> \<exists>v. quoteValue a0 a1 sample_tokens (2 ^ 96) = Inr v"
  by (simp add: quoteValue_Inr_iff quoteIsToken0_def quoteIsToken1_def sample_tokens_def lower_def lower_char_def)

lemma sample_candidate:
  "\<exists>c. static_candidate 1000000 0 sample_interval 60 1 = Inr c \<and> pc_status c = Complete"
proof -
  let ?rg = "\<lparr>tb_tickLower = - 60, tb_tickUpper = 60\<rparr>"
  obtain r where r: "sizeLiquidityForQuoteBudget 1000000 sample_tokens (2 ^ 96) ?rg = Inr r"
    "1000000 \<le> sz_liquidity r" using sample_sizing [of 1000000] by auto
  note s = size_Inr [OF r(1)]
  have v: "position_valid (sz_liquidity r) (2 ^ 96) (- 60) 60"
    using s(1,3,4) by (simp add: sizing_valid_def position_valid_def)
  then obtain pr where pr: "principalAmounts (sz_liquidity r) (2 ^ 96) (- 60) 60 = Inr pr"
    by (simp add: principalAmounts_Inr_iff)
  have ab: "0 < sqrt_ratio (- 60)" "sqrt_ratio (- 60) \<le> sqrt_ratio 60"
    using sizing_ratios [OF s(1)] by simp_all
  note n = amounts_at_nonneg [OF s(3) ab, of "2 ^ 96"]
  obtain v1 where v1: "quoteValue (amount0 pr) (amount1 pr) sample_tokens (2 ^ 96) = Inr v1"
    using n principalAmounts_amounts(2,3) [OF pr] sample_quote by auto
  obtain v2 where v2: "quoteValue 0 0 sample_tokens (2 ^ 96) = Inr v2" using sample_quote by blast
  have q: "\<not> quoteIsToken0 sample_tokens" "quoteIsToken1 sample_tokens"
    by (simp_all add: quoteIsToken0_def quoteIsToken1_def sample_tokens_def lower_def lower_char_def)
  obtain v3 where v3: "quoteValue (sz_amount0 r) (sz_amount1 r + idleQuote r) sample_tokens (2 ^ 96) = Inr v3"
    using n s(6,8,9) sample_quote [of "sz_amount0 r" "sz_amount1 r + idleQuote r"] by auto
  have "cp_sqrtPriceX96 sample_checkpoint = 2 ^ 96" "cp_tick sample_checkpoint = 0"
    "feeGrowthGlobal0X128 sample_checkpoint = 0" "feeGrowthGlobal1X128 sample_checkpoint = 0"
    by (simp_all add: sample_checkpoint_def)
  note cp = this
  have i: "ss_fromPool sample_interval = sample_checkpoint" "ss_toPool sample_interval = sample_checkpoint"
    "ss_tokens sample_interval = sample_tokens" "ss_pathMinTick sample_interval = - 5"
    "ss_pathMaxTick sample_interval = 5" by (simp_all add: sample_interval_def)
  have z: "subtractUint256 0 0 = 0" by (simp add: subtractUint256_mod Q256_def)
  have zd: "(0 :: int) sdiv Q128 = 0" by (simp add: sdiv_nonneg Q128_def)
  show ?thesis
    unfolding static_candidate_def i cp z sample_range bind_ok_simps Let_def r(1)
    using r(2) by (simp only: q if_True if_False mult_zero_left zd) (use pr v1 v2 v3 in simp)
qed

lemma sample_simulation:
  "\<exists>sim. simulateStaticCenteredRanges (\<lambda>x. x) ''now'' 1000000 0 [1] sample_interval = Inr sim \<and>
     (\<exists>c\<in>set (rs_candidates sim). pc_status c = Complete)"
proof -
  obtain c where c: "static_candidate 1000000 0 sample_interval 60 1 = Inr c" "pc_status c = Complete"
    using sample_candidate by blast
  have "static_validateSource sample_interval = Inr ()"
    using sample_checkpoint_valid
    by (simp add: static_validateSource_def sample_interval_def sample_run_at_def)
      (simp add: sample_checkpoint_def)
  moreover have "quoteIsToken0 (ss_tokens sample_interval) \<noteq> quoteIsToken1 (ss_tokens sample_interval)"
    by (simp add: sample_interval_def quoteIsToken0_def quoteIsToken1_def sample_tokens_def lower_def lower_char_def)
  moreover have "tickSpacingForFee (ss_fee sample_interval) = Inr 60"
    by (simp add: tickSpacingForFee_def sample_interval_def)
  ultimately show ?thesis
    using c by (auto simp: simulateStaticCenteredRanges_def checked_half_widths_def safe_integer_def
        static_rank_candidates_def static_complete_def Let_def)
qed

theorem static_simulation_accounts_witness:
  "\<exists>sim c fees d. simulateStaticCenteredRanges (\<lambda>x. x) ''now'' 1000000 0 [1] sample_interval = Inr sim \<and>
     c \<in> set (rs_candidates sim) \<and> pc_status c = Complete \<and> pc_feeValueQuote c = Some fees \<and>
     pc_lpAlphaQuote c = Some (d + fees)"
proof -
  obtain sim c where s: "simulateStaticCenteredRanges (\<lambda>x. x) ''now'' 1000000 0 [1] sample_interval = Inr sim"
    "c \<in> set (rs_candidates sim)" "pc_status c = Complete" using sample_simulation by blast
  from static_simulation_accounts [OF s(1,2)] s show ?thesis by fastforce
qed

theorem static_simulation_ranking_witness:
  "\<exists>sim c. simulateStaticCenteredRanges (\<lambda>x. x) ''now'' 1000000 0 [1] sample_interval = Inr sim \<and>
     c \<in> set (rs_candidates sim) \<and> pc_rank c \<noteq> None"
proof -
  obtain sim c where s: "simulateStaticCenteredRanges (\<lambda>x. x) ''now'' 1000000 0 [1] sample_interval = Inr sim"
    "c \<in> set (rs_candidates sim)" "pc_status c = Complete" using sample_simulation by blast
  from static_simulation_ranking [OF s(1)] s show ?thesis by blast
qed

end
