(* ===== verification/Policy_Replay.thy ===== *)
theory Policy_Replay
  imports Static_Sim
begin

section \<open>Replay of rebalancing range policies\<close>

text \<open>
  \<open>src/simulator/replay.ts\<close>: a policy holds a centered range over consecutive certified
  intervals, collects its share of the fee growth, and recenters when the tick has moved far
  enough.  The mutable variables of a candidate's loop are the record \<open>replay_vars\<close>; a
  \<open>break\<close> always sets \<open>failureReason\<close>, which is what ends the recursion here.
\<close>

record RangeReplayCheckpoint =
  ck_pool :: RangePoolCheckpoint
  ck_run :: AccountingRunReference

record RangeReplayInterval =
  iv_fromRunId :: string
  iv_pathMaxTick :: int
  iv_pathMinTick :: int
  iv_swapCount :: int
  iv_toRunId :: string

record RangePolicyReplaySource =
  ps_checkpoints :: "RangeReplayCheckpoint list"
  ps_fee :: int
  ps_intervals :: "RangeReplayInterval list"
  ps_poolAddress :: string
  ps_rwaSymbol :: string
  ps_streamKey :: string
  ps_tokens :: quote_tokens

record RangePolicyReplayStep =
  sp_actionCostQuote :: int
  sp_fee0 :: int
  sp_fee1 :: int
  sp_feeValueQuote :: int
  sp_fromRunId :: string
  sp_hodlValueQuote :: int
  sp_index :: nat
  sp_lpAlphaQuote :: int
  sp_navQuote :: int
  sp_pathMaxTick :: int
  sp_pathMinTick :: int
  sp_rebalanced :: bool
  sp_tickLower :: int
  sp_tickUpper :: int
  sp_toRunId :: string

record RangePolicyReplayCandidate =
  rcd_absolutePnlQuote :: "int option"
  rcd_completedIntervals :: nat
  rcd_failureReason :: "string option"
  rcd_failureRunId :: "string option"
  rcd_feeValueQuote :: int
  rcd_finalLiquidity :: "int option"
  rcd_finalNavQuote :: "int option"
  rcd_finalTickLower :: "int option"
  rcd_finalTickUpper :: "int option"
  rcd_halfWidthSpacings :: int
  rcd_hodlEndValueQuote :: "int option"
  rcd_lpAlphaQuote :: "int option"
  rcd_maxDrawdownPpm :: int
  rcd_rank :: "nat option"
  rcd_rebalances :: nat
  rcd_status :: candidate_status
  rcd_steps :: "RangePolicyReplayStep list"
  rcd_totalCostQuote :: int

record RangePolicyReplay =
  rr_assumptions :: "string list"
  rr_budgetQuote :: int
  rr_candidates :: "RangePolicyReplayCandidate list"
  rr_checkpointCount :: nat
  rr_completedCandidates :: nat
  rr_computedAt :: string
  rr_entryCostQuote :: int
  rr_excludedCandidates :: nat
  rr_executionEligible :: bool
  rr_fee :: int
  rr_first :: AccountingRunReference
  rr_intervalCount :: nat
  rr_last :: AccountingRunReference
  rr_methodology :: string
  rr_policySetHash :: string
  rr_poolAddress :: string
  rr_quoteDecimals :: int
  rr_rebalanceCostQuote :: int
  rr_rwaSymbol :: string
  rr_schemaVersion :: int
  rr_streamKey :: string
  rr_tickSpacing :: int
  rr_tokens :: quote_tokens
  rr_triggerPercent :: int

record CandidateState =
  ks_idle0 :: int
  ks_idle1 :: int
  ks_liquidity :: int
  ks_range :: TickBounds

text \<open>The two validation loops; a checkpoint is checked against its predecessor.\<close>

fun validate_checkpoints :: "int \<Rightarrow> int option \<Rightarrow> RangeReplayCheckpoint list \<Rightarrow> unit res" where
  "validate_checkpoints chain previous [] = Inr ()"
| "validate_checkpoints chain previous (c # cs) =
     bind_ok (validateTickAndSqrtPrice (ck_pool c)) (\<lambda>_.
       if cp_liquidity (ck_pool c) \<le> 0 then Inl ''Policy replay pool must have active endpoint liquidity''
       else if chainId (ck_run c) \<noteq> chain then Inl ''Policy replay checkpoints have different chain IDs''
       else if (case previous of None \<Rightarrow> False | Some b \<Rightarrow> b \<ge> blockNumber (ck_run c))
       then Inl ''Policy replay checkpoints must be strictly block-ordered''
       else validate_checkpoints chain (Some (blockNumber (ck_run c))) cs)"

definition validate_interval :: "RangeReplayInterval \<times> RangeReplayCheckpoint \<times> RangeReplayCheckpoint \<Rightarrow> unit res" where
  "validate_interval = (\<lambda>(i, from, to).
     if iv_fromRunId i \<noteq> runId (ck_run from) \<or> iv_toRunId i \<noteq> runId (ck_run to)
     then Inl ''Policy replay interval IDs do not match checkpoint order''
     else if iv_swapCount i < 0 \<or> iv_pathMinTick i > iv_pathMaxTick i \<or>
             iv_pathMinTick i > cp_tick (ck_pool from) \<or> iv_pathMinTick i > cp_tick (ck_pool to) \<or>
             iv_pathMaxTick i < cp_tick (ck_pool from) \<or> iv_pathMaxTick i < cp_tick (ck_pool to)
     then Inl ''Policy replay tick path does not include both endpoints'' else Inr ())"

text \<open>Each interval with the checkpoints before and after it.\<close>

definition interval_ends ::
  "RangePolicyReplaySource \<Rightarrow> (RangeReplayInterval \<times> RangeReplayCheckpoint \<times> RangeReplayCheckpoint) list" where
  "interval_ends s = zip (ps_intervals s) (zip (ps_checkpoints s) (tl (ps_checkpoints s)))"

definition policy_validateSource :: "RangePolicyReplaySource \<Rightarrow> unit res" where
  "policy_validateSource s =
     (if length (ps_checkpoints s) < 2 then Inl ''Policy replay requires at least two checkpoints''
      else if length (ps_intervals s) \<noteq> length (ps_checkpoints s) - 1
      then Inl ''Policy replay requires one interval between every checkpoint''
      else if quoteIsToken0 (ps_tokens s) = quoteIsToken1 (ps_tokens s)
      then Inl ''Policy replay pool must contain the quote token exactly once''
      else
        bind_ok (validate_checkpoints (chainId (ck_run (hd (ps_checkpoints s)))) None (ps_checkpoints s)) (\<lambda>_.
        bind_ok (map_res validate_interval (interval_ends s)) (\<lambda>_. Inr ())))"

definition addQuoteIdle :: "int \<Rightarrow> quote_tokens \<Rightarrow> CandidateState \<Rightarrow> CandidateState" where
  "addQuoteIdle amount t st =
     (if quoteIsToken0 t then st\<lparr>ks_idle0 := ks_idle0 st + amount\<rparr>
      else st\<lparr>ks_idle1 := ks_idle1 st + amount\<rparr>)"

definition holdings :: "int \<Rightarrow> CandidateState \<Rightarrow> (int \<times> int) res" where
  "holdings price st =
     bind_ok (principalAmounts (ks_liquidity st) price (tb_tickLower (ks_range st)) (tb_tickUpper (ks_range st)))
       (\<lambda>principal. Inr (amount0 principal + ks_idle0 st, amount1 principal + ks_idle1 st))"

definition maxDrawdownPpm :: "int \<Rightarrow> int \<Rightarrow> int" where
  "maxDrawdownPpm peak v = (if peak \<le> 0 \<or> v \<ge> peak then 0 else ((peak - v) * 1000000) sdiv peak)"

definition policy_hash :: "(string \<Rightarrow> string) \<Rightarrow> int \<Rightarrow> int \<Rightarrow> int list \<Rightarrow> int \<Rightarrow> int \<Rightarrow> string" where
  "policy_hash sha256 budget entryCost widths rebalanceCost triggerPercent =
     ''sha256:'' @ sha256 (json_object
       [(''budgetQuote'', quoted (show_int budget)), (''entryCostQuote'', quoted (show_int entryCost)),
        (''halfWidths'', json_ints widths), (''rebalanceCostQuote'', quoted (show_int rebalanceCost)),
        (''triggerPercent'', show_int triggerPercent)])"

record replay_config =
  cf_budget :: int
  cf_entryCost :: int
  cf_rebalanceCost :: int
  cf_triggerPercent :: int
  cf_spacing :: int
  cf_tokens :: quote_tokens

record replay_vars =
  rv_state :: CandidateState
  rv_steps :: "RangePolicyReplayStep list"
  rv_completedIntervals :: nat
  rv_cumulativeFeeValue :: int
  rv_failureReason :: "string option"
  rv_failureRunId :: "string option"
  rv_maxDrawdown :: int
  rv_peakNav :: int
  rv_rebalances :: nat
  rv_totalCost :: int

text \<open>
  The rebalancing branch at the end of an interval: the state, net asset value, action cost,
  whether it rebalanced, and the reason it failed.
\<close>

definition try_rebalance ::
  "replay_config \<Rightarrow> int \<Rightarrow> int \<Rightarrow> int \<Rightarrow> CandidateState \<Rightarrow> int \<Rightarrow>
   (CandidateState \<times> int \<times> int \<times> bool \<times> string option) res"
where
  "try_rebalance cf halfWidth tick price st nav =
     (if nav \<le> cf_rebalanceCost cf then Inr (st, nav, 0, False, Some ''rebalance_cost_exhausted_capital'')
      else
        let afterCost = nav - cf_rebalanceCost cf in
        bind_ok (centeredRange tick halfWidth (cf_spacing cf)) (\<lambda>nextRange.
        bind_ok (sizeLiquidityForQuoteBudget afterCost (cf_tokens cf) price nextRange) (\<lambda>nxt.
          if sz_liquidity nxt = 0
          then Inr (st, nav, 0, False, Some ''rebalance_budget_too_small_for_nonzero_liquidity'')
          else Inr (addQuoteIdle (idleQuote nxt) (cf_tokens cf)
                      \<lparr>ks_idle0 = 0, ks_idle1 = 0, ks_liquidity = sz_liquidity nxt, ks_range = nextRange\<rparr>,
                    afterCost, cf_rebalanceCost cf, True, None))))"

definition should_rebalance :: "replay_config \<Rightarrow> int \<Rightarrow> TickBounds \<Rightarrow> int \<Rightarrow> bool" where
  "should_rebalance cf halfWidth rg tick \<longleftrightarrow>
     (let centerTick = tb_tickLower rg + (tb_tickUpper rg - tb_tickLower rg) div 2;
          triggerSpacings = max 1 (halfWidth * cf_triggerPercent cf div 100)
      in \<bar>tick - centerTick\<bar> \<ge> triggerSpacings * cf_spacing cf)"

definition replay_interval ::
  "replay_config \<Rightarrow> int \<Rightarrow> int \<times> int \<Rightarrow>
   nat \<times> RangeReplayInterval \<times> RangeReplayCheckpoint \<times> RangeReplayCheckpoint \<Rightarrow> replay_vars \<Rightarrow> replay_vars res"
where
  "replay_interval cf halfWidth hodl arg v =
     (let (index, interval, from, to) = arg;
          st = rv_state v; rg = ks_range st;
          price = cp_sqrtPriceX96 (ck_pool to); t = cf_tokens cf in
      if iv_pathMinTick interval < tb_tickLower rg \<or> iv_pathMaxTick interval \<ge> tb_tickUpper rg
      then Inr (v\<lparr>rv_failureReason := Some ''observed_tick_path_crossed_range'',
                  rv_failureRunId := Some (runId (ck_run to))\<rparr>)
      else
        let fee0 = (subtractUint256 (feeGrowthGlobal0X128 (ck_pool to)) (feeGrowthGlobal0X128 (ck_pool from)) *
                    ks_liquidity st) sdiv Q128;
            fee1 = (subtractUint256 (feeGrowthGlobal1X128 (ck_pool to)) (feeGrowthGlobal1X128 (ck_pool from)) *
                    ks_liquidity st) sdiv Q128;
            st1 = st\<lparr>ks_idle0 := ks_idle0 st + fee0, ks_idle1 := ks_idle1 st + fee1\<rparr>
        in
        bind_ok (quoteValue fee0 fee1 t price) (\<lambda>feeValue.
        bind_ok (holdings price st1) (\<lambda>(h0, h1).
        bind_ok (quoteValue h0 h1 t price) (\<lambda>nav0.
        bind_ok (if should_rebalance cf halfWidth rg (cp_tick (ck_pool to))
                 then try_rebalance cf halfWidth (cp_tick (ck_pool to)) price st1 nav0
                 else Inr (st1, nav0, 0, False, None)) (\<lambda>(st2, nav, actionCost, rebalanced, failure).
        bind_ok (quoteValue (fst hodl) (snd hodl) t price) (\<lambda>hodlValue.
          let peakNav = (if nav > rv_peakNav v then nav else rv_peakNav v);
              drawdown = maxDrawdownPpm peakNav nav;
              step = \<lparr>sp_actionCostQuote = actionCost, sp_fee0 = fee0, sp_fee1 = fee1,
                sp_feeValueQuote = feeValue, sp_fromRunId = runId (ck_run from),
                sp_hodlValueQuote = hodlValue, sp_index = index, sp_lpAlphaQuote = nav - hodlValue,
                sp_navQuote = nav, sp_pathMaxTick = iv_pathMaxTick interval,
                sp_pathMinTick = iv_pathMinTick interval, sp_rebalanced = rebalanced,
                sp_tickLower = tb_tickLower rg, sp_tickUpper = tb_tickUpper rg,
                sp_toRunId = runId (ck_run to)\<rparr>
          in
          Inr \<lparr>rv_state = st2, rv_steps = rv_steps v @ [step],
               rv_completedIntervals = rv_completedIntervals v + 1,
               rv_cumulativeFeeValue = rv_cumulativeFeeValue v + feeValue,
               rv_failureReason = failure,
               rv_failureRunId = (if failure = None then rv_failureRunId v else Some (runId (ck_run to))),
               rv_maxDrawdown = (if drawdown > rv_maxDrawdown v then drawdown else rv_maxDrawdown v),
               rv_peakNav = peakNav,
               rv_rebalances = rv_rebalances v + (if rebalanced then 1 else 0),
               rv_totalCost = rv_totalCost v + (if rebalanced then actionCost else 0)\<rparr>))))))"

fun replay_intervals ::
  "replay_config \<Rightarrow> int \<Rightarrow> int \<times> int \<Rightarrow>
   (nat \<times> RangeReplayInterval \<times> RangeReplayCheckpoint \<times> RangeReplayCheckpoint) list \<Rightarrow> replay_vars \<Rightarrow> replay_vars res"
where
  "replay_intervals cf halfWidth hodl [] v = Inr v"
| "replay_intervals cf halfWidth hodl (x # xs) v =
     (if rv_failureReason v \<noteq> None then Inr v
      else bind_ok (replay_interval cf halfWidth hodl x v) (replay_intervals cf halfWidth hodl xs))"

definition replay_result :: "replay_config \<Rightarrow> int \<Rightarrow> replay_vars \<Rightarrow> RangePolicyReplayCandidate" where
  "replay_result cf halfWidth v =
     (let base = \<lparr>rcd_absolutePnlQuote = None, rcd_completedIntervals = rv_completedIntervals v,
            rcd_failureReason = rv_failureReason v, rcd_failureRunId = rv_failureRunId v,
            rcd_feeValueQuote = rv_cumulativeFeeValue v, rcd_finalLiquidity = None, rcd_finalNavQuote = None,
            rcd_finalTickLower = None, rcd_finalTickUpper = None, rcd_halfWidthSpacings = halfWidth,
            rcd_hodlEndValueQuote = None, rcd_lpAlphaQuote = None, rcd_maxDrawdownPpm = rv_maxDrawdown v,
            rcd_rank = None, rcd_rebalances = rv_rebalances v, rcd_status = Excluded,
            rcd_steps = rv_steps v, rcd_totalCostQuote = rv_totalCost v\<rparr>
      in
      if rv_failureReason v \<noteq> None then base
      else
        let finalStep = last (rv_steps v); finalNav = sp_navQuote finalStep;
            hodlEndValue = sp_hodlValueQuote finalStep
        in base\<lparr>rcd_absolutePnlQuote := Some (finalNav - cf_budget cf), rcd_failureRunId := None,
                rcd_finalLiquidity := Some (ks_liquidity (rv_state v)), rcd_finalNavQuote := Some finalNav,
                rcd_finalTickLower := Some (tb_tickLower (ks_range (rv_state v))),
                rcd_finalTickUpper := Some (tb_tickUpper (ks_range (rv_state v))),
                rcd_hodlEndValueQuote := Some hodlEndValue,
                rcd_lpAlphaQuote := Some (finalNav - hodlEndValue), rcd_status := Complete\<rparr>)"

definition replay_candidate ::
  "replay_config \<Rightarrow> RangePolicyReplaySource \<Rightarrow> int \<Rightarrow> RangePolicyReplayCandidate res" where
  "replay_candidate cf s halfWidth =
     (let first = hd (ps_checkpoints s); capital = cf_budget cf - cf_entryCost cf; t = cf_tokens cf in
      bind_ok (centeredRange (cp_tick (ck_pool first)) halfWidth (cf_spacing cf)) (\<lambda>rg.
      bind_ok (sizeLiquidityForQuoteBudget capital t (cp_sqrtPriceX96 (ck_pool first)) rg) (\<lambda>initial.
        if sz_liquidity initial = 0
        then Inr \<lparr>rcd_absolutePnlQuote = None, rcd_completedIntervals = 0,
            rcd_failureReason = Some ''budget_too_small_for_nonzero_liquidity'',
            rcd_failureRunId = Some (runId (ck_run first)),
            rcd_feeValueQuote = 0, rcd_finalLiquidity = None, rcd_finalNavQuote = None,
            rcd_finalTickLower = None, rcd_finalTickUpper = None, rcd_halfWidthSpacings = halfWidth,
            rcd_hodlEndValueQuote = None, rcd_lpAlphaQuote = None, rcd_maxDrawdownPpm = 0,
            rcd_rank = None, rcd_rebalances = 0, rcd_status = Excluded, rcd_steps = [],
            rcd_totalCostQuote = cf_entryCost cf\<rparr>
        else
          let st = \<lparr>ks_idle0 = (if quoteIsToken0 t then idleQuote initial else 0),
                    ks_idle1 = (if quoteIsToken0 t then 0 else idleQuote initial),
                    ks_liquidity = sz_liquidity initial, ks_range = rg\<rparr>;
              hodl = (sz_amount0 initial + ks_idle0 st, sz_amount1 initial + ks_idle1 st)
          in
          bind_ok (replay_intervals cf halfWidth hodl
                     (zip [0..<length (ps_intervals s)] (interval_ends s))
                     \<lparr>rv_state = st, rv_steps = [], rv_completedIntervals = 0, rv_cumulativeFeeValue = 0,
                      rv_failureReason = None, rv_failureRunId = None, rv_maxDrawdown = 0,
                      rv_peakNav = capital, rv_rebalances = 0, rv_totalCost = cf_entryCost cf\<rparr>) (\<lambda>v.
            Inr (replay_result cf halfWidth v)))))"

definition replay_complete :: "RangePolicyReplayCandidate \<Rightarrow> bool" where
  "replay_complete c \<longleftrightarrow> rcd_status c = Complete"

definition replay_alpha :: "RangePolicyReplayCandidate \<Rightarrow> int" where
  "replay_alpha c = the (rcd_lpAlphaQuote c)"

definition replay_rank_candidates :: "RangePolicyReplayCandidate list \<Rightarrow> RangePolicyReplayCandidate list" where
  "replay_rank_candidates cs =
     (let ranks = rank_table rcd_halfWidthSpacings (rank_order replay_complete replay_alpha rcd_halfWidthSpacings cs)
      in map (\<lambda>c. c\<lparr>rcd_rank := ranks (rcd_halfWidthSpacings c)\<rparr>) cs)"

definition replayRangePolicies ::
  "(string \<Rightarrow> string) \<Rightarrow> string \<Rightarrow> int \<Rightarrow> int \<Rightarrow> int list \<Rightarrow> int \<Rightarrow> RangePolicyReplaySource \<Rightarrow> int \<Rightarrow>
   RangePolicyReplay res"
where
  "replayRangePolicies sha256 now budget entryCost givenWidths rebalanceCost s triggerPercent =
     bind_ok (policy_validateSource s) (\<lambda>_.
       if budget \<le> 0 then Inl ''Policy replay budget must be positive''
       else if entryCost < 0 \<or> entryCost \<ge> budget
       then Inl ''Policy replay entry cost must be nonnegative and below budget''
       else if rebalanceCost < 0 then Inl ''Policy replay rebalance cost must be nonnegative''
       else if \<not> safe_integer triggerPercent \<or> triggerPercent < 1 \<or> triggerPercent > 100
       then Inl ''Policy replay trigger percent must be an integer from 1 to 100''
       else
         bind_ok (checked_half_widths givenWidths) (\<lambda>widths.
         bind_ok (tickSpacingForFee (ps_fee s)) (\<lambda>spacing.
         bind_ok (map_res (replay_candidate
             \<lparr>cf_budget = budget, cf_entryCost = entryCost, cf_rebalanceCost = rebalanceCost,
              cf_triggerPercent = triggerPercent, cf_spacing = spacing, cf_tokens = ps_tokens s\<rparr> s) widths) (\<lambda>cs.
           let completed = length (filter replay_complete cs) in
           Inr \<lparr>rr_assumptions =
                  [''pool spot, not oracle mark'', ''observed price path is unchanged'',
                   ''zero impact and no self-dilution'', ''ideal spot recomposition at triggers'',
                   ''operator-supplied costs are illustrative'', ''same post-entry inventory hold benchmark'',
                   ''fees remain idle until a rebalance'', ''crossed intervals stop without fee invention'',
                   ''trigger checks occur only at checkpoints''],
                rr_budgetQuote = budget, rr_candidates = replay_rank_candidates cs,
                rr_checkpointCount = length (ps_checkpoints s), rr_completedCandidates = completed,
                rr_computedAt = now, rr_entryCostQuote = entryCost,
                rr_excludedCandidates = length (replay_rank_candidates cs) - completed,
                rr_executionEligible = False, rr_fee = ps_fee s, rr_first = ck_run (hd (ps_checkpoints s)),
                rr_intervalCount = length (ps_intervals s), rr_last = ck_run (last (ps_checkpoints s)),
                rr_methodology = ''stateful_certified_interval_replay_v1'',
                rr_policySetHash = policy_hash sha256 budget entryCost widths rebalanceCost triggerPercent,
                rr_poolAddress = ps_poolAddress s, rr_quoteDecimals = 6,
                rr_rebalanceCostQuote = rebalanceCost, rr_rwaSymbol = ps_rwaSymbol s, rr_schemaVersion = 1,
                rr_streamKey = ps_streamKey s, rr_tickSpacing = spacing, rr_tokens = ps_tokens s,
                rr_triggerPercent = triggerPercent\<rparr>))))"

subsection \<open>Marking to market\<close>

definition marked :: "quote_tokens \<Rightarrow> int \<Rightarrow> CandidateState \<Rightarrow> int \<Rightarrow> bool" where
  "marked t price st nav \<longleftrightarrow>
     (\<exists>h0 h1. holdings price st = Inr (h0, h1) \<and> quoteValue h0 h1 t price = Inr nav)"

lemma marked_sized:
  assumes "sizeLiquidityForQuoteBudget budget t price rg = Inr r"
  shows "marked t price (addQuoteIdle (idleQuote r) t
    \<lparr>ks_idle0 = 0, ks_idle1 = 0, ks_liquidity = sz_liquidity r, ks_range = rg\<rparr>) budget"
proof -
  note s = size_Inr [OF assms]
  have v: "position_valid (sz_liquidity r) price (tb_tickLower rg) (tb_tickUpper rg)"
    using s(1,3,4) by (simp add: sizing_valid_def position_valid_def)
  note n = amounts_at_nonneg [OF s(3), of "sqrt_ratio (tb_tickLower rg)" "sqrt_ratio (tb_tickUpper rg)" price]
  let ?a = "amounts_at (sz_liquidity r) price (sqrt_ratio (tb_tickLower rg)) (sqrt_ratio (tb_tickUpper rg))"
  obtain pr where pr: "principalAmounts (sz_liquidity r) price (tb_tickLower rg) (tb_tickUpper rg) = Inr pr"
    using v by (simp add: principalAmounts_Inr_iff)
  note am = principalAmounts_amounts(2,3) [OF pr]
  have idle: "idleQuote r = budget - value_at t price (amount0 ?a) (amount1 ?a)"
    using s(5) by (simp add: position_worth_def Let_def)
  show ?thesis
    using n sizing_ratios [OF s(1)] s(1,6) value_at_idle [of t price "amount0 ?a" "idleQuote r" "amount1 ?a"]
    by (auto simp: marked_def holdings_def addQuoteIdle_def pr am quoteValue_Inr_iff sizing_valid_def idle
        split: if_splits)
qed

lemma try_rebalance_Inr:
  assumes "try_rebalance cf w tick price st nav0 = Inr (st', nav, cost, reb, failure)"
    and "marked (cf_tokens cf) price st nav0"
  shows "marked (cf_tokens cf) price st' nav" "reb \<longleftrightarrow> failure = None"
    "cost = (if reb then cf_rebalanceCost cf else 0)" "nav = nav0 - cost"
  using assms marked_sized
  by (auto simp: try_rebalance_def Let_def bind_ok_Inr_iff split: if_splits)

lemma marked_nonneg: "marked t price st nav \<Longrightarrow> 0 \<le> nav"
  by (auto simp: marked_def quoteValue_Inr_iff value_at_nonneg)

definition step_ok :: "replay_config \<Rightarrow> RangePolicyReplayStep \<Rightarrow> bool" where
  "step_ok cf st \<longleftrightarrow> sp_tickLower st \<le> sp_pathMinTick st \<and> sp_pathMaxTick st < sp_tickUpper st \<and>
     sp_actionCostQuote st = (if sp_rebalanced st then cf_rebalanceCost cf else 0) \<and>
     sp_lpAlphaQuote st = sp_navQuote st - sp_hodlValueQuote st \<and> 0 \<le> sp_navQuote st"

definition books_ok :: "replay_config \<Rightarrow> replay_vars \<Rightarrow> bool" where
  "books_ok cf v \<longleftrightarrow>
     rv_completedIntervals v = length (rv_steps v) \<and>
     rv_cumulativeFeeValue v = sum_list (map sp_feeValueQuote (rv_steps v)) \<and>
     rv_rebalances v = length (filter sp_rebalanced (rv_steps v)) \<and>
     rv_totalCost v = cf_entryCost cf + int (rv_rebalances v) * cf_rebalanceCost cf \<and>
     (\<forall>st\<in>set (rv_steps v). step_ok cf st) \<and>
     0 \<le> rv_maxDrawdown v \<and> rv_maxDrawdown v \<le> 1000000"

lemma maxDrawdownPpm_range: "0 \<le> v \<Longrightarrow> 0 \<le> maxDrawdownPpm peak v \<and> maxDrawdownPpm peak v \<le> 1000000"
proof -
  assume v: "0 \<le> v"
  have "(peak - v) * 1000000 div peak \<le> 1000000" "0 \<le> (peak - v) * 1000000 div peak" if "0 < peak" "v < peak"
    using that v by (simp_all add: div_le_iff pos_imp_zdiv_nonneg_iff algebra_simps)
  then show ?thesis by (simp add: maxDrawdownPpm_def sdiv_nonneg)
qed

lemma replay_interval_Inr:
  assumes r: "replay_interval cf w hodl (i, iv, from, to) v = Inr v'" and "books_ok cf v"
    and "rv_failureReason v = None"
  shows "books_ok cf v'"
    and "rv_failureReason v' = None \<Longrightarrow> length (rv_steps v') = Suc (length (rv_steps v)) \<and>
      marked (cf_tokens cf) (cp_sqrtPriceX96 (ck_pool to)) (rv_state v') (sp_navQuote (last (rv_steps v')))"
proof -
  let ?rg = "ks_range (rv_state v)" and ?p = "cp_sqrtPriceX96 (ck_pool to)" and ?t = "cf_tokens cf"
  have "books_ok cf v' \<and> (rv_failureReason v' = None \<longrightarrow> length (rv_steps v') = Suc (length (rv_steps v)) \<and>
      marked ?t ?p (rv_state v') (sp_navQuote (last (rv_steps v'))))"
  proof (cases "iv_pathMinTick iv < tb_tickLower ?rg \<or> iv_pathMaxTick iv \<ge> tb_tickUpper ?rg")
    case True
    then show ?thesis using r assms(2) by (auto simp: replay_interval_def Let_def books_ok_def)
  next
    case False
    define fee0 where "fee0 = (subtractUint256 (feeGrowthGlobal0X128 (ck_pool to))
      (feeGrowthGlobal0X128 (ck_pool from)) * ks_liquidity (rv_state v)) sdiv Q128"
    define fee1 where "fee1 = (subtractUint256 (feeGrowthGlobal1X128 (ck_pool to))
      (feeGrowthGlobal1X128 (ck_pool from)) * ks_liquidity (rv_state v)) sdiv Q128"
    define st1 where "st1 = (rv_state v)\<lparr>ks_idle0 := ks_idle0 (rv_state v) + fee0,
      ks_idle1 := ks_idle1 (rv_state v) + fee1\<rparr>"
    define R where "R nav0 = (if should_rebalance cf w ?rg (cp_tick (ck_pool to))
      then try_rebalance cf w (cp_tick (ck_pool to)) ?p st1 nav0 else Inr (st1, nav0, 0, False, None))" for nav0
    note r1 = r [unfolded replay_interval_def Let_def prod.case, folded fee0_def fee1_def,
        folded st1_def, folded R_def]
    from r1 False obtain feeValue h0 h1 nav0 where f: "quoteValue fee0 fee1 ?t ?p = Inr feeValue"
      and m0: "holdings ?p st1 = Inr (h0, h1)" "quoteValue h0 h1 ?t ?p = Inr nav0"
      by (auto simp: bind_ok_Inr_iff)
    from r1 False f m0 obtain st2 nav cost reb failure where R: "R nav0 = Inr (st2, nav, cost, reb, failure)"
      by (auto simp: bind_ok_Inr_iff)
    from r1 False f m0 R obtain hv where hv: "quoteValue (fst hodl) (snd hodl) ?t ?p = Inr hv"
      by (auto simp: bind_ok_Inr_iff)
    let ?peak = "if nav > rv_peakNav v then nav else rv_peakNav v"
    have v': "rv_state v' = st2" "rv_failureReason v' = failure"
        "rv_steps v' = rv_steps v @ [\<lparr>sp_actionCostQuote = cost, sp_fee0 = fee0,
           sp_fee1 = fee1, sp_feeValueQuote = feeValue, sp_fromRunId = runId (ck_run from),
           sp_hodlValueQuote = hv, sp_index = i, sp_lpAlphaQuote = nav - hv, sp_navQuote = nav,
           sp_pathMaxTick = iv_pathMaxTick iv, sp_pathMinTick = iv_pathMinTick iv, sp_rebalanced = reb,
           sp_tickLower = tb_tickLower ?rg, sp_tickUpper = tb_tickUpper ?rg, sp_toRunId = runId (ck_run to)\<rparr>]"
        "rv_completedIntervals v' = rv_completedIntervals v + 1"
        "rv_cumulativeFeeValue v' = rv_cumulativeFeeValue v + feeValue"
        "rv_rebalances v' = rv_rebalances v + (if reb then 1 else 0)"
        "rv_totalCost v' = rv_totalCost v + (if reb then cost else 0)"
        "rv_maxDrawdown v' = max (rv_maxDrawdown v) (maxDrawdownPpm ?peak nav)"
      using r1 False f m0 R hv by (auto simp: max_def)
    have m1: "marked ?t ?p st1 nav0" using m0 by (auto simp: marked_def)
    have m2: "marked ?t ?p st2 nav \<and> cost = (if reb then cf_rebalanceCost cf else 0)"
      using R m1 try_rebalance_Inr [OF _ m1]
      by (cases "should_rebalance cf w ?rg (cp_tick (ck_pool to))") (auto simp: R_def)
    then have "0 \<le> nav" using marked_nonneg by blast
    with m2 show ?thesis
      using assms(2) False maxDrawdownPpm_range [of nav ?peak]
      by (auto simp: books_ok_def v' step_ok_def algebra_simps)
  qed
  then show "books_ok cf v'"
    and "rv_failureReason v' = None \<Longrightarrow> length (rv_steps v') = Suc (length (rv_steps v)) \<and>
      marked ?t ?p (rv_state v') (sp_navQuote (last (rv_steps v')))" by auto
qed

lemma replay_intervals_Inr:
  assumes "replay_intervals cf w hodl xs v = Inr v'" "books_ok cf v" "rv_failureReason v = None"
  shows "books_ok cf v' \<and> (rv_failureReason v' = None \<longrightarrow>
    length (rv_steps v') = length (rv_steps v) + length xs \<and>
    (xs \<noteq> [] \<longrightarrow> marked (cf_tokens cf) (cp_sqrtPriceX96 (ck_pool (snd (snd (snd (last xs))))))
      (rv_state v') (sp_navQuote (last (rv_steps v')))))"
  using assms
proof (induction xs arbitrary: v)
  case Nil
  then show ?case by simp
next
  case (Cons x xs)
  obtain i iv src dst where x: "x = (i, iv, src, dst)" by (cases x) auto
  from Cons.prems obtain v1 where v1: "replay_interval cf w hodl (i, iv, src, dst) v = Inr v1"
    and rest: "replay_intervals cf w hodl xs v1 = Inr v'"
    by (auto simp: x bind_ok_Inr_iff)
  note s = replay_interval_Inr [OF v1 Cons.prems(2,3)]
  show ?case
  proof (cases "rv_failureReason v1")
    case None
    from Cons.IH [OF rest s(1) None] s(2) [OF None] rest show ?thesis
      by (cases xs) (auto simp: x)
  next
    case (Some e)
    then have "v' = v1" using rest by (cases xs) auto
    with Some s(1) show ?thesis by simp
  qed
qed

definition last_price :: "RangePolicyReplaySource \<Rightarrow> int" where
  "last_price s = cp_sqrtPriceX96 (ck_pool (last (ps_checkpoints s)))"

definition replay_sound :: "replay_config \<Rightarrow> RangePolicyReplaySource \<Rightarrow> RangePolicyReplayCandidate \<Rightarrow> bool" where
  "replay_sound cf s c \<longleftrightarrow>
     rcd_completedIntervals c = length (rcd_steps c) \<and>
     rcd_feeValueQuote c = sum_list (map sp_feeValueQuote (rcd_steps c)) \<and>
     rcd_rebalances c = length (filter sp_rebalanced (rcd_steps c)) \<and>
     rcd_totalCostQuote c = cf_entryCost cf + int (rcd_rebalances c) * cf_rebalanceCost cf \<and>
     (\<forall>st\<in>set (rcd_steps c). step_ok cf st) \<and>
     0 \<le> rcd_maxDrawdownPpm c \<and> rcd_maxDrawdownPpm c \<le> 1000000 \<and>
     (replay_complete c \<longleftrightarrow> rcd_failureReason c = None) \<and>
     (replay_complete c \<longrightarrow> (\<exists>nav L lo hi h0 h1.
        rcd_completedIntervals c = length (ps_intervals s) \<and>
        rcd_finalNavQuote c = Some nav \<and> rcd_finalLiquidity c = Some L \<and>
        rcd_finalTickLower c = Some lo \<and> rcd_finalTickUpper c = Some hi \<and>
        marked (cf_tokens cf) (last_price s) \<lparr>ks_idle0 = h0, ks_idle1 = h1, ks_liquidity = L,
          ks_range = \<lparr>tb_tickLower = lo, tb_tickUpper = hi\<rparr>\<rparr> nav \<and>
        rcd_absolutePnlQuote c = Some (nav - cf_budget cf)))"

lemma last_interval_end:
  assumes "length (ps_intervals s) = length (ps_checkpoints s) - 1" "2 \<le> length (ps_checkpoints s)"
  shows "snd (snd (last (interval_ends s))) = last (ps_checkpoints s)"
    "length (interval_ends s) = length (ps_intervals s)" "interval_ends s \<noteq> []"
  using zip_neighbours [OF assms] unfolding interval_ends_def by simp_all

lemma replay_candidate_sound:
  assumes "replay_candidate cf s w = Inr c"
    and len: "length (ps_intervals s) = length (ps_checkpoints s) - 1" "2 \<le> length (ps_checkpoints s)"
  shows "replay_sound cf s c \<and> rcd_halfWidthSpacings c = w"
proof -
  note e = last_interval_end [OF len]
  let ?xs = "zip [0..<length (ps_intervals s)] (interval_ends s)"
  have xs: "length ?xs = length (ps_intervals s)" "?xs \<noteq> []" using e by (auto simp: zip_eq_Nil_iff)
  have lx: "snd (snd (snd (last ?xs))) = last (ps_checkpoints s)"
    unfolding e(1) [symmetric] using e(2,3) last_indexed [of "interval_ends s"] by simp
  from assms(1) consider "rcd_steps c = []" "rcd_completedIntervals c = 0" "rcd_feeValueQuote c = 0" "rcd_rebalances c = 0"
      "rcd_totalCostQuote c = cf_entryCost cf" "rcd_maxDrawdownPpm c = 0" "rcd_status c = Excluded"
      "rcd_failureReason c \<noteq> None" "rcd_halfWidthSpacings c = w"
    | st hodl capital v where "replay_intervals cf w hodl ?xs
         \<lparr>rv_state = st, rv_steps = [], rv_completedIntervals = 0, rv_cumulativeFeeValue = 0,
          rv_failureReason = None, rv_failureRunId = None, rv_maxDrawdown = 0,
          rv_peakNav = capital, rv_rebalances = 0, rv_totalCost = cf_entryCost cf\<rparr> = Inr v"
       "c = replay_result cf w v"
    by (auto simp: replay_candidate_def Let_def bind_ok_Inr_iff split: if_split_asm)
  then show ?thesis
  proof cases
    case 1
    then show ?thesis by (simp add: replay_sound_def replay_complete_def)
  next
    case (2 st hodl capital v)
    have "books_ok cf v \<and> (rv_failureReason v = None \<longrightarrow> length (rv_steps v) = length ?xs \<and>
        marked (cf_tokens cf) (last_price s) (rv_state v) (sp_navQuote (last (rv_steps v))))"
      using replay_intervals_Inr [OF 2(1)] xs lx by (simp add: books_ok_def last_price_def)
    moreover obtain k0 k1 L lo hi where "rv_state v = \<lparr>ks_idle0 = k0, ks_idle1 = k1, ks_liquidity = L,
          ks_range = \<lparr>tb_tickLower = lo, tb_tickUpper = hi\<rparr>\<rparr>"
      by (metis CandidateState.cases TickBounds.cases old.unit.exhaust)
    ultimately show ?thesis
      using xs(1) by (auto simp: 2(2) replay_result_def books_ok_def replay_sound_def replay_complete_def Let_def)
  qed
qed

interpretation replay_ranks: candidate_ranking replay_complete replay_alpha rcd_halfWidthSpacings rcd_rank
  "\<lambda>r c. c\<lparr>rcd_rank := r\<rparr>"
  by unfold_locales (simp_all add: replay_complete_def replay_alpha_def)

lemma replay_sound_rank [simp]: "replay_sound cf s (c\<lparr>rcd_rank := r\<rparr>) = replay_sound cf s c"
  by (simp add: replay_sound_def replay_complete_def)

lemma replay_policies_Inr:
  assumes "replayRangePolicies sha256 now budget entryCost widths rebalanceCost s trigger = Inr rep"
  obtains cs cf where "rr_candidates rep = replay_ranks.ranked cs" "map rcd_halfWidthSpacings cs = sort widths"
    "distinct widths" "\<forall>c\<in>set cs. replay_sound cf s c"
    "cf_budget cf = budget" "cf_entryCost cf = entryCost" "cf_rebalanceCost cf = rebalanceCost" "cf_tokens cf = ps_tokens s"
    "rr_completedCandidates rep = length (filter replay_complete cs)"
    "rr_excludedCandidates rep = length cs - length (filter replay_complete cs)"
proof -
  from assms obtain spacing cs where len: "2 \<le> length (ps_checkpoints s)"
      "length (ps_intervals s) = length (ps_checkpoints s) - 1" and d: "distinct widths"
    and cs: "map_res (replay_candidate
             \<lparr>cf_budget = budget, cf_entryCost = entryCost, cf_rebalanceCost = rebalanceCost,
              cf_triggerPercent = trigger, cf_spacing = spacing, cf_tokens = ps_tokens s\<rparr> s) (sort widths) = Inr cs"
    and rep: "rr_candidates rep = replay_rank_candidates cs"
      "rr_completedCandidates rep = length (filter replay_complete cs)"
      "rr_excludedCandidates rep = length (replay_rank_candidates cs) - length (filter replay_complete cs)"
    by (auto simp: replayRangePolicies_def policy_validateSource_def checked_half_widths_def Let_def
        bind_ok_Inr_iff split: if_splits) blast
  note snd = replay_candidate_sound [OF _ len(2,1)]
  have "list_all2 (\<lambda>w c. rcd_halfWidthSpacings c = w) (sort widths) cs"
    using cs snd unfolding map_res_Inr_iff by (auto elim!: list_all2_mono)
  then have w: "map rcd_halfWidthSpacings cs = sort widths" by (induction rule: list_all2_induct) auto
  have "replay_rank_candidates cs = replay_ranks.ranked cs" "length (replay_rank_candidates cs) = length cs"
    by (simp_all add: replay_rank_candidates_def replay_ranks.ranked_def replay_ranks.table_def Let_def)
  then show thesis
    using that [OF _ w d, of "\<lparr>cf_budget = budget, cf_entryCost = entryCost, cf_rebalanceCost = rebalanceCost,
              cf_triggerPercent = trigger, cf_spacing = spacing, cf_tokens = ps_tokens s\<rparr>"]
      map_res_set [OF cs] snd rep by auto
qed

subsection \<open>What a replay reports\<close>


text \<open>
  The ranking of a policy replay is a ranking: exactly the completed candidates have a
  rank, the ranks are 1 up to the number of completed candidates, each given once, and a
  candidate comes before another exactly when its alpha is higher, or equal at a smaller
  width.
\<close>

theorem replay_policy_ranking:
  assumes "replayRangePolicies sha256 now budget entryCost widths rebalanceCost s trigger = Inr rep"
  shows "map rcd_halfWidthSpacings (rr_candidates rep) = sort widths \<and>
    rr_completedCandidates rep + rr_excludedCandidates rep = length widths \<and>
    (\<forall>c\<in>set (rr_candidates rep). rcd_status c = Complete \<longleftrightarrow> rcd_rank c \<noteq> None) \<and>
    set (map rcd_rank (filter (\<lambda>c. rcd_status c = Complete) (rr_candidates rep))) =
      Some ` {1..rr_completedCandidates rep} \<and>
    (\<forall>c\<in>set (rr_candidates rep). \<forall>c'\<in>set (rr_candidates rep).
      rcd_status c = Complete \<and> rcd_status c' = Complete \<longrightarrow>
      (the (rcd_rank c) < the (rcd_rank c') \<longleftrightarrow>
        the (rcd_lpAlphaQuote c') < the (rcd_lpAlphaQuote c) \<or>
        the (rcd_lpAlphaQuote c') = the (rcd_lpAlphaQuote c) \<and>
          rcd_halfWidthSpacings c < rcd_halfWidthSpacings c'))"
proof -
  obtain cs where cs: "rr_candidates rep = replay_ranks.ranked cs" "map rcd_halfWidthSpacings cs = sort widths"
      "distinct widths"
    and n: "rr_completedCandidates rep = length (filter replay_complete cs)"
      "rr_excludedCandidates rep = length cs - length (filter replay_complete cs)"
    by (rule replay_policies_Inr [OF assms])
  have d: "distinct (map rcd_halfWidthSpacings cs)" using cs(2,3) by simp
  note r = replay_ranks.ranked_ranks [OF d, folded cs(1)]
  have w: "map rcd_halfWidthSpacings (rr_candidates rep) = sort widths"
    using cs(1,2) by (simp add: replay_ranks.ranked_def comp_def)
  have "length (filter replay_complete (rr_candidates rep)) = length (filter replay_complete cs)"
    by (simp add: cs(1) replay_ranks.ranked_def filter_map comp_def replay_ranks.put_complete)
  moreover have "length cs = length widths"
    using arg_cong [OF cs(2), of length] by simp
  moreover have "length (filter replay_complete cs) \<le> length cs" by simp
  ultimately show ?thesis
    using w r by (simp add: n replay_complete_def replay_alpha_def)
qed

text \<open>
  A rebalance pays exactly its cost: a position worth \<open>nav\<close> at the price, idle tokens
  included, becomes one worth \<open>nav\<close> less the rebalance cost at the same price, and is left
  as it was, at no cost, when the rebalance does not happen.
\<close>

theorem rebalance_conserves_value:
  assumes "try_rebalance cf w tick price st nav = Inr (st', nav', cost, rebalanced, failure)"
    and "marked (cf_tokens cf) price st nav"
  shows "marked (cf_tokens cf) price st' nav' \<and> nav' = nav - cost \<and>
    (rebalanced \<longleftrightarrow> failure = None) \<and> cost = (if rebalanced then cf_rebalanceCost cf else 0) \<and>
    (rebalanced \<longrightarrow> 0 < ks_liquidity st' \<and> centeredRange tick w (cf_spacing cf) = Inr (ks_range st'))"
proof -
  have "rebalanced \<Longrightarrow> 0 < ks_liquidity st' \<and> centeredRange tick w (cf_spacing cf) = Inr (ks_range st')"
    using assms(1) size_Inr(3)
    by (fastforce simp: try_rebalance_def Let_def bind_ok_Inr_iff addQuoteIdle_def order_less_le split: if_splits)
  with try_rebalance_Inr [OF assms] show ?thesis by blast
qed

subsection \<open>A replayed interval\<close>

definition sample_policy_source :: RangePolicyReplaySource where
  "sample_policy_source = \<lparr>ps_checkpoints = [\<lparr>ck_pool = sample_checkpoint, ck_run = sample_run_at 1\<rparr>,
       \<lparr>ck_pool = sample_checkpoint, ck_run = sample_run_at 2\<rparr>],
     ps_fee = 3000, ps_intervals = [\<lparr>iv_fromRunId = show_int 1, iv_pathMaxTick = 5, iv_pathMinTick = - 5,
       iv_swapCount = 1, iv_toRunId = show_int 2\<rparr>],
     ps_poolAddress = ''0xp'', ps_rwaSymbol = ''NVDA'', ps_streamKey = ''s'', ps_tokens = sample_tokens\<rparr>"

definition sample_replay_config :: replay_config where
  "sample_replay_config = \<lparr>cf_budget = 1000000, cf_entryCost = 0, cf_rebalanceCost = 10,
     cf_triggerPercent = 100, cf_spacing = 60, cf_tokens = sample_tokens\<rparr>"

lemma sample_quote_in: "\<not> quoteIsToken0 sample_tokens" "quoteIsToken1 sample_tokens"
  by (simp_all add: quoteIsToken0_def quoteIsToken1_def sample_tokens_def lower_def lower_char_def)

lemma sample_pool: "cp_sqrtPriceX96 sample_checkpoint = 2 ^ 96" "cp_tick sample_checkpoint = 0"
    "feeGrowthGlobal0X128 sample_checkpoint = 0" "feeGrowthGlobal1X128 sample_checkpoint = 0"
    "cp_liquidity sample_checkpoint = 1"
  by (simp_all add: sample_checkpoint_def)

lemma sample_replay_candidate:
  "\<exists>c. replay_candidate sample_replay_config sample_policy_source 1 = Inr c \<and> rcd_status c = Complete"
proof -
  let ?rg = "\<lparr>tb_tickLower = - 60, tb_tickUpper = 60\<rparr>"
  obtain r where r: "sizeLiquidityForQuoteBudget 1000000 sample_tokens (2 ^ 96) ?rg = Inr r"
    "1000000 \<le> sz_liquidity r" using sample_sizing [of 1000000] by auto
  note s = size_Inr [OF r(1)]
  have v: "position_valid (sz_liquidity r) (2 ^ 96) (- 60) 60"
    using s(1,3,4) by (simp add: sizing_valid_def position_valid_def)
  then obtain pr where pr: "principalAmounts (sz_liquidity r) (2 ^ 96) (- 60) 60 = Inr pr"
    by (simp add: principalAmounts_Inr_iff)
  have ab: "0 < sqrt_ratio (- 60)" "sqrt_ratio (- 60) \<le> sqrt_ratio 60"
    using sizing_ratios [OF s(1)] by simp_all
  note n = amounts_at_nonneg [OF s(3) ab, of "2 ^ 96"]
  obtain v1 where v1: "quoteValue (amount0 pr) (amount1 pr + idleQuote r) sample_tokens (2 ^ 96) = Inr v1"
    using n s(6) principalAmounts_amounts(2,3) [OF pr] sample_quote [of "amount0 pr" "amount1 pr + idleQuote r"] by auto
  obtain v2 where v2: "quoteValue 0 0 sample_tokens (2 ^ 96) = Inr v2" using sample_quote by blast
  obtain v3 where v3: "quoteValue (sz_amount0 r) (sz_amount1 r + idleQuote r) sample_tokens (2 ^ 96) = Inr v3"
    using n s(6,8,9) sample_quote [of "sz_amount0 r" "sz_amount1 r + idleQuote r"] by auto
  have z: "subtractUint256 0 0 = 0" by (simp add: subtractUint256_mod Q256_def)
  have zd: "(0 :: int) sdiv Q128 = 0" by (simp add: sdiv_nonneg Q128_def)
  define st where "st = \<lparr>ks_idle0 = 0, ks_idle1 = idleQuote r, ks_liquidity = sz_liquidity r, ks_range = ?rg\<rparr>"
  have h: "holdings (2 ^ 96) st = Inr (amount0 pr, amount1 pr + idleQuote r)"
    using pr by (simp add: holdings_def st_def)
  define ends where "ends = interval_ends sample_policy_source"
  have ends: "ends = [(\<lparr>iv_fromRunId = show_int 1, iv_pathMaxTick = 5, iv_pathMinTick = - 5,
       iv_swapCount = 1, iv_toRunId = show_int 2\<rparr>, \<lparr>ck_pool = sample_checkpoint, ck_run = sample_run_at 1\<rparr>,
       \<lparr>ck_pool = sample_checkpoint, ck_run = sample_run_at 2\<rparr>)]"
    by (simp add: ends_def interval_ends_def sample_policy_source_def)
  have nr: "\<not> should_rebalance sample_replay_config 1 ?rg 0"
    by (simp add: should_rebalance_def sample_replay_config_def)
  have step: "\<exists>v'. replay_interval sample_replay_config 1 (sz_amount0 r, sz_amount1 r + idleQuote r)
      (0, hd ends) v = Inr v' \<and> rv_failureReason v' = None" if "rv_state v = st" for v
  proof -
    have "st\<lparr>ks_idle0 := ks_idle0 st + 0, ks_idle1 := ks_idle1 st + 0\<rparr> = st" "ks_range st = ?rg"
      by (simp_all add: st_def)
    then show ?thesis
      unfolding replay_interval_def ends list.sel Let_def prod.case that
      using z zd h v1 v2 v3 nr
      by (simp add: sample_pool sample_replay_config_def)
  qed
  have t: "cf_tokens sample_replay_config = sample_tokens" "cf_spacing sample_replay_config = 60"
    "cf_budget sample_replay_config = 1000000" "cf_entryCost sample_replay_config = 0"
    by (simp_all add: sample_replay_config_def)
  have p: "ck_pool (hd (ps_checkpoints sample_policy_source)) = sample_checkpoint"
    "length (ps_intervals sample_policy_source) = Suc 0"
    by (simp_all add: sample_policy_source_def)
  have e: "zip [0..<Suc 0] ends = [(0, hd ends)]" by (simp add: ends)
  define v0 where "v0 = \<lparr>rv_state = st, rv_steps = [], rv_completedIntervals = 0, rv_cumulativeFeeValue = 0,
      rv_failureReason = None, rv_failureRunId = None, rv_maxDrawdown = 0,
      rv_peakNav = 1000000, rv_rebalances = 0, rv_totalCost = 0\<rparr>"
  obtain v' where v': "replay_interval sample_replay_config 1 (sz_amount0 r, sz_amount1 r + idleQuote r)
      (0, hd ends) v0 = Inr v'" "rv_failureReason v' = None"
    using step [of v0] by (auto simp: v0_def)
  have i: "ks_idle0 st = 0" "ks_idle1 st = idleQuote r" "rv_failureReason v0 = None"
    by (simp_all add: st_def v0_def)
  have "replay_candidate sample_replay_config sample_policy_source 1 = Inr (replay_result sample_replay_config 1 v')"
    unfolding replay_candidate_def Let_def t p sample_pool sample_range bind_ok_simps ends_def [symmetric] e
    using r v' by (simp add: sample_quote_in i st_def [symmetric] v0_def [symmetric])
  with v'(2) show ?thesis by (simp add: replay_result_def Let_def)
qed

lemma sample_policy_replay:
  "\<exists>rep. replayRangePolicies (\<lambda>x. x) ''now'' 1000000 0 [1] 10 sample_policy_source 100 = Inr rep \<and>
     (\<exists>c\<in>set (rr_candidates rep). rcd_status c = Complete)"
proof -
  obtain c where c: "replay_candidate sample_replay_config sample_policy_source 1 = Inr c" "rcd_status c = Complete"
    using sample_replay_candidate by blast
  have "policy_validateSource sample_policy_source = Inr ()"
    using sample_checkpoint_valid sample_quote_in
    by (simp add: policy_validateSource_def sample_policy_source_def sample_run_at_def sample_pool
        validate_interval_def interval_ends_def)
  moreover have "tickSpacingForFee (ps_fee sample_policy_source) = Inr 60"
    by (simp add: tickSpacingForFee_def sample_policy_source_def)
  moreover have "ps_tokens sample_policy_source = sample_tokens"
    by (simp add: sample_policy_source_def)
  ultimately show ?thesis
    using c by (auto simp: replayRangePolicies_def checked_half_widths_def safe_integer_def
        replay_rank_candidates_def replay_complete_def Let_def sample_replay_config_def)
qed


theorem replay_policy_ranking_witness:
  "\<exists>rep c. replayRangePolicies (\<lambda>x. x) ''now'' 1000000 0 [1] 10 sample_policy_source 100 = Inr rep \<and>
     c \<in> set (rr_candidates rep) \<and> rcd_rank c \<noteq> None"
proof -
  obtain rep c where s: "replayRangePolicies (\<lambda>x. x) ''now'' 1000000 0 [1] 10 sample_policy_source 100 = Inr rep"
    "c \<in> set (rr_candidates rep)" "rcd_status c = Complete" using sample_policy_replay by blast
  from replay_policy_ranking [OF s(1)] s show ?thesis by blast
qed

theorem rebalance_conserves_value_witness:
  "\<exists>st st'. marked sample_tokens (2 ^ 96) st 1000000 \<and> marked sample_tokens (2 ^ 96) st' 999990 \<and>
     0 < ks_liquidity st'"
proof -
  let ?rg = "\<lparr>tb_tickLower = - 60, tb_tickUpper = 60\<rparr>"
  obtain r r' where r: "sizeLiquidityForQuoteBudget 1000000 sample_tokens (2 ^ 96) ?rg = Inr r"
      "sizeLiquidityForQuoteBudget 999990 sample_tokens (2 ^ 96) ?rg = Inr r'" "1000000 \<le> sz_liquidity r'"
    using sample_sizing [of 1000000] sample_sizing [of 999990] by auto
  have t: "cf_tokens sample_replay_config = sample_tokens" "cf_spacing sample_replay_config = 60"
    "cf_rebalanceCost sample_replay_config = 10" by (simp_all add: sample_replay_config_def)
  note m = marked_sized [OF r(1), folded t(1)]
  obtain st' where "try_rebalance sample_replay_config 1 0 (2 ^ 96) (addQuoteIdle (idleQuote r) sample_tokens
      \<lparr>ks_idle0 = 0, ks_idle1 = 0, ks_liquidity = sz_liquidity r, ks_range = ?rg\<rparr>) 1000000 =
      Inr (st', 999990, 10, True, None)"
    using r(2,3) by (simp add: try_rebalance_def t sample_range Let_def)
  from rebalance_conserves_value [OF this [folded t(1)] m] m show ?thesis unfolding t by blast
qed

end
