(* ===== verification/Fail_Closed.thy ===== *)
theory Fail_Closed
  imports Liq_Prelude
begin

section \<open>Fail-closed evaluations\<close>

text \<open>
  The evaluations that decide whether anything may be executed all have the same contract:
  they collect the reasons against, and the answer is yes exactly when there are none.  An
  evaluation that rests on another one adds a reason of its own whenever the other has one.
  The two contracts are the locales \<open>fail_closed\<close> and \<open>fail_closed_chain\<close>; the
  evaluations of \<open>src/risk\<close> and \<open>src/oracle\<close> are their interpretations.
\<close>

locale fail_closed =
  fixes evaluate :: "'i \<Rightarrow> 'd"
    and eligible :: "'d \<Rightarrow> bool"
    and reasons :: "'d \<Rightarrow> string list"
    and raised :: "'i \<Rightarrow> string list"
  assumes eligible_iff_no_reason: "eligible (evaluate i) \<longleftrightarrow> reasons (evaluate i) = []"
    and reasons_raised: "set (reasons (evaluate i)) = set (raised i)"
begin

lemma eligible_iff_raised: "eligible (evaluate i) \<longleftrightarrow> raised i = []"
  using eligible_iff_no_reason reasons_raised by (metis set_empty)

lemma ineligible_iff: "\<not> eligible (evaluate i) \<longleftrightarrow> (\<exists>r. r \<in> set (reasons (evaluate i)))"
  using eligible_iff_no_reason by (metis list.set_sel(1) empty_iff set_empty)

lemma reason_blocks: "r \<in> set (raised i) \<Longrightarrow> \<not> eligible (evaluate i)"
  using eligible_iff_raised by auto

end

locale fail_closed_chain =
  fail_closed evaluate eligible reasons raised
  for evaluate :: "'i \<Rightarrow> 'd" and eligible reasons raised +
  fixes upstream :: "'i \<Rightarrow> 'u option"
    and up_eligible :: "'u \<Rightarrow> bool"
  assumes upstream_blocks: "upstream i = Some u \<Longrightarrow> \<not> up_eligible u \<Longrightarrow> raised i \<noteq> []"
    and missing_blocks: "upstream i = None \<Longrightarrow> raised i \<noteq> []"
begin

lemma eligible_upstream:
  assumes "eligible (evaluate i)"
  obtains u where "upstream i = Some u" "up_eligible u"
  using assms eligible_iff_raised upstream_blocks missing_blocks by (cases "upstream i") auto

end

text \<open>The reasons a list of checks raises, in order: those of the checks that fail.\<close>

definition failing :: "(bool \<times> string) list \<Rightarrow> string list" where
  "failing checks = map snd (filter (\<lambda>c. \<not> fst c) checks)"

lemma failing_simps [simp]:
  "failing [] = []" "failing ((b, r) # cs) = (if b then failing cs else r # failing cs)"
  by (simp_all add: failing_def)

lemma failing_append [simp]: "failing (cs @ ds) = failing cs @ failing ds"
  by (simp add: failing_def)

lemma failing_Nil_iff: "failing cs = [] \<longleftrightarrow> (\<forall>c\<in>set cs. fst c)"
  by (auto simp: failing_def filter_empty_conv)

lemma failing_set: "r \<in> set (failing cs) \<longleftrightarrow> (False, r) \<in> set cs"
  by (force simp: failing_def)

lemmas check_simps = failing_Nil_iff failing_set

end
