(* ===== verification/Risk_Gate.thy ===== *)
theory Risk_Gate
  imports Fail_Closed
begin

section \<open>Risk evaluation\<close>

text \<open>
  \<open>src/risk/domain.ts\<close>, \<open>evaluate.ts\<close> and \<open>gate.ts\<close>, with the asset records of
  \<open>src/domain.ts\<close>: an oracle round, a token and the latest risk snapshot are each judged by
  a list of reasons against.  The decimal strings of oracle rounds and token states, which the
  readers make with \<open>toString\<close>, are the integers they denote; viem's \<open>parseUnits\<close> and
  \<open>Date.toISOString\<close> are parameters, and a \<open>Date\<close> is its time in milliseconds.
\<close>

subsection \<open>Error texts\<close>

definition is_space :: "char \<Rightarrow> bool" where
  "is_space c \<longleftrightarrow> (let n = of_char c :: nat in (9 \<le> n \<and> n \<le> 13) \<or> n = 32 \<or> n = 160)"

fun strip_prefix :: "string \<Rightarrow> string \<Rightarrow> string option" where
  "strip_prefix [] s = Some s"
| "strip_prefix (p # ps) [] = None"
| "strip_prefix (p # ps) (c # cs) = (if p = c then strip_prefix ps cs else None)"

text \<open>The match of \<open>/https?:\/\/\S+/\<close> at the start of a string: what follows it.\<close>

definition url_body :: "string \<Rightarrow> string option" where
  "url_body s =
     (case strip_prefix ''https://'' s of Some rest \<Rightarrow> Some rest | None \<Rightarrow> strip_prefix ''http://'' s)"

definition match_url :: "string \<Rightarrow> string option" where
  "match_url s = (case url_body s of
      None \<Rightarrow> None
    | Some rest \<Rightarrow> (if rest = [] \<or> is_space (hd rest) then None
        else Some (dropWhile (\<lambda>c. \<not> is_space c) rest)))"

lemma strip_prefix_Some: "strip_prefix p s = Some r \<longleftrightarrow> s = p @ r"
  by (induction p s rule: strip_prefix.induct) auto

lemma match_url_shorter: "match_url s = Some r \<Longrightarrow> length r < length s"
proof -
  assume m: "match_url s = Some r"
  then obtain rest where rest: "url_body s = Some rest" "r = dropWhile (\<lambda>c. \<not> is_space c) rest"
    by (auto simp: match_url_def split: option.splits if_splits)
  from rest(1) have "length rest < length s"
    by (auto simp: url_body_def strip_prefix_Some split: option.splits)
  with rest(2) length_dropWhile_le [of "\<lambda>c. \<not> is_space c" rest] show ?thesis by simp
qed

function redact_urls :: "string \<Rightarrow> string" where
  "redact_urls s = (case match_url s of
      Some rest \<Rightarrow> ''[redacted-url]'' @ redact_urls rest
    | None \<Rightarrow> (case s of [] \<Rightarrow> [] | c # cs \<Rightarrow> c # redact_urls cs))"
  by pat_completeness auto
termination
  by (relation "measure length") (auto dest: match_url_shorter)

declare redact_urls.simps [simp del]

text \<open>\<open>replace(/\s+/g, " ")\<close>.\<close>

function collapse_spaces :: "string \<Rightarrow> string" where
  "collapse_spaces [] = []"
| "collapse_spaces (c # cs) =
     (if is_space c then CHR '' '' # collapse_spaces (dropWhile is_space cs) else c # collapse_spaces cs)"
  by pat_completeness auto
termination
  by (relation "measure length") (auto intro: le_less_trans [OF length_dropWhile_le])

datatype thrown = Thrown_Error string string | Thrown_Value string

definition sanitizeRiskError :: "thrown \<Rightarrow> string" where
  "sanitizeRiskError e =
     (let raw = (case e of Thrown_Error name message \<Rightarrow> name @ '': '' @ message | Thrown_Value text \<Rightarrow> text)
      in take 2000 (collapse_spaces (redact_urls raw)))"

subsection \<open>Records\<close>

record TradingCapability =
  fractional :: string
  whole :: string

record TradingCapabilities =
  extended :: "TradingCapability option"
  market :: "TradingCapability option"
  overnight :: "TradingCapability option"

record CanonicalAsset =
  asset_id :: string
  asset_symbol :: string
  asset_name :: string
  asset_address :: string
  asset_decimals :: int
  currentMultiplier :: string
  isin :: "string option"
  pendingMultiplier :: "string option"
  pendingMultiplierEffectiveTime :: "string option"
  asset_status :: string
  tradingCapabilities :: "TradingCapabilities option"

record OracleFeedMetadata =
  feed_address :: string
  baseAsset :: string
  feed_decimals :: int
  heartbeatSeconds :: int
  marketHours :: "string option"
  feed_name :: string
  productTypeCode :: string
  quoteAsset :: string

record OracleRoundState =
  answer :: int
  answeredInRound :: int
  round_codeHash :: string
  round_decimals :: int
  description :: string
  roundId :: int
  startedAt :: int
  updatedAt :: int

record oracle_flags =
  answerPositive :: bool
  decimalsMatch :: bool
  descriptionMatches :: bool
  priceFresh :: bool
  roundComplete :: bool
  timestampNotFuture :: bool

record OracleRiskSnapshot =
  or_executionEligible :: bool
  or_feed :: OracleFeedMetadata
  or_flags :: "oracle_flags option"
  maxAgeSeconds :: int
  priceAgeSeconds :: "int option"
  readError :: "string option"
  or_reasons :: "string list"
  or_state :: "OracleRoundState option"

record TokenRiskState =
  tk_codeHash :: string
  effectiveAt :: int
  newUIMultiplier :: int
  oraclePaused :: bool
  uiMultiplier :: int

record asset_flags =
  corporateActionPending :: bool
  multiplierConsistent :: bool
  registryActive :: bool
  tradingCapabilitiesComplete :: bool
  tradingCapabilitiesTradable :: bool

record AssetRiskSnapshot =
  ar_executionEligible :: bool
  ar_flags :: asset_flags
  onchain :: "TokenRiskState option"
  onchainReadError :: "string option"
  ar_oracle :: "OracleRiskSnapshot option"
  ar_reasons :: "string list"
  registry :: CanonicalAsset

subsection \<open>Evaluation\<close>

definition TRADABLE :: string where "TRADABLE = ''TRADING_STATUS_TRADABLE''"

definition required_sessions :: "TradingCapabilities option \<Rightarrow> TradingCapability option list" where
  "required_sessions capabilities = (case capabilities of
      None \<Rightarrow> [None, None, None]
    | Some c \<Rightarrow> [market c, extended c, overnight c])"

definition tradingCapabilityFlags :: "TradingCapabilities option \<Rightarrow> bool \<times> bool" where
  "tradingCapabilityFlags capabilities =
     (let sessions = required_sessions capabilities;
          complete = list_all (\<lambda>session. session \<noteq> None) sessions;
          tradable = complete \<and> list_all (\<lambda>session. case session of None \<Rightarrow> False
            | Some c \<Rightarrow> fractional c = TRADABLE \<and> whole c = TRADABLE) sessions
      in (complete, tradable))"

text \<open>\<open>toUpperCase\<close> on ASCII strings.\<close>

definition upper_char :: "char \<Rightarrow> char" where
  "upper_char c = (if 97 \<le> (of_char c :: nat) \<and> (of_char c :: nat) \<le> 122
     then char_of ((of_char c :: nat) - 32) else c)"

definition upper :: "string \<Rightarrow> string" where
  "upper s = map upper_char s"

definition oracleDescriptionMatches :: "string \<Rightarrow> OracleFeedMetadata \<Rightarrow> bool" where
  "oracleDescriptionMatches given feed \<longleftrightarrow>
     (let norm = (\<lambda>v. upper (filter (\<lambda>c. \<not> is_space c) v));
          actual = norm given; quote = upper (quoteAsset feed); base = upper (baseAsset feed)
      in actual = norm (feed_name feed) \<or> actual = base @ ''/'' @ quote \<or>
         actual = ''RH'' @ base @ ''/'' @ quote \<or> actual = ''ROBINHOOD'' @ base @ ''/'' @ quote)"

record oracle_risk_input =
  oi_blockTimestamp :: int
  oi_feed :: OracleFeedMetadata
  oi_maxPriceAgeSeconds :: int
  oi_readError :: "string option"
  oi_state :: "OracleRoundState option"

definition oracle_flags_of :: "int \<Rightarrow> OracleFeedMetadata \<Rightarrow> int \<Rightarrow> OracleRoundState \<Rightarrow> oracle_flags" where
  "oracle_flags_of blockTimestamp feed maxAge st =
     (let notFuture = updatedAt st \<le> blockTimestamp; age = blockTimestamp - updatedAt st in
      \<lparr>answerPositive = answer st > 0,
       decimalsMatch = (round_decimals st = feed_decimals feed),
       descriptionMatches = oracleDescriptionMatches (description st) feed,
       priceFresh = (updatedAt st > 0 \<and> notFuture \<and> age \<le> maxAge),
       roundComplete = (updatedAt st > 0 \<and> answeredInRound st \<ge> roundId st),
       timestampNotFuture = notFuture\<rparr>)"

definition oracle_reasons :: "oracle_flags \<Rightarrow> string list" where
  "oracle_reasons flags = failing
     [(answerPositive flags, ''oracle_answer_nonpositive''),
      (decimalsMatch flags, ''oracle_decimals_mismatch''),
      (descriptionMatches flags, ''oracle_description_mismatch''),
      (roundComplete flags, ''oracle_round_incomplete''),
      (timestampNotFuture flags, ''oracle_timestamp_future''),
      (priceFresh flags, ''oracle_price_stale'')]"

definition evaluateOracleRisk :: "oracle_risk_input \<Rightarrow> OracleRiskSnapshot" where
  "evaluateOracleRisk i =
     (let maxAge = min (heartbeatSeconds (oi_feed i)) (oi_maxPriceAgeSeconds i) in
      case oi_state i of
        None \<Rightarrow> \<lparr>or_executionEligible = False, or_feed = oi_feed i, or_flags = None, maxAgeSeconds = maxAge,
          priceAgeSeconds = None,
          readError = Some (case oi_readError i of None \<Rightarrow> ''Oracle read failed'' | Some e \<Rightarrow> e),
          or_reasons = [''oracle_read_failed''], or_state = None\<rparr>
      | Some st \<Rightarrow>
          let flags = oracle_flags_of (oi_blockTimestamp i) (oi_feed i) maxAge st;
              reasons = oracle_reasons flags in
          \<lparr>or_executionEligible = (reasons = []), or_feed = oi_feed i, or_flags = Some flags,
           maxAgeSeconds = maxAge,
           priceAgeSeconds =
             (if timestampNotFuture flags then Some (oi_blockTimestamp i - updatedAt st) else None),
           readError = None, or_reasons = reasons, or_state = Some st\<rparr>)"

record asset_risk_input =
  ai_blockTimestamp :: int
  ai_globalReasons :: "string list"
  ai_onchain :: "TokenRiskState option"
  ai_onchainReadError :: "string option"
  ai_oracle :: "OracleRiskSnapshot option"
  ai_quoteOracle :: "OracleRiskSnapshot option"
  ai_registry :: CanonicalAsset

definition asset_flags_of :: "(string \<Rightarrow> int \<Rightarrow> int option) \<Rightarrow> asset_risk_input \<Rightarrow> asset_flags" where
  "asset_flags_of parseUnits i =
     (let trading = tradingCapabilityFlags (tradingCapabilities (ai_registry i));
          registryMultiplier = parseUnits (currentMultiplier (ai_registry i)) 18;
          scheduledOnchain = (case ai_onchain i of None \<Rightarrow> False
            | Some t \<Rightarrow> newUIMultiplier t \<noteq> uiMultiplier t \<and> effectiveAt t > ai_blockTimestamp i)
      in
      \<lparr>corporateActionPending = (pendingMultiplier (ai_registry i) \<noteq> None \<or> scheduledOnchain),
       multiplierConsistent = (case (registryMultiplier, ai_onchain i) of
         (Some m, Some t) \<Rightarrow> m = uiMultiplier t | _ \<Rightarrow> False),
       registryActive = (asset_status (ai_registry i) = ''ASSET_STATUS_ACTIVE''),
       tradingCapabilitiesComplete = fst trading,
       tradingCapabilitiesTradable = snd trading\<rparr>)"

definition asset_reasons :: "asset_flags \<Rightarrow> asset_risk_input \<Rightarrow> string list" where
  "asset_reasons flags i =
     ai_globalReasons i @
     failing [(registryActive flags, ''registry_asset_inactive'')] @
     (if \<not> tradingCapabilitiesComplete flags then [''trading_capabilities_incomplete'']
      else if \<not> tradingCapabilitiesTradable flags then [''trading_not_tradable''] else []) @
     failing [(ai_onchain i \<noteq> None, ''token_risk_read_failed''),
              (multiplierConsistent flags, ''registry_multiplier_mismatch''),
              (\<not> corporateActionPending flags, ''corporate_action_pending''),
              (\<not> (case ai_onchain i of None \<Rightarrow> False | Some t \<Rightarrow> oraclePaused t), ''oracle_paused'')] @
     (case ai_oracle i of None \<Rightarrow> [''oracle_feed_missing''] | Some o1 \<Rightarrow> or_reasons o1) @
     (case ai_quoteOracle i of None \<Rightarrow> [''quote_oracle_feed_missing'']
      | Some q \<Rightarrow> if \<not> or_executionEligible q then [''quote_oracle_unavailable''] else [])"

definition evaluateAssetRisk ::
  "(string \<Rightarrow> int \<Rightarrow> int option) \<Rightarrow> asset_risk_input \<Rightarrow> AssetRiskSnapshot"
where
  "evaluateAssetRisk parseUnits i =
     (let flags = asset_flags_of parseUnits i; reasons = asset_reasons flags i in
      \<lparr>ar_executionEligible = (reasons = []), ar_flags = flags, onchain = ai_onchain i,
       onchainReadError = (if ai_onchain i = None
         then Some (case ai_onchainReadError i of None \<Rightarrow> ''Token risk read failed'' | Some e \<Rightarrow> e) else None),
       ar_oracle = ai_oracle i, ar_reasons = set_spread reasons, registry = ai_registry i\<rparr>)"

subsection \<open>The gate\<close>

datatype RiskAttemptStatus = Failed | Started | Succeeded

definition attempt_text :: "RiskAttemptStatus \<Rightarrow> string" where
  "attempt_text s = (case s of Failed \<Rightarrow> ''failed'' | Started \<Rightarrow> ''started'' | Succeeded \<Rightarrow> ''succeeded'')"

record RiskGateInput =
  gi_attemptId :: "string option"
  gi_attemptStatus :: "RiskAttemptStatus option"
  canonicalityCanonical :: "bool option"
  canonicalityValidatedAt :: "int option"
  gi_maxCanonicalityAgeSeconds :: int
  gi_maxSnapshotAgeSeconds :: int
  gi_now :: int
  snapshotBlockHash :: "string option"
  gi_snapshotBlockNumber :: "string option"
  snapshotExecutionEligible :: "bool option"
  gi_snapshotId :: "string option"
  gi_snapshotObservedAt :: "int option"
  snapshotReasons :: "string list"
  gi_sourceCoversSnapshot :: "bool option"

record RiskGateDecision =
  gd_attemptId :: "string option"
  gd_attemptStatus :: "RiskAttemptStatus option"
  blockCanonical :: "bool option"
  canonicalityAgeSeconds :: "int option"
  gd_executionEligible :: bool
  evaluatedAt :: string
  gd_maxSnapshotAgeSeconds :: int
  gd_maxCanonicalityAgeSeconds :: int
  gd_reasons :: "string list"
  snapshotAgeSeconds :: "int option"
  gd_snapshotBlockNumber :: "string option"
  gd_snapshotId :: "string option"
  gd_snapshotObservedAt :: "string option"
  gd_sourceCoversSnapshot :: "bool option"

text \<open>An age in whole seconds with its reasons: none for a time in the future.\<close>

definition gate_age :: "int \<Rightarrow> int \<Rightarrow> int \<Rightarrow> string \<Rightarrow> string \<Rightarrow> int option \<times> string list" where
  "gate_age now at maxAge future stale =
     (let ms = now - at in
      if ms < 0 then (None, [future])
      else (Some (ms div 1000), if ms div 1000 > maxAge then [stale] else []))"

definition gate_attempt_reasons :: "RiskGateInput \<Rightarrow> string list" where
  "gate_attempt_reasons i = (case (gi_attemptId i, gi_attemptStatus i) of
      (Some _, Some status) \<Rightarrow>
        if status \<noteq> Succeeded then [''latest_risk_attempt_'' @ attempt_text status] else []
    | _ \<Rightarrow> [''risk_attempt_missing''])"

definition gate_block :: "RiskGateInput \<Rightarrow> bool \<times> int option \<times> string list" where
  "gate_block i = (case (canonicalityCanonical i, canonicalityValidatedAt i) of
      (Some canonical, Some validatedAt) \<Rightarrow>
        let age = gate_age (gi_now i) validatedAt (gi_maxCanonicalityAgeSeconds i)
              ''risk_block_validation_timestamp_future'' ''risk_block_validation_stale''
        in (canonical, fst age, snd age @ failing [(canonical, ''risk_block_not_canonical'')])
    | _ \<Rightarrow> (False, None, [''risk_block_validation_missing'']))"

definition gate_snapshot_reasons :: "RiskGateInput \<Rightarrow> string list" where
  "gate_snapshot_reasons i =
     (if snapshotExecutionEligible i \<noteq> Some True
      then (if snapshotReasons i = [] then [''risk_snapshot_ineligible''] else snapshotReasons i) else []) @
     (case gi_sourceCoversSnapshot i of
        None \<Rightarrow> [''risk_source_cursor_missing'']
      | Some covers \<Rightarrow> failing [(covers, ''risk_snapshot_ahead_of_canonical_state'')])"

definition gate_collect :: "RiskGateInput \<Rightarrow> bool option \<times> int option \<times> int option \<times> string list" where
  "gate_collect i = (case (gi_snapshotId i, gi_snapshotObservedAt i) of
      (Some _, Some observedAt) \<Rightarrow>
        let age = gate_age (gi_now i) observedAt (gi_maxSnapshotAgeSeconds i)
              ''risk_snapshot_timestamp_future'' ''risk_snapshot_stale'';
            (canonical, canonicalAge, blockReasons) = gate_block i
        in (Some canonical, canonicalAge, fst age,
            gate_attempt_reasons i @ snd age @ blockReasons @ gate_snapshot_reasons i)
    | _ \<Rightarrow> (None, None, None, gate_attempt_reasons i @ [''risk_snapshot_missing'']))"

definition evaluateRiskGate :: "(int \<Rightarrow> string) \<Rightarrow> RiskGateInput \<Rightarrow> RiskGateDecision" where
  "evaluateRiskGate isoString i =
     (let (canonical, canonicalAge, snapshotAge, reasons) = gate_collect i;
          uniqueReasons = set_spread reasons in
      \<lparr>gd_attemptId = gi_attemptId i, gd_attemptStatus = gi_attemptStatus i, blockCanonical = canonical,
       canonicalityAgeSeconds = canonicalAge, gd_executionEligible = (uniqueReasons = []),
       evaluatedAt = isoString (gi_now i), gd_maxSnapshotAgeSeconds = gi_maxSnapshotAgeSeconds i,
       gd_maxCanonicalityAgeSeconds = gi_maxCanonicalityAgeSeconds i, gd_reasons = uniqueReasons,
       snapshotAgeSeconds = snapshotAge, gd_snapshotBlockNumber = gi_snapshotBlockNumber i,
       gd_snapshotId = gi_snapshotId i,
       gd_snapshotObservedAt = map_option isoString (gi_snapshotObservedAt i),
       gd_sourceCoversSnapshot = gi_sourceCoversSnapshot i\<rparr>)"

subsection \<open>What an eligible answer means\<close>

definition oracle_raised :: "oracle_risk_input \<Rightarrow> string list" where
  "oracle_raised i = (case oi_state i of
      None \<Rightarrow> [''oracle_read_failed'']
    | Some st \<Rightarrow> oracle_reasons (oracle_flags_of (oi_blockTimestamp i) (oi_feed i)
        (min (heartbeatSeconds (oi_feed i)) (oi_maxPriceAgeSeconds i)) st))"

interpretation oracle_risk: fail_closed evaluateOracleRisk or_executionEligible or_reasons oracle_raised
  by unfold_locales (simp_all add: evaluateOracleRisk_def oracle_raised_def Let_def split: option.split)

interpretation asset_oracle: fail_closed_chain "evaluateAssetRisk parseUnits" ar_executionEligible ar_reasons
    "\<lambda>i. asset_reasons (asset_flags_of parseUnits i) i" ai_oracle "\<lambda>o1. or_reasons o1 = []"
  for parseUnits
  by unfold_locales (simp_all add: evaluateAssetRisk_def Let_def asset_reasons_def)

interpretation asset_quote: fail_closed_chain "evaluateAssetRisk parseUnits" ar_executionEligible ar_reasons
    "\<lambda>i. asset_reasons (asset_flags_of parseUnits i) i" ai_quoteOracle or_executionEligible
  for parseUnits
  by unfold_locales (simp_all add: asset_reasons_def)

definition gate_raised :: "RiskGateInput \<Rightarrow> string list" where
  "gate_raised i = snd (snd (snd (gate_collect i)))"

interpretation gate: fail_closed_chain "evaluateRiskGate isoString" gd_executionEligible gd_reasons
    gate_raised snapshotExecutionEligible "\<lambda>b. b"
  for isoString
  by unfold_locales
    (auto simp: evaluateRiskGate_def gate_raised_def gate_collect_def gate_snapshot_reasons_def
      Let_def split: option.split prod.split)

text \<open>What the reader needs to know of an oracle round before its price is used.\<close>

definition round_usable :: "oracle_risk_input \<Rightarrow> OracleRoundState \<Rightarrow> bool" where
  "round_usable i st \<longleftrightarrow> 0 < answer st \<and> round_decimals st = feed_decimals (oi_feed i) \<and>
     oracleDescriptionMatches (description st) (oi_feed i) \<and> roundId st \<le> answeredInRound st \<and>
     0 < updatedAt st \<and> updatedAt st \<le> oi_blockTimestamp i \<and>
     oi_blockTimestamp i - updatedAt st \<le> heartbeatSeconds (oi_feed i) \<and>
     oi_blockTimestamp i - updatedAt st \<le> oi_maxPriceAgeSeconds i"

lemma oracle_raised_Nil_iff:
  "oracle_raised i = [] \<longleftrightarrow> (\<exists>st. oi_state i = Some st \<and> round_usable i st)"
  by (auto simp: oracle_raised_def oracle_reasons_def oracle_flags_of_def round_usable_def Let_def
      split: option.split)

lemma evaluateOracleRisk_eligible:
  "or_executionEligible (evaluateOracleRisk i) \<longleftrightarrow> (\<exists>st. oi_state i = Some st \<and> round_usable i st)"
  by (simp add: oracle_risk.eligible_iff_raised oracle_raised_Nil_iff)

definition session_open :: "TradingCapability option \<Rightarrow> bool" where
  "session_open session \<longleftrightarrow> (\<exists>c. session = Some c \<and> fractional c = TRADABLE \<and> whole c = TRADABLE)"

lemma tradingCapabilityFlags_tradable:
  "snd (tradingCapabilityFlags capabilities) \<longleftrightarrow> (\<exists>c. capabilities = Some c \<and>
     session_open (market c) \<and> session_open (extended c) \<and> session_open (overnight c))"
  "snd (tradingCapabilityFlags capabilities) \<Longrightarrow> fst (tradingCapabilityFlags capabilities)"
  by (auto simp: tradingCapabilityFlags_def required_sessions_def Let_def session_open_def
      split: option.splits)

lemma asset_reasons_Nil_iff:
  "asset_reasons flags i = [] \<longleftrightarrow> ai_globalReasons i = [] \<and> registryActive flags \<and>
     tradingCapabilitiesComplete flags \<and> tradingCapabilitiesTradable flags \<and> multiplierConsistent flags \<and>
     \<not> corporateActionPending flags \<and> (\<exists>t. ai_onchain i = Some t \<and> \<not> oraclePaused t) \<and>
     (\<exists>o1. ai_oracle i = Some o1 \<and> or_reasons o1 = []) \<and>
     (\<exists>q. ai_quoteOracle i = Some q \<and> or_executionEligible q)"
  by (cases "ai_onchain i"; cases "ai_oracle i"; cases "ai_quoteOracle i") (simp_all add: asset_reasons_def)

lemma asset_flags:
  "registryActive (asset_flags_of parseUnits i) \<longleftrightarrow> asset_status (ai_registry i) = ''ASSET_STATUS_ACTIVE''"
  "tradingCapabilitiesComplete (asset_flags_of parseUnits i) \<and>
     tradingCapabilitiesTradable (asset_flags_of parseUnits i) \<longleftrightarrow>
     (\<exists>c. tradingCapabilities (ai_registry i) = Some c \<and>
       session_open (market c) \<and> session_open (extended c) \<and> session_open (overnight c))"
  "ai_onchain i = Some t \<Longrightarrow> multiplierConsistent (asset_flags_of parseUnits i) \<longleftrightarrow>
     parseUnits (currentMultiplier (ai_registry i)) 18 = Some (uiMultiplier t)"
  "ai_onchain i = Some t \<Longrightarrow> \<not> corporateActionPending (asset_flags_of parseUnits i) \<longleftrightarrow>
     pendingMultiplier (ai_registry i) = None \<and>
     (newUIMultiplier t = uiMultiplier t \<or> effectiveAt t \<le> ai_blockTimestamp i)"
  using tradingCapabilityFlags_tradable [of "tradingCapabilities (ai_registry i)"]
  by (auto simp: asset_flags_of_def Let_def split: option.splits)

lemma evaluateAssetRisk_eligible:
  "ar_executionEligible (evaluateAssetRisk parseUnits i) \<longleftrightarrow>
   ai_globalReasons i = [] \<and> asset_status (ai_registry i) = ''ASSET_STATUS_ACTIVE'' \<and>
   (\<exists>c. tradingCapabilities (ai_registry i) = Some c \<and>
     session_open (market c) \<and> session_open (extended c) \<and> session_open (overnight c)) \<and>
   pendingMultiplier (ai_registry i) = None \<and>
   (\<exists>t. ai_onchain i = Some t \<and> \<not> oraclePaused t \<and>
     parseUnits (currentMultiplier (ai_registry i)) 18 = Some (uiMultiplier t) \<and>
     (newUIMultiplier t = uiMultiplier t \<or> effectiveAt t \<le> ai_blockTimestamp i)) \<and>
   (\<exists>o1. ai_oracle i = Some o1 \<and> or_reasons o1 = []) \<and>
   (\<exists>q. ai_quoteOracle i = Some q \<and> or_executionEligible q)"
  unfolding asset_oracle.eligible_iff_raised asset_reasons_Nil_iff
  using asset_flags [where i = i and parseUnits = parseUnits] by (cases "ai_onchain i") auto

lemma evaluateOracleRisk_no_reason:
  "or_reasons (evaluateOracleRisk i) = [] \<longleftrightarrow> (\<exists>st. oi_state i = Some st \<and> round_usable i st)"
  using oracle_risk.eligible_iff_no_reason evaluateOracleRisk_eligible by blast

text \<open>
  An asset is eligible for execution exactly when nothing global speaks against it, the
  registry lists it as active with all three sessions tradable and no pending multiplier, the
  token was read, is not paused, has the multiplier the registry states and none scheduled,
  and the latest rounds of both price feeds, the asset's and the quote token's, were read and
  are positive, complete, of the right feed and fresh.
\<close>

theorem evaluateAssetRisk_eligible_iff:
  "ar_executionEligible (evaluateAssetRisk parseUnits (i\<lparr>ai_oracle := map_option evaluateOracleRisk rwa,
      ai_quoteOracle := map_option evaluateOracleRisk quote\<rparr>)) \<longleftrightarrow>
   ai_globalReasons i = [] \<and> asset_status (ai_registry i) = ''ASSET_STATUS_ACTIVE'' \<and>
   (\<exists>c. tradingCapabilities (ai_registry i) = Some c \<and>
     session_open (market c) \<and> session_open (extended c) \<and> session_open (overnight c)) \<and>
   pendingMultiplier (ai_registry i) = None \<and>
   (\<exists>t. ai_onchain i = Some t \<and> \<not> oraclePaused t \<and>
     parseUnits (currentMultiplier (ai_registry i)) 18 = Some (uiMultiplier t) \<and>
     (newUIMultiplier t = uiMultiplier t \<or> effectiveAt t \<le> ai_blockTimestamp i)) \<and>
   (\<exists>ri st. rwa = Some ri \<and> oi_state ri = Some st \<and> round_usable ri st) \<and>
   (\<exists>qi st. quote = Some qi \<and> oi_state qi = Some st \<and> round_usable qi st)"
  unfolding evaluateAssetRisk_eligible
  by (cases rwa; cases quote) (simp_all add: evaluateOracleRisk_no_reason evaluateOracleRisk_eligible)

lemma gate_age_Nil_iff:
  "snd (gate_age now at maxAge future stale) = [] \<longleftrightarrow> at \<le> now \<and> (now - at) div 1000 \<le> maxAge"
  by (simp add: gate_age_def Let_def not_less)

lemma gate_attempt_Nil_iff:
  "gate_attempt_reasons i = [] \<longleftrightarrow> gi_attemptId i \<noteq> None \<and> gi_attemptStatus i = Some Succeeded"
  by (simp add: gate_attempt_reasons_def split: option.split)

lemma gate_block_Nil_iff:
  "snd (snd (gate_block i)) = [] \<longleftrightarrow> canonicalityCanonical i = Some True \<and>
     (\<exists>at. canonicalityValidatedAt i = Some at \<and> at \<le> gi_now i \<and>
       (gi_now i - at) div 1000 \<le> gi_maxCanonicalityAgeSeconds i)"
  by (auto simp: gate_block_def Let_def gate_age_Nil_iff split: option.split)

lemma gate_snapshot_Nil_iff:
  "gate_snapshot_reasons i = [] \<longleftrightarrow> snapshotExecutionEligible i = Some True \<and> gi_sourceCoversSnapshot i = Some True"
  by (auto simp: gate_snapshot_reasons_def split: option.split)

lemma gate_raised_eq: "gate_raised i = (case (gi_snapshotId i, gi_snapshotObservedAt i) of
      (Some _, Some observedAt) \<Rightarrow> gate_attempt_reasons i @
        snd (gate_age (gi_now i) observedAt (gi_maxSnapshotAgeSeconds i)
          ''risk_snapshot_timestamp_future'' ''risk_snapshot_stale'') @
        snd (snd (gate_block i)) @ gate_snapshot_reasons i
    | _ \<Rightarrow> gate_attempt_reasons i @ [''risk_snapshot_missing''])"
  by (simp add: gate_raised_def gate_collect_def Let_def split: option.split prod.split)

text \<open>
  C31: the gate opens exactly when the latest attempt succeeded, there is a snapshot that is
  itself eligible, neither it nor the validation of its block is from the future or older than
  allowed, the block is canonical and the indexed state covers it; a closed gate always states
  a reason, and no reason twice.
\<close>

theorem evaluateRiskGate_opens_iff:
  "(gd_executionEligible (evaluateRiskGate isoString i) \<longleftrightarrow>
      gi_attemptId i \<noteq> None \<and> gi_attemptStatus i = Some Succeeded \<and> gi_snapshotId i \<noteq> None \<and>
      snapshotExecutionEligible i = Some True \<and> canonicalityCanonical i = Some True \<and>
      gi_sourceCoversSnapshot i = Some True \<and>
      (\<exists>at. gi_snapshotObservedAt i = Some at \<and> at \<le> gi_now i \<and>
        (gi_now i - at) div 1000 \<le> gi_maxSnapshotAgeSeconds i) \<and>
      (\<exists>at. canonicalityValidatedAt i = Some at \<and> at \<le> gi_now i \<and>
        (gi_now i - at) div 1000 \<le> gi_maxCanonicalityAgeSeconds i)) \<and>
   (gd_executionEligible (evaluateRiskGate isoString i) \<longleftrightarrow> gd_reasons (evaluateRiskGate isoString i) = []) \<and>
   distinct (gd_reasons (evaluateRiskGate isoString i))"
proof -
  have "gate_raised i = [] \<longleftrightarrow>
      gi_attemptId i \<noteq> None \<and> gi_attemptStatus i = Some Succeeded \<and> gi_snapshotId i \<noteq> None \<and>
      snapshotExecutionEligible i = Some True \<and> canonicalityCanonical i = Some True \<and>
      gi_sourceCoversSnapshot i = Some True \<and>
      (\<exists>at. gi_snapshotObservedAt i = Some at \<and> at \<le> gi_now i \<and>
        (gi_now i - at) div 1000 \<le> gi_maxSnapshotAgeSeconds i) \<and>
      (\<exists>at. canonicalityValidatedAt i = Some at \<and> at \<le> gi_now i \<and>
        (gi_now i - at) div 1000 \<le> gi_maxCanonicalityAgeSeconds i)"
    by (cases "gi_snapshotId i"; cases "gi_snapshotObservedAt i")
      (auto simp: gate_raised_eq gate_attempt_Nil_iff gate_age_Nil_iff gate_block_Nil_iff gate_snapshot_Nil_iff)
  moreover have "distinct (gd_reasons (evaluateRiskGate isoString i))"
    by (simp add: evaluateRiskGate_def Let_def split: prod.split)
  ultimately show ?thesis
    using gate.eligible_iff_raised gate.eligible_iff_no_reason by simp
qed

subsection \<open>Redaction\<close>

text \<open>A URL starts here: a scheme, and a character that is not white space.\<close>

definition url_at :: "string \<Rightarrow> bool" where
  "url_at s \<longleftrightarrow> match_url s \<noteq> None"

definition has_url :: "string \<Rightarrow> bool" where
  "has_url s \<longleftrightarrow> (\<exists>p q. s = p @ q \<and> url_at q)"

definition url_scheme :: "string \<Rightarrow> bool" where
  "url_scheme w \<longleftrightarrow> w = ''https://'' \<or> w = ''http://''"

lemma url_scheme_facts:
  assumes "url_scheme w"
  shows "CHR ''['' \<notin> set w" "list_all (\<lambda>c. \<not> is_space c) w" "\<exists>u. w = CHR ''h'' # u"
  using assms by (auto simp: url_scheme_def is_space_def)

lemma url_body_iff: "url_body s = Some r \<longleftrightarrow> (\<exists>w. url_scheme w \<and> s = w @ r)"
proof (cases "strip_prefix ''https://'' s")
  case None
  then have "s \<noteq> ''https://'' @ r" for r using strip_prefix_Some [of "''https://''" s r] by auto
  then show ?thesis using None unfolding url_body_def url_scheme_def by (auto simp: strip_prefix_Some)
next
  case (Some t)
  then have "s = ''https://'' @ t" by (simp only: strip_prefix_Some)
  then show ?thesis unfolding url_body_def url_scheme_def Some by auto
qed

lemma url_at_iff: "url_at s \<longleftrightarrow> (\<exists>w c r. url_scheme w \<and> s = w @ c # r \<and> \<not> is_space c)"
proof -
  have "url_at s \<longleftrightarrow> (\<exists>r. url_body s = Some r \<and> r \<noteq> [] \<and> \<not> is_space (hd r))"
    by (auto simp: url_at_def match_url_def split: option.splits)
  then show ?thesis unfolding url_body_iff neq_Nil_conv by fastforce
qed

lemma url_at_head: "url_at (c # s) \<Longrightarrow> c = CHR ''h''"
  by (auto simp: url_at_iff dest!: url_scheme_facts(3))

lemma has_url_Cons: "has_url (c # s) \<longleftrightarrow> url_at (c # s) \<or> has_url s"
  unfolding has_url_def Cons_eq_append_conv by blast

lemma not_has_url_Nil [simp]: "\<not> has_url []"
  by (auto simp: has_url_def url_at_iff dest!: url_scheme_facts(3))

lemma has_url_take: "has_url (take n s) \<Longrightarrow> has_url s"
proof -
  assume "has_url (take n s)"
  then obtain p w c r where "take n s = p @ w @ c # r" "url_scheme w" "\<not> is_space c"
    by (auto simp: has_url_def url_at_iff)
  then have "s = p @ w @ c # (r @ drop n s)" "url_scheme w" "\<not> is_space c"
    using append_take_drop_id [of n s] by auto
  then show ?thesis unfolding has_url_def url_at_iff by blast
qed

text \<open>What starts the redacted text, up to a bracket, starts the text itself.\<close>

lemma redact_prefix:
  assumes "redact_urls s = w @ c # r" "CHR ''['' \<notin> set w" "\<not> is_space c"
  shows "\<exists>d r'. s = w @ d # r' \<and> \<not> is_space d"
  using assms
proof (induction w arbitrary: s)
  case Nil
  show ?case
  proof (cases "match_url s")
    case None
    then show ?thesis using Nil by (subst (asm) redact_urls.simps) (auto split: list.splits)
  next
    case (Some rest)
    then have "url_at s" by (simp add: url_at_def)
    then obtain u where "s = CHR ''h'' # u" by (auto simp: url_at_iff dest!: url_scheme_facts(3))
    then show ?thesis by (auto simp: is_space_def)
  qed
next
  case (Cons x w)
  have "match_url s = None"
  proof (rule ccontr)
    assume "match_url s \<noteq> None"
    then have "hd (redact_urls s) = CHR ''[''" by (subst redact_urls.simps) auto
    with Cons.prems(1,2) show False by simp
  qed
  then obtain s' where "s = x # s'" "redact_urls s' = w @ c # r"
    using Cons.prems(1) by (subst (asm) redact_urls.simps) (auto split: list.splits)
  with Cons show ?case by fastforce
qed

lemma url_at_redact: "url_at (redact_urls s) \<Longrightarrow> url_at s"
  unfolding url_at_iff using redact_prefix url_scheme_facts(1) by blast

lemma marker_no_url: "has_url (''[redacted-url]'' @ s) \<Longrightarrow> has_url s"
  by (auto simp: has_url_Cons dest: url_at_head)

lemma redact_no_url: "\<not> has_url (redact_urls s)"
proof (induction s rule: redact_urls.induct)
  case (1 s)
  show ?case
  proof (cases "match_url s")
    case None
    show ?thesis
    proof (cases s)
      case Nil
      then show ?thesis using None by (subst redact_urls.simps) simp
    next
      case (Cons c cs)
      then have "redact_urls s = c # redact_urls cs" using None by (subst redact_urls.simps) simp
      moreover have "\<not> url_at (redact_urls s)" using url_at_redact [of s] None unfolding url_at_def by blast
      ultimately show ?thesis using 1 None Cons by (simp add: has_url_Cons)
    qed
  next
    case (Some rest)
    then show ?thesis using 1 marker_no_url by (subst redact_urls.simps) auto
  qed
qed

lemma collapse_prefix:
  assumes "collapse_spaces s = w @ r" "list_all (\<lambda>c. \<not> is_space c) w"
  shows "\<exists>r'. s = w @ r'"
  using assms
proof (induction w arbitrary: s)
  case Nil
  then show ?case by simp
next
  case (Cons x w)
  then obtain c cs where s: "s = c # cs" by (cases s) auto
  have "\<not> is_space c"
  proof
    assume "is_space c"
    then have "x = CHR '' ''" using Cons.prems(1) s by simp
    then show False using Cons.prems(2) by (simp add: is_space_def)
  qed
  then have "x = c" "collapse_spaces cs = w @ r" using Cons.prems(1) s by simp_all
  with Cons.IH [of cs] Cons.prems(2) s show ?case by auto
qed

lemma collapse_no_url: "has_url (collapse_spaces s) \<Longrightarrow> has_url s"
proof (induction s rule: collapse_spaces.induct)
  case 1
  then show ?case by simp
next
  case (2 c cs)
  have at: "url_at (c # cs)" if u: "url_at (collapse_spaces (c # cs))"
  proof -
    from u obtain w d r where w: "url_scheme w" "collapse_spaces (c # cs) = w @ d # r" "\<not> is_space d"
      unfolding url_at_iff by blast
    have "list_all (\<lambda>c. \<not> is_space c) (w @ [d])" using w url_scheme_facts(2) by simp
    then obtain r' where "c # cs = (w @ [d]) @ r'" using collapse_prefix [of "c # cs" "w @ [d]" r] w by auto
    with w show ?thesis unfolding url_at_iff by (intro exI [of _ w] exI [of _ d] exI [of _ r']) simp
  qed
  have suffix: "has_url (dropWhile is_space cs) \<Longrightarrow> has_url cs"
    unfolding has_url_def by (metis append.assoc takeWhile_dropWhile_id)
  show ?case
  proof (cases "is_space c")
    case True
    have "\<not> url_at (CHR '' '' # s)" for s using url_at_head by fastforce
    then show ?thesis using 2 True suffix by (auto simp: has_url_Cons)
  next
    case False
    then show ?thesis using 2 at by (auto simp: has_url_Cons)
  qed
qed

text \<open>
  A sanitized error text contains no URL: nowhere in it is \<open>http://\<close> or \<open>https://\<close>
  followed by anything but white space, whatever the error said; and it is at most 2000
  characters long.
\<close>

theorem sanitizeRiskError_redacts:
  "\<not> (\<exists>p r scheme c. (scheme = ''http://'' \<or> scheme = ''https://'') \<and> \<not> is_space c \<and>
      sanitizeRiskError e = p @ scheme @ c # r) \<and> length (sanitizeRiskError e) \<le> 2000"
proof -
  have "\<not> has_url (sanitizeRiskError e)"
    unfolding sanitizeRiskError_def Let_def
    using has_url_take collapse_no_url redact_no_url by blast
  moreover have "length (sanitizeRiskError e) \<le> 2000" by (simp add: sanitizeRiskError_def Let_def)
  ultimately show ?thesis unfolding has_url_def url_at_iff url_scheme_def by blast
qed

end
