(* ===== verification/Oracle_Mark.thy ===== *)
theory Oracle_Mark
  imports Risk_Gate Range_Sim
begin

section \<open>Oracle marks\<close>

text \<open>
  \<open>src/oracle/math.ts\<close>, \<open>evaluate.ts\<close> and \<open>domain.ts\<close>: the price of the asset in quote
  tokens, with 18 decimals, once from the pool and once from two price feeds, and the mark
  that compares them.  \<open>Date.parse\<close> is a parameter that gives the milliseconds, or none.
\<close>

definition X18 :: int where "X18 = 1000000000000000000"
definition ONE_MILLION :: int where "ONE_MILLION = 1000000"

definition scale :: "int \<Rightarrow> int res" where
  "scale decimals =
     (if \<not> safe_integer decimals \<or> decimals < 0 \<or> decimals > 255
      then Inl ''Token or feed decimals are outside the uint8 domain''
      else Inr (10 ^ nat decimals))"

definition poolQuotePerRwaX18 :: "int \<Rightarrow> quote_tokens \<Rightarrow> int \<Rightarrow> int \<Rightarrow> int res" where
  "poolQuotePerRwaX18 quoteDecimals t rwaDecimals sqrtPriceX96 =
     (if sqrtPriceX96 \<le> 0 then Inl ''Pool sqrt price must be positive''
      else if quoteIsToken0 t = quoteIsToken1 t
      then Inl ''Pool must contain the quote token exactly once''
      else
        let priceX192 = sqrtPriceX96 * sqrtPriceX96 in
        bind_ok (scale rwaDecimals) (\<lambda>rwaScale.
        bind_ok (scale quoteDecimals) (\<lambda>quoteScale.
          let displayScale = rwaScale * X18 in
          Inr (if quoteIsToken0 t then (Q192 * displayScale) sdiv (priceX192 * quoteScale)
               else (priceX192 * displayScale) sdiv (Q192 * quoteScale)))))"

definition oracleQuotePerRwaX18 :: "int \<Rightarrow> int \<Rightarrow> int \<Rightarrow> int \<Rightarrow> int res" where
  "oracleQuotePerRwaX18 quoteAnswer quoteFeedDecimals rwaAnswer rwaFeedDecimals =
     (if rwaAnswer \<le> 0 \<or> quoteAnswer \<le> 0 then Inl ''Oracle answers must be positive''
      else
        bind_ok (scale quoteFeedDecimals) (\<lambda>quoteScale.
        bind_ok (scale rwaFeedDecimals) (\<lambda>rwaScale.
          Inr ((rwaAnswer * quoteScale * X18) sdiv (quoteAnswer * rwaScale)))))"

definition signedDeviationPpm :: "int \<Rightarrow> int \<Rightarrow> int res" where
  "signedDeviationPpm reference observed =
     (if reference \<le> 0 \<or> observed \<le> 0 then Inl ''Deviation prices must be positive''
      else Inr (((observed - reference) * ONE_MILLION) sdiv reference))"

datatype mark_status = Valid | Mark_Excluded

record OracleValuationMark =
  vm_blockNumber :: string
  vm_blockTimestamp :: string
  deviationPpm :: "int option"
  oraclePriceX18 :: "int option"
  poolPriceX18 :: int
  quoteOracle :: "OracleRoundState option"
  quoteOracleAgeSeconds :: "int option"
  quoteOracleReadError :: "string option"
  vm_reasons :: "string list"
  rwaOracle :: "OracleRoundState option"
  rwaOracleAgeSeconds :: "int option"
  rwaOracleReadError :: "string option"
  vm_status :: mark_status
  vm_token :: "TokenRiskState option"
  tokenDecimals :: "int option"
  tokenDecimalsReadError :: "string option"
  tokenReadError :: "string option"

record OracleCalibrationMark = OracleValuationMark +
  accountingRunId :: string

record mark_input =
  mi_blockNumber :: string
  mi_blockTimestamp :: string
  mi_quoteDecimals :: int
  mi_quoteOracle :: "OracleRiskSnapshot option"
  mi_tokens :: quote_tokens
  mi_rwaDecimals :: int
  mi_rwaOracle :: "OracleRiskSnapshot option"
  mi_sqrtPriceX96 :: int
  mi_token :: "TokenRiskState option"
  mi_tokenDecimals :: "int option"
  mi_tokenDecimalsReadError :: "string option"
  mi_tokenReadError :: "string option"

definition mark_reasons :: "mark_input \<Rightarrow> string list" where
  "mark_reasons i =
     (case mi_rwaOracle i of None \<Rightarrow> [''rwa_oracle_feed_missing'']
      | Some o1 \<Rightarrow> map (\<lambda>reason. ''rwa_'' @ reason) (or_reasons o1)) @
     (case mi_quoteOracle i of None \<Rightarrow> [''quote_oracle_feed_missing'']
      | Some q \<Rightarrow> map (\<lambda>reason. ''quote_'' @ reason) (or_reasons q)) @
     (case mi_token i of None \<Rightarrow> [''token_risk_read_failed'']
      | Some t \<Rightarrow> failing
          [(uiMultiplier t > 0, ''ui_multiplier_nonpositive''),
           (\<not> oraclePaused t, ''oracle_paused''),
           (newUIMultiplier t = uiMultiplier t, ''token_multiplier_transition'')]) @
     (case mi_tokenDecimals i of None \<Rightarrow> [''token_decimals_read_failed'']
      | Some d \<Rightarrow> failing [(d = mi_rwaDecimals i, ''registry_token_decimals_mismatch'')])"

definition snapshot_state :: "OracleRiskSnapshot option \<Rightarrow> OracleRoundState option" where
  "snapshot_state snapshot = Option.bind snapshot or_state"

definition mark_oracle_price :: "mark_input \<Rightarrow> int option res" where
  "mark_oracle_price i = (case (snapshot_state (mi_rwaOracle i), snapshot_state (mi_quoteOracle i)) of
      (Some rwa, Some quote) \<Rightarrow>
        if answer rwa > 0 \<and> answer quote > 0
        then bind_ok (oracleQuotePerRwaX18 (answer quote) (round_decimals quote) (answer rwa) (round_decimals rwa))
               (\<lambda>p. Inr (Some p))
        else Inr None
    | _ \<Rightarrow> Inr None)"

definition or_default :: "string option \<Rightarrow> string \<Rightarrow> string option" where
  "or_default v text = Some (case v of None \<Rightarrow> text | Some s \<Rightarrow> s)"

definition evaluateOracleValuationMark :: "mark_input \<Rightarrow> OracleValuationMark res" where
  "evaluateOracleValuationMark i =
     (let reasons = mark_reasons i;
          decimals = (case mi_tokenDecimals i of None \<Rightarrow> mi_rwaDecimals i | Some d \<Rightarrow> d);
          rwaState = snapshot_state (mi_rwaOracle i); quoteState = snapshot_state (mi_quoteOracle i) in
      bind_ok (poolQuotePerRwaX18 (mi_quoteDecimals i) (mi_tokens i) decimals (mi_sqrtPriceX96 i)) (\<lambda>poolPrice.
      bind_ok (mark_oracle_price i) (\<lambda>oraclePrice.
      bind_ok (case oraclePrice of None \<Rightarrow> Inr None
               | Some p \<Rightarrow> bind_ok (signedDeviationPpm p poolPrice) (\<lambda>d. Inr (Some d))) (\<lambda>deviation.
        let uniqueReasons = set_spread reasons in
        Inr \<lparr>vm_blockNumber = mi_blockNumber i, vm_blockTimestamp = mi_blockTimestamp i,
             deviationPpm = deviation, oraclePriceX18 = oraclePrice, poolPriceX18 = poolPrice,
             quoteOracle = quoteState,
             quoteOracleAgeSeconds = Option.bind (mi_quoteOracle i) priceAgeSeconds,
             quoteOracleReadError = (if quoteState = None
               then or_default (Option.bind (mi_quoteOracle i) readError) ''Oracle feed unavailable'' else None),
             vm_reasons = uniqueReasons, rwaOracle = rwaState,
             rwaOracleAgeSeconds = Option.bind (mi_rwaOracle i) priceAgeSeconds,
             rwaOracleReadError = (if rwaState = None
               then or_default (Option.bind (mi_rwaOracle i) readError) ''Oracle feed unavailable'' else None),
             vm_status = (if uniqueReasons = [] then Valid else Mark_Excluded),
             vm_token = mi_token i, tokenDecimals = mi_tokenDecimals i,
             tokenDecimalsReadError = (if mi_tokenDecimals i = None
               then or_default (mi_tokenDecimalsReadError i) ''Token decimals read failed'' else None),
             tokenReadError = (if mi_token i = None
               then or_default (mi_tokenReadError i) ''Token risk read failed'' else None)\<rparr>))))"

definition unixTimestamp :: "(string \<Rightarrow> int option) \<Rightarrow> string \<Rightarrow> int res" where
  "unixTimestamp parseDate v = (case parseDate v of
      None \<Rightarrow> Inl (''Invalid checkpoint timestamp '' @ v)
    | Some ms \<Rightarrow>
        if \<not> safe_integer ms then Inl (''Invalid checkpoint timestamp '' @ v)
        else if ms mod 1000 \<noteq> 0 then Inl ''The number cannot be converted to a BigInt because it is not an integer''
        else Inr (ms div 1000))"

record calibration_input =
  ci_checkpoint :: "RangePoolCheckpoint \<times> AccountingRunReference"
  ci_maxPriceAgeSeconds :: int
  ci_quoteDecimals :: int
  ci_quoteFeed :: OracleFeedMetadata
  ci_quoteOracle :: "OracleRoundState option"
  ci_quoteOracleReadError :: "string option"
  ci_tokens :: quote_tokens
  ci_rwaDecimals :: int
  ci_rwaFeed :: OracleFeedMetadata
  ci_rwaOracle :: "OracleRoundState option"
  ci_rwaOracleReadError :: "string option"
  ci_token :: "TokenRiskState option"
  ci_tokenDecimals :: "int option"
  ci_tokenDecimalsReadError :: "string option"
  ci_tokenReadError :: "string option"

definition evaluateOracleCalibrationMark ::
  "(string \<Rightarrow> int option) \<Rightarrow> calibration_input \<Rightarrow> OracleCalibrationMark res"
where
  "evaluateOracleCalibrationMark parseDate i =
     (let (pool, run) = ci_checkpoint i in
      bind_ok (unixTimestamp parseDate (blockTimestamp run)) (\<lambda>timestamp.
        let rwaRisk = evaluateOracleRisk \<lparr>oi_blockTimestamp = timestamp, oi_feed = ci_rwaFeed i,
              oi_maxPriceAgeSeconds = ci_maxPriceAgeSeconds i, oi_readError = ci_rwaOracleReadError i,
              oi_state = ci_rwaOracle i\<rparr>;
            quoteRisk = evaluateOracleRisk \<lparr>oi_blockTimestamp = timestamp, oi_feed = ci_quoteFeed i,
              oi_maxPriceAgeSeconds = ci_maxPriceAgeSeconds i, oi_readError = ci_quoteOracleReadError i,
              oi_state = ci_quoteOracle i\<rparr>
        in
        bind_ok (evaluateOracleValuationMark \<lparr>mi_blockNumber = show_int (blockNumber run),
            mi_blockTimestamp = blockTimestamp run, mi_quoteDecimals = ci_quoteDecimals i,
            mi_quoteOracle = Some quoteRisk, mi_tokens = ci_tokens i, mi_rwaDecimals = ci_rwaDecimals i,
            mi_rwaOracle = Some rwaRisk, mi_sqrtPriceX96 = cp_sqrtPriceX96 pool, mi_token = ci_token i,
            mi_tokenDecimals = ci_tokenDecimals i, mi_tokenDecimalsReadError = ci_tokenDecimalsReadError i,
            mi_tokenReadError = ci_tokenReadError i\<rparr>) (\<lambda>mark.
          Inr (OracleValuationMark.extend mark (OracleCalibrationMark.fields (runId run))))))"

subsection \<open>What a mark says\<close>

interpretation mark_checks: fail_closed_chain "\<lambda>i. set_spread (mark_reasons i)" "\<lambda>rs. rs = []" "\<lambda>rs. rs"
    mark_reasons mi_rwaOracle "\<lambda>o1. or_reasons o1 = []"
  by unfold_locales (simp_all add: mark_reasons_def)

interpretation mark_quote_checks: fail_closed_chain "\<lambda>i. set_spread (mark_reasons i)" "\<lambda>rs. rs = []" "\<lambda>rs. rs"
    mark_reasons mi_quoteOracle "\<lambda>o1. or_reasons o1 = []"
  by unfold_locales (simp_all add: mark_reasons_def)

lemma scale_Inr_iff: "scale d = Inr v \<longleftrightarrow> 0 \<le> d \<and> d \<le> 255 \<and> v = 10 ^ nat d"
  by (auto simp: scale_def safe_integer_def)

text \<open>The truncated quotient of a nonnegative by a positive number is its floor.\<close>

definition is_floor :: "int \<Rightarrow> int \<Rightarrow> int \<Rightarrow> bool" where
  "is_floor q n d \<longleftrightarrow> 0 < d \<and> q * d \<le> n \<and> n < (q + 1) * d"

lemma is_floor_sdiv: "0 \<le> n \<Longrightarrow> 0 < d \<Longrightarrow> is_floor (n sdiv d) n d"
  using floor_div_bounds [of d n] by (simp add: is_floor_def sdiv_nonneg algebra_simps)

lemma poolQuotePerRwaX18_Inr:
  assumes "poolQuotePerRwaX18 qd t rd p = Inr v"
  shows "0 < p" "if quoteIsToken0 t then is_floor v (Q192 * (10 ^ nat rd * X18)) (p * p * 10 ^ nat qd)
           else is_floor v (p * p * (10 ^ nat rd * X18)) (Q192 * 10 ^ nat qd)"
  using assms
  by (auto simp: poolQuotePerRwaX18_def Let_def bind_ok_Inr_iff scale_Inr_iff X18_def Q192_def
      split: if_splits intro!: is_floor_sdiv)

lemma oracleQuotePerRwaX18_Inr:
  assumes "oracleQuotePerRwaX18 q qd r rd = Inr v"
  shows "0 < q" "0 < r" "is_floor v (r * 10 ^ nat qd * X18) (q * 10 ^ nat rd)"
  using assms
  by (auto simp: oracleQuotePerRwaX18_def Let_def bind_ok_Inr_iff scale_Inr_iff X18_def
      split: if_splits intro!: is_floor_sdiv)

lemma sdiv_trunc:
  fixes a b :: int
  assumes "0 < b"
  shows "0 \<le> a \<Longrightarrow> is_floor (a sdiv b) a b" "a \<le> 0 \<Longrightarrow> is_floor (- (a sdiv b)) (- a) b"
proof -
  show "0 \<le> a \<Longrightarrow> is_floor (a sdiv b) a b" using assms is_floor_sdiv by blast
  have "a sdiv b = - ((- a) sdiv b)" if "a \<le> 0" using assms that
    by (auto simp: signed_divide_int_def sgn_if)
  then show "a \<le> 0 \<Longrightarrow> is_floor (- (a sdiv b)) (- a) b" using assms is_floor_sdiv [of "- a" b] by simp
qed

lemma signedDeviationPpm_Inr:
  assumes "signedDeviationPpm r x = Inr d"
  shows "0 < r" "0 < x" "r \<le> x \<Longrightarrow> 0 \<le> d \<and> is_floor d ((x - r) * 1000000) r"
    "x \<le> r \<Longrightarrow> d \<le> 0 \<and> is_floor (- d) ((r - x) * 1000000) r"
proof -
  have *: "0 < r" "0 < x" "d = ((x - r) * 1000000) sdiv r"
    using assms by (auto simp: signedDeviationPpm_def ONE_MILLION_def split: if_splits)
  then show "0 < r" "0 < x" by simp_all
  have pos: "0 \<le> q" if "is_floor q n r" "0 \<le> n" for q n
  proof (rule ccontr)
    assume "\<not> 0 \<le> q"
    then have "(q + 1) * r \<le> 0" using *(1) by (simp add: mult_nonpos_nonneg)
    with that show False by (simp add: is_floor_def)
  qed
  show "r \<le> x \<Longrightarrow> 0 \<le> d \<and> is_floor d ((x - r) * 1000000) r"
    using sdiv_trunc(1) [OF *(1), of "(x - r) * 1000000"] pos [of d "(x - r) * 1000000"] by (simp add: *(3))
  have n: "- ((x - r) * 1000000) = (r - x) * 1000000" by simp
  assume le: "x \<le> r"
  then have "(x - r) * 1000000 \<le> 0" by simp
  with sdiv_trunc(2) [OF *(1)] have "is_floor (- d) ((r - x) * 1000000) r" by (metis n *(3))
  moreover have "0 \<le> (r - x) * 1000000" using le by simp
  ultimately show "d \<le> 0 \<and> is_floor (- d) ((r - x) * 1000000) r" using pos by force
qed

lemma mark_reasons_Nil_iff:
  "mark_reasons i = [] \<longleftrightarrow> (\<exists>o1. mi_rwaOracle i = Some o1 \<and> or_reasons o1 = []) \<and>
     (\<exists>q. mi_quoteOracle i = Some q \<and> or_reasons q = []) \<and>
     (\<exists>t. mi_token i = Some t \<and> 0 < uiMultiplier t \<and> newUIMultiplier t = uiMultiplier t \<and> \<not> oraclePaused t) \<and>
     mi_tokenDecimals i = Some (mi_rwaDecimals i)"
proof -
  have "(case mi_token i of None \<Rightarrow> [''token_risk_read_failed'']
      | Some t \<Rightarrow> failing [(uiMultiplier t > 0, ''ui_multiplier_nonpositive''), (\<not> oraclePaused t, ''oracle_paused''),
           (newUIMultiplier t = uiMultiplier t, ''token_multiplier_transition'')]) = [] \<longleftrightarrow>
     (\<exists>t. mi_token i = Some t \<and> 0 < uiMultiplier t \<and> newUIMultiplier t = uiMultiplier t \<and> \<not> oraclePaused t)"
    by (auto split: option.split)
  moreover have "(case mi_tokenDecimals i of None \<Rightarrow> [''token_decimals_read_failed'']
      | Some d \<Rightarrow> failing [(d = mi_rwaDecimals i, ''registry_token_decimals_mismatch'')]) = [] \<longleftrightarrow>
      mi_tokenDecimals i = Some (mi_rwaDecimals i)"
    by (auto split: option.split)
  moreover have "(case o1 of None \<Rightarrow> [m] | Some x \<Rightarrow> map f (or_reasons x)) = [] \<longleftrightarrow>
      (\<exists>x. o1 = Some x \<and> or_reasons x = [])" for o1 :: "OracleRiskSnapshot option" and m :: string and f
    by (auto split: option.split)
  ultimately show ?thesis by (simp add: mark_reasons_def)
qed

lemma evaluateOracleValuationMark_Inr:
  assumes "evaluateOracleValuationMark i = Inr m"
  shows "vm_status m = Valid \<longleftrightarrow> mark_reasons i = []" "vm_reasons m = set_spread (mark_reasons i)"
    "poolQuotePerRwaX18 (mi_quoteDecimals i) (mi_tokens i)
       (case mi_tokenDecimals i of None \<Rightarrow> mi_rwaDecimals i | Some d \<Rightarrow> d) (mi_sqrtPriceX96 i) = Inr (poolPriceX18 m)"
    "mark_oracle_price i = Inr (oraclePriceX18 m)"
    "oraclePriceX18 m = Some p \<Longrightarrow> \<exists>d. deviationPpm m = Some d \<and> signedDeviationPpm p (poolPriceX18 m) = Inr d"
proof -
  from assms obtain pool orc dev where b:
    "poolQuotePerRwaX18 (mi_quoteDecimals i) (mi_tokens i)
       (case mi_tokenDecimals i of None \<Rightarrow> mi_rwaDecimals i | Some d \<Rightarrow> d) (mi_sqrtPriceX96 i) = Inr pool"
    "mark_oracle_price i = Inr orc"
    "(case orc of None \<Rightarrow> Inr None | Some p \<Rightarrow> bind_ok (signedDeviationPpm p pool) (\<lambda>d. Inr (Some d))) = Inr dev"
    and m: "poolPriceX18 m = pool" "oraclePriceX18 m = orc" "deviationPpm m = dev"
      "vm_reasons m = set_spread (mark_reasons i)"
      "vm_status m = (if set_spread (mark_reasons i) = [] then Valid else Mark_Excluded)"
    unfolding evaluateOracleValuationMark_def Let_def bind_ok_Inr_iff by auto
  from b m show "vm_status m = Valid \<longleftrightarrow> mark_reasons i = []" "vm_reasons m = set_spread (mark_reasons i)"
    "poolQuotePerRwaX18 (mi_quoteDecimals i) (mi_tokens i)
       (case mi_tokenDecimals i of None \<Rightarrow> mi_rwaDecimals i | Some d \<Rightarrow> d) (mi_sqrtPriceX96 i) = Inr (poolPriceX18 m)"
    "mark_oracle_price i = Inr (oraclePriceX18 m)" by simp_all
  show "\<exists>d. deviationPpm m = Some d \<and> signedDeviationPpm p (poolPriceX18 m) = Inr d" if "oraclePriceX18 m = Some p"
    using b(3) m that by (auto simp: bind_ok_Inr_iff)
qed

lemma evaluated_state:
  "or_state (evaluateOracleRisk i) = oi_state i"
  by (simp add: evaluateOracleRisk_def Let_def split: option.split)

text \<open>
  A mark is valid exactly when the latest rounds of both feeds are usable, the token was
  read, is not paused and has a positive multiplier that is not about to change, and its
  decimals are the registry's.  A valid mark carries the oracle price, which is the floor of
  the ratio of the two answers, and its deviation, which has the sign of the difference
  between the pool and the oracle price and is that difference in parts per million of the
  oracle price, rounded towards zero.
\<close>

theorem evaluateOracleValuationMark_valid:
  assumes "evaluateOracleValuationMark (i\<lparr>mi_rwaOracle := map_option evaluateOracleRisk rwa,
      mi_quoteOracle := map_option evaluateOracleRisk quote\<rparr>) = Inr m"
  shows "(vm_status m = Valid \<longleftrightarrow>
      (\<exists>ri st. rwa = Some ri \<and> oi_state ri = Some st \<and> round_usable ri st) \<and>
      (\<exists>qi st. quote = Some qi \<and> oi_state qi = Some st \<and> round_usable qi st) \<and>
      (\<exists>t. mi_token i = Some t \<and> 0 < uiMultiplier t \<and> newUIMultiplier t = uiMultiplier t \<and> \<not> oraclePaused t) \<and>
      mi_tokenDecimals i = Some (mi_rwaDecimals i)) \<and>
    (vm_status m = Valid \<longrightarrow> (\<exists>ri rs qi qs p d.
      rwa = Some ri \<and> oi_state ri = Some rs \<and> quote = Some qi \<and> oi_state qi = Some qs \<and>
      oraclePriceX18 m = Some p \<and> deviationPpm m = Some d \<and> 0 < p \<and>
      is_floor p (answer rs * 10 ^ nat (feed_decimals (oi_feed qi)) * X18)
        (answer qs * 10 ^ nat (feed_decimals (oi_feed ri))) \<and>
      (p \<le> poolPriceX18 m \<longrightarrow> 0 \<le> d \<and> is_floor d ((poolPriceX18 m - p) * 1000000) p) \<and>
      (poolPriceX18 m \<le> p \<longrightarrow> d \<le> 0 \<and> is_floor (- d) ((p - poolPriceX18 m) * 1000000) p)))"
proof -
  note e = evaluateOracleValuationMark_Inr [OF assms]
  have v: "vm_status m = Valid \<longleftrightarrow>
      (\<exists>ri st. rwa = Some ri \<and> oi_state ri = Some st \<and> round_usable ri st) \<and>
      (\<exists>qi st. quote = Some qi \<and> oi_state qi = Some st \<and> round_usable qi st) \<and>
      (\<exists>t. mi_token i = Some t \<and> 0 < uiMultiplier t \<and> newUIMultiplier t = uiMultiplier t \<and> \<not> oraclePaused t) \<and>
      mi_tokenDecimals i = Some (mi_rwaDecimals i)"
    unfolding e(1) mark_reasons_Nil_iff by (cases rwa; cases quote) (simp_all add: evaluateOracleRisk_no_reason)
  moreover have "\<exists>ri rs qi qs p d.
      rwa = Some ri \<and> oi_state ri = Some rs \<and> quote = Some qi \<and> oi_state qi = Some qs \<and>
      oraclePriceX18 m = Some p \<and> deviationPpm m = Some d \<and> 0 < p \<and>
      is_floor p (answer rs * 10 ^ nat (feed_decimals (oi_feed qi)) * X18)
        (answer qs * 10 ^ nat (feed_decimals (oi_feed ri))) \<and>
      (p \<le> poolPriceX18 m \<longrightarrow> 0 \<le> d \<and> is_floor d ((poolPriceX18 m - p) * 1000000) p) \<and>
      (poolPriceX18 m \<le> p \<longrightarrow> d \<le> 0 \<and> is_floor (- d) ((p - poolPriceX18 m) * 1000000) p)"
    if valid: "vm_status m = Valid"
  proof -
    obtain ri rs qi qs where r: "rwa = Some ri" "oi_state ri = Some rs" "round_usable ri rs"
        "quote = Some qi" "oi_state qi = Some qs" "round_usable qi qs"
      using valid unfolding v by blast
    then obtain p where p: "oracleQuotePerRwaX18 (answer qs) (round_decimals qs) (answer rs) (round_decimals rs) = Inr p"
        "oraclePriceX18 m = Some p"
      using e(4) by (auto simp: mark_oracle_price_def snapshot_state_def evaluated_state round_usable_def bind_ok_Inr_iff)
    obtain d where d: "deviationPpm m = Some d" "signedDeviationPpm p (poolPriceX18 m) = Inr d"
      using e(5) [OF p(2)] by blast
    show ?thesis
      using r p(2) d(1) oracleQuotePerRwaX18_Inr(3) [OF p(1)] signedDeviationPpm_Inr [OF d(2)]
      by (auto simp: round_usable_def)
  qed
  ultimately show ?thesis by blast
qed

text \<open>
  The pool price is the floor of the exact price: with sqrt price \<open>p / 2^96\<close> it is
  the square of that ratio, or its inverse when the quote token is token 0, scaled by the
  decimals of the two tokens and by \<open>10^18\<close>.
\<close>

theorem poolQuotePerRwaX18_exact:
  assumes "poolQuotePerRwaX18 quoteDecimals t rwaDecimals p = Inr v"
  shows "0 < p \<and> quoteIsToken0 t \<noteq> quoteIsToken1 t \<and> 0 \<le> v \<and>
    (if quoteIsToken0 t
     then is_floor v (2 ^ 192 * 10 ^ nat rwaDecimals * 10 ^ 18) (p * p * 10 ^ nat quoteDecimals)
     else is_floor v (p * p * 10 ^ nat rwaDecimals * 10 ^ 18) (2 ^ 192 * 10 ^ nat quoteDecimals))"
proof -
  note i = poolQuotePerRwaX18_Inr [OF assms]
  have c: "Q192 = 2 ^ 192" "X18 = 10 ^ 18" by (simp_all add: Q192_def X18_def)
  have "0 \<le> v" if "is_floor v n d" "0 \<le> n" for n d
  proof (rule ccontr)
    assume "\<not> 0 \<le> v"
    then have "(v + 1) * d \<le> 0" using that(1) by (simp add: is_floor_def mult_nonpos_nonneg)
    with that show False by (simp add: is_floor_def)
  qed
  moreover have "quoteIsToken0 t \<noteq> quoteIsToken1 t"
    using assms by (auto simp: poolQuotePerRwaX18_def split: if_splits)
  ultimately show ?thesis
    using i unfolding c by (cases "quoteIsToken0 t") (simp_all add: mult.assoc)
qed

subsection \<open>A valid mark\<close>

definition sample_feed :: OracleFeedMetadata where
  "sample_feed = \<lparr>feed_address = ''0xf'', baseAsset = ''NVDA'', feed_decimals = 8, heartbeatSeconds = 3600,
     marketHours = None, feed_name = ''NVDA/USD'', productTypeCode = ''p'', quoteAsset = ''USD''\<rparr>"

definition sample_round :: "int \<Rightarrow> oracle_risk_input" where
  "sample_round price = \<lparr>oi_blockTimestamp = 1000, oi_feed = sample_feed, oi_maxPriceAgeSeconds = 600,
     oi_readError = None, oi_state = Some \<lparr>answer = price, answeredInRound = 1, round_codeHash = ''h'',
       round_decimals = 8, description = ''NVDA/USD'', roundId = 1, startedAt = 900, updatedAt = 900\<rparr>\<rparr>"

definition sample_mark_input :: mark_input where
  "sample_mark_input = \<lparr>mi_blockNumber = ''1'', mi_blockTimestamp = ''t'', mi_quoteDecimals = 6,
     mi_quoteOracle = None, mi_tokens = sample_tokens, mi_rwaDecimals = 6, mi_rwaOracle = None,
     mi_sqrtPriceX96 = 79228162514264337593543950336,
     mi_token = Some \<lparr>tk_codeHash = ''h'', effectiveAt = 0, newUIMultiplier = 1, oraclePaused = False, uiMultiplier = 1\<rparr>,
     mi_tokenDecimals = Some 6, mi_tokenDecimalsReadError = None, mi_tokenReadError = None\<rparr>"

lemma own_description_matches: "feed_name feed = given \<Longrightarrow> oracleDescriptionMatches given feed"
  by (simp add: oracleDescriptionMatches_def Let_def)

lemma sample_round_usable: "oi_state (sample_round 100000000) = Some st \<Longrightarrow> round_usable (sample_round 100000000) st"
  "oi_state (sample_round 200000000) = Some st \<Longrightarrow> round_usable (sample_round 200000000) st"
  using own_description_matches [of sample_feed]
  by (auto simp: sample_round_def round_usable_def) (simp_all add: sample_feed_def)

lemma sample_pool_price:
  "poolQuotePerRwaX18 6 sample_tokens 6 79228162514264337593543950336 = Inr 1000000000000000000"
  by (simp add: poolQuotePerRwaX18_def scale_def safe_integer_def Q192_def X18_def sdiv_nonneg
      quoteIsToken0_def quoteIsToken1_def sample_tokens_def lower_def lower_char_def Let_def)

lemma sample_mark:
  "\<exists>m. evaluateOracleValuationMark (sample_mark_input
      \<lparr>mi_rwaOracle := map_option evaluateOracleRisk (Some (sample_round 200000000)),
       mi_quoteOracle := map_option evaluateOracleRisk (Some (sample_round 100000000))\<rparr>) = Inr m"
proof -
  have "mark_oracle_price (sample_mark_input
      \<lparr>mi_rwaOracle := map_option evaluateOracleRisk (Some (sample_round 200000000)),
       mi_quoteOracle := map_option evaluateOracleRisk (Some (sample_round 100000000))\<rparr>) = Inr (Some 2000000000000000000)"
    by (simp add: mark_oracle_price_def snapshot_state_def evaluated_state sample_round_def
        oracleQuotePerRwaX18_def scale_def safe_integer_def X18_def sdiv_nonneg)
  then show ?thesis
    unfolding evaluateOracleValuationMark_def Let_def
    by (simp add: sample_pool_price signedDeviationPpm_def) (simp add: sample_mark_input_def sample_pool_price signedDeviationPpm_def)
qed

theorem evaluateOracleValuationMark_valid_witness:
  "\<exists>m d. evaluateOracleValuationMark (sample_mark_input
      \<lparr>mi_rwaOracle := map_option evaluateOracleRisk (Some (sample_round 200000000)),
       mi_quoteOracle := map_option evaluateOracleRisk (Some (sample_round 100000000))\<rparr>) = Inr m \<and>
     vm_status m = Valid \<and> deviationPpm m = Some d"
proof -
  obtain m where m: "evaluateOracleValuationMark (sample_mark_input
      \<lparr>mi_rwaOracle := map_option evaluateOracleRisk (Some (sample_round 200000000)),
       mi_quoteOracle := map_option evaluateOracleRisk (Some (sample_round 100000000))\<rparr>) = Inr m"
    using sample_mark by blast
  obtain st st' where st: "oi_state (sample_round 200000000) = Some st" "oi_state (sample_round 100000000) = Some st'"
    by (simp add: sample_round_def)
  note u = sample_round_usable(2) [OF st(1)] sample_round_usable(1) [OF st(2)]
  have t: "\<exists>t. mi_token sample_mark_input = Some t \<and> 0 < uiMultiplier t \<and> newUIMultiplier t = uiMultiplier t \<and>
      \<not> oraclePaused t" "mi_tokenDecimals sample_mark_input = Some (mi_rwaDecimals sample_mark_input)"
    by (simp_all add: sample_mark_input_def)
  note v = evaluateOracleValuationMark_valid [OF m]
  then have "vm_status m = Valid" using st u t by blast
  with m v show ?thesis by blast
qed

theorem poolQuotePerRwaX18_exact_witness:
  "is_floor 1000000000000000000 (79228162514264337593543950336 * 79228162514264337593543950336 * 10 ^ nat 6 * 10 ^ 18)
     (2 ^ 192 * 10 ^ nat 6)"
proof -
  have "\<not> quoteIsToken0 sample_tokens"
    by (simp add: quoteIsToken0_def sample_tokens_def lower_def lower_char_def)
  with poolQuotePerRwaX18_exact [OF sample_pool_price] show ?thesis by (metis (full_types))
qed

end
