(* ===== verification/Oracle_Policy.thy ===== *)
theory Oracle_Policy
  imports Policy_Replay Oracle_Mark
begin

section \<open>Replay of range policies at oracle marks\<close>

text \<open>
  \<open>src/oracle-policy/math.ts\<close>, \<open>replay.ts\<close> and \<open>domain.ts\<close>: the policy replay again, with
  every value taken at a synchronized oracle mark and the pool price used only for the
  composition of the position.  A checkpoint without a valid mark ends the replay.  The state
  of a position, its holdings and the rebalance trigger are those of \<open>Policy_Replay\<close>, which
  the source repeats word for word.
\<close>

definition oracle_scale :: "int \<Rightarrow> int res" where
  "oracle_scale decimals =
     (if \<not> safe_integer decimals \<or> decimals < 0 \<or> decimals > 255
      then Inl ''Token decimals are outside the uint8 domain''
      else Inr (10 ^ nat decimals))"

definition oracleMarkedQuoteValue :: "int \<Rightarrow> int \<Rightarrow> int \<Rightarrow> int \<Rightarrow> int \<Rightarrow> quote_tokens \<Rightarrow> int res" where
  "oracleMarkedQuoteValue a0 a1 oraclePrice quoteDecimals rwaDecimals t =
     (if a0 < 0 \<or> a1 < 0 then Inl ''Token amounts must be nonnegative''
      else if oraclePrice \<le> 0 then Inl ''Oracle price must be positive''
      else if quoteIsToken0 t = quoteIsToken1 t then Inl ''Exactly one pool token must be the quote token''
      else
        let quoteAmount = (if quoteIsToken0 t then a0 else a1);
            rwaAmount = (if quoteIsToken0 t then a1 else a0) in
        bind_ok (oracle_scale quoteDecimals) (\<lambda>quoteScale.
        bind_ok (oracle_scale rwaDecimals) (\<lambda>rwaScale.
          Inr (quoteAmount + (rwaAmount * oraclePrice * quoteScale) sdiv (rwaScale * X18)))))"

subsection \<open>Records\<close>

record OraclePolicyCheckpointReference =
  oc_blockHash :: string
  oc_blockNumber :: int
  oc_blockTimestamp :: string
  capturedAt :: string
  oc_chainId :: int
  checkpointRunId :: string
  riskRunId :: string

record OraclePolicyCheckpoint =
  op_oraclePriceX18 :: "int option"
  op_pool :: RangePoolCheckpoint
  op_poolPriceX18 :: int
  op_reasons :: "string list"
  op_run :: OraclePolicyCheckpointReference
  op_status :: mark_status
  op_tokenDecimals :: int

record OraclePolicyReplaySource =
  os_checkpoints :: "OraclePolicyCheckpoint list"
  os_fee :: int
  indexedThroughBlock :: int
  os_intervals :: "RangeReplayInterval list"
  os_poolAddress :: string
  rwaAddress :: string
  rwaDecimals :: int
  os_rwaSymbol :: string
  os_streamKey :: string
  targetSetHash :: string
  os_tokens :: quote_tokens

record OraclePolicyReplayStep =
  ot_actionCostQuote :: int
  activeTickLower :: int
  activeTickUpper :: int
  ot_endAmount0 :: int
  ot_endAmount1 :: int
  endingTickLower :: int
  endingTickUpper :: int
  ot_fee0 :: int
  ot_fee1 :: int
  ot_feeValueQuote :: int
  fromCheckpointRunId :: string
  ot_hodlValueQuote :: int
  ot_index :: nat
  ot_lpAlphaQuote :: int
  ot_navQuote :: int
  ot_oraclePriceX18 :: int
  ot_pathMaxTick :: int
  ot_pathMinTick :: int
  ot_poolPriceX18 :: int
  poolSpotNavBeforeActionQuote :: int
  ot_rebalanced :: bool
  toCheckpointRunId :: string

record OraclePolicyReplayCandidate =
  od_absolutePnlQuote :: "int option"
  od_completedIntervals :: nat
  failureCheckpointRunId :: "string option"
  od_failureReason :: "string option"
  finalAmount0 :: "int option"
  finalAmount1 :: "int option"
  od_finalLiquidity :: "int option"
  od_finalNavQuote :: "int option"
  od_finalTickLower :: "int option"
  od_finalTickUpper :: "int option"
  od_halfWidthSpacings :: int
  od_hodlEndValueQuote :: "int option"
  initialAmount0 :: "int option"
  initialAmount1 :: "int option"
  initialNavQuote :: "int option"
  od_lpAlphaQuote :: "int option"
  markedFeeValueQuote :: int
  od_maxDrawdownPpm :: int
  od_rank :: "nat option"
  od_rebalances :: nat
  od_status :: candidate_status
  od_steps :: "OraclePolicyReplayStep list"
  od_totalCostQuote :: int

record OraclePolicyReplay =
  or_assumptions :: "string list"
  or_budgetQuote :: int
  or_candidates :: "OraclePolicyReplayCandidate list"
  or_checkpointCount :: nat
  or_completedCandidates :: nat
  or_computedAt :: string
  or_entryCostQuote :: int
  or_excludedCandidates :: nat
  orp_executionEligible :: bool
  or_fee :: int
  or_first :: OraclePolicyCheckpointReference
  or_indexedThroughBlock :: int
  or_intervalCount :: nat
  or_last :: OraclePolicyCheckpointReference
  or_methodology :: string
  or_policySetHash :: string
  or_poolAddress :: string
  or_quoteDecimals :: int
  or_rebalanceCostQuote :: int
  or_rwaAddress :: string
  or_rwaDecimals :: int
  or_rwaSymbol :: string
  or_schemaVersion :: int
  or_streamKey :: string
  or_targetSetHash :: string
  or_tickSpacing :: int
  or_tokens :: quote_tokens
  or_triggerPercent :: int

subsection \<open>Validation\<close>

definition sameAddress :: "string \<Rightarrow> string \<Rightarrow> bool" where
  "sameAddress left right \<longleftrightarrow> lower left = lower right"

fun join_with :: "string \<Rightarrow> string list \<Rightarrow> string" where
  "join_with sep [] = []"
| "join_with sep [x] = x"
| "join_with sep (x # y # ys) = x @ sep @ join_with sep (y # ys)"

definition invalidMarkReason :: "OraclePolicyCheckpoint \<Rightarrow> string" where
  "invalidMarkReason c = ''invalid_oracle_mark:'' @ join_with '','' (op_reasons c)"

text \<open>The checks of one checkpoint that are about its mark.\<close>

definition validate_mark :: "OraclePolicyCheckpoint \<Rightarrow> unit res" where
  "validate_mark c =
     (if op_status c = Valid then
        (case op_oraclePriceX18 c of
           None \<Rightarrow> Inl ''A valid oracle policy checkpoint has an invalid mark''
         | Some p \<Rightarrow>
             if op_reasons c \<noteq> [] then Inl ''A valid oracle policy checkpoint has an invalid mark''
             else if p \<le> 0 then Inl ''Oracle policy replay oracle price must be positive''
             else if cp_liquidity (op_pool c) = 0
             then Inl ''A valid oracle policy checkpoint has zero pool liquidity''
             else Inr ())
      else if op_reasons c = [] then Inl ''An excluded oracle policy checkpoint has no reasons''
      else Inr ())"

fun validate_oracle_checkpoints ::
  "OraclePolicyReplaySource \<Rightarrow> int \<Rightarrow> int option \<Rightarrow> OraclePolicyCheckpoint list \<Rightarrow> unit res"
where
  "validate_oracle_checkpoints s chain previous [] = Inr ()"
| "validate_oracle_checkpoints s chain previous (c # cs) =
     bind_ok (validateTickAndSqrtPrice (op_pool c)) (\<lambda>_.
       if cp_liquidity (op_pool c) < 0 then Inl ''Oracle policy replay pool liquidity cannot be negative''
       else if op_poolPriceX18 c \<le> 0 then Inl ''Oracle policy replay pool price must be positive''
       else
         bind_ok (poolQuotePerRwaX18 6 (os_tokens s) (rwaDecimals s) (cp_sqrtPriceX96 (op_pool c))) (\<lambda>expected.
           if op_poolPriceX18 c \<noteq> expected then Inl ''Oracle policy replay stored pool price is inconsistent''
           else if op_tokenDecimals c \<noteq> rwaDecimals s
           then Inl ''Oracle policy replay token decimals changed across checkpoints''
           else if oc_chainId (op_run c) \<noteq> chain
           then Inl ''Oracle policy replay checkpoints have different chain IDs''
           else if (case previous of None \<Rightarrow> False | Some b \<Rightarrow> b \<ge> oc_blockNumber (op_run c))
           then Inl ''Oracle policy replay checkpoints must be strictly block-ordered''
           else bind_ok (validate_mark c) (\<lambda>_.
             validate_oracle_checkpoints s chain (Some (oc_blockNumber (op_run c))) cs)))"

definition validate_oracle_interval ::
  "RangeReplayInterval \<times> OraclePolicyCheckpoint \<times> OraclePolicyCheckpoint \<Rightarrow> unit res" where
  "validate_oracle_interval = (\<lambda>(i, from, to).
     if iv_fromRunId i \<noteq> checkpointRunId (op_run from) \<or> iv_toRunId i \<noteq> checkpointRunId (op_run to)
     then Inl ''Oracle policy interval IDs do not match checkpoint order''
     else if iv_swapCount i < 0 \<or> iv_pathMinTick i > iv_pathMaxTick i \<or>
             iv_pathMinTick i > cp_tick (op_pool from) \<or> iv_pathMinTick i > cp_tick (op_pool to) \<or>
             iv_pathMaxTick i < cp_tick (op_pool from) \<or> iv_pathMaxTick i < cp_tick (op_pool to)
     then Inl ''Oracle policy tick path does not include both endpoints'' else Inr ())"

definition oracle_interval_ends ::
  "OraclePolicyReplaySource \<Rightarrow> (RangeReplayInterval \<times> OraclePolicyCheckpoint \<times> OraclePolicyCheckpoint) list" where
  "oracle_interval_ends s = zip (os_intervals s) (zip (os_checkpoints s) (tl (os_checkpoints s)))"

definition oracle_validateSource :: "OraclePolicyReplaySource \<Rightarrow> unit res" where
  "oracle_validateSource s =
     (let t = os_tokens s; rwaToken = (if quoteIsToken0 t then qt_token1 t else qt_token0 t) in
      if length (os_checkpoints s) < 2 then Inl ''Oracle policy replay requires at least two checkpoints''
      else if length (os_intervals s) \<noteq> length (os_checkpoints s) - 1
      then Inl ''Oracle policy replay requires one interval between every checkpoint''
      else if \<not> safe_integer (rwaDecimals s) \<or> rwaDecimals s < 0 \<or> rwaDecimals s > 255
      then Inl ''Oracle policy replay RWA decimals are invalid''
      else if quoteIsToken0 t = quoteIsToken1 t
      then Inl ''Oracle policy replay pool must contain the quote token exactly once''
      else if \<not> sameAddress rwaToken (rwaAddress s)
      then Inl ''Oracle policy replay RWA token does not match pool identity''
      else
        bind_ok (validate_oracle_checkpoints s (oc_chainId (op_run (hd (os_checkpoints s)))) None
                   (os_checkpoints s)) (\<lambda>_.
          if indexedThroughBlock s < oc_blockNumber (op_run (last (os_checkpoints s)))
          then Inl ''Indexed event coverage does not reach the final checkpoint''
          else bind_ok (map_res validate_oracle_interval (oracle_interval_ends s)) (\<lambda>_. Inr ())))"

definition markedValue :: "OraclePolicyReplaySource \<Rightarrow> OraclePolicyCheckpoint \<Rightarrow> int \<Rightarrow> int \<Rightarrow> int res" where
  "markedValue s c a0 a1 = (case op_oraclePriceX18 c of
      None \<Rightarrow> Inl ''Cannot value inventory with an invalid oracle mark''
    | Some p \<Rightarrow>
        if op_status c \<noteq> Valid then Inl ''Cannot value inventory with an invalid oracle mark''
        else oracleMarkedQuoteValue a0 a1 p 6 (rwaDecimals s) (os_tokens s))"

definition oracle_policy_hash :: "(string \<Rightarrow> string) \<Rightarrow> int \<Rightarrow> int \<Rightarrow> int list \<Rightarrow> int \<Rightarrow> int \<Rightarrow> string" where
  "oracle_policy_hash sha256 budget entryCost widths rebalanceCost triggerPercent =
     ''sha256:'' @ sha256 (json_object
       [(''budgetQuote'', quoted (show_int budget)), (''entryCostQuote'', quoted (show_int entryCost)),
        (''halfWidths'', json_ints widths),
        (''methodology'', quoted ''oracle_marked_stateful_certified_replay_v1''),
        (''rebalanceCostQuote'', quoted (show_int rebalanceCost)),
        (''triggerPercent'', show_int triggerPercent)])"

subsection \<open>The replay\<close>

record excluded_input =
  ex_completedIntervals :: nat
  ex_failureCheckpointRunId :: string
  ex_failureReason :: string
  ex_halfWidthSpacings :: int
  ex_initialAmount0 :: "int option"
  ex_initialAmount1 :: "int option"
  ex_initialNav :: "int option"
  ex_markedFeeValue :: int
  ex_maxDrawdown :: int
  ex_rebalances :: nat
  ex_steps :: "OraclePolicyReplayStep list"
  ex_totalCost :: int

definition excludedCandidate :: "excluded_input \<Rightarrow> OraclePolicyReplayCandidate" where
  "excludedCandidate i =
     \<lparr>od_absolutePnlQuote = None, od_completedIntervals = ex_completedIntervals i,
      failureCheckpointRunId = Some (ex_failureCheckpointRunId i),
      od_failureReason = Some (ex_failureReason i), finalAmount0 = None, finalAmount1 = None,
      od_finalLiquidity = None, od_finalNavQuote = None, od_finalTickLower = None,
      od_finalTickUpper = None, od_halfWidthSpacings = ex_halfWidthSpacings i,
      od_hodlEndValueQuote = None, initialAmount0 = ex_initialAmount0 i,
      initialAmount1 = ex_initialAmount1 i, initialNavQuote = ex_initialNav i, od_lpAlphaQuote = None,
      markedFeeValueQuote = ex_markedFeeValue i, od_maxDrawdownPpm = ex_maxDrawdown i, od_rank = None,
      od_rebalances = ex_rebalances i, od_status = Excluded, od_steps = ex_steps i,
      od_totalCostQuote = ex_totalCost i\<rparr>"

record oracle_vars =
  ov_state :: CandidateState
  ov_steps :: "OraclePolicyReplayStep list"
  ov_completedIntervals :: nat
  ov_failure :: "(string \<times> string) option"
  ov_markedFeeValue :: int
  ov_maxDrawdown :: int
  ov_peakNav :: int
  ov_rebalances :: nat
  ov_totalCost :: int

text \<open>
  The rebalancing branch: the new state, the action cost, whether it rebalanced, and the reason
  it failed.  The net value it spends is the one at the pool spot.
\<close>

definition try_recenter ::
  "replay_config \<Rightarrow> int \<Rightarrow> int \<Rightarrow> int \<Rightarrow> CandidateState \<Rightarrow> int \<Rightarrow>
   (CandidateState \<times> int \<times> bool \<times> string option) res"
where
  "try_recenter cf halfWidth tick price st spotNav =
     (if spotNav \<le> cf_rebalanceCost cf
      then Inr (st, 0, False, Some ''rebalance_cost_exhausted_pool_spot_capital'')
      else
        bind_ok (centeredRange tick halfWidth (cf_spacing cf)) (\<lambda>nextRange.
        bind_ok (sizeLiquidityForQuoteBudget (spotNav - cf_rebalanceCost cf) (cf_tokens cf) price nextRange) (\<lambda>nxt.
          if sz_liquidity nxt = 0
          then Inr (st, 0, False, Some ''rebalance_budget_too_small_for_nonzero_liquidity'')
          else Inr (addQuoteIdle (idleQuote nxt) (cf_tokens cf)
                      \<lparr>ks_idle0 = 0, ks_idle1 = 0, ks_liquidity = sz_liquidity nxt, ks_range = nextRange\<rparr>,
                    cf_rebalanceCost cf, True, None))))"

definition oracle_interval ::
  "replay_config \<Rightarrow> OraclePolicyReplaySource \<Rightarrow> int \<Rightarrow> int \<times> int \<Rightarrow>
   nat \<times> RangeReplayInterval \<times> OraclePolicyCheckpoint \<times> OraclePolicyCheckpoint \<Rightarrow> oracle_vars \<Rightarrow> oracle_vars res"
where
  "oracle_interval cf s halfWidth hodl arg v =
     (let (index, interval, from, to) = arg;
          st = ov_state v; active = ks_range st; toId = checkpointRunId (op_run to);
          price = cp_sqrtPriceX96 (op_pool to); t = os_tokens s in
      if op_status to \<noteq> Valid then Inr (v\<lparr>ov_failure := Some (invalidMarkReason to, toId)\<rparr>)
      else if iv_pathMinTick interval < tb_tickLower active \<or> iv_pathMaxTick interval \<ge> tb_tickUpper active
      then Inr (v\<lparr>ov_failure := Some (''observed_tick_path_crossed_range'', toId)\<rparr>)
      else
        let fee0 = (subtractUint256 (feeGrowthGlobal0X128 (op_pool to)) (feeGrowthGlobal0X128 (op_pool from)) *
                    ks_liquidity st) sdiv Q128;
            fee1 = (subtractUint256 (feeGrowthGlobal1X128 (op_pool to)) (feeGrowthGlobal1X128 (op_pool from)) *
                    ks_liquidity st) sdiv Q128;
            st1 = st\<lparr>ks_idle0 := ks_idle0 st + fee0, ks_idle1 := ks_idle1 st + fee1\<rparr>
        in
        bind_ok (markedValue s to fee0 fee1) (\<lambda>feeValue.
        bind_ok (holdings price st1) (\<lambda>(b0, b1).
        bind_ok (quoteValue b0 b1 t price) (\<lambda>spotNav.
        bind_ok (if should_rebalance cf halfWidth active (cp_tick (op_pool to))
                 then try_recenter cf halfWidth (cp_tick (op_pool to)) price st1 spotNav
                 else Inr (st1, 0, False, None)) (\<lambda>(st2, actionCost, rebalanced, failure).
        bind_ok (holdings price st2) (\<lambda>(e0, e1).
        bind_ok (markedValue s to e0 e1) (\<lambda>nav.
        bind_ok (markedValue s to (fst hodl) (snd hodl)) (\<lambda>hodlValue.
          let peakNav = (if nav > ov_peakNav v then nav else ov_peakNav v);
              drawdown = maxDrawdownPpm peakNav nav;
              step = \<lparr>ot_actionCostQuote = actionCost, activeTickLower = tb_tickLower active,
                activeTickUpper = tb_tickUpper active, ot_endAmount0 = e0, ot_endAmount1 = e1,
                endingTickLower = tb_tickLower (ks_range st2), endingTickUpper = tb_tickUpper (ks_range st2),
                ot_fee0 = fee0, ot_fee1 = fee1, ot_feeValueQuote = feeValue,
                fromCheckpointRunId = checkpointRunId (op_run from), ot_hodlValueQuote = hodlValue,
                ot_index = index, ot_lpAlphaQuote = nav - hodlValue, ot_navQuote = nav,
                ot_oraclePriceX18 = the (op_oraclePriceX18 to), ot_pathMaxTick = iv_pathMaxTick interval,
                ot_pathMinTick = iv_pathMinTick interval, ot_poolPriceX18 = op_poolPriceX18 to,
                poolSpotNavBeforeActionQuote = spotNav, ot_rebalanced = rebalanced, toCheckpointRunId = toId\<rparr>
          in
          Inr \<lparr>ov_state = st2, ov_steps = ov_steps v @ [step],
               ov_completedIntervals = ov_completedIntervals v + 1,
               ov_failure = map_option (\<lambda>reason. (reason, toId)) failure,
               ov_markedFeeValue = ov_markedFeeValue v + feeValue,
               ov_maxDrawdown = (if drawdown > ov_maxDrawdown v then drawdown else ov_maxDrawdown v),
               ov_peakNav = peakNav, ov_rebalances = ov_rebalances v + (if rebalanced then 1 else 0),
               ov_totalCost = ov_totalCost v + (if rebalanced then actionCost else 0)\<rparr>))))))))"

fun oracle_intervals ::
  "replay_config \<Rightarrow> OraclePolicyReplaySource \<Rightarrow> int \<Rightarrow> int \<times> int \<Rightarrow>
   (nat \<times> RangeReplayInterval \<times> OraclePolicyCheckpoint \<times> OraclePolicyCheckpoint) list \<Rightarrow> oracle_vars \<Rightarrow> oracle_vars res"
where
  "oracle_intervals cf s halfWidth hodl [] v = Inr v"
| "oracle_intervals cf s halfWidth hodl (x # xs) v =
     (if ov_failure v \<noteq> None then Inr v
      else bind_ok (oracle_interval cf s halfWidth hodl x v) (oracle_intervals cf s halfWidth hodl xs))"

definition oracle_result ::
  "replay_config \<Rightarrow> int \<Rightarrow> int \<times> int \<Rightarrow> int \<Rightarrow> oracle_vars \<Rightarrow> OraclePolicyReplayCandidate" where
  "oracle_result cf halfWidth initialAmounts initialNav v = (case ov_failure v of
      Some (reason, failedId) \<Rightarrow> excludedCandidate
        \<lparr>ex_completedIntervals = ov_completedIntervals v, ex_failureCheckpointRunId = failedId,
         ex_failureReason = reason, ex_halfWidthSpacings = halfWidth,
         ex_initialAmount0 = Some (fst initialAmounts), ex_initialAmount1 = Some (snd initialAmounts),
         ex_initialNav = Some initialNav, ex_markedFeeValue = ov_markedFeeValue v,
         ex_maxDrawdown = ov_maxDrawdown v, ex_rebalances = ov_rebalances v, ex_steps = ov_steps v,
         ex_totalCost = ov_totalCost v\<rparr>
    | None \<Rightarrow>
        let finalStep = last (ov_steps v); finalNav = ot_navQuote finalStep;
            hodlEndValue = ot_hodlValueQuote finalStep in
        \<lparr>od_absolutePnlQuote = Some (finalNav - cf_budget cf),
         od_completedIntervals = ov_completedIntervals v, failureCheckpointRunId = None,
         od_failureReason = None, finalAmount0 = Some (ot_endAmount0 finalStep),
         finalAmount1 = Some (ot_endAmount1 finalStep),
         od_finalLiquidity = Some (ks_liquidity (ov_state v)), od_finalNavQuote = Some finalNav,
         od_finalTickLower = Some (tb_tickLower (ks_range (ov_state v))),
         od_finalTickUpper = Some (tb_tickUpper (ks_range (ov_state v))),
         od_halfWidthSpacings = halfWidth, od_hodlEndValueQuote = Some hodlEndValue,
         initialAmount0 = Some (fst initialAmounts), initialAmount1 = Some (snd initialAmounts),
         initialNavQuote = Some initialNav, od_lpAlphaQuote = Some (finalNav - hodlEndValue),
         markedFeeValueQuote = ov_markedFeeValue v, od_maxDrawdownPpm = ov_maxDrawdown v, od_rank = None,
         od_rebalances = ov_rebalances v, od_status = Complete, od_steps = ov_steps v,
         od_totalCostQuote = ov_totalCost v\<rparr>)"

definition oracle_candidate ::
  "replay_config \<Rightarrow> OraclePolicyReplaySource \<Rightarrow> int \<Rightarrow> OraclePolicyReplayCandidate res" where
  "oracle_candidate cf s halfWidth =
     (let first = hd (os_checkpoints s); firstId = checkpointRunId (op_run first);
          capital = cf_budget cf - cf_entryCost cf; t = os_tokens s in
      if op_status first \<noteq> Valid
      then Inr (excludedCandidate \<lparr>ex_completedIntervals = 0, ex_failureCheckpointRunId = firstId,
         ex_failureReason = invalidMarkReason first, ex_halfWidthSpacings = halfWidth,
         ex_initialAmount0 = None, ex_initialAmount1 = None, ex_initialNav = None, ex_markedFeeValue = 0,
         ex_maxDrawdown = 0, ex_rebalances = 0, ex_steps = [], ex_totalCost = 0\<rparr>)
      else
        bind_ok (centeredRange (cp_tick (op_pool first)) halfWidth (cf_spacing cf)) (\<lambda>rg.
        bind_ok (sizeLiquidityForQuoteBudget capital t (cp_sqrtPriceX96 (op_pool first)) rg) (\<lambda>initial.
          let i0 = sz_amount0 initial + (if quoteIsToken0 t then idleQuote initial else 0);
              i1 = sz_amount1 initial + (if quoteIsToken0 t then 0 else idleQuote initial) in
          bind_ok (markedValue s first i0 i1) (\<lambda>initialNav.
            if sz_liquidity initial = 0
            then Inr (excludedCandidate \<lparr>ex_completedIntervals = 0, ex_failureCheckpointRunId = firstId,
               ex_failureReason = ''budget_too_small_for_nonzero_liquidity'',
               ex_halfWidthSpacings = halfWidth, ex_initialAmount0 = Some i0, ex_initialAmount1 = Some i1,
               ex_initialNav = Some initialNav, ex_markedFeeValue = 0, ex_maxDrawdown = 0,
               ex_rebalances = 0, ex_steps = [], ex_totalCost = cf_entryCost cf\<rparr>)
            else
              bind_ok (oracle_intervals cf s halfWidth (i0, i1)
                         (zip [0..<length (os_intervals s)] (oracle_interval_ends s))
                         \<lparr>ov_state = \<lparr>ks_idle0 = (if quoteIsToken0 t then idleQuote initial else 0),
                            ks_idle1 = (if quoteIsToken0 t then 0 else idleQuote initial),
                            ks_liquidity = sz_liquidity initial, ks_range = rg\<rparr>,
                          ov_steps = [], ov_completedIntervals = 0, ov_failure = None,
                          ov_markedFeeValue = 0, ov_maxDrawdown = 0, ov_peakNav = initialNav,
                          ov_rebalances = 0, ov_totalCost = cf_entryCost cf\<rparr>) (\<lambda>v.
                Inr (oracle_result cf halfWidth (i0, i1) initialNav v))))))"

definition oracle_complete :: "OraclePolicyReplayCandidate \<Rightarrow> bool" where
  "oracle_complete c \<longleftrightarrow> od_status c = Complete"

definition oracle_alpha :: "OraclePolicyReplayCandidate \<Rightarrow> int" where
  "oracle_alpha c = the (od_lpAlphaQuote c)"

definition oracle_rank_candidates :: "OraclePolicyReplayCandidate list \<Rightarrow> OraclePolicyReplayCandidate list" where
  "oracle_rank_candidates cs =
     (let ranks = rank_table od_halfWidthSpacings (rank_order oracle_complete oracle_alpha od_halfWidthSpacings cs)
      in map (\<lambda>c. c\<lparr>od_rank := ranks (od_halfWidthSpacings c)\<rparr>) cs)"

definition replayOracleMarkedPolicies ::
  "(string \<Rightarrow> string) \<Rightarrow> string \<Rightarrow> int \<Rightarrow> int \<Rightarrow> int list \<Rightarrow> int \<Rightarrow> OraclePolicyReplaySource \<Rightarrow> int \<Rightarrow>
   OraclePolicyReplay res"
where
  "replayOracleMarkedPolicies sha256 now budget entryCost givenWidths rebalanceCost s triggerPercent =
     bind_ok (oracle_validateSource s) (\<lambda>_.
       if budget \<le> 0 then Inl ''Oracle policy replay budget must be positive''
       else if entryCost < 0 \<or> entryCost \<ge> budget
       then Inl ''Oracle policy replay entry cost must be nonnegative and below budget''
       else if rebalanceCost < 0 then Inl ''Oracle policy replay rebalance cost must be nonnegative''
       else if \<not> safe_integer triggerPercent \<or> triggerPercent < 1 \<or> triggerPercent > 100
       then Inl ''Oracle policy replay trigger percent must be an integer from 1 to 100''
       else
         bind_ok (checked_half_widths givenWidths) (\<lambda>widths.
         bind_ok (tickSpacingForFee (os_fee s)) (\<lambda>spacing.
         bind_ok (map_res (oracle_candidate
             \<lparr>cf_budget = budget, cf_entryCost = entryCost, cf_rebalanceCost = rebalanceCost,
              cf_triggerPercent = triggerPercent, cf_spacing = spacing, cf_tokens = os_tokens s\<rparr> s) widths) (\<lambda>cs.
           let completed = length (filter oracle_complete cs) in
           Inr \<lparr>or_assumptions =
                  [''NAV, fees, and passive holding are valued only with valid synchronized oracle marks'',
                   ''pool spot is used only for principal composition and ideal recenter swaps'',
                   ''the observed indexed price path is unchanged by the candidate'',
                   ''zero market impact and no candidate self-dilution'',
                   ''operator-supplied costs are illustrative'',
                   ''the passive benchmark carries the exact post-entry token inventory'',
                   ''fees remain idle in their earned token until a recenter'',
                   ''marked fee value is summed at interval endpoint marks and is not standalone PnL'',
                   ''invalid marks and crossed intervals stop without interpolation'',
                   ''trigger checks occur only at checkpoints''],
                or_budgetQuote = budget, or_candidates = oracle_rank_candidates cs,
                or_checkpointCount = length (os_checkpoints s), or_completedCandidates = completed,
                or_computedAt = now, or_entryCostQuote = entryCost,
                or_excludedCandidates = length (oracle_rank_candidates cs) - completed,
                orp_executionEligible = False, or_fee = os_fee s,
                or_first = op_run (hd (os_checkpoints s)), or_indexedThroughBlock = indexedThroughBlock s,
                or_intervalCount = length (os_intervals s), or_last = op_run (last (os_checkpoints s)),
                or_methodology = ''oracle_marked_stateful_certified_replay_v1'',
                or_policySetHash = oracle_policy_hash sha256 budget entryCost widths rebalanceCost triggerPercent,
                or_poolAddress = os_poolAddress s, or_quoteDecimals = 6,
                or_rebalanceCostQuote = rebalanceCost, or_rwaAddress = rwaAddress s,
                or_rwaDecimals = rwaDecimals s, or_rwaSymbol = os_rwaSymbol s, or_schemaVersion = 1,
                or_streamKey = os_streamKey s, or_targetSetHash = targetSetHash s, or_tickSpacing = spacing,
                or_tokens = os_tokens s, or_triggerPercent = triggerPercent\<rparr>))))"

subsection \<open>Every value is at a valid mark\<close>

lemma markedValue_Inr:
  assumes "markedValue s c a0 a1 = Inr v"
  shows "op_status c = Valid" "0 \<le> a0" "0 \<le> a1" "0 \<le> v"
    "\<exists>p. op_oraclePriceX18 c = Some p \<and> 0 < p \<and> (\<exists>q. is_floor q
       ((if quoteIsToken0 (os_tokens s) then a1 else a0) * p * 10 ^ 6) (10 ^ nat (rwaDecimals s) * X18) \<and>
       v = (if quoteIsToken0 (os_tokens s) then a0 else a1) + q)"
proof -
  let ?r = "if quoteIsToken0 (os_tokens s) then a1 else a0"
  let ?q = "if quoteIsToken0 (os_tokens s) then a0 else a1"
  from assms obtain p where p: "op_oraclePriceX18 c = Some p" "0 < p" "op_status c = Valid" "0 \<le> a0" "0 \<le> a1"
    and v: "v = ?q + (?r * p * 10 ^ 6) sdiv (10 ^ nat (rwaDecimals s) * X18)"
    by (auto simp: markedValue_def oracleMarkedQuoteValue_def Let_def bind_ok_Inr_iff oracle_scale_def
        split: option.splits if_splits)
  have n: "0 \<le> ?r * p * 10 ^ 6" "0 < (10 :: int) ^ nat (rwaDecimals s) * X18"
    using p by (simp_all add: X18_def)
  have q: "is_floor ((?r * p * 10 ^ 6) sdiv (10 ^ nat (rwaDecimals s) * X18)) (?r * p * 10 ^ 6)
      (10 ^ nat (rwaDecimals s) * X18)"
    by (rule is_floor_sdiv [OF n])
  have "0 \<le> (?r * p * 10 ^ 6) sdiv (10 ^ nat (rwaDecimals s) * X18)"
    using n by (simp add: sdiv_nonneg pos_imp_zdiv_nonneg_iff)
  with p v show "op_status c = Valid" "0 \<le> a0" "0 \<le> a1" "0 \<le> v" by auto
  show "\<exists>p. op_oraclePriceX18 c = Some p \<and> 0 < p \<and> (\<exists>q. is_floor q (?r * p * 10 ^ 6)
      (10 ^ nat (rwaDecimals s) * X18) \<and> v = ?q + q)"
    using p v q by blast
qed

text \<open>A position is worth \<open>nav\<close> at a checkpoint: at its oracle price, for the holdings at its pool price.\<close>

definition oracle_marked ::
  "OraclePolicyReplaySource \<Rightarrow> OraclePolicyCheckpoint \<Rightarrow> CandidateState \<Rightarrow> int \<Rightarrow> int \<Rightarrow> int \<Rightarrow> bool" where
  "oracle_marked s c st e0 e1 nav \<longleftrightarrow>
     holdings (cp_sqrtPriceX96 (op_pool c)) st = Inr (e0, e1) \<and> markedValue s c e0 e1 = Inr nav"

definition oracle_step_ok ::
  "replay_config \<Rightarrow> OraclePolicyReplaySource \<Rightarrow> OraclePolicyReplayStep \<Rightarrow> bool" where
  "oracle_step_ok cf s st \<longleftrightarrow> activeTickLower st \<le> ot_pathMinTick st \<and> ot_pathMaxTick st < activeTickUpper st \<and>
     ot_actionCostQuote st = (if ot_rebalanced st then cf_rebalanceCost cf else 0) \<and>
     ot_lpAlphaQuote st = ot_navQuote st - ot_hodlValueQuote st \<and> 0 \<le> ot_navQuote st \<and>
     (\<exists>c\<in>set (os_checkpoints s). checkpointRunId (op_run c) = toCheckpointRunId st \<and> op_status c = Valid \<and>
        op_oraclePriceX18 c = Some (ot_oraclePriceX18 st) \<and>
        markedValue s c (ot_endAmount0 st) (ot_endAmount1 st) = Inr (ot_navQuote st))"

definition oracle_books_ok :: "replay_config \<Rightarrow> OraclePolicyReplaySource \<Rightarrow> oracle_vars \<Rightarrow> bool" where
  "oracle_books_ok cf s v \<longleftrightarrow>
     ov_completedIntervals v = length (ov_steps v) \<and>
     ov_markedFeeValue v = sum_list (map ot_feeValueQuote (ov_steps v)) \<and>
     ov_rebalances v = length (filter ot_rebalanced (ov_steps v)) \<and>
     ov_totalCost v = cf_entryCost cf + int (ov_rebalances v) * cf_rebalanceCost cf \<and>
     (\<forall>st\<in>set (ov_steps v). oracle_step_ok cf s st) \<and>
     0 \<le> ov_maxDrawdown v \<and> ov_maxDrawdown v \<le> 1000000"

lemma try_recenter_Inr:
  assumes "try_recenter cf w tick price st spot = Inr (st', cost, reb, failure)"
  shows "cost = (if reb then cf_rebalanceCost cf else 0)" "reb \<longleftrightarrow> failure = None"
  using assms by (auto simp: try_recenter_def Let_def bind_ok_Inr_iff split: if_splits)

lemma oracle_interval_Inr:
  assumes r: "oracle_interval cf s w hodl (i, iv, src, dst) v = Inr v'" and books: "oracle_books_ok cf s v"
    and none: "ov_failure v = None" and dst: "dst \<in> set (os_checkpoints s)"
  shows "oracle_books_ok cf s v' \<and> (ov_failure v' = None \<longrightarrow>
    length (ov_steps v') = Suc (length (ov_steps v)) \<and> op_status dst = Valid \<and>
    (let st = last (ov_steps v') in
      oracle_marked s dst (ov_state v') (ot_endAmount0 st) (ot_endAmount1 st) (ot_navQuote st)))"
proof -
  let ?rg = "ks_range (ov_state v)" and ?p = "cp_sqrtPriceX96 (op_pool dst)"
  show ?thesis
  proof (cases "op_status dst \<noteq> Valid \<or> iv_pathMinTick iv < tb_tickLower ?rg \<or> iv_pathMaxTick iv \<ge> tb_tickUpper ?rg")
    case True
    then have "\<exists>f. v' = v\<lparr>ov_failure := Some f\<rparr>" using r by (auto simp: oracle_interval_def Let_def split: if_splits)
    then show ?thesis using books by (auto simp: oracle_books_ok_def)
  next
    case False
    define fee0 where "fee0 = (subtractUint256 (feeGrowthGlobal0X128 (op_pool dst))
      (feeGrowthGlobal0X128 (op_pool src)) * ks_liquidity (ov_state v)) sdiv Q128"
    define fee1 where "fee1 = (subtractUint256 (feeGrowthGlobal1X128 (op_pool dst))
      (feeGrowthGlobal1X128 (op_pool src)) * ks_liquidity (ov_state v)) sdiv Q128"
    define st1 where "st1 = (ov_state v)\<lparr>ks_idle0 := ks_idle0 (ov_state v) + fee0,
      ks_idle1 := ks_idle1 (ov_state v) + fee1\<rparr>"
    define R where "R spot = (if should_rebalance cf w ?rg (cp_tick (op_pool dst))
      then try_recenter cf w (cp_tick (op_pool dst)) ?p st1 spot else Inr (st1, 0, False, None))" for spot
    note r1 = r [unfolded oracle_interval_def Let_def prod.case, folded fee0_def fee1_def,
        folded st1_def, folded R_def]
    from r1 False obtain feeValue b0 b1 spot where f: "markedValue s dst fee0 fee1 = Inr feeValue"
      and m0: "holdings ?p st1 = Inr (b0, b1)" "quoteValue b0 b1 (os_tokens s) ?p = Inr spot"
      by (auto simp: bind_ok_Inr_iff)
    from r1 False f m0 obtain st2 cost reb failure where R: "R spot = Inr (st2, cost, reb, failure)"
      by (auto simp: bind_ok_Inr_iff)
    from r1 False f m0 R obtain e0 e1 nav hv where e: "holdings ?p st2 = Inr (e0, e1)"
      "markedValue s dst e0 e1 = Inr nav" "markedValue s dst (fst hodl) (snd hodl) = Inr hv"
      by (auto simp: bind_ok_Inr_iff)
    let ?peak = "if nav > ov_peakNav v then nav else ov_peakNav v"
    let ?step = "\<lparr>ot_actionCostQuote = cost, activeTickLower = tb_tickLower ?rg,
        activeTickUpper = tb_tickUpper ?rg, ot_endAmount0 = e0, ot_endAmount1 = e1,
        endingTickLower = tb_tickLower (ks_range st2), endingTickUpper = tb_tickUpper (ks_range st2),
        ot_fee0 = fee0, ot_fee1 = fee1, ot_feeValueQuote = feeValue,
        fromCheckpointRunId = checkpointRunId (op_run src), ot_hodlValueQuote = hv,
        ot_index = i, ot_lpAlphaQuote = nav - hv, ot_navQuote = nav,
        ot_oraclePriceX18 = the (op_oraclePriceX18 dst), ot_pathMaxTick = iv_pathMaxTick iv,
        ot_pathMinTick = iv_pathMinTick iv, ot_poolPriceX18 = op_poolPriceX18 dst,
        poolSpotNavBeforeActionQuote = spot, ot_rebalanced = reb,
        toCheckpointRunId = checkpointRunId (op_run dst)\<rparr>"
    have v': "ov_state v' = st2" "ov_steps v' = ov_steps v @ [?step]"
        "ov_failure v' = map_option (\<lambda>reason. (reason, checkpointRunId (op_run dst))) failure"
        "ov_completedIntervals v' = ov_completedIntervals v + 1"
        "ov_markedFeeValue v' = ov_markedFeeValue v + feeValue"
        "ov_rebalances v' = ov_rebalances v + (if reb then 1 else 0)"
        "ov_totalCost v' = ov_totalCost v + (if reb then cost else 0)"
        "ov_maxDrawdown v' = max (ov_maxDrawdown v) (maxDrawdownPpm ?peak nav)"
      using r1 False f m0 R e by (auto simp: max_def)
    have cost: "cost = (if reb then cf_rebalanceCost cf else 0)"
      using R by (auto simp: R_def dest: try_recenter_Inr(1) split: if_splits)
    note n = markedValue_Inr [OF e(2)]
    have "oracle_step_ok cf s ?step"
      using False cost n e(2) dst by (auto simp: oracle_step_ok_def)
    then show ?thesis
      using books False cost e maxDrawdownPpm_range [OF n(4), of ?peak]
      by (auto simp: oracle_books_ok_def v' oracle_marked_def algebra_simps)
  qed
qed

lemma oracle_intervals_Inr:
  assumes "oracle_intervals cf s w hodl xs v = Inr v'" "oracle_books_ok cf s v" "ov_failure v = None"
    and "\<forall>x\<in>set xs. snd (snd (snd x)) \<in> set (os_checkpoints s)"
  shows "oracle_books_ok cf s v' \<and> (ov_failure v' = None \<longrightarrow>
    length (ov_steps v') = length (ov_steps v) + length xs \<and>
    (\<forall>x\<in>set xs. op_status (snd (snd (snd x))) = Valid) \<and>
    (xs \<noteq> [] \<longrightarrow> (let st = last (ov_steps v') in oracle_marked s (snd (snd (snd (last xs)))) (ov_state v')
      (ot_endAmount0 st) (ot_endAmount1 st) (ot_navQuote st))))"
  using assms
proof (induction xs arbitrary: v)
  case Nil
  then show ?case by simp
next
  case (Cons x xs)
  obtain i iv src dst where x: "x = (i, iv, src, dst)" by (cases x) auto
  from Cons.prems obtain v1 where v1: "oracle_interval cf s w hodl (i, iv, src, dst) v = Inr v1"
    and rest: "oracle_intervals cf s w hodl xs v1 = Inr v'"
    by (auto simp: x bind_ok_Inr_iff)
  have dst: "dst \<in> set (os_checkpoints s)" using Cons.prems(4) by (simp add: x)
  note st = oracle_interval_Inr [OF v1 Cons.prems(2,3) dst]
  show ?case
  proof (cases "ov_failure v1")
    case None
    have "\<forall>x\<in>set xs. snd (snd (snd x)) \<in> set (os_checkpoints s)" using Cons.prems(4) by simp
    from Cons.IH [OF rest conjunct1 [OF st] None this] st None rest show ?thesis
      by (cases xs) (auto simp: x)
  next
    case (Some e)
    then have "v' = v1" using rest by (cases xs) auto
    with Some st show ?thesis by simp
  qed
qed

definition oracle_sound ::
  "replay_config \<Rightarrow> OraclePolicyReplaySource \<Rightarrow> OraclePolicyReplayCandidate \<Rightarrow> bool" where
  "oracle_sound cf s c \<longleftrightarrow>
     od_completedIntervals c = length (od_steps c) \<and>
     markedFeeValueQuote c = sum_list (map ot_feeValueQuote (od_steps c)) \<and>
     od_rebalances c = length (filter ot_rebalanced (od_steps c)) \<and>
     od_totalCostQuote c = (if initialNavQuote c = None then 0
       else cf_entryCost cf + int (od_rebalances c) * cf_rebalanceCost cf) \<and>
     (\<forall>st\<in>set (od_steps c). oracle_step_ok cf s st) \<and>
     0 \<le> od_maxDrawdownPpm c \<and> od_maxDrawdownPpm c \<le> 1000000 \<and>
     (oracle_complete c \<longleftrightarrow> od_failureReason c = None) \<and>
     (oracle_complete c \<longrightarrow> od_completedIntervals c = length (os_intervals s) \<and>
        (\<forall>cp\<in>set (os_checkpoints s). op_status cp = Valid) \<and>
        (\<exists>nav L lo hi idle0 idle1 e0 e1.
          od_finalNavQuote c = Some nav \<and> od_finalLiquidity c = Some L \<and>
          od_finalTickLower c = Some lo \<and> od_finalTickUpper c = Some hi \<and>
          finalAmount0 c = Some e0 \<and> finalAmount1 c = Some e1 \<and>
          oracle_marked s (last (os_checkpoints s)) \<lparr>ks_idle0 = idle0, ks_idle1 = idle1, ks_liquidity = L,
            ks_range = \<lparr>tb_tickLower = lo, tb_tickUpper = hi\<rparr>\<rparr> e0 e1 nav \<and>
          od_absolutePnlQuote c = Some (nav - cf_budget cf)))"

lemma excluded_sound:
  assumes "ex_completedIntervals i = length (ex_steps i)"
    "ex_markedFeeValue i = sum_list (map ot_feeValueQuote (ex_steps i))"
    "ex_rebalances i = length (filter ot_rebalanced (ex_steps i))"
    "ex_totalCost i = (if ex_initialNav i = None then 0
      else cf_entryCost cf + int (ex_rebalances i) * cf_rebalanceCost cf)"
    "\<forall>st\<in>set (ex_steps i). oracle_step_ok cf s st" "0 \<le> ex_maxDrawdown i" "ex_maxDrawdown i \<le> 1000000"
  shows "oracle_sound cf s (excludedCandidate i)"
  using assms by (simp add: oracle_sound_def excludedCandidate_def oracle_complete_def)

abbreviation oracle_start :: "replay_config \<Rightarrow> CandidateState \<Rightarrow> int \<Rightarrow> oracle_vars" where
  "oracle_start cf st initialNav \<equiv> \<lparr>ov_state = st, ov_steps = [], ov_completedIntervals = 0,
     ov_failure = None, ov_markedFeeValue = 0, ov_maxDrawdown = 0, ov_peakNav = initialNav,
     ov_rebalances = 0, ov_totalCost = cf_entryCost cf\<rparr>"

abbreviation oracle_walk ::
  "OraclePolicyReplaySource \<Rightarrow> (nat \<times> RangeReplayInterval \<times> OraclePolicyCheckpoint \<times> OraclePolicyCheckpoint) list" where
  "oracle_walk s \<equiv> zip [0..<length (os_intervals s)] (oracle_interval_ends s)"

lemma oracle_walk_ends:
  assumes "length (os_intervals s) = length (os_checkpoints s) - 1" "2 \<le> length (os_checkpoints s)"
  shows "length (oracle_walk s) = length (os_intervals s)" "oracle_walk s \<noteq> []"
    "snd (snd (snd (last (oracle_walk s)))) = last (os_checkpoints s)"
    "(\<lambda>x. snd (snd (snd x))) ` set (oracle_walk s) = set (tl (os_checkpoints s))"
proof -
  note e = zip_neighbours [OF assms, folded oracle_interval_ends_def]
  show "length (oracle_walk s) = length (os_intervals s)" "oracle_walk s \<noteq> []"
    using e(1,2) by (auto simp: zip_eq_Nil_iff)
  show "snd (snd (snd (last (oracle_walk s)))) = last (os_checkpoints s)"
    unfolding e(1) [symmetric] using e(2,4) last_indexed [of "oracle_interval_ends s"] by simp
  have "map (\<lambda>x. snd (snd (snd x))) (oracle_walk s) = map (\<lambda>x. snd (snd x)) (map snd (oracle_walk s))" by simp
  also have "map snd (oracle_walk s) = oracle_interval_ends s" using e(1) by (simp add: map_snd_zip_take)
  finally show "(\<lambda>x. snd (snd (snd x))) ` set (oracle_walk s) = set (tl (os_checkpoints s))"
    using e(3) by (metis list.set_map)
qed

text \<open>A candidate is excluded before it starts, or the result of a walk over the intervals.\<close>

lemma oracle_candidate_cases:
  assumes "oracle_candidate cf s w = Inr c"
  shows "(oracle_sound cf s c \<and> od_halfWidthSpacings c = w) \<or>
    op_status (hd (os_checkpoints s)) = Valid \<and> (\<exists>v st amounts initialNav.
      oracle_intervals cf s w amounts (oracle_walk s) (oracle_start cf st initialNav) = Inr v \<and>
      c = oracle_result cf w amounts initialNav v)"
proof (cases "op_status (hd (os_checkpoints s)) = Valid")
  case False
  then show ?thesis
    using assms by (auto simp: oracle_candidate_def Let_def excludedCandidate_def oracle_sound_def oracle_complete_def)
next
  case True
  show ?thesis using assms [unfolded oracle_candidate_def Let_def True simp_thms if_False]
  proof (elim bind_ok_Inr_E)
    fix rg initial initialNav
    let ?i0 = "sz_amount0 initial + (if quoteIsToken0 (os_tokens s) then idleQuote initial else 0)"
    let ?i1 = "sz_amount1 initial + (if quoteIsToken0 (os_tokens s) then 0 else idleQuote initial)"
    let ?st = "\<lparr>ks_idle0 = (if quoteIsToken0 (os_tokens s) then idleQuote initial else 0),
        ks_idle1 = (if quoteIsToken0 (os_tokens s) then 0 else idleQuote initial),
        ks_liquidity = sz_liquidity initial, ks_range = rg\<rparr>"
    assume k: "(if sz_liquidity initial = 0
        then Inr (excludedCandidate \<lparr>ex_completedIntervals = 0,
             ex_failureCheckpointRunId = checkpointRunId (op_run (hd (os_checkpoints s))),
             ex_failureReason = ''budget_too_small_for_nonzero_liquidity'',
             ex_halfWidthSpacings = w, ex_initialAmount0 = Some ?i0, ex_initialAmount1 = Some ?i1,
             ex_initialNav = Some initialNav, ex_markedFeeValue = 0, ex_maxDrawdown = 0,
             ex_rebalances = 0, ex_steps = [], ex_totalCost = cf_entryCost cf\<rparr>)
        else bind_ok (oracle_intervals cf s w (?i0, ?i1) (oracle_walk s) (oracle_start cf ?st initialNav))
          (\<lambda>v. Inr (oracle_result cf w (?i0, ?i1) initialNav v))) = Inr c"
    show ?thesis
    proof (cases "sz_liquidity initial = 0")
      case True
      with k show ?thesis by (auto simp: excludedCandidate_def oracle_sound_def oracle_complete_def)
    next
      case False
      then obtain v where "oracle_intervals cf s w (?i0, ?i1) (oracle_walk s) (oracle_start cf ?st initialNav) = Inr v"
          "c = oracle_result cf w (?i0, ?i1) initialNav v"
        using k by (simp only: if_False bind_ok_Inr_iff sum.inject) blast
      with True show ?thesis by blast
    qed
  qed
qed

lemma oracle_candidate_sound:
  assumes c: "oracle_candidate cf s w = Inr c"
    and len: "length (os_intervals s) = length (os_checkpoints s) - 1" "2 \<le> length (os_checkpoints s)"
  shows "oracle_sound cf s c \<and> od_halfWidthSpacings c = w"
  using oracle_candidate_cases [OF c]
proof (elim disjE conjE exE)
  fix v st amounts initialNav
  assume first: "op_status (hd (os_checkpoints s)) = Valid"
    and r: "oracle_intervals cf s w amounts (oracle_walk s) (oracle_start cf st initialNav) = Inr v"
    and c: "c = oracle_result cf w amounts initialNav v"
  note e = oracle_walk_ends [OF len]
  have ne: "os_checkpoints s \<noteq> []" using len(2) by auto
  have "\<forall>x\<in>set (oracle_walk s). snd (snd (snd x)) \<in> set (os_checkpoints s)"
    using e(4) list.set_sel(2) [OF ne] by blast
  from oracle_intervals_Inr [OF r _ _ this]
  have b: "oracle_books_ok cf s v" and ended: "ov_failure v = None \<Longrightarrow> length (ov_steps v) = length (oracle_walk s) \<and>
      (\<forall>x\<in>set (oracle_walk s). op_status (snd (snd (snd x))) = Valid) \<and>
      oracle_marked s (last (os_checkpoints s)) (ov_state v) (ot_endAmount0 (last (ov_steps v)))
        (ot_endAmount1 (last (ov_steps v))) (ot_navQuote (last (ov_steps v)))"
    using e(2,3) by (simp_all add: oracle_books_ok_def Let_def)
  show ?thesis
  proof (cases "ov_failure v")
    case (Some f)
    then show ?thesis using b unfolding c oracle_result_def
      by (cases f) (simp add: oracle_books_ok_def excludedCandidate_def oracle_sound_def oracle_complete_def)
  next
    case None
    have "\<forall>cp\<in>set (tl (os_checkpoints s)). op_status cp = Valid"
      unfolding e(4) [symmetric] using ended [OF None] by simp
    then have "\<forall>cp\<in>set (os_checkpoints s). op_status cp = Valid"
      using first ne by (cases "os_checkpoints s") auto
    moreover obtain k0 k1 L lo hi where "ov_state v = \<lparr>ks_idle0 = k0, ks_idle1 = k1, ks_liquidity = L,
        ks_range = \<lparr>tb_tickLower = lo, tb_tickUpper = hi\<rparr>\<rparr>"
      by (metis CandidateState.cases TickBounds.cases old.unit.exhaust)
    ultimately show ?thesis using b ended [OF None] e(1) None unfolding c
      by (auto simp: oracle_result_def oracle_books_ok_def oracle_sound_def oracle_complete_def Let_def)
  qed
qed simp

interpretation oracle_ranks: candidate_ranking oracle_complete oracle_alpha od_halfWidthSpacings od_rank
  "\<lambda>r c. c\<lparr>od_rank := r\<rparr>"
  by unfold_locales (simp_all add: oracle_complete_def oracle_alpha_def)

lemma oracle_sound_rank [simp]: "oracle_sound cf s (c\<lparr>od_rank := r\<rparr>) = oracle_sound cf s c"
  by (simp add: oracle_sound_def oracle_complete_def)

lemma oracle_policies_Inr:
  assumes "replayOracleMarkedPolicies sha256 now budget entryCost widths rebalanceCost s trigger = Inr rep"
  obtains cs cf where "or_candidates rep = oracle_ranks.ranked cs" "map od_halfWidthSpacings cs = sort widths"
    "distinct widths" "\<forall>c\<in>set cs. oracle_sound cf s c"
    "cf_budget cf = budget" "cf_entryCost cf = entryCost" "cf_rebalanceCost cf = rebalanceCost"
    "or_completedCandidates rep = length (filter oracle_complete cs)"
    "or_excludedCandidates rep = length cs - length (filter oracle_complete cs)"
proof -
  from assms obtain spacing cs where len: "2 \<le> length (os_checkpoints s)"
      "length (os_intervals s) = length (os_checkpoints s) - 1" and d: "distinct widths"
    and cs: "map_res (oracle_candidate
             \<lparr>cf_budget = budget, cf_entryCost = entryCost, cf_rebalanceCost = rebalanceCost,
              cf_triggerPercent = trigger, cf_spacing = spacing, cf_tokens = os_tokens s\<rparr> s) (sort widths) = Inr cs"
    and rep: "or_candidates rep = oracle_rank_candidates cs"
      "or_completedCandidates rep = length (filter oracle_complete cs)"
      "or_excludedCandidates rep = length (oracle_rank_candidates cs) - length (filter oracle_complete cs)"
    by (auto simp: replayOracleMarkedPolicies_def oracle_validateSource_def checked_half_widths_def Let_def
        bind_ok_Inr_iff split: if_splits)
  note snd = oracle_candidate_sound [OF _ len(2,1)]
  have "list_all2 (\<lambda>w c. od_halfWidthSpacings c = w) (sort widths) cs"
    using cs snd unfolding map_res_Inr_iff by (auto elim!: list_all2_mono)
  then have w: "map od_halfWidthSpacings cs = sort widths" by (induction rule: list_all2_induct) auto
  have "oracle_rank_candidates cs = oracle_ranks.ranked cs" "length (oracle_rank_candidates cs) = length cs"
    by (simp_all add: oracle_rank_candidates_def oracle_ranks.ranked_def oracle_ranks.table_def Let_def)
  then show thesis
    using that [OF _ w d, of "\<lparr>cf_budget = budget, cf_entryCost = entryCost, cf_rebalanceCost = rebalanceCost,
              cf_triggerPercent = trigger, cf_spacing = spacing, cf_tokens = os_tokens s\<rparr>"]
      map_res_set [OF cs] snd rep by auto
qed

text \<open>
  C25: the books of every candidate of an oracle-marked replay balance, and every step was
  valued at a checkpoint with a valid mark: its net value is the holdings it reports, at that
  checkpoint's oracle price.  A candidate is complete exactly when it has no failure, and then
  every checkpoint of the source had a valid mark, every interval was replayed, and the final
  net value is that of the final position's holdings at the last checkpoint.
\<close>

theorem oracle_policy_accounts:
  assumes "replayOracleMarkedPolicies sha256 now budget entryCost widths rebalanceCost s trigger = Inr rep"
    and "c \<in> set (or_candidates rep)"
  shows "od_completedIntervals c = length (od_steps c) \<and>
    markedFeeValueQuote c = sum_list (map ot_feeValueQuote (od_steps c)) \<and>
    od_rebalances c = length (filter ot_rebalanced (od_steps c)) \<and>
    od_totalCostQuote c = (if initialNavQuote c = None then 0
      else entryCost + int (od_rebalances c) * rebalanceCost) \<and>
    (\<forall>st\<in>set (od_steps c). activeTickLower st \<le> ot_pathMinTick st \<and> ot_pathMaxTick st < activeTickUpper st \<and>
      0 \<le> ot_navQuote st \<and> ot_lpAlphaQuote st = ot_navQuote st - ot_hodlValueQuote st \<and>
      (\<exists>cp\<in>set (os_checkpoints s). checkpointRunId (op_run cp) = toCheckpointRunId st \<and> op_status cp = Valid \<and>
        op_oraclePriceX18 cp = Some (ot_oraclePriceX18 st) \<and>
        markedValue s cp (ot_endAmount0 st) (ot_endAmount1 st) = Inr (ot_navQuote st))) \<and>
    0 \<le> od_maxDrawdownPpm c \<and> od_maxDrawdownPpm c \<le> 1000000 \<and>
    (od_status c = Complete \<longleftrightarrow> od_failureReason c = None) \<and>
    (od_status c = Complete \<longrightarrow> od_completedIntervals c = length (os_intervals s) \<and>
      (\<forall>cp\<in>set (os_checkpoints s). op_status cp = Valid) \<and>
      (\<exists>nav L lo hi idle0 idle1 e0 e1.
        od_finalNavQuote c = Some nav \<and> od_finalLiquidity c = Some L \<and>
        od_finalTickLower c = Some lo \<and> od_finalTickUpper c = Some hi \<and>
        finalAmount0 c = Some e0 \<and> finalAmount1 c = Some e1 \<and>
        oracle_marked s (last (os_checkpoints s)) \<lparr>ks_idle0 = idle0, ks_idle1 = idle1, ks_liquidity = L,
          ks_range = \<lparr>tb_tickLower = lo, tb_tickUpper = hi\<rparr>\<rparr> e0 e1 nav \<and>
        od_absolutePnlQuote c = Some (nav - budget)))"
proof -
  obtain cs cf where cs: "or_candidates rep = oracle_ranks.ranked cs" "\<forall>c\<in>set cs. oracle_sound cf s c"
    and cf: "cf_budget cf = budget" "cf_entryCost cf = entryCost" "cf_rebalanceCost cf = rebalanceCost"
    by (rule oracle_policies_Inr [OF assms(1)])
  then have "oracle_sound cf s c" using assms(2) by (auto simp: oracle_ranks.ranked_def)
  then show ?thesis
    unfolding oracle_sound_def oracle_step_ok_def oracle_complete_def cf by blast
qed

subsection \<open>A replayed interval at oracle marks\<close>

definition sample_reference :: "int \<Rightarrow> OraclePolicyCheckpointReference" where
  "sample_reference n = \<lparr>oc_blockHash = ''h'', oc_blockNumber = n, oc_blockTimestamp = ''t'', capturedAt = ''t'',
     oc_chainId = 1, checkpointRunId = show_int n, riskRunId = ''r''\<rparr>"

definition sample_marked :: "int \<Rightarrow> OraclePolicyCheckpoint" where
  "sample_marked n = \<lparr>op_oraclePriceX18 = Some 1000000000000000000, op_pool = sample_checkpoint,
     op_poolPriceX18 = 1000000000000000000, op_reasons = [], op_run = sample_reference n, op_status = Valid,
     op_tokenDecimals = 6\<rparr>"

definition sample_oracle_source :: OraclePolicyReplaySource where
  "sample_oracle_source = \<lparr>os_checkpoints = [sample_marked 1, sample_marked 2], os_fee = 3000,
     indexedThroughBlock = 2, os_intervals = [\<lparr>iv_fromRunId = show_int 1, iv_pathMaxTick = 5,
       iv_pathMinTick = - 5, iv_swapCount = 1, iv_toRunId = show_int 2\<rparr>],
     os_poolAddress = ''0xp'', rwaAddress = ''0x1'', rwaDecimals = 6, os_rwaSymbol = ''NVDA'',
     os_streamKey = ''s'', targetSetHash = ''h'', os_tokens = sample_tokens\<rparr>"

lemma sample_marked_value:
  assumes "0 \<le> a0" "0 \<le> a1"
  shows "\<exists>v. markedValue sample_oracle_source (sample_marked n) a0 a1 = Inr v"
  using assms sample_quote_in
  by (simp add: markedValue_def sample_marked_def oracleMarkedQuoteValue_def oracle_scale_def safe_integer_def
      sample_oracle_source_def Let_def)

lemma sample_marked_pool: "op_pool (sample_marked n) = sample_checkpoint" "op_status (sample_marked n) = Valid"
  by (simp_all add: sample_marked_def)

lemma sample_oracle_candidate:
  "\<exists>c. oracle_candidate sample_replay_config sample_oracle_source 1 = Inr c \<and> od_status c = Complete"
proof -
  let ?rg = "\<lparr>tb_tickLower = - 60, tb_tickUpper = 60\<rparr>" and ?s = sample_oracle_source
  obtain r where r: "sizeLiquidityForQuoteBudget 1000000 sample_tokens (2 ^ 96) ?rg = Inr r"
    "1000000 \<le> sz_liquidity r" using sample_sizing [of 1000000] by auto
  note s = size_Inr [OF r(1)]
  have v: "position_valid (sz_liquidity r) (2 ^ 96) (- 60) 60"
    using s(1,3,4) by (simp add: sizing_valid_def position_valid_def)
  then obtain pr where pr: "principalAmounts (sz_liquidity r) (2 ^ 96) (- 60) 60 = Inr pr"
    by (simp add: principalAmounts_Inr_iff)
  have ab: "0 < sqrt_ratio (- 60)" "sqrt_ratio (- 60) \<le> sqrt_ratio 60"
    using sizing_ratios [OF s(1)] by simp_all
  note n = amounts_at_nonneg [OF s(3) ab, of "2 ^ 96"]
  have p: "0 \<le> amount0 pr" "0 \<le> amount1 pr + idleQuote r"
    using n s(6) principalAmounts_amounts(2,3) [OF pr] by auto
  have i: "0 \<le> sz_amount0 r" "0 \<le> sz_amount1 r + idleQuote r" using n s(6,8,9) by auto
  obtain spot where spot: "quoteValue (amount0 pr) (amount1 pr + idleQuote r) sample_tokens (2 ^ 96) = Inr spot"
    using p sample_quote by blast
  obtain fv where fv: "markedValue ?s (sample_marked 2) 0 0 = Inr fv"
    using sample_marked_value [of 0 0 2] by auto
  obtain nav where nav: "markedValue ?s (sample_marked 2) (amount0 pr) (amount1 pr + idleQuote r) = Inr nav"
    using p sample_marked_value by blast
  obtain hv where hv: "markedValue ?s (sample_marked 2) (sz_amount0 r) (sz_amount1 r + idleQuote r) = Inr hv"
    using i sample_marked_value by blast
  obtain iv where iv: "markedValue ?s (sample_marked 1) (sz_amount0 r) (sz_amount1 r + idleQuote r) = Inr iv"
    using i sample_marked_value by blast
  have z: "subtractUint256 0 0 = 0" "(0 :: int) sdiv Q128 = 0"
    by (simp_all add: subtractUint256_mod Q256_def sdiv_nonneg Q128_def)
  define st where "st = \<lparr>ks_idle0 = 0, ks_idle1 = idleQuote r, ks_liquidity = sz_liquidity r, ks_range = ?rg\<rparr>"
  have h: "holdings (2 ^ 96) st = Inr (amount0 pr, amount1 pr + idleQuote r)"
    using pr by (simp add: holdings_def st_def)
  have walk: "oracle_walk ?s = [(0, \<lparr>iv_fromRunId = show_int 1, iv_pathMaxTick = 5, iv_pathMinTick = - 5,
       iv_swapCount = 1, iv_toRunId = show_int 2\<rparr>, sample_marked 1, sample_marked 2)]"
    by (simp add: oracle_interval_ends_def sample_oracle_source_def)
  have nr: "\<not> should_rebalance sample_replay_config 1 ?rg 0"
    by (simp add: should_rebalance_def sample_replay_config_def)
  have st: "st\<lparr>ks_idle0 := ks_idle0 st + 0, ks_idle1 := ks_idle1 st + 0\<rparr> = st" "ks_range st = ?rg"
    by (simp_all add: st_def)
  have t: "os_tokens ?s = sample_tokens" by (simp add: sample_oracle_source_def)
  obtain v' where v': "oracle_intervals sample_replay_config ?s 1 (sz_amount0 r, sz_amount1 r + idleQuote r)
      (oracle_walk ?s) (oracle_start sample_replay_config st iv) = Inr v'" "ov_failure v' = None"
    unfolding walk oracle_intervals.simps oracle_interval_def Let_def prod.case
    using z h spot fv nav hv nr st by (simp add: sample_marked_pool sample_pool t)
  have c: "cf_spacing sample_replay_config = 60" "cf_budget sample_replay_config - cf_entryCost sample_replay_config = 1000000"
    by (simp_all add: sample_replay_config_def)
  have first: "hd (os_checkpoints ?s) = sample_marked 1" by (simp add: sample_oracle_source_def)
  have st0: "\<lparr>ks_idle0 = 0, ks_idle1 = idleQuote r, ks_liquidity = sz_liquidity r, ks_range = ?rg\<rparr> = st"
    by (simp add: st_def)
  have "oracle_candidate sample_replay_config ?s 1 =
      Inr (oracle_result sample_replay_config 1 (sz_amount0 r, sz_amount1 r + idleQuote r) iv v')"
    unfolding oracle_candidate_def Let_def first sample_marked_pool sample_pool c t sample_range bind_ok_simps
    using r iv v'(1) by (simp add: sample_quote_in st0)
  with v'(2) show ?thesis by (simp add: oracle_result_def Let_def)
qed

lemma sample_oracle_validates: "oracle_validateSource sample_oracle_source = Inr ()"
proof -
  have price: "poolQuotePerRwaX18 6 sample_tokens 6 (2 ^ 96) = Inr 1000000000000000000"
    using sample_pool_price by simp
  have mark: "validate_mark (sample_marked n) = Inr ()" for n
    by (simp add: validate_mark_def sample_marked_def sample_pool)
  have fields: "op_poolPriceX18 (sample_marked n) = 1000000000000000000" "op_tokenDecimals (sample_marked n) = 6"
      "oc_chainId (op_run (sample_marked n)) = 1" "oc_blockNumber (op_run (sample_marked n)) = n"
      "checkpointRunId (op_run (sample_marked n)) = show_int n" for n
    by (simp_all add: sample_marked_def sample_reference_def)
  have source: "os_checkpoints sample_oracle_source = [sample_marked 1, sample_marked 2]"
      "os_tokens sample_oracle_source = sample_tokens" "rwaDecimals sample_oracle_source = 6"
      "indexedThroughBlock sample_oracle_source = 2" "rwaAddress sample_oracle_source = qt_token0 sample_tokens"
      "os_intervals sample_oracle_source = [\<lparr>iv_fromRunId = show_int 1, iv_pathMaxTick = 5,
       iv_pathMinTick = - 5, iv_swapCount = 1, iv_toRunId = show_int 2\<rparr>]"
    by (simp_all add: sample_oracle_source_def sample_tokens_def)
  have cps: "validate_oracle_checkpoints sample_oracle_source 1 None [sample_marked 1, sample_marked 2] = Inr ()"
    unfolding validate_oracle_checkpoints.simps sample_marked_pool sample_checkpoint_valid bind_ok_simps
      sample_pool fields source price mark by simp
  show ?thesis
    unfolding oracle_validateSource_def Let_def source
    using cps by (simp add: sample_quote_in fields safe_integer_def sameAddress_def oracle_interval_ends_def source
        validate_oracle_interval_def sample_marked_pool sample_pool)
qed

lemma sample_oracle_replay:
  "\<exists>rep. replayOracleMarkedPolicies (\<lambda>x. x) ''now'' 1000000 0 [1] 10 sample_oracle_source 100 = Inr rep \<and>
     (\<exists>c\<in>set (or_candidates rep). od_status c = Complete)"
proof -
  obtain c where c: "oracle_candidate sample_replay_config sample_oracle_source 1 = Inr c" "od_status c = Complete"
    using sample_oracle_candidate by blast
  have "tickSpacingForFee (os_fee sample_oracle_source) = Inr 60" "os_tokens sample_oracle_source = sample_tokens"
    by (simp_all add: tickSpacingForFee_def sample_oracle_source_def)
  then show ?thesis
    using c sample_oracle_validates
    by (auto simp: replayOracleMarkedPolicies_def checked_half_widths_def safe_integer_def
        oracle_rank_candidates_def oracle_complete_def Let_def sample_replay_config_def)
qed

theorem oracle_policy_accounts_witness:
  "\<exists>rep c st. replayOracleMarkedPolicies (\<lambda>x. x) ''now'' 1000000 0 [1] 10 sample_oracle_source 100 = Inr rep \<and>
     c \<in> set (or_candidates rep) \<and> od_steps c = [st] \<and> 0 \<le> ot_navQuote st \<and> od_finalNavQuote c \<noteq> None"
proof -
  obtain rep c where s: "replayOracleMarkedPolicies (\<lambda>x. x) ''now'' 1000000 0 [1] 10 sample_oracle_source 100 = Inr rep"
    "c \<in> set (or_candidates rep)" "od_status c = Complete" using sample_oracle_replay by blast
  have l: "length (os_intervals sample_oracle_source) = 1" by (simp add: sample_oracle_source_def)
  note a = oracle_policy_accounts [OF s(1,2)]
  from a s(3) l have n: "length (od_steps c) = 1" "od_finalNavQuote c \<noteq> None" by auto
  then obtain st where "od_steps c = [st]" by (auto simp: length_Suc_conv)
  with a s n(2) show ?thesis by auto
qed

end
