(* ===== verification/Rpc_Health.thy ===== *)
theory Rpc_Health
  imports Fail_Closed
begin

section \<open>The RPC circuit breaker\<close>

text \<open>
  \<open>src/rpc-health/domain.ts\<close> and \<open>policy.ts\<close>: one sample of probes is judged against the
  state the previous sample left.  Hard reasons open the breaker, soft ones degrade it, and it
  closes again only after enough samples in a row without either.  \<open>Date.parse\<close> and
  \<open>localeCompare\<close> are parameters; only the sign of the latter matters.
\<close>

datatype RpcHealthState = Healthy | Degraded | Open | Half_open
datatype probe_role = Private | Reference

record RpcEndpointProbe =
  anchorBlock :: "int option"
  anchorError :: "string option"
  anchorHash :: "string option"
  pb_chainId :: "int option"
  pb_error :: "string option"
  headBlock :: "int option"
  headHash :: "string option"
  headTimestamp :: "int option"
  latencyMs :: int
  pb_name :: string
  role :: probe_role
  syncing :: "bool option"
  syncingError :: "string option"

record RpcHealthPreviousStatus =
  pv_consecutiveHealthy :: nat
  pv_consecutiveUnhealthy :: nat
  pv_observedAt :: string
  pv_privateHead :: "int option"
  pv_privateHeadUnchangedSince :: "string option"
  pv_referenceHead :: "int option"
  pv_state :: RpcHealthState

record RpcHealthPolicyConfig =
  confirmationDepth :: int
  expectedChainId :: int
  hardLagBlocks :: int
  hardLagSeconds :: int
  hardLatencyMs :: int
  recoverySamples :: nat
  cf_referenceQuorum :: nat
  softLagBlocks :: int
  softLagSeconds :: int
  softLatencyMs :: int
  stallSeconds :: int

record RpcHealthEvaluation =
  allowBulk :: bool
  rh_anchorBlock :: "int option"
  rh_anchorHash :: "string option"
  consecutiveHealthy :: nat
  consecutiveUnhealthy :: nat
  lagBlocks :: "int option"
  lagSeconds :: "int option"
  rh_observedAt :: string
  privateAnchorHash :: "string option"
  privateHead :: "int option"
  privateHeadTimestamp :: "int option"
  privateHeadUnchangedSince :: "string option"
  privateLatencyMs :: "int option"
  privateSyncing :: "bool option"
  rh_probes :: "RpcEndpointProbe list"
  rh_reasons :: "string list"
  referenceCount :: nat
  referenceHead :: "int option"
  referenceHeadSpreadBlocks :: "int option"
  referenceHeadTimestamp :: "int option"
  referenceQuorum :: nat
  rh_schemaVersion :: int
  rh_state :: RpcHealthState
  warnings :: "string list"

subsection \<open>Probes\<close>

text \<open>\<open>reduce\<close> without a start value; the policy calls both on nonempty lists only.\<close>

fun maximum :: "int list \<Rightarrow> int" where
  "maximum [] = 0"
| "maximum (x # xs) = foldl (\<lambda>result v. if v > result then v else result) x xs"

fun minimum :: "int list \<Rightarrow> int" where
  "minimum [] = 0"
| "minimum (x # xs) = foldl (\<lambda>result v. if v < result then v else result) x xs"

definition elapsedSeconds :: "(string \<Rightarrow> int option) \<Rightarrow> string \<Rightarrow> string \<Rightarrow> int" where
  "elapsedSeconds parseDate from to = (case (parseDate from, parseDate to) of
      (Some fromMs, Some toMs) \<Rightarrow> if toMs < fromMs then 0 else (toMs - fromMs) div 1000
    | _ \<Rightarrow> 0)"

definition validLatest :: "RpcEndpointProbe \<Rightarrow> int \<Rightarrow> bool" where
  "validLatest p chain \<longleftrightarrow> pb_error p = None \<and> pb_chainId p = Some chain \<and> headBlock p \<noteq> None \<and>
     headHash p \<noteq> None \<and> headTimestamp p \<noteq> None"

definition anchored :: "RpcEndpointProbe \<Rightarrow> int \<Rightarrow> bool" where
  "anchored p chain \<longleftrightarrow> role p = Reference \<and> validLatest p chain \<and> anchorError p = None \<and> anchorHash p \<noteq> None"

text \<open>The \<open>Map\<close> from lower-case anchor hash to the probes with that anchor, in order.\<close>

fun group_probes ::
  "int \<Rightarrow> RpcEndpointProbe list \<Rightarrow> (string \<times> RpcEndpointProbe list) list \<Rightarrow> (string \<times> RpcEndpointProbe list) list"
where
  "group_probes chain [] groups = groups"
| "group_probes chain (p # ps) groups =
     (if \<not> anchored p chain then group_probes chain ps groups
      else let key = lower (the (anchorHash p));
               group = (case map_of groups key of None \<Rightarrow> [] | Some g \<Rightarrow> g)
           in group_probes chain ps (AList.update key (group @ [p]) groups))"

text \<open>The comparison that sorts the groups: negative when the first one is better.\<close>

definition compare_groups ::
  "(string \<Rightarrow> string \<Rightarrow> int) \<Rightarrow> RpcEndpointProbe list \<Rightarrow> RpcEndpointProbe list \<Rightarrow> int" where
  "compare_groups localeCompare l r =
     (if length l \<noteq> length r then int (length r) - int (length l)
      else
        let leftHead = maximum (map (\<lambda>p. the (headBlock p)) l);
            rightHead = maximum (map (\<lambda>p. the (headBlock p)) r) in
        if leftHead \<noteq> rightHead then (if leftHead > rightHead then - 1 else 1)
        else localeCompare (pb_name (hd l)) (pb_name (hd r)))"

text \<open>\<open>sort(compare)[0] ?? []\<close>: the first of the groups that no later one precedes.\<close>

fun best_group ::
  "(RpcEndpointProbe list \<Rightarrow> RpcEndpointProbe list \<Rightarrow> int) \<Rightarrow> RpcEndpointProbe list list \<Rightarrow> RpcEndpointProbe list"
where
  "best_group cmp [] = []"
| "best_group cmp [g] = g"
| "best_group cmp (g # h # gs) = best_group cmp ((if cmp h g < 0 then h else g) # gs)"

definition canonicalReferenceGroup ::
  "(string \<Rightarrow> string \<Rightarrow> int) \<Rightarrow> int \<Rightarrow> RpcEndpointProbe list \<Rightarrow> RpcEndpointProbe list" where
  "canonicalReferenceGroup localeCompare chain probes =
     best_group (compare_groups localeCompare) (map snd (group_probes chain probes []))"

subsection \<open>Evaluation\<close>

text \<open>What the evaluation derives from the probes before it judges them.\<close>

record rpc_view =
  vw_private :: RpcEndpointProbe
  vw_references :: "RpcEndpointProbe list"
  vw_canonical :: "RpcEndpointProbe list"
  vw_quorum :: bool
  vw_privateValid :: bool
  vw_referenceHead :: "int option"
  vw_referenceHeadTimestamp :: "int option"
  vw_spread :: "int option"
  vw_anchorMatches :: bool
  vw_privateHead :: "int option"
  vw_privateHeadTimestamp :: "int option"
  vw_lagBlocks :: "int option"
  vw_lagSeconds :: "int option"

definition lag :: "int option \<Rightarrow> int option \<Rightarrow> int option" where
  "lag reference private = (case (reference, private) of
      (Some r, Some p) \<Rightarrow> Some (if r > p then r - p else 0) | _ \<Rightarrow> None)"

definition rpc_view_of ::
  "(string \<Rightarrow> string \<Rightarrow> int) \<Rightarrow> RpcHealthPolicyConfig \<Rightarrow> RpcEndpointProbe \<Rightarrow> RpcEndpointProbe list \<Rightarrow> rpc_view"
where
  "rpc_view_of localeCompare cf privateProbe probes =
     (let references = filter (\<lambda>p. role p = Reference) probes;
          canonical = canonicalReferenceGroup localeCompare (expectedChainId cf) probes;
          privateValid = validLatest privateProbe (expectedChainId cf);
          quorum = length canonical \<ge> cf_referenceQuorum cf;
          heads = (if quorum then map (\<lambda>p. the (headBlock p)) canonical else []);
          times = (if quorum then map (\<lambda>p. the (headTimestamp p)) canonical else []);
          refHead = (if heads = [] then None else Some (maximum heads));
          refTime = (if times = [] then None else Some (maximum times));
          anchor = (if canonical = [] then None else anchorHash (hd canonical));
          privHead = (if privateValid then headBlock privateProbe else None);
          privTime = (if privateValid then headTimestamp privateProbe else None)
      in \<lparr>vw_private = privateProbe, vw_references = references, vw_canonical = canonical,
          vw_quorum = quorum, vw_privateValid = privateValid, vw_referenceHead = refHead,
          vw_referenceHeadTimestamp = refTime,
          vw_spread = (if heads = [] then None else Some (maximum heads - minimum heads)),
          vw_anchorMatches = (quorum \<and> anchor \<noteq> None \<and> anchorError privateProbe = None \<and>
            anchorHash privateProbe \<noteq> None \<and> lower (the (anchorHash privateProbe)) = lower (the anchor)),
          vw_privateHead = privHead, vw_privateHeadTimestamp = privTime,
          vw_lagBlocks = lag refHead privHead, vw_lagSeconds = lag refTime privTime\<rparr>)"

definition unchanged_since ::
  "rpc_view \<Rightarrow> string \<Rightarrow> RpcHealthPreviousStatus option \<Rightarrow> string option" where
  "unchanged_since w observedAt previous = (case vw_privateHead w of
      None \<Rightarrow> None
    | Some head \<Rightarrow> (case (previous, vw_referenceHead w) of
        (Some p, Some refHead) \<Rightarrow>
          if pv_privateHead p = Some head \<and> pv_referenceHead p \<noteq> None \<and>
             refHead > the (pv_referenceHead p) \<and> refHead > head
          then Some (case pv_privateHeadUnchangedSince p of None \<Rightarrow> pv_observedAt p | Some t \<Rightarrow> t)
          else Some observedAt
      | _ \<Rightarrow> Some observedAt))"

text \<open>A comparison that a missing measure never passes.\<close>

definition opt_above :: "int option \<Rightarrow> int \<Rightarrow> bool" where
  "opt_above x limit \<longleftrightarrow> (case x of None \<Rightarrow> False | Some n \<Rightarrow> n > limit)"

definition reference_warnings :: "RpcHealthPolicyConfig \<Rightarrow> rpc_view \<Rightarrow> string list" where
  "reference_warnings cf w = concat (map (\<lambda>r.
     if \<not> validLatest r (expectedChainId cf) then [''reference_probe_failed:'' @ pb_name r]
     else if anchorError r \<noteq> None \<or> anchorHash r = None then [''reference_anchor_failed:'' @ pb_name r]
     else if r \<notin> set (vw_canonical w) then [''reference_anchor_disagreed:'' @ pb_name r]
     else []) (vw_references w))"

definition hard_reasons ::
  "(string \<Rightarrow> int option) \<Rightarrow> RpcHealthPolicyConfig \<Rightarrow> int \<Rightarrow> string \<Rightarrow> rpc_view \<Rightarrow> string option \<Rightarrow> string list"
where
  "hard_reasons parseDate cf observedMs observedAt w unchanged =
     (let p = vw_private w; observedSeconds = observedMs div 1000 in
      failing
       [(length (vw_references w) \<ge> cf_referenceQuorum cf, ''reference_count_below_quorum''),
        (vw_quorum w, ''reference_hash_quorum_unavailable''),
        (vw_privateValid w, ''private_probe_failed''),
        (syncing p \<noteq> Some True, ''private_reports_syncing'')] @
      (if vw_quorum w \<and> \<not> vw_anchorMatches w
       then (if anchorError p \<noteq> None \<or> anchorHash p = None then [''private_confirmed_anchor_unavailable'']
             else [''private_canonical_hash_mismatch'']) else []) @
      failing
       [(\<not> opt_above (vw_lagBlocks w) (hardLagBlocks cf), ''private_block_lag_hard''),
        (\<not> opt_above (vw_lagSeconds w) (hardLagSeconds cf), ''private_time_lag_hard''),
        (\<not> latencyMs p > hardLatencyMs cf, ''private_latency_hard''),
        (\<not> (case unchanged of None \<Rightarrow> False
            | Some since \<Rightarrow> elapsedSeconds parseDate since observedAt \<ge> stallSeconds cf), ''private_head_stalled''),
        (\<not> (case vw_referenceHeadTimestamp w of None \<Rightarrow> False
            | Some t \<Rightarrow> observedSeconds > t + hardLagSeconds cf), ''reference_head_stale''),
        (\<not> opt_above (vw_referenceHeadTimestamp w) (observedSeconds + hardLagSeconds cf), ''reference_timestamp_future''),
        (\<not> opt_above (vw_privateHeadTimestamp w) (observedSeconds + hardLagSeconds cf), ''private_timestamp_future'')])"

definition soft_reasons :: "RpcHealthPolicyConfig \<Rightarrow> rpc_view \<Rightarrow> string list" where
  "soft_reasons cf w = (let p = vw_private w in failing
     [(opt_above (vw_lagBlocks w) (hardLagBlocks cf) \<or> \<not> opt_above (vw_lagBlocks w) (softLagBlocks cf),
       ''private_block_lag_soft''),
      (opt_above (vw_lagSeconds w) (hardLagSeconds cf) \<or> \<not> opt_above (vw_lagSeconds w) (softLagSeconds cf),
       ''private_time_lag_soft''),
      (latencyMs p > hardLatencyMs cf \<or> \<not> latencyMs p > softLatencyMs cf, ''private_latency_soft'')])"

definition rpc_warnings :: "RpcHealthPolicyConfig \<Rightarrow> rpc_view \<Rightarrow> string list" where
  "rpc_warnings cf w =
     (let p = vw_private w in
      reference_warnings cf w @ failing
       [(\<not> (syncing p = None \<and> syncingError p \<noteq> None), ''private_syncing_signal_unavailable''),
        (\<not> opt_above (vw_spread w) (softLagBlocks cf), ''reference_head_spread_large'')])"

definition next_state ::
  "RpcHealthPolicyConfig \<Rightarrow> string list \<Rightarrow> string list \<Rightarrow> RpcHealthPreviousStatus option \<Rightarrow> nat \<Rightarrow> RpcHealthState"
where
  "next_state cf hard soft previous healthyRun =
     (if hard \<noteq> [] then Open
      else if soft \<noteq> [] then Degraded
      else if map_option pv_state previous = Some Healthy \<or> healthyRun \<ge> recoverySamples cf then Healthy
      else Half_open)"

definition judge ::
  "(string \<Rightarrow> int option) \<Rightarrow> RpcHealthPolicyConfig \<Rightarrow> int \<Rightarrow> string \<Rightarrow> RpcHealthPreviousStatus option \<Rightarrow>
   RpcEndpointProbe list \<Rightarrow> rpc_view \<Rightarrow> RpcHealthEvaluation"
where
  "judge parseDate cf observedMs observedAt previous probes w =
     (let unchanged = unchanged_since w observedAt previous;
          hard = hard_reasons parseDate cf observedMs observedAt w unchanged;
          soft = soft_reasons cf w;
          unhealthy = hard \<noteq> [] \<or> soft \<noteq> [];
          healthyRun = (if unhealthy then 0 else (case previous of None \<Rightarrow> 0 | Some p \<Rightarrow> pv_consecutiveHealthy p) + 1);
          unhealthyRun = (if unhealthy then (case previous of None \<Rightarrow> 0 | Some p \<Rightarrow> pv_consecutiveUnhealthy p) + 1 else 0);
          state = next_state cf hard soft previous healthyRun;
          canonical = vw_canonical w
      in
      \<lparr>allowBulk = (state = Healthy),
       rh_anchorBlock = (if canonical = [] then None else anchorBlock (hd canonical)),
       rh_anchorHash = (if canonical = [] then None else anchorHash (hd canonical)),
       consecutiveHealthy = healthyRun, consecutiveUnhealthy = unhealthyRun, lagBlocks = vw_lagBlocks w,
       lagSeconds = vw_lagSeconds w, rh_observedAt = observedAt, privateAnchorHash = anchorHash (vw_private w),
       privateHead = vw_privateHead w, privateHeadTimestamp = vw_privateHeadTimestamp w,
       privateHeadUnchangedSince = unchanged,
       privateLatencyMs = (if vw_privateValid w then Some (latencyMs (vw_private w)) else None),
       privateSyncing = syncing (vw_private w), rh_probes = probes,
       rh_reasons = set_spread (hard @ soft @ (if state = Half_open then [''recovery_hysteresis''] else [])),
       referenceCount = length (vw_references w), referenceHead = vw_referenceHead w,
       referenceHeadSpreadBlocks = vw_spread w, referenceHeadTimestamp = vw_referenceHeadTimestamp w,
       referenceQuorum = cf_referenceQuorum cf, rh_schemaVersion = 1, rh_state = state,
       warnings = set_spread (rpc_warnings cf w)\<rparr>)"

definition evaluateRpcHealth ::
  "(string \<Rightarrow> int option) \<Rightarrow> (string \<Rightarrow> string \<Rightarrow> int) \<Rightarrow> RpcHealthPolicyConfig \<Rightarrow> string \<Rightarrow>
   RpcHealthPreviousStatus option \<Rightarrow> RpcEndpointProbe list \<Rightarrow> RpcHealthEvaluation res"
where
  "evaluateRpcHealth parseDate localeCompare cf observedAt previous probes = (case parseDate observedAt of
      None \<Rightarrow> Inl ''RPC health observation timestamp is invalid''
    | Some observedMs \<Rightarrow> (case filter (\<lambda>p. role p = Private) probes of
        [] \<Rightarrow> Inl ''RPC health evaluation requires one private probe''
      | [privateProbe] \<Rightarrow> Inr (judge parseDate cf observedMs observedAt previous probes
          (rpc_view_of localeCompare cf privateProbe probes))
      | _ \<Rightarrow> Inl ''RPC health evaluation received multiple private probes''))"

text \<open>What the next evaluation reads of this one, through the row it is stored in.\<close>

definition previous_of :: "RpcHealthEvaluation \<Rightarrow> RpcHealthPreviousStatus" where
  "previous_of ev = \<lparr>pv_consecutiveHealthy = consecutiveHealthy ev,
     pv_consecutiveUnhealthy = consecutiveUnhealthy ev, pv_observedAt = rh_observedAt ev,
     pv_privateHead = privateHead ev, pv_privateHeadUnchangedSince = privateHeadUnchangedSince ev,
     pv_referenceHead = referenceHead ev, pv_state = rh_state ev\<rparr>"

fun monitor ::
  "(string \<Rightarrow> int option) \<Rightarrow> (string \<Rightarrow> string \<Rightarrow> int) \<Rightarrow> RpcHealthPolicyConfig \<Rightarrow>
   RpcHealthPreviousStatus option \<Rightarrow> (string \<times> RpcEndpointProbe list) list \<Rightarrow> RpcHealthEvaluation list res"
where
  "monitor parseDate localeCompare cf previous [] = Inr []"
| "monitor parseDate localeCompare cf previous ((observedAt, probes) # xs) =
     bind_ok (evaluateRpcHealth parseDate localeCompare cf observedAt previous probes) (\<lambda>ev.
     bind_ok (monitor parseDate localeCompare cf (Some (previous_of ev)) xs) (\<lambda>evs. Inr (ev # evs)))"

subsection \<open>The reference group\<close>

definition same_anchor :: "int \<Rightarrow> string \<Rightarrow> RpcEndpointProbe \<Rightarrow> bool" where
  "same_anchor chain key p \<longleftrightarrow> anchored p chain \<and> lower (the (anchorHash p)) = key"

lemma update_values: "(k, h) \<in> set (AList.update k' v xs) \<Longrightarrow> h = v \<or> (k, h) \<in> set xs"
  by (induction xs) (auto split: if_splits)

lemma group_probes_groups:
  assumes "distinct (map fst groups)"
    and "\<forall>k. (case map_of groups k of None \<Rightarrow> [] | Some g \<Rightarrow> g) = filter (same_anchor chain k) seen"
    and "\<forall>g\<in>set (map snd groups). g \<noteq> []"
  shows "distinct (map fst (group_probes chain ps groups)) \<and>
    (\<forall>k. (case map_of (group_probes chain ps groups) k of None \<Rightarrow> [] | Some g \<Rightarrow> g) =
      filter (same_anchor chain k) (seen @ ps)) \<and> (\<forall>g\<in>set (map snd (group_probes chain ps groups)). g \<noteq> [])"
  using assms
proof (induction ps arbitrary: groups seen)
  case Nil
  then show ?case by simp
next
  case (Cons p ps)
  show ?case
  proof (cases "anchored p chain")
    case False
    then have "filter (same_anchor chain k) (seen @ [p]) = filter (same_anchor chain k) seen" for k
      by (simp add: same_anchor_def)
    with Cons.IH [OF Cons.prems(1), of "seen @ [p]"] Cons.prems(2,3) False show ?thesis by simp
  next
    case True
    define key where "key = lower (the (anchorHash p))"
    define g where "g = (case map_of groups key of None \<Rightarrow> [] | Some g \<Rightarrow> g)"
    let ?gs = "AList.update key (g @ [p]) groups"
    have step: "group_probes chain (p # ps) groups = group_probes chain ps ?gs"
      using True by (simp add: key_def g_def Let_def)
    have 1: "\<forall>k. (case map_of ?gs k of None \<Rightarrow> [] | Some g \<Rightarrow> g) = filter (same_anchor chain k) (seen @ [p])"
    proof
      fix k
      have "same_anchor chain k p \<longleftrightarrow> k = key" using True by (auto simp: same_anchor_def key_def)
      then show "(case map_of ?gs k of None \<Rightarrow> [] | Some g \<Rightarrow> g) = filter (same_anchor chain k) (seen @ [p])"
        using Cons.prems(2) by (auto simp: update_conv' g_def)
    qed
    have 2: "distinct (map fst ?gs)" using Cons.prems(1) by (rule distinct_update)
    have 3: "\<forall>h\<in>set (map snd ?gs). h \<noteq> []"
      using Cons.prems(3) by (fastforce dest!: update_values)
    show ?thesis unfolding step using Cons.IH [OF 2 1 3] by simp
  qed
qed

lemma best_group_in: "gs \<noteq> [] \<Longrightarrow> best_group cmp gs \<in> set gs"
  by (induction cmp gs rule: best_group.induct) auto

lemma canonical_group:
  assumes "canonicalReferenceGroup localeCompare chain probes \<noteq> []"
  obtains key where "canonicalReferenceGroup localeCompare chain probes = filter (same_anchor chain key) probes"
proof -
  let ?gs = "group_probes chain probes []"
  note g = group_probes_groups [of "[]" chain "[]" probes]
  have "map snd ?gs \<noteq> []" using assms by (auto simp: canonicalReferenceGroup_def)
  then have "canonicalReferenceGroup localeCompare chain probes \<in> set (map snd ?gs)"
    unfolding canonicalReferenceGroup_def by (rule best_group_in)
  then obtain key where "(key, canonicalReferenceGroup localeCompare chain probes) \<in> set ?gs" by auto
  moreover have "distinct (map fst ?gs)" using g by simp
  ultimately have "map_of ?gs key = Some (canonicalReferenceGroup localeCompare chain probes)" by simp
  moreover have "(case map_of ?gs key of None \<Rightarrow> [] | Some g \<Rightarrow> g) = filter (same_anchor chain key) probes"
    using g by simp
  ultimately show thesis using that by simp
qed

lemma maximum_ge: "x \<in> set xs \<Longrightarrow> x \<le> maximum xs"
proof -
  have f: "a \<le> foldl (\<lambda>r v. if v > r then v else r) a ys \<and>
      (\<forall>y\<in>set ys. y \<le> foldl (\<lambda>r v. if v > r then v else r) a ys)" for a :: int and ys
  proof (induction ys arbitrary: a)
    case (Cons y ys)
    from Cons.IH [of "if y > a then y else a"] show ?case by (auto split: if_splits)
  qed simp
  then show "x \<in> set xs \<Longrightarrow> x \<le> maximum xs" by (cases xs) auto
qed

subsection \<open>What a closed breaker guarantees\<close>

lemma evaluateRpcHealth_Inr:
  assumes "evaluateRpcHealth parseDate localeCompare cf observedAt previous probes = Inr ev"
  obtains ms p where "parseDate observedAt = Some ms" "filter (\<lambda>p. role p = Private) probes = [p]"
    "ev = judge parseDate cf ms observedAt previous probes (rpc_view_of localeCompare cf p probes)"
  using assms by (auto simp: evaluateRpcHealth_def split: option.splits list.splits)

lemma judge_state:
  assumes "rh_state (judge parseDate cf ms observedAt previous probes w) \<in> {Healthy, Half_open}"
  shows "hard_reasons parseDate cf ms observedAt w (unchanged_since w observedAt previous) = []"
    "soft_reasons cf w = []"
  using assms by (auto simp: judge_def next_state_def Let_def split: if_splits)

lemma soft_lag:
  assumes "\<not> opt_above x hard" "opt_above x hard \<or> \<not> opt_above x soft" "x = Some n"
  shows "n \<le> soft"
  using assms by (simp add: opt_above_def)

lemma lag_bound: "lag (Some r) (Some p) = Some n \<Longrightarrow> r - p \<le> n"
  by (auto simp: lag_def split: if_splits)

lemma rpc_view_lag:
  assumes w_def: "w = rpc_view_of localeCompare cf p probes"
    and "vw_quorum w" "vw_privateValid w" "r \<in> set (vw_canonical w)" "headBlock p = Some h" "headTimestamp p = Some t"
  shows "\<exists>n. vw_lagBlocks w = Some n \<and> the (headBlock r) - h \<le> n"
    "\<exists>n. vw_lagSeconds w = Some n \<and> the (headTimestamp r) - t \<le> n"
proof -
  have b: "the (headBlock r) \<le> maximum (map (\<lambda>p. the (headBlock p)) (vw_canonical w))"
    "the (headTimestamp r) \<le> maximum (map (\<lambda>p. the (headTimestamp p)) (vw_canonical w))"
    using assms(4) by (auto intro!: maximum_ge)
  show "\<exists>n. vw_lagBlocks w = Some n \<and> the (headBlock r) - h \<le> n"
    "\<exists>n. vw_lagSeconds w = Some n \<and> the (headTimestamp r) - t \<le> n"
    using assms(2-6) b by (auto simp: w_def rpc_view_of_def Let_def lag_def)
qed

text \<open>
  Bulk work is allowed only on the word of a quorum: the one private endpoint answered
  on the right chain, is not syncing, is fast enough, and reports the same confirmed anchor as
  a group of at least the configured number of reference endpoints, all of them answering on
  that chain; and no endpoint of that group is further ahead of it, in blocks or in seconds,
  than the soft limits.
\<close>

theorem rpc_bulk_needs_quorum:
  assumes "evaluateRpcHealth parseDate localeCompare cf observedAt previous probes = Inr ev"
    and "allowBulk ev"
  shows "\<exists>p key group. filter (\<lambda>p. role p = Private) probes = [p] \<and>
    validLatest p (expectedChainId cf) \<and> syncing p \<noteq> Some True \<and>
    latencyMs p \<le> hardLatencyMs cf \<and> latencyMs p \<le> softLatencyMs cf \<and>
    anchorError p = None \<and> map_option lower (anchorHash p) = Some key \<and>
    group = filter (same_anchor (expectedChainId cf) key) probes \<and> group \<noteq> [] \<and>
    cf_referenceQuorum cf \<le> length group \<and>
    (\<forall>r\<in>set group. the (headBlock r) - the (headBlock p) \<le> softLagBlocks cf \<and>
      the (headTimestamp r) - the (headTimestamp p) \<le> softLagSeconds cf)"
proof -
  obtain ms p where e: "filter (\<lambda>p. role p = Private) probes = [p]"
    "ev = judge parseDate cf ms observedAt previous probes (rpc_view_of localeCompare cf p probes)"
    by (rule evaluateRpcHealth_Inr [OF assms(1)])
  define w where "w = rpc_view_of localeCompare cf p probes"
  have st: "rh_state ev \<in> {Healthy, Half_open}"
    using assms(2) by (simp add: e(2) judge_def Let_def)
  note j = judge_state [OF st [unfolded e(2)], folded w_def]
  have p: "vw_private w = p" by (simp add: w_def rpc_view_of_def Let_def)
  have q: "vw_quorum w" "vw_privateValid w" "syncing p \<noteq> Some True" "vw_anchorMatches w"
      "latencyMs p \<le> hardLatencyMs cf" "\<not> opt_above (vw_lagBlocks w) (hardLagBlocks cf)"
      "\<not> opt_above (vw_lagSeconds w) (hardLagSeconds cf)"
    using j(1) by (auto simp: hard_reasons_def Let_def p split: if_splits)
  have s: "latencyMs p \<le> softLatencyMs cf" "\<not> opt_above (vw_lagBlocks w) (softLagBlocks cf)"
      "\<not> opt_above (vw_lagSeconds w) (softLagSeconds cf)"
    using j(2) q(5-7) by (auto simp: soft_reasons_def Let_def p split: if_splits)
  have v: "validLatest p (expectedChainId cf)" using q(2) by (simp add: w_def rpc_view_of_def Let_def)
  let ?g = "canonicalReferenceGroup localeCompare (expectedChainId cf) probes"
  have g: "vw_canonical w = ?g" "?g \<noteq> []" "cf_referenceQuorum cf \<le> length ?g" "anchorError p = None"
      "map_option lower (anchorHash p) = map_option lower (anchorHash (hd ?g))" "anchorHash p \<noteq> None"
    using q(1,4) by (auto simp: w_def rpc_view_of_def Let_def split: if_splits)
  obtain key where key: "?g = filter (same_anchor (expectedChainId cf) key) probes"
    by (rule canonical_group [OF g(2)])
  have "same_anchor (expectedChainId cf) key (hd ?g)" using hd_in_set [OF g(2)] key by auto
  then have k: "map_option lower (anchorHash p) = Some key"
    using g(5) by (auto simp: same_anchor_def anchored_def)
  obtain h t where ht: "headBlock p = Some h" "headTimestamp p = Some t"
    using v by (auto simp: validLatest_def)
  have "the (headBlock r) - the (headBlock p) \<le> softLagBlocks cf \<and>
      the (headTimestamp r) - the (headTimestamp p) \<le> softLagSeconds cf" if r: "r \<in> set ?g" for r
    using rpc_view_lag [OF w_def q(1,2), of r h t] r g(1) ht s(2,3)
    by (fastforce simp: opt_above_def)
  then show ?thesis
    using e(1) v q(3,5) s(1) g(2-4) k key by (intro exI [of _ p] exI [of _ key] exI [of _ ?g]) simp
qed

subsection \<open>The breaker\<close>

text \<open>
  What the breaker promises, on its own: a verdict on the sample moves the state and the count
  of clean samples in a row.
\<close>

datatype verdict = Hard | Soft | Clean

inductive breaker :: "nat \<Rightarrow> RpcHealthState \<times> nat \<Rightarrow> verdict \<Rightarrow> RpcHealthState \<times> nat \<Rightarrow> bool" where
  breaks: "breaker k (st, n) Hard (Open, 0)"
| degrades: "breaker k (st, n) Soft (Degraded, 0)"
| closes: "st = Healthy \<or> k \<le> Suc n \<Longrightarrow> breaker k (st, n) Clean (Healthy, Suc n)"
| waits: "st \<noteq> Healthy \<Longrightarrow> Suc n < k \<Longrightarrow> breaker k (st, n) Clean (Half_open, Suc n)"

inductive_simps breaker_Clean: "breaker k (st, n) Clean (st', n')"
inductive_simps breaker_Hard: "breaker k (st, n) Hard (st', n')"
inductive_simps breaker_Soft: "breaker k (st, n) Soft (st', n')"

lemmas breaker_moves = breaker_Clean breaker_Hard breaker_Soft

definition abs_status :: "RpcHealthPreviousStatus option \<Rightarrow> RpcHealthState \<times> nat" where
  "abs_status previous = (case previous of None \<Rightarrow> (Half_open, 0) | Some p \<Rightarrow> (pv_state p, pv_consecutiveHealthy p))"

definition verdict_of :: "RpcHealthEvaluation \<Rightarrow> verdict" where
  "verdict_of ev = (case rh_state ev of Open \<Rightarrow> Hard | Degraded \<Rightarrow> Soft | _ \<Rightarrow> Clean)"


lemma monitor_step_Inr:
  assumes "monitor parseDate localeCompare cf previous (x # xs) = Inr evs"
  obtains ev rest where "evaluateRpcHealth parseDate localeCompare cf (fst x) previous (snd x) = Inr ev"
    "monitor parseDate localeCompare cf (Some (previous_of ev)) xs = Inr rest" "evs = ev # rest"
  using assms by (cases x) (auto simp: bind_ok_Inr_iff)

lemma clean_step:
  assumes "evaluateRpcHealth parseDate localeCompare cf at previous probes = Inr ev" "verdict_of ev = Clean"
  shows "consecutiveHealthy ev = Suc (snd (abs_status previous))"
    "rh_state ev = Healthy \<longleftrightarrow> fst (abs_status previous) = Healthy \<or> recoverySamples cf \<le> consecutiveHealthy ev"
    "allowBulk ev \<longleftrightarrow> rh_state ev = Healthy"
proof -
  obtain ms p where e: "ev = judge parseDate cf ms at previous probes (rpc_view_of localeCompare cf p probes)"
    by (rule evaluateRpcHealth_Inr [OF assms(1)])
  show "consecutiveHealthy ev = Suc (snd (abs_status previous))"
    "rh_state ev = Healthy \<longleftrightarrow> fst (abs_status previous) = Healthy \<or> recoverySamples cf \<le> consecutiveHealthy ev"
    "allowBulk ev \<longleftrightarrow> rh_state ev = Healthy"
    using assms(2) unfolding e judge_def Let_def next_state_def abs_status_def verdict_of_def
    by (cases previous; simp split: if_splits)+
qed

lemma clean_run:
  assumes "monitor parseDate localeCompare cf previous xs = Inr evs" "\<forall>ev\<in>set evs. verdict_of ev = Clean"
    and "i < length evs"
  shows "consecutiveHealthy (evs ! i) = snd (abs_status previous) + Suc i \<and>
    (allowBulk (evs ! i) \<longleftrightarrow> fst (abs_status previous) = Healthy \<or>
      recoverySamples cf \<le> snd (abs_status previous) + Suc i)"
  using assms
proof (induction xs arbitrary: previous evs i)
  case Nil
  then show ?case by simp
next
  case (Cons x xs)
  obtain ev rest where r: "evaluateRpcHealth parseDate localeCompare cf (fst x) previous (snd x) = Inr ev"
    "monitor parseDate localeCompare cf (Some (previous_of ev)) xs = Inr rest" "evs = ev # rest"
    by (rule monitor_step_Inr [OF Cons.prems(1)])
  note c = clean_step [OF r(1)]
  have clean: "verdict_of ev = Clean" "\<forall>ev\<in>set rest. verdict_of ev = Clean" using Cons.prems(2) r(3) by simp_all
  have prev: "abs_status (Some (previous_of ev)) = (rh_state ev, consecutiveHealthy ev)"
    by (simp add: abs_status_def previous_of_def)
  show ?case
  proof (cases i)
    case 0
    then show ?thesis using c [OF clean(1)] r(3) by simp
  next
    case (Suc j)
    with Cons.IH [OF r(2) clean(2), of j] Cons.prems(3) c [OF clean(1)] r(3) prev show ?thesis by auto
  qed
qed


subsection \<open>A recovering endpoint\<close>

definition sample_probe :: "probe_role \<Rightarrow> RpcEndpointProbe" where
  "sample_probe r = \<lparr>anchorBlock = Some 90, anchorError = None, anchorHash = Some ''0xa'', pb_chainId = Some 1,
     pb_error = None, headBlock = Some 100, headHash = Some ''0xb'', headTimestamp = Some 1, latencyMs = 10,
     pb_name = ''n'', role = r, syncing = Some False, syncingError = None\<rparr>"

definition sample_policy :: RpcHealthPolicyConfig where
  "sample_policy = \<lparr>confirmationDepth = 64, expectedChainId = 1, hardLagBlocks = 100, hardLagSeconds = 30,
     hardLatencyMs = 5000, recoverySamples = 1, cf_referenceQuorum = 1, softLagBlocks = 30, softLagSeconds = 5,
     softLatencyMs = 2000, stallSeconds = 30\<rparr>"

definition sample_previous :: RpcHealthPreviousStatus where
  "sample_previous = \<lparr>pv_consecutiveHealthy = 0, pv_consecutiveUnhealthy = 3, pv_observedAt = ''t0'',
     pv_privateHead = Some 50, pv_privateHeadUnchangedSince = None, pv_referenceHead = Some 60, pv_state = Open\<rparr>"

abbreviation sample_probes :: "RpcEndpointProbe list" where
  "sample_probes \<equiv> [sample_probe Private, sample_probe Reference]"

lemma sample_probe_fields: "anchorBlock (sample_probe r) = Some 90" "anchorError (sample_probe r) = None"
    "anchorHash (sample_probe r) = Some ''0xa''" "pb_chainId (sample_probe r) = Some 1"
    "pb_error (sample_probe r) = None" "headBlock (sample_probe r) = Some 100"
    "headHash (sample_probe r) = Some ''0xb''" "headTimestamp (sample_probe r) = Some 1"
    "latencyMs (sample_probe r) = 10" "role (sample_probe r) = r" "syncing (sample_probe r) = Some False"
  by (simp_all add: sample_probe_def)

lemma sample_policy_fields: "expectedChainId sample_policy = 1" "hardLagBlocks sample_policy = 100"
    "hardLagSeconds sample_policy = 30" "hardLatencyMs sample_policy = 5000" "recoverySamples sample_policy = 1"
    "cf_referenceQuorum sample_policy = 1" "softLagBlocks sample_policy = 30" "softLagSeconds sample_policy = 5"
    "softLatencyMs sample_policy = 2000" "stallSeconds sample_policy = 30"
  by (simp_all add: sample_policy_def)

lemma sample_evaluation:
  "\<exists>ev. evaluateRpcHealth (\<lambda>_. Some 1000) (\<lambda>_ _. 0) sample_policy ''t1'' (Some sample_previous) sample_probes = Inr ev \<and>
     rh_state ev = Healthy \<and> allowBulk ev"
proof -
  let ?w = "rpc_view_of (\<lambda>_ _. 0) sample_policy (sample_probe Private) sample_probes"
  have v: "validLatest (sample_probe r) 1" for r by (simp add: validLatest_def sample_probe_fields)
  have g: "canonicalReferenceGroup (\<lambda>_ _. 0) 1 sample_probes = [sample_probe Reference]"
    by (simp add: canonicalReferenceGroup_def anchored_def v sample_probe_fields Let_def)
  note w_def = rpc_view_of_def [of "\<lambda>_ _. 0" sample_policy "sample_probe Private" sample_probes,
      unfolded sample_policy_fields g Let_def v]
  have w: "vw_private ?w = sample_probe Private" "vw_references ?w = [sample_probe Reference]"
      "vw_quorum ?w" "vw_privateValid ?w" "vw_anchorMatches ?w" "vw_lagBlocks ?w = Some 0" "vw_lagSeconds ?w = Some 0"
      "vw_referenceHeadTimestamp ?w = Some 1" "vw_privateHeadTimestamp ?w = Some 1" "vw_privateHead ?w = Some 100"
      "vw_referenceHead ?w = Some 100"
    unfolding w_def by (simp_all add: sample_probe_fields lag_def v)
  have u: "unchanged_since ?w ''t1'' (Some sample_previous) = Some ''t1''"
    by (simp add: unchanged_since_def w sample_previous_def)
  have h: "hard_reasons (\<lambda>_. Some 1000) sample_policy 1000 ''t1'' ?w (Some ''t1'') = []"
    unfolding hard_reasons_def Let_def w
    by (simp add: w opt_above_def elapsedSeconds_def sample_probe_fields sample_policy_fields)
  have s: "soft_reasons sample_policy ?w = []"
    unfolding soft_reasons_def Let_def w
    by (simp add: opt_above_def sample_probe_fields sample_policy_fields)
  have "evaluateRpcHealth (\<lambda>_. Some 1000) (\<lambda>_ _. 0) sample_policy ''t1'' (Some sample_previous) sample_probes =
      Inr (judge (\<lambda>_. Some 1000) sample_policy 1000 ''t1'' (Some sample_previous) sample_probes ?w)"
    by (simp add: evaluateRpcHealth_def sample_probe_fields)
  moreover have "rh_state (judge (\<lambda>_. Some 1000) sample_policy 1000 ''t1'' (Some sample_previous) sample_probes ?w) = Healthy"
      "allowBulk (judge (\<lambda>_. Some 1000) sample_policy 1000 ''t1'' (Some sample_previous) sample_probes ?w)"
    by (simp_all add: judge_def Let_def u h s next_state_def sample_policy_fields)
  ultimately show ?thesis by blast
qed

theorem rpc_bulk_needs_quorum_witness:
  "\<exists>ev p (group :: RpcEndpointProbe list). evaluateRpcHealth (\<lambda>_. Some 1000) (\<lambda>_ _. 0) sample_policy ''t1'' (Some sample_previous) sample_probes = Inr ev \<and>
     filter (\<lambda>p. role p = Private) sample_probes = [p] \<and> group \<noteq> [] \<and>
     (\<forall>r\<in>set group. the (headBlock r) - the (headBlock p) \<le> softLagBlocks sample_policy)"
proof -
  obtain ev where ev: "evaluateRpcHealth (\<lambda>_. Some 1000) (\<lambda>_ _. 0) sample_policy ''t1'' (Some sample_previous)
      sample_probes = Inr ev" "allowBulk ev" using sample_evaluation by blast
  from rpc_bulk_needs_quorum [OF ev] show ?thesis
  proof (elim exE conjE)
    fix p :: RpcEndpointProbe and group :: "RpcEndpointProbe list"
    assume f: "filter (\<lambda>p. role p = Private) sample_probes = [p]" and n: "group \<noteq> []"
      and l: "\<forall>r\<in>set group. the (headBlock r) - the (headBlock p) \<le> softLagBlocks sample_policy \<and>
        the (headTimestamp r) - the (headTimestamp p) \<le> softLagSeconds sample_policy"
    from l have "\<forall>r\<in>set group. the (headBlock r) - the (headBlock p) \<le> softLagBlocks sample_policy" by blast
    with ev(1) f n show ?thesis by (intro exI [of _ ev] exI [of _ p] exI [of _ group] conjI)
  qed
qed



end
