(* ===== verification/Keeper_Candidate.thy ===== *)
theory Keeper_Candidate
  imports Position_Math
begin

section \<open>RangeKeeper: sizing a candidate\<close>

text \<open>
  \<open>src/strategy/rangekeeper/domain.ts\<close> and the first half of \<open>planner.ts\<close>: the range, the
  sizing of a mint under its cap, and the search for the smallest swap that makes a mint worth
  nearly as much as the best one can.  The quoter is a parameter, a function of token and
  amount (every quote of one planning call is made at one frozen block); its concurrent
  calls are modelled in order, which nothing observes: the pairwise comparison of two quotes
  does not depend on which came first.
\<close>

datatype token_side = Token0 | Token1
datatype keeper_kind = Entry | Recenter
datatype continuity = Canonical | Gap | Reorg

record RangeKeeperLimits =
  fullWidthSpacings :: int
  maxDeploymentValue :: int
  minDeploymentPpm :: int
  maxSwapInputValue :: int
  maxSwapInputPpm :: int
  maxSwapShortfallValue :: int
  maxSlippageBps :: int
  maxActionCost :: int
  maxRollingCost :: int
  maxCampaignCost :: int
  maxExposurePpm :: int
  maxLossValue :: int
  lm_maxDrawdownPpm :: int
  maxRecenters :: int
  maxLiquiditySharePpm :: int
  maxObservationGapSeconds :: int
  exitReserveWei :: int

record keeper_position =
  kp_tokenId :: string
  kp_tickLower :: int
  kp_tickUpper :: int
  kp_liquidity :: int

record RangeKeeperObservation =
  ob_block :: int
  ob_hash :: string
  ob_timestamp :: int
  ob_tick :: int
  ob_sqrtPriceX96 :: int
  ob_continuity :: continuity
  ob_wallet0 :: int
  ob_wallet1 :: int
  released0 :: int
  released1 :: int
  nativeWei :: int
  requiredExitReserveWei :: "int option"
  price0 :: "int option"
  price1 :: "int option"
  nativePrice :: "int option"
  ob_position :: "keeper_position option"
  pending :: bool
  entryAllowed :: bool
  safeExitRequired :: bool
  executionReady :: bool
  liquiditySharePpm :: "int option"
  actionCost :: "int option"
  actionGasWei :: "int option"
  reservedCost :: int
  rollingSpentCost :: int
  campaignSpentCost :: int
  campaignStartValue :: int
  highWaterValue :: int
  recenters :: int

record keeper_swap =
  sw_token :: token_side
  sw_amountIn :: int
  quotedOut :: int
  sw_minOut :: int
  sw_priceAfter :: int
  sw_feeValue :: int
  sw_shortfallValue :: int

record RangeKeeperCandidate =
  ck_kind :: keeper_kind
  ck_range :: TickRange
  ck_swap :: "keeper_swap option"
  amount0Desired :: int
  amount1Desired :: int
  amount0Min :: int
  amount1Min :: int
  ck_liquidity :: int
  deployedValue :: int
  ck_sourceBlock :: int
  ck_sourceHash :: string
  expiresAt :: int

record SwapQuote =
  amountOut :: int
  priceAfter :: int
  feeValue :: int
  shortfallValue :: int
  sourceBlock :: int
  sourceHash :: string

definition PPM :: int where
  "PPM = 1000000"

definition RANGEKEEPER_NEAR_PEAK_PPM :: int where
  "RANGEKEEPER_NEAR_PEAK_PPM = 990000"

text \<open>Division of \<open>bigint\<close>s: a zero divisor is a \<open>RangeError\<close>.\<close>

definition div_big :: "int \<Rightarrow> int \<Rightarrow> int res" where
  "div_big a b = (if b = 0 then Inl ''Division by zero'' else Inr (a sdiv b))"

definition rawValue :: "int \<Rightarrow> int \<Rightarrow> nat \<Rightarrow> int" where
  "rawValue am price decimals = (am * price) sdiv (10 ^ decimals)"

definition affordableRaw :: "int \<Rightarrow> int \<Rightarrow> nat \<Rightarrow> int res" where
  "affordableRaw v price decimals = div_big (v * 10 ^ decimals) price"

subsection \<open>The range\<close>

text \<open>\<open>Math.round\<close> of a quotient by a positive divisor: to the nearest, halves upward.\<close>

definition round_quotient :: "int \<Rightarrow> int \<Rightarrow> int" where
  "round_quotient a b = (2 * a + b) div (2 * b)"

definition rangeKeeperRange :: "int \<Rightarrow> int \<Rightarrow> int \<Rightarrow> TickRange res" where
  "rangeKeeperRange tick spacing fullWidth =
     bind_ok (assertion (safe_integer tick \<and> safe_integer spacing \<and> spacing > 0)) (\<lambda>_.
     bind_ok (assertion (safe_integer fullWidth \<and> fullWidth > 0 \<and> fullWidth smod 2 = 0)) (\<lambda>_.
       let anchor = round_quotient tick spacing * spacing;
           half = fullWidth div 2;
           lo = anchor - half * spacing;
           hi = anchor + half * spacing
       in
       bind_ok (ensure (lo \<ge> MIN_TICK \<and> hi \<le> MAX_TICK) ''rangekeeper_tick_bounds'') (\<lambda>_.
       bind_ok (ensure (tick \<ge> lo \<and> tick < hi) ''rangekeeper_centered_range_missed_price'') (\<lambda>_.
         Inr \<lparr>range_tickLower = lo, range_tickUpper = hi\<rparr>))))"

subsection \<open>Sizing\<close>

record SizedMint =
  desired0 :: int
  desired1 :: int
  sized_mint :: PaperMint
  deployed :: int

definition mintValue :: "PaperMint \<Rightarrow> int \<Rightarrow> int \<Rightarrow> nat \<Rightarrow> nat \<Rightarrow> int" where
  "mintValue m p0 p1 d0 d1 = rawValue (mint_amount0 m) p0 d0 + rawValue (mint_amount1 m) p1 d1"

definition sizeRangeKeeperMint ::
  "int \<Rightarrow> TickRange \<Rightarrow> int \<Rightarrow> int \<Rightarrow> int \<Rightarrow> int \<Rightarrow> nat \<Rightarrow> nat \<Rightarrow> int \<Rightarrow> SizedMint res"
where
  "sizeRangeKeeperMint price rg am0 am1 p0 p1 d0 d1 cap =
     bind_ok (replayPaperMint price rg am0 am1 0) (\<lambda>m.
       let v = mintValue m p0 p1 d0 d1 in
       if v > cap then
         bind_ok (div_big (cap * PPM) v) (\<lambda>fraction.
           let s0 = (am0 * fraction) sdiv PPM; s1 = (am1 * fraction) sdiv PPM in
           bind_ok (replayPaperMint price rg s0 s1 0) (\<lambda>m'.
             Inr \<lparr>desired0 = s0, desired1 = s1, sized_mint = m', deployed = mintValue m' p0 p1 d0 d1\<rparr>))
       else Inr \<lparr>desired0 = am0, desired1 = am1, sized_mint = m, deployed = v\<rparr>)"

text \<open>What \<open>construct\<close> fixes before it sizes anything.\<close>

record keeper_ctx =
  kx_obs :: RangeKeeperObservation
  kx_limits :: RangeKeeperLimits
  kx_d0 :: nat
  kx_d1 :: nat
  kx_range :: TickRange
  kx_kind :: keeper_kind
  kx_p0 :: int
  kx_p1 :: int
  kx_wallet0 :: int
  kx_wallet1 :: int
  kx_total :: int
  kx_floor :: int

definition price_outside :: "TickRange \<Rightarrow> int \<Rightarrow> bool res" where
  "price_outside rg price =
     bind_ok (sqrtRatioAtTick (range_tickLower rg)) (\<lambda>a.
       if price \<le> a then Inr True
       else bind_ok (sqrtRatioAtTick (range_tickUpper rg)) (\<lambda>b. Inr (price \<ge> b)))"

text \<open>The sized mint at a price and whether it is feasible; no mint outside the range.\<close>

definition evaluate_mint :: "keeper_ctx \<Rightarrow> int \<Rightarrow> int \<Rightarrow> int \<Rightarrow> (SizedMint \<times> bool) option res" where
  "evaluate_mint x a0 a1 price =
     bind_ok (price_outside (kx_range x) price) (\<lambda>out.
       if out then Inr None
       else bind_ok (sizeRangeKeeperMint price (kx_range x) a0 a1 (kx_p0 x) (kx_p1 x) (kx_d0 x) (kx_d1 x)
           (maxDeploymentValue (kx_limits x))) (\<lambda>r.
         if mint_liquidity (sized_mint r) = 0 then Inr None
         else Inr (Some (r, deployed r \<ge> kx_floor x \<and> deployed r \<le> maxDeploymentValue (kx_limits x)))))"

definition haircut :: "int \<Rightarrow> int \<Rightarrow> int" where
  "haircut n bps = (n * (10000 - bps)) sdiv 10000"

definition make_candidate ::
  "keeper_ctx \<Rightarrow> int \<Rightarrow> int \<Rightarrow> int \<Rightarrow> keeper_swap option \<Rightarrow> RangeKeeperCandidate option res"
where
  "make_candidate x a0 a1 price swap =
     bind_ok (evaluate_mint x a0 a1 price) (\<lambda>e. case e of
        None \<Rightarrow> Inr None
      | Some (r, feasible) \<Rightarrow>
          if \<not> feasible then Inr None
          else Inr (Some
            \<lparr>ck_kind = kx_kind x, ck_range = kx_range x, ck_swap = swap,
             amount0Desired = desired0 r, amount1Desired = desired1 r,
             amount0Min = haircut (mint_amount0 (sized_mint r)) (maxSlippageBps (kx_limits x)),
             amount1Min = haircut (mint_amount1 (sized_mint r)) (maxSlippageBps (kx_limits x)),
             ck_liquidity = mint_liquidity (sized_mint r), deployedValue = deployed r,
             ck_sourceBlock = ob_block (kx_obs x), ck_sourceHash = ob_hash (kx_obs x),
             expiresAt = ob_timestamp (kx_obs x) + 90\<rparr>))"

subsection \<open>The swap search\<close>

record keeper_eval =
  ev_candidate :: "RangeKeeperCandidate option"
  ev_deployed :: int

definition no_eval :: keeper_eval where
  "no_eval = \<lparr>ev_candidate = None, ev_deployed = 0\<rparr>"

record search_state =
  seen :: "(int \<times> SwapQuote) list"
  evaluated :: "(int \<times> keeper_eval) list"

definition check_monotone ::
  "token_side \<Rightarrow> int \<Rightarrow> SwapQuote \<Rightarrow> unit \<Rightarrow> int \<times> SwapQuote \<Rightarrow> unit res" where
  "check_monotone token am q u entry = (case entry of (otherAmount, other) \<Rightarrow>
     let smaller = am < otherAmount in
     bind_ok (ensure (if smaller then amountOut q \<le> amountOut other else amountOut q \<ge> amountOut other)
       ''rangekeeper_quote_nonmonotonic_output'') (\<lambda>_.
     ensure (if token = Token0
             then (if smaller then priceAfter q \<ge> priceAfter other else priceAfter q \<le> priceAfter other)
             else (if smaller then priceAfter q \<le> priceAfter other else priceAfter q \<ge> priceAfter other))
       ''rangekeeper_quote_nonmonotonic_price''))"

text \<open>The evaluation of a checked quote: the candidate it supports and the value it deploys.\<close>

definition quote_eval :: "keeper_ctx \<Rightarrow> token_side \<Rightarrow> int \<Rightarrow> SwapQuote \<Rightarrow> keeper_eval res" where
  "quote_eval x token am q =
     (if amountOut q = 0 then Inr no_eval
      else
        let next0 = (if token = Token0 then kx_wallet0 x - am else kx_wallet0 x + amountOut q);
            next1 = (if token = Token1 then kx_wallet1 x - am else kx_wallet1 x + amountOut q) in
        if next0 < 0 \<or> next1 < 0 then Inr no_eval
        else bind_ok (price_outside (kx_range x) (priceAfter q)) (\<lambda>out.
          if out then Inr no_eval
          else bind_ok (evaluate_mint x next0 next1 (priceAfter q)) (\<lambda>sized. case sized of
              None \<Rightarrow> Inr no_eval
            | Some (r, _) \<Rightarrow>
                bind_ok (if shortfallValue q \<le> maxSwapShortfallValue (kx_limits x)
                  then make_candidate x next0 next1 (priceAfter q) (Some
                    \<lparr>sw_token = token, sw_amountIn = am, quotedOut = amountOut q,
                     sw_minOut = haircut (amountOut q) (maxSlippageBps (kx_limits x)),
                     sw_priceAfter = priceAfter q, sw_feeValue = feeValue q,
                     sw_shortfallValue = shortfallValue q\<rparr>)
                  else Inr None) (\<lambda>candidate.
                Inr \<lparr>ev_candidate = candidate, ev_deployed = deployed r\<rparr>))))"

definition quoted ::
  "(token_side \<Rightarrow> int \<Rightarrow> SwapQuote res) \<Rightarrow> keeper_ctx \<Rightarrow> token_side \<Rightarrow> search_state \<Rightarrow> int \<Rightarrow>
   (keeper_eval \<times> search_state) res"
where
  "quoted quote x token st am = (case map_of (evaluated st) am of
      Some v \<Rightarrow> Inr (v, st)
    | None \<Rightarrow>
        bind_ok (case map_of (seen st) am of Some q \<Rightarrow> Inr q | None \<Rightarrow> quote token am) (\<lambda>q.
        bind_ok (ensure (sourceBlock q = ob_block (kx_obs x) \<and> lower (sourceHash q) = lower (ob_hash (kx_obs x)))
          ''rangekeeper_quote_source'') (\<lambda>_.
        bind_ok (ensure (amountOut q \<ge> 0 \<and> priceAfter q > 0 \<and> feeValue q \<ge> 0 \<and> shortfallValue q \<ge> 0)
          ''rangekeeper_invalid_quote'') (\<lambda>_.
        bind_ok (fold_res (check_monotone token am q) () (seen st)) (\<lambda>_.
        bind_ok (quote_eval x token am q) (\<lambda>v.
          Inr (v, \<lparr>seen = AList.update am q (seen st), evaluated = AList.update am v (evaluated st)\<rparr>)))))))"

text \<open>\<open>Promise.all\<close> over a list of amounts, and \<open>probe\<close>, which skips the amount zero.\<close>

fun quote_all ::
  "(search_state \<Rightarrow> int \<Rightarrow> (keeper_eval \<times> search_state) res) \<Rightarrow> search_state \<Rightarrow> int list \<Rightarrow>
   (keeper_eval list \<times> search_state) res"
where
  "quote_all f st [] = Inr ([], st)"
| "quote_all f st (a # as) = bind_ok (f st a) (\<lambda>(v, st1).
     bind_ok (quote_all f st1 as) (\<lambda>(vs, st2). Inr (v # vs, st2)))"

definition probe ::
  "(search_state \<Rightarrow> int \<Rightarrow> (keeper_eval \<times> search_state) res) \<Rightarrow> search_state \<Rightarrow> int list \<Rightarrow>
   (keeper_eval list \<times> search_state) res"
where
  "probe f = quote_all (\<lambda>st a. if a = 0 then Inr (no_eval, st) else f st a)"

definition grid :: "int \<Rightarrow> int \<Rightarrow> int list" where
  "grid src dst = map (\<lambda>i. src + ((dst - src) * int i) sdiv 8) [0..<9]"

definition best_index :: "keeper_eval list \<Rightarrow> nat" where
  "best_index vs = foldl (\<lambda>best i. if ev_deployed (vs ! i) > ev_deployed (vs ! best) then i else best) 0
     [1..<length vs]"

lemma grid_nth: "i < 9 \<Longrightarrow> grid a b ! i = a + ((b - a) * int i) sdiv 8"
  by (simp add: grid_def del: upt_Suc upt.simps)

lemma grid_step:
  assumes "0 < b - a" "i \<le> j" "j < 9"
  shows "grid a b ! j - grid a b ! i \<le> ((b - a) * int (j - i) + 7) div 8" "grid a b ! i \<le> grid a b ! j"
proof -
  have n: "0 \<le> (b - a) * int k" for k using assms(1) by simp
  have e: "(b - a) * int j = (b - a) * int i + (b - a) * int (j - i)"
    using assms(2) by (simp add: of_nat_diff algebra_simps)
  have g: "grid a b ! j = a + ((b - a) * int j) div 8" "grid a b ! i = a + ((b - a) * int i) div 8"
    using assms by (simp_all add: grid_nth sdiv_nonneg)
  show "grid a b ! j - grid a b ! i \<le> ((b - a) * int (j - i) + 7) div 8"
    unfolding g e by linarith
  show "grid a b ! i \<le> grid a b ! j" unfolding g e using n [of "j - i"] by linarith
qed

lemma best_index_less:
  assumes "vs \<noteq> []"
  shows "best_index vs < length vs"
proof -
  have b: "foldl (\<lambda>best i. if ev_deployed (vs ! i) > ev_deployed (vs ! best) then i else best) b is < n"
    if "b < n" "\<forall>i\<in>set is. i < n" for b n "is"
    using that by (induction "is" arbitrary: b) auto
  show ?thesis unfolding best_index_def using assms by (intro b) auto
qed

lemma quote_all_length: "quote_all f st as = Inr (vs, st') \<Longrightarrow> length vs = length as"
  by (induction as arbitrary: st vs) (auto simp: bind_ok_Inr_iff)

lemma probe_grid_length: "probe f st (grid lo hi) = Inr (vs, st') \<Longrightarrow> length vs = 9"
  unfolding probe_def by (drule quote_all_length) (simp add: grid_def)

lemma grid_shrinks:
  assumes "8 < b - a" "best < 9"
  shows "grid a b ! min 8 (best + 1) - grid a b ! (best - 1) < b - a"
proof -
  have "int (min 8 (best + 1) - (best - 1)) \<le> 2" by simp
  then have "(b - a) * int (min 8 (best + 1) - (best - 1)) \<le> (b - a) * 2"
    using assms(1) by (intro mult_left_mono) simp_all
  moreover have "(x + 7) div 8 < d" if "x \<le> d * 2" "8 < d" for x d :: int
    using div_le_iff [of 8 "x + 7" "d - 1"] that by simp
  ultimately have "((b - a) * int (min 8 (best + 1) - (best - 1)) + 7) div 8 < b - a" using assms(1) by blast
  moreover have "grid a b ! min 8 (best + 1) - grid a b ! (best - 1) \<le>
      ((b - a) * int (min 8 (best + 1) - (best - 1)) + 7) div 8"
    using assms by (intro grid_step(1)) auto
  ultimately show ?thesis by linarith
qed

text \<open>The search for the peak of the deployed value.\<close>

function peak_search ::
  "(search_state \<Rightarrow> int \<Rightarrow> (keeper_eval \<times> search_state) res) \<Rightarrow> search_state \<Rightarrow> int \<Rightarrow> int \<Rightarrow>
   (int \<times> int \<times> search_state) res"
where
  "peak_search f st lo hi =
     (if hi - lo > 8 \<and> length (evaluated st) < 320
      then (case probe f st (grid lo hi) of
          Inl e \<Rightarrow> Inl e
        | Inr (vs, st') \<Rightarrow>
            peak_search f st' (grid lo hi ! (best_index vs - 1)) (grid lo hi ! min 8 (best_index vs + 1)))
      else Inr (lo, hi, st))"
  by pat_completeness auto
termination
proof (relation "measure (\<lambda>(f, st, lo, hi). nat (hi - lo))", simp, goal_cases)
  case (1 f st lo hi b vs st')
  then have "vs \<noteq> []" "length vs = 9" using probe_grid_length by fastforce+
  then have "best_index vs < 9" using best_index_less by metis
  with 1 have "grid lo hi ! min 8 (best_index vs + 1) - grid lo hi ! (best_index vs - 1) < hi - lo"
    by (intro grid_shrinks) auto
  with 1 show ?case by simp
qed

text \<open>\<open>findIndex\<close>, and the last index that a loop leaves at a true element.\<close>

fun first_index :: "('a \<Rightarrow> bool) \<Rightarrow> 'a list \<Rightarrow> nat option" where
  "first_index P [] = None"
| "first_index P (x # xs) = (if P x then Some 0 else map_option Suc (first_index P xs))"

definition last_index :: "('a \<Rightarrow> bool) \<Rightarrow> 'a list \<Rightarrow> nat option" where
  "last_index P xs = foldl (\<lambda>k i. if P (xs ! i) then Some i else k) None [0..<length xs]"

lemma first_index_less: "first_index P xs = Some i \<Longrightarrow> i < length xs \<and> P (xs ! i)"
  by (induction xs arbitrary: i) (auto split: if_splits)

definition has_candidate :: "keeper_eval \<Rightarrow> bool" where
  "has_candidate v \<longleftrightarrow> ev_candidate v \<noteq> None"

definition meets_target :: "int \<Rightarrow> keeper_eval \<Rightarrow> bool" where
  "meets_target target v \<longleftrightarrow> ev_candidate v \<noteq> None \<and> ev_deployed v \<ge> target"

text \<open>
  The search for the smallest input that meets the target: it ends with a bracket, finds the
  target unreachable in its first round, or gives up.
\<close>

datatype target_outcome = Bracket int int | Unreachable | Unproven

lemma grid_next_shrinks:
  assumes "1 < b - a" "k < 8"
  shows "grid a b ! Suc k - grid a b ! k < b - a"
proof -
  have "grid a b ! Suc k - grid a b ! k \<le> ((b - a) * int (Suc k - k) + 7) div 8"
    using assms by (intro grid_step(1)) auto
  moreover have "((b - a) * int (Suc k - k) + 7) div 8 < b - a"
    using div_le_iff [of 8 "(b - a) + 7" "b - a - 1"] assms(1) by simp
  ultimately show ?thesis by linarith
qed

lemma grid_range:
  assumes "lo < hi" "i < 9"
  shows "lo \<le> grid lo hi ! i \<and> grid lo hi ! i \<le> hi"
proof -
  have "grid lo hi ! 0 = lo" "grid lo hi ! 8 = hi" using assms(1) by (simp_all add: grid_nth sdiv_nonneg)
  then show ?thesis using grid_step(2) [of hi lo 0 i] grid_step(2) [of hi lo i 8] assms by simp
qed

lemma nat_less: "a < b \<Longrightarrow> n < b \<and> Q \<Longrightarrow> 0 \<le> n \<Longrightarrow> nat a < nat (b :: int)"
  by simp

function target_search ::
  "(search_state \<Rightarrow> int \<Rightarrow> (keeper_eval \<times> search_state) res) \<Rightarrow> int \<Rightarrow> nat \<Rightarrow> search_state \<Rightarrow> int \<Rightarrow> int \<Rightarrow>
   (target_outcome \<times> search_state) res"
where
  "target_search f target n st lo hi =
     (if hi - lo > 1 \<and> length (evaluated st) < 400
      then (case probe f st (grid lo hi) of
          Inl e \<Rightarrow> Inl e
        | Inr (vs, st') \<Rightarrow> (case first_index (meets_target target) vs of
              None \<Rightarrow> Inr (if n > 0 then Unproven else Unreachable, st')
            | Some first \<Rightarrow>
                if first = 0 then Inr (Unproven, st')
                else target_search f target (Suc n) st' (grid lo hi ! (first - 1)) (grid lo hi ! first)))
      else Inr (Bracket lo hi, st))"
  by pat_completeness auto
termination
proof (relation "measure (\<lambda>(f, target, n, st, lo, hi). nat (hi - lo))", simp, goal_cases)
  case (1 f target n st lo hi b vs st' first)
  then have "first < 9" using first_index_less probe_grid_length by fastforce
  with 1 have "grid lo hi ! Suc (first - 1) - grid lo hi ! (first - 1) < hi - lo"
    by (intro grid_next_shrinks) auto
  with 1 show ?case by simp
qed

function fallback_search ::
  "(search_state \<Rightarrow> int \<Rightarrow> (keeper_eval \<times> search_state) res) \<Rightarrow> search_state \<Rightarrow> int \<Rightarrow> int \<Rightarrow>
   ((int \<times> int) option \<times> search_state) res"
where
  "fallback_search f st lo hi =
     (if hi - lo > 1 \<and> length (evaluated st) < 400
      then (case probe f st (grid lo hi) of
          Inl e \<Rightarrow> Inl e
        | Inr (vs, st') \<Rightarrow>
            let k = (case last_index has_candidate vs of None \<Rightarrow> 0 | Some i \<Rightarrow> i) in
            if k \<ge> 8 then Inr (None, st')
            else fallback_search f st' (grid lo hi ! k) (grid lo hi ! (k + 1)))
      else Inr (Some (lo, hi), st))"
  by pat_completeness auto
termination
proof (relation "measure (\<lambda>(f, st, lo, hi). nat (hi - lo))", simp, goal_cases)
  case (1 f st lo hi b vs st' k)
  then have "grid lo hi ! Suc k - grid lo hi ! k < hi - lo" by (intro grid_next_shrinks) auto
  with 1 show ?case by simp
qed

declare peak_search.simps [simp del] target_search.simps [simp del] fallback_search.simps [simp del]

text \<open>The inputs around the peak: those left in the bracket, the first one of the best value.\<close>

definition peak_points :: "int \<Rightarrow> int \<Rightarrow> int list" where
  "peak_points lo hi = map (\<lambda>i. lo + int i) [0..<nat (hi - lo + 1)]"

definition peak_of :: "int \<Rightarrow> int list \<Rightarrow> keeper_eval list \<Rightarrow> int \<times> int" where
  "peak_of lo points vs = foldl (\<lambda>(peak, v) (a, e). if ev_deployed e > v then (a, ev_deployed e) else (peak, v))
     (lo, 0) (zip points vs)"

text \<open>After the target search: the bracketed input, with its predecessor below the target.\<close>

definition accept_target ::
  "(search_state \<Rightarrow> int \<Rightarrow> (keeper_eval \<times> search_state) res) \<Rightarrow> int \<Rightarrow> search_state \<Rightarrow> int \<Rightarrow> int \<Rightarrow>
   (RangeKeeperCandidate option \<times> search_state) res"
where
  "accept_target f target st lo hi =
     (if hi - lo > 1 then Inr (None, st)
      else bind_ok (f st hi) (\<lambda>(v, st1).
        if ev_candidate v = None \<or> \<not> meets_target target v then Inr (None, st1)
        else if hi > 1
        then bind_ok (f st1 (hi - 1)) (\<lambda>(w, st2).
          Inr (if meets_target target w then None else ev_candidate v, st2))
        else Inr (ev_candidate v, st1)))"

text \<open>When the target is out of reach: the largest feasible input, with an infeasible successor.\<close>

definition accept_fallback ::
  "(search_state \<Rightarrow> int \<Rightarrow> (keeper_eval \<times> search_state) res) \<Rightarrow> search_state \<Rightarrow> int \<Rightarrow>
   (RangeKeeperCandidate option \<times> search_state) res"
where
  "accept_fallback f st peak =
     bind_ok (probe f st (grid 0 peak)) (\<lambda>(vs, st1).
       case last_index has_candidate vs of None \<Rightarrow> Inr (None, st1)
       | Some i \<Rightarrow>
         if i = 8 then Inr (None, st1)
         else bind_ok (fallback_search f st1 (grid 0 peak ! i) (grid 0 peak ! (i + 1))) (\<lambda>(r, st2). case r of
           None \<Rightarrow> Inr (None, st2)
         | Some (lo, hi) \<Rightarrow>
             if hi - lo > 1 then Inr (None, st2)
             else bind_ok (f st2 hi) (\<lambda>(v, st3).
               if ev_candidate v \<noteq> None then Inr (None, st3)
               else bind_ok (f st3 lo) (\<lambda>(w, st4). Inr (ev_candidate w, st4)))))"

definition swap_bound :: "keeper_ctx \<Rightarrow> token_side \<Rightarrow> int res" where
  "swap_bound x token =
     (let available = (if token = Token0 then kx_wallet0 x else kx_wallet1 x);
          priceIn = (if token = Token0 then kx_p0 x else kx_p1 x);
          decimalsIn = (if token = Token0 then kx_d0 x else kx_d1 x);
          l = kx_limits x in
      if available = 0 then Inr 0
      else bind_ok (affordableRaw (maxSwapInputValue l) priceIn decimalsIn) (\<lambda>affordable.
        let share = (available * maxSwapInputPpm l) sdiv PPM in
        Inr (if share < affordable then share else affordable)))"

text \<open>The search over the inputs from 1 to a bound, for the floor of the deployed value.\<close>

definition search_inputs ::
  "(search_state \<Rightarrow> int \<Rightarrow> (keeper_eval \<times> search_state) res) \<Rightarrow> int \<Rightarrow> int \<Rightarrow> search_state \<Rightarrow>
   (RangeKeeperCandidate option \<times> search_state) res"
where
  "search_inputs f least bnd st =
     bind_ok (peak_search f st 1 bnd) (\<lambda>(lo, hi, st1).
       if hi - lo > 8 then Inr (None, st1)
       else bind_ok (quote_all f st1 (peak_points lo hi)) (\<lambda>(vs, st2).
         let (peak, peakValue) = peak_of lo (peak_points lo hi) vs in
         if peakValue < least then Inr (None, st2)
         else
           let near = (peakValue * RANGEKEEPER_NEAR_PEAK_PPM) sdiv PPM;
               target = (if least > near then least else near) in
           bind_ok (target_search f target 0 st2 0 peak) (\<lambda>(outcome, st3). case outcome of
               Bracket lo hi \<Rightarrow> accept_target f target st3 lo hi
             | Unreachable \<Rightarrow> accept_fallback f st3 peak
             | Unproven \<Rightarrow> Inr (None, st3))))"

definition search_swap ::
  "(token_side \<Rightarrow> int \<Rightarrow> SwapQuote res) \<Rightarrow> keeper_ctx \<Rightarrow> token_side \<Rightarrow>
   (RangeKeeperCandidate option \<times> search_state) res"
where
  "search_swap quote x token =
     bind_ok (swap_bound x token) (\<lambda>bnd.
       let st = \<lparr>seen = [], evaluated = []\<rparr> in
       if bnd = 0 then Inr (None, st)
       else search_inputs (quoted quote x token) (kx_floor x) bnd st)"

subsection \<open>The candidate\<close>

definition keeper_context ::
  "RangeKeeperObservation \<Rightarrow> RangeKeeperLimits \<Rightarrow> nat \<Rightarrow> nat \<Rightarrow> TickRange \<Rightarrow> keeper_kind \<Rightarrow> int \<Rightarrow> int \<Rightarrow> keeper_ctx"
where
  "keeper_context ob l d0 d1 rg k p0 p1 =
     (let w0 = ob_wallet0 ob + released0 ob; w1 = ob_wallet1 ob + released1 ob in
      \<lparr>kx_obs = ob, kx_limits = l, kx_d0 = d0, kx_d1 = d1, kx_range = rg, kx_kind = k, kx_p0 = p0, kx_p1 = p1,
       kx_wallet0 = w0, kx_wallet1 = w1, kx_total = rawValue w0 p0 d0 + rawValue w1 p1 d1,
       kx_floor = (maxDeploymentValue l * minDeploymentPpm l) sdiv PPM\<rparr>)"

text \<open>The mint without a swap, and the side whose surplus a swap would sell.\<close>

definition no_swap_candidate :: "keeper_ctx \<Rightarrow> int \<Rightarrow> int \<Rightarrow> RangeKeeperCandidate option res" where
  "no_swap_candidate x base0 base1 =
     bind_ok (evaluate_mint x base0 base1 (ob_sqrtPriceX96 (kx_obs x))) (\<lambda>initial. case initial of
        Some (_, True) \<Rightarrow> make_candidate x base0 base1 (ob_sqrtPriceX96 (kx_obs x)) None
      | _ \<Rightarrow> Inr None)"

definition surplus_side :: "keeper_ctx \<Rightarrow> int \<Rightarrow> int \<Rightarrow> token_side res" where
  "surplus_side x base0 base1 =
     bind_ok (evaluate_mint x base0 base1 (ob_sqrtPriceX96 (kx_obs x))) (\<lambda>initial.
       let i0 = (case initial of None \<Rightarrow> base0 | Some (r, _) \<Rightarrow> idle0 (sized_mint r));
           i1 = (case initial of None \<Rightarrow> base1 | Some (r, _) \<Rightarrow> idle1 (sized_mint r)) in
       Inr (if rawValue i0 (kx_p0 x) (kx_d0 x) > rawValue i1 (kx_p1 x) (kx_d1 x) then Token0 else Token1))"

definition choose_candidate ::
  "RangeKeeperCandidate option \<Rightarrow> (RangeKeeperCandidate option \<times> search_state) res \<Rightarrow> RangeKeeperCandidate option res"
where
  "choose_candidate noSwap searched = (case searched of
      Inl e \<Rightarrow> (case noSwap of None \<Rightarrow> Inl e | Some c \<Rightarrow> Inr (Some c))
    | Inr (None, _) \<Rightarrow> Inr noSwap
    | Inr (Some s, _) \<Rightarrow> (case noSwap of
          None \<Rightarrow> Inr (Some s)
        | Some c \<Rightarrow> Inr (Some (if deployedValue c \<ge> deployedValue s then c else s))))"

definition construct ::
  "(token_side \<Rightarrow> int \<Rightarrow> SwapQuote res) \<Rightarrow> RangeKeeperObservation \<Rightarrow> RangeKeeperLimits \<Rightarrow> nat \<Rightarrow> nat \<Rightarrow>
   TickRange \<Rightarrow> keeper_kind \<Rightarrow> RangeKeeperCandidate option res"
where
  "construct quote ob l d0 d1 rg k = (case (price0 ob, price1 ob) of
      (Some p0, Some p1) \<Rightarrow>
        let x = keeper_context ob l d0 d1 rg k p0 p1; total = kx_total x; cap = maxDeploymentValue l in
        bind_ok (if total > cap then div_big (cap * PPM) total else Inr PPM) (\<lambda>fraction.
          let base0 = (kx_wallet0 x * fraction) sdiv PPM; base1 = (kx_wallet1 x * fraction) sdiv PPM;
              ceiling = (if total < cap then total else cap) in
          bind_ok (no_swap_candidate x base0 base1) (\<lambda>noSwap.
            if (case noSwap of None \<Rightarrow> False
                | Some c \<Rightarrow> deployedValue c * PPM \<ge> ceiling * RANGEKEEPER_NEAR_PEAK_PPM)
            then Inr noSwap
            else bind_ok (surplus_side x base0 base1) (\<lambda>token.
              choose_candidate noSwap (search_swap quote x token))))
    | _ \<Rightarrow> Inl ''TypeError'')"

subsection \<open>The contract of a quoting step\<close>

text \<open>
  The searches know the quoter only through \<open>quoted\<close>: a step on an amount within the bound
  keeps the cache in order, evaluates the amount truthfully and spends at most one quote.
\<close>

lemma last_index_Some: "last_index P xs = Some i \<Longrightarrow> i < length xs \<and> P (xs ! i)"
proof -
  have "foldl (\<lambda>k i. if P (xs ! i) then Some i else k) s is = Some i \<Longrightarrow> s = Some i \<or> (i \<in> set is \<and> P (xs ! i))" for s "is"
    by (induction "is" arbitrary: s) (fastforce split: if_splits)+
  from this [of None "[0..<length xs]"] show "last_index P xs = Some i \<Longrightarrow> i < length xs \<and> P (xs ! i)"
    by (auto simp: last_index_def)
qed

locale quoting =
  fixes f :: "search_state \<Rightarrow> int \<Rightarrow> (keeper_eval \<times> search_state) res"
    and ok :: "search_state \<Rightarrow> bool"
    and good :: "int \<Rightarrow> keeper_eval \<Rightarrow> bool"
    and bnd :: int
  assumes step: "ok st \<Longrightarrow> 1 \<le> a \<Longrightarrow> a \<le> bnd \<Longrightarrow> f st a = Inr (v, st') \<Longrightarrow>
      ok st' \<and> good a v \<and> length (evaluated st') \<le> Suc (length (evaluated st))"
begin

lemma quote_all_step:
  assumes "quote_all f st as = Inr (vs, st')" "ok st" "\<forall>a\<in>set as. 1 \<le> a \<and> a \<le> bnd"
  shows "ok st' \<and> list_all2 good as vs \<and> length (evaluated st') \<le> length (evaluated st) + length as"
  using assms
proof (induction as arbitrary: st vs)
  case (Cons a as)
  then obtain v st1 ws where f: "f st a = Inr (v, st1)" and r: "quote_all f st1 as = Inr (ws, st')" and vs: "vs = v # ws"
    by (auto simp: bind_ok_Inr_iff)
  have 1: "ok st1" "good a v" "length (evaluated st1) \<le> Suc (length (evaluated st))"
    using step [OF Cons.prems(2) _ _ f] Cons.prems(3) by auto
  with Cons.IH [OF r] Cons.prems(3) vs show ?case by auto
qed simp

lemma probe_step:
  assumes "probe f st as = Inr (vs, st')" "ok st" "\<forall>a\<in>set as. 0 \<le> a \<and> a \<le> bnd"
  shows "ok st' \<and> list_all2 (\<lambda>a v. if a = 0 then v = no_eval else good a v) as vs \<and>
    length (evaluated st') \<le> length (evaluated st) + length as"
  using assms unfolding probe_def
proof (induction as arbitrary: st vs)
  case (Cons a as)
  then obtain v st1 ws where f: "(if a = 0 then Inr (no_eval, st) else f st a) = Inr (v, st1)"
    and r: "quote_all (\<lambda>st a. if a = 0 then Inr (no_eval, st) else f st a) st1 as = Inr (ws, st')" and vs: "vs = v # ws"
    by (auto simp: bind_ok_Inr_iff)
  have 1: "ok st1" "if a = 0 then v = no_eval else good a v" "length (evaluated st1) \<le> Suc (length (evaluated st))"
    using f Cons.prems(2,3) step [OF Cons.prems(2), of a v st1] by (auto split: if_splits)
  with Cons.IH [OF r] Cons.prems(3) vs show ?case by auto
qed simp

text \<open>One round of a search: nine values, at most nine quotes, a candidate at no zero amount.\<close>

lemma round_step:
  assumes "probe f st (grid lo hi) = Inr (vs, st')" "ok st" "0 \<le> lo" "lo < hi" "hi \<le> bnd"
  shows "ok st'" "length vs = 9" "length (evaluated st') \<le> length (evaluated st) + 9"
    "i \<le> j \<Longrightarrow> j < 9 \<Longrightarrow> grid lo hi ! i \<le> grid lo hi ! j"
    "i < 9 \<Longrightarrow> lo \<le> grid lo hi ! i \<and> grid lo hi ! i \<le> hi"
    "i < 9 \<Longrightarrow> has_candidate (vs ! i) \<Longrightarrow> 0 < grid lo hi ! i"
proof -
  have mono: "i \<le> j \<Longrightarrow> j < 9 \<Longrightarrow> grid lo hi ! i \<le> grid lo hi ! j" for i j
    using assms(4) by (intro grid_step(2)) auto
  note r = grid_range [OF assms(4)]
  have l: "length (grid lo hi) = 9" by (simp add: grid_def)
  have "\<forall>a\<in>set (grid lo hi). 0 \<le> a \<and> a \<le> bnd"
    using r l assms(3,5) by (fastforce simp: in_set_conv_nth)
  from probe_step [OF assms(1,2) this]
  have p: "ok st'" "list_all2 (\<lambda>a v. if a = 0 then v = no_eval else good a v) (grid lo hi) vs"
    "length (evaluated st') \<le> length (evaluated st) + 9" using l by auto
  then show "ok st'" "length vs = 9" "length (evaluated st') \<le> length (evaluated st) + 9"
    using l by (auto dest: list_all2_lengthD)
  show "i \<le> j \<Longrightarrow> j < 9 \<Longrightarrow> grid lo hi ! i \<le> grid lo hi ! j" by (rule mono)
  show "i < 9 \<Longrightarrow> lo \<le> grid lo hi ! i \<and> grid lo hi ! i \<le> hi" by (rule r)
  assume i: "i < 9" "has_candidate (vs ! i)"
  with list_all2_nthD [OF p(2), of i] l have "grid lo hi ! i \<noteq> 0" by (auto simp: has_candidate_def no_eval_def)
  with r [OF i(1)] assms(3) show "0 < grid lo hi ! i" by linarith
qed

lemma peak_search_step:
  assumes "peak_search f st lo hi = Inr (lo', hi', st')" "ok st" "1 \<le> lo" "lo \<le> hi" "hi \<le> bnd"
    "length (evaluated st) \<le> 328"
  shows "ok st' \<and> 1 \<le> lo' \<and> lo' \<le> hi' \<and> hi' \<le> bnd \<and> length (evaluated st') \<le> 328"
  using assms
proof (induction "nat (hi - lo)" arbitrary: st lo hi rule: less_induct)
  case less
  show ?case
  proof (cases "hi - lo > 8 \<and> length (evaluated st) < 320")
    case False
    with less.prems show ?thesis by (auto simp: peak_search.simps)
  next
    case True
    with less.prems(1) obtain vs st1 where p: "probe f st (grid lo hi) = Inr (vs, st1)"
      and r: "peak_search f st1 (grid lo hi ! (best_index vs - 1)) (grid lo hi ! min 8 (best_index vs + 1)) =
        Inr (lo', hi', st')"
      by (auto simp: peak_search.simps [of f st] simp del: min_Suc1 min_Suc2 split: sum.splits)
    have o: "0 \<le> lo" "lo < hi" using True less.prems(3) by auto
    note step = round_step [OF p less.prems(2) o less.prems(5)]
    have b: "best_index vs < 9" using best_index_less [of vs] step(2) by fastforce
    then have lt: "nat (grid lo hi ! min 8 (best_index vs + 1) - grid lo hi ! (best_index vs - 1)) < nat (hi - lo)"
      using nat_less [OF grid_shrinks [OF conjunct1 [OF True] b] True] by simp
    have m: "min 8 (best_index vs + 1) < 9" "best_index vs - 1 < 9" "best_index vs - 1 \<le> min 8 (best_index vs + 1)"
      using b by auto
    show ?thesis
      by (rule less.hyps [OF lt r step(1)])
        (use step(3) step(4) [OF m(3,1)] step(5) [OF m(1)] step(5) [OF m(2)] True less.prems(3,5) in linarith)+
  qed
qed

lemma target_search_step:
  assumes "target_search f target n st lo hi = Inr (outcome, st')" "ok st" "0 \<le> lo" "1 \<le> hi" "hi \<le> bnd"
    "length (evaluated st) \<le> 408"
  shows "ok st' \<and> length (evaluated st') \<le> 408 \<and> (\<forall>l h. outcome = Bracket l h \<longrightarrow> 1 \<le> h \<and> h \<le> bnd)"
  using assms
proof (induction "nat (hi - lo)" arbitrary: n st lo hi rule: less_induct)
  case less
  show ?case
  proof (cases "hi - lo > 1 \<and> length (evaluated st) < 400")
    case False
    with less.prems show ?thesis by (auto simp: target_search.simps)
  next
    case True
    with less.prems(1) obtain vs st1 where p: "probe f st (grid lo hi) = Inr (vs, st1)"
      by (auto simp: target_search.simps [of f target n st] split: sum.splits)
    have o: "lo < hi" using True by simp
    note step = round_step [OF p less.prems(2,3) o less.prems(5)]
    show ?thesis
    proof (cases "\<exists>k. first_index (meets_target target) vs = Some (Suc k)")
      case False
      with less.prems(1) True p step(1,3) show ?thesis
        by (auto simp: target_search.simps [of f target n st] split: sum.splits option.splits if_splits nat.splits)
          (metis Suc_pred)+
    next
      case True': True
      then obtain k where k: "first_index (meets_target target) vs = Some (Suc k)" ..
      with first_index_less [OF k] step(2) have k9: "Suc k < 9" "has_candidate (vs ! Suc k)"
        by (auto simp: meets_target_def has_candidate_def)
      then have k8: "k < 8" by simp
      from less.prems(1) True p k
      have r: "target_search f target (Suc n) st1 (grid lo hi ! k) (grid lo hi ! Suc k) = Inr (outcome, st')"
        by (simp add: target_search.simps [of f target n st])
      have lt: "nat (grid lo hi ! Suc k - grid lo hi ! k) < nat (hi - lo)"
        using nat_less [OF grid_next_shrinks [OF conjunct1 [OF True] k8] True] by simp
      show ?thesis
        by (rule less.hyps [OF lt r step(1)])
          (use step(3) step(5) [of k] step(5) [OF k9(1)] step(6) [OF k9] k8 True less.prems(3,5) in linarith)+
    qed
  qed
qed

lemma fallback_search_step:
  assumes "fallback_search f st lo hi = Inr (r, st')" "ok st" "1 \<le> lo" "lo \<le> hi" "hi \<le> bnd"
    "length (evaluated st) \<le> 417"
  shows "ok st' \<and> length (evaluated st') \<le> 417 \<and>
    (\<forall>l h. r = Some (l, h) \<longrightarrow> 1 \<le> l \<and> l \<le> h \<and> h \<le> bnd)"
  using assms
proof (induction "nat (hi - lo)" arbitrary: st lo hi rule: less_induct)
  case less
  show ?case
  proof (cases "hi - lo > 1 \<and> length (evaluated st) < 400")
    case False
    with less.prems show ?thesis by (auto simp: fallback_search.simps)
  next
    case True
    with less.prems(1) obtain vs st1 where p: "probe f st (grid lo hi) = Inr (vs, st1)"
      by (auto simp: fallback_search.simps [of f st] split: sum.splits)
    have o: "0 \<le> lo" "lo < hi" using True less.prems(3) by auto
    note step = round_step [OF p less.prems(2) o less.prems(5)]
    define k where "k = (case last_index has_candidate vs of None \<Rightarrow> 0 | Some i \<Rightarrow> i)"
    have "fallback_search f st lo hi =
        (if k \<ge> 8 then Inr (None, st1) else fallback_search f st1 (grid lo hi ! k) (grid lo hi ! (k + 1)))"
      unfolding fallback_search.simps [of f st lo hi] p k_def Let_def using True by simp
    note e = this [symmetric, unfolded less.prems(1)]
    show ?thesis
    proof (cases "k \<ge> 8")
      case True': True
      with e step(1,3) True show ?thesis by auto
    next
      case False
      then have r: "fallback_search f st1 (grid lo hi ! k) (grid lo hi ! Suc k) = Inr (r, st')"
        and k8: "k < 8" using e by auto
      have lt: "nat (grid lo hi ! Suc k - grid lo hi ! k) < nat (hi - lo)"
        using nat_less [OF grid_next_shrinks [OF conjunct1 [OF True] k8] True] by simp
      have m: "k \<le> Suc k" "Suc k < 9" "k < 9" using k8 by auto
      show ?thesis
        by (rule less.hyps [OF lt r step(1)])
          (use step(3) step(4) [OF m(1,2)] step(5) [OF m(2)] step(5) [OF m(3)] True less.prems(3,5) in linarith)+
    qed
  qed
qed

lemma peak_of_step:
  assumes "peak_of lo points vs = (peak, v)" "1 \<le> lo" "lo \<le> bnd" "\<forall>a\<in>set points. 1 \<le> a \<and> a \<le> bnd"
  shows "1 \<le> peak \<and> peak \<le> bnd"
proof -
  have "foldl (\<lambda>(peak, v) (a, e). if ev_deployed e > v then (a, ev_deployed e) else (peak, v)) (p0, v0) zs = (peak, v) \<Longrightarrow>
      1 \<le> p0 \<and> p0 \<le> bnd \<Longrightarrow> \<forall>(a, e)\<in>set zs. 1 \<le> a \<and> a \<le> bnd \<Longrightarrow> 1 \<le> peak \<and> peak \<le> bnd" for p0 v0 zs
    by (induction zs arbitrary: p0 v0) (fastforce split: if_splits)+
  from this [of lo 0 "zip points vs"] assms show ?thesis by (auto simp: peak_of_def dest: set_zip_leftD)
qed

lemma accept_target_step:
  assumes "accept_target f target st lo hi = Inr (r, st')" "ok st" "1 \<le> hi" "hi \<le> bnd" "length (evaluated st) \<le> 408"
  shows "ok st' \<and> length (evaluated st') \<le> 419 \<and>
    (\<forall>c. r = Some c \<longrightarrow> (\<exists>a v. 1 \<le> a \<and> a \<le> bnd \<and> good a v \<and> ev_candidate v = Some c))"
proof (cases "hi - lo > 1")
  case True
  with assms show ?thesis by (auto simp: accept_target_def)
next
  case False
  with assms(1) obtain v st1 where v: "f st hi = Inr (v, st1)"
    and r: "(if ev_candidate v = None \<or> \<not> meets_target target v then Inr (None, st1)
        else if hi > 1
        then bind_ok (f st1 (hi - 1)) (\<lambda>(w, st2).
          Inr (if meets_target target w then None else ev_candidate v, st2))
        else Inr (ev_candidate v, st1)) = Inr (r, st')"
    by (auto simp: accept_target_def bind_ok_Inr_iff)
  note 1 = step [OF assms(2-4) v]
  then have g: "ev_candidate v = Some c \<Longrightarrow> \<exists>a v. 1 \<le> a \<and> a \<le> bnd \<and> good a v \<and> ev_candidate v = Some c" for c
    using assms(3,4) by blast
  show ?thesis
  proof (cases "ev_candidate v \<noteq> None \<and> meets_target target v \<and> hi > 1")
    case True
    with r obtain w where w: "f st1 (hi - 1) = Inr (w, st')" "r = (if meets_target target w then None else ev_candidate v)"
      by (auto simp: bind_ok_Inr_iff)
    from step [OF _ _ _ w(1)] 1 True assms(4,5) have "ok st'" "length (evaluated st') \<le> 419" by auto
    with w(2) g show ?thesis by (auto split: if_splits; blast)
  next
    case False
    with r 1 g assms(5) show ?thesis by (auto split: if_splits; blast)
  qed
qed

lemma accept_fallback_step:
  assumes "accept_fallback f st peak = Inr (r, st')" "ok st" "1 \<le> peak" "peak \<le> bnd" "length (evaluated st) \<le> 408"
  shows "ok st' \<and> length (evaluated st') \<le> 419 \<and>
    (\<forall>c. r = Some c \<longrightarrow> (\<exists>a v. 1 \<le> a \<and> a \<le> bnd \<and> good a v \<and> ev_candidate v = Some c))"
proof -
  from assms(1) obtain vs st1 where p: "probe f st (grid 0 peak) = Inr (vs, st1)"
    by (auto simp: accept_fallback_def bind_ok_Inr_iff)
  have o: "0 \<le> (0::int)" "0 < peak" using assms(3) by auto
  note st1 = round_step [OF p assms(2) o assms(4)]
  show ?thesis
  proof (cases "\<exists>i. last_index has_candidate vs = Some i \<and> i \<noteq> 8")
    case False
    with assms(1,5) p st1(1,3) show ?thesis by (auto simp: accept_fallback_def split: option.splits if_splits)
  next
    case True
    then obtain i where i: "last_index has_candidate vs = Some i" "i \<noteq> 8" by blast
    with last_index_Some [OF i(1)] st1(2) have i8: "i < 9" "Suc i < 9" "has_candidate (vs ! i)" by auto
    obtain r2 st2 where w: "fallback_search f st1 (grid 0 peak ! i) (grid 0 peak ! (i + 1)) = Inr (r2, st2)"
      and e: "(case r2 of None \<Rightarrow> Inr (None, st2)
         | Some (lo, hi) \<Rightarrow>
             if hi - lo > 1 then Inr (None, st2)
             else bind_ok (f st2 hi) (\<lambda>(v, st3).
               if ev_candidate v \<noteq> None then Inr (None, st3)
               else bind_ok (f st3 lo) (\<lambda>(w, st4). Inr (ev_candidate w, st4)))) = Inr (r, st')"
      using assms(1) p i by (auto simp: accept_fallback_def bind_ok_Inr_iff simp del: bind_ok_simps)
    have 2: "ok st2 \<and> length (evaluated st2) \<le> 417 \<and> (\<forall>l h. r2 = Some (l, h) \<longrightarrow> 1 \<le> l \<and> l \<le> h \<and> h \<le> bnd)"
      by (rule fallback_search_step [OF w st1(1)])
        (use st1(3) st1(4) [of i "i + 1"] st1(5) [OF i8(2)] st1(6) [OF i8(1,3)] i8(2) assms(4,5) in \<open>simp_all\<close>)
    show ?thesis
    proof (cases "\<exists>lo hi. r2 = Some (lo, hi) \<and> \<not> hi - lo > 1")
      case False
      with e 2 show ?thesis by (auto split: option.splits if_splits)
    next
      case True
      then obtain lo hi where lh: "r2 = Some (lo, hi)" "\<not> hi - lo > 1" by blast
      with 2 have b: "1 \<le> lo" "lo \<le> hi" "hi \<le> bnd" by auto
      then have b': "1 \<le> hi" "lo \<le> bnd" by linarith+
      from e lh obtain v st3 where v: "f st2 hi = Inr (v, st3)"
        and e2: "(if ev_candidate v \<noteq> None then Inr (None, st3)
          else bind_ok (f st3 lo) (\<lambda>(w, st4). Inr (ev_candidate w, st4))) = Inr (r, st')"
        by (auto simp: bind_ok_Inr_iff)
      note 3 = step [OF conjunct1 [OF 2] b'(1) b(3) v]
      show ?thesis
      proof (cases "ev_candidate v = None")
        case False
        with e2 2 3 show ?thesis by auto
      next
        case True
        with e2 obtain w where w: "f st3 lo = Inr (w, st')" "r = ev_candidate w" by (auto simp: bind_ok_Inr_iff)
        from step [OF conjunct1 [OF 3] b(1) b'(2) w(1)] 2 3 b(1) b'(2) w(2) show ?thesis by auto
      qed
    qed
  qed
qed

lemma peak_points_set: "a \<in> set (peak_points lo hi) \<Longrightarrow> lo \<le> a \<and> a \<le> hi"
  by (auto simp: peak_points_def)

text \<open>Whatever the quoter answers, a search spends at most 419 quotes on amounts within the bound.\<close>

lemma search_inputs_step:
  assumes "search_inputs f least bnd st = Inr (r, st')" "ok st" "1 \<le> bnd" "evaluated st = []"
  shows "ok st' \<and> length (evaluated st') \<le> 419 \<and>
    (\<forall>c. r = Some c \<longrightarrow> (\<exists>a v. 1 \<le> a \<and> a \<le> bnd \<and> good a v \<and> ev_candidate v = Some c))"
proof -
  from assms(1) obtain lo hi st1 where p: "peak_search f st 1 bnd = Inr (lo, hi, st1)"
    by (auto simp: search_inputs_def bind_ok_Inr_iff)
  have 1: "ok st1 \<and> 1 \<le> lo \<and> lo \<le> hi \<and> hi \<le> bnd \<and> length (evaluated st1) \<le> 328"
    by (rule peak_search_step [OF p assms(2)]) (use assms(3,4) in simp_all)
  show ?thesis
  proof (cases "hi - lo > 8")
    case True
    with assms(1) p 1 show ?thesis by (auto simp: search_inputs_def)
  next
    case False
    with assms(1) p obtain vs st2 where q: "quote_all f st1 (peak_points lo hi) = Inr (vs, st2)"
      by (auto simp: search_inputs_def bind_ok_Inr_iff)
    have r: "\<forall>a\<in>set (peak_points lo hi). 1 \<le> a \<and> a \<le> bnd" using 1 peak_points_set by fastforce
    have "length (peak_points lo hi) \<le> 9" using False by (simp add: peak_points_def)
    with quote_all_step [OF q conjunct1 [OF 1] r] 1 have 2: "ok st2" "length (evaluated st2) \<le> 408" by auto
    obtain peak peakValue where k: "peak_of lo (peak_points lo hi) vs = (peak, peakValue)" by fastforce
    have b: "1 \<le> peak" "peak \<le> bnd" using peak_of_step [OF k _ _ r] 1 by auto
    show ?thesis
    proof (cases "peakValue < least")
      case True
      with assms(1) p q k False 2 show ?thesis by (auto simp: search_inputs_def)
    next
      case up: False
      define target where "target = (if least > (peakValue * RANGEKEEPER_NEAR_PEAK_PPM) sdiv PPM then least
        else (peakValue * RANGEKEEPER_NEAR_PEAK_PPM) sdiv PPM)"
      have "search_inputs f least bnd st = bind_ok (target_search f target 0 st2 0 peak) (\<lambda>(outcome, st3).
          case outcome of
               Bracket lo hi \<Rightarrow> accept_target f target st3 lo hi
             | Unreachable \<Rightarrow> accept_fallback f st3 peak
             | Unproven \<Rightarrow> Inr (None, st3))"
        using False up unfolding target_def by (simp add: search_inputs_def p q k Let_def)
      with assms(1) obtain outcome st3 where t: "target_search f target 0 st2 0 peak = Inr (outcome, st3)"
        and e: "(case outcome of
               Bracket lo hi \<Rightarrow> accept_target f target st3 lo hi
             | Unreachable \<Rightarrow> accept_fallback f st3 peak
             | Unproven \<Rightarrow> Inr (None, st3)) = Inr (r, st')"
        by (auto simp: bind_ok_Inr_iff)
      have 3: "ok st3 \<and> length (evaluated st3) \<le> 408 \<and> (\<forall>l h. outcome = Bracket l h \<longrightarrow> 1 \<le> h \<and> h \<le> bnd)"
        by (rule target_search_step [OF t 2(1)]) (use 2 b in simp_all)
      show ?thesis
      proof (cases outcome)
        case (Bracket l h)
        with e 3 accept_target_step [of target st3 l h r st'] show ?thesis by simp
      next
        case Unreachable
        with e 3 b accept_fallback_step [of st3 peak r st'] show ?thesis by simp
      next
        case Unproven
        with e 3 show ?thesis by auto
      qed
    qed
  qed
qed

end

text \<open>When the quoter answers every amount within the bound, every search returns.\<close>

locale answering = quoting +
  assumes answers: "ok st \<Longrightarrow> 1 \<le> a \<Longrightarrow> a \<le> bnd \<Longrightarrow> \<exists>v st'. f st a = Inr (v, st')"
begin

lemma quote_all_answers:
  assumes "ok st" "\<forall>a\<in>set as. 1 \<le> a \<and> a \<le> bnd"
  obtains vs st' where "quote_all f st as = Inr (vs, st')"
proof -
  have "\<exists>vs st'. quote_all f st as = Inr (vs, st')" using assms
  proof (induction as arbitrary: st)
    case (Cons a as)
    then obtain v st1 where v: "f st a = Inr (v, st1)" using answers by fastforce
    with step [OF Cons.prems(1) _ _ v] Cons show ?case by fastforce
  qed simp
  with that show thesis by blast
qed

lemma probe_answers:
  assumes "ok st" "\<forall>a\<in>set as. 0 \<le> a \<and> a \<le> bnd"
  obtains vs st' where "probe f st as = Inr (vs, st')"
proof -
  have "\<exists>vs st'. probe f st as = Inr (vs, st')" using assms unfolding probe_def
  proof (induction as arbitrary: st)
    case (Cons a as)
    show ?case
    proof (cases "a = 0")
      case True
      with Cons.IH [OF Cons.prems(1)] Cons.prems(2) show ?thesis by auto
    next
      case False
      with Cons.prems have a: "1 \<le> a" "a \<le> bnd" by auto
      then obtain v st1 where v: "f st a = Inr (v, st1)" using answers Cons.prems(1) by blast
      with step [OF Cons.prems(1) a v] Cons.IH [of st1] Cons.prems(2) False show ?thesis by auto
    qed
  qed simp
  with that show thesis by blast
qed

lemma round_answers:
  assumes "ok st" "0 \<le> lo" "lo < hi" "hi \<le> bnd"
  obtains vs st' where "probe f st (grid lo hi) = Inr (vs, st')"
proof -
  have "\<forall>a\<in>set (grid lo hi). 0 \<le> a \<and> a \<le> bnd"
  proof
    fix a assume "a \<in> set (grid lo hi)"
    then obtain i where "i < 9" "a = grid lo hi ! i" by (auto simp: in_set_conv_nth grid_def)
    with grid_range [OF assms(3)] assms(2,4) show "0 \<le> a \<and> a \<le> bnd" by fastforce
  qed
  from probe_answers [OF assms(1) this] that show thesis by blast
qed

lemma peak_search_answers:
  assumes "ok st" "1 \<le> lo" "lo \<le> hi" "hi \<le> bnd"
  shows "\<exists>r. peak_search f st lo hi = Inr r"
  using assms
proof (induction "nat (hi - lo)" arbitrary: st lo hi rule: less_induct)
  case less
  show ?case
  proof (cases "hi - lo > 8 \<and> length (evaluated st) < 320")
    case False
    then show ?thesis by (auto simp: peak_search.simps)
  next
    case True
    then have o: "0 \<le> lo" "lo < hi" using less.prems(2) by auto
    obtain vs st1 where p: "probe f st (grid lo hi) = Inr (vs, st1)" by (rule round_answers [OF less.prems(1) o less.prems(4)])
    note step = round_step [OF p less.prems(1) o less.prems(4)]
    have b: "best_index vs < 9" using best_index_less [of vs] step(2) by fastforce
    then have lt: "nat (grid lo hi ! min 8 (best_index vs + 1) - grid lo hi ! (best_index vs - 1)) < nat (hi - lo)"
      using nat_less [OF grid_shrinks [OF conjunct1 [OF True] b] True] by simp
    have m: "min 8 (best_index vs + 1) < 9" "best_index vs - 1 < 9" "best_index vs - 1 \<le> min 8 (best_index vs + 1)"
      using b by auto
    have "\<exists>r. peak_search f st1 (grid lo hi ! (best_index vs - 1)) (grid lo hi ! min 8 (best_index vs + 1)) = Inr r"
      by (rule less.hyps [OF lt step(1)])
        (use step(4) [OF m(3,1)] step(5) [OF m(1)] step(5) [OF m(2)] less.prems(2,4) in linarith)+
    with True p show ?thesis by (simp add: peak_search.simps [of f st lo hi] del: min_Suc1 min_Suc2)
  qed
qed

lemma target_search_answers:
  assumes "ok st" "0 \<le> lo" "1 \<le> hi" "hi \<le> bnd"
  shows "\<exists>r. target_search f target n st lo hi = Inr r"
  using assms
proof (induction "nat (hi - lo)" arbitrary: n st lo hi rule: less_induct)
  case less
  show ?case
  proof (cases "hi - lo > 1 \<and> length (evaluated st) < 400")
    case False
    then show ?thesis by (auto simp: target_search.simps)
  next
    case True
    then have o: "lo < hi" by simp
    obtain vs st1 where p: "probe f st (grid lo hi) = Inr (vs, st1)"
      by (rule round_answers [OF less.prems(1,2) o less.prems(4)])
    note step = round_step [OF p less.prems(1,2) o less.prems(4)]
    show ?thesis
    proof (cases "first_index (meets_target target) vs")
      case None
      with True p show ?thesis by (simp add: target_search.simps [of f target n st lo hi])
    next
      case (Some first)
      show ?thesis
      proof (cases first)
        case 0
        with Some True p show ?thesis by (simp add: target_search.simps [of f target n st lo hi])
      next
        case (Suc k)
        with first_index_less [OF Some] step(2) have k9: "Suc k < 9" "has_candidate (vs ! Suc k)"
          by (auto simp: meets_target_def has_candidate_def)
        then have k8: "k < 8" by simp
        have lt: "nat (grid lo hi ! Suc k - grid lo hi ! k) < nat (hi - lo)"
          using nat_less [OF grid_next_shrinks [OF conjunct1 [OF True] k8] True] by simp
        have "\<exists>r. target_search f target (Suc n) st1 (grid lo hi ! k) (grid lo hi ! Suc k) = Inr r"
          by (rule less.hyps [OF lt step(1)])
            (use step(5) [of k] step(5) [OF k9(1)] step(6) [OF k9] k8 less.prems(2,4) in linarith)+
        with Some Suc True p show ?thesis by (simp add: target_search.simps [of f target n st lo hi])
      qed
    qed
  qed
qed

lemma fallback_search_answers:
  assumes "ok st" "1 \<le> lo" "lo \<le> hi" "hi \<le> bnd"
  shows "\<exists>r. fallback_search f st lo hi = Inr r"
  using assms
proof (induction "nat (hi - lo)" arbitrary: st lo hi rule: less_induct)
  case less
  show ?case
  proof (cases "hi - lo > 1 \<and> length (evaluated st) < 400")
    case False
    then show ?thesis by (auto simp: fallback_search.simps)
  next
    case True
    then have o: "0 \<le> lo" "lo < hi" using less.prems(2) by auto
    obtain vs st1 where p: "probe f st (grid lo hi) = Inr (vs, st1)" by (rule round_answers [OF less.prems(1) o less.prems(4)])
    note step = round_step [OF p less.prems(1) o less.prems(4)]
    define k where "k = (case last_index has_candidate vs of None \<Rightarrow> 0 | Some i \<Rightarrow> i)"
    have e: "fallback_search f st lo hi =
        (if k \<ge> 8 then Inr (None, st1) else fallback_search f st1 (grid lo hi ! k) (grid lo hi ! (k + 1)))"
      unfolding fallback_search.simps [of f st lo hi] p k_def Let_def using True by simp
    show ?thesis
    proof (cases "k \<ge> 8")
      case False
      then have m: "k \<le> Suc k" "Suc k < 9" "k < 9" "k < 8" by auto
      have lt: "nat (grid lo hi ! Suc k - grid lo hi ! k) < nat (hi - lo)"
        using nat_less [OF grid_next_shrinks [OF conjunct1 [OF True] m(4)] True] by simp
      have "\<exists>r. fallback_search f st1 (grid lo hi ! k) (grid lo hi ! Suc k) = Inr r"
        by (rule less.hyps [OF lt step(1)])
          (use step(4) [OF m(1,2)] step(5) [OF m(2)] step(5) [OF m(3)] less.prems(2,4) in linarith)+
      with e False show ?thesis by simp
    qed (simp add: e)
  qed
qed

lemma accept_target_answers:
  assumes "ok st" "1 \<le> hi" "hi \<le> bnd"
  shows "\<exists>r. accept_target f target st lo hi = Inr r"
proof -
  obtain v st1 where v: "f st hi = Inr (v, st1)" using answers [OF assms] by blast
  note 1 = step [OF assms v]
  have "\<exists>w st2. hi > 1 \<longrightarrow> f st1 (hi - 1) = Inr (w, st2)" using answers [OF conjunct1 [OF 1], of "hi - 1"] assms(3) by auto
  with v show ?thesis by (auto simp: accept_target_def)
qed

lemma accept_fallback_answers:
  assumes "ok st" "1 \<le> peak" "peak \<le> bnd" "length (evaluated st) \<le> 408"
  shows "\<exists>r. accept_fallback f st peak = Inr r"
proof -
  have o: "0 \<le> (0::int)" "0 < peak" using assms(2) by auto
  obtain vs st1 where p: "probe f st (grid 0 peak) = Inr (vs, st1)" by (rule round_answers [OF assms(1) o assms(3)])
  note st1 = round_step [OF p assms(1) o assms(3)]
  show ?thesis
  proof (cases "\<exists>i. last_index has_candidate vs = Some i \<and> i \<noteq> 8")
    case False
    with p show ?thesis by (auto simp: accept_fallback_def split: option.splits)
  next
    case True
    then obtain i where i: "last_index has_candidate vs = Some i" "i \<noteq> 8" by blast
    with last_index_Some [OF i(1)] st1(2) have i8: "i < 9" "Suc i < 9" "has_candidate (vs ! i)" by auto
    have b: "1 \<le> grid 0 peak ! i" "grid 0 peak ! i \<le> grid 0 peak ! (i + 1)" "grid 0 peak ! (i + 1) \<le> bnd"
      using st1(4) [of i "i + 1"] st1(5) [OF i8(2)] st1(6) [OF i8(1,3)] i8(2) assms(3) by simp_all
    obtain r2 st2 where w: "fallback_search f st1 (grid 0 peak ! i) (grid 0 peak ! (i + 1)) = Inr (r2, st2)"
      using fallback_search_answers [OF st1(1) b] by auto
    have 2: "ok st2 \<and> length (evaluated st2) \<le> 417 \<and> (\<forall>l h. r2 = Some (l, h) \<longrightarrow> 1 \<le> l \<and> l \<le> h \<and> h \<le> bnd)"
      by (rule fallback_search_step [OF w st1(1) b]) (use st1(3) assms(4) in simp)
    have "\<exists>v st3. f st2 h = Inr (v, st3) \<and> (\<exists>w st4. f st3 l = Inr (w, st4))" if "r2 = Some (l, h)" for l h
    proof -
      from 2 that have lh: "ok st2" "1 \<le> l" "l \<le> bnd" "1 \<le> h" "h \<le> bnd" by auto
      obtain v st3 where v: "f st2 h = Inr (v, st3)" using answers [OF lh(1,4,5)] by blast
      with step [OF lh(1,4,5) v] answers [of st3 l] lh show ?thesis by blast
    qed
    with p i w show ?thesis by (fastforce simp: accept_fallback_def split: option.splits)
  qed
qed

lemma search_inputs_answers:
  assumes "ok st" "1 \<le> bnd" "evaluated st = []"
  shows "\<exists>r. search_inputs f least bnd st = Inr r"
proof -
  obtain lo hi st1 where p: "peak_search f st 1 bnd = Inr (lo, hi, st1)"
    using peak_search_answers [OF assms(1), of 1 bnd] assms(2) by auto
  have 1: "ok st1 \<and> 1 \<le> lo \<and> lo \<le> hi \<and> hi \<le> bnd \<and> length (evaluated st1) \<le> 328"
    by (rule peak_search_step [OF p assms(1)]) (use assms in simp_all)
  have r: "\<forall>a\<in>set (peak_points lo hi). 1 \<le> a \<and> a \<le> bnd" using 1 peak_points_set by fastforce
  obtain vs st2 where q: "quote_all f st1 (peak_points lo hi) = Inr (vs, st2)"
    by (rule quote_all_answers [OF conjunct1 [OF 1] r])
  obtain peak peakValue where k: "peak_of lo (peak_points lo hi) vs = (peak, peakValue)" by fastforce
  have b: "1 \<le> peak" "peak \<le> bnd" using peak_of_step [OF k _ _ r] 1 by auto
  show ?thesis
  proof (cases "hi - lo > 8 \<or> peakValue < least")
    case True
    with p q k show ?thesis by (auto simp: search_inputs_def)
  next
    case False
    then have "length (peak_points lo hi) \<le> 9" by (auto simp: peak_points_def)
    with quote_all_step [OF q conjunct1 [OF 1] r] 1 have 2: "ok st2" "length (evaluated st2) \<le> 408" by auto
    define near where "near = (peakValue * RANGEKEEPER_NEAR_PEAK_PPM) sdiv PPM"
    obtain outcome st3 where t: "target_search f (if least > near then least else near) 0 st2 0 peak = Inr (outcome, st3)"
      using target_search_answers [OF 2(1) _ b] by fastforce
    have 3: "ok st3 \<and> length (evaluated st3) \<le> 408 \<and> (\<forall>l h. outcome = Bracket l h \<longrightarrow> 1 \<le> h \<and> h \<le> bnd)"
      by (rule target_search_step [OF t 2(1)]) (use 2 b in simp_all)
    have "\<exists>r. (case outcome of
               Bracket l h \<Rightarrow> accept_target f (if least > near then least else near) st3 l h
             | Unreachable \<Rightarrow> accept_fallback f st3 peak
             | Unproven \<Rightarrow> Inr (None, st3)) = Inr r"
      using 3 b accept_target_answers [of st3] accept_fallback_answers [of st3 peak] by (cases outcome) auto
    moreover have "search_inputs f least bnd st = (case outcome of
               Bracket l h \<Rightarrow> accept_target f (if least > near then least else near) st3 l h
             | Unreachable \<Rightarrow> accept_fallback f st3 peak
             | Unproven \<Rightarrow> Inr (None, st3))"
      using False t by (simp only: search_inputs_def p q k Let_def near_def [symmetric] bind_ok_simps prod.case if_False de_Morgan_disj)
    ultimately show ?thesis by simp
  qed
qed

end

subsection \<open>What a candidate guarantees\<close>

text \<open>
  The specification of a candidate: the inventory it mints from is in the wallet (after the swap
  it contains, if any), the pool price at which it mints is strictly inside the range, the mint
  is the one the position manager would make, and its value is between the floor and the cap.
\<close>

definition mint_fits_limits ::
  "keeper_ctx \<Rightarrow> int \<Rightarrow> int \<Rightarrow> int \<Rightarrow> RangeKeeperCandidate \<Rightarrow> bool"
where
  "mint_fits_limits x price w0 w1 c \<longleftrightarrow>
     ck_kind c = kx_kind x \<and> ck_range c = kx_range x \<and> ck_sourceBlock c = ob_block (kx_obs x) \<and>
     ck_sourceHash c = ob_hash (kx_obs x) \<and> expiresAt c = ob_timestamp (kx_obs x) + 90 \<and>
     sqrt_ratio (range_tickLower (ck_range c)) < price \<and> price < sqrt_ratio (range_tickUpper (ck_range c)) \<and>
     0 < ck_liquidity c \<and> kx_floor x \<le> deployedValue c \<and> deployedValue c \<le> maxDeploymentValue (kx_limits x) \<and>
     0 \<le> amount0Desired c \<and> amount0Desired c \<le> w0 \<and> 0 \<le> amount1Desired c \<and> amount1Desired c \<le> w1 \<and>
     (\<exists>m. replayPaperMint price (ck_range c) (amount0Desired c) (amount1Desired c) 0 = Inr m \<and>
        mint_liquidity m = ck_liquidity c \<and>
        deployedValue c = mintValue m (kx_p0 x) (kx_p1 x) (kx_d0 x) (kx_d1 x) \<and>
        amount0Min c = haircut (mint_amount0 m) (maxSlippageBps (kx_limits x)) \<and>
        amount1Min c = haircut (mint_amount1 m) (maxSlippageBps (kx_limits x)))"

definition swap_fits_limits ::
  "(token_side \<Rightarrow> int \<Rightarrow> SwapQuote res) \<Rightarrow> keeper_ctx \<Rightarrow> keeper_swap \<Rightarrow> RangeKeeperCandidate \<Rightarrow> bool"
where
  "swap_fits_limits quote x sw c \<longleftrightarrow> (\<exists>q. quote (sw_token sw) (sw_amountIn sw) = Inr q \<and>
     quotedOut sw = amountOut q \<and> sw_priceAfter sw = priceAfter q \<and> sw_feeValue sw = feeValue q \<and>
     sw_shortfallValue sw = shortfallValue q \<and> 0 < amountOut q \<and> 0 \<le> feeValue q \<and> 0 \<le> shortfallValue q \<and>
     shortfallValue q \<le> maxSwapShortfallValue (kx_limits x) \<and>
     sw_minOut sw = haircut (amountOut q) (maxSlippageBps (kx_limits x)) \<and>
     mint_fits_limits x (priceAfter q)
       (if sw_token sw = Token0 then kx_wallet0 x - sw_amountIn sw else kx_wallet0 x + amountOut q)
       (if sw_token sw = Token1 then kx_wallet1 x - sw_amountIn sw else kx_wallet1 x + amountOut q) c)"

definition good_eval ::
  "(token_side \<Rightarrow> int \<Rightarrow> SwapQuote res) \<Rightarrow> keeper_ctx \<Rightarrow> token_side \<Rightarrow> int \<Rightarrow> keeper_eval \<Rightarrow> bool"
where
  "good_eval quote x token a v \<longleftrightarrow> (\<forall>c. ev_candidate v = Some c \<longrightarrow>
     (\<exists>sw. ck_swap c = Some sw \<and> sw_token sw = token \<and> sw_amountIn sw = a \<and> swap_fits_limits quote x sw c))"

definition search_ok ::
  "(token_side \<Rightarrow> int \<Rightarrow> SwapQuote res) \<Rightarrow> keeper_ctx \<Rightarrow> token_side \<Rightarrow> int \<Rightarrow> search_state \<Rightarrow> bool"
where
  "search_ok quote x token bnd st \<longleftrightarrow> 0 \<le> maxDeploymentValue (kx_limits x) \<and> map fst (seen st) = map fst (evaluated st) \<and>
     distinct (map fst (evaluated st)) \<and> (\<forall>(a, q)\<in>set (seen st). quote token a = Inr q) \<and>
     (\<forall>(a, v)\<in>set (evaluated st). 1 \<le> a \<and> a \<le> bnd \<and> good_eval quote x token a v)"

lemma price_outside_False:
  "price_outside rg price = Inr False \<longleftrightarrow> MIN_TICK \<le> range_tickLower rg \<and> range_tickLower rg \<le> MAX_TICK \<and>
     MIN_TICK \<le> range_tickUpper rg \<and> range_tickUpper rg \<le> MAX_TICK \<and>
     sqrt_ratio (range_tickLower rg) < price \<and> price < sqrt_ratio (range_tickUpper rg)"
  by (auto simp: price_outside_def bind_ok_Inr_iff sqrtRatioAtTick_Inr_iff split: if_splits)

lemma div_big_Inr_iff: "div_big a b = Inr c \<longleftrightarrow> b \<noteq> 0 \<and> c = a sdiv b"
  by (auto simp: div_big_def)

lemma scaled_le:
  fixes a f :: int
  assumes "0 \<le> a" "0 \<le> f" "f \<le> PPM"
  shows "0 \<le> (a * f) sdiv PPM" "(a * f) sdiv PPM \<le> a"
proof -
  have "a * f \<le> a * PPM" using assms by (intro mult_left_mono)
  then show "(a * f) sdiv PPM \<le> a"
    using assms by (simp add: sdiv_nonneg PPM_def)
  have "0 \<le> a * f" using assms by simp
  then show "0 \<le> (a * f) sdiv PPM" by (simp add: sdiv_nonneg PPM_def pos_imp_zdiv_nonneg_iff)
qed

lemma cap_fraction:
  assumes "0 \<le> cap" "cap < v"
  shows "0 \<le> (cap * PPM) sdiv v" "(cap * PPM) sdiv v \<le> PPM"
  using assms div_le_iff [of v "cap * PPM" PPM]
  by (simp_all add: sdiv_nonneg PPM_def pos_imp_zdiv_nonneg_iff)

lemma sizeRangeKeeperMint_Inr:
  assumes "sizeRangeKeeperMint price rg a0 a1 p0 p1 d0 d1 cap = Inr r" "0 \<le> cap"
  shows "replayPaperMint price rg (desired0 r) (desired1 r) 0 = Inr (sized_mint r)"
    "deployed r = mintValue (sized_mint r) p0 p1 d0 d1"
    "0 \<le> desired0 r" "desired0 r \<le> a0" "0 \<le> desired1 r" "desired1 r \<le> a1"
proof -
  from assms(1) obtain m where m: "replayPaperMint price rg a0 a1 0 = Inr m"
    by (auto simp: sizeRangeKeeperMint_def bind_ok_Inr_iff)
  then have n: "0 \<le> a0" "0 \<le> a1" by (simp_all add: replayPaperMint_Inr_iff mint_valid_def)
  have "replayPaperMint price rg (desired0 r) (desired1 r) 0 = Inr (sized_mint r) \<and>
    deployed r = mintValue (sized_mint r) p0 p1 d0 d1 \<and>
    0 \<le> desired0 r \<and> desired0 r \<le> a0 \<and> 0 \<le> desired1 r \<and> desired1 r \<le> a1"
  proof (cases "mintValue m p0 p1 d0 d1 > cap")
    case False
    with assms(1) m n show ?thesis by (auto simp: sizeRangeKeeperMint_def Let_def)
  next
    case True
    note f = cap_fraction [OF assms(2) True]
    from assms(1) m True show ?thesis
      using scaled_le [OF n(1) f] scaled_le [OF n(2) f]
      by (auto simp: sizeRangeKeeperMint_def Let_def bind_ok_Inr_iff div_big_Inr_iff)
  qed
  then show "replayPaperMint price rg (desired0 r) (desired1 r) 0 = Inr (sized_mint r)"
    "deployed r = mintValue (sized_mint r) p0 p1 d0 d1"
    "0 \<le> desired0 r" "desired0 r \<le> a0" "0 \<le> desired1 r" "desired1 r \<le> a1" by auto
qed

lemma mint_liquidity_nonneg: "replayPaperMint price rg a0 a1 r0 = Inr m \<Longrightarrow> 0 \<le> mint_liquidity m"
  by (auto simp: replayPaperMint_def Let_def bind_ok_Inr_iff)

lemma make_candidate_Some:
  assumes "make_candidate x a0 a1 price swap = Inr (Some c)" "0 \<le> maxDeploymentValue (kx_limits x)"
  shows "ck_swap c = swap" "mint_fits_limits x price a0 a1 c"
proof -
  from assms(1) obtain r where e: "evaluate_mint x a0 a1 price = Inr (Some (r, True))"
    and c: "c = \<lparr>ck_kind = kx_kind x, ck_range = kx_range x, ck_swap = swap,
             amount0Desired = desired0 r, amount1Desired = desired1 r,
             amount0Min = haircut (mint_amount0 (sized_mint r)) (maxSlippageBps (kx_limits x)),
             amount1Min = haircut (mint_amount1 (sized_mint r)) (maxSlippageBps (kx_limits x)),
             ck_liquidity = mint_liquidity (sized_mint r), deployedValue = deployed r,
             ck_sourceBlock = ob_block (kx_obs x), ck_sourceHash = ob_hash (kx_obs x),
             expiresAt = ob_timestamp (kx_obs x) + 90\<rparr>"
    by (auto simp: make_candidate_def bind_ok_Inr_iff split: option.splits if_splits)
  from e have o: "price_outside (kx_range x) price = Inr False"
    and z: "sizeRangeKeeperMint price (kx_range x) a0 a1 (kx_p0 x) (kx_p1 x) (kx_d0 x) (kx_d1 x)
           (maxDeploymentValue (kx_limits x)) = Inr r"
    and l: "mint_liquidity (sized_mint r) \<noteq> 0" "kx_floor x \<le> deployed r" "deployed r \<le> maxDeploymentValue (kx_limits x)"
    by (auto simp: evaluate_mint_def bind_ok_Inr_iff split: if_splits)
  note z' = sizeRangeKeeperMint_Inr [OF z assms(2)]
  have "0 \<le> mint_liquidity (sized_mint r)" using mint_liquidity_nonneg [OF z'(1)] .
  with o l z' show "ck_swap c = swap" "mint_fits_limits x price a0 a1 c"
    by (auto simp: c mint_fits_limits_def price_outside_False)
qed

lemma quote_eval_good:
  assumes "quote_eval x token a q = Inr v" "quote token a = Inr q" "0 \<le> maxDeploymentValue (kx_limits x)"
    "0 \<le> amountOut q" "0 \<le> feeValue q" "0 \<le> shortfallValue q"
  shows "good_eval quote x token a v"
  unfolding good_eval_def
proof (intro allI impI)
  fix c
  assume c: "ev_candidate v = Some c"
  let ?w0 = "if token = Token0 then kx_wallet0 x - a else kx_wallet0 x + amountOut q"
  let ?w1 = "if token = Token1 then kx_wallet1 x - a else kx_wallet1 x + amountOut q"
  let ?sw = "\<lparr>sw_token = token, sw_amountIn = a, quotedOut = amountOut q,
     sw_minOut = haircut (amountOut q) (maxSlippageBps (kx_limits x)), sw_priceAfter = priceAfter q,
     sw_feeValue = feeValue q, sw_shortfallValue = shortfallValue q\<rparr>"
  from assms(1) c have "amountOut q \<noteq> 0" "shortfallValue q \<le> maxSwapShortfallValue (kx_limits x)"
      "make_candidate x ?w0 ?w1 (priceAfter q) (Some ?sw) = Inr (Some c)"
    by (auto simp: quote_eval_def no_eval_def Let_def bind_ok_Inr_iff split: if_splits option.splits)
  with make_candidate_Some [OF this(3) assms(3)] assms(2,4-6)
  show "\<exists>sw. ck_swap c = Some sw \<and> sw_token sw = token \<and> sw_amountIn sw = a \<and> swap_fits_limits quote x sw c"
    by (intro exI [of _ ?sw]) (cases token; simp add: swap_fits_limits_def)
qed

lemma update_fresh: "k \<notin> fst ` set xs \<Longrightarrow> AList.update k v xs = xs @ [(k, v)]"
  by (induction xs) auto

lemma quoted_step:
  assumes "search_ok quote x token bnd st" "1 \<le> a" "a \<le> bnd"
    "quoted quote x token st a = Inr (v, st')"
  shows "search_ok quote x token bnd st' \<and> good_eval quote x token a v \<and>
    length (evaluated st') \<le> Suc (length (evaluated st))"
proof (cases "map_of (evaluated st) a")
  case (Some w)
  with assms(1,4) show ?thesis by (auto simp: quoted_def search_ok_def dest!: map_of_SomeD)
next
  case None
  then have fresh: "a \<notin> fst ` set (evaluated st)" by (simp add: map_of_eq_None_iff)
  moreover have "set (map fst (seen st)) = set (map fst (evaluated st))"
    using assms(1) by (simp add: search_ok_def)
  ultimately have fresh': "a \<notin> fst ` set (seen st)" by (metis image_set)
  then have "map_of (seen st) a = None" by (simp add: map_of_eq_None_iff)
  with assms(4) None obtain q where q: "quote token a = Inr q"
    "amountOut q \<ge> 0 \<and> priceAfter q > 0 \<and> feeValue q \<ge> 0 \<and> shortfallValue q \<ge> 0" "quote_eval x token a q = Inr v"
    "st' = \<lparr>seen = AList.update a q (seen st), evaluated = AList.update a v (evaluated st)\<rparr>"
    by (auto simp: quoted_def bind_ok_Inr_iff)
  have "good_eval quote x token a v" using quote_eval_good [of x token a q v quote, OF q(3,1)] assms(1) q(2) by (auto simp: search_ok_def)
  with assms(1-3) q(1,4) fresh fresh' show ?thesis by (auto simp: search_ok_def update_fresh)
qed

interpretation keeper_quotes: quoting "quoted quote x token" "search_ok quote x token bnd" "good_eval quote x token" bnd
  for quote x token bnd
  using quoted_step by unfold_locales blast

lemma swap_bound_Inr:
  assumes "swap_bound x token = Inr bnd" "0 \<le> kx_wallet0 x" "0 \<le> kx_wallet1 x" "0 < kx_p0 x" "0 < kx_p1 x"
    "0 \<le> maxSwapInputPpm (kx_limits x)" "0 \<le> maxSwapInputValue (kx_limits x)"
  shows "0 \<le> bnd"
    "bnd * PPM \<le> (if token = Token0 then kx_wallet0 x else kx_wallet1 x) * maxSwapInputPpm (kx_limits x)"
    "rawValue bnd (if token = Token0 then kx_p0 x else kx_p1 x) (if token = Token0 then kx_d0 x else kx_d1 x) \<le>
       maxSwapInputValue (kx_limits x)"
proof -
  define w where "w = (if token = Token0 then kx_wallet0 x else kx_wallet1 x)"
  define p where "p = (if token = Token0 then kx_p0 x else kx_p1 x)"
  define d where "d = (if token = Token0 then kx_d0 x else kx_d1 x)"
  let ?l = "kx_limits x"
  have n: "0 \<le> w" "0 < p" "0 \<le> maxSwapInputPpm ?l" "0 \<le> maxSwapInputValue ?l"
    using assms by (simp_all add: w_def p_def)
  have "0 \<le> bnd \<and> bnd * PPM \<le> w * maxSwapInputPpm ?l \<and> rawValue bnd p d \<le> maxSwapInputValue ?l"
  proof (cases "w = 0")
    case True
    then have "bnd = 0" using assms(1) by (auto simp: swap_bound_def w_def Let_def split: if_splits)
    with n True show ?thesis by (simp add: rawValue_def)
  next
    case False
    define share where "share = (w * maxSwapInputPpm ?l) sdiv PPM"
    define afford where "afford = (maxSwapInputValue ?l * 10 ^ d) sdiv p"
    have b: "bnd = (if share < afford then share else afford)"
      using assms(1) False n(2) unfolding swap_bound_def Let_def
      by (auto simp: w_def [symmetric] p_def [symmetric] d_def [symmetric] affordableRaw_def div_big_def share_def
        afford_def bind_ok_def)
    have s: "0 \<le> share" "share * PPM \<le> w * maxSwapInputPpm ?l"
      using n le_div_iff [of PPM share "w * maxSwapInputPpm ?l"]
      by (simp_all add: share_def sdiv_nonneg PPM_def pos_imp_zdiv_nonneg_iff mult.commute)
    have a: "0 \<le> afford" "afford * p \<le> maxSwapInputValue ?l * 10 ^ d"
      using n le_div_iff [of p afford "maxSwapInputValue ?l * 10 ^ d"]
      by (simp_all add: afford_def sdiv_nonneg pos_imp_zdiv_nonneg_iff mult.commute)
    have "bnd \<le> share" "bnd \<le> afford" "0 \<le> bnd" using b s(1) a(1) by auto
    then have 1: "bnd * PPM \<le> share * PPM" "bnd * p \<le> afford * p" "0 \<le> bnd * p"
      using n(2) by (auto intro!: mult_right_mono simp: PPM_def)
    then have "(bnd * p) div 10 ^ d \<le> (maxSwapInputValue ?l * 10 ^ d) div 10 ^ d"
      using a(2) by (intro zdiv_mono1) auto
    then have "rawValue bnd p d \<le> maxSwapInputValue ?l" using 1(3) by (simp add: rawValue_def sdiv_nonneg)
    with 1 s \<open>0 \<le> bnd\<close> show ?thesis by linarith
  qed
  then show "0 \<le> bnd"
    "bnd * PPM \<le> (if token = Token0 then kx_wallet0 x else kx_wallet1 x) * maxSwapInputPpm (kx_limits x)"
    "rawValue bnd (if token = Token0 then kx_p0 x else kx_p1 x) (if token = Token0 then kx_d0 x else kx_d1 x) \<le>
       maxSwapInputValue (kx_limits x)"
    by (simp_all add: w_def p_def d_def)
qed

lemma rawValue_mono:
  assumes "a \<le> b" "0 \<le> a" "0 \<le> p"
  shows "rawValue a p d \<le> rawValue b p d"
proof -
  have "a * p \<le> b * p" using assms by (simp add: mult_right_mono)
  then have "(a * p) div 10 ^ d \<le> (b * p) div 10 ^ d" by (rule zdiv_mono1) simp
  then show ?thesis using assms by (simp add: rawValue_def sdiv_nonneg)
qed

lemma search_swap_Inr:
  assumes "search_swap quote x token = Inr (r, st)" "swap_bound x token = Inr bnd" "0 \<le> bnd"
    "0 \<le> maxDeploymentValue (kx_limits x)"
  shows "search_ok quote x token bnd st \<and> length (evaluated st) \<le> 419 \<and>
    (\<forall>c. r = Some c \<longrightarrow> (\<exists>a v. 1 \<le> a \<and> a \<le> bnd \<and> good_eval quote x token a v \<and> ev_candidate v = Some c))"
proof -
  let ?st = "\<lparr>seen = [], evaluated = []\<rparr> :: search_state"
  have r: "(if bnd = 0 then Inr (None, ?st) else search_inputs (quoted quote x token) (kx_floor x) bnd ?st) = Inr (r, st)"
    using assms(1,2) by (simp add: search_swap_def Let_def)
  have ok: "search_ok quote x token bnd ?st" using assms(4) by (simp add: search_ok_def)
  show ?thesis
  proof (cases "bnd = 0")
    case True
    with r ok show ?thesis by auto
  next
    case False
    with r have "search_inputs (quoted quote x token) (kx_floor x) bnd ?st = Inr (r, st)" by simp
    from keeper_quotes.search_inputs_step [OF this ok] False assms(3) show ?thesis by simp
  qed
qed

lemma choose_candidate_Some:
  assumes "choose_candidate noSwap searched = Inr (Some c)"
  shows "noSwap = Some c \<or> (\<exists>st. searched = Inr (Some c, st))"
  using assms by (auto simp: choose_candidate_def split: sum.splits option.splits if_splits)

lemma no_swap_Some:
  assumes "no_swap_candidate x a0 a1 = Inr (Some c)" "0 \<le> maxDeploymentValue (kx_limits x)"
  shows "ck_swap c = None \<and> mint_fits_limits x (ob_sqrtPriceX96 (kx_obs x)) a0 a1 c"
proof -
  from assms(1) have "make_candidate x a0 a1 (ob_sqrtPriceX96 (kx_obs x)) None = Inr (Some c)"
    by (auto simp: no_swap_candidate_def bind_ok_Inr_iff split: option.splits bool.splits)
  with make_candidate_Some [OF this assms(2)] show ?thesis by simp
qed

lemma mint_fits_limits_mono:
  "mint_fits_limits x price a0 a1 c \<Longrightarrow> a0 \<le> b0 \<Longrightarrow> a1 \<le> b1 \<Longrightarrow> mint_fits_limits x price b0 b1 c"
  by (auto simp: mint_fits_limits_def)

text \<open>The specification of what \<open>construct\<close> returns.\<close>

definition candidate_fits ::
  "(token_side \<Rightarrow> int \<Rightarrow> SwapQuote res) \<Rightarrow> keeper_ctx \<Rightarrow> RangeKeeperCandidate \<Rightarrow> bool"
where
  "candidate_fits quote x c \<longleftrightarrow> (case ck_swap c of
      None \<Rightarrow> mint_fits_limits x (ob_sqrtPriceX96 (kx_obs x)) (kx_wallet0 x) (kx_wallet1 x) c
    | Some sw \<Rightarrow> swap_fits_limits quote x sw c \<and> 0 < sw_amountIn sw \<and>
        sw_amountIn sw * PPM \<le>
          (if sw_token sw = Token0 then kx_wallet0 x else kx_wallet1 x) * maxSwapInputPpm (kx_limits x) \<and>
        rawValue (sw_amountIn sw) (if sw_token sw = Token0 then kx_p0 x else kx_p1 x)
          (if sw_token sw = Token0 then kx_d0 x else kx_d1 x) \<le> maxSwapInputValue (kx_limits x))"

definition limits_ok :: "RangeKeeperLimits \<Rightarrow> bool" where
  "limits_ok l \<longleftrightarrow> 0 \<le> maxDeploymentValue l \<and> 0 \<le> maxSwapInputPpm l \<and> 0 \<le> maxSwapInputValue l"

lemma construct_Some:
  assumes c: "construct quote ob l d0 d1 rg k = Inr (Some c)" and l: "limits_ok l"
    and p: "price0 ob = Some p0" "price1 ob = Some p1" "0 < p0" "0 < p1"
    and w: "0 \<le> ob_wallet0 ob + released0 ob" "0 \<le> ob_wallet1 ob + released1 ob"
  shows "candidate_fits quote (keeper_context ob l d0 d1 rg k p0 p1) c"
proof -
  define x where "x = keeper_context ob l d0 d1 rg k p0 p1"
  have x: "kx_limits x = l" "kx_obs x = ob" "kx_p0 x = p0" "kx_p1 x = p1" "0 \<le> kx_wallet0 x" "0 \<le> kx_wallet1 x"
    using w by (simp_all add: x_def keeper_context_def Let_def)
  have l': "0 \<le> maxDeploymentValue l" "0 \<le> maxSwapInputPpm l" "0 \<le> maxSwapInputValue l"
    using l by (simp_all add: limits_ok_def)
  obtain fraction where f: "(if kx_total x > maxDeploymentValue l then div_big (maxDeploymentValue l * PPM) (kx_total x)
      else Inr PPM) = Inr fraction"
    using c p by (auto simp: construct_def Let_def x_def [symmetric] bind_ok_Inr_iff simp del: if_split)
  have fr: "0 \<le> fraction" "fraction \<le> PPM"
    using f cap_fraction [OF l'(1), of "kx_total x"] by (auto simp: div_big_Inr_iff PPM_def split: if_splits)
  define b0 where "b0 = (kx_wallet0 x * fraction) sdiv PPM"
  define b1 where "b1 = (kx_wallet1 x * fraction) sdiv PPM"
  have b: "b0 \<le> kx_wallet0 x" "b1 \<le> kx_wallet1 x"
    using scaled_le(2) [OF x(5) fr] scaled_le(2) [OF x(6) fr] by (simp_all add: b0_def b1_def)
  from c p f have "no_swap_candidate x b0 b1 = Inr (Some c) \<or> (\<exists>token st. search_swap quote x token = Inr (Some c, st))"
    by (auto simp: construct_def Let_def x_def [symmetric] b0_def [symmetric] b1_def [symmetric] bind_ok_Inr_iff
        dest!: choose_candidate_Some split: if_splits)
  then have "candidate_fits quote x c"
  proof (elim disjE exE)
    assume "no_swap_candidate x b0 b1 = Inr (Some c)"
    from no_swap_Some [OF this] x l' b show "candidate_fits quote x c"
      by (auto simp: candidate_fits_def intro: mint_fits_limits_mono)
  next
    fix token st
    assume s: "search_swap quote x token = Inr (Some c, st)"
    then obtain bnd where bnd: "swap_bound x token = Inr bnd" by (auto simp: search_swap_def bind_ok_Inr_iff)
    note sb = swap_bound_Inr [OF bnd, unfolded x, OF x(5,6) p(3,4) l'(2,3)]
    have "\<exists>a v. 1 \<le> a \<and> a \<le> bnd \<and> good_eval quote x token a v \<and> ev_candidate v = Some c"
      using search_swap_Inr [OF s bnd sb(1)] x(1) l'(1) by simp
    then obtain sw where sw: "ck_swap c = Some sw" "sw_token sw = token" "1 \<le> sw_amountIn sw" "sw_amountIn sw \<le> bnd"
      "swap_fits_limits quote x sw c" by (auto simp: good_eval_def)
    have "sw_amountIn sw * PPM \<le> bnd * PPM" using sw(4) by (simp add: PPM_def)
    then show "candidate_fits quote x c"
      using sw sb(2,3) x(1,3,4) p(3,4) rawValue_mono [OF sw(4), of "if token = Token0 then kx_p0 x else kx_p1 x"
          "if token = Token0 then kx_d0 x else kx_d1 x"]
      by (auto simp: candidate_fits_def split: if_splits)
  qed
  then show ?thesis by (simp add: x_def)
qed

text \<open>
  An orderly quoter: it answers every amount within the bound, at the frozen block, with sane
  figures that mints can be sized from, and more input never yields less output or a price
  that moved less.
\<close>

definition answered :: "(token_side \<Rightarrow> int \<Rightarrow> SwapQuote res) \<Rightarrow> keeper_ctx \<Rightarrow> token_side \<Rightarrow> int \<Rightarrow> bool" where
  "answered quote x token a \<longleftrightarrow> (\<exists>q v. quote token a = Inr q \<and> sourceBlock q = ob_block (kx_obs x) \<and>
     lower (sourceHash q) = lower (ob_hash (kx_obs x)) \<and> amountOut q \<ge> 0 \<and> priceAfter q > 0 \<and> feeValue q \<ge> 0 \<and>
     shortfallValue q \<ge> 0 \<and> quote_eval x token a q = Inr v)"

definition orderly :: "(token_side \<Rightarrow> int \<Rightarrow> SwapQuote res) \<Rightarrow> keeper_ctx \<Rightarrow> token_side \<Rightarrow> int \<Rightarrow> bool" where
  "orderly quote x token bnd \<longleftrightarrow> (\<forall>a. 1 \<le> a \<longrightarrow> a \<le> bnd \<longrightarrow> answered quote x token a) \<and>
     (\<forall>a b q r. quote token a = Inr q \<longrightarrow> quote token b = Inr r \<longrightarrow> 1 \<le> a \<longrightarrow> a \<le> b \<longrightarrow> b \<le> bnd \<longrightarrow>
        amountOut q \<le> amountOut r \<and>
        (if token = Token0 then priceAfter r \<le> priceAfter q else priceAfter q \<le> priceAfter r))"

lemma fold_check_ok:
  assumes "\<forall>e\<in>set xs. f () e = Inr ()"
  shows "fold_res f () xs = Inr ()"
  using assms by (induction xs) auto

lemma quoted_answers:
  assumes "search_ok quote x token bnd st" "orderly quote x token bnd" "1 \<le> a" "a \<le> bnd"
  shows "\<exists>v st'. quoted quote x token st a = Inr (v, st')"
proof (cases "map_of (evaluated st) a")
  case (Some v)
  then show ?thesis by (simp add: quoted_def)
next
  case None
  from assms(2-4) obtain q v where q: "quote token a = Inr q" "sourceBlock q = ob_block (kx_obs x)"
     "lower (sourceHash q) = lower (ob_hash (kx_obs x))" "amountOut q \<ge> 0" "priceAfter q > 0" "feeValue q \<ge> 0"
     "shortfallValue q \<ge> 0" "quote_eval x token a q = Inr v"
    unfolding orderly_def answered_def by blast
  have c: "(case map_of (seen st) a of Some q \<Rightarrow> Inr q | None \<Rightarrow> quote token a) = Inr q"
    using assms(1) q(1) by (auto simp: search_ok_def dest!: map_of_SomeD split: option.splits)
  have "check_monotone token a q () e = Inr ()" if e: "e \<in> set (seen st)" for e
  proof -
    obtain b r where b: "e = (b, r)" by fastforce
    with e assms(1) have r: "quote token b = Inr r" "b \<in> set (map fst (evaluated st))"
      unfolding search_ok_def by (force, metis image_eqI fst_conv set_map)
    with assms(1) have "1 \<le> b" "b \<le> bnd" by (auto simp: search_ok_def)
    moreover have "amountOut q \<le> amountOut r \<and>
        (if token = Token0 then priceAfter r \<le> priceAfter q else priceAfter q \<le> priceAfter r)" if "a \<le> b" "b \<le> bnd"
      using assms(2,3) q(1) r(1) that unfolding orderly_def by blast
    moreover have "amountOut r \<le> amountOut q \<and>
        (if token = Token0 then priceAfter q \<le> priceAfter r else priceAfter r \<le> priceAfter q)" if "1 \<le> b" "b \<le> a"
      using assms(2,4) q(1) r(1) that unfolding orderly_def by blast
    ultimately show ?thesis
      by (cases "a < b") (auto simp: check_monotone_def b Let_def)
  qed
  then have "fold_res (check_monotone token a q) () (seen st) = Inr ()" by (intro fold_check_ok) blast
  with None c q(2-8) show ?thesis by (simp add: quoted_def)
qed

interpretation keeper_answers: answering "quoted quote x token"
  "\<lambda>st. search_ok quote x token bnd st \<and> orderly quote x token bnd" "good_eval quote x token" bnd
  for quote x token bnd
  using quoted_step quoted_answers by unfold_locales blast+


text \<open>
  C34: a constructed candidate respects every limit.  Its mint is the one the position manager
  makes at a price strictly inside the range, with liquidity, and is worth at least the floor
  and at most the cap; what it offers is in the wallet after its swap; and its swap, if it has
  one, was quoted as stated, within the shortfall, share and value limits.
\<close>

theorem construct_respects_limits:
  assumes "construct quote ob l d0 d1 rg k = Inr (Some c)" "limits_ok l"
    "price0 ob = Some p0" "price1 ob = Some p1" "0 < p0" "0 < p1"
    "0 \<le> ob_wallet0 ob + released0 ob" "0 \<le> ob_wallet1 ob + released1 ob"
  shows "ck_kind c = k \<and> ck_range c = rg \<and> 0 < ck_liquidity c \<and>
    (maxDeploymentValue l * minDeploymentPpm l) sdiv PPM \<le> deployedValue c \<and> deployedValue c \<le> maxDeploymentValue l \<and>
    (\<exists>price m. sqrt_ratio (range_tickLower rg) < price \<and> price < sqrt_ratio (range_tickUpper rg) \<and>
       replayPaperMint price rg (amount0Desired c) (amount1Desired c) 0 = Inr m \<and> mint_liquidity m = ck_liquidity c \<and>
       rawValue (mint_amount0 m) p0 d0 + rawValue (mint_amount1 m) p1 d1 = deployedValue c) \<and>
    (case ck_swap c of
       None \<Rightarrow> amount0Desired c \<le> ob_wallet0 ob + released0 ob \<and> amount1Desired c \<le> ob_wallet1 ob + released1 ob
     | Some sw \<Rightarrow> \<exists>q. quote (sw_token sw) (sw_amountIn sw) = Inr q \<and> 0 < sw_amountIn sw \<and>
         shortfallValue q \<le> maxSwapShortfallValue l \<and>
         (case sw_token sw of
            Token0 \<Rightarrow> sw_amountIn sw * PPM \<le> (ob_wallet0 ob + released0 ob) * maxSwapInputPpm l \<and>
              rawValue (sw_amountIn sw) p0 d0 \<le> maxSwapInputValue l \<and>
              amount0Desired c \<le> ob_wallet0 ob + released0 ob - sw_amountIn sw \<and>
              amount1Desired c \<le> ob_wallet1 ob + released1 ob + amountOut q
          | Token1 \<Rightarrow> sw_amountIn sw * PPM \<le> (ob_wallet1 ob + released1 ob) * maxSwapInputPpm l \<and>
              rawValue (sw_amountIn sw) p1 d1 \<le> maxSwapInputValue l \<and>
              amount0Desired c \<le> ob_wallet0 ob + released0 ob + amountOut q \<and>
              amount1Desired c \<le> ob_wallet1 ob + released1 ob - sw_amountIn sw))"
proof -
  define x where "x = keeper_context ob l d0 d1 rg k p0 p1"
  have x: "kx_limits x = l" "kx_obs x = ob" "kx_p0 x = p0" "kx_p1 x = p1" "kx_d0 x = d0" "kx_d1 x = d1" "kx_range x = rg"
    "kx_kind x = k" "kx_wallet0 x = ob_wallet0 ob + released0 ob" "kx_wallet1 x = ob_wallet1 ob + released1 ob"
    "kx_floor x = (maxDeploymentValue l * minDeploymentPpm l) sdiv PPM"
    by (simp_all add: x_def keeper_context_def Let_def)
  have fit: "candidate_fits quote x c" unfolding x_def by (rule construct_Some [OF assms])
  have core: "ck_kind c = k \<and> ck_range c = rg \<and> 0 < ck_liquidity c \<and>
      (maxDeploymentValue l * minDeploymentPpm l) sdiv PPM \<le> deployedValue c \<and> deployedValue c \<le> maxDeploymentValue l \<and>
      (\<exists>price m. sqrt_ratio (range_tickLower rg) < price \<and> price < sqrt_ratio (range_tickUpper rg) \<and>
         replayPaperMint price rg (amount0Desired c) (amount1Desired c) 0 = Inr m \<and> mint_liquidity m = ck_liquidity c \<and>
         rawValue (mint_amount0 m) p0 d0 + rawValue (mint_amount1 m) p1 d1 = deployedValue c) \<and>
      amount0Desired c \<le> w0 \<and> amount1Desired c \<le> w1"
    if "mint_fits_limits x price w0 w1 c" for price w0 w1
  proof -
    from that have "ck_kind c = k" "ck_range c = rg" "0 < ck_liquidity c"
      "(maxDeploymentValue l * minDeploymentPpm l) sdiv PPM \<le> deployedValue c" "deployedValue c \<le> maxDeploymentValue l"
      "amount0Desired c \<le> w0" "amount1Desired c \<le> w1"
      "sqrt_ratio (range_tickLower (ck_range c)) < price" "price < sqrt_ratio (range_tickUpper (ck_range c))"
      unfolding mint_fits_limits_def x by blast+
    moreover from that obtain m where "replayPaperMint price (ck_range c) (amount0Desired c) (amount1Desired c) 0 = Inr m"
      "mint_liquidity m = ck_liquidity c" "rawValue (mint_amount0 m) p0 d0 + rawValue (mint_amount1 m) p1 d1 = deployedValue c"
      by (auto simp: mint_fits_limits_def mintValue_def x)
    ultimately show ?thesis by (intro conjI exI [of _ price] exI [of _ m]) simp_all
  qed
  show ?thesis
  proof (cases "ck_swap c")
    case None
    with fit have "mint_fits_limits x (ob_sqrtPriceX96 ob) (kx_wallet0 x) (kx_wallet1 x) c"
      by (simp add: candidate_fits_def x(2))
    from core [OF this] None show ?thesis by (simp add: x)
  next
    case (Some sw)
    with fit have sw: "swap_fits_limits quote x sw c" "0 < sw_amountIn sw"
      and lim: "sw_amountIn sw * PPM \<le> (if sw_token sw = Token0 then kx_wallet0 x else kx_wallet1 x) * maxSwapInputPpm l"
        "rawValue (sw_amountIn sw) (if sw_token sw = Token0 then p0 else p1) (if sw_token sw = Token0 then d0 else d1)
          \<le> maxSwapInputValue l"
      unfolding candidate_fits_def x(1-6) by simp_all
    from sw(1) obtain q where q: "quote (sw_token sw) (sw_amountIn sw) = Inr q" "shortfallValue q \<le> maxSwapShortfallValue l"
      and m: "mint_fits_limits x (priceAfter q)
        (if sw_token sw = Token0 then kx_wallet0 x - sw_amountIn sw else kx_wallet0 x + amountOut q)
        (if sw_token sw = Token1 then kx_wallet1 x - sw_amountIn sw else kx_wallet1 x + amountOut q) c"
      unfolding swap_fits_limits_def x(1) by blast
    from core [OF m] q sw(2) lim Some show ?thesis by (cases "sw_token sw") (simp_all add: x(9,10))
  qed
qed

subsection \<open>A sample run\<close>

text \<open>One token per unit of value, a pool at price one, and a wallet twice the cap.\<close>

definition sample_limits :: RangeKeeperLimits where
  "sample_limits = \<lparr>fullWidthSpacings = 2, maxDeploymentValue = 1000000, minDeploymentPpm = 500000,
     maxSwapInputValue = 1000000, maxSwapInputPpm = 500000, maxSwapShortfallValue = 1000, maxSlippageBps = 50,
     maxActionCost = 100, maxRollingCost = 1000, maxCampaignCost = 10000, maxExposurePpm = 600000,
     maxLossValue = 100000, lm_maxDrawdownPpm = 100000, maxRecenters = 0, maxLiquiditySharePpm = 100000,
     maxObservationGapSeconds = 90, exitReserveWei = 10\<rparr>"

definition sample_observation :: "int \<Rightarrow> int \<Rightarrow> keeper_position option \<Rightarrow> RangeKeeperObservation" where
  "sample_observation block time pos = \<lparr>ob_block = block, ob_hash = ''0xab'', ob_timestamp = time, ob_tick = 0,
     ob_sqrtPriceX96 = 2 ^ 96, ob_continuity = Canonical, ob_wallet0 = 1000000, ob_wallet1 = 1000000, released0 = 0,
     released1 = 0, nativeWei = 100, requiredExitReserveWei = Some 20, price0 = Some 1, price1 = Some 1,
     nativePrice = Some 1, ob_position = pos, pending = False, entryAllowed = True, safeExitRequired = False,
     executionReady = True, liquiditySharePpm = Some 1000, actionCost = Some 10, actionGasWei = Some 30,
     reservedCost = 0, rollingSpentCost = 0, campaignSpentCost = 0, campaignStartValue = 2000000,
     highWaterValue = 2000000, recenters = 0\<rparr>"

definition silent_quoter :: "token_side \<Rightarrow> int \<Rightarrow> SwapQuote res" where
  "silent_quoter token a = Inl ''no quote''"

definition sample_range :: TickRange where
  "sample_range = \<lparr>range_tickLower = - 60, range_tickUpper = 60\<rparr>"

definition sample_candidate :: "keeper_kind \<Rightarrow> int \<Rightarrow> int \<Rightarrow> RangeKeeperCandidate" where
  "sample_candidate k block time = \<lparr>ck_kind = k, ck_range = sample_range, ck_swap = None, amount0Desired = 500000,
     amount1Desired = 500000, amount0Min = 497500, amount1Min = 497500, ck_liquidity = 166925124,
     deployedValue = 1000000, ck_sourceBlock = block, ck_sourceHash = ''0xab'', expiresAt = time + 90\<rparr>"

lemma keeper_ratios: "sqrt_ratio (- 60) = 78990846045029531151608375686" "sqrt_ratio 60 = 79466191966197645195421774833"
  by (simp_all add: tick_eval)

lemma sample_mint: "replayPaperMint (2 ^ 96) sample_range 500000 500000 0 = Inr
    \<lparr>mint_liquidity = 166925124, mint_amount0 = 500000, mint_amount1 = 500000, idle0 = 0, idle1 = 0\<rparr>"
  by (simp add: sample_range_def replayPaperMint_Inr_iff mint_valid_def mint_liquidity_for_def mint_l0_def mint_l1_def
      Let_def keeper_ratios tick_consts Q128_def Q96_def sdiv_nonneg clamp_price_def amount0_at_def amount1_at_def
      round_div_def)

lemma sample_price_inside: "price_outside sample_range (2 ^ 96) = Inr False"
  by (simp add: price_outside_False sample_range_def keeper_ratios tick_consts)

lemma sample_context: "keeper_context (sample_observation block time pos) sample_limits 0 0 sample_range k 1 1 =
    \<lparr>kx_obs = sample_observation block time pos, kx_limits = sample_limits, kx_d0 = 0, kx_d1 = 0, kx_range = sample_range,
     kx_kind = k, kx_p0 = 1, kx_p1 = 1, kx_wallet0 = 1000000, kx_wallet1 = 1000000, kx_total = 2000000,
     kx_floor = 500000\<rparr>"
  by (simp add: keeper_context_def sample_observation_def sample_limits_def rawValue_def PPM_def sdiv_nonneg)

lemma sample_evaluate:
  "evaluate_mint (keeper_context (sample_observation block time pos) sample_limits 0 0 sample_range k 1 1) 500000 500000 (2 ^ 96) =
     Inr (Some (\<lparr>desired0 = 500000, desired1 = 500000, sized_mint = \<lparr>mint_liquidity = 166925124, mint_amount0 = 500000,
       mint_amount1 = 500000, idle0 = 0, idle1 = 0\<rparr>, deployed = 1000000\<rparr>, True))"
  unfolding sample_context evaluate_mint_def sizeRangeKeeperMint_def keeper_ctx.simps
  by (simp only: sample_price_inside sample_mint bind_ok_simps)
    (simp add: mintValue_def rawValue_def sdiv_nonneg sample_limits_def)

lemma sample_construct:
  "construct silent_quoter (sample_observation block time pos) sample_limits 0 0 sample_range k =
     Inr (Some (sample_candidate k block time))"
proof -
  let ?x = "keeper_context (sample_observation block time pos) sample_limits 0 0 sample_range k 1 1"
  have o: "price0 (sample_observation block time pos) = Some 1" "price1 (sample_observation block time pos) = Some 1"
    "ob_sqrtPriceX96 (sample_observation block time pos) = 2 ^ 96" "ob_block (sample_observation block time pos) = block"
    "ob_hash (sample_observation block time pos) = ''0xab''" "ob_timestamp (sample_observation block time pos) = time"
    by (simp_all add: sample_observation_def)
  have l: "maxDeploymentValue sample_limits = 1000000" "maxSlippageBps sample_limits = 50" by (simp_all add: sample_limits_def)
  have x: "kx_obs ?x = sample_observation block time pos" "kx_limits ?x = sample_limits" "kx_total ?x = 2000000"
    "kx_wallet0 ?x = 1000000" "kx_wallet1 ?x = 1000000" "kx_kind ?x = k" "kx_range ?x = sample_range"
    by (simp_all add: sample_context)
  have m: "make_candidate ?x 500000 500000 (2 ^ 96) None = Inr (Some (sample_candidate k block time))"
    unfolding make_candidate_def sample_evaluate x
    by (simp add: l o haircut_def sdiv_nonneg sample_candidate_def)
  have n: "no_swap_candidate ?x 500000 500000 = Inr (Some (sample_candidate k block time))"
    unfolding no_swap_candidate_def x o sample_evaluate by (simp only: m bind_ok_simps option.case prod.case bool.case)
  have d: "deployedValue (sample_candidate k block time) = 1000000" by (simp add: sample_candidate_def)
  show ?thesis unfolding construct_def o option.case prod.case Let_def x l
    by (simp add: div_big_def PPM_def sdiv_nonneg n d RANGEKEEPER_NEAR_PEAK_PPM_def)
qed

theorem construct_respects_limits_witness:
  "\<exists>c. construct silent_quoter (sample_observation 7 100 None) sample_limits 0 0 sample_range Entry = Inr (Some c) \<and>
     0 < ck_liquidity c \<and> deployedValue c \<le> 1000000"
proof -
  have "limits_ok sample_limits" "price0 (sample_observation 7 100 None) = Some 1" "price1 (sample_observation 7 100 None) = Some 1"
    "0 \<le> ob_wallet0 (sample_observation 7 100 None) + released0 (sample_observation 7 100 None)"
    "0 \<le> ob_wallet1 (sample_observation 7 100 None) + released1 (sample_observation 7 100 None)"
    "maxDeploymentValue sample_limits = 1000000"
    by (simp_all add: limits_ok_def sample_limits_def sample_observation_def)
  with construct_respects_limits [OF sample_construct [of 7 100 None Entry], of 1 1] sample_construct show ?thesis by auto
qed

text \<open>A quoter whose output is dust: every amount is answered and none supports a mint.\<close>

definition dust_quoter :: "token_side \<Rightarrow> int \<Rightarrow> SwapQuote res" where
  "dust_quoter token a = Inr \<lparr>amountOut = 0, priceAfter = 2 ^ 96, feeValue = 1, shortfallValue = 1, sourceBlock = 7,
     sourceHash = ''0xab''\<rparr>"


end
