(* ===== verification/Keeper_Plan.thy ===== *)
theory Keeper_Plan
  imports Keeper_Candidate "HOL-Library.Sublist"
begin

section \<open>RangeKeeper: the decision state machine\<close>

text \<open>
  The second half of \<open>src/strategy/rangekeeper/planner.ts\<close>: one observation advances the
  persisted timers and confirmation and returns a decision.  An early \<open>return\<close> is a left
  value, going on a right value, so the guards compose in the order of the source; a failed
  \<open>assert\<close> is the error of the outer result.  The quoter and the calldata simulation are
  parameters.
\<close>

datatype keeper_action = Wait | Safety_exit | Confirm | Execute

record keeper_source =
  ks_block :: int
  ks_hash :: string
  ks_timestamp :: int

record keeper_exit =
  kt_tokenId :: string
  kt_tickLower :: int
  kt_tickUpper :: int
  kt_block :: int
  kt_hash :: string
  since :: int
  lastOutsideAt :: int

record keeper_confirmation =
  cf_candidate :: RangeKeeperCandidate
  firstBlock :: int
  firstHash :: string
  firstAt :: int

record RangeKeeperState =
  st_configHash :: string
  st_buildId :: string
  lastEligible :: "keeper_source option"
  exit_timer :: "keeper_exit option"
  confirmation :: "keeper_confirmation option"

record keeper_budgets =
  bg_action :: int
  bg_rolling :: int
  bg_campaign :: int
  bg_nativeWei :: int

record RangeKeeperDecision =
  dc_action :: keeper_action
  dc_reason :: string
  dc_state :: RangeKeeperState
  dc_candidate :: "RangeKeeperCandidate option"
  dc_remaining :: keeper_budgets

record RangeKeeperPlannerInput =
  in_state :: RangeKeeperState
  in_observation :: RangeKeeperObservation
  in_limits :: RangeKeeperLimits
  in_spacing :: int
  in_decimals0 :: nat
  in_decimals1 :: nat
  in_quoteToken :: token_side
  maxPoolDeviationPpm :: int

text \<open>An early return: a decision, or a state with which to go on.\<close>

type_synonym plan_step = "RangeKeeperDecision + RangeKeeperState"

definition remaining :: "int \<Rightarrow> int \<Rightarrow> int" where
  "remaining limit spent = (if limit > spent then limit - spent else 0)"

definition exit_reserve :: "RangeKeeperPlannerInput \<Rightarrow> int option" where
  "exit_reserve inp = map_option
     (\<lambda>r. if exitReserveWei (in_limits inp) > r then exitReserveWei (in_limits inp) else r)
     (requiredExitReserveWei (in_observation inp))"

definition plan_budgets :: "RangeKeeperPlannerInput \<Rightarrow> keeper_budgets" where
  "plan_budgets inp = (let ob = in_observation inp; l = in_limits inp in
     \<lparr>bg_action = maxActionCost l,
      bg_rolling = remaining (maxRollingCost l) (rollingSpentCost ob + reservedCost ob),
      bg_campaign = remaining (maxCampaignCost l) (campaignSpentCost ob + reservedCost ob),
      bg_nativeWei = (case exit_reserve inp of None \<Rightarrow> 0 | Some r \<Rightarrow> remaining (nativeWei ob) r)\<rparr>)"

definition decide ::
  "RangeKeeperPlannerInput \<Rightarrow> RangeKeeperState \<Rightarrow> keeper_action \<Rightarrow> string \<Rightarrow> RangeKeeperCandidate option \<Rightarrow>
   RangeKeeperDecision"
where
  "decide inp s act reason cand = \<lparr>dc_action = act, dc_reason = reason, dc_state = s,
     dc_candidate = cand, dc_remaining = plan_budgets inp\<rparr>"

definition plan_asserts :: "RangeKeeperPlannerInput \<Rightarrow> unit res" where
  "plan_asserts inp = (let ob = in_observation inp in
     bind_ok (assertion (ob_block ob \<ge> 0 \<and> safe_integer (ob_timestamp ob) \<and> safe_integer (ob_tick ob))) (\<lambda>_.
     bind_ok (assertion (ob_sqrtPriceX96 ob > 0 \<and> maxPoolDeviationPpm inp > 0 \<and> maxPoolDeviationPpm inp \<le> 1000000)) (\<lambda>_.
     bind_ok (assertion (ob_wallet0 ob \<ge> 0 \<and> ob_wallet1 ob \<ge> 0 \<and> released0 ob \<ge> 0 \<and> released1 ob \<ge> 0 \<and> nativeWei ob \<ge> 0)) (\<lambda>_.
     bind_ok (assertion (case requiredExitReserveWei ob of None \<Rightarrow> True | Some r \<Rightarrow> r \<ge> 0)) (\<lambda>_.
     assertion (reservedCost ob \<ge> 0 \<and> rollingSpentCost ob \<ge> 0 \<and> campaignSpentCost ob \<ge> 0))))))"

fun continuity_text :: "continuity \<Rightarrow> string" where
  "continuity_text Canonical = ''canonical''"
| "continuity_text Gap = ''gap''"
| "continuity_text Reorg = ''reorg''"

definition plan_source :: "RangeKeeperPlannerInput \<Rightarrow> RangeKeeperState \<Rightarrow> plan_step" where
  "plan_source inp s = (let ob = in_observation inp in
     if ob_continuity ob \<noteq> Canonical
     then Inl (decide inp (s\<lparr>exit_timer := None, confirmation := None, lastEligible := None\<rparr>) Wait
       (''source_'' @ continuity_text (ob_continuity ob)) None)
     else if (case lastEligible s of None \<Rightarrow> False
              | Some e \<Rightarrow> ob_block ob \<le> ks_block e \<or> ob_timestamp ob \<le> ks_timestamp e)
     then Inl (decide inp s Wait ''duplicate_or_backward_observation'' None)
     else if safeExitRequired ob
     then Inl (decide inp (s\<lparr>confirmation := None\<rparr>) Safety_exit ''risk_exit_required'' None)
     else if pending ob then Inl (decide inp s Wait ''pending_transaction'' None)
     else Inr s)"

text \<open>The value of the strategy inventory, and the pool price of token 1 against the reference.\<close>

definition equity_of :: "RangeKeeperPlannerInput \<Rightarrow> int \<Rightarrow> int \<Rightarrow> int" where
  "equity_of inp p0 p1 = (let ob = in_observation inp in
     rawValue (ob_wallet0 ob + released0 ob) p0 (in_decimals0 inp) +
     rawValue (ob_wallet1 ob + released1 ob) p1 (in_decimals1 inp))"

definition pool_price1 :: "RangeKeeperPlannerInput \<Rightarrow> int \<Rightarrow> int" where
  "pool_price1 inp p0 = (let p = ob_sqrtPriceX96 (in_observation inp) in
     (2 ^ 192 * 10 ^ in_decimals1 inp * p0) sdiv (p * p * 10 ^ in_decimals0 inp))"

definition plan_value :: "RangeKeeperPlannerInput \<Rightarrow> RangeKeeperState \<Rightarrow> plan_step" where
  "plan_value inp s = (let ob = in_observation inp; l = in_limits inp in
     case (price0 ob, price1 ob) of
       (Some p0, Some p1) \<Rightarrow>
         if p0 > 0 \<and> p1 > 0 then
           let equityNow = equity_of inp p0 p1; poolPrice1 = pool_price1 inp p0;
               deviation = (if poolPrice1 > p1 then poolPrice1 - p1 else p1 - poolPrice1) in
           if campaignStartValue ob > equityNow \<and> campaignStartValue ob - equityNow > maxLossValue l
           then Inl (decide inp (s\<lparr>confirmation := None\<rparr>) Safety_exit ''loss_limit'' None)
           else if highWaterValue ob > equityNow \<and>
             (highWaterValue ob - equityNow) * PPM > highWaterValue ob * lm_maxDrawdownPpm l
           then Inl (decide inp (s\<lparr>confirmation := None\<rparr>) Safety_exit ''drawdown_limit'' None)
           else if deviation * PPM > p1 * maxPoolDeviationPpm inp
           then Inl (decide inp (s\<lparr>confirmation := None\<rparr>)
             (if ob_position ob \<noteq> None then Safety_exit else Wait) ''independent_price_band'' None)
           else Inr s
         else Inr s
     | _ \<Rightarrow> Inr s)"

text \<open>The exit timer of a position whose price left its range.\<close>

definition inside_range :: "RangeKeeperObservation \<Rightarrow> keeper_position \<Rightarrow> bool" where
  "inside_range ob p \<longleftrightarrow> ob_tick ob \<ge> kp_tickLower p \<and> ob_tick ob < kp_tickUpper p"

definition advance_exit :: "RangeKeeperPlannerInput \<Rightarrow> keeper_position \<Rightarrow> RangeKeeperState \<Rightarrow> RangeKeeperState" where
  "advance_exit inp p s = (let ob = in_observation inp;
       fresh = s\<lparr>exit_timer := Some \<lparr>kt_tokenId = kp_tokenId p, kt_tickLower = kp_tickLower p,
         kt_tickUpper = kp_tickUpper p, kt_block = ob_block ob, kt_hash = ob_hash ob, since = ob_timestamp ob,
         lastOutsideAt = ob_timestamp ob\<rparr>, confirmation := None\<rparr> in
     case exit_timer s of
       None \<Rightarrow> fresh
     | Some e \<Rightarrow>
         let matches = (kt_tokenId e = kp_tokenId p \<and> kt_tickLower e = kp_tickLower p \<and> kt_tickUpper e = kp_tickUpper p);
             gap = ob_timestamp ob - lastOutsideAt e in
         if \<not> matches \<or> gap < 0 \<or> gap > maxObservationGapSeconds (in_limits inp) then fresh
         else s\<lparr>exit_timer := Some (e\<lparr>lastOutsideAt := ob_timestamp ob\<rparr>)\<rparr>)"

definition plan_position :: "RangeKeeperPlannerInput \<Rightarrow> RangeKeeperState \<Rightarrow> plan_step" where
  "plan_position inp s = (let ob = in_observation inp in case ob_position ob of
       None \<Rightarrow> Inr (s\<lparr>exit_timer := None\<rparr>)
     | Some p \<Rightarrow>
         if inside_range ob p
         then Inl (decide inp (s\<lparr>exit_timer := None, confirmation := None\<rparr>) Wait ''inside_range'' None)
         else let s1 = advance_exit inp p s in
           if (case exit_timer s1 of None \<Rightarrow> False | Some e \<Rightarrow> ob_timestamp ob - since e < 300)
           then Inl (decide inp s1 Wait ''exit_persistence'' None)
           else Inr s1)"

definition plan_interval :: "RangeKeeperPlannerInput \<Rightarrow> RangeKeeperState \<Rightarrow> plan_step" where
  "plan_interval inp s = (let ob = in_observation inp in
     if (case lastEligible s of None \<Rightarrow> False | Some e \<Rightarrow> ob_timestamp ob - ks_timestamp e < 30)
     then Inl (decide inp s Wait ''decision_interval'' None)
     else Inr (s\<lparr>lastEligible := Some \<lparr>ks_block = ob_block ob, ks_hash = ob_hash ob, ks_timestamp = ob_timestamp ob\<rparr>\<rparr>))"

text \<open>The gates before a candidate is built; the state no longer changes in them.\<close>

definition above :: "int option \<Rightarrow> int \<Rightarrow> bool" where
  "above x limit \<longleftrightarrow> (case x of None \<Rightarrow> True | Some n \<Rightarrow> n > limit)"

definition priced :: "int option \<Rightarrow> bool" where
  "priced x \<longleftrightarrow> (case x of None \<Rightarrow> False | Some n \<Rightarrow> n > 0)"

definition plan_gates :: "RangeKeeperPlannerInput \<Rightarrow> RangeKeeperState \<Rightarrow> plan_step" where
  "plan_gates inp s = (let ob = in_observation inp; l = in_limits inp; b = plan_budgets inp;
       wait = (\<lambda>reason. Inl (decide inp s Wait reason None)) in
     if \<not> entryAllowed ob \<or> \<not> executionReady ob then wait ''entry_or_execution_gate''
     else if \<not> priced (price0 ob) \<or> \<not> priced (price1 ob) \<or> \<not> priced (nativePrice ob)
     then wait ''independent_reference_unavailable''
     else if actionCost ob = None \<or> actionGasWei ob = None then wait ''complete_action_cost_unavailable''
     else if exit_reserve inp = None then wait ''complete_exit_reserve_unavailable''
     else if above (liquiditySharePpm ob) (maxLiquiditySharePpm l) then wait ''liquidity_share_limit''
     else if equity_of inp (the (price0 ob)) (the (price1 ob)) = 0 then wait ''no_strategy_inventory''
     else if ob_position ob \<noteq> None \<and> maxRecenters l > 0 \<and> recenters ob \<ge> maxRecenters l
     then wait ''recenter_count_limit''
     else if above (actionCost ob) (bg_action b) \<or> above (actionCost ob) (bg_rolling b) \<or>
       above (actionCost ob) (bg_campaign b) then wait ''cost_limit''
     else if nativeWei ob < the (actionGasWei ob) + the (exit_reserve inp) then wait ''native_exit_reserve''
     else Inr s)"

definition keeper_kind_of :: "RangeKeeperObservation \<Rightarrow> keeper_kind" where
  "keeper_kind_of ob = (if ob_position ob \<noteq> None then Recenter else Entry)"

definition plan_candidate ::
  "(token_side \<Rightarrow> int \<Rightarrow> SwapQuote res) \<Rightarrow> RangeKeeperPlannerInput \<Rightarrow> RangeKeeperCandidate option res"
where
  "plan_candidate quote inp =
     (let ob = in_observation inp; l = in_limits inp in
      bind_ok (rangeKeeperRange (ob_tick ob) (in_spacing inp) (fullWidthSpacings l)) (\<lambda>rg.
        construct quote ob l (in_decimals0 inp) (in_decimals1 inp) rg (keeper_kind_of ob)))"

text \<open>The inventory after the candidate's swap, and the exposure to the token that is not the quote.\<close>

definition next_inventory :: "RangeKeeperObservation \<Rightarrow> RangeKeeperCandidate \<Rightarrow> int \<times> int" where
  "next_inventory ob c =
     (ob_wallet0 ob + released0 ob + (case ck_swap c of None \<Rightarrow> 0 | Some sw \<Rightarrow>
        if sw_token sw = Token0 then - sw_amountIn sw else quotedOut sw),
      ob_wallet1 ob + released1 ob + (case ck_swap c of None \<Rightarrow> 0 | Some sw \<Rightarrow>
        if sw_token sw = Token1 then - sw_amountIn sw else quotedOut sw))"

definition exposure_exceeded :: "RangeKeeperPlannerInput \<Rightarrow> RangeKeeperCandidate \<Rightarrow> bool" where
  "exposure_exceeded inp c = (let ob = in_observation inp; p0 = the (price0 ob); p1 = the (price1 ob);
       (next0, next1) = next_inventory ob c;
       v0 = rawValue next0 p0 (in_decimals0 inp); v1 = rawValue next1 p1 (in_decimals1 inp);
       nextEquity = v0 + v1; nextRisk = (if in_quoteToken inp = Token0 then v1 else v0) in
     nextEquity \<le> 0 \<or> nextRisk * PPM > nextEquity * maxExposurePpm (in_limits inp))"

text \<open>
  \<open>candidatePolicyIdentity\<close> joins these parts to a string with colons; the parts are a closed set of
  words and integers, so equal strings are equal parts.
\<close>

definition candidatePolicyIdentity :: "RangeKeeperCandidate \<Rightarrow> keeper_kind \<times> int \<times> int \<times> token_side option" where
  "candidatePolicyIdentity c =
     (ck_kind c, range_tickLower (ck_range c), range_tickUpper (ck_range c), map_option sw_token (ck_swap c))"

definition confirmed :: "RangeKeeperPlannerInput \<Rightarrow> RangeKeeperState \<Rightarrow> RangeKeeperCandidate \<Rightarrow> bool" where
  "confirmed inp s c \<longleftrightarrow> (let ob = in_observation inp in case confirmation s of
       None \<Rightarrow> False
     | Some prior \<Rightarrow> ob_timestamp ob - firstAt prior \<le> maxObservationGapSeconds (in_limits inp) \<and>
         ob_block ob > firstBlock prior \<and>
         candidatePolicyIdentity (cf_candidate prior) = candidatePolicyIdentity c)"

definition plan_confirm ::
  "(RangeKeeperCandidate \<Rightarrow> bool res) \<Rightarrow> RangeKeeperPlannerInput \<Rightarrow> RangeKeeperState \<Rightarrow> RangeKeeperCandidate \<Rightarrow>
   RangeKeeperDecision"
where
  "plan_confirm simulate inp s c = (let ob = in_observation inp in
     if (case ck_swap c of None \<Rightarrow> False
         | Some sw \<Rightarrow> sw_feeValue sw + sw_shortfallValue sw > the (actionCost ob))
     then decide inp s Wait ''incomplete_cost_quote'' None
     else if exposure_exceeded inp c then decide inp s Wait ''resulting_exposure_limit'' None
     else case simulate c of
         Inl _ \<Rightarrow> decide inp s Wait ''calldata_simulation_unavailable'' None
       | Inr False \<Rightarrow> decide inp s Wait ''calldata_simulation_failed'' None
       | Inr True \<Rightarrow>
           if confirmed inp s c
           then decide inp (s\<lparr>confirmation := None\<rparr>) Execute ''two_confirmations'' (Some c)
           else decide inp (s\<lparr>confirmation := Some \<lparr>cf_candidate = c, firstBlock = ob_block ob,
             firstHash = ob_hash ob, firstAt = ob_timestamp ob\<rparr>\<rparr>) Confirm ''first_confirmation'' (Some c))"

definition plan_action ::
  "(token_side \<Rightarrow> int \<Rightarrow> SwapQuote res) \<Rightarrow> (RangeKeeperCandidate \<Rightarrow> bool res) \<Rightarrow> RangeKeeperPlannerInput \<Rightarrow>
   RangeKeeperState \<Rightarrow> RangeKeeperDecision"
where
  "plan_action quote simulate inp s = (case plan_candidate quote inp of
      Inl _ \<Rightarrow> decide inp s Wait ''construction_unproven'' None
    | Inr None \<Rightarrow> decide inp s Wait ''inventory_deployment_unfeasible'' None
    | Inr (Some c) \<Rightarrow> plan_confirm simulate inp s c)"

definition planRangeKeeper ::
  "(token_side \<Rightarrow> int \<Rightarrow> SwapQuote res) \<Rightarrow> (RangeKeeperCandidate \<Rightarrow> bool res) \<Rightarrow> RangeKeeperPlannerInput \<Rightarrow>
   RangeKeeperDecision res"
where
  "planRangeKeeper quote simulate inp = bind_ok (plan_asserts inp) (\<lambda>_.
     Inr (case bind_ok (plan_source inp (in_state inp)) (\<lambda>s1. bind_ok (plan_value inp s1) (\<lambda>s2.
             bind_ok (plan_position inp s2) (\<lambda>s3. bind_ok (plan_interval inp s3) (plan_gates inp)))) of
         Inl d \<Rightarrow> d
       | Inr s \<Rightarrow> plan_action quote simulate inp s))"

text \<open>
  The caller persists the state of every decision and hands it to the next observation: a trace
  lists inputs and decisions, newest first, from a state without confirmation or timer.
\<close>

inductive keeper_trace :: "(RangeKeeperPlannerInput \<times> RangeKeeperDecision) list \<Rightarrow> RangeKeeperState \<Rightarrow> bool" where
  trace_start: "confirmation s = None \<Longrightarrow> exit_timer s = None \<Longrightarrow> keeper_trace [] s"
| trace_step: "keeper_trace h s \<Longrightarrow> in_state inp = s \<Longrightarrow> planRangeKeeper quote simulate inp = Inr d \<Longrightarrow>
    keeper_trace ((inp, d) # h) (dc_state d)"

inductive_simps keeper_trace_Nil: "keeper_trace [] s"
inductive_cases keeper_trace_ConsE: "keeper_trace ((inp, d) # h) s"

subsection \<open>The stages\<close>

lemma decide_fields [simp]:
  "dc_action (decide inp s act reason c) = act" "dc_reason (decide inp s act reason c) = reason"
  "dc_state (decide inp s act reason c) = s" "dc_candidate (decide inp s act reason c) = c"
  by (simp_all add: decide_def)

text \<open>What an early return leaves of confirmation and timer.\<close>

definition quiet :: "RangeKeeperState \<Rightarrow> RangeKeeperDecision \<Rightarrow> bool" where
  "quiet s d \<longleftrightarrow> (dc_action d = Wait \<and> confirmation (dc_state d) \<in> {None, confirmation s} \<or>
     dc_action d = Safety_exit \<and> confirmation (dc_state d) = None) \<and> dc_candidate d = None"

lemma plan_source_cases:
  assumes "plan_source inp s = r"
  shows "(\<exists>d. r = Inl d \<and> quiet s d \<and> (exit_timer (dc_state d) = None \<or>
      exit_timer (dc_state d) = exit_timer s \<and> ob_continuity (in_observation inp) = Canonical) \<and>
      dc_reason d \<noteq> ''inside_range'') \<or>
    r = Inr s \<and> ob_continuity (in_observation inp) = Canonical \<and> \<not> pending (in_observation inp) \<and>
      \<not> safeExitRequired (in_observation inp) \<and>
      (\<forall>e. lastEligible s = Some e \<longrightarrow> ks_block e < ob_block (in_observation inp) \<and>
        ks_timestamp e < ob_timestamp (in_observation inp))"
  using assms by (auto simp: plan_source_def quiet_def Let_def split: if_splits option.splits)

lemma plan_value_cases:
  assumes "plan_value inp s = r"
  shows "(\<exists>d. r = Inl d \<and> quiet s d \<and> exit_timer (dc_state d) = exit_timer s \<and> dc_reason d \<noteq> ''inside_range'') \<or> r = Inr s"
  using assms by (auto simp: plan_value_def quiet_def Let_def split: if_splits option.splits)

lemma plan_interval_cases:
  assumes "plan_interval inp s = r"
  shows "(\<exists>d. r = Inl d \<and> quiet s d \<and> exit_timer (dc_state d) = exit_timer s \<and> dc_reason d \<noteq> ''inside_range'') \<or>
    (\<exists>e. r = Inr (s\<lparr>lastEligible := e\<rparr>))"
  using assms by (auto simp: plan_interval_def quiet_def Let_def split: if_splits option.splits)

lemma plan_gates_cases:
  assumes "plan_gates inp s = r"
  shows "(\<exists>d. r = Inl d \<and> quiet s d \<and> exit_timer (dc_state d) = exit_timer s \<and> dc_reason d \<noteq> ''inside_range'') \<or> r = Inr s"
  using assms by (auto simp: plan_gates_def quiet_def Let_def split: if_splits)

text \<open>The timer after an observation outside the range of a position.\<close>

definition timed :: "RangeKeeperPlannerInput \<Rightarrow> keeper_position \<Rightarrow> keeper_exit option \<Rightarrow> keeper_exit \<Rightarrow> bool" where
  "timed inp p before e \<longleftrightarrow> kt_tokenId e = kp_tokenId p \<and> kt_tickLower e = kp_tickLower p \<and>
     kt_tickUpper e = kp_tickUpper p \<and> lastOutsideAt e = ob_timestamp (in_observation inp) \<and>
     (since e = ob_timestamp (in_observation inp) \<or>
      (\<exists>e0. before = Some e0 \<and> e = e0\<lparr>lastOutsideAt := ob_timestamp (in_observation inp)\<rparr> \<and>
        0 \<le> ob_timestamp (in_observation inp) - lastOutsideAt e0 \<and>
        ob_timestamp (in_observation inp) - lastOutsideAt e0 \<le> maxObservationGapSeconds (in_limits inp)))"

lemma advance_exit_cases:
  "\<exists>e. exit_timer (advance_exit inp p s) = Some e \<and> timed inp p (exit_timer s) e \<and>
     confirmation (advance_exit inp p s) \<in> {None, confirmation s}"
proof (cases "exit_timer s")
  case None
  then show ?thesis by (simp add: advance_exit_def timed_def Let_def)
next
  case (Some e)
  then show ?thesis by (simp add: advance_exit_def timed_def Let_def)
qed

lemma plan_position_cases:
  assumes "plan_position inp s = r"
  shows "(\<exists>d. r = Inl d \<and> quiet s d \<and> (exit_timer (dc_state d) = None \<or>
      (\<exists>p e. ob_position (in_observation inp) = Some p \<and> \<not> inside_range (in_observation inp) p \<and>
        exit_timer (dc_state d) = Some e \<and> timed inp p (exit_timer s) e \<and> dc_reason d \<noteq> ''inside_range''))) \<or>
    (\<exists>s'. r = Inr s' \<and> confirmation s' \<in> {None, confirmation s} \<and>
      (case ob_position (in_observation inp) of None \<Rightarrow> exit_timer s' = None
       | Some p \<Rightarrow> \<not> inside_range (in_observation inp) p \<and> (\<exists>e. exit_timer s' = Some e \<and> timed inp p (exit_timer s) e \<and>
           300 \<le> ob_timestamp (in_observation inp) - since e)))"
proof (cases "ob_position (in_observation inp)")
  case None
  with assms show ?thesis by (auto simp: plan_position_def Let_def)
next
  case (Some p)
  obtain e where e: "exit_timer (advance_exit inp p s) = Some e" "timed inp p (exit_timer s) e"
     "confirmation (advance_exit inp p s) \<in> {None, confirmation s}" using advance_exit_cases by blast
  with Some assms show ?thesis by (auto simp: plan_position_def quiet_def Let_def split: if_splits)
qed

text \<open>The gates a decision to act has passed.\<close>

definition gates_open :: "RangeKeeperPlannerInput \<Rightarrow> bool" where
  "gates_open inp \<longleftrightarrow> (let ob = in_observation inp; l = in_limits inp in
     entryAllowed ob \<and> executionReady ob \<and>
     (\<exists>p0 p1 pn cost gas reserve share. price0 ob = Some p0 \<and> 0 < p0 \<and> price1 ob = Some p1 \<and> 0 < p1 \<and>
        nativePrice ob = Some pn \<and> 0 < pn \<and> actionCost ob = Some cost \<and> actionGasWei ob = Some gas \<and>
        requiredExitReserveWei ob = Some reserve \<and> liquiditySharePpm ob = Some share \<and>
        share \<le> maxLiquiditySharePpm l \<and> equity_of inp p0 p1 \<noteq> 0 \<and>
        cost \<le> maxActionCost l \<and> cost \<le> remaining (maxRollingCost l) (rollingSpentCost ob + reservedCost ob) \<and>
        cost \<le> remaining (maxCampaignCost l) (campaignSpentCost ob + reservedCost ob) \<and>
        gas + reserve \<le> nativeWei ob \<and> gas + exitReserveWei l \<le> nativeWei ob) \<and>
     \<not> (ob_position ob \<noteq> None \<and> 0 < maxRecenters l \<and> maxRecenters l \<le> recenters ob))"

lemma plan_gates_Inr: "plan_gates inp s = Inr s' \<Longrightarrow> gates_open inp"
  by (auto simp: plan_gates_def gates_open_def Let_def above_def priced_def plan_budgets_def exit_reserve_def
      split: if_splits option.splits)

text \<open>A candidate that passed the last checks: executed when confirmed, else the new confirmation.\<close>

definition acted ::
  "(RangeKeeperCandidate \<Rightarrow> bool res) \<Rightarrow> RangeKeeperPlannerInput \<Rightarrow> RangeKeeperState \<Rightarrow> RangeKeeperCandidate \<Rightarrow>
   RangeKeeperDecision \<Rightarrow> bool"
where
  "acted simulate inp s c d \<longleftrightarrow> dc_candidate d = Some c \<and> simulate c = Inr True \<and> \<not> exposure_exceeded inp c \<and>
     (\<forall>sw. ck_swap c = Some sw \<longrightarrow> sw_feeValue sw + sw_shortfallValue sw \<le> the (actionCost (in_observation inp))) \<and>
     (if confirmed inp s c then dc_action d = Execute \<and> confirmation (dc_state d) = None
      else dc_action d = Confirm \<and> confirmation (dc_state d) = Some \<lparr>cf_candidate = c,
        firstBlock = ob_block (in_observation inp), firstHash = ob_hash (in_observation inp),
        firstAt = ob_timestamp (in_observation inp)\<rparr>)"

lemma plan_confirm_cases:
  assumes "plan_confirm simulate inp s c = d"
  shows "exit_timer (dc_state d) = exit_timer s \<and> dc_reason d \<noteq> ''inside_range'' \<and>
    (quiet s d \<or> acted simulate inp s c d)"
proof -
  define bad where "bad \<longleftrightarrow> (case ck_swap c of None \<Rightarrow> False
         | Some sw \<Rightarrow> sw_feeValue sw + sw_shortfallValue sw > the (actionCost (in_observation inp)))"
  note d = assms [symmetric, unfolded plan_confirm_def Let_def bad_def [symmetric]]
  show ?thesis
  proof (cases "bad \<or> exposure_exceeded inp c \<or> simulate c \<noteq> Inr True")
    case True
    then show ?thesis unfolding d by (cases "simulate c" rule: sum.exhaust) (auto simp: quiet_def split: bool.splits)
  next
    case False
    then have "\<forall>sw. ck_swap c = Some sw \<longrightarrow> sw_feeValue sw + sw_shortfallValue sw \<le> the (actionCost (in_observation inp))"
      by (auto simp: bad_def)
    with False show ?thesis unfolding d acted_def by simp
  qed
qed

lemma plan_action_cases:
  assumes "plan_action quote simulate inp s = d"
  shows "exit_timer (dc_state d) = exit_timer s \<and> dc_reason d \<noteq> ''inside_range'' \<and>
    (quiet s d \<or> (\<exists>c. plan_candidate quote inp = Inr (Some c) \<and> acted simulate inp s c d))"
proof (cases "\<exists>c. plan_candidate quote inp = Inr (Some c)")
  case True
  with assms plan_confirm_cases show ?thesis by (fastforce simp: plan_action_def)
next
  case False
  with assms show ?thesis by (auto simp: plan_action_def quiet_def split: sum.splits option.splits)
qed

lemma quiet_later: "quiet s' d \<Longrightarrow> confirmation s' \<in> {None, confirmation s} \<Longrightarrow> quiet s d"
  by (auto simp: quiet_def)

definition timer_step :: "RangeKeeperPlannerInput \<Rightarrow> RangeKeeperDecision \<Rightarrow> bool" where
  "timer_step inp d \<longleftrightarrow> exit_timer (dc_state d) = None \<or>
     ob_continuity (in_observation inp) = Canonical \<and> dc_reason d \<noteq> ''inside_range'' \<and>
     (exit_timer (dc_state d) = exit_timer (in_state inp) \<or>
      (\<exists>p e. ob_position (in_observation inp) = Some p \<and> \<not> inside_range (in_observation inp) p \<and>
         exit_timer (dc_state d) = Some e \<and> timed inp p (exit_timer (in_state inp)) e))"

lemma bind_ok_assoc: "bind_ok (bind_ok m f) g = bind_ok m (\<lambda>x. bind_ok (f x) g)"
  by (cases m) simp_all

text \<open>The state that the timer of a position reaches, once the position stage is passed.\<close>

definition timer_ready :: "RangeKeeperPlannerInput \<Rightarrow> keeper_exit option \<Rightarrow> bool" where
  "timer_ready inp t \<longleftrightarrow> (case ob_position (in_observation inp) of None \<Rightarrow> t = None
     | Some p \<Rightarrow> \<not> inside_range (in_observation inp) p \<and> (\<exists>e. t = Some e \<and>
         timed inp p (exit_timer (in_state inp)) e \<and> 300 \<le> ob_timestamp (in_observation inp) - since e))"

definition quiet_source :: "RangeKeeperObservation \<Rightarrow> bool" where
  "quiet_source ob \<longleftrightarrow> ob_continuity ob = Canonical \<and> \<not> pending ob \<and> \<not> safeExitRequired ob"

lemma plan_early_cases:
  assumes "bind_ok (bind_ok (plan_source inp (in_state inp)) (plan_value inp)) (plan_position inp) = r"
  shows "(\<exists>d. r = Inl d \<and> quiet (in_state inp) d \<and> timer_step inp d) \<or>
    (\<exists>s. r = Inr s \<and> confirmation s \<in> {None, confirmation (in_state inp)} \<and> timer_ready inp (exit_timer s) \<and>
      quiet_source (in_observation inp))"
proof (cases "plan_source inp (in_state inp)")
  case (Inl e)
  with plan_source_cases [OF Inl] assms show ?thesis by (auto simp: timer_step_def)
next
  case (Inr s1)
  with plan_source_cases [OF Inr] have s1: "s1 = in_state inp" "quiet_source (in_observation inp)"
    by (auto simp: quiet_source_def)
  show ?thesis
  proof (cases "plan_value inp s1")
    case (Inl e)
    with plan_value_cases [OF Inl] Inr s1 assms \<open>plan_source inp (in_state inp) = Inr s1\<close> show ?thesis
      by (auto simp: timer_step_def quiet_source_def)
  next
    case (Inr s2)
    with plan_value_cases [OF Inr] s1 have "s2 = in_state inp" by auto
    with assms Inr \<open>plan_source inp (in_state inp) = Inr s1\<close> have "plan_position inp (in_state inp) = r" by simp
    from plan_position_cases [OF this] s1(2) show ?thesis
      by (auto simp: timer_step_def timer_ready_def quiet_source_def)
  qed
qed

lemma plan_late_cases:
  assumes "d = (case bind_ok (plan_interval inp s) (plan_gates inp) of Inl d \<Rightarrow> d | Inr s \<Rightarrow> plan_action quote simulate inp s)"
  shows "exit_timer (dc_state d) = exit_timer s \<and> dc_reason d \<noteq> ''inside_range'' \<and>
    (quiet s d \<or> (\<exists>s' c. confirmation s' = confirmation s \<and> gates_open inp \<and>
      plan_candidate quote inp = Inr (Some c) \<and> acted simulate inp s' c d))"
proof (cases "plan_interval inp s")
  case (Inl e)
  with plan_interval_cases [OF Inl] assms show ?thesis by auto
next
  case (Inr s1)
  with plan_interval_cases [OF Inr] have s1: "exit_timer s1 = exit_timer s" "confirmation s1 = confirmation s" by auto
  show ?thesis
  proof (cases "plan_gates inp s1")
    case (Inl e)
    with plan_gates_cases [OF Inl] s1 assms Inr show ?thesis by (auto simp: quiet_def)
  next
    case (Inr s2)
    with plan_gates_cases [OF Inr] plan_gates_Inr [OF Inr] assms \<open>plan_interval inp s = Inr s1\<close>
    have "plan_action quote simulate inp s1 = d" "gates_open inp" by auto
    from plan_action_cases [OF this(1)] this(2) s1 show ?thesis by (auto simp: quiet_def)
  qed
qed

text \<open>A decision is an early return, or every stage passed and the candidate was acted on.\<close>

lemma planRangeKeeper_cases:
  assumes "planRangeKeeper quote simulate inp = Inr d"
  shows "plan_asserts inp = Inr () \<and> timer_step inp d \<and> (quiet (in_state inp) d \<or>
    (\<exists>s c. confirmation s \<in> {None, confirmation (in_state inp)} \<and> gates_open inp \<and> quiet_source (in_observation inp) \<and>
       timer_ready inp (exit_timer (dc_state d)) \<and> plan_candidate quote inp = Inr (Some c) \<and> acted simulate inp s c d))"
proof -
  define r where "r = bind_ok (bind_ok (plan_source inp (in_state inp)) (plan_value inp)) (plan_position inp)"
  have d: "plan_asserts inp = Inr ()"
    "d = (case bind_ok r (\<lambda>s. bind_ok (plan_interval inp s) (plan_gates inp)) of
      Inl d \<Rightarrow> d | Inr s \<Rightarrow> plan_action quote simulate inp s)"
    using assms by (auto simp: planRangeKeeper_def bind_ok_Inr_iff r_def bind_ok_assoc)
  note early = plan_early_cases [OF r_def [symmetric]]
  show ?thesis
  proof (cases r)
    case (Inl e)
    with early d show ?thesis by auto
  next
    case (Inr s)
    with early have s: "confirmation s \<in> {None, confirmation (in_state inp)}" "timer_ready inp (exit_timer s)"
      "quiet_source (in_observation inp)" by auto
    have late: "d = (case bind_ok (plan_interval inp s) (plan_gates inp) of
        Inl d \<Rightarrow> d | Inr s \<Rightarrow> plan_action quote simulate inp s)" using d(2) Inr by simp
    note l = plan_late_cases [OF late]
    have "timer_step inp d"
      using l s(2,3) by (auto simp: timer_step_def timer_ready_def quiet_source_def split: option.splits)
    with d(1) l s quiet_later [OF _ s(1)] show ?thesis by metis
  qed
qed

subsection \<open>One decision\<close>

lemma acted_decision:
  assumes "planRangeKeeper quote simulate inp = Inr d" "dc_action d = Execute \<or> dc_action d = Confirm"
  obtains s c where "confirmation s \<in> {None, confirmation (in_state inp)}" "gates_open inp"
    "quiet_source (in_observation inp)" "timer_ready inp (exit_timer (dc_state d))"
    "plan_candidate quote inp = Inr (Some c)" "acted simulate inp s c d"
proof -
  have "\<not> quiet (in_state inp) d" using assms(2) by (auto simp: quiet_def)
  with planRangeKeeper_cases [OF assms(1)] that show thesis by blast
qed

lemma candidate_fits_mint:
  "candidate_fits quote x c \<Longrightarrow> \<exists>price w0 w1. mint_fits_limits x price w0 w1 c"
  unfolding candidate_fits_def swap_fits_limits_def by (cases "ck_swap c") auto

lemma remaining_covers: "cost \<le> remaining limit spent \<Longrightarrow> 0 < cost \<Longrightarrow> spent + cost \<le> limit"
  by (auto simp: remaining_def split: if_splits)

lemma rangeKeeperRange_Inr:
  "rangeKeeperRange tick spacing width = Inr rg \<Longrightarrow> range_tickLower rg \<le> tick \<and> tick < range_tickUpper rg"
  by (auto simp: rangeKeeperRange_def bind_ok_Inr_iff Let_def)

lemma plan_candidate_fits:
  assumes "plan_candidate quote inp = Inr (Some c)" "gates_open inp" "plan_asserts inp = Inr ()"
    "limits_ok (in_limits inp)" "price0 (in_observation inp) = Some p0" "price1 (in_observation inp) = Some p1"
  obtains rg price w0 w1 where
    "rangeKeeperRange (ob_tick (in_observation inp)) (in_spacing inp) (fullWidthSpacings (in_limits inp)) = Inr rg"
    "mint_fits_limits (keeper_context (in_observation inp) (in_limits inp) (in_decimals0 inp) (in_decimals1 inp) rg
       (keeper_kind_of (in_observation inp)) p0 p1) price w0 w1 c"
proof -
  from assms(1) obtain rg where rg:
    "rangeKeeperRange (ob_tick (in_observation inp)) (in_spacing inp) (fullWidthSpacings (in_limits inp)) = Inr rg"
    "construct quote (in_observation inp) (in_limits inp) (in_decimals0 inp) (in_decimals1 inp) rg
       (keeper_kind_of (in_observation inp)) = Inr (Some c)"
    by (auto simp: plan_candidate_def Let_def bind_ok_Inr_iff)
  have "0 < p0" "0 < p1" using assms(2,5,6) by (auto simp: gates_open_def Let_def)
  moreover have "0 \<le> ob_wallet0 (in_observation inp) + released0 (in_observation inp)"
    "0 \<le> ob_wallet1 (in_observation inp) + released1 (in_observation inp)"
    using assms(3) by (auto simp: plan_asserts_def Let_def bind_ok_Inr_iff)
  ultimately have "candidate_fits quote (keeper_context (in_observation inp) (in_limits inp) (in_decimals0 inp)
      (in_decimals1 inp) rg (keeper_kind_of (in_observation inp)) p0 p1) c"
    using construct_Some [OF rg(2) assms(4-6)] by blast
  with rg(1) candidate_fits_mint that show thesis by blast
qed


subsection \<open>Runs\<close>

lemma trace_confirmation:
  assumes "keeper_trace h s" "confirmation s = Some prior"
  shows "\<exists>waits inp d h'. h = waits @ (inp, d) # h' \<and> (\<forall>(i, w)\<in>set waits. dc_action w = Wait) \<and>
    dc_action d = Confirm \<and> dc_candidate d = Some (cf_candidate prior) \<and>
    firstBlock prior = ob_block (in_observation inp) \<and> firstAt prior = ob_timestamp (in_observation inp)"
  using assms
proof (induction arbitrary: prior rule: keeper_trace.induct)
  case (trace_start s)
  then show ?case by simp
next
  case (trace_step h s inp quote simulate d)
  show ?case
  proof (cases "quiet s d")
    case True
    with trace_step.prems have w: "dc_action d = Wait" "confirmation s = Some prior" by (auto simp: quiet_def)
    from trace_step.IH [OF w(2)] obtain waits inp' d' h' where
      "h = waits @ (inp', d') # h'" "\<forall>(i, w)\<in>set waits. dc_action w = Wait" "dc_action d' = Confirm"
      "dc_candidate d' = Some (cf_candidate prior)" "firstBlock prior = ob_block (in_observation inp')"
      "firstAt prior = ob_timestamp (in_observation inp')" by blast
    with w(1) show ?thesis by (intro exI [of _ "(inp, d) # waits"] exI [of _ inp'] exI [of _ d'] exI [of _ h']) simp
  next
    case False
    with planRangeKeeper_cases [OF trace_step.hyps(3)] trace_step.hyps(2)
    obtain s' c where "acted simulate inp s' c d" by auto
    with trace_step.prems have "dc_action d = Confirm" "dc_candidate d = Some (cf_candidate prior)"
      "firstBlock prior = ob_block (in_observation inp)" "firstAt prior = ob_timestamp (in_observation inp)"
      by (auto simp: acted_def split: if_splits)
    then show ?thesis by (intro exI [of _ "[]"] exI [of _ inp] exI [of _ d] exI [of _ h]) simp
  qed
qed

text \<open>
  C16: two confirmations.  In every run from a fresh state an execution is preceded by the
  confirmation of a candidate with the same kind, range and route, at an earlier block and not
  too long ago, with nothing but waiting in between: no candidate is executed on the evidence
  of one observation, and no confirmation is used twice.
\<close>

theorem execution_needs_two_confirmations:
  assumes "keeper_trace ((inp, d) # h) s" "dc_action d = Execute"
  shows "\<exists>c waits inp' d' h' c'. dc_candidate d = Some c \<and> h = waits @ (inp', d') # h' \<and>
    (\<forall>(i, w)\<in>set waits. dc_action w = Wait) \<and> dc_action d' = Confirm \<and> dc_candidate d' = Some c' \<and>
    ck_kind c' = ck_kind c \<and> range_tickLower (ck_range c') = range_tickLower (ck_range c) \<and>
    range_tickUpper (ck_range c') = range_tickUpper (ck_range c) \<and>
    map_option sw_token (ck_swap c') = map_option sw_token (ck_swap c) \<and>
    ob_block (in_observation inp') < ob_block (in_observation inp) \<and>
    ob_timestamp (in_observation inp) - ob_timestamp (in_observation inp') \<le> maxObservationGapSeconds (in_limits inp)"
proof -
  obtain quote simulate where t: "keeper_trace h (in_state inp)" and p: "planRangeKeeper quote simulate inp = Inr d"
    using keeper_trace_ConsE [OF assms(1)] by metis
  obtain s' c where s': "confirmation s' \<in> {None, confirmation (in_state inp)}" and a: "acted simulate inp s' c d"
    using acted_decision [OF p] assms(2) by metis
  from a assms(2) have c: "dc_candidate d = Some c" "confirmed inp s' c" by (auto simp: acted_def split: if_splits)
  then obtain prior where "confirmation s' = Some prior" and prior:
    "ob_timestamp (in_observation inp) - firstAt prior \<le> maxObservationGapSeconds (in_limits inp)"
    "firstBlock prior < ob_block (in_observation inp)"
    "candidatePolicyIdentity (cf_candidate prior) = candidatePolicyIdentity c"
    by (auto simp: confirmed_def Let_def split: option.splits)
  with s' have p: "confirmation (in_state inp) = Some prior" by simp
  from trace_confirmation [OF t p] obtain waits inp' d' h' where
    "h = waits @ (inp', d') # h'" "\<forall>(i, w)\<in>set waits. dc_action w = Wait" "dc_action d' = Confirm"
    "dc_candidate d' = Some (cf_candidate prior)" "firstBlock prior = ob_block (in_observation inp')"
    "firstAt prior = ob_timestamp (in_observation inp')" by blast
  with c(1) prior show ?thesis
    by (intro exI [of _ c] exI [of _ waits] exI [of _ inp'] exI [of _ d'] exI [of _ h'] exI [of _ "cf_candidate prior"])
      (simp add: candidatePolicyIdentity_def)
qed

text \<open>Observations of one position outside its range, newest first, none too far from the next.\<close>

definition outside_at :: "string \<Rightarrow> int \<Rightarrow> int \<Rightarrow> RangeKeeperPlannerInput \<Rightarrow> bool" where
  "outside_at token lo hi inp \<longleftrightarrow> (\<exists>p. ob_position (in_observation inp) = Some p \<and> kp_tokenId p = token \<and>
     kp_tickLower p = lo \<and> kp_tickUpper p = hi \<and> \<not> (lo \<le> ob_tick (in_observation inp) \<and> ob_tick (in_observation inp) < hi))"

definition close_after :: "RangeKeeperPlannerInput \<Rightarrow> RangeKeeperPlannerInput \<Rightarrow> bool" where
  "close_after newer older \<longleftrightarrow>
     0 \<le> ob_timestamp (in_observation newer) - ob_timestamp (in_observation older) \<and>
     ob_timestamp (in_observation newer) - ob_timestamp (in_observation older) \<le> maxObservationGapSeconds (in_limits newer)"

definition tracked_exit ::
  "keeper_exit \<Rightarrow> (RangeKeeperPlannerInput \<times> RangeKeeperDecision) list \<Rightarrow> RangeKeeperPlannerInput list \<Rightarrow> bool"
where
  "tracked_exit e recent ms \<longleftrightarrow> ms \<noteq> [] \<and> subseq ms (map fst recent) \<and>
     (\<forall>m\<in>set ms. outside_at (kt_tokenId e) (kt_tickLower e) (kt_tickUpper e) m) \<and> successively close_after ms \<and>
     lastOutsideAt e = ob_timestamp (in_observation (hd ms)) \<and> since e = ob_timestamp (in_observation (last ms)) \<and>
     (\<forall>(i, w)\<in>set recent. dc_reason w \<noteq> ''inside_range'' \<and> ob_continuity (in_observation i) = Canonical)"

lemma timed_outside:
  assumes "timed inp p before e" "ob_position (in_observation inp) = Some p" "\<not> inside_range (in_observation inp) p"
  shows "outside_at (kt_tokenId e) (kt_tickLower e) (kt_tickUpper e) inp" "lastOutsideAt e = ob_timestamp (in_observation inp)"
  using assms by (auto simp: timed_def outside_at_def inside_range_def)

lemma trace_exit:
  assumes "keeper_trace h s" "exit_timer s = Some e"
  shows "\<exists>recent h' ms. h = recent @ h' \<and> tracked_exit e recent ms"
  using assms
proof (induction arbitrary: e rule: keeper_trace.induct)
  case (trace_start s)
  then show ?case by simp
next
  case (trace_step h s inp quote simulate d)
  from planRangeKeeper_cases [OF trace_step.hyps(3)] trace_step.prems trace_step.hyps(2)
  have canon: "ob_continuity (in_observation inp) = Canonical" "dc_reason d \<noteq> ''inside_range''"
    and c: "exit_timer s = Some e \<or> (\<exists>p. ob_position (in_observation inp) = Some p \<and>
        \<not> inside_range (in_observation inp) p \<and> timed inp p (exit_timer s) e)"
    by (auto simp: timer_step_def)
  consider "exit_timer s = Some e"
    | p where "ob_position (in_observation inp) = Some p" "\<not> inside_range (in_observation inp) p"
        "timed inp p (exit_timer s) e" using c by blast
  then show ?case
  proof cases
    case 1
    from trace_step.IH [OF 1] obtain recent h' ms where "h = recent @ h'" "tracked_exit e recent ms" by blast
    with canon show ?thesis
      by (intro exI [of _ "(inp, d) # recent"] exI [of _ h'] exI [of _ ms]) (auto simp: tracked_exit_def)
  next
    case (2 p)
    note out = timed_outside [OF 2(3,1,2)]
    from 2(3) consider "since e = ob_timestamp (in_observation inp)"
      | e0 where "exit_timer s = Some e0" "e = e0\<lparr>lastOutsideAt := ob_timestamp (in_observation inp)\<rparr>"
        "0 \<le> ob_timestamp (in_observation inp) - lastOutsideAt e0"
        "ob_timestamp (in_observation inp) - lastOutsideAt e0 \<le> maxObservationGapSeconds (in_limits inp)"
      unfolding timed_def by blast
    then show ?thesis
    proof cases
      case 1
      with out canon show ?thesis
        by (intro exI [of _ "[(inp, d)]"] exI [of _ h] exI [of _ "[inp]"]) (simp add: tracked_exit_def)
    next
      case (2 e0)
      from trace_step.IH [OF 2(1)] obtain recent h' ms where r: "h = recent @ h'" "tracked_exit e0 recent ms" by blast
      have "tracked_exit e ((inp, d) # recent) (inp # ms)"
        using r(2) 2(2-4) out canon by (cases ms) (auto simp: tracked_exit_def close_after_def)
      with r(1) show ?thesis by (intro exI [of _ "(inp, d) # recent"] exI [of _ h'] exI [of _ "inp # ms"]) simp
    qed
  qed
qed

text \<open>
  C33: a recenter is never hasty.  In every run from a fresh state, a decision to confirm or
  execute while a position is open comes at the end of at least 300 seconds of observations of
  that position outside its range, no two of them further apart than the allowed gap, with no
  observation in between that found the price inside it and no break of the source.
\<close>

theorem recenter_needs_persistent_exit:
  assumes "keeper_trace ((inp, d) # h) s" "dc_action d = Execute \<or> dc_action d = Confirm"
    "ob_position (in_observation inp) = Some p"
  shows "\<exists>recent h' ms. (inp, d) # h = recent @ h' \<and> subseq ms (map fst recent) \<and> ms \<noteq> [] \<and>
    300 \<le> ob_timestamp (in_observation inp) - ob_timestamp (in_observation (last ms)) \<and>
    ob_timestamp (in_observation (hd ms)) = ob_timestamp (in_observation inp) \<and>
    (\<forall>m\<in>set ms. outside_at (kp_tokenId p) (kp_tickLower p) (kp_tickUpper p) m) \<and> successively close_after ms \<and>
    (\<forall>(i, w)\<in>set recent. dc_reason w \<noteq> ''inside_range'' \<and> ob_continuity (in_observation i) = Canonical)"
proof -
  obtain quote simulate where s: "planRangeKeeper quote simulate inp = Inr d" "s = dc_state d"
    using keeper_trace_ConsE [OF assms(1)] by metis
  have "timer_ready inp (exit_timer (dc_state d))" using acted_decision [OF s(1) assms(2)] by metis
  then obtain e where e: "exit_timer s = Some e" "timed inp p (exit_timer (in_state inp)) e"
    "300 \<le> ob_timestamp (in_observation inp) - since e"
    using assms(3) s(2) by (auto simp: timer_ready_def)
  have k: "kt_tokenId e = kp_tokenId p" "kt_tickLower e = kp_tickLower p" "kt_tickUpper e = kp_tickUpper p"
    "lastOutsideAt e = ob_timestamp (in_observation inp)" using e(2) by (simp_all add: timed_def)
  from trace_exit [OF assms(1) e(1)] obtain recent h' ms where r: "(inp, d) # h = recent @ h'" "tracked_exit e recent ms"
    by blast
  then have "subseq ms (map fst recent)" "ms \<noteq> []" "300 \<le> ob_timestamp (in_observation inp) - ob_timestamp (in_observation (last ms))"
    "ob_timestamp (in_observation (hd ms)) = ob_timestamp (in_observation inp)"
    "\<forall>m\<in>set ms. outside_at (kp_tokenId p) (kp_tickLower p) (kp_tickUpper p) m" "successively close_after ms"
    "\<forall>(i, w)\<in>set recent. dc_reason w \<noteq> ''inside_range'' \<and> ob_continuity (in_observation i) = Canonical"
    using e(3) k by (auto simp: tracked_exit_def)
  with r(1) show ?thesis by blast
qed

subsection \<open>A sample run\<close>

definition sample_input :: "RangeKeeperState \<Rightarrow> RangeKeeperObservation \<Rightarrow> RangeKeeperPlannerInput" where
  "sample_input s ob = \<lparr>in_state = s, in_observation = ob, in_limits = sample_limits, in_spacing = 60,
     in_decimals0 = 0, in_decimals1 = 0, in_quoteToken = Token0, maxPoolDeviationPpm = 10000\<rparr>"

lemma sample_input_fields [simp]:
  "in_state (sample_input s ob) = s" "in_observation (sample_input s ob) = ob"
  "in_limits (sample_input s ob) = sample_limits"
  by (simp_all add: sample_input_def)

definition sample_state :: RangeKeeperState where
  "sample_state = \<lparr>st_configHash = ''0xcd'', st_buildId = ''build'', lastEligible = None, exit_timer = None,
     confirmation = None\<rparr>"

lemma sample_asserts: "0 \<le> block \<Longrightarrow> 0 \<le> time \<Longrightarrow> time \<le> 1000 \<Longrightarrow>
    plan_asserts (sample_input s (sample_observation block time pos)) = Inr ()"
  by (simp add: plan_asserts_def sample_input_def sample_observation_def assertion_def safe_integer_def)

lemma sample_source:
  assumes "\<forall>e. lastEligible s = Some e \<longrightarrow> ks_block e < block \<and> ks_timestamp e < time"
  shows "plan_source (sample_input s (sample_observation block time pos)) s = Inr s"
  using assms by (auto simp: plan_source_def sample_observation_def Let_def split: option.splits)

lemma sample_value: "plan_value (sample_input s (sample_observation block time pos)) s' = Inr s'"
  by (simp add: plan_value_def Let_def sample_input_def sample_observation_def sample_limits_def equity_of_def pool_price1_def
      rawValue_def sdiv_nonneg PPM_def)

lemma sample_gates: "plan_gates (sample_input s (sample_observation block time pos)) s' = Inr s'"
  by (simp add: plan_gates_def Let_def sample_input_def sample_observation_def sample_limits_def equity_of_def
      rawValue_def sdiv_nonneg PPM_def plan_budgets_def exit_reserve_def above_def priced_def remaining_def)

lemma sample_plan_candidate:
  "plan_candidate silent_quoter (sample_input s (sample_observation block time pos)) =
     Inr (Some (sample_candidate (keeper_kind_of (sample_observation block time pos)) block time))"
proof -
  have "rangeKeeperRange 0 60 2 = Inr sample_range"
    by (simp add: rangeKeeperRange_def assertion_def safe_integer_def round_quotient_def Let_def tick_consts
        sample_range_def smod_nonneg)
  moreover have "ob_tick (sample_observation block time pos) = 0" "fullWidthSpacings sample_limits = 2"
    by (simp_all add: sample_observation_def sample_limits_def)
  ultimately show ?thesis by (simp add: plan_candidate_def sample_construct) (simp add: sample_input_def sample_construct)
qed

lemma sample_confirm:
  "plan_confirm (\<lambda>_. Inr True) (sample_input s (sample_observation block time pos)) s' (sample_candidate k block time) =
     (if confirmed (sample_input s (sample_observation block time pos)) s' (sample_candidate k block time)
      then decide (sample_input s (sample_observation block time pos)) (s'\<lparr>confirmation := None\<rparr>) Execute
        ''two_confirmations'' (Some (sample_candidate k block time))
      else decide (sample_input s (sample_observation block time pos)) (s'\<lparr>confirmation := Some
        \<lparr>cf_candidate = sample_candidate k block time, firstBlock = block, firstHash = ''0xab'', firstAt = time\<rparr>\<rparr>) Confirm
        ''first_confirmation'' (Some (sample_candidate k block time)))"
proof -
  have "\<not> exposure_exceeded (sample_input s (sample_observation block time pos)) (sample_candidate k block time)"
    by (simp add: exposure_exceeded_def Let_def next_inventory_def sample_input_def sample_observation_def sample_candidate_def
        sample_limits_def rawValue_def sdiv_nonneg PPM_def)
  moreover have "ck_swap (sample_candidate k block time) = None" by (simp add: sample_candidate_def)
  moreover have "ob_block (sample_observation block time pos) = block" "ob_hash (sample_observation block time pos) = ''0xab''"
    "ob_timestamp (sample_observation block time pos) = time" by (simp_all add: sample_observation_def)
  ultimately show ?thesis by (simp add: plan_confirm_def Let_def)
qed

lemma sample_plan:
  assumes "plan_position (sample_input s (sample_observation block time pos)) s = Inr s1"
    "\<forall>e. lastEligible s = Some e \<longrightarrow> ks_block e < block \<and> ks_timestamp e < time"
    "\<forall>e. lastEligible s1 = Some e \<longrightarrow> 30 \<le> time - ks_timestamp e" "0 \<le> block" "0 \<le> time" "time \<le> 1000"
  shows "planRangeKeeper silent_quoter (\<lambda>_. Inr True) (sample_input s (sample_observation block time pos)) =
    Inr (plan_confirm (\<lambda>_. Inr True) (sample_input s (sample_observation block time pos))
      (s1\<lparr>lastEligible := Some \<lparr>ks_block = block, ks_hash = ''0xab'', ks_timestamp = time\<rparr>\<rparr>)
      (sample_candidate (keeper_kind_of (sample_observation block time pos)) block time))"
proof -
  have o: "ob_block (sample_observation block time pos) = block" "ob_hash (sample_observation block time pos) = ''0xab''"
    "ob_timestamp (sample_observation block time pos) = time" by (simp_all add: sample_observation_def)
  have i: "plan_interval (sample_input s (sample_observation block time pos)) s1 =
      Inr (s1\<lparr>lastEligible := Some \<lparr>ks_block = block, ks_hash = ''0xab'', ks_timestamp = time\<rparr>\<rparr>)"
    using assms(3) by (auto simp: plan_interval_def Let_def o split: option.splits)
  show ?thesis
    using assms(1) sample_asserts [OF assms(4-6)] sample_source [OF assms(2)] i
    by (simp add: planRangeKeeper_def sample_value sample_gates plan_action_def sample_plan_candidate)
qed

lemma sample_wait:
  assumes "plan_position (sample_input s (sample_observation block time pos)) s = Inl d"
    "\<forall>e. lastEligible s = Some e \<longrightarrow> ks_block e < block \<and> ks_timestamp e < time" "0 \<le> block" "0 \<le> time" "time \<le> 1000"
  shows "planRangeKeeper silent_quoter (\<lambda>_. Inr True) (sample_input s (sample_observation block time pos)) = Inr d"
  using assms(1) sample_asserts [OF assms(3-5)] sample_source [OF assms(2)] by (simp add: planRangeKeeper_def sample_value)

text \<open>Two observations of an empty wallet position: a confirmation, then an execution.\<close>

definition sample_confirmed :: RangeKeeperState where
  "sample_confirmed = sample_state\<lparr>lastEligible := Some \<lparr>ks_block = 7, ks_hash = ''0xab'', ks_timestamp = 100\<rparr>,
     confirmation := Some \<lparr>cf_candidate = sample_candidate Entry 7 100, firstBlock = 7, firstHash = ''0xab'',
       firstAt = 100\<rparr>\<rparr>"

lemma sample_first:
  "planRangeKeeper silent_quoter (\<lambda>_. Inr True) (sample_input sample_state (sample_observation 7 100 None)) =
     Inr (decide (sample_input sample_state (sample_observation 7 100 None)) sample_confirmed Confirm
       ''first_confirmation'' (Some (sample_candidate Entry 7 100)))"
proof -
  have p: "plan_position (sample_input sample_state (sample_observation 7 100 None)) sample_state = Inr sample_state"
    by (simp add: plan_position_def sample_observation_def sample_state_def)
  have k: "keeper_kind_of (sample_observation 7 100 None) = Entry" by (simp add: keeper_kind_of_def sample_observation_def)
  have l: "lastEligible sample_state = None" "confirmation sample_state = None" by (simp_all add: sample_state_def)
  show ?thesis
    using sample_plan [OF p] unfolding k sample_confirm confirmed_def sample_confirmed_def by (simp add: l)
qed

lemma sample_second:
  "planRangeKeeper silent_quoter (\<lambda>_. Inr True) (sample_input sample_confirmed (sample_observation 8 150 None)) =
     Inr (decide (sample_input sample_confirmed (sample_observation 8 150 None))
       (sample_confirmed\<lparr>lastEligible := Some \<lparr>ks_block = 8, ks_hash = ''0xab'', ks_timestamp = 150\<rparr>, confirmation := None\<rparr>)
       Execute ''two_confirmations'' (Some (sample_candidate Entry 8 150)))"
proof -
  have l: "lastEligible sample_confirmed = Some \<lparr>ks_block = 7, ks_hash = ''0xab'', ks_timestamp = 100\<rparr>"
    "exit_timer sample_confirmed = None"
    "confirmation sample_confirmed = Some \<lparr>cf_candidate = sample_candidate Entry 7 100, firstBlock = 7,
      firstHash = ''0xab'', firstAt = 100\<rparr>"
    by (simp_all add: sample_confirmed_def sample_state_def)
  have p: "plan_position (sample_input sample_confirmed (sample_observation 8 150 None)) sample_confirmed = Inr sample_confirmed"
    using l(2) by (simp add: plan_position_def sample_observation_def)
  have k: "keeper_kind_of (sample_observation 8 150 None) = Entry" by (simp add: keeper_kind_of_def sample_observation_def)
  have i: "candidatePolicyIdentity (sample_candidate Entry 7 100) = candidatePolicyIdentity (sample_candidate Entry 8 150)"
    by (simp add: candidatePolicyIdentity_def sample_candidate_def)
  have o: "ob_block (sample_observation 8 150 None) = 8" "ob_timestamp (sample_observation 8 150 None) = 150"
    "maxObservationGapSeconds sample_limits = 90" by (simp_all add: sample_observation_def sample_limits_def)
  show ?thesis
    using sample_plan [OF p] unfolding k sample_confirm confirmed_def Let_def by (simp add: l i o)
qed

lemma sample_trace:
  "keeper_trace [(sample_input sample_confirmed (sample_observation 8 150 None),
      decide (sample_input sample_confirmed (sample_observation 8 150 None))
        (sample_confirmed\<lparr>lastEligible := Some \<lparr>ks_block = 8, ks_hash = ''0xab'', ks_timestamp = 150\<rparr>, confirmation := None\<rparr>)
        Execute ''two_confirmations'' (Some (sample_candidate Entry 8 150))),
     (sample_input sample_state (sample_observation 7 100 None),
      decide (sample_input sample_state (sample_observation 7 100 None)) sample_confirmed Confirm
        ''first_confirmation'' (Some (sample_candidate Entry 7 100)))]
    (sample_confirmed\<lparr>lastEligible := Some \<lparr>ks_block = 8, ks_hash = ''0xab'', ks_timestamp = 150\<rparr>, confirmation := None\<rparr>)"
proof -
  have "keeper_trace [] sample_state" by (simp add: keeper_trace_Nil sample_state_def)
  from trace_step [OF trace_step [OF this _ sample_first] _ sample_second] show ?thesis by simp
qed


theorem execution_needs_two_confirmations_witness:
  "\<exists>h s d. keeper_trace ((sample_input sample_confirmed (sample_observation 8 150 None), d) # h) s \<and> dc_action d = Execute \<and>
     (\<exists>inp' d'. (inp', d') \<in> set h \<and> dc_action d' = Confirm \<and> ob_block (in_observation inp') < 8)"
proof -
  have o: "ob_block (in_observation (sample_input sample_confirmed (sample_observation 8 150 None))) = 8"
    by (simp add: sample_observation_def)
  obtain h s d where t: "keeper_trace ((sample_input sample_confirmed (sample_observation 8 150 None), d) # h) s"
    "dc_action d = Execute" using sample_trace by fastforce
  from execution_needs_two_confirmations [OF t] obtain waits inp' d' h' where "h = waits @ (inp', d') # h'"
    "dc_action d' = Confirm" "ob_block (in_observation inp') < 8" unfolding o by blast
  with t show ?thesis by (intro exI conjI) auto
qed

text \<open>A position that the price has left for 300 seconds, observed every 90.\<close>

definition sample_position :: keeper_position where
  "sample_position = \<lparr>kp_tokenId = ''5'', kp_tickLower = 1000, kp_tickUpper = 1060, kp_liquidity = 9\<rparr>"

definition sample_outside :: "int \<Rightarrow> RangeKeeperState" where
  "sample_outside time = sample_state\<lparr>exit_timer := Some \<lparr>kt_tokenId = ''5'', kt_tickLower = 1000, kt_tickUpper = 1060,
     kt_block = 100, kt_hash = ''0xab'', since = 100, lastOutsideAt = time\<rparr>\<rparr>"

abbreviation outside_input :: "RangeKeeperState \<Rightarrow> int \<Rightarrow> RangeKeeperPlannerInput" where
  "outside_input s time \<equiv> sample_input s (sample_observation time time (Some sample_position))"

lemma outside_fields: "ob_position (sample_observation time time (Some sample_position)) = Some sample_position"
  "\<not> inside_range (sample_observation time time (Some sample_position)) sample_position"
  "ob_timestamp (sample_observation time time (Some sample_position)) = time"
  "lastEligible (sample_outside t) = None" "lastEligible sample_state = None" "confirmation (sample_outside t) = None"
  by (simp_all add: sample_observation_def sample_position_def inside_range_def sample_outside_def sample_state_def)

lemma since_100: "exit_timer (sample_outside time) = Some \<lparr>kt_tokenId = ''5'', kt_tickLower = 1000, kt_tickUpper = 1060,
     kt_block = 100, kt_hash = ''0xab'', since = 100, lastOutsideAt = time\<rparr>"
  by (simp add: sample_outside_def)

lemma sample_advance:
  "advance_exit (outside_input sample_state 100) sample_position sample_state = sample_outside 100"
  "t \<le> time \<Longrightarrow> time - t \<le> 90 \<Longrightarrow>
     advance_exit (outside_input (sample_outside t) time) sample_position (sample_outside t) = sample_outside time"
  by (simp_all add: advance_exit_def sample_outside_def sample_state_def sample_position_def sample_observation_def
      sample_limits_def Let_def)

lemma sample_stays_outside:
  assumes "100 \<le> t" "t \<le> time" "time - t \<le> 90" "time < 400"
  shows "planRangeKeeper silent_quoter (\<lambda>_. Inr True) (outside_input (sample_outside t) time) =
    Inr (decide (outside_input (sample_outside t) time) (sample_outside time) Wait ''exit_persistence'' None)"
proof -
  have "plan_position (outside_input (sample_outside t) time) (sample_outside t) =
      Inl (decide (outside_input (sample_outside t) time) (sample_outside time) Wait ''exit_persistence'' None)"
    using assms sample_advance(2) [of t time]
    by (simp add: plan_position_def Let_def outside_fields since_100)
  from sample_wait [OF this] assms show ?thesis by (simp add: outside_fields)
qed

lemma sample_leaves:
  "planRangeKeeper silent_quoter (\<lambda>_. Inr True) (outside_input sample_state 100) =
    Inr (decide (outside_input sample_state 100) (sample_outside 100) Wait ''exit_persistence'' None)"
proof -
  have "plan_position (outside_input sample_state 100) sample_state =
      Inl (decide (outside_input sample_state 100) (sample_outside 100) Wait ''exit_persistence'' None)"
    using sample_advance(1) by (simp add: plan_position_def Let_def outside_fields since_100)
  from sample_wait [OF this] show ?thesis by (simp add: outside_fields)
qed

lemma sample_recenters:
  "\<exists>d. planRangeKeeper silent_quoter (\<lambda>_. Inr True) (outside_input (sample_outside 370) 400) = Inr d \<and> dc_action d = Confirm"
proof -
  have "plan_position (outside_input (sample_outside 370) 400) (sample_outside 370) = Inr (sample_outside 400)"
    using sample_advance(2) [of 370 400]
    by (simp add: plan_position_def Let_def outside_fields since_100)
  from sample_plan [OF this] show ?thesis
    unfolding sample_confirm by (simp add: outside_fields confirmed_def)
qed

theorem recenter_needs_persistent_exit_witness:
  "\<exists>h d s ms. keeper_trace ((outside_input (sample_outside 370) 400, d) # h) s \<and> ms \<noteq> [] \<and>
     300 \<le> 400 - ob_timestamp (in_observation (last ms)) \<and> (\<forall>m\<in>set ms. outside_at ''5'' 1000 1060 m)"
proof -
  obtain d where d: "planRangeKeeper silent_quoter (\<lambda>_. Inr True) (outside_input (sample_outside 370) 400) = Inr d"
    "dc_action d = Confirm" using sample_recenters by blast
  have t0: "keeper_trace [] sample_state" by (simp add: keeper_trace_Nil sample_state_def)
  obtain h where t4: "keeper_trace h (sample_outside 370)"
    using trace_step [OF trace_step [OF trace_step [OF trace_step [OF t0 _ sample_leaves]
        _ sample_stays_outside [of 100 190]] _ sample_stays_outside [of 190 280]] _ sample_stays_outside [of 280 370]]
    by simp
  have t: "keeper_trace ((outside_input (sample_outside 370) 400, d) # h) (dc_state d)"
    by (rule trace_step [OF t4 _ d(1)]) simp
  have p: "ob_position (in_observation (outside_input (sample_outside 370) 400)) = Some sample_position"
    "ob_timestamp (in_observation (outside_input (sample_outside 370) 400)) = 400"
    "kp_tokenId sample_position = ''5''" "kp_tickLower sample_position = 1000" "kp_tickUpper sample_position = 1060"
    using outside_fields(1,3) [of 400] by (simp_all, simp_all add: sample_position_def)
  from recenter_needs_persistent_exit [OF t _ p(1)] d(2) t show ?thesis unfolding p by blast
qed

end
