(* ===== verification/Json_Text.thy ===== *)
theory Json_Text
  imports Liq_Prelude
begin

section \<open>JSON text\<close>

text \<open>
  What the sources use of \<open>JSON.stringify\<close> and \<open>JSON.parse\<close>: a compact printer and a
  recursive descent parser of the same values.  Strings are lists of 8-bit code units, numbers
  are the integers the persisted states hold (a text with a fraction or an exponent is outside
  the model, and so is an object with an array index for a key, which JavaScript reorders).
  The parser takes fuel; the length of the text is always enough, as every call consumes a
  character before it recurses.
\<close>

datatype json =
    JNull
  | JBool bool
  | JNum int
  | JStr string
  | JArr "json list"
  | JObj "(string \<times> json) list"

subsection \<open>Printing\<close>

definition hex_digit :: "nat \<Rightarrow> char" where
  "hex_digit d = (if d < 10 then char_of (48 + d) else char_of (87 + d))"

abbreviation quote_mark :: char where
  "quote_mark \<equiv> CHR 0x22"

abbreviation backslash :: char where
  "backslash \<equiv> CHR 0x5C"

definition escape_char :: "char \<Rightarrow> string" where
  "escape_char c =
     (if c = quote_mark then [backslash, quote_mark]
      else if c = backslash then [backslash, backslash]
      else if c = CHR 0x08 then [backslash, CHR ''b'']
      else if c = CHR 0x0C then [backslash, CHR ''f'']
      else if c = CHR 0x0A then [backslash, CHR ''n'']
      else if c = CHR 0x0D then [backslash, CHR ''r'']
      else if c = CHR 0x09 then [backslash, CHR ''t'']
      else if (of_char c :: nat) < 32
      then [backslash, CHR ''u'', CHR ''0'', CHR ''0'', hex_digit (of_char c div 16), hex_digit (of_char c mod 16)]
      else [c])"

definition json_string :: "string \<Rightarrow> string" where
  "json_string s = [quote_mark] @ concat (map escape_char s) @ [quote_mark]"

fun json_text :: "json \<Rightarrow> string"
  and elems_text :: "json list \<Rightarrow> string"
  and members_text :: "(string \<times> json) list \<Rightarrow> string"
where
  "json_text JNull = ''null''"
| "json_text (JBool b) = (if b then ''true'' else ''false'')"
| "json_text (JNum n) = show_int n"
| "json_text (JStr s) = json_string s"
| "json_text (JArr xs) = CHR ''['' # (case xs of [] \<Rightarrow> '']'' | _ \<Rightarrow> elems_text xs)"
| "json_text (JObj kvs) = CHR ''{'' # (case kvs of [] \<Rightarrow> ''}'' | _ \<Rightarrow> members_text kvs)"
| "elems_text [] = []"
| "elems_text (x # xs) = json_text x @ (case xs of [] \<Rightarrow> '']'' | _ \<Rightarrow> CHR '','' # elems_text xs)"
| "members_text [] = []"
| "members_text ((k, v) # kvs) =
     json_string k @ CHR '':'' # json_text v @ (case kvs of [] \<Rightarrow> ''}'' | _ \<Rightarrow> CHR '','' # members_text kvs)"

subsection \<open>Parsing\<close>

definition is_ws :: "char \<Rightarrow> bool" where
  "is_ws c \<longleftrightarrow> c = CHR '' '' \<or> c = CHR 0x09 \<or> c = CHR 0x0A \<or> c = CHR 0x0D"

definition skip_ws :: "string \<Rightarrow> string" where
  "skip_ws s = dropWhile is_ws s"

definition hex_value :: "char \<Rightarrow> nat option" where
  "hex_value c = (let n = (of_char c :: nat) in
     if 48 \<le> n \<and> n \<le> 57 then Some (n - 48)
     else if 97 \<le> n \<and> n \<le> 102 then Some (n - 87)
     else if 65 \<le> n \<and> n \<le> 70 then Some (n - 55) else None)"

definition hex4 :: "char \<Rightarrow> char \<Rightarrow> char \<Rightarrow> char \<Rightarrow> char option" where
  "hex4 a b c d = (case (hex_value a, hex_value b, hex_value c, hex_value d) of
      (Some p, Some q, Some r, Some s) \<Rightarrow>
        let n = 4096 * p + 256 * q + 16 * r + s in if n < 256 then Some (char_of n) else None
    | _ \<Rightarrow> None)"

definition simple_escape :: "char \<Rightarrow> char option" where
  "simple_escape e =
     (if e = quote_mark \<or> e = backslash \<or> e = CHR ''/'' then Some e
      else if e = CHR ''b'' then Some (CHR 0x08) else if e = CHR ''f'' then Some (CHR 0x0C)
      else if e = CHR ''n'' then Some (CHR 0x0A) else if e = CHR ''r'' then Some (CHR 0x0D)
      else if e = CHR ''t'' then Some (CHR 0x09) else None)"

definition put_char :: "char \<Rightarrow> (string \<times> string) option \<Rightarrow> (string \<times> string) option" where
  "put_char c r = map_option (\<lambda>(s, rest). (c # s, rest)) r"

text \<open>The rest of a string after its opening quote.\<close>

fun parse_chars :: "string \<Rightarrow> (string \<times> string) option" where
  "parse_chars [] = None"
| "parse_chars (c # s) =
     (if c = quote_mark then Some ([], s)
      else if c = backslash then (case s of
          [] \<Rightarrow> None
        | e # s1 \<Rightarrow>
            if e = CHR ''u'' then (case s1 of
                h1 # h2 # h3 # h4 # s2 \<Rightarrow>
                  (case hex4 h1 h2 h3 h4 of None \<Rightarrow> None | Some ch \<Rightarrow> put_char ch (parse_chars s2))
              | _ \<Rightarrow> None)
            else (case simple_escape e of None \<Rightarrow> None | Some ch \<Rightarrow> put_char ch (parse_chars s1)))
      else if (of_char c :: nat) < 32 then None
      else put_char c (parse_chars s))"

definition fraction_follows :: "string \<Rightarrow> bool" where
  "fraction_follows s \<longleftrightarrow> s \<noteq> [] \<and> hd s \<in> {CHR ''.'', CHR ''e'', CHR ''E''}"

definition parse_number :: "string \<Rightarrow> (json \<times> string) option" where
  "parse_number s =
     (let neg = (s \<noteq> [] \<and> hd s = CHR ''-''); body = (if neg then tl s else s);
          ds = takeWhile is_digit body; rest = dropWhile is_digit body in
      if ds = [] \<or> (hd ds = CHR ''0'' \<and> length ds > 1) \<or> fraction_follows rest then None
      else Some (JNum (if neg then - int (parse_nat ds) else int (parse_nat ds)), rest))"

definition parse_word :: "string \<Rightarrow> json \<Rightarrow> string \<Rightarrow> (json \<times> string) option" where
  "parse_word w v s = (if take (length w) s = w then Some (v, drop (length w) s) else None)"

text \<open>An object literal: a repeated key keeps its place and takes its last value.\<close>

definition object_of :: "(string \<times> json) list \<Rightarrow> json" where
  "object_of kvs = JObj (foldl (\<lambda>ob (k, v). AList.update k v ob) [] kvs)"

fun parse_value :: "nat \<Rightarrow> string \<Rightarrow> (json \<times> string) option"
  and parse_elems :: "nat \<Rightarrow> string \<Rightarrow> (json list \<times> string) option"
  and parse_members :: "nat \<Rightarrow> string \<Rightarrow> ((string \<times> json) list \<times> string) option"
where
  "parse_value 0 s = None"
| "parse_value (Suc n) s = (case skip_ws s of
      [] \<Rightarrow> None
    | c # r \<Rightarrow>
        if c = CHR ''n'' then parse_word ''null'' JNull (c # r)
        else if c = CHR ''t'' then parse_word ''true'' (JBool True) (c # r)
        else if c = CHR ''f'' then parse_word ''false'' (JBool False) (c # r)
        else if c = quote_mark then map_option (\<lambda>(t, rest). (JStr t, rest)) (parse_chars r)
        else if c = CHR ''['' then (case skip_ws r of
            [] \<Rightarrow> None
          | e # r1 \<Rightarrow> if e = CHR '']'' then Some (JArr [], r1)
              else map_option (\<lambda>(xs, rest). (JArr xs, rest)) (parse_elems n r))
        else if c = CHR ''{'' then (case skip_ws r of
            [] \<Rightarrow> None
          | e # r1 \<Rightarrow> if e = CHR ''}'' then Some (object_of [], r1)
              else map_option (\<lambda>(kvs, rest). (object_of kvs, rest)) (parse_members n r))
        else parse_number (c # r))"
| "parse_elems 0 s = None"
| "parse_elems (Suc n) s = (case parse_value n s of
      None \<Rightarrow> None
    | Some (v, r) \<Rightarrow> (case skip_ws r of
          [] \<Rightarrow> None
        | c # r1 \<Rightarrow>
            if c = CHR '','' then map_option (\<lambda>(vs, rest). (v # vs, rest)) (parse_elems n r1)
            else if c = CHR '']'' then Some ([v], r1) else None))"
| "parse_members 0 s = None"
| "parse_members (Suc n) s = (case skip_ws s of
      [] \<Rightarrow> None
    | q # r \<Rightarrow>
        if q \<noteq> quote_mark then None
        else (case parse_chars r of
            None \<Rightarrow> None
          | Some (k, r1) \<Rightarrow> (case skip_ws r1 of
                [] \<Rightarrow> None
              | c # r2 \<Rightarrow>
                  if c \<noteq> CHR '':'' then None
                  else (case parse_value n r2 of
                      None \<Rightarrow> None
                    | Some (v, r3) \<Rightarrow> (case skip_ws r3 of
                          [] \<Rightarrow> None
                        | d # r4 \<Rightarrow>
                            if d = CHR '','' then map_option (\<lambda>(kvs, rest). ((k, v) # kvs, rest)) (parse_members n r4)
                            else if d = CHR ''}'' then Some ([(k, v)], r4) else None)))))"

definition parse_json :: "string \<Rightarrow> json res" where
  "parse_json s = (case parse_value (Suc (2 * length s)) s of
      Some (v, rest) \<Rightarrow> if skip_ws rest = [] then Inr v else Inl ''SyntaxError''
    | None \<Rightarrow> Inl ''SyntaxError'')"

subsection \<open>Strings and numbers\<close>

lemma hex_value_digit: "d < 16 \<Longrightarrow> hex_value (hex_digit d) = Some d"
  by (simp add: hex_value_def hex_digit_def Let_def)

lemma hex4_control:
  assumes "(of_char c :: nat) < 32"
  shows "hex4 (CHR ''0'') (CHR ''0'') (hex_digit (of_char c div 16)) (hex_digit (of_char c mod 16)) = Some c"
proof -
  have "(of_char c :: nat) div 16 < 16" "(of_char c :: nat) mod 16 < 16" using assms by auto
  moreover have "hex_value (CHR ''0'') = Some 0" by (simp add: hex_value_def)
  moreover have "16 * (of_char c div 16) + of_char c mod 16 = (of_char c :: nat)" by simp
  ultimately show ?thesis using assms by (simp add: hex4_def hex_value_digit Let_def)
qed

lemma parse_escape: "parse_chars (escape_char c @ s) = put_char c (parse_chars s)"
proof -
  consider "c = quote_mark" | "c = backslash" | "c = CHR 0x08" | "c = CHR 0x0C" | "c = CHR 0x0A" | "c = CHR 0x0D"
    | "c = CHR 0x09" | "c \<notin> {quote_mark, backslash, CHR 0x08, CHR 0x0C, CHR 0x0A, CHR 0x0D, CHR 0x09}" by blast
  then show ?thesis
  proof cases
    case 8
    show ?thesis
    proof (cases "(of_char c :: nat) < 32")
      case True
      with 8 show ?thesis by (simp add: escape_char_def hex4_control)
    next
      case False
      with 8 show ?thesis by (simp add: escape_char_def)
    qed
  qed (simp_all add: escape_char_def simple_escape_def)
qed

lemma parse_json_string: "parse_chars (concat (map escape_char t) @ quote_mark # rest) = Some (t, rest)"
  by (induction t) (simp_all add: parse_escape put_char_def)

lemma json_string_append: "json_string t @ rest = quote_mark # concat (map escape_char t) @ quote_mark # rest"
  by (simp add: json_string_def)

lemma show_nat_head: "show_nat n = c # cs \<Longrightarrow> is_digit c \<and> (c = CHR ''0'' \<longrightarrow> cs = [])"
proof (induction n arbitrary: c cs rule: show_nat.induct)
  case (1 n)
  have d: "digits_only (show_nat n)" by (rule show_nat_digits)
  show ?case
  proof (cases "n < 10")
    case True
    then have "show_nat n = [show_digit n]" by (subst show_nat.simps) simp
    with 1(2) d show ?thesis by (simp add: digits_only_def)
  next
    case False
    obtain b bs where b: "show_nat (n div 10) = b # bs"
      using show_nat_digits [of "n div 10"] by (cases "show_nat (n div 10)") (auto simp: digits_only_def)
    have "b = CHR ''0'' \<longrightarrow> bs = []" using 1(1) [OF False b] by simp
    moreover have "parse_nat (show_nat (n div 10)) \<noteq> 0" using False by (simp add: parse_show_nat)
    ultimately have "b \<noteq> CHR ''0''" unfolding b by (auto simp: parse_nat_def)
    moreover have "c = b" using 1(2) False b by (subst (asm) show_nat.simps) simp
    ultimately show ?thesis using d 1(2) by (simp add: digits_only_def)
  qed
qed

definition follow :: "string \<Rightarrow> bool" where
  "follow rest \<longleftrightarrow> rest = [] \<or> hd rest \<in> {CHR '','', CHR '']'', CHR ''}''}"

lemma parse_number_show:
  assumes "follow rest"
  shows "parse_number (show_int i @ rest) = Some (JNum i, rest)"
proof -
  have r: "takeWhile is_digit rest = []" "dropWhile is_digit rest = rest"
    using assms by (cases rest; auto simp: follow_def is_digit_def)+
  have t: "takeWhile is_digit (show_nat n @ rest) = show_nat n" "dropWhile is_digit (show_nat n @ rest) = rest" for n
    using show_nat_digits [of n] r by (auto simp: digits_only_def list_all_iff takeWhile_append dropWhile_append)
  have f: "\<not> fraction_follows rest" using assms by (auto simp: follow_def fraction_follows_def)
  obtain c cs where c: "show_nat (nat \<bar>i\<bar>) = c # cs"
    using show_nat_digits [of "nat \<bar>i\<bar>"] by (cases "show_nat (nat \<bar>i\<bar>)") (auto simp: digits_only_def)
  have z: "is_digit c" "c = CHR ''0'' \<longrightarrow> cs = []" using show_nat_head [OF c] by auto
  then have m: "c \<noteq> CHR ''-''" by (auto simp: is_digit_def)
  have v: "parse_nat (c # cs) = nat \<bar>i\<bar>" using parse_show_nat [of "nat \<bar>i\<bar>"] by (simp add: c)
  note tc = t [of "nat \<bar>i\<bar>", unfolded c]
  show ?thesis
  proof (cases "i < 0")
    case True
    then have "show_int i = CHR ''-'' # c # cs" using c by (simp add: show_int_def)
    with True tc z f v show ?thesis by (simp add: parse_number_def Let_def)
  next
    case False
    then have "show_int i = c # cs" using c by (simp add: show_int_def)
    with False tc z m f v show ?thesis by (simp add: parse_number_def Let_def)
  qed
qed

subsection \<open>The round trip\<close>

fun keyed :: "json \<Rightarrow> bool"
  and keyed_all :: "json list \<Rightarrow> bool"
  and keyed_members :: "(string \<times> json) list \<Rightarrow> bool"
where
  "keyed (JArr xs) \<longleftrightarrow> keyed_all xs"
| "keyed (JObj kvs) \<longleftrightarrow> distinct (map fst kvs) \<and> keyed_members kvs"
| "keyed JNull \<longleftrightarrow> True"
| "keyed (JBool b) \<longleftrightarrow> True"
| "keyed (JNum n) \<longleftrightarrow> True"
| "keyed (JStr t) \<longleftrightarrow> True"
| "keyed_all [] \<longleftrightarrow> True"
| "keyed_all (x # xs) \<longleftrightarrow> keyed x \<and> keyed_all xs"
| "keyed_members [] \<longleftrightarrow> True"
| "keyed_members ((k, v) # kvs) \<longleftrightarrow> keyed v \<and> keyed_members kvs"

lemma update_new: "k \<notin> fst ` set ob \<Longrightarrow> AList.update k v ob = ob @ [(k, v)]"
  by (induction ob) auto

lemma object_of_distinct: "distinct (map fst kvs) \<Longrightarrow> object_of kvs = JObj kvs"
proof -
  have "distinct (map fst (ob @ kvs)) \<Longrightarrow> foldl (\<lambda>ob (k, v). AList.update k v ob) ob kvs = ob @ kvs" for ob
  proof (induction kvs arbitrary: ob)
    case (Cons kv kvs)
    obtain k v where kv: "kv = (k, v)" by fastforce
    from Cons.prems kv have "k \<notin> fst ` set ob" by force
    then have "AList.update k v ob = ob @ [(k, v)]" by (rule update_new)
    with Cons kv show ?case by simp
  qed simp
  from this [of "[]"] show "distinct (map fst kvs) \<Longrightarrow> object_of kvs = JObj kvs" by (simp add: object_of_def)
qed

text \<open>The first character of a printed value tells its kind and is no white space.\<close>

lemma skip_ws_char: "\<not> is_ws c \<Longrightarrow> skip_ws (c # s) = c # s"
  by (simp add: skip_ws_def)

lemma json_text_head:
  "\<exists>c s. json_text v = c # s \<and> \<not> is_ws c \<and> c \<noteq> CHR '']''"
proof (cases v)
  case (JNum n)
  show ?thesis
  proof (cases "n < 0")
    case True
    with JNum show ?thesis by (simp add: show_int_def is_ws_def)
  next
    case False
    obtain c cs where c: "show_nat (nat n) = c # cs"
      using show_nat_digits [of "nat n"] by (cases "show_nat (nat n)") (auto simp: digits_only_def)
    then have "is_digit c" using show_nat_head by blast
    then have "\<not> is_ws c" "c \<noteq> CHR '']''" by (auto simp: is_digit_def is_ws_def)
    with False c JNum show ?thesis by (simp add: show_int_def)
  qed
qed (auto simp: json_string_def is_ws_def)

lemma parse_number_dispatch:
  "skip_ws (show_int i @ rest) = show_int i @ rest \<and>
   (\<forall>c s. show_int i @ rest = c # s \<longrightarrow> c \<notin> {CHR ''n'', CHR ''t'', CHR ''f'', quote_mark, CHR ''['', CHR ''{''})"
proof -
  obtain c cs where c: "show_nat (nat \<bar>i\<bar>) = c # cs"
    using show_nat_digits [of "nat \<bar>i\<bar>"] by (cases "show_nat (nat \<bar>i\<bar>)") (auto simp: digits_only_def)
  then have "is_digit c" using show_nat_head by blast
  then have "\<not> is_ws c" "c \<notin> {CHR ''n'', CHR ''t'', CHR ''f'', quote_mark, CHR ''['', CHR ''{''}"
    by (auto simp: is_digit_def is_ws_def)
  then show ?thesis using c by (cases "i < 0") (auto simp: show_int_def skip_ws_char is_ws_def)
qed

lemma json_round_trip:
  "keyed v \<Longrightarrow> follow rest \<Longrightarrow> 2 * length (json_text v) \<le> n \<Longrightarrow> parse_value n (json_text v @ rest) = Some (v, rest)"
  "keyed_all xs \<Longrightarrow> xs \<noteq> [] \<Longrightarrow> 2 * length (elems_text xs) \<le> n \<Longrightarrow> parse_elems n (elems_text xs @ rest) = Some (xs, rest)"
  "keyed_members kvs \<Longrightarrow> kvs \<noteq> [] \<Longrightarrow> 2 * length (members_text kvs) \<le> n \<Longrightarrow>
     parse_members n (members_text kvs @ rest) = Some (kvs, rest)"
proof (induction v and xs and kvs arbitrary: n rest and n rest and n rest rule: json_text_elems_text_members_text.induct)
  case 1
  then obtain m where n: "n = Suc m" by (cases n) auto
  show ?case by (simp add: n skip_ws_char is_ws_def parse_word_def)
next
  case (2 b)
  then obtain m where n: "n = Suc m" by (cases n; cases b) auto
  show ?case by (cases b) (simp_all add: n skip_ws_char is_ws_def parse_word_def)
next
  case (3 i)
  then obtain m where n: "n = Suc m" using json_text_head [of "JNum i"] by (cases n) auto
  obtain c s where c: "show_int i @ rest = c # s" using json_text_head [of "JNum i"] by auto
  have "parse_value n (c # s) = parse_number (c # s)"
    using parse_number_dispatch [of i rest] c by (simp add: n)
  with c parse_number_show [OF 3(2), of i] show ?case by simp
next
  case (4 t)
  then obtain m where n: "n = Suc m" by (cases n) (auto simp: json_string_def)
  show ?case by (simp add: n json_string_append skip_ws_char is_ws_def parse_json_string)
next
  case (5 xs)
  then obtain m where n: "n = Suc m" by (cases n) auto
  show ?case
  proof (cases xs)
    case Nil
    then show ?thesis by (simp add: n skip_ws_char is_ws_def)
  next
    case (Cons y ys)
    obtain c s where c: "elems_text xs @ rest = c # s" "\<not> is_ws c" "c \<noteq> CHR '']''"
      using json_text_head [of y] Cons by auto
    have "parse_elems m (elems_text xs @ rest) = Some (xs, rest)"
      using 5(2,4) Cons n by (intro 5(1)) (auto simp: Cons)
    with Cons c show ?thesis by (simp add: n skip_ws_char is_ws_def)
  qed
next
  case (6 kvs)
  then obtain m where n: "n = Suc m" by (cases n) auto
  show ?case
  proof (cases kvs)
    case Nil
    then show ?thesis by (simp add: n skip_ws_char is_ws_def object_of_def)
  next
    case (Cons kv ys)
    obtain s where c: "members_text kvs @ rest = quote_mark # s"
      using Cons by (cases kv) (simp add: json_string_def)
    have "parse_members m (members_text kvs @ rest) = Some (kvs, rest)"
      using 6(2,4) Cons n by (intro 6(1)) (auto simp: Cons)
    with Cons c 6(2) show ?thesis by (simp add: n skip_ws_char is_ws_def object_of_distinct)
  qed
next
  case (8 x xs)
  from 8(5) have "n \<noteq> 0" by (cases xs) auto
  then obtain m where n: "n = Suc m" by (cases n) auto
  let ?tail = "case xs of [] \<Rightarrow> '']'' | _ \<Rightarrow> CHR '','' # elems_text xs"
  have v: "parse_value m (json_text x @ ?tail @ rest) = Some (x, ?tail @ rest)"
    using 8(3,5) n by (intro 8(1)) (auto simp: follow_def split: list.splits)
  show ?case
  proof (cases xs)
    case Nil
    with v show ?thesis by (simp add: n skip_ws_char is_ws_def)
  next
    case (Cons y ys)
    have "parse_elems m (elems_text xs @ rest) = Some (xs, rest)"
      using 8(3,5) Cons n by (intro 8(2)) auto
    with Cons v show ?thesis by (simp add: n skip_ws_char is_ws_def)
  qed
next
  case (10 k v kvs)
  from 10(5) have "n \<noteq> 0" by (cases kvs) auto
  then obtain m where n: "n = Suc m" by (cases n) auto
  let ?tail = "case kvs of [] \<Rightarrow> ''}'' | _ \<Rightarrow> CHR '','' # members_text kvs"
  have v: "parse_value m (json_text v @ ?tail @ rest) = Some (v, ?tail @ rest)"
    using 10(3,5) n by (intro 10(1)) (auto simp: follow_def split: list.splits)
  show ?case
  proof (cases kvs)
    case Nil
    with v show ?thesis by (simp add: n json_string_append skip_ws_char is_ws_def parse_json_string)
  next
    case (Cons y ys)
    have "parse_members m (members_text kvs @ rest) = Some (kvs, rest)"
      using 10(3,5) Cons n by (intro 10(2)) auto
    with Cons v show ?thesis by (simp add: n json_string_append skip_ws_char is_ws_def parse_json_string)
  qed
qed simp_all

lemma parse_json_text: "keyed v \<Longrightarrow> parse_json (json_text v) = Inr v"
proof -
  assume k: "keyed v"
  have "parse_value (Suc (2 * length (json_text v))) (json_text v @ []) = Some (v, [])"
    by (rule json_round_trip(1) [OF k]) (simp_all add: follow_def)
  then show ?thesis by (simp add: parse_json_def skip_ws_def)
qed

end
