(* ===== verification/Keeper_Json.thy ===== *)
theory Keeper_Json
  imports Json_Text
begin

section \<open>Persisted RangeKeeper values\<close>

text \<open>
  \<open>rangeKeeperJson\<close> and \<open>parseRangeKeeperJson\<close> of \<open>src/strategy/rangekeeper/live-domain.ts\<close>:
  a \<open>bigint\<close> is stored as an object with one marked member.  The replacer runs on every value
  that is printed, the reviver bottom-up on every value that was parsed.
\<close>

datatype js =
    VNull
  | VBool bool
  | VNum int
  | VStr string
  | VBig int
  | VArr "js list"
  | VObj "(string \<times> js) list"

definition marker :: string where
  "marker = ''__rangekeeper_bigint_v1__''"

fun replace_big :: "js \<Rightarrow> json"
  and replace_all :: "js list \<Rightarrow> json list"
  and replace_members :: "(string \<times> js) list \<Rightarrow> (string \<times> json) list"
where
  "replace_big VNull = JNull"
| "replace_big (VBool b) = JBool b"
| "replace_big (VNum n) = JNum n"
| "replace_big (VStr s) = JStr s"
| "replace_big (VBig n) = JObj [(marker, JStr (show_int n))]"
| "replace_big (VArr xs) = JArr (replace_all xs)"
| "replace_big (VObj kvs) = JObj (replace_members kvs)"
| "replace_all [] = []"
| "replace_all (x # xs) = replace_big x # replace_all xs"
| "replace_members [] = []"
| "replace_members ((k, v) # kvs) = (k, replace_big v) # replace_members kvs"

definition rangeKeeperJson :: "js \<Rightarrow> string" where
  "rangeKeeperJson v = json_text (replace_big v)"

text \<open>The texts that match \<open>/^-?(0|[1-9][0-9]*)$/\<close>.\<close>

definition bigint_text :: "string \<Rightarrow> bool" where
  "bigint_text s = (let ds = (if s \<noteq> [] \<and> hd s = CHR ''-'' then tl s else s) in
     digits_only ds \<and> (hd ds = CHR ''0'' \<longrightarrow> length ds = 1))"

text \<open>The reviver on an object whose members are revived.\<close>

definition revive_object :: "(string \<times> js) list \<Rightarrow> js res" where
  "revive_object kvs = (case kvs of
      [(k, w)] \<Rightarrow>
        if k = marker then (case w of
            VStr s \<Rightarrow> if bigint_text s then Inr (VBig (the (parse_int s))) else Inl ''Invalid persisted bigint''
          | _ \<Rightarrow> Inl ''Invalid persisted bigint'')
        else Inr (VObj kvs)
    | _ \<Rightarrow> Inr (VObj kvs))"

fun revive :: "json \<Rightarrow> js res"
  and revive_all :: "json list \<Rightarrow> js list res"
  and revive_members :: "(string \<times> json) list \<Rightarrow> (string \<times> js) list res"
where
  "revive JNull = Inr VNull"
| "revive (JBool b) = Inr (VBool b)"
| "revive (JNum n) = Inr (VNum n)"
| "revive (JStr s) = Inr (VStr s)"
| "revive (JArr xs) = bind_ok (revive_all xs) (\<lambda>vs. Inr (VArr vs))"
| "revive (JObj kvs) = bind_ok (revive_members kvs) revive_object"
| "revive_all [] = Inr []"
| "revive_all (x # xs) = bind_ok (revive x) (\<lambda>v. bind_ok (revive_all xs) (\<lambda>vs. Inr (v # vs)))"
| "revive_members [] = Inr []"
| "revive_members ((k, x) # kvs) = bind_ok (revive x) (\<lambda>v. bind_ok (revive_members kvs) (\<lambda>vs. Inr ((k, v) # vs)))"

text \<open>A stored value is a text, or a \<open>jsonb\<close> column that the driver has parsed already.\<close>

definition parseRangeKeeperJson :: "string + json \<Rightarrow> js res" where
  "parseRangeKeeperJson stored =
     bind_ok (parse_json (case stored of Inl text \<Rightarrow> text | Inr j \<Rightarrow> json_text j)) revive"

subsection \<open>The round trip\<close>

text \<open>Distinct keys, as every JavaScript object has, and no object that looks like a stored \<open>bigint\<close>.\<close>

fun js_keyed :: "js \<Rightarrow> bool"
  and js_keyed_all :: "js list \<Rightarrow> bool"
  and js_keyed_members :: "(string \<times> js) list \<Rightarrow> bool"
where
  "js_keyed (VArr xs) \<longleftrightarrow> js_keyed_all xs"
| "js_keyed (VObj kvs) \<longleftrightarrow> distinct (map fst kvs) \<and> js_keyed_members kvs"
| "js_keyed VNull \<longleftrightarrow> True"
| "js_keyed (VBool b) \<longleftrightarrow> True"
| "js_keyed (VNum n) \<longleftrightarrow> True"
| "js_keyed (VStr s) \<longleftrightarrow> True"
| "js_keyed (VBig n) \<longleftrightarrow> True"
| "js_keyed_all [] \<longleftrightarrow> True"
| "js_keyed_all (x # xs) \<longleftrightarrow> js_keyed x \<and> js_keyed_all xs"
| "js_keyed_members [] \<longleftrightarrow> True"
| "js_keyed_members ((k, v) # kvs) \<longleftrightarrow> js_keyed v \<and> js_keyed_members kvs"

fun unmarked :: "js \<Rightarrow> bool"
  and unmarked_all :: "js list \<Rightarrow> bool"
  and unmarked_members :: "(string \<times> js) list \<Rightarrow> bool"
where
  "unmarked (VArr xs) \<longleftrightarrow> unmarked_all xs"
| "unmarked (VObj kvs) \<longleftrightarrow> map fst kvs \<noteq> [marker] \<and> unmarked_members kvs"
| "unmarked VNull \<longleftrightarrow> True"
| "unmarked (VBool b) \<longleftrightarrow> True"
| "unmarked (VNum n) \<longleftrightarrow> True"
| "unmarked (VStr s) \<longleftrightarrow> True"
| "unmarked (VBig n) \<longleftrightarrow> True"
| "unmarked_all [] \<longleftrightarrow> True"
| "unmarked_all (x # xs) \<longleftrightarrow> unmarked x \<and> unmarked_all xs"
| "unmarked_members [] \<longleftrightarrow> True"
| "unmarked_members ((k, v) # kvs) \<longleftrightarrow> unmarked v \<and> unmarked_members kvs"

lemma replace_keys: "map fst (replace_members kvs) = map fst kvs"
  by (induction kvs) auto

lemma replace_keyed:
  "js_keyed v \<Longrightarrow> keyed (replace_big v)" "js_keyed_all xs \<Longrightarrow> keyed_all (replace_all xs)"
  "js_keyed_members kvs \<Longrightarrow> keyed_members (replace_members kvs)"
  by (induction v and xs and kvs rule: replace_big_replace_all_replace_members.induct) (simp_all add: replace_keys)

lemma bigint_text_show: "bigint_text (show_int n)"
proof -
  obtain c cs where c: "show_nat (nat \<bar>n\<bar>) = c # cs"
    using show_nat_digits [of "nat \<bar>n\<bar>"] by (cases "show_nat (nat \<bar>n\<bar>)") (auto simp: digits_only_def)
  have "digits_only (c # cs)" using show_nat_digits [of "nat \<bar>n\<bar>"] by (simp add: c)
  moreover have "c = CHR ''0'' \<longrightarrow> cs = []" "is_digit c" using show_nat_head [OF c] by auto
  moreover from this have "c \<noteq> CHR ''-''" by (auto simp: is_digit_def)
  ultimately show ?thesis using c by (cases "n < 0") (auto simp: show_int_def bigint_text_def)
qed

lemma revive_object_id: "map fst kvs \<noteq> [marker] \<Longrightarrow> revive_object kvs = Inr (VObj kvs)"
  by (auto simp: revive_object_def split: list.splits)

lemma revive_object_VObj: "revive_object kvs = Inr (VObj kvs') \<Longrightarrow> kvs' = kvs \<and> map fst kvs \<noteq> [marker]"
  by (auto simp: revive_object_def split: list.splits if_splits js.splits)

lemma revive_replace:
  "revive (replace_big v) = Inr v \<longleftrightarrow> unmarked v" "revive_all (replace_all xs) = Inr xs \<longleftrightarrow> unmarked_all xs"
  "revive_members (replace_members kvs) = Inr kvs \<longleftrightarrow> unmarked_members kvs"
proof (induction v and xs and kvs rule: replace_big_replace_all_replace_members.induct)
  case (5 n)
  show ?case by (simp add: revive_object_def bigint_text_show parse_show_int)
next
  case (7 kvs)
  then show ?case
    by (auto simp: bind_ok_Inr_iff revive_object_id dest: revive_object_VObj)
qed (auto simp: bind_ok_Inr_iff)

text \<open>
  C22: what is persisted is what is read back.  A value, at any depth and with \<open>bigint\<close>s of any
  size, survives storing and parsing unchanged exactly when no object in it has the marker as
  its only key; this holds for the stored text and for the column a driver has parsed.
\<close>

theorem rangeKeeperJson_round_trip:
  assumes "js_keyed v"
  shows "(parseRangeKeeperJson (Inl (rangeKeeperJson v)) = Inr v \<longleftrightarrow> unmarked v) \<and>
    (parseRangeKeeperJson (Inr (replace_big v)) = Inr v \<longleftrightarrow> unmarked v)"
  using parse_json_text [OF replace_keyed(1) [OF assms]]
  by (simp add: parseRangeKeeperJson_def rangeKeeperJson_def revive_replace(1))

theorem rangeKeeperJson_round_trip_witness:
  "parseRangeKeeperJson (Inl (rangeKeeperJson
      (VObj [(''liquidity'', VBig (2 ^ 200)), (''cost'', VBig (- 5)), (''tags'', VArr [VStr ''a b'', VNum 3, VNull])]))) =
     Inr (VObj [(''liquidity'', VBig (2 ^ 200)), (''cost'', VBig (- 5)), (''tags'', VArr [VStr ''a b'', VNum 3, VNull])])"
  using rangeKeeperJson_round_trip [of "VObj [(''liquidity'', VBig (2 ^ 200)), (''cost'', VBig (- 5)),
      (''tags'', VArr [VStr ''a b'', VNum 3, VNull])]"] by (simp add: marker_def)

end
