(* ===== verification/Keeper_Wallet.thy ===== *)
theory Keeper_Wallet
  imports Keeper_Plan Keeper_Json "HOL-Library.Char_ord" "HOL-Library.List_Lexorder"
begin

section \<open>RangeKeeper: wallet allowances, funding and cost envelopes\<close>

text \<open>
  \<open>src/strategy/rangekeeper/allowance-policy.ts\<close>, \<open>funding.ts\<close> and \<open>cost.ts\<close>.  Two sides check
  the allowances of a wallet: the worker against the scope of its campaigns, and the queue, from
  the caps persisted with the cleanup proof, where amounts and caps are decimal texts.
\<close>

subsection \<open>Allowances\<close>

definition CAP_MULTIPLE :: int where
  "CAP_MULTIPLE = 5"

definition MAX_UINT256 :: int where
  "MAX_UINT256 = 2 ^ 256 - 1"

definition allowancePairKey :: "string \<Rightarrow> string \<Rightarrow> string" where
  "allowancePairKey token spender = lower token @ '':'' @ lower spender"

definition deployable :: "int \<Rightarrow> int \<Rightarrow> nat \<Rightarrow> int" where
  "deployable price maxDeployment decimals =
     (if price > 0 then (maxDeployment * 10 ^ decimals) sdiv price else 0)"

definition rangeKeeperAllowanceExposure ::
  "int \<times> int \<Rightarrow> int \<Rightarrow> nat \<times> nat \<Rightarrow> (int \<times> int) option \<Rightarrow> (int \<times> int) res"
where
  "rangeKeeperAllowanceExposure initial maxDeployment decimals prices =
     bind_ok (ensure (fst initial \<ge> 0 \<and> snd initial \<ge> 0 \<and> maxDeployment \<ge> 0)
       ''Allowance exposure inputs must be non-negative'') (\<lambda>_.
       let cap = (\<lambda>price decs. case prices of None \<Rightarrow> 0 | Some ps \<Rightarrow> deployable (price ps) maxDeployment decs);
           c0 = cap fst (fst decimals); c1 = cap snd (snd decimals) in
       Inr (if fst initial > c0 then fst initial else c0, if snd initial > c1 then snd initial else c1))"

definition allowanceCeiling :: "int \<Rightarrow> int" where
  "allowanceCeiling exposure = CAP_MULTIPLE * exposure"

definition persistentAllowanceGrant :: "int \<Rightarrow> int \<Rightarrow> int \<Rightarrow> int option res" where
  "persistentAllowanceGrant current needed exposure =
     bind_ok (ensure (current \<ge> 0 \<and> needed \<ge> 0 \<and> exposure \<ge> 0) ''Allowance amounts must be non-negative'') (\<lambda>_.
       if current \<ge> needed then Inr None
       else let cap = allowanceCeiling exposure; am = (if needed > cap then needed else cap) in
         bind_ok (ensure (am < MAX_UINT256) ''Persistent allowance must stay finite'') (\<lambda>_. Inr (Some am)))"

record WalletAllowanceScope =
  sc_tokens :: "string list"
  sc_spenders :: "string list"
  sc_used :: "string list"
  sc_ceiling :: "string \<Rightarrow> int option"

datatype WalletAllowanceViolation = Unregistered_token | Unregistered_spender | Unused_pair | Above_cap

record ObservedAllowance =
  al_token :: string
  al_spender :: string
  al_amount :: int

definition ceiling_of :: "WalletAllowanceScope \<Rightarrow> string \<Rightarrow> int" where
  "ceiling_of scope token = (case sc_ceiling scope token of None \<Rightarrow> 0 | Some c \<Rightarrow> c)"

definition walletAllowanceViolation ::
  "ObservedAllowance \<Rightarrow> WalletAllowanceScope \<Rightarrow> WalletAllowanceViolation option res"
where
  "walletAllowanceViolation a scope =
     bind_ok (ensure (al_amount a \<ge> 0) ''Allowance amount must be non-negative'') (\<lambda>_.
       let token = lower (al_token a); spender = lower (al_spender a) in
       Inr (if al_amount a = 0 then None
         else if token \<notin> set (sc_tokens scope) then Some Unregistered_token
         else if spender \<notin> set (sc_spenders scope) then Some Unregistered_spender
         else if allowancePairKey token spender \<notin> set (sc_used scope) then Some Unused_pair
         else if al_amount a > ceiling_of scope token then Some Above_cap else None))"

fun assertWalletAllowancesInPolicy :: "ObservedAllowance list \<Rightarrow> WalletAllowanceScope \<Rightarrow> unit res" where
  "assertWalletAllowancesInPolicy [] scope = Inr ()"
| "assertWalletAllowancesInPolicy (a # as) scope =
     bind_ok (walletAllowanceViolation a scope) (\<lambda>violation.
     bind_ok (ensure (violation = None) ''Wallet allowance is outside the policy'') (\<lambda>_.
       assertWalletAllowancesInPolicy as scope))"

record allowance_cap =
  cap_token :: string
  cap_spender :: string
  cap_text :: string

text \<open>\<open>key.split(':')\<close>, of which the first two parts are used.\<close>

definition key_parts :: "string \<Rightarrow> string \<times> string" where
  "key_parts key = (takeWhile (\<lambda>c. c \<noteq> CHR '':'') key,
     takeWhile (\<lambda>c. c \<noteq> CHR '':'') (tl (dropWhile (\<lambda>c. c \<noteq> CHR '':'') key)))"

definition walletAllowanceCaps :: "WalletAllowanceScope \<Rightarrow> allowance_cap list" where
  "walletAllowanceCaps scope = map (\<lambda>key. case key_parts key of (token, spender) \<Rightarrow>
     \<lparr>cap_token = token, cap_spender = spender, cap_text = show_int (ceiling_of scope token)\<rparr>) (sort (sc_used scope))"

text \<open>\<open>/^(0|[1-9][0-9]*)$/\<close>\<close>

definition uint_text :: "string \<Rightarrow> bool" where
  "uint_text s \<longleftrightarrow> digits_only s \<and> (hd s = CHR ''0'' \<longrightarrow> length s = 1)"

fun allowed_caps :: "allowance_cap list \<Rightarrow> (string \<times> int) list \<Rightarrow> (string \<times> int) list res" where
  "allowed_caps [] m = Inr m"
| "allowed_caps (c # cs) m =
     bind_ok (ensure (uint_text (cap_text c)) ''Allowance cap is malformed'') (\<lambda>_.
       allowed_caps cs (AList.update (allowancePairKey (cap_token c) (cap_spender c)) (int (parse_nat (cap_text c))) m))"

record stored_allowance =
  sa_token :: string
  sa_spender :: string
  sa_amount :: string

fun check_stored :: "stored_allowance list \<Rightarrow> (string \<times> int) list \<Rightarrow> unit res" where
  "check_stored [] m = Inr ()"
| "check_stored (a # as) m =
     bind_ok (ensure (uint_text (sa_amount a)) ''Allowance amount is malformed'') (\<lambda>_.
       let am = int (parse_nat (sa_amount a)) in
       if am = 0 then check_stored as m
       else (case map_of m (allowancePairKey (sa_token a) (sa_spender a)) of
           None \<Rightarrow> Inl ''Allowance remains on a pair no active campaign uses''
         | Some cap \<Rightarrow> bind_ok (ensure (am \<le> cap) ''Allowance exceeds the cap'') (\<lambda>_. check_stored as m)))"

definition assertAllowancesWithinCaps :: "stored_allowance list \<Rightarrow> allowance_cap list \<Rightarrow> unit res" where
  "assertAllowancesWithinCaps allowances caps = bind_ok (allowed_caps caps []) (check_stored allowances)"

subsection \<open>Funding\<close>

record keeper_funds =
  fd_amount0 :: int
  fd_amount1 :: int
  fd_nativeWei :: int

record funding_limits =
  fl_decimals0 :: nat
  fl_decimals1 :: nat
  strategyFundingValue :: int
  nativeFundingValue :: int
  campaignValue :: int

record keeper_allocation =
  reserve0 :: int
  reserve1 :: int
  reserveNativeWei :: int
  allocated :: keeper_funds
  bookedStrategyValue :: int
  bookedNativeValue :: int
  totalBookedValue :: int

definition allocateRangeKeeperFunding ::
  "funding_limits \<Rightarrow> keeper_funds \<Rightarrow> int \<Rightarrow> int \<Rightarrow> int \<Rightarrow> keeper_funds \<Rightarrow> keeper_allocation res"
where
  "allocateRangeKeeperFunding fl wallet p0 p1 pn al =
     bind_ok (ensure (p0 > 0 \<and> p1 > 0 \<and> pn > 0) ''Independent funding references required'') (\<lambda>_.
     bind_ok (assertion (fd_amount0 al \<ge> 0 \<and> fd_amount1 al \<ge> 0 \<and> fd_nativeWei al \<ge> 0)) (\<lambda>_.
     bind_ok (ensure (fd_amount0 al \<le> fd_amount0 wallet \<and> fd_amount1 al \<le> fd_amount1 wallet \<and>
       fd_nativeWei al \<le> fd_nativeWei wallet) ''Allocation exceeds custody'') (\<lambda>_.
       let strategyValue = rawValue (fd_amount0 al) p0 (fl_decimals0 fl) + rawValue (fd_amount1 al) p1 (fl_decimals1 fl);
           nativeValue = rawValue (fd_nativeWei al) pn 18 in
     bind_ok (ensure (strategyValue > 0 \<and> nativeValue > 0) ''Campaign needs inventory and native gas'') (\<lambda>_.
     bind_ok (ensure (strategyValue \<le> strategyFundingValue fl) ''Strategy allocation exceeds cap'') (\<lambda>_.
     bind_ok (ensure (nativeValue \<le> nativeFundingValue fl) ''Native allocation exceeds cap'') (\<lambda>_.
     bind_ok (ensure (strategyValue + nativeValue \<le> campaignValue fl) ''Aggregate allocation exceeds cap'') (\<lambda>_.
       Inr \<lparr>reserve0 = fd_amount0 wallet - fd_amount0 al, reserve1 = fd_amount1 wallet - fd_amount1 al,
         reserveNativeWei = fd_nativeWei wallet - fd_nativeWei al, allocated = al, bookedStrategyValue = strategyValue,
         bookedNativeValue = nativeValue, totalBookedValue = strategyValue + nativeValue\<rparr>)))))))"

definition strategyBalances :: "keeper_funds \<Rightarrow> int \<Rightarrow> int \<Rightarrow> int \<Rightarrow> keeper_funds res" where
  "strategyBalances wallet r0 r1 rn =
     bind_ok (ensure (fd_amount0 wallet \<ge> r0 \<and> fd_amount1 wallet \<ge> r1 \<and> fd_nativeWei wallet \<ge> rn)
       ''Pre-existing wallet reserve was spent'') (\<lambda>_.
     Inr \<lparr>fd_amount0 = fd_amount0 wallet - r0, fd_amount1 = fd_amount1 wallet - r1,
       fd_nativeWei = fd_nativeWei wallet - rn\<rparr>)"

subsection \<open>Cost envelopes\<close>

datatype stage_kind = Approval | Swap | Mint | Withdraw_collect | Cleanup_approval

fun stage_gas_units :: "stage_kind \<Rightarrow> int" where
  "stage_gas_units Approval = 80000"
| "stage_gas_units Swap = 240000"
| "stage_gas_units Mint = 650000"
| "stage_gas_units Withdraw_collect = 330000"
| "stage_gas_units Cleanup_approval = 70000"

fun stage_name :: "stage_kind \<Rightarrow> string" where
  "stage_name Approval = ''approval''"
| "stage_name Swap = ''swap''"
| "stage_name Mint = ''mint''"
| "stage_name Withdraw_collect = ''withdrawCollect''"
| "stage_name Cleanup_approval = ''cleanupApproval''"

record RangeKeeperCostEnvelope =
  maxFeePerGasWei :: int
  ev_actionGasUnits :: int
  ev_actionGasWei :: int
  actionCostValue :: int
  completeExitGasUnits :: int
  ev_requiredExitReserveWei :: int

definition WAD :: int where
  "WAD = 10 ^ 18"

definition AAPL_POOL :: string where
  "AAPL_POOL = ''0xAae0d815EE56e4092a5E5C2911E676Fea50B2d6D''"

definition rangeKeeperCostEnvelope ::
  "RangeKeeperCandidate \<Rightarrow> RangeKeeperLimits \<Rightarrow> int \<Rightarrow> int \<Rightarrow> int \<Rightarrow> bool \<Rightarrow> string \<Rightarrow> RangeKeeperCostEnvelope res"
where
  "rangeKeeperCostEnvelope c l baseFee marketPrice nativeValue existing pool =
     bind_ok (ensure (lower pool = lower AAPL_POOL) ''No fork gas evidence for this pool'') (\<lambda>_.
     bind_ok (ensure (baseFee > 0 \<and> marketPrice > 0 \<and> nativeValue > 0) ''Fresh fee and native reference required'') (\<lambda>_.
     bind_ok (assertion (case ck_swap c of None \<Rightarrow> True | Some sw \<Rightarrow> sw_feeValue sw \<ge> 0 \<and> sw_shortfallValue sw \<ge> 0)) (\<lambda>_.
       let u = stage_gas_units;
           marketFee = (if marketPrice > baseFee then marketPrice else baseFee);
           fee = ceilDiv (marketFee * 5) 4;
           actionUnits = (if existing then u Withdraw_collect else 0) + u Approval * 2 + u Mint +
             (if ck_swap c \<noteq> None then u Approval + u Swap else 0);
           exitUnits = u Withdraw_collect + u Approval + u Swap + u Cleanup_approval * 4;
           gasWei = actionUnits * fee in
       Inr \<lparr>maxFeePerGasWei = fee, ev_actionGasUnits = actionUnits, ev_actionGasWei = gasWei,
         actionCostValue = ceilDiv (gasWei * nativeValue) WAD +
           (case ck_swap c of None \<Rightarrow> 0 | Some sw \<Rightarrow> sw_feeValue sw + sw_shortfallValue sw),
         completeExitGasUnits = exitUnits,
         ev_requiredExitReserveWei = (if exitUnits * fee > exitReserveWei l then exitUnits * fee else exitReserveWei l)\<rparr>)))"

definition assertRangeKeeperStageGas :: "stage_kind \<Rightarrow> int \<Rightarrow> unit res" where
  "assertRangeKeeperStageGas kind estimated =
     ensure (estimated > 0 \<and> estimated \<le> stage_gas_units kind)
       (''rangekeeper_'' @ stage_name kind @ ''_gas_bound'')"

subsection \<open>Both checks agree\<close>

text \<open>
  A scope as the wallet builds it: lower-case addresses without a colon, pairs of registered
  tokens and spenders, and ceilings that are not negative.
\<close>

definition scope_ok :: "WalletAllowanceScope \<Rightarrow> bool" where
  "scope_ok scope \<longleftrightarrow>
     (\<forall>key\<in>set (sc_used scope). \<exists>t\<in>set (sc_tokens scope). \<exists>s\<in>set (sc_spenders scope). key = t @ '':'' @ s) \<and>
     (\<forall>t\<in>set (sc_tokens scope) \<union> set (sc_spenders scope). lower t = t \<and> CHR '':'' \<notin> set t) \<and>
     (\<forall>t. 0 \<le> ceiling_of scope t)"

definition stored_of :: "ObservedAllowance \<Rightarrow> stored_allowance" where
  "stored_of a = \<lparr>sa_token = al_token a, sa_spender = al_spender a, sa_amount = show_int (al_amount a)\<rparr>"

definition in_policy :: "WalletAllowanceScope \<Rightarrow> ObservedAllowance \<Rightarrow> bool" where
  "in_policy scope a \<longleftrightarrow> 0 \<le> al_amount a \<and> (al_amount a = 0 \<or>
     lower (al_token a) \<in> set (sc_tokens scope) \<and> lower (al_spender a) \<in> set (sc_spenders scope) \<and>
     allowancePairKey (al_token a) (al_spender a) \<in> set (sc_used scope) \<and>
     al_amount a \<le> ceiling_of scope (lower (al_token a)))"

lemma pair_key_lower [simp]: "allowancePairKey (lower t) (lower s) = allowancePairKey t s"
  by (simp add: allowancePairKey_def)

lemma violation_None: "walletAllowanceViolation a scope = Inr None \<longleftrightarrow> in_policy scope a"
  by (auto simp: walletAllowanceViolation_def in_policy_def Let_def bind_ok_Inr_iff)

lemma wallet_check_iff: "assertWalletAllowancesInPolicy as scope = Inr () \<longleftrightarrow> (\<forall>a\<in>set as. in_policy scope a)"
proof (induction as)
  case (Cons a as)
  have "assertWalletAllowancesInPolicy (a # as) scope = Inr () \<longleftrightarrow>
      walletAllowanceViolation a scope = Inr None \<and> assertWalletAllowancesInPolicy as scope = Inr ()"
    by (cases "walletAllowanceViolation a scope") (auto simp: bind_ok_Inr_iff)
  with Cons.IH show ?case by (simp add: violation_None)
qed simp

lemma uint_text_show: "uint_text (show_int n) \<longleftrightarrow> 0 \<le> n"
proof (cases "n < 0")
  case True
  then show ?thesis by (simp add: show_int_def uint_text_def digits_only_def is_digit_def)
next
  case False
  obtain c cs where c: "show_nat (nat n) = c # cs"
    using show_nat_digits [of "nat n"] by (cases "show_nat (nat n)") (auto simp: digits_only_def)
  with False show_nat_head [OF c] show_nat_digits [of "nat n"] show ?thesis by (auto simp: show_int_def uint_text_def)
qed

lemma parse_show_nonneg: "0 \<le> n \<Longrightarrow> parse_nat (show_int n) = nat n"
  by (simp add: show_int_def parse_show_nat)

lemma key_parts_pair: "CHR '':'' \<notin> set t \<Longrightarrow> CHR '':'' \<notin> set s \<Longrightarrow> key_parts (t @ '':'' @ s) = (t, s)"
proof -
  assume h: "CHR '':'' \<notin> set t" "CHR '':'' \<notin> set s"
  then have "takeWhile (\<lambda>c. c \<noteq> CHR '':'') (t @ CHR '':'' # s) = t" "dropWhile (\<lambda>c. c \<noteq> CHR '':'') (t @ CHR '':'' # s) = CHR '':'' # s"
    "takeWhile (\<lambda>c. c \<noteq> CHR '':'') s = s"
    by (auto simp: takeWhile_append dropWhile_append)
  then show "key_parts (t @ '':'' @ s) = (t, s)" by (simp add: key_parts_def)
qed

lemma pair_key_unique:
  assumes "x @ '':'' @ y = t @ '':'' @ s" "CHR '':'' \<notin> set t" "CHR '':'' \<notin> set s"
  shows "x = t \<and> y = s"
proof -
  have z: "count_list t (CHR '':'') = 0" "count_list s (CHR '':'') = 0" using assms(2,3) by (simp_all add: count_list_0_iff)
  have "count_list (x @ '':'' @ y) (CHR '':'') = count_list (t @ '':'' @ s) (CHR '':'')" using assms(1) by simp
  then have "count_list x (CHR '':'') = 0" "count_list y (CHR '':'') = 0" using z by simp_all
  then have "CHR '':'' \<notin> set x" "CHR '':'' \<notin> set y" by (simp_all add: count_list_0_iff)
  then have "key_parts (x @ '':'' @ y) = (x, y)" by (rule key_parts_pair)
  with key_parts_pair [OF assms(2,3)] assms(1) show ?thesis by (metis prod.inject)
qed

lemma allowed_caps_map:
  assumes "\<forall>c\<in>set cs. \<exists>k n. allowancePairKey (cap_token c) (cap_spender c) = k \<and> cap_text c = show_int n \<and> 0 \<le> n \<and> n = worth k"
  shows "\<exists>m'. allowed_caps cs m = Inr m' \<and> (\<forall>k. map_of m' k =
    (if k \<in> (\<lambda>c. allowancePairKey (cap_token c) (cap_spender c)) ` set cs then Some (worth k) else map_of m k))"
  using assms
proof (induction cs arbitrary: m)
  case (Cons c cs)
  let ?k = "allowancePairKey (cap_token c) (cap_spender c)"
  from Cons.prems have c: "cap_text c = show_int (worth ?k)" "0 \<le> worth ?k" by auto
  obtain m' where m': "allowed_caps cs (AList.update ?k (worth ?k) m) = Inr m'"
    "\<forall>k. map_of m' k = (if k \<in> (\<lambda>c. allowancePairKey (cap_token c) (cap_spender c)) ` set cs then Some (worth k)
       else map_of (AList.update ?k (worth ?k) m) k)" using Cons by fastforce
  then show ?case using c by (auto simp: uint_text_show parse_show_nonneg update_conv')
qed simp

lemma check_stored_iff:
  assumes "\<forall>k. map_of m k = (if k \<in> used then Some (worth k) else None)"
  shows "check_stored as m = Inr () \<longleftrightarrow> (\<forall>a\<in>set as. uint_text (sa_amount a) \<and>
    (int (parse_nat (sa_amount a)) = 0 \<or> allowancePairKey (sa_token a) (sa_spender a) \<in> used \<and>
      int (parse_nat (sa_amount a)) \<le> worth (allowancePairKey (sa_token a) (sa_spender a))))"
proof (induction as)
  case (Cons a as)
  then show ?case using assms by (cases "uint_text (sa_amount a)") (auto simp: Let_def bind_ok_Inr_iff split: if_splits)
qed simp

text \<open>
  the queue's independent check is the wallet's own.  For every set of observed allowances,
  malformed ones included, the check against the persisted caps passes exactly when the check
  against the live scope does.
\<close>

theorem allowance_checks_agree:
  assumes "scope_ok scope"
  shows "assertAllowancesWithinCaps (map stored_of as) (walletAllowanceCaps scope) = Inr () \<longleftrightarrow>
    assertWalletAllowancesInPolicy as scope = Inr ()"
proof -
  let ?worth = "\<lambda>k. ceiling_of scope (fst (key_parts k))"
  have parts: "\<exists>t s. k = t @ '':'' @ s \<and> key_parts k = (t, s) \<and> t \<in> set (sc_tokens scope) \<and> s \<in> set (sc_spenders scope) \<and>
      lower t = t \<and> lower s = s \<and> CHR '':'' \<notin> set t \<and> CHR '':'' \<notin> set s" if k: "k \<in> set (sc_used scope)" for k
  proof -
    from k assms obtain t s where "k = t @ '':'' @ s" "t \<in> set (sc_tokens scope)" "s \<in> set (sc_spenders scope)"
      unfolding scope_ok_def by blast
    moreover from this assms have "lower t = t" "lower s = s" "CHR '':'' \<notin> set t" "CHR '':'' \<notin> set s"
      unfolding scope_ok_def by blast+
    ultimately show ?thesis using key_parts_pair by auto
  qed
  have keys: "(\<lambda>c. allowancePairKey (cap_token c) (cap_spender c)) ` set (walletAllowanceCaps scope) = set (sc_used scope)"
  proof -
    have "allowancePairKey (fst (key_parts k)) (snd (key_parts k)) = k" if "k \<in> set (sc_used scope)" for k
      using parts [OF that] by (auto simp: allowancePairKey_def)
    then show ?thesis by (force simp: walletAllowanceCaps_def image_image split: prod.splits)
  qed
  have caps: "\<forall>c\<in>set (walletAllowanceCaps scope). \<exists>k n. allowancePairKey (cap_token c) (cap_spender c) = k \<and>
      cap_text c = show_int n \<and> 0 \<le> n \<and> n = ?worth k"
  proof
    fix c assume "c \<in> set (walletAllowanceCaps scope)"
    then obtain k where k: "k \<in> set (sc_used scope)" "c = \<lparr>cap_token = fst (key_parts k), cap_spender = snd (key_parts k),
        cap_text = show_int (ceiling_of scope (fst (key_parts k)))\<rparr>"
      by (auto simp: walletAllowanceCaps_def split: prod.splits)
    have "allowancePairKey (cap_token c) (cap_spender c) = k" using parts [OF k(1)] k(2) by (auto simp: allowancePairKey_def)
    moreover have "0 \<le> ceiling_of scope (fst (key_parts k))" using assms by (simp add: scope_ok_def)
    ultimately show "\<exists>k n. allowancePairKey (cap_token c) (cap_spender c) = k \<and> cap_text c = show_int n \<and> 0 \<le> n \<and> n = ?worth k"
      using k(2) by auto
  qed
  obtain m where m: "allowed_caps (walletAllowanceCaps scope) [] = Inr m"
    "\<forall>k. map_of m k = (if k \<in> set (sc_used scope) then Some (?worth k) else None)"
    using allowed_caps_map [OF caps, of "[]"] unfolding keys by auto
  have one: "uint_text (sa_amount (stored_of a)) \<and> (int (parse_nat (sa_amount (stored_of a))) = 0 \<or>
      allowancePairKey (sa_token (stored_of a)) (sa_spender (stored_of a)) \<in> set (sc_used scope) \<and>
      int (parse_nat (sa_amount (stored_of a))) \<le> ?worth (allowancePairKey (sa_token (stored_of a)) (sa_spender (stored_of a))))
      \<longleftrightarrow> in_policy scope a" for a
  proof (cases "allowancePairKey (al_token a) (al_spender a) \<in> set (sc_used scope)")
    case True
    from parts [OF True] obtain t s where p: "lower (al_token a) @ '':'' @ lower (al_spender a) = t @ '':'' @ s"
      "key_parts (allowancePairKey (al_token a) (al_spender a)) = (t, s)" "t \<in> set (sc_tokens scope)" "s \<in> set (sc_spenders scope)"
      "CHR '':'' \<notin> set t" "CHR '':'' \<notin> set s" unfolding allowancePairKey_def by blast
    have "lower (al_token a) = t \<and> lower (al_spender a) = s" by (rule pair_key_unique [OF p(1,5,6)])
    with p(2-4) True show ?thesis
      by (cases "0 \<le> al_amount a") (simp_all add: stored_of_def in_policy_def uint_text_show parse_show_nonneg)
  next
    case False
    then show ?thesis by (auto simp: stored_of_def in_policy_def uint_text_show parse_show_nonneg)
  qed
  show ?thesis
    by (simp only: assertAllowancesWithinCaps_def m(1) bind_ok_simps wallet_check_iff check_stored_iff [OF m(2)]
        set_map ball_simps one)
qed

theorem allowance_checks_agree_witness:
  "\<exists>scope. scope_ok scope \<and>
     assertAllowancesWithinCaps (map stored_of [\<lparr>al_token = ''0xaa'', al_spender = ''0xbb'', al_amount = 40\<rparr>])
       (walletAllowanceCaps scope) = Inr ()"
proof -
  let ?scope = "\<lparr>sc_tokens = [''0xaa''], sc_spenders = [''0xbb''], sc_used = [''0xaa:0xbb''],
    sc_ceiling = (\<lambda>t. if t = ''0xaa'' then Some 50 else None)\<rparr>"
  have ok: "scope_ok ?scope" by (simp add: scope_ok_def ceiling_of_def lower_def lower_char_def)
  have "assertWalletAllowancesInPolicy [\<lparr>al_token = ''0xaa'', al_spender = ''0xbb'', al_amount = 40\<rparr>] ?scope = Inr ()"
    unfolding wallet_check_iff by (simp add: in_policy_def ceiling_of_def lower_def lower_char_def allowancePairKey_def)
  with allowance_checks_agree [OF ok, of "[\<lparr>al_token = ''0xaa'', al_spender = ''0xbb'', al_amount = 40\<rparr>]"] ok
  show ?thesis by blast
qed

text \<open>
  A grant covers what its stage needs, is finite, and leaves the wallet within its policy when
  the ceiling of the token covers the campaign's own exposure.
\<close>

lemma persistent_grant:
  assumes "persistentAllowanceGrant current needed exposure = Inr r"
  shows "case r of None \<Rightarrow> needed \<le> current
    | Some am \<Rightarrow> current < needed \<and> needed \<le> am \<and> am < 2 ^ 256 - 1 \<and> (am = needed \<or> am = allowanceCeiling exposure)"
  using assms by (auto simp: persistentAllowanceGrant_def bind_ok_Inr_iff MAX_UINT256_def Let_def split: if_splits)

subsection \<open>Reserves\<close>

text \<open>
  pre-existing funds are never counted as strategy funds.  After an allocation the
  strategy's balances of the same wallet are the allocation itself, within the funding caps; and
  whatever happens to the wallet later, the strategy owns exactly what exceeds the reserves, or
  the call fails because a reserve was spent.
\<close>

theorem funding_reserves:
  assumes "allocateRangeKeeperFunding fl wallet p0 p1 pn al = Inr r"
  shows "strategyBalances wallet (reserve0 r) (reserve1 r) (reserveNativeWei r) = Inr al \<and>
    totalBookedValue r \<le> campaignValue fl \<and> bookedStrategyValue r \<le> strategyFundingValue fl \<and>
    bookedNativeValue r \<le> nativeFundingValue fl \<and> 0 < bookedStrategyValue r \<and> 0 < bookedNativeValue r \<and>
    0 \<le> reserve0 r \<and> 0 \<le> reserve1 r \<and> 0 \<le> reserveNativeWei r \<and>
    (\<forall>later funds. strategyBalances later (reserve0 r) (reserve1 r) (reserveNativeWei r) = Inr funds \<longleftrightarrow>
       funds = \<lparr>fd_amount0 = fd_amount0 funds, fd_amount1 = fd_amount1 funds, fd_nativeWei = fd_nativeWei funds\<rparr> \<and>
       fd_amount0 later = reserve0 r + fd_amount0 funds \<and> 0 \<le> fd_amount0 funds \<and>
       fd_amount1 later = reserve1 r + fd_amount1 funds \<and> 0 \<le> fd_amount1 funds \<and>
       fd_nativeWei later = reserveNativeWei r + fd_nativeWei funds \<and> 0 \<le> fd_nativeWei funds)"
proof -
  from assms have r: "reserve0 r = fd_amount0 wallet - fd_amount0 al" "reserve1 r = fd_amount1 wallet - fd_amount1 al"
    "reserveNativeWei r = fd_nativeWei wallet - fd_nativeWei al"
    "0 \<le> fd_amount0 al" "0 \<le> fd_amount1 al" "0 \<le> fd_nativeWei al"
    "fd_amount0 al \<le> fd_amount0 wallet" "fd_amount1 al \<le> fd_amount1 wallet" "fd_nativeWei al \<le> fd_nativeWei wallet"
    "totalBookedValue r \<le> campaignValue fl" "bookedStrategyValue r \<le> strategyFundingValue fl"
    "bookedNativeValue r \<le> nativeFundingValue fl" "0 < bookedStrategyValue r" "0 < bookedNativeValue r"
    by (auto simp: allocateRangeKeeperFunding_def Let_def bind_ok_Inr_iff)
  then show ?thesis
    by (auto simp: strategyBalances_def bind_ok_Inr_iff)
qed

theorem funding_reserves_witness:
  "\<exists>r. allocateRangeKeeperFunding
      \<lparr>fl_decimals0 = 0, fl_decimals1 = 0, strategyFundingValue = 100, nativeFundingValue = 10, campaignValue = 100\<rparr>
      \<lparr>fd_amount0 = 50, fd_amount1 = 60, fd_nativeWei = 9 * 10 ^ 18\<rparr> 1 1 1
      \<lparr>fd_amount0 = 40, fd_amount1 = 30, fd_nativeWei = 5 * 10 ^ 18\<rparr> = Inr r \<and>
    strategyBalances \<lparr>fd_amount0 = 50, fd_amount1 = 60, fd_nativeWei = 9 * 10 ^ 18\<rparr>
      (reserve0 r) (reserve1 r) (reserveNativeWei r) =
      Inr \<lparr>fd_amount0 = 40, fd_amount1 = 30, fd_nativeWei = 5 * 10 ^ 18\<rparr>"
proof -
  obtain r where r: "allocateRangeKeeperFunding
      \<lparr>fl_decimals0 = 0, fl_decimals1 = 0, strategyFundingValue = 100, nativeFundingValue = 10, campaignValue = 100\<rparr>
      \<lparr>fd_amount0 = 50, fd_amount1 = 60, fd_nativeWei = 9 * 10 ^ 18\<rparr> 1 1 1
      \<lparr>fd_amount0 = 40, fd_amount1 = 30, fd_nativeWei = 5 * 10 ^ 18\<rparr> = Inr r"
    by (simp add: allocateRangeKeeperFunding_def assertion_def rawValue_def sdiv_nonneg)
  with funding_reserves [OF r] show ?thesis by blast
qed

subsection \<open>Envelopes and the planner\<close>

text \<open>
  With the cost of its envelope in the observation, a candidate is never refused for an
  incomplete cost: the envelope contains what the swap costs.
\<close>

lemma envelope_covers_swap:
  assumes "rangeKeeperCostEnvelope c l baseFee marketPrice nativeValue existing pool = Inr e" "ck_swap c = Some sw"
  shows "sw_feeValue sw + sw_shortfallValue sw \<le> actionCostValue e"
proof -
  have ceil: "0 \<le> n \<Longrightarrow> 0 < d \<Longrightarrow> 0 \<le> ceilDiv n d" for n d
    by (simp add: ceilDiv_def sdiv_nonneg pos_imp_zdiv_nonneg_iff)
  define fee where "fee = ceilDiv ((if marketPrice > baseFee then marketPrice else baseFee) * 5) 4"
  define units where "units = (if existing then 330000 else 0) + 160000 + 650000 + (320000 :: int)"
  from assms have p: "0 < baseFee" "0 < marketPrice" "0 < nativeValue"
    and e: "actionCostValue e = ceilDiv (units * fee * nativeValue) WAD + (sw_feeValue sw + sw_shortfallValue sw)"
    by (auto simp: rangeKeeperCostEnvelope_def bind_ok_Inr_iff Let_def fee_def units_def)
  have "0 \<le> fee" using p by (auto simp: fee_def intro!: ceil)
  moreover have "0 \<le> units" by (simp add: units_def)
  ultimately have "0 \<le> ceilDiv (units * fee * nativeValue) WAD" using p(3) by (intro ceil) (simp_all add: WAD_def)
  with e show ?thesis by simp
qed

end
