(* ===== verification/Keeper_Calldata.thy ===== *)
theory Keeper_Calldata
  imports Keeper_Wallet
begin

section \<open>RangeKeeper: transaction plans and their authorization\<close>

text \<open>
  \<open>src/strategy/rangekeeper/calldata.ts\<close> without the ABI encoding, and the quote of \<open>chain.ts\<close>.
  A plan of a transaction is authorized against the wallet at the pinned source immediately
  before it is signed.  The contract's quoter and the check that the source block is still
  canonical are parameters.
\<close>

record RangeKeeperPool =
  kq_chainId :: int
  kq_factory :: string
  kq_pool :: string
  kq_token0 :: string
  kq_token1 :: string
  kq_quoteToken :: token_side
  kq_decimals0 :: nat
  kq_decimals1 :: nat
  kq_fee :: int
  kq_tickSpacing :: int
  kq_positionManager :: string
  kq_router :: string
  kq_quoter :: string
  kq_poolCodeHash :: string
  kq_token0CodeHash :: string
  kq_token1CodeHash :: string
  kq_managerCodeHash :: string
  kq_quoterCodeHash :: string
  kq_reference0 :: string
  kq_reference1 :: string
  kq_nativeReference :: string
  kq_numeraire :: string

datatype plan_spender = Router | Position_manager

datatype RangeKeeperTxPlan =
  Plan_approve token_side plan_spender (pl_amount: int)
| Plan_swap token_side int (pl_minOut: int) (pl_deadline: int)
| Plan_mint RangeKeeperCandidate (pl_deadline: int)
| Plan_withdraw int int int int (pl_deadline: int)

record wallet_position =
  wp_tokenId :: int
  wp_owner :: string
  wp_token0 :: string
  wp_token1 :: string
  wp_fee :: int
  wp_tickLower :: int
  wp_tickUpper :: int
  wp_liquidity :: int

record RangeKeeperWallet =
  rw_operator :: string
  rw_wallet0 :: int
  rw_wallet1 :: int
  rw_tick :: int
  rw_sqrtPriceX96 :: int
  rw_timestamp :: int
  rw_position :: "wallet_position option"

definition pool_token :: "RangeKeeperPool \<Rightarrow> token_side \<Rightarrow> string" where
  "pool_token p i = (if i = Token0 then kq_token0 p else kq_token1 p)"

definition pool_decimals :: "RangeKeeperPool \<Rightarrow> token_side \<Rightarrow> nat" where
  "pool_decimals p i = (if i = Token0 then kq_decimals0 p else kq_decimals1 p)"

definition wallet_available :: "RangeKeeperWallet \<Rightarrow> token_side \<Rightarrow> int" where
  "wallet_available w i = (if i = Token0 then rw_wallet0 w else rw_wallet1 w)"

definition same :: "string \<Rightarrow> string \<Rightarrow> bool" where
  "same a b \<longleftrightarrow> lower a = lower b"

subsection \<open>Withdrawal minimums\<close>

text \<open>
  The integer square root by Newton's iteration.  Both variables of the loop stay positive, so
  they are natural numbers here; \<open>>> 1n\<close> halves.
\<close>

function isqrt_loop :: "nat \<Rightarrow> nat \<Rightarrow> nat \<Rightarrow> nat" where
  "isqrt_loop n x y = (if y < x then isqrt_loop n y ((y + n div y) div 2) else x)"
  by auto
termination by (relation "measure (\<lambda>(_, x, _). x)") auto

declare isqrt_loop.simps [simp del]

definition isqrt :: "int \<Rightarrow> int" where
  "isqrt n = (if n < 2 then n else int (isqrt_loop (nat n) (nat n) ((nat n + 1) div 2)))"

text \<open>The square root of \<open>f / 10000\<close> of the price, in the units of the price.\<close>

definition price_edge :: "int \<Rightarrow> int \<Rightarrow> int" where
  "price_edge price f = (price * isqrt ((f * 10 ^ 18 * 10 ^ 18) sdiv 10000)) sdiv 10 ^ 18"

definition rangeKeeperWithdrawalMinimums :: "int \<Rightarrow> int \<Rightarrow> int \<Rightarrow> int \<Rightarrow> int \<Rightarrow> (int \<times> int) res" where
  "rangeKeeperWithdrawalMinimums L lo hi price slippageBps =
     bind_ok (ensure (safe_integer slippageBps \<and> slippageBps \<ge> 0 \<and> slippageBps < 10000)
       ''Invalid withdrawal slippage'') (\<lambda>_.
     bind_ok (principalAmounts L (price_edge price (10000 - slippageBps)) lo hi) (\<lambda>low.
     bind_ok (principalAmounts L (price_edge price (10000 + slippageBps)) lo hi) (\<lambda>high.
       Inr (amount0 high, amount1 low))))"

subsection \<open>Authorization\<close>

definition no_liquidity :: "RangeKeeperWallet \<Rightarrow> bool" where
  "no_liquidity w \<longleftrightarrow> (case rw_position w of None \<Rightarrow> True | Some p \<Rightarrow> wp_liquidity p = 0)"

definition authorize_approve ::
  "RangeKeeperWallet \<Rightarrow> token_side \<Rightarrow> plan_spender \<Rightarrow> int \<Rightarrow> int \<Rightarrow> (int \<times> int) option \<Rightarrow> unit res"
where
  "authorize_approve w token spender am futureApprovalCap allowed =
     bind_ok (assertion (futureApprovalCap \<ge> 0)) (\<lambda>_.
     bind_ok (ensure (am \<ge> 0 \<and> (am \<le> wallet_available w token + futureApprovalCap \<or>
         (case allowed of None \<Rightarrow> False | Some c \<Rightarrow> am \<le> (if token = Token0 then fst c else snd c))))
       ''Approval exceeds available or bounded future strategy token'') (\<lambda>_.
     ensure (futureApprovalCap = 0 \<or> spender = Position_manager)
       ''Only position-manager approval may anticipate swap inventory''))"

definition authorize_mint ::
  "RangeKeeperPool \<Rightarrow> RangeKeeperWallet \<Rightarrow> RangeKeeperCandidate \<Rightarrow> int \<Rightarrow> int \<Rightarrow> unit res"
where
  "authorize_mint pool w c slippageBps fullWidth =
     (let lo = range_tickLower (ck_range c); hi = range_tickUpper (ck_range c) in
     bind_ok (assertion (ck_sourceBlock c \<ge> 0 \<and> rw_tick w \<ge> lo \<and> rw_tick w < hi)) (\<lambda>_.
     bind_ok (ensure (hi - lo = fullWidth * kq_tickSpacing pool) ''Mint width differs from campaign'') (\<lambda>_.
     bind_ok (assertion (lo smod kq_tickSpacing pool = 0 \<and> hi smod kq_tickSpacing pool = 0)) (\<lambda>_.
     bind_ok (assertion (amount0Desired c > 0 \<and> amount1Desired c > 0 \<and>
       amount0Desired c \<le> rw_wallet0 w \<and> amount1Desired c \<le> rw_wallet1 w)) (\<lambda>_.
     bind_ok (ensure (no_liquidity w) ''Mint before withdrawal'') (\<lambda>_.
     bind_ok (replayPaperMint (rw_sqrtPriceX96 w) (ck_range c) (amount0Desired c) (amount1Desired c) 0) (\<lambda>m.
     bind_ok (ensure (mint_liquidity m > 0 \<and> mint_liquidity m \<ge> ck_liquidity c)
       ''Mint liquidity below frozen minimum'') (\<lambda>_.
     ensure (amount0Min c \<ge> haircut (mint_amount0 m) slippageBps \<and> amount1Min c \<ge> haircut (mint_amount1 m) slippageBps)
       ''Mint minimum weakened''))))))))"

definition authorize_withdraw ::
  "RangeKeeperPool \<Rightarrow> RangeKeeperWallet \<Rightarrow> int \<Rightarrow> int \<Rightarrow> int \<Rightarrow> int \<Rightarrow> int \<Rightarrow> unit res"
where
  "authorize_withdraw pool w tokenId L m0 m1 slippageBps = (case rw_position w of
      None \<Rightarrow> assertion False
    | Some p \<Rightarrow>
        bind_ok (assertion (wp_tokenId p = tokenId \<and> same (wp_owner p) (rw_operator w) \<and>
          same (wp_token0 p) (kq_token0 pool) \<and> same (wp_token1 p) (kq_token1 pool) \<and> wp_fee p = kq_fee pool)) (\<lambda>_.
        bind_ok (assertion (L = wp_liquidity p \<and> L > 0)) (\<lambda>_.
        bind_ok (rangeKeeperWithdrawalMinimums (wp_liquidity p) (wp_tickLower p) (wp_tickUpper p)
          (rw_sqrtPriceX96 w) slippageBps) (\<lambda>(f0, f1).
        ensure (m0 \<ge> f0 \<and> m1 \<ge> f1) ''Withdrawal minimum weakened''))))"

definition authorizeRangeKeeperTx ::
  "RangeKeeperPool \<Rightarrow> RangeKeeperWallet \<Rightarrow> RangeKeeperTxPlan \<Rightarrow> int \<Rightarrow> int \<Rightarrow> int \<Rightarrow> (int \<times> int) option \<Rightarrow> unit res"
where
  "authorizeRangeKeeperTx pool w plan slippageBps fullWidth futureApprovalCap allowed =
     bind_ok (assertion (slippageBps > 0 \<and> slippageBps \<le> 50)) (\<lambda>_. case plan of
        Plan_approve token spender am \<Rightarrow> authorize_approve w token spender am futureApprovalCap allowed
      | _ \<Rightarrow>
          bind_ok (ensure (pl_deadline plan > rw_timestamp w \<and> pl_deadline plan \<le> rw_timestamp w + 300)
            ''Transaction deadline invalid'') (\<lambda>_. case plan of
             Plan_swap token amountIn minOut _ \<Rightarrow>
               bind_ok (assertion (amountIn > 0 \<and> amountIn \<le> wallet_available w token)) (\<lambda>_.
               bind_ok (assertion (minOut > 0)) (\<lambda>_.
               ensure (no_liquidity w) ''Swap before withdrawal''))
           | Plan_mint c _ \<Rightarrow> authorize_mint pool w c slippageBps fullWidth
           | Plan_withdraw tokenId L m0 m1 _ \<Rightarrow> authorize_withdraw pool w tokenId L m0 m1 slippageBps
           | Plan_approve _ _ _ \<Rightarrow> Inr ()))"

subsection \<open>Quotes\<close>

text \<open>
  \<open>RangeKeeperChain.quote\<close>: the contract's answer, the output amount and the price after, and what
  the swap costs beyond principal: the pool fee, and the shortfall in value that is not the fee.
\<close>

definition chain_quote ::
  "(string \<Rightarrow> string \<Rightarrow> int \<Rightarrow> int \<Rightarrow> (int \<times> int) res) \<Rightarrow> unit res \<Rightarrow> RangeKeeperPool \<Rightarrow> int \<Rightarrow> string \<Rightarrow>
   token_side \<Rightarrow> int \<Rightarrow> int \<Rightarrow> int \<Rightarrow> SwapQuote res"
where
  "chain_quote quoter sourceCheck pool block hash token amountIn p0 p1 =
     bind_ok (assertion (amountIn > 0 \<and> p0 > 0 \<and> p1 > 0)) (\<lambda>_.
     let other = (if token = Token0 then Token1 else Token0) in
     bind_ok (quoter (pool_token pool token) (pool_token pool other) amountIn (kq_fee pool)) (\<lambda>(out, after).
     let inputValue = rawValue amountIn (if token = Token0 then p0 else p1) (pool_decimals pool token);
         outputValue = rawValue out (if token = Token0 then p1 else p0) (pool_decimals pool other);
         feeV = (inputValue * kq_fee pool) sdiv 1000000;
         shortfall = (if inputValue > outputValue + feeV then inputValue - outputValue - feeV else 0) in
     bind_ok sourceCheck (\<lambda>_.
       Inr \<lparr>amountOut = out, priceAfter = after, feeValue = feeV, shortfallValue = shortfall,
         sourceBlock = block, sourceHash = hash\<rparr>)))"

subsection \<open>The square root\<close>

lemma newton_above:
  fixes n s y :: nat
  assumes "s * s \<le> n" "0 < y"
  shows "s \<le> (y + n div y) div 2"
proof -
  have "2 * s \<le> y + n div y"
  proof (cases "2 * s \<le> y")
    case False
    then obtain d where d: "2 * s = y + d" by (metis le_add_diff_inverse nat_le_linear)
    have "0 \<le> (int y - int d) * (int y - int d)" by simp
    then have "int (4 * (d * y)) \<le> int ((y + d) * (y + d))" by (simp add: algebra_simps)
    then have "4 * (d * y) \<le> (y + d) * (y + d)" by (simp only: of_nat_le_iff)
    also have "\<dots> = 4 * (s * s)" unfolding d [symmetric] by simp
    finally have "d * y \<le> n" using assms(1) by linarith
    then have "d \<le> n div y" using assms(2) by (simp add: less_eq_div_iff_mult_less_eq)
    then show ?thesis using d by simp
  qed simp
  then show ?thesis by simp
qed

lemma isqrt_loop_root:
  assumes "0 < x" "y = (x + n div x) div 2" "\<forall>s. s * s \<le> n \<longrightarrow> s \<le> x" "0 < n"
  shows "isqrt_loop n x y * isqrt_loop n x y \<le> n \<and> (\<forall>s. s * s \<le> n \<longrightarrow> s \<le> isqrt_loop n x y)"
  using assms
proof (induction n x y rule: isqrt_loop.induct)
  case (1 n x y)
  show ?case
  proof (cases "y < x")
    case True
    have above: "\<forall>s. s * s \<le> n \<longrightarrow> s \<le> y" using newton_above [OF _ 1(2)] 1(3) by simp
    with 1(5) have "0 < y" by (auto dest: spec [of _ 1])
    then show ?thesis using 1(1) [OF True _ refl above 1(5)] True by (simp add: isqrt_loop.simps [of n x y])
  next
    case False
    then have "x \<le> n div x" using 1(3) by simp
    then have "x * x \<le> n" using 1(2) by (simp add: less_eq_div_iff_mult_less_eq)
    with False 1(4) show ?thesis by (simp add: isqrt_loop.simps [of n x y])
  qed
qed

lemma isqrt_root:
  assumes "0 \<le> n"
  shows "0 \<le> isqrt n" "isqrt n * isqrt n \<le> n" "n < (isqrt n + 1) * (isqrt n + 1)"
proof -
  have "0 \<le> isqrt n \<and> isqrt n * isqrt n \<le> n \<and> n < (isqrt n + 1) * (isqrt n + 1)"
  proof (cases "n < 2")
    case True
    then have "n = 0 \<or> n = 1" using assms by linarith
    then show ?thesis by (auto simp: isqrt_def)
  next
    case False
    define r where "r = isqrt_loop (nat n) (nat n) ((nat n + 1) div 2)"
    from False have pos: "0 < nat n" by simp
    have up: "\<forall>s. s * s \<le> nat n \<longrightarrow> s \<le> nat n" by (meson le_square le_trans)
    have start: "(nat n + 1) div 2 = (nat n + nat n div nat n) div 2" using pos by simp
    have r: "r * r \<le> nat n" "\<forall>s. s * s \<le> nat n \<longrightarrow> s \<le> r"
      using isqrt_loop_root [OF pos start up pos] unfolding r_def by blast+
    have "\<not> (r + 1) * (r + 1) \<le> nat n" using r(2) [rule_format, of "r + 1"] by auto
    then have "n < int ((r + 1) * (r + 1))" by linarith
    then have 1: "n < (int r + 1) * (int r + 1)" by (simp only: of_nat_mult of_nat_add of_nat_1)
    have "int (r * r) \<le> n" using r(1) assms by linarith
    then have 2: "int r * int r \<le> n" by (simp only: of_nat_mult)
    have "isqrt n = int r" using False by (simp add: isqrt_def r_def)
    with 1 2 show ?thesis by (simp only: of_nat_0_le_iff simp_thms)
  qed
  then show "0 \<le> isqrt n" "isqrt n * isqrt n \<le> n" "n < (isqrt n + 1) * (isqrt n + 1)" by simp_all
qed

subsection \<open>The band of prices the minimums allow\<close>

lemma edge_radicand: "(f * 10 ^ 18 * 10 ^ 18) sdiv 10000 = f * (10 ^ 32 :: int)" if "0 \<le> f"
  using that by (simp add: sdiv_nonneg)

lemma price_edge_bounds:
  fixes price f :: int
  assumes "0 \<le> f" "0 \<le> price"
  shows "0 \<le> price_edge price f" "10000 * (price_edge price f)\<^sup>2 \<le> f * price\<^sup>2"
    and "0 < price \<Longrightarrow> f * price\<^sup>2 < 10000 * (price_edge price f + 2 + price div 10 ^ 18)\<^sup>2"
proof -
  define r where "r = isqrt (f * 10 ^ 32)"
  define e where "e = price_edge price f"
  have "0 \<le> f * 10 ^ 32" using assms(1) by simp
  note root = isqrt_root [OF this, folded r_def]
  have e: "e = price * r div 10 ^ 18"
    unfolding e_def price_edge_def edge_radicand [OF assms(1)] r_def [symmetric]
    using assms(2) root(1) by (simp add: sdiv_nonneg)
  have nonneg: "0 \<le> price * r" using assms(2) root(1) by simp
  then show 0: "0 \<le> price_edge price f" unfolding e_def [symmetric] e by (simp add: pos_imp_zdiv_nonneg_iff)
  note fl = floor_div_bounds [of "10 ^ 18 :: int", simplified]
  have lo: "e * 10 ^ 18 \<le> price * r" unfolding e using fl(1) [of "price * r"] by (simp add: mult.commute)
  have "(e * 10 ^ 18)\<^sup>2 \<le> (price * r)\<^sup>2" using lo 0 by (intro power_mono) (simp_all add: e_def)
  also have "\<dots> = price\<^sup>2 * (r * r)" by (simp add: power2_eq_square)
  also have "\<dots> \<le> price\<^sup>2 * (f * 10 ^ 32)" using root(2) by (intro mult_left_mono) simp_all
  finally show "10000 * (price_edge price f)\<^sup>2 \<le> f * price\<^sup>2"
    by (simp add: power_mult_distrib e_def)
  assume p: "0 < price"
  let ?b = "e + 2 + price div 10 ^ 18"
  have "price * r < (e + 1) * 10 ^ 18" unfolding e using fl(2) [of "price * r"] by (simp add: mult.commute)
  moreover have "price \<le> (price div 10 ^ 18 + 1) * 10 ^ 18" using fl(2) [of price] by (simp add: mult.commute)
  ultimately have "price * (r + 1) \<le> ?b * 10 ^ 18" by (simp add: algebra_simps)
  then have "(price * (r + 1))\<^sup>2 \<le> (?b * 10 ^ 18)\<^sup>2"
    using assms(2) root(1) by (intro power_mono) simp_all
  moreover have "price\<^sup>2 * (f * 10 ^ 32) < price\<^sup>2 * ((r + 1) * (r + 1))"
    using root(3) p by (intro mult_strict_left_mono) simp_all
  moreover have "price\<^sup>2 * ((r + 1) * (r + 1)) = (price * (r + 1))\<^sup>2" by (simp add: power2_eq_square)
  ultimately have "price\<^sup>2 * (f * 10 ^ 32) < (?b * 10 ^ 18)\<^sup>2" by linarith
  then have "price\<^sup>2 * (f * 10 ^ 32) < ?b\<^sup>2 * (10 ^ 18)\<^sup>2" by (simp only: power_mult_distrib)
  then have "10 ^ 32 * (f * price\<^sup>2) < 10 ^ 32 * (10000 * ?b\<^sup>2)" by (simp add: mult.commute mult.left_commute)
  then show "f * price\<^sup>2 < 10000 * (price_edge price f + 2 + price div 10 ^ 18)\<^sup>2"
    unfolding e_def by (simp only: mult_less_cancel_left) simp
qed

text \<open>
  C35: withdrawal minimums hold throughout the band.  If minimums are computed at one price, then
  at every price whose square lies within the slippage of its square, up to the rounding of the
  square root, the position still pays out at least both minimums, wherever its range lies.
\<close>

theorem withdrawal_minimums_hold:
  assumes "rangeKeeperWithdrawalMinimums L lo hi price bps = Inr (m0, m1)" "principalAmounts L q lo hi = Inr r"
    "0 < price" "(10000 - bps) * price\<^sup>2 \<le> 10000 * q\<^sup>2"
    "10000 * (q + 2 + price div 10 ^ 18)\<^sup>2 \<le> (10000 + bps) * price\<^sup>2"
  shows "m0 \<le> amount0 r \<and> m1 \<le> amount1 r"
proof -
  let ?low = "price_edge price (10000 - bps)" and ?high = "price_edge price (10000 + bps)"
  from assms(1) obtain rl rh where bps: "0 \<le> bps" "bps < 10000"
    and p: "principalAmounts L ?low lo hi = Inr rl" "principalAmounts L ?high lo hi = Inr rh"
    and m: "m0 = amount0 rh" "m1 = amount1 rl"
    by (auto simp: rangeKeeperWithdrawalMinimums_def bind_ok_Inr_iff)
  have q: "0 < q" using assms(2) by (auto simp: principalAmounts_Inr_iff position_valid_def MIN_SQRT_RATIO_def)
  have "10000 * ?low\<^sup>2 \<le> 10000 * q\<^sup>2" using price_edge_bounds(2) [of "10000 - bps" price] bps assms(3,4) by linarith
  then have "?low\<^sup>2 \<le> q\<^sup>2" by simp
  then have low: "?low \<le> q" using q by (auto intro: power2_le_imp_le)
  have "10000 * (q + 2 + price div 10 ^ 18)\<^sup>2 < 10000 * (?high + 2 + price div 10 ^ 18)\<^sup>2"
    using price_edge_bounds(3) [of "10000 + bps" price] bps assms(3,5) by linarith
  then have "(q + 2 + price div 10 ^ 18)\<^sup>2 < (?high + 2 + price div 10 ^ 18)\<^sup>2" by simp
  moreover have "0 \<le> ?high + 2 + price div 10 ^ 18"
    using price_edge_bounds(1) [of "10000 + bps" price] bps assms(3) by (simp add: pos_imp_zdiv_nonneg_iff)
  ultimately have "q + 2 + price div 10 ^ 18 < ?high + 2 + price div 10 ^ 18" by (rule power2_less_imp_less)
  then have high: "q \<le> ?high" by simp
  have "amount0 rh \<le> amount0 r" using principalAmounts_price_monotone [OF assms(2) p(2) high] by blast
  moreover have "amount1 rl \<le> amount1 r" using principalAmounts_price_monotone [OF p(1) assms(2) low] by blast
  ultimately show ?thesis using m by simp
qed

lemma sample_position_valid:
  "2 ^ 95 \<le> p \<Longrightarrow> p \<le> 2 ^ 97 \<Longrightarrow> \<exists>r. principalAmounts 1000000 p (- 60) 60 = Inr r"
  by (simp add: principalAmounts_Inr_iff position_valid_def tick_consts)

lemma sample_minimums: "\<exists>m0 m1. rangeKeeperWithdrawalMinimums 1000000 (- 60) 60 (2 ^ 96) 50 = Inr (m0, m1)"
proof -
  have edge: "2 ^ 95 \<le> price_edge (2 ^ 96) f \<and> price_edge (2 ^ 96) f \<le> 2 ^ 97" if f: "9950 \<le> f" "f \<le> 10050" for f
  proof -
    have "10000 * (price_edge (2 ^ 96) f)\<^sup>2 \<le> 10050 * (2 ^ 96)\<^sup>2"
      using price_edge_bounds(2) [of f "2 ^ 96"] f by simp
    then have "(price_edge (2 ^ 96) f)\<^sup>2 \<le> (2 ^ 97)\<^sup>2" by simp
    moreover have "9950 * (2 ^ 96)\<^sup>2 < 10000 * (price_edge (2 ^ 96) f + 2 + 2 ^ 96 div 10 ^ 18)\<^sup>2"
      using price_edge_bounds(3) [of f "2 ^ 96"] f by simp
    then have "(2 ^ 95 + 2 + 2 ^ 96 div 10 ^ 18)\<^sup>2 < (price_edge (2 ^ 96) f + 2 + 2 ^ 96 div 10 ^ 18)\<^sup>2" by simp
    moreover have "0 \<le> price_edge (2 ^ 96) f" using price_edge_bounds(1) [of f "2 ^ 96"] f by simp
    ultimately show ?thesis
      using power2_le_imp_le [of "price_edge (2 ^ 96) f" "2 ^ 97"]
        power2_less_imp_less [of "2 ^ 95 + 2 + 2 ^ 96 div 10 ^ 18" "price_edge (2 ^ 96) f + 2 + 2 ^ 96 div 10 ^ 18"] by simp
  qed
  obtain rl where rl: "principalAmounts 1000000 (price_edge (2 ^ 96) 9950) (- 60) 60 = Inr rl"
    using sample_position_valid edge [of 9950] by auto
  obtain rh where rh: "principalAmounts 1000000 (price_edge (2 ^ 96) 10050) (- 60) 60 = Inr rh"
    using sample_position_valid edge [of 10050] by auto
  from rl rh show ?thesis by (simp add: rangeKeeperWithdrawalMinimums_def safe_integer_def)
qed

theorem withdrawal_minimums_hold_witness:
  "\<exists>m0 m1 r. rangeKeeperWithdrawalMinimums 1000000 (- 60) 60 (2 ^ 96) 50 = Inr (m0, m1) \<and>
     principalAmounts 1000000 (2 ^ 96) (- 60) 60 = Inr r \<and> m0 \<le> amount0 r \<and> m1 \<le> amount1 r"
proof -
  obtain m0 m1 where m: "rangeKeeperWithdrawalMinimums 1000000 (- 60) 60 (2 ^ 96) 50 = Inr (m0, m1)"
    using sample_minimums by blast
  obtain r where r: "principalAmounts 1000000 (2 ^ 96) (- 60) 60 = Inr r" using sample_position_valid [of "2 ^ 96"] by auto
  from withdrawal_minimums_hold [OF m r] m r show ?thesis by auto
qed

text \<open>What a quote costs: the value that goes in is the value that comes out, the fee and the shortfall.\<close>

lemma chain_quote_cost:
  assumes "chain_quote quoter check pool block hash token am p0 p1 = Inr q"
  defines "other \<equiv> (if token = Token0 then Token1 else Token0)"
  defines "inputValue \<equiv> rawValue am (if token = Token0 then p0 else p1) (pool_decimals pool token)"
    and "outputValue \<equiv> rawValue (amountOut q) (if token = Token0 then p1 else p0) (pool_decimals pool other)"
  shows "0 \<le> shortfallValue q" "inputValue \<le> outputValue + feeValue q + shortfallValue q"
    and "0 < shortfallValue q \<Longrightarrow> inputValue = outputValue + feeValue q + shortfallValue q"
    and "sourceBlock q = block" "sourceHash q = hash"
  using assms by (auto simp: chain_quote_def Let_def bind_ok_Inr_iff)

end
