(* ===== verification/Keeper_Config.thy ===== *)
theory Keeper_Config
  imports Keeper_Calldata
begin

section \<open>RangeKeeper: configuration and persisted policy state\<close>

text \<open>
  \<open>src/strategy/rangekeeper/config.ts\<close> and \<open>state.ts\<close>: what a frozen configuration and a persisted
  state of the policy must satisfy to be read.  The schemas are conditions on the parsed values:
  a decimal text of the schema is the number it stands for, an address is one that viem's
  \<open>isAddress\<close>, a parameter, accepts and that \<open>getAddress\<close> has put in its canonical case.  The hash
  of a configuration, SHA-256 of its JSON, is a parameter too.
\<close>

subsection \<open>Texts\<close>

definition is_hex :: "char \<Rightarrow> bool" where
  "is_hex c \<longleftrightarrow> is_digit c \<or> CHR ''a'' \<le> c \<and> c \<le> CHR ''f'' \<or> CHR ''A'' \<le> c \<and> c \<le> CHR ''F''"

text \<open>\<open>/^0x[0-9a-fA-F]{64}$/\<close> and \<open>/^[0-9a-f]{64}$/\<close>\<close>

definition hash_text :: "string \<Rightarrow> bool" where
  "hash_text s \<longleftrightarrow> length s = 66 \<and> take 2 s = ''0x'' \<and> list_all is_hex (drop 2 s)"

definition digest_text :: "string \<Rightarrow> bool" where
  "digest_text s \<longleftrightarrow> length s = 64 \<and> list_all (\<lambda>c. is_digit c \<or> CHR ''a'' \<le> c \<and> c \<le> CHR ''f'') s"

text \<open>\<open>/^[1-9][0-9]*$/\<close> and \<open>/^[A-Z][A-Z0-9_]*$/\<close>\<close>

definition positive_text :: "string \<Rightarrow> bool" where
  "positive_text s \<longleftrightarrow> digits_only s \<and> hd s \<noteq> CHR ''0''"

definition is_upper :: "char \<Rightarrow> bool" where
  "is_upper c \<longleftrightarrow> CHR ''A'' \<le> c \<and> c \<le> CHR ''Z''"

definition variable_text :: "string \<Rightarrow> bool" where
  "variable_text s \<longleftrightarrow> (case s of [] \<Rightarrow> False
     | c # cs \<Rightarrow> is_upper c \<and> list_all (\<lambda>d. is_upper d \<or> is_digit d \<or> d = CHR ''_'') cs)"

definition nonnegative_int :: "int \<Rightarrow> bool" where
  "nonnegative_int n \<longleftrightarrow> safe_integer n \<and> n \<ge> 0"

definition positive_int :: "int \<Rightarrow> bool" where
  "positive_int n \<longleftrightarrow> safe_integer n \<and> n > 0"

definition ppm :: "int \<Rightarrow> bool" where
  "ppm n \<longleftrightarrow> 0 \<le> n \<and> n \<le> 1000000"

subsection \<open>Configuration\<close>

datatype reference_kind = Stablecoin | Stock_token
datatype reference_session = Verified_24_7 | Latest_equity_session

record keeper_token_reference =
  tr_kind :: reference_kind
  tr_maxAgeSeconds :: int
  tr_session :: reference_session

record keeper_reference_policy =
  rp_token0 :: keeper_token_reference
  rp_token1 :: keeper_token_reference
  rp_nativeMaxAgeSeconds :: int
  rp_maxPoolDeviationPpm :: int

record keeper_signer =
  sg_reference :: string
  sg_variable :: string

datatype keeper_wallet_code = Eoa | Eip7702 string string

record RangeKeeperConfig =
  kc_strategyVersion :: string
  kc_broadcastEnabled :: bool
  kc_operator :: "string option"
  kc_pool :: RangeKeeperPool
  kc_limits :: RangeKeeperLimits
  kc_signer :: "keeper_signer option"
  kc_walletCode :: keeper_wallet_code
  kc_zeroAllowances :: "(string \<times> string) list"
  kc_legacyRetiredTokenIds :: "string list"
  kc_maxDurationSeconds :: int
  kc_maxEconomicActions :: int
  kc_referencePolicy :: keeper_reference_policy
  kc_campaignValue :: int
  kc_strategyFundingValue :: int
  kc_nativeFundingValue :: int

text \<open>The pool, the limits and the reference policy, field by field.\<close>

definition profile_parses :: "(string \<Rightarrow> bool) \<Rightarrow> RangeKeeperPool \<Rightarrow> bool" where
  "profile_parses is_address p \<longleftrightarrow>
     positive_int (kq_chainId p) \<and> is_address (kq_factory p) \<and> is_address (kq_pool p) \<and>
     is_address (kq_token0 p) \<and> is_address (kq_token1 p) \<and> kq_decimals0 p \<le> 36 \<and> kq_decimals1 p \<le> 36 \<and>
     positive_int (kq_fee p) \<and> positive_int (kq_tickSpacing p) \<and> is_address (kq_positionManager p) \<and>
     is_address (kq_router p) \<and> is_address (kq_quoter p) \<and> hash_text (kq_poolCodeHash p) \<and>
     hash_text (kq_token0CodeHash p) \<and> hash_text (kq_token1CodeHash p) \<and> hash_text (kq_managerCodeHash p) \<and>
     hash_text (kq_quoterCodeHash p) \<and> kq_reference0 p \<noteq> [] \<and> kq_reference1 p \<noteq> [] \<and>
     kq_nativeReference p \<noteq> [] \<and> kq_numeraire p \<noteq> []"

definition limits_parse :: "RangeKeeperLimits \<Rightarrow> bool" where
  "limits_parse l \<longleftrightarrow>
     0 < fullWidthSpacings l \<and> fullWidthSpacings l \<le> 200 \<and> fullWidthSpacings l smod 2 = 0 \<and>
     0 < maxDeploymentValue l \<and> ppm (minDeploymentPpm l) \<and> 0 < minDeploymentPpm l \<and>
     0 < maxSwapInputValue l \<and> ppm (maxSwapInputPpm l) \<and> 0 < maxSwapInputPpm l \<and> 0 < maxSwapShortfallValue l \<and>
     0 < maxSlippageBps l \<and> maxSlippageBps l \<le> 50 \<and>
     0 < maxActionCost l \<and> 0 < maxRollingCost l \<and> 0 < maxCampaignCost l \<and>
     ppm (maxExposurePpm l) \<and> 0 < maxExposurePpm l \<and> 0 < maxLossValue l \<and>
     ppm (lm_maxDrawdownPpm l) \<and> 0 < lm_maxDrawdownPpm l \<and>
     nonnegative_int (maxRecenters l) \<and> ppm (maxLiquiditySharePpm l) \<and> 0 < maxLiquiditySharePpm l \<and>
     30 \<le> maxObservationGapSeconds l \<and> maxObservationGapSeconds l \<le> 90 \<and> 0 < exitReserveWei l"

definition reference_policy_parses :: "keeper_reference_policy \<Rightarrow> bool" where
  "reference_policy_parses r \<longleftrightarrow>
     positive_int (tr_maxAgeSeconds (rp_token0 r)) \<and> positive_int (tr_maxAgeSeconds (rp_token1 r)) \<and>
     positive_int (rp_nativeMaxAgeSeconds r) \<and> ppm (rp_maxPoolDeviationPpm r) \<and> 0 < rp_maxPoolDeviationPpm r"

definition optional :: "('a \<Rightarrow> bool) \<Rightarrow> 'a option \<Rightarrow> bool" where
  "optional P x \<longleftrightarrow> (case x of None \<Rightarrow> True | Some y \<Rightarrow> P y)"

definition wallet_code_parses :: "(string \<Rightarrow> bool) \<Rightarrow> keeper_wallet_code \<Rightarrow> bool" where
  "wallet_code_parses is_address c \<longleftrightarrow> (case c of Eoa \<Rightarrow> True
     | Eip7702 delegate codeHash \<Rightarrow> is_address delegate \<and> hash_text codeHash)"

definition config_fields_parse :: "(string \<Rightarrow> bool) \<Rightarrow> RangeKeeperConfig \<Rightarrow> bool" where
  "config_fields_parse is_address c \<longleftrightarrow>
     kc_strategyVersion c = ''1.0.0'' \<and> optional is_address (kc_operator c) \<and>
     profile_parses is_address (kc_pool c) \<and> limits_parse (kc_limits c) \<and>
     optional (\<lambda>s. sg_reference s \<noteq> [] \<and> variable_text (sg_variable s)) (kc_signer c) \<and>
     wallet_code_parses is_address (kc_walletCode c) \<and>
     list_all (\<lambda>(t, sp). is_address t \<and> is_address sp) (kc_zeroAllowances c) \<and>
     list_all positive_text (kc_legacyRetiredTokenIds c) \<and>
     0 \<le> kc_maxDurationSeconds c \<and> kc_maxDurationSeconds c \<le> 86400 \<and>
     0 \<le> kc_maxEconomicActions c \<and> kc_maxEconomicActions c \<le> 10 \<and>
     reference_policy_parses (kc_referencePolicy c) \<and>
     0 < kc_campaignValue c \<and> 0 < kc_strategyFundingValue c \<and> 0 < kc_nativeFundingValue c"

text \<open>\<open>superRefine\<close>: the issues between fields, in the order in which they are added.\<close>

definition zeroAddress :: string where
  "zeroAddress = ''0x'' @ replicate 40 (CHR ''0'')"

definition issue :: "bool \<Rightarrow> string \<Rightarrow> string list" where
  "issue b message = (if b then [message] else [])"

definition config_issues :: "RangeKeeperConfig \<Rightarrow> string list" where
  "config_issues c = (let p = kc_pool c; l = kc_limits c in
     issue (lower (kq_token0 p) \<ge> lower (kq_token1 p)) ''Pool tokens must be in canonical address order'' @
     issue (zeroAddress \<in> {kq_factory p, kq_pool p, kq_token0 p, kq_token1 p, kq_positionManager p, kq_router p, kq_quoter p})
       ''Zero contract address'' @
     issue (kq_reference0 p = kq_reference1 p) ''Token references must be distinct'' @
     issue (kc_strategyFundingValue c + kc_nativeFundingValue c > kc_campaignValue c)
       ''Funding exceeds aggregate campaign cap'' @
     issue (maxDeploymentValue l > kc_strategyFundingValue c) ''Deployment exceeds strategy allocation'' @
     issue (maxSwapInputValue l > kc_strategyFundingValue c) ''Swap input exceeds strategy allocation'' @
     issue (maxRollingCost l > maxCampaignCost l) ''Rolling cost exceeds campaign cost'' @
     issue (\<not> distinct (kc_legacyRetiredTokenIds c)) ''Repeated legacy NFT ID'' @
     issue (\<not> distinct (map (\<lambda>(t, sp). allowancePairKey t sp) (kc_zeroAllowances c))) ''Repeated guarded allowance pair'' @
     issue (list_ex (\<lambda>(t, _). \<not> same t (kq_token0 p) \<and> \<not> same t (kq_token1 p)) (kc_zeroAllowances c))
       ''Guarded allowance token is outside the configured pool'' @
     issue (kc_legacyRetiredTokenIds c \<noteq> [] \<and> kc_operator c = None) ''Legacy NFT proof requires a selected operator'' @
     issue (kc_broadcastEnabled c \<and> (kc_operator c = None \<or> kc_signer c = None))
       ''Live execution requires a frozen operator and signer reference'')"

definition config_parses :: "(string \<Rightarrow> bool) \<Rightarrow> RangeKeeperConfig \<Rightarrow> bool" where
  "config_parses is_address c \<longleftrightarrow> config_fields_parse is_address c \<and> config_issues c = []"

text \<open>\<open>parseRangeKeeperConfig\<close>; a schema error is one text here.\<close>

definition parseRangeKeeperConfig :: "(string \<Rightarrow> bool) \<Rightarrow> bool \<Rightarrow> RangeKeeperConfig \<Rightarrow> RangeKeeperConfig res" where
  "parseRangeKeeperConfig is_address allowBroadcast raw =
     bind_ok (ensure (config_parses is_address raw) ''ZodError'') (\<lambda>_.
     bind_ok (ensure (\<not> kc_broadcastEnabled raw \<or> allowBroadcast)
       ''RangeKeeper broadcast requires the explicit live-controller parser'') (\<lambda>_. Inr raw))"

subsection \<open>State of the policy\<close>

definition source_parses :: "keeper_source \<Rightarrow> bool" where
  "source_parses s \<longleftrightarrow> 0 \<le> ks_block s \<and> hash_text (ks_hash s) \<and> nonnegative_int (ks_timestamp s)"

definition swap_parses :: "keeper_swap \<Rightarrow> bool" where
  "swap_parses sw \<longleftrightarrow> 0 \<le> sw_amountIn sw \<and> 0 \<le> quotedOut sw \<and> 0 \<le> sw_minOut sw \<and> 0 \<le> sw_priceAfter sw \<and>
     0 \<le> sw_feeValue sw \<and> 0 \<le> sw_shortfallValue sw"

definition candidate_parses :: "RangeKeeperCandidate \<Rightarrow> bool" where
  "candidate_parses c \<longleftrightarrow>
     safe_integer (range_tickLower (ck_range c)) \<and> safe_integer (range_tickUpper (ck_range c)) \<and>
     optional swap_parses (ck_swap c) \<and> 0 \<le> amount0Desired c \<and> 0 \<le> amount1Desired c \<and> 0 \<le> amount0Min c \<and>
     0 \<le> amount1Min c \<and> 0 \<le> ck_liquidity c \<and> 0 \<le> deployedValue c \<and> 0 \<le> ck_sourceBlock c \<and>
     hash_text (ck_sourceHash c) \<and> nonnegative_int (expiresAt c)"

definition exit_parses :: "keeper_exit \<Rightarrow> bool" where
  "exit_parses e \<longleftrightarrow> positive_text (kt_tokenId e) \<and> safe_integer (kt_tickLower e) \<and> safe_integer (kt_tickUpper e) \<and>
     0 \<le> kt_block e \<and> hash_text (kt_hash e) \<and> nonnegative_int (since e) \<and> nonnegative_int (lastOutsideAt e)"

definition confirmation_parses :: "keeper_confirmation \<Rightarrow> bool" where
  "confirmation_parses f \<longleftrightarrow> candidate_parses (cf_candidate f) \<and> 0 \<le> firstBlock f \<and> hash_text (firstHash f) \<and>
     nonnegative_int (firstAt f)"

definition state_parses :: "RangeKeeperState \<Rightarrow> bool" where
  "state_parses s \<longleftrightarrow> hash_text (st_configHash s) \<and> st_buildId s \<noteq> [] \<and> optional source_parses (lastEligible s) \<and>
     optional exit_parses (exit_timer s) \<and> optional confirmation_parses (confirmation s)"

text \<open>Reading back what \<open>serializeRangeKeeperState\<close> wrote: the same value, when the schema admits it.\<close>

definition parseRangeKeeperState :: "RangeKeeperState \<Rightarrow> RangeKeeperState res" where
  "parseRangeKeeperState s = (if state_parses s then Inr s else Inl ''ZodError'')"

definition initialRangeKeeperState :: "(RangeKeeperConfig \<Rightarrow> string) \<Rightarrow> RangeKeeperConfig \<Rightarrow> string \<Rightarrow> RangeKeeperState res" where
  "initialRangeKeeperState config_hash c buildId =
     bind_ok (ensure (length buildId > 0) ''Build ID required'') (\<lambda>_.
     Inr \<lparr>st_configHash = config_hash c, st_buildId = buildId, lastEligible = None, exit_timer = None, confirmation = None\<rparr>)"

definition assertRangeKeeperState ::
  "(RangeKeeperConfig \<Rightarrow> string) \<Rightarrow> RangeKeeperState \<Rightarrow> RangeKeeperConfig \<Rightarrow> string \<Rightarrow> unit res" where
  "assertRangeKeeperState config_hash s c buildId =
     bind_ok (ensure (st_configHash s = config_hash c) ''Campaign configuration changed'') (\<lambda>_.
     ensure (st_buildId s = buildId) ''Campaign build changed'')"

subsection \<open>What the planner persists can be read back\<close>

text \<open>An observation as \<open>live-observe.ts\<close> builds it from a block: its hash, a time in seconds, an NFT id.\<close>

definition observation_typed :: "RangeKeeperObservation \<Rightarrow> bool" where
  "observation_typed ob \<longleftrightarrow> hash_text (ob_hash ob) \<and> 0 \<le> ob_timestamp ob \<and> ob_timestamp ob \<le> 9007199254740901 \<and>
     optional (\<lambda>p. positive_text (kp_tokenId p) \<and> safe_integer (kp_tickLower p) \<and> safe_integer (kp_tickUpper p))
       (ob_position ob)"

lemma optional_simps [simp]: "optional P None" "optional P (Some x) \<longleftrightarrow> P x"
  by (simp_all add: optional_def)

lemma haircut_nonneg: "0 \<le> a \<Longrightarrow> 0 < bps \<Longrightarrow> bps \<le> 50 \<Longrightarrow> 0 \<le> haircut a bps"
  by (simp add: haircut_def sdiv_nonneg pos_imp_zdiv_nonneg_iff)

lemma tick_safe: "MIN_TICK \<le> t \<Longrightarrow> t \<le> MAX_TICK \<Longrightarrow> safe_integer t"
  by (auto simp: safe_integer_def tick_consts abs_le_iff)

lemma ceilDiv_nonneg: "0 \<le> n \<Longrightarrow> 0 < d \<Longrightarrow> 0 \<le> ceilDiv n d"
  by (simp add: ceilDiv_def sdiv_nonneg pos_imp_zdiv_nonneg_iff)

lemma position_delta_nonneg: "position_delta L up a b t = Inr v \<Longrightarrow> 0 \<le> v"
  by (auto simp: position_delta_def bind_ok_Inr_iff assertion_def sdiv_nonneg Q96_def Let_def
      pos_imp_zdiv_nonneg_iff intro!: ceilDiv_nonneg split: if_splits)

lemma mint_amounts_nonneg:
  "replayPaperMint p rg a0 a1 r = Inr m \<Longrightarrow> 0 \<le> mint_amount0 m \<and> 0 \<le> mint_amount1 m"
  by (auto simp: replayPaperMint_def positionAmounts_def Let_def bind_ok_Inr_iff dest: position_delta_nonneg)

lemma rawValue_nonneg: "0 \<le> a \<Longrightarrow> 0 < p \<Longrightarrow> 0 \<le> rawValue a p d"
  by (simp add: rawValue_def sdiv_nonneg pos_imp_zdiv_nonneg_iff)

lemma mint_fits_limits_parses:
  assumes fit: "mint_fits_limits (keeper_context ob l d0 d1 rg k p0 p1) price w0 w1 c"
    and l: "limits_parse l" and ob: "observation_typed ob" "0 \<le> ob_block ob" and p: "0 < p0" "0 < p1"
  shows "optional swap_parses (ck_swap c) \<Longrightarrow> candidate_parses c" "0 \<le> price"
proof -
  from fit obtain m where m: "replayPaperMint price (ck_range c) (amount0Desired c) (amount1Desired c) 0 = Inr m"
    "mint_liquidity m = ck_liquidity c" "deployedValue c = mintValue m p0 p1 d0 d1"
    "amount0Min c = haircut (mint_amount0 m) (maxSlippageBps l)" "amount1Min c = haircut (mint_amount1 m) (maxSlippageBps l)"
    and c: "ck_sourceBlock c = ob_block ob" "ck_sourceHash c = ob_hash ob" "expiresAt c = ob_timestamp ob + 90"
      "0 \<le> amount0Desired c" "0 \<le> amount1Desired c" "0 < ck_liquidity c"
      "sqrt_ratio (range_tickLower (ck_range c)) < price"
    unfolding mint_fits_limits_def by (auto simp: keeper_context_def Let_def)
  from m(1) have t: "MIN_TICK \<le> range_tickLower (ck_range c)" "range_tickLower (ck_range c) \<le> MAX_TICK"
      "MIN_TICK \<le> range_tickUpper (ck_range c)" "range_tickUpper (ck_range c) \<le> MAX_TICK"
    by (auto simp: replayPaperMint_Inr_iff mint_valid_def)
  show "0 \<le> price" using c(7) sqrt_ratio_pos [OF t(1,2)] by simp
  have a: "0 \<le> mint_amount0 m" "0 \<le> mint_amount1 m" using mint_amounts_nonneg [OF m(1)] by simp_all
  have "0 \<le> deployedValue c" using rawValue_nonneg [OF a(1) p(1)] rawValue_nonneg [OF a(2) p(2)]
    by (simp add: m(3) mintValue_def)
  moreover assume "optional swap_parses (ck_swap c)"
  ultimately show "candidate_parses c"
    using m(4,5) c t l ob a
    by (simp add: candidate_parses_def limits_parse_def observation_typed_def nonnegative_int_def tick_safe
        haircut_nonneg safe_integer_def [of "_ + 90"])
qed

lemma candidate_fits_parses:
  assumes "candidate_fits quote (keeper_context ob l d0 d1 rg k p0 p1) c" "limits_parse l" "observation_typed ob"
    "0 \<le> ob_block ob" "0 < p0" "0 < p1"
  shows "candidate_parses c"
proof (cases "ck_swap c")
  case None
  with assms show ?thesis by (auto simp: candidate_fits_def intro: mint_fits_limits_parses)
next
  case (Some sw)
  with assms(1) have sw: "swap_fits_limits quote (keeper_context ob l d0 d1 rg k p0 p1) sw c" "0 < sw_amountIn sw"
    by (simp_all add: candidate_fits_def)
  then obtain q :: SwapQuote and w0 w1 where q: "quotedOut sw = amountOut q" "sw_priceAfter sw = priceAfter q"
    "sw_feeValue sw = feeValue q" "sw_shortfallValue sw = shortfallValue q" "0 < amountOut q" "0 \<le> feeValue q"
    "0 \<le> shortfallValue q" "sw_minOut sw = haircut (amountOut q) (maxSlippageBps l)"
    and fit: "mint_fits_limits (keeper_context ob l d0 d1 rg k p0 p1) (priceAfter q) w0 w1 c"
    unfolding swap_fits_limits_def by (auto simp: keeper_context_def Let_def)
  note parse = mint_fits_limits_parses [OF fit assms(2-6)]
  show ?thesis using q sw(2) parse(2) assms(2) haircut_nonneg [of "amountOut q" "maxSlippageBps l"]
    by (intro parse(1)) (simp add: Some swap_parses_def limits_parse_def)
qed

text \<open>The stages before the candidate keep the state readable.\<close>

definition step_parses :: "plan_step \<Rightarrow> bool" where
  "step_parses r = (case r of Inl d \<Rightarrow> state_parses (dc_state d) \<and> dc_candidate d = None | Inr s \<Rightarrow> state_parses s)"

lemma step_parses_bind: "step_parses r \<Longrightarrow> (\<And>s. r = Inr s \<Longrightarrow> state_parses s \<Longrightarrow> step_parses (f s)) \<Longrightarrow> step_parses (bind_ok r f)"
  by (cases r) (simp_all add: step_parses_def)

lemmas state_parts = state_parses_def exit_parses_def source_parses_def nonnegative_int_def

lemma early_stages_parse:
  assumes "state_parses s" "observation_typed (in_observation inp)" "0 \<le> ob_block (in_observation inp)"
  shows "step_parses (plan_source inp s)" "step_parses (plan_value inp s)" "step_parses (plan_position inp s)"
    "step_parses (plan_interval inp s)" "step_parses (plan_gates inp s)"
proof -
  have time: "safe_integer (ob_timestamp (in_observation inp))" "0 \<le> ob_timestamp (in_observation inp)"
    using assms(2) by (simp_all add: observation_typed_def safe_integer_def)
  show "step_parses (plan_source inp s)" using assms(1)
    by (auto simp: plan_source_def step_parses_def state_parses_def Let_def split: option.splits)
  show "step_parses (plan_value inp s)" using assms(1)
    by (auto simp: plan_value_def step_parses_def state_parses_def Let_def split: option.splits)
  have "state_parses (advance_exit inp p s)" if "ob_position (in_observation inp) = Some p" for p
    using assms that time
    by (cases "exit_timer s") (auto simp: advance_exit_def state_parts observation_typed_def Let_def)
  then show "step_parses (plan_position inp s)" using assms(1)
    by (auto simp: plan_position_def step_parses_def state_parses_def Let_def split: option.splits)
  show "step_parses (plan_interval inp s)" using assms time
    by (auto simp: plan_interval_def step_parses_def state_parts observation_typed_def Let_def split: option.splits)
  show "step_parses (plan_gates inp s)" using assms(1)
    by (auto simp: plan_gates_def step_parses_def Let_def)
qed

lemma plan_confirm_parses:
  assumes "state_parses s" "candidate_parses c" "observation_typed (in_observation inp)" "0 \<le> ob_block (in_observation inp)"
  shows "state_parses (dc_state (plan_confirm simulate inp s c)) \<and>
    optional candidate_parses (dc_candidate (plan_confirm simulate inp s c))"
proof -
  have "safe_integer (ob_timestamp (in_observation inp))" "0 \<le> ob_timestamp (in_observation inp)"
    using assms(3) by (simp_all add: observation_typed_def safe_integer_def)
  with assms(1-4) show ?thesis
    by (auto simp: plan_confirm_def state_parses_def confirmation_parses_def observation_typed_def
        nonnegative_int_def Let_def split: option.splits sum.splits bool.splits)
qed

lemma plan_gates_prices:
  assumes "plan_gates inp s = Inr s'"
  obtains p0 p1 where "price0 (in_observation inp) = Some p0" "0 < p0" "price1 (in_observation inp) = Some p1" "0 < p1"
  using plan_gates_Inr [OF assms] by (auto simp: gates_open_def Let_def)

text \<open>
  C30: whatever the planner decides can be persisted and read back.  From a state that the
  schema of \<open>state.ts\<close> admits, under limits that the schema of \<open>config.ts\<close> admits and at an
  observation of a block, the state of the decision is admitted again, and so is the candidate
  it carries: no amount in it is negative, no time leaves the safe integers.
\<close>

theorem planned_state_parses:
  assumes "planRangeKeeper quote simulate inp = Inr d" "state_parses (in_state inp)" "limits_parse (in_limits inp)"
    "observation_typed (in_observation inp)"
  shows "parseRangeKeeperState (dc_state d) = Inr (dc_state d) \<and> optional candidate_parses (dc_candidate d)"
proof -
  let ?ob = "in_observation inp"
  let ?r = "bind_ok (plan_source inp (in_state inp)) (\<lambda>s1. bind_ok (plan_value inp s1) (\<lambda>s2.
             bind_ok (plan_position inp s2) (\<lambda>s3. bind_ok (plan_interval inp s3) (plan_gates inp))))"
  from assms(1) have ob: "0 \<le> ob_block ?ob" "0 \<le> ob_wallet0 ?ob + released0 ?ob" "0 \<le> ob_wallet1 ?ob + released1 ?ob"
    and d: "d = (case ?r of Inl d \<Rightarrow> d | Inr s \<Rightarrow> plan_action quote simulate inp s)"
    by (auto simp: planRangeKeeper_def plan_asserts_def Let_def bind_ok_Inr_iff)
  note stage = early_stages_parse [OF _ assms(4) ob(1)]
  have r: "step_parses ?r" by (intro step_parses_bind stage assms(2))
  show ?thesis
  proof (cases ?r)
    case (Inl d')
    with r d show ?thesis by (simp add: step_parses_def parseRangeKeeperState_def)
  next
    case (Inr s)
    then obtain s' where "plan_gates inp s' = Inr s" by (auto simp: bind_ok_Inr_iff)
    then obtain p0 p1 where p: "price0 ?ob = Some p0" "0 < p0" "price1 ?ob = Some p1" "0 < p1" by (rule plan_gates_prices)
    have s: "state_parses s" using r Inr by (simp add: step_parses_def)
    have c: "candidate_parses c" if "plan_candidate quote inp = Inr (Some c)" for c
    proof -
      from that obtain rg where "construct quote ?ob (in_limits inp) (in_decimals0 inp) (in_decimals1 inp) rg
          (keeper_kind_of ?ob) = Inr (Some c)"
        by (auto simp: plan_candidate_def Let_def bind_ok_Inr_iff)
      moreover have "limits_ok (in_limits inp)" using assms(3) by (simp add: limits_parse_def limits_ok_def)
      ultimately have "candidate_fits quote (keeper_context ?ob (in_limits inp) (in_decimals0 inp) (in_decimals1 inp) rg
          (keeper_kind_of ?ob) p0 p1) c"
        by (rule construct_Some [OF _ _ p(1,3,2,4) ob(2,3)])
      then show ?thesis by (rule candidate_fits_parses [OF _ assms(3,4) ob(1) p(2,4)])
    qed
    have "state_parses (dc_state d) \<and> optional candidate_parses (dc_candidate d)"
      using d Inr s c plan_confirm_parses [OF s _ assms(4) ob(1)]
      by (auto simp: plan_action_def split: sum.splits option.splits)
    then show ?thesis by (simp add: parseRangeKeeperState_def)
  qed
qed

text \<open>A position out of its range, observed for the first time.\<close>

definition sample_typed_input :: RangeKeeperPlannerInput where
  "sample_typed_input = \<lparr>in_state = \<lparr>st_configHash = ''0x'' @ replicate 64 (CHR ''c''), st_buildId = ''b'', lastEligible = None,
       exit_timer = None, confirmation = None\<rparr>,
     in_observation = (sample_observation 7 1000 (Some \<lparr>kp_tokenId = ''12'', kp_tickLower = 60, kp_tickUpper = 120,
       kp_liquidity = 5\<rparr>))\<lparr>ob_hash := ''0x'' @ replicate 64 (CHR ''a'')\<rparr>,
     in_limits = sample_limits, in_spacing = 60, in_decimals0 = 0, in_decimals1 = 0, in_quoteToken = Token1,
     maxPoolDeviationPpm = 1000\<rparr>"

theorem planned_state_parses_witness:
  "\<exists>d. planRangeKeeper silent_quoter (\<lambda>_. Inr True) sample_typed_input = Inr d \<and> exit_timer (dc_state d) \<noteq> None \<and>
     parseRangeKeeperState (dc_state d) = Inr (dc_state d)"
proof -
  let ?in = sample_typed_input
  have t: "state_parses (in_state ?in)" "limits_parse (in_limits ?in)" "observation_typed (in_observation ?in)"
    by (simp_all add: sample_typed_input_def state_parses_def hash_text_def is_hex_def is_digit_def list_all_iff
        limits_parse_def sample_limits_def ppm_def nonnegative_int_def safe_integer_def smod_nonneg
        observation_typed_def sample_observation_def positive_text_def digits_only_def)
  have "\<exists>d. planRangeKeeper silent_quoter (\<lambda>_. Inr True) ?in = Inr d \<and> exit_timer (dc_state d) \<noteq> None"
    by (simp add: planRangeKeeper_def plan_asserts_def sample_typed_input_def sample_observation_def safe_integer_def
        plan_source_def plan_value_def sample_limits_def equity_of_def pool_price1_def rawValue_def plan_position_def
        inside_range_def advance_exit_def PPM_def Let_def)
  then obtain d where d: "planRangeKeeper silent_quoter (\<lambda>_. Inr True) ?in = Inr d" "exit_timer (dc_state d) \<noteq> None" by blast
  from planned_state_parses [OF d(1) t] d show ?thesis by blast
qed

end
