(* ===== verification/Keeper_Stage.thy ===== *)
theory Keeper_Stage
  imports Keeper_Config
begin

section \<open>RangeKeeper: the next stage of an action\<close>

text \<open>
  \<open>src/strategy/rangekeeper/live-stage.ts\<close>, \<open>stages.ts\<close> and the time-in-range accrual of
  \<open>live-domain.ts\<close>.  An action of the live controller runs in stages, one transaction each;
  from the campaign's state and a snapshot of the chain the next transaction is planned, or
  none.  The quote at the snapshot's source is a parameter; the error classes of the source are
  the texts of the errors.
\<close>

datatype RangeKeeperPhase = Phase_entry | Phase_holding | Phase_recenter | Phase_exit | Phase_closed | Phase_halted
datatype keeper_desired = Running | Stopped
datatype exit_mode = Exit_retain | Exit_convert

record RangeKeeperSnapshot =
  sn_block :: int
  sn_hash :: string
  sn_timestamp :: int
  sn_operator :: string
  sn_funds :: keeper_funds
  sn_nonce :: int
  sn_nftCount :: int
  sn_tick :: int
  sn_sqrtPriceX96 :: int
  sn_unlocked :: bool
  sn_poolLiquidity :: int
  sn_allowances :: "ObservedAllowance list"
  sn_position :: "wallet_position option"

record RangeKeeperCostEvent =
  ce_hash :: string
  ce_block :: int
  ce_timestamp :: int
  ce_gasWei :: int
  ce_gasValue :: "int option"
  ce_swapFeeValue :: "int option"
  ce_swapShortfallValue :: "int option"

record RangeKeeperLiveState =
  lv_id :: string
  lv_operator :: string
  lv_configHash :: string
  lv_buildId :: string
  lv_phase :: RangeKeeperPhase
  lv_desired :: keeper_desired
  lv_haltReason :: "string option"
  lv_exitMode :: "exit_mode option"
  lv_createdAt :: int
  lv_expiresAt :: int
  lv_economicActions :: int
  lv_recenters :: int
  lv_policy :: RangeKeeperState
  lv_last :: RangeKeeperSnapshot
  lv_activeTokenId :: "int option"
  lv_retiredTokenIds :: "string list"
  lv_legacyNftCount :: int
  lv_reserve0 :: int
  lv_reserve1 :: int
  lv_reserveNativeWei :: int
  lv_initial0 :: int
  lv_initial1 :: int
  lv_initialNativeWei :: int
  lv_initialStrategyValue :: int
  lv_candidate :: "RangeKeeperCandidate option"
  lv_swapDone :: bool
  lv_swapConfirmedAt :: "int option"
  lv_withdrawDone :: bool
  lv_actionStartCostIndex :: nat
  lv_reservedActionCost :: int
  lv_mintRecoveryAttempts :: int
  lv_collectedFee0 :: int
  lv_collectedFee1 :: int
  lv_gasSpentWei :: int
  lv_costEvents :: "RangeKeeperCostEvent list"
  lv_highWaterValue :: int
  activeSeconds :: int
  outsideSeconds :: int
  lv_lastMarkTimestamp :: int
  lv_lastReason :: string
  lv_closedAt :: "int option"

record RangeKeeperAllowancePolicy =
  ap_exposure :: "int \<times> int"
  ap_retain :: "string list option"

type_synonym stage_res = "RangeKeeperTxPlan option res"

definition rangeKeeperPoolWithinReference ::
  "nat \<Rightarrow> nat \<Rightarrow> int \<Rightarrow> int \<Rightarrow> int \<Rightarrow> int \<Rightarrow> bool res"
where
  "rangeKeeperPoolWithinReference d0 d1 sqrtPrice p0 p1 maxDeviationPpm =
     bind_ok (div_big (2 ^ 192 * 10 ^ d1 * p0) (sqrtPrice * sqrtPrice * 10 ^ d0)) (\<lambda>poolPrice1.
       let deviation = (if poolPrice1 > p1 then poolPrice1 - p1 else p1 - poolPrice1) in
       Inr (deviation * 1000000 \<le> p1 * maxDeviationPpm))"

definition spender_address :: "RangeKeeperPool \<Rightarrow> plan_spender \<Rightarrow> string" where
  "spender_address p k = (if k = Router then kq_router p else kq_positionManager p)"

definition pair_allowance :: "RangeKeeperPool \<Rightarrow> RangeKeeperSnapshot \<Rightarrow> token_side \<Rightarrow> plan_spender \<Rightarrow> int res" where
  "pair_allowance p s i k =
     (case find (\<lambda>a. same (al_token a) (pool_token p i) \<and> same (al_spender a) (spender_address p k)) (sn_allowances s) of
        None \<Rightarrow> Inl ''Configured allowance pair missing''
      | Some a \<Rightarrow> Inr (al_amount a))"

definition side_funds :: "keeper_funds \<Rightarrow> token_side \<Rightarrow> int" where
  "side_funds f i = (if i = Token0 then fd_amount0 f else fd_amount1 f)"

text \<open>
  \<open>grant\<close>: nothing while the allowance covers the need.  Under the persistent policy one approval
  up to the cap; otherwise the current inventory, after a reset of what is left of an older one.
\<close>

definition stage_grant ::
  "RangeKeeperPool \<Rightarrow> RangeKeeperSnapshot \<Rightarrow> keeper_funds \<Rightarrow> RangeKeeperAllowancePolicy option \<Rightarrow>
   token_side \<Rightarrow> plan_spender \<Rightarrow> int \<Rightarrow> int option \<Rightarrow> stage_res"
where
  "stage_grant p s funds policy i k needed futureCap =
     (let available = side_funds funds i; cap = (case futureCap of None \<Rightarrow> available | Some c \<Rightarrow> c) in
      bind_ok (assertion (needed \<ge> 0 \<and> needed \<le> cap \<and> cap \<ge> available)) (\<lambda>_.
      bind_ok (pair_allowance p s i k) (\<lambda>current.
        if current \<ge> needed then Inr None
        else case policy of
            Some ap \<Rightarrow>
              bind_ok (persistentAllowanceGrant current needed
                (if i = Token0 then fst (ap_exposure ap) else snd (ap_exposure ap))) (\<lambda>am.
              Inr (Some (Plan_approve i k (the am))))
          | None \<Rightarrow> Inr (Some (Plan_approve i k (if current > 0 then 0 else cap))))))"

fun zero_first ::
  "RangeKeeperPool \<Rightarrow> RangeKeeperSnapshot \<Rightarrow> RangeKeeperAllowancePolicy option \<Rightarrow> (token_side \<times> plan_spender) list \<Rightarrow> stage_res"
where
  "zero_first p s policy [] = Inr None"
| "zero_first p s policy ((i, k) # pairs) =
     bind_ok (pair_allowance p s i k) (\<lambda>current.
       if current > 0 \<and> \<not> (case policy of None \<Rightarrow> False | Some ap \<Rightarrow> (case ap_retain ap of None \<Rightarrow> False
            | Some r \<Rightarrow> allowancePairKey (pool_token p i) (spender_address p k) \<in> set r))
       then Inr (Some (Plan_approve i k 0))
       else zero_first p s policy pairs)"

definition zeroUnusedAllowance ::
  "RangeKeeperPool \<Rightarrow> RangeKeeperSnapshot \<Rightarrow> RangeKeeperAllowancePolicy option \<Rightarrow> stage_res"
where
  "zeroUnusedAllowance p s policy = zero_first p s policy
     [(Token0, Router), (Token0, Position_manager), (Token1, Router), (Token1, Position_manager)]"

text \<open>Going on with the next step when a step plans nothing.\<close>

definition or_else :: "stage_res \<Rightarrow> stage_res \<Rightarrow> stage_res" where
  "or_else r next = bind_ok r (\<lambda>plan. case plan of Some pl \<Rightarrow> Inr (Some pl) | None \<Rightarrow> next)"

definition withdraw_stage :: "RangeKeeperSnapshot \<Rightarrow> RangeKeeperLimits \<Rightarrow> wallet_position \<Rightarrow> stage_res" where
  "withdraw_stage s l pos =
     bind_ok (rangeKeeperWithdrawalMinimums (wp_liquidity pos) (wp_tickLower pos) (wp_tickUpper pos)
       (sn_sqrtPriceX96 s) (maxSlippageBps l)) (\<lambda>(m0, m1).
     Inr (Some (Plan_withdraw (wp_tokenId pos) (wp_liquidity pos) m0 m1 (sn_timestamp s + 300))))"

text \<open>The position that still holds liquidity: \<open>pos && pos.liquidity > 0n\<close>.\<close>

definition liquid_position :: "RangeKeeperSnapshot \<Rightarrow> wallet_position option" where
  "liquid_position s = (case sn_position s of None \<Rightarrow> None | Some p \<Rightarrow> if wp_liquidity p > 0 then Some p else None)"

definition exit_convert ::
  "(token_side \<Rightarrow> int \<Rightarrow> SwapQuote res) \<Rightarrow> RangeKeeperLiveState \<Rightarrow> RangeKeeperSnapshot \<Rightarrow> RangeKeeperConfig \<Rightarrow>
   int \<Rightarrow> int \<Rightarrow> RangeKeeperAllowancePolicy option \<Rightarrow> keeper_funds \<Rightarrow> stage_res"
where
  "exit_convert quote st s cf p0 p1 policy funds =
     (let p = kc_pool cf; l = kc_limits cf; risky = (if kq_quoteToken p = Token0 then Token1 else Token0);
          am = (if lv_exitMode st = Some Exit_retain then 0 else side_funds funds risky) in
      if am > 0 then
        bind_ok (rangeKeeperPoolWithinReference (kq_decimals0 p) (kq_decimals1 p) (sn_sqrtPriceX96 s) p0 p1
          (rp_maxPoolDeviationPpm (kc_referencePolicy cf))) (\<lambda>near.
        bind_ok (ensure near ''Exit pool/reference deviation'') (\<lambda>_.
        or_else (stage_grant p s funds policy risky Router am None)
          (bind_ok (quote risky am) (\<lambda>q.
           bind_ok (ensure (amountOut q > 0 \<and> shortfallValue q \<le> maxSwapShortfallValue l)
             ''Exit quote unavailable or excessive shortfall'') (\<lambda>_.
           Inr (Some (Plan_swap risky am (haircut (amountOut q) (maxSlippageBps l)) (sn_timestamp s + 300))))))))
      else zeroUnusedAllowance p s policy)"

definition exit_stage ::
  "(token_side \<Rightarrow> int \<Rightarrow> SwapQuote res) \<Rightarrow> RangeKeeperLiveState \<Rightarrow> RangeKeeperSnapshot \<Rightarrow> RangeKeeperConfig \<Rightarrow>
   int \<Rightarrow> int \<Rightarrow> RangeKeeperAllowancePolicy option \<Rightarrow> keeper_funds \<Rightarrow> stage_res"
where
  "exit_stage quote st s cf p0 p1 policy funds = (case liquid_position s of
      Some pos \<Rightarrow> bind_ok (ensure (lv_activeTokenId st = Some (wp_tokenId pos)) ''Exit NFT identity changed'') (\<lambda>_.
        withdraw_stage s (kc_limits cf) pos)
    | None \<Rightarrow> exit_convert quote st s cf p0 p1 policy funds)"

text \<open>
  The swap of a frozen candidate: requoted at the current source, still worth it, and both mint
  legs approved before it is sent.  \<open>acquired_cap\<close> bounds the approval of the leg to come.
\<close>

definition deployment_floor :: "RangeKeeperLimits \<Rightarrow> int" where
  "deployment_floor l = (maxDeploymentValue l * minDeploymentPpm l) sdiv 1000000"

definition acquired_cap :: "RangeKeeperConfig \<Rightarrow> token_side \<Rightarrow> int \<Rightarrow> int \<Rightarrow> int res" where
  "acquired_cap cf acquired p0 p1 = (let price = (if acquired = Token0 then p0 else p1) in
     bind_ok (assertion (price > 0)) (\<lambda>_.
       Inr ((maxDeploymentValue (kc_limits cf) * 10 ^ pool_decimals (kc_pool cf) acquired) sdiv price)))"

definition swap_stage ::
  "(token_side \<Rightarrow> int \<Rightarrow> SwapQuote res) \<Rightarrow> RangeKeeperSnapshot \<Rightarrow> RangeKeeperConfig \<Rightarrow> int \<Rightarrow> int \<Rightarrow>
   RangeKeeperAllowancePolicy option \<Rightarrow> keeper_funds \<Rightarrow> RangeKeeperCandidate \<Rightarrow> keeper_swap \<Rightarrow> stage_res"
where
  "swap_stage quote s cf p0 p1 policy funds c sw =
     (let p = kc_pool cf; l = kc_limits cf; token = sw_token sw; am = sw_amountIn sw;
          acquired = (if token = Token0 then Token1 else Token0);
          grant = stage_grant p s funds policy in
      bind_ok (ensure (am \<le> side_funds funds token) ''Frozen swap input unavailable'') (\<lambda>_.
      bind_ok (quote token am) (\<lambda>q.
      bind_ok (ensure (\<not> (amountOut q \<le> 0 \<or> shortfallValue q > maxSwapShortfallValue l))
        ''Current swap quote is unavailable or too costly'') (\<lambda>_.
      bind_ok (price_outside (ck_range c) (priceAfter q)) (\<lambda>out.
      bind_ok (ensure (\<not> out) ''Current swap would leave the approved range'') (\<lambda>_.
      let after0 = (if token = Token0 then fd_amount0 funds - am else fd_amount0 funds + amountOut q);
          after1 = (if token = Token1 then fd_amount1 funds - am else fd_amount1 funds + amountOut q) in
      bind_ok (sizeRangeKeeperMint (priceAfter q) (ck_range c) after0 after1 p0 p1 (kq_decimals0 p) (kq_decimals1 p)
        (maxDeploymentValue l)) (\<lambda>projected.
      bind_ok (ensure (\<not> (mint_liquidity (sized_mint projected) = 0 \<or> deployed projected < deployment_floor l \<or>
          deployed projected > maxDeploymentValue l)) ''Current quote cannot fund approved range'') (\<lambda>_.
      bind_ok (acquired_cap cf acquired p0 p1) (\<lambda>cap.
      let future = (if side_funds funds acquired > cap then side_funds funds acquired else cap) in
      or_else (grant token Position_manager (side_funds funds token) None)
      (or_else (grant acquired Position_manager
          (if acquired = Token0 then amount0Desired c else amount1Desired c) (Some future))
      (or_else (grant token Router am None)
        (Inr (Some (Plan_swap token am (haircut (amountOut q) (maxSlippageBps l)) (sn_timestamp s + 300)))))))))))))))"

text \<open>The mint of the frozen range at the current price, from the inventory there is.\<close>

definition refreshed ::
  "RangeKeeperCandidate \<Rightarrow> RangeKeeperSnapshot \<Rightarrow> RangeKeeperLimits \<Rightarrow> SizedMint \<Rightarrow> RangeKeeperCandidate" where
  "refreshed c s l r = c\<lparr>amount0Desired := desired0 r, amount1Desired := desired1 r,
     amount0Min := haircut (mint_amount0 (sized_mint r)) (maxSlippageBps l),
     amount1Min := haircut (mint_amount1 (sized_mint r)) (maxSlippageBps l),
     ck_liquidity := mint_liquidity (sized_mint r), deployedValue := deployed r,
     ck_sourceBlock := sn_block s, ck_sourceHash := sn_hash s, expiresAt := sn_timestamp s + 90\<rparr>"

definition mint_stage ::
  "RangeKeeperSnapshot \<Rightarrow> RangeKeeperConfig \<Rightarrow> int \<Rightarrow> int \<Rightarrow> RangeKeeperAllowancePolicy option \<Rightarrow> keeper_funds \<Rightarrow>
   RangeKeeperCandidate \<Rightarrow> stage_res"
where
  "mint_stage s cf p0 p1 policy funds c =
     (let p = kc_pool cf; l = kc_limits cf in
      bind_ok (if sn_tick s < range_tickLower (ck_range c) \<or> sn_tick s \<ge> range_tickUpper (ck_range c) then Inr True
               else price_outside (ck_range c) (sn_sqrtPriceX96 s)) (\<lambda>out.
      bind_ok (ensure (\<not> out) ''Frozen mint range no longer contains price'') (\<lambda>_.
      let available0 = (if ck_swap c \<noteq> None then fd_amount0 funds else amount0Desired c);
          available1 = (if ck_swap c \<noteq> None then fd_amount1 funds else amount1Desired c) in
      bind_ok (ensure (available0 \<le> fd_amount0 funds \<and> available1 \<le> fd_amount1 funds)
        ''Frozen mint allocation unavailable'') (\<lambda>_.
      bind_ok (sizeRangeKeeperMint (sn_sqrtPriceX96 s) (ck_range c) available0 available1 p0 p1
        (kq_decimals0 p) (kq_decimals1 p) (maxDeploymentValue l)) (\<lambda>r.
      bind_ok (ensure (\<not> (mint_liquidity (sized_mint r) = 0 \<or> deployed r < deployment_floor l \<or>
          deployed r > maxDeploymentValue l)) ''Repriced mint misses deployment bounds'') (\<lambda>_.
      or_else (stage_grant p s funds policy Token0 Position_manager (desired0 r) None)
      (or_else (stage_grant p s funds policy Token1 Position_manager (desired1 r) None)
        (Inr (Some (Plan_mint (refreshed c s l r) (sn_timestamp s + 300)))))))))))"

definition action_stage ::
  "(token_side \<Rightarrow> int \<Rightarrow> SwapQuote res) \<Rightarrow> RangeKeeperLiveState \<Rightarrow> RangeKeeperSnapshot \<Rightarrow> RangeKeeperConfig \<Rightarrow>
   int \<Rightarrow> int \<Rightarrow> RangeKeeperAllowancePolicy option \<Rightarrow> keeper_funds \<Rightarrow> RangeKeeperCandidate \<Rightarrow> stage_res"
where
  "action_stage quote st s cf p0 p1 policy funds c = (case liquid_position s of
      Some pos \<Rightarrow> bind_ok (ensure (lv_phase st = Phase_recenter \<and> lv_activeTokenId st = Some (wp_tokenId pos))
          ''Ordinary withdrawal identity'') (\<lambda>_. withdraw_stage s (kc_limits cf) pos)
    | None \<Rightarrow> (case ck_swap c of
          Some sw \<Rightarrow> if \<not> lv_swapDone st then swap_stage quote s cf p0 p1 policy funds c sw
                     else mint_stage s cf p0 p1 policy funds c
        | None \<Rightarrow> mint_stage s cf p0 p1 policy funds c))"

definition nextRangeKeeperStage ::
  "(token_side \<Rightarrow> int \<Rightarrow> SwapQuote res) \<Rightarrow> RangeKeeperLiveState \<Rightarrow> RangeKeeperSnapshot \<Rightarrow> RangeKeeperConfig \<Rightarrow>
   int \<Rightarrow> int \<Rightarrow> RangeKeeperAllowancePolicy option \<Rightarrow> stage_res"
where
  "nextRangeKeeperStage quote st s cf p0 p1 policy =
     bind_ok (strategyBalances (sn_funds s) (lv_reserve0 st) (lv_reserve1 st) (lv_reserveNativeWei st)) (\<lambda>funds.
       if lv_phase st = Phase_exit then exit_stage quote st s cf p0 p1 policy funds
       else if lv_phase st = Phase_holding
       then (if policy = None then zeroUnusedAllowance (kc_pool cf) s policy else Inr None)
       else if lv_phase st \<noteq> Phase_entry \<and> lv_phase st \<noteq> Phase_recenter then Inr None
       else (case lv_candidate st of None \<Rightarrow> Inr None
             | Some c \<Rightarrow> action_stage quote st s cf p0 p1 policy funds c))"

text \<open>
  How the live controller authorizes the planned transaction before it signs (the first checks of
  \<open>submit\<close> in \<open>live-controller.ts\<close>): against the strategy's own funds, with a cap for an
  approval that anticipates a frozen swap.
\<close>

definition authorization_wallet :: "RangeKeeperSnapshot \<Rightarrow> keeper_funds \<Rightarrow> RangeKeeperWallet" where
  "authorization_wallet s funds = \<lparr>rw_operator = sn_operator s, rw_wallet0 = fd_amount0 funds,
     rw_wallet1 = fd_amount1 funds, rw_tick = sn_tick s, rw_sqrtPriceX96 = sn_sqrtPriceX96 s,
     rw_timestamp = sn_timestamp s, rw_position = sn_position s\<rparr>"

definition future_approval_cap ::
  "RangeKeeperLiveState \<Rightarrow> RangeKeeperConfig \<Rightarrow> int \<Rightarrow> int \<Rightarrow> keeper_funds \<Rightarrow> RangeKeeperTxPlan \<Rightarrow> int res"
where
  "future_approval_cap st cf p0 p1 funds plan = (case plan of
      Plan_approve token spender am \<Rightarrow>
        if am > side_funds funds token then
          bind_ok (ensure ((lv_phase st = Phase_entry \<or> lv_phase st = Phase_recenter) \<and> \<not> lv_swapDone st \<and>
            spender = Position_manager \<and>
            (case lv_candidate st of None \<Rightarrow> False | Some c \<Rightarrow> (case ck_swap c of None \<Rightarrow> False | Some sw \<Rightarrow> token \<noteq> sw_token sw)))
            ''Future approval lacks a frozen acquisition'') (\<lambda>_.
          bind_ok (acquired_cap cf token p0 p1) (\<lambda>maxRaw.
          bind_ok (ensure (am \<le> maxRaw) ''Future approval exceeds LP value cap'') (\<lambda>_. Inr maxRaw)))
        else Inr 0
    | _ \<Rightarrow> Inr 0)"

definition submit_authorized ::
  "RangeKeeperLiveState \<Rightarrow> RangeKeeperSnapshot \<Rightarrow> RangeKeeperConfig \<Rightarrow> int \<Rightarrow> int \<Rightarrow> RangeKeeperTxPlan \<Rightarrow> unit res" where
  "submit_authorized st s cf p0 p1 plan =
     bind_ok (strategyBalances (sn_funds s) (lv_reserve0 st) (lv_reserve1 st) (lv_reserveNativeWei st)) (\<lambda>funds.
     bind_ok (future_approval_cap st cf p0 p1 funds plan) (\<lambda>cap.
     authorizeRangeKeeperTx (kc_pool cf) (authorization_wallet s funds) plan (maxSlippageBps (kc_limits cf))
       (fullWidthSpacings (kc_limits cf)) cap None))"

subsection \<open>Receipts\<close>

datatype RangeKeeperStage = Stage_approve | Stage_withdraw_collect | Stage_swap | Stage_mint | Stage_cleanup
datatype receipt_status = Receipt_success | Receipt_reverted

record RangeKeeperStageLedger =
  lg_stage :: "RangeKeeperStage option"
  completedHashes :: "string list"
  gasSpentWei :: int
  costSpentValue :: "int option"
  lg_wallet0 :: int
  lg_wallet1 :: int
  lg_activeTokenId :: "string option"
  haltedReason :: "string option"

record RangeKeeperStageReceipt =
  rr_stage :: RangeKeeperStage
  rr_hash :: string
  rr_canonical :: bool
  rr_status :: receipt_status
  rr_gasWei :: int
  rr_costValue :: "int option"
  rr_nextStage :: "RangeKeeperStage option"
  rr_walletAfter :: "(int \<times> int) option"
  rr_activeTokenIdAfter :: "string option option"

fun stage_text :: "RangeKeeperStage \<Rightarrow> string" where
  "stage_text Stage_approve = ''approve''"
| "stage_text Stage_withdraw_collect = ''withdraw_collect''"
| "stage_text Stage_swap = ''swap''"
| "stage_text Stage_mint = ''mint''"
| "stage_text Stage_cleanup = ''cleanup''"

definition add_cost :: "int option \<Rightarrow> int option \<Rightarrow> int option" where
  "add_cost a b = (case (a, b) of (Some x, Some y) \<Rightarrow> Some (x + y) | _ \<Rightarrow> None)"

text \<open>The receipt is booked on a copy, so an assertion leaves the ledger as it was.\<close>

definition book_success :: "RangeKeeperStageReceipt \<Rightarrow> RangeKeeperStageLedger \<Rightarrow> RangeKeeperStageLedger res" where
  "book_success ev nxt =
     bind_ok (case rr_walletAfter ev of
         None \<Rightarrow> Inr nxt
       | Some (w0, w1) \<Rightarrow> bind_ok (assertion (w0 \<ge> 0 \<and> w1 \<ge> 0)) (\<lambda>_. Inr (nxt\<lparr>lg_wallet0 := w0, lg_wallet1 := w1\<rparr>))) (\<lambda>n.
     let n' = (case rr_activeTokenIdAfter ev of None \<Rightarrow> n | Some t \<Rightarrow> n\<lparr>lg_activeTokenId := t\<rparr>) in
     Inr (n'\<lparr>lg_stage := rr_nextStage ev,
       haltedReason := if costSpentValue n' = None then Some ''receipt_cost_unavailable'' else None\<rparr>))"

definition applyRangeKeeperStageReceipt ::
  "RangeKeeperStageLedger \<Rightarrow> RangeKeeperStageReceipt \<Rightarrow> (bool \<times> RangeKeeperStageLedger) res"
where
  "applyRangeKeeperStageReceipt ledger ev =
     bind_ok (assertion (length (rr_hash ev) = 66 \<and> rr_gasWei ev \<ge> 0)) (\<lambda>_.
     if lower (rr_hash ev) \<in> set (map lower (completedHashes ledger)) then Inr (False, ledger)
     else
       bind_ok (ensure (rr_canonical ev) ''rangekeeper_receipt_noncanonical'') (\<lambda>_.
       bind_ok (ensure (lg_stage ledger = Some (rr_stage ev)) ''rangekeeper_stage_out_of_order'') (\<lambda>_.
       bind_ok (ensure (case rr_costValue ev of None \<Rightarrow> True | Some c \<Rightarrow> c \<ge> 0) ''Invalid receipt cost'') (\<lambda>_.
       let nxt = ledger\<lparr>completedHashes := completedHashes ledger @ [rr_hash ev],
             gasSpentWei := gasSpentWei ledger + rr_gasWei ev,
             costSpentValue := add_cost (costSpentValue ledger) (rr_costValue ev)\<rparr> in
       bind_ok (if rr_status ev = Receipt_reverted
           then Inr (nxt\<lparr>haltedReason := Some (''reverted:'' @ stage_text (rr_stage ev) @ '':'' @ rr_hash ev)\<rparr>)
           else book_success ev nxt) (\<lambda>n. Inr (True, n))))))"

definition apply_receipts :: "RangeKeeperStageLedger \<Rightarrow> RangeKeeperStageReceipt list \<Rightarrow> RangeKeeperStageLedger res" where
  "apply_receipts = fold_res (\<lambda>l ev. bind_ok (applyRangeKeeperStageReceipt l ev) (\<lambda>(_, l'). Inr l'))"

subsection \<open>Time in range\<close>

definition accrueRangeKeeperTimeInRange :: "RangeKeeperLiveState \<Rightarrow> int \<Rightarrow> int \<Rightarrow> RangeKeeperLiveState" where
  "accrueRangeKeeperTimeInRange st nextTimestamp maxGapSeconds =
     (let prev = lv_last st; gap = nextTimestamp - sn_timestamp prev in
      if gap \<le> 0 \<or> gap > maxGapSeconds then st
      else case (lv_activeTokenId st, sn_position prev) of
          (Some tokenId, Some p) \<Rightarrow>
            if wp_tokenId p \<noteq> tokenId \<or> wp_liquidity p \<le> 0 then st
            else if sn_tick prev \<ge> wp_tickLower p \<and> sn_tick prev < wp_tickUpper p
            then st\<lparr>activeSeconds := activeSeconds st + gap\<rparr>
            else st\<lparr>outsideSeconds := outsideSeconds st + gap\<rparr>
        | _ \<Rightarrow> st)"

subsection \<open>Every planned stage is authorized\<close>

text \<open>
  What the planner's inputs come with: configured limits as the schema admits them, a snapshot
  that \<open>chain.ts\<close> has checked against the pool, and a candidate that \<open>planner.ts\<close> built.
\<close>

definition stage_ready :: "RangeKeeperLiveState \<Rightarrow> RangeKeeperSnapshot \<Rightarrow> RangeKeeperConfig \<Rightarrow> bool" where
  "stage_ready st s cf \<longleftrightarrow>
     0 < maxSlippageBps (kc_limits cf) \<and> maxSlippageBps (kc_limits cf) \<le> 50 \<and> 0 \<le> maxDeploymentValue (kc_limits cf) \<and>
     0 \<le> sn_block s \<and>
     (\<forall>p. sn_position s = Some p \<longrightarrow> same (wp_owner p) (sn_operator s) \<and> same (wp_token0 p) (kq_token0 (kc_pool cf)) \<and>
        same (wp_token1 p) (kq_token1 (kc_pool cf)) \<and> wp_fee p = kq_fee (kc_pool cf) \<and> 0 \<le> wp_liquidity p) \<and>
     (\<forall>c. lv_candidate st = Some c \<longrightarrow>
        (\<exists>tick. rangeKeeperRange tick (kq_tickSpacing (kc_pool cf)) (fullWidthSpacings (kc_limits cf)) = Inr (ck_range c)) \<and>
        (\<forall>sw. ck_swap c = Some sw \<longrightarrow> 0 < sw_amountIn sw))"

lemma or_else_Some: "or_else r next = Inr (Some pl) \<longleftrightarrow> r = Inr (Some pl) \<or> r = Inr None \<and> next = Inr (Some pl)"
  by (auto simp: or_else_def bind_ok_Inr_iff split: option.splits)

lemma stage_grant_Some:
  assumes "stage_grant p s funds None i k needed future = Inr (Some pl)"
  shows "\<exists>am. pl = Plan_approve i k am \<and> (am = 0 \<or> am = (case future of None \<Rightarrow> side_funds funds i | Some c \<Rightarrow> c)) \<and>
    0 \<le> (case future of None \<Rightarrow> side_funds funds i | Some c \<Rightarrow> c)"
  using assms by (auto simp: stage_grant_def Let_def bind_ok_Inr_iff split: option.splits if_splits)

lemma zero_first_Some: "zero_first p s policy pairs = Inr (Some pl) \<Longrightarrow> \<exists>i k. pl = Plan_approve i k 0"
  by (induction pairs rule: zero_first.induct) (auto simp: bind_ok_Inr_iff split: if_splits)

lemma strategyBalances_nonneg:
  assumes "strategyBalances w r0 r1 rn = Inr funds"
  shows "0 \<le> side_funds funds i"
  using assms by (auto simp: strategyBalances_def bind_ok_Inr_iff side_funds_def)

definition zero_out_swap :: "RangeKeeperTxPlan \<Rightarrow> bool" where
  "zero_out_swap plan \<longleftrightarrow> (\<exists>token am deadline. plan = Plan_swap token am 0 deadline)"

text \<open>The authorization of each kind of plan, on the wallet of a snapshot.\<close>

lemma approve_authorized:
  assumes "stage_ready st s cf" "0 \<le> am" "am \<le> side_funds funds i + cap" "0 \<le> cap" "cap = 0 \<or> k = Position_manager"
  shows "authorizeRangeKeeperTx (kc_pool cf) (authorization_wallet s funds) (Plan_approve i k am)
    (maxSlippageBps (kc_limits cf)) w cap None = Inr ()"
  using assms by (cases i) (auto simp: authorizeRangeKeeperTx_def authorize_approve_def stage_ready_def
      authorization_wallet_def wallet_available_def side_funds_def bind_ok_Inr_iff)

lemma swap_authorized:
  assumes "stage_ready st s cf" "liquid_position s = None" "0 < am" "am \<le> side_funds funds i" "0 \<le> out"
  shows "authorizeRangeKeeperTx (kc_pool cf) (authorization_wallet s funds) (Plan_swap i am out (sn_timestamp s + 300))
    (maxSlippageBps (kc_limits cf)) w 0 None = Inr () \<longleftrightarrow> out \<noteq> 0"
proof -
  have "no_liquidity (authorization_wallet s funds)" using assms(1,2)
    by (auto simp: no_liquidity_def authorization_wallet_def liquid_position_def stage_ready_def split: option.splits if_splits)
  then show ?thesis using assms
    by (auto simp: authorizeRangeKeeperTx_def stage_ready_def authorization_wallet_def wallet_available_def
        side_funds_def bind_ok_Inr_iff)
qed

lemma withdraw_authorized:
  assumes "stage_ready st s cf" "liquid_position s = Some pos" "withdraw_stage s (kc_limits cf) pos = Inr (Some plan)"
  shows "authorizeRangeKeeperTx (kc_pool cf) (authorization_wallet s funds) plan (maxSlippageBps (kc_limits cf)) w 0 None = Inr ()"
    "\<exists>t l m0 m1 d. plan = Plan_withdraw t l m0 m1 d"
proof -
  from assms(2) have pos: "sn_position s = Some pos" "0 < wp_liquidity pos"
    by (auto simp: liquid_position_def split: option.splits if_splits)
  from assms(3) obtain m0 m1 where m: "rangeKeeperWithdrawalMinimums (wp_liquidity pos) (wp_tickLower pos) (wp_tickUpper pos)
      (sn_sqrtPriceX96 s) (maxSlippageBps (kc_limits cf)) = Inr (m0, m1)"
    and plan: "plan = Plan_withdraw (wp_tokenId pos) (wp_liquidity pos) m0 m1 (sn_timestamp s + 300)"
    by (auto simp: withdraw_stage_def bind_ok_Inr_iff)
  show "authorizeRangeKeeperTx (kc_pool cf) (authorization_wallet s funds) plan (maxSlippageBps (kc_limits cf)) w 0 None = Inr ()"
    using assms(1) pos m unfolding plan
    by (simp add: authorizeRangeKeeperTx_def authorize_withdraw_def authorization_wallet_def stage_ready_def)
  show "\<exists>t l m0 m1 d. plan = Plan_withdraw t l m0 m1 d" using plan by blast
qed

lemma range_aligned:
  assumes "rangeKeeperRange tick spacing full = Inr rg"
  shows "range_tickUpper rg - range_tickLower rg = full * spacing" "range_tickLower rg smod spacing = 0"
    "range_tickUpper rg smod spacing = 0"
proof -
  from assms obtain a h where h: "full smod 2 = 0" "0 < full" "0 < spacing" "h = full div 2"
    and rg: "range_tickLower rg = a * spacing - h * spacing" "range_tickUpper rg = a * spacing + h * spacing"
    by (auto simp: rangeKeeperRange_def Let_def bind_ok_Inr_iff)
  have "full = 2 * h" using h by (auto simp: smod_nonneg)
  then show "range_tickUpper rg - range_tickLower rg = full * spacing" by (simp add: rg algebra_simps)
  have "range_tickLower rg = (a - h) * spacing" "range_tickUpper rg = (a + h) * spacing" by (simp_all add: rg algebra_simps)
  then show "range_tickLower rg smod spacing = 0" "range_tickUpper rg smod spacing = 0"
    by (simp_all add: signed_modulo_int_def)
qed

lemma mint_needs_both:
  assumes "replayPaperMint p rg a0 a1 0 = Inr m" "mint_liquidity m \<noteq> 0" "price_outside rg p = Inr False"
  shows "0 < a0" "0 < a1" "0 < mint_liquidity m"
proof -
  let ?a = "sqrt_ratio (range_tickLower rg)" and ?b = "sqrt_ratio (range_tickUpper rg)"
  from assms(3) have in_range: "?a < p" "p < ?b"
    by (auto simp: price_outside_def bind_ok_Inr_iff sqrtRatioAtTick_Inr_iff split: if_splits)
  from assms(1) have n: "0 \<le> a0" "0 \<le> a1" "mint_liquidity m = mint_liquidity_for p ?a ?b a0 a1"
    by (auto simp: replayPaperMint_Inr_iff mint_valid_def Let_def)
  have L: "mint_liquidity m = min (mint_l0 a0 p ?b) (mint_l1 a1 ?a p)"
    using n(3) in_range by (simp add: mint_liquidity_for_def Let_def)
  show pos: "0 < mint_liquidity m" using mint_liquidity_nonneg [OF assms(1)] assms(2) by simp
  show "0 < a0" using pos n(1) unfolding L by (cases "a0 = 0") (auto simp: mint_l0_def)
  show "0 < a1" using pos n(2) unfolding L by (cases "a1 = 0") (auto simp: mint_l1_def)
qed

lemma mint_authorized:
  assumes ready: "stage_ready st s cf" and c: "lv_candidate st = Some c" and "liquid_position s = None"
    and tick: "range_tickLower (ck_range c) \<le> sn_tick s" "sn_tick s < range_tickUpper (ck_range c)"
    and out: "price_outside (ck_range c) (sn_sqrtPriceX96 s) = Inr False"
    and r: "replayPaperMint (sn_sqrtPriceX96 s) (ck_range c) (desired0 r) (desired1 r) 0 = Inr (sized_mint r)"
      "mint_liquidity (sized_mint r) \<noteq> 0" "desired0 r \<le> fd_amount0 funds" "desired1 r \<le> fd_amount1 funds"
  shows "authorizeRangeKeeperTx (kc_pool cf) (authorization_wallet s funds)
    (Plan_mint (refreshed c s (kc_limits cf) r) (sn_timestamp s + 300)) (maxSlippageBps (kc_limits cf))
    (fullWidthSpacings (kc_limits cf)) 0 None = Inr ()"
proof -
  have "no_liquidity (authorization_wallet s funds)" using ready assms(3)
    by (auto simp: no_liquidity_def authorization_wallet_def liquid_position_def stage_ready_def split: option.splits if_splits)
  moreover obtain tick where "rangeKeeperRange tick (kq_tickSpacing (kc_pool cf)) (fullWidthSpacings (kc_limits cf)) = Inr (ck_range c)"
    using ready c by (auto simp: stage_ready_def)
  note range_aligned [OF this]
  ultimately show ?thesis
    using ready tick r mint_needs_both [OF r(1,2) out]
    by (simp add: authorizeRangeKeeperTx_def authorize_mint_def refreshed_def authorization_wallet_def stage_ready_def
        bind_ok_Inr_iff)
qed

text \<open>An approval within the funds, or one of the acquired leg up to its cap, is submitted.\<close>

lemma approve_submitted:
  assumes "stage_ready st s cf" "strategyBalances (sn_funds s) (lv_reserve0 st) (lv_reserve1 st) (lv_reserveNativeWei st) = Inr funds"
    "0 \<le> am" "am \<le> side_funds funds i"
  shows "submit_authorized st s cf p0 p1 (Plan_approve i k am) = Inr ()"
  using approve_authorized [OF assms(1,3), of funds i 0 k] assms(2,4)
  by (simp add: submit_authorized_def future_approval_cap_def)

lemma anticipation_submitted:
  assumes ready: "stage_ready st s cf"
    and funds: "strategyBalances (sn_funds s) (lv_reserve0 st) (lv_reserve1 st) (lv_reserveNativeWei st) = Inr funds"
    and st: "lv_phase st = Phase_entry \<or> lv_phase st = Phase_recenter" "\<not> lv_swapDone st" "lv_candidate st = Some c"
      "ck_swap c = Some sw" "i \<noteq> sw_token sw"
    and cap: "acquired_cap cf i p0 p1 = Inr cap"
    and am: "am = 0 \<or> am = (if side_funds funds i > cap then side_funds funds i else cap)"
  shows "submit_authorized st s cf p0 p1 (Plan_approve i Position_manager am) = Inr ()"
proof (cases "am \<le> side_funds funds i")
  case True
  have "0 \<le> am" using am strategyBalances_nonneg [OF funds, of i] by auto
  with True show ?thesis by (rule approve_submitted [OF ready funds, rotated])
next
  case False
  then have a: "am = cap" using am strategyBalances_nonneg [OF funds, of i] by (auto split: if_splits)
  with False strategyBalances_nonneg [OF funds, of i] have "0 \<le> cap" by simp
  then show ?thesis
    using approve_authorized [OF ready \<open>0 \<le> cap\<close>, of funds i cap Position_manager] False a st cap funds
      strategyBalances_nonneg [OF funds, of i]
    by (simp add: submit_authorized_def future_approval_cap_def)
qed

lemma grant_submitted:
  assumes "stage_ready st s cf" "strategyBalances (sn_funds s) (lv_reserve0 st) (lv_reserve1 st) (lv_reserveNativeWei st) = Inr funds"
    "stage_grant (kc_pool cf) s funds None i k needed None = Inr (Some plan)"
  shows "submit_authorized st s cf p0 p1 plan = Inr ()" "\<not> zero_out_swap plan"
proof -
  obtain am where pl: "plan = Plan_approve i k am" "am = 0 \<or> am = side_funds funds i"
    using stage_grant_Some [OF assms(3)] by auto
  then show "submit_authorized st s cf p0 p1 plan = Inr ()"
    using approve_submitted [OF assms(1,2)] strategyBalances_nonneg [OF assms(2), of i] by auto
  show "\<not> zero_out_swap plan" by (simp add: pl zero_out_swap_def)
qed

lemma swap_submitted:
  assumes "stage_ready st s cf" "strategyBalances (sn_funds s) (lv_reserve0 st) (lv_reserve1 st) (lv_reserveNativeWei st) = Inr funds"
    "liquid_position s = None" "0 < am" "am \<le> side_funds funds i" "0 < out"
  shows "submit_authorized st s cf p0 p1 (Plan_swap i am (haircut out (maxSlippageBps (kc_limits cf))) (sn_timestamp s + 300)) = Inr ()
    \<longleftrightarrow> \<not> zero_out_swap (Plan_swap i am (haircut out (maxSlippageBps (kc_limits cf))) (sn_timestamp s + 300))"
proof -
  have "0 \<le> haircut out (maxSlippageBps (kc_limits cf))"
    using assms(1,6) by (simp add: haircut_def stage_ready_def sdiv_nonneg pos_imp_zdiv_nonneg_iff)
  from swap_authorized [OF assms(1,3,4,5) this] assms(2) show ?thesis
    by (simp add: submit_authorized_def future_approval_cap_def zero_out_swap_def)
qed

lemma withdraw_submitted:
  assumes "stage_ready st s cf" "strategyBalances (sn_funds s) (lv_reserve0 st) (lv_reserve1 st) (lv_reserveNativeWei st) = Inr funds"
    "liquid_position s = Some pos" "withdraw_stage s (kc_limits cf) pos = Inr (Some plan)"
  shows "submit_authorized st s cf p0 p1 plan = Inr ()" "\<not> zero_out_swap plan"
  using withdraw_authorized [OF assms(1,3,4)] assms(2)
  by (auto simp: submit_authorized_def future_approval_cap_def zero_out_swap_def)

text \<open>
  The ways a plan comes about, under either allowance policy: the withdrawal of a position, a
  revocation, a grant, the anticipating grant of the leg that a frozen swap will acquire, a swap,
  or a mint.
\<close>

definition risky_side :: "RangeKeeperConfig \<Rightarrow> token_side" where
  "risky_side cf = (if kq_quoteToken (kc_pool cf) = Token0 then Token1 else Token0)"

definition converting :: "RangeKeeperLiveState \<Rightarrow> RangeKeeperConfig \<Rightarrow> token_side \<Rightarrow> bool" where
  "converting st cf i \<longleftrightarrow> lv_phase st = Phase_exit \<longrightarrow> i = risky_side cf \<and> lv_exitMode st \<noteq> Some Exit_retain"

inductive stage_planned ::
  "RangeKeeperLiveState \<Rightarrow> RangeKeeperSnapshot \<Rightarrow> RangeKeeperConfig \<Rightarrow> int \<Rightarrow> int \<Rightarrow> RangeKeeperAllowancePolicy option \<Rightarrow>
   keeper_funds \<Rightarrow> RangeKeeperTxPlan \<Rightarrow> bool"
  for st s cf p0 p1 policy funds
where
  by_withdrawal: "liquid_position s = Some pos \<Longrightarrow> withdraw_stage s (kc_limits cf) pos = Inr (Some plan) \<Longrightarrow>
    stage_planned st s cf p0 p1 policy funds plan"
| by_revocation: "stage_planned st s cf p0 p1 policy funds (Plan_approve i k 0)"
| by_grant: "stage_grant (kc_pool cf) s funds policy i k needed None = Inr (Some plan) \<Longrightarrow>
    lv_phase st = Phase_exit \<longrightarrow> k = Router \<Longrightarrow> converting st cf i \<Longrightarrow> stage_planned st s cf p0 p1 policy funds plan"
| by_anticipation: "lv_phase st = Phase_entry \<or> lv_phase st = Phase_recenter \<Longrightarrow> \<not> lv_swapDone st \<Longrightarrow>
    lv_candidate st = Some c \<Longrightarrow> ck_swap c = Some sw \<Longrightarrow> i \<noteq> sw_token sw \<Longrightarrow> acquired_cap cf i p0 p1 = Inr cap \<Longrightarrow>
    stage_grant (kc_pool cf) s funds policy i Position_manager needed
      (Some (if side_funds funds i > cap then side_funds funds i else cap)) = Inr (Some plan) \<Longrightarrow>
    stage_planned st s cf p0 p1 policy funds plan"
| by_swap: "liquid_position s = None \<Longrightarrow> 0 < am \<Longrightarrow> am \<le> side_funds funds i \<Longrightarrow> 0 < out \<Longrightarrow> converting st cf i \<Longrightarrow>
    stage_planned st s cf p0 p1 policy funds
      (Plan_swap i am (haircut out (maxSlippageBps (kc_limits cf))) (sn_timestamp s + 300))"
| by_mint: "lv_phase st \<noteq> Phase_exit \<Longrightarrow>
    authorizeRangeKeeperTx (kc_pool cf) (authorization_wallet s funds) (Plan_mint c d) (maxSlippageBps (kc_limits cf))
      (fullWidthSpacings (kc_limits cf)) 0 None = Inr () \<Longrightarrow> stage_planned st s cf p0 p1 policy funds (Plan_mint c d)"

lemma zero_planned: "zeroUnusedAllowance p s pol = Inr (Some plan) \<Longrightarrow> stage_planned st s cf p0 p1 policy funds plan"
  unfolding zeroUnusedAllowance_def by (drule zero_first_Some) (auto intro: by_revocation)

lemma exit_convert_planned:
  assumes "liquid_position s = None" "exit_convert quote st s cf p0 p1 policy funds = Inr (Some plan)"
  shows "stage_planned st s cf p0 p1 policy funds plan"
proof (cases "lv_exitMode st \<noteq> Some Exit_retain \<and> 0 < side_funds funds (risky_side cf)")
  case True
  then have conv: "converting st cf (risky_side cf)" by (simp add: converting_def)
  from True assms(2) have "stage_grant (kc_pool cf) s funds policy (risky_side cf) Router (side_funds funds (risky_side cf)) None =
      Inr (Some plan) \<or> (\<exists>q :: SwapQuote. 0 < amountOut q \<and> plan = Plan_swap (risky_side cf) (side_funds funds (risky_side cf))
        (haircut (amountOut q) (maxSlippageBps (kc_limits cf))) (sn_timestamp s + 300))"
    by (auto simp: exit_convert_def risky_side_def Let_def bind_ok_Inr_iff or_else_Some)
  then consider "stage_grant (kc_pool cf) s funds policy (risky_side cf) Router (side_funds funds (risky_side cf)) None = Inr (Some plan)"
    | q :: SwapQuote where "0 < amountOut q" "plan = Plan_swap (risky_side cf) (side_funds funds (risky_side cf))
        (haircut (amountOut q) (maxSlippageBps (kc_limits cf))) (sn_timestamp s + 300)"
    by blast
  then show ?thesis
  proof cases
    case 1
    then show ?thesis by (rule by_grant) (use conv in simp_all)
  next
    case (2 q)
    show ?thesis unfolding 2(2) by (rule by_swap) (use True 2(1) conv assms(1) in simp_all)
  qed
next
  case False
  with assms(2) have "zeroUnusedAllowance (kc_pool cf) s policy = Inr (Some plan)"
    by (auto simp: exit_convert_def risky_side_def Let_def split: if_split_asm)
  then show ?thesis by (rule zero_planned)
qed

lemma swap_stage_planned:
  assumes ready: "stage_ready st s cf"
    and st: "lv_phase st = Phase_entry \<or> lv_phase st = Phase_recenter" "\<not> lv_swapDone st" "lv_candidate st = Some c"
      "ck_swap c = Some sw" "liquid_position s = None"
    and pl: "swap_stage quote s cf p0 p1 policy funds c sw = Inr (Some plan)"
  shows "stage_planned st s cf p0 p1 policy funds plan"
proof -
  let ?other = "if sw_token sw = Token0 then Token1 else Token0"
  have other: "?other \<noteq> sw_token sw" by (cases "sw_token sw") simp_all
  have am: "0 < sw_amountIn sw" using ready st by (auto simp: stage_ready_def)
  have open_phase: "converting st cf i" "lv_phase st \<noteq> Phase_exit" for i using st(1) by (auto simp: converting_def)
  from pl obtain q :: SwapQuote and cap where q: "\<not> (amountOut q \<le> 0 \<or> shortfallValue q > maxSwapShortfallValue (kc_limits cf))"
      "sw_amountIn sw \<le> side_funds funds (sw_token sw)"
    and cap: "acquired_cap cf ?other p0 p1 = Inr cap"
    and next_plan: "or_else (stage_grant (kc_pool cf) s funds policy (sw_token sw) Position_manager (side_funds funds (sw_token sw)) None)
      (or_else (stage_grant (kc_pool cf) s funds policy ?other Position_manager
          (if ?other = Token0 then amount0Desired c else amount1Desired c)
          (Some (if side_funds funds ?other > cap then side_funds funds ?other else cap)))
      (or_else (stage_grant (kc_pool cf) s funds policy (sw_token sw) Router (sw_amountIn sw) None)
        (Inr (Some (Plan_swap (sw_token sw) (sw_amountIn sw) (haircut (amountOut q) (maxSlippageBps (kc_limits cf)))
          (sn_timestamp s + 300)))))) = Inr (Some plan)"
    unfolding swap_stage_def Let_def bind_ok_Inr_iff ensure_Inr_iff
    by (elim exE conjE) (rule that, assumption+)
  have out: "0 < amountOut q" using q(1) by simp
  consider k needed where "stage_grant (kc_pool cf) s funds policy (sw_token sw) k needed None = Inr (Some plan)"
    | needed where "stage_grant (kc_pool cf) s funds policy ?other Position_manager needed
        (Some (if side_funds funds ?other > cap then side_funds funds ?other else cap)) = Inr (Some plan)"
    | "plan = Plan_swap (sw_token sw) (sw_amountIn sw) (haircut (amountOut q) (maxSlippageBps (kc_limits cf))) (sn_timestamp s + 300)"
    using next_plan unfolding or_else_Some by blast
  then show ?thesis
  proof cases
    case 1
    then show ?thesis by (rule by_grant) (use open_phase in simp_all)
  next
    case 2
    then show ?thesis by (rule by_anticipation [OF st(1-4) other cap])
  next
    case 3
    show ?thesis unfolding 3 by (rule by_swap [OF st(5) am q(2) out open_phase(1)])
  qed
qed

lemma mint_stage_planned:
  assumes ready: "stage_ready st s cf"
    and st: "lv_candidate st = Some c" "liquid_position s = None" "lv_phase st \<noteq> Phase_exit"
    and pl: "mint_stage s cf p0 p1 policy funds c = Inr (Some plan)"
  shows "stage_planned st s cf p0 p1 policy funds plan"
proof -
  have cap: "0 \<le> maxDeploymentValue (kc_limits cf)" using ready by (simp add: stage_ready_def)
  let ?av0 = "if ck_swap c \<noteq> None then fd_amount0 funds else amount0Desired c"
  let ?av1 = "if ck_swap c \<noteq> None then fd_amount1 funds else amount1Desired c"
  from pl obtain r b where b: "(if sn_tick s < range_tickLower (ck_range c) \<or> sn_tick s \<ge> range_tickUpper (ck_range c) then Inr True
        else price_outside (ck_range c) (sn_sqrtPriceX96 s)) = Inr b" "\<not> b"
    and av: "?av0 \<le> fd_amount0 funds \<and> ?av1 \<le> fd_amount1 funds"
    and r: "sizeRangeKeeperMint (sn_sqrtPriceX96 s) (ck_range c) ?av0 ?av1 p0 p1 (kq_decimals0 (kc_pool cf))
      (kq_decimals1 (kc_pool cf)) (maxDeploymentValue (kc_limits cf)) = Inr r"
    and L: "\<not> (mint_liquidity (sized_mint r) = 0 \<or> deployed r < deployment_floor (kc_limits cf) \<or>
      deployed r > maxDeploymentValue (kc_limits cf))"
    and next_plan: "or_else (stage_grant (kc_pool cf) s funds policy Token0 Position_manager (desired0 r) None)
      (or_else (stage_grant (kc_pool cf) s funds policy Token1 Position_manager (desired1 r) None)
        (Inr (Some (Plan_mint (refreshed c s (kc_limits cf) r) (sn_timestamp s + 300))))) = Inr (Some plan)"
    unfolding mint_stage_def Let_def bind_ok_Inr_iff ensure_Inr_iff by blast
  from b have tick: "range_tickLower (ck_range c) \<le> sn_tick s" "sn_tick s < range_tickUpper (ck_range c)"
    and out: "price_outside (ck_range c) (sn_sqrtPriceX96 s) = Inr False"
    by (auto simp: not_less split: if_split_asm)
  note z = sizeRangeKeeperMint_Inr [OF r cap]
  have "desired0 r \<le> fd_amount0 funds" "desired1 r \<le> fd_amount1 funds" using z av by linarith+
  note mint = mint_authorized [OF ready st(1,2) tick out z(1) _ this]
  consider i needed where "stage_grant (kc_pool cf) s funds policy i Position_manager needed None = Inr (Some plan)"
    | "plan = Plan_mint (refreshed c s (kc_limits cf) r) (sn_timestamp s + 300)"
    using next_plan unfolding or_else_Some by blast
  then show ?thesis
  proof cases
    case 1
    then show ?thesis by (rule by_grant) (use st(3) in \<open>simp_all add: converting_def\<close>)
  next
    case 2
    show ?thesis unfolding 2 using st(3) by (rule by_mint) (use mint L in simp)
  qed
qed

lemma next_stage_planned:
  assumes "nextRangeKeeperStage quote st s cf p0 p1 policy = Inr (Some plan)" "stage_ready st s cf"
  shows "\<exists>funds. strategyBalances (sn_funds s) (lv_reserve0 st) (lv_reserve1 st) (lv_reserveNativeWei st) = Inr funds \<and>
    stage_planned st s cf p0 p1 policy funds plan"
proof -
  obtain funds where funds: "strategyBalances (sn_funds s) (lv_reserve0 st) (lv_reserve1 st) (lv_reserveNativeWei st) = Inr funds"
    and plan: "(if lv_phase st = Phase_exit then exit_stage quote st s cf p0 p1 policy funds
       else if lv_phase st = Phase_holding
       then (if policy = None then zeroUnusedAllowance (kc_pool cf) s policy else Inr None)
       else if lv_phase st \<noteq> Phase_entry \<and> lv_phase st \<noteq> Phase_recenter then Inr None
       else (case lv_candidate st of None \<Rightarrow> Inr None
             | Some c \<Rightarrow> action_stage quote st s cf p0 p1 policy funds c)) = Inr (Some plan)"
    using assms(1) unfolding nextRangeKeeperStage_def bind_ok_Inr_iff by blast
  have "stage_planned st s cf p0 p1 policy funds plan"
  proof (cases "liquid_position s")
    case (Some pos)
    then have "withdraw_stage s (kc_limits cf) pos = Inr (Some plan) \<or> zeroUnusedAllowance (kc_pool cf) s policy = Inr (Some plan)"
      using plan by (auto simp: exit_stage_def action_stage_def bind_ok_Inr_iff split: if_splits option.splits)
    then show ?thesis using by_withdrawal [OF Some] zero_planned by blast
  next
    case None
    consider "exit_convert quote st s cf p0 p1 policy funds = Inr (Some plan)"
      | "zeroUnusedAllowance (kc_pool cf) s policy = Inr (Some plan)"
      | c sw where "lv_phase st = Phase_entry \<or> lv_phase st = Phase_recenter" "lv_candidate st = Some c" "ck_swap c = Some sw"
          "\<not> lv_swapDone st" "swap_stage quote s cf p0 p1 policy funds c sw = Inr (Some plan)"
      | c where "lv_candidate st = Some c" "lv_phase st \<noteq> Phase_exit" "mint_stage s cf p0 p1 policy funds c = Inr (Some plan)"
      using plan None by (auto simp: exit_stage_def action_stage_def split: if_split_asm option.split_asm)
    then show ?thesis
    proof cases
      case 1
      then show ?thesis by (rule exit_convert_planned [OF None])
    next
      case 2
      then show ?thesis by (rule zero_planned)
    next
      case (3 c sw)
      from swap_stage_planned [OF assms(2) 3(1,4,2,3) None 3(5)] show ?thesis .
    next
      case (4 c)
      from mint_stage_planned [OF assms(2) 4(1) None 4(2,3)] show ?thesis .
    qed
  qed
  with funds show ?thesis by blast
qed

lemma planned_submitted:
  assumes "stage_planned st s cf p0 p1 None funds plan" and ready: "stage_ready st s cf"
    and funds: "strategyBalances (sn_funds s) (lv_reserve0 st) (lv_reserve1 st) (lv_reserveNativeWei st) = Inr funds"
  shows "submit_authorized st s cf p0 p1 plan = Inr () \<longleftrightarrow> \<not> zero_out_swap plan"
  using assms(1)
proof cases
  case (by_withdrawal pos)
  then show ?thesis using withdraw_submitted [OF ready funds] by blast
next
  case (by_revocation i k)
  show ?thesis unfolding by_revocation
    using approve_submitted [OF ready funds order_refl strategyBalances_nonneg [OF funds]] by (simp add: zero_out_swap_def)
next
  case (by_grant i k needed)
  then show ?thesis using grant_submitted [OF ready funds] by blast
next
  case (by_anticipation c sw i cap needed)
  from stage_grant_Some [OF by_anticipation(7)] obtain a where a: "plan = Plan_approve i Position_manager a"
    "a = 0 \<or> a = (if side_funds funds i > cap then side_funds funds i else cap)" by auto
  from anticipation_submitted [OF ready funds by_anticipation(1-6) a(2)] show ?thesis by (simp add: a(1) zero_out_swap_def)
next
  case (by_swap am i out)
  show ?thesis unfolding by_swap(1) by (rule swap_submitted [OF ready funds by_swap(2-5)])
next
  case (by_mint c d)
  then show ?thesis using funds by (simp add: submit_authorized_def future_approval_cap_def zero_out_swap_def)
qed

text \<open>
  C3: what the stage planner plans, the signer's check lets through.  Every transaction planned
  for a campaign without a persistent allowance policy passes the semantic authorization against
  the same snapshot: its width, alignment, minimums, amounts, deadline and approvals.  The only
  plan that it refuses is a swap whose quoted output is so small that its minimum rounds to zero.
\<close>

theorem planned_stages_are_authorized:
  assumes "nextRangeKeeperStage quote st s cf p0 p1 None = Inr (Some plan)" "stage_ready st s cf"
  shows "submit_authorized st s cf p0 p1 plan = Inr () \<longleftrightarrow> (\<nexists>token am deadline. plan = Plan_swap token am 0 deadline)"
proof -
  obtain funds where "strategyBalances (sn_funds s) (lv_reserve0 st) (lv_reserve1 st) (lv_reserveNativeWei st) = Inr funds"
    "stage_planned st s cf p0 p1 None funds plan" using next_stage_planned [OF assms] by blast
  from planned_submitted [OF this(2) assms(2) this(1)] show ?thesis by (simp add: zero_out_swap_def)
qed

text \<open>An exit that has to withdraw its position first.\<close>

definition sample_stage_position :: wallet_position where
  "sample_stage_position = \<lparr>wp_tokenId = 7, wp_owner = ''0xa'', wp_token0 = ''0x0'', wp_token1 = ''0x1'', wp_fee = 500,
     wp_tickLower = - 60, wp_tickUpper = 60, wp_liquidity = 1000000\<rparr>"

definition sample_snapshot :: RangeKeeperSnapshot where
  "sample_snapshot = \<lparr>sn_block = 9, sn_hash = ''0xb'', sn_timestamp = 100, sn_operator = ''0xa'',
     sn_funds = \<lparr>fd_amount0 = 5, fd_amount1 = 6, fd_nativeWei = 7\<rparr>, sn_nonce = 3, sn_nftCount = 1, sn_tick = 0,
     sn_sqrtPriceX96 = 2 ^ 96, sn_unlocked = True, sn_poolLiquidity = 5000000, sn_allowances = [],
     sn_position = Some sample_stage_position\<rparr>"

definition sample_live_state :: RangeKeeperLiveState where
  "sample_live_state = \<lparr>lv_id = ''c'', lv_operator = ''0xa'', lv_configHash = ''h'', lv_buildId = ''b'',
     lv_phase = Phase_exit, lv_desired = Stopped, lv_haltReason = None, lv_exitMode = None, lv_createdAt = 0,
     lv_expiresAt = 1000, lv_economicActions = 1, lv_recenters = 0, lv_policy = sample_state, lv_last = sample_snapshot,
     lv_activeTokenId = Some 7, lv_retiredTokenIds = [], lv_legacyNftCount = 0, lv_reserve0 = 1, lv_reserve1 = 1,
     lv_reserveNativeWei = 1, lv_initial0 = 4, lv_initial1 = 5, lv_initialNativeWei = 6, lv_initialStrategyValue = 9,
     lv_candidate = None, lv_swapDone = False, lv_swapConfirmedAt = None, lv_withdrawDone = False,
     lv_actionStartCostIndex = 0, lv_reservedActionCost = 0, lv_mintRecoveryAttempts = 0, lv_collectedFee0 = 0,
     lv_collectedFee1 = 0, lv_gasSpentWei = 0, lv_costEvents = [], lv_highWaterValue = 9, activeSeconds = 0,
     outsideSeconds = 0, lv_lastMarkTimestamp = 100, lv_lastReason = ''mint_confirmed'', lv_closedAt = None\<rparr>"

definition sample_pool_profile :: RangeKeeperPool where
  "sample_pool_profile = \<lparr>kq_chainId = 4663, kq_factory = ''0x5'', kq_pool = ''0x6'', kq_token0 = ''0x0'', kq_token1 = ''0x1'',
     kq_quoteToken = Token1, kq_decimals0 = 6, kq_decimals1 = 6, kq_fee = 500, kq_tickSpacing = 60,
     kq_positionManager = ''0x2'', kq_router = ''0x3'', kq_quoter = ''0x7'', kq_poolCodeHash = ''0x8'',
     kq_token0CodeHash = ''0x9'', kq_token1CodeHash = ''0x9'', kq_managerCodeHash = ''0x9'', kq_quoterCodeHash = ''0x9'',
     kq_reference0 = ''r0'', kq_reference1 = ''r1'', kq_nativeReference = ''rn'', kq_numeraire = ''usd''\<rparr>"

definition sample_stage_config :: RangeKeeperConfig where
  "sample_stage_config = \<lparr>kc_strategyVersion = ''1.0.0'', kc_broadcastEnabled = False, kc_operator = Some ''0xa'',
     kc_pool = sample_pool_profile, kc_limits = sample_limits\<lparr>maxSlippageBps := 50\<rparr>, kc_signer = None, kc_walletCode = Eoa,
     kc_zeroAllowances = [], kc_legacyRetiredTokenIds = [], kc_maxDurationSeconds = 43200, kc_maxEconomicActions = 2,
     kc_referencePolicy = \<lparr>rp_token0 = \<lparr>tr_kind = Stock_token, tr_maxAgeSeconds = 60, tr_session = Verified_24_7\<rparr>,
       rp_token1 = \<lparr>tr_kind = Stablecoin, tr_maxAgeSeconds = 60, tr_session = Verified_24_7\<rparr>,
       rp_nativeMaxAgeSeconds = 60, rp_maxPoolDeviationPpm = 1000\<rparr>,
     kc_campaignValue = 10000000, kc_strategyFundingValue = 5000000, kc_nativeFundingValue = 1000000\<rparr>"

theorem planned_stages_are_authorized_witness:
  "\<exists>plan. nextRangeKeeperStage (\<lambda>_ _. Inl ''unavailable'') sample_live_state sample_snapshot sample_stage_config 1 1 None =
     Inr (Some plan) \<and> submit_authorized sample_live_state sample_snapshot sample_stage_config 1 1 plan = Inr ()"
proof -
  have ready: "stage_ready sample_live_state sample_snapshot sample_stage_config"
    by (simp add: stage_ready_def sample_live_state_def sample_snapshot_def sample_stage_config_def
        sample_stage_position_def sample_limits_def sample_pool_profile_def same_def)
  obtain m0 m1 where m: "rangeKeeperWithdrawalMinimums 1000000 (- 60) 60 (2 ^ 96) 50 = Inr (m0, m1)"
    using sample_minimums by blast
  have plan: "nextRangeKeeperStage (\<lambda>_ _. Inl ''unavailable'') sample_live_state sample_snapshot sample_stage_config 1 1 None =
      Inr (Some (Plan_withdraw 7 1000000 m0 m1 400))"
    using m by (simp add: nextRangeKeeperStage_def strategyBalances_def sample_live_state_def sample_snapshot_def exit_stage_def
        liquid_position_def sample_stage_position_def withdraw_stage_def sample_stage_config_def sample_pool_profile_def)
  from planned_stages_are_authorized [OF plan ready] plan show ?thesis by blast
qed

subsection \<open>Receipts are booked once\<close>

text \<open>The receipts among a list that are new, given the hashes booked before.\<close>

fun new_receipts :: "string list \<Rightarrow> RangeKeeperStageReceipt list \<Rightarrow> RangeKeeperStageReceipt list" where
  "new_receipts booked [] = []"
| "new_receipts booked (ev # evs) =
     (if lower (rr_hash ev) \<in> set (map lower booked) then new_receipts booked evs
      else ev # new_receipts (booked @ [rr_hash ev]) evs)"

lemma book_success_Inr:
  assumes "book_success ev nxt = Inr n"
  shows "completedHashes n = completedHashes nxt" "gasSpentWei n = gasSpentWei nxt" "costSpentValue n = costSpentValue nxt"
  using assms by (auto simp: book_success_def Let_def bind_ok_Inr_iff split: option.splits)

lemma apply_receipt_Inr:
  assumes "applyRangeKeeperStageReceipt l ev = Inr (b, l')"
  shows "if lower (rr_hash ev) \<in> set (map lower (completedHashes l)) then l' = l \<and> \<not> b
    else b \<and> completedHashes l' = completedHashes l @ [rr_hash ev] \<and> gasSpentWei l' = gasSpentWei l + rr_gasWei ev \<and>
      costSpentValue l' = add_cost (costSpentValue l) (rr_costValue ev) \<and> lg_stage l = Some (rr_stage ev) \<and> rr_canonical ev"
  using assms book_success_Inr
  by (fastforce simp: applyRangeKeeperStageReceipt_def Let_def bind_ok_Inr_iff split: if_splits)

lemma apply_receipts_Cons:
  "apply_receipts l (ev # evs) = Inr l'' \<longleftrightarrow>
     (\<exists>b l'. applyRangeKeeperStageReceipt l ev = Inr (b, l') \<and> apply_receipts l' evs = Inr l'')"
  by (auto simp: apply_receipts_def bind_ok_Inr_iff split: sum.splits)

text \<open>
  C36: receipts are booked once.  However often and in whatever case of letters a receipt is
  delivered, a successful run books each hash once, in the order of first delivery, adds its gas
  once, and values the cost as the sum of the booked costs, or as unknown from the first receipt
  whose cost is unknown; only canonical receipts of the expected stage are booked at all.
\<close>

theorem receipts_booked_once:
  assumes "apply_receipts l evs = Inr l'"
  shows "let new = new_receipts (completedHashes l) evs in
    completedHashes l' = completedHashes l @ map rr_hash new \<and>
    distinct (map (\<lambda>ev. lower (rr_hash ev)) new) \<and>
    (\<forall>ev\<in>set new. lower (rr_hash ev) \<notin> set (map lower (completedHashes l)) \<and> rr_canonical ev) \<and>
    (\<forall>ev\<in>set evs. lower (rr_hash ev) \<in> set (map lower (completedHashes l'))) \<and>
    gasSpentWei l' = gasSpentWei l + sum_list (map rr_gasWei new) \<and>
    costSpentValue l' = foldl add_cost (costSpentValue l) (map rr_costValue new)"
  using assms
proof (induction evs arbitrary: l)
  case Nil
  then show ?case by (simp add: apply_receipts_def)
next
  case (Cons ev evs)
  from Cons.prems obtain b l1 where 1: "applyRangeKeeperStageReceipt l ev = Inr (b, l1)" "apply_receipts l1 evs = Inr l'"
    unfolding apply_receipts_Cons by blast
  note IH = Cons.IH [OF 1(2)] and ev = apply_receipt_Inr [OF 1(1)]
  show ?case
  proof (cases "lower (rr_hash ev) \<in> set (map lower (completedHashes l))")
    case True
    with ev have l1: "l1 = l" by simp
    have in': "lower (rr_hash ev) \<in> set (map lower (completedHashes l'))" using IH True by (auto simp: Let_def l1)
    have new: "new_receipts (completedHashes l) (ev # evs) = new_receipts (completedHashes l) evs" using True by simp
    have cover: "(\<forall>e\<in>set (ev # evs). lower (rr_hash e) \<in> set (map lower (completedHashes l'))) \<longleftrightarrow>
        (\<forall>e\<in>set evs. lower (rr_hash e) \<in> set (map lower (completedHashes l')))" using in' by (simp only: list.set ball_simps simp_thms)
    show ?thesis using IH unfolding Let_def l1 new cover .
  next
    case False
    with ev have l1: "completedHashes l1 = completedHashes l @ [rr_hash ev]" "gasSpentWei l1 = gasSpentWei l + rr_gasWei ev"
      "costSpentValue l1 = add_cost (costSpentValue l) (rr_costValue ev)" "rr_canonical ev" by simp_all
    show ?thesis using IH False unfolding l1 Let_def by (auto simp: l1 image_Un image_image)
  qed
qed

text \<open>A receipt delivered twice, as a node may repeat it.\<close>

definition sample_ledger :: RangeKeeperStageLedger where
  "sample_ledger = \<lparr>lg_stage = Some Stage_mint, completedHashes = [], gasSpentWei = 10, costSpentValue = Some 1, lg_wallet0 = 0,
     lg_wallet1 = 0, lg_activeTokenId = None, haltedReason = None\<rparr>"

definition sample_receipt :: "char \<Rightarrow> RangeKeeperStageReceipt" where
  "sample_receipt c = \<lparr>rr_stage = Stage_mint, rr_hash = replicate 66 c, rr_canonical = True, rr_status = Receipt_success,
     rr_gasWei = 7, rr_costValue = Some 3, rr_nextStage = Some Stage_cleanup, rr_walletAfter = Some (4, 5),
     rr_activeTokenIdAfter = Some (Some ''8'')\<rparr>"

theorem receipts_booked_once_witness:
  "\<exists>l'. apply_receipts sample_ledger [sample_receipt (CHR ''a''), sample_receipt (CHR ''a'')] = Inr l' \<and>
     gasSpentWei l' = 17 \<and> costSpentValue l' = Some 4"
proof -
  obtain l' where l': "apply_receipts sample_ledger [sample_receipt (CHR ''a''), sample_receipt (CHR ''a'')] = Inr l'"
    by (simp add: apply_receipts_def applyRangeKeeperStageReceipt_def sample_ledger_def sample_receipt_def Let_def
        book_success_def add_cost_def)
  from receipts_booked_once [OF l'] l' show ?thesis
    by (simp add: sample_ledger_def sample_receipt_def Let_def add_cost_def)
qed

subsection \<open>Time in range\<close>

text \<open>An accrual adds the whole gap to one of the two clocks, or nothing, and changes nothing else.\<close>

lemma accrual_disjoint:
  fixes st :: RangeKeeperLiveState and now maxGap :: int
  defines "st' \<equiv> accrueRangeKeeperTimeInRange st now maxGap" and "gap \<equiv> now - sn_timestamp (lv_last st)"
  shows "st' = st\<lparr>activeSeconds := activeSeconds st', outsideSeconds := outsideSeconds st'\<rparr>"
    and "(activeSeconds st', outsideSeconds st') \<in> {(activeSeconds st, outsideSeconds st),
      (activeSeconds st + gap, outsideSeconds st), (activeSeconds st, outsideSeconds st + gap)}"
    and "st' \<noteq> st \<Longrightarrow> 0 < gap \<and> gap \<le> maxGap \<and> lv_activeTokenId st \<noteq> None \<and> liquid_position (lv_last st) \<noteq> None"
  by (auto simp: st'_def gap_def accrueRangeKeeperTimeInRange_def Let_def liquid_position_def split: option.splits if_splits)

end
