(* ===== verification/Keeper_Campaign.thy ===== *)
theory Keeper_Campaign
  imports Keeper_Stage
begin

section \<open>RangeKeeper: the campaign of a shared wallet\<close>

text \<open>
  \<open>src/deployments/rangekeeper-live-campaign.ts\<close>, \<open>rangekeeper-live-management-recovery.ts\<close>, the
  state changes of \<open>rangekeeper-live-campaign-effects.ts\<close>, \<open>rangekeeper-live-queue-adapters.ts\<close> and
  \<open>rangekeeper-live-management-planner.ts\<close>: how the live state of one campaign evolves, from the
  entry it is created with, over observations, reviews of a manager, receipts and recoveries, to
  its close.  Each function returns the next state or throws; a \<open>structuredClone\<close> is the value.
  Members of type \<open>unknown\<close> that no operation reads (profile, baseline, reports) are left out, and
  a decimal text that was checked before is the number it stands for.  Hashes are parameters.
\<close>

subsection \<open>Data\<close>

datatype campaign_status = Campaign_opening | Campaign_active | Campaign_blocked | Campaign_closing | Campaign_closed
datatype operation_kind = Op_change_range | Op_close_retain | Op_close_convert

record RangeKeeperLiveCampaignAllocation =
  ca_allocationId :: string
  ca_campaignId :: string
  ca_revision :: int
  ca_wallet :: string
  ca_liquidByTokenAddress :: "(string \<times> int) list"
  ca_nativeSpendWei :: int
  ca_pendingNativeSpendWei :: int
  ca_exitReserveWei :: int
  ca_nftTokenIds :: "string list"
  ca_allocationHash :: string
  ca_sourceGeneration :: int
  ca_sourceHash :: string

text \<open>The frozen review of the opening: what the campaign reads of it.\<close>

record setup_review =
  sr_candidate :: "RangeKeeperCandidate option"
  sr_buildId :: string
  sr_allocationValue :: int
  sr_price0 :: "string option"
  sr_price1 :: "string option"
  sr_nativePrice :: "string option"

record RangeKeeperLiveCampaign =
  cm_id :: string
  cm_wallet :: string
  cm_revision :: int
  cm_profileId :: string
  cm_profileHash :: string
  cm_config :: RangeKeeperConfig
  cm_configHash :: string
  cm_strategyId :: string
  cm_strategyVersion :: string
  cm_stateSchemaVersion :: int
  cm_allocation :: RangeKeeperLiveCampaignAllocation
  cm_reviewPayload :: setup_review
  cm_state :: "RangeKeeperLiveState option"
  cm_stateHash :: "string option"
  cm_stateRevision :: int
  cm_status :: campaign_status

text \<open>The evidence of a managed action: its cost on an owned fork, and the frozen sale of a convert close.\<close>

record conversion_evidence =
  cv_mode :: string
  cv_swapRequired :: bool
  cv_token :: "token_side option"
  cv_withdrawn0 :: string
  cv_withdrawn1 :: string
  cv_shortfallValue :: "string option"
  cv_feeValue :: "string option"
  cv_amountIn :: "string option"
  cv_minOut :: "string option"
  cv_expectedOut :: "string option"
  cv_maxSlippageBps :: "int option"

record live_costs =
  lc_status :: string
  lc_provenance :: string
  lc_source :: keeper_source
  lc_gasWei :: "string option"
  lc_stageGasWei :: "string option"
  lc_actionGasWei :: "string option"
  lc_actionCostValue :: "string option"
  lc_costValue :: "string option"
  lc_gasValueUsdX18 :: "string option"
  lc_conversion :: "conversion_evidence option"

record RangeKeeperLiveManagementReviewPayload =
  mp_schemaVersion :: int
  mp_kind :: string
  mp_mode :: string
  mp_strategyId :: string
  mp_operationKind :: operation_kind
  mp_campaignId :: string
  mp_revision :: int
  mp_allocationId :: string
  mp_profileId :: string
  mp_profileHash :: string
  mp_configHash :: string
  mp_buildId :: string
  mp_campaignBuildId :: "string option"
  mp_runtimeStateHash :: string
  mp_stateRevision :: int
  mp_wallet_address :: string
  mp_wallet_generation :: int
  mp_wallet_commitmentsHash :: string
  mp_wallet_nonce :: string
  mp_source :: keeper_source
  mp_reference_proofHash :: string
  mp_reference_prices :: "string list"
  mp_snapshot :: RangeKeeperSnapshot
  mp_decision_reason :: string
  mp_decision_observationHash :: string
  mp_candidate :: "RangeKeeperCandidate option"
  mp_policy :: "RangeKeeperState option"
  mp_costs :: "live_costs option"

definition sn_source :: "RangeKeeperSnapshot \<Rightarrow> keeper_source" where
  "sn_source s = \<lparr>ks_block = sn_block s, ks_hash = sn_hash s, ks_timestamp = sn_timestamp s\<rparr>"

definition sameLiveSource :: "keeper_source \<Rightarrow> keeper_source \<Rightarrow> bool" where
  "sameLiveSource a b \<longleftrightarrow> ks_block a = ks_block b \<and> same (ks_hash a) (ks_hash b) \<and> ks_timestamp a = ks_timestamp b"

subsection \<open>Which campaigns this build manages\<close>

definition RANGEKEEPER_LIVE_BUILD_INCOMPATIBLE :: string where
  "RANGEKEEPER_LIVE_BUILD_INCOMPATIBLE = ''rangekeeper_live_campaign_build_incompatible''"

definition assertRangeKeeperLiveCampaignBuildCompatible ::
  "(RangeKeeperConfig \<Rightarrow> string) \<Rightarrow> RangeKeeperLiveCampaign \<Rightarrow> unit res" where
  "assertRangeKeeperLiveCampaignBuildCompatible config_hash cm =
     (let check = (\<lambda>b why. ensure b (RANGEKEEPER_LIVE_BUILD_INCOMPATIBLE @ '': '' @ why)) in
      case cm_state cm of
        None \<Rightarrow> check False ''campaign runtime state is not initialized''
      | Some st \<Rightarrow>
          bind_ok (check (cm_strategyId cm = ''rangekeeper_v1'') (''unsupported strategy '' @ cm_strategyId cm)) (\<lambda>_.
          bind_ok (check (cm_strategyVersion cm = ''1.0.0'' \<and> kc_strategyVersion (cm_config cm) = cm_strategyVersion cm)
            (''unsupported strategy version '' @ cm_strategyVersion cm)) (\<lambda>_.
          bind_ok (check (cm_stateSchemaVersion cm = 1)
            (''unsupported state schema version '' @ show_int (cm_stateSchemaVersion cm))) (\<lambda>_.
          bind_ok (check (config_hash (cm_config cm) = cm_configHash cm \<and> lv_configHash st = cm_configHash cm)
            ''frozen config hash differs from the persisted campaign state'') (\<lambda>_.
          bind_ok (check (state_parses (lv_policy st)) ''persisted policy state does not parse'') (\<lambda>_.
          bind_ok (check (st_configHash (lv_policy st) = cm_configHash cm) ''policy state is bound to another config'') (\<lambda>_.
          check (lv_buildId st \<noteq> [] \<and> st_buildId (lv_policy st) = lv_buildId st)
            ''state and policy build provenance disagree'')))))))"

subsection \<open>The phases of a managed campaign\<close>

definition isRangeKeeperRetainedExit :: "RangeKeeperLiveState \<Rightarrow> bool" where
  "isRangeKeeperRetainedExit st \<longleftrightarrow> lv_phase st = Phase_exit \<and> lv_desired st = Stopped \<and> lv_exitMode st = Some Exit_retain"

definition isRangeKeeperManagedExit :: "RangeKeeperLiveState \<Rightarrow> bool" where
  "isRangeKeeperManagedExit st \<longleftrightarrow> lv_phase st = Phase_exit \<and> lv_desired st = Stopped \<and>
     (lv_exitMode st = Some Exit_retain \<or> lv_exitMode st = Some Exit_convert)"

definition isRangeKeeperConvertExit :: "RangeKeeperLiveState \<Rightarrow> bool" where
  "isRangeKeeperConvertExit st \<longleftrightarrow> lv_phase st = Phase_exit \<and> lv_desired st = Stopped \<and> lv_exitMode st = Some Exit_convert"

definition isRangeKeeperAwaitingReplan :: "RangeKeeperLiveState \<Rightarrow> bool" where
  "isRangeKeeperAwaitingReplan st \<longleftrightarrow> lv_phase st = Phase_recenter \<and> lv_desired st = Running \<and> lv_withdrawDone st \<and>
     \<not> lv_swapDone st \<and> lv_activeTokenId st = None \<and> lv_candidate st = None"

definition with_snapshot :: "RangeKeeperSnapshot option \<Rightarrow> RangeKeeperLiveState \<Rightarrow> RangeKeeperLiveState" where
  "with_snapshot snap st = (case snap of None \<Rightarrow> st | Some s \<Rightarrow> st\<lparr>lv_last := s\<rparr>)"

definition degradeRangeKeeperConvertExitToRetain ::
  "RangeKeeperLiveState \<Rightarrow> string \<Rightarrow> RangeKeeperSnapshot option \<Rightarrow> RangeKeeperLiveState res" where
  "degradeRangeKeeperConvertExitToRetain st reason snap =
     bind_ok (ensure (isRangeKeeperConvertExit st \<and> lv_activeTokenId st = None)
       ''Only a convert exit that has withdrawn its position can degrade to retain'') (\<lambda>_.
     Inr (with_snapshot snap (st\<lparr>lv_exitMode := Some Exit_retain, lv_haltReason := None, lv_candidate := None,
       lv_swapDone := False, lv_swapConfirmedAt := None,
       lv_lastReason := take 200 (''convert_degraded_to_retain:'' @ reason)\<rparr>)))"

subsection \<open>Opening\<close>

definition buildRangeKeeperLiveEntryState ::
  "(RangeKeeperConfig \<Rightarrow> string) \<Rightarrow> RangeKeeperLiveCampaign \<Rightarrow> RangeKeeperSnapshot \<Rightarrow> RangeKeeperLiveState res" where
  "buildRangeKeeperLiveEntryState config_hash cm snap =
     (let review = cm_reviewPayload cm; cf = cm_config cm; al = cm_allocation cm; p = kc_pool cf;
          liquid = map_of (ca_liquidByTokenAddress al); native = ca_nativeSpendWei al + ca_exitReserveWei al;
          opened = sn_timestamp snap in
      bind_ok (ensure (case sr_candidate review of None \<Rightarrow> False | Some c \<Rightarrow> safe_integer (expiresAt c))
        ''Frozen setup candidate is incomplete'') (\<lambda>_.
      case (liquid (lower (kq_token0 p)), liquid (lower (kq_token1 p))) of
        (Some token0, Some token1) \<Rightarrow>
          bind_ok (ensure (sr_allocationValue review > 0) ''Reserved setup allocation is incomplete'') (\<lambda>_.
          bind_ok (initialRangeKeeperState config_hash cf (sr_buildId review)) (\<lambda>policy.
          Inr \<lparr>lv_id = cm_id cm, lv_operator = cm_wallet cm, lv_configHash = config_hash cf, lv_buildId = sr_buildId review,
            lv_phase = Phase_entry, lv_desired = Running, lv_haltReason = None, lv_exitMode = None, lv_createdAt = opened,
            lv_expiresAt = (if kc_maxDurationSeconds cf = 0 then 9007199254740991 else opened + kc_maxDurationSeconds cf),
            lv_economicActions = 0, lv_recenters = 0, lv_policy = policy, lv_last = snap, lv_activeTokenId = None,
            lv_retiredTokenIds = [], lv_legacyNftCount = sn_nftCount snap, lv_reserve0 = 0, lv_reserve1 = 0,
            lv_reserveNativeWei = 0, lv_initial0 = token0, lv_initial1 = token1, lv_initialNativeWei = native,
            lv_initialStrategyValue = sr_allocationValue review, lv_candidate = sr_candidate review, lv_swapDone = False,
            lv_swapConfirmedAt = None, lv_withdrawDone = False, lv_actionStartCostIndex = 0, lv_reservedActionCost = 0,
            lv_mintRecoveryAttempts = 0, lv_collectedFee0 = 0, lv_collectedFee1 = 0, lv_gasSpentWei = 0, lv_costEvents = [],
            lv_highWaterValue = sr_allocationValue review, activeSeconds = 0, outsideSeconds = 0,
            lv_lastMarkTimestamp = opened, lv_lastReason = ''live_open_reserved'', lv_closedAt = None\<rparr>))
      | _ \<Rightarrow> Inl ''Reserved setup allocation is incomplete''))"

subsection \<open>Reviews of a manager\<close>

definition positive_decimal :: "string option \<Rightarrow> bool" where
  "positive_decimal t \<longleftrightarrow> (case t of None \<Rightarrow> False | Some x \<Rightarrow> positive_text x)"

definition decimal :: "string option \<Rightarrow> bool" where
  "decimal t \<longleftrightarrow> (case t of None \<Rightarrow> False | Some x \<Rightarrow> uint_text x)"

definition number :: "string option \<Rightarrow> int" where
  "number t = (case t of None \<Rightarrow> 0 | Some x \<Rightarrow> int (parse_nat x))"

text \<open>\<open>a ?? b\<close>\<close>

definition or_value :: "'a option \<Rightarrow> 'a option \<Rightarrow> 'a option" where
  "or_value a b = (case a of None \<Rightarrow> b | Some x \<Rightarrow> Some x)"

definition cost_gas :: "live_costs \<Rightarrow> string option" where
  "cost_gas c = or_value (or_value (lc_gasWei c) (lc_stageGasWei c)) (lc_actionGasWei c)"

definition cost_value :: "live_costs \<Rightarrow> string option" where
  "cost_value c = or_value (or_value (lc_actionCostValue c) (lc_costValue c)) (lc_gasValueUsdX18 c)"

text \<open>
  Every failure of \<open>assertConvertConversionEvidence\<close> throws; the conversion of a missing
  shortfall of a required sale throws as well, so both are one branch.
\<close>

definition assertConvertConversionEvidence ::
  "live_costs \<Rightarrow> RangeKeeperPool \<Rightarrow> RangeKeeperLimits \<Rightarrow> unit res" where
  "assertConvertConversionEvidence costs pool l = (case lc_conversion costs of
      None \<Rightarrow> Inl ''Convert review lacks its conversion evidence''
    | Some cv \<Rightarrow>
        bind_ok (ensure (cv_mode cv = ''convert'') ''Convert review lacks its conversion evidence'') (\<lambda>_.
        bind_ok (ensure (uint_text (cv_withdrawn0 cv) \<and> uint_text (cv_withdrawn1 cv) \<and>
            optional uint_text (cv_shortfallValue cv) \<and> optional uint_text (cv_feeValue cv))
          ''Convert conversion evidence is malformed'') (\<lambda>_.
        if \<not> cv_swapRequired cv then Inr ()
        else
          bind_ok (ensure (cv_token cv = Some (if kq_quoteToken pool = Token0 then Token1 else Token0) \<and>
              decimal (cv_amountIn cv) \<and> number (cv_amountIn cv) > 0 \<and> decimal (cv_minOut cv) \<and> number (cv_minOut cv) > 0 \<and>
              decimal (cv_expectedOut cv) \<and> number (cv_expectedOut cv) \<ge> number (cv_minOut cv))
            ''Convert conversion must sell the non-quote leg directly into the quote token'') (\<lambda>_.
          ensure (cv_maxSlippageBps cv = Some (maxSlippageBps l) \<and> cv_shortfallValue cv \<noteq> None \<and>
              number (cv_shortfallValue cv) \<le> maxSwapShortfallValue l)
            ''Convert conversion exceeds the frozen slippage or swap-shortfall policy''))))"

definition operation_text :: "operation_kind \<Rightarrow> string" where
  "operation_text k = (case k of Op_change_range \<Rightarrow> ''change_range'' | Op_close_retain \<Rightarrow> ''close_retain''
     | Op_close_convert \<Rightarrow> ''close_convert'')"

definition is_close :: "RangeKeeperLiveManagementReviewPayload \<Rightarrow> bool" where
  "is_close mp \<longleftrightarrow> mp_operationKind mp \<in> {Op_close_retain, Op_close_convert}"

definition close_mode :: "RangeKeeperLiveManagementReviewPayload \<Rightarrow> exit_mode" where
  "close_mode mp = (if mp_operationKind mp = Op_close_convert then Exit_convert else Exit_retain)"

definition manager_reason :: "RangeKeeperLiveManagementReviewPayload \<Rightarrow> string" where
  "manager_reason mp = ''manager_'' @ (if is_close mp then operation_text (mp_operationKind mp) else ''recenter'') @ '':'' @
     mp_decision_reason mp"

text \<open>The identity checks of a review: campaign, runtime, wallet, source, prices and costs, in this order.\<close>

definition review_identity :: "RangeKeeperLiveCampaign \<Rightarrow> RangeKeeperLiveState \<Rightarrow> RangeKeeperLiveManagementReviewPayload \<Rightarrow> unit res" where
  "review_identity cm st mp =
     bind_ok (ensure (mp_schemaVersion mp = 1 \<and> mp_kind mp = ''rangekeeper_live_management_review'' \<and> mp_mode mp = ''live'' \<and>
         mp_strategyId mp = ''rangekeeper_v1'') ''Unsupported live management review'') (\<lambda>_.
     bind_ok (ensure (mp_campaignId mp = cm_id cm \<and> mp_revision mp = cm_revision cm \<and>
         mp_allocationId mp = ca_allocationId (cm_allocation cm))
       ''Management review campaign/allocation identity changed'') (\<lambda>_.
     bind_ok (ensure (mp_profileId mp = cm_profileId cm \<and> mp_profileHash mp = cm_profileHash cm \<and>
         mp_configHash mp = drop 2 (cm_configHash cm) \<and> digest_text (mp_buildId mp) \<and> digest_text (mp_runtimeStateHash mp) \<and>
         safe_integer (mp_stateRevision mp) \<and> mp_stateRevision mp > 0)
       ''Management review is stale or bound to another runtime'') (\<lambda>_.
     bind_ok (ensure ((case mp_campaignBuildId mp of None \<Rightarrow> mp_buildId mp | Some b \<Rightarrow> b) = lv_buildId st)
       ''Management review campaign build provenance changed'') (\<lambda>_.
     ensure (same (mp_wallet_address mp) (cm_wallet cm) \<and> same (lv_operator st) (cm_wallet cm) \<and>
         safe_integer (mp_wallet_generation mp) \<and> mp_wallet_generation mp > 0 \<and>
         mp_wallet_generation mp \<ge> ca_sourceGeneration (cm_allocation cm) \<and> digest_text (mp_wallet_commitmentsHash mp))
       ''Management review wallet identity changed''))))"

definition review_source :: "RangeKeeperLiveState \<Rightarrow> RangeKeeperLiveManagementReviewPayload \<Rightarrow> unit res" where
  "review_source st mp = (let source = mp_source mp; snap = mp_snapshot mp in
     bind_ok (ensure (mp_wallet_nonce mp = show_int (sn_nonce snap) \<and> sn_nonce snap \<ge> sn_nonce (lv_last st))
       ''Management review nonce differs from campaign snapshot'') (\<lambda>_.
     bind_ok (ensure (sameLiveSource source (sn_source snap)) ''Management review source differs from observed snapshot'') (\<lambda>_.
     bind_ok (ensure (ks_block source \<ge> sn_block (lv_last st) \<and> ks_timestamp source \<ge> sn_timestamp (lv_last st))
       ''Management review source moved backwards'') (\<lambda>_.
     ensure (ks_block source = sn_block (lv_last st) \<longrightarrow> same (ks_hash source) (sn_hash (lv_last st)))
       ''Management review source conflicts with campaign source''))))"

definition review_evidence :: "RangeKeeperLiveManagementReviewPayload \<Rightarrow> live_costs res" where
  "review_evidence mp =
     bind_ok (ensure (digest_text (mp_reference_proofHash mp) \<and> list_all positive_text (mp_reference_prices mp))
       ''Management review reference proof is incomplete'') (\<lambda>_.
     case mp_costs mp of
       None \<Rightarrow> Inl ''Management review lacks source-bound owned-fork cost evidence''
     | Some costs \<Rightarrow>
         bind_ok (ensure (lc_status costs = ''estimated'' \<and> lc_provenance costs = ''owned_fork_allocated_lifecycle_v1'' \<and>
             sameLiveSource (lc_source costs) (mp_source mp) \<and> positive_decimal (cost_gas costs) \<and>
             positive_decimal (cost_value costs))
           ''Management review lacks source-bound owned-fork cost evidence'') (\<lambda>_.
         bind_ok (ensure (digest_text (mp_decision_observationHash mp)) ''Management review observation digest is malformed'') (\<lambda>_.
         Inr costs)))"

text \<open>Whether the review was already applied: then its result is the state as it is.\<close>

definition review_replayed :: "RangeKeeperLiveCampaign \<Rightarrow> RangeKeeperLiveState \<Rightarrow> RangeKeeperLiveManagementReviewPayload \<Rightarrow> bool" where
  "review_replayed cm st mp \<longleftrightarrow> cm_stateHash cm \<noteq> Some (mp_runtimeStateHash mp) \<and>
     lv_phase st = (if is_close mp then Phase_exit else Phase_recenter) \<and> lv_lastReason st = manager_reason mp \<and>
     sameLiveSource (sn_source (lv_last st)) (mp_source mp) \<and>
     (if is_close mp then lv_exitMode st = Some (close_mode mp)
      else lv_candidate st \<noteq> None \<and> lv_candidate st = mp_candidate mp)"

definition held :: "RangeKeeperLiveState \<Rightarrow> bool" where
  "held st \<longleftrightarrow> lv_phase st = Phase_holding \<and> lv_activeTokenId st \<noteq> None"

definition close_text :: "exit_mode \<Rightarrow> string" where
  "close_text m = (if m = Exit_convert then ''Convert'' else ''Retain'')"

definition review_close ::
  "RangeKeeperLiveCampaign \<Rightarrow> RangeKeeperLiveState \<Rightarrow> RangeKeeperLiveManagementReviewPayload \<Rightarrow> live_costs \<Rightarrow> RangeKeeperLiveState res"
where
  "review_close cm st mp costs = (let mode = close_mode mp in
     bind_ok (ensure (held st) (close_text mode @ '' close requires a held campaign position'')) (\<lambda>_.
     bind_ok (if mode = Exit_convert
         then assertConvertConversionEvidence costs (kc_pool (cm_config cm)) (kc_limits (cm_config cm)) else Inr ()) (\<lambda>_.
     bind_ok (ensure (number (cost_value costs) > 0) (close_text mode @ '' cost authorization is missing'')) (\<lambda>_.
     Inr (st\<lparr>lv_last := mp_snapshot mp, lv_phase := Phase_exit, lv_desired := Stopped, lv_exitMode := Some mode,
       lv_candidate := None, lv_swapDone := False, lv_swapConfirmedAt := None, lv_withdrawDone := False,
       lv_actionStartCostIndex := length (lv_costEvents st), lv_reservedActionCost := number (cost_value costs),
       lv_lastReason := manager_reason mp\<rparr>)))))"

definition policy_confirmed_at :: "RangeKeeperState \<Rightarrow> keeper_source \<Rightarrow> bool" where
  "policy_confirmed_at policy source \<longleftrightarrow>
     (case lastEligible policy of None \<Rightarrow> False | Some e \<Rightarrow> sameLiveSource e source) \<and> confirmation policy = None"

definition review_recenter ::
  "RangeKeeperLiveCampaign \<Rightarrow> RangeKeeperLiveState \<Rightarrow> RangeKeeperLiveManagementReviewPayload \<Rightarrow> live_costs \<Rightarrow> RangeKeeperLiveState res"
where
  "review_recenter cm st mp costs = (let source = mp_source mp in
     bind_ok (ensure (held st) ''Recenter requires a held campaign position'') (\<lambda>_.
     bind_ok (ensure (case mp_candidate mp of None \<Rightarrow> False | Some c \<Rightarrow> ck_kind c = Recenter)
       ''Recenter review lacks a recenter candidate'') (\<lambda>_.
     let c = the (mp_candidate mp) in
     bind_ok (ensure (ck_sourceBlock c = ks_block source \<and> same (ck_sourceHash c) (ks_hash source) \<and>
         expiresAt c > ks_timestamp source) ''Recenter candidate source/expiry mismatch'') (\<lambda>_.
     bind_ok (ensure (case mp_policy mp of None \<Rightarrow> False
         | Some policy \<Rightarrow> st_configHash policy = cm_configHash cm \<and> st_buildId policy = lv_buildId st)
       ''Recenter policy state binding changed'') (\<lambda>_.
     let policy = the (mp_policy mp) in
     bind_ok (ensure (policy_confirmed_at policy source)
       ''Recenter planner state is not confirmed at the frozen observation source'') (\<lambda>_.
     bind_ok (ensure (number (cost_value costs) > 0) ''Recenter cost authorization is missing'') (\<lambda>_.
     Inr (st\<lparr>lv_last := mp_snapshot mp, lv_phase := Phase_recenter, lv_desired := Running, lv_exitMode := None,
       lv_haltReason := None, lv_policy := policy, lv_candidate := Some c, lv_swapDone := False,
       lv_swapConfirmedAt := None, lv_withdrawDone := False, lv_actionStartCostIndex := length (lv_costEvents st),
       lv_reservedActionCost := number (cost_value costs), lv_lastReason := manager_reason mp\<rparr>))))))))"

definition deriveRangeKeeperLiveManagementTransition ::
  "(RangeKeeperConfig \<Rightarrow> string) \<Rightarrow> RangeKeeperLiveCampaign \<Rightarrow> RangeKeeperLiveManagementReviewPayload \<Rightarrow> RangeKeeperLiveState res"
where
  "deriveRangeKeeperLiveManagementTransition config_hash cm mp = (case cm_state cm of
      None \<Rightarrow> Inl ''Campaign runtime state is not initialized''
    | Some st \<Rightarrow>
        bind_ok (assertRangeKeeperLiveCampaignBuildCompatible config_hash cm) (\<lambda>_.
        bind_ok (review_identity cm st mp) (\<lambda>_.
        bind_ok (review_source st mp) (\<lambda>_.
        bind_ok (review_evidence mp) (\<lambda>costs.
        bind_ok (ensure (cm_stateHash cm = Some (mp_runtimeStateHash mp) \<and> cm_stateRevision cm = mp_stateRevision mp \<or>
            review_replayed cm st mp) ''Management review is stale or another state transition won'') (\<lambda>_.
        if review_replayed cm st mp then Inr st
        else if is_close mp then review_close cm st mp costs
        else review_recenter cm st mp costs))))))"

text \<open>Closing, once the queue has verified the receipts and the cleanup.\<close>

definition deriveRangeKeeperLiveClosedState :: "RangeKeeperLiveState \<Rightarrow> keeper_source \<Rightarrow> RangeKeeperLiveState res" where
  "deriveRangeKeeperLiveClosedState st source =
     bind_ok (ensure (isRangeKeeperManagedExit st \<and> lv_activeTokenId st = None \<and> lv_candidate st = None)
       ''Campaign can close only after a retain or convert exit has removed its managed position'') (\<lambda>_.
     bind_ok (ensure (ks_block source \<ge> sn_block (lv_last st)) ''Close source moved backwards'') (\<lambda>_.
     Inr (st\<lparr>lv_phase := Phase_closed, lv_desired := Stopped, lv_closedAt := Some (ks_timestamp source),
       lv_lastReason := (if lv_exitMode st = Some Exit_convert then ''convert_close_complete'' else ''retain_close_complete''),
       lv_last := (lv_last st)\<lparr>sn_block := ks_block source, sn_hash := ks_hash source, sn_timestamp := ks_timestamp source\<rparr>\<rparr>)))"

subsection \<open>Recovery\<close>

definition RANGEKEEPER_MINT_WAIT_SECONDS :: int where
  "RANGEKEEPER_MINT_WAIT_SECONDS = 300"

definition RANGEKEEPER_CONVERT_WAIT_SECONDS :: int where
  "RANGEKEEPER_CONVERT_WAIT_SECONDS = 900"

text \<open>
  An error: its class, its message if it is an \<open>Error\<close>, and for itself and each cause the texts
  among \<open>shortMessage\<close>, \<open>details\<close> and \<open>message\<close>.
\<close>

datatype error_class = Stale_candidate | Mint_unavailable | Exit_conversion_unavailable | Other_error

record live_error =
  er_class :: error_class
  er_message :: "string option"
  er_causes :: "string list list"

definition text_includes :: "string \<Rightarrow> string \<Rightarrow> bool" where
  "text_includes s pat \<longleftrightarrow> list_ex (\<lambda>i. take (length pat) (drop i s) = pat) [0..<Suc (length s)]"

definition isRangeKeeperMintPriceSlippage :: "live_error \<Rightarrow> bool" where
  "isRangeKeeperMintPriceSlippage e \<longleftrightarrow>
     list_ex (list_ex (\<lambda>t. text_includes (lower t) ''price slippage check'')) (take 6 (er_causes e))"

definition typed_error :: "error_class \<Rightarrow> string \<Rightarrow> live_error" where
  "typed_error k message = \<lparr>er_class = k, er_message = Some message, er_causes = [[message]]\<rparr>"

definition is_mint :: "RangeKeeperTxPlan \<Rightarrow> bool" where
  "is_mint plan \<longleftrightarrow> (case plan of Plan_mint _ _ \<Rightarrow> True | _ \<Rightarrow> False)"

definition is_swap :: "RangeKeeperTxPlan \<Rightarrow> bool" where
  "is_swap plan \<longleftrightarrow> (case plan of Plan_swap _ _ _ _ \<Rightarrow> True | _ \<Rightarrow> False)"

definition is_withdraw :: "RangeKeeperTxPlan \<Rightarrow> bool" where
  "is_withdraw plan \<longleftrightarrow> (case plan of Plan_withdraw _ _ _ _ _ \<Rightarrow> True | _ \<Rightarrow> False)"

definition classifyRangeKeeperStageError :: "RangeKeeperTxPlan option \<Rightarrow> live_error \<Rightarrow> live_error" where
  "classifyRangeKeeperStageError plan e =
     (if (case plan of None \<Rightarrow> False | Some pl \<Rightarrow> is_mint pl) \<and> isRangeKeeperMintPriceSlippage e
      then typed_error Mint_unavailable ''Mint price slipped before signing'' else e)"

definition plan_kind_text :: "RangeKeeperTxPlan \<Rightarrow> string" where
  "plan_kind_text plan = (case plan of Plan_approve _ _ _ \<Rightarrow> ''approve'' | Plan_swap _ _ _ _ \<Rightarrow> ''swap''
     | Plan_mint _ _ \<Rightarrow> ''mint'' | Plan_withdraw _ _ _ _ _ \<Rightarrow> ''withdraw'')"

definition risky_leg_plan :: "RangeKeeperTxPlan \<Rightarrow> bool" where
  "risky_leg_plan plan \<longleftrightarrow> (case plan of Plan_swap _ _ _ _ \<Rightarrow> True
     | Plan_approve _ k am \<Rightarrow> k = Router \<and> am > 0 | _ \<Rightarrow> False)"

definition classifyRangeKeeperConvertExitStageError :: "RangeKeeperTxPlan option \<Rightarrow> live_error \<Rightarrow> live_error" where
  "classifyRangeKeeperConvertExitStageError plan e =
     (if er_class e = Exit_conversion_unavailable then e
      else case plan of None \<Rightarrow> e
        | Some pl \<Rightarrow> if risky_leg_plan pl
            then typed_error Exit_conversion_unavailable (take 240 (''Exit '' @ plan_kind_text pl @ '' could not be authorized: '' @
              (case er_message e of None \<Rightarrow> ''stage_unavailable'' | Some m \<Rightarrow> m)))
            else e)"

datatype RangeKeeperStageSettlement =
  Unsettled
| Settle_wait string
| Settle_replan string RangeKeeperLiveState
| Settle_exit string RangeKeeperLiveState

definition error_text :: "live_error \<Rightarrow> string" where
  "error_text e = (case er_message e of None \<Rightarrow> [] | Some m \<Rightarrow> m)"

definition settleRangeKeeperLiveConvertExitError ::
  "RangeKeeperLiveState \<Rightarrow> RangeKeeperSnapshot \<Rightarrow> int \<Rightarrow> live_error \<Rightarrow> RangeKeeperStageSettlement res" where
  "settleRangeKeeperLiveConvertExitError st snap waitedSeconds e =
     (if er_class e \<noteq> Exit_conversion_unavailable then Inr Unsettled
      else if \<not> isRangeKeeperConvertExit st \<or> lv_activeTokenId st \<noteq> None then Inr Unsettled
      else if \<not> waitedSeconds \<ge> RANGEKEEPER_CONVERT_WAIT_SECONDS
      then Inr (Settle_wait (take 300 (''convert_swap_unavailable_wait: '' @ error_text e)))
      else bind_ok (degradeRangeKeeperConvertExitToRetain st (error_text e) (Some snap)) (\<lambda>next.
        Inr (Settle_exit ''convert_swap_unavailable_retained'' next)))"

definition convertRangeKeeperRecenterToRetainExit ::
  "RangeKeeperLiveState \<Rightarrow> string \<Rightarrow> RangeKeeperSnapshot option \<Rightarrow> RangeKeeperLiveState res" where
  "convertRangeKeeperRecenterToRetainExit st reason snap =
     bind_ok (ensure (lv_phase st = Phase_recenter) ''Only a recenter in progress can be converted to a retained exit'') (\<lambda>_.
     Inr (with_snapshot snap (st\<lparr>lv_phase := Phase_exit, lv_desired := Stopped, lv_exitMode := Some Exit_retain,
       lv_candidate := None, lv_swapDone := False, lv_swapConfirmedAt := None,
       lv_actionStartCostIndex := length (lv_costEvents st), lv_reservedActionCost := 0,
       lv_policy := (lv_policy st)\<lparr>confirmation := None, exit_timer := None\<rparr>,
       lv_lastReason := ''manager_close_retain:'' @ reason\<rparr>)))"

definition recoverRangeKeeperRevertedRecenterWithdrawal ::
  "RangeKeeperLiveState \<Rightarrow> string \<Rightarrow> RangeKeeperSnapshot \<Rightarrow> RangeKeeperLiveState option res" where
  "recoverRangeKeeperRevertedRecenterWithdrawal st reason snap =
     (if lv_phase st \<noteq> Phase_halted \<or> lv_haltReason st \<noteq> Some reason \<or> lv_desired st \<noteq> Running then Inr None
      else if lv_activeTokenId st = None \<or> lv_withdrawDone st \<or> lv_swapDone st \<or>
        \<not> (case lv_candidate st of None \<Rightarrow> False | Some c \<Rightarrow> ck_kind c = Recenter) then Inr None
      else if \<not> (case sn_position snap of None \<Rightarrow> False
           | Some pos \<Rightarrow> Some (wp_tokenId pos) = lv_activeTokenId st \<and> wp_liquidity pos > 0) then Inr None
      else bind_ok (convertRangeKeeperRecenterToRetainExit (st\<lparr>lv_phase := Phase_recenter\<rparr>) ''recenter_withdraw_reverted'' (Some snap))
        (\<lambda>next. Inr (Some (next\<lparr>lv_haltReason := None\<rparr>))))"

definition settleRangeKeeperLiveStageError ::
  "RangeKeeperLiveState \<Rightarrow> RangeKeeperSnapshot \<Rightarrow> int \<Rightarrow> live_error \<Rightarrow> RangeKeeperStageSettlement res" where
  "settleRangeKeeperLiveStageError st snap time e =
     (if er_class e \<notin> {Stale_candidate, Mint_unavailable} then Inr Unsettled
      else if lv_phase st \<noteq> Phase_recenter \<or> lv_desired st \<noteq> Running then Inr Unsettled
      else if lv_withdrawDone st \<and> \<not> lv_swapDone st \<and> lv_activeTokenId st = None
      then Inr (Settle_replan ''stale_recenter_replan'' (st\<lparr>lv_candidate := None,
          lv_policy := (lv_policy st)\<lparr>confirmation := None, exit_timer := None\<rparr>, lv_reservedActionCost := 0,
          lv_lastReason := ''stale_recenter_replan'', lv_last := snap\<rparr>))
      else case (er_class e, lv_swapDone st, lv_swapConfirmedAt st, lv_candidate st) of
          (Mint_unavailable, True, Some confirmedAt, Some c) \<Rightarrow>
            if sn_tick snap \<ge> range_tickLower (ck_range c) \<and> sn_tick snap < range_tickUpper (ck_range c) \<and>
              time - confirmedAt < RANGEKEEPER_MINT_WAIT_SECONDS
            then Inr (Settle_wait ''repriced_mint_wait'')
            else bind_ok (convertRangeKeeperRecenterToRetainExit st ''repriced_mint_exit'' (Some snap)) (\<lambda>next.
              Inr (Settle_exit ''repriced_mint_exit'' next))
        | _ \<Rightarrow> Inr Unsettled)"

subsection \<open>Budgets and re-planning\<close>

text \<open>\<open>reduce\<close> from zero, unknown from the first event with an unknown part on.\<close>

definition event_cost :: "RangeKeeperCostEvent \<Rightarrow> int option" where
  "event_cost e = (case (ce_gasValue e, ce_swapFeeValue e, ce_swapShortfallValue e) of
      (Some g, Some f, Some s) \<Rightarrow> Some (g + f + s) | _ \<Rightarrow> None)"

definition sumCost :: "RangeKeeperCostEvent list \<Rightarrow> int option" where
  "sumCost events = foldl (\<lambda>sum e. add_cost sum (event_cost e)) (Some 0) events"

definition rangeKeeperLiveCostSpent :: "RangeKeeperLiveCampaign \<Rightarrow> int option" where
  "rangeKeeperLiveCostSpent cm = (case cm_state cm of None \<Rightarrow> None | Some st \<Rightarrow> sumCost (lv_costEvents st))"

definition rangeKeeperLiveCostBudgetExhausted :: "RangeKeeperLiveCampaign \<Rightarrow> bool" where
  "rangeKeeperLiveCostBudgetExhausted cm \<longleftrightarrow> (let l = kc_limits (cm_config cm) in
     case rangeKeeperLiveCostSpent cm of None \<Rightarrow> False
     | Some spent \<Rightarrow> spent \<ge> maxRollingCost l \<or> spent \<ge> maxCampaignCost l)"

definition rangeKeeperLiveRemainingActionBudget :: "RangeKeeperLiveCampaign \<Rightarrow> int res" where
  "rangeKeeperLiveRemainingActionBudget cm = (case cm_state cm of
      None \<Rightarrow> Inl ''Campaign runtime state is not initialized''
    | Some st \<Rightarrow> Inr (case sumCost (drop (lv_actionStartCostIndex st) (lv_costEvents st)) of
          None \<Rightarrow> 0
        | Some spent \<Rightarrow> remaining (maxActionCost (kc_limits (cm_config cm))) spent))"

record RangeKeeperLiveReplanInput =
  ri_source :: keeper_source
  ri_snapshot :: RangeKeeperSnapshot
  ri_candidate :: RangeKeeperCandidate
  ri_policy :: RangeKeeperState
  ri_costs :: live_costs

definition deriveRangeKeeperLiveReplanTransition ::
  "RangeKeeperLiveCampaign \<Rightarrow> RangeKeeperLiveReplanInput \<Rightarrow> RangeKeeperLiveState res"
where
  "deriveRangeKeeperLiveReplanTransition cm inp = (case cm_state cm of
      None \<Rightarrow> Inl ''Campaign runtime state is not initialized''
    | Some st \<Rightarrow> let source = ri_source inp; c = ri_candidate inp; policy = ri_policy inp; costs = ri_costs inp in
        bind_ok (ensure (isRangeKeeperAwaitingReplan st) ''Only a withdrawn recenter without a candidate can be re-planned'') (\<lambda>_.
        bind_ok (ensure (sameLiveSource source (sn_source (ri_snapshot inp)) \<and> ks_block source \<ge> sn_block (lv_last st) \<and>
            ks_timestamp source \<ge> sn_timestamp (lv_last st)) ''Replan source is not later than the campaign state'') (\<lambda>_.
        bind_ok (ensure (ck_sourceBlock c = ks_block source \<and> same (ck_sourceHash c) (ks_hash source) \<and>
            expiresAt c > ks_timestamp source) ''Replan candidate source/expiry mismatch'') (\<lambda>_.
        bind_ok (ensure (st_configHash policy = cm_configHash cm \<and> st_buildId policy = lv_buildId st \<and>
            policy_confirmed_at policy source) ''Replan policy state is not confirmed at the replan source'') (\<lambda>_.
        bind_ok (ensure (lc_status costs = ''estimated'' \<and> lc_provenance costs = ''owned_fork_allocated_lifecycle_v1'' \<and>
            sameLiveSource (lc_source costs) source \<and> positive_decimal (lc_actionCostValue costs))
          ''Replan lacks source-bound owned-fork cost evidence'') (\<lambda>_.
        let reserved = number (lc_actionCostValue costs) in
        bind_ok (rangeKeeperLiveRemainingActionBudget cm) (\<lambda>budget.
        bind_ok (ensure (reserved \<le> budget) ''Replan exceeds the remaining per-action cost budget'') (\<lambda>_.
        Inr (st\<lparr>lv_last := ri_snapshot inp, lv_policy := policy, lv_candidate := Some (c\<lparr>ck_kind := Recenter\<rparr>),
          lv_swapDone := False, lv_swapConfirmedAt := None, lv_reservedActionCost := reserved,
          lv_lastReason := ''manager_recenter_replan:two_confirmations''\<rparr>)))))))))"

subsection \<open>Receipts\<close>

datatype job_kind = Job_open | Job_manage operation_kind

record receipt_valuation =
  rv_source :: keeper_source
  rv_proofHash :: string
  rv_price0 :: "string option"
  rv_price1 :: "string option"
  rv_nativePrice :: "string option"

text \<open>\<open>/^(0x)?[0-9a-fA-F]{64}$/\<close>\<close>

definition hash64_text :: "string \<Rightarrow> bool" where
  "hash64_text s \<longleftrightarrow> hash_text s \<or> length s = 64 \<and> list_all is_hex s"

definition positive_price :: "string option \<Rightarrow> bool" where
  "positive_price t \<longleftrightarrow> decimal t \<and> number t > 0"

definition valuation_valid :: "receipt_valuation \<Rightarrow> keeper_source \<Rightarrow> bool" where
  "valuation_valid v source \<longleftrightarrow> sameLiveSource (rv_source v) source \<and> hash64_text (rv_proofHash v) \<and>
     positive_price (rv_price0 v) \<and> positive_price (rv_price1 v) \<and> positive_price (rv_nativePrice v)"

record receipt_cost =
  rc_gasValue :: "int option"
  rc_swapFeeValue :: "int option"
  rc_swapShortfallValue :: "int option"
  rc_actualSwapOutput :: "int option"

definition price_of :: "receipt_valuation \<Rightarrow> token_side \<Rightarrow> int" where
  "price_of v i = number (if i = Token0 then rv_price0 v else rv_price1 v)"

definition other_side :: "token_side \<Rightarrow> token_side" where
  "other_side i = (if i = Token0 then Token1 else Token0)"

definition swap_output :: "RangeKeeperSnapshot \<Rightarrow> RangeKeeperSnapshot \<Rightarrow> token_side \<Rightarrow> int" where
  "swap_output before after i =
     (let delta = side_funds (sn_funds after) (other_side i) - side_funds (sn_funds before) (other_side i) in
      if delta > 0 then delta else 0)"

definition deriveRangeKeeperReceiptCost ::
  "RangeKeeperTxPlan \<Rightarrow> RangeKeeperSnapshot \<Rightarrow> RangeKeeperSnapshot \<Rightarrow> int \<Rightarrow> RangeKeeperPool \<Rightarrow> bool \<Rightarrow>
   receipt_valuation option \<Rightarrow> receipt_cost"
where
  "deriveRangeKeeperReceiptCost plan before after gasWei p succeeded valuation =
     (let refs = (case valuation of None \<Rightarrow> None
          | Some v \<Rightarrow> if valuation_valid v (sn_source after) then Some v else None);
          gasValue = map_option (\<lambda>v. rawValue gasWei (number (rv_nativePrice v)) 18) refs in
      case plan of
        Plan_swap i amountIn _ _ \<Rightarrow>
          if \<not> succeeded
          then \<lparr>rc_gasValue = gasValue, rc_swapFeeValue = Some 0, rc_swapShortfallValue = Some 0, rc_actualSwapOutput = None\<rparr>
          else let out = swap_output before after i in (case refs of
              Some v \<Rightarrow>
                if out > 0 then
                  let inputValue = rawValue amountIn (price_of v i) (pool_decimals p i);
                      outputValue = rawValue out (price_of v (other_side i)) (pool_decimals p (other_side i));
                      fee = (inputValue * kq_fee p) sdiv 1000000; gap = inputValue - outputValue - fee in
                  \<lparr>rc_gasValue = gasValue, rc_swapFeeValue = Some fee,
                    rc_swapShortfallValue = Some (if gap > 0 then gap else 0), rc_actualSwapOutput = Some out\<rparr>
                else \<lparr>rc_gasValue = gasValue, rc_swapFeeValue = None, rc_swapShortfallValue = None, rc_actualSwapOutput = Some out\<rparr>
            | None \<Rightarrow>
                \<lparr>rc_gasValue = gasValue, rc_swapFeeValue = None, rc_swapShortfallValue = None, rc_actualSwapOutput = Some out\<rparr>)
      | _ \<Rightarrow> \<lparr>rc_gasValue = gasValue, rc_swapFeeValue = Some 0, rc_swapShortfallValue = Some 0, rc_actualSwapOutput = None\<rparr>)"

text \<open>
  One persisted receipt of a stage: its job and plan, the outcome, what it cost, the pool before
  and after, and the fees a withdrawal collected.
\<close>

record live_receipt =
  re_jobId :: string
  re_jobKind :: job_kind
  re_stage :: string
  re_plan :: RangeKeeperTxPlan
  re_confirmed :: bool
  re_hash :: string
  re_source :: keeper_source
  re_gasUsed :: int
  re_effectiveGasPrice :: int
  re_gasWei :: int
  re_before :: RangeKeeperSnapshot
  re_after :: RangeKeeperSnapshot
  re_valuation :: "receipt_valuation option"
  re_fees :: "(string \<times> string) option"

definition receipt_costs :: "RangeKeeperPool \<Rightarrow> live_receipt \<Rightarrow> receipt_cost" where
  "receipt_costs p r = deriveRangeKeeperReceiptCost (re_plan r) (re_before r) (re_after r) (re_gasWei r) p (re_confirmed r)
     (case re_valuation r of None \<Rightarrow> None | Some v \<Rightarrow> if valuation_valid v (re_source r) then Some v else None)"

text \<open>Booking: gas, cost event and snapshot, for every outcome.\<close>

definition book_receipt :: "RangeKeeperPool \<Rightarrow> live_receipt \<Rightarrow> RangeKeeperLiveState \<Rightarrow> RangeKeeperLiveState" where
  "book_receipt p r st = (let cost = receipt_costs p r in
     st\<lparr>lv_gasSpentWei := lv_gasSpentWei st + re_gasWei r,
        lv_costEvents := lv_costEvents st @ [\<lparr>ce_hash = re_hash r, ce_block = ks_block (re_source r),
          ce_timestamp = ks_timestamp (re_source r), ce_gasWei = re_gasWei r, ce_gasValue = rc_gasValue cost,
          ce_swapFeeValue = rc_swapFeeValue cost, ce_swapShortfallValue = rc_swapShortfallValue cost\<rparr>],
        lv_last := re_after r\<rparr>)"

definition apply_reverted :: "live_receipt \<Rightarrow> RangeKeeperLiveState \<Rightarrow> RangeKeeperLiveState res" where
  "apply_reverted r st =
     (if re_jobKind r = Job_manage Op_close_convert \<and> is_swap (re_plan r) \<and> isRangeKeeperConvertExit st \<and>
        lv_activeTokenId st = None
      then bind_ok (degradeRangeKeeperConvertExitToRetain st (take 120 (''swap_reverted:'' @ re_stage r)) (Some (re_after r)))
        (\<lambda>d. Inr (d\<lparr>lv_lastReason := take 200 (''convert_swap_reverted_degraded_to_retain:'' @ re_stage r)\<rparr>))
      else let reason = ''transaction_reverted:'' @ re_jobId r @ '':'' @ re_stage r in
        Inr (st\<lparr>lv_phase := Phase_halted, lv_haltReason := Some reason, lv_lastReason := reason\<rparr>))"

definition apply_minted :: "string list \<Rightarrow> live_receipt \<Rightarrow> RangeKeeperLiveState \<Rightarrow> RangeKeeperLiveState res" where
  "apply_minted nfts r st = (case sn_position (re_after r) of
      None \<Rightarrow> Inl ''Successful mint lacks canonical position state''
    | Some pos \<Rightarrow>
        bind_ok (ensure (show_int (wp_tokenId pos) \<in> set nfts) ''Minted NFT is not allocated to this campaign'') (\<lambda>_.
        bind_ok (ensure (lv_activeTokenId st = None \<or> lv_activeTokenId st = Some (wp_tokenId pos))
          ''Mint conflicts with active campaign NFT'') (\<lambda>_.
        Inr (st\<lparr>lv_activeTokenId := Some (wp_tokenId pos), lv_economicActions := lv_economicActions st + 1,
          lv_recenters := (if lv_phase st = Phase_recenter then lv_recenters st + 1 else lv_recenters st),
          lv_phase := Phase_holding, lv_candidate := None, lv_swapDone := False, lv_swapConfirmedAt := None,
          lv_withdrawDone := False, lv_reservedActionCost := 0, lv_lastReason := ''mint_confirmed''\<rparr>))))"

definition apply_confirmed :: "string list \<Rightarrow> live_receipt \<Rightarrow> RangeKeeperLiveState \<Rightarrow> RangeKeeperLiveState res" where
  "apply_confirmed nfts r st = (case re_plan r of
      Plan_withdraw tokenId _ _ _ _ \<Rightarrow> (case re_fees r of
          None \<Rightarrow> Inl ''Withdrawal fee collection evidence is missing''
        | Some (fee0, fee1) \<Rightarrow>
            bind_ok (ensure (uint_text fee0 \<and> uint_text fee1) ''Withdrawal fee collection evidence is missing'') (\<lambda>_.
            Inr (st\<lparr>lv_collectedFee0 := lv_collectedFee0 st + number (Some fee0),
            lv_collectedFee1 := lv_collectedFee1 st + number (Some fee1), lv_retiredTokenIds := lv_retiredTokenIds st @ [show_int tokenId],
            lv_activeTokenId := None, lv_withdrawDone := True, lv_lastReason := ''withdraw_collected''\<rparr>)))
    | Plan_swap _ _ _ _ \<Rightarrow>
        Inr ((if lv_phase st = Phase_entry \<or> lv_phase st = Phase_recenter
              then st\<lparr>lv_swapDone := True, lv_swapConfirmedAt := Some (ks_timestamp (re_source r))\<rparr> else st)
          \<lparr>lv_lastReason := ''swap_confirmed''\<rparr>)
    | Plan_mint _ _ \<Rightarrow> apply_minted nfts r st
    | Plan_approve _ _ _ \<Rightarrow> Inr (st\<lparr>lv_lastReason := ''approval_confirmed''\<rparr>))"

definition applyRangeKeeperLiveReceiptEffect ::
  "RangeKeeperLiveCampaign \<Rightarrow> live_receipt \<Rightarrow> RangeKeeperLiveState res"
where
  "applyRangeKeeperLiveReceiptEffect cm r = (case cm_state cm of
      None \<Rightarrow> Inl ''Campaign runtime state must be initialized before receipt effects''
    | Some st0 \<Rightarrow>
        let p = kc_pool (cm_config cm) in
        bind_ok (ensure (re_gasWei r \<ge> 0) ''Invalid measured gas amount'') (\<lambda>_.
        bind_ok (ensure (re_gasWei r = re_gasUsed r * re_effectiveGasPrice r) ''Stored gas differs from canonical receipt'') (\<lambda>_.
        bind_ok (ensure (is_swap (re_plan r) \<and> re_confirmed r \<longrightarrow>
            (case rc_actualSwapOutput (receipt_costs p r) of None \<Rightarrow> False | Some out \<Rightarrow> out > 0))
          ''Successful swap receipt lacks positive output-token balance delta'') (\<lambda>_.
        let st = book_receipt p r st0 in
        if \<not> re_confirmed r then apply_reverted r st
        else apply_confirmed (ca_nftTokenIds (cm_allocation cm)) r st))))"

subsection \<open>Observations and marks\<close>

text \<open>\<open>persistObservation\<close> of the planner: the decided policy, re-anchored while a recenter is in progress.\<close>

definition observed_state :: "RangeKeeperLiveState \<Rightarrow> RangeKeeperDecision \<Rightarrow> RangeKeeperSnapshot \<Rightarrow> RangeKeeperLiveState" where
  "observed_state st d snap =
     (if dc_reason d = ''duplicate_or_backward_observation'' then st
      else let next = st\<lparr>lv_policy := dc_state d, lv_lastReason := dc_reason d\<rparr> in
        if lv_phase st = Phase_recenter then next\<lparr>lv_last := snap\<rparr> else next)"

definition recordRangeKeeperLiveValuationMark ::
  "RangeKeeperLiveCampaign \<Rightarrow> RangeKeeperSnapshot \<Rightarrow> RangeKeeperLiveState res" where
  "recordRangeKeeperLiveValuationMark cm snap = (case cm_state cm of
      None \<Rightarrow> Inl ''Campaign runtime state is not initialized''
    | Some st \<Rightarrow>
        bind_ok (ensure (same (sn_operator snap) (cm_wallet cm)) ''Valuation snapshot operator mismatch'') (\<lambda>_.
        bind_ok (ensure (sn_block snap \<ge> sn_block (lv_last st) \<and> sn_timestamp snap \<ge> sn_timestamp (lv_last st))
          ''Valuation source moved backwards'') (\<lambda>_.
        bind_ok (ensure (sn_block snap = sn_block (lv_last st) \<longrightarrow> same (sn_hash snap) (sn_hash (lv_last st)))
          ''Valuation source conflicts with prior campaign state'') (\<lambda>_.
        Inr ((accrueRangeKeeperTimeInRange st (sn_timestamp snap) (maxObservationGapSeconds (kc_limits (cm_config cm))))
          \<lparr>lv_last := snap, lv_lastMarkTimestamp := sn_timestamp snap\<rparr>)))))"

definition rangeKeeperLiveInitialCapitalValueX18 :: "RangeKeeperLiveState \<Rightarrow> setup_review \<Rightarrow> int option" where
  "rangeKeeperLiveInitialCapitalValueX18 st review =
     (if positive_decimal (sr_nativePrice review)
      then Some (lv_initialStrategyValue st + rawValue (lv_initialNativeWei st) (number (sr_nativePrice review)) 18)
      else None)"

end
