(* ===== verification/Machines.thy ===== *)
theory Machines
  imports Main
begin

section \<open>Transition systems\<close>

text \<open>
  The two contracts by which the state machines of the sources are understood: an invariant that
  holds initially and that every step keeps, and a record that every step only extends.
\<close>

definition reachable :: "('s \<Rightarrow> bool) \<Rightarrow> ('s \<Rightarrow> 's \<Rightarrow> bool) \<Rightarrow> 's \<Rightarrow> bool" where
  "reachable init step s \<longleftrightarrow> (\<exists>s0. init s0 \<and> step\<^sup>*\<^sup>* s0 s)"

locale invariant_machine =
  fixes init :: "'s \<Rightarrow> bool"
    and step :: "'s \<Rightarrow> 's \<Rightarrow> bool"
    and inv :: "'s \<Rightarrow> bool"
  assumes init_inv: "init s \<Longrightarrow> inv s"
    and step_inv: "inv s \<Longrightarrow> step s s' \<Longrightarrow> inv s'"
begin

lemma run_inv: "step\<^sup>*\<^sup>* s s' \<Longrightarrow> inv s \<Longrightarrow> inv s'"
  by (induction rule: rtranclp_induct) (auto intro: step_inv)

lemma reachable_inv: "reachable init step s \<Longrightarrow> inv s"
  unfolding reachable_def using run_inv init_inv by blast

lemma reachable_step: "reachable init step s \<Longrightarrow> step s s' \<Longrightarrow> reachable init step s'"
  unfolding reachable_def by (meson rtranclp.rtrancl_into_rtrancl)

end

text \<open>A machine with an invariant whose steps, from states that satisfy it, extend a record.\<close>

locale recording_machine = invariant_machine +
  fixes extends :: "'s \<Rightarrow> 's \<Rightarrow> bool"
  assumes extends_refl: "extends s s"
    and extends_trans: "extends s s' \<Longrightarrow> extends s' s'' \<Longrightarrow> extends s s''"
    and step_extends: "inv s \<Longrightarrow> step s s' \<Longrightarrow> extends s s'"
begin

lemma run_extends: "step\<^sup>*\<^sup>* s s' \<Longrightarrow> inv s \<Longrightarrow> extends s s'"
proof (induction rule: rtranclp_induct)
  case base
  show ?case by (rule extends_refl)
next
  case (step y z)
  then have "inv y" using run_inv by blast
  with step show ?case using step_extends extends_trans by blast
qed

lemma reachable_extends: "reachable init step s \<Longrightarrow> step\<^sup>*\<^sup>* s s' \<Longrightarrow> extends s s'"
  using reachable_inv run_extends by blast

end

end
