(* ===== verification/Campaign_Machine.thy ===== *)
theory Campaign_Machine
  imports Keeper_Campaign Machines "HOL-Library.Sublist"
begin

section \<open>RangeKeeper: the life of a campaign\<close>

text \<open>
  The steps of \<open>Keeper_Campaign\<close> as one transition relation, the shape every reachable state has,
  and what follows from it for the stages that are planned, signed and recovered.
\<close>

subsection \<open>The machine\<close>

text \<open>
  One step of a campaign.  A receipt answers a transaction that the stage planner planned for the
  state; observations and the safety exit come from the planner of the manager, which runs on a
  held or recentering campaign; the store refuses every event of a closed one.
\<close>

inductive campaign_step :: "(RangeKeeperConfig \<Rightarrow> string) \<Rightarrow> RangeKeeperLiveState \<Rightarrow> RangeKeeperLiveState \<Rightarrow> bool"
  for config_hash :: "RangeKeeperConfig \<Rightarrow> string"
where
  step_review: "cm_state cm = Some st \<Longrightarrow> deriveRangeKeeperLiveManagementTransition config_hash cm mp = Inr st' \<Longrightarrow>
    campaign_step config_hash st st'"
| step_receipt: "cm_state cm = Some st \<Longrightarrow>
    nextRangeKeeperStage quote st snap (cm_config cm) p0 p1 policy = Inr (Some (re_plan r)) \<Longrightarrow>
    applyRangeKeeperLiveReceiptEffect cm r = Inr st' \<Longrightarrow> campaign_step config_hash st st'"
| step_observe: "lv_phase st \<in> {Phase_holding, Phase_recenter} \<Longrightarrow> in_state inp = lv_policy st \<Longrightarrow>
    planRangeKeeper quote simulate inp = Inr d \<Longrightarrow> campaign_step config_hash st (observed_state st d snap)"
| step_mark: "cm_state cm = Some st \<Longrightarrow> lv_phase st \<noteq> Phase_closed \<Longrightarrow> recordRangeKeeperLiveValuationMark cm snap = Inr st' \<Longrightarrow>
    campaign_step config_hash st st'"
| step_settle_replan: "settleRangeKeeperLiveStageError st snap time e = Inr (Settle_replan reason st') \<Longrightarrow>
    campaign_step config_hash st st'"
| step_settle_exit: "settleRangeKeeperLiveStageError st snap time e = Inr (Settle_exit reason st') \<Longrightarrow>
    campaign_step config_hash st st'"
| step_settle_convert: "settleRangeKeeperLiveConvertExitError st snap waited e = Inr (Settle_exit reason st') \<Longrightarrow>
    campaign_step config_hash st st'"
| step_safety_exit: "lv_desired st = Running \<Longrightarrow> convertRangeKeeperRecenterToRetainExit st reason (Some snap) = Inr st' \<Longrightarrow>
    campaign_step config_hash st st'"
| step_recover: "recoverRangeKeeperRevertedRecenterWithdrawal st reason snap = Inr (Some st') \<Longrightarrow>
    campaign_step config_hash st st'"
| step_replan: "cm_state cm = Some st \<Longrightarrow> deriveRangeKeeperLiveReplanTransition cm inp = Inr st' \<Longrightarrow>
    campaign_step config_hash st st'"
| step_close: "deriveRangeKeeperLiveClosedState st source = Inr st' \<Longrightarrow> campaign_step config_hash st st'"

definition campaign_opened :: "(RangeKeeperConfig \<Rightarrow> string) \<Rightarrow> RangeKeeperLiveState \<Rightarrow> bool" where
  "campaign_opened config_hash st \<longleftrightarrow> (\<exists>cm snap. buildRangeKeeperLiveEntryState config_hash cm snap = Inr st)"

subsection \<open>Well-formed states\<close>

text \<open>The shape of each phase, and the books that every phase keeps.\<close>

definition phase_wf :: "RangeKeeperLiveState \<Rightarrow> bool" where
  "phase_wf st \<longleftrightarrow>
     (lv_phase st = Phase_entry \<longrightarrow> lv_desired st = Running \<and> lv_exitMode st = None \<and> lv_activeTokenId st = None \<and>
        \<not> lv_withdrawDone st \<and> lv_candidate st \<noteq> None \<and> lv_recenters st = 0 \<and> lv_economicActions st = 0) \<and>
     (lv_phase st = Phase_holding \<longrightarrow> lv_desired st = Running \<and> lv_exitMode st = None \<and> lv_activeTokenId st \<noteq> None \<and>
        \<not> lv_withdrawDone st \<and> lv_candidate st = None \<and> \<not> lv_swapDone st \<and> lv_swapConfirmedAt st = None \<and>
        lv_reservedActionCost st = 0) \<and>
     (lv_phase st = Phase_recenter \<longrightarrow> lv_desired st = Running \<and> lv_exitMode st = None \<and>
        (lv_activeTokenId st = None \<longleftrightarrow> lv_withdrawDone st) \<and>
        (lv_candidate st = None \<longrightarrow> lv_withdrawDone st \<and> \<not> lv_swapDone st)) \<and>
     (lv_phase st = Phase_exit \<longrightarrow> lv_desired st = Stopped \<and> lv_exitMode st \<noteq> None \<and>
        (lv_activeTokenId st = None \<longleftrightarrow> lv_withdrawDone st) \<and> lv_candidate st = None \<and> \<not> lv_swapDone st \<and>
        lv_swapConfirmedAt st = None) \<and>
     (lv_phase st = Phase_closed \<longrightarrow> lv_desired st = Stopped \<and> lv_exitMode st \<noteq> None \<and> lv_activeTokenId st = None \<and>
        lv_candidate st = None)"

definition books_wf :: "RangeKeeperLiveState \<Rightarrow> bool" where
  "books_wf st \<longleftrightarrow> lv_gasSpentWei st = sum_list (map ce_gasWei (lv_costEvents st)) \<and>
     (\<forall>e\<in>set (lv_costEvents st). 0 \<le> ce_gasWei e) \<and> lv_actionStartCostIndex st \<le> length (lv_costEvents st) \<and>
     0 \<le> lv_recenters st \<and> lv_recenters st \<le> lv_economicActions st \<and>
     0 \<le> lv_collectedFee0 st \<and> 0 \<le> lv_collectedFee1 st \<and>
     lv_reserve0 st = 0 \<and> lv_reserve1 st = 0 \<and> lv_reserveNativeWei st = 0 \<and>
     (lv_swapDone st \<longrightarrow> lv_swapConfirmedAt st \<noteq> None) \<and>
     (lv_haltReason st = None \<longleftrightarrow> lv_phase st \<noteq> Phase_halted) \<and>
     (lv_closedAt st = None \<longleftrightarrow> lv_phase st \<noteq> Phase_closed)"

definition campaign_wf :: "RangeKeeperLiveState \<Rightarrow> bool" where
  "campaign_wf st \<longleftrightarrow> phase_wf st \<and> books_wf st"

subsection \<open>What is planned in which phase\<close>

fun plan_allowed :: "RangeKeeperLiveState \<Rightarrow> RangeKeeperTxPlan \<Rightarrow> bool" where
  "plan_allowed st (Plan_approve i k am) \<longleftrightarrow> lv_phase st = Phase_holding \<and> am = 0 \<or> lv_phase st = Phase_exit \<or>
     lv_phase st \<in> {Phase_entry, Phase_recenter} \<and> lv_candidate st \<noteq> None"
| "plan_allowed st (Plan_swap i am out d) \<longleftrightarrow> lv_phase st = Phase_exit \<and> lv_exitMode st \<noteq> Some Exit_retain \<or>
     lv_phase st \<in> {Phase_entry, Phase_recenter} \<and> lv_candidate st \<noteq> None \<and> \<not> lv_swapDone st"
| "plan_allowed st (Plan_mint c d) \<longleftrightarrow> lv_phase st \<in> {Phase_entry, Phase_recenter} \<and> lv_candidate st \<noteq> None"
| "plan_allowed st (Plan_withdraw t l m0 m1 d) \<longleftrightarrow> lv_phase st \<in> {Phase_exit, Phase_recenter} \<and> lv_activeTokenId st = Some t"

lemma stage_grant_approves:
  "stage_grant p s funds policy i k needed future = Inr (Some pl) \<Longrightarrow> \<exists>am. pl = Plan_approve i k am"
  by (auto simp: stage_grant_def Let_def bind_ok_Inr_iff split: option.splits if_splits)

lemma zero_approves: "zeroUnusedAllowance p s policy = Inr (Some pl) \<Longrightarrow> \<exists>i k. pl = Plan_approve i k 0"
  unfolding zeroUnusedAllowance_def by (rule zero_first_Some)

lemma exit_convert_allowed:
  assumes "exit_convert quote st s cf p0 p1 policy funds = Inr (Some plan)" "lv_phase st = Phase_exit"
  shows "plan_allowed st plan"
  using assms stage_grant_approves [of "kc_pool cf" s funds policy _ Router] zero_approves [of "kc_pool cf" s policy plan]
  by (fastforce simp: exit_convert_def Let_def bind_ok_Inr_iff or_else_Some split: if_splits)

lemma swap_stage_allowed:
  assumes "swap_stage quote s cf p0 p1 policy funds c sw = Inr (Some plan)"
    "lv_phase st \<in> {Phase_entry, Phase_recenter}" "lv_candidate st \<noteq> None" "\<not> lv_swapDone st"
  shows "plan_allowed st plan"
proof -
  have "\<exists>i k am out d. plan = Plan_approve i k am \<or> plan = Plan_swap i am out d"
    using assms(1) unfolding swap_stage_def Let_def bind_ok_Inr_iff or_else_Some
    by (auto dest!: stage_grant_approves)
  with assms(2-4) show ?thesis by auto
qed

lemma mint_stage_allowed:
  assumes "mint_stage s cf p0 p1 policy funds c = Inr (Some plan)"
    "lv_phase st \<in> {Phase_entry, Phase_recenter}" "lv_candidate st \<noteq> None"
  shows "plan_allowed st plan"
proof -
  have "\<exists>i k am c d. plan = Plan_approve i k am \<or> plan = Plan_mint c d"
    using assms(1) unfolding mint_stage_def Let_def bind_ok_Inr_iff or_else_Some
    by (auto dest!: stage_grant_approves)
  with assms(2,3) show ?thesis by auto
qed

lemma withdraw_stage_plan:
  "withdraw_stage s l pos = Inr (Some plan) \<Longrightarrow> \<exists>m0 m1 d. plan = Plan_withdraw (wp_tokenId pos) (wp_liquidity pos) m0 m1 d"
  by (auto simp: withdraw_stage_def bind_ok_Inr_iff)

lemma action_stage_allowed:
  assumes "action_stage quote st s cf p0 p1 policy funds c = Inr (Some plan)"
    "lv_phase st \<in> {Phase_entry, Phase_recenter}" "lv_candidate st = Some c"
  shows "plan_allowed st plan"
proof (cases "liquid_position s")
  case (Some pos)
  with assms(1) have "lv_phase st = Phase_recenter" "lv_activeTokenId st = Some (wp_tokenId pos)"
    "withdraw_stage s (kc_limits cf) pos = Inr (Some plan)"
    by (auto simp: action_stage_def bind_ok_Inr_iff)
  then show ?thesis using withdraw_stage_plan by fastforce
next
  case None
  then consider sw where "\<not> lv_swapDone st" "swap_stage quote s cf p0 p1 policy funds c sw = Inr (Some plan)"
    | "mint_stage s cf p0 p1 policy funds c = Inr (Some plan)"
    using assms(1) by (auto simp: action_stage_def split: option.splits if_splits)
  then show ?thesis
    using swap_stage_allowed [OF _ assms(2)] mint_stage_allowed [OF _ assms(2)] assms(3) by cases auto
qed

lemma planned_stage_allowed:
  assumes "nextRangeKeeperStage quote st s cf p0 p1 policy = Inr (Some plan)"
  shows "plan_allowed st plan"
proof -
  obtain funds where plan: "(if lv_phase st = Phase_exit then exit_stage quote st s cf p0 p1 policy funds
       else if lv_phase st = Phase_holding
       then (if policy = None then zeroUnusedAllowance (kc_pool cf) s policy else Inr None)
       else if lv_phase st \<noteq> Phase_entry \<and> lv_phase st \<noteq> Phase_recenter then Inr None
       else (case lv_candidate st of None \<Rightarrow> Inr None
             | Some c \<Rightarrow> action_stage quote st s cf p0 p1 policy funds c)) = Inr (Some plan)"
    using assms unfolding nextRangeKeeperStage_def bind_ok_Inr_iff by blast
  show ?thesis
  proof (cases "lv_phase st = Phase_exit")
    case True
    with plan have "exit_stage quote st s cf p0 p1 policy funds = Inr (Some plan)" by simp
    then show ?thesis using True exit_convert_allowed [OF _ True] withdraw_stage_plan
      by (fastforce simp: exit_stage_def bind_ok_Inr_iff split: option.splits)
  next
    case False
    show ?thesis
    proof (cases "lv_phase st = Phase_holding")
      case True
      with plan have "zeroUnusedAllowance (kc_pool cf) s policy = Inr (Some plan)" by (simp split: if_splits)
      with True show ?thesis using zero_approves by fastforce
    next
      case hold: False
      with False plan have ph: "lv_phase st \<in> {Phase_entry, Phase_recenter}" by (simp split: if_splits)
      with False hold plan obtain c where c: "lv_candidate st = Some c" "action_stage quote st s cf p0 p1 policy funds c = Inr (Some plan)"
        by (auto split: option.splits)
      show ?thesis by (rule action_stage_allowed [OF c(2) ph c(1)])
    qed
  qed
qed

subsection \<open>Every step keeps the shape\<close>

lemma campaign_wfI: "phase_wf st \<Longrightarrow> books_wf st \<Longrightarrow> campaign_wf st"
  by (simp add: campaign_wf_def)

lemma campaign_wfD: "campaign_wf st \<Longrightarrow> phase_wf st" "campaign_wf st \<Longrightarrow> books_wf st"
  by (simp_all add: campaign_wf_def)

text \<open>The parts of the state that the shape of the phase and the books read.\<close>

lemma phase_wf_cong:
  assumes "phase_wf st" "lv_phase st' = lv_phase st" "lv_desired st' = lv_desired st" "lv_exitMode st' = lv_exitMode st"
    "lv_activeTokenId st' = lv_activeTokenId st" "lv_withdrawDone st' = lv_withdrawDone st"
    "lv_candidate st' = lv_candidate st" "lv_recenters st' = lv_recenters st" "lv_economicActions st' = lv_economicActions st"
    "lv_swapDone st' = lv_swapDone st" "lv_swapConfirmedAt st' = lv_swapConfirmedAt st"
    "lv_reservedActionCost st' = lv_reservedActionCost st"
  shows "phase_wf st'"
  using assms(1) unfolding phase_wf_def assms(2-12) .

lemma books_wf_cong:
  assumes "books_wf st" "lv_gasSpentWei st' = lv_gasSpentWei st" "lv_costEvents st' = lv_costEvents st"
    "lv_actionStartCostIndex st' = lv_actionStartCostIndex st" "lv_recenters st' = lv_recenters st"
    "lv_economicActions st' = lv_economicActions st" "lv_collectedFee0 st' = lv_collectedFee0 st"
    "lv_collectedFee1 st' = lv_collectedFee1 st" "lv_reserve0 st' = lv_reserve0 st" "lv_reserve1 st' = lv_reserve1 st"
    "lv_reserveNativeWei st' = lv_reserveNativeWei st" "lv_swapDone st' = lv_swapDone st"
    "lv_swapConfirmedAt st' = lv_swapConfirmedAt st" "lv_haltReason st' = lv_haltReason st"
    "lv_closedAt st' = lv_closedAt st" "lv_phase st' = lv_phase st"
  shows "books_wf st'"
  using assms(1) unfolding books_wf_def assms(2-16) .

lemma with_snapshot_wf [simp]: "campaign_wf (with_snapshot snap st) \<longleftrightarrow> campaign_wf st"
proof (cases snap)
  case (Some s)
  have "campaign_wf (st\<lparr>lv_last := s\<rparr>) \<longleftrightarrow> campaign_wf st"
    unfolding campaign_wf_def phase_wf_def books_wf_def by simp
  with Some show ?thesis by (simp add: with_snapshot_def)
qed (simp add: with_snapshot_def)

lemma holding_shape:
  assumes "campaign_wf st" "held st"
  shows "lv_haltReason st = None" "lv_closedAt st = None" "\<not> lv_withdrawDone st" "lv_exitMode st = None"
    "lv_phase st = Phase_holding" "lv_activeTokenId st \<noteq> None"
  using assms by (simp_all add: campaign_wf_def phase_wf_def books_wf_def held_def)

lemma opened_wf:
  assumes "campaign_opened config_hash st"
  shows "campaign_wf st"
proof -
  from assms obtain cm :: RangeKeeperLiveCampaign and snap where "buildRangeKeeperLiveEntryState config_hash cm snap = Inr st"
    unfolding campaign_opened_def by blast
  then show ?thesis unfolding buildRangeKeeperLiveEntryState_def initialRangeKeeperState_def Let_def bind_ok_Inr_iff
    by (auto simp: bind_ok_Inr_iff campaign_wf_def phase_wf_def books_wf_def split: option.split_asm)
qed

lemma review_close_wf:
  assumes "campaign_wf st" "review_close cm st mp costs = Inr st'"
  shows "campaign_wf st'"
proof -
  from assms(2) have h: "held st" and st': "st' = st\<lparr>lv_last := mp_snapshot mp, lv_phase := Phase_exit, lv_desired := Stopped,
       lv_exitMode := Some (close_mode mp), lv_candidate := None, lv_swapDone := False, lv_swapConfirmedAt := None,
       lv_withdrawDone := False, lv_actionStartCostIndex := length (lv_costEvents st),
       lv_reservedActionCost := number (cost_value costs), lv_lastReason := manager_reason mp\<rparr>"
    unfolding review_close_def Let_def bind_ok_Inr_iff by simp_all
  note shape = holding_shape [OF assms(1) h]
  show ?thesis
  proof (rule campaign_wfI)
    show "phase_wf st'" unfolding st' phase_wf_def using shape by simp
    show "books_wf st'" using campaign_wfD(2) [OF assms(1)] shape unfolding st' books_wf_def by simp
  qed
qed

lemma review_recenter_wf:
  assumes "campaign_wf st" "review_recenter cm st mp costs = Inr st'"
  shows "campaign_wf st'"
proof -
  from assms(2) have h: "held st" and st': "st' = st\<lparr>lv_last := mp_snapshot mp, lv_phase := Phase_recenter,
       lv_desired := Running, lv_exitMode := None, lv_haltReason := None, lv_policy := the (mp_policy mp),
       lv_candidate := Some (the (mp_candidate mp)),
       lv_swapDone := False, lv_swapConfirmedAt := None, lv_withdrawDone := False,
       lv_actionStartCostIndex := length (lv_costEvents st), lv_reservedActionCost := number (cost_value costs),
       lv_lastReason := manager_reason mp\<rparr>"
    unfolding review_recenter_def Let_def bind_ok_Inr_iff by simp_all
  note shape = holding_shape [OF assms(1) h]
  show ?thesis
  proof (rule campaign_wfI)
    show "phase_wf st'" unfolding st' phase_wf_def using shape by simp
    show "books_wf st'" using campaign_wfD(2) [OF assms(1)] shape unfolding st' books_wf_def by simp
  qed
qed

lemma review_cases:
  assumes "cm_state cm = Some st" "deriveRangeKeeperLiveManagementTransition config_hash cm mp = Inr st'"
  shows "st' = st \<or> (\<exists>costs. review_close cm st mp costs = Inr st') \<or> (\<exists>costs. review_recenter cm st mp costs = Inr st')"
  using assms(2) unfolding deriveRangeKeeperLiveManagementTransition_def assms(1) option.case bind_ok_Inr_iff
  by (auto split: if_split_asm)

lemma review_wf:
  assumes "campaign_wf st" "cm_state cm = Some st" "deriveRangeKeeperLiveManagementTransition config_hash cm mp = Inr st'"
  shows "campaign_wf st'"
  using review_cases [OF assms(2,3)] assms(1) review_close_wf review_recenter_wf by blast

lemma retain_exit_wf:
  assumes "campaign_wf st" "convertRangeKeeperRecenterToRetainExit st reason snap = Inr st'"
  shows "campaign_wf st'"
proof -
  let ?next = "st\<lparr>lv_phase := Phase_exit, lv_desired := Stopped, lv_exitMode := Some Exit_retain,
       lv_candidate := None, lv_swapDone := False, lv_swapConfirmedAt := None,
       lv_actionStartCostIndex := length (lv_costEvents st), lv_reservedActionCost := 0,
       lv_policy := (lv_policy st)\<lparr>confirmation := None, exit_timer := None\<rparr>,
       lv_lastReason := ''manager_close_retain:'' @ reason\<rparr>"
  from assms(2) have ph: "lv_phase st = Phase_recenter" and st': "st' = with_snapshot snap ?next"
    unfolding convertRangeKeeperRecenterToRetainExit_def bind_ok_Inr_iff by simp_all
  have "campaign_wf ?next"
  proof (rule campaign_wfI)
    show "phase_wf ?next" using campaign_wfD(1) [OF assms(1)] ph unfolding phase_wf_def by simp
    show "books_wf ?next" using campaign_wfD(2) [OF assms(1)] ph unfolding books_wf_def by simp
  qed
  then show ?thesis unfolding st' by simp
qed

lemma degrade_wf:
  assumes "campaign_wf st" "degradeRangeKeeperConvertExitToRetain st reason snap = Inr st'"
  shows "campaign_wf st'"
proof -
  let ?next = "st\<lparr>lv_exitMode := Some Exit_retain, lv_haltReason := None, lv_candidate := None,
       lv_swapDone := False, lv_swapConfirmedAt := None, lv_lastReason := take 200 (''convert_degraded_to_retain:'' @ reason)\<rparr>"
  from assms(2) have ph: "lv_phase st = Phase_exit" "lv_activeTokenId st = None" and st': "st' = with_snapshot snap ?next"
    unfolding degradeRangeKeeperConvertExitToRetain_def isRangeKeeperConvertExit_def bind_ok_Inr_iff by simp_all
  have "campaign_wf ?next"
  proof (rule campaign_wfI)
    show "phase_wf ?next" using campaign_wfD(1) [OF assms(1)] ph unfolding phase_wf_def by simp
    show "books_wf ?next" using campaign_wfD(2) [OF assms(1)] ph unfolding books_wf_def by simp
  qed
  then show ?thesis unfolding st' by simp
qed

lemma settle_replan_wf:
  assumes "campaign_wf st" "settleRangeKeeperLiveStageError st snap time e = Inr (Settle_replan reason st')"
  shows "campaign_wf st'"
proof -
  from assms(2) have ph: "lv_phase st = Phase_recenter" "lv_withdrawDone st" "\<not> lv_swapDone st"
    and st': "st' = st\<lparr>lv_candidate := None,
          lv_policy := (lv_policy st)\<lparr>confirmation := None, exit_timer := None\<rparr>, lv_reservedActionCost := 0,
          lv_lastReason := ''stale_recenter_replan'', lv_last := snap\<rparr>"
    unfolding settleRangeKeeperLiveStageError_def
    by (auto simp: bind_ok_Inr_iff split: if_split_asm error_class.split_asm bool.split_asm option.split_asm)
  show ?thesis
  proof (rule campaign_wfI)
    show "phase_wf st'" using campaign_wfD(1) [OF assms(1)] ph unfolding st' phase_wf_def by simp
    show "books_wf st'" using campaign_wfD(2) [OF assms(1)] ph unfolding st' books_wf_def by simp
  qed
qed

lemma settle_exit_converts:
  assumes "settleRangeKeeperLiveStageError st snap time e = Inr (Settle_exit reason st')"
  shows "convertRangeKeeperRecenterToRetainExit st ''repriced_mint_exit'' (Some snap) = Inr st' \<and> lv_swapDone st"
  using assms unfolding settleRangeKeeperLiveStageError_def
  by (auto simp: bind_ok_Inr_iff split: if_split_asm error_class.split_asm bool.split_asm option.split_asm)

lemma settle_convert_degrades:
  assumes "settleRangeKeeperLiveConvertExitError st snap waited e = Inr (Settle_exit reason st')"
  shows "degradeRangeKeeperConvertExitToRetain st (error_text e) (Some snap) = Inr st'"
  using assms unfolding settleRangeKeeperLiveConvertExitError_def by (auto simp: bind_ok_Inr_iff split: if_split_asm)

lemma recover_cases:
  assumes "recoverRangeKeeperRevertedRecenterWithdrawal st reason snap = Inr (Some st')"
  shows "lv_phase st = Phase_halted" "lv_desired st = Running" "lv_activeTokenId st \<noteq> None" "\<not> lv_withdrawDone st"
    "\<not> lv_swapDone st"
    "\<exists>pos. sn_position snap = Some pos \<and> lv_activeTokenId st = Some (wp_tokenId pos) \<and> 0 < wp_liquidity pos"
    "\<exists>next. convertRangeKeeperRecenterToRetainExit (st\<lparr>lv_phase := Phase_recenter\<rparr>) ''recenter_withdraw_reverted'' (Some snap) =
       Inr next \<and> st' = next\<lparr>lv_haltReason := None\<rparr>"
  using assms unfolding recoverRangeKeeperRevertedRecenterWithdrawal_def
  by (auto simp: bind_ok_Inr_iff split: if_split_asm option.split_asm)

lemma recover_wf:
  assumes "campaign_wf st" "recoverRangeKeeperRevertedRecenterWithdrawal st reason snap = Inr (Some st')"
  shows "campaign_wf st'"
proof -
  note r = recover_cases [OF assms(2)]
  from r(7) have st': "st' = st\<lparr>lv_phase := Phase_exit, lv_desired := Stopped, lv_exitMode := Some Exit_retain,
       lv_candidate := None, lv_swapDone := False, lv_swapConfirmedAt := None,
       lv_actionStartCostIndex := length (lv_costEvents st), lv_reservedActionCost := 0,
       lv_policy := (lv_policy st)\<lparr>confirmation := None, exit_timer := None\<rparr>,
       lv_lastReason := ''manager_close_retain:'' @ ''recenter_withdraw_reverted'', lv_last := snap, lv_haltReason := None\<rparr>"
    unfolding convertRangeKeeperRecenterToRetainExit_def bind_ok_Inr_iff by (auto simp: with_snapshot_def)
  show ?thesis
  proof (rule campaign_wfI)
    show "phase_wf st'" using r(3,4) unfolding st' phase_wf_def by simp
    show "books_wf st'" using campaign_wfD(2) [OF assms(1)] r(1) unfolding st' books_wf_def by simp
  qed
qed

lemma replan_cases:
  assumes "cm_state cm = Some st" "deriveRangeKeeperLiveReplanTransition cm inp = Inr st'"
  shows "isRangeKeeperAwaitingReplan st"
    "st' = st\<lparr>lv_last := ri_snapshot inp, lv_policy := ri_policy inp, lv_candidate := Some ((ri_candidate inp)\<lparr>ck_kind := Recenter\<rparr>),
          lv_swapDone := False, lv_swapConfirmedAt := None,
          lv_reservedActionCost := number (lc_actionCostValue (ri_costs inp)),
          lv_lastReason := ''manager_recenter_replan:two_confirmations''\<rparr>"
    "\<exists>budget. rangeKeeperLiveRemainingActionBudget cm = Inr budget \<and> number (lc_actionCostValue (ri_costs inp)) \<le> budget"
  using assms unfolding deriveRangeKeeperLiveReplanTransition_def by (auto simp: Let_def bind_ok_Inr_iff)

lemma replan_wf:
  assumes "campaign_wf st" "cm_state cm = Some st" "deriveRangeKeeperLiveReplanTransition cm inp = Inr st'"
  shows "campaign_wf st'"
proof -
  note r = replan_cases [OF assms(2,3)]
  then have ph: "lv_phase st = Phase_recenter" "lv_withdrawDone st" "lv_activeTokenId st = None"
    by (simp_all add: isRangeKeeperAwaitingReplan_def)
  show ?thesis
  proof (rule campaign_wfI)
    show "phase_wf st'" using campaign_wfD(1) [OF assms(1)] ph unfolding r(2) phase_wf_def by simp
    show "books_wf st'" using campaign_wfD(2) [OF assms(1)] ph unfolding r(2) books_wf_def by simp
  qed
qed

lemma close_cases:
  assumes "deriveRangeKeeperLiveClosedState st source = Inr st'"
  shows "isRangeKeeperManagedExit st" "lv_activeTokenId st = None" "lv_candidate st = None" "sn_block (lv_last st) \<le> ks_block source"
    "\<exists>reason. st' = st\<lparr>lv_phase := Phase_closed, lv_desired := Stopped, lv_closedAt := Some (ks_timestamp source),
       lv_lastReason := reason,
       lv_last := (lv_last st)\<lparr>sn_block := ks_block source, sn_hash := ks_hash source, sn_timestamp := ks_timestamp source\<rparr>\<rparr>"
  using assms unfolding deriveRangeKeeperLiveClosedState_def bind_ok_Inr_iff by auto

lemma close_wf:
  assumes "campaign_wf st" "deriveRangeKeeperLiveClosedState st source = Inr st'"
  shows "campaign_wf st'"
proof -
  note c = close_cases [OF assms(2)]
  then have ph: "lv_phase st = Phase_exit" by (simp add: isRangeKeeperManagedExit_def)
  from c(5) obtain reason where st': "st' = st\<lparr>lv_phase := Phase_closed, lv_desired := Stopped,
       lv_closedAt := Some (ks_timestamp source), lv_lastReason := reason,
       lv_last := (lv_last st)\<lparr>sn_block := ks_block source, sn_hash := ks_hash source, sn_timestamp := ks_timestamp source\<rparr>\<rparr>" by blast
  show ?thesis
  proof (rule campaign_wfI)
    show "phase_wf st'" using campaign_wfD(1) [OF assms(1)] ph c(2) unfolding st' phase_wf_def by simp
    show "books_wf st'" using campaign_wfD(2) [OF assms(1)] ph unfolding st' books_wf_def by simp
  qed
qed

text \<open>Receipts: what booking and each outcome leave of the state.\<close>

lemma book_receipt_wf:
  assumes "campaign_wf st" "0 \<le> re_gasWei r"
  shows "campaign_wf (book_receipt p r st)"
proof (rule campaign_wfI)
  let ?b = "book_receipt p r st"
  show "phase_wf ?b" by (rule phase_wf_cong [OF campaign_wfD(1) [OF assms(1)]]) (simp_all add: book_receipt_def Let_def)
  show "books_wf ?b" using campaign_wfD(2) [OF assms(1)] assms(2) unfolding books_wf_def
    by (simp add: book_receipt_def Let_def)
qed

lemma book_receipt_fields [simp]:
  "lv_phase (book_receipt p r st) = lv_phase st" "lv_activeTokenId (book_receipt p r st) = lv_activeTokenId st"
  "lv_candidate (book_receipt p r st) = lv_candidate st" "lv_swapDone (book_receipt p r st) = lv_swapDone st"
  "lv_exitMode (book_receipt p r st) = lv_exitMode st" "lv_withdrawDone (book_receipt p r st) = lv_withdrawDone st"
  "lv_retiredTokenIds (book_receipt p r st) = lv_retiredTokenIds st" "lv_desired (book_receipt p r st) = lv_desired st"
  "lv_economicActions (book_receipt p r st) = lv_economicActions st" "lv_recenters (book_receipt p r st) = lv_recenters st"
  "lv_collectedFee0 (book_receipt p r st) = lv_collectedFee0 st" "lv_collectedFee1 (book_receipt p r st) = lv_collectedFee1 st"
  by (simp_all add: book_receipt_def Let_def)

lemma plan_allowed_book [simp]: "plan_allowed (book_receipt p r st) plan \<longleftrightarrow> plan_allowed st plan"
  by (cases plan) simp_all

lemma reverted_wf:
  assumes "campaign_wf st" "plan_allowed st (re_plan r)" "apply_reverted r st = Inr st'"
  shows "campaign_wf st'"
proof (cases "re_jobKind r = Job_manage Op_close_convert \<and> is_swap (re_plan r) \<and> isRangeKeeperConvertExit st \<and>
    lv_activeTokenId st = None")
  case True
  then obtain d where d: "degradeRangeKeeperConvertExitToRetain st (take 120 (''swap_reverted:'' @ re_stage r)) (Some (re_after r)) = Inr d"
    and st': "st' = d\<lparr>lv_lastReason := take 200 (''convert_swap_reverted_degraded_to_retain:'' @ re_stage r)\<rparr>"
    using assms(3) unfolding apply_reverted_def bind_ok_Inr_iff if_P [OF True] by auto
  note wf = degrade_wf [OF assms(1) d]
  show ?thesis unfolding st'
    by (rule campaign_wfI; rule phase_wf_cong [OF campaign_wfD(1) [OF wf]] books_wf_cong [OF campaign_wfD(2) [OF wf]]) simp_all
next
  case False
  define reason where "reason = ''transaction_reverted:'' @ re_jobId r @ '':'' @ re_stage r"
  have st': "st' = st\<lparr>lv_phase := Phase_halted, lv_haltReason := Some reason, lv_lastReason := reason\<rparr>"
    using assms(3) unfolding apply_reverted_def if_not_P [OF False] by (simp add: Let_def reason_def)
  have "lv_phase st \<noteq> Phase_closed" using assms(2) by (cases "re_plan r") auto
  then show ?thesis using campaign_wfD(2) [OF assms(1)] unfolding st' campaign_wf_def phase_wf_def books_wf_def by simp
qed

lemma withdrawn_wf:
  assumes "campaign_wf st" "plan_allowed st (Plan_withdraw t l m0 m1 d)" "0 \<le> f0" "0 \<le> f1"
  shows "campaign_wf (st\<lparr>lv_collectedFee0 := lv_collectedFee0 st + f0, lv_collectedFee1 := lv_collectedFee1 st + f1,
     lv_retiredTokenIds := ids, lv_activeTokenId := None, lv_withdrawDone := True, lv_lastReason := reason\<rparr>)"
    (is "campaign_wf ?st")
proof (rule campaign_wfI)
  have ph: "lv_phase st = Phase_exit \<or> lv_phase st = Phase_recenter" using assms(2) by simp
  then show "phase_wf ?st" using campaign_wfD(1) [OF assms(1)] unfolding phase_wf_def by auto
  show "books_wf ?st" using campaign_wfD(2) [OF assms(1)] assms(3,4) unfolding books_wf_def by simp
qed

lemma minted_wf:
  assumes "campaign_wf st" "plan_allowed st (Plan_mint c d)" "apply_minted nfts r st = Inr st'"
  shows "campaign_wf st'"
proof -
  have ph: "lv_phase st = Phase_entry \<or> lv_phase st = Phase_recenter" using assms(2) by simp
  from assms(3) obtain t where st': "st' = st\<lparr>lv_activeTokenId := Some t, lv_economicActions := lv_economicActions st + 1,
          lv_recenters := (if lv_phase st = Phase_recenter then lv_recenters st + 1 else lv_recenters st),
          lv_phase := Phase_holding, lv_candidate := None, lv_swapDone := False, lv_swapConfirmedAt := None,
          lv_withdrawDone := False, lv_reservedActionCost := 0, lv_lastReason := ''mint_confirmed''\<rparr>"
    unfolding apply_minted_def by (auto simp: bind_ok_Inr_iff split: option.split_asm)
  show ?thesis
  proof (rule campaign_wfI)
    show "phase_wf st'" using campaign_wfD(1) [OF assms(1)] ph unfolding st' phase_wf_def by auto
    show "books_wf st'" using campaign_wfD(2) [OF assms(1)] ph unfolding st' books_wf_def by auto
  qed
qed

lemma swapped_wf:
  assumes "campaign_wf st" "plan_allowed st (Plan_swap i am out d)"
  shows "campaign_wf ((if lv_phase st = Phase_entry \<or> lv_phase st = Phase_recenter
    then st\<lparr>lv_swapDone := True, lv_swapConfirmedAt := Some time\<rparr> else st)\<lparr>lv_lastReason := reason\<rparr>)" (is "campaign_wf ?st")
proof (cases "lv_phase st = Phase_entry \<or> lv_phase st = Phase_recenter")
  case True
  with assms(2) have "lv_candidate st \<noteq> None" by auto
  with True show ?thesis using assms(1) unfolding campaign_wf_def phase_wf_def books_wf_def by auto
next
  case False
  then show ?thesis using assms(1) unfolding campaign_wf_def phase_wf_def books_wf_def by simp
qed

lemma confirmed_wf:
  assumes "campaign_wf st" "plan_allowed st (re_plan r)" "apply_confirmed nfts r st = Inr st'"
  shows "campaign_wf st'"
proof (cases "re_plan r")
  case (Plan_approve i k am)
  then have "st' = st\<lparr>lv_lastReason := ''approval_confirmed''\<rparr>" using assms(3) by (simp add: apply_confirmed_def)
  then show ?thesis using assms(1) unfolding campaign_wf_def phase_wf_def books_wf_def by simp
next
  case (Plan_swap i am out d)
  show ?thesis using swapped_wf [OF assms(1)] assms(2,3) unfolding Plan_swap apply_confirmed_def by auto
next
  case (Plan_mint c d)
  show ?thesis using minted_wf [OF assms(1)] assms(2,3) unfolding Plan_mint apply_confirmed_def by auto
next
  case (Plan_withdraw t l m0 m1 d)
  then obtain f0 f1 where "st' = st\<lparr>lv_collectedFee0 := lv_collectedFee0 st + number (Some f0),
      lv_collectedFee1 := lv_collectedFee1 st + number (Some f1), lv_retiredTokenIds := lv_retiredTokenIds st @ [show_int t],
      lv_activeTokenId := None, lv_withdrawDone := True, lv_lastReason := ''withdraw_collected''\<rparr>"
    using assms(3) by (auto simp: apply_confirmed_def bind_ok_Inr_iff split: option.split_asm)
  then show ?thesis using withdrawn_wf [OF assms(1)] assms(2) unfolding Plan_withdraw by (simp add: number_def)
qed

lemma receipt_cases:
  assumes "cm_state cm = Some st" "applyRangeKeeperLiveReceiptEffect cm r = Inr st'"
  defines "b \<equiv> book_receipt (kc_pool (cm_config cm)) r st"
  shows "0 \<le> re_gasWei r" "re_confirmed r \<Longrightarrow> apply_confirmed (ca_nftTokenIds (cm_allocation cm)) r b = Inr st'"
    "\<not> re_confirmed r \<Longrightarrow> apply_reverted r b = Inr st'"
  using assms(2) unfolding applyRangeKeeperLiveReceiptEffect_def assms(1) b_def option.case Let_def bind_ok_Inr_iff
  by simp_all

lemma receipt_wf:
  assumes "campaign_wf st" "cm_state cm = Some st" "plan_allowed st (re_plan r)"
    "applyRangeKeeperLiveReceiptEffect cm r = Inr st'"
  shows "campaign_wf st'"
proof -
  note r = receipt_cases [OF assms(2,4)]
  note b = book_receipt_wf [OF assms(1) r(1), of "kc_pool (cm_config cm)"]
  show ?thesis using r(2,3) confirmed_wf [OF b] reverted_wf [OF b] assms(3) by (cases "re_confirmed r") simp_all
qed

text \<open>Observations change the policy and the snapshot only, marks the clocks and the snapshot.\<close>

lemma observed_wf: "campaign_wf st \<Longrightarrow> campaign_wf (observed_state st d snap)"
  unfolding campaign_wf_def phase_wf_def books_wf_def by (simp add: observed_state_def Let_def)

lemma accrued: "\<exists>a b. accrueRangeKeeperTimeInRange st now maxGap = st\<lparr>activeSeconds := a, outsideSeconds := b\<rparr>"
  using accrual_disjoint(1) [of st now maxGap] by blast

lemma mark_cases:
  assumes "cm_state cm = Some st" "recordRangeKeeperLiveValuationMark cm snap = Inr st'"
  shows "\<exists>a b. st' = st\<lparr>activeSeconds := a, outsideSeconds := b, lv_last := snap, lv_lastMarkTimestamp := sn_timestamp snap\<rparr>"
proof -
  from assms have "st' = (accrueRangeKeeperTimeInRange st (sn_timestamp snap) (maxObservationGapSeconds (kc_limits (cm_config cm))))
          \<lparr>lv_last := snap, lv_lastMarkTimestamp := sn_timestamp snap\<rparr>"
    unfolding recordRangeKeeperLiveValuationMark_def by (simp add: bind_ok_Inr_iff)
  moreover obtain a b where "accrueRangeKeeperTimeInRange st (sn_timestamp snap)
      (maxObservationGapSeconds (kc_limits (cm_config cm))) = st\<lparr>activeSeconds := a, outsideSeconds := b\<rparr>"
    using accrued by blast
  ultimately show ?thesis by (intro exI [of _ a] exI [of _ b]) simp
qed

lemma mark_wf:
  assumes "campaign_wf st" "cm_state cm = Some st" "recordRangeKeeperLiveValuationMark cm snap = Inr st'"
  shows "campaign_wf st'"
proof -
  from mark_cases [OF assms(2,3)] obtain a b where
    st': "st' = st\<lparr>activeSeconds := a, outsideSeconds := b, lv_last := snap, lv_lastMarkTimestamp := sn_timestamp snap\<rparr>" by blast
  show ?thesis using assms(1) unfolding st' campaign_wf_def phase_wf_def books_wf_def by simp
qed

lemma campaign_step_wf:
  assumes "campaign_wf st" "campaign_step config_hash st st'"
  shows "campaign_wf st'"
  using assms(2)
proof cases
  case (step_review cm mp)
  then show ?thesis using review_wf [OF assms(1)] by blast
next
  case (step_receipt cm quote snap p0 p1 policy r)
  then show ?thesis using receipt_wf [OF assms(1)] planned_stage_allowed by blast
next
  case (step_observe inp quote simulate d snap)
  then show ?thesis using observed_wf [OF assms(1)] by simp
next
  case (step_mark cm snap)
  then show ?thesis using mark_wf [OF assms(1)] by blast
next
  case (step_settle_replan snap time e reason)
  then show ?thesis using settle_replan_wf [OF assms(1)] by blast
next
  case (step_settle_exit snap time e reason)
  then show ?thesis using settle_exit_converts retain_exit_wf [OF assms(1)] by blast
next
  case (step_settle_convert snap waited e reason)
  then show ?thesis using settle_convert_degrades degrade_wf [OF assms(1)] by blast
next
  case (step_safety_exit reason snap)
  then show ?thesis using retain_exit_wf [OF assms(1)] by blast
next
  case (step_recover reason snap)
  then show ?thesis using recover_wf [OF assms(1)] by blast
next
  case (step_replan cm inp)
  then show ?thesis using replan_wf [OF assms(1)] by blast
next
  case (step_close source)
  then show ?thesis using close_wf [OF assms(1)] by blast
qed

subsection \<open>What a campaign never loses\<close>

text \<open>
  The record that steps only extend: identity and capital are frozen, receipts, retired positions,
  fees and counters accumulate, a campaign that was told to stop stays stopped and mints nothing
  more, and a closed one does not change.
\<close>

definition campaign_extends :: "RangeKeeperLiveState \<Rightarrow> RangeKeeperLiveState \<Rightarrow> bool" where
  "campaign_extends st st' \<longleftrightarrow>
     lv_id st' = lv_id st \<and> lv_operator st' = lv_operator st \<and> lv_configHash st' = lv_configHash st \<and>
     lv_buildId st' = lv_buildId st \<and> lv_createdAt st' = lv_createdAt st \<and> lv_expiresAt st' = lv_expiresAt st \<and>
     lv_initial0 st' = lv_initial0 st \<and> lv_initial1 st' = lv_initial1 st \<and> lv_initialNativeWei st' = lv_initialNativeWei st \<and>
     lv_initialStrategyValue st' = lv_initialStrategyValue st \<and>
     prefix (lv_costEvents st) (lv_costEvents st') \<and> prefix (lv_retiredTokenIds st) (lv_retiredTokenIds st') \<and>
     lv_gasSpentWei st \<le> lv_gasSpentWei st' \<and> lv_collectedFee0 st \<le> lv_collectedFee0 st' \<and>
     lv_collectedFee1 st \<le> lv_collectedFee1 st' \<and> lv_economicActions st \<le> lv_economicActions st' \<and>
     lv_recenters st \<le> lv_recenters st' \<and>
     (lv_desired st = Stopped \<longrightarrow> lv_desired st' = Stopped \<and> lv_economicActions st' = lv_economicActions st) \<and>
     (lv_phase st = Phase_closed \<longrightarrow> st' = st)"

lemma extends_refl: "campaign_extends st st"
  by (simp add: campaign_extends_def)

lemma extends_trans: "campaign_extends st st' \<Longrightarrow> campaign_extends st' st'' \<Longrightarrow> campaign_extends st st''"
  by (auto simp: campaign_extends_def intro: prefix_order.trans)

lemma retain_exit_extends:
  assumes "convertRangeKeeperRecenterToRetainExit st reason snap = Inr st'"
  shows "campaign_extends st st'" "lv_withdrawDone st' = lv_withdrawDone st" "lv_activeTokenId st' = lv_activeTokenId st"
  using assms unfolding convertRangeKeeperRecenterToRetainExit_def bind_ok_Inr_iff
  by (cases snap; auto simp: with_snapshot_def campaign_extends_def)+

lemma degrade_extends:
  assumes "degradeRangeKeeperConvertExitToRetain st reason snap = Inr st'"
  shows "campaign_extends st st'" "lv_withdrawDone st' = lv_withdrawDone st" "lv_activeTokenId st' = lv_activeTokenId st"
    "lv_phase st = Phase_exit"
  using assms unfolding degradeRangeKeeperConvertExitToRetain_def isRangeKeeperConvertExit_def bind_ok_Inr_iff
  by (cases snap; auto simp: with_snapshot_def campaign_extends_def)+

lemma review_extends:
  assumes "campaign_wf st" "cm_state cm = Some st" "deriveRangeKeeperLiveManagementTransition config_hash cm mp = Inr st'"
  shows "campaign_extends st st'"
proof -
  consider "st' = st" | costs where "review_close cm st mp costs = Inr st'" | costs where "review_recenter cm st mp costs = Inr st'"
    using review_cases [OF assms(2,3)] by blast
  then show ?thesis
  proof cases
    case 1
    then show ?thesis by (simp add: extends_refl)
  next
    case (2 costs)
    then show ?thesis unfolding review_close_def Let_def bind_ok_Inr_iff by (auto simp: campaign_extends_def held_def)
  next
    case (3 costs)
    then have "held st" by (auto simp: review_recenter_def Let_def bind_ok_Inr_iff)
    then have "lv_desired st = Running" using campaign_wfD(1) [OF assms(1)] by (simp add: phase_wf_def held_def)
    with 3 show ?thesis unfolding review_recenter_def Let_def bind_ok_Inr_iff by (auto simp: campaign_extends_def held_def)
  qed
qed

lemma book_receipt_extends: "0 \<le> re_gasWei r \<Longrightarrow> lv_phase st \<noteq> Phase_closed \<Longrightarrow> campaign_extends st (book_receipt p r st)"
  by (simp add: campaign_extends_def book_receipt_def Let_def)

lemma plan_allowed_open: "plan_allowed st plan \<Longrightarrow> lv_phase st \<noteq> Phase_closed"
  by (cases plan) auto

lemma confirmed_extends:
  assumes "campaign_wf st" "plan_allowed st (re_plan r)" "apply_confirmed nfts r st = Inr st'"
  shows "campaign_extends st st'"
proof (cases "re_plan r")
  case (Plan_approve i k am)
  then show ?thesis using assms(3) plan_allowed_open [OF assms(2)] by (auto simp: apply_confirmed_def campaign_extends_def)
next
  case (Plan_swap i am out d)
  then show ?thesis using assms(3) plan_allowed_open [OF assms(2)] by (auto simp: apply_confirmed_def campaign_extends_def)
next
  case (Plan_mint c d)
  with assms(2) have "lv_phase st = Phase_entry \<or> lv_phase st = Phase_recenter" by simp
  then have "lv_desired st = Running" using campaign_wfD(1) [OF assms(1)] by (auto simp: phase_wf_def)
  then show ?thesis using assms(3) plan_allowed_open [OF assms(2)] unfolding Plan_mint
    by (auto simp: apply_confirmed_def apply_minted_def campaign_extends_def bind_ok_Inr_iff Plan_mint split: option.split_asm)
next
  case (Plan_withdraw t l m0 m1 d)
  then show ?thesis using assms(3) plan_allowed_open [OF assms(2)]
    by (auto simp: apply_confirmed_def campaign_extends_def bind_ok_Inr_iff number_def split: option.split_asm)
qed

lemma reverted_extends:
  assumes "plan_allowed st (re_plan r)" "apply_reverted r st = Inr st'"
  shows "campaign_extends st st'"
proof (cases "re_jobKind r = Job_manage Op_close_convert \<and> is_swap (re_plan r) \<and> isRangeKeeperConvertExit st \<and>
    lv_activeTokenId st = None")
  case True
  then obtain d where d: "degradeRangeKeeperConvertExitToRetain st (take 120 (''swap_reverted:'' @ re_stage r)) (Some (re_after r)) = Inr d"
    and st': "st' = d\<lparr>lv_lastReason := take 200 (''convert_swap_reverted_degraded_to_retain:'' @ re_stage r)\<rparr>"
    using assms(2) unfolding apply_reverted_def bind_ok_Inr_iff if_P [OF True] by auto
  show ?thesis using degrade_extends(1,4) [OF d] unfolding st' campaign_extends_def by simp
next
  case False
  then show ?thesis using assms(2) plan_allowed_open [OF assms(1)] unfolding apply_reverted_def if_not_P [OF False]
    by (auto simp: Let_def campaign_extends_def)
qed

lemma receipt_extends:
  assumes "campaign_wf st" "cm_state cm = Some st" "plan_allowed st (re_plan r)"
    "applyRangeKeeperLiveReceiptEffect cm r = Inr st'"
  shows "campaign_extends st st'"
proof -
  let ?b = "book_receipt (kc_pool (cm_config cm)) r st"
  note r = receipt_cases [OF assms(2,4)]
  have "campaign_extends st ?b" by (rule book_receipt_extends [OF r(1) plan_allowed_open [OF assms(3)]])
  moreover have allowed: "plan_allowed ?b (re_plan r)" using assms(3) by simp
  have "campaign_extends ?b st'"
  proof (cases "re_confirmed r")
    case True
    show ?thesis by (rule confirmed_extends [OF book_receipt_wf [OF assms(1) r(1)] allowed r(2) [OF True]])
  next
    case False
    show ?thesis by (rule reverted_extends [OF allowed r(3) [OF False]])
  qed
  ultimately show ?thesis by (rule extends_trans)
qed

lemma campaign_step_extends:
  assumes "campaign_wf st" "campaign_step config_hash st st'"
  shows "campaign_extends st st'"
  using assms(2)
proof cases
  case (step_review cm mp)
  then show ?thesis using review_extends [OF assms(1)] by blast
next
  case (step_receipt cm quote snap p0 p1 policy r)
  then show ?thesis using receipt_extends [OF assms(1)] planned_stage_allowed by blast
next
  case (step_observe inp quote simulate d snap)
  then show ?thesis by (auto simp: observed_state_def Let_def campaign_extends_def)
next
  case (step_mark cm snap)
  from mark_cases [OF step_mark(1,3)] obtain a b where
    st': "st' = st\<lparr>activeSeconds := a, outsideSeconds := b, lv_last := snap, lv_lastMarkTimestamp := sn_timestamp snap\<rparr>" by blast
  show ?thesis using step_mark(2) unfolding st' by (simp add: campaign_extends_def)
next
  case (step_settle_replan snap time e reason)
  then show ?thesis unfolding settleRangeKeeperLiveStageError_def
    by (auto simp: bind_ok_Inr_iff campaign_extends_def
        split: if_split_asm error_class.split_asm bool.split_asm option.split_asm)
next
  case (step_settle_exit snap time e reason)
  then show ?thesis using settle_exit_converts retain_exit_extends(1) by blast
next
  case (step_settle_convert snap waited e reason)
  then show ?thesis using settle_convert_degrades degrade_extends(1) by blast
next
  case (step_safety_exit reason snap)
  then show ?thesis using retain_exit_extends(1) by blast
next
  case (step_recover reason snap)
  note r = recover_cases [OF step_recover]
  from r(7) obtain "next" where n: "convertRangeKeeperRecenterToRetainExit (st\<lparr>lv_phase := Phase_recenter\<rparr>)
      ''recenter_withdraw_reverted'' (Some snap) = Inr next" and st': "st' = next\<lparr>lv_haltReason := None\<rparr>" by blast
  show ?thesis using retain_exit_extends(1) [OF n] r(1,2) unfolding st' campaign_extends_def by simp
next
  case (step_replan cm inp)
  note r = replan_cases [OF step_replan]
  show ?thesis using r(1) unfolding r(2) by (simp add: campaign_extends_def isRangeKeeperAwaitingReplan_def)
next
  case (step_close source)
  note c = close_cases [OF step_close]
  from c(5) obtain reason where st': "st' = st\<lparr>lv_phase := Phase_closed, lv_desired := Stopped,
       lv_closedAt := Some (ks_timestamp source), lv_lastReason := reason,
       lv_last := (lv_last st)\<lparr>sn_block := ks_block source, sn_hash := ks_hash source, sn_timestamp := ks_timestamp source\<rparr>\<rparr>" by blast
  show ?thesis using c(1) unfolding st' by (simp add: campaign_extends_def isRangeKeeperManagedExit_def)
qed

interpretation campaign: recording_machine "campaign_opened config_hash" "campaign_step config_hash" campaign_wf campaign_extends
  for config_hash
  by unfold_locales (auto intro: opened_wf campaign_step_wf campaign_step_extends extends_refl extends_trans)

inductive_cases campaign_stepE: "campaign_step config_hash st st'"

text \<open>
  C7: the shape of every reachable campaign.  A held campaign has its NFT and no open action; a
  recenter runs, and it has withdrawn exactly when it has no NFT; an exit is stopped, knows its
  mode and has withdrawn exactly when it has no NFT; a closed campaign has no NFT and its closing
  time; only a halted one has a reason to halt.  The gas of the campaign is the gas of its
  receipts, and its counters stay in order.
\<close>

theorem campaign_keeps_shape:
  assumes "reachable (campaign_opened config_hash) (campaign_step config_hash) st"
  shows "phase_wf st \<and> books_wf st"
  using campaign.reachable_inv [OF assms] by (simp add: campaign_wf_def)

text \<open>
  C40: a campaign only ever adds to its record.  From a reachable state on, whatever happens,
  identity and opening capital stay, receipts, retired NFTs, gas, fees and action counts only
  grow; once the campaign is stopped it stays stopped and opens no further position, and once it
  is closed it never changes again.
\<close>

theorem campaign_record_grows:
  assumes "reachable (campaign_opened config_hash) (campaign_step config_hash) st" "(campaign_step config_hash)\<^sup>*\<^sup>* st st'"
  shows "campaign_extends st st'"
  by (rule campaign.reachable_extends [OF assms])


subsection \<open>A sample campaign\<close>

text \<open>A campaign that opened with a mint of half a million of both tokens, before its first approval.\<close>

definition sample_digest :: string where
  "sample_digest = replicate 64 (CHR ''a'')"

definition sample_config_hash :: "RangeKeeperConfig \<Rightarrow> string" where
  "sample_config_hash cf = ''0x'' @ sample_digest"

definition sample_entry_snapshot :: RangeKeeperSnapshot where
  "sample_entry_snapshot = sample_snapshot\<lparr>sn_position := None, sn_nftCount := 0,
     sn_funds := \<lparr>fd_amount0 = 600000, fd_amount1 = 600000, fd_nativeWei = 1000\<rparr>,
     sn_allowances := [\<lparr>al_token = ''0x0'', al_spender = ''0x2'', al_amount = 0\<rparr>]\<rparr>"

definition sample_allocation :: RangeKeeperLiveCampaignAllocation where
  "sample_allocation = \<lparr>ca_allocationId = ''a'', ca_campaignId = ''c'', ca_revision = 1, ca_wallet = ''0xa'',
     ca_liquidByTokenAddress = [(''0x0'', 600000), (''0x1'', 600000)], ca_nativeSpendWei = 700, ca_pendingNativeSpendWei = 0,
     ca_exitReserveWei = 300, ca_nftTokenIds = [''7''], ca_allocationHash = sample_digest, ca_sourceGeneration = 1,
     ca_sourceHash = ''0xb''\<rparr>"

definition sample_review :: setup_review where
  "sample_review = \<lparr>sr_candidate = Some (sample_candidate Entry 9 100), sr_buildId = sample_digest, sr_allocationValue = 1200000,
     sr_price0 = Some ''1000000'', sr_price1 = Some ''1000000'', sr_nativePrice = Some ''1000000''\<rparr>"

definition sample_campaign :: "RangeKeeperLiveState option \<Rightarrow> RangeKeeperLiveCampaign" where
  "sample_campaign st = \<lparr>cm_id = ''c'', cm_wallet = ''0xa'', cm_revision = 1, cm_profileId = ''p'', cm_profileHash = sample_digest,
     cm_config = sample_stage_config, cm_configHash = ''0x'' @ sample_digest, cm_strategyId = ''rangekeeper_v1'',
     cm_strategyVersion = ''1.0.0'', cm_stateSchemaVersion = 1, cm_allocation = sample_allocation,
     cm_reviewPayload = sample_review, cm_state = st, cm_stateHash = None, cm_stateRevision = 0,
     cm_status = Campaign_opening\<rparr>"

lemma sample_entry:
  "\<exists>st. buildRangeKeeperLiveEntryState sample_config_hash (sample_campaign None) sample_entry_snapshot = Inr st \<and>
     lv_phase st = Phase_entry \<and> lv_candidate st = Some (sample_candidate Entry 9 100) \<and> lv_last st = sample_entry_snapshot \<and>
     lv_reserve0 st = 0 \<and> lv_reserve1 st = 0 \<and> lv_reserveNativeWei st = 0 \<and> lv_costEvents st = [] \<and> \<not> lv_swapDone st \<and>
     lv_initial0 st = 600000 \<and> lv_initial1 st = 600000 \<and> lv_desired st = Running \<and> lv_exitMode st = None \<and> lv_configHash st = ''0x'' @ sample_digest \<and>
     lv_buildId st = sample_digest \<and> lv_policy st = \<lparr>st_configHash = ''0x'' @ sample_digest, st_buildId = sample_digest,
       lastEligible = None, exit_timer = None, confirmation = None\<rparr>"
proof -
  have l: "map_of (ca_liquidByTokenAddress sample_allocation) (lower ''0x0'') = Some 600000"
    "map_of (ca_liquidByTokenAddress sample_allocation) (lower ''0x1'') = Some 600000"
    by (simp_all add: sample_allocation_def lower_def lower_char_def)
  have p: "kq_token0 (kc_pool sample_stage_config) = ''0x0''" "kq_token1 (kc_pool sample_stage_config) = ''0x1''"
    by (simp_all add: sample_stage_config_def sample_pool_profile_def)
  show ?thesis
    by (simp add: buildRangeKeeperLiveEntryState_def initialRangeKeeperState_def sample_campaign_def sample_review_def Let_def l p
        sample_candidate_def safe_integer_def sample_config_hash_def sample_digest_def)
qed

lemma sample_reachable:
  "buildRangeKeeperLiveEntryState sample_config_hash (sample_campaign None) sample_entry_snapshot = Inr st \<Longrightarrow>
     reachable (campaign_opened sample_config_hash) (campaign_step sample_config_hash) st"
  unfolding reachable_def campaign_opened_def by blast

theorem campaign_keeps_shape_witness:
  "\<exists>st. reachable (campaign_opened sample_config_hash) (campaign_step sample_config_hash) st \<and> lv_phase st = Phase_entry \<and> phase_wf st"
proof -
  obtain st where st: "buildRangeKeeperLiveEntryState sample_config_hash (sample_campaign None) sample_entry_snapshot = Inr st"
    "lv_phase st = Phase_entry" using sample_entry by blast
  from campaign_keeps_shape [OF sample_reachable [OF st(1)]] sample_reachable [OF st(1)] st(2) show ?thesis by blast
qed

theorem campaign_record_grows_witness:
  "\<exists>st st'. campaign_step sample_config_hash st st' \<and> lv_lastMarkTimestamp st' = 110 \<and> campaign_extends st st'"
proof -
  obtain st where st: "buildRangeKeeperLiveEntryState sample_config_hash (sample_campaign None) sample_entry_snapshot = Inr st"
    "lv_phase st = Phase_entry" "lv_last st = sample_entry_snapshot" using sample_entry by blast
  let ?snap = "sample_entry_snapshot\<lparr>sn_block := 10, sn_timestamp := 110\<rparr>"
  obtain st' where mark: "recordRangeKeeperLiveValuationMark (sample_campaign (Some st)) ?snap = Inr st'"
    and t: "lv_lastMarkTimestamp st' = 110"
    using st(3) by (simp add: recordRangeKeeperLiveValuationMark_def sample_campaign_def sample_entry_snapshot_def
        sample_snapshot_def same_def)
  have step: "campaign_step sample_config_hash st st'"
    by (rule campaign_step.step_mark [OF _ _ mark]) (simp_all add: sample_campaign_def st(2))
  from campaign_record_grows [OF sample_reachable [OF st(1)] r_into_rtranclp [of "campaign_step sample_config_hash", OF step]] step t
  show ?thesis by blast
qed

lemma sample_entry_plan:
  assumes "lv_phase st = Phase_entry" "lv_candidate st = Some (sample_candidate Entry 9 100)" "lv_reserve0 st = 0"
    "lv_reserve1 st = 0" "lv_reserveNativeWei st = 0"
    and funds: "funds = \<lparr>fd_amount0 = 600000, fd_amount1 = 600000, fd_nativeWei = native\<rparr>" and native: "0 \<le> native"
  shows "nextRangeKeeperStage quote st (sample_entry_snapshot\<lparr>sn_funds := funds\<rparr>) sample_stage_config 1000000 1000000
      (Some \<lparr>ap_exposure = (600000, 600000), ap_retain = retain\<rparr>) = Inr (Some (Plan_approve Token0 Position_manager 3000000))"
    "nextRangeKeeperStage quote st (sample_entry_snapshot\<lparr>sn_funds := funds\<rparr>) sample_stage_config 1000000 1000000 None =
      Inr (Some (Plan_approve Token0 Position_manager 600000))"
proof -
  let ?c = "sample_candidate Entry 9 100" and ?s = "sample_entry_snapshot\<lparr>sn_funds := funds\<rparr>"
  let ?policy = "Some \<lparr>ap_exposure = (600000, 600000), ap_retain = retain\<rparr> :: RangeKeeperAllowancePolicy option"
  have s: "sn_funds ?s = funds" "sn_position ?s = None" "sn_tick ?s = 0" "sn_sqrtPriceX96 ?s = 2 ^ 96" "sn_timestamp ?s = 100"
    by (simp_all add: sample_entry_snapshot_def sample_snapshot_def)
  have c: "ck_swap ?c = None" "ck_range ?c = sample_range" "amount0Desired ?c = 500000" "amount1Desired ?c = 500000"
    by (simp_all add: sample_candidate_def)
  have cf: "kq_decimals0 (kc_pool sample_stage_config) = 6" "kq_decimals1 (kc_pool sample_stage_config) = 6"
    "maxDeploymentValue (kc_limits sample_stage_config) = 1000000" "minDeploymentPpm (kc_limits sample_stage_config) = 500000"
    by (simp_all add: sample_stage_config_def sample_pool_profile_def sample_limits_def)
  have size: "sizeRangeKeeperMint (2 ^ 96) sample_range 500000 500000 1000000 1000000 6 6 1000000 =
      Inr \<lparr>desired0 = 500000, desired1 = 500000, sized_mint = \<lparr>mint_liquidity = 166925124, mint_amount0 = 500000,
        mint_amount1 = 500000, idle0 = 0, idle1 = 0\<rparr>, deployed = 1000000\<rparr>"
    unfolding sizeRangeKeeperMint_def by (simp only: sample_mint bind_ok_simps)
      (simp add: mintValue_def rawValue_def sdiv_nonneg)
  have pair: "pair_allowance (kc_pool sample_stage_config) ?s Token0 Position_manager = Inr 0"
    by (simp add: pair_allowance_def sample_entry_snapshot_def sample_stage_config_def sample_pool_profile_def pool_token_def
        spender_address_def same_def)
  have grant: "stage_grant (kc_pool sample_stage_config) ?s funds None Token0 Position_manager 500000 None =
      Inr (Some (Plan_approve Token0 Position_manager 600000))"
    "stage_grant (kc_pool sample_stage_config) ?s funds ?policy Token0 Position_manager 500000 None =
      Inr (Some (Plan_approve Token0 Position_manager 3000000))"
    unfolding stage_grant_def pair Let_def
    by (simp_all add: side_funds_def assertion_def funds persistentAllowanceGrant_def allowanceCeiling_def CAP_MULTIPLE_def MAX_UINT256_def)
  have mint: "mint_stage ?s sample_stage_config 1000000 1000000 policy funds ?c = Inr (Some (Plan_approve Token0 Position_manager am))"
    if "stage_grant (kc_pool sample_stage_config) ?s funds policy Token0 Position_manager 500000 None =
      Inr (Some (Plan_approve Token0 Position_manager am))" for policy am
    unfolding mint_stage_def Let_def c s cf deployment_floor_def
    by (simp add: sample_range_def [THEN arg_cong, of range_tickLower] sample_range_def [THEN arg_cong, of range_tickUpper]
        sample_price_inside [simplified] size [simplified] that [unfolded funds] or_else_def sdiv_nonneg funds)
  have balances: "strategyBalances (sn_funds ?s) 0 0 0 = Inr funds"
    unfolding s using native by (simp add: strategyBalances_def funds)
  have "nextRangeKeeperStage quote st ?s sample_stage_config 1000000 1000000 policy = mint_stage ?s sample_stage_config 1000000 1000000 policy funds ?c" for policy
    by (simp add: nextRangeKeeperStage_def balances [unfolded s] s assms(1-5) action_stage_def liquid_position_def c)
  then show "nextRangeKeeperStage quote st ?s sample_stage_config 1000000 1000000 ?policy = Inr (Some (Plan_approve Token0 Position_manager 3000000))"
    "nextRangeKeeperStage quote st ?s sample_stage_config 1000000 1000000 None = Inr (Some (Plan_approve Token0 Position_manager 600000))"
    using mint [OF grant(1)] mint [OF grant(2)] by simp_all
qed


end
