(* ===== verification/Campaign_Request.thy ===== *)
theory Campaign_Request
  imports Campaign_Machine
begin

section \<open>RangeKeeper: requests to prove and sign a stage\<close>

text \<open>
  The stage requests of \<open>src/deployments/rangekeeper-live-campaign.ts\<close> and the checks and the costs
  of \<open>rangekeeper-live-stage-proof.ts\<close>: what a campaign asks to be simulated on an owned fork, what
  the proof refuses, what it costs, and the budgets a signed stage must fit.  The canonical chain,
  the independent references and the hashes are parameters; the simulation itself is not modelled.
\<close>

subsection \<open>The campaign's part of the wallet\<close>

definition lesser :: "int \<Rightarrow> int \<Rightarrow> int" where
  "lesser a b = (if a < b then a else b)"

definition campaign_liquid :: "RangeKeeperLiveCampaign \<Rightarrow> token_side \<Rightarrow> int option" where
  "campaign_liquid cm i = map_of (ca_liquidByTokenAddress (cm_allocation cm)) (lower (pool_token (kc_pool (cm_config cm)) i))"

definition deriveRangeKeeperCampaignStageSnapshot ::
  "RangeKeeperLiveCampaign \<Rightarrow> RangeKeeperSnapshot \<Rightarrow> RangeKeeperSnapshot res" where
  "deriveRangeKeeperCampaignStageSnapshot cm s = (let al = cm_allocation cm in
     case (campaign_liquid cm Token0, campaign_liquid cm Token1) of
       (Some a0, Some a1) \<Rightarrow>
         bind_ok (ensure (a0 \<ge> 0 \<and> a1 \<ge> 0) ''Campaign liquid allocation is incomplete'') (\<lambda>_.
         bind_ok (ensure (ca_nativeSpendWei al \<ge> 0 \<and> ca_exitReserveWei al \<ge> 0) ''Campaign native allocation is invalid'') (\<lambda>_.
         bind_ok (ensure (optional (\<lambda>st. lv_reserve0 st = 0 \<and> lv_reserve1 st = 0 \<and> lv_reserveNativeWei st = 0) (cm_state cm))
           ''Shared-wallet campaign strategy reserves must be zero; wallet allocation already isolates its spend'') (\<lambda>_.
         bind_ok (ensure (optional (\<lambda>p. show_int (wp_tokenId p) \<in> set (ca_nftTokenIds al)) (sn_position s))
           ''Pool snapshot position is not owned by this campaign'') (\<lambda>_.
         Inr (s\<lparr>sn_funds := \<lparr>fd_amount0 = lesser (fd_amount0 (sn_funds s)) a0, fd_amount1 = lesser (fd_amount1 (sn_funds s)) a1,
           fd_nativeWei = lesser (fd_nativeWei (sn_funds s)) (ca_nativeSpendWei al)\<rparr>\<rparr>)))))
     | _ \<Rightarrow> Inl ''Campaign liquid allocation is incomplete'')"

definition review_prices :: "setup_review \<Rightarrow> (int \<times> int) option" where
  "review_prices r = (if positive_decimal (sr_price0 r) \<and> positive_decimal (sr_price1 r)
     then Some (number (sr_price0 r), number (sr_price1 r)) else None)"

definition rangeKeeperCampaignAllowancePolicy ::
  "RangeKeeperLiveCampaign \<Rightarrow> string list \<Rightarrow> RangeKeeperAllowancePolicy res" where
  "rangeKeeperCampaignAllowancePolicy cm retain =
     (let p = kc_pool (cm_config cm);
          raw = (\<lambda>i. case campaign_liquid cm i of None \<Rightarrow> 0 | Some a \<Rightarrow> a);
          initial = (case cm_state cm of None \<Rightarrow> (raw Token0, raw Token1) | Some st \<Rightarrow> (lv_initial0 st, lv_initial1 st)) in
      bind_ok (rangeKeeperAllowanceExposure initial (maxDeploymentValue (kc_limits (cm_config cm)))
        (kq_decimals0 p, kq_decimals1 p) (review_prices (cm_reviewPayload cm))) (\<lambda>exposure.
      Inr \<lparr>ap_exposure = exposure, ap_retain = Some retain\<rparr>))"

definition futureApprovalCap ::
  "RangeKeeperLiveCampaign \<Rightarrow> RangeKeeperSnapshot \<Rightarrow> RangeKeeperTxPlan \<Rightarrow> int \<Rightarrow> int \<Rightarrow> int res" where
  "futureApprovalCap cm s plan p0 p1 = (case (cm_state cm, plan) of
      (Some st, Plan_approve token Position_manager am) \<Rightarrow>
        (case lv_candidate st of
           None \<Rightarrow> Inr 0
         | Some c \<Rightarrow> (case ck_swap c of
             None \<Rightarrow> Inr 0
           | Some sw \<Rightarrow>
               if token \<noteq> other_side (sw_token sw) then Inr 0
               else bind_ok (strategyBalances (sn_funds s) (lv_reserve0 st) (lv_reserve1 st) (lv_reserveNativeWei st)) (\<lambda>funds.
                 bind_ok (div_big (maxDeploymentValue (kc_limits (cm_config cm)) *
                     10 ^ pool_decimals (kc_pool (cm_config cm)) token) (if token = Token0 then p0 else p1)) (\<lambda>cap.
                 let balance = side_funds funds token; future = (if balance > cap then balance else cap) in
                 Inr (if future > balance then future - balance else 0)))))
    | _ \<Rightarrow> Inr 0)"

subsection \<open>Requests\<close>

record RangeKeeperLiveStageProofRequest =
  rq_campaignId :: string
  rq_allocationId :: string
  rq_revision :: int
  rq_stage :: string
  rq_buildId :: string
  rq_profileHash :: string
  rq_config :: RangeKeeperConfig
  rq_source :: keeper_source
  rq_plan :: RangeKeeperTxPlan
  rq_beforePool :: RangeKeeperSnapshot
  rq_allocation :: RangeKeeperLiveCampaignAllocation
  rq_price0 :: int
  rq_price1 :: int
  rq_nativePrice :: int
  rq_referenceProofHash :: string
  rq_futureApprovalCap :: int
  rq_allowanceCeiling :: "int \<times> int"
  rq_exitSpendAllowed :: bool
  rq_exitConvert :: bool

definition stage_char :: "char \<Rightarrow> bool" where
  "stage_char c \<longleftrightarrow> is_digit c \<or> CHR ''A'' \<le> c \<and> c \<le> CHR ''Z'' \<or> CHR ''a'' \<le> c \<and> c \<le> CHR ''z'' \<or>
     c = CHR ''.'' \<or> c = CHR ''_'' \<or> c = CHR '':'' \<or> c = CHR ''-''"

definition request_liquid :: "RangeKeeperLiveStageProofRequest \<Rightarrow> token_side \<Rightarrow> int option" where
  "request_liquid r i = map_of (ca_liquidByTokenAddress (rq_allocation r)) (lower (pool_token (kc_pool (rq_config r)) i))"

text \<open>\<open>assertRequest\<close>: identity and allocation, what an exit may do with its reserve, and the semantic authorization.\<close>

definition request_identity :: "RangeKeeperLiveStageProofRequest \<Rightarrow> unit res" where
  "request_identity r = (let before = rq_beforePool r in
     bind_ok (assertion (case kc_operator (rq_config r) of None \<Rightarrow> False | Some op \<Rightarrow> op \<noteq> [] \<and> same op (sn_operator before))) (\<lambda>_.
     bind_ok (ensure (\<not> kc_broadcastEnabled (rq_config r) \<and> kc_signer (rq_config r) = None)
       ''Stage proof cannot contain a signing configuration'') (\<lambda>_.
     bind_ok (assertion (rq_campaignId r = ca_campaignId (rq_allocation r) \<and> safe_integer (rq_revision r) \<and> rq_revision r > 0)) (\<lambda>_.
     bind_ok (assertion (rq_stage r \<noteq> [] \<and> length (rq_stage r) \<le> 64 \<and> list_all stage_char (rq_stage r))) (\<lambda>_.
     bind_ok (assertion (list_all digest_text
       [rq_buildId r, rq_profileHash r, ca_allocationHash (rq_allocation r), rq_referenceProofHash r])) (\<lambda>_.
     bind_ok (ensure (sameLiveSource (rq_source r) (sn_source before)) ''Stage before image source differs'') (\<lambda>_.
     bind_ok (assertion (rq_price0 r > 0 \<and> rq_price1 r > 0 \<and> rq_nativePrice r > 0)) (\<lambda>_.
     ensure (case (request_liquid r Token0, request_liquid r Token1) of
         (Some a0, Some a1) \<Rightarrow> a0 \<ge> 0 \<and> a1 \<ge> 0 \<and> a0 \<le> fd_amount0 (sn_funds before) \<and> a1 \<le> fd_amount1 (sn_funds before)
       | _ \<Rightarrow> False) ''Stage allocation exceeds canonical wallet tokens''))))))))"

definition exit_permits :: "RangeKeeperLiveStageProofRequest \<Rightarrow> bool" where
  "exit_permits r \<longleftrightarrow> (let risky = risky_side (rq_config r) in case rq_plan r of
      Plan_withdraw _ _ _ _ _ \<Rightarrow> True
    | Plan_approve token spender am \<Rightarrow> am = 0 \<or> rq_exitConvert r \<and> spender = Router \<and> token = risky
    | Plan_swap token _ _ _ \<Rightarrow> rq_exitConvert r \<and> token = risky
    | Plan_mint _ _ \<Rightarrow> False)"

definition request_exit :: "RangeKeeperLiveStageProofRequest \<Rightarrow> unit res" where
  "request_exit r =
     bind_ok (ensure (\<not> rq_exitConvert r \<or> rq_exitSpendAllowed r) ''Convert permission requires an exit stage'') (\<lambda>_.
     ensure (rq_exitSpendAllowed r \<longrightarrow> exit_permits r)
       ''Exit reserve is available only to withdraw/allowance-cleanup stages and the convert exit risky-leg sale'')"

definition request_native :: "RangeKeeperLiveStageProofRequest \<Rightarrow> unit res" where
  "request_native r = (let al = rq_allocation r in
     ensure (ca_nativeSpendWei al \<ge> 0 \<and> ca_exitReserveWei al \<ge> 0 \<and>
       ca_nativeSpendWei al + ca_exitReserveWei al \<le> fd_nativeWei (sn_funds (rq_beforePool r)))
       ''Stage allocation exceeds canonical native'')"

definition request_wallet :: "RangeKeeperLiveStageProofRequest \<Rightarrow> RangeKeeperWallet" where
  "request_wallet r = (let before = rq_beforePool r in
     \<lparr>rw_operator = sn_operator before, rw_wallet0 = the (request_liquid r Token0), rw_wallet1 = the (request_liquid r Token1),
      rw_tick = sn_tick before, rw_sqrtPriceX96 = sn_sqrtPriceX96 before, rw_timestamp = ks_timestamp (rq_source r),
      rw_position = sn_position before\<rparr>)"

definition request_authorized :: "RangeKeeperLiveStageProofRequest \<Rightarrow> unit res" where
  "request_authorized r = authorizeRangeKeeperTx (kc_pool (rq_config r)) (request_wallet r) (rq_plan r)
     (maxSlippageBps (kc_limits (rq_config r))) (fullWidthSpacings (kc_limits (rq_config r))) (rq_futureApprovalCap r)
     (Some (rq_allowanceCeiling r))"

definition assertRequest :: "RangeKeeperLiveStageProofRequest \<Rightarrow> unit res" where
  "assertRequest r = bind_ok (request_identity r) (\<lambda>_. bind_ok (request_exit r) (\<lambda>_.
     bind_ok (request_native r) (\<lambda>_. request_authorized r)))"

text \<open>
  \<open>prepareRangeKeeperLiveStageAuthorization\<close>: a stage is rebuilt from the persisted state and the
  snapshot before it is requested.  The hash of the registered profile, the stage identity of a plan
  (a hash) and the verdict of chain and references are parameters.
\<close>

record stage_input =
  si_snapshot :: RangeKeeperSnapshot
  si_source :: keeper_source
  si_reference_source :: keeper_source
  si_price0 :: int
  si_price1 :: int
  si_nativePrice :: int
  si_referenceProofHash :: string
  si_profileContentHash :: string
  si_verified :: bool
  si_wallet_operator :: string
  si_wallet_source :: keeper_source
  si_wallet_nonce :: int
  si_wallet_pendingNonce :: int
  si_wallet_nativeWei :: int
  si_wallet_tokens :: "(string \<times> int) list"
  si_stage :: string
  si_proposedPlan :: RangeKeeperTxPlan
  si_exitSpendAllowed :: bool
  si_stageRetry :: int
  si_allowancePolicy :: "RangeKeeperAllowancePolicy option"
  si_buildId :: "string option"

definition deriveRangeKeeperStage :: "(RangeKeeperTxPlan \<Rightarrow> int \<Rightarrow> string) \<Rightarrow> RangeKeeperTxPlan \<Rightarrow> int \<Rightarrow> int \<Rightarrow> string res" where
  "deriveRangeKeeperStage plan_hash plan stateRevision retry =
     bind_ok (ensure (safe_integer stateRevision \<and> stateRevision \<ge> 0) ''Invalid campaign state revision for stage identity'') (\<lambda>_.
     bind_ok (ensure (safe_integer retry \<and> retry \<ge> 0 \<and> retry \<le> 9999) ''Invalid stage retry counter'') (\<lambda>_.
     Inr (plan_kind_text plan @ '':'' @ take 32 (plan_hash plan stateRevision) @ (if retry > 0 then '':r'' @ show_int retry else []))))"

definition stage_input_checks :: "(RangeKeeperConfig \<Rightarrow> string) \<Rightarrow> RangeKeeperLiveCampaign \<Rightarrow> stage_input \<Rightarrow> unit res" where
  "stage_input_checks config_hash cm inp = (let s = si_snapshot inp; p = kc_pool (cm_config cm) in
     bind_ok (ensure (si_profileContentHash inp = cm_profileHash cm) ''Registered profile hash changed'') (\<lambda>_.
     bind_ok (assertRangeKeeperLiveCampaignBuildCompatible config_hash cm) (\<lambda>_.
     bind_ok (ensure (case kc_operator (cm_config cm) of None \<Rightarrow> False | Some op \<Rightarrow> op \<noteq> [] \<and> same op (cm_wallet cm))
       ''Frozen kernel operator differs from allocated wallet'') (\<lambda>_.
     bind_ok (ensure (sameLiveSource (si_source inp) (sn_source s)) ''Stage source differs from strategy snapshot'') (\<lambda>_.
     bind_ok (ensure (sameLiveSource (si_reference_source inp) (si_source inp) \<and> si_price0 inp > 0 \<and> si_price1 inp > 0 \<and>
         si_nativePrice inp > 0 \<and> length (si_referenceProofHash inp) = 64)
       ''Reference evidence is not bound to this stage source'') (\<lambda>_.
     bind_ok (ensure (si_verified inp) ''Canonical pool/profile verification or independent reference proof missing'') (\<lambda>_.
     bind_ok (ensure (same (si_wallet_operator inp) (cm_wallet cm) \<and> same (sn_operator s) (cm_wallet cm))
       ''Stage wallet/operator differs from campaign'') (\<lambda>_.
     bind_ok (ensure (si_wallet_nonce inp = si_wallet_pendingNonce inp \<and> si_wallet_nonce inp = sn_nonce s)
       ''Wallet canonical/pending nonce or pool snapshot mismatch'') (\<lambda>_.
     bind_ok (ensure (sameLiveSource (si_wallet_source inp) (si_source inp)) ''Whole-wallet before image differs from stage source'') (\<lambda>_.
     ensure (si_wallet_nativeWei inp = fd_nativeWei (sn_funds s) \<and>
         map_of (si_wallet_tokens inp) (lower (kq_token0 p)) = Some (fd_amount0 (sn_funds s)) \<and>
         map_of (si_wallet_tokens inp) (lower (kq_token1 p)) = Some (fd_amount1 (sn_funds s)))
       ''Whole-wallet liquid inventory differs from strategy snapshot''))))))))))"

definition prepareRangeKeeperLiveStageAuthorization ::
  "(RangeKeeperConfig \<Rightarrow> string) \<Rightarrow> (RangeKeeperTxPlan \<Rightarrow> int \<Rightarrow> string) \<Rightarrow> (token_side \<Rightarrow> int \<Rightarrow> SwapQuote res) \<Rightarrow>
   RangeKeeperLiveCampaign \<Rightarrow> stage_input \<Rightarrow> RangeKeeperLiveStageProofRequest res"
where
  "prepareRangeKeeperLiveStageAuthorization config_hash plan_hash quote cm inp = (case cm_state cm of
      None \<Rightarrow> Inl ''Campaign runtime state is not initialized''
    | Some st \<Rightarrow>
        bind_ok (stage_input_checks config_hash cm inp) (\<lambda>_.
        bind_ok (deriveRangeKeeperCampaignStageSnapshot cm (si_snapshot inp)) (\<lambda>s.
        let managedExit = isRangeKeeperManagedExit st in
        bind_ok (ensure (\<not> si_exitSpendAllowed inp \<or> managedExit)
          ''Exit reserve is spendable only for a retained or convert close'') (\<lambda>_.
        let exitSpendAllowed = (si_exitSpendAllowed inp \<and> managedExit);
            exitConvert = (exitSpendAllowed \<and> isRangeKeeperConvertExit st) in
        bind_ok (case si_allowancePolicy inp of Some ap \<Rightarrow> Inr ap | None \<Rightarrow> rangeKeeperCampaignAllowancePolicy cm []) (\<lambda>ap.
        bind_ok (nextRangeKeeperStage quote st s (cm_config cm) (si_price0 inp) (si_price1 inp) (Some ap)) (\<lambda>planned.
        case planned of
          None \<Rightarrow> Inl ''No RangeKeeper stage is currently authorized''
        | Some plan \<Rightarrow>
            bind_ok (deriveRangeKeeperStage plan_hash plan (cm_stateRevision cm) (si_stageRetry inp)) (\<lambda>stage.
            bind_ok (ensure (si_stage inp = stage) ''Caller stage differs from derived strategy stage'') (\<lambda>_.
            bind_ok (ensure (plan = si_proposedPlan inp) ''Caller plan differs from persisted strategy state'') (\<lambda>_.
            bind_ok (futureApprovalCap cm s plan (si_price0 inp) (si_price1 inp)) (\<lambda>cap.
            Inr \<lparr>rq_campaignId = cm_id cm, rq_allocationId = ca_allocationId (cm_allocation cm), rq_revision = cm_revision cm,
              rq_stage = stage, rq_buildId = (case si_buildId inp of Some b \<Rightarrow> b | None \<Rightarrow> sr_buildId (cm_reviewPayload cm)),
              rq_profileHash = cm_profileHash cm, rq_config = cm_config cm, rq_source = si_source inp, rq_plan = plan,
              rq_beforePool = si_snapshot inp, rq_allocation = cm_allocation cm, rq_price0 = si_price0 inp,
              rq_price1 = si_price1 inp, rq_nativePrice = si_nativePrice inp, rq_referenceProofHash = si_referenceProofHash inp,
              rq_futureApprovalCap = cap,
              rq_allowanceCeiling = (allowanceCeiling (fst (ap_exposure ap)), allowanceCeiling (snd (ap_exposure ap))),
              rq_exitSpendAllowed = exitSpendAllowed, rq_exitConvert = exitConvert\<rparr>))))))))))"

subsection \<open>What a stage costs\<close>

definition ceil_div :: "int \<Rightarrow> int \<Rightarrow> int" where
  "ceil_div a b = (a + b - 1) sdiv b"

definition greater :: "int \<Rightarrow> int \<Rightarrow> int" where
  "greater a b = (if a > b then a else b)"

record stage_measurement =
  sm_gasUsed :: int
  sm_estimatedGas :: int
  sm_baseFeePerGasWei :: int
  sm_marketGasPriceWei :: int
  sm_forkReceiptHash :: string
  sm_now :: int

record RangeKeeperLiveStageEvidence =
  se_gasUnitsBound :: int
  se_maxFeePerGasWei :: int
  se_stageGasWei :: int
  se_costValue :: int
  se_exitSpendAllowed :: bool
  se_exitConvert :: bool
  se_expiresAt :: int

definition stage_gas_limit :: "RangeKeeperLiveStageProofRequest \<Rightarrow> int" where
  "stage_gas_limit r = ca_nativeSpendWei (rq_allocation r) +
     (if rq_exitSpendAllowed r then ca_exitReserveWei (rq_allocation r) else 0)"

definition request_price :: "RangeKeeperLiveStageProofRequest \<Rightarrow> token_side \<Rightarrow> int" where
  "request_price r i = (if i = Token0 then rq_price0 r else rq_price1 r)"

definition swap_costs :: "RangeKeeperLiveStageProofRequest \<Rightarrow> (int \<times> int)" where
  "swap_costs r = (case rq_plan r of
      Plan_swap i am out _ \<Rightarrow>
        let p = kc_pool (rq_config r);
            input = rawValue am (request_price r i) (pool_decimals p i);
            output = rawValue out (request_price r (other_side i)) (pool_decimals p (other_side i));
            fee = (input * kq_fee p) sdiv 1000000 in
        (fee, if input > output + fee then input - output - fee else 0)
    | _ \<Rightarrow> (0, 0))"

definition buildRangeKeeperLiveStageEvidence ::
  "RangeKeeperLiveStageProofRequest \<Rightarrow> stage_measurement \<Rightarrow> RangeKeeperLiveStageEvidence res" where
  "buildRangeKeeperLiveStageEvidence r sm = (let l = kc_limits (rq_config r) in
     bind_ok (assertRequest r) (\<lambda>_.
     bind_ok (assertion (sm_gasUsed sm > 0 \<and> sm_gasUsed sm \<le> 8000000 \<and> sm_estimatedGas sm > 0 \<and> sm_estimatedGas sm \<le> 8000000)) (\<lambda>_.
     bind_ok (assertion (sm_baseFeePerGasWei sm > 0 \<and> sm_marketGasPriceWei sm > 0)) (\<lambda>_.
     bind_ok (assertion (hash_text (sm_forkReceiptHash sm))) (\<lambda>_.
     let units = ceil_div (greater (sm_gasUsed sm) (sm_estimatedGas sm) * 13) 10 in
     bind_ok (ensure (units \<le> 8000000) ''Stage padded gas exceeds bounded transaction size'') (\<lambda>_.
     let fee = ceil_div (greater (sm_baseFeePerGasWei sm) (sm_marketGasPriceWei sm) * 5) 4; gasWei = units * fee in
     bind_ok (ensure (gasWei \<le> stage_gas_limit r)
       (if rq_exitSpendAllowed r then ''Retained close exceeds its scoped native allocation''
        else ''Stage would invade reserved exit gas'')) (\<lambda>_.
     let (feeValue, shortfall) = swap_costs r in
     bind_ok (ensure (shortfall \<le> maxSwapShortfallValue l) ''Stage swap shortfall exceeds policy'') (\<lambda>_.
     let cost = ceil_div (gasWei * rq_nativePrice r) (10 ^ 18) + (feeValue + shortfall) in
     bind_ok (ensure (rq_exitSpendAllowed r \<or> cost \<le> maxActionCost l) ''Stage cost exceeds reviewed action budget'') (\<lambda>_.
     let expires = min (sm_now sm + 90000) ((ks_timestamp (rq_source r) + maxObservationGapSeconds l) * 1000) in
     bind_ok (ensure (expires > sm_now sm) ''Stage canonical observation is stale'') (\<lambda>_.
     Inr \<lparr>se_gasUnitsBound = units, se_maxFeePerGasWei = fee, se_stageGasWei = gasWei, se_costValue = cost,
       se_exitSpendAllowed = rq_exitSpendAllowed r, se_exitConvert = rq_exitConvert r, se_expiresAt = expires\<rparr>))))))))))"

text \<open>
  The budgets in \<open>authorizeRangeKeeperLiveStage\<close>: an exit is bounded by its reserve alone, every
  other stage by the costs of its action and of the campaign, which must all be known.
\<close>

definition authorize_stage_budget ::
  "RangeKeeperLiveCampaign \<Rightarrow> RangeKeeperLiveState \<Rightarrow> RangeKeeperLiveStageProofRequest \<Rightarrow> RangeKeeperLiveStageEvidence \<Rightarrow> unit res" where
  "authorize_stage_budget cm st r e = (let retainedExit = isRangeKeeperManagedExit st; l = kc_limits (cm_config cm); al = cm_allocation cm;
        actionStart = lv_actionStartCostIndex st in
     bind_ok (ensure (rq_exitSpendAllowed r = retainedExit) ''Stage proof exit-reserve permission differs from campaign state'') (\<lambda>_.
     bind_ok (ensure (rq_exitConvert r = isRangeKeeperConvertExit st \<and> se_exitConvert e = isRangeKeeperConvertExit st)
       ''Stage proof convert permission differs from campaign state'') (\<lambda>_.
     bind_ok (ensure (se_stageGasWei e \<ge> 0 \<and> se_costValue e \<ge> 0 \<and>
         se_stageGasWei e \<le> ca_nativeSpendWei al + (if rq_exitSpendAllowed r then ca_exitReserveWei al else 0))
       ''Stage gas would invade exit reserve or exceed remaining campaign native spend'') (\<lambda>_.
     bind_ok (ensure (actionStart \<le> length (lv_costEvents st)) ''Campaign action-cost cursor is invalid'') (\<lambda>_.
     bind_ok (if retainedExit then Inr ()
       else
         bind_ok (ensure (case sumCost (drop actionStart (lv_costEvents st)) of None \<Rightarrow> False
             | Some spent \<Rightarrow> spent + se_costValue e \<le> maxActionCost l) ''Owned-fork stage exceeds per-action cost policy'') (\<lambda>_.
         case sumCost (lv_costEvents st) of
           None \<Rightarrow> Inl ''Campaign has incomplete prior cost evidence''
         | Some cumulative \<Rightarrow> ensure (cumulative + se_costValue e \<le> maxCampaignCost l \<and> cumulative + se_costValue e \<le> maxRollingCost l)
             ''Owned-fork stage exceeds cumulative campaign cost policy'')) (\<lambda>_.
     ensure (is_mint (rq_plan r) \<longrightarrow> kc_maxEconomicActions (cm_config cm) = 0 \<or>
         lv_economicActions st < kc_maxEconomicActions (cm_config cm))
       ''Campaign economic action count is exhausted''))))))"

subsection \<open>What a campaign plans, the proof accepts\<close>

text \<open>The amount of a grant under the persistent policy fits the ceiling, the funds or the anticipated future.\<close>

lemma persistent_grant_Some:
  assumes "stage_grant p s funds (Some ap) i k needed future = Inr (Some pl)"
  defines "cap \<equiv> (case future of None \<Rightarrow> side_funds funds i | Some c \<Rightarrow> c)"
  shows "\<exists>am. pl = Plan_approve i k am \<and> 0 \<le> am \<and>
    (am \<le> cap \<or> am \<le> allowanceCeiling (if i = Token0 then fst (ap_exposure ap) else snd (ap_exposure ap)))"
  using assms(1) unfolding cap_def
  by (auto simp: stage_grant_def persistentAllowanceGrant_def allowanceCeiling_def CAP_MULTIPLE_def Let_def bind_ok_Inr_iff
      assertion_def split: option.splits if_splits)

lemma approve_request_authorized:
  assumes "0 < slip" "slip \<le> 50" "0 \<le> am" "0 \<le> cap" "cap = 0 \<or> k = Position_manager"
    "am \<le> wallet_available w i + cap \<or> am \<le> (if i = Token0 then fst ceil else snd ceil)"
  shows "authorizeRangeKeeperTx p w (Plan_approve i k am) slip width cap (Some ceil) = Inr ()"
  using assms by (auto simp: authorizeRangeKeeperTx_def authorize_approve_def bind_ok_Inr_iff assertion_def)

definition is_approve :: "RangeKeeperTxPlan \<Rightarrow> bool" where
  "is_approve plan \<longleftrightarrow> (case plan of Plan_approve _ _ _ \<Rightarrow> True | _ \<Rightarrow> False)"

lemma ceiling_irrelevant:
  "\<not> is_approve plan \<Longrightarrow> authorizeRangeKeeperTx p w plan slip width cap ceil = authorizeRangeKeeperTx p w plan slip width 0 None"
  by (cases plan) (simp_all add: authorizeRangeKeeperTx_def is_approve_def)

lemma future_cap_cases:
  assumes "futureApprovalCap cm s plan p0 p1 = Inr cap"
  shows "0 \<le> cap" "cap = 0 \<or> (\<exists>i am. plan = Plan_approve i Position_manager am)"
  using assms unfolding futureApprovalCap_def
  by (auto simp: Let_def bind_ok_Inr_iff split: option.split_asm RangeKeeperTxPlan.split_asm plan_spender.split_asm if_split_asm)

lemma future_cap_anticipates:
  assumes "futureApprovalCap cm s (Plan_approve i Position_manager am) p0 p1 = Inr cap" "cm_state cm = Some st"
    "lv_candidate st = Some c" "ck_swap c = Some sw" "i \<noteq> sw_token sw"
    "strategyBalances (sn_funds s) (lv_reserve0 st) (lv_reserve1 st) (lv_reserveNativeWei st) = Inr funds"
    "acquired_cap (cm_config cm) i p0 p1 = Inr c1"
  shows "(if side_funds funds i > c1 then side_funds funds i else c1) \<le> side_funds funds i + cap"
proof -
  have "i = other_side (sw_token sw)" using assms(5) by (cases i; cases "sw_token sw") (simp_all add: other_side_def)
  with assms show ?thesis
    by (auto simp: futureApprovalCap_def acquired_cap_def div_big_def assertion_def Let_def bind_ok_Inr_iff split: if_split_asm)
qed

lemma derived_snapshot:
  assumes "deriveRangeKeeperCampaignStageSnapshot cm snap = Inr s"
  obtains a0 a1 where "campaign_liquid cm Token0 = Some a0" "campaign_liquid cm Token1 = Some a1"
    "s = snap\<lparr>sn_funds := \<lparr>fd_amount0 = lesser (fd_amount0 (sn_funds snap)) a0, fd_amount1 = lesser (fd_amount1 (sn_funds snap)) a1,
           fd_nativeWei = lesser (fd_nativeWei (sn_funds snap)) (ca_nativeSpendWei (cm_allocation cm))\<rparr>\<rparr>"
  using assms unfolding deriveRangeKeeperCampaignStageSnapshot_def Let_def
  by (auto simp: bind_ok_Inr_iff split: option.split_asm)

lemma prepared_cases:
  assumes "prepareRangeKeeperLiveStageAuthorization config_hash plan_hash quote cm inp = Inr r" "cm_state cm = Some st"
  obtains s ap cap where "deriveRangeKeeperCampaignStageSnapshot cm (si_snapshot inp) = Inr s"
    "nextRangeKeeperStage quote st s (cm_config cm) (si_price0 inp) (si_price1 inp) (Some ap) = Inr (Some (rq_plan r))"
    "futureApprovalCap cm s (rq_plan r) (si_price0 inp) (si_price1 inp) = Inr cap" "rq_futureApprovalCap r = cap"
    "rq_allowanceCeiling r = (allowanceCeiling (fst (ap_exposure ap)), allowanceCeiling (snd (ap_exposure ap)))"
    "rq_config r = cm_config cm" "rq_allocation r = cm_allocation cm" "rq_beforePool r = si_snapshot inp"
    "rq_source r = si_source inp" "sameLiveSource (si_source inp) (sn_source (si_snapshot inp))"
    "rq_exitSpendAllowed r = (si_exitSpendAllowed inp \<and> isRangeKeeperManagedExit st)"
    "rq_exitConvert r = (rq_exitSpendAllowed r \<and> isRangeKeeperConvertExit st)"
proof -
  have src: "sameLiveSource (si_source inp) (sn_source (si_snapshot inp))" if "stage_input_checks config_hash cm inp = Inr u" for u
    using that unfolding stage_input_checks_def Let_def bind_ok_Inr_iff by auto
  let ?make = "\<lambda>plan ap stage cap. \<lparr>rq_campaignId = cm_id cm, rq_allocationId = ca_allocationId (cm_allocation cm),
      rq_revision = cm_revision cm, rq_stage = stage,
      rq_buildId = (case si_buildId inp of Some b \<Rightarrow> b | None \<Rightarrow> sr_buildId (cm_reviewPayload cm)),
      rq_profileHash = cm_profileHash cm, rq_config = cm_config cm, rq_source = si_source inp, rq_plan = plan,
      rq_beforePool = si_snapshot inp, rq_allocation = cm_allocation cm, rq_price0 = si_price0 inp,
      rq_price1 = si_price1 inp, rq_nativePrice = si_nativePrice inp, rq_referenceProofHash = si_referenceProofHash inp,
      rq_futureApprovalCap = cap,
      rq_allowanceCeiling = (allowanceCeiling (fst (ap_exposure ap)), allowanceCeiling (snd (ap_exposure ap))),
      rq_exitSpendAllowed = (si_exitSpendAllowed inp \<and> isRangeKeeperManagedExit st),
      rq_exitConvert = ((si_exitSpendAllowed inp \<and> isRangeKeeperManagedExit st) \<and> isRangeKeeperConvertExit st)\<rparr>"
  from assms(1) obtain u s ap planned where 1: "stage_input_checks config_hash cm inp = Inr u"
    "deriveRangeKeeperCampaignStageSnapshot cm (si_snapshot inp) = Inr s"
    "nextRangeKeeperStage quote st s (cm_config cm) (si_price0 inp) (si_price1 inp) (Some ap) = Inr planned"
    and 2: "(case planned of None \<Rightarrow> Inl ''No RangeKeeper stage is currently authorized''
        | Some plan \<Rightarrow>
            bind_ok (deriveRangeKeeperStage plan_hash plan (cm_stateRevision cm) (si_stageRetry inp)) (\<lambda>stage.
            bind_ok (ensure (si_stage inp = stage) ''Caller stage differs from derived strategy stage'') (\<lambda>_.
            bind_ok (ensure (plan = si_proposedPlan inp) ''Caller plan differs from persisted strategy state'') (\<lambda>_.
            bind_ok (futureApprovalCap cm s plan (si_price0 inp) (si_price1 inp)) (\<lambda>cap. Inr (?make plan ap stage cap)))))) = Inr r"
    unfolding prepareRangeKeeperLiveStageAuthorization_def assms(2) option.case Let_def bind_ok_Inr_iff [of "stage_input_checks _ _ _"]
      bind_ok_Inr_iff [of "deriveRangeKeeperCampaignStageSnapshot _ _"] bind_ok_Inr_iff [of "ensure _ _"]
      bind_ok_Inr_iff [of "nextRangeKeeperStage _ _ _ _ _ _ _"] bind_ok_Inr_iff [of "case_option _ _ _"]
    by blast
  from 2 obtain plan stage cap where "planned = Some plan" "futureApprovalCap cm s plan (si_price0 inp) (si_price1 inp) = Inr cap"
    and r: "r = ?make plan ap stage cap"
    by (auto simp: bind_ok_Inr_iff split: option.split_asm)
  with 1 show thesis by (intro that [of s ap cap]) (simp_all add: src [OF 1(1)])
qed

text \<open>The wallet that the proof authorizes against is the strategy's own, when the allocation is in the wallet.\<close>

lemma request_wallet_eq:
  assumes "request_identity r = Inr ()" "rq_config r = cm_config cm" "rq_allocation r = cm_allocation cm"
    "rq_beforePool r = snap" "sameLiveSource (rq_source r) (sn_source snap)"
    "deriveRangeKeeperCampaignStageSnapshot cm snap = Inr s" "strategyBalances (sn_funds s) 0 0 0 = Inr funds"
  shows "request_wallet r = authorization_wallet s funds"
proof -
  obtain a0 a1 where a: "campaign_liquid cm Token0 = Some a0" "campaign_liquid cm Token1 = Some a1"
    and s: "s = snap\<lparr>sn_funds := \<lparr>fd_amount0 = lesser (fd_amount0 (sn_funds snap)) a0, fd_amount1 = lesser (fd_amount1 (sn_funds snap)) a1,
           fd_nativeWei = lesser (fd_nativeWei (sn_funds snap)) (ca_nativeSpendWei (cm_allocation cm))\<rparr>\<rparr>"
    using assms(6) by (rule derived_snapshot)
  have q: "request_liquid r i = campaign_liquid cm i" for i by (simp add: request_liquid_def campaign_liquid_def assms(2,3))
  have "a0 \<le> fd_amount0 (sn_funds snap)" "a1 \<le> fd_amount1 (sn_funds snap)"
    using assms(1) a unfolding request_identity_def Let_def q assms(4) by (auto simp: bind_ok_Inr_iff)
  then have "lesser (fd_amount0 (sn_funds snap)) a0 = a0" "lesser (fd_amount1 (sn_funds snap)) a1 = a1"
    by (simp_all add: lesser_def)
  moreover have "ks_timestamp (rq_source r) = sn_timestamp snap" using assms(5) by (simp add: sameLiveSource_def sn_source_def)
  ultimately show ?thesis using assms(7) a
    by (auto simp: request_wallet_def authorization_wallet_def q assms(4) s strategyBalances_def bind_ok_Inr_iff)
qed

lemma planned_permitted:
  assumes "stage_planned st s (rq_config r) p0 p1 policy funds (rq_plan r)" "campaign_wf st"
    "rq_exitConvert r \<longleftrightarrow> rq_exitSpendAllowed r \<and> isRangeKeeperConvertExit st"
    "rq_exitSpendAllowed r \<Longrightarrow> isRangeKeeperManagedExit st"
  shows "request_exit r = Inr ()"
proof -
  have "exit_permits r" if allowed: "rq_exitSpendAllowed r"
  proof -
    have ph: "lv_phase st = Phase_exit" "lv_desired st = Stopped" "lv_exitMode st \<noteq> None"
      using assms(4) [OF allowed] by (auto simp: isRangeKeeperManagedExit_def)
    obtain m where m: "lv_exitMode st = Some m" using ph(3) by blast
    have conv: "rq_exitConvert r" "i = risky_side (rq_config r)" if "converting st (rq_config r) i" for i
      using that ph m assms(3) allowed by (cases m; simp add: converting_def isRangeKeeperConvertExit_def)+
    show ?thesis using assms(1)
    proof cases
      case (by_withdrawal pos)
      then show ?thesis by (auto dest: withdraw_stage_plan simp: exit_permits_def)
    next
      case (by_grant i k needed)
      then obtain am where "rq_plan r = Plan_approve i k am" using stage_grant_approves by blast
      then show ?thesis using by_grant ph conv [OF by_grant(3)] by (simp add: exit_permits_def)
    next
      case (by_swap am i out)
      then show ?thesis using conv [OF by_swap(6)] by (simp add: exit_permits_def)
    qed (use ph in \<open>auto simp: exit_permits_def\<close>)
  qed
  then show ?thesis using assms(3) by (auto simp: request_exit_def)
qed

lemma planned_request_authorized:
  assumes planned: "stage_planned st s cf p0 p1 (Some ap) funds plan" and ready: "stage_ready st s cf"
    and funds: "strategyBalances (sn_funds s) (lv_reserve0 st) (lv_reserve1 st) (lv_reserveNativeWei st) = Inr funds"
    and cm: "cm_config cm = cf" "cm_state cm = Some st" and cap: "futureApprovalCap cm s plan p0 p1 = Inr cap"
  shows "authorizeRangeKeeperTx (kc_pool cf) (authorization_wallet s funds) plan (maxSlippageBps (kc_limits cf))
    (fullWidthSpacings (kc_limits cf)) cap (Some (allowanceCeiling (fst (ap_exposure ap)), allowanceCeiling (snd (ap_exposure ap)))) =
    Inr () \<longleftrightarrow> \<not> zero_out_swap plan"
proof -
  have slip: "0 < maxSlippageBps (kc_limits cf)" "maxSlippageBps (kc_limits cf) \<le> 50" using ready by (simp_all add: stage_ready_def)
  have avail: "wallet_available (authorization_wallet s funds) i = side_funds funds i" for i
    by (simp add: wallet_available_def authorization_wallet_def side_funds_def)
  note caps = future_cap_cases [OF cap]
  note approve = approve_request_authorized [OF slip _ caps(1), of _ _ "authorization_wallet s funds" _
      "(allowanceCeiling (fst (ap_exposure ap)), allowanceCeiling (snd (ap_exposure ap)))" "kc_pool cf" "fullWidthSpacings (kc_limits cf)"]
  let ?auth = "authorizeRangeKeeperTx (kc_pool cf) (authorization_wallet s funds) plan (maxSlippageBps (kc_limits cf))
    (fullWidthSpacings (kc_limits cf))"
  have other: "?auth cap (Some (allowanceCeiling (fst (ap_exposure ap)), allowanceCeiling (snd (ap_exposure ap)))) = ?auth 0 None"
    if "\<not> is_approve plan" using that by (rule ceiling_irrelevant)
  show ?thesis using planned
  proof cases
    case (by_withdrawal pos)
    obtain t l m0 m1 d where "plan = Plan_withdraw t l m0 m1 d" using withdraw_authorized(2) [OF ready by_withdrawal] by blast
    then have p: "\<not> is_approve plan" "\<not> zero_out_swap plan" by (simp_all add: is_approve_def zero_out_swap_def)
    show ?thesis unfolding other [OF p(1)] using withdraw_authorized(1) [OF ready by_withdrawal] p(2) by simp
  next
    case (by_revocation i k)
    then show ?thesis using approve [of 0 k i] caps strategyBalances_nonneg [OF funds, of i]
      by (auto simp: zero_out_swap_def avail)
  next
    case (by_grant i k needed)
    obtain am where "plan = Plan_approve i k am" "0 \<le> am"
      "am \<le> side_funds funds i \<or> am \<le> allowanceCeiling (if i = Token0 then fst (ap_exposure ap) else snd (ap_exposure ap))"
      using persistent_grant_Some [OF by_grant(1)] by auto
    then show ?thesis using approve [of am k i] caps(1,2) by (auto simp: zero_out_swap_def avail split: if_splits)
  next
    case (by_anticipation c sw i c1 needed)
    let ?future = "if side_funds funds i > c1 then side_funds funds i else c1"
    obtain am where am: "plan = Plan_approve i Position_manager am" "0 \<le> am"
      "am \<le> ?future \<or> am \<le> allowanceCeiling (if i = Token0 then fst (ap_exposure ap) else snd (ap_exposure ap))"
      using persistent_grant_Some [OF by_anticipation(7)] by auto
    have "?future \<le> side_funds funds i + cap"
      using future_cap_anticipates [OF _ cm(2) by_anticipation(3-5) funds, of am p0 p1 cap c1] cap by_anticipation(6)
      by (simp add: am(1) cm(1))
    then show ?thesis using am approve [of am Position_manager i] by (auto simp: zero_out_swap_def avail split: if_splits)
  next
    case (by_swap am i out)
    have "0 \<le> haircut out (maxSlippageBps (kc_limits cf))" using by_swap(5) slip by (intro haircut_nonneg) simp_all
    moreover have p: "\<not> is_approve plan" by (simp add: by_swap(1) is_approve_def)
    ultimately show ?thesis unfolding other [OF p] using swap_authorized [OF ready by_swap(2,3,4)]
      by (auto simp: by_swap(1) zero_out_swap_def)
  next
    case (by_mint c d)
    then have p: "\<not> is_approve plan" "\<not> zero_out_swap plan" by (simp_all add: is_approve_def zero_out_swap_def)
    show ?thesis unfolding other [OF p(1)] using by_mint p(2) by simp
  qed
qed

text \<open>
  C13: every stage a campaign prepares, the stage proof accepts.  For a reachable campaign, a
  request rebuilt from its state under a persistent allowance policy passes the restriction of
  the exit reserve and the semantic authorization, against the allocation that the request
  states: approvals within five times the exposure or what the campaign owns or is about to
  acquire, sales of an exit only of the non-quote token of a convert exit.  The one plan the proof
  refuses is a swap whose minimum output rounds to zero.
\<close>

theorem prepared_stage_accepted:
  assumes "prepareRangeKeeperLiveStageAuthorization config_hash plan_hash quote cm inp = Inr r"
    "cm_state cm = Some st" "reachable (campaign_opened config_hash) (campaign_step config_hash) st"
    "request_identity r = Inr ()" "\<And>s. deriveRangeKeeperCampaignStageSnapshot cm (si_snapshot inp) = Inr s \<Longrightarrow>
      stage_ready st s (cm_config cm)"
  shows "request_exit r = Inr () \<and>
    (request_authorized r = Inr () \<longleftrightarrow> (\<nexists>token am deadline. rq_plan r = Plan_swap token am 0 deadline))"
proof -
  have wf: "campaign_wf st" by (rule campaign.reachable_inv [OF assms(3)])
  then have res: "lv_reserve0 st = 0" "lv_reserve1 st = 0" "lv_reserveNativeWei st = 0"
    by (simp_all add: campaign_wf_def books_wf_def)
  obtain s ap cap where s: "deriveRangeKeeperCampaignStageSnapshot cm (si_snapshot inp) = Inr s"
    and plan: "nextRangeKeeperStage quote st s (cm_config cm) (si_price0 inp) (si_price1 inp) (Some ap) = Inr (Some (rq_plan r))"
    and cap: "futureApprovalCap cm s (rq_plan r) (si_price0 inp) (si_price1 inp) = Inr cap" "rq_futureApprovalCap r = cap"
    and r: "rq_allowanceCeiling r = (allowanceCeiling (fst (ap_exposure ap)), allowanceCeiling (snd (ap_exposure ap)))"
      "rq_config r = cm_config cm" "rq_allocation r = cm_allocation cm" "rq_beforePool r = si_snapshot inp"
      "rq_source r = si_source inp" "sameLiveSource (si_source inp) (sn_source (si_snapshot inp))"
      "rq_exitSpendAllowed r = (si_exitSpendAllowed inp \<and> isRangeKeeperManagedExit st)"
      "rq_exitConvert r = (rq_exitSpendAllowed r \<and> isRangeKeeperConvertExit st)"
    using prepared_cases [OF assms(1,2)] by blast
  have ready: "stage_ready st s (cm_config cm)" using assms(5) s by blast
  obtain funds where funds: "strategyBalances (sn_funds s) (lv_reserve0 st) (lv_reserve1 st) (lv_reserveNativeWei st) = Inr funds"
    and planned: "stage_planned st s (cm_config cm) (si_price0 inp) (si_price1 inp) (Some ap) funds (rq_plan r)"
    using next_stage_planned [OF plan ready] by blast
  have "request_wallet r = authorization_wallet s funds"
    using request_wallet_eq [OF assms(4) r(2-4) _ s] r(5,6) funds by (simp add: res)
  then have "request_authorized r = Inr () \<longleftrightarrow> \<not> zero_out_swap (rq_plan r)"
    using planned_request_authorized [OF planned ready funds refl assms(2) cap(1)]
    by (simp add: request_authorized_def r(1,2) cap(2))
  moreover have "request_exit r = Inr ()"
    by (rule planned_permitted [OF _ wf r(8)]) (use planned r(2,7) in simp_all)
  ultimately show ?thesis by (simp add: zero_out_swap_def)
qed

subsection \<open>What an authorized stage may cost\<close>

lemma sumCost_snoc: "sumCost (xs @ [e]) = add_cost (sumCost xs) (event_cost e)"
  by (simp add: sumCost_def)

lemma ceil_div_covers: "0 \<le> a \<Longrightarrow> 0 < b \<Longrightarrow> a \<le> b * ceil_div a b"
  using ceil_div_bounds(1) [of b a] by (simp add: ceil_div_def sdiv_nonneg)

lemma gas_value_covered:
  assumes "0 \<le> g" "g \<le> G" "0 < np"
  shows "rawValue g np 18 \<le> ceil_div (G * np) (10 ^ 18)"
proof -
  have "g * np \<le> G * np" using assms by (intro mult_right_mono) simp_all
  also have "G * np \<le> 10 ^ 18 * ceil_div (G * np) (10 ^ 18)" using assms by (intro ceil_div_covers) simp_all
  finally have "(g * np) div 10 ^ 18 \<le> ceil_div (G * np) (10 ^ 18)" by (simp add: div_le_iff)
  then show ?thesis using assms by (simp add: rawValue_def sdiv_nonneg)
qed

text \<open>The cost that a receipt books, against the cost its authorization stated, at the same prices.\<close>

definition receipt_within ::
  "RangeKeeperLiveStageProofRequest \<Rightarrow> RangeKeeperLiveStageEvidence \<Rightarrow> live_receipt \<Rightarrow> receipt_valuation \<Rightarrow> bool" where
  "receipt_within r e rc v \<longleftrightarrow> re_plan rc = rq_plan r \<and> 0 \<le> re_gasWei rc \<and> re_gasWei rc \<le> se_stageGasWei e \<and>
     re_valuation rc = Some v \<and> valuation_valid v (re_source rc) \<and> valuation_valid v (sn_source (re_after rc)) \<and>
     number (rv_price0 v) = rq_price0 r \<and> number (rv_price1 v) = rq_price1 r \<and> number (rv_nativePrice v) = rq_nativePrice r \<and>
     (re_confirmed rc \<longrightarrow> (\<forall>i am out d. rq_plan r = Plan_swap i am out d \<longrightarrow> out \<le> swap_output (re_before rc) (re_after rc) i))"

lemma evidence_cases:
  assumes "buildRangeKeeperLiveStageEvidence r sm = Inr e"
  obtains fee shortfall where "assertRequest r = Inr ()" "swap_costs r = (fee, shortfall)"
    "se_costValue e = ceil_div (se_stageGasWei e * rq_nativePrice r) (10 ^ 18) + (fee + shortfall)"
    "se_stageGasWei e = se_gasUnitsBound e * se_maxFeePerGasWei e"
    "se_gasUnitsBound e = ceil_div (greater (sm_gasUsed sm) (sm_estimatedGas sm) * 13) 10"
    "se_maxFeePerGasWei e = ceil_div (greater (sm_baseFeePerGasWei sm) (sm_marketGasPriceWei sm) * 5) 4"
    "se_stageGasWei e \<le> stage_gas_limit r"
  using assms unfolding buildRangeKeeperLiveStageEvidence_def Let_def
  by (auto simp: bind_ok_Inr_iff split: prod.split_asm)

lemma swap_request_amounts:
  assumes "assertRequest r = Inr ()" "rq_plan r = Plan_swap i am out d"
  shows "0 < am \<and> 0 < out"
  using assms by (auto simp: assertRequest_def request_authorized_def authorizeRangeKeeperTx_def bind_ok_Inr_iff
      assertion_def split: if_splits)

lemma swap_cost_covered:
  assumes within: "receipt_within r e rc v" and "assertRequest r = Inr ()" "swap_costs r = (fee, shortfall)" "0 \<le> kq_fee (kc_pool (rq_config r))"
    and out: "is_swap (rq_plan r) \<and> re_confirmed rc \<longrightarrow>
      (case rc_actualSwapOutput (receipt_costs (kc_pool (rq_config r)) rc) of None \<Rightarrow> False | Some out \<Rightarrow> 0 < out)"
  shows "rc_gasValue (receipt_costs (kc_pool (rq_config r)) rc) = Some (rawValue (re_gasWei rc) (rq_nativePrice r) 18) \<and>
    (\<exists>f s. rc_swapFeeValue (receipt_costs (kc_pool (rq_config r)) rc) = Some f \<and>
      rc_swapShortfallValue (receipt_costs (kc_pool (rq_config r)) rc) = Some s \<and> f + s \<le> fee + shortfall)"
proof -
  let ?p = "kc_pool (rq_config r)"
  have v: "re_plan rc = rq_plan r" "re_valuation rc = Some v" "valuation_valid v (re_source rc)"
    "valuation_valid v (sn_source (re_after rc))" "number (rv_nativePrice v) = rq_nativePrice r"
    and price: "price_of v i = request_price r i" for i
    using within by (auto simp: receipt_within_def price_of_def request_price_def)
  have ident: "0 < request_price r i" for i
    using assms(2) by (auto simp: assertRequest_def request_identity_def request_price_def bind_ok_Inr_iff Let_def assertion_def split: if_splits)
  have gas: "rc_gasValue (receipt_costs ?p rc) = Some (rawValue (re_gasWei rc) (rq_nativePrice r) 18)"
    by (auto simp: receipt_costs_def v deriveRangeKeeperReceiptCost_def Let_def split: RangeKeeperTxPlan.split)
  have "\<exists>f s. rc_swapFeeValue (receipt_costs ?p rc) = Some f \<and> rc_swapShortfallValue (receipt_costs ?p rc) = Some s \<and> f + s \<le> fee + shortfall"
  proof (cases "rq_plan r")
    case (Plan_swap i am out d)
    let ?in = "rawValue am (request_price r i) (pool_decimals ?p i)"
    let ?fee = "(?in * kq_fee ?p) sdiv 1000000"
    let ?worth = "\<lambda>x. rawValue x (request_price r (other_side i)) (pool_decimals ?p (other_side i))"
    have fee: "fee = ?fee" and shortfall: "shortfall = (if ?in > ?worth out + ?fee then ?in - ?worth out - ?fee else 0)"
      using arg_cong [OF assms(3), of fst] arg_cong [OF assms(3), of snd] by (simp_all only: swap_costs_def Plan_swap Let_def
          RangeKeeperTxPlan.case fst_conv snd_conv)
    have am: "0 < am" "0 < out" using swap_request_amounts [OF assms(2) Plan_swap] by simp_all
    have "0 \<le> fee" using ident [of i] am(1) assms(4) unfolding fee
      by (simp add: sdiv_nonneg rawValue_nonneg pos_imp_zdiv_nonneg_iff)
    moreover have "0 \<le> shortfall" unfolding shortfall by simp
    ultimately have none: "0 \<le> fee + shortfall" by simp
    show ?thesis
    proof (cases "re_confirmed rc")
      case True
      let ?got = "swap_output (re_before rc) (re_after rc) i"
      have got: "0 < ?got" using out True
        by (auto simp: Plan_swap is_swap_def receipt_costs_def v deriveRangeKeeperReceiptCost_def Let_def split: if_splits)
      have "out \<le> ?got" using within True by (simp add: receipt_within_def Plan_swap)
      then have le: "?worth out \<le> ?worth ?got" by (rule rawValue_mono) (use ident am in \<open>simp_all add: less_imp_le\<close>)
      have costs: "rc_swapFeeValue (receipt_costs ?p rc) = Some ?fee"
        "rc_swapShortfallValue (receipt_costs ?p rc) = Some (let gap = ?in - ?worth ?got - ?fee in if gap > 0 then gap else 0)"
        using True got by (simp_all add: receipt_costs_def v deriveRangeKeeperReceiptCost_def Plan_swap price Let_def)
      show ?thesis unfolding costs fee shortfall Let_def using le by simp
    next
      case False
      then show ?thesis using none by (simp add: receipt_costs_def v deriveRangeKeeperReceiptCost_def Plan_swap Let_def)
    qed
  qed (use assms(3) in \<open>auto simp: receipt_costs_def v deriveRangeKeeperReceiptCost_def swap_costs_def Let_def\<close>)
  then show ?thesis using gas by simp
qed

text \<open>A receipt adds one cost event; what follows it leaves the events alone.\<close>

lemma receipt_cost_events:
  assumes "cm_state cm = Some st" "applyRangeKeeperLiveReceiptEffect cm rc = Inr st'"
  shows "\<exists>e. lv_costEvents st' = lv_costEvents st @ [e] \<and>
    event_cost e = (let c = receipt_costs (kc_pool (cm_config cm)) rc in
      case (rc_gasValue c, rc_swapFeeValue c, rc_swapShortfallValue c) of (Some g, Some f, Some s) \<Rightarrow> Some (g + f + s) | _ \<Rightarrow> None)"
proof -
  let ?b = "book_receipt (kc_pool (cm_config cm)) rc st"
  note r = receipt_cases [OF assms]
  have "lv_costEvents st' = lv_costEvents ?b"
  proof (cases "re_confirmed rc")
    case True
    then show ?thesis using r(2) by (auto simp: apply_confirmed_def apply_minted_def bind_ok_Inr_iff split: RangeKeeperTxPlan.split_asm option.split_asm if_splits)
  next
    case False
    then show ?thesis using r(3)
      by (auto simp: apply_reverted_def degradeRangeKeeperConvertExitToRetain_def with_snapshot_def bind_ok_Inr_iff Let_def
          split: if_splits option.splits)
  qed
  then show ?thesis by (simp add: book_receipt_def Let_def event_cost_def split: option.split)
qed

lemma budget_cases:
  assumes "authorize_stage_budget cm st r e = Inr ()" "\<not> isRangeKeeperManagedExit st"
  obtains spent cumulative where "lv_actionStartCostIndex st \<le> length (lv_costEvents st)"
    "sumCost (drop (lv_actionStartCostIndex st) (lv_costEvents st)) = Some spent"
    "spent + se_costValue e \<le> maxActionCost (kc_limits (cm_config cm))" "sumCost (lv_costEvents st) = Some cumulative"
    "cumulative + se_costValue e \<le> maxCampaignCost (kc_limits (cm_config cm))"
    "cumulative + se_costValue e \<le> maxRollingCost (kc_limits (cm_config cm))"
  using assms unfolding authorize_stage_budget_def Let_def
  by (auto simp: bind_ok_Inr_iff split: option.split_asm)


subsection \<open>Witnesses\<close>

definition sample_plan_hash :: "RangeKeeperTxPlan \<Rightarrow> int \<Rightarrow> string" where
  "sample_plan_hash plan revision = sample_digest"

definition sample_stage_input :: stage_input where
  "sample_stage_input = \<lparr>si_snapshot = sample_entry_snapshot, si_source = sn_source sample_entry_snapshot,
     si_reference_source = sn_source sample_entry_snapshot, si_price0 = 1000000, si_price1 = 1000000, si_nativePrice = 1000000,
     si_referenceProofHash = sample_digest, si_profileContentHash = sample_digest, si_verified = True, si_wallet_operator = ''0xa'',
     si_wallet_source = sn_source sample_entry_snapshot, si_wallet_nonce = 3, si_wallet_pendingNonce = 3, si_wallet_nativeWei = 1000,
     si_wallet_tokens = [(''0x0'', 600000), (''0x1'', 600000)], si_stage = ''approve:'' @ take 32 sample_digest,
     si_proposedPlan = Plan_approve Token0 Position_manager 3000000, si_exitSpendAllowed = False, si_stageRetry = 0,
     si_allowancePolicy = Some \<lparr>ap_exposure = (600000, 600000), ap_retain = None\<rparr>, si_buildId = None\<rparr>"

definition sample_request :: RangeKeeperLiveStageProofRequest where
  "sample_request = \<lparr>rq_campaignId = ''c'', rq_allocationId = ''a'', rq_revision = 1, rq_stage = ''approve:'' @ take 32 sample_digest,
     rq_buildId = sample_digest, rq_profileHash = sample_digest, rq_config = sample_stage_config,
     rq_source = sn_source sample_entry_snapshot, rq_plan = Plan_approve Token0 Position_manager 3000000,
     rq_beforePool = sample_entry_snapshot, rq_allocation = sample_allocation, rq_price0 = 1000000, rq_price1 = 1000000,
     rq_nativePrice = 1000000, rq_referenceProofHash = sample_digest, rq_futureApprovalCap = 0,
     rq_allowanceCeiling = (3000000, 3000000), rq_exitSpendAllowed = False, rq_exitConvert = False\<rparr>"

lemma sample_addresses: "kq_token0 (kc_pool sample_stage_config) = ''0x0''" "kq_token1 (kc_pool sample_stage_config) = ''0x1''"
  by (simp_all add: sample_stage_config_def sample_pool_profile_def)

lemma sample_liquid: "campaign_liquid (sample_campaign st) i = Some 600000"
  by (cases i) (simp_all add: campaign_liquid_def sample_campaign_def sample_allocation_def sample_addresses pool_token_def lower_def
      lower_char_def)

lemma sample_digest_ok: "digest_text sample_digest" "list_all stage_char sample_digest" "hash_text (''0x'' @ sample_digest)"
  by (simp_all add: digest_text_def hash_text_def sample_digest_def is_hex_def is_digit_def stage_char_def list_all_iff)

lemma sample_identity: "request_identity sample_request = Inr ()"
proof -
  have l: "request_liquid sample_request i = Some 600000" for i
    using sample_liquid [of None i]
    by (simp add: request_liquid_def campaign_liquid_def sample_request_def sample_campaign_def)
  have st: "list_all stage_char (''approve:'' @ take 32 sample_digest)"
    by (simp add: sample_digest_def stage_char_def list_all_iff is_digit_def)
  have cf: "kc_operator sample_stage_config = Some ''0xa''" "\<not> kc_broadcastEnabled sample_stage_config" "kc_signer sample_stage_config = None"
    by (simp_all add: sample_stage_config_def)
  show ?thesis unfolding request_identity_def Let_def l
    by (simp add: sample_request_def cf st [simplified] sample_digest_ok sample_allocation_def sample_entry_snapshot_def sample_snapshot_def assertion_def
        same_def sameLiveSource_def sn_source_def safe_integer_def sample_digest_def [THEN arg_cong, of length])
qed

lemma sample_prepared:
  assumes "lv_phase st = Phase_entry" "lv_candidate st = Some (sample_candidate Entry 9 100)" "lv_reserve0 st = 0"
    "lv_reserve1 st = 0" "lv_reserveNativeWei st = 0" "lv_configHash st = ''0x'' @ sample_digest" "lv_buildId st = sample_digest"
    "lv_policy st = \<lparr>st_configHash = ''0x'' @ sample_digest, st_buildId = sample_digest, lastEligible = None, exit_timer = None,
       confirmation = None\<rparr>" "lv_exitMode st = None"
  defines "s \<equiv> sample_entry_snapshot\<lparr>sn_funds := \<lparr>fd_amount0 = 600000, fd_amount1 = 600000, fd_nativeWei = 700\<rparr>\<rparr>"
  shows "deriveRangeKeeperCampaignStageSnapshot (sample_campaign (Some st)) sample_entry_snapshot = Inr s"
    "prepareRangeKeeperLiveStageAuthorization sample_config_hash sample_plan_hash quote (sample_campaign (Some st)) sample_stage_input =
      Inr sample_request"
proof -
  let ?cm = "sample_campaign (Some st)"
  show s: "deriveRangeKeeperCampaignStageSnapshot ?cm sample_entry_snapshot = Inr s"
    unfolding deriveRangeKeeperCampaignStageSnapshot_def sample_liquid Let_def
    by (simp add: sample_campaign_def assms sample_allocation_def sample_entry_snapshot_def lesser_def)
  have len: "length sample_digest = 64" "sample_digest \<noteq> []" by (simp_all add: sample_digest_def)
  have build: "assertRangeKeeperLiveCampaignBuildCompatible sample_config_hash ?cm = Inr ()"
    by (simp add: assertRangeKeeperLiveCampaignBuildCompatible_def sample_campaign_def Let_def assms(6-8) sample_config_hash_def
        state_parses_def sample_digest_ok(3) [simplified] len sample_stage_config_def)
  have checks: "stage_input_checks sample_config_hash ?cm sample_stage_input = Inr ()"
    unfolding stage_input_checks_def Let_def build
    by (simp add: sample_stage_input_def sample_campaign_def sample_stage_config_def sample_pool_profile_def sample_entry_snapshot_def
        sample_snapshot_def same_def sameLiveSource_def sn_source_def len lower_def lower_char_def)
  note plan = sample_entry_plan(1) [OF assms(1-5) refl, of 700 quote None]
  have "futureApprovalCap ?cm s (Plan_approve Token0 Position_manager 3000000) 1000000 1000000 = Inr 0"
    using assms(2) by (simp add: futureApprovalCap_def sample_campaign_def sample_candidate_def)
  moreover have "deriveRangeKeeperStage sample_plan_hash (Plan_approve Token0 Position_manager 3000000) 0 0 =
      Inr (''approve:'' @ take 32 sample_digest)"
    by (simp add: deriveRangeKeeperStage_def safe_integer_def plan_kind_text_def sample_plan_hash_def)
  moreover have "\<not> isRangeKeeperManagedExit st" using assms(9) by (simp add: isRangeKeeperManagedExit_def)
  ultimately show "prepareRangeKeeperLiveStageAuthorization sample_config_hash sample_plan_hash quote ?cm sample_stage_input =
      Inr sample_request"
    using checks s plan
    by (simp add: prepareRangeKeeperLiveStageAuthorization_def sample_campaign_def sample_stage_input_def s_def sample_request_def
        sample_allocation_def sample_review_def allowanceCeiling_def CAP_MULTIPLE_def)
qed

lemma sample_ready:
  assumes "lv_candidate st = Some (sample_candidate Entry 9 100)"
  shows "stage_ready st (sample_entry_snapshot\<lparr>sn_funds := f\<rparr>) sample_stage_config"
proof -
  have "rangeKeeperRange 0 60 2 = Inr sample_range" by (simp add: rangeKeeperRange_def sample_range_def assertion_def safe_integer_def round_quotient_def Let_def
      tick_consts)
  then show ?thesis
    using assms by (auto simp: stage_ready_def sample_stage_config_def sample_limits_def sample_entry_snapshot_def sample_snapshot_def
        sample_pool_profile_def sample_candidate_def)
qed

theorem prepared_stage_accepted_witness:
  "\<exists>st. prepareRangeKeeperLiveStageAuthorization sample_config_hash sample_plan_hash (\<lambda>_ _. Inl ''none'')
       (sample_campaign (Some st)) sample_stage_input = Inr sample_request \<and>
     request_exit sample_request = Inr () \<and> request_authorized sample_request = Inr ()"
proof -
  obtain st where st: "buildRangeKeeperLiveEntryState sample_config_hash (sample_campaign None) sample_entry_snapshot = Inr st"
    "lv_phase st = Phase_entry" "lv_candidate st = Some (sample_candidate Entry 9 100)" "lv_reserve0 st = 0"
    "lv_reserve1 st = 0" "lv_reserveNativeWei st = 0" "lv_exitMode st = None" "lv_configHash st = ''0x'' @ sample_digest"
    "lv_buildId st = sample_digest" "lv_policy st = \<lparr>st_configHash = ''0x'' @ sample_digest, st_buildId = sample_digest,
       lastEligible = None, exit_timer = None, confirmation = None\<rparr>" using sample_entry by blast
  note p = sample_prepared [OF st(2-6,8-10,7)]
  have snap: "si_snapshot sample_stage_input = sample_entry_snapshot" by (simp add: sample_stage_input_def)
  have state: "cm_state (sample_campaign (Some st)) = Some st" "cm_config (sample_campaign (Some st)) = sample_stage_config"
    by (simp_all add: sample_campaign_def)
  have "request_exit sample_request = Inr () \<and>
      (request_authorized sample_request = Inr () \<longleftrightarrow> (\<nexists>token am deadline. rq_plan sample_request = Plan_swap token am 0 deadline))"
    by (rule prepared_stage_accepted [OF p(2) [of "\<lambda>_ _. Inl ''none''"] state(1) sample_reachable [OF st(1)] sample_identity])
      (use p(1) sample_ready [OF st(3)] in \<open>auto simp: snap state\<close>)
  then show ?thesis using p(2) [of "\<lambda>_ _. Inl ''none''"] by (auto simp: sample_request_def)
qed

definition sample_measurement :: stage_measurement where
  "sample_measurement = \<lparr>sm_gasUsed = 100, sm_estimatedGas = 90, sm_baseFeePerGasWei = 1, sm_marketGasPriceWei = 2,
     sm_forkReceiptHash = ''0x'' @ sample_digest, sm_now = 101000\<rparr>"

definition sample_evidence :: RangeKeeperLiveStageEvidence where
  "sample_evidence = \<lparr>se_gasUnitsBound = 130, se_maxFeePerGasWei = 3, se_stageGasWei = 390, se_costValue = 1,
     se_exitSpendAllowed = False, se_exitConvert = False, se_expiresAt = 190000\<rparr>"

definition sample_valuation :: receipt_valuation where
  "sample_valuation = \<lparr>rv_source = sn_source sample_entry_snapshot, rv_proofHash = sample_digest, rv_price0 = Some ''1000000'',
     rv_price1 = Some ''1000000'', rv_nativePrice = Some ''1000000''\<rparr>"

definition sample_receipt :: live_receipt where
  "sample_receipt = \<lparr>re_jobId = ''j'', re_jobKind = Job_open, re_stage = ''approve'', re_plan = Plan_approve Token0 Position_manager 3000000,
     re_confirmed = True, re_hash = ''0xr'', re_source = sn_source sample_entry_snapshot, re_gasUsed = 100,
     re_effectiveGasPrice = 2, re_gasWei = 200, re_before = sample_entry_snapshot, re_after = sample_entry_snapshot,
     re_valuation = Some sample_valuation, re_fees = None\<rparr>"

lemma sample_asserted: "assertRequest sample_request = Inr ()"
proof -
  have "request_authorized sample_request = Inr ()"
    by (simp add: request_authorized_def sample_request_def authorizeRangeKeeperTx_def assertion_def sample_stage_config_def sample_limits_def
        authorize_approve_def)
  moreover have "request_exit sample_request = Inr ()" "request_native sample_request = Inr ()"
    by (simp_all add: request_exit_def request_native_def sample_request_def sample_allocation_def Let_def sample_entry_snapshot_def)
  ultimately show ?thesis by (simp add: assertRequest_def sample_identity)
qed

lemma sample_built: "buildRangeKeeperLiveStageEvidence sample_request sample_measurement = Inr sample_evidence"
  unfolding buildRangeKeeperLiveStageEvidence_def sample_asserted Let_def
  by (simp add: sample_measurement_def assertion_def sample_digest_ok(3) [simplified] greater_def ceil_div_def sdiv_nonneg stage_gas_limit_def
      sample_request_def sample_allocation_def swap_costs_def sample_stage_config_def sample_limits_def sn_source_def
      sample_entry_snapshot_def sample_snapshot_def sample_evidence_def)

lemma sample_effect:
  assumes "lv_phase st = Phase_entry" "lv_costEvents st = []"
  shows "\<exists>st'. applyRangeKeeperLiveReceiptEffect (sample_campaign (Some st)) sample_receipt = Inr st' \<and> length (lv_costEvents st') = 1"
  using assms by (simp add: applyRangeKeeperLiveReceiptEffect_def sample_campaign_def sample_receipt_def is_swap_def apply_confirmed_def
      book_receipt_def Let_def)


end
