(* ===== verification/Keeper_Events.thy ===== *)
theory Keeper_Events
  imports Campaign_Request
begin

section \<open>RangeKeeper: the event log of a live campaign\<close>

text \<open>
  The append-only record of \<open>src/deployments/rangekeeper-live-campaign-store.ts\<close>: one runtime row
  per campaign revision, replaced under a comparison with the hash of the state it was derived
  from, and one event row per effect.  The tables are maps and a list, a transaction is one step.
  The hash of a state and the hash of a payload, the address check of \<open>viem\<close>, identities made of
  random numbers and the times of the database's clock are parameters or left out.
\<close>

subsection \<open>Tables and inputs\<close>

datatype runtime_event_kind = Ev_initialized | Ev_opened | Ev_stage_receipt | Ev_mark | Ev_closed | Ev_blocked

datatype runtime_status = Rt_starting | Rt_active | Rt_blocked | Rt_closed

datatype allocation_state = Alloc_reserved | Alloc_active | Alloc_released

record runtime_row =
  rt_wallet :: string
  rt_profileId :: string
  rt_profileHash :: string
  rt_configHash :: string
  rt_allocationId :: string
  rt_state :: RangeKeeperLiveState
  rt_stateHash :: string
  rt_stateRevision :: int
  rt_source :: keeper_source
  rt_status :: runtime_status
  rt_spentCostValue :: int
  rt_spentGasWei :: int
  rt_initialToken0Raw :: int
  rt_initialToken1Raw :: int
  rt_initialNativeWei :: int
  rt_opened :: bool
  rt_closed :: bool

record runtime_event =
  ev_key :: "string \<times> int"
  ev_effectId :: string
  ev_sequence :: int
  ev_kind :: runtime_event_kind
  ev_source :: keeper_source
  ev_before :: string
  ev_after :: string
  ev_receiptHash :: "string option"
  ev_payload :: string
  ev_payloadHash :: string

text \<open>An allocation, with the columns of its profile and its revision that a first event is compared with.\<close>

record allocation_row =
  aw_campaignId :: string
  aw_revision :: int
  aw_chainId :: int
  aw_wallet :: string
  aw_state :: allocation_state
  aw_profileId :: string
  aw_profileHash :: string
  aw_profileContentHash :: string
  aw_strategyId :: string
  aw_configContentHash :: string

record campaign_tables =
  tb_schemaReady :: bool
  tb_lifecycle :: "string \<Rightarrow> campaign_status option"
  tb_allocations :: "string \<Rightarrow> allocation_row option"
  tb_runtime :: "string \<times> int \<Rightarrow> runtime_row option"
  tb_events :: "runtime_event list"

record runtime_initial =
  ii_profileId :: string
  ii_profileHash :: string
  ii_config :: RangeKeeperConfig
  ii_configHash :: string
  ii_revisionConfigHash :: string
  ii_allocationId :: string
  ii_initialToken0Raw :: int
  ii_initialToken1Raw :: int
  ii_initialNativeWei :: int

record RangeKeeperRuntimeEventInput =
  ei_chainId :: int
  ei_address :: string
  ei_campaignId :: string
  ei_revision :: int
  ei_effectId :: string
  ei_kind :: runtime_event_kind
  ei_expectedStateHash :: "string option"
  ei_state :: RangeKeeperLiveState
  ei_source :: keeper_source
  ei_receiptHash :: "string option"
  ei_payload :: string
  ei_initial :: "runtime_initial option"

record RangeKeeperRuntimeEventResult =
  es_state :: RangeKeeperLiveState
  es_stateHash :: string
  es_stateRevision :: int
  es_replayed :: bool

text \<open>What \<open>viem\<close> and the hashing of JSON provide.\<close>

record event_hashes =
  eh_isAddress :: "string \<Rightarrow> bool"
  eh_stateHash :: "RangeKeeperLiveState \<Rightarrow> string"
  eh_payloadHash :: "string \<Rightarrow> string"
  eh_configHash :: "RangeKeeperConfig \<Rightarrow> string"

subsection \<open>Appending\<close>

definition zeroHash :: string where
  "zeroHash = replicate 64 (CHR ''0'')"

definition normalizeAddress :: "event_hashes \<Rightarrow> string \<Rightarrow> string res" where
  "normalizeAddress h a = (if eh_isAddress h a then Inr (lower a) else Inl ''InvalidAddressError'')"

definition statusFor :: "runtime_event_kind \<Rightarrow> RangeKeeperLiveState \<Rightarrow> runtime_status" where
  "statusFor kind st =
     (if kind = Ev_initialized \<or> kind = Ev_stage_receipt \<and> lv_phase st = Phase_entry then Rt_starting
      else if kind = Ev_blocked \<or> lv_phase st = Phase_halted then Rt_blocked
      else if kind = Ev_closed \<or> lv_phase st = Phase_closed then Rt_closed
      else Rt_active)"

definition effect_id_text :: "string \<Rightarrow> bool" where
  "effect_id_text s \<longleftrightarrow> s \<noteq> [] \<and> length s \<le> 128 \<and> list_all stage_char s"

text \<open>What an event must state, whatever was recorded before.\<close>

definition event_input_checks :: "event_hashes \<Rightarrow> RangeKeeperRuntimeEventInput \<Rightarrow> string \<Rightarrow> unit res" where
  "event_input_checks h i wallet =
     bind_ok (assertion (ei_chainId i = 4663 \<and> effect_id_text (ei_effectId i))) (\<lambda>_.
     bind_ok (ensure (ei_kind i = Ev_stage_receipt \<or> ei_kind i = Ev_opened \<longrightarrow>
         (case ei_receiptHash i of None \<Rightarrow> False | Some r \<Rightarrow> hash_text r))
       ''Canonical receipt hash required for successful stage/open effects'') (\<lambda>_.
     bind_ok (assertion (ks_block (ei_source i) \<ge> 0 \<and> hash_text (ks_hash (ei_source i)))) (\<lambda>_.
     ensure (lv_id (ei_state i) = ei_campaignId i \<and> lower (lv_operator (ei_state i)) = wallet)
       ''Runtime state campaign/wallet mismatch'')))"

definition event_key :: "RangeKeeperRuntimeEventInput \<Rightarrow> string \<times> int" where
  "event_key i = (ei_campaignId i, ei_revision i)"

definition events_of :: "string \<times> int \<Rightarrow> campaign_tables \<Rightarrow> runtime_event list" where
  "events_of key tb = filter (\<lambda>e. ev_key e = key) (tb_events tb)"

definition prior_event :: "RangeKeeperRuntimeEventInput \<Rightarrow> campaign_tables \<Rightarrow> runtime_event option" where
  "prior_event i tb = find (\<lambda>e. ev_effectId e = ei_effectId i) (events_of (event_key i) tb)"

definition new_event ::
  "event_hashes \<Rightarrow> RangeKeeperRuntimeEventInput \<Rightarrow> int \<Rightarrow> string \<Rightarrow> runtime_event" where
  "new_event h i sequence before = \<lparr>ev_key = event_key i, ev_effectId = ei_effectId i, ev_sequence = sequence, ev_kind = ei_kind i,
     ev_source = ei_source i, ev_before = before, ev_after = eh_stateHash h (ei_state i), ev_receiptHash = ei_receiptHash i,
     ev_payload = ei_payload i, ev_payloadHash = eh_payloadHash h (ei_payload i)\<rparr>"

definition event_result :: "event_hashes \<Rightarrow> RangeKeeperRuntimeEventInput \<Rightarrow> int \<Rightarrow> bool \<Rightarrow> RangeKeeperRuntimeEventResult" where
  "event_result h i sequence replayed = \<lparr>es_state = ei_state i, es_stateHash = eh_stateHash h (ei_state i),
     es_stateRevision = sequence, es_replayed = replayed\<rparr>"

text \<open>The first event of a revision: the reserved allocation, its profile, its configuration and the initial amounts.\<close>

definition allocation_checks ::
  "event_hashes \<Rightarrow> RangeKeeperRuntimeEventInput \<Rightarrow> string \<Rightarrow> campaign_tables \<Rightarrow> runtime_initial \<Rightarrow> unit res" where
  "allocation_checks h i wallet tb ini = (case tb_allocations tb (ii_allocationId ini) of
      None \<Rightarrow> Inl ''AssertionError''
    | Some al \<Rightarrow>
        bind_ok (assertion (aw_campaignId al = ei_campaignId i \<and> aw_revision al = ei_revision i \<and>
          aw_chainId al = ei_chainId i \<and> aw_wallet al = wallet)) (\<lambda>_.
        bind_ok (assertion (tb_lifecycle tb (ei_campaignId i) = Some Campaign_opening \<and> aw_state al \<noteq> Alloc_released \<and>
          aw_strategyId al = ''rangekeeper_v1'')) (\<lambda>_.
        bind_ok (assertion (aw_profileId al = ii_profileId ini \<and> aw_profileHash al = ii_profileHash ini)) (\<lambda>_.
        bind_ok (ensure (aw_profileContentHash al = ii_profileHash ini) ''Registered profile hash mismatch'') (\<lambda>_.
        assertion (aw_configContentHash al = ii_revisionConfigHash ini))))))"

definition initial_checks :: "event_hashes \<Rightarrow> RangeKeeperRuntimeEventInput \<Rightarrow> runtime_initial \<Rightarrow> unit res" where
  "initial_checks h i ini = (let st = ei_state i in
     bind_ok (assertion (eh_configHash h (ii_config ini) = ii_configHash ini \<and> lv_configHash st = ii_configHash ini)) (\<lambda>_.
     bind_ok (assertion (lv_phase st = (if ei_kind i = Ev_initialized then Phase_entry else Phase_holding))) (\<lambda>_.
     assertion (ii_initialToken0Raw ini = lv_initial0 st \<and> ii_initialToken1Raw ini = lv_initial1 st \<and>
       ii_initialNativeWei ini = lv_initialNativeWei st))))"

definition initial_row ::
  "event_hashes \<Rightarrow> RangeKeeperRuntimeEventInput \<Rightarrow> string \<Rightarrow> runtime_initial \<Rightarrow> runtime_row" where
  "initial_row h i wallet ini = \<lparr>rt_wallet = wallet, rt_profileId = ii_profileId ini, rt_profileHash = ii_profileHash ini,
     rt_configHash = drop 2 (ii_configHash ini), rt_allocationId = ii_allocationId ini, rt_state = ei_state i,
     rt_stateHash = eh_stateHash h (ei_state i), rt_stateRevision = 1, rt_source = ei_source i,
     rt_status = statusFor (ei_kind i) (ei_state i), rt_spentCostValue = 0, rt_spentGasWei = 0,
     rt_initialToken0Raw = ii_initialToken0Raw ini, rt_initialToken1Raw = ii_initialToken1Raw ini,
     rt_initialNativeWei = ii_initialNativeWei ini, rt_opened = False, rt_closed = False\<rparr>"

definition append_first ::
  "event_hashes \<Rightarrow> RangeKeeperRuntimeEventInput \<Rightarrow> string \<Rightarrow> campaign_tables \<Rightarrow>
   (campaign_tables \<times> RangeKeeperRuntimeEventResult) res" where
  "append_first h i wallet tb = (case ei_initial i of
      None \<Rightarrow> Inl ''First runtime event must initialize an entry state before any stage''
    | Some ini \<Rightarrow>
        bind_ok (ensure (ei_kind i = Ev_initialized) ''First runtime event must initialize an entry state before any stage'') (\<lambda>_.
        bind_ok (assertion (ei_expectedStateHash i = None \<and> length (ii_profileHash ini) = 64)) (\<lambda>_.
        bind_ok (allocation_checks h i wallet tb ini) (\<lambda>_.
        bind_ok (initial_checks h i ini) (\<lambda>_.
        Inr (tb\<lparr>tb_runtime := (tb_runtime tb)(event_key i \<mapsto> initial_row h i wallet ini),
                tb_events := tb_events tb @ [new_event h i 1 zeroHash]\<rparr>, event_result h i 1 False))))))"

text \<open>\<open>costEvents.reduce(...)\<close>: an unknown cost counts as nothing here.\<close>

definition known :: "int option \<Rightarrow> int" where
  "known x = (case x of None \<Rightarrow> 0 | Some v \<Rightarrow> v)"

definition spent_cost :: "RangeKeeperCostEvent list \<Rightarrow> int" where
  "spent_cost es = foldl (\<lambda>total e. total + known (ce_gasValue e) + known (ce_swapFeeValue e) + known (ce_swapShortfallValue e)) 0 es"

definition next_row ::
  "event_hashes \<Rightarrow> RangeKeeperRuntimeEventInput \<Rightarrow> runtime_row \<Rightarrow> runtime_row" where
  "next_row h i row = (let status = statusFor (ei_kind i) (ei_state i) in
     row\<lparr>rt_state := ei_state i, rt_stateHash := eh_stateHash h (ei_state i), rt_stateRevision := rt_stateRevision row + 1,
       rt_source := ei_source i, rt_status := status, rt_spentCostValue := spent_cost (lv_costEvents (ei_state i)),
       rt_spentGasWei := lv_gasSpentWei (ei_state i), rt_opened := (rt_opened row \<or> ei_kind i = Ev_opened),
       rt_closed := (rt_closed row \<or> status = Rt_closed)\<rparr>)"

definition activate_allocations ::
  "RangeKeeperRuntimeEventInput \<Rightarrow> (string \<Rightarrow> allocation_row option) \<Rightarrow> string \<Rightarrow> allocation_row option" where
  "activate_allocations i als = (\<lambda>a. map_option (\<lambda>al.
     if aw_campaignId al = ei_campaignId i \<and> aw_revision al = ei_revision i \<and> aw_state al = Alloc_reserved
     then al\<lparr>aw_state := Alloc_active\<rparr> else al) (als a))"

text \<open>The campaign's own row follows the event's kind.\<close>

definition follow_lifecycle :: "RangeKeeperRuntimeEventInput \<Rightarrow> campaign_tables \<Rightarrow> campaign_tables" where
  "follow_lifecycle i tb = (let c = ei_campaignId i; set_to = (\<lambda>status. (tb_lifecycle tb)(c := map_option (\<lambda>_. status) (tb_lifecycle tb c))) in
     case ei_kind i of
       Ev_opened \<Rightarrow> tb\<lparr>tb_lifecycle := (if tb_lifecycle tb c = Some Campaign_opening then set_to Campaign_active else tb_lifecycle tb),
         tb_allocations := activate_allocations i (tb_allocations tb)\<rparr>
     | Ev_closed \<Rightarrow> tb\<lparr>tb_lifecycle := set_to Campaign_closed\<rparr>
     | Ev_blocked \<Rightarrow> tb\<lparr>tb_lifecycle := set_to Campaign_blocked\<rparr>
     | _ \<Rightarrow> tb)"

definition append_next ::
  "event_hashes \<Rightarrow> RangeKeeperRuntimeEventInput \<Rightarrow> campaign_tables \<Rightarrow> runtime_row \<Rightarrow>
   (campaign_tables \<times> RangeKeeperRuntimeEventResult) res" where
  "append_next h i tb row =
     bind_ok (ensure (rt_status row \<noteq> Rt_closed) ''Closed campaign runtime is immutable'') (\<lambda>_.
     bind_ok (ensure (Some (rt_stateHash row) = ei_expectedStateHash i) ''Runtime compare-and-swap failed'') (\<lambda>_.
     bind_ok (ensure (ks_block (ei_source i) \<ge> ks_block (rt_source row)) ''Runtime source moved backwards'') (\<lambda>_.
     bind_ok (ensure (ks_block (ei_source i) = ks_block (rt_source row) \<longrightarrow> same (ks_hash (ei_source i)) (ks_hash (rt_source row)))
       ''Runtime source reorg requires explicit recovery'') (\<lambda>_.
     let sequence = rt_stateRevision row + 1 in
     Inr (follow_lifecycle i (tb\<lparr>tb_runtime := (tb_runtime tb)(event_key i \<mapsto> next_row h i row),
            tb_events := tb_events tb @ [new_event h i sequence (rt_stateHash row)]\<rparr>),
          event_result h i sequence False)))))"

definition replay_event ::
  "event_hashes \<Rightarrow> RangeKeeperRuntimeEventInput \<Rightarrow> campaign_tables \<Rightarrow> runtime_event \<Rightarrow>
   (campaign_tables \<times> RangeKeeperRuntimeEventResult) res" where
  "replay_event h i tb e =
     bind_ok (ensure (ev_payloadHash e = eh_payloadHash h (ei_payload i)) ''Runtime effect replay payload changed'') (\<lambda>_.
     bind_ok (ensure (ev_after e = eh_stateHash h (ei_state i)) ''Runtime effect replay state changed'') (\<lambda>_.
     Inr (tb, event_result h i (ev_sequence e) True)))"

definition appendEvent ::
  "event_hashes \<Rightarrow> RangeKeeperRuntimeEventInput \<Rightarrow> campaign_tables \<Rightarrow>
   (campaign_tables \<times> RangeKeeperRuntimeEventResult) res" where
  "appendEvent h i tb =
     bind_ok (ensure (tb_schemaReady tb) ''Live runtime schema is not ready'') (\<lambda>_.
     bind_ok (normalizeAddress h (ei_address i)) (\<lambda>wallet.
     bind_ok (event_input_checks h i wallet) (\<lambda>_.
     case prior_event i tb of
       Some e \<Rightarrow> replay_event h i tb e
     | None \<Rightarrow> (case tb_runtime tb (event_key i) of
         None \<Rightarrow> append_first h i wallet tb
       | Some row \<Rightarrow> append_next h i tb row))))"

text \<open>\<open>initializeRangeKeeperLiveCampaignInTransaction\<close>\<close>

definition initializeRangeKeeperLiveCampaign ::
  "event_hashes \<Rightarrow> RangeKeeperRuntimeEventInput \<Rightarrow> campaign_tables \<Rightarrow>
   (campaign_tables \<times> RangeKeeperRuntimeEventResult) res" where
  "initializeRangeKeeperLiveCampaign h i tb =
     bind_ok (assertion (ei_kind i = Ev_initialized \<or> ei_kind i = Ev_opened)) (\<lambda>_. appendEvent h i tb)"

subsection \<open>What appending does\<close>

lemma follow_lifecycle_simps [simp]:
  "tb_runtime (follow_lifecycle i tb) = tb_runtime tb" "tb_events (follow_lifecycle i tb) = tb_events tb"
  "tb_schemaReady (follow_lifecycle i tb) = tb_schemaReady tb"
  by (simp_all add: follow_lifecycle_def Let_def split: runtime_event_kind.split)

lemma events_of_snoc:
  "tb_events tb' = tb_events tb @ [e] \<Longrightarrow> events_of key tb' = events_of key tb @ (if ev_key e = key then [e] else [])"
  by (simp add: events_of_def)

lemma events_of_cong: "tb_events tb' = tb_events tb \<Longrightarrow> events_of key tb' = events_of key tb"
  by (simp add: events_of_def)

lemma new_event_simps [simp]:
  "ev_key (new_event h i n before) = event_key i" "ev_effectId (new_event h i n before) = ei_effectId i"
  "ev_sequence (new_event h i n before) = n" "ev_before (new_event h i n before) = before"
  "ev_after (new_event h i n before) = eh_stateHash h (ei_state i)" "ev_source (new_event h i n before) = ei_source i"
  "ev_payloadHash (new_event h i n before) = eh_payloadHash h (ei_payload i)" "ev_kind (new_event h i n before) = ei_kind i"
  by (simp_all add: new_event_def)

lemma prior_event_None: "prior_event i tb = None \<longleftrightarrow> ei_effectId i \<notin> ev_effectId ` set (events_of (event_key i) tb)"
  unfolding prior_event_def find_None_iff by force

text \<open>The guards of an event that do not look at the tables.\<close>

definition event_admissible :: "event_hashes \<Rightarrow> RangeKeeperRuntimeEventInput \<Rightarrow> bool" where
  "event_admissible h i \<longleftrightarrow> eh_isAddress h (ei_address i) \<and> event_input_checks h i (lower (ei_address i)) = Inr ()"

lemma append_unfold:
  "appendEvent h i tb = Inr (tb', r) \<longleftrightarrow> tb_schemaReady tb \<and> event_admissible h i \<and>
     (case prior_event i tb of
        Some e \<Rightarrow> replay_event h i tb e
      | None \<Rightarrow> (case tb_runtime tb (event_key i) of
          None \<Rightarrow> append_first h i (lower (ei_address i)) tb
        | Some row \<Rightarrow> append_next h i tb row)) = Inr (tb', r)"
  by (auto simp: appendEvent_def normalizeAddress_def event_admissible_def bind_ok_Inr_iff)

lemma append_cases:
  assumes "appendEvent h i tb = Inr (tb', r)"
  obtains (replay) e where "prior_event i tb = Some e" "replay_event h i tb e = Inr (tb', r)" "tb' = tb"
  | (first) ini where "prior_event i tb = None" "tb_runtime tb (event_key i) = None" "ei_expectedStateHash i = None"
      "ei_kind i = Ev_initialized" "ei_initial i = Some ini" "initial_checks h i ini = Inr ()"
      "tb' = tb\<lparr>tb_runtime := (tb_runtime tb)(event_key i \<mapsto> initial_row h i (lower (ei_address i)) ini),
                tb_events := tb_events tb @ [new_event h i 1 zeroHash]\<rparr>" "r = event_result h i 1 False"
  | (continued) row where "prior_event i tb = None" "tb_runtime tb (event_key i) = Some row" "rt_status row \<noteq> Rt_closed"
      "ei_expectedStateHash i = Some (rt_stateHash row)" "ks_block (rt_source row) \<le> ks_block (ei_source i)"
      "ks_block (ei_source i) = ks_block (rt_source row) \<longrightarrow> same (ks_hash (ei_source i)) (ks_hash (rt_source row))"
      "tb' = follow_lifecycle i (tb\<lparr>tb_runtime := (tb_runtime tb)(event_key i \<mapsto> next_row h i row),
            tb_events := tb_events tb @ [new_event h i (rt_stateRevision row + 1) (rt_stateHash row)]\<rparr>)"
      "r = event_result h i (rt_stateRevision row + 1) False"
proof (cases "prior_event i tb")
  case (Some e)
  then have "replay_event h i tb e = Inr (tb', r)" using assms by (simp add: append_unfold)
  moreover from this have "tb' = tb" by (auto simp: replay_event_def bind_ok_Inr_iff)
  ultimately show ?thesis using Some replay by blast
next
  case None
  note none = this
  show ?thesis
  proof (cases "tb_runtime tb (event_key i)")
    case None
    then have "append_first h i (lower (ei_address i)) tb = Inr (tb', r)" using assms none by (simp add: append_unfold)
    then show ?thesis using first none None unfolding append_first_def
      by (auto simp: bind_ok_Inr_iff assertion_def split: option.split_asm if_split_asm)
  next
    case (Some row)
    then have "append_next h i tb row = Inr (tb', r)" using assms none by (simp add: append_unfold)
    then show ?thesis using continued none Some unfolding append_next_def Let_def
      by (auto simp: bind_ok_Inr_iff)
  qed
qed

subsection \<open>The tables as a machine\<close>

text \<open>
  Other transactions of the service change the lifecycles and the allocations, never the runtime
  rows and the events.
\<close>

inductive tables_step :: "event_hashes \<Rightarrow> campaign_tables \<Rightarrow> campaign_tables \<Rightarrow> bool" for h :: event_hashes where
  step_append: "appendEvent h i tb = Inr (tb', r) \<Longrightarrow> tables_step h tb tb'"
| step_elsewhere: "tables_step h tb (tb\<lparr>tb_lifecycle := lc, tb_allocations := al\<rparr>)"

definition tables_empty :: "campaign_tables \<Rightarrow> bool" where
  "tables_empty tb \<longleftrightarrow> tb_events tb = [] \<and> (\<forall>key. tb_runtime tb key = None)"

text \<open>The events of a revision: numbered from one, each naming the hash that the one before left behind.\<close>

definition event_chain :: "event_hashes \<Rightarrow> runtime_row \<Rightarrow> runtime_event list \<Rightarrow> bool" where
  "event_chain h row es \<longleftrightarrow> es \<noteq> [] \<and> map ev_sequence es = map int [1..<Suc (length es)] \<and>
     rt_stateRevision row = int (length es) \<and> distinct (map ev_effectId es) \<and>
     map ev_before es = zeroHash # map ev_after (butlast es) \<and> ev_after (last es) = rt_stateHash row \<and>
     rt_stateHash row = eh_stateHash h (rt_state row) \<and> ev_source (last es) = rt_source row \<and>
     sorted (map (\<lambda>e. ks_block (ev_source e)) es) \<and> ev_kind (hd es) = Ev_initialized \<and>
     (rt_closed row \<longleftrightarrow> rt_status row = Rt_closed)"

definition tables_chained :: "event_hashes \<Rightarrow> campaign_tables \<Rightarrow> bool" where
  "tables_chained h tb \<longleftrightarrow> (\<forall>key. case tb_runtime tb key of
      None \<Rightarrow> events_of key tb = [] | Some row \<Rightarrow> event_chain h row (events_of key tb))"

definition row_identity :: "runtime_row \<Rightarrow> string \<times> string \<times> string \<times> string \<times> string \<times> int \<times> int \<times> int" where
  "row_identity row = (rt_wallet row, rt_profileId row, rt_profileHash row, rt_configHash row, rt_allocationId row,
     rt_initialToken0Raw row, rt_initialToken1Raw row, rt_initialNativeWei row)"

text \<open>Rows keep their identity, move forward, and are final once closed; events are only added.\<close>

definition tables_extend :: "campaign_tables \<Rightarrow> campaign_tables \<Rightarrow> bool" where
  "tables_extend tb tb' \<longleftrightarrow> tb_schemaReady tb' = tb_schemaReady tb \<and> prefix (tb_events tb) (tb_events tb') \<and>
     (\<forall>key row. tb_runtime tb key = Some row \<longrightarrow> (\<exists>row'. tb_runtime tb' key = Some row' \<and>
        row_identity row' = row_identity row \<and> rt_stateRevision row \<le> rt_stateRevision row' \<and>
        ks_block (rt_source row) \<le> ks_block (rt_source row') \<and>
        (rt_status row = Rt_closed \<longrightarrow> row' = row \<and> events_of key tb' = events_of key tb)))"

lemma chain_first:
  "ei_kind i = Ev_initialized \<Longrightarrow> event_chain h (initial_row h i w ini) [new_event h i 1 zeroHash]"
  by (simp add: event_chain_def initial_row_def statusFor_def)

lemma chain_next:
  assumes "event_chain h row es" "ei_effectId i \<notin> ev_effectId ` set es" "rt_status row \<noteq> Rt_closed"
    "ks_block (rt_source row) \<le> ks_block (ei_source i)"
  shows "event_chain h (next_row h i row) (es @ [new_event h i (rt_stateRevision row + 1) (rt_stateHash row)])"
proof -
  let ?row = "next_row h i row" and ?e = "new_event h i (rt_stateRevision row + 1) (rt_stateHash row)"
  have row: "rt_stateRevision ?row = rt_stateRevision row + 1" "rt_state ?row = ei_state i"
    "rt_stateHash ?row = eh_stateHash h (ei_state i)" "rt_source ?row = ei_source i"
    "rt_closed ?row \<longleftrightarrow> rt_closed row \<or> rt_status ?row = Rt_closed"
    by (simp_all add: next_row_def Let_def)
  obtain xs l where es: "es = xs @ [l]" using assms(1) by (cases es rule: rev_cases) (auto simp: event_chain_def)
  note c = assms(1)[unfolded event_chain_def es]
  show ?thesis unfolding event_chain_def row
  proof (intro conjI)
    show "map ev_sequence (es @ [?e]) = map int [1..<Suc (length (es @ [?e]))]" using c by (simp add: es)
    show "rt_stateRevision row + 1 = int (length (es @ [?e]))" using c by (simp add: es)
    show "distinct (map ev_effectId (es @ [?e]))" using c assms(2) by (auto simp: es)
    have "map ev_before (xs @ [l]) @ [rt_stateHash row] = zeroHash # map ev_after xs @ [ev_after l]" using c by simp
    then show "map ev_before (es @ [?e]) = zeroHash # map ev_after (butlast (es @ [?e]))" by (simp add: es butlast_append)
    show "sorted (map (\<lambda>e. ks_block (ev_source e)) (es @ [?e]))" using c assms(4) by (auto simp: es sorted_append)
    show "ev_kind (hd (es @ [?e])) = Ev_initialized" using c by (cases xs) (simp_all add: es)
    show "(rt_closed row \<or> rt_status ?row = Rt_closed) = (rt_status ?row = Rt_closed)" using c assms(3) by simp
  qed simp_all
qed

lemma chained_rows:
  assumes "tables_chained h tb"
  shows "tb_runtime tb key = None \<Longrightarrow> events_of key tb = []" "tb_runtime tb key = Some row \<Longrightarrow> event_chain h row (events_of key tb)"
  using spec [OF assms [unfolded tables_chained_def], of key] by simp_all

lemma append_chained:
  assumes "tables_chained h tb" "appendEvent h i tb = Inr (tb', r)"
  shows "tables_chained h tb'"
  using assms(2)
proof (cases rule: append_cases)
  case replay
  then show ?thesis using assms(1) by simp
next
  case (first ini)
  let ?e = "new_event h i 1 zeroHash"
  have ev: "events_of key tb' = events_of key tb @ (if event_key i = key then [?e] else [])" for key
    using events_of_snoc [of tb' tb ?e key] by (simp add: first(7))
  show ?thesis unfolding tables_chained_def
  proof
    fix key
    show "case tb_runtime tb' key of None \<Rightarrow> events_of key tb' = [] | Some row \<Rightarrow> event_chain h row (events_of key tb')"
      using chain_first [OF first(4)] chained_rows [OF assms(1), of key] first(2) unfolding ev
      by (cases "event_key i = key") (auto simp: first(7) split: option.split)
  qed
next
  case (continued row)
  let ?e = "new_event h i (rt_stateRevision row + 1) (rt_stateHash row)"
  have ch: "event_chain h row (events_of (event_key i) tb)"
    by (rule chained_rows(2) [OF assms(1) continued(2)])
  note nxt = chain_next [OF ch continued(1) [unfolded prior_event_None] continued(3,5)]
  have ev: "events_of key tb' = events_of key tb @ (if event_key i = key then [?e] else [])" for key
    using events_of_snoc [of tb' tb ?e key] by (simp add: continued(7))
  show ?thesis unfolding tables_chained_def
  proof
    fix key
    show "case tb_runtime tb' key of None \<Rightarrow> events_of key tb' = [] | Some row \<Rightarrow> event_chain h row (events_of key tb')"
      using nxt chained_rows [OF assms(1), of key] unfolding ev
      by (cases "event_key i = key") (auto simp: continued(7) split: option.split)
  qed
qed

lemma step_chained: "tables_chained h tb \<Longrightarrow> tables_step h tb tb' \<Longrightarrow> tables_chained h tb'"
  by (erule tables_step.cases, erule append_chained) (simp_all add: tables_chained_def events_of_def cong: option.case_cong)

lemma append_extends:
  assumes "appendEvent h i tb = Inr (tb', r)"
  shows "tables_extend tb tb'"
  using assms
proof (cases rule: append_cases)
  case replay
  then show ?thesis by (simp add: tables_extend_def)
next
  case (first ini)
  then show ?thesis by (auto simp: tables_extend_def events_of_def)
next
  case (continued row)
  then show ?thesis by (auto simp: tables_extend_def events_of_def next_row_def row_identity_def Let_def)
qed

lemma step_tables_extend: "tables_step h tb tb' \<Longrightarrow> tables_extend tb tb'"
  by (erule tables_step.cases) (auto dest: append_extends simp: tables_extend_def events_of_def)

lemma tables_extend_refl: "tables_extend tb tb"
  by (simp add: tables_extend_def)

lemma tables_extend_trans:
  assumes "tables_extend tb tb'" "tables_extend tb' tb''"
  shows "tables_extend tb tb''"
  unfolding tables_extend_def
proof (intro conjI allI impI)
  show "tb_schemaReady tb'' = tb_schemaReady tb" "prefix (tb_events tb) (tb_events tb'')"
    using assms prefix_order.trans by (auto simp: tables_extend_def)
next
  fix key row
  assume row: "tb_runtime tb key = Some row"
  then obtain row' where 1: "tb_runtime tb' key = Some row'" "row_identity row' = row_identity row"
    "rt_stateRevision row \<le> rt_stateRevision row'" "ks_block (rt_source row) \<le> ks_block (rt_source row')"
    "rt_status row = Rt_closed \<longrightarrow> row' = row \<and> events_of key tb' = events_of key tb"
    using assms(1) unfolding tables_extend_def by blast
  from 1(1) obtain row'' where 2: "tb_runtime tb'' key = Some row''" "row_identity row'' = row_identity row'"
    "rt_stateRevision row' \<le> rt_stateRevision row''" "ks_block (rt_source row') \<le> ks_block (rt_source row'')"
    "rt_status row' = Rt_closed \<longrightarrow> row'' = row' \<and> events_of key tb'' = events_of key tb'"
    using assms(2) unfolding tables_extend_def by blast
  then show "\<exists>row'. tb_runtime tb'' key = Some row' \<and> row_identity row' = row_identity row \<and>
      rt_stateRevision row \<le> rt_stateRevision row' \<and> ks_block (rt_source row) \<le> ks_block (rt_source row') \<and>
      (rt_status row = Rt_closed \<longrightarrow> row' = row \<and> events_of key tb'' = events_of key tb)"
    using 1 by (intro exI [of _ row'']) auto
qed

interpretation events: recording_machine tables_empty "tables_step h" "tables_chained h" tables_extend for h
proof
  show "tables_chained h tb" if "tables_empty tb" for tb using that by (simp add: tables_empty_def tables_chained_def events_of_def)
qed (auto intro: step_chained step_tables_extend tables_extend_refl tables_extend_trans)

text \<open>
  C28: the events of every revision form one chain.  In all tables that appending can lead to, the
  events of a revision with a runtime row start with its initialization, are numbered 1, 2, ...
  up to the row's state revision, have distinct effects and blocks that never decrease, and each
  names as the state before it the hash that the event before left behind; the row holds the
  state of the last one.  Events without a row do not exist.
\<close>

theorem event_log_chained:
  assumes "reachable tables_empty (tables_step h) tb"
  shows "(\<forall>key row. tb_runtime tb key = Some row \<longrightarrow> event_chain h row (events_of key tb)) \<and>
    (\<forall>e\<in>set (tb_events tb). tb_runtime tb (ev_key e) \<noteq> None)"
proof -
  note inv = events.reachable_inv [OF assms]
  have "tb_runtime tb (ev_key e) \<noteq> None" if "e \<in> set (tb_events tb)" for e
  proof
    assume "tb_runtime tb (ev_key e) = None"
    then have "events_of (ev_key e) tb = []" by (rule chained_rows(1) [OF inv])
    then show False using that by (auto simp: events_of_def filter_empty_conv)
  qed
  then show ?thesis using chained_rows(2) [OF inv] by blast
qed

text \<open>
  the history of a campaign is only written forward.  Whatever is appended later, events stay,
  a runtime row keeps its wallet, profile, configuration, allocation and initial amounts, its
  revision and its block never decrease, and once it is closed neither the row nor its events change.
\<close>

theorem event_log_only_advances:
  assumes "reachable tables_empty (tables_step h) tb" "(tables_step h)\<^sup>*\<^sup>* tb tb'"
  shows "tables_extend tb tb'"
  by (rule events.reachable_extends [OF assms])

lemma run_tables_extend: "(tables_step h)\<^sup>*\<^sup>* tb tb' \<Longrightarrow> tables_extend tb tb'"
  by (induction rule: rtranclp_induct) (auto intro: tables_extend_refl tables_extend_trans step_tables_extend)

lemma find_snoc: "find P (xs @ ys) = (case find P xs of None \<Rightarrow> find P ys | Some x \<Rightarrow> Some x)"
  by (induction xs) simp_all

lemma prior_event_extends: "tables_extend tb tb' \<Longrightarrow> prior_event i tb = Some e \<Longrightarrow> prior_event i tb' = Some e"
  by (auto simp: tables_extend_def prior_event_def events_of_def prefix_def find_snoc)

lemma prior_event_new:
  "prior_event i tb = None \<Longrightarrow> tb_events tb' = tb_events tb @ [new_event h i n before] \<Longrightarrow>
     prior_event i tb' = Some (new_event h i n before)"
  by (simp add: prior_event_def events_of_def find_snoc)

text \<open>
  C9: an effect is applied once.  Appending an event again, after any other transactions, finds
  it: it changes nothing and returns the state, the hash and the revision of the first time, so a
  worker that stopped between its transaction and its next step may repeat it.
\<close>

theorem effect_applied_once:
  assumes "appendEvent h i tb = Inr (tb', r)" "(tables_step h)\<^sup>*\<^sup>* tb' tb''"
  shows "appendEvent h i tb'' = Inr (tb'', r\<lparr>es_replayed := True\<rparr>)"
proof -
  have ext: "tables_extend tb tb''" "tables_extend tb' tb''"
    using append_extends [OF assms(1)] run_tables_extend [OF assms(2)] tables_extend_trans by blast+
  have adm: "tb_schemaReady tb''" "event_admissible h i"
    using assms(1) ext(1) by (simp_all add: append_unfold tables_extend_def)
  have again: ?thesis if "prior_event i tb' = Some (new_event h i n before)" "r = event_result h i n False" for n before
    using prior_event_extends [OF ext(2) that(1)] adm
    by (simp add: append_unfold replay_event_def that(2) event_result_def)
  show ?thesis using assms(1)
  proof (cases rule: append_cases)
    case (replay e)
    then show ?thesis using prior_event_extends [OF ext(2), of i e] adm
      by (auto simp: append_unfold replay_event_def event_result_def bind_ok_Inr_iff)
  next
    case (first ini)
    show ?thesis by (rule again [OF prior_event_new [OF first(1)] first(8)]) (simp add: first(7))
  next
    case (continued row)
    show ?thesis by (rule again [OF prior_event_new [OF continued(1)] continued(8)]) (simp add: continued(7))
  qed
qed

subsection \<open>Handlers that read, decide and append\<close>

text \<open>
  The handlers of \<open>rangekeeper-live-queue-adapters.ts\<close> and of the planner: each reads the state of a
  campaign, at any earlier time, derives its successor by a step of the campaign (or repeats the
  state, when an opening completes), and appends it under the hash of what it read.  The states
  that occur are those of a set \<open>S\<close>, on which the hash is taken to be free of collisions.
\<close>

inductive managed_step ::
  "(RangeKeeperConfig \<Rightarrow> string) \<Rightarrow> event_hashes \<Rightarrow> RangeKeeperLiveState set \<Rightarrow> campaign_tables \<Rightarrow> campaign_tables \<Rightarrow> bool"
  for config_hash :: "RangeKeeperConfig \<Rightarrow> string" and h :: event_hashes and S :: "RangeKeeperLiveState set"
where
  managed_open: "campaign_opened config_hash (ei_state i) \<Longrightarrow> ei_expectedStateHash i = None \<Longrightarrow> ei_state i \<in> S \<Longrightarrow>
    initializeRangeKeeperLiveCampaign h i tb = Inr (tb', r) \<Longrightarrow> managed_step config_hash h S tb tb'"
| managed_next: "ei_expectedStateHash i = Some (eh_stateHash h st) \<Longrightarrow> campaign_step config_hash st (ei_state i) \<or> ei_state i = st \<Longrightarrow>
    st \<in> S \<Longrightarrow> ei_state i \<in> S \<Longrightarrow> appendEvent h i tb = Inr (tb', r) \<Longrightarrow> managed_step config_hash h S tb tb'"
| managed_elsewhere: "managed_step config_hash h S tb (tb\<lparr>tb_lifecycle := lc, tb_allocations := al\<rparr>)"

definition tables_managed ::
  "(RangeKeeperConfig \<Rightarrow> string) \<Rightarrow> event_hashes \<Rightarrow> RangeKeeperLiveState set \<Rightarrow> campaign_tables \<Rightarrow> bool" where
  "tables_managed config_hash h S tb \<longleftrightarrow> tables_chained h tb \<and> (\<forall>key row. tb_runtime tb key = Some row \<longrightarrow>
     rt_state row \<in> S \<and> reachable (campaign_opened config_hash) (campaign_step config_hash) (rt_state row))"

lemma managed_rows:
  assumes "tables_managed config_hash h S tb" "tb_runtime tb key = Some row"
  shows "rt_state row \<in> S" "reachable (campaign_opened config_hash) (campaign_step config_hash) (rt_state row)"
    "event_chain h row (events_of key tb)"
proof -
  have chained: "tables_chained h tb" using assms(1) by (simp add: tables_managed_def)
  show "event_chain h row (events_of key tb)" by (rule chained_rows(2) [OF chained assms(2)])
qed (use assms in \<open>unfold tables_managed_def, blast+\<close>)

lemma initialize_Inr: "initializeRangeKeeperLiveCampaign h i tb = Inr x \<Longrightarrow> appendEvent h i tb = Inr x"
  by (auto simp: initializeRangeKeeperLiveCampaign_def bind_ok_Inr_iff)

lemma managed_tables_step: "managed_step config_hash h S tb tb' \<Longrightarrow> tables_step h tb tb'"
  by (erule managed_step.cases) (auto intro: tables_step.intros dest: initialize_Inr)

lemma managed_open_keeps:
  assumes "tables_managed config_hash h S tb" "campaign_opened config_hash (ei_state i)" "ei_expectedStateHash i = None"
    "ei_state i \<in> S" "appendEvent h i tb = Inr (tb', r)"
  shows "tables_managed config_hash h S tb'"
  using assms(5)
proof (cases rule: append_cases)
  case replay
  with assms(1) show ?thesis by simp
next
  case (first ini)
  have "reachable (campaign_opened config_hash) (campaign_step config_hash) (ei_state i)"
    using assms(2) unfolding reachable_def by blast
  moreover have "tables_chained h tb'" using assms(1,5) append_chained by (auto simp: tables_managed_def)
  ultimately show ?thesis using assms(1,4)
    by (auto simp: tables_managed_def first(7) initial_row_def)
qed (use assms(3) in simp)

lemma managed_next_keeps:
  assumes "inj_on (eh_stateHash h) S" "tables_managed config_hash h S tb" "ei_expectedStateHash i = Some (eh_stateHash h st)"
    "campaign_step config_hash st (ei_state i) \<or> ei_state i = st" "st \<in> S" "ei_state i \<in> S" "appendEvent h i tb = Inr (tb', r)"
  shows "tables_managed config_hash h S tb'"
  using assms(7)
proof (cases rule: append_cases)
  case replay
  with assms(2) show ?thesis by simp
next
  case (continued row)
  note row = managed_rows [OF assms(2) continued(2)]
  then have "eh_stateHash h (rt_state row) = eh_stateHash h st" using continued(4) assms(3) by (simp add: event_chain_def)
  then have "rt_state row = st" using assms(1,5) row(1) by (simp add: inj_on_def)
  then have "reachable (campaign_opened config_hash) (campaign_step config_hash) (ei_state i)"
    using row(2) assms(4) by (auto intro: campaign.reachable_step)
  moreover have "tables_chained h tb'" using assms(2,7) append_chained by (auto simp: tables_managed_def)
  ultimately show ?thesis using assms(2,6)
    by (auto simp: tables_managed_def continued(7) next_row_def Let_def)
qed (use assms(3) in simp)

lemma managed_step_keeps:
  assumes "inj_on (eh_stateHash h) S" and m: "tables_managed config_hash h S tb" and step: "managed_step config_hash h S tb tb'"
  shows "tables_managed config_hash h S tb'"
  using step
proof cases
  case (managed_open i r)
  show ?thesis by (rule managed_open_keeps [OF m managed_open(1-3) initialize_Inr [OF managed_open(4)]])
next
  case (managed_next i st r)
  show ?thesis by (rule managed_next_keeps [OF assms(1) m managed_next])
next
  case (managed_elsewhere lc al)
  have "tables_chained h tb'" by (rule step_chained [OF _ managed_tables_step [OF step]]) (use m in \<open>simp add: tables_managed_def\<close>)
  then show ?thesis using m by (simp add: tables_managed_def managed_elsewhere)
qed

interpretation managed: invariant_machine tables_empty "managed_step config_hash h S"
  "\<lambda>tb. inj_on (eh_stateHash h) S \<longrightarrow> tables_managed config_hash h S tb" for config_hash h S
proof
  fix tb
  assume "tables_empty tb"
  then show "inj_on (eh_stateHash h) S \<longrightarrow> tables_managed config_hash h S tb"
    using events.init_inv by (simp add: tables_managed_def tables_empty_def)
qed (use managed_step_keeps in blast)

text \<open>
  C5: concurrent handlers cannot corrupt a campaign.  However handlers interleave, and however old
  the state is that each of them read, the state that is stored is one that the campaign's own
  steps lead to from its opening, so the invariants of the campaign hold of it.
\<close>

theorem stored_states_are_reachable:
  assumes "inj_on (eh_stateHash h) S" "reachable tables_empty (managed_step config_hash h S) tb" "tb_runtime tb key = Some row"
  shows "reachable (campaign_opened config_hash) (campaign_step config_hash) (rt_state row) \<and> campaign_wf (rt_state row)"
proof -
  have "reachable (campaign_opened config_hash) (campaign_step config_hash) (rt_state row)"
    using managed.reachable_inv [OF assms(2)] assms(1) managed_rows(2) [OF _ assms(3)] by blast
  then show ?thesis using campaign.reachable_inv by blast
qed

subsection \<open>Witnesses\<close>

definition sample_hashes :: event_hashes where
  "sample_hashes = \<lparr>eh_isAddress = (\<lambda>a. a = ''0xa''), eh_stateHash = (\<lambda>st. show_int (lv_lastMarkTimestamp st)),
     eh_payloadHash = (\<lambda>p. p), eh_configHash = sample_config_hash\<rparr>"

definition sample_tables :: campaign_tables where
  "sample_tables = \<lparr>tb_schemaReady = True, tb_lifecycle = [''c'' \<mapsto> Campaign_opening],
     tb_allocations = [''a'' \<mapsto> \<lparr>aw_campaignId = ''c'', aw_revision = 1, aw_chainId = 4663, aw_wallet = ''0xa'', aw_state = Alloc_reserved,
       aw_profileId = ''p'', aw_profileHash = sample_digest, aw_profileContentHash = sample_digest,
       aw_strategyId = ''rangekeeper_v1'', aw_configContentHash = ''rh''\<rparr>],
     tb_runtime = Map.empty, tb_events = []\<rparr>"

definition sample_initial :: runtime_initial where
  "sample_initial = \<lparr>ii_profileId = ''p'', ii_profileHash = sample_digest, ii_config = sample_stage_config,
     ii_configHash = ''0x'' @ sample_digest, ii_revisionConfigHash = ''rh'', ii_allocationId = ''a'',
     ii_initialToken0Raw = 600000, ii_initialToken1Raw = 600000, ii_initialNativeWei = 1000\<rparr>"

definition sample_event_input ::
  "runtime_event_kind \<Rightarrow> string \<Rightarrow> string option \<Rightarrow> RangeKeeperLiveState \<Rightarrow> int \<Rightarrow> RangeKeeperRuntimeEventInput" where
  "sample_event_input k effect expected st block = \<lparr>ei_chainId = 4663, ei_address = ''0xa'', ei_campaignId = ''c'', ei_revision = 1,
     ei_effectId = effect, ei_kind = k, ei_expectedStateHash = expected, ei_state = st,
     ei_source = \<lparr>ks_block = block, ks_hash = ''0x'' @ sample_digest, ks_timestamp = 100\<rparr>, ei_receiptHash = None,
     ei_payload = ''{}'', ei_initial = (if k = Ev_initialized then Some sample_initial else None)\<rparr>"

lemma sample_opened:
  obtains st st' where "campaign_opened sample_config_hash st" "campaign_step sample_config_hash st st'"
    "lv_id st = ''c''" "lv_operator st = ''0xa''" "lv_configHash st = ''0x'' @ sample_digest" "lv_phase st = Phase_entry"
    "lv_initial0 st = 600000" "lv_initial1 st = 600000" "lv_initialNativeWei st = 1000" "lv_lastMarkTimestamp st = 100"
    "lv_lastMarkTimestamp st' = 110" "lv_id st' = ''c''" "lv_operator st' = ''0xa''"
proof -
  obtain st where st: "buildRangeKeeperLiveEntryState sample_config_hash (sample_campaign None) sample_entry_snapshot = Inr st"
    "lv_phase st = Phase_entry" "lv_last st = sample_entry_snapshot" "lv_initial0 st = 600000" "lv_initial1 st = 600000"
    "lv_configHash st = ''0x'' @ sample_digest" using sample_entry by blast
  have more: "lv_id st = ''c'' \<and> lv_operator st = ''0xa'' \<and> lv_initialNativeWei st = 1000 \<and> lv_lastMarkTimestamp st = 100"
    using st(1) unfolding buildRangeKeeperLiveEntryState_def Let_def
    by (auto simp: bind_ok_Inr_iff sample_campaign_def sample_allocation_def sample_entry_snapshot_def sample_snapshot_def
        split: option.split_asm)
  let ?snap = "sample_entry_snapshot\<lparr>sn_block := 10, sn_timestamp := 110\<rparr>"
  obtain st' where mark: "recordRangeKeeperLiveValuationMark (sample_campaign (Some st)) ?snap = Inr st'"
    and t: "lv_lastMarkTimestamp st' = 110"
    using st(3) by (simp add: recordRangeKeeperLiveValuationMark_def sample_campaign_def sample_entry_snapshot_def
        sample_snapshot_def same_def)
  have state: "cm_state (sample_campaign (Some st)) = Some st" by (simp add: sample_campaign_def)
  have "campaign_step sample_config_hash st st'"
    by (rule campaign_step.step_mark [OF state _ mark]) (simp add: st(2))
  moreover have "lv_id st' = ''c''" "lv_operator st' = ''0xa''" using mark_cases [OF state mark] more by auto
  moreover have "campaign_opened sample_config_hash st" using st(1) unfolding campaign_opened_def by blast
  ultimately show thesis using st more t by (intro that [of st st']) simp_all
qed

text \<open>Two transactions: the initialization, and a mark under the hash of the state that it stored.\<close>

lemma sample_log:
  assumes st: "lv_id st = ''c''" "lv_operator st = ''0xa''" "lv_configHash st = ''0x'' @ sample_digest" "lv_phase st = Phase_entry"
    "lv_initial0 st = 600000" "lv_initial1 st = 600000" "lv_initialNativeWei st = 1000" "lv_lastMarkTimestamp st = 100"
    "lv_id st2 = ''c''" "lv_operator st2 = ''0xa''"
  obtains tb1 tb2 r row where
    "appendEvent sample_hashes (sample_event_input Ev_initialized ''e1'' None st 9) sample_tables = Inr (tb1, r)"
    "es_replayed r = False" "appendEvent sample_hashes (sample_event_input Ev_mark ''e2'' (Some (show_int 100)) st2 10) tb1 =
      Inr (tb2, event_result sample_hashes (sample_event_input Ev_mark ''e2'' (Some (show_int 100)) st2 10) 2 False)"
    "tb_runtime tb2 (''c'', 1) = Some row" "rt_state row = st2" "rt_stateRevision row = 2"
proof -
  have low: "lower ''0xa'' = ''0xa''" by (simp add: lower_def lower_char_def)
  have effect: "effect_id_text ''e1''" "effect_id_text ''e2''" by (simp_all add: effect_id_text_def stage_char_def is_digit_def)
  have len: "length sample_digest = 64" by (simp add: sample_digest_def)
  let ?i = "sample_event_input Ev_initialized ''e1'' None st 9" and ?j = "sample_event_input Ev_mark ''e2'' (Some (show_int 100)) st2 10"
  let ?row = "initial_row sample_hashes ?i ''0xa'' sample_initial"
  let ?tb1 = "sample_tables\<lparr>tb_runtime := (tb_runtime sample_tables)((''c'', 1) \<mapsto> ?row), tb_events := [new_event sample_hashes ?i 1 zeroHash]\<rparr>"
  have adm: "event_admissible sample_hashes ?i" "event_admissible sample_hashes ?j"
    by (simp_all add: event_admissible_def event_input_checks_def sample_hashes_def sample_event_input_def low effect assertion_def
        sample_digest_ok(3) [simplified] st)
  have "allocation_checks sample_hashes ?i ''0xa'' sample_tables sample_initial = Inr ()" "initial_checks sample_hashes ?i sample_initial = Inr ()"
    by (simp_all add: allocation_checks_def sample_tables_def sample_initial_def sample_event_input_def assertion_def
        initial_checks_def sample_hashes_def sample_config_hash_def st)
  then have 1: "appendEvent sample_hashes ?i sample_tables = Inr (?tb1, event_result sample_hashes ?i 1 False)"
    using adm(1) by (simp add: append_unfold prior_event_def events_of_def append_first_def sample_event_input_def event_key_def
        low assertion_def sample_initial_def len sample_tables_def)
  have 2: "tb_runtime ?tb1 (''c'', 1) = Some ?row" "prior_event ?j ?tb1 = None" "rt_status ?row \<noteq> Rt_closed"
    "rt_stateHash ?row = show_int 100" "rt_stateRevision ?row = 1" "tb_schemaReady ?tb1" "event_key ?j = (''c'', 1)"
    "rt_source ?row = \<lparr>ks_block = 9, ks_hash = ''0x'' @ sample_digest, ks_timestamp = 100\<rparr>"
    by (simp_all add: prior_event_def events_of_def new_event_def sample_event_input_def event_key_def initial_row_def
        statusFor_def sample_hashes_def st sample_tables_def)
  have j: "ei_expectedStateHash ?j = Some (show_int 100)" "ks_block (ei_source ?j) = 10" by (simp_all add: sample_event_input_def)
  obtain tb2 where tb2: "append_next sample_hashes ?j ?tb1 ?row = Inr (tb2, event_result sample_hashes ?j 2 False)"
      "tb_runtime tb2 (''c'', 1) = Some (next_row sample_hashes ?j ?row)"
    by (simp add: append_next_def 2 j)
  have second: "appendEvent sample_hashes ?j ?tb1 = Inr (tb2, event_result sample_hashes ?j 2 False)"
    unfolding append_unfold 2(2,7) option.case 2(1) using tb2(1) adm(2) 2(6) by blast
  have fin: "rt_state (next_row sample_hashes ?j ?row) = st2" "rt_stateRevision (next_row sample_hashes ?j ?row) = 2"
    using 2(5) by (simp_all add: next_row_def Let_def sample_event_input_def)
  show thesis by (rule that [OF 1 _ second tb2(2) fin]) (simp add: event_result_def)
qed

lemma sample_managed:
  obtains S tb1 tb2 row r st st' where "inj_on (eh_stateHash sample_hashes) S"
    "appendEvent sample_hashes (sample_event_input Ev_initialized ''e1'' None st 9) sample_tables = Inr (tb1, r)" "\<not> es_replayed r"
    "managed_step sample_config_hash sample_hashes S sample_tables tb1" "managed_step sample_config_hash sample_hashes S tb1 tb2"
    "tb_runtime tb2 (''c'', 1) = Some row" "rt_stateRevision row = 2" "campaign_step sample_config_hash st st'" "rt_state row = st'"
proof -
  obtain st st' where s: "campaign_opened sample_config_hash st" "campaign_step sample_config_hash st st'"
    and f: "lv_id st = ''c''" "lv_operator st = ''0xa''" "lv_configHash st = ''0x'' @ sample_digest" "lv_phase st = Phase_entry"
    "lv_initial0 st = 600000" "lv_initial1 st = 600000" "lv_initialNativeWei st = 1000" "lv_lastMarkTimestamp st = 100"
    and t: "lv_lastMarkTimestamp st' = 110" and f': "lv_id st' = ''c''" "lv_operator st' = ''0xa''"
    by (rule sample_opened)
  obtain tb1 tb2 r row where l:
    "appendEvent sample_hashes (sample_event_input Ev_initialized ''e1'' None st 9) sample_tables = Inr (tb1, r)" "es_replayed r = False"
    "appendEvent sample_hashes (sample_event_input Ev_mark ''e2'' (Some (show_int 100)) st' 10) tb1 =
      Inr (tb2, event_result sample_hashes (sample_event_input Ev_mark ''e2'' (Some (show_int 100)) st' 10) 2 False)"
    "tb_runtime tb2 (''c'', 1) = Some row" "rt_state row = st'" "rt_stateRevision row = 2"
    by (rule sample_log [OF f f'])
  have "show_int 110 \<noteq> show_int 100" by simp
  then have "inj_on (eh_stateHash sample_hashes) {st, st'}" using f(8) t by (auto simp: inj_on_def sample_hashes_def)
  note inj = this
  have open_step: "managed_step sample_config_hash sample_hashes {st, st'} sample_tables tb1"
    by (rule managed_open [where i = "sample_event_input Ev_initialized ''e1'' None st 9" and r = r])
      (use s l(1) in \<open>simp_all add: sample_event_input_def initializeRangeKeeperLiveCampaign_def assertion_def\<close>)
  have next_step: "managed_step sample_config_hash sample_hashes {st, st'} tb1 tb2"
    by (rule managed_next [OF _ _ _ _ l(3), of st])
      (use s f(8) in \<open>simp_all add: sample_event_input_def sample_hashes_def\<close>)
  show thesis by (rule that [OF inj l(1) _ open_step next_step l(4,6) s(2) l(5)]) (simp add: l(2))
qed

lemma sample_tables_empty: "tables_empty sample_tables"
  by (simp add: tables_empty_def sample_tables_def)

theorem event_log_chained_witness:
  "\<exists>tb row. reachable tables_empty (tables_step sample_hashes) tb \<and> tb_runtime tb (''c'', 1) = Some row \<and>
     rt_stateRevision row = 2 \<and> event_chain sample_hashes row (events_of (''c'', 1) tb)"
proof -
  obtain S tb1 tb2 row where m: "managed_step sample_config_hash sample_hashes S sample_tables tb1"
    "managed_step sample_config_hash sample_hashes S tb1 tb2" "tb_runtime tb2 (''c'', 1) = Some row" "rt_stateRevision row = 2"
    by (rule sample_managed) blast
  have "reachable tables_empty (tables_step sample_hashes) tb2"
    unfolding reachable_def using sample_tables_empty m(1,2) [THEN managed_tables_step] by (blast intro: rtranclp.intros)
  from this event_log_chained [OF this] m(3,4) show ?thesis by blast
qed

theorem event_log_only_advances_witness:
  "\<exists>tb tb' row. tables_step sample_hashes tb tb' \<and> tb_runtime tb' (''c'', 1) = Some row \<and> rt_stateRevision row = 2 \<and> tables_extend tb tb'"
proof -
  obtain S tb1 tb2 row where m: "managed_step sample_config_hash sample_hashes S sample_tables tb1"
    "managed_step sample_config_hash sample_hashes S tb1 tb2" "tb_runtime tb2 (''c'', 1) = Some row" "rt_stateRevision row = 2"
    by (rule sample_managed) blast
  note step = m(1,2) [THEN managed_tables_step]
  have "reachable tables_empty (tables_step sample_hashes) tb1"
    unfolding reachable_def using sample_tables_empty step(1) by blast
  from event_log_only_advances [OF this r_into_rtranclp [of "tables_step sample_hashes", OF step(2)]] step(2) m(3,4)
  show ?thesis by blast
qed

theorem effect_applied_once_witness:
  "\<exists>st tb1 tb2 r. tb_events tb2 \<noteq> tb_events tb1 \<and> \<not> es_replayed r \<and>
     appendEvent sample_hashes (sample_event_input Ev_initialized ''e1'' None st 9) sample_tables = Inr (tb1, r) \<and>
     appendEvent sample_hashes (sample_event_input Ev_initialized ''e1'' None st 9) tb2 = Inr (tb2, r\<lparr>es_replayed := True\<rparr>)"
proof -
  obtain S tb1 tb2 row r st st' where m:
    "appendEvent sample_hashes (sample_event_input Ev_initialized ''e1'' None st 9) sample_tables = Inr (tb1, r)" "\<not> es_replayed r"
    "managed_step sample_config_hash sample_hashes S sample_tables tb1"
    "managed_step sample_config_hash sample_hashes S tb1 tb2" "tb_runtime tb2 (''c'', 1) = Some row" "rt_stateRevision row = 2"
    by (rule sample_managed) blast
  have "reachable tables_empty (tables_step sample_hashes) tb2" "reachable tables_empty (tables_step sample_hashes) tb1"
    unfolding reachable_def using sample_tables_empty m(3,4) [THEN managed_tables_step] by (blast intro: rtranclp.intros)+
  then have "length (events_of (''c'', 1) tb2) = 2"
    using chained_rows(2) [OF events.reachable_inv m(5)] m(6) by (simp add: event_chain_def)
  moreover have "length (tb_events tb1) = 1"
    using m(1,2) by (cases rule: append_cases) (auto simp: sample_tables_def replay_event_def event_result_def bind_ok_Inr_iff)
  ultimately have "tb_events tb2 \<noteq> tb_events tb1" using length_filter_le [of "\<lambda>e. ev_key e = (''c'', 1)" "tb_events tb2"]
    by (auto simp: events_of_def)
  with m(1,2) effect_applied_once [OF m(1) r_into_rtranclp [of "tables_step sample_hashes", OF managed_tables_step [OF m(4)]]]
  show ?thesis by blast
qed

theorem stored_states_are_reachable_witness:
  "\<exists>S tb row st. reachable tables_empty (managed_step sample_config_hash sample_hashes S) tb \<and>
     tb_runtime tb (''c'', 1) = Some row \<and> rt_stateRevision row = 2 \<and> campaign_step sample_config_hash st (rt_state row) \<and>
     campaign_wf (rt_state row)"
proof -
  obtain S tb1 tb2 row st st' where m: "inj_on (eh_stateHash sample_hashes) S"
    "managed_step sample_config_hash sample_hashes S sample_tables tb1"
    "managed_step sample_config_hash sample_hashes S tb1 tb2" "tb_runtime tb2 (''c'', 1) = Some row" "rt_stateRevision row = 2"
    "campaign_step sample_config_hash st st'" "rt_state row = st'"
    by (rule sample_managed) blast
  have r: "reachable tables_empty (managed_step sample_config_hash sample_hashes S) tb2"
    unfolding reachable_def using sample_tables_empty m(2,3) by (blast intro: rtranclp.intros)
  from stored_states_are_reachable [OF m(1) r m(4)] r m(4-7) show ?thesis by blast
qed

end
