(* ===== verification/Stable_Baseline.thy ===== *)
theory Stable_Baseline
  imports Backtest_Domain
begin

section \<open>The stable-fee baseline\<close>

text \<open>
  \<open>src/backtest/baseline.ts\<close>: what the core positions that nobody touched between two accounting
  runs have accrued, per pool.  \<open>Date.parse\<close> (with \<open>None\<close> for what is not a date) and the clock
  are parameters; the map of pools is an association list in insertion order.
\<close>

subsection \<open>Model\<close>

definition poolKey :: "string \<Rightarrow> string" where
  "poolKey address = lower address"

definition requireNonnegativeInteger :: "int \<Rightarrow> string \<Rightarrow> unit res" where
  "requireNonnegativeInteger v name =
     ensure (safe_integer v \<and> \<not> v < 0) (name @ '' must be a nonnegative safe integer'')"

definition validateRunOrder ::
  "(string \<Rightarrow> int option) \<Rightarrow> AccountingRunReference \<Rightarrow> AccountingRunReference \<Rightarrow> int res" where
  "validateRunOrder date_parse f t =
     bind_ok (ensure (\<not> blockNumber f \<ge> blockNumber t) ''Baseline accounting runs must be strictly block-ordered'') (\<lambda>_.
     case (date_parse (blockTimestamp f), date_parse (blockTimestamp t)) of
       (Some a, Some b) \<Rightarrow>
         bind_ok (ensure (\<not> b < a) ''Baseline accounting runs have invalid block timestamps'') (\<lambda>_. Inr ((b - a) div 1000))
     | _ \<Rightarrow> Inl ''Baseline accounting runs have invalid block timestamps'')"

type_synonym pool_map = "(string \<times> StableFeePoolBaseline) list"

definition empty_pool :: "PoolIntervalInput \<Rightarrow> StableFeePoolBaseline" where
  "empty_pool p = \<lparr>accrued0 = 0, accrued1 = 0, activePositionsFrom = pi_activePositionsFrom p,
     activePositionsTo = pi_activePositionsTo p, enteredPositions = 0, exitedPositions = 0, sb_fee = pi_fee p,
     pairedActivePositions = 0, sb_poolAddress = pi_poolAddress p, sb_rwaSymbol = pi_rwaSymbol p, stablePositions = 0,
     sb_token0 = pi_token0 p, sb_token1 = pi_token1 p, touchedPositions = 0\<rparr>"

definition add_pool :: "pool_map \<Rightarrow> PoolIntervalInput \<Rightarrow> pool_map res" where
  "add_pool pools p =
     bind_ok (requireNonnegativeInteger (pi_activePositionsFrom p) (pi_poolAddress p @ '' activePositionsFrom'')) (\<lambda>_.
     bind_ok (requireNonnegativeInteger (pi_activePositionsTo p) (pi_poolAddress p @ '' activePositionsTo'')) (\<lambda>_.
     let key = poolKey (pi_poolAddress p) in
     bind_ok (ensure (map_of pools key = None) (''Duplicate baseline pool '' @ pi_poolAddress p)) (\<lambda>_.
     Inr (AList.update key (empty_pool p) pools))))"

definition position_name :: "PositionIntervalInput \<Rightarrow> string" where
  "position_name x = px_poolAddress x @ '':'' @ px_ownerAddress x @ '':'' @ show_int (px_tickLower x) @ '':'' @ show_int (px_tickUpper x)"

text \<open>The checks of a position that was not touched: liquidity, checkpoints and pending fees.\<close>

definition untouched_checks :: "PositionIntervalInput \<Rightarrow> unit res" where
  "untouched_checks x =
     bind_ok (ensure (liquidityFrom x = liquidityTo x) (''Untouched position liquidity changed for '' @ position_name x)) (\<lambda>_.
     bind_ok (ensure (feeGrowthInside0LastFromX128 x = feeGrowthInside0LastToX128 x \<and>
         feeGrowthInside1LastFromX128 x = feeGrowthInside1LastToX128 x)
       (''Untouched position checkpoint changed for '' @ position_name x)) (\<lambda>_.
     ensure (\<not> (pending0To x < pending0From x \<or> pending1To x < pending1From x))
       (''Untouched position pending fees decreased for '' @ position_name x)))"

definition add_position :: "pool_map \<Rightarrow> PositionIntervalInput \<Rightarrow> pool_map res" where
  "add_position pools x = (let key = poolKey (px_poolAddress x) in case map_of pools key of
      None \<Rightarrow> Inl (''Position references unknown baseline pool '' @ px_poolAddress x)
    | Some p \<Rightarrow>
        bind_ok (ensure (\<not> (liquidityFrom x \<le> 0 \<or> liquidityTo x \<le> 0))
          ''Baseline position pairs must be active at both endpoints'') (\<lambda>_.
        let paired = pairedActivePositions p + 1 in
        if touched x
        then Inr (AList.update key (p\<lparr>pairedActivePositions := paired, touchedPositions := touchedPositions p + 1\<rparr>) pools)
        else bind_ok (untouched_checks x) (\<lambda>_.
          Inr (AList.update key (p\<lparr>accrued0 := accrued0 p + pending0To x - pending0From x,
            accrued1 := accrued1 p + pending1To x - pending1From x, pairedActivePositions := paired,
            stablePositions := stablePositions p + 1\<rparr>) pools))))"

definition close_pool :: "StableFeePoolBaseline \<Rightarrow> StableFeePoolBaseline res" where
  "close_pool p =
     bind_ok (ensure (\<not> (pairedActivePositions p > activePositionsFrom p \<or> pairedActivePositions p > activePositionsTo p \<or>
         stablePositions p + touchedPositions p \<noteq> pairedActivePositions p))
       (''Baseline position coverage is inconsistent for '' @ sb_poolAddress p)) (\<lambda>_.
     Inr (p\<lparr>enteredPositions := activePositionsTo p - pairedActivePositions p,
       exitedPositions := activePositionsFrom p - pairedActivePositions p\<rparr>))"

definition add_totals :: "StableFeeTotals \<Rightarrow> StableFeePoolBaseline \<Rightarrow> StableFeeTotals" where
  "add_totals t p = \<lparr>t_enteredPositions = t_enteredPositions t + enteredPositions p,
     t_exitedPositions = t_exitedPositions t + exitedPositions p,
     t_pairedActivePositions = t_pairedActivePositions t + pairedActivePositions p,
     t_stablePositions = t_stablePositions t + stablePositions p,
     t_touchedPositions = t_touchedPositions t + touchedPositions p\<rparr>"

definition no_totals :: StableFeeTotals where
  "no_totals = \<lparr>t_enteredPositions = 0, t_exitedPositions = 0, t_pairedActivePositions = 0, t_stablePositions = 0,
     t_touchedPositions = 0\<rparr>"

definition baseline_of ::
  "string \<Rightarrow> string \<Rightarrow> AccountingRunReference \<Rightarrow> AccountingRunReference \<Rightarrow> int \<Rightarrow> StableFeePoolBaseline list \<Rightarrow> StableFeeBaseline" where
  "baseline_of now stream f t elapsed ps = \<lparr>blockDelta = blockNumber t - blockNumber f, computedAt = now, elapsedSeconds = elapsed,
     executionEligible = False, from_run = f,
     limitations = [''stable_positions_only'', ''mint_or_burn_touched_positions_excluded'', ''not_total_pool_fee_revenue'',
       ''core_position_keys_not_nft_attribution'', ''raw_token_units_no_usd_value_or_pnl''],
     methodology = ''stable_core_position_pending_delta'', baseline_pools = ps, schemaVersion = 1, streamKey = stream, to_run = t,
     totals = foldl add_totals no_totals ps\<rparr>"

definition buildStableFeeBaseline ::
  "(string \<Rightarrow> int option) \<Rightarrow> string \<Rightarrow> AccountingRunReference \<Rightarrow> PoolIntervalInput list \<Rightarrow> PositionIntervalInput list \<Rightarrow>
   string \<Rightarrow> AccountingRunReference \<Rightarrow> StableFeeBaseline res"
where
  "buildStableFeeBaseline date_parse now f pools positions stream t =
     bind_ok (validateRunOrder date_parse f t) (\<lambda>elapsed.
     bind_ok (fold_res add_pool [] pools) (\<lambda>empty.
     bind_ok (fold_res add_position empty positions) (\<lambda>filled.
     bind_ok (map_res close_pool (map snd filled)) (\<lambda>closed.
     Inr (baseline_of now stream f t elapsed closed)))))"

subsection \<open>Reference\<close>

text \<open>What a baseline should say of a pool, as sums and counts over the positions, in any order.\<close>

definition positions_of :: "PoolIntervalInput \<Rightarrow> PositionIntervalInput list \<Rightarrow> PositionIntervalInput list" where
  "positions_of p xs = filter (\<lambda>x. poolKey (px_poolAddress x) = poolKey (pi_poolAddress p)) xs"

definition still :: "PositionIntervalInput list \<Rightarrow> PositionIntervalInput list" where
  "still xs = filter (\<lambda>x. \<not> touched x) xs"

definition count :: "'a list \<Rightarrow> int" where
  "count xs = int (length xs)"

definition partial_pool :: "PositionIntervalInput list \<Rightarrow> PoolIntervalInput \<Rightarrow> StableFeePoolBaseline" where
  "partial_pool xs p = (let ys = positions_of p xs in (empty_pool p)\<lparr>
     accrued0 := (\<Sum>x\<leftarrow>still ys. pending0To x - pending0From x), accrued1 := (\<Sum>x\<leftarrow>still ys. pending1To x - pending1From x),
     pairedActivePositions := count ys, stablePositions := count (still ys), touchedPositions := count (filter touched ys)\<rparr>)"

definition reference_pool :: "PositionIntervalInput list \<Rightarrow> PoolIntervalInput \<Rightarrow> StableFeePoolBaseline" where
  "reference_pool xs p = (let n = count (positions_of p xs) in (partial_pool xs p)\<lparr>
     enteredPositions := pi_activePositionsTo p - n, exitedPositions := pi_activePositionsFrom p - n\<rparr>)"

definition position_sound :: "PositionIntervalInput \<Rightarrow> bool" where
  "position_sound x \<longleftrightarrow> 0 < liquidityFrom x \<and> 0 < liquidityTo x \<and> (\<not> touched x \<longrightarrow> liquidityFrom x = liquidityTo x \<and>
     feeGrowthInside0LastFromX128 x = feeGrowthInside0LastToX128 x \<and>
     feeGrowthInside1LastFromX128 x = feeGrowthInside1LastToX128 x \<and>
     pending0From x \<le> pending0To x \<and> pending1From x \<le> pending1To x)"

definition pool_sound :: "PositionIntervalInput list \<Rightarrow> PoolIntervalInput \<Rightarrow> bool" where
  "pool_sound xs p \<longleftrightarrow> safe_integer (pi_activePositionsFrom p) \<and> safe_integer (pi_activePositionsTo p) \<and>
     count (positions_of p xs) \<le> pi_activePositionsFrom p \<and> count (positions_of p xs) \<le> pi_activePositionsTo p"

definition baseline_sound ::
  "(string \<Rightarrow> int option) \<Rightarrow> AccountingRunReference \<Rightarrow> PoolIntervalInput list \<Rightarrow> PositionIntervalInput list \<Rightarrow>
   AccountingRunReference \<Rightarrow> int \<Rightarrow> bool" where
  "baseline_sound date_parse f pools xs t elapsed \<longleftrightarrow> blockNumber f < blockNumber t \<and>
     (\<exists>a b. date_parse (blockTimestamp f) = Some a \<and> date_parse (blockTimestamp t) = Some b \<and> a \<le> b \<and> elapsed = (b - a) div 1000) \<and>
     distinct (map (\<lambda>p. poolKey (pi_poolAddress p)) pools) \<and> (\<forall>p\<in>set pools. pool_sound xs p) \<and>
     (\<forall>x\<in>set xs. position_sound x \<and> (\<exists>p\<in>set pools. poolKey (px_poolAddress x) = poolKey (pi_poolAddress p)))"

subsection \<open>The fold computes the reference\<close>

lemma update_map:
  assumes "distinct (map f xs)" "k \<in> f ` set xs"
  shows "AList.update k v (map (\<lambda>x. (f x, g x)) xs) = map (\<lambda>x. (f x, if f x = k then v else g x)) xs"
  using assms by (induction xs) (auto simp: image_iff)

lemma update_absent: "map_of xs k = None \<Longrightarrow> AList.update k v xs = xs @ [(k, v)]"
  by (induction xs) (auto split: if_splits)

lemma map_of_map: "map_of (map (\<lambda>x. (f x, g x)) xs) k = map_option g (find (\<lambda>x. f x = k) xs)"
  by (induction xs) auto

abbreviation key_of :: "PoolIntervalInput \<Rightarrow> string" where
  "key_of p \<equiv> poolKey (pi_poolAddress p)"

lemma add_pool_Inr:
  "add_pool ps p = Inr ps' \<longleftrightarrow> safe_integer (pi_activePositionsFrom p) \<and> 0 \<le> pi_activePositionsFrom p \<and>
     safe_integer (pi_activePositionsTo p) \<and> 0 \<le> pi_activePositionsTo p \<and> map_of ps (key_of p) = None \<and>
     ps' = ps @ [(key_of p, empty_pool p)]"
  by (auto simp: add_pool_def requireNonnegativeInteger_def bind_ok_Inr_iff Let_def update_absent)

lemma pools_added:
  "fold_res add_pool (map (\<lambda>p. (key_of p, empty_pool p)) ps) qs = Inr r \<longleftrightarrow>
     (\<forall>q\<in>set qs. safe_integer (pi_activePositionsFrom q) \<and> 0 \<le> pi_activePositionsFrom q \<and>
        safe_integer (pi_activePositionsTo q) \<and> 0 \<le> pi_activePositionsTo q \<and> key_of q \<notin> key_of ` set ps) \<and>
     distinct (map key_of qs) \<and> r = map (\<lambda>p. (key_of p, empty_pool p)) (ps @ qs)"
proof (induction qs arbitrary: ps)
  case Nil
  show ?case by auto
next
  case (Cons q qs)
  have absent: "map_of (map (\<lambda>p. (key_of p, empty_pool p)) ps) (key_of q) = None \<longleftrightarrow> key_of q \<notin> key_of ` set ps"
    by (auto simp: map_of_map find_None_iff image_iff)
  have "fold_res add_pool (map (\<lambda>p. (key_of p, empty_pool p)) ps) (q # qs) = Inr r \<longleftrightarrow>
      (\<exists>m. add_pool (map (\<lambda>p. (key_of p, empty_pool p)) ps) q = Inr m \<and> fold_res add_pool m qs = Inr r)"
    by (auto split: sum.split)
  also have "\<dots> \<longleftrightarrow> safe_integer (pi_activePositionsFrom q) \<and> 0 \<le> pi_activePositionsFrom q \<and>
     safe_integer (pi_activePositionsTo q) \<and> 0 \<le> pi_activePositionsTo q \<and> key_of q \<notin> key_of ` set ps \<and>
     fold_res add_pool (map (\<lambda>p. (key_of p, empty_pool p)) (ps @ [q])) qs = Inr r"
    by (simp add: add_pool_Inr absent)
  finally have step: "fold_res add_pool (map (\<lambda>p. (key_of p, empty_pool p)) ps) (q # qs) = Inr r \<longleftrightarrow>
     safe_integer (pi_activePositionsFrom q) \<and> 0 \<le> pi_activePositionsFrom q \<and>
     safe_integer (pi_activePositionsTo q) \<and> 0 \<le> pi_activePositionsTo q \<and> key_of q \<notin> key_of ` set ps \<and>
     fold_res add_pool (map (\<lambda>p. (key_of p, empty_pool p)) (ps @ [q])) qs = Inr r" .
  show ?case unfolding step Cons.IH by (auto simp del: fold_res.simps simp: image_iff) (metis+)?
qed

lemma find_key:
  assumes "distinct (map key_of pools)" "p \<in> set pools"
  shows "find (\<lambda>q. key_of q = key_of p) pools = Some p"
  using assms by (induction pools) (auto simp: image_iff)

lemma sum_count_snoc:
  "positions_of p (xs @ [x]) = positions_of p xs @ (if poolKey (px_poolAddress x) = key_of p then [x] else [])"
  "still (xs @ [x]) = still xs @ (if touched x then [] else [x])"
  "still (xs @ ys) = still xs @ still ys" "still [] = []" "still [x] = (if touched x then [] else [x])"
  "count (xs @ ys) = count xs + count ys" "count [] = 0" "count [y] = 1"
  by (simp_all add: positions_of_def still_def count_def)

lemma partial_pool_other:
  "poolKey (px_poolAddress x) \<noteq> key_of p \<Longrightarrow> partial_pool (xs @ [x]) p = partial_pool xs p"
  by (simp add: partial_pool_def sum_count_snoc)

lemma add_position_Inr:
  assumes d: "distinct (map key_of pools)"
  shows "add_position (map (\<lambda>p. (key_of p, partial_pool xs p)) pools) x = Inr m \<longleftrightarrow>
     (\<exists>p\<in>set pools. poolKey (px_poolAddress x) = key_of p) \<and> position_sound x \<and>
     m = map (\<lambda>p. (key_of p, partial_pool (xs @ [x]) p)) pools"
proof (cases "\<exists>p\<in>set pools. poolKey (px_poolAddress x) = key_of p")
  case False
  then have "map_of (map (\<lambda>p. (key_of p, partial_pool xs p)) pools) (poolKey (px_poolAddress x)) = None"
    by (auto simp: map_of_map find_None_iff)
  with False show ?thesis by (simp add: add_position_def)
next
  case True
  then obtain p where p: "p \<in> set pools" "poolKey (px_poolAddress x) = key_of p" by blast
  have found: "map_of (map (\<lambda>p. (key_of p, partial_pool xs p)) pools) (key_of p) = Some (partial_pool xs p)"
    using find_key [OF d p(1)] by (simp add: map_of_map)
  have put: "AList.update (key_of p) v (map (\<lambda>p. (key_of p, partial_pool xs p)) pools)
      = map (\<lambda>q. (key_of q, partial_pool (xs @ [x]) q)) pools" if "v = partial_pool (xs @ [x]) p" for v
  proof -
    have "AList.update (key_of p) v (map (\<lambda>p. (key_of p, partial_pool xs p)) pools)
        = map (\<lambda>q. (key_of q, if key_of q = key_of p then v else partial_pool xs q)) pools"
      using p(1) by (intro update_map [OF d]) auto
    also have "\<dots> = map (\<lambda>q. (key_of q, partial_pool (xs @ [x]) q)) pools"
    proof (rule map_cong [OF refl])
      fix q assume q: "q \<in> set pools"
      have "q = p" if "key_of q = key_of p"
        using d q p(1) that by (meson distinct_map inj_onD)
      then show "(key_of q, if key_of q = key_of p then v else partial_pool xs q) = (key_of q, partial_pool (xs @ [x]) q)"
        using that p(2) partial_pool_other [of x q xs] by auto
    qed
    finally show ?thesis .
  qed
  show ?thesis
  proof (cases "touched x")
    case True
    have "(partial_pool xs p)\<lparr>pairedActivePositions := pairedActivePositions (partial_pool xs p) + 1,
        touchedPositions := touchedPositions (partial_pool xs p) + 1\<rparr> = partial_pool (xs @ [x]) p"
      using True p(2) by (simp add: partial_pool_def Let_def sum_count_snoc)
    from put [OF this] show ?thesis using p True
      by (auto simp: add_position_def p(2) found Let_def bind_ok_Inr_iff position_sound_def)
  next
    case False
    have "(partial_pool xs p)\<lparr>accrued0 := accrued0 (partial_pool xs p) + pending0To x - pending0From x,
        accrued1 := accrued1 (partial_pool xs p) + pending1To x - pending1From x,
        pairedActivePositions := pairedActivePositions (partial_pool xs p) + 1,
        stablePositions := stablePositions (partial_pool xs p) + 1\<rparr> = partial_pool (xs @ [x]) p"
      using False p(2) by (simp add: partial_pool_def Let_def sum_count_snoc)
    from put [OF this] show ?thesis using p False
      by (auto simp: add_position_def p(2) found Let_def bind_ok_Inr_iff position_sound_def untouched_checks_def)
  qed
qed

lemma positions_added:
  assumes d: "distinct (map key_of pools)"
  shows "fold_res add_position (map (\<lambda>p. (key_of p, partial_pool xs p)) pools) ys = Inr m \<longleftrightarrow>
     (\<forall>x\<in>set ys. position_sound x \<and> (\<exists>p\<in>set pools. poolKey (px_poolAddress x) = key_of p)) \<and>
     m = map (\<lambda>p. (key_of p, partial_pool (xs @ ys) p)) pools"
proof (induction ys arbitrary: xs)
  case Nil
  show ?case by auto
next
  case (Cons y ys)
  have "fold_res add_position (map (\<lambda>p. (key_of p, partial_pool xs p)) pools) (y # ys) = Inr m \<longleftrightarrow>
      (\<exists>m'. add_position (map (\<lambda>p. (key_of p, partial_pool xs p)) pools) y = Inr m' \<and> fold_res add_position m' ys = Inr m)"
    by (auto split: sum.split)
  also have "\<dots> \<longleftrightarrow> (\<exists>p\<in>set pools. poolKey (px_poolAddress y) = key_of p) \<and> position_sound y \<and>
      fold_res add_position (map (\<lambda>p. (key_of p, partial_pool (xs @ [y]) p)) pools) ys = Inr m"
    unfolding add_position_Inr [OF d] by blast
  also have "\<dots> \<longleftrightarrow> (\<forall>x\<in>set (y # ys). position_sound x \<and> (\<exists>p\<in>set pools. poolKey (px_poolAddress x) = key_of p)) \<and>
     m = map (\<lambda>p. (key_of p, partial_pool (xs @ y # ys) p)) pools"
    unfolding Cons.IH by auto
  finally show ?case .
qed

lemma stable_touched: "count (still ys) + count (filter touched ys) = count ys"
  unfolding count_def still_def by (induction ys) auto

lemma close_pool_Inr:
  "close_pool (partial_pool xs p) = Inr c \<longleftrightarrow>
     count (positions_of p xs) \<le> pi_activePositionsFrom p \<and> count (positions_of p xs) \<le> pi_activePositionsTo p \<and>
     c = reference_pool xs p"
  using stable_touched [of "positions_of p xs"]
  by (auto simp: close_pool_def bind_ok_Inr_iff partial_pool_def reference_pool_def empty_pool_def Let_def)

lemma pools_closed:
  "map_res close_pool (map (partial_pool xs) ps) = Inr cs \<longleftrightarrow>
     (\<forall>p\<in>set ps. count (positions_of p xs) \<le> pi_activePositionsFrom p \<and> count (positions_of p xs) \<le> pi_activePositionsTo p) \<and>
     cs = map (reference_pool xs) ps"
proof (induction ps arbitrary: cs)
  case Nil
  show ?case by auto
next
  case (Cons p ps)
  have "map_res close_pool (map (partial_pool xs) (p # ps)) = Inr cs \<longleftrightarrow>
      (\<exists>c ds. close_pool (partial_pool xs p) = Inr c \<and> map_res close_pool (map (partial_pool xs) ps) = Inr ds \<and> cs = c # ds)"
    by (auto split: sum.split)
  then show ?case unfolding Cons.IH close_pool_Inr by auto
qed

lemma validateRunOrder_Inr:
  "validateRunOrder date_parse f t = Inr e \<longleftrightarrow> blockNumber f < blockNumber t \<and>
     (\<exists>a b. date_parse (blockTimestamp f) = Some a \<and> date_parse (blockTimestamp t) = Some b \<and> a \<le> b \<and> e = (b - a) div 1000)"
  by (auto simp: validateRunOrder_def bind_ok_Inr_iff split: option.split)

lemma count_nonneg: "0 \<le> count xs"
  by (simp add: count_def)

text \<open>
  C23: buildStableFeeBaseline returns a baseline exactly when the runs are ordered, the pools are
  distinct with safe counts that cover their positions, and every position belongs to a pool, is
  active at both ends and, if untouched, has kept its liquidity and checkpoints without losing
  fees; the baseline it returns is then the one of the sums and counts over the positions, whatever
  their order.
\<close>

theorem baseline_is_reference:
  "buildStableFeeBaseline date_parse now f pools positions stream t = Inr b \<longleftrightarrow>
     (\<exists>elapsed. baseline_sound date_parse f pools positions t elapsed \<and>
        b = baseline_of now stream f t elapsed (map (reference_pool positions) pools))"
proof -
  have empty: "partial_pool [] = empty_pool"
    by (rule ext) (simp add: partial_pool_def positions_of_def still_def count_def empty_pool_def Let_def)
  have entries: "map snd (map (\<lambda>p. (key_of p, partial_pool positions p)) pools) = map (partial_pool positions) pools"
    by simp
  note counts = order_trans [OF count_nonneg]
  have "buildStableFeeBaseline date_parse now f pools positions stream t = Inr b \<longleftrightarrow>
      (\<exists>elapsed es fs cs. validateRunOrder date_parse f t = Inr elapsed \<and> fold_res add_pool [] pools = Inr es \<and>
         fold_res add_position es positions = Inr fs \<and> map_res close_pool (map snd fs) = Inr cs \<and>
         b = baseline_of now stream f t elapsed cs)"
    by (auto simp: buildStableFeeBaseline_def bind_ok_Inr_iff)
  also have "\<dots> \<longleftrightarrow> (\<exists>elapsed. baseline_sound date_parse f pools positions t elapsed \<and>
        b = baseline_of now stream f t elapsed (map (reference_pool positions) pools))"
    (is "?L \<longleftrightarrow> ?R")
  proof
    assume ?L
    then obtain elapsed es fs cs where run: "validateRunOrder date_parse f t = Inr elapsed"
        and es: "fold_res add_pool [] pools = Inr es" and fs: "fold_res add_position es positions = Inr fs"
        and cs: "map_res close_pool (map snd fs) = Inr cs" and b: "b = baseline_of now stream f t elapsed cs" by blast
    from es pools_added [of "[]" pools es] have d: "distinct (map key_of pools)"
      and safe: "\<forall>p\<in>set pools. safe_integer (pi_activePositionsFrom p) \<and> safe_integer (pi_activePositionsTo p)"
      and "es = map (\<lambda>p. (key_of p, partial_pool [] p)) pools" by (auto simp: empty)
    with fs positions_added [OF d, of "[]" positions fs]
    have sound: "\<forall>x\<in>set positions. position_sound x \<and> (\<exists>p\<in>set pools. poolKey (px_poolAddress x) = key_of p)"
      and "fs = map (\<lambda>p. (key_of p, partial_pool positions p)) pools" by auto
    with cs have "map_res close_pool (map (partial_pool positions) pools) = Inr cs" by (simp add: entries comp_def)
    with run d safe sound b show ?R
      unfolding pools_closed validateRunOrder_Inr baseline_sound_def pool_sound_def by blast
  next
    assume ?R
    then obtain elapsed where s: "baseline_sound date_parse f pools positions t elapsed"
      and b: "b = baseline_of now stream f t elapsed (map (reference_pool positions) pools)" by blast
    from s have run: "validateRunOrder date_parse f t = Inr elapsed"
      unfolding validateRunOrder_Inr baseline_sound_def by blast
    from s have d: "distinct (map key_of pools)" unfolding baseline_sound_def by blast
    have "\<forall>p\<in>set pools. 0 \<le> pi_activePositionsFrom p \<and> 0 \<le> pi_activePositionsTo p"
      using s counts unfolding baseline_sound_def pool_sound_def by blast
    with s pools_added [of "[]" pools "map (\<lambda>p. (key_of p, empty_pool p)) pools"]
    have es: "fold_res add_pool [] pools = Inr (map (\<lambda>p. (key_of p, partial_pool [] p)) pools)"
      unfolding baseline_sound_def pool_sound_def by (auto simp: empty)
    have fs: "fold_res add_position (map (\<lambda>p. (key_of p, partial_pool [] p)) pools) positions =
        Inr (map (\<lambda>p. (key_of p, partial_pool positions p)) pools)"
      using s positions_added [OF d, of "[]" positions] unfolding baseline_sound_def by simp
    have "map_res close_pool (map snd (map (\<lambda>p. (key_of p, partial_pool positions p)) pools)) = Inr (map (reference_pool positions) pools)"
      using s pools_closed [of positions pools] unfolding entries baseline_sound_def pool_sound_def by blast
    with run es fs b show ?L by blast
  qed
  finally show ?thesis .
qed

end
