(* ===== verification/Wallet_Allocation.thy ===== *)
theory Wallet_Allocation
  imports Keeper_Json Keeper_Campaign
begin

section \<open>The liquid balances of a shared wallet\<close>

text \<open>
  \<open>src/deployments/live-wallet-allocation.ts\<close>: what of a wallet's tokens and of its native balance
  is allocated to campaigns, pending, and free.  The rows come from outside, so each of their fields
  is an arbitrary value (\<open>VNull\<close> also stands for a missing one); amounts in the result are the
  integers their decimal strings denote.  \<open>canon\<close> is \<open>isAddress\<close> followed by \<open>getAddress\<close>,
  \<open>le\<close> is \<open>localeCompare\<close>, and \<open>sha\<close> is SHA-256 in hexadecimal.
\<close>

subsection \<open>Library\<close>

text \<open>\<open>Array.prototype.sort\<close> with a comparison: stable.\<close>

fun insert_by :: "('a \<Rightarrow> 'a \<Rightarrow> bool) \<Rightarrow> 'a \<Rightarrow> 'a list \<Rightarrow> 'a list" where
  "insert_by le x [] = [x]"
| "insert_by le x (y # ys) = (if le x y then x # y # ys else y # insert_by le x ys)"

definition sort_by :: "('a \<Rightarrow> 'a \<Rightarrow> bool) \<Rightarrow> 'a list \<Rightarrow> 'a list" where
  "sort_by le xs = foldr (insert_by le) xs []"

lemma set_insert_by [simp]: "set (insert_by le x xs) = insert x (set xs)"
  by (induction xs) auto

lemma set_sort_by [simp]: "set (sort_by le xs) = set xs"
  by (induction xs) (simp_all add: sort_by_def)

lemma length_insert_by [simp]: "length (insert_by le x xs) = Suc (length xs)"
  by (induction xs) auto

lemma length_sort_by [simp]: "length (sort_by le xs) = length xs"
  by (induction xs) (simp_all add: sort_by_def)

definition js_space :: "char \<Rightarrow> bool" where
  "js_space c \<longleftrightarrow> (of_char c :: nat) \<in> {9, 10, 11, 12, 13, 32, 160}"

definition js_trim :: "string \<Rightarrow> string" where
  "js_trim s = rev (dropWhile js_space (rev (dropWhile js_space s)))"

definition text_of :: "js \<Rightarrow> string option" where
  "text_of v = (case v of VStr s \<Rightarrow> Some s | _ \<Rightarrow> None)"

definition decimal_value :: "js \<Rightarrow> int option" where
  "decimal_value v = (case text_of v of Some s \<Rightarrow> if uint_text s then Some (int (parse_nat s)) else None | None \<Rightarrow> None)"

definition canonical_address :: "(string \<Rightarrow> string option) \<Rightarrow> js \<Rightarrow> string option" where
  "canonical_address canon v = Option.bind (text_of v) canon"

subsection \<open>Model\<close>

record wallet_token_balance =
  wt_address :: js
  wt_decimals :: js
  wt_symbol :: js
  wt_reference :: js
  wt_balanceRaw :: js

record live_commitment =
  lc_campaignId :: js
  lc_active :: js
  lc_known :: js
  lc_allocated :: js
  lc_pending :: js
  lc_allocatedNative :: js
  lc_pendingNative :: js
  lc_exitReserve :: js
  lc_nftTokenIds :: js

datatype availability = Available | Unavailable

record wallet_allocation_input =
  wi_tokens :: "wallet_token_balance list"
  wi_native :: js
  wi_commitments :: "live_commitment list"
  wi_status :: availability
  wi_reasons :: "string list"

record inventory_token =
  it_address :: string
  it_decimals :: int
  it_symbol :: string
  it_reference :: "string option"
  it_balance :: "int option"

record token_allocation =
  ta_address :: string
  ta_decimals :: int
  ta_symbol :: string
  ta_reference :: "string option"
  ta_balance :: "int option"
  ta_allocated :: "int option"
  ta_pending :: "int option"
  ta_available :: "int option"

record native_allocation =
  na_balance :: "int option"
  na_allocated :: "int option"
  na_pending :: "int option"
  na_exitReserve :: "int option"
  na_available :: "int option"

record wallet_allocation =
  wa_tokens :: "token_allocation list"
  wa_native :: native_allocation
  wa_commitmentsHash :: string
  wa_blockers :: "string list"
  wa_status :: availability

type_synonym inventory = "(string \<times> inventory_token) list"

definition inventory_row ::
  "(string \<Rightarrow> string option) \<Rightarrow> string list \<times> inventory \<Rightarrow> wallet_token_balance \<Rightarrow> string list \<times> inventory"
where
  "inventory_row canon acc row = (case acc of (blockers, tokens) \<Rightarrow>
     (case (canonical_address canon (wt_address row), wt_decimals row, text_of (wt_symbol row)) of
        (Some address, VNum d, Some symbol) \<Rightarrow>
          if address = [] \<or> d < 0 \<or> d > 255 \<or> js_trim symbol = [] then (blockers @ [''wallet_token_inventory_malformed''], tokens)
          else let balance = decimal_value (wt_balanceRaw row); key = lower address;
            noted = blockers @ (if balance = None then [''wallet_token_balance_unavailable:'' @ key] else []) in
            if map_of tokens key \<noteq> None then (noted @ [''wallet_token_inventory_duplicate_address''], tokens)
            else (noted, tokens @ [(key, \<lparr>it_address = address, it_decimals = d, it_symbol = symbol,
              it_reference = text_of (wt_reference row), it_balance = balance\<rparr>)])
      | _ \<Rightarrow> (blockers @ [''wallet_token_inventory_malformed''], tokens)))"

text \<open>\<open>norm\<close>: the entries of one map of a commitment, added to the totals of the tokens.\<close>

definition entries_of :: "(string \<Rightarrow> string option) \<Rightarrow> (string \<times> js) list \<Rightarrow> (string option \<times> int option) list" where
  "entries_of canon kvs = map (\<lambda>(k, v). (canonical_address canon (VStr k), decimal_value v)) kvs"

definition known_entries :: "(string option \<times> int option) list \<Rightarrow> (string \<times> int) list" where
  "known_entries es = map (\<lambda>(a, n). (lower (the a), the n)) es"

definition add_entry ::
  "inventory \<Rightarrow> string \<Rightarrow> string list \<times> (string \<times> int) list \<Rightarrow> string \<times> int \<Rightarrow> string list \<times> (string \<times> int) list"
where
  "add_entry tokens campaign acc e = (case (acc, e) of ((blockers, tot), (key, amount)) \<Rightarrow>
     if map_of tokens key = None
     then (blockers @ [''active_live_commitment_token_outside_inventory:'' @ campaign], tot)
     else (blockers, AList.update key ((case map_of tot key of None \<Rightarrow> 0 | Some n \<Rightarrow> n) + amount) tot))"

definition norm_map ::
  "(string \<Rightarrow> string option) \<Rightarrow> (string \<Rightarrow> string \<Rightarrow> bool) \<Rightarrow> inventory \<Rightarrow> string \<Rightarrow> (string \<times> js) list \<Rightarrow>
   string list \<times> (string \<times> int) list \<Rightarrow> json option \<times> string list \<times> (string \<times> int) list"
where
  "norm_map canon le tokens campaign kvs acc = (let es = entries_of canon kvs; ks = known_entries es in
     if \<exists>(a, n)\<in>set es. a = None \<or> a = Some [] \<or> n = None
     then (None, fst acc @ [''active_live_commitment_malformed:'' @ campaign], snd acc)
     else if \<not> distinct (map fst ks)
     then (None, fst acc @ [''active_live_commitment_duplicate_token:'' @ campaign], snd acc)
     else (Some (JObj (sort_by (\<lambda>x y. le (fst x) (fst y)) (map (\<lambda>(k, n). (k, JStr (show_int n))) ks))),
       foldl (add_entry tokens campaign) acc ks))"

record commitment_totals =
  ct_blockers :: "string list"
  ct_rows :: "(string \<times> json) list"
  ct_seen :: "string list"
  ct_allocated :: "(string \<times> int) list"
  ct_pending :: "(string \<times> int) list"
  ct_native :: int
  ct_pendingNative :: int
  ct_reserve :: int

definition block_row :: "commitment_totals \<Rightarrow> string \<Rightarrow> string \<Rightarrow> json \<Rightarrow> commitment_totals" where
  "block_row t b campaign row = t\<lparr>ct_blockers := ct_blockers t @ [b], ct_rows := ct_rows t @ [(campaign, row)]\<rparr>"

definition campaign_of :: "live_commitment \<Rightarrow> string option" where
  "campaign_of row = (case text_of (lc_campaignId row) of
     Some s \<Rightarrow> if js_trim s = [] then None else Some (js_trim s) | None \<Rightarrow> None)"

definition object_of :: "js \<Rightarrow> (string \<times> js) list option" where
  "object_of v = (case v of VObj kvs \<Rightarrow> Some kvs | _ \<Rightarrow> None)"

definition nft_ids_of :: "js \<Rightarrow> string list" where
  "nft_ids_of v = (case v of VArr xs \<Rightarrow> sort (List.map_filter text_of xs) | _ \<Rightarrow> [])"

definition commitment_amounts ::
  "(string \<Rightarrow> string option) \<Rightarrow> (string \<Rightarrow> string \<Rightarrow> bool) \<Rightarrow> inventory \<Rightarrow> string \<Rightarrow> (string \<times> js) list \<Rightarrow> (string \<times> js) list \<Rightarrow>
   live_commitment \<Rightarrow> commitment_totals \<Rightarrow> commitment_totals"
where
  "commitment_amounts canon le tokens campaign am pm row t =
    (case norm_map canon le tokens campaign am (ct_blockers t, ct_allocated t) of (a, b1, alc) \<Rightarrow>
     case norm_map canon le tokens campaign pm (b1, ct_pending t) of (p, b2, pend) \<Rightarrow>
     let t' = t\<lparr>ct_blockers := b2, ct_allocated := alc, ct_pending := pend\<rparr> in
     case (a, p, decimal_value (lc_allocatedNative row), decimal_value (lc_pendingNative row), decimal_value (lc_exitReserve row)) of
       (Some a', Some p', Some an, Some pn, Some er) \<Rightarrow>
         t'\<lparr>ct_native := ct_native t + an, ct_pendingNative := ct_pendingNative t + pn, ct_reserve := ct_reserve t + er,
           ct_rows := ct_rows t @ [(campaign, JObj [(''campaignId'', JStr campaign), (''allocatedByTokenAddress'', a'),
             (''pendingByTokenAddress'', p'), (''allocatedNativeWei'', JStr (show_int an)),
             (''pendingNativeWei'', JStr (show_int pn)), (''exitReserveWei'', JStr (show_int er)),
             (''nftTokenIds'', JArr (map JStr (nft_ids_of (lc_nftTokenIds row))))])]\<rparr>
     | _ \<Rightarrow> t'\<lparr>ct_blockers := b2 @ [''active_live_commitment_malformed:'' @ campaign]\<rparr>)"

definition commitment_row ::
  "(string \<Rightarrow> string option) \<Rightarrow> (string \<Rightarrow> string \<Rightarrow> bool) \<Rightarrow> inventory \<Rightarrow> commitment_totals \<Rightarrow> live_commitment \<Rightarrow> commitment_totals"
where
  "commitment_row canon le tokens t row =
    (if lc_active row \<noteq> VBool True then t
     else case campaign_of row of
       None \<Rightarrow> block_row t ''active_live_custody_commitment_unknown'' [] (JObj [(''campaignId'', JNull), (''campaignUnknown'', JBool True)])
     | Some c \<Rightarrow>
       if lc_known row \<noteq> VBool True
       then block_row t ''active_live_custody_commitment_unknown'' c (JObj [(''campaignId'', JStr c), (''campaignUnknown'', JBool True)])
       else if c \<in> set (ct_seen t)
       then block_row t (''active_live_commitment_duplicate_campaign:'' @ c) c (JObj [(''campaignId'', JStr c), (''duplicate'', JBool True)])
       else let t1 = t\<lparr>ct_seen := ct_seen t @ [c]\<rparr> in
         case (object_of (lc_allocated row), object_of (lc_pending row)) of
           (Some am, Some pm) \<Rightarrow> commitment_amounts canon le tokens c am pm row t1
         | _ \<Rightarrow> block_row t1 (''active_live_commitment_malformed:'' @ c) c (JObj [(''campaignId'', JStr c), (''malformed'', JBool True)]))"

definition total_of :: "(string \<times> int) list \<Rightarrow> string \<Rightarrow> int" where
  "total_of tot key = (case map_of tot key of None \<Rightarrow> 0 | Some n \<Rightarrow> n)"

definition token_free :: "commitment_totals \<Rightarrow> inventory_token \<Rightarrow> int option" where
  "token_free t it = (let key = lower (it_address it) in
     map_option (\<lambda>b. b - total_of (ct_allocated t) key - total_of (ct_pending t) key) (it_balance it))"

definition token_blockers :: "commitment_totals \<Rightarrow> inventory_token \<Rightarrow> string list" where
  "token_blockers t it = (case token_free t it of
     Some f \<Rightarrow> if f < 0 then [''wallet_token_balance_oversubscribed:'' @ lower (it_address it)] else [] | None \<Rightarrow> [])"

definition nonneg_part :: "int option \<Rightarrow> int option" where
  "nonneg_part v = (case v of Some f \<Rightarrow> if f < 0 then None else Some f | None \<Rightarrow> None)"

definition token_row :: "bool \<Rightarrow> commitment_totals \<Rightarrow> inventory_token \<Rightarrow> token_allocation" where
  "token_row uncertain t it = (let key = lower (it_address it) in
     \<lparr>ta_address = it_address it, ta_decimals = it_decimals it, ta_symbol = it_symbol it, ta_reference = it_reference it,
      ta_balance = it_balance it,
      ta_allocated = (if uncertain then None else Some (total_of (ct_allocated t) key)),
      ta_pending = (if uncertain then None else Some (total_of (ct_pending t) key)),
      ta_available = (if uncertain then None else nonneg_part (token_free t it))\<rparr>)"

definition no_commitments :: "string list \<Rightarrow> commitment_totals" where
  "no_commitments blockers = \<lparr>ct_blockers = blockers, ct_rows = [], ct_seen = [], ct_allocated = [], ct_pending = [],
     ct_native = 0, ct_pendingNative = 0, ct_reserve = 0\<rparr>"

definition allocateLiveWalletBalances ::
  "(string \<Rightarrow> string option) \<Rightarrow> (string \<Rightarrow> string \<Rightarrow> bool) \<Rightarrow> (string \<Rightarrow> string) \<Rightarrow> wallet_allocation_input \<Rightarrow> wallet_allocation"
where
  "allocateLiveWalletBalances canon le sha i =
    (case foldl (inventory_row canon) ([], []) (wi_tokens i) of (b0, tokens) \<Rightarrow>
     let native = decimal_value (wi_native i);
       b1 = b0 @ (if native = None then [''wallet_native_balance_unavailable_or_malformed''] else []);
       b2 = b1 @ (if wi_status i = Unavailable
         then if wi_reasons i = [] then [''active_live_commitments_unavailable''] else wi_reasons i else []);
       t = foldl (commitment_row canon le tokens) (no_commitments b2) (wi_commitments i);
       sorted_tokens = sort_by (\<lambda>x y. le (lower (it_address x)) (lower (it_address y))) (map snd tokens);
       b3 = ct_blockers t @ concat (map (token_blockers t) sorted_tokens);
       native_free = map_option (\<lambda>b. b - ct_native t - ct_pendingNative t - ct_reserve t) native;
       b4 = b3 @ (case native_free of Some f \<Rightarrow> if f < 0 then [''wallet_native_balance_oversubscribed''] else [] | None \<Rightarrow> []);
       rows = sort_by (\<lambda>x y. le (fst x) (fst y)) (ct_rows t);
       unique = sort (set_spread b4);
       uncertain = (unique \<noteq> []) in
     \<lparr>wa_tokens = map (token_row uncertain t) sorted_tokens,
      wa_native = \<lparr>na_balance = native, na_allocated = (if uncertain then None else Some (ct_native t)),
        na_pending = (if uncertain then None else Some (ct_pendingNative t)),
        na_exitReserve = (if uncertain then None else Some (ct_reserve t)),
        na_available = (if uncertain then None else nonneg_part native_free)\<rparr>,
      wa_commitmentsHash = sha (json_text (JArr (map snd rows))),
      wa_blockers = unique, wa_status = (if unique \<noteq> [] then Unavailable else Available)\<rparr>)"

subsection \<open>Reference\<close>

text \<open>What an amount map of a commitment says of a token, and what all active commitments say together.\<close>

definition amount_in :: "(string \<Rightarrow> string option) \<Rightarrow> js \<Rightarrow> string \<Rightarrow> int" where
  "amount_in canon v key = (case object_of v of
     None \<Rightarrow> 0 | Some kvs \<Rightarrow> total_of (known_entries (entries_of canon kvs)) key)"

definition active_commitments :: "live_commitment list \<Rightarrow> live_commitment list" where
  "active_commitments rows = filter (\<lambda>r. lc_active r = VBool True) rows"

definition committed :: "(live_commitment \<Rightarrow> int) \<Rightarrow> live_commitment list \<Rightarrow> int" where
  "committed f rows = (\<Sum>r\<leftarrow>active_commitments rows. f r)"

definition amount_of :: "js \<Rightarrow> int" where
  "amount_of v = (case decimal_value v of Some n \<Rightarrow> n | None \<Rightarrow> 0)"

definition totals_are :: "(string \<Rightarrow> string option) \<Rightarrow> live_commitment list \<Rightarrow> commitment_totals \<Rightarrow> bool" where
  "totals_are canon rows t \<longleftrightarrow>
     (\<forall>key. total_of (ct_allocated t) key = committed (\<lambda>r. amount_in canon (lc_allocated r) key) rows) \<and>
     (\<forall>key. total_of (ct_pending t) key = committed (\<lambda>r. amount_in canon (lc_pending r) key) rows) \<and>
     ct_native t = committed (\<lambda>r. amount_of (lc_allocatedNative r)) rows \<and>
     ct_pendingNative t = committed (\<lambda>r. amount_of (lc_pendingNative r)) rows \<and>
     ct_reserve t = committed (\<lambda>r. amount_of (lc_exitReserve r)) rows"

subsection \<open>Blockers only accumulate\<close>

lemma total_of_simps [simp]:
  "total_of [] key = 0" "total_of ((k, n) # ks) key = (if k = key then n else total_of ks key)"
  by (simp_all add: total_of_def)

lemma total_of_absent: "key \<notin> fst ` set ks \<Longrightarrow> total_of ks key = 0"
  by (induction ks) auto

lemma total_of_update: "total_of (AList.update k n ks) key = (if k = key then n else total_of ks key)"
  by (simp add: total_of_def update_conv')

lemma add_entry_prefix: "\<exists>bs. fst (add_entry tokens campaign acc e) = fst acc @ bs"
  by (cases acc; cases e) (auto simp: add_entry_def)

lemma foldl_prefix:
  assumes "\<And>acc x. \<exists>bs. f (g acc x) = f acc @ bs"
  shows "\<exists>bs. f (foldl g acc xs) = f acc @ bs"
proof (induction xs arbitrary: acc)
  case Nil
  show ?case by simp
next
  case (Cons x xs)
  from Cons.IH [of "g acc x"] assms [of acc x] show ?case by auto
qed

lemma foldl_unblocked:
  assumes "\<And>acc x. \<exists>bs. f (g acc x) = f acc @ bs" and "f (foldl g acc (xs @ [x])) = []"
  shows "f (foldl g acc xs) = []"
  using assms(1) [of "foldl g acc xs" x] assms(2) by auto

lemmas entries_prefix = foldl_prefix [of fst "add_entry tokens campaign" for tokens campaign, OF add_entry_prefix]

lemma norm_map_prefix: "\<exists>bs. fst (snd (norm_map canon le tokens campaign kvs acc)) = fst acc @ bs"
  using entries_prefix [of tokens campaign acc] by (simp add: norm_map_def Let_def)

lemma commitment_amounts_prefix: "\<exists>bs. ct_blockers (commitment_amounts canon le tokens c am pm row t) = ct_blockers t @ bs"
proof -
  obtain a b1 alc where a: "norm_map canon le tokens c am (ct_blockers t, ct_allocated t) = (a, b1, alc)"
    by (metis prod.exhaust)
  obtain p b2 pend where p: "norm_map canon le tokens c pm (b1, ct_pending t) = (p, b2, pend)"
    by (metis prod.exhaust)
  from norm_map_prefix [of canon le tokens c am "(ct_blockers t, ct_allocated t)"]
    norm_map_prefix [of canon le tokens c pm "(b1, ct_pending t)"]
  show ?thesis by (auto simp: commitment_amounts_def a p Let_def split: option.split)
qed

lemma commitment_row_prefix: "\<exists>bs. ct_blockers (commitment_row canon le tokens t row) = ct_blockers t @ bs"
  using commitment_amounts_prefix [of canon le tokens _ _ _ row "t\<lparr>ct_seen := ct_seen t @ [_]\<rparr>"]
  by (auto simp: commitment_row_def block_row_def Let_def split: option.split)

lemma inventory_row_prefix: "\<exists>bs. fst (inventory_row canon acc row) = fst acc @ bs"
  by (cases acc) (auto simp: inventory_row_def Let_def split: option.split js.split)

subsection \<open>Without a blocker, the totals are what the commitments say\<close>

lemma entries_added:
  assumes "fst (foldl (add_entry tokens campaign) acc ks) = []" "distinct (map fst ks)"
  shows "total_of (snd (foldl (add_entry tokens campaign) acc ks)) key = total_of (snd acc) key + total_of ks key"
  using assms
proof (induction ks arbitrary: acc)
  case Nil
  then show ?case by simp
next
  case (Cons e ks)
  obtain k n where e: "e = (k, n)" by (cases e)
  obtain bs tot where acc: "acc = (bs, tot)" by (cases acc)
  from Cons.prems entries_prefix [of tokens campaign "add_entry tokens campaign acc e" ks]
  have "fst (add_entry tokens campaign acc e) = []" by auto
  then have step: "add_entry tokens campaign acc e = (bs, AList.update k (total_of tot k + n) tot)"
    by (auto simp: add_entry_def e acc total_of_def split: if_splits option.split)
  from Cons.IH [of "add_entry tokens campaign acc e"] Cons.prems
  have "total_of (snd (foldl (add_entry tokens campaign) acc (e # ks))) key =
      total_of (AList.update k (total_of tot k + n) tot) key + total_of ks key" by (simp add: step)
  moreover have "total_of ks k = 0" using Cons.prems by (intro total_of_absent) (auto simp: e)
  ultimately show ?case by (cases "k = key") (auto simp: e acc total_of_update)
qed

lemma norm_map_adds:
  assumes "norm_map canon le tokens campaign kvs (b, tot) = (j, [], tot')"
  shows "j \<noteq> None" "b = []" "total_of tot' key = total_of tot key + amount_in canon (VObj kvs) key"
proof -
  from assms norm_map_prefix [of canon le tokens campaign kvs "(b, tot)"] show "b = []" by auto
  have d: "distinct (map fst (known_entries (entries_of canon kvs)))" and j: "j \<noteq> None"
    and f: "foldl (add_entry tokens campaign) (b, tot) (known_entries (entries_of canon kvs)) = ([], tot')"
    using assms by (auto simp: norm_map_def Let_def split: if_splits)
  show "j \<noteq> None" by (rule j)
  show "total_of tot' key = total_of tot key + amount_in canon (VObj kvs) key"
    using entries_added [of tokens campaign "(b, tot)" "known_entries (entries_of canon kvs)" key] d
    by (simp add: f amount_in_def object_of_def)
qed

lemma committed_snoc: "committed f (rows @ [row]) = committed f rows + (if lc_active row = VBool True then f row else 0)"
  by (simp add: committed_def active_commitments_def)

lemma commitment_amounts_adds:
  assumes "ct_blockers (commitment_amounts canon le tokens c am pm row t) = []"
    and row: "lc_active row = VBool True" "lc_allocated row = VObj am" "lc_pending row = VObj pm"
    and "totals_are canon rows t"
  shows "totals_are canon (rows @ [row]) (commitment_amounts canon le tokens c am pm row t)"
proof -
  obtain a b1 alc where a: "norm_map canon le tokens c am (ct_blockers t, ct_allocated t) = (a, b1, alc)"
    by (metis prod.exhaust)
  obtain p b2 pend where p: "norm_map canon le tokens c pm (b1, ct_pending t) = (p, b2, pend)"
    by (metis prod.exhaust)
  from assms(1) have b2: "b2 = []"
    by (auto simp: commitment_amounts_def a p Let_def split: option.splits)
  from norm_map_adds(2) [OF p [unfolded b2]] have b1: "b1 = []" .
  obtain a' where a': "a = Some a'" using norm_map_adds(1) [OF a [unfolded b1]] by blast
  obtain p' where p': "p = Some p'" using norm_map_adds(1) [OF p [unfolded b2]] by blast
  from assms(1) obtain an pn er where n: "decimal_value (lc_allocatedNative row) = Some an"
      "decimal_value (lc_pendingNative row) = Some pn" "decimal_value (lc_exitReserve row) = Some er"
    by (auto simp: commitment_amounts_def a p a' p' Let_def split: option.splits)
  have "total_of alc key = total_of (ct_allocated t) key + amount_in canon (lc_allocated row) key" for key
    using norm_map_adds(3) [OF a [unfolded b1], of key] by (simp add: row)
  moreover have "total_of pend key = total_of (ct_pending t) key + amount_in canon (lc_pending row) key" for key
    using norm_map_adds(3) [OF p [unfolded b2], of key] by (simp add: row)
  ultimately show ?thesis using assms(5) row(1)
    by (simp add: totals_are_def committed_snoc commitment_amounts_def a p a' p' n Let_def amount_of_def)
qed

lemma commitment_row_adds:
  assumes "ct_blockers (commitment_row canon le tokens t row) = []" "totals_are canon rows t"
  shows "totals_are canon (rows @ [row]) (commitment_row canon le tokens t row)"
proof (cases "lc_active row = VBool True")
  case False
  then show ?thesis using assms(2) by (simp add: commitment_row_def totals_are_def committed_snoc)
next
  case True
  with assms(1) obtain c am pm where c: "campaign_of row = Some c" "lc_known row = VBool True" "c \<notin> set (ct_seen t)"
      "object_of (lc_allocated row) = Some am" "object_of (lc_pending row) = Some pm"
    by (auto simp: commitment_row_def block_row_def Let_def split: option.splits if_splits)
  then have row: "lc_allocated row = VObj am" "lc_pending row = VObj pm"
    by (auto simp: object_of_def split: js.splits)
  from True c have step: "commitment_row canon le tokens t row =
      commitment_amounts canon le tokens c am pm row (t\<lparr>ct_seen := ct_seen t @ [c]\<rparr>)"
    by (simp add: commitment_row_def)
  have "totals_are canon rows (t\<lparr>ct_seen := ct_seen t @ [c]\<rparr>)" using assms(2) by (simp add: totals_are_def)
  from commitment_amounts_adds [OF assms(1) [unfolded step] True row this] show ?thesis by (simp only: step)
qed

lemma commitments_added:
  assumes "ct_blockers (foldl (commitment_row canon le tokens) (no_commitments b) rows) = []"
  shows "totals_are canon rows (foldl (commitment_row canon le tokens) (no_commitments b) rows)"
  using assms
proof (induction rows rule: rev_induct)
  case Nil
  show ?case by (simp add: totals_are_def no_commitments_def committed_def active_commitments_def)
next
  case (snoc row rows)
  from foldl_unblocked [of ct_blockers, OF commitment_row_prefix snoc.prems]
  have "totals_are canon rows (foldl (commitment_row canon le tokens) (no_commitments b) rows)" by (rule snoc.IH)
  then show ?case using commitment_row_adds snoc.prems by simp
qed

lemma inventory_row_known:
  "inventory_row canon ([], ts) row = ([], ts') \<Longrightarrow> \<exists>key it. ts' = ts @ [(key, it)] \<and> it_balance it \<noteq> None"
  by (auto simp: inventory_row_def Let_def split: option.splits js.splits if_splits)

lemma inventory_known:
  assumes "fst (foldl (inventory_row canon) ([], []) rows) = []"
  shows "length (snd (foldl (inventory_row canon) ([], []) rows)) = length rows \<and>
     (\<forall>it\<in>snd ` set (snd (foldl (inventory_row canon) ([], []) rows)). it_balance it \<noteq> None)"
  using assms
proof (induction rows rule: rev_induct)
  case Nil
  show ?case by simp
next
  case (snoc row rows)
  note IH = snoc.IH [OF foldl_unblocked [of fst, OF inventory_row_prefix snoc.prems]]
  obtain ts where ts: "foldl (inventory_row canon) ([], []) rows = ([], ts)"
    using foldl_unblocked [of fst, OF inventory_row_prefix snoc.prems] by (metis prod.collapse)
  obtain ts' where step: "inventory_row canon ([], ts) row = ([], ts')"
    using snoc.prems by (metis ts foldl_append foldl_Cons foldl_Nil prod.collapse)
  from inventory_row_known [OF this] IH show ?case by (auto simp: ts step)
qed

subsection \<open>What a snapshot says\<close>

lemma nonneg_partD: "nonneg_part v = Some f \<longleftrightarrow> v = Some f \<and> 0 \<le> f"
  by (auto simp: nonneg_part_def split: option.split)

definition states_nothing :: "wallet_allocation \<Rightarrow> bool" where
  "states_nothing s \<longleftrightarrow>
     (\<forall>r\<in>set (wa_tokens s). ta_allocated r = None \<and> ta_pending r = None \<and> ta_available r = None) \<and>
     na_allocated (wa_native s) = None \<and> na_pending (wa_native s) = None \<and> na_exitReserve (wa_native s) = None \<and>
     na_available (wa_native s) = None"

definition row_partitioned :: "(string \<Rightarrow> string option) \<Rightarrow> live_commitment list \<Rightarrow> token_allocation \<Rightarrow> bool" where
  "row_partitioned canon cs r \<longleftrightarrow> (let key = lower (ta_address r);
     a = committed (\<lambda>c. amount_in canon (lc_allocated c) key) cs; p = committed (\<lambda>c. amount_in canon (lc_pending c) key) cs in
     \<exists>f. 0 \<le> f \<and> ta_balance r = Some (a + p + f) \<and> ta_allocated r = Some a \<and> ta_pending r = Some p \<and> ta_available r = Some f)"

definition native_partitioned :: "live_commitment list \<Rightarrow> native_allocation \<Rightarrow> bool" where
  "native_partitioned cs n \<longleftrightarrow> (let a = committed (\<lambda>c. amount_of (lc_allocatedNative c)) cs;
     p = committed (\<lambda>c. amount_of (lc_pendingNative c)) cs; e = committed (\<lambda>c. amount_of (lc_exitReserve c)) cs in
     \<exists>f. 0 \<le> f \<and> na_balance n = Some (a + p + e + f) \<and> na_allocated n = Some a \<and> na_pending n = Some p \<and>
       na_exitReserve n = Some e \<and> na_available n = Some f)"

text \<open>The parts of a snapshot: the inventory, the totals and the blockers.\<close>

lemma snapshot_parts:
  obtains ts t native un where
    "wa_tokens (allocateLiveWalletBalances canon le sha i) = map (token_row (un \<noteq> []) t) ts"
    "wa_blockers (allocateLiveWalletBalances canon le sha i) = un"
    "wa_status (allocateLiveWalletBalances canon le sha i) = (if un \<noteq> [] then Unavailable else Available)"
    "wa_native (allocateLiveWalletBalances canon le sha i) = \<lparr>na_balance = native,
       na_allocated = (if un \<noteq> [] then None else Some (ct_native t)),
       na_pending = (if un \<noteq> [] then None else Some (ct_pendingNative t)),
       na_exitReserve = (if un \<noteq> [] then None else Some (ct_reserve t)),
       na_available = (if un \<noteq> [] then None
         else nonneg_part (map_option (\<lambda>b. b - ct_native t - ct_pendingNative t - ct_reserve t) native))\<rparr>"
    "un = [] \<longrightarrow> totals_are canon (wi_commitments i) t \<and> length ts = length (wi_tokens i) \<and> native \<noteq> None \<and>
       (\<forall>x\<in>set ts. it_balance x \<noteq> None \<and> token_blockers t x = []) \<and>
       (\<forall>f. map_option (\<lambda>b. b - ct_native t - ct_pendingNative t - ct_reserve t) native = Some f \<longrightarrow> 0 \<le> f)"
proof -
  obtain b0 tokens where inv: "foldl (inventory_row canon) ([], []) (wi_tokens i) = (b0, tokens)"
    by (metis prod.exhaust)
  define native where "native = decimal_value (wi_native i)"
  define b2 where "b2 = (b0 @ (if native = None then [''wallet_native_balance_unavailable_or_malformed''] else [])) @
    (if wi_status i = Unavailable then if wi_reasons i = [] then [''active_live_commitments_unavailable''] else wi_reasons i else [])"
  define t where "t = foldl (commitment_row canon le tokens) (no_commitments b2) (wi_commitments i)"
  define ts where "ts = sort_by (\<lambda>x y. le (lower (it_address x)) (lower (it_address y))) (map snd tokens)"
  define free where "free = map_option (\<lambda>b. b - ct_native t - ct_pendingNative t - ct_reserve t) native"
  define all where "all = (ct_blockers t @ concat (map (token_blockers t) ts)) @
    (case free of Some f \<Rightarrow> if f < 0 then [''wallet_native_balance_oversubscribed''] else [] | None \<Rightarrow> [])"
  define un where "un = sort (set_spread all)"
  note parts = inv Let_def native_def b2_def t_def ts_def free_def all_def un_def
  show ?thesis
  proof (rule that [of un t ts native])
    show "un = [] \<longrightarrow> totals_are canon (wi_commitments i) t \<and> length ts = length (wi_tokens i) \<and> native \<noteq> None \<and>
       (\<forall>x\<in>set ts. it_balance x \<noteq> None \<and> token_blockers t x = []) \<and>
       (\<forall>f. map_option (\<lambda>b. b - ct_native t - ct_pendingNative t - ct_reserve t) native = Some f \<longrightarrow> 0 \<le> f)"
    proof
      assume "un = []"
      then have "all = []" by (metis un_def set_spread_Nil_iff set_sort set_empty)
      then have b: "ct_blockers t = []" and tb: "\<forall>x\<in>set ts. token_blockers t x = []"
        and nf: "\<forall>f. free = Some f \<longrightarrow> 0 \<le> f"
        by (auto simp: all_def split: option.splits if_splits)
      have sum: "totals_are canon (wi_commitments i) t" unfolding t_def by (rule commitments_added [OF b [unfolded t_def]])
      have "b2 = []" using b foldl_prefix [of ct_blockers "commitment_row canon le tokens" "no_commitments b2" "wi_commitments i", OF commitment_row_prefix]
        by (auto simp: t_def no_commitments_def)
      then have "b0 = []" "native \<noteq> None" by (auto simp: b2_def split: if_splits)
      with inventory_known [of canon "wi_tokens i"] sum tb nf
      show "totals_are canon (wi_commitments i) t \<and> length ts = length (wi_tokens i) \<and> native \<noteq> None \<and>
         (\<forall>x\<in>set ts. it_balance x \<noteq> None \<and> token_blockers t x = []) \<and>
         (\<forall>f. map_option (\<lambda>b. b - ct_native t - ct_pendingNative t - ct_reserve t) native = Some f \<longrightarrow> 0 \<le> f)"
        by (auto simp: inv ts_def free_def)
    qed
  qed (simp_all only: allocateLiveWalletBalances_def parts prod.case wallet_allocation.select_convs)
qed

text \<open>
  C15: An allocation snapshot is unavailable exactly when something speaks against it, and then it
  states no allocated, pending or free amount at all.  When it is available, no row of the inventory was
  dropped, and for every token, and for the native balance, the balance is exactly the sum of what the active
  commitments hold allocated, of what they hold pending (and of the exit reserves, for the native
  one) and of a free amount that is not negative.
\<close>

theorem wallet_balances_partitioned:
  "let s = allocateLiveWalletBalances canon le sha i in
    (wa_status s = Unavailable \<longleftrightarrow> wa_blockers s \<noteq> []) \<and>
    (wa_status s = Unavailable \<longrightarrow> states_nothing s) \<and>
    (wa_status s = Available \<longrightarrow> length (wa_tokens s) = length (wi_tokens i) \<and>
       (\<forall>r\<in>set (wa_tokens s). row_partitioned canon (wi_commitments i) r) \<and>
       native_partitioned (wi_commitments i) (wa_native s))"
proof -
  obtain ts t native un where s: "wa_tokens (allocateLiveWalletBalances canon le sha i) = map (token_row (un \<noteq> []) t) ts"
    "wa_blockers (allocateLiveWalletBalances canon le sha i) = un"
    "wa_status (allocateLiveWalletBalances canon le sha i) = (if un \<noteq> [] then Unavailable else Available)"
    "wa_native (allocateLiveWalletBalances canon le sha i) = \<lparr>na_balance = native,
       na_allocated = (if un \<noteq> [] then None else Some (ct_native t)),
       na_pending = (if un \<noteq> [] then None else Some (ct_pendingNative t)),
       na_exitReserve = (if un \<noteq> [] then None else Some (ct_reserve t)),
       na_available = (if un \<noteq> [] then None
         else nonneg_part (map_option (\<lambda>b. b - ct_native t - ct_pendingNative t - ct_reserve t) native))\<rparr>"
    and k: "un = [] \<longrightarrow> totals_are canon (wi_commitments i) t \<and> length ts = length (wi_tokens i) \<and> native \<noteq> None \<and>
       (\<forall>x\<in>set ts. it_balance x \<noteq> None \<and> token_blockers t x = []) \<and>
       (\<forall>f. map_option (\<lambda>b. b - ct_native t - ct_pendingNative t - ct_reserve t) native = Some f \<longrightarrow> 0 \<le> f)"
    by (rule snapshot_parts)
  have row: "row_partitioned canon (wi_commitments i) (token_row False t x)" if "un = []" "x \<in> set ts" for x
  proof -
    from that k obtain b where "it_balance x = Some b" "token_blockers t x = []" "totals_are canon (wi_commitments i) t" by blast
    then show ?thesis
      by (auto simp: row_partitioned_def token_row_def Let_def token_free_def token_blockers_def nonneg_part_def totals_are_def
        split: if_splits)
  qed
  have native: "native_partitioned (wi_commitments i) (wa_native (allocateLiveWalletBalances canon le sha i))" if "un = []"
  proof -
    from that k obtain b where "native = Some b" "0 \<le> b - ct_native t - ct_pendingNative t - ct_reserve t"
      "totals_are canon (wi_commitments i) t" by auto
    then show ?thesis by (simp add: s(4) that native_partitioned_def Let_def nonneg_part_def totals_are_def)
  qed
  show ?thesis using row native k by (auto simp: Let_def s(1-3) states_nothing_def s(4) token_row_def)
qed

subsection \<open>A concrete wallet\<close>

text \<open>Two tokens, one active commitment that holds some of each, and one that is no longer active.\<close>

definition sample_commitment :: "js \<Rightarrow> live_commitment" where
  "sample_commitment active = \<lparr>lc_campaignId = VStr ''one'', lc_active = active, lc_known = VBool True,
     lc_allocated = VObj [(''0xA0'', VStr ''70''), (''0xb0'', VStr ''5'')], lc_pending = VObj [(''0xa0'', VStr ''10'')],
     lc_allocatedNative = VStr ''7'', lc_pendingNative = VStr ''0'', lc_exitReserve = VStr ''3'', lc_nftTokenIds = VArr [VStr ''8'']\<rparr>"

definition sample_wallet_balance :: "string \<Rightarrow> string \<Rightarrow> wallet_token_balance" where
  "sample_wallet_balance address balance = \<lparr>wt_address = VStr address, wt_decimals = VNum 6, wt_symbol = VStr ''T'',
     wt_reference = VNull, wt_balanceRaw = VStr balance\<rparr>"

definition sample_wallet_input :: wallet_allocation_input where
  "sample_wallet_input = \<lparr>wi_tokens = [sample_wallet_balance ''0xB0'' ''5'', sample_wallet_balance ''0xA0'' ''100''],
     wi_native = VStr ''12'', wi_commitments = [sample_commitment (VBool True), sample_commitment VNull],
     wi_status = Available, wi_reasons = []\<rparr>"

definition sample_allocation :: wallet_allocation where
  "sample_allocation = allocateLiveWalletBalances Some (\<lambda>a b. a \<le> b) (\<lambda>x. x) sample_wallet_input"

lemma sample_allocation_available:
  "wa_status sample_allocation = Available"
  "map ta_available (wa_tokens sample_allocation) = [Some 20, Some 0]"
  "na_available (wa_native sample_allocation) = Some 2"
  by code_simp+

theorem wallet_balances_partitioned_witness:
  "length (wa_tokens sample_allocation) = 2 \<and>
   list_all (row_partitioned Some (wi_commitments sample_wallet_input)) (wa_tokens sample_allocation) \<and>
   native_partitioned (wi_commitments sample_wallet_input) (wa_native sample_allocation)"
  using wallet_balances_partitioned [of Some "\<lambda>a b. a \<le> b" "\<lambda>x. x" sample_wallet_input]
    sample_allocation_available(1)
  unfolding sample_allocation_def [symmetric] Let_def by (simp add: sample_wallet_input_def list_all_iff)

end
