(* ===== verification/Live_Tables.thy ===== *)
theory Live_Tables
  imports Wallet_Allocation Machines
begin

section \<open>The tables of a shared live wallet\<close>

text \<open>
  The rows of \<open>src/storage/deployment-live-wallet-migration.ts\<close> that belong to one wallet, with the
  constraints the database enforces, and how \<open>live-wallet-store.ts\<close> and
  \<open>live-wallet-commitment-projection.ts\<close> read them.  Identities are texts, a \<open>numeric\<close> is an integer
  (in an input, a text that is not a canonical unsigned decimal is a negative one), a time is in
  milliseconds.  The columns \<open>created_at\<close> and \<open>completed_at\<close> are not kept: the outbox is in order of
  creation, and a job is completed exactly in its terminal statuses, as its constraint requires.
\<close>

subsection \<open>Rows\<close>

datatype wallet_status = Wallet_uninitialized | Wallet_available | Wallet_blocked

record live_wallet =
  vw_generation :: int
  vw_status :: wallet_status
  vw_source :: "keeper_source option"
  vw_nonce :: "int option"
  vw_pendingNonce :: "int option"
  vw_native :: "int option"
  vw_snapshotHash :: "string option"
  vw_commitmentsHash :: "string option"

datatype live_allocation_state = Live_reserved | Live_active | Live_release_pending | Live_released | Live_blocked

record live_allocation =
  vl_id :: string
  vl_campaignId :: string
  vl_revision :: int
  vl_state :: live_allocation_state
  vl_nativeSpend :: int
  vl_pendingNative :: int
  vl_exitReserve :: int
  vl_sourceGeneration :: int
  vl_sourceHash :: string
  vl_hash :: string

record allocation_token =
  at_allocationId :: string
  at_token :: string
  at_allocated :: int
  at_pending :: int

datatype custody_status = Custody_active | Custody_retired_empty | Custody_unmanaged

record live_custody =
  cu_manager :: string
  cu_tokenId :: int
  cu_allocationId :: "string option"
  cu_campaignId :: "string option"
  cu_status :: custody_status
  cu_liquidity :: int
  cu_owed0 :: int
  cu_owed1 :: int
  cu_source :: keeper_source

text \<open>What the setup review and the job that consumes it carry.\<close>

record setup_payload =
  sp_bindingBuildId :: string
  sp_bindingReviewHash :: string
  sp_commitmentsHash :: string
  sp_sourceHash :: string
  sp_profileId :: string
  sp_profileHash :: string
  sp_config :: "RangeKeeperConfig option"
  sp_configHash :: string
  sp_parameters :: "(string \<times> js) list"
  sp_parametersHash :: string
  sp_token0Raw :: int
  sp_token1Raw :: int
  sp_nativeWei :: int
  sp_baseline :: string

datatype live_payload =
    Setup_payload setup_payload
  | Management_payload RangeKeeperLiveManagementReviewPayload
  | Other_payload string

record live_review =
  vr_id :: string
  vr_payload :: live_payload
  vr_payloadHash :: string
  vr_buildId :: string
  vr_source :: keeper_source
  vr_generation :: int
  vr_commitmentsHash :: string
  vr_expiresAt :: int
  vr_consumedBy :: "string option"

datatype live_job_kind = Kind_open | Kind_pause | Kind_resume | Kind_change_range | Kind_close_retain | Kind_close_convert

datatype live_job_status =
  Job_queued | Job_preflighting | Job_executing | Job_confirming | Job_reconciling | Job_succeeded | Job_rejected | Job_blocked | Job_cancelled

record live_job =
  jb_id :: string
  jb_campaignId :: string
  jb_revision :: int
  jb_allocationId :: string
  jb_reviewId :: string
  jb_kind :: live_job_kind
  jb_status :: live_job_status
  jb_priority :: int
  jb_fairness :: int
  jb_payload :: live_payload
  jb_payloadHash :: string
  jb_buildId :: string
  jb_idempotencyKey :: string
  jb_requestDigest :: string
  jb_lease :: "(string \<times> int) option"
  jb_attempt :: int
  jb_resumeStage :: "string option"
  jb_updatedAt :: int

record PilotIntent =
  pt_id :: string
  pt_chainId :: int
  pt_operator :: string
  pt_action :: string
  pt_nonce :: int
  pt_to :: string
  pt_data :: string
  pt_value :: int
  pt_gas :: int
  pt_maxFeePerGas :: int
  pt_maxPriorityFeePerGas :: int
  pt_sourceBlock :: int
  pt_sourceHash :: string

record wallet_image =
  im_operator :: string
  im_source :: keeper_source
  im_nonce :: int
  im_pendingNonce :: int
  im_nativeWei :: int
  im_tokens :: "(string \<times> int) list"
  im_nftTokenIds :: "string list"

record allocation_image =
  ia_campaignId :: string
  ia_liquid :: "(string \<times> int) list"
  ia_nativeSpendWei :: int
  ia_exitReserveWei :: int
  ia_nftTokenIds :: "string list"

record before_image =
  bi_walletGeneration :: int
  bi_wallet :: wallet_image
  bi_allocation :: allocation_image
  bi_pool :: string
  bi_planHash :: string
  bi_authorization :: "string option"

datatype outbox_status = Ob_prepared | Ob_signed | Ob_confirmed | Ob_reverted | Ob_cancelled | Ob_blocked

record canonical_receipt =
  cr_receipt :: string
  cr_receiptHash :: string
  cr_proofHash :: string
  cr_source :: keeper_source

record effect_evidence =
  ee_proofHash :: string
  ee_receiptHash :: string
  ee_effects :: string
  ee_source :: keeper_source
  ee_nonce :: int
  ee_gasWei :: int
  ee_afterWallet :: wallet_image
  ee_afterPool :: "string option"
  ee_referenceValuation :: "string option"
  ee_positionFee :: "string option"

datatype terminal_custody = Managed | Closed_empty

record cleanup_proof =
  pf_allowances :: "stored_allowance list"
  pf_policy :: "(string \<times> allowance_cap list) option"
  pf_allocationHash :: string
  pf_source :: keeper_source
  pf_noPendingAction :: bool
  pf_custodyState :: terminal_custody

record live_outbox =
  ob_jobId :: string
  ob_stage :: string
  ob_intent :: PilotIntent
  ob_plan :: RangeKeeperTxPlan
  ob_before :: before_image
  ob_nonce :: int
  ob_signed :: "(string \<times> string) option"
  ob_status :: outbox_status
  ob_receipt :: "canonical_receipt option"
  ob_effects :: "effect_evidence option"
  ob_cleanup :: "cleanup_proof option"

text \<open>The columns the wallet's queue reads of the deployment tables.\<close>

record deployment_row =
  dp_id :: string
  dp_lifecycle :: campaign_status
  dp_currentRevision :: int
  dp_profileId :: string
  dp_strategyId :: string
  dp_revisionConfig :: js
  dp_revisionConfigHash :: string

record runtime_digest =
  rg_campaignId :: string
  rg_revision :: int
  rg_configHash :: string
  rg_stateHash :: string
  rg_stateRevision :: int

record market_profile =
  mk_id :: string
  mk_chainId :: int
  mk_token0 :: string
  mk_token1 :: string
  mk_profileHash :: string

record live_tables =
  lt_address :: string
  lt_wallet :: "live_wallet option"
  lt_tokens :: "(string \<times> int) list"
  lt_allocations :: "live_allocation list"
  lt_allocationTokens :: "allocation_token list"
  lt_custody :: "live_custody list"
  lt_reviews :: "live_review list"
  lt_jobs :: "live_job list"
  lt_outbox :: "live_outbox list"
  lt_sequence :: int
  lt_deployments :: "deployment_row list"
  lt_runtime :: "runtime_digest list"
  lt_profiles :: "market_profile list"

subsection \<open>What the database enforces\<close>

definition active_status :: "live_job_status \<Rightarrow> bool" where
  "active_status s \<longleftrightarrow> s \<in> {Job_preflighting, Job_executing, Job_confirming, Job_reconciling, Job_blocked}"

definition in_flight :: "live_job_status \<Rightarrow> bool" where
  "in_flight s \<longleftrightarrow> s \<in> {Job_preflighting, Job_executing, Job_confirming, Job_reconciling}"

definition active_jobs :: "live_tables \<Rightarrow> live_job list" where
  "active_jobs t = filter (\<lambda>j. active_status (jb_status j)) (lt_jobs t)"

definition row_holds_nonce :: "live_outbox \<Rightarrow> bool" where
  "row_holds_nonce o' \<longleftrightarrow> ob_status o' \<in> {Ob_prepared, Ob_signed} \<or> ob_status o' = Ob_blocked \<and> ob_signed o' \<noteq> None"

definition jobs_ok :: "live_job list \<Rightarrow> bool" where
  "jobs_ok js \<longleftrightarrow> distinct (map jb_id js) \<and> distinct (map jb_idempotencyKey js) \<and>
     length (filter (\<lambda>j. active_status (jb_status j)) js) \<le> 1 \<and>
     (\<forall>j\<in>set js. 0 \<le> jb_priority j \<and> jb_priority j \<le> 100 \<and> 0 \<le> jb_attempt j)"

definition outbox_row_ok :: "live_outbox \<Rightarrow> bool" where
  "outbox_row_ok o' \<longleftrightarrow> (ob_status o' \<in> {Ob_signed, Ob_confirmed, Ob_reverted} \<longrightarrow> ob_signed o' \<noteq> None) \<and>
     (ob_status o' \<in> {Ob_confirmed, Ob_reverted} \<longrightarrow> ob_receipt o' \<noteq> None) \<and> 0 \<le> ob_nonce o'"

definition outbox_ok :: "live_outbox list \<Rightarrow> bool" where
  "outbox_ok os \<longleftrightarrow> distinct (map (\<lambda>o'. (ob_jobId o', ob_stage o')) os) \<and> (\<forall>o'\<in>set os. outbox_row_ok o') \<and>
     distinct (map ob_nonce (filter (\<lambda>o'. ob_status o' \<noteq> Ob_cancelled) os)) \<and>
     length (filter row_holds_nonce os) \<le> 1"

definition allocations_ok :: "live_allocation list \<Rightarrow> bool" where
  "allocations_ok as \<longleftrightarrow> distinct (map vl_id as) \<and>
     distinct (map (\<lambda>a. (vl_campaignId a, vl_revision a)) as) \<and>
     distinct (map vl_campaignId (filter (\<lambda>a. vl_state a \<noteq> Live_released) as)) \<and>
     (\<forall>a\<in>set as. 0 \<le> vl_nativeSpend a \<and> 0 \<le> vl_pendingNative a \<and> 0 \<le> vl_exitReserve a \<and> 0 < vl_sourceGeneration a)"

definition allocation_tokens_ok :: "allocation_token list \<Rightarrow> bool" where
  "allocation_tokens_ok ts \<longleftrightarrow> distinct (map (\<lambda>x. (at_allocationId x, at_token x)) ts) \<and>
     (\<forall>x\<in>set ts. 0 \<le> at_allocated x \<and> 0 \<le> at_pending x)"

definition tokens_of_allocations :: "live_allocation list \<Rightarrow> allocation_token list \<Rightarrow> bool" where
  "tokens_of_allocations as ts \<longleftrightarrow> at_allocationId ` set ts \<subseteq> vl_id ` set as"

definition custody_ok :: "live_custody list \<Rightarrow> bool" where
  "custody_ok cs \<longleftrightarrow> distinct (map (\<lambda>c. (cu_manager c, cu_tokenId c)) cs) \<and>
     (\<forall>c\<in>set cs. 0 < cu_tokenId c \<and> 0 \<le> cu_liquidity c \<and> 0 \<le> cu_owed0 c \<and> 0 \<le> cu_owed1 c \<and>
        (cu_status c = Custody_retired_empty \<longrightarrow> cu_liquidity c = 0 \<and> cu_owed0 c = 0 \<and> cu_owed1 c = 0))"

definition wallet_row_ok :: "live_wallet \<Rightarrow> bool" where
  "wallet_row_ok w \<longleftrightarrow> 0 \<le> vw_generation w \<and> (\<forall>n. vw_nonce w = Some n \<longrightarrow> 0 \<le> n) \<and>
     (\<forall>n. vw_pendingNonce w = Some n \<longrightarrow> 0 \<le> n) \<and> (\<forall>n. vw_native w = Some n \<longrightarrow> 0 \<le> n)"

definition tables_ok :: "live_tables \<Rightarrow> bool" where
  "tables_ok t \<longleftrightarrow> jobs_ok (lt_jobs t) \<and> outbox_ok (lt_outbox t) \<and> allocations_ok (lt_allocations t) \<and>
     allocation_tokens_ok (lt_allocationTokens t) \<and>
     tokens_of_allocations (lt_allocations t) (lt_allocationTokens t) \<and> custody_ok (lt_custody t) \<and>
     distinct (map vr_id (lt_reviews t)) \<and> distinct (map fst (lt_tokens t)) \<and> (\<forall>(a, n)\<in>set (lt_tokens t). 0 \<le> n)"

text \<open>A statement that writes: a violated constraint fails it, and with it the transaction.\<close>

definition write_tables :: "live_tables \<Rightarrow> live_tables res" where
  "write_tables t = (if tables_ok t then Inr t else Inl ''violates a constraint'')"

subsection \<open>Reading\<close>

definition live_allocations :: "live_tables \<Rightarrow> live_allocation list" where
  "live_allocations t = filter (\<lambda>a. vl_state a \<noteq> Live_released) (lt_allocations t)"

definition live_allocation_ids :: "live_tables \<Rightarrow> string list" where
  "live_allocation_ids t = map vl_id (live_allocations t)"

definition live_allocation_tokens :: "live_tables \<Rightarrow> allocation_token list" where
  "live_allocation_tokens t = filter (\<lambda>x. at_allocationId x \<in> set (live_allocation_ids t)) (lt_allocationTokens t)"

definition token_obligation :: "live_tables \<Rightarrow> string \<Rightarrow> int" where
  "token_obligation t token =
     (\<Sum>x\<leftarrow>filter (\<lambda>x. at_token x = token) (live_allocation_tokens t). at_allocated x + at_pending x)"

definition native_obligation :: "live_tables \<Rightarrow> int" where
  "native_obligation t = (\<Sum>a\<leftarrow>live_allocations t. vl_nativeSpend a + vl_pendingNative a + vl_exitReserve a)"

record commitment_allocation =
  co_allocationId :: string
  co_campaignId :: string
  co_state :: live_allocation_state
  co_tokens :: "(string \<times> int \<times> int) list"
  co_nativeSpend :: int
  co_pendingNative :: int
  co_exitReserve :: int
  co_nftTokenIds :: "int list"

definition text_le :: "string \<Rightarrow> string \<Rightarrow> bool" where
  "text_le a b \<longleftrightarrow> a \<le> b"

definition custody_le :: "live_custody \<Rightarrow> live_custody \<Rightarrow> bool" where
  "custody_le c d \<longleftrightarrow> cu_manager c < cu_manager d \<or> cu_manager c = cu_manager d \<and> cu_tokenId c \<le> cu_tokenId d"

definition readCommitments :: "live_tables \<Rightarrow> commitment_allocation list" where
  "readCommitments t = map (\<lambda>a. \<lparr>co_allocationId = vl_id a, co_campaignId = vl_campaignId a, co_state = vl_state a,
       co_tokens = map (\<lambda>x. (at_token x, at_allocated x, at_pending x))
         (sort_by (\<lambda>x y. text_le (at_token x) (at_token y)) (filter (\<lambda>x. at_allocationId x = vl_id a) (lt_allocationTokens t))),
       co_nativeSpend = vl_nativeSpend a, co_pendingNative = vl_pendingNative a, co_exitReserve = vl_exitReserve a,
       co_nftTokenIds = map cu_tokenId
         (filter (\<lambda>c. cu_campaignId c = Some (vl_campaignId a) \<and> cu_status c = Custody_active) (sort_by custody_le (lt_custody t)))\<rparr>)
     (sort_by (\<lambda>a b. text_le (vl_campaignId a) (vl_campaignId b)) (live_allocations t))"

definition projectLiveWalletCommitmentRows :: "(string \<Rightarrow> string \<Rightarrow> bool) \<Rightarrow> commitment_allocation list \<Rightarrow> live_commitment list" where
  "projectLiveWalletCommitmentRows le cs = map (\<lambda>c. \<lparr>lc_campaignId = VStr (''deployment:'' @ co_campaignId c), lc_active = VBool True,
       lc_known = VBool (co_state c \<in> {Live_reserved, Live_active, Live_release_pending}),
       lc_allocated = VObj (map (\<lambda>(a, n, p). (lower a, VStr (show_int n))) (co_tokens c)),
       lc_pending = VObj (map (\<lambda>(a, n, p). (lower a, VStr (show_int p))) (co_tokens c)),
       lc_allocatedNative = VStr (show_int (co_nativeSpend c)), lc_pendingNative = VStr (show_int (co_pendingNative c)),
       lc_exitReserve = VStr (show_int (co_exitReserve c)), lc_nftTokenIds = VArr (map (\<lambda>n. VStr (show_int n)) (co_nftTokenIds c))\<rparr>)
     (sort_by (\<lambda>a b. le (co_campaignId a) (co_campaignId b)) cs)"

definition liveWalletCommitmentFingerprint ::
  "(string \<Rightarrow> string option) \<Rightarrow> (string \<Rightarrow> string \<Rightarrow> bool) \<Rightarrow> (string \<Rightarrow> string) \<Rightarrow> commitment_allocation list \<Rightarrow> string"
where
  "liveWalletCommitmentFingerprint canon le sha cs =
    (let addresses = set_spread (concat (map (\<lambda>c. map (\<lambda>(a, n, p). lower a) (co_tokens c)) cs)) in
     wa_commitmentsHash (allocateLiveWalletBalances canon le sha \<lparr>wi_tokens = map (\<lambda>a. \<lparr>wt_address = VStr a, wt_decimals = VNum 0,
         wt_symbol = VStr a, wt_reference = VNull, wt_balanceRaw = VStr ''0''\<rparr>) addresses,
       wi_native = VStr ''0'', wi_commitments = projectLiveWalletCommitmentRows le cs, wi_status = Available, wi_reasons = []\<rparr>))"

definition liveWalletSourceNotBefore :: "keeper_source option \<Rightarrow> keeper_source \<Rightarrow> bool" where
  "liveWalletSourceNotBefore current pinned = (case current of
      None \<Rightarrow> False
    | Some c \<Rightarrow>
        if ks_block c < 0 \<or> ks_block pinned < 0 then False
        else if ks_block c = ks_block pinned then same (ks_hash c) (ks_hash pinned) \<and> ks_timestamp c = ks_timestamp pinned
        else ks_block c > ks_block pinned \<and> ks_timestamp c \<ge> ks_timestamp pinned)"

end
