(* ===== verification/Wallet_Store.thy ===== *)
theory Wallet_Store
  imports Live_Tables
begin

section \<open>The store of a shared live wallet\<close>

text \<open>
  The transactions of \<open>src/deployments/live-wallet-store.ts\<close>: a wallet snapshot, a frozen review, the
  reservation of a campaign's capital, which consumes the review, and its release.  A transaction
  takes the tables of the wallet it names and returns them changed, or fails and leaves them as they
  were; the advisory lock and the serializable isolation make it one step.  Random identities and the
  two clocks are arguments.  \<open>hashed\<close> lists what is hashed; the hash itself is a parameter.
\<close>

subsection \<open>Hashes and texts\<close>

record snapshot_content =
  wc_source :: keeper_source
  wc_nonce :: int
  wc_pendingNonce :: int
  wc_native :: int
  wc_tokens :: "(string \<times> int) list"
  wc_commitmentsHash :: string

datatype hashed =
    H_json js
  | H_payload live_payload
  | H_snapshot string snapshot_content
  | H_allocation "(string \<times> int) list" int int "string list"
  | H_intent PilotIntent
  | H_plan RangeKeeperTxPlan
  | H_frozen PilotIntent RangeKeeperTxPlan before_image
  | H_operation string string

record live_hashes =
  lh_canon :: "string \<Rightarrow> string option"
  lh_le :: "string \<Rightarrow> string \<Rightarrow> bool"
  lh_sha :: "string \<Rightarrow> string"
  lh_hash :: "hashed \<Rightarrow> string"
  lh_config :: "RangeKeeperConfig \<Rightarrow> string"

definition address_text :: "string \<Rightarrow> bool" where
  "address_text s \<longleftrightarrow> length s = 42 \<and> take 2 s = ''0x'' \<and> list_all is_hex (drop 2 s)"

definition lowerAddress :: "string \<Rightarrow> string res" where
  "lowerAddress s = bind_ok (ensure (address_text s) ''Invalid wallet/token address'') (\<lambda>_. Inr (lower s))"

definition uint_check :: "int \<Rightarrow> string \<Rightarrow> unit res" where
  "uint_check v field = ensure (0 \<le> v) (''Invalid unsigned amount: '' @ field)"

definition fingerprint :: "live_hashes \<Rightarrow> live_tables \<Rightarrow> string" where
  "fingerprint h t = liveWalletCommitmentFingerprint (lh_canon h) (lh_le h) (lh_sha h) (readCommitments t)"

definition lower_rows :: "live_hashes \<Rightarrow> (string \<times> int) list \<Rightarrow> (string \<times> int) list res" where
  "lower_rows h rows = bind_ok (map_res (\<lambda>(a, n). bind_ok (lowerAddress a) (\<lambda>l. Inr (l, n))) rows)
     (\<lambda>ls. Inr (sort_by (\<lambda>x y. lh_le h (fst x) (fst y)) ls))"

definition snapshotHashFor :: "live_hashes \<Rightarrow> string \<Rightarrow> snapshot_content \<Rightarrow> string" where
  "snapshotHashFor h wallet c = lh_hash h (H_snapshot wallet (c\<lparr>wc_tokens := sort_by (\<lambda>x y. lh_le h (fst x) (fst y)) (wc_tokens c)\<rparr>))"

record live_clocks =
  ck_app :: int
  ck_db :: int

subsection \<open>Snapshots\<close>

record effect_proof =
  ep_priorSnapshotHash :: string
  ep_operationId :: string
  ep_evidenceHash :: string

record snapshot_input =
  sx_content :: snapshot_content
  sx_snapshotHash :: "string option"
  sx_status :: "wallet_status option"
  sx_reorgRecovery :: bool
  sx_effectProof :: "effect_proof option"

definition unresolved_stage :: "live_tables \<Rightarrow> bool" where
  "unresolved_stage t \<longleftrightarrow> (\<exists>r\<in>set (lt_outbox t). ob_status r \<in> {Ob_prepared, Ob_signed, Ob_blocked} \<and> ob_receipt r = None)"

definition operation_id_text :: "string \<Rightarrow> bool" where
  "operation_id_text s \<longleftrightarrow> s \<noteq> [] \<and> length s \<le> 128 \<and>
     list_all (\<lambda>c. is_digit c \<or> is_upper c \<or> CHR ''a'' \<le> c \<and> c \<le> CHR ''z'' \<or> c \<in> {CHR ''-'', CHR ''_'', CHR '':''}) s"

definition allocated_addresses :: "live_tables \<Rightarrow> string list" where
  "allocated_addresses t = remdups (map at_token (live_allocation_tokens t))"

definition balance_in :: "(string \<times> int) list \<Rightarrow> string \<Rightarrow> int" where
  "balance_in rows token = (case map_of rows token of Some n \<Rightarrow> n | None \<Rightarrow> 0)"

definition balance_changed :: "live_tables \<Rightarrow> live_wallet \<Rightarrow> snapshot_content \<Rightarrow> (string \<times> int) list \<Rightarrow> bool" where
  "balance_changed t p c rows \<longleftrightarrow> vw_native p \<noteq> Some (wc_native c) \<or> vw_nonce p \<noteq> Some (wc_nonce c) \<or>
     vw_pendingNonce p \<noteq> Some (wc_pendingNonce c) \<or> sort_by (\<lambda>x y. text_le (fst x) (fst y)) (lt_tokens t) \<noteq> rows"

text \<open>What the previous snapshot has to say of a new one.\<close>

definition snapshot_follows ::
  "live_tables \<Rightarrow> snapshot_input \<Rightarrow> (string \<times> int) list \<Rightarrow> live_wallet option \<Rightarrow> bool res"
where
  "snapshot_follows t i rows prior = (let c = sx_content i; source = wc_source c in case prior of
      None \<Rightarrow> Inr True
    | Some p \<Rightarrow>
        bind_ok (case vw_source p of None \<Rightarrow> Inr () | Some s \<Rightarrow>
          bind_ok (ensure (sx_reorgRecovery i \<or> \<not> ks_block source < ks_block s)
            ''Wallet source moved backwards; explicit reorg recovery required'') (\<lambda>_.
          ensure (sx_reorgRecovery i \<or> \<not> (ks_block source = ks_block s \<and> \<not> same (ks_hash s) (ks_hash source)))
            ''Wallet source hash changed at same height; explicit reorg recovery required'')) (\<lambda>_.
        bind_ok (ensure (\<forall>a\<in>set (allocated_addresses t). \<exists>r\<in>set rows. fst r = a)
          ''Snapshot omitted a token with a live allocation'') (\<lambda>_.
        let changed = balance_changed t p c rows in
        bind_ok (ensure (\<not> (changed \<and> allocated_addresses t \<noteq> []) \<or> (case sx_effectProof i of None \<Rightarrow> False | Some e \<Rightarrow>
             vw_snapshotHash p = Some (ep_priorSnapshotHash e) \<and> digest_text (ep_evidenceHash e) \<and> operation_id_text (ep_operationId e)))
          ''Wallet balance delta requires receipt-bound allocation reconciliation'') (\<lambda>_.
        Inr (changed \<or> vw_commitmentsHash p \<noteq> Some (wc_commitmentsHash c) \<or> \<not> vw_generation p > 0)))))"

definition oversubscribed :: "live_tables \<Rightarrow> (string \<times> int) list \<Rightarrow> int \<Rightarrow> bool" where
  "oversubscribed t rows native \<longleftrightarrow>
     (\<exists>a\<in>set (allocated_addresses t). balance_in rows a < token_obligation t a) \<or> native < native_obligation t"

definition snapshot_status :: "live_clocks \<Rightarrow> live_tables \<Rightarrow> snapshot_input \<Rightarrow> (string \<times> int) list \<Rightarrow> wallet_status" where
  "snapshot_status now t i rows = (let c = sx_content i;
     status = (if wc_nonce c = wc_pendingNonce c then (case sx_status i of Some s \<Rightarrow> s | None \<Rightarrow> Wallet_available) else Wallet_blocked);
     age = ck_app now - ks_timestamp (wc_source c) * 1000 in
     if age < - 5000 \<or> age > 180000 then Wallet_blocked
     else if oversubscribed t rows (wc_native c) then Wallet_blocked else status)"

definition applyWalletSnapshotInTransaction ::
  "live_hashes \<Rightarrow> live_clocks \<Rightarrow> snapshot_input \<Rightarrow> live_tables \<Rightarrow> (live_wallet \<times> live_tables) res"
where
  "applyWalletSnapshotInTransaction h now i t = (let c = sx_content i; source = wc_source c; prior = lt_wallet t in
     bind_ok (ensure (sx_effectProof i = None \<longrightarrow> \<not> unresolved_stage t) ''Wallet snapshot refresh is blocked by an unresolved stage'') (\<lambda>_.
     bind_ok (ensure (hash_text (ks_hash source) \<and> safe_integer (ks_timestamp source) \<and> ks_timestamp source > 0 \<and> ks_block source \<ge> 0)
       ''Invalid canonical source'') (\<lambda>_.
     bind_ok (uint_check (wc_nonce c) ''nonce'') (\<lambda>_. bind_ok (uint_check (wc_pendingNonce c) ''pending nonce'') (\<lambda>_.
     bind_ok (uint_check (wc_native c) ''native balance'') (\<lambda>_.
     bind_ok (ensure (digest_text (wc_commitmentsHash c)) ''Invalid commitments hash'') (\<lambda>_.
     bind_ok (lower_rows h (wc_tokens c)) (\<lambda>rows.
     bind_ok (ensure (\<not> (length rows < 1 \<or> length rows > 8)) ''Wallet token inventory is outside the supported complete set'') (\<lambda>_.
     bind_ok (ensure (distinct (map fst rows)) ''Duplicate wallet token'') (\<lambda>_.
     bind_ok (ensure (\<forall>r\<in>set rows. 0 \<le> snd r) ''Invalid unsigned amount: token balance'') (\<lambda>_.
     bind_ok (snapshot_follows t i rows prior) (\<lambda>contentChanged.
     bind_ok (ensure (fingerprint h t = wc_commitmentsHash c) ''Wallet commitment fingerprint does not match persisted allocations'') (\<lambda>_.
     let generation = (case prior of Some p \<Rightarrow> vw_generation p | None \<Rightarrow> 0) + (if contentChanged then 1 else 0);
       computed = snapshotHashFor h (lt_address t) (c\<lparr>wc_tokens := rows\<rparr>) in
     bind_ok (ensure (sx_snapshotHash i = None \<or> sx_snapshotHash i = Some computed) ''Wallet snapshot hash mismatch'') (\<lambda>_.
     bind_ok (ensure (digest_text computed) ''Invalid snapshot hash'') (\<lambda>_.
     let w = \<lparr>vw_generation = generation, vw_status = snapshot_status now t i rows, vw_source = Some source,
       vw_nonce = Some (wc_nonce c), vw_pendingNonce = Some (wc_pendingNonce c), vw_native = Some (wc_native c),
       vw_snapshotHash = Some computed, vw_commitmentsHash = Some (wc_commitmentsHash c)\<rparr> in
     bind_ok (write_tables (t\<lparr>lt_wallet := Some w, lt_tokens := rows\<rparr>)) (\<lambda>t'. Inr (w, t')))))))))))))))))"

subsection \<open>Reviews\<close>

record review_input =
  rx_reviewId :: string
  rx_payload :: live_payload
  rx_payloadHash :: string
  rx_buildId :: string
  rx_source :: keeper_source
  rx_expiresAt :: "int option"
  rx_walletGeneration :: int
  rx_commitmentsHash :: string

definition wallet_matches_review :: "live_wallet option \<Rightarrow> int \<Rightarrow> string \<Rightarrow> keeper_source \<Rightarrow> bool" where
  "wallet_matches_review w generation commitmentsHash source \<longleftrightarrow> (case w of
     Some s \<Rightarrow> vw_status s = Wallet_available \<and> vw_source s \<noteq> None \<and> vw_generation s = generation \<and>
       vw_commitmentsHash s = Some commitmentsHash \<and> liveWalletSourceNotBefore (vw_source s) source
   | None \<Rightarrow> False)"

definition recordReview :: "live_hashes \<Rightarrow> live_clocks \<Rightarrow> review_input \<Rightarrow> live_tables \<Rightarrow> (live_review \<times> live_tables) res" where
  "recordReview h now i t =
     bind_ok (ensure (lh_hash h (H_payload (rx_payload i)) = rx_payloadHash i) ''Review payload hash mismatch'') (\<lambda>_.
     bind_ok (ensure (digest_text (rx_buildId i) \<and> digest_text (rx_commitmentsHash i)) ''Invalid review identity'') (\<lambda>_.
     case rx_expiresAt i of None \<Rightarrow> Inl ''Invalid review expiry'' | Some expiry \<Rightarrow>
     bind_ok (ensure (\<not> unresolved_stage t) ''Live review is blocked by an unresolved stage'') (\<lambda>_.
     bind_ok (ensure (wallet_matches_review (lt_wallet t) (rx_walletGeneration i) (rx_commitmentsHash i) (rx_source i))
       ''Wallet snapshot changed before review persistence'') (\<lambda>_.
     let r = \<lparr>vr_id = rx_reviewId i, vr_payload = rx_payload i, vr_payloadHash = rx_payloadHash i, vr_buildId = rx_buildId i,
       vr_source = rx_source i, vr_generation = rx_walletGeneration i, vr_commitmentsHash = rx_commitmentsHash i,
       vr_expiresAt = expiry, vr_consumedBy = None\<rparr> in
     bind_ok (ensure (expiry > ck_db now) ''violates a constraint'') (\<lambda>_.
     bind_ok (write_tables (t\<lparr>lt_reviews := lt_reviews t @ [r]\<rparr>)) (\<lambda>t'. Inr (r, t')))))))"

definition readReview :: "live_tables \<Rightarrow> string \<Rightarrow> live_review option" where
  "readReview t i = find (\<lambda>r. vr_id r = i) (lt_reviews t)"

record queued_result =
  qr_campaignId :: string
  qr_allocationId :: string
  qr_jobId :: string
  qr_status :: live_job_status
  qr_replayed :: bool

definition find_request :: "live_tables \<Rightarrow> string \<Rightarrow> live_job option" where
  "find_request t key = find (\<lambda>j. jb_idempotencyKey j = key) (lt_jobs t)"

definition prior_result :: "live_job \<Rightarrow> queued_result" where
  "prior_result j = \<lparr>qr_campaignId = jb_campaignId j, qr_allocationId = jb_allocationId j, qr_jobId = jb_id j,
     qr_status = jb_status j, qr_replayed = True\<rparr>"

definition lookupLiveJobByRequest :: "live_tables \<Rightarrow> string \<Rightarrow> string \<Rightarrow> queued_result option res" where
  "lookupLiveJobByRequest t key digest = (case find_request t key of
      None \<Rightarrow> Inr None
    | Some j \<Rightarrow> bind_ok (ensure (jb_requestDigest j = digest) ''IDEMPOTENCY_CONFLICT'') (\<lambda>_. Inr (Some (prior_result j))))"

subsection \<open>Reservation\<close>

text \<open>
  The campaign a reservation opens.  \<open>dependencies\<close> is what the tables of the older live controllers and of
  deployments without an allocation say: the error of an unknown commitment, if there is one.  The
  texts of \<open>stable\<close> agree exactly when the values agree with the members of every object in order.
\<close>

record reserve_campaign =
  cc_wallet :: string
  cc_marketProfileId :: string
  cc_mode :: string
  cc_strategyId :: string
  cc_strategyVersion :: string
  cc_stateSchemaVersion :: int
  cc_token0Raw :: int
  cc_token1Raw :: int
  cc_nativeWei :: int
  cc_config :: "(string \<times> js) list"
  cc_configHash :: string
  cc_baseline :: string

record reserve_input =
  ri_requestId :: string
  ri_requestDigest :: string
  ri_reviewId :: string
  ri_reviewHash :: string
  ri_campaign :: reserve_campaign
  ri_tokens :: "(string \<times> int) list"
  ri_nativeSpend :: int
  ri_exitReserve :: int
  ri_nftTokenIds :: "int list"
  ri_payload :: live_payload
  ri_buildId :: "string option"
  ri_verifySource :: "keeper_source \<Rightarrow> unit res"

record fresh_ids =
  fr_campaign :: string
  fr_allocation :: string
  fr_job :: string

fun stable_js :: "js \<Rightarrow> js" and stable_all :: "js list \<Rightarrow> js list" and stable_members :: "(string \<times> js) list \<Rightarrow> (string \<times> js) list" where
  "stable_js (VArr xs) = VArr (stable_all xs)"
| "stable_js (VObj kvs) = VObj (sort_by (\<lambda>x y. text_le (fst x) (fst y)) (stable_members kvs))"
| "stable_js v = v"
| "stable_all [] = []"
| "stable_all (x # xs) = stable_js x # stable_all xs"
| "stable_members [] = []"
| "stable_members ((k, v) # kvs) = (k, stable_js v) # stable_members kvs"

definition stable_same :: "js \<Rightarrow> js \<Rightarrow> bool" where
  "stable_same v w \<longleftrightarrow> stable_js v = stable_js w"

definition revision_config :: "(string \<times> js) list \<Rightarrow> string \<Rightarrow> int \<Rightarrow> (string \<times> js) list" where
  "revision_config ps version schema = AList.update ''stateSchemaVersion'' (VNum schema)
     (AList.update ''strategyVersion'' (VStr version) (AList.update ''strategyId'' (VStr ''rangekeeper_v1'') ps))"

text \<open>The number of a column that is set in every wallet with a source.\<close>

definition or_zero :: "int option \<Rightarrow> int" where
  "or_zero v = (case v of Some n \<Rightarrow> n | None \<Rightarrow> 0)"

definition reserve_input_checks :: "string \<Rightarrow> reserve_input \<Rightarrow> unit res" where
  "reserve_input_checks address i = (let c = ri_campaign i in
     bind_ok (ensure (digest_text (ri_requestDigest i) \<and> digest_text (ri_reviewHash i)) ''Invalid request/review digest'') (\<lambda>_.
     bind_ok (lowerAddress (cc_wallet c)) (\<lambda>campaignWallet.
     bind_ok (ensure (campaignWallet = address \<and> cc_mode c = ''live'' \<and> cc_strategyId c = ''rangekeeper_v1'')
       ''Campaign wallet/strategy mismatch'') (\<lambda>_.
     ensure (digest_text (cc_configHash c) \<and> \<not> cc_stateSchemaVersion c < 1) ''Invalid campaign config identity''))))"

definition reserve_amount_checks :: "live_hashes \<Rightarrow> reserve_input \<Rightarrow> (string \<times> int) list res" where
  "reserve_amount_checks h i =
     bind_ok (lower_rows h (ri_tokens i)) (\<lambda>tokens.
     bind_ok (ensure (distinct (map fst tokens)) ''Duplicate token allocation'') (\<lambda>_.
     bind_ok (ensure (\<forall>r\<in>set tokens. 0 \<le> snd r) ''Invalid unsigned amount: token allocation'') (\<lambda>_.
     bind_ok (uint_check (ri_nativeSpend i) ''native spend'') (\<lambda>_. bind_ok (uint_check (ri_exitReserve i) ''exit reserve'') (\<lambda>_.
     bind_ok (ensure (\<forall>n\<in>set (ri_nftTokenIds i). 0 \<le> n) ''Invalid unsigned amount: NFT token id'') (\<lambda>_.
     bind_ok (ensure (distinct (ri_nftTokenIds i)) ''Duplicate NFT allocation'') (\<lambda>_. Inr tokens)))))))"

definition reserve_review_checks :: "live_clocks \<Rightarrow> reserve_input \<Rightarrow> live_tables \<Rightarrow> (live_wallet \<times> keeper_source \<times> live_review) res" where
  "reserve_review_checks now i t =
    (case (readReview t (ri_reviewId i), lt_wallet t) of
       (Some r, wallet) \<Rightarrow>
         bind_ok (ensure (vr_consumedBy r = None) ''Review missing or already consumed'') (\<lambda>_.
         bind_ok (ensure (vr_payloadHash r = ri_reviewHash i \<and> (case ri_buildId i of None \<Rightarrow> True | Some b \<Rightarrow> b = [] \<or> vr_buildId r = b))
           ''Review binding mismatch'') (\<lambda>_.
         bind_ok (ensure (wallet_matches_review wallet (vr_generation r) (vr_commitmentsHash r) (vr_source r))
           ''Wallet generation changed since review'') (\<lambda>_.
         bind_ok (ensure (\<not> (ck_db now \<ge> vr_expiresAt r \<or> ck_db now - ks_timestamp (vr_source r) * 1000 > 180000 \<or>
             ks_timestamp (vr_source r) * 1000 > ck_db now + 5000)) ''Review source stale or expired'') (\<lambda>_.
         case wallet of None \<Rightarrow> Inl ''Wallet generation changed since review'' | Some w \<Rightarrow>
         bind_ok (ensure (vw_nonce w \<noteq> None \<and> vw_pendingNonce w \<noteq> None \<and> vw_nonce w = vw_pendingNonce w) ''Wallet nonce not canonical'') (\<lambda>_.
         bind_ok (ri_verifySource i (vr_source r)) (\<lambda>_.
         case vw_source w of None \<Rightarrow> Inl ''Wallet generation changed since review'' | Some source \<Rightarrow>
         bind_ok (if ks_block source \<noteq> ks_block (vr_source r) then ri_verifySource i source else Inr ()) (\<lambda>_.
         Inr (w, source, r))))))))
     | _ \<Rightarrow> Inl ''Review missing or already consumed'')"

text \<open>No token and not the native balance may be promised beyond what the wallet holds.\<close>

definition reserve_capacity :: "live_tables \<Rightarrow> live_wallet \<Rightarrow> (string \<times> int) list \<Rightarrow> int \<Rightarrow> unit res" where
  "reserve_capacity t w tokens native =
     bind_ok (ensure (\<forall>(a, n)\<in>set tokens. a \<in> set (map fst (lt_tokens t))) ''Unknown wallet token'') (\<lambda>_.
     bind_ok (ensure (\<forall>a\<in>set (allocated_addresses t) \<union> fst ` set tokens.
         \<not> token_obligation t a + balance_in tokens a > (case map_of (lt_tokens t) a of Some n \<Rightarrow> n | None \<Rightarrow> -1))
       ''Wallet token oversubscribed'') (\<lambda>_.
     ensure (\<not> native_obligation t + native > or_zero (vw_native w)) ''Wallet native balance oversubscribed''))"

definition reserve_campaign_checks :: "live_tables \<Rightarrow> reserve_input \<Rightarrow> (string \<times> int) list \<Rightarrow> market_profile res" where
  "reserve_campaign_checks t i tokens = (let c = ri_campaign i in
     case find (\<lambda>p. mk_id p = cc_marketProfileId c) (lt_profiles t) of
       None \<Rightarrow> Inl ''Unknown/incompatible market profile''
     | Some p \<Rightarrow>
         bind_ok (ensure (mk_chainId p = 4663) ''Unknown/incompatible market profile'') (\<lambda>_.
         bind_ok (lowerAddress (mk_token0 p)) (\<lambda>token0. bind_ok (uint_check (cc_token0Raw c) ''token0 campaign allocation'') (\<lambda>_.
         bind_ok (ensure (balance_in tokens token0 = cc_token0Raw c) ''Campaign/allocation token amounts mismatch'') (\<lambda>_.
         bind_ok (lowerAddress (mk_token1 p)) (\<lambda>token1. bind_ok (uint_check (cc_token1Raw c) ''token1 campaign allocation'') (\<lambda>_.
         bind_ok (ensure (balance_in tokens token1 = cc_token1Raw c) ''Campaign/allocation token amounts mismatch'') (\<lambda>_.
         bind_ok (uint_check (cc_nativeWei c) ''campaign native allocation'') (\<lambda>_.
         bind_ok (ensure (cc_nativeWei c = ri_nativeSpend i + ri_exitReserve i) ''Campaign/native allocation mismatch'') (\<lambda>_.
         Inr p))))))))))"

definition reserved_nfts :: "live_tables \<Rightarrow> int list \<Rightarrow> live_custody list res" where
  "reserved_nfts t ids = (let rows = filter (\<lambda>c. cu_tokenId c \<in> set ids) (lt_custody t) in
     bind_ok (ensure (\<not> (length rows \<noteq> length ids \<or> (\<exists>r\<in>set rows. (case cu_campaignId r of None \<Rightarrow> False | Some c \<Rightarrow> c \<noteq> []) \<or>
         cu_status r = Custody_unmanaged \<or> cu_status r = Custody_retired_empty))) ''NFT custody allocation is not proven available'')
       (\<lambda>_. Inr rows))"

definition review_mismatches ::
  "live_hashes \<Rightarrow> (string \<Rightarrow> bool) \<Rightarrow> reserve_input \<Rightarrow> live_review \<Rightarrow> market_profile \<Rightarrow> string list"
where
  "review_mismatches h is_address i r p = (case ri_payload i of
     Setup_payload s \<Rightarrow> (let c = ri_campaign i;
       config = revision_config (sp_parameters s) (cc_strategyVersion c) (cc_stateSchemaVersion c);
       frozen = (case vr_payload r of Setup_payload z \<Rightarrow> sp_bindingReviewHash z = sp_bindingReviewHash s \<and> sp_profileHash z = sp_profileHash s | _ \<Rightarrow> False);
       valid = (case sp_config s of None \<Rightarrow> False | Some k \<Rightarrow> (case parseRangeKeeperConfig is_address False k of
           Inl _ \<Rightarrow> False | Inr k' \<Rightarrow> sp_configHash s = drop 2 (lh_config h k'))) in
       issue (ri_payload i \<noteq> vr_payload r \<or> lh_hash h (H_payload (ri_payload i)) \<noteq> vr_payloadHash r) ''payload'' @
       issue (sp_bindingBuildId s \<noteq> vr_buildId r) ''build'' @
       issue (sp_commitmentsHash s \<noteq> vr_commitmentsHash r) ''commitments'' @
       issue (\<not> same (sp_sourceHash s) (ks_hash (vr_source r))) ''source'' @
       issue (\<not> frozen) ''frozen_identity'' @
       issue (sp_profileHash s \<noteq> mk_profileHash p) ''profile_hash'' @
       issue (sp_config s = None \<or> \<not> valid) ''kernel_config'' @
       issue (sp_parametersHash s \<noteq> lh_hash h (H_json (VObj (sp_parameters s)))) ''parameters_hash'' @
       issue (\<not> stable_same (VObj (cc_config c)) (VObj config) \<or> cc_configHash c \<noteq> lh_hash h (H_json (VObj config))) ''revision_config'' @
       issue (cc_marketProfileId c \<noteq> sp_profileId s) ''profile_id'' @
       issue (cc_baseline c \<noteq> sp_baseline s) ''baseline'' @
       issue (cc_token0Raw c \<noteq> sp_token0Raw s) ''token0'' @
       issue (cc_token1Raw c \<noteq> sp_token1Raw s) ''token1'' @
       issue (cc_nativeWei c \<noteq> sp_nativeWei s) ''native'')
   | _ \<Rightarrow> [''payload''])"

definition reserved_allocation :: "live_hashes \<Rightarrow> fresh_ids \<Rightarrow> reserve_input \<Rightarrow> live_wallet \<Rightarrow> live_review \<Rightarrow> (string \<times> int) list \<Rightarrow> live_allocation" where
  "reserved_allocation h ids i w r tokens = \<lparr>vl_id = fr_allocation ids, vl_campaignId = fr_campaign ids, vl_revision = 1,
     vl_state = Live_reserved, vl_nativeSpend = ri_nativeSpend i, vl_pendingNative = 0, vl_exitReserve = ri_exitReserve i,
     vl_sourceGeneration = vw_generation w, vl_sourceHash = ks_hash (vr_source r),
     vl_hash = lh_hash h (H_allocation tokens (ri_nativeSpend i) (ri_exitReserve i) (map show_int (ri_nftTokenIds i)))\<rparr>"

definition reserved_job :: "live_clocks \<Rightarrow> live_hashes \<Rightarrow> fresh_ids \<Rightarrow> reserve_input \<Rightarrow> live_review \<Rightarrow> int \<Rightarrow> live_job" where
  "reserved_job now h ids i r seq = \<lparr>jb_id = fr_job ids, jb_campaignId = fr_campaign ids, jb_revision = 1,
     jb_allocationId = fr_allocation ids, jb_reviewId = ri_reviewId i, jb_kind = Kind_open, jb_status = Job_queued, jb_priority = 0,
     jb_fairness = seq, jb_payload = ri_payload i, jb_payloadHash = lh_hash h (H_payload (ri_payload i)), jb_buildId = vr_buildId r,
     jb_idempotencyKey = ri_requestId i, jb_requestDigest = ri_requestDigest i, jb_lease = None, jb_attempt = 0,
     jb_resumeStage = None, jb_updatedAt = ck_db now\<rparr>"

definition reserved_deployment :: "fresh_ids \<Rightarrow> reserve_input \<Rightarrow> deployment_row" where
  "reserved_deployment ids i = (let c = ri_campaign i in \<lparr>dp_id = fr_campaign ids, dp_lifecycle = Campaign_opening,
     dp_currentRevision = 1, dp_profileId = cc_marketProfileId c, dp_strategyId = ''rangekeeper_v1'',
     dp_revisionConfig = VObj (cc_config c), dp_revisionConfigHash = cc_configHash c\<rparr>)"

definition consume_review :: "string \<Rightarrow> string \<Rightarrow> live_review list \<Rightarrow> live_review list" where
  "consume_review job review rs = map (\<lambda>r. if vr_id r = review \<and> vr_consumedBy r = None then r\<lparr>vr_consumedBy := Some job\<rparr> else r) rs"

text \<open>The wallet row after its commitments have changed: the next generation, over the same content.\<close>

definition next_generation :: "live_hashes \<Rightarrow> live_tables \<Rightarrow> live_wallet \<Rightarrow> keeper_source \<Rightarrow> int \<Rightarrow> int \<Rightarrow> int \<Rightarrow> live_wallet" where
  "next_generation h t w source nonce pend native = (let f = fingerprint h t in
     w\<lparr>vw_generation := vw_generation w + 1, vw_commitmentsHash := Some f,
       vw_snapshotHash := Some (snapshotHashFor h (lt_address t) \<lparr>wc_source = source, wc_nonce = nonce, wc_pendingNonce = pend,
         wc_native = native, wc_tokens = lt_tokens t, wc_commitmentsHash = f\<rparr>)\<rparr>)"

text \<open>The rows a reservation writes, once its checks have passed.\<close>

definition reserve_rows ::
  "live_hashes \<Rightarrow> live_clocks \<Rightarrow> fresh_ids \<Rightarrow> reserve_input \<Rightarrow> (string \<times> int) list \<Rightarrow> live_wallet \<Rightarrow> keeper_source \<Rightarrow> live_review \<Rightarrow>
   live_custody list \<Rightarrow> live_tables \<Rightarrow> live_tables"
where
  "reserve_rows h now ids i tokens w source r nfts t = (let
     t1 = t\<lparr>lt_deployments := lt_deployments t @ [reserved_deployment ids i],
       lt_allocations := lt_allocations t @ [reserved_allocation h ids i w r tokens],
       lt_allocationTokens := lt_allocationTokens t @
         map (\<lambda>(a, n). \<lparr>at_allocationId = fr_allocation ids, at_token = a, at_allocated = n, at_pending = 0\<rparr>) tokens,
       lt_custody := map (\<lambda>c. if c \<in> set nfts then c\<lparr>cu_allocationId := Some (fr_allocation ids), cu_campaignId := Some (fr_campaign ids)\<rparr>
         else c) (lt_custody t),
       lt_jobs := lt_jobs t @ [reserved_job now h ids i r (lt_sequence t)], lt_sequence := lt_sequence t + 1,
       lt_reviews := consume_review (fr_job ids) (ri_reviewId i) (lt_reviews t)\<rparr> in
     t1\<lparr>lt_wallet := Some (next_generation h t1 w source (or_zero (vw_nonce w)) (or_zero (vw_pendingNonce w)) (or_zero (vw_native w)))\<rparr>)"

definition consumeReviewAndReserve ::
  "live_hashes \<Rightarrow> (string \<Rightarrow> bool) \<Rightarrow> live_clocks \<Rightarrow> fresh_ids \<Rightarrow> err option \<Rightarrow> reserve_input \<Rightarrow> live_tables \<Rightarrow>
   (queued_result \<times> live_tables) res"
where
  "consumeReviewAndReserve h is_address now ids dependencies i t =
     bind_ok (reserve_input_checks (lt_address t) i) (\<lambda>_.
     bind_ok (reserve_amount_checks h i) (\<lambda>tokens.
     case find_request t (ri_requestId i) of
       Some j \<Rightarrow> bind_ok (ensure (jb_requestDigest j = ri_requestDigest i) ''IDEMPOTENCY_CONFLICT'') (\<lambda>_. Inr (prior_result j, t))
     | None \<Rightarrow>
       bind_ok (reserve_review_checks now i t) (\<lambda>(w, source, r).
       bind_ok (case dependencies of Some e \<Rightarrow> Inl e | None \<Rightarrow> Inr ()) (\<lambda>_.
       bind_ok (reserve_capacity t w tokens (ri_nativeSpend i + ri_exitReserve i)) (\<lambda>_.
       bind_ok (reserve_campaign_checks t i tokens) (\<lambda>p.
       bind_ok (reserved_nfts t (ri_nftTokenIds i)) (\<lambda>nfts.
       bind_ok (ensure (review_mismatches h is_address i r p = []) ''Reservation payload does not match frozen review'') (\<lambda>_.
       bind_ok (write_tables (reserve_rows h now ids i tokens w source r nfts t)) (\<lambda>t'.
       Inr (\<lparr>qr_campaignId = fr_campaign ids, qr_allocationId = fr_allocation ids, qr_jobId = fr_job ids,
         qr_status = Job_queued, qr_replayed = False\<rparr>, t'))))))))))"

subsection \<open>Release\<close>

definition terminal_release_status :: "live_job_status \<Rightarrow> bool" where
  "terminal_release_status s \<longleftrightarrow> s \<in> {Job_succeeded, Job_rejected, Job_cancelled}"

definition unresolved_work :: "live_tables \<Rightarrow> string \<Rightarrow> bool" where
  "unresolved_work t allocation \<longleftrightarrow>
     (\<exists>j\<in>set (lt_jobs t). jb_allocationId j = allocation \<and> \<not> terminal_release_status (jb_status j)) \<or>
     (\<exists>r\<in>set (lt_outbox t). \<exists>j\<in>set (lt_jobs t). jb_id j = ob_jobId r \<and> jb_allocationId j = allocation \<and>
        (ob_status r \<in> {Ob_prepared, Ob_signed, Ob_blocked} \<or> ob_signed r \<noteq> None \<and> ob_receipt r = None))"

definition custody_empty :: "live_custody \<Rightarrow> bool" where
  "custody_empty n \<longleftrightarrow> cu_status n = Custody_retired_empty \<and> cu_liquidity n = 0 \<and> cu_owed0 n = 0 \<and> cu_owed1 n = 0"

definition release_row :: "string \<Rightarrow> live_tables \<Rightarrow> live_tables" where
  "release_row i t = t\<lparr>lt_allocations := map (\<lambda>a. if vl_id a = i then a\<lparr>vl_state := Live_released\<rparr> else a) (lt_allocations t)\<rparr>"

definition releaseLiveWalletAllocation :: "live_hashes \<Rightarrow> string \<Rightarrow> live_tables \<Rightarrow> live_tables res" where
  "releaseLiveWalletAllocation h i t =
    (case find (\<lambda>a. vl_id a = i) (lt_allocations t) of
       None \<Rightarrow> Inl ''Unknown wallet allocation''
     | Some a \<Rightarrow> (case find (\<lambda>d. dp_id d = vl_campaignId a) (lt_deployments t) of
         None \<Rightarrow> Inl ''Unknown wallet allocation''
       | Some d \<Rightarrow>
           if vl_state a = Live_released then Inr t
           else bind_ok (ensure (dp_lifecycle d = Campaign_closed) ''Campaign must be canonically closed before allocation release'') (\<lambda>_.
             bind_ok (ensure (\<not> unresolved_work t i) ''Unresolved live job or signed transaction prevents release'') (\<lambda>_.
             bind_ok (ensure (\<forall>n\<in>set (lt_custody t). cu_allocationId n = Some i \<longrightarrow> custody_empty n)
               ''NFT liquidity or unresolved custody prevents allocation release'') (\<lambda>_.
             let t1 = release_row i t in
             case lt_wallet t of
               None \<Rightarrow> Inl ''Wallet snapshot unavailable during release''
             | Some w \<Rightarrow> (case (vw_source w, vw_nonce w, vw_pendingNonce w, vw_native w) of
                 (Some source, Some nonce, Some pend, Some native) \<Rightarrow>
                   write_tables (t1\<lparr>lt_wallet := Some (next_generation h t1 w source nonce pend native)\<rparr>)
               | _ \<Rightarrow> Inl ''Wallet snapshot unavailable during release''))))))"

end
