(* ===== verification/Wallet_Queue.thy ===== *)
theory Wallet_Queue
  imports Wallet_Store Campaign_Request
begin

section \<open>The queue of a shared live wallet\<close>

text \<open>
  \<open>src/deployments/live-wallet-queue.ts\<close> and the signature check of \<open>src/live-pilot/journal.ts\<close>: one
  job at a time owns the wallet under a lease, prepares a stage against the wallet's snapshot,
  records the signed bytes of that stage, and attributes its receipt, until a cleanup proof lets it
  finish.  Each method is a transaction over the tables.  The adapters of the strategy, the parsing
  and recovery of \<open>viem\<close>, hashes, random identities and clocks are parameters; what the adapters
  write to the tables of their campaign is the subject of the campaign's own theories.
\<close>

subsection \<open>Parameters\<close>

record signed_envelope =
  tx_type :: string
  tx_chainId :: int
  tx_nonce :: int
  tx_to :: "string option"
  tx_data :: "string option"
  tx_value :: "int option"
  tx_gas :: int
  tx_maxFeePerGas :: int
  tx_maxPriorityFeePerGas :: "int option"
  tx_accessList :: nat

record authorized_stage =
  au_intent :: PilotIntent
  au_plan :: RangeKeeperTxPlan
  au_pool :: "string option"
  au_authorization :: "string option"
  au_walletGeneration :: int
  au_wallet :: "wallet_image option"
  au_allocation :: "allocation_image option"
  au_snapshot :: "string option"

record nft_position =
  np_tokenId :: int
  np_owner :: string
  np_liquidity :: int
  np_owed0 :: int
  np_owed1 :: int

datatype verified_status = Verified_success | Verified_reverted

record VerifiedQueueReceipt =
  vq_receipt :: string
  vq_receiptHash :: string
  vq_proofHash :: string
  vq_effects :: string
  vq_gasWei :: int
  vq_status :: verified_status
  vq_source :: keeper_source
  vq_afterPool :: "string option"
  vq_referenceValuation :: "string option"
  vq_positionFee :: "string option"
  vq_afterWallet :: wallet_image
  vq_nextLiquid :: "(string \<times> int) list"
  vq_nextNativeSpendWei :: int
  vq_nextExitReserveWei :: int
  vq_nextNftTokenIds :: "string list"
  vq_retiredNftTokenIds :: "string list"
  vq_positionManager :: string
  vq_position :: "nft_position option"

record queue_world =
  qw_hashes :: live_hashes
  qw_uuid :: "string \<Rightarrow> bool"
  qw_parse :: "string \<Rightarrow> signed_envelope res"
  qw_recover :: "string \<Rightarrow> string res"
  qw_keccak :: "string \<Rightarrow> string"
  qw_authorize :: "live_tables \<Rightarrow> live_job \<Rightarrow> string \<Rightarrow> PilotIntent \<Rightarrow> RangeKeeperTxPlan \<Rightarrow> authorized_stage res"
  qw_persist :: "(live_tables \<Rightarrow> live_job \<Rightarrow> live_outbox \<Rightarrow> authorized_stage \<Rightarrow> unit res) option"
  qw_reconcile :: "live_tables \<Rightarrow> live_job \<Rightarrow> live_outbox \<Rightarrow> VerifiedQueueReceipt res"
  qw_afterReceipt :: "live_tables \<Rightarrow> live_job \<Rightarrow> live_outbox \<Rightarrow> VerifiedQueueReceipt \<Rightarrow> unit res"
  qw_cleanup :: "live_tables \<Rightarrow> live_job \<Rightarrow> cleanup_proof res"

subsection \<open>Intents and signatures\<close>

definition bytes_text :: "string \<Rightarrow> bool" where
  "bytes_text s \<longleftrightarrow> take 2 s = ''0x'' \<and> even (length s) \<and> list_all is_hex (drop 2 s)"

definition pilot_intent_parses :: "queue_world \<Rightarrow> PilotIntent \<Rightarrow> bool" where
  "pilot_intent_parses q p \<longleftrightarrow> qw_uuid q (pt_id p) \<and> pt_chainId p = 4663 \<and> lh_canon (qw_hashes q) (pt_operator p) \<noteq> None \<and>
     pt_action p \<noteq> [] \<and> safe_integer (pt_nonce p) \<and> pt_nonce p \<ge> 0 \<and> lh_canon (qw_hashes q) (pt_to p) \<noteq> None \<and>
     bytes_text (pt_data p) \<and> pt_value p = 0 \<and> pt_gas p > 0 \<and> pt_maxFeePerGas p > 0 \<and> pt_maxPriorityFeePerGas p \<ge> 0 \<and>
     pt_sourceBlock p \<ge> 0 \<and> hash_text (pt_sourceHash p) \<and> pt_maxFeePerGas p \<ge> pt_maxPriorityFeePerGas p"

text \<open>\<open>pilotIntentSchema.parse\<close>: the addresses take their canonical case.\<close>

definition parse_pilot_intent :: "queue_world \<Rightarrow> PilotIntent \<Rightarrow> PilotIntent res" where
  "parse_pilot_intent q p = bind_ok (ensure (pilot_intent_parses q p) ''ZodError'') (\<lambda>_.
     Inr (p\<lparr>pt_operator := the (lh_canon (qw_hashes q) (pt_operator p)), pt_to := the (lh_canon (qw_hashes q) (pt_to p))\<rparr>))"

definition verifyPilotSignature :: "queue_world \<Rightarrow> PilotIntent \<Rightarrow> string \<Rightarrow> string res" where
  "verifyPilotSignature q p raw =
     bind_ok (parse_pilot_intent q p) (\<lambda>i. bind_ok (qw_parse q raw) (\<lambda>tx.
     bind_ok (assertion (tx_type tx = ''eip1559'')) (\<lambda>_. bind_ok (assertion (tx_chainId tx = pt_chainId i)) (\<lambda>_.
     bind_ok (assertion (tx_nonce tx = pt_nonce i)) (\<lambda>_.
     bind_ok (assertion (map_option lower (tx_to tx) = Some (lower (pt_to i)))) (\<lambda>_.
     bind_ok (assertion (lower (case tx_data tx of Some d \<Rightarrow> d | None \<Rightarrow> ''0x'') = lower (pt_data i))) (\<lambda>_.
     bind_ok (assertion (or_zero (tx_value tx) = pt_value i)) (\<lambda>_. bind_ok (assertion (tx_gas tx = pt_gas i)) (\<lambda>_.
     bind_ok (assertion (tx_maxFeePerGas tx = pt_maxFeePerGas i)) (\<lambda>_.
     bind_ok (assertion (or_zero (tx_maxPriorityFeePerGas tx) = pt_maxPriorityFeePerGas i)) (\<lambda>_.
     bind_ok (ensure (tx_accessList tx = 0) ''Access list was not part of the prepared intent'') (\<lambda>_.
     bind_ok (qw_recover q raw) (\<lambda>signer.
     bind_ok (assertion (lower signer = lower (pt_operator i))) (\<lambda>_. Inr (qw_keccak q raw)))))))))))))))"

subsection \<open>The lane\<close>

record live_wallet_lane =
  ln_inflight :: bool
  ln_unresolved :: bool
  ln_campaignWork :: bool

definition unresolved_row :: "live_outbox \<Rightarrow> bool" where
  "unresolved_row r \<longleftrightarrow> ob_status r \<in> {Ob_prepared, Ob_signed, Ob_blocked} \<or> ob_signed r \<noteq> None \<and> ob_receipt r = None"

definition unresolved_outbox :: "live_tables \<Rightarrow> bool" where
  "unresolved_outbox t \<longleftrightarrow> (\<exists>r\<in>set (lt_outbox t). unresolved_row r)"

definition readLiveWalletLane :: "live_tables \<Rightarrow> string option \<Rightarrow> live_wallet_lane" where
  "readLiveWalletLane t campaign = \<lparr>ln_inflight = (\<exists>j\<in>set (lt_jobs t). in_flight (jb_status j)), ln_unresolved = unresolved_outbox t,
     ln_campaignWork = (case campaign of None \<Rightarrow> False | Some c \<Rightarrow> \<exists>j\<in>set (lt_jobs t). jb_campaignId j = c \<and>
       (jb_status j = Job_queued \<or> active_status (jb_status j)))\<rparr>"

definition find_job :: "live_tables \<Rightarrow> string \<Rightarrow> live_job option" where
  "find_job t i = find (\<lambda>j. jb_id j = i) (lt_jobs t)"

definition find_stage :: "live_tables \<Rightarrow> string \<Rightarrow> string \<Rightarrow> live_outbox option" where
  "find_stage t i stage = find (\<lambda>r. ob_jobId r = i \<and> ob_stage r = stage) (lt_outbox t)"

definition owned :: "live_clocks \<Rightarrow> live_tables \<Rightarrow> string \<Rightarrow> string \<Rightarrow> live_job res" where
  "owned now t i token = (case find_job t i of None \<Rightarrow> Inl ''Unknown live job''
    | Some j \<Rightarrow> bind_ok (ensure (case jb_lease j of None \<Rightarrow> False | Some (tk, until) \<Rightarrow> tk = token \<and> until > ck_app now)
        ''Lease lost or expired'') (\<lambda>_. Inr j))"

definition set_job :: "string \<Rightarrow> (live_job \<Rightarrow> live_job) \<Rightarrow> live_tables \<Rightarrow> live_tables" where
  "set_job i f t = t\<lparr>lt_jobs := map (\<lambda>j. if jb_id j = i then f j else j) (lt_jobs t)\<rparr>"

definition set_stage :: "string \<Rightarrow> string \<Rightarrow> (live_outbox \<Rightarrow> live_outbox) \<Rightarrow> live_tables \<Rightarrow> live_tables" where
  "set_stage i stage f t =
     t\<lparr>lt_outbox := map (\<lambda>r. if ob_jobId r = i \<and> ob_stage r = stage then f r else r) (lt_outbox t)\<rparr>"

definition touch :: "live_clocks \<Rightarrow> live_job \<Rightarrow> live_job" where
  "touch now j = j\<lparr>jb_updatedAt := ck_db now\<rparr>"

definition lease_ms :: "int \<Rightarrow> bool" where
  "lease_ms n \<longleftrightarrow> n \<ge> 1000 \<and> n \<le> 300000"

subsection \<open>Leases\<close>

definition renewLease :: "live_clocks \<Rightarrow> string \<Rightarrow> string \<Rightarrow> int \<Rightarrow> live_tables \<Rightarrow> (live_job \<times> live_tables) res" where
  "renewLease now i token ms t =
     bind_ok (assertion (lease_ms ms)) (\<lambda>_. bind_ok (owned now t i token) (\<lambda>j.
     let f = (\<lambda>j. touch now (j\<lparr>jb_lease := Some (token, ck_db now + ms)\<rparr>)) in
     bind_ok (write_tables (set_job i f t)) (\<lambda>t'. Inr (f j, t'))))"

definition pending_status :: "outbox_status \<Rightarrow> bool" where
  "pending_status s \<longleftrightarrow> s \<in> {Ob_prepared, Ob_signed, Ob_blocked}"

definition pending_rows :: "live_tables \<Rightarrow> live_outbox list" where
  "pending_rows t = filter (\<lambda>r. pending_status (ob_status r)) (lt_outbox t)"

definition yieldAfterConfirmedReceipt :: "live_clocks \<Rightarrow> string \<Rightarrow> string \<Rightarrow> string \<Rightarrow> live_tables \<Rightarrow> live_tables res" where
  "yieldAfterConfirmedReceipt now i stage token t =
     bind_ok (owned now t i token) (\<lambda>j. bind_ok (assertion (jb_status j = Job_reconciling)) (\<lambda>_.
     bind_ok (ensure (case find_stage t i stage of None \<Rightarrow> False
         | Some r \<Rightarrow> ob_status r = Ob_confirmed \<and> ob_receipt r \<noteq> None \<and> ob_effects r \<noteq> None)
       ''Only a fully attributed successful receipt can yield its lease'') (\<lambda>_.
     bind_ok (ensure (pending_rows t = []) ''Unresolved action must retain its active lease'') (\<lambda>_.
     write_tables (set_job i (\<lambda>j. touch now (j\<lparr>jb_lease := None\<rparr>)) t)))))"

subsection \<open>Admission of a management action\<close>

record enqueue_input =
  eq_campaignId :: string
  eq_revision :: int
  eq_allocationId :: string
  eq_reviewId :: string
  eq_kind :: live_job_kind
  eq_priority :: "int option"
  eq_payload :: live_payload
  eq_buildId :: string
  eq_idempotencyKey :: string
  eq_requestDigest :: string

fun operation_kind_of :: "operation_kind \<Rightarrow> live_job_kind" where
  "operation_kind_of Op_change_range = Kind_change_range"
| "operation_kind_of Op_close_retain = Kind_close_retain"
| "operation_kind_of Op_close_convert = Kind_close_convert"

definition key_text :: "nat \<Rightarrow> string \<Rightarrow> bool" where
  "key_text n s \<longleftrightarrow> s \<noteq> [] \<and> length s \<le> n \<and> list_all stage_char s"

definition priority_of :: "enqueue_input \<Rightarrow> int" where
  "priority_of i = (case eq_priority i of Some p \<Rightarrow> p | None \<Rightarrow> 0)"

definition enqueue_input_checks :: "enqueue_input \<Rightarrow> RangeKeeperLiveManagementReviewPayload res" where
  "enqueue_input_checks i =
     bind_ok (assertion (eq_kind i \<in> {Kind_change_range, Kind_close_retain, Kind_close_convert})) (\<lambda>_.
     bind_ok (assertion (safe_integer (eq_revision i) \<and> eq_revision i > 0 \<and> digest_text (eq_buildId i) \<and>
       digest_text (eq_requestDigest i) \<and> key_text 128 (eq_idempotencyKey i))) (\<lambda>_.
     bind_ok (assertion (priority_of i \<ge> 0 \<and> priority_of i \<le> 100)) (\<lambda>_.
     case eq_payload i of
       Management_payload m \<Rightarrow> bind_ok (ensure (mp_kind m = ''rangekeeper_live_management_review'' \<and>
           operation_kind_of (mp_operationKind m) = eq_kind i) ''Management job payload is malformed'') (\<lambda>_. Inr m)
     | _ \<Rightarrow> Inl ''Management job payload is malformed'')))"

definition same_source :: "keeper_source \<Rightarrow> keeper_source option \<Rightarrow> bool" where
  "same_source a b \<longleftrightarrow> (case b of None \<Rightarrow> False | Some s \<Rightarrow> sameLiveSource a s)"

text \<open>The review's payload against the campaign's rows and the wallet.\<close>

definition management_campaign_checks ::
  "queue_world \<Rightarrow> enqueue_input \<Rightarrow> RangeKeeperLiveManagementReviewPayload \<Rightarrow> live_tables \<Rightarrow> live_wallet \<Rightarrow> unit res"
where
  "management_campaign_checks q i m t w =
    (case (find (\<lambda>d. dp_id d = eq_campaignId i) (lt_deployments t),
       find (\<lambda>a. vl_id a = eq_allocationId i \<and> vl_campaignId a = eq_campaignId i \<and> vl_revision a = eq_revision i) (lt_allocations t),
       find (\<lambda>g. rg_campaignId g = eq_campaignId i \<and> rg_revision g = eq_revision i) (lt_runtime t)) of
      (Some d, Some a, Some g) \<Rightarrow>
       (case find (\<lambda>p. mk_id p = dp_profileId d) (lt_profiles t) of
          None \<Rightarrow> Inl ''Management action requires the current active RangeKeeper allocation''
        | Some p \<Rightarrow>
           bind_ok (ensure (dp_lifecycle d = Campaign_active \<and> dp_currentRevision d = eq_revision i \<and>
               dp_strategyId d = ''rangekeeper_v1'' \<and> vl_state a = Live_active)
             ''Management action requires the current active RangeKeeper allocation'') (\<lambda>_.
           ensure (mp_campaignId m = eq_campaignId i \<and> mp_revision m = eq_revision i \<and> mp_allocationId m = eq_allocationId i \<and>
               mp_profileId m = dp_profileId d \<and> mp_profileHash m = mk_profileHash p \<and> mp_configHash m = rg_configHash g \<and>
               lh_hash (qw_hashes q) (H_json (dp_revisionConfig d)) = dp_revisionConfigHash d \<and>
               mp_runtimeStateHash m = rg_stateHash g \<and> mp_stateRevision m = rg_stateRevision g \<and> mp_buildId m = eq_buildId i \<and>
               lower (mp_wallet_address m) = lt_address t \<and> mp_wallet_generation m = vw_generation w \<and>
               vw_commitmentsHash w = Some (mp_wallet_commitmentsHash m) \<and> same_source (mp_source m) (vw_source w))
             ''Management review no longer matches wallet/campaign state''))
    | _ \<Rightarrow> Inl ''Management action requires the current active RangeKeeper allocation'')"

definition management_review_checks ::
  "queue_world \<Rightarrow> live_clocks \<Rightarrow> enqueue_input \<Rightarrow> live_tables \<Rightarrow> live_wallet \<Rightarrow> unit res"
where
  "management_review_checks q now i t w = (case readReview t (eq_reviewId i) of
      None \<Rightarrow> Inl ''Management review is missing, consumed, or stale''
    | Some r \<Rightarrow>
        bind_ok (ensure (vr_consumedBy r = None \<and> vr_payloadHash r = lh_hash (qw_hashes q) (H_payload (eq_payload i)) \<and>
            vr_buildId r = eq_buildId i \<and> same_source (vr_source r) (vw_source w) \<and> vr_generation r = vw_generation w \<and>
            vw_commitmentsHash w = Some (vr_commitmentsHash r)) ''Management review is missing, consumed, or stale'') (\<lambda>_.
        ensure (ck_db now < vr_expiresAt r) ''Management review expired''))"

definition enqueued_job :: "queue_world \<Rightarrow> live_clocks \<Rightarrow> string \<Rightarrow> enqueue_input \<Rightarrow> int \<Rightarrow> live_job" where
  "enqueued_job q now jid i seq = \<lparr>jb_id = jid, jb_campaignId = eq_campaignId i, jb_revision = eq_revision i,
     jb_allocationId = eq_allocationId i, jb_reviewId = eq_reviewId i, jb_kind = eq_kind i, jb_status = Job_queued,
     jb_priority = priority_of i, jb_fairness = seq, jb_payload = eq_payload i,
     jb_payloadHash = lh_hash (qw_hashes q) (H_payload (eq_payload i)), jb_buildId = eq_buildId i,
     jb_idempotencyKey = eq_idempotencyKey i, jb_requestDigest = eq_requestDigest i, jb_lease = None, jb_attempt = 0,
     jb_resumeStage = None, jb_updatedAt = ck_db now\<rparr>"

definition enqueue ::
  "queue_world \<Rightarrow> live_clocks \<Rightarrow> string \<Rightarrow> enqueue_input \<Rightarrow> live_tables \<Rightarrow> (queued_result \<times> live_tables) res"
where
  "enqueue q now jid i t =
     bind_ok (enqueue_input_checks i) (\<lambda>m.
     case find_request t (eq_idempotencyKey i) of
       Some j \<Rightarrow> bind_ok (ensure (jb_requestDigest j = eq_requestDigest i) ''IDEMPOTENCY_CONFLICT'') (\<lambda>_.
         bind_ok (ensure (jb_campaignId j = eq_campaignId i \<and> jb_allocationId j = eq_allocationId i)
           ''Idempotent management job binding changed'') (\<lambda>_. Inr (prior_result j, t)))
     | None \<Rightarrow> (case lt_wallet t of
         None \<Rightarrow> Inl ''Live wallet is unavailable''
       | Some w \<Rightarrow>
         bind_ok (ensure (vw_status w = Wallet_available) ''Live wallet is unavailable'') (\<lambda>_.
         let lane = readLiveWalletLane t (Some (eq_campaignId i)) in
         bind_ok (ensure (\<not> ln_inflight lane \<and> \<not> ln_unresolved lane \<and> \<not> ln_campaignWork lane)
           ''Management admission requires a quiescent wallet queue'') (\<lambda>_.
         bind_ok (management_campaign_checks q i m t w) (\<lambda>_.
         bind_ok (management_review_checks q now i t w) (\<lambda>_.
         bind_ok (write_tables (t\<lparr>lt_jobs := lt_jobs t @ [enqueued_job q now jid i (lt_sequence t)], lt_sequence := lt_sequence t + 1,
           lt_reviews := consume_review jid (eq_reviewId i) (lt_reviews t)\<rparr>)) (\<lambda>t'.
         Inr (\<lparr>qr_campaignId = eq_campaignId i, qr_allocationId = eq_allocationId i, qr_jobId = jid, qr_status = Job_queued,
           qr_replayed = False\<rparr>, t'))))))))"

subsection \<open>Claiming\<close>

definition PARKED_RETRY_SECONDS :: int where
  "PARKED_RETRY_SECONDS = 30"

definition exit_kind :: "live_job_kind \<Rightarrow> bool" where
  "exit_kind k \<longleftrightarrow> k \<in> {Kind_pause, Kind_resume, Kind_close_retain, Kind_close_convert}"

definition queue_le :: "live_job \<Rightarrow> live_job \<Rightarrow> bool" where
  "queue_le a b \<longleftrightarrow> (let ka = (if exit_kind (jb_kind a) then 0 else 1 :: int); kb = (if exit_kind (jb_kind b) then 0 else 1) in
     (ka, - jb_priority a, jb_fairness a) \<le> (kb, - jb_priority b, jb_fairness b))"

definition queued_pick :: "live_clocks \<Rightarrow> string option \<Rightarrow> live_tables \<Rightarrow> live_job option" where
  "queued_pick now exclude t = (case sort_by queue_le (filter (\<lambda>j. jb_status j = Job_queued \<and> exclude \<noteq> Some (jb_campaignId j) \<and>
       (jb_attempt j = 0 \<or> jb_updatedAt j \<le> ck_db now - PARKED_RETRY_SECONDS * 1000)) (lt_jobs t)) of
     [] \<Rightarrow> None | j # _ \<Rightarrow> Some j)"

definition wallet_available :: "live_tables \<Rightarrow> bool" where
  "wallet_available t \<longleftrightarrow> (case lt_wallet t of None \<Rightarrow> False | Some w \<Rightarrow> vw_status w = Wallet_available)"

definition active_job :: "live_tables \<Rightarrow> live_job option" where
  "active_job t = (case sort_by (\<lambda>a b. jb_updatedAt a \<le> jb_updatedAt b) (active_jobs t) of [] \<Rightarrow> None | j # _ \<Rightarrow> Some j)"

text \<open>The sibling to which a locally blocked job gives way.\<close>

definition yields_to :: "live_clocks \<Rightarrow> live_tables \<Rightarrow> live_job \<Rightarrow> live_job option" where
  "yields_to now t a = (if jb_status a = Job_blocked \<and> wallet_available t \<and> \<not> unresolved_outbox t
     then (case queued_pick now (Some (jb_campaignId a)) t of
         None \<Rightarrow> None
       | Some s \<Rightarrow> if exit_kind (jb_kind s) \<or> \<not> exit_kind (jb_kind a) then Some s else None)
     else None)"

definition park :: "live_clocks \<Rightarrow> live_job \<Rightarrow> live_tables \<Rightarrow> live_tables" where
  "park now a t = set_job (jb_id a) (\<lambda>j. touch now (j\<lparr>jb_status := Job_queued, jb_lease := None, jb_fairness := lt_sequence t\<rparr>))
     (t\<lparr>lt_sequence := lt_sequence t + 1\<rparr>)"

definition claimed_status :: "live_job_status \<Rightarrow> live_job_status" where
  "claimed_status s = (if s = Job_queued then Job_preflighting else if s = Job_blocked then Job_reconciling else s)"

text \<open>Other queued jobs of the campaign take the next numbers of the sequence.\<close>

fun rotate_jobs :: "string \<Rightarrow> string \<Rightarrow> live_job list \<Rightarrow> int \<Rightarrow> live_job list \<times> int" where
  "rotate_jobs campaign i [] n = ([], n)"
| "rotate_jobs campaign i (j # js) n =
     (let hit = (jb_campaignId j = campaign \<and> jb_id j \<noteq> i \<and> jb_status j = Job_queued);
        rest = rotate_jobs campaign i js (if hit then n + 1 else n) in
      ((if hit then j\<lparr>jb_fairness := n\<rparr> else j) # fst rest, snd rest))"

definition rotate :: "string \<Rightarrow> string \<Rightarrow> live_tables \<Rightarrow> live_tables" where
  "rotate campaign i t = (let r = rotate_jobs campaign i (lt_jobs t) (lt_sequence t) in t\<lparr>lt_jobs := fst r, lt_sequence := snd r\<rparr>)"

definition job_rows :: "string \<Rightarrow> live_tables \<Rightarrow> live_outbox list" where
  "job_rows i t = filter (\<lambda>r. ob_jobId r = i) (lt_outbox t)"

definition last_row :: "live_outbox list \<Rightarrow> live_outbox option" where
  "last_row rs = (if rs = [] then None else Some (last rs))"

record live_claim =
  cl_job :: live_job
  cl_leaseToken :: string
  cl_outbox :: "live_outbox option"

definition take_job ::
  "live_clocks \<Rightarrow> string \<Rightarrow> int \<Rightarrow> bool \<Rightarrow> live_job \<Rightarrow> live_tables \<Rightarrow> (live_claim option \<times> live_tables) res"
where
  "take_job now token ms fresh row t = (let
     f = (\<lambda>j. touch now (j\<lparr>jb_status := claimed_status (jb_status row), jb_lease := Some (token, ck_db now + ms),
       jb_attempt := jb_attempt j + 1\<rparr>)) in
     bind_ok (write_tables (set_job (jb_id row) f t)) (\<lambda>t1.
     bind_ok (if fresh then write_tables (rotate (jb_campaignId row) (jb_id row) t1) else Inr t1) (\<lambda>t2.
     Inr (Some \<lparr>cl_job = f row, cl_leaseToken = token,
       cl_outbox = last_row (filter (\<lambda>r. ob_status r \<noteq> Ob_cancelled) (job_rows (jb_id row) t2))\<rparr>, t2))))"

definition claimNext :: "live_clocks \<Rightarrow> string \<Rightarrow> int \<Rightarrow> live_tables \<Rightarrow> (live_claim option \<times> live_tables) res" where
  "claimNext now token ms t =
     bind_ok (assertion (lease_ms ms)) (\<lambda>_.
     case active_job t of
       None \<Rightarrow> (if \<not> wallet_available t then Inr (None, t)
         else case queued_pick now None t of None \<Rightarrow> Inr (None, t) | Some row \<Rightarrow> take_job now token ms True row t)
     | Some a \<Rightarrow> (case yields_to now t a of
         Some s \<Rightarrow> bind_ok (write_tables (park now a t)) (\<lambda>t1. take_job now token ms True s t1)
       | None \<Rightarrow>
           if jb_status a = Job_blocked \<and> jb_lease a = None
           then if filter (\<lambda>r. pending_status (ob_status r)) (job_rows (jb_id a) t) = [] then Inr (None, t)
             else take_job now token ms False a t
           else if (case jb_lease a of None \<Rightarrow> False | Some (tk, until) \<Rightarrow> until > ck_app now) then Inr (None, t)
           else take_job now token ms False a t))"

subsection \<open>Moving a claimed job\<close>

datatype transition_target = To_executing | To_confirming | To_reconciling | To_blocked | To_rejected

fun target_status :: "transition_target \<Rightarrow> live_job_status" where
  "target_status To_executing = Job_executing"
| "target_status To_confirming = Job_confirming"
| "target_status To_reconciling = Job_reconciling"
| "target_status To_blocked = Job_blocked"
| "target_status To_rejected = Job_rejected"

definition terminal :: "live_job_status \<Rightarrow> bool" where
  "terminal s \<longleftrightarrow> s \<in> {Job_succeeded, Job_rejected, Job_blocked, Job_cancelled}"

definition transition ::
  "live_clocks \<Rightarrow> string \<Rightarrow> string \<Rightarrow> transition_target \<Rightarrow> string option \<Rightarrow> int option \<Rightarrow> live_tables \<Rightarrow> (live_job \<times> live_tables) res"
where
  "transition now i token target resume retryAfterMs t =
     bind_ok (ensure (case retryAfterMs of None \<Rightarrow> True | Some n \<Rightarrow> target = To_blocked \<and> n \<ge> 0 \<and> n \<le> 300000)
       ''Retry delay applies only to a blocked job'') (\<lambda>_.
     bind_ok (owned now t i token) (\<lambda>j.
     bind_ok (assertion (\<not> terminal (jb_status j) \<or> jb_status j = Job_blocked)) (\<lambda>_.
     bind_ok (ensure (target = To_rejected \<longrightarrow> (\<forall>r\<in>set (job_rows i t). ob_signed r = None \<and> ob_status r = Ob_cancelled))
       ''A signed, unresolved, or unreconciled action cannot be rejected'') (\<lambda>_.
     let f = (\<lambda>j. touch now (j\<lparr>jb_status := target_status target,
       jb_resumeStage := (case resume of Some s \<Rightarrow> Some s | None \<Rightarrow> jb_resumeStage j),
       jb_lease := (case retryAfterMs of Some n \<Rightarrow> Some (token, ck_db now + n) | None \<Rightarrow> jb_lease j)\<rparr>)) in
     bind_ok (write_tables (set_job i f t)) (\<lambda>t'. Inr (f j, t'))))))"

subsection \<open>Preparing a stage\<close>

definition in_balances :: "(string \<times> int) list \<Rightarrow> (string \<times> int) list \<Rightarrow> bool" where
  "in_balances rows img \<longleftrightarrow> length rows = length img \<and> (\<forall>(a, n)\<in>set rows. map_of img a = Some n)"

definition prepare_wallet_checks :: "PilotIntent \<Rightarrow> live_tables \<Rightarrow> live_wallet res" where
  "prepare_wallet_checks p t =
     bind_ok (ensure (lower (pt_operator p) = lt_address t \<and> pt_chainId p = 4663) ''Intent wallet mismatch'') (\<lambda>_.
     case lt_wallet t of
       None \<Rightarrow> Inl ''Wallet snapshot is not available''
     | Some w \<Rightarrow>
         bind_ok (ensure (vw_status w = Wallet_available) ''Wallet snapshot is not available'') (\<lambda>_.
         bind_ok (ensure (vw_nonce w = Some (pt_nonce p) \<and> vw_pendingNonce w = Some (pt_nonce p)) ''Wallet nonce is not canonical'') (\<lambda>_.
         bind_ok (ensure (case vw_source w of None \<Rightarrow> False
             | Some s \<Rightarrow> ks_block s = pt_sourceBlock p \<and> same (ks_hash s) (pt_sourceHash p))
           ''Intent source differs from persisted wallet source'') (\<lambda>_. Inr w))))"

definition find_allocation :: "live_tables \<Rightarrow> string \<Rightarrow> live_allocation option" where
  "find_allocation t i = find (\<lambda>a. vl_id a = i) (lt_allocations t)"

definition allocation_balances :: "live_tables \<Rightarrow> string \<Rightarrow> (string \<times> int) list" where
  "allocation_balances t i = map (\<lambda>x. (at_token x, at_allocated x)) (filter (\<lambda>x. at_allocationId x = i) (lt_allocationTokens t))"

definition active_nfts :: "live_tables \<Rightarrow> string \<Rightarrow> string list" where
  "active_nfts t i = map show_int (sort (map cu_tokenId
     (filter (\<lambda>c. cu_allocationId c = Some i \<and> cu_status c = Custody_active) (lt_custody t))))"

definition before_wallet_checks :: "live_tables \<Rightarrow> live_wallet \<Rightarrow> wallet_image \<Rightarrow> unit res" where
  "before_wallet_checks t w bw =
     bind_ok (ensure (lower (im_operator bw) = lt_address t \<and> same_source (im_source bw) (vw_source w) \<and>
         vw_nonce w = Some (im_nonce bw) \<and> vw_pendingNonce w = Some (im_pendingNonce bw) \<and> vw_native w = Some (im_nativeWei bw))
       ''Before wallet differs from persisted canonical snapshot'') (\<lambda>_.
     ensure (in_balances (lt_tokens t) (im_tokens bw)) ''Before wallet token balances differ from persisted canonical snapshot'')"

definition before_allocation_checks :: "live_tables \<Rightarrow> live_job \<Rightarrow> live_allocation \<Rightarrow> allocation_image \<Rightarrow> unit res" where
  "before_allocation_checks t j a ba =
     bind_ok (ensure (ia_campaignId ba = jb_campaignId j) ''Before allocation belongs to a different campaign'') (\<lambda>_.
     bind_ok (ensure (in_balances (allocation_balances t (jb_allocationId j)) (ia_liquid ba))
       ''Before campaign allocation differs from persisted reservation'') (\<lambda>_.
     bind_ok (ensure (ia_nativeSpendWei ba = vl_nativeSpend a \<and> ia_exitReserveWei ba = vl_exitReserve a)
       ''Before campaign native reserve differs from persisted allocation'') (\<lambda>_.
     ensure (active_nfts t (jb_allocationId j) = sort (ia_nftTokenIds ba)) ''Before campaign NFT custody differs from allocation ledger'')))"

record stage_proposal =
  pr_stage :: string
  pr_intent :: PilotIntent
  pr_plan :: RangeKeeperTxPlan

definition frozen_before :: "string \<Rightarrow> authorized_stage \<Rightarrow> wallet_image \<Rightarrow> allocation_image \<Rightarrow> string \<Rightarrow> before_image" where
  "frozen_before pool au bw ba planHash = \<lparr>bi_walletGeneration = au_walletGeneration au, bi_wallet = bw, bi_allocation = ba,
     bi_pool = (case au_snapshot au of Some s \<Rightarrow> s | None \<Rightarrow> pool), bi_planHash = planHash, bi_authorization = au_authorization au\<rparr>"

definition prepared_row :: "string \<Rightarrow> string \<Rightarrow> PilotIntent \<Rightarrow> RangeKeeperTxPlan \<Rightarrow> before_image \<Rightarrow> live_outbox" where
  "prepared_row i stage p plan prior = \<lparr>ob_jobId = i, ob_stage = stage, ob_intent = p, ob_plan = plan, ob_before = prior,
     ob_nonce = pt_nonce p, ob_signed = None, ob_status = Ob_prepared, ob_receipt = None, ob_effects = None, ob_cleanup = None\<rparr>"

text \<open>The authorized transaction is the proposed one, over an image of what is persisted.\<close>

definition authorized_before ::
  "queue_world \<Rightarrow> live_tables \<Rightarrow> live_wallet \<Rightarrow> live_job \<Rightarrow> live_allocation \<Rightarrow> PilotIntent \<Rightarrow> RangeKeeperTxPlan \<Rightarrow> authorized_stage \<Rightarrow>
   before_image res"
where
  "authorized_before q t w j a p plan au = (let h = lh_hash (qw_hashes q) in
     bind_ok (ensure (h (H_intent (au_intent au)) = h (H_intent p) \<and> h (H_plan (au_plan au)) = h (H_plan plan))
       ''Proposed transaction differs from persisted campaign strategy authorization'') (\<lambda>_.
     case (au_wallet au, au_allocation au, au_pool au) of
       (Some bw, Some ba, Some pool) \<Rightarrow>
         bind_ok (ensure (au_walletGeneration au = vw_generation w) ''Canonical wallet, allocation, and pool before image is required'') (\<lambda>_.
         bind_ok (before_wallet_checks t w bw) (\<lambda>_.
         bind_ok (before_allocation_checks t j a ba) (\<lambda>_.
         Inr (frozen_before pool au bw ba (h (H_plan plan))))))
     | _ \<Rightarrow> Inl ''Canonical wallet, allocation, and pool before image is required''))"

definition insert_stage ::
  "queue_world \<Rightarrow> live_clocks \<Rightarrow> string \<Rightarrow> stage_proposal \<Rightarrow> live_job \<Rightarrow> PilotIntent \<Rightarrow> authorized_stage \<Rightarrow> before_image \<Rightarrow> live_tables \<Rightarrow>
   (live_outbox \<times> live_tables) res"
where
  "insert_stage q now i x j p au prior t = (let r = prepared_row i (pr_stage x) p (au_plan au) prior in
     bind_ok (write_tables (t\<lparr>lt_outbox := lt_outbox t @ [r]\<rparr>)) (\<lambda>t1.
     bind_ok (if au_authorization au = None then Inr ()
       else case qw_persist q of None \<Rightarrow> Inl ''Strategy authorization persistence is mandatory'' | Some persist \<Rightarrow> persist t1 j r au) (\<lambda>_.
     bind_ok (write_tables (set_job i (\<lambda>j. touch now (j\<lparr>jb_status := Job_executing, jb_resumeStage := Some (pr_stage x)\<rparr>)) t1)) (\<lambda>t2.
     Inr (r, t2)))))"

definition prepareStage ::
  "queue_world \<Rightarrow> live_clocks \<Rightarrow> string \<Rightarrow> string \<Rightarrow> stage_proposal \<Rightarrow> live_tables \<Rightarrow> (live_outbox \<times> live_tables) res"
where
  "prepareStage q now i token x t =
     bind_ok (assertion (key_text 64 (pr_stage x))) (\<lambda>_. bind_ok (parse_pilot_intent q (pr_intent x)) (\<lambda>p.
     bind_ok (owned now t i token) (\<lambda>j.
     bind_ok (assertion (jb_status j \<in> {Job_preflighting, Job_executing, Job_reconciling})) (\<lambda>_.
     bind_ok (prepare_wallet_checks p t) (\<lambda>w.
     case find_allocation t (jb_allocationId j) of
       None \<Rightarrow> Inl ''Allocation generation is newer than the canonical wallet snapshot''
     | Some a \<Rightarrow>
         bind_ok (ensure (vl_sourceGeneration a > 0 \<and> vl_sourceGeneration a \<le> vw_generation w)
           ''Allocation generation is newer than the canonical wallet snapshot'') (\<lambda>_.
         bind_ok (qw_authorize q t j (pr_stage x) p (pr_plan x)) (\<lambda>au.
         bind_ok (authorized_before q t w j a p (pr_plan x) au) (\<lambda>prior.
         case find_stage t i (pr_stage x) of
           Some old \<Rightarrow>
             bind_ok (ensure (lh_hash (qw_hashes q) (H_frozen (ob_intent old) (ob_plan old) (ob_before old)) =
                 lh_hash (qw_hashes q) (H_frozen p (au_plan au) prior)) ''Stage already frozen differently'') (\<lambda>_. Inr (old, t))
         | None \<Rightarrow> insert_stage q now i x j p au prior t))))))))"

subsection \<open>Signed bytes\<close>

definition recordSigned :: "queue_world \<Rightarrow> live_clocks \<Rightarrow> string \<Rightarrow> string \<Rightarrow> string \<Rightarrow> string \<Rightarrow> live_tables \<Rightarrow> (live_outbox \<times> live_tables) res" where
  "recordSigned q now i stage token raw t =
     bind_ok (owned now t i token) (\<lambda>_.
     case find_stage t i stage of
       None \<Rightarrow> Inl ''Unknown outbox stage''
     | Some r \<Rightarrow>
         bind_ok (parse_pilot_intent q (ob_intent r)) (\<lambda>p.
         bind_ok (verifyPilotSignature q p raw) (\<lambda>hash.
         if ob_status r = Ob_signed
         then bind_ok (ensure (map_option fst (ob_signed r) = Some (lower raw)) ''Different signed bytes already persisted'') (\<lambda>_.
           bind_ok (assertion (map_option snd (ob_signed r) = Some hash)) (\<lambda>_. Inr (r, t)))
         else bind_ok (ensure (ob_status r = Ob_prepared) ''Only a prepared stage can be signed'') (\<lambda>_.
           let f = (\<lambda>r. r\<lparr>ob_signed := Some (lower raw, hash), ob_status := Ob_signed\<rparr>) in
           bind_ok (write_tables (set_stage i stage f t)) (\<lambda>t'. Inr (f r, t'))))))"

definition cancelPrepared :: "live_clocks \<Rightarrow> string \<Rightarrow> string \<Rightarrow> string \<Rightarrow> live_tables \<Rightarrow> live_tables res" where
  "cancelPrepared now i stage token t =
     bind_ok (owned now t i token) (\<lambda>_.
     bind_ok (ensure (case find_stage t i stage of None \<Rightarrow> False | Some r \<Rightarrow> ob_status r = Ob_prepared \<and> ob_signed r = None)
       ''Cannot cancel signed or resolved outbox'') (\<lambda>_.
     write_tables (set_stage i stage (\<lambda>r. r\<lparr>ob_status := Ob_cancelled\<rparr>) t)))"

definition cancelQueued :: "live_clocks \<Rightarrow> string \<Rightarrow> live_tables \<Rightarrow> live_tables res" where
  "cancelQueued now i t =
     bind_ok (ensure (case find_job t i of None \<Rightarrow> False | Some j \<Rightarrow> jb_status j = Job_queued \<and> jb_kind j \<noteq> Kind_open)
       ''Only unclaimed follow-up work can be cancelled'') (\<lambda>_.
     bind_ok (ensure (job_rows i t = []) ''Queued work with a persisted action cannot be cancelled'') (\<lambda>_.
     write_tables (set_job i (\<lambda>j. touch now (j\<lparr>jb_status := Job_cancelled\<rparr>)) t)))"

definition readPersistedRaw :: "queue_world \<Rightarrow> string \<Rightarrow> string \<Rightarrow> live_tables \<Rightarrow> (string \<times> string \<times> PilotIntent) option res" where
  "readPersistedRaw q i stage t = (case find_stage t i stage of
      None \<Rightarrow> Inr None
    | Some r \<Rightarrow> (case ob_signed r of
        None \<Rightarrow> Inr None
      | Some (raw, stored) \<Rightarrow>
          bind_ok (parse_pilot_intent q (ob_intent r)) (\<lambda>p. bind_ok (verifyPilotSignature q p raw) (\<lambda>hash.
          bind_ok (ensure (hash = stored) ''Persisted raw/hash mismatch'') (\<lambda>_. Inr (Some (raw, hash, ob_intent r)))))))"

end
