(* ===== verification/Queue_Receipt.thy ===== *)
theory Queue_Receipt
  imports Wallet_Queue
begin

section \<open>Receipts and the end of a job\<close>

text \<open>
  \<open>reconcileStage\<close> and \<open>finish\<close> of \<open>src/deployments/live-wallet-queue.ts\<close>: a verified receipt is
  attributed to the campaign, its custody and the whole wallet in one transaction, and a job ends
  only with a proof that nothing of it is pending.
\<close>

subsection \<open>Attributing a receipt\<close>

definition receipt_wallet_checks :: "string \<Rightarrow> live_outbox \<Rightarrow> live_wallet \<Rightarrow> VerifiedQueueReceipt \<Rightarrow> unit res" where
  "receipt_wallet_checks address r w v = (let after = vq_afterWallet v; prior = ob_before r; img = bi_wallet prior;
       held = bi_allocation prior in
     bind_ok (assertion (digest_text (vq_receiptHash v) \<and> digest_text (vq_proofHash v))) (\<lambda>_.
     bind_ok (ensure (lower (im_operator after) = address \<and> im_nonce after = ob_nonce r + 1) ''Reducer wallet/nonce binding mismatch'') (\<lambda>_.
     bind_ok (ensure (ks_block (vq_source v) = ks_block (im_source after) \<and> same (ks_hash (vq_source v)) (ks_hash (im_source after)))
       ''Reducer source mismatch'') (\<lambda>_.
     bind_ok (ensure (bi_walletGeneration prior = vw_generation w) ''Persisted before generation is stale'') (\<lambda>_.
     bind_ok (ensure (ks_block (vq_source v) > ks_block (im_source img) \<and> im_pendingNonce after = im_nonce after)
       ''Receipt source or pending nonce is not canonical'') (\<lambda>_.
     bind_ok (ensure (im_nativeWei img - im_nativeWei after = vq_gasWei v) ''Whole-wallet native delta does not equal canonical gas'') (\<lambda>_.
     ensure (ia_nativeSpendWei held + ia_exitReserveWei held - vq_gasWei v = vq_nextNativeSpendWei v + vq_nextExitReserveWei v)
       ''Campaign native attribution does not conserve gas spend'')))))))"

definition receipt_scope_checks :: "live_tables \<Rightarrow> live_outbox \<Rightarrow> VerifiedQueueReceipt \<Rightarrow> unit res" where
  "receipt_scope_checks t r v = (let after = vq_afterWallet v; prior = ob_before r;
       managed = ia_nftTokenIds (bi_allocation prior) in
     bind_ok (ensure (length (lt_tokens t) = length (im_tokens (bi_wallet prior)) \<and> length (lt_tokens t) = length (im_tokens after) \<and>
         (\<forall>(a, n)\<in>set (lt_tokens t). map_of (im_tokens after) a \<noteq> None)) ''Reducer wallet token scope changed'') (\<lambda>_.
     ensure (sort (im_nftTokenIds (bi_wallet prior) @ filter (\<lambda>n. n \<notin> set managed) (vq_nextNftTokenIds v)) = sort (im_nftTokenIds after))
       ''Reducer NFT delta differs from whole-wallet snapshot''))"

definition set_liquid :: "string \<Rightarrow> allocation_token list \<Rightarrow> string \<times> int \<Rightarrow> allocation_token list res" where
  "set_liquid i ts x = (case x of (a, n) \<Rightarrow>
     bind_ok (ensure (\<exists>y\<in>set ts. at_allocationId y = i \<and> at_token y = a) ''Reducer returned an unknown allocation token'') (\<lambda>_.
     Inr (map (\<lambda>y. if at_allocationId y = i \<and> at_token y = a then y\<lparr>at_allocated := n, at_pending := 0\<rparr> else y) ts)))"

definition next_tokens :: "VerifiedQueueReceipt \<Rightarrow> (string \<times> int) list" where
  "next_tokens v = map (\<lambda>(a, n). (lower a, n)) (vq_nextLiquid v)"

definition settle_allocation :: "string \<Rightarrow> VerifiedQueueReceipt \<Rightarrow> live_tables \<Rightarrow> live_tables res" where
  "settle_allocation i v t =
     bind_ok (ensure (length (next_tokens v) = length (allocation_balances t i) \<and> (\<forall>(a, n)\<in>set (next_tokens v). n \<ge> 0))
       ''Reducer allocation token scope changed'') (\<lambda>_.
     bind_ok (fold_res (set_liquid i) (lt_allocationTokens t) (next_tokens v)) (\<lambda>tokens.
     bind_ok (assertion (vq_nextNativeSpendWei v \<ge> 0 \<and> vq_nextExitReserveWei v \<ge> 0)) (\<lambda>_.
     write_tables (t\<lparr>lt_allocationTokens := tokens,
       lt_allocations := map (\<lambda>a. if vl_id a = i then a\<lparr>vl_nativeSpend := vq_nextNativeSpendWei v, vl_pendingNative := 0,
         vl_exitReserve := vq_nextExitReserveWei v, vl_sourceHash := ks_hash (vq_source v)\<rparr> else a) (lt_allocations t)\<rparr>))))"

definition normalizeLiveCustodyPositionManager :: "string \<Rightarrow> string res" where
  "normalizeLiveCustodyPositionManager s = bind_ok (ensure (address_text s) ''Verified position manager address is malformed'') (\<lambda>_. Inr (lower s))"

definition retire_custody :: "string \<Rightarrow> VerifiedQueueReceipt \<Rightarrow> live_custody \<Rightarrow> live_custody" where
  "retire_custody i v c = (if cu_allocationId c = Some i \<and> show_int (cu_tokenId c) \<in> set (vq_retiredNftTokenIds v)
     then c\<lparr>cu_status := Custody_retired_empty, cu_liquidity := 0, cu_owed0 := 0, cu_owed1 := 0, cu_source := vq_source v\<rparr> else c)"

definition managed_row :: "live_job \<Rightarrow> string \<Rightarrow> VerifiedQueueReceipt \<Rightarrow> nft_position \<Rightarrow> live_custody" where
  "managed_row j manager v p = \<lparr>cu_manager = manager, cu_tokenId = np_tokenId p, cu_allocationId = Some (jb_allocationId j),
     cu_campaignId = Some (jb_campaignId j), cu_status = Custody_active, cu_liquidity = np_liquidity p, cu_owed0 = np_owed0 p,
     cu_owed1 = np_owed1 p, cu_source = vq_source v\<rparr>"

definition settle_custody :: "live_job \<Rightarrow> VerifiedQueueReceipt \<Rightarrow> live_tables \<Rightarrow> live_tables res" where
  "settle_custody j v t = (let i = jb_allocationId j; managed = vq_nextNftTokenIds v; retired = vq_retiredNftTokenIds v in
     bind_ok (normalizeLiveCustodyPositionManager (vq_positionManager v)) (\<lambda>manager.
     bind_ok (ensure (distinct (managed @ retired) \<and> length managed \<le> 1) ''Unexpected RangeKeeper NFT custody set'') (\<lambda>_.
     let owned_nfts = filter (\<lambda>c. cu_allocationId c = Some i) (lt_custody t); rows = map (retire_custody i v) (lt_custody t) in
     case managed of
       [] \<Rightarrow> write_tables (t\<lparr>lt_custody := rows\<rparr>)
     | n # _ \<Rightarrow> (case vq_position v of
         None \<Rightarrow> Inl ''Managed NFT lacks canonical position evidence''
       | Some p \<Rightarrow>
           bind_ok (ensure (show_int (np_tokenId p) = n \<and> lower (np_owner p) = lt_address t)
             ''Managed NFT lacks canonical position evidence'') (\<lambda>_.
           if \<exists>c\<in>set owned_nfts. show_int (cu_tokenId c) = n
           then bind_ok (ensure (\<exists>c\<in>set rows. cu_allocationId c = Some i \<and> cu_manager c = manager \<and> show_int (cu_tokenId c) = n)
               ''Managed NFT ownership changed'') (\<lambda>_.
             write_tables (t\<lparr>lt_custody := map (\<lambda>c. if cu_allocationId c = Some i \<and> cu_manager c = manager \<and> show_int (cu_tokenId c) = n
               then c\<lparr>cu_status := Custody_active, cu_liquidity := np_liquidity p, cu_owed0 := np_owed0 p, cu_owed1 := np_owed1 p,
                 cu_source := vq_source v\<rparr> else c) rows\<rparr>))
           else write_tables (t\<lparr>lt_custody := rows @ [managed_row j manager v p]\<rparr>))))))"

definition receipt_snapshot :: "queue_world \<Rightarrow> live_tables \<Rightarrow> string \<Rightarrow> string \<Rightarrow> live_wallet \<Rightarrow> VerifiedQueueReceipt \<Rightarrow> snapshot_input" where
  "receipt_snapshot q t i stage w v = (let after = vq_afterWallet v in
     \<lparr>sx_content = \<lparr>wc_source = vq_source v, wc_nonce = im_nonce after, wc_pendingNonce = im_pendingNonce after,
        wc_native = im_nativeWei after, wc_tokens = map (\<lambda>(a, n). (lower a, n)) (im_tokens after),
        wc_commitmentsHash = fingerprint (qw_hashes q) t\<rparr>,
      sx_snapshotHash = None, sx_status = Some Wallet_available, sx_reorgRecovery = False,
      sx_effectProof = Some \<lparr>ep_priorSnapshotHash = (case vw_snapshotHash w of Some s \<Rightarrow> s | None \<Rightarrow> []),
        ep_operationId = lh_hash (qw_hashes q) (H_operation i stage), ep_evidenceHash = vq_proofHash v\<rparr>\<rparr>)"

definition receipt_evidence :: "VerifiedQueueReceipt \<Rightarrow> effect_evidence" where
  "receipt_evidence v = \<lparr>ee_proofHash = vq_proofHash v, ee_receiptHash = vq_receiptHash v, ee_effects = vq_effects v,
     ee_source = vq_source v, ee_nonce = im_nonce (vq_afterWallet v), ee_gasWei = vq_gasWei v, ee_afterWallet = vq_afterWallet v,
     ee_afterPool = vq_afterPool v, ee_referenceValuation = vq_referenceValuation v, ee_positionFee = vq_positionFee v\<rparr>"

definition attribute_row :: "VerifiedQueueReceipt \<Rightarrow> live_outbox \<Rightarrow> live_outbox" where
  "attribute_row v r = r\<lparr>ob_status := (if vq_status v = Verified_success then Ob_confirmed else Ob_reverted),
     ob_receipt := Some \<lparr>cr_receipt = vq_receipt v, cr_receiptHash = vq_receiptHash v, cr_proofHash = vq_proofHash v, cr_source = vq_source v\<rparr>,
     ob_effects := Some (receipt_evidence v)\<rparr>"

text \<open>The hash of the settled allocation, over its tokens in the order of \<open>localeCompare\<close>.\<close>

definition rehash_allocation :: "queue_world \<Rightarrow> string \<Rightarrow> int \<Rightarrow> VerifiedQueueReceipt \<Rightarrow> live_tables \<Rightarrow> live_tables" where
  "rehash_allocation q i generation v t = t\<lparr>lt_allocations := map (\<lambda>a. if vl_id a = i then a\<lparr>vl_sourceGeneration := generation,
     vl_hash := lh_hash (qw_hashes q) (H_allocation (sort_by (\<lambda>x y. lh_le (qw_hashes q) (fst x) (fst y)) (next_tokens v))
       (vq_nextNativeSpendWei v) (vq_nextExitReserveWei v) (sort (vq_nextNftTokenIds v @ vq_retiredNftTokenIds v)))\<rparr> else a) (lt_allocations t)\<rparr>"

definition receipt_job_status :: "VerifiedQueueReceipt \<Rightarrow> live_job_status" where
  "receipt_job_status v = (if vq_status v = Verified_success then Job_reconciling else Job_blocked)"

definition attribute_receipt ::
  "queue_world \<Rightarrow> live_clocks \<Rightarrow> live_job \<Rightarrow> live_outbox \<Rightarrow> live_wallet \<Rightarrow> VerifiedQueueReceipt \<Rightarrow> live_tables \<Rightarrow> (live_outbox \<times> live_tables) res"
where
  "attribute_receipt q now j r w v t = (let i = jb_id j; stage = ob_stage r in
     bind_ok (receipt_wallet_checks (lt_address t) r w v) (\<lambda>_.
     bind_ok (receipt_scope_checks t r v) (\<lambda>_.
     bind_ok (settle_allocation (jb_allocationId j) v t) (\<lambda>t1.
     bind_ok (settle_custody j v t1) (\<lambda>t2.
     bind_ok (applyWalletSnapshotInTransaction (qw_hashes q) now (receipt_snapshot q t2 i stage w v) t2) (\<lambda>(w', t3).
     bind_ok (write_tables (rehash_allocation q (jb_allocationId j) (vw_generation w') v t3)) (\<lambda>t4.
     bind_ok (write_tables (set_stage i stage (attribute_row v) t4)) (\<lambda>t5.
     bind_ok (write_tables (set_job i (\<lambda>j. touch now (j\<lparr>jb_status := receipt_job_status v\<rparr>)) t5)) (\<lambda>t6.
     bind_ok (qw_afterReceipt q t6 j (attribute_row v r) v) (\<lambda>_. Inr (attribute_row v r, t6)))))))))))"

definition reconcileStage ::
  "queue_world \<Rightarrow> live_clocks \<Rightarrow> string \<Rightarrow> string \<Rightarrow> string \<Rightarrow> live_tables \<Rightarrow> (live_outbox \<times> live_tables) res"
where
  "reconcileStage q now i stage token t =
     bind_ok (owned now t i token) (\<lambda>j.
     case find_stage t i stage of
       None \<Rightarrow> Inl ''Receipt must reconcile a persisted signed action''
     | Some r \<Rightarrow>
         bind_ok (ensure (ob_signed r \<noteq> None) ''Receipt must reconcile a persisted signed action'') (\<lambda>_.
         if ob_receipt r \<noteq> None then Inr (r, t)
         else bind_ok (assertion (ob_status r \<in> {Ob_signed, Ob_blocked})) (\<lambda>_.
           case lt_wallet t of
             None \<Rightarrow> Inl ''Wallet snapshot is not initialized''
           | Some w \<Rightarrow>
               bind_ok (ensure (vw_status w = Wallet_available \<or> vw_status w = Wallet_blocked) ''Wallet snapshot is not initialized'') (\<lambda>_.
               bind_ok (assertion (find_allocation t (jb_allocationId j) \<noteq> None)) (\<lambda>_.
               bind_ok (qw_reconcile q t j r) (\<lambda>v. attribute_receipt q now j r w v t))))))"

subsection \<open>Finishing\<close>

definition close_kind :: "live_job_kind \<Rightarrow> bool" where
  "close_kind k \<longleftrightarrow> k = Kind_close_retain \<or> k = Kind_close_convert"

definition cleanup_allowances :: "cleanup_proof \<Rightarrow> unit res" where
  "cleanup_allowances pf = (case pf_policy pf of
      None \<Rightarrow> assertion (\<forall>a\<in>set (pf_allowances pf). uint_text (sa_amount a) \<and> parse_nat (sa_amount a) = 0)
    | Some (kind, caps) \<Rightarrow>
        bind_ok (ensure (kind = ''persistent_capped_v1'' \<and> length caps \<le> 64) ''Unsupported allowance policy proof'') (\<lambda>_.
        assertAllowancesWithinCaps (pf_allowances pf) caps))"

definition cleanup_checks :: "live_job \<Rightarrow> live_allocation \<Rightarrow> live_wallet option \<Rightarrow> cleanup_proof \<Rightarrow> unit res" where
  "cleanup_checks j a w pf =
     bind_ok (ensure (pf_noPendingAction pf \<and> digest_text (pf_allocationHash pf) \<and> length (pf_allowances pf) > 0 \<and>
         length (pf_allowances pf) \<le> 64) ''Nonempty canonical cleanup evidence is required'') (\<lambda>_.
     bind_ok (cleanup_allowances pf) (\<lambda>_.
     bind_ok (ensure (pf_allocationHash pf = vl_hash a) ''Cleanup allocation hash mismatch'') (\<lambda>_.
     bind_ok (ensure (same_source (pf_source pf) (Option.bind w vw_source)) ''Cleanup evidence source is not the persisted wallet source'') (\<lambda>_.
     ensure (if close_kind (jb_kind j) then pf_custodyState pf = Closed_empty
         else pf_custodyState pf = Managed \<or> jb_kind j = Kind_change_range \<and> pf_custodyState pf = Closed_empty)
       ''Job-specific terminal custody proof is missing''))))"

definition attributed :: "live_outbox \<Rightarrow> bool" where
  "attributed r \<longleftrightarrow> ob_receipt r \<noteq> None \<and> ob_effects r \<noteq> None"

text \<open>The reverted stages with which a job may still finish, as the retained exit it settled into.\<close>

definition degraded_row :: "live_job_kind \<Rightarrow> live_outbox \<Rightarrow> bool" where
  "degraded_row k r \<longleftrightarrow> ob_status r = Ob_reverted \<and> attributed r \<and>
     (k = Kind_close_convert \<and> is_swap (ob_plan r) \<or> k = Kind_change_range \<and> is_withdraw (ob_plan r))"

definition good_row :: "live_job_kind \<Rightarrow> live_outbox \<Rightarrow> bool" where
  "good_row k r \<longleftrightarrow> ob_status r \<in> {Ob_confirmed, Ob_cancelled} \<or> degraded_row k r"

definition final_row :: "live_job_kind \<Rightarrow> live_outbox \<Rightarrow> bool" where
  "final_row k r \<longleftrightarrow> ob_status r = Ob_confirmed \<or>
     k = Kind_close_convert \<and> ob_status r = Ob_reverted \<and> is_swap (ob_plan r) \<and> attributed r"

definition finish :: "queue_world \<Rightarrow> live_clocks \<Rightarrow> string \<Rightarrow> string \<Rightarrow> live_tables \<Rightarrow> (cleanup_proof \<times> live_tables) res" where
  "finish q now i token t =
     bind_ok (owned now t i token) (\<lambda>j.
     case find_allocation t (jb_allocationId j) of
       None \<Rightarrow> Inl ''AssertionError''
     | Some a \<Rightarrow>
         bind_ok (qw_cleanup q t j) (\<lambda>pf.
         bind_ok (cleanup_checks j a (lt_wallet t) pf) (\<lambda>_.
         bind_ok (ensure (filter (\<lambda>r. pending_status (ob_status r)) (job_rows i t) = []) ''Pending or unknown action owns wallet'') (\<lambda>_.
         bind_ok (ensure (pending_rows t = []) ''Another wallet action remains unresolved'') (\<lambda>_.
         bind_ok (ensure (\<forall>r\<in>set (job_rows i t). good_row (jb_kind j) r) ''Only successfully reconciled actions can finish'') (\<lambda>_.
         case last_row (filter (final_row (jb_kind j)) (job_rows i t)) of
           None \<Rightarrow> Inl ''No canonical transaction receipt exists for this job''
         | Some r \<Rightarrow>
             bind_ok (ensure (vl_hash a = pf_allocationHash pf) ''Allocation accounting proof mismatch'') (\<lambda>_.
             bind_ok (write_tables (set_stage i (ob_stage r) (\<lambda>r. r\<lparr>ob_cleanup := Some pf\<rparr>) t)) (\<lambda>t1.
             bind_ok (write_tables (set_job i (\<lambda>j. touch now (j\<lparr>jb_status := Job_succeeded, jb_lease := None\<rparr>)) t1)) (\<lambda>t2.
             Inr (pf, t2))))))))))"

end
