(* ===== verification/Queue_Protocol.thy ===== *)
theory Queue_Protocol
  imports Queue_Receipt
begin

section \<open>The protocol of the queue\<close>

text \<open>
  An abstract account of the queue: the six kinds of change that its transactions make to jobs, outbox
  rows and reviews, each under the condition that makes it safe, and what follows from them.  That
  the transactions only make such changes is shown with the machine.
\<close>

subsection \<open>Changes\<close>

text \<open>What never changes of a job, and of an outbox row.\<close>

definition same_job :: "live_job \<Rightarrow> live_job \<Rightarrow> bool" where
  "same_job j k \<longleftrightarrow> jb_id k = jb_id j \<and> jb_campaignId k = jb_campaignId j \<and> jb_revision k = jb_revision j \<and>
     jb_allocationId k = jb_allocationId j \<and> jb_reviewId k = jb_reviewId j \<and> jb_kind k = jb_kind j \<and> jb_priority k = jb_priority j \<and>
     jb_payload k = jb_payload j \<and> jb_payloadHash k = jb_payloadHash j \<and> jb_buildId k = jb_buildId j \<and>
     jb_idempotencyKey k = jb_idempotencyKey j \<and> jb_requestDigest k = jb_requestDigest j"

definition same_row :: "live_outbox \<Rightarrow> live_outbox \<Rightarrow> bool" where
  "same_row r s \<longleftrightarrow> ob_jobId s = ob_jobId r \<and> ob_stage s = ob_stage r \<and> ob_intent s = ob_intent r \<and> ob_plan s = ob_plan r \<and>
     ob_before s = ob_before r \<and> ob_nonce s = ob_nonce r"

definition settled_rows :: "live_job_kind \<Rightarrow> live_outbox list \<Rightarrow> bool" where
  "settled_rows k rs \<longleftrightarrow> (\<forall>r\<in>set rs. good_row k r) \<and> (\<exists>r\<in>set rs. final_row k r \<and> ob_cleanup r \<noteq> None)"

inductive job_move :: "live_tables \<Rightarrow> live_job \<Rightarrow> live_job \<Rightarrow> bool" for t where
  running: "active_status (jb_status j) \<Longrightarrow> active_status (jb_status k) \<Longrightarrow> job_move t j k"
| claimed: "jb_status j = Job_queued \<Longrightarrow> jb_status k = Job_preflighting \<Longrightarrow> job_move t j k"
| kept: "jb_status k = jb_status j \<Longrightarrow> jb_lease j \<noteq> None \<Longrightarrow> job_move t j k"
| parked: "jb_status j = Job_blocked \<Longrightarrow> jb_status k = Job_queued \<Longrightarrow> jb_lease k = None \<Longrightarrow> pending_rows t = [] \<Longrightarrow> job_move t j k"
| cancelled: "jb_status j = Job_queued \<Longrightarrow> jb_status k = Job_cancelled \<Longrightarrow> jb_lease k = jb_lease j \<Longrightarrow> job_move t j k"
| rejected: "active_status (jb_status j) \<Longrightarrow> jb_status k = Job_rejected \<Longrightarrow>
    \<forall>r\<in>set (job_rows (jb_id j) t). ob_signed r = None \<and> ob_status r = Ob_cancelled \<Longrightarrow> job_move t j k"
| finished: "active_status (jb_status j) \<Longrightarrow> jb_status k = Job_succeeded \<Longrightarrow> jb_lease k = None \<Longrightarrow>
    pending_rows t = [] \<Longrightarrow> settled_rows (jb_kind j) (job_rows (jb_id j) t) \<Longrightarrow> job_move t j k"

inductive row_move :: "live_outbox \<Rightarrow> live_outbox \<Rightarrow> bool" where
  signed: "ob_status r = Ob_prepared \<Longrightarrow> ob_status s = Ob_signed \<Longrightarrow> ob_signed s \<noteq> None \<Longrightarrow>
    ob_receipt s = ob_receipt r \<Longrightarrow> ob_effects s = ob_effects r \<Longrightarrow> row_move r s"
| unsigned: "ob_status r = Ob_prepared \<Longrightarrow> ob_signed r = None \<Longrightarrow> ob_status s = Ob_cancelled \<Longrightarrow> ob_signed s = None \<Longrightarrow>
    ob_receipt s = ob_receipt r \<Longrightarrow> ob_effects s = ob_effects r \<Longrightarrow> row_move r s"
| attributed: "ob_status r \<in> {Ob_signed, Ob_blocked} \<Longrightarrow> ob_signed r \<noteq> None \<Longrightarrow> ob_receipt r = None \<Longrightarrow>
    ob_status s \<in> {Ob_confirmed, Ob_reverted} \<Longrightarrow> ob_signed s = ob_signed r \<Longrightarrow> attributed s \<Longrightarrow> row_move r s"
| cleaned: "ob_status s = ob_status r \<Longrightarrow> ob_signed s = ob_signed r \<Longrightarrow> ob_receipt s = ob_receipt r \<Longrightarrow>
    ob_effects s = ob_effects r \<Longrightarrow> ob_cleanup s \<noteq> None \<Longrightarrow> row_move r s"

definition fresh_job :: "live_job \<Rightarrow> bool" where
  "fresh_job j \<longleftrightarrow> jb_status j = Job_queued \<and> jb_lease j = None"

definition fresh_row :: "live_outbox \<Rightarrow> bool" where
  "fresh_row r \<longleftrightarrow> ob_status r = Ob_prepared \<and> ob_signed r = None \<and> ob_receipt r = None \<and> ob_effects r = None \<and> ob_nonce r = pt_nonce (ob_intent r)"

inductive lane_step :: "live_tables \<Rightarrow> live_tables \<Rightarrow> bool" where
  keep: "lt_jobs t' = lt_jobs t \<Longrightarrow> lt_outbox t' = lt_outbox t \<Longrightarrow> lt_reviews t' = lt_reviews t @ rs \<Longrightarrow>
    \<forall>r\<in>set rs. vr_consumedBy r = None \<Longrightarrow> tables_ok t' \<Longrightarrow> lane_step t t'"
| new_job: "lt_jobs t' = lt_jobs t @ [j] \<Longrightarrow> fresh_job j \<Longrightarrow> r \<in> set (lt_reviews t) \<Longrightarrow> vr_id r = jb_reviewId j \<Longrightarrow>
    vr_consumedBy r = None \<Longrightarrow> lt_reviews t' = consume_review (jb_id j) (jb_reviewId j) (lt_reviews t) \<Longrightarrow>
    lt_outbox t' = lt_outbox t \<Longrightarrow> tables_ok t' \<Longrightarrow> lane_step t t'"
| move_job: "lt_jobs t' = map (\<lambda>j. if jb_id j = i then f j else j) (lt_jobs t) \<Longrightarrow>
    \<forall>j\<in>set (lt_jobs t). jb_id j = i \<longrightarrow> same_job j (f j) \<and> job_move t j (f j) \<Longrightarrow>
    lt_outbox t' = lt_outbox t \<Longrightarrow> lt_reviews t' = lt_reviews t \<Longrightarrow> tables_ok t' \<Longrightarrow> lane_step t t'"
| rotate: "lt_jobs t' = map2 (\<lambda>j n. j\<lparr>jb_fairness := n\<rparr>) (lt_jobs t) ns \<Longrightarrow> length ns = length (lt_jobs t) \<Longrightarrow>
    lt_outbox t' = lt_outbox t \<Longrightarrow> lt_reviews t' = lt_reviews t \<Longrightarrow> tables_ok t' \<Longrightarrow> lane_step t t'"
| new_row: "lt_outbox t' = lt_outbox t @ [r] \<Longrightarrow> fresh_row r \<Longrightarrow> j \<in> set (lt_jobs t) \<Longrightarrow> jb_id j = ob_jobId r \<Longrightarrow>
    active_status (jb_status j) \<Longrightarrow> lt_jobs t' = lt_jobs t \<Longrightarrow> lt_reviews t' = lt_reviews t \<Longrightarrow> tables_ok t' \<Longrightarrow> lane_step t t'"
| move_row: "lt_outbox t' = map (\<lambda>r. if ob_jobId r = i \<and> ob_stage r = stage then f r else r) (lt_outbox t) \<Longrightarrow>
    \<forall>r\<in>set (lt_outbox t). ob_jobId r = i \<and> ob_stage r = stage \<longrightarrow> same_row r (f r) \<and> row_move r (f r) \<Longrightarrow>
    lt_jobs t' = lt_jobs t \<Longrightarrow> lt_reviews t' = lt_reviews t \<Longrightarrow> tables_ok t' \<Longrightarrow> lane_step t t'"

inductive_simps job_move_simps: "job_move t j k"
inductive_simps row_move_simps: "row_move r s"

subsection \<open>The invariant\<close>

text \<open>The shape of an outbox row: what its status says of its bytes and of its receipt.\<close>

definition row_shape :: "live_outbox \<Rightarrow> bool" where
  "row_shape r \<longleftrightarrow> ob_nonce r = pt_nonce (ob_intent r) \<and> (ob_receipt r \<noteq> None \<longleftrightarrow> ob_effects r \<noteq> None) \<and>
     (case ob_status r of
        Ob_prepared \<Rightarrow> ob_signed r = None \<and> ob_receipt r = None
      | Ob_cancelled \<Rightarrow> ob_signed r = None \<and> ob_receipt r = None
      | Ob_signed \<Rightarrow> ob_signed r \<noteq> None \<and> ob_receipt r = None
      | Ob_blocked \<Rightarrow> False
      | _ \<Rightarrow> ob_signed r \<noteq> None \<and> ob_receipt r \<noteq> None)"

text \<open>What the status of a job says of its lease and of its rows.\<close>

definition job_shape :: "live_tables \<Rightarrow> live_job \<Rightarrow> bool" where
  "job_shape t j \<longleftrightarrow> (jb_status j \<in> {Job_queued, Job_succeeded, Job_cancelled} \<longrightarrow> jb_lease j = None) \<and>
     (jb_status j = Job_rejected \<longrightarrow> (\<forall>r\<in>set (job_rows (jb_id j) t). ob_signed r = None \<and> ob_status r = Ob_cancelled)) \<and>
     (jb_status j = Job_succeeded \<longrightarrow> settled_rows (jb_kind j) (job_rows (jb_id j) t))"

text \<open>A row whose transaction may still be pending belongs to the job that owns the wallet.\<close>

definition pending_owned :: "live_tables \<Rightarrow> bool" where
  "pending_owned t \<longleftrightarrow> (\<forall>r\<in>set (pending_rows t). \<exists>j\<in>set (active_jobs t). jb_id j = ob_jobId r)"

definition rows_have_jobs :: "live_tables \<Rightarrow> bool" where
  "rows_have_jobs t \<longleftrightarrow> ob_jobId ` set (lt_outbox t) \<subseteq> jb_id ` set (lt_jobs t)"

definition reviews_consumed :: "live_tables \<Rightarrow> bool" where
  "reviews_consumed t \<longleftrightarrow> (\<forall>j\<in>set (lt_jobs t). \<exists>r\<in>set (lt_reviews t). vr_id r = jb_reviewId j \<and> vr_consumedBy r = Some (jb_id j))"

definition lane_inv :: "live_tables \<Rightarrow> bool" where
  "lane_inv t \<longleftrightarrow> tables_ok t \<and> (\<forall>r\<in>set (lt_outbox t). row_shape r) \<and> (\<forall>j\<in>set (lt_jobs t). job_shape t j) \<and>
     pending_owned t \<and> rows_have_jobs t \<and> reviews_consumed t"

lemma lane_invD:
  assumes "lane_inv t"
  shows "tables_ok t" "r \<in> set (lt_outbox t) \<Longrightarrow> row_shape r" "j \<in> set (lt_jobs t) \<Longrightarrow> job_shape t j" "pending_owned t"
    "rows_have_jobs t" "reviews_consumed t"
  using assms by (auto simp: lane_inv_def)

lemma job_rows_cong: "lt_outbox t' = lt_outbox t \<Longrightarrow> job_rows i t' = job_rows i t"
  by (simp add: job_rows_def)

lemma pending_rows_cong: "lt_outbox t' = lt_outbox t \<Longrightarrow> pending_rows t' = pending_rows t"
  by (simp add: pending_rows_def)

lemma job_shape_cong: "lt_outbox t' = lt_outbox t \<Longrightarrow> job_shape t' j = job_shape t j"
  unfolding job_shape_def job_rows_def by simp

lemma active_jobs_cong: "lt_jobs t' = lt_jobs t \<Longrightarrow> active_jobs t' = active_jobs t"
  by (simp add: active_jobs_def)

lemma same_job_refl [simp]: "same_job j j" and same_row_refl [simp]: "same_row r r"
  by (simp_all add: same_job_def same_row_def)

lemma same_job_trans: "same_job j k \<Longrightarrow> same_job k l \<Longrightarrow> same_job j l"
  by (simp add: same_job_def)

lemma same_row_trans: "same_row r s \<Longrightarrow> same_row s u \<Longrightarrow> same_row r u"
  by (simp add: same_row_def)

lemma row_move_shape: "row_move r s \<Longrightarrow> same_row r s \<Longrightarrow> row_shape r \<Longrightarrow> row_shape s"
  by (auto simp: row_move_simps row_shape_def same_row_def attributed_def split: outbox_status.splits)

lemma row_move_pending: "row_move r s \<Longrightarrow> pending_status (ob_status s) \<Longrightarrow> pending_status (ob_status r)"
  by (auto simp: row_move_simps pending_status_def)

lemma row_move_cancelled:
  "row_move r s \<Longrightarrow> ob_status r = Ob_cancelled \<Longrightarrow> ob_status s = Ob_cancelled \<and> ob_signed s = ob_signed r"
  by (auto simp: row_move_simps)

lemma row_move_settled:
  assumes "row_move r s" "ob_status r \<in> {Ob_confirmed, Ob_reverted, Ob_cancelled}"
  shows "ob_status s = ob_status r" "ob_signed s = ob_signed r" "ob_receipt s = ob_receipt r" "ob_effects s = ob_effects r"
    "ob_cleanup s \<noteq> None"
  using assms by (induction rule: row_move.induct) auto

lemma good_row_settled: "good_row k r \<Longrightarrow> ob_status r \<in> {Ob_confirmed, Ob_reverted, Ob_cancelled}"
  by (auto simp: good_row_def degraded_row_def)

lemma final_row_settled: "final_row k r \<Longrightarrow> ob_status r \<in> {Ob_confirmed, Ob_reverted, Ob_cancelled}"
  by (auto simp: final_row_def)

lemma row_move_good:
  assumes "row_move r s" "same_row r s" "good_row k r"
  shows "good_row k s"
  using assms(2,3) row_move_settled [OF assms(1) good_row_settled [OF assms(3)]]
  unfolding good_row_def degraded_row_def same_row_def attributed_def by metis

lemma row_move_final:
  assumes "row_move r s" "same_row r s" "final_row k r"
  shows "final_row k s \<and> ob_cleanup s \<noteq> None"
  using assms(2,3) row_move_settled [OF assms(1) final_row_settled [OF assms(3)]]
  unfolding final_row_def same_row_def attributed_def by metis

subsection \<open>What one change does\<close>

text \<open>A job, and a row, before and after a change.\<close>

definition job_kept :: "live_tables \<Rightarrow> live_job \<Rightarrow> live_job \<Rightarrow> bool" where
  "job_kept t j k \<longleftrightarrow> same_job j k \<and> (jb_status k = jb_status j \<and> jb_lease k = jb_lease j \<or> job_move t j k)"

definition row_kept :: "live_outbox \<Rightarrow> live_outbox \<Rightarrow> bool" where
  "row_kept r s \<longleftrightarrow> same_row r s \<and> (s = r \<or> row_move r s)"

lemma job_kept_refl [simp]: "job_kept t j j" and row_kept_refl [simp]: "row_kept r r"
  by (simp_all add: job_kept_def row_kept_def)

lemma map2_related:
  assumes "length ns = length xs" "\<And>x n. P x (f x n)"
  shows "(\<forall>x\<in>set xs. \<exists>y\<in>set (map2 f xs ns). P x y) \<and> (\<forall>y\<in>set (map2 f xs ns). \<exists>x\<in>set xs. P x y)"
  using assms(1) by (induction ns xs rule: list_induct2) (simp_all add: assms(2))

lemma consume_review_keeps: "r \<in> set rs \<Longrightarrow> vr_consumedBy r \<noteq> None \<Longrightarrow> r \<in> set (consume_review j i rs)"
  unfolding consume_review_def by (auto intro: rev_image_eqI)

lemma consume_review_takes:
  "r \<in> set rs \<Longrightarrow> vr_consumedBy r = None \<Longrightarrow> r\<lparr>vr_consumedBy := Some j\<rparr> \<in> set (consume_review j (vr_id r) rs)"
  unfolding consume_review_def by (auto intro: rev_image_eqI)

text \<open>The review that a new job has consumed.\<close>

definition admitted :: "live_tables \<Rightarrow> live_job \<Rightarrow> bool" where
  "admitted t j \<longleftrightarrow> (\<exists>r\<in>set (lt_reviews t). vr_id r = jb_reviewId j \<and> vr_consumedBy r = Some (jb_id j))"

lemma step_jobs:
  assumes "lane_step t t'"
  shows "\<forall>j\<in>set (lt_jobs t). \<exists>k\<in>set (lt_jobs t'). job_kept t j k"
    and "\<forall>k\<in>set (lt_jobs t'). fresh_job k \<and> admitted t' k \<or> (\<exists>j\<in>set (lt_jobs t). job_kept t j k)"
  using assms
proof (induction rule: lane_step.induct)
  case (keep t' t rs)
  { case 1 show ?case using keep(1) job_kept_refl by metis next case 2 show ?case using keep(1) job_kept_refl by metis }
next
  case (new_job t' t j r)
  { case 1 show ?case unfolding new_job(1) set_append using job_kept_refl by blast
  next
    case 2
    have "r\<lparr>vr_consumedBy := Some (jb_id j)\<rparr> \<in> set (lt_reviews t')"
      using consume_review_takes [OF new_job(3,5), of "jb_id j"] unfolding new_job(4,6) .
    then have "admitted t' j" unfolding admitted_def using new_job(4) by (intro bexI [of _ "r\<lparr>vr_consumedBy := Some (jb_id j)\<rparr>"]) simp_all
    then show ?case unfolding new_job(1) set_append using new_job(2) job_kept_refl
      by (metis Un_iff empty_iff insert_iff list.set(1,2)) }
next
  case (move_job t' i f t)
  have k: "job_kept t j (if jb_id j = i then f j else j)" if "j \<in> set (lt_jobs t)" for j
    using that move_job(2) by (simp add: job_kept_def)
  { case 1 show ?case unfolding move_job(1) set_map using k by blast next case 2 show ?case unfolding move_job(1) set_map using k by blast }
next
  case (rotate t' t ns)
  have k: "job_kept t j (j\<lparr>jb_fairness := n\<rparr>)" for j n by (simp add: job_kept_def same_job_def)
  note related = map2_related [of ns "lt_jobs t" "job_kept t" "\<lambda>j n. j\<lparr>jb_fairness := n\<rparr>", OF rotate(2) k, folded rotate(1)]
  { case 1 show ?case using related by blast next case 2 show ?case using related by blast }
next
  case (new_row t' t r j)
  { case 1 show ?case using new_row(6) job_kept_refl by metis next case 2 show ?case using new_row(6) job_kept_refl by metis }
next
  case (move_row t' i stage f t)
  { case 1 show ?case using move_row(3) job_kept_refl by metis next case 2 show ?case using move_row(3) job_kept_refl by metis }
qed

lemma step_rows:
  assumes "lane_step t t'"
  shows "\<forall>r\<in>set (lt_outbox t). \<exists>s\<in>set (lt_outbox t'). row_kept r s"
    and "\<forall>s\<in>set (lt_outbox t'). fresh_row s \<and> (\<exists>j\<in>set (lt_jobs t). jb_id j = ob_jobId s \<and> active_status (jb_status j)) \<or>
      (\<exists>r\<in>set (lt_outbox t). row_kept r s)"
  using assms
proof (induction rule: lane_step.induct)
  case (keep t' t rs)
  { case 1 show ?case using keep(2) row_kept_refl by metis next case 2 show ?case using keep(2) row_kept_refl by metis }
next
  case (new_job t' t j r)
  { case 1 show ?case using new_job(7) row_kept_refl by metis next case 2 show ?case using new_job(7) row_kept_refl by metis }
next
  case (move_job t' i f t)
  { case 1 show ?case using move_job(3) row_kept_refl by metis next case 2 show ?case using move_job(3) row_kept_refl by metis }
next
  case (rotate t' t ns)
  { case 1 show ?case using rotate(3) row_kept_refl by metis next case 2 show ?case using rotate(3) row_kept_refl by metis }
next
  case (new_row t' t r j)
  { case 1 show ?case unfolding new_row(1) set_append using row_kept_refl by blast
  next case 2 show ?case unfolding new_row(1) set_append using new_row(2-5) row_kept_refl by (metis Un_iff empty_iff insert_iff list.set(1,2)) }
next
  case (move_row t' i stage f t)
  have k: "row_kept r (if ob_jobId r = i \<and> ob_stage r = stage then f r else r)" if "r \<in> set (lt_outbox t)" for r
    using that move_row(2) by (simp add: row_kept_def)
  { case 1 show ?case unfolding move_row(1) set_map using k by blast next case 2 show ?case unfolding move_row(1) set_map using k by blast }
qed

lemma step_one_side: "lane_step t t' \<Longrightarrow> lt_outbox t' = lt_outbox t \<or> lt_jobs t' = lt_jobs t"
  by (induction rule: lane_step.induct) simp_all

lemma step_tables_ok: "lane_step t t' \<Longrightarrow> tables_ok t'"
  by (induction rule: lane_step.induct) simp_all

lemma jobs_by_id:
  assumes "tables_ok t" "j \<in> set (lt_jobs t)" "k \<in> set (lt_jobs t)" "jb_id j = jb_id k"
  shows "j = k"
proof -
  have "inj_on jb_id (set (lt_jobs t))" using assms(1) by (simp add: tables_ok_def jobs_ok_def distinct_map)
  from inj_onD [OF this assms(4,2,3)] show ?thesis .
qed

subsection \<open>Every change keeps the invariant\<close>

lemma step_row_shape:
  assumes "lane_step t t'" "\<forall>r\<in>set (lt_outbox t). row_shape r"
  shows "\<forall>r\<in>set (lt_outbox t'). row_shape r"
proof
  fix s assume "s \<in> set (lt_outbox t')"
  with step_rows(2) [OF assms(1)] consider "fresh_row s" | r where "r \<in> set (lt_outbox t)" "row_kept r s" by blast
  then show "row_shape s"
  proof cases
    case 1
    then show ?thesis by (simp add: fresh_row_def row_shape_def)
  next
    case 2
    then show ?thesis using assms(2) row_move_shape unfolding row_kept_def by blast
  qed
qed

lemma job_shapeI:
  assumes "jb_status k \<in> {Job_queued, Job_succeeded, Job_cancelled} \<Longrightarrow> jb_lease k = None"
    and "jb_status k = Job_rejected \<Longrightarrow> \<forall>r\<in>set (job_rows (jb_id k) t). ob_signed r = None \<and> ob_status r = Ob_cancelled"
    and "jb_status k = Job_succeeded \<Longrightarrow> settled_rows (jb_kind k) (job_rows (jb_id k) t)"
  shows "job_shape t k"
  using assms unfolding job_shape_def by blast

lemma active_shape: "active_status (jb_status k) \<Longrightarrow> job_shape t k"
  by (rule job_shapeI) (auto simp: active_status_def)

lemma job_move_shape:
  assumes "job_move t j k" "same_job j k" "job_shape t j"
  shows "job_shape t k"
proof -
  have k: "jb_id k = jb_id j" "jb_kind k = jb_kind j" using assms(2) by (simp_all add: same_job_def)
  from assms(1) show ?thesis
  proof cases
    case claimed
    then show ?thesis by (intro active_shape) (simp add: active_status_def)
  next
    case kept
    with assms(3) show ?thesis unfolding job_shape_def k by auto
  next
    case cancelled
    with assms(3) show ?thesis unfolding job_shape_def k by simp
  qed (use active_shape in \<open>auto intro!: job_shapeI simp: k\<close>)
qed

lemma rows_of_idle_job:
  assumes "lane_step t t'" "tables_ok t" "j \<in> set (lt_jobs t)" "\<not> active_status (jb_status j)"
  shows "s \<in> set (job_rows (jb_id j) t') \<Longrightarrow> \<exists>r\<in>set (job_rows (jb_id j) t). row_kept r s"
    and "r \<in> set (job_rows (jb_id j) t) \<Longrightarrow> \<exists>s\<in>set (job_rows (jb_id j) t'). row_kept r s"
proof -
  assume s: "s \<in> set (job_rows (jb_id j) t')"
  then have "s \<in> set (lt_outbox t')" "ob_jobId s = jb_id j" by (simp_all add: job_rows_def)
  with step_rows(2) [OF assms(1)] jobs_by_id [OF assms(2,3)] assms(4) obtain r where "r \<in> set (lt_outbox t)" "row_kept r s" by metis
  with \<open>ob_jobId s = jb_id j\<close> show "\<exists>r\<in>set (job_rows (jb_id j) t). row_kept r s"
    by (auto simp: job_rows_def row_kept_def same_row_def)
next
  assume "r \<in> set (job_rows (jb_id j) t)"
  then have r: "r \<in> set (lt_outbox t)" "ob_jobId r = jb_id j" by (simp_all add: job_rows_def)
  then obtain s where "s \<in> set (lt_outbox t')" "row_kept r s" using step_rows(1) [OF assms(1)] by blast
  then show "\<exists>s\<in>set (job_rows (jb_id j) t'). row_kept r s"
    using r(2) by (intro bexI [of _ s]) (simp_all add: job_rows_def row_kept_def same_row_def)
qed

lemma settled_rows_kept:
  assumes "settled_rows k rs" "\<forall>s\<in>set ss. \<exists>r\<in>set rs. row_kept r s" "\<forall>r\<in>set rs. \<exists>s\<in>set ss. row_kept r s"
  shows "settled_rows k ss"
proof -
  have "good_row k s" if "s \<in> set ss" for s
    using that assms(1,2) row_move_good unfolding settled_rows_def row_kept_def by metis
  moreover obtain r where r: "r \<in> set rs" "final_row k r" "ob_cleanup r \<noteq> None" using assms(1) unfolding settled_rows_def by blast
  moreover obtain s where "s \<in> set ss" "row_kept r s" using assms(3) r(1) by blast
  ultimately show ?thesis using row_move_final unfolding settled_rows_def row_kept_def by metis
qed

lemma step_idle_shape:
  assumes step: "lane_step t t'" and ok: "tables_ok t" and j: "j \<in> set (lt_jobs t)" "job_shape t j"
  shows "job_shape t' j"
proof (cases "active_status (jb_status j)")
  case True
  then show ?thesis by (auto simp: job_shape_def active_status_def)
next
  case False
  note rows = rows_of_idle_job [OF step ok j(1) False]
  show ?thesis unfolding job_shape_def
  proof (intro conjI impI)
    assume "jb_status j = Job_rejected"
    with j(2) have all: "\<forall>r\<in>set (job_rows (jb_id j) t). ob_signed r = None \<and> ob_status r = Ob_cancelled"
      by (simp add: job_shape_def)
    show "\<forall>r\<in>set (job_rows (jb_id j) t'). ob_signed r = None \<and> ob_status r = Ob_cancelled"
    proof
      fix s assume "s \<in> set (job_rows (jb_id j) t')"
      then obtain r where "r \<in> set (job_rows (jb_id j) t)" "row_kept r s" using rows(1) by blast
      with all show "ob_signed s = None \<and> ob_status s = Ob_cancelled" using row_move_cancelled unfolding row_kept_def by metis
    qed
  next
    assume "jb_status j = Job_succeeded"
    with j(2) have "settled_rows (jb_kind j) (job_rows (jb_id j) t)" by (simp add: job_shape_def)
    then show "settled_rows (jb_kind j) (job_rows (jb_id j) t')" using rows settled_rows_kept by metis
  next
    assume "jb_status j \<in> {Job_queued, Job_succeeded, Job_cancelled}"
    with j(2) show "jb_lease j = None" unfolding job_shape_def by blast
  qed
qed

lemma job_shape_kept:
  assumes "job_kept t j k" "job_shape t j"
  shows "job_shape t k"
proof (cases "job_move t j k")
  case True
  with assms job_move_shape show ?thesis unfolding job_kept_def by blast
next
  case False
  with assms(1) have "jb_status k = jb_status j" "jb_lease k = jb_lease j" "jb_id k = jb_id j" "jb_kind k = jb_kind j"
    by (simp_all add: job_kept_def same_job_def)
  with assms(2) show ?thesis by (simp add: job_shape_def)
qed

lemma step_job_shape:
  assumes "lane_step t t'" "tables_ok t" "\<forall>j\<in>set (lt_jobs t). job_shape t j"
  shows "\<forall>j\<in>set (lt_jobs t'). job_shape t' j"
  using step_one_side [OF assms(1)]
proof
  assume same: "lt_jobs t' = lt_jobs t"
  show ?thesis unfolding same using step_idle_shape [OF assms(1,2)] assms(3) by blast
next
  assume same: "lt_outbox t' = lt_outbox t"
  show ?thesis
  proof
    fix k assume "k \<in> set (lt_jobs t')"
    with step_jobs(2) [OF assms(1)] consider "fresh_job k" | j where "j \<in> set (lt_jobs t)" "job_kept t j k" by blast
    then have "job_shape t k"
    proof cases
      case 1
      then show ?thesis by (simp add: fresh_job_def job_shape_def)
    next
      case 2
      then show ?thesis using assms(3) job_shape_kept by blast
    qed
    then show "job_shape t' k" by (simp add: job_shape_cong [OF same])
  qed
qed

lemma job_move_pending:
  assumes "job_move t j k" "active_status (jb_status j)" "r \<in> set (pending_rows t)" "ob_jobId r = jb_id j"
  shows "active_status (jb_status k)"
proof -
  have "r \<in> set (job_rows (jb_id j) t)" "ob_status r \<noteq> Ob_cancelled"
    using assms(3,4) by (auto simp: pending_rows_def job_rows_def pending_status_def)
  moreover have "pending_rows t \<noteq> []" using assms(3) by force
  ultimately show ?thesis using assms(1,2)
    by (elim job_move.cases) (auto simp: active_status_def)
qed

lemma step_pending_owned:
  assumes "lane_step t t'" "pending_owned t"
  shows "pending_owned t'"
  unfolding pending_owned_def
proof
  fix s assume "s \<in> set (pending_rows t')"
  then have s: "s \<in> set (lt_outbox t')" "pending_status (ob_status s)" by (auto simp: pending_rows_def)
  show "\<exists>k\<in>set (active_jobs t'). jb_id k = ob_jobId s"
  proof (cases "lt_jobs t' = lt_jobs t")
    case True
    from step_rows(2) [OF assms(1)] s
    consider j where "j \<in> set (lt_jobs t)" "jb_id j = ob_jobId s" "active_status (jb_status j)"
      | r where "r \<in> set (lt_outbox t)" "row_kept r s" by blast
    then show ?thesis
    proof cases
      case 1
      with True show ?thesis by (auto simp: active_jobs_def)
    next
      case 2
      then have "r \<in> set (pending_rows t)" "ob_jobId s = ob_jobId r"
        using s(2) row_move_pending unfolding row_kept_def same_row_def pending_rows_def by auto
      with assms(2) show ?thesis unfolding active_jobs_cong [OF True] pending_owned_def by metis
    qed
  next
    case False
    with step_one_side [OF assms(1)] s have r: "s \<in> set (pending_rows t)" by (simp add: pending_rows_def)
    with assms(2) obtain j where j: "j \<in> set (lt_jobs t)" "active_status (jb_status j)" "jb_id j = ob_jobId s"
      unfolding pending_owned_def active_jobs_def by auto
    with step_jobs(1) [OF assms(1)] obtain k where k: "k \<in> set (lt_jobs t')" "job_kept t j k" by blast
    then have "active_status (jb_status k)" using j r job_move_pending unfolding job_kept_def by metis
    with j k show ?thesis unfolding active_jobs_def job_kept_def same_job_def by auto
  qed
qed

lemma step_rows_have_jobs:
  assumes "lane_step t t'" "rows_have_jobs t"
  shows "rows_have_jobs t'"
proof -
  have "jb_id ` set (lt_jobs t) \<subseteq> jb_id ` set (lt_jobs t')"
    using step_jobs(1) [OF assms(1)] unfolding job_kept_def same_job_def by (metis image_eqI image_subsetI)
  moreover have "ob_jobId s \<in> jb_id ` set (lt_jobs t)" if "s \<in> set (lt_outbox t')" for s
    using step_rows(2) [OF assms(1)] that assms(2) unfolding rows_have_jobs_def row_kept_def same_row_def
    by (metis (no_types, lifting) image_eqI subsetD)
  ultimately show ?thesis unfolding rows_have_jobs_def by blast
qed

text \<open>Consumed reviews stay, and a new job has consumed its own.\<close>

lemma step_reviews:
  assumes "lane_step t t'"
  shows "r \<in> set (lt_reviews t) \<Longrightarrow> vr_consumedBy r \<noteq> None \<Longrightarrow> r \<in> set (lt_reviews t')"
  using assms by (induction rule: lane_step.induct) (simp_all add: consume_review_keeps)

lemma step_reviews_consumed:
  assumes "lane_step t t'" "reviews_consumed t"
  shows "reviews_consumed t'"
  unfolding reviews_consumed_def
proof
  fix k assume "k \<in> set (lt_jobs t')"
  with step_jobs(2) [OF assms(1)] consider "admitted t' k" | j where "j \<in> set (lt_jobs t)" "same_job j k"
    unfolding job_kept_def by blast
  then show "\<exists>r\<in>set (lt_reviews t'). vr_id r = jb_reviewId k \<and> vr_consumedBy r = Some (jb_id k)"
  proof cases
    case 1
    then show ?thesis by (simp add: admitted_def)
  next
    case 2
    with assms(2) obtain r where r: "r \<in> set (lt_reviews t)" "vr_id r = jb_reviewId j" "vr_consumedBy r = Some (jb_id j)"
      unfolding reviews_consumed_def by blast
    with step_reviews [OF assms(1) r(1)] 2(2) show ?thesis by (auto simp: same_job_def)
  qed
qed

theorem lane_step_inv: "lane_inv t \<Longrightarrow> lane_step t t' \<Longrightarrow> lane_inv t'"
  using step_tables_ok step_row_shape step_job_shape step_pending_owned step_rows_have_jobs step_reviews_consumed
  unfolding lane_inv_def by blast

end
