(* ===== verification/Queue_Machine.thy ===== *)
theory Queue_Machine
  imports Queue_Protocol
begin

section \<open>The queue refines its protocol\<close>

text \<open>
  Every transaction of the store and of the queue, from tables that satisfy the invariant of the
  protocol, makes a sequence of the protocol's changes.
\<close>

subsection \<open>Writes\<close>

lemma write_tables_Inr [simp]: "write_tables t = Inr t' \<longleftrightarrow> tables_ok t \<and> t' = t"
  by (auto simp: write_tables_def)

lemma set_job_simps [simp]:
  "lt_jobs (set_job i f t) = map (\<lambda>j. if jb_id j = i then f j else j) (lt_jobs t)" "lt_outbox (set_job i f t) = lt_outbox t"
  "lt_reviews (set_job i f t) = lt_reviews t"
  by (simp_all add: set_job_def)

lemma set_stage_simps [simp]:
  "lt_jobs (set_stage i s f t) = lt_jobs t" "lt_reviews (set_stage i s f t) = lt_reviews t"
  "lt_outbox (set_stage i s f t) = map (\<lambda>r. if ob_jobId r = i \<and> ob_stage r = s then f r else r) (lt_outbox t)"
  by (simp_all add: set_stage_def)

lemma set_job_step:
  assumes "tables_ok (set_job i f t)"
    and "\<And>j. j \<in> set (lt_jobs t) \<Longrightarrow> jb_id j = i \<Longrightarrow> same_job j (f j) \<and> job_move t j (f j)"
  shows "lane_step t (set_job i f t)"
  using assms by (intro lane_step.move_job [of _ i f]) auto

lemma set_stage_step:
  assumes "tables_ok (set_stage i s f t)"
    and "\<And>r. r \<in> set (lt_outbox t) \<Longrightarrow> ob_jobId r = i \<Longrightarrow> ob_stage r = s \<Longrightarrow> same_row r (f r) \<and> row_move r (f r)"
  shows "lane_step t (set_stage i s f t)"
  using assms by (intro lane_step.move_row [of _ i s f]) auto

lemma keep_step:
  "lt_jobs t' = lt_jobs t \<Longrightarrow> lt_outbox t' = lt_outbox t \<Longrightarrow> lt_reviews t' = lt_reviews t \<Longrightarrow> tables_ok t' \<Longrightarrow> lane_step t t'"
  by (rule lane_step.keep [of _ _ "[]"]) simp_all

lemma find_set: "find P xs = Some x \<Longrightarrow> x \<in> set xs \<and> P x"
  by (auto simp: find_Some_iff)

lemma owned_Inr:
  assumes "owned now t i token = Inr j"
  shows "j \<in> set (lt_jobs t)" "jb_id j = i" "\<exists>until. jb_lease j = Some (token, until) \<and> until > ck_app now"
  using assms by (auto simp: owned_def find_job_def bind_ok_Inr_iff dest!: find_set split: option.splits)

lemma owned_unique: "owned now t i token = Inr j \<Longrightarrow> tables_ok t \<Longrightarrow> k \<in> set (lt_jobs t) \<Longrightarrow> jb_id k = i \<Longrightarrow> k = j"
  using owned_Inr jobs_by_id by metis

lemma owned_status:
  assumes "owned now t i token = Inr j" "lane_inv t"
  shows "active_status (jb_status j) \<or> jb_status j = Job_rejected"
proof -
  have "jb_lease j \<noteq> None" using owned_Inr(3) [OF assms(1)] by auto
  moreover have "job_shape t j" using owned_Inr(1) [OF assms(1)] assms(2) by (simp add: lane_inv_def)
  ultimately show ?thesis by (cases "jb_status j") (auto simp: job_shape_def active_status_def)
qed

lemma rows_by_key:
  assumes "tables_ok t" "r \<in> set (lt_outbox t)" "s \<in> set (lt_outbox t)" "ob_jobId r = ob_jobId s" "ob_stage r = ob_stage s"
  shows "r = s"
proof -
  have "inj_on (\<lambda>r. (ob_jobId r, ob_stage r)) (set (lt_outbox t))"
    using assms(1) by (simp add: tables_ok_def outbox_ok_def distinct_map)
  from inj_onD [OF this _ assms(2,3)] assms(4,5) show ?thesis by simp
qed

lemma find_stage_Some:
  assumes "find_stage t i s = Some r"
  shows "r \<in> set (lt_outbox t)" "ob_jobId r = i" "ob_stage r = s"
  using assms by (auto simp: find_stage_def dest: find_set)

lemma find_stage_unique:
  "find_stage t i s = Some r \<Longrightarrow> tables_ok t \<Longrightarrow> u \<in> set (lt_outbox t) \<Longrightarrow> ob_jobId u = i \<Longrightarrow> ob_stage u = s \<Longrightarrow> u = r"
  using find_stage_Some rows_by_key by metis

lemma touch_simps [simp]:
  "jb_id (touch now j) = jb_id j" "jb_status (touch now j) = jb_status j" "jb_lease (touch now j) = jb_lease j"
  "same_job k (touch now j) = same_job k j"
  by (simp_all add: touch_def same_job_def)

lemma same_job_updates [simp]:
  "same_job j (j\<lparr>jb_status := s\<rparr>)" "same_job j (j\<lparr>jb_lease := l\<rparr>)" "same_job j (j\<lparr>jb_status := s, jb_lease := l\<rparr>)"
  "same_job j (j\<lparr>jb_status := s, jb_lease := l, jb_attempt := n\<rparr>)" "same_job j (j\<lparr>jb_status := s, jb_lease := l, jb_fairness := n\<rparr>)"
  "same_job j (j\<lparr>jb_status := s, jb_resumeStage := u, jb_lease := l\<rparr>)" "same_job j (j\<lparr>jb_status := s, jb_resumeStage := u\<rparr>)"
  by (simp_all add: same_job_def)

subsection \<open>Leases and claims\<close>

lemma renewLease_steps:
  assumes "renewLease now i token ms t = Inr (j, t')" "lane_inv t"
  shows "lane_step t t'"
proof -
  from assms(1) obtain k where k: "owned now t i token = Inr k"
    and t': "t' = set_job i (\<lambda>j. touch now (j\<lparr>jb_lease := Some (token, ck_db now + ms)\<rparr>)) t" "tables_ok t'"
    unfolding renewLease_def Let_def bind_ok_Inr_iff by auto
  have "jb_lease k \<noteq> None" using owned_Inr(3) [OF k] by auto
  then show ?thesis unfolding t'(1) using t' owned_unique [OF k] lane_invD(1) [OF assms(2)]
    by (intro set_job_step) (auto intro: job_move.kept)
qed

lemma yield_steps:
  assumes "yieldAfterConfirmedReceipt now i stage token t = Inr t'" "lane_inv t"
  shows "lane_step t t'"
proof -
  from assms(1) obtain k where k: "owned now t i token = Inr k"
    and t': "t' = set_job i (\<lambda>j. touch now (j\<lparr>jb_lease := None\<rparr>)) t" "tables_ok t'"
    unfolding yieldAfterConfirmedReceipt_def Let_def bind_ok_Inr_iff by auto
  have "jb_lease k \<noteq> None" using owned_Inr(3) [OF k] by auto
  then show ?thesis unfolding t'(1) using t' owned_unique [OF k] lane_invD(1) [OF assms(2)]
    by (intro set_job_step) (auto intro: job_move.kept)
qed

lemma rotate_jobs_map2:
  "\<exists>ns. length ns = length js \<and> fst (rotate_jobs c i js n) = map2 (\<lambda>j n. j\<lparr>jb_fairness := n\<rparr>) js ns"
proof (induction js arbitrary: n)
  case Nil
  show ?case by simp
next
  case (Cons j js)
  let ?hit = "jb_campaignId j = c \<and> jb_id j \<noteq> i \<and> jb_status j = Job_queued"
  obtain ns where ns: "length ns = length js"
    "fst (rotate_jobs c i js (if ?hit then n + 1 else n)) = map2 (\<lambda>j n. j\<lparr>jb_fairness := n\<rparr>) js ns"
    using Cons.IH by blast
  show ?case
    by (rule exI [of _ "(if ?hit then n else jb_fairness j) # ns"]) (use ns in \<open>auto simp: Let_def\<close>)
qed

lemma rotate_steps: "tables_ok (rotate c i t) \<Longrightarrow> lane_step t (rotate c i t)"
  using rotate_jobs_map2 [of "lt_jobs t" c i "lt_sequence t"]
  by (auto simp: rotate_def Let_def intro: lane_step.rotate)

lemma take_job_steps:
  assumes "take_job now token ms fresh row t = Inr (c, t')"
    and "\<And>k. k \<in> set (lt_jobs t) \<Longrightarrow> jb_id k = jb_id row \<Longrightarrow> jb_status k = jb_status row"
    and "jb_status row = Job_queued \<or> active_status (jb_status row)"
  shows "lane_step\<^sup>*\<^sup>* t t'"
proof -
  define f where "f = (\<lambda>j. touch now (j\<lparr>jb_status := claimed_status (jb_status row), jb_lease := Some (token, ck_db now + ms),
       jb_attempt := jb_attempt j + 1\<rparr>))"
  define t1 where "t1 = set_job (jb_id row) f t"
  from assms(1) have t1: "tables_ok t1" and t': "t' = t1 \<or> t' = rotate (jb_campaignId row) (jb_id row) t1 \<and> tables_ok t'"
    by (auto simp: take_job_def Let_def bind_ok_Inr_iff f_def [symmetric] t1_def [symmetric] split: if_splits)
  have "job_move t k (f k)" if "k \<in> set (lt_jobs t)" "jb_id k = jb_id row" for k
    using assms(2) [OF that] assms(3)
    by (auto simp: f_def claimed_status_def active_status_def intro: job_move.claimed job_move.running)
  moreover have "same_job k (f k)" for k by (simp add: f_def)
  ultimately have "lane_step t t1" unfolding t1_def using t1 [unfolded t1_def] by (intro set_job_step) auto
  with t' rotate_steps show ?thesis by (meson r_into_rtranclp rtranclp.rtrancl_into_rtrancl)
qed

lemma sort_by_Cons: "sort_by le xs = y # ys \<Longrightarrow> y \<in> set xs"
  by (metis set_sort_by list.set_intros(1))

lemma queued_pick_Some: "queued_pick now e t = Some j \<Longrightarrow> j \<in> set (lt_jobs t) \<and> jb_status j = Job_queued"
  unfolding queued_pick_def by (auto split: list.splits dest!: sort_by_Cons)

lemma active_job_Some: "active_job t = Some a \<Longrightarrow> a \<in> set (lt_jobs t) \<and> active_status (jb_status a)"
  unfolding active_job_def active_jobs_def by (auto split: list.splits dest!: sort_by_Cons)

lemma yields_to_Some:
  assumes "yields_to now t a = Some s"
  shows "jb_status a = Job_blocked" "\<not> unresolved_outbox t" "queued_pick now (Some (jb_campaignId a)) t = Some s"
    "exit_kind (jb_kind s) \<or> \<not> exit_kind (jb_kind a)" "wallet_available t"
  using assms by (auto simp: yields_to_def split: if_splits option.splits)

lemma resolved_no_pending: "\<not> unresolved_outbox t \<Longrightarrow> pending_rows t = []"
  by (auto simp: unresolved_outbox_def unresolved_row_def pending_rows_def pending_status_def filter_empty_conv)

lemma park_step:
  assumes "tables_ok t" "a \<in> set (lt_jobs t)" "jb_status a = Job_blocked" "\<not> unresolved_outbox t" "tables_ok (park now a t)"
  shows "lane_step t (park now a t)"
proof -
  define f where "f = (\<lambda>j. touch now (j\<lparr>jb_status := Job_queued, jb_lease := None, jb_fairness := lt_sequence t\<rparr>))"
  have "job_move t j (f j)" if "j \<in> set (lt_jobs t)" "jb_id j = jb_id a" for j
    using jobs_by_id [OF assms(1) that(1) assms(2) that(2)] assms(3) resolved_no_pending [OF assms(4)]
    by (auto simp: f_def intro: job_move.parked)
  moreover have "same_job j (f j)" for j by (simp add: f_def)
  ultimately show ?thesis using assms(5)
    by (intro lane_step.move_job [of _ "jb_id a" f]) (simp_all add: park_def f_def)
qed

lemma claimNext_steps:
  assumes claim: "claimNext now token ms t = Inr (c, t')" and inv: "lane_inv t"
  shows "lane_step\<^sup>*\<^sup>* t t'"
proof -
  note ok = lane_invD(1) [OF inv]
  have queued: "lane_step\<^sup>*\<^sup>* t t'" if "take_job now token ms True row t = Inr (c, t')" "row \<in> set (lt_jobs t)" "jb_status row = Job_queued" for row
    using that jobs_by_id [OF ok] by (intro take_job_steps [OF that(1)]) auto
  have running: "lane_step\<^sup>*\<^sup>* t t'" if "take_job now token ms False a t = Inr (c, t')" "active_job t = Some a" for a
    using that jobs_by_id [OF ok] active_job_Some [OF that(2)] by (intro take_job_steps [OF that(1)]) auto
  show ?thesis
  proof (cases "active_job t")
    case None
    with claim consider "t' = t" | row where "queued_pick now None t = Some row" "take_job now token ms True row t = Inr (c, t')"
      by (auto simp: claimNext_def bind_ok_Inr_iff split: if_splits option.splits)
    then show ?thesis using queued queued_pick_Some by cases blast+
  next
    case (Some a)
    show ?thesis
    proof (cases "yields_to now t a")
      case None
      with Some claim consider "t' = t" | "take_job now token ms False a t = Inr (c, t')"
        by (auto simp: claimNext_def bind_ok_Inr_iff split: if_splits)
      then show ?thesis using running [OF _ Some] by cases auto
    next
      case yield: (Some s)
      with Some claim have p: "tables_ok (park now a t)" "take_job now token ms True s (park now a t) = Inr (c, t')"
        by (auto simp: claimNext_def bind_ok_Inr_iff)
      note y = yields_to_Some [OF yield]
      have a: "a \<in> set (lt_jobs t)" using active_job_Some [OF Some] by blast
      have s: "s \<in> set (lt_jobs t)" "jb_status s = Job_queued" using queued_pick_Some [OF y(3)] by auto
      have "lane_step t (park now a t)" by (rule park_step [OF ok a y(1,2) p(1)])
      moreover have "lane_step\<^sup>*\<^sup>* (park now a t) t'"
        using jobs_by_id [OF ok _ s(1)] s(2)
        by (intro take_job_steps [OF p(2)]) (auto simp: park_def split: if_splits)
      ultimately show ?thesis by (rule converse_rtranclp_into_rtranclp)
    qed
  qed
qed

lemma transition_steps:
  assumes "transition now i token target resume retryAfterMs t = Inr (j', t')" "lane_inv t"
  shows "lane_step t t'"
proof -
  define f where "f = (\<lambda>j. touch now (j\<lparr>jb_status := target_status target,
       jb_resumeStage := (case resume of Some s \<Rightarrow> Some s | None \<Rightarrow> jb_resumeStage j),
       jb_lease := (case retryAfterMs of Some n \<Rightarrow> Some (token, ck_db now + n) | None \<Rightarrow> jb_lease j)\<rparr>))"
  from assms(1) obtain j where j: "owned now t i token = Inr j" "\<not> terminal (jb_status j) \<or> jb_status j = Job_blocked"
    "target = To_rejected \<longrightarrow> (\<forall>r\<in>set (job_rows i t). ob_signed r = None \<and> ob_status r = Ob_cancelled)"
    and t': "tables_ok t'" "t' = set_job i f t"
    by (auto simp: transition_def Let_def bind_ok_Inr_iff f_def [symmetric])
  have act: "active_status (jb_status j)" using owned_status [OF j(1) assms(2)] j(2) by (auto simp: terminal_def)
  have "job_move t k (f k)" if "k \<in> set (lt_jobs t)" "jb_id k = i" for k
  proof -
    have [simp]: "k = j" using owned_unique [OF j(1) lane_invD(1) [OF assms(2)] that] .
    show ?thesis
    proof (cases "target = To_rejected")
      case True
      then show ?thesis using act j(3) that(2) by (intro job_move.rejected) (auto simp: f_def)
    next
      case False
      then show ?thesis using act by (intro job_move.running) (cases target; simp add: f_def active_status_def)+
    qed
  qed
  then show ?thesis unfolding t'(2) using t' by (intro set_job_step) (simp_all add: f_def)
qed

lemma cancelQueued_steps:
  assumes "cancelQueued now i t = Inr t'" "lane_inv t"
  shows "lane_step t t'"
proof -
  from assms(1) obtain j where j: "find_job t i = Some j" "jb_status j = Job_queued"
    and t': "t' = set_job i (\<lambda>j. touch now (j\<lparr>jb_status := Job_cancelled\<rparr>)) t" "tables_ok t'"
    unfolding cancelQueued_def bind_ok_Inr_iff by (auto split: option.splits)
  from j(1) have "j \<in> set (lt_jobs t)" "jb_id j = i" by (auto simp: find_job_def dest: find_set)
  then have "k = j" if "k \<in> set (lt_jobs t)" "jb_id k = i" for k
    using jobs_by_id [OF lane_invD(1) [OF assms(2)] that(1)] that(2) by simp
  then show ?thesis unfolding t'(1) using t' j(2) by (intro set_job_step) (auto intro: job_move.cancelled)
qed

subsection \<open>Stages\<close>

lemma same_row_updates [simp]:
  "same_row r (r\<lparr>ob_signed := b, ob_status := s\<rparr>)" "same_row r (r\<lparr>ob_status := s\<rparr>)" "same_row r (r\<lparr>ob_cleanup := p\<rparr>)"
  "same_row r (attribute_row v r)"
  by (simp_all add: same_row_def attribute_row_def)

lemma insert_stage_steps:
  assumes insert: "insert_stage q now i x j p au prior t = Inr (r, t')"
    and j: "owned now t i token = Inr j" "jb_status j \<in> {Job_preflighting, Job_executing, Job_reconciling}" and inv: "lane_inv t"
  shows "lane_step\<^sup>*\<^sup>* t t'"
proof -
  define row where "row = prepared_row i (pr_stage x) p (au_plan au) prior"
  define t1 where "t1 = t\<lparr>lt_outbox := lt_outbox t @ [row]\<rparr>"
  define f where "f = (\<lambda>j. touch now (j\<lparr>jb_status := Job_executing, jb_resumeStage := Some (pr_stage x)\<rparr>))"
  from insert have t1: "tables_ok t1" and t': "tables_ok t'" "t' = set_job i f t1"
    by (auto simp: insert_stage_def Let_def bind_ok_Inr_iff row_def [symmetric] t1_def [symmetric] f_def [symmetric])
  have act: "active_status (jb_status j)" using j(2) by (auto simp: active_status_def)
  have "lane_step t t1"
    using t1 owned_Inr [OF j(1)] act
    by (intro lane_step.new_row [of _ _ row j]) (auto simp: t1_def row_def prepared_row_def fresh_row_def)
  moreover have "lane_step t1 t'" unfolding t'(2)
    using t' owned_unique [OF j(1) lane_invD(1) [OF inv]] act
    by (intro set_job_step) (auto simp: t1_def f_def active_status_def intro: job_move.running)
  ultimately show ?thesis by auto
qed

lemma prepareStage_steps:
  assumes "prepareStage q now i token x t = Inr (r, t')" "lane_inv t"
  shows "lane_step\<^sup>*\<^sup>* t t'"
proof -
  from assms(1) obtain j where j: "owned now t i token = Inr j" "jb_status j \<in> {Job_preflighting, Job_executing, Job_reconciling}"
    unfolding prepareStage_def by (auto simp: bind_ok_Inr_iff assertion_def)
  from assms(1) consider "t' = t" | p au prior where "insert_stage q now i x j p au prior t = Inr (r, t')"
    unfolding prepareStage_def by (auto simp: bind_ok_Inr_iff j(1) split: option.splits)
  then show ?thesis using insert_stage_steps j assms(2) by cases auto
qed

lemma recordSigned_steps:
  assumes "recordSigned q now i stage token raw t = Inr (r', t')" "lane_inv t"
  shows "lane_step\<^sup>*\<^sup>* t t'"
proof -
  from assms(1) obtain r where r: "find_stage t i stage = Some r"
    unfolding recordSigned_def by (auto simp: bind_ok_Inr_iff split: option.splits)
  from assms(1) consider "t' = t" | hash where "ob_status r = Ob_prepared" "tables_ok t'"
      "t' = set_stage i stage (\<lambda>r. r\<lparr>ob_signed := Some (lower raw, hash), ob_status := Ob_signed\<rparr>) t"
    unfolding recordSigned_def by (auto simp: bind_ok_Inr_iff r Let_def split: if_splits)
  then show ?thesis
  proof cases
    case 2
    then have "lane_step t t'" unfolding 2(3)
      using find_stage_unique [OF r lane_invD(1) [OF assms(2)]] by (intro set_stage_step) (auto intro!: row_move.signed)
    then show ?thesis by blast
  qed simp
qed

lemma cancelPrepared_steps:
  assumes "cancelPrepared now i stage token t = Inr t'" "lane_inv t"
  shows "lane_step t t'"
proof -
  from assms(1) obtain r where r: "find_stage t i stage = Some r" "ob_status r = Ob_prepared" "ob_signed r = None"
    and t': "t' = set_stage i stage (\<lambda>r. r\<lparr>ob_status := Ob_cancelled\<rparr>) t" "tables_ok t'"
    unfolding cancelPrepared_def by (auto simp: bind_ok_Inr_iff split: option.splits)
  then show ?thesis unfolding t'(1)
    using find_stage_unique [OF r(1) lane_invD(1) [OF assms(2)]] by (intro set_stage_step) (auto intro!: row_move.unsigned)
qed

subsection \<open>Receipts\<close>

lemma settle_allocation_keeps:
  assumes "settle_allocation i v t = Inr t'"
  shows "lt_jobs t' = lt_jobs t" "lt_outbox t' = lt_outbox t" "lt_reviews t' = lt_reviews t" "tables_ok t'" "lt_wallet t' = lt_wallet t"
    "lt_address t' = lt_address t" "lt_tokens t' = lt_tokens t"
  using assms by (auto simp: settle_allocation_def bind_ok_Inr_iff)

lemma settle_custody_result:
  assumes "settle_custody j v t = Inr t'"
  shows "tables_ok t' \<and> (\<exists>rows. t' = t\<lparr>lt_custody := rows\<rparr>)"
  using assms unfolding settle_custody_def Let_def bind_ok_Inr_iff
  by (cases "vq_nextNftTokenIds v"; cases "vq_position v") (auto simp: bind_ok_Inr_iff split: if_splits)

lemma settle_custody_keeps:
  assumes "settle_custody j v t = Inr t'"
  shows "lt_jobs t' = lt_jobs t" "lt_outbox t' = lt_outbox t" "lt_reviews t' = lt_reviews t" "tables_ok t'" "lt_wallet t' = lt_wallet t"
    "lt_address t' = lt_address t" "lt_tokens t' = lt_tokens t" "lt_allocations t' = lt_allocations t"
    "lt_allocationTokens t' = lt_allocationTokens t"
  using settle_custody_result [OF assms] by auto

lemma snapshot_result:
  assumes "applyWalletSnapshotInTransaction h now i t = Inr (w, t')"
  obtains rows changed where "lower_rows h (wc_tokens (sx_content i)) = Inr rows" "snapshot_follows t i rows (lt_wallet t) = Inr changed"
    "fingerprint h t = wc_commitmentsHash (sx_content i)" "t' = t\<lparr>lt_wallet := Some w, lt_tokens := rows\<rparr>" "tables_ok t'"
    "vw_status w = snapshot_status now t i rows" "vw_native w = Some (wc_native (sx_content i))"
    "vw_source w = Some (wc_source (sx_content i))" "vw_nonce w = Some (wc_nonce (sx_content i))"
    "vw_generation w = (case lt_wallet t of Some p \<Rightarrow> vw_generation p | None \<Rightarrow> 0) + (if changed then 1 else 0)"
proof -
  from assms obtain rows changed w0 where *: "lower_rows h (wc_tokens (sx_content i)) = Inr rows"
      "snapshot_follows t i rows (lt_wallet t) = Inr changed" "fingerprint h t = wc_commitmentsHash (sx_content i)"
      "w = \<lparr>vw_generation = (case lt_wallet t of Some p \<Rightarrow> vw_generation p | None \<Rightarrow> 0) + (if changed then 1 else 0),
         vw_status = snapshot_status now t i rows, vw_source = Some (wc_source (sx_content i)),
         vw_nonce = Some (wc_nonce (sx_content i)), vw_pendingNonce = Some (wc_pendingNonce (sx_content i)),
         vw_native = Some (wc_native (sx_content i)),
         vw_snapshotHash = Some (snapshotHashFor h (lt_address t) ((sx_content i)\<lparr>wc_tokens := rows\<rparr>)),
         vw_commitmentsHash = Some (wc_commitmentsHash (sx_content i))\<rparr>"
      "tables_ok t'" "t' = t\<lparr>lt_wallet := Some w, lt_tokens := rows\<rparr>"
    unfolding applyWalletSnapshotInTransaction_def Let_def bind_ok_Inr_iff by auto
  show ?thesis by (rule that [OF *(1-3) *(6) *(5)]) (simp_all add: *(4))
qed

lemma snapshot_keeps:
  assumes "applyWalletSnapshotInTransaction h now i t = Inr (w, t')"
  shows "lt_jobs t' = lt_jobs t" "lt_outbox t' = lt_outbox t" "lt_reviews t' = lt_reviews t" "tables_ok t'"
    "lt_allocations t' = lt_allocations t" "lt_allocationTokens t' = lt_allocationTokens t"
  using assms by (auto elim!: snapshot_result)

lemma rehash_simps [simp]:
  "lt_jobs (rehash_allocation q i g v t) = lt_jobs t" "lt_outbox (rehash_allocation q i g v t) = lt_outbox t"
  "lt_reviews (rehash_allocation q i g v t) = lt_reviews t"
  by (simp_all add: rehash_allocation_def)

text \<open>The transactions of a receipt, one after the other.\<close>

lemma attribute_receipt_result:
  assumes "attribute_receipt q now j r w v t = Inr (r', t')"
  obtains t1 t2 t3 w' where "receipt_wallet_checks (lt_address t) r w v = Inr ()" "receipt_scope_checks t r v = Inr ()"
    "settle_allocation (jb_allocationId j) v t = Inr t1" "settle_custody j v t1 = Inr t2"
    "applyWalletSnapshotInTransaction (qw_hashes q) now (receipt_snapshot q t2 (jb_id j) (ob_stage r) w v) t2 = Inr (w', t3)"
    "tables_ok (rehash_allocation q (jb_allocationId j) (vw_generation w') v t3)"
    "tables_ok (set_stage (jb_id j) (ob_stage r) (attribute_row v) (rehash_allocation q (jb_allocationId j) (vw_generation w') v t3))"
    "t' = set_job (jb_id j) (\<lambda>j. touch now (j\<lparr>jb_status := receipt_job_status v\<rparr>))
      (set_stage (jb_id j) (ob_stage r) (attribute_row v) (rehash_allocation q (jb_allocationId j) (vw_generation w') v t3))"
    "tables_ok t'" "r' = attribute_row v r"
  using assms unfolding attribute_receipt_def Let_def bind_ok_Inr_iff by (auto simp: bind_ok_Inr_iff)

lemma attribute_receipt_steps:
  assumes att: "attribute_receipt q now j r w v t = Inr (r', t')" and inv: "lane_inv t"
    and j: "owned now t (jb_id j) token = Inr j" and r: "find_stage t (jb_id j) (ob_stage r) = Some r"
    and s: "ob_signed r \<noteq> None" "ob_receipt r = None" "ob_status r \<in> {Ob_signed, Ob_blocked}"
  shows "lane_step\<^sup>*\<^sup>* t t'"
proof -
  from att obtain t1 t2 t3 w' where step: "settle_allocation (jb_allocationId j) v t = Inr t1" "settle_custody j v t1 = Inr t2"
    "applyWalletSnapshotInTransaction (qw_hashes q) now (receipt_snapshot q t2 (jb_id j) (ob_stage r) w v) t2 = Inr (w', t3)"
    and ok: "tables_ok (rehash_allocation q (jb_allocationId j) (vw_generation w') v t3)"
      "tables_ok (set_stage (jb_id j) (ob_stage r) (attribute_row v) (rehash_allocation q (jb_allocationId j) (vw_generation w') v t3))"
    and t': "t' = set_job (jb_id j) (\<lambda>j. touch now (j\<lparr>jb_status := receipt_job_status v\<rparr>))
      (set_stage (jb_id j) (ob_stage r) (attribute_row v) (rehash_allocation q (jb_allocationId j) (vw_generation w') v t3))" "tables_ok t'"
    by (rule attribute_receipt_result)
  define t4 where "t4 = rehash_allocation q (jb_allocationId j) (vw_generation w') v t3"
  define t5 where "t5 = set_stage (jb_id j) (ob_stage r) (attribute_row v) t4"
  have same: "lt_jobs t4 = lt_jobs t" "lt_outbox t4 = lt_outbox t" "lt_reviews t4 = lt_reviews t"
    using settle_allocation_keeps [OF step(1)] settle_custody_keeps [OF step(2)] snapshot_keeps [OF step(3)] by (simp_all add: t4_def)
  have "lane_step t t4" using same ok(1) by (intro keep_step) (simp_all add: t4_def)
  moreover have "lane_step t4 t5"
  proof -
    have "row_move r (attribute_row v r)" using s by (intro row_move.attributed) (auto simp: attribute_row_def attributed_def)
    then show ?thesis unfolding t5_def using ok(2) find_stage_unique [OF r lane_invD(1) [OF inv]]
      by (intro set_stage_step) (auto simp: t4_def [symmetric] same)
  qed
  moreover have "lane_step t5 t'"
  proof -
    have "jb_status j \<noteq> Job_rejected"
    proof
      assume "jb_status j = Job_rejected"
      moreover have "job_shape t j" using owned_Inr(1) [OF j] lane_invD(3) [OF inv] by blast
      moreover have "r \<in> set (job_rows (jb_id j) t)" using find_stage_Some [OF r] by (simp add: job_rows_def)
      ultimately show False using s(1) by (auto simp: job_shape_def)
    qed
    then have act: "active_status (jb_status j)" using owned_status [OF j inv] by blast
    have "job_move t5 k (touch now (k\<lparr>jb_status := receipt_job_status v\<rparr>))" if "k \<in> set (lt_jobs t5)" "jb_id k = jb_id j" for k
      using owned_unique [OF j lane_invD(1) [OF inv], of k] that act
      by (intro job_move.running) (auto simp: t5_def same receipt_job_status_def active_status_def)
    then show ?thesis unfolding t'(1) t4_def [symmetric] t5_def [symmetric]
      using t'(2) [unfolded t'(1)] by (intro set_job_step) (simp_all add: t4_def [symmetric] t5_def [symmetric])
  qed
  ultimately show ?thesis by (meson converse_rtranclp_into_rtranclp r_into_rtranclp)
qed

lemma reconcileStage_result:
  assumes "reconcileStage q now i stage token t = Inr (r', t')"
  obtains (replayed) r where "find_stage t i stage = Some r" "ob_signed r \<noteq> None" "ob_receipt r \<noteq> None" "r' = r" "t' = t"
  | (attributed) j r w v where "owned now t i token = Inr j" "find_stage t i stage = Some r" "ob_signed r \<noteq> None" "ob_receipt r = None"
      "ob_status r \<in> {Ob_signed, Ob_blocked}" "lt_wallet t = Some w" "find_allocation t (jb_allocationId j) \<noteq> None"
      "qw_reconcile q t j r = Inr v" "attribute_receipt q now j r w v t = Inr (r', t')"
proof -
  from assms obtain j r where j: "owned now t i token = Inr j" and r: "find_stage t i stage = Some r" "ob_signed r \<noteq> None"
    unfolding reconcileStage_def by (auto simp: bind_ok_Inr_iff split: option.splits)
  show ?thesis
  proof (cases "ob_receipt r = None")
    case False
    with assms j r show ?thesis by (intro replayed [of r]) (auto simp: reconcileStage_def)
  next
    case True
    with assms j r obtain w v where "ob_status r \<in> {Ob_signed, Ob_blocked}" "lt_wallet t = Some w"
        "find_allocation t (jb_allocationId j) \<noteq> None" "qw_reconcile q t j r = Inr v" "attribute_receipt q now j r w v t = Inr (r', t')"
      unfolding reconcileStage_def by (auto simp: bind_ok_Inr_iff assertion_def split: option.splits)
    with j r True show ?thesis by (intro attributed)
  qed
qed

lemma reconcileStage_steps:
  assumes "reconcileStage q now i stage token t = Inr (r', t')" "lane_inv t"
  shows "lane_step\<^sup>*\<^sup>* t t'"
  using assms(1)
proof (cases rule: reconcileStage_result)
  case (attributed j r w v)
  have "jb_id j = i" "ob_stage r = stage" using owned_Inr(2) [OF attributed(1)] find_stage_Some(3) [OF attributed(2)] by simp_all
  with attributed assms(2) show ?thesis using attribute_receipt_steps [OF attributed(9) assms(2), of token] by simp
qed simp

lemma filter_changed:
  "(\<And>x. P (g x) = P x) \<Longrightarrow> filter P (map (\<lambda>x. if P x \<and> Q x then g x else x) xs) = map (\<lambda>x. if Q x then g x else x) (filter P xs)"
  by (induction xs) auto

lemma last_row_Some: "last_row rs = Some r \<Longrightarrow> r \<in> set rs"
  by (auto simp: last_row_def split: if_splits)

lemma finish_result:
  assumes "finish q now i token t = Inr (pf, t')"
  obtains j a r where "owned now t i token = Inr j" "find_allocation t (jb_allocationId j) = Some a" "qw_cleanup q t j = Inr pf"
    "cleanup_checks j a (lt_wallet t) pf = Inr ()" "pending_rows t = []" "\<forall>r\<in>set (job_rows i t). good_row (jb_kind j) r"
    "r \<in> set (job_rows i t)" "final_row (jb_kind j) r"
    "tables_ok (set_stage i (ob_stage r) (\<lambda>r. r\<lparr>ob_cleanup := Some pf\<rparr>) t)"
    "t' = set_job i (\<lambda>j. touch now (j\<lparr>jb_status := Job_succeeded, jb_lease := None\<rparr>))
      (set_stage i (ob_stage r) (\<lambda>r. r\<lparr>ob_cleanup := Some pf\<rparr>) t)" "tables_ok t'"
proof -
  from assms obtain j a where j: "owned now t i token = Inr j" "find_allocation t (jb_allocationId j) = Some a"
    unfolding finish_def by (auto simp: bind_ok_Inr_iff split: option.splits)
  with assms obtain r where *: "qw_cleanup q t j = Inr pf" "cleanup_checks j a (lt_wallet t) pf = Inr ()" "pending_rows t = []"
      "\<forall>r\<in>set (job_rows i t). good_row (jb_kind j) r"
      "last_row (filter (final_row (jb_kind j)) (job_rows i t)) = Some r"
      "tables_ok (set_stage i (ob_stage r) (\<lambda>r. r\<lparr>ob_cleanup := Some pf\<rparr>) t)"
      "t' = set_job i (\<lambda>j. touch now (j\<lparr>jb_status := Job_succeeded, jb_lease := None\<rparr>))
        (set_stage i (ob_stage r) (\<lambda>r. r\<lparr>ob_cleanup := Some pf\<rparr>) t)" "tables_ok t'"
    unfolding finish_def by (auto simp: bind_ok_Inr_iff split: option.splits)
  from last_row_Some [OF *(5)] have "r \<in> set (job_rows i t)" "final_row (jb_kind j) r" by simp_all
  from that [OF j *(1-4) this *(6-8)] show ?thesis .
qed

lemma finish_steps:
  assumes "finish q now i token t = Inr (pf, t')" "lane_inv t"
  shows "lane_step\<^sup>*\<^sup>* t t'"
  using assms(1)
proof (cases rule: finish_result)
  case (1 j a r)
  note f = 1
  define t1 where "t1 = set_stage i (ob_stage r) (\<lambda>r. r\<lparr>ob_cleanup := Some pf\<rparr>) t"
  have id: "jb_id j = i" using owned_Inr(2) [OF f(1)] .
  have rows: "job_rows i t1 = map (\<lambda>u. if ob_stage u = ob_stage r then u\<lparr>ob_cleanup := Some pf\<rparr> else u) (job_rows i t)"
    unfolding t1_def job_rows_def set_stage_simps by (rule filter_changed) simp
  have "lane_step t t1" unfolding t1_def using f(9) by (intro set_stage_step) (auto intro!: row_move.cleaned)
  moreover have "lane_step t1 t'"
  proof -
    have "good_row k (u\<lparr>ob_cleanup := c\<rparr>) = good_row k u" "final_row k (u\<lparr>ob_cleanup := c\<rparr>) = final_row k u" for k u c
      by (simp_all add: good_row_def degraded_row_def final_row_def attributed_def)
    with f(6-8) have "settled_rows (jb_kind j) (job_rows i t1)" unfolding settled_rows_def rows
      by (auto intro!: bexI [of _ "r\<lparr>ob_cleanup := Some pf\<rparr>"] intro: rev_image_eqI)
    moreover have "pending_rows t1 = []" using f(5)
      by (auto simp: pending_rows_def t1_def filter_empty_conv)
    moreover have "jb_status j \<noteq> Job_rejected"
    proof
      assume "jb_status j = Job_rejected"
      moreover have "job_shape t j" using owned_Inr(1) [OF f(1)] lane_invD(3) [OF assms(2)] by blast
      ultimately have "ob_status r = Ob_cancelled" using f(7) id by (auto simp: job_shape_def)
      with f(8) show False by (simp add: final_row_def)
    qed
    ultimately have "job_move t1 k (touch now (k\<lparr>jb_status := Job_succeeded, jb_lease := None\<rparr>))"
      if "k \<in> set (lt_jobs t1)" "jb_id k = i" for k
      using owned_unique [OF f(1) lane_invD(1) [OF assms(2)], of k] that owned_status [OF f(1) assms(2)] id
      by (intro job_move.finished) (simp_all add: t1_def)
    then show ?thesis unfolding f(10) t1_def [symmetric]
      using f(11) [unfolded f(10)] by (intro set_job_step) (simp_all add: t1_def [symmetric])
  qed
  ultimately show ?thesis by auto
qed

subsection \<open>The store\<close>

lemma recordReview_steps:
  assumes "recordReview h now i t = Inr (r, t')"
  shows "lane_step t t'"
proof -
  from assms have t': "tables_ok t'" "t' = t\<lparr>lt_reviews := lt_reviews t @ [r]\<rparr>" and r: "vr_consumedBy r = None"
    by (auto simp: recordReview_def bind_ok_Inr_iff Let_def split: option.splits)
  show ?thesis by (rule lane_step.keep [of _ _ "[r]"]) (use t' r in \<open>simp_all\<close>)
qed

lemma readReview_Some: "readReview t i = Some r \<Longrightarrow> r \<in> set (lt_reviews t) \<and> vr_id r = i"
  by (auto simp: readReview_def dest: find_set)

lemma reserve_review_checks_Inr:
  assumes "reserve_review_checks now i t = Inr (w, source, r)"
  shows "lt_wallet t = Some w" "vw_source w = Some source" "readReview t (ri_reviewId i) = Some r" "vr_consumedBy r = None"
    "vr_payloadHash r = ri_reviewHash i" "wallet_matches_review (Some w) (vr_generation r) (vr_commitmentsHash r) (vr_source r)"
    "vw_nonce w \<noteq> None" "vw_nonce w = vw_pendingNonce w" "ck_db now < vr_expiresAt r"
  using assms unfolding reserve_review_checks_def
  by (auto simp: bind_ok_Inr_iff split: option.splits)

lemma consume_result:
  assumes "consumeReviewAndReserve h is_address now ids dependencies i t = Inr (res, t')"
  obtains (replayed) j where "find_request t (ri_requestId i) = Some j" "jb_requestDigest j = ri_requestDigest i"
      "res = prior_result j" "t' = t"
  | (reserved) tokens w source r p nfts where "find_request t (ri_requestId i) = None" "reserve_amount_checks h i = Inr tokens"
      "reserve_review_checks now i t = Inr (w, source, r)" "reserve_capacity t w tokens (ri_nativeSpend i + ri_exitReserve i) = Inr ()"
      "reserve_campaign_checks t i tokens = Inr p" "reserved_nfts t (ri_nftTokenIds i) = Inr nfts" "review_mismatches h is_address i r p = []"
      "tables_ok t'" "t' = reserve_rows h now ids i tokens w source r nfts t"
      "res = \<lparr>qr_campaignId = fr_campaign ids, qr_allocationId = fr_allocation ids, qr_jobId = fr_job ids, qr_status = Job_queued, qr_replayed = False\<rparr>"
proof -
  from assms obtain tokens where tokens: "reserve_amount_checks h i = Inr tokens"
    unfolding consumeReviewAndReserve_def bind_ok_Inr_iff by blast
  show ?thesis
  proof (cases "find_request t (ri_requestId i)")
    case None
    from assms tokens None reserved [OF None tokens] show ?thesis
      unfolding consumeReviewAndReserve_def by (auto simp: bind_ok_Inr_iff)
  next
    case (Some j)
    from assms tokens Some show ?thesis
      unfolding consumeReviewAndReserve_def by (intro replayed [OF Some]) (auto simp: bind_ok_Inr_iff)
  qed
qed

lemma reserve_rows_simps [simp]:
  "lt_jobs (reserve_rows h now ids i tokens w source r nfts t) = lt_jobs t @ [reserved_job now h ids i r (lt_sequence t)]"
  "lt_outbox (reserve_rows h now ids i tokens w source r nfts t) = lt_outbox t"
  "lt_reviews (reserve_rows h now ids i tokens w source r nfts t) = consume_review (fr_job ids) (ri_reviewId i) (lt_reviews t)"
  "lt_allocations (reserve_rows h now ids i tokens w source r nfts t) = lt_allocations t @ [reserved_allocation h ids i w r tokens]"
  "lt_allocationTokens (reserve_rows h now ids i tokens w source r nfts t) = lt_allocationTokens t @
     map (\<lambda>(a, n). \<lparr>at_allocationId = fr_allocation ids, at_token = a, at_allocated = n, at_pending = 0\<rparr>) tokens"
  "lt_tokens (reserve_rows h now ids i tokens w source r nfts t) = lt_tokens t"
  by (simp_all add: reserve_rows_def Let_def)

lemma reserve_rows_wallet:
  "\<exists>w'. lt_wallet (reserve_rows h now ids i tokens w source r nfts t) = Some w' \<and> vw_generation w' = vw_generation w + 1 \<and>
     vw_status w' = vw_status w \<and> vw_native w' = vw_native w \<and> vw_source w' = vw_source w"
  by (simp add: reserve_rows_def next_generation_def Let_def)

lemma consume_steps:
  assumes "consumeReviewAndReserve h is_address now ids dependencies i t = Inr (res, t')"
  shows "lane_step\<^sup>*\<^sup>* t t'"
  using assms
proof (cases rule: consume_result)
  case (reserved tokens w source r p nfts)
  note rc = reserve_review_checks_Inr [OF reserved(3)]
  from readReview_Some [OF rc(3)] rc(4) reserved(8) have "lane_step t t'" unfolding reserved(9)
    by (intro lane_step.new_job [of _ _ "reserved_job now h ids i r (lt_sequence t)" r]) (auto simp: reserved_job_def fresh_job_def)
  then show ?thesis by blast
qed simp

lemma release_result:
  assumes "releaseLiveWalletAllocation h i t = Inr t'"
  obtains (released) "t' = t" | (release) a w source nonce pend native where "find (\<lambda>a. vl_id a = i) (lt_allocations t) = Some a"
      "\<not> unresolved_work t i" "\<forall>n\<in>set (lt_custody t). cu_allocationId n = Some i \<longrightarrow> custody_empty n" "lt_wallet t = Some w"
      "tables_ok t'" "t' = (release_row i t)\<lparr>lt_wallet := Some (next_generation h (release_row i t) w source nonce pend native)\<rparr>"
      "vw_native w = Some native"
proof -
  from assms obtain a d where ad: "find (\<lambda>a. vl_id a = i) (lt_allocations t) = Some a"
      "find (\<lambda>d. dp_id d = vl_campaignId a) (lt_deployments t) = Some d"
    unfolding releaseLiveWalletAllocation_def by (auto split: option.splits)
  show ?thesis
  proof (cases "vl_state a = Live_released")
    case True
    with assms ad released show ?thesis by (simp add: releaseLiveWalletAllocation_def)
  next
    case False
    with assms ad obtain w where w: "\<not> unresolved_work t i" "\<forall>n\<in>set (lt_custody t). cu_allocationId n = Some i \<longrightarrow> custody_empty n"
        "lt_wallet t = Some w"
      unfolding releaseLiveWalletAllocation_def by (auto simp: bind_ok_Inr_iff Let_def split: option.splits)
    with assms ad False obtain source nonce pend native where "tables_ok t'"
        "t' = (release_row i t)\<lparr>lt_wallet := Some (next_generation h (release_row i t) w source nonce pend native)\<rparr>"
        "vw_native w = Some native"
      unfolding releaseLiveWalletAllocation_def by (auto simp: bind_ok_Inr_iff Let_def split: option.splits)
    with ad(1) w show ?thesis by (rule release)
  qed
qed

lemma release_steps:
  assumes "releaseLiveWalletAllocation h i t = Inr t'"
  shows "lane_step\<^sup>*\<^sup>* t t'"
  using assms
proof (cases rule: release_result)
  case (release a w source nonce pend native)
  then have "lane_step t t'" by (intro keep_step) (simp_all add: release_row_def)
  then show ?thesis by blast
qed simp

lemma enqueue_result:
  assumes "enqueue q now jid i t = Inr (res, t')"
  obtains (replayed) j where "find_request t (eq_idempotencyKey i) = Some j" "jb_requestDigest j = eq_requestDigest i" "t' = t"
      "res = prior_result j"
  | (admitted) w where "find_request t (eq_idempotencyKey i) = None" "lt_wallet t = Some w" "vw_status w = Wallet_available"
      "\<not> ln_inflight (readLiveWalletLane t (Some (eq_campaignId i)))" "\<not> ln_unresolved (readLiveWalletLane t (Some (eq_campaignId i)))"
      "\<not> ln_campaignWork (readLiveWalletLane t (Some (eq_campaignId i)))" "management_review_checks q now i t w = Inr ()"
      "tables_ok t'" "t' = t\<lparr>lt_jobs := lt_jobs t @ [enqueued_job q now jid i (lt_sequence t)], lt_sequence := lt_sequence t + 1,
           lt_reviews := consume_review jid (eq_reviewId i) (lt_reviews t)\<rparr>"
proof (cases "find_request t (eq_idempotencyKey i)")
  case None
  from assms obtain m where m: "enqueue_input_checks i = Inr m" unfolding enqueue_def bind_ok_Inr_iff by blast
  from assms None m obtain w where w: "lt_wallet t = Some w" unfolding enqueue_def by (auto split: option.splits)
  with assms None m show ?thesis
    unfolding enqueue_def Let_def by (intro admitted [OF None w]) (auto simp: bind_ok_Inr_iff)
next
  case (Some j)
  from assms Some show ?thesis
    unfolding enqueue_def by (intro replayed [OF Some]) (auto simp: bind_ok_Inr_iff)
qed

lemma enqueue_steps:
  assumes "enqueue q now jid i t = Inr (res, t')"
  shows "lane_step\<^sup>*\<^sup>* t t'"
  using assms
proof (cases rule: enqueue_result)
  case (admitted w)
  from admitted(7) obtain r where r: "readReview t (eq_reviewId i) = Some r" "vr_consumedBy r = None"
    by (auto simp: management_review_checks_def bind_ok_Inr_iff split: option.splits)
  from readReview_Some [OF r(1)] r(2) admitted(8,9) have "lane_step t t'"
    by (intro lane_step.new_job [of _ _ "enqueued_job q now jid i (lt_sequence t)" r]) (auto simp: enqueued_job_def fresh_job_def)
  then show ?thesis by blast
qed simp

lemma snapshot_steps: "applyWalletSnapshotInTransaction h now i t = Inr (w, t') \<Longrightarrow> lane_step t t'"
  using snapshot_keeps by (intro keep_step)

end
