(* ===== verification/Wallet_Safety.thy ===== *)
theory Wallet_Safety
  imports Queue_Machine
begin

section \<open>A shared live wallet under any calls\<close>

text \<open>
  The machine of all transactions of \<open>live-wallet-store.ts\<close> and \<open>live-wallet-queue.ts\<close> on one
  wallet, in any order, by any callers, together with what the other components do to the tables
  they share with it: campaigns and their runtime rows change, custody is observed, and a
  campaign's first receipt makes its reserved allocation active.
\<close>

subsection \<open>The machine\<close>

datatype wallet_call =
    Snapshot_call snapshot_input
  | Review_call review_input
  | Reserve_call fresh_ids "err option" reserve_input
  | Release_call string
  | Renew_call string string int
  | Yield_call string string string
  | Enqueue_call string enqueue_input
  | Claim_call string int
  | Transition_call string string transition_target "string option" "int option"
  | Prepare_call string string stage_proposal
  | Sign_call string string string string
  | Cancel_prepared_call string string string
  | Cancel_queued_call string
  | Reconcile_call string string string
  | Finish_call string string

fun run_call :: "queue_world \<Rightarrow> (string \<Rightarrow> bool) \<Rightarrow> live_clocks \<Rightarrow> wallet_call \<Rightarrow> live_tables \<Rightarrow> live_tables res" where
  "run_call q a now (Snapshot_call i) t = bind_ok (applyWalletSnapshotInTransaction (qw_hashes q) now i t) (\<lambda>(_, t'). Inr t')"
| "run_call q a now (Review_call i) t = bind_ok (recordReview (qw_hashes q) now i t) (\<lambda>(_, t'). Inr t')"
| "run_call q a now (Reserve_call ids d i) t = bind_ok (consumeReviewAndReserve (qw_hashes q) a now ids d i t) (\<lambda>(_, t'). Inr t')"
| "run_call q a now (Release_call i) t = releaseLiveWalletAllocation (qw_hashes q) i t"
| "run_call q a now (Renew_call i token ms) t = bind_ok (renewLease now i token ms t) (\<lambda>(_, t'). Inr t')"
| "run_call q a now (Yield_call i stage token) t = yieldAfterConfirmedReceipt now i stage token t"
| "run_call q a now (Enqueue_call jid i) t = bind_ok (enqueue q now jid i t) (\<lambda>(_, t'). Inr t')"
| "run_call q a now (Claim_call token ms) t = bind_ok (claimNext now token ms t) (\<lambda>(_, t'). Inr t')"
| "run_call q a now (Transition_call i token s r n) t = bind_ok (transition now i token s r n t) (\<lambda>(_, t'). Inr t')"
| "run_call q a now (Prepare_call i token x) t = bind_ok (prepareStage q now i token x t) (\<lambda>(_, t'). Inr t')"
| "run_call q a now (Sign_call i stage token raw) t = bind_ok (recordSigned q now i stage token raw t) (\<lambda>(_, t'). Inr t')"
| "run_call q a now (Cancel_prepared_call i stage token) t = cancelPrepared now i stage token t"
| "run_call q a now (Cancel_queued_call i) t = cancelQueued now i t"
| "run_call q a now (Reconcile_call i stage token) t = bind_ok (reconcileStage q now i stage token t) (\<lambda>(_, t'). Inr t')"
| "run_call q a now (Finish_call i token) t = bind_ok (finish q now i token t) (\<lambda>(_, t'). Inr t')"

definition activate :: "string list \<Rightarrow> live_allocation \<Rightarrow> live_allocation" where
  "activate ids a = (if vl_id a \<in> set ids \<and> vl_state a = Live_reserved then a\<lparr>vl_state := Live_active\<rparr> else a)"

inductive wallet_step :: "queue_world \<Rightarrow> (string \<Rightarrow> bool) \<Rightarrow> live_tables \<Rightarrow> live_tables \<Rightarrow> bool" for q a where
  call: "run_call q a now c t = Inr t' \<Longrightarrow> wallet_step q a t t'"
| elsewhere: "t' = t\<lparr>lt_deployments := d, lt_runtime := g, lt_profiles := p, lt_custody := n,
    lt_allocations := map (activate ids) (lt_allocations t)\<rparr> \<Longrightarrow> tables_ok t' \<Longrightarrow> wallet_step q a t t'"

definition empty_tables :: "live_tables \<Rightarrow> bool" where
  "empty_tables t \<longleftrightarrow> lt_wallet t = None \<and> lt_tokens t = [] \<and> lt_allocations t = [] \<and> lt_allocationTokens t = [] \<and> lt_custody t = [] \<and>
     lt_reviews t = [] \<and> lt_jobs t = [] \<and> lt_outbox t = []"

lemma run_call_steps:
  assumes "run_call q a now c t = Inr t'" "lane_inv t"
  shows "lane_step\<^sup>*\<^sup>* t t'"
proof (cases c)
  case (Snapshot_call i)
  with assms(1) obtain w where "applyWalletSnapshotInTransaction (qw_hashes q) now i t = Inr (w, t')" by (auto simp: bind_ok_Inr_iff)
  from snapshot_steps [OF this] show ?thesis by blast
next
  case (Review_call i)
  with assms(1) obtain r where "recordReview (qw_hashes q) now i t = Inr (r, t')" by (auto simp: bind_ok_Inr_iff)
  from recordReview_steps [OF this] show ?thesis by blast
next
  case (Reserve_call ids d i)
  with assms(1) obtain r where "consumeReviewAndReserve (qw_hashes q) a now ids d i t = Inr (r, t')" by (auto simp: bind_ok_Inr_iff)
  from consume_steps [OF this] show ?thesis .
next
  case (Release_call i)
  with assms(1) show ?thesis using release_steps by simp
next
  case (Renew_call i token ms)
  with assms(1) obtain j where "renewLease now i token ms t = Inr (j, t')" by (auto simp: bind_ok_Inr_iff)
  from renewLease_steps [OF this assms(2)] show ?thesis by blast
next
  case (Yield_call i stage token)
  with assms(1) have "yieldAfterConfirmedReceipt now i stage token t = Inr t'" by simp
  from yield_steps [OF this assms(2)] show ?thesis by blast
next
  case (Enqueue_call jid i)
  with assms(1) obtain r where "enqueue q now jid i t = Inr (r, t')" by (auto simp: bind_ok_Inr_iff)
  from enqueue_steps [OF this] show ?thesis .
next
  case (Claim_call token ms)
  with assms(1) obtain r where "claimNext now token ms t = Inr (r, t')" by (auto simp: bind_ok_Inr_iff)
  from claimNext_steps [OF this assms(2)] show ?thesis .
next
  case (Transition_call i token s r n)
  with assms(1) obtain j where "transition now i token s r n t = Inr (j, t')" by (auto simp: bind_ok_Inr_iff)
  from transition_steps [OF this assms(2)] show ?thesis by blast
next
  case (Prepare_call i token x)
  with assms(1) obtain r where "prepareStage q now i token x t = Inr (r, t')" by (auto simp: bind_ok_Inr_iff)
  from prepareStage_steps [OF this assms(2)] show ?thesis .
next
  case (Sign_call i stage token raw)
  with assms(1) obtain r where "recordSigned q now i stage token raw t = Inr (r, t')" by (auto simp: bind_ok_Inr_iff)
  from recordSigned_steps [OF this assms(2)] show ?thesis .
next
  case (Cancel_prepared_call i stage token)
  with assms(1) have "cancelPrepared now i stage token t = Inr t'" by simp
  from cancelPrepared_steps [OF this assms(2)] show ?thesis by blast
next
  case (Cancel_queued_call i)
  with assms(1) have "cancelQueued now i t = Inr t'" by simp
  from cancelQueued_steps [OF this assms(2)] show ?thesis by blast
next
  case (Reconcile_call i stage token)
  with assms(1) obtain r where "reconcileStage q now i stage token t = Inr (r, t')" by (auto simp: bind_ok_Inr_iff)
  from reconcileStage_steps [OF this assms(2)] show ?thesis .
next
  case (Finish_call i token)
  with assms(1) obtain r where "finish q now i token t = Inr (r, t')" by (auto simp: bind_ok_Inr_iff)
  from finish_steps [OF this assms(2)] show ?thesis .
qed

lemma wallet_step_refines:
  assumes "wallet_step q a t t'" "lane_inv t"
  shows "lane_step\<^sup>*\<^sup>* t t'"
  using assms(1)
proof cases
  case (call now c)
  then show ?thesis using assms(2) by (rule run_call_steps)
next
  case elsewhere
  then have "lane_step t t'" by (intro keep_step) simp_all
  then show ?thesis by blast
qed

subsection \<open>The protocol as a machine\<close>

lemma empty_lane_inv: "empty_tables t \<Longrightarrow> lane_inv t"
  by (simp add: empty_tables_def lane_inv_def tables_ok_def jobs_ok_def outbox_ok_def allocations_ok_def allocation_tokens_ok_def
    tokens_of_allocations_def custody_ok_def pending_owned_def pending_rows_def rows_have_jobs_def reviews_consumed_def)

text \<open>What the record of the queue keeps: jobs with their outcome, rows with their bytes and receipts.\<close>

definition job_extends :: "live_job \<Rightarrow> live_job \<Rightarrow> bool" where
  "job_extends j k \<longleftrightarrow> same_job j k \<and> (terminal_release_status (jb_status j) \<longrightarrow> jb_status k = jb_status j)"

definition row_extends :: "live_outbox \<Rightarrow> live_outbox \<Rightarrow> bool" where
  "row_extends r s \<longleftrightarrow> same_row r s \<and>
     (ob_signed r \<noteq> None \<longrightarrow> ob_signed s = ob_signed r \<and> (ob_status s = Ob_cancelled \<longrightarrow> ob_status r = Ob_cancelled)) \<and>
     (ob_receipt r \<noteq> None \<longrightarrow> ob_receipt s = ob_receipt r \<and> ob_effects s = ob_effects r \<and> ob_status s = ob_status r) \<and>
     (ob_status r = Ob_cancelled \<longrightarrow> ob_status s = Ob_cancelled)"

definition record_extends :: "live_tables \<Rightarrow> live_tables \<Rightarrow> bool" where
  "record_extends t t' \<longleftrightarrow> (\<forall>j\<in>set (lt_jobs t). \<exists>k\<in>set (lt_jobs t'). job_extends j k) \<and>
     (\<forall>r\<in>set (lt_outbox t). \<exists>s\<in>set (lt_outbox t'). row_extends r s) \<and>
     (\<forall>r\<in>set (lt_reviews t). vr_consumedBy r \<noteq> None \<longrightarrow> r \<in> set (lt_reviews t'))"

lemma job_move_terminal:
  assumes "job_move t j k" "job_shape t j" "terminal_release_status (jb_status j)"
  shows "jb_status k = jb_status j"
  using assms by (cases rule: job_move.cases) (auto simp: terminal_release_status_def active_status_def)

lemma row_move_extends:
  assumes "row_move r s" "same_row r s" "row_shape r"
  shows "row_extends r s"
  using assms(1)
proof cases
  case signed
  with assms show ?thesis by (simp add: row_extends_def row_shape_def)
next
  case unsigned
  with assms show ?thesis by (simp add: row_extends_def row_shape_def)
next
  case attributed
  with assms show ?thesis by (auto simp: row_extends_def)
next
  case cleaned
  with assms show ?thesis by (simp add: row_extends_def)
qed

lemma job_extends_refl: "job_extends j j" and row_extends_refl: "row_extends r r"
  by (simp_all add: job_extends_def row_extends_def)

lemma record_extends_refl: "record_extends t t"
  unfolding record_extends_def using job_extends_refl row_extends_refl by blast

lemma job_extends_trans: "job_extends i j \<Longrightarrow> job_extends j k \<Longrightarrow> job_extends i k"
  unfolding job_extends_def using same_job_trans by metis

lemma row_extendsD:
  assumes "row_extends r s"
  shows "same_row r s" "ob_signed r \<noteq> None \<Longrightarrow> ob_signed s = ob_signed r"
    "ob_signed r \<noteq> None \<Longrightarrow> ob_status s = Ob_cancelled \<Longrightarrow> ob_status r = Ob_cancelled"
    "ob_receipt r \<noteq> None \<Longrightarrow> ob_receipt s = ob_receipt r" "ob_receipt r \<noteq> None \<Longrightarrow> ob_effects s = ob_effects r"
    "ob_receipt r \<noteq> None \<Longrightarrow> ob_status s = ob_status r" "ob_status r = Ob_cancelled \<Longrightarrow> ob_status s = Ob_cancelled"
  using assms unfolding row_extends_def by blast+

lemma row_extends_trans:
  assumes "row_extends r s" "row_extends s u"
  shows "row_extends r u"
proof -
  note rs = row_extendsD [OF assms(1)] and su = row_extendsD [OF assms(2)]
  have "same_row r u" using rs(1) su(1) by (rule same_row_trans)
  moreover have "ob_signed u = ob_signed r \<and> (ob_status u = Ob_cancelled \<longrightarrow> ob_status r = Ob_cancelled)" if "ob_signed r \<noteq> None"
    using rs(2,3) [OF that] su(2,3) that by metis
  moreover have "ob_receipt u = ob_receipt r \<and> ob_effects u = ob_effects r \<and> ob_status u = ob_status r" if "ob_receipt r \<noteq> None"
    using rs(4-6) [OF that] su(4-6) that by metis
  ultimately show ?thesis unfolding row_extends_def using rs(7) su(7) by blast
qed

lemma row_kept_extends: "row_kept r s \<Longrightarrow> row_shape r \<Longrightarrow> row_extends r s"
  unfolding row_kept_def using row_move_extends row_extends_refl by blast

lemma record_extends_trans:
  assumes "record_extends t u" "record_extends u v"
  shows "record_extends t v"
  unfolding record_extends_def
proof (intro conjI)
  show "\<forall>j\<in>set (lt_jobs t). \<exists>k\<in>set (lt_jobs v). job_extends j k"
    using assms job_extends_trans unfolding record_extends_def by meson
  show "\<forall>r\<in>set (lt_outbox t). \<exists>s\<in>set (lt_outbox v). row_extends r s"
    using assms row_extends_trans unfolding record_extends_def by meson
  show "\<forall>r\<in>set (lt_reviews t). vr_consumedBy r \<noteq> None \<longrightarrow> r \<in> set (lt_reviews v)"
    using assms unfolding record_extends_def by meson
qed

lemma job_kept_extends:
  assumes "job_kept t j k" "job_shape t j"
  shows "job_extends j k"
  using assms job_move_terminal unfolding job_kept_def job_extends_def by blast

lemma lane_step_extends:
  assumes "lane_inv t" "lane_step t t'"
  shows "record_extends t t'"
  unfolding record_extends_def
proof (intro conjI)
  show "\<forall>j\<in>set (lt_jobs t). \<exists>k\<in>set (lt_jobs t'). job_extends j k"
    using step_jobs(1) [OF assms(2)] job_kept_extends lane_invD(3) [OF assms(1)] by meson
  show "\<forall>r\<in>set (lt_outbox t). \<exists>s\<in>set (lt_outbox t'). row_extends r s"
    using step_rows(1) [OF assms(2)] row_kept_extends lane_invD(2) [OF assms(1)] by meson
  show "\<forall>r\<in>set (lt_reviews t). vr_consumedBy r \<noteq> None \<longrightarrow> r \<in> set (lt_reviews t')"
    using step_reviews [OF assms(2)] by blast
qed

interpretation lane: recording_machine empty_tables lane_step lane_inv record_extends
proof
  show "lane_inv s" if "empty_tables s" for s using that by (rule empty_lane_inv)
  show "lane_inv s'" if "lane_inv s" "lane_step s s'" for s s' using that by (rule lane_step_inv)
  show "record_extends s s" for s by (rule record_extends_refl)
  show "record_extends s s''" if "record_extends s s'" "record_extends s' s''" for s s' s''
    using that by (rule record_extends_trans)
  show "record_extends s s'" if "lane_inv s" "lane_step s s'" for s s' using that by (rule lane_step_extends)
qed

text \<open>The transactions of the wallet are a machine that refines it.\<close>

interpretation wallet: recording_machine empty_tables "wallet_step q a" lane_inv record_extends for q a
proof
  show "lane_inv s" if "empty_tables s" for s using that by (rule empty_lane_inv)
  show "lane_inv s'" if "lane_inv s" "wallet_step q a s s'" for s s'
    using wallet_step_refines [OF that(2,1)] that(1) by (rule lane.run_inv)
  show "record_extends s s" for s by (rule lane.extends_refl)
  show "record_extends s s''" if "record_extends s s'" "record_extends s' s''" for s s' s''
    using that by (rule record_extends_trans)
  show "record_extends s s'" if "lane_inv s" "wallet_step q a s s'" for s s'
    using wallet_step_refines [OF that(2,1)] that(1) by (rule lane.run_extends)
qed

end
