(* ===== verification/Wallet_Solvency.thy ===== *)
theory Wallet_Solvency
  imports Wallet_Safety
begin

section \<open>No wallet promises more than it holds\<close>

text \<open>
  While a shared wallet is available, the tokens and the native balance promised to its campaigns are
  covered by its last snapshot, whatever transactions have run.
\<close>

subsection \<open>Solvency and what it depends on\<close>

definition solvent :: "live_tables \<Rightarrow> bool" where
  "solvent t \<longleftrightarrow> (\<forall>w. lt_wallet t = Some w \<and> vw_status w = Wallet_available \<longrightarrow>
     \<not> oversubscribed t (lt_tokens t) (or_zero (vw_native w)))"

definition promise :: "live_allocation \<Rightarrow> string \<times> int" where
  "promise a = (vl_id a, vl_nativeSpend a + vl_pendingNative a + vl_exitReserve a)"

definition promises :: "live_tables \<Rightarrow> (string \<times> int) list" where
  "promises t = map promise (live_allocations t)"

lemma native_obligation_promises: "native_obligation t = sum_list (map snd (promises t))"
  by (simp add: native_obligation_def promises_def promise_def comp_def)

lemma live_allocation_ids_promises: "live_allocation_ids t = map fst (promises t)"
  by (simp add: live_allocation_ids_def promises_def promise_def comp_def)

lemma obligations_cong:
  assumes "promises t' = promises t" "lt_allocationTokens t' = lt_allocationTokens t"
  shows "native_obligation t' = native_obligation t" "live_allocation_tokens t' = live_allocation_tokens t"
  using assms by (simp_all add: native_obligation_promises live_allocation_tokens_def live_allocation_ids_promises)

lemma oversubscribed_cong:
  assumes "promises t' = promises t" "lt_allocationTokens t' = lt_allocationTokens t"
  shows "oversubscribed t' rows n = oversubscribed t rows n"
  using obligations_cong [OF assms] by (simp add: oversubscribed_def token_obligation_def allocated_addresses_def)

lemma solvent_cong:
  assumes "promises t' = promises t" "lt_allocationTokens t' = lt_allocationTokens t" "lt_wallet t' = lt_wallet t" "lt_tokens t' = lt_tokens t"
  shows "solvent t' = solvent t"
  by (simp add: solvent_def assms(3,4) oversubscribed_cong [OF assms(1,2)])

text \<open>What the queue's changes of jobs, rows and reviews leave alone.\<close>

definition same_holdings :: "live_tables \<Rightarrow> live_tables \<Rightarrow> bool" where
  "same_holdings t t' \<longleftrightarrow> lt_address t' = lt_address t \<and> lt_wallet t' = lt_wallet t \<and> lt_tokens t' = lt_tokens t \<and> lt_allocations t' = lt_allocations t \<and>
     lt_allocationTokens t' = lt_allocationTokens t"

lemma same_holdings_refl [simp]: "same_holdings t t"
  by (simp add: same_holdings_def)

lemma same_holdings_updates [simp]:
  "same_holdings s (set_job i f t) = same_holdings s t" "same_holdings s (set_stage i n g t) = same_holdings s t"
  "same_holdings s (rotate c i t) = same_holdings s t" "same_holdings s (park now j t) = same_holdings s t"
  "same_holdings s (t\<lparr>lt_outbox := os\<rparr>) = same_holdings s t" "same_holdings s (t\<lparr>lt_reviews := rs\<rparr>) = same_holdings s t"
  "same_holdings s (t\<lparr>lt_jobs := js, lt_sequence := n'\<rparr>) = same_holdings s t"
  by (simp_all add: same_holdings_def set_job_def set_stage_def rotate_def park_def Let_def split: prod.splits)

lemma same_holdings_solvent: "same_holdings t t' \<Longrightarrow> solvent t' = solvent t"
  by (intro solvent_cong) (simp_all add: same_holdings_def promises_def live_allocations_def)

subsection \<open>The transactions that keep the holdings\<close>

lemma take_job_holdings: "take_job now token ms fresh row t = Inr (c, t') \<Longrightarrow> same_holdings t t'"
  by (auto simp: take_job_def Let_def bind_ok_Inr_iff split: if_splits)

lemma same_holdings_trans: "same_holdings s t \<Longrightarrow> same_holdings t u \<Longrightarrow> same_holdings s u"
  by (simp add: same_holdings_def)

lemma claimNext_holdings:
  assumes "claimNext now token ms t = Inr (c, t')"
  shows "same_holdings t t'"
proof -
  from assms consider "t' = t" | row fresh where "take_job now token ms fresh row t = Inr (c, t')"
    | a row where "take_job now token ms True row (park now a t) = Inr (c, t')"
    by (auto simp: claimNext_def bind_ok_Inr_iff split: if_splits option.splits)
  then show ?thesis
  proof cases
    case 3
    then have "same_holdings (park now a t) t'" by (rule take_job_holdings)
    then show ?thesis using same_holdings_trans [of t "park now a t" t'] by simp
  qed (auto intro: take_job_holdings)
qed

lemma prepareStage_holdings:
  assumes "prepareStage q now i token x t = Inr (r, t')"
  shows "same_holdings t t'"
proof -
  from assms consider "t' = t" | j p au prior where "insert_stage q now i x j p au prior t = Inr (r, t')"
    unfolding prepareStage_def by (auto simp: bind_ok_Inr_iff split: option.splits)
  then show ?thesis by cases (auto simp: insert_stage_def Let_def bind_ok_Inr_iff)
qed

lemma recordSigned_holdings: "recordSigned q now i stage token raw t = Inr (r, t') \<Longrightarrow> same_holdings t t'"
  unfolding recordSigned_def by (auto simp: bind_ok_Inr_iff Let_def split: option.splits if_splits)

lemma finish_holdings: "finish q now i token t = Inr (pf, t') \<Longrightarrow> same_holdings t t'"
  by (elim finish_result) simp

lemma enqueue_holdings: "enqueue q now jid i t = Inr (r, t') \<Longrightarrow> same_holdings t t'"
  by (elim enqueue_result) simp_all

lemma recordReview_holdings: "recordReview h now i t = Inr (r, t') \<Longrightarrow> same_holdings t t'"
  by (auto simp: recordReview_def Let_def bind_ok_Inr_iff split: option.splits)

lemma renewLease_holdings: "renewLease now i token ms t = Inr (j, t') \<Longrightarrow> same_holdings t t'"
  by (auto simp: renewLease_def Let_def bind_ok_Inr_iff)

lemma transition_holdings: "transition now i token s u n t = Inr (j, t') \<Longrightarrow> same_holdings t t'"
  by (auto simp: transition_def Let_def bind_ok_Inr_iff)

lemma yield_holdings: "yieldAfterConfirmedReceipt now i stage token t = Inr t' \<Longrightarrow> same_holdings t t'"
  and cancelPrepared_holdings: "cancelPrepared now i stage token t = Inr t' \<Longrightarrow> same_holdings t t'"
  and cancelQueued_holdings: "cancelQueued now i t = Inr t' \<Longrightarrow> same_holdings t t'"
  by (auto simp: yieldAfterConfirmedReceipt_def cancelPrepared_def cancelQueued_def bind_ok_Inr_iff)

subsection \<open>Snapshots and receipts\<close>

lemma snapshot_solvent:
  assumes "applyWalletSnapshotInTransaction h now i t = Inr (w, t')"
  shows "solvent t'"
  using assms
proof (cases rule: snapshot_result)
  case (1 rows changed)
  then have "\<not> oversubscribed t rows (wc_native (sx_content i))" if "vw_status w = Wallet_available"
    using that by (auto simp: snapshot_status_def Let_def split: if_splits)
  moreover have "oversubscribed t' rows n = oversubscribed t rows n" for n
    by (rule oversubscribed_cong) (simp_all add: 1(4) promises_def live_allocations_def)
  ultimately show ?thesis using 1(7) by (simp add: solvent_def 1(4) or_zero_def)
qed

lemma promises_map:
  assumes "\<And>a. vl_state (f a) = Live_released \<longleftrightarrow> vl_state a = Live_released" "\<And>a. promise (f a) = promise a"
    and "lt_allocations t' = map f (lt_allocations t)"
  shows "promises t' = promises t"
proof -
  have "map promise (filter (\<lambda>a. vl_state a \<noteq> Live_released) (map f as)) = map promise (filter (\<lambda>a. vl_state a \<noteq> Live_released) as)" for as
    by (induction as) (simp_all add: assms(1,2))
  then show ?thesis by (simp add: promises_def live_allocations_def assms(3))
qed

lemma rehash_solvent: "solvent (rehash_allocation q i g v t) = solvent t"
proof (intro solvent_cong)
  show "promises (rehash_allocation q i g v t) = promises t"
    by (rule promises_map [OF _ _ arg_cong [where f = lt_allocations, OF rehash_allocation_def, simplified]]) (simp_all add: promise_def)
qed (simp_all add: rehash_allocation_def)

lemma reconcileStage_solvent:
  assumes "reconcileStage q now i stage token t = Inr (r', t')" "solvent t"
  shows "solvent t'"
  using assms(1)
proof (cases rule: reconcileStage_result)
  case (attributed j r w v)
  from attributed(9) show ?thesis
  proof (rule attribute_receipt_result)
    fix t1 t2 t3 w'
    assume "applyWalletSnapshotInTransaction (qw_hashes q) now (receipt_snapshot q t2 (jb_id j) (ob_stage r) w v) t2 = Inr (w', t3)"
    then have s: "solvent t3" by (rule snapshot_solvent)
    define t4 where "t4 = rehash_allocation q (jb_allocationId j) (vw_generation w') v t3"
    assume t': "t' = set_job (jb_id j) (\<lambda>j. touch now (j\<lparr>jb_status := receipt_job_status v\<rparr>))
      (set_stage (jb_id j) (ob_stage r) (attribute_row v) (rehash_allocation q (jb_allocationId j) (vw_generation w') v t3))"
    have "same_holdings t4 t'" by (simp add: t' t4_def)
    moreover have "solvent t4" unfolding t4_def rehash_solvent by (rule s)
    ultimately show ?thesis using same_holdings_solvent by blast
  qed
qed (use assms(2) in simp)

subsection \<open>Reservation and release\<close>

lemma sum_list_filter_le:
  fixes f :: "'a \<Rightarrow> int"
  assumes "\<forall>x\<in>set xs. 0 \<le> f x" "\<And>x. P x \<Longrightarrow> Q x"
  shows "sum_list (map f (filter P xs)) \<le> sum_list (map f (filter Q xs))"
  using assms(1) by (induction xs) (auto simp: assms(2) intro: add_increasing)

lemma release_tokens:
  assumes "set (live_allocation_ids t') \<subseteq> set (live_allocation_ids t)" "lt_allocationTokens t' = lt_allocationTokens t"
    "allocation_tokens_ok (lt_allocationTokens t)"
  shows "token_obligation t' a \<le> token_obligation t a" "set (allocated_addresses t') \<subseteq> set (allocated_addresses t)"
proof -
  have obligation: "token_obligation u a = (\<Sum>x\<leftarrow>filter (\<lambda>x. at_token x = a \<and> at_allocationId x \<in> set (live_allocation_ids u))
    (lt_allocationTokens u). at_allocated x + at_pending x)" for u
    by (simp add: token_obligation_def live_allocation_tokens_def conj_commute)
  show "token_obligation t' a \<le> token_obligation t a" unfolding obligation assms(2)
    using assms(1,3) by (intro sum_list_filter_le) (auto simp: allocation_tokens_ok_def)
  show "set (allocated_addresses t') \<subseteq> set (allocated_addresses t)"
    using assms(1,2) by (auto simp: allocated_addresses_def live_allocation_tokens_def)
qed

lemma oversubscribed_less:
  assumes "\<not> oversubscribed t rows n" "native_obligation t' \<le> native_obligation t"
    "\<And>a. token_obligation t' a \<le> token_obligation t a" "set (allocated_addresses t') \<subseteq> set (allocated_addresses t)"
  shows "\<not> oversubscribed t' rows n"
  using assms(1,2,4) assms(3) unfolding oversubscribed_def by (meson le_less_trans not_le subsetD)

lemma release_live: "live_allocations (release_row i t) = filter (\<lambda>a. vl_id a \<noteq> i) (live_allocations t)"
proof -
  have "filter (\<lambda>a. vl_state a \<noteq> Live_released) (map (\<lambda>a. if vl_id a = i then a\<lparr>vl_state := Live_released\<rparr> else a) as) =
      filter (\<lambda>a. vl_id a \<noteq> i) (filter (\<lambda>a. vl_state a \<noteq> Live_released) as)" for as
    by (induction as) simp_all
  then show ?thesis by (simp add: live_allocations_def release_row_def)
qed

lemma release_solvent:
  assumes "releaseLiveWalletAllocation h i t = Inr t'" "solvent t" "tables_ok t"
  shows "solvent t'"
  using assms(1)
proof (cases rule: release_result)
  case (release a w source nonce pend native)
  have live: "live_allocations t' = filter (\<lambda>a. vl_id a \<noteq> i) (live_allocations t)"
    using release_live [of i t] by (simp add: release(6) live_allocations_def)
  have tokens: "lt_allocationTokens t' = lt_allocationTokens t" "lt_tokens t' = lt_tokens t"
    by (simp_all add: release(6) release_row_def)
  have amounts: "\<forall>a\<in>set (live_allocations t). 0 \<le> vl_nativeSpend a + vl_pendingNative a + vl_exitReserve a"
    using assms(3) by (simp add: tables_ok_def allocations_ok_def live_allocations_def)
  have "native_obligation t' \<le> native_obligation t" unfolding native_obligation_def live
    using sum_list_filter_le [OF amounts, of "\<lambda>a. vl_id a \<noteq> i" "\<lambda>_. True"] by simp
  moreover have "set (live_allocation_ids t') \<subseteq> set (live_allocation_ids t)" by (auto simp: live_allocation_ids_def live)
  ultimately have less: "\<not> oversubscribed t' rows n" if "\<not> oversubscribed t rows n" for rows n
    using that release_tokens [OF _ tokens(1)] assms(3) oversubscribed_less [OF that] by (simp add: tables_ok_def)
  have "lt_wallet t' = Some (next_generation h (release_row i t) w source nonce pend native)" by (simp add: release(6))
  moreover have "vw_status (next_generation h (release_row i t) w source nonce pend native) = vw_status w"
    "vw_native (next_generation h (release_row i t) w source nonce pend native) = vw_native w"
    by (simp_all add: next_generation_def Let_def)
  ultimately show ?thesis using assms(2) release(4) less tokens(2) by (simp add: solvent_def)
qed (use assms(2) in simp)

lemma new_token_sum:
  assumes "distinct (map fst tokens)"
  shows "(\<Sum>x\<leftarrow>filter (\<lambda>x. at_token x = a) (map (\<lambda>(a, n). \<lparr>at_allocationId = i, at_token = a, at_allocated = n, at_pending = 0\<rparr>) tokens).
    at_allocated x + at_pending x) = balance_in tokens a"
  using assms
proof (induction tokens)
  case (Cons x tokens)
  have none: "balance_in tokens a = 0" if "a \<notin> fst ` set tokens"
    using that by (simp add: balance_in_def map_of_eq_None_iff [THEN iffD2])
  from Cons show ?case using none by (cases x) (auto simp: balance_in_def image_iff)
qed (simp add: balance_in_def)

lemma reserve_capacity_Inr:
  assumes "reserve_capacity t w tokens native = Inr ()"
  shows "a \<in> set (allocated_addresses t) \<union> fst ` set tokens \<Longrightarrow>
      token_obligation t a + balance_in tokens a \<le> balance_in (lt_tokens t) a"
    and "native_obligation t + native \<le> or_zero (vw_native w)"
proof -
  have "\<not> token_obligation t a + balance_in tokens a > (case map_of (lt_tokens t) a of Some n \<Rightarrow> n | None \<Rightarrow> -1)"
    if "a \<in> set (allocated_addresses t) \<union> fst ` set tokens"
    using assms that unfolding reserve_capacity_def bind_ok_Inr_iff ensure_Inr_iff by blast
  then show "token_obligation t a + balance_in tokens a \<le> balance_in (lt_tokens t) a"
    if "a \<in> set (allocated_addresses t) \<union> fst ` set tokens"
    using that by (cases "map_of (lt_tokens t) a") (simp_all add: balance_in_def)
  show "native_obligation t + native \<le> or_zero (vw_native w)"
    using assms unfolding reserve_capacity_def bind_ok_Inr_iff ensure_Inr_iff by simp
qed

lemma filter_appended:
  assumes "\<And>x. x \<in> set xs \<Longrightarrow> P' x = P x" "\<And>y. y \<in> set ys \<Longrightarrow> P' y"
  shows "filter P' (xs @ ys) = filter P xs @ ys"
  using assms by (simp cong: filter_cong)

lemma reserve_solvent:
  assumes capacity: "reserve_capacity t w tokens (ri_nativeSpend i + ri_exitReserve i) = Inr ()"
    and t': "t' = reserve_rows h now ids i tokens w source r nfts t" and ok: "tables_ok t" "tables_ok t'"
    and tokens: "distinct (map fst tokens)"
  shows "solvent t'"
proof -
  define new where "new = map (\<lambda>(a, n). \<lparr>at_allocationId = fr_allocation ids, at_token = a, at_allocated = n, at_pending = 0\<rparr>) tokens"
  define a0 where "a0 = reserved_allocation h ids i w r tokens"
  have allocations: "lt_allocations t' = lt_allocations t @ [a0]" "lt_allocationTokens t' = lt_allocationTokens t @ new"
    by (simp_all add: t' a0_def new_def)
  have a0: "vl_state a0 = Live_reserved" "vl_id a0 = fr_allocation ids"
    "vl_nativeSpend a0 + vl_pendingNative a0 + vl_exitReserve a0 = ri_nativeSpend i + ri_exitReserve i"
    by (simp_all add: a0_def reserved_allocation_def)
  have live: "live_allocations t' = live_allocations t @ [a0]" by (simp add: live_allocations_def allocations(1) a0(1))
  have "fr_allocation ids \<notin> vl_id ` set (lt_allocations t)"
    using ok(2) by (auto simp: tables_ok_def allocations_ok_def allocations(1) a0(2))
  then have fresh: "at_allocationId x \<noteq> fr_allocation ids" if "x \<in> set (lt_allocationTokens t)" for x
    using ok(1) that unfolding tables_ok_def tokens_of_allocations_def by (metis imageI subsetD)
  have live_tokens: "live_allocation_tokens t' = live_allocation_tokens t @ new"
    unfolding live_allocation_tokens_def allocations(2)
    by (rule filter_appended) (use fresh in \<open>auto simp: live_allocation_ids_def live a0(2) new_def\<close>)
  have obligation: "token_obligation t' a = token_obligation t a + balance_in tokens a" for a
    using new_token_sum [OF tokens, of a "fr_allocation ids"] by (simp add: token_obligation_def live_tokens new_def)
  have native: "native_obligation t' = native_obligation t + (ri_nativeSpend i + ri_exitReserve i)"
    using a0(3) by (simp add: native_obligation_def live)
  have addresses: "set (allocated_addresses t') = set (allocated_addresses t) \<union> fst ` set tokens"
    by (simp add: allocated_addresses_def live_tokens new_def image_Un image_image case_prod_unfold)
  have "\<not> oversubscribed t' (lt_tokens t') (or_zero (vw_native w))"
  proof -
    have "lt_tokens t' = lt_tokens t" by (simp add: t')
    then show ?thesis using reserve_capacity_Inr [OF capacity]
      by (auto simp: oversubscribed_def obligation native addresses not_less)
  qed
  then show ?thesis using reserve_rows_wallet [of h now ids i tokens w source r nfts t] by (auto simp: solvent_def t')
qed

lemma lower_rows_distinct: "reserve_amount_checks h i = Inr tokens \<Longrightarrow> distinct (map fst tokens)"
  by (auto simp: reserve_amount_checks_def bind_ok_Inr_iff)

lemma consume_solvent:
  assumes "consumeReviewAndReserve h is_address now ids dependencies i t = Inr (res, t')" "solvent t" "tables_ok t"
  shows "solvent t'"
  using assms(1)
proof (cases rule: consume_result)
  case (reserved tokens w source r p nfts)
  from reserve_solvent [OF reserved(4,9) assms(3) reserved(8) lower_rows_distinct [OF reserved(2)]] show ?thesis .
qed (use assms(2) in simp)

subsection \<open>The machine keeps it\<close>

text \<open>The transactions that change what the wallet holds or promises; all others keep it.\<close>

fun settles :: "wallet_call \<Rightarrow> bool" where
  "settles (Snapshot_call i) = True"
| "settles (Reserve_call ids d i) = True"
| "settles (Release_call i) = True"
| "settles (Reconcile_call i stage token) = True"
| "settles c = False"

lemma run_call_holdings: "run_call q a now c t = Inr t' \<Longrightarrow> \<not> settles c \<Longrightarrow> same_holdings t t'"
  by (cases c) (auto simp: bind_ok_Inr_iff intro: recordReview_holdings renewLease_holdings yield_holdings enqueue_holdings
    claimNext_holdings transition_holdings prepareStage_holdings recordSigned_holdings cancelPrepared_holdings cancelQueued_holdings
    finish_holdings)

lemma run_call_solvent:
  assumes "run_call q a now c t = Inr t'" "solvent t" "tables_ok t"
  shows "solvent t'"
proof (cases "settles c")
  case True
  with assms show ?thesis
    by (cases c) (auto simp: bind_ok_Inr_iff intro: snapshot_solvent consume_solvent release_solvent reconcileStage_solvent)
next
  case False
  then show ?thesis using assms run_call_holdings same_holdings_solvent by blast
qed

text \<open>The wallet's address never changes.\<close>

lemma snapshot_address: "applyWalletSnapshotInTransaction h now i t = Inr (w, t') \<Longrightarrow> lt_address t' = lt_address t"
  by (erule snapshot_result) simp

lemma reconcileStage_address: "reconcileStage q now i stage token t = Inr (r', t') \<Longrightarrow> lt_address t' = lt_address t"
proof (erule reconcileStage_result)
  fix j r w v
  assume "attribute_receipt q now j r w v t = Inr (r', t')"
  then show "lt_address t' = lt_address t"
  proof (rule attribute_receipt_result)
    fix t1 t2 t3 w'
    assume "settle_allocation (jb_allocationId j) v t = Inr t1" "settle_custody j v t1 = Inr t2"
      "applyWalletSnapshotInTransaction (qw_hashes q) now (receipt_snapshot q t2 (jb_id j) (ob_stage r) w v) t2 = Inr (w', t3)"
    then have "lt_address t3 = lt_address t"
      using settle_allocation_keeps(6) settle_custody_keeps(6) snapshot_address by metis
    moreover assume "t' = set_job (jb_id j) (\<lambda>j. touch now (j\<lparr>jb_status := receipt_job_status v\<rparr>))
      (set_stage (jb_id j) (ob_stage r) (attribute_row v) (rehash_allocation q (jb_allocationId j) (vw_generation w') v t3))"
    ultimately show ?thesis by (simp add: set_job_def set_stage_def rehash_allocation_def)
  qed
qed simp

lemma run_call_address: "run_call q a now c t = Inr t' \<Longrightarrow> lt_address t' = lt_address t"
proof (cases "settles c")
  case True
  moreover assume "run_call q a now c t = Inr t'"
  ultimately show ?thesis
    by (cases c) (auto simp: bind_ok_Inr_iff release_row_def reserve_rows_def Let_def
      dest: snapshot_address reconcileStage_address elim!: consume_result release_result)
qed (use run_call_holdings in \<open>simp add: same_holdings_def\<close>)

lemma wallet_steps_address: "(wallet_step q a)\<^sup>*\<^sup>* t t' \<Longrightarrow> lt_address t' = lt_address t"
  by (induction rule: rtranclp_induct) (auto elim!: wallet_step.cases dest: run_call_address)

lemma wallet_step_solvent:
  assumes "wallet_step q a t t'" "solvent t" "tables_ok t"
  shows "solvent t'"
  using assms(1)
proof cases
  case (call now c)
  then show ?thesis using assms(2,3) run_call_solvent by blast
next
  case (elsewhere ids)
  have "promises t' = promises t"
    by (rule promises_map [of "activate ids"]) (auto simp: activate_def promise_def elsewhere(1))
  then have "solvent t' = solvent t" by (rule solvent_cong) (simp_all add: elsewhere(1))
  with assms(2) show ?thesis by blast
qed

definition wallet_inv :: "live_tables \<Rightarrow> bool" where
  "wallet_inv t \<longleftrightarrow> lane_inv t \<and> solvent t"

interpretation funds: recording_machine empty_tables "wallet_step q a" wallet_inv record_extends for q a
proof
  show "wallet_inv s" if "empty_tables s" for s using that empty_lane_inv by (simp add: wallet_inv_def solvent_def empty_tables_def)
  show "wallet_inv s'" if "wallet_inv s" "wallet_step q a s s'" for s s'
    using that wallet.step_inv wallet_step_solvent lane_invD(1) unfolding wallet_inv_def by blast
  show "record_extends s s" for s by (rule lane.extends_refl)
  show "record_extends s s''" if "record_extends s s'" "record_extends s' s''" for s s' s''
    using that by (rule lane.extends_trans)
  show "record_extends s s'" if "wallet_inv s" "wallet_step q a s s'" for s s'
    using that wallet.step_extends unfolding wallet_inv_def by blast
qed

end
