(* ===== verification/Wallet_Run.thy ===== *)
theory Wallet_Run
  imports Wallet_Solvency
begin

section \<open>A campaign's first job, step by step\<close>

text \<open>
  A concrete run of the machine: a wallet is read, a setup is reviewed and reserved, the job is
  claimed, its mint is prepared, signed and attributed, and the job finishes.  It shows that the
  properties of the machine speak of states that it reaches.
\<close>

definition run_digest :: string where
  "run_digest = replicate 64 (CHR ''a'')"

definition run_hash :: "char \<Rightarrow> string" where
  "run_hash c = ''0x'' @ replicate 64 c"

definition run_address :: "char \<Rightarrow> string" where
  "run_address c = ''0x'' @ replicate 40 c"

definition run_source :: "int \<Rightarrow> keeper_source" where
  "run_source n = \<lparr>ks_block = n, ks_hash = run_hash (CHR ''b''), ks_timestamp = n\<rparr>"

definition run_hashes :: live_hashes where
  "run_hashes = \<lparr>lh_canon = Some, lh_le = (\<le>), lh_sha = (\<lambda>_. run_digest), lh_hash = (\<lambda>_. run_digest),
     lh_config = (\<lambda>_. run_hash (CHR ''a''))\<rparr>"

definition run_wallet_image :: "int \<Rightarrow> int \<Rightarrow> int \<Rightarrow> int \<Rightarrow> int \<Rightarrow> string list \<Rightarrow> wallet_image" where
  "run_wallet_image block nonce native n0 n1 nfts = \<lparr>im_operator = run_address (CHR ''a''), im_source = run_source block, im_nonce = nonce,
     im_pendingNonce = nonce, im_nativeWei = native, im_tokens = [(run_address (CHR ''1''), n0), (run_address (CHR ''2''), n1)],
     im_nftTokenIds = nfts\<rparr>"

definition run_allocation_image :: allocation_image where
  "run_allocation_image = \<lparr>ia_campaignId = ''c'', ia_liquid = [(run_address (CHR ''1''), 400), (run_address (CHR ''2''), 300)],
     ia_nativeSpendWei = 100, ia_exitReserveWei = 50, ia_nftTokenIds = []\<rparr>"

definition run_receipt :: VerifiedQueueReceipt where
  "run_receipt = \<lparr>vq_receipt = ''receipt'', vq_receiptHash = run_digest, vq_proofHash = run_digest, vq_effects = ''mint'', vq_gasWei = 20,
     vq_status = Verified_success, vq_source = run_source 101, vq_afterPool = None, vq_referenceValuation = None, vq_positionFee = None,
     vq_afterWallet = run_wallet_image 101 6 980 200 200 [''7''],
     vq_nextLiquid = [(run_address (CHR ''1''), 0), (run_address (CHR ''2''), 0)],
     vq_nextNativeSpendWei = 80, vq_nextExitReserveWei = 50, vq_nextNftTokenIds = [''7''], vq_retiredNftTokenIds = [],
     vq_positionManager = run_address (CHR ''3''),
     vq_position = Some \<lparr>np_tokenId = 7, np_owner = run_address (CHR ''a''), np_liquidity = 9, np_owed0 = 0, np_owed1 = 0\<rparr>\<rparr>"

definition run_cleanup :: cleanup_proof where
  "run_cleanup = \<lparr>pf_allowances = [\<lparr>sa_token = run_address (CHR ''1''), sa_spender = run_address (CHR ''3''), sa_amount = ''0''\<rparr>],
     pf_policy = None, pf_allocationHash = run_digest, pf_source = run_source 101, pf_noPendingAction = True, pf_custodyState = Managed\<rparr>"

definition run_world :: queue_world where
  "run_world = \<lparr>qw_hashes = run_hashes, qw_uuid = (\<lambda>_. True),
     qw_parse = (\<lambda>_. Inr \<lparr>tx_type = ''eip1559'', tx_chainId = 4663, tx_nonce = 5, tx_to = Some (run_address (CHR ''3'')), tx_data = None,
       tx_value = None, tx_gas = 21000, tx_maxFeePerGas = 2, tx_maxPriorityFeePerGas = Some 1, tx_accessList = 0\<rparr>),
     qw_recover = (\<lambda>_. Inr (run_address (CHR ''a''))), qw_keccak = (\<lambda>_. run_hash (CHR ''c'')),
     qw_authorize = (\<lambda>_ _ _ p plan. Inr \<lparr>au_intent = p, au_plan = plan, au_pool = Some ''pool'', au_authorization = None,
       au_walletGeneration = 2, au_wallet = Some (run_wallet_image 100 5 1000 600 500 []), au_allocation = Some run_allocation_image,
       au_snapshot = None\<rparr>),
     qw_persist = None, qw_reconcile = (\<lambda>_ _ _. Inr run_receipt), qw_afterReceipt = (\<lambda>_ _ _ _. Inr ()),
     qw_cleanup = (\<lambda>_ _. Inr run_cleanup)\<rparr>"

definition run_clocks :: live_clocks where
  "run_clocks = \<lparr>ck_app = 101000, ck_db = 101000\<rparr>"

definition run_config :: RangeKeeperConfig where
  "run_config = sample_stage_config\<lparr>kc_pool := sample_pool_profile\<lparr>kq_factory := run_address (CHR ''5''), kq_pool := run_address (CHR ''6''),
     kq_token0 := run_address (CHR ''1''), kq_token1 := run_address (CHR ''2''), kq_positionManager := run_address (CHR ''3''),
     kq_router := run_address (CHR ''4''), kq_quoter := run_address (CHR ''7''), kq_poolCodeHash := run_hash (CHR ''8''),
     kq_token0CodeHash := run_hash (CHR ''8''), kq_token1CodeHash := run_hash (CHR ''8''), kq_managerCodeHash := run_hash (CHR ''8''),
     kq_quoterCodeHash := run_hash (CHR ''8'')\<rparr>\<rparr>"

definition run_setup :: setup_payload where
  "run_setup = \<lparr>sp_bindingBuildId = run_digest, sp_bindingReviewHash = run_digest, sp_commitmentsHash = run_digest,
     sp_sourceHash = run_hash (CHR ''b''), sp_profileId = ''p'', sp_profileHash = run_digest, sp_config = Some run_config,
     sp_configHash = run_digest, sp_parameters = [], sp_parametersHash = run_digest, sp_token0Raw = 400, sp_token1Raw = 300,
     sp_nativeWei = 150, sp_baseline = ''hodl''\<rparr>"

definition run_snapshot :: snapshot_input where
  "run_snapshot = \<lparr>sx_content = \<lparr>wc_source = run_source 100, wc_nonce = 5, wc_pendingNonce = 5, wc_native = 1000,
      wc_tokens = [(run_address (CHR ''1''), 600), (run_address (CHR ''2''), 500)], wc_commitmentsHash = run_digest\<rparr>,
     sx_snapshotHash = None, sx_status = None, sx_reorgRecovery = False, sx_effectProof = None\<rparr>"

definition run_review :: review_input where
  "run_review = \<lparr>rx_reviewId = ''r'', rx_payload = Setup_payload run_setup, rx_payloadHash = run_digest, rx_buildId = run_digest,
     rx_source = run_source 100, rx_expiresAt = Some 200000, rx_walletGeneration = 1, rx_commitmentsHash = run_digest\<rparr>"

definition run_reserve :: reserve_input where
  "run_reserve = \<lparr>ri_requestId = ''request'', ri_requestDigest = run_digest, ri_reviewId = ''r'', ri_reviewHash = run_digest,
     ri_campaign = \<lparr>cc_wallet = run_address (CHR ''a''), cc_marketProfileId = ''p'', cc_mode = ''live'', cc_strategyId = ''rangekeeper_v1'',
       cc_strategyVersion = ''1.0.0'', cc_stateSchemaVersion = 1, cc_token0Raw = 400, cc_token1Raw = 300, cc_nativeWei = 150,
       cc_config = [(''strategyVersion'', VStr ''1.0.0''), (''strategyId'', VStr ''rangekeeper_v1''), (''stateSchemaVersion'', VNum 1)],
       cc_configHash = run_digest, cc_baseline = ''hodl''\<rparr>,
     ri_tokens = [(run_address (CHR ''1''), 400), (run_address (CHR ''2''), 300)], ri_nativeSpend = 100, ri_exitReserve = 50,
     ri_nftTokenIds = [], ri_payload = Setup_payload run_setup, ri_buildId = None, ri_verifySource = (\<lambda>_. Inr ())\<rparr>"

definition run_proposal :: stage_proposal where
  "run_proposal = \<lparr>pr_stage = ''mint'', pr_intent = \<lparr>pt_id = ''i'', pt_chainId = 4663, pt_operator = run_address (CHR ''a''),
       pt_action = ''mint'', pt_nonce = 5, pt_to = run_address (CHR ''3''), pt_data = ''0x'', pt_value = 0, pt_gas = 21000,
       pt_maxFeePerGas = 2, pt_maxPriorityFeePerGas = 1, pt_sourceBlock = 100, pt_sourceHash = run_hash (CHR ''b'')\<rparr>,
     pr_plan = Plan_approve Token0 Position_manager 400\<rparr>"

definition run_start :: live_tables where
  "run_start = \<lparr>lt_address = run_address (CHR ''a''), lt_wallet = None, lt_tokens = [], lt_allocations = [], lt_allocationTokens = [],
     lt_custody = [], lt_reviews = [], lt_jobs = [], lt_outbox = [], lt_sequence = 1, lt_deployments = [], lt_runtime = [],
     lt_profiles = [\<lparr>mk_id = ''p'', mk_chainId = 4663, mk_token0 = run_address (CHR ''1''), mk_token1 = run_address (CHR ''2''),
       mk_profileHash = run_digest\<rparr>]\<rparr>"

subsection \<open>Texts\<close>

lemma run_digest_text [simp]: "digest_text run_digest"
  by (simp add: digest_text_def run_digest_def is_digit_def list_all_iff)

lemma run_hash_text [simp]: "is_hex c \<Longrightarrow> hash_text (run_hash c)"
  by (simp add: hash_text_def run_hash_def list_all_iff)

lemma run_address_text [simp]: "is_hex c \<Longrightarrow> address_text (run_address c)"
  by (simp add: address_text_def run_address_def list_all_iff)

lemma run_hex [simp]: "is_hex (CHR ''a'')" "is_hex (CHR ''b'')" "is_hex (CHR ''1'')" "is_hex (CHR ''2'')" "is_hex (CHR ''3'')" "is_hex (CHR ''8'')"
  by (simp_all add: is_hex_def is_digit_def)

lemma run_lower [simp]: "lower (run_address (CHR ''a'')) = run_address (CHR ''a'')" "lower (run_address (CHR ''1'')) = run_address (CHR ''1'')"
  "lower (run_address (CHR ''2'')) = run_address (CHR ''2'')" "lower (run_address (CHR ''3'')) = run_address (CHR ''3'')"
  by (simp_all add: run_address_def lower_def lower_char_def)

lemma run_address_eq [simp]: "run_address c = run_address d \<longleftrightarrow> c = d"
  by (simp add: run_address_def)

lemma run_address_nonzero [simp]: "zeroAddress = run_address c \<longleftrightarrow> c = CHR ''0''"
  by (auto simp: run_address_def zeroAddress_def)

lemma run_address_le [simp]: "run_address (CHR ''1'') \<le> run_address (CHR ''2'')" "\<not> run_address (CHR ''2'') \<le> run_address (CHR ''1'')"
  by (simp_all add: run_address_def numeral_eq_Suc)

lemma same_refl [simp]: "same x x"
  by (simp add: same_def)

lemma run_hashes_simps [simp]: "fingerprint run_hashes t = run_digest" "snapshotHashFor run_hashes w c = run_digest"
  "lh_hash run_hashes x = run_digest" "lh_canon run_hashes = Some" "lh_config run_hashes k = run_hash (CHR ''a'')"
  by (simp_all add: fingerprint_def liveWalletCommitmentFingerprint_def allocateLiveWalletBalances_def snapshotHashFor_def run_hashes_def Let_def
    split: prod.splits)

lemma run_lower_rows [simp]: "lower_rows run_hashes [(run_address (CHR ''1''), n), (run_address (CHR ''2''), m)] =
  Inr [(run_address (CHR ''1''), n), (run_address (CHR ''2''), m)]"
  by (simp add: lower_rows_def lowerAddress_def sort_by_def run_hashes_def)

lemma run_world_simps [simp]: "qw_hashes run_world = run_hashes" "qw_uuid run_world i" "qw_keccak run_world raw = run_hash (CHR ''c'')"
  "qw_recover run_world raw = Inr (run_address (CHR ''a''))" "qw_persist run_world = None" "qw_reconcile run_world t j r = Inr run_receipt"
  "qw_afterReceipt run_world t j r v = Inr ()" "qw_cleanup run_world t j = Inr run_cleanup"
  by (simp_all add: run_world_def)

subsection \<open>The wallet is read, a setup is reviewed\<close>

definition run_wallet :: "int \<Rightarrow> live_wallet" where
  "run_wallet g = \<lparr>vw_generation = g, vw_status = Wallet_available, vw_source = Some (run_source 100), vw_nonce = Some 5,
     vw_pendingNonce = Some 5, vw_native = Some 1000, vw_snapshotHash = Some run_digest, vw_commitmentsHash = Some run_digest\<rparr>"

lemma run_wallet_generation [simp]: "vw_generation (run_wallet g) = g"
  by (simp add: run_wallet_def)

definition run_read :: live_tables where
  "run_read = run_start\<lparr>lt_wallet := Some (run_wallet 1), lt_tokens := [(run_address (CHR ''1''), 600), (run_address (CHR ''2''), 500)]\<rparr>"

lemmas tables_ok_defs = tables_ok_def jobs_ok_def outbox_ok_def allocations_ok_def allocation_tokens_ok_def tokens_of_allocations_def
  custody_ok_def

lemma run_read_step: "run_call run_world (\<lambda>_. True) run_clocks (Snapshot_call run_snapshot) run_start = Inr run_read"
  by (simp add: applyWalletSnapshotInTransaction_def run_snapshot_def run_start_def run_source_def unresolved_stage_def uint_check_def
    snapshot_follows_def snapshot_status_def run_clocks_def oversubscribed_def allocated_addresses_def live_allocation_tokens_def
    native_obligation_def live_allocations_def write_tables_def tables_ok_defs run_read_def run_wallet_def safe_integer_def Let_def)

definition run_frozen :: live_review where
  "run_frozen = \<lparr>vr_id = ''r'', vr_payload = Setup_payload run_setup, vr_payloadHash = run_digest, vr_buildId = run_digest,
     vr_source = run_source 100, vr_generation = 1, vr_commitmentsHash = run_digest, vr_expiresAt = 200000, vr_consumedBy = None\<rparr>"

definition run_reviewed :: live_tables where
  "run_reviewed = run_read\<lparr>lt_reviews := [run_frozen]\<rparr>"

lemma run_review_step: "run_call run_world (\<lambda>_. True) run_clocks (Review_call run_review) run_read = Inr run_reviewed"
  by (simp add: recordReview_def run_review_def run_read_def run_start_def unresolved_stage_def wallet_matches_review_def
    liveWalletSourceNotBefore_def run_wallet_def run_source_def run_clocks_def write_tables_def tables_ok_defs run_reviewed_def run_frozen_def Let_def)

subsection \<open>Its capital is reserved and the job claimed\<close>

definition run_ids :: fresh_ids where
  "run_ids = \<lparr>fr_campaign = ''c'', fr_allocation = ''a'', fr_job = ''j''\<rparr>"

definition run_tokens :: "int \<Rightarrow> int \<Rightarrow> (string \<times> int) list" where
  "run_tokens n m = [(run_address (CHR ''1''), n), (run_address (CHR ''2''), m)]"

definition run_reserved :: live_tables where
  "run_reserved = reserve_rows run_hashes run_clocks run_ids run_reserve (run_tokens 400 300) (run_wallet 1) (run_source 100) run_frozen []
     run_reviewed"

lemma run_config_parses: "parseRangeKeeperConfig (\<lambda>_. True) False run_config = Inr run_config"
proof -
  have "config_fields_parse (\<lambda>_. True) run_config"
    by (simp add: config_fields_parse_def run_config_def sample_stage_config_def sample_pool_profile_def optional_def profile_parses_def
      limits_parse_def sample_limits_def wallet_code_parses_def reference_policy_parses_def positive_int_def nonnegative_int_def
      safe_integer_def ppm_def)
  moreover have "config_issues run_config = []"
    by (simp add: config_issues_def run_config_def sample_stage_config_def sample_pool_profile_def sample_limits_def issue_def Let_def)
  ultimately show ?thesis
    by (simp add: parseRangeKeeperConfig_def config_parses_def) (simp add: run_config_def sample_stage_config_def)
qed

lemma run_reserved_ok: "tables_ok run_reserved"
  by (simp add: run_reserved_def reserve_rows_def reserved_allocation_def reserved_job_def run_ids_def run_tokens_def run_reviewed_def
      run_read_def run_start_def tables_ok_defs consume_review_def run_frozen_def run_reserve_def run_wallet_def Let_def)

lemma run_reserve_step: "run_call run_world (\<lambda>_. True) run_clocks (Reserve_call run_ids None run_reserve) run_reviewed = Inr run_reserved"
proof -
  have frozen: "review_mismatches run_hashes (\<lambda>_. True) run_reserve run_frozen
      \<lparr>mk_id = ''p'', mk_chainId = 4663, mk_token0 = run_address (CHR ''1''), mk_token1 = run_address (CHR ''2''), mk_profileHash = run_digest\<rparr> = []"
    by (simp add: review_mismatches_def run_reserve_def run_frozen_def run_setup_def run_config_parses run_source_def issue_def
      revision_config_def stable_same_def sort_by_def text_le_def Let_def) (simp add: run_digest_def run_hash_def)
  note ok = run_reserved_ok
  have amounts: "reserve_amount_checks run_hashes run_reserve = Inr (run_tokens 400 300)"
    by (simp add: reserve_amount_checks_def run_reserve_def uint_check_def run_tokens_def)
  have review: "reserve_review_checks run_clocks run_reserve run_reviewed = Inr (run_wallet 1, run_source 100, run_frozen)"
    by (simp add: reserve_review_checks_def run_reserve_def run_reviewed_def run_read_def run_frozen_def readReview_def run_wallet_def
      wallet_matches_review_def liveWalletSourceNotBefore_def run_source_def run_clocks_def)
  have capacity: "reserve_capacity run_reviewed (run_wallet 1) (run_tokens 400 300) (ri_nativeSpend run_reserve + ri_exitReserve run_reserve) = Inr ()"
    by (simp add: reserve_capacity_def run_reviewed_def run_read_def run_start_def run_tokens_def run_wallet_def run_reserve_def or_zero_def
      allocated_addresses_def live_allocation_tokens_def token_obligation_def native_obligation_def live_allocations_def balance_in_def)
  have campaign: "reserve_campaign_checks run_reviewed run_reserve (run_tokens 400 300) = Inr
      \<lparr>mk_id = ''p'', mk_chainId = 4663, mk_token0 = run_address (CHR ''1''), mk_token1 = run_address (CHR ''2''), mk_profileHash = run_digest\<rparr>"
    by (simp add: reserve_campaign_checks_def run_reviewed_def run_read_def run_start_def run_reserve_def run_tokens_def lowerAddress_def
      uint_check_def balance_in_def Let_def)
  have rows: "find_request run_reviewed (ri_requestId run_reserve) = None" "reserved_nfts run_reviewed (ri_nftTokenIds run_reserve) = Inr []"
    "reserve_input_checks (lt_address run_reviewed) run_reserve = Inr ()"
    by (simp_all add: find_request_def reserved_nfts_def reserve_input_checks_def run_reviewed_def run_read_def run_start_def run_reserve_def
      lowerAddress_def)
  show ?thesis
    by (simp add: consumeReviewAndReserve_def amounts review capacity campaign rows frozen write_tables_def)
      (simp add: run_reserved_def [symmetric] ok)
qed

definition run_job :: "live_job_status \<Rightarrow> string option \<Rightarrow> live_job" where
  "run_job s stage = (reserved_job run_clocks run_hashes run_ids run_reserve run_frozen 1)\<lparr>jb_status := s,
     jb_lease := Some (''token'', 161000), jb_attempt := 1, jb_resumeStage := stage\<rparr>"

definition run_claimed :: live_tables where
  "run_claimed = run_reserved\<lparr>lt_jobs := [run_job Job_preflighting None]\<rparr>"

lemma run_reserved_simps [simp]: "lt_address run_reserved = run_address (CHR ''a'')" "lt_wallet run_reserved = Some (run_wallet 2)"
  "lt_tokens run_reserved = run_tokens 600 500" "lt_allocations run_reserved = [reserved_allocation run_hashes run_ids run_reserve (run_wallet 1) run_frozen (run_tokens 400 300)]"
  "lt_jobs run_reserved = [reserved_job run_clocks run_hashes run_ids run_reserve run_frozen 1]" "lt_outbox run_reserved = []"
  "lt_custody run_reserved = []" "lt_reviews run_reserved = [run_frozen\<lparr>vr_consumedBy := Some ''j''\<rparr>]" "lt_sequence run_reserved = 2"
  "lt_allocationTokens run_reserved = [\<lparr>at_allocationId = ''a'', at_token = run_address (CHR ''1''), at_allocated = 400, at_pending = 0\<rparr>,
    \<lparr>at_allocationId = ''a'', at_token = run_address (CHR ''2''), at_allocated = 300, at_pending = 0\<rparr>]"
  by (simp_all add: run_reserved_def reserve_rows_def run_reviewed_def run_read_def run_start_def run_wallet_def next_generation_def
    run_tokens_def run_ids_def run_reserve_def run_frozen_def consume_review_def Let_def)

lemma tables_ok_jobs: "tables_ok t \<Longrightarrow> jobs_ok js \<Longrightarrow> tables_ok (t\<lparr>lt_jobs := js\<rparr>)"
  and tables_ok_outbox: "tables_ok t \<Longrightarrow> outbox_ok os \<Longrightarrow> tables_ok (t\<lparr>lt_outbox := os\<rparr>)"
  by (simp_all add: tables_ok_def)

lemma run_jobs_ok: "active_status s \<Longrightarrow> jobs_ok [run_job s stage]"
  by (simp add: jobs_ok_def run_job_def reserved_job_def)

lemma run_claimed_ok: "tables_ok run_claimed"
  unfolding run_claimed_def by (intro tables_ok_jobs run_reserved_ok run_jobs_ok) (simp add: active_status_def)

lemma run_claim_step: "run_call run_world (\<lambda>_. True) run_clocks (Claim_call ''token'' 60000) run_reserved = Inr run_claimed"
proof -
  let ?j = "reserved_job run_clocks run_hashes run_ids run_reserve run_frozen 1"
  have pick: "active_job run_reserved = None" "wallet_available run_reserved" "queued_pick run_clocks None run_reserved = Some ?j"
    by (simp_all add: active_job_def active_jobs_def sort_by_def reserved_job_def active_status_def wallet_available_def run_wallet_def
      queued_pick_def)
  have job: "set_job (jb_id ?j) (\<lambda>j. touch run_clocks (j\<lparr>jb_status := claimed_status (jb_status ?j),
      jb_lease := Some (''token'', ck_db run_clocks + 60000), jb_attempt := jb_attempt j + 1\<rparr>)) run_reserved = run_claimed"
    by (simp add: set_job_def run_claimed_def run_job_def reserved_job_def touch_def claimed_status_def run_clocks_def)
  have rotated: "rotate (jb_campaignId ?j) (jb_id ?j) run_claimed = run_claimed"
    by (simp add: rotate_def run_claimed_def run_job_def reserved_job_def Let_def)
  show ?thesis
    by (simp add: claimNext_def lease_ms_def pick take_job_def Let_def job rotated run_claimed_ok write_tables_def)
qed

subsection \<open>Its mint is prepared, signed and attributed\<close>

definition run_row :: live_outbox where
  "run_row = prepared_row ''j'' ''mint'' (pr_intent run_proposal) (pr_plan run_proposal)
     \<lparr>bi_walletGeneration = 2, bi_wallet = run_wallet_image 100 5 1000 600 500 [], bi_allocation = run_allocation_image, bi_pool = ''pool'',
       bi_planHash = run_digest, bi_authorization = None\<rparr>"

definition run_prepared :: live_tables where
  "run_prepared = run_reserved\<lparr>lt_jobs := [run_job Job_executing (Some ''mint'')], lt_outbox := [run_row]\<rparr>"

lemma run_owned: "lt_jobs t = [run_job s stage] \<Longrightarrow> owned run_clocks t ''j'' ''token'' = Inr (run_job s stage)"
  by (simp add: owned_def find_job_def run_job_def reserved_job_def run_ids_def run_clocks_def)

lemma run_job_simps [simp]: "jb_status (run_job s stage) = s" "jb_id (run_job s stage) = ''j''" "jb_allocationId (run_job s stage) = ''a''"
  "jb_campaignId (run_job s stage) = ''c''" "jb_kind (run_job s stage) = Kind_open"
  by (simp_all add: run_job_def reserved_job_def run_ids_def)

lemma run_intent: "parse_pilot_intent run_world (pr_intent run_proposal) = Inr (pr_intent run_proposal)"
  by (simp add: parse_pilot_intent_def pilot_intent_parses_def run_proposal_def safe_integer_def bytes_text_def)

lemma run_touched: "set_job ''j'' (\<lambda>j. touch run_clocks (j\<lparr>jb_status := s', jb_resumeStage := stage'\<rparr>)) t = t\<lparr>lt_jobs := [run_job s' stage']\<rparr>"
  "set_job ''j'' (\<lambda>j. touch run_clocks (j\<lparr>jb_status := s'\<rparr>)) t = t\<lparr>lt_jobs := [run_job s' stage]\<rparr>"
  if "lt_jobs t = [run_job s stage]"
  using that by (simp_all add: set_job_def touch_def run_job_def reserved_job_def run_ids_def run_clocks_def)

lemma run_outbox_ok: "outbox_ok [run_row]"
  by (simp add: outbox_ok_def outbox_row_ok_def run_row_def prepared_row_def run_proposal_def row_holds_nonce_def)

lemma run_prepare_step: "run_call run_world (\<lambda>_. True) run_clocks (Prepare_call ''j'' ''token'' run_proposal) run_claimed = Inr run_prepared"
proof -
  define a where "a = reserved_allocation run_hashes run_ids run_reserve (run_wallet 1) run_frozen (run_tokens 400 300)"
  let ?j = "run_job Job_preflighting None" and ?p = "pr_intent run_proposal" and ?plan = "pr_plan run_proposal"
  define au where "au = \<lparr>au_intent = ?p, au_plan = ?plan, au_pool = Some ''pool'', au_authorization = None,
       au_walletGeneration = 2, au_wallet = Some (run_wallet_image 100 5 1000 600 500 []), au_allocation = Some run_allocation_image,
       au_snapshot = None\<rparr>"
  have key: "key_text 64 ''mint''" "pr_stage run_proposal = ''mint''"
    by (simp_all add: key_text_def run_proposal_def stage_char_def is_digit_def)
  have own: "owned run_clocks run_claimed ''j'' ''token'' = Inr ?j" by (rule run_owned) (simp add: run_claimed_def)
  have wallet: "prepare_wallet_checks ?p run_claimed = Inr (run_wallet 2)"
    by (simp add: prepare_wallet_checks_def run_proposal_def run_claimed_def run_wallet_def run_source_def)
  have allocation: "find_allocation run_claimed ''a'' = Some a" "vl_sourceGeneration a = 1" "vl_nativeSpend a = 100" "vl_exitReserve a = 50"
    by (simp_all add: find_allocation_def run_claimed_def a_def reserved_allocation_def run_ids_def run_wallet_def run_reserve_def)
  have authorized: "qw_authorize run_world run_claimed ?j ''mint'' ?p ?plan = Inr au" by (simp add: run_world_def au_def)
  have checks: "before_wallet_checks run_claimed (run_wallet 2) (run_wallet_image 100 5 1000 600 500 []) = Inr ()"
    "before_allocation_checks run_claimed ?j a run_allocation_image = Inr ()"
    by (simp_all add: before_wallet_checks_def before_allocation_checks_def run_wallet_image_def run_allocation_image_def run_claimed_def
      run_wallet_def run_tokens_def in_balances_def same_source_def sameLiveSource_def run_source_def allocation active_nfts_def
      allocation_balances_def)
  have prior: "authorized_before run_world run_claimed (run_wallet 2) ?j a ?p ?plan au = Inr (ob_before run_row)"
    using checks by (simp add: authorized_before_def au_def run_wallet_def frozen_before_def run_row_def prepared_row_def)
  have row: "prepared_row ''j'' ''mint'' ?p ?plan (ob_before run_row) = run_row" by (simp add: run_row_def prepared_row_def)
  have none: "find_stage run_claimed ''j'' ''mint'' = None" by (simp add: find_stage_def run_claimed_def)
  have run_claimed_outbox: "lt_outbox run_claimed = []" by (simp add: run_claimed_def)
  define t1 where "t1 = run_claimed\<lparr>lt_outbox := [run_row]\<rparr>"
  have t1: "tables_ok t1" unfolding t1_def by (intro tables_ok_outbox run_claimed_ok run_outbox_ok)
  have t2: "set_job ''j'' (\<lambda>j. touch run_clocks (j\<lparr>jb_status := Job_executing, jb_resumeStage := Some ''mint''\<rparr>)) t1 = run_prepared"
    by (subst run_touched) (simp_all add: t1_def run_claimed_def run_prepared_def)
  have ok: "tables_ok run_prepared" unfolding run_prepared_def
    by (intro tables_ok_outbox run_outbox_ok) (simp add: tables_ok_jobs run_reserved_ok run_jobs_ok active_status_def)
  have "insert_stage run_world run_clocks ''j'' run_proposal ?j ?p au (ob_before run_row) run_claimed = Inr (run_row, run_prepared)"
    by (simp add: insert_stage_def Let_def row key(2) au_def run_claimed_outbox t1_def [symmetric] t2 t1 ok write_tables_def)
  then show ?thesis
    by (simp add: prepareStage_def key run_intent own wallet allocation authorized prior none)
qed

definition run_signed_row :: live_outbox where
  "run_signed_row = run_row\<lparr>ob_signed := Some (''0xab'', run_hash (CHR ''c'')), ob_status := Ob_signed\<rparr>"

lemma run_raw [simp]: "lower ''0xAB'' = ''0xab''"
  by code_simp

definition run_signed :: live_tables where
  "run_signed = run_prepared\<lparr>lt_outbox := [run_signed_row]\<rparr>"

lemma run_signature: "verifyPilotSignature run_world (pr_intent run_proposal) ''0xAB'' = Inr (run_hash (CHR ''c''))"
  by (simp add: verifyPilotSignature_def run_intent)
    (simp add: run_world_def run_proposal_def assertion_def or_zero_def)

lemma run_prepared_owned: "owned run_clocks run_prepared ''j'' ''token'' = Inr (run_job Job_executing (Some ''mint''))"
  by (rule run_owned) (simp add: run_prepared_def)

lemma run_row_simps [simp]: "ob_jobId run_row = ''j''" "ob_stage run_row = ''mint''" "ob_intent run_row = pr_intent run_proposal"
  "ob_status run_row = Ob_prepared" "ob_signed run_row = None" "ob_receipt run_row = None" "ob_nonce run_row = 5"
  by (simp_all add: run_row_def prepared_row_def run_proposal_def)

lemma run_prepared_ok: "tables_ok run_prepared"
  unfolding run_prepared_def by (intro tables_ok_outbox run_outbox_ok) (simp add: tables_ok_jobs run_reserved_ok run_jobs_ok active_status_def)

lemma run_sign_step: "run_call run_world (\<lambda>_. True) run_clocks (Sign_call ''j'' ''mint'' ''token'' ''0xAB'') run_prepared = Inr run_signed"
proof -
  have row: "find_stage run_prepared ''j'' ''mint'' = Some run_row" by (simp add: find_stage_def run_prepared_def)
  have "outbox_ok [run_signed_row]"
    by (simp add: outbox_ok_def outbox_row_ok_def run_signed_row_def row_holds_nonce_def)
  then have ok: "tables_ok run_signed" unfolding run_signed_def by (intro tables_ok_outbox run_prepared_ok)
  have "set_stage ''j'' ''mint'' (\<lambda>r. r\<lparr>ob_signed := Some (lower ''0xAB'', run_hash (CHR ''c'')), ob_status := Ob_signed\<rparr>) run_prepared = run_signed"
    by (simp add: set_stage_def run_signed_def run_signed_row_def run_prepared_def)
  with ok show ?thesis
    using run_signature by (simp add: recordSigned_def run_prepared_owned row run_intent Let_def write_tables_def)
qed

text \<open>The rows the receipt writes.\<close>

definition run_settled_allocation :: "int \<Rightarrow> live_allocation" where
  "run_settled_allocation g = (reserved_allocation run_hashes run_ids run_reserve (run_wallet 1) run_frozen (run_tokens 400 300))\<lparr>
     vl_nativeSpend := 80, vl_pendingNative := 0, vl_exitReserve := 50, vl_sourceHash := run_hash (CHR ''b''), vl_sourceGeneration := g\<rparr>"

definition run_spent :: "allocation_token list" where
  "run_spent = [\<lparr>at_allocationId = ''a'', at_token = run_address (CHR ''1''), at_allocated = 0, at_pending = 0\<rparr>,
     \<lparr>at_allocationId = ''a'', at_token = run_address (CHR ''2''), at_allocated = 0, at_pending = 0\<rparr>]"

definition run_settled :: live_tables where
  "run_settled = run_signed\<lparr>lt_allocationTokens := run_spent, lt_allocations := [run_settled_allocation 1]\<rparr>"

definition run_nft :: live_custody where
  "run_nft = \<lparr>cu_manager = run_address (CHR ''3''), cu_tokenId = 7, cu_allocationId = Some ''a'', cu_campaignId = Some ''c'',
     cu_status = Custody_active, cu_liquidity = 9, cu_owed0 = 0, cu_owed1 = 0, cu_source = run_source 101\<rparr>"

definition run_minted :: live_tables where
  "run_minted = run_settled\<lparr>lt_custody := [run_nft]\<rparr>"

definition run_after_wallet :: live_wallet where
  "run_after_wallet = \<lparr>vw_generation = 3, vw_status = Wallet_available, vw_source = Some (run_source 101), vw_nonce = Some 6,
     vw_pendingNonce = Some 6, vw_native = Some 980, vw_snapshotHash = Some run_digest, vw_commitmentsHash = Some run_digest\<rparr>"

definition run_refreshed :: live_tables where
  "run_refreshed = run_minted\<lparr>lt_wallet := Some run_after_wallet, lt_tokens := run_tokens 200 200\<rparr>"

definition run_rehashed :: live_tables where
  "run_rehashed = run_refreshed\<lparr>lt_allocations := [run_settled_allocation 3]\<rparr>"

definition run_confirmed :: live_tables where
  "run_confirmed = run_rehashed\<lparr>lt_outbox := [attribute_row run_receipt run_signed_row]\<rparr>"

definition run_attributed :: live_tables where
  "run_attributed = run_confirmed\<lparr>lt_jobs := [run_job Job_reconciling (Some ''mint'')]\<rparr>"

lemma run_signed_simps [simp]: "lt_address run_signed = run_address (CHR ''a'')" "lt_wallet run_signed = Some (run_wallet 2)"
  "lt_tokens run_signed = run_tokens 600 500" "lt_custody run_signed = []" "lt_outbox run_signed = [run_signed_row]"
  "lt_jobs run_signed = [run_job Job_executing (Some ''mint'')]"
  "lt_allocations run_signed = lt_allocations run_reserved" "lt_allocationTokens run_signed = lt_allocationTokens run_reserved"
  by (simp_all add: run_signed_def run_prepared_def)

lemma run_signed_ok: "tables_ok run_signed"
  unfolding run_signed_def by (intro tables_ok_outbox run_prepared_ok)
    (simp add: outbox_ok_def outbox_row_ok_def run_signed_row_def row_holds_nonce_def)

lemma run_settled_ok: "tables_ok run_settled"
  using run_signed_ok by (simp add: run_settled_def tables_ok_def allocations_ok_def allocation_tokens_ok_def tokens_of_allocations_def
    run_spent_def run_settled_allocation_def reserved_allocation_def run_ids_def)

lemma run_settle_step: "settle_allocation ''a'' run_receipt run_signed = Inr run_settled"
proof -
  have next_t: "next_tokens run_receipt = run_tokens 0 0" by (simp add: next_tokens_def run_receipt_def run_tokens_def)
  have tokens: "fold_res (set_liquid ''a'') (lt_allocationTokens run_signed) (run_tokens 0 0) = Inr run_spent"
    by (simp add: run_tokens_def set_liquid_def run_spent_def)
  have rows: "map (\<lambda>a. if vl_id a = ''a'' then a\<lparr>vl_nativeSpend := vq_nextNativeSpendWei run_receipt, vl_pendingNative := 0,
      vl_exitReserve := vq_nextExitReserveWei run_receipt, vl_sourceHash := ks_hash (vq_source run_receipt)\<rparr> else a) (lt_allocations run_signed) =
    [run_settled_allocation 1]"
    by (simp add: run_receipt_def run_settled_allocation_def reserved_allocation_def run_ids_def run_source_def)
  show ?thesis unfolding settle_allocation_def next_t tokens rows bind_ok_simps
    using run_settled_ok
    by (simp add: run_tokens_def allocation_balances_def run_receipt_def assertion_def run_settled_def [symmetric] write_tables_def)
qed

lemma run_simple_updates [simp]: "lt_address (run_settled) = run_address (CHR ''a'')" "lt_custody run_settled = []"
  "lt_wallet run_minted = Some (run_wallet 2)" "lt_address run_minted = run_address (CHR ''a'')" "lt_tokens run_minted = run_tokens 600 500"
  "lt_allocationTokens run_minted = run_spent" "lt_allocations run_minted = [run_settled_allocation 1]"
  by (simp_all add: run_settled_def run_minted_def)

lemma run_minted_ok: "tables_ok run_minted"
  using run_settled_ok by (simp add: run_minted_def tables_ok_def custody_ok_def run_nft_def)

lemma run_seven [simp]: "show_int 7 = ''7''"
  by code_simp

lemma run_custody_step: "settle_custody (run_job s stage) run_receipt run_settled = Inr run_minted"
proof -
  have manager: "normalizeLiveCustodyPositionManager (vq_positionManager run_receipt) = Inr (run_address (CHR ''3''))"
    by (simp add: normalizeLiveCustodyPositionManager_def run_receipt_def)
  have row: "managed_row (run_job s stage) (run_address (CHR ''3'')) run_receipt
      \<lparr>np_tokenId = 7, np_owner = run_address (CHR ''a''), np_liquidity = 9, np_owed0 = 0, np_owed1 = 0\<rparr> = run_nft"
    by (simp add: managed_row_def run_nft_def run_receipt_def)
  have position: "vq_nextNftTokenIds run_receipt = [''7'']" "vq_retiredNftTokenIds run_receipt = []"
    "vq_position run_receipt = Some \<lparr>np_tokenId = 7, np_owner = run_address (CHR ''a''), np_liquidity = 9, np_owed0 = 0, np_owed1 = 0\<rparr>"
    by (simp_all add: run_receipt_def)
  show ?thesis
    using run_minted_ok by (simp add: settle_custody_def manager position row run_minted_def write_tables_def)
qed

lemma run_refreshed_ok: "tables_ok run_refreshed"
  using run_minted_ok by (simp add: run_refreshed_def tables_ok_def run_tokens_def)

lemma run_refresh_step: "applyWalletSnapshotInTransaction run_hashes run_clocks
    (receipt_snapshot run_world run_minted ''j'' ''mint'' (run_wallet 2) run_receipt) run_minted = Inr (run_after_wallet, run_refreshed)"
proof -
  let ?rows = "run_tokens 200 200"
  define i where "i = receipt_snapshot run_world run_minted ''j'' ''mint'' (run_wallet 2) run_receipt"
  have i: "wc_source (sx_content i) = run_source 101" "wc_nonce (sx_content i) = 6" "wc_pendingNonce (sx_content i) = 6"
    "wc_native (sx_content i) = 980" "wc_tokens (sx_content i) = ?rows" "wc_commitmentsHash (sx_content i) = run_digest"
    "sx_snapshotHash i = None" "sx_status i = Some Wallet_available"
    "sx_effectProof i = Some \<lparr>ep_priorSnapshotHash = run_digest, ep_operationId = run_digest, ep_evidenceHash = run_digest\<rparr>"
    by (simp_all add: i_def receipt_snapshot_def run_receipt_def run_wallet_image_def run_tokens_def run_wallet_def Let_def)
  have operation: "operation_id_text run_digest"
    by (simp add: operation_id_text_def run_digest_def list_all_iff)
  have addresses: "allocated_addresses run_minted = [run_address (CHR ''1''), run_address (CHR ''2'')]"
    by (simp add: allocated_addresses_def live_allocation_tokens_def live_allocation_ids_def live_allocations_def run_settled_allocation_def
      reserved_allocation_def run_ids_def run_spent_def)
  have follows: "snapshot_follows run_minted i ?rows (Some (run_wallet 2)) = Inr True"
    using operation by (simp add: snapshot_follows_def i addresses balance_changed_def run_wallet_def run_source_def run_tokens_def Let_def)
  have owed: "\<not> oversubscribed run_minted ?rows 980"
    by (simp add: oversubscribed_def addresses token_obligation_def native_obligation_def live_allocation_tokens_def live_allocation_ids_def
      live_allocations_def run_settled_allocation_def reserved_allocation_def run_ids_def run_spent_def balance_in_def run_tokens_def)
  have rows: "lower_rows run_hashes ?rows = Inr ?rows" by (simp add: run_tokens_def)
  have hash: "hash_text (ks_hash (run_source 101))" "ks_timestamp (run_source 101) = 101" "ks_block (run_source 101) = 101"
    by (simp_all add: run_source_def)
  have status: "snapshot_status run_clocks run_minted i ?rows = Wallet_available"
    using owed by (simp add: snapshot_status_def i hash run_clocks_def Let_def)
  have scope: "length ?rows = 2" "?rows \<noteq> []" "distinct (map fst ?rows)" "\<forall>r\<in>set ?rows. 0 \<le> snd r" by (simp_all add: run_tokens_def)
  show ?thesis unfolding i_def [symmetric]
    using run_refreshed_ok
    by (simp add: applyWalletSnapshotInTransaction_def i rows follows uint_check_def hash status scope safe_integer_def
      write_tables_def Let_def run_after_wallet_def [symmetric] run_refreshed_def [symmetric])
qed

lemma run_refreshed_simps [simp]: "lt_allocations run_refreshed = [run_settled_allocation 1]" "lt_jobs run_refreshed = [run_job Job_executing (Some ''mint'')]"
  "lt_outbox run_refreshed = [run_signed_row]" "lt_wallet run_refreshed = Some run_after_wallet"
  by (simp_all add: run_refreshed_def run_minted_def run_settled_def)

lemma run_rehash: "rehash_allocation run_world ''a'' 3 run_receipt run_refreshed = run_rehashed"
  by (simp add: rehash_allocation_def run_rehashed_def run_settled_allocation_def reserved_allocation_def run_ids_def)

lemma run_rehashed_ok: "tables_ok run_rehashed"
  using run_refreshed_ok by (simp add: run_rehashed_def tables_ok_def allocations_ok_def tokens_of_allocations_def run_settled_allocation_def
    reserved_allocation_def)

lemma run_confirmed_ok: "tables_ok run_confirmed"
  unfolding run_confirmed_def by (intro tables_ok_outbox run_rehashed_ok)
    (simp add: outbox_ok_def outbox_row_ok_def attribute_row_def run_signed_row_def row_holds_nonce_def run_receipt_def)

lemma run_attributed_ok: "tables_ok run_attributed"
  unfolding run_attributed_def by (intro tables_ok_jobs run_confirmed_ok run_jobs_ok) (simp add: active_status_def)

lemma run_signed_row_simps [simp]: "ob_jobId run_signed_row = ''j''" "ob_stage run_signed_row = ''mint''" "ob_nonce run_signed_row = 5"
  "ob_status run_signed_row = Ob_signed" "ob_signed run_signed_row = Some (''0xab'', run_hash (CHR ''c''))" "ob_receipt run_signed_row = None"
  "ob_before run_signed_row = ob_before run_row"
  by (simp_all add: run_signed_row_def)

lemma run_receipt_checks: "receipt_wallet_checks (run_address (CHR ''a'')) run_signed_row (run_wallet 2) run_receipt = Inr ()"
    "receipt_scope_checks run_signed run_signed_row run_receipt = Inr ()"
  by (simp_all add: receipt_wallet_checks_def receipt_scope_checks_def run_receipt_def run_wallet_image_def run_source_def assertion_def
    run_row_def prepared_row_def run_allocation_image_def run_tokens_def Let_def)

lemma run_attribute_step: "attribute_receipt run_world run_clocks (run_job Job_executing (Some ''mint'')) run_signed_row (run_wallet 2) run_receipt
    run_signed = Inr (attribute_row run_receipt run_signed_row, run_attributed)"
proof -
  have generation: "vw_generation run_after_wallet = 3" by (simp add: run_after_wallet_def)
  have row: "set_stage ''j'' ''mint'' (attribute_row run_receipt) run_rehashed = run_confirmed"
    by (simp add: set_stage_def run_confirmed_def run_rehashed_def)
  have jobs: "lt_jobs run_confirmed = [run_job Job_executing (Some ''mint'')]" by (simp add: run_confirmed_def run_rehashed_def)
  have job: "set_job ''j'' (\<lambda>j. touch run_clocks (j\<lparr>jb_status := Job_reconciling\<rparr>)) run_confirmed = run_attributed"
    by (subst run_touched(2) [OF jobs]) (simp add: run_attributed_def)
  have status: "receipt_job_status run_receipt = Job_reconciling" by (simp add: receipt_job_status_def run_receipt_def)
  show ?thesis
    by (simp add: attribute_receipt_def run_receipt_checks run_settle_step run_custody_step run_refresh_step generation run_rehash
      run_rehashed_ok row run_confirmed_ok status job run_attributed_ok write_tables_def Let_def)
qed

lemma run_reconcile_step: "run_call run_world (\<lambda>_. True) run_clocks (Reconcile_call ''j'' ''mint'' ''token'') run_signed = Inr run_attributed"
proof -
  have owned: "owned run_clocks run_signed ''j'' ''token'' = Inr (run_job Job_executing (Some ''mint''))" by (rule run_owned) simp
  have found: "find_stage run_signed ''j'' ''mint'' = Some run_signed_row" "\<exists>a. find_allocation run_signed ''a'' = Some a"
    by (simp_all add: find_stage_def find_allocation_def reserved_allocation_def run_ids_def)
  have available: "vw_status (run_wallet 2) = Wallet_available" by (simp add: run_wallet_def)
  show ?thesis
    by (simp add: reconcileStage_def owned found available assertion_def run_attribute_step)
qed

subsection \<open>The job finishes\<close>

definition run_final_row :: live_outbox where
  "run_final_row = (attribute_row run_receipt run_signed_row)\<lparr>ob_cleanup := Some run_cleanup\<rparr>"

definition run_cleaned :: live_tables where
  "run_cleaned = run_attributed\<lparr>lt_outbox := [run_final_row]\<rparr>"

definition run_finished :: live_tables where
  "run_finished = run_cleaned\<lparr>lt_jobs := [(run_job Job_succeeded (Some ''mint''))\<lparr>jb_lease := None\<rparr>]\<rparr>"

lemma run_attributed_simps [simp]: "lt_jobs run_attributed = [run_job Job_reconciling (Some ''mint'')]"
  "lt_outbox run_attributed = [attribute_row run_receipt run_signed_row]" "lt_allocations run_attributed = [run_settled_allocation 3]"
  "lt_wallet run_attributed = Some run_after_wallet"
  by (simp_all add: run_attributed_def run_confirmed_def run_rehashed_def)

lemma run_finish_step: "run_call run_world (\<lambda>_. True) run_clocks (Finish_call ''j'' ''token'') run_attributed = Inr run_finished"
proof -
  let ?row = "attribute_row run_receipt run_signed_row" and ?j = "run_job Job_reconciling (Some ''mint'')"
  have owned: "owned run_clocks run_attributed ''j'' ''token'' = Inr ?j" by (rule run_owned) simp
  have allocation: "find_allocation run_attributed ''a'' = Some (run_settled_allocation 3)" "vl_hash (run_settled_allocation 3) = run_digest"
    by (simp_all add: find_allocation_def run_settled_allocation_def reserved_allocation_def run_ids_def)
  have proof_ok: "cleanup_checks ?j (run_settled_allocation 3) (Some run_after_wallet) run_cleanup = Inr ()"
    by (simp add: cleanup_checks_def run_cleanup_def cleanup_allowances_def assertion_def allocation same_source_def run_after_wallet_def
      sameLiveSource_def close_kind_def uint_text_def parse_nat_def digits_only_def is_digit_def)
  have row: "ob_status ?row = Ob_confirmed" "ob_stage ?row = ''mint''" "ob_jobId ?row = ''j''"
    by (simp_all add: attribute_row_def run_receipt_def)
  have rows: "job_rows ''j'' run_attributed = [?row]" "pending_rows run_attributed = []" "good_row k ?row" "final_row k ?row" for k
    by (simp_all add: job_rows_def pending_rows_def pending_status_def row good_row_def final_row_def)
  have cleaned: "set_stage ''j'' ''mint'' (\<lambda>r. r\<lparr>ob_cleanup := Some run_cleanup\<rparr>) run_attributed = run_cleaned"
    by (simp add: set_stage_def run_cleaned_def run_final_row_def row)
  have cleaned_ok: "tables_ok run_cleaned" unfolding run_cleaned_def
    by (intro tables_ok_outbox run_attributed_ok)
      (simp add: outbox_ok_def outbox_row_ok_def attribute_row_def run_signed_row_def row_holds_nonce_def run_receipt_def run_final_row_def)
  have ended: "set_job ''j'' (\<lambda>j. touch run_clocks (j\<lparr>jb_status := Job_succeeded, jb_lease := None\<rparr>)) run_cleaned = run_finished"
    by (simp add: set_job_def run_finished_def run_cleaned_def touch_def run_job_def reserved_job_def run_ids_def run_clocks_def)
  have ended_ok: "tables_ok run_finished" unfolding run_finished_def
    by (intro tables_ok_jobs cleaned_ok) (simp add: jobs_ok_def run_job_def reserved_job_def)
  show ?thesis
    by (simp add: finish_def owned allocation proof_ok rows row pending_status_def last_row_def cleaned cleaned_ok ended ended_ok write_tables_def)
      (simp add: run_cleanup_def)
qed

subsection \<open>The states it reaches\<close>

lemma run_reaches:
  "reachable empty_tables (wallet_step run_world (\<lambda>_. True)) run_start"
  "wallet_step run_world (\<lambda>_. True) run_start run_read" "wallet_step run_world (\<lambda>_. True) run_read run_reviewed"
  "wallet_step run_world (\<lambda>_. True) run_reviewed run_reserved" "wallet_step run_world (\<lambda>_. True) run_reserved run_claimed"
  "wallet_step run_world (\<lambda>_. True) run_claimed run_prepared" "wallet_step run_world (\<lambda>_. True) run_prepared run_signed"
  "wallet_step run_world (\<lambda>_. True) run_signed run_attributed" "wallet_step run_world (\<lambda>_. True) run_attributed run_finished"
proof -
  show "reachable empty_tables (wallet_step run_world (\<lambda>_. True)) run_start"
    unfolding reachable_def by (rule exI [of _ run_start]) (simp add: run_start_def empty_tables_def)
qed (rule wallet_step.call, rule run_read_step run_review_step run_reserve_step run_claim_step run_prepare_step run_sign_step
  run_reconcile_step run_finish_step)+

lemma run_reachable:
  "reachable empty_tables (wallet_step run_world (\<lambda>_. True)) run_reserved" "reachable empty_tables (wallet_step run_world (\<lambda>_. True)) run_signed"
  "reachable empty_tables (wallet_step run_world (\<lambda>_. True)) run_finished" "(wallet_step run_world (\<lambda>_. True))\<^sup>*\<^sup>* run_signed run_finished"
  "(wallet_step run_world (\<lambda>_. True))\<^sup>*\<^sup>* run_reserved run_signed"
  using run_reaches by (meson converse_rtranclp_into_rtranclp rtranclp.rtrancl_refl wallet.reachable_step)+

end
