(* ===== verification/Wallet_Receipts.thy ===== *)
theory Wallet_Receipts
  imports Wallet_Run
begin

section \<open>What an attributed receipt costs\<close>

text \<open>
  The image of the wallet and of the allocation that a pending transaction was prepared against is still
  what is persisted when its receipt is attributed, so that the checks of \<open>reconcileStage\<close> against the
  image are checks against the persisted balances.
\<close>

subsection \<open>Images of pending transactions\<close>

definition image_holds :: "live_wallet \<Rightarrow> live_allocation \<Rightarrow> before_image \<Rightarrow> bool" where
  "image_holds w a b \<longleftrightarrow> bi_walletGeneration b \<le> vw_generation w \<and>
     (bi_walletGeneration b = vw_generation w \<longrightarrow> vw_native w = Some (im_nativeWei (bi_wallet b))) \<and>
     vl_nativeSpend a = ia_nativeSpendWei (bi_allocation b) \<and> vl_exitReserve a = ia_exitReserveWei (bi_allocation b)"

definition row_backed :: "live_tables \<Rightarrow> live_outbox \<Rightarrow> bool" where
  "row_backed t r \<longleftrightarrow> (\<exists>j\<in>set (lt_jobs t). \<exists>w a. jb_id j = ob_jobId r \<and> lt_wallet t = Some w \<and>
     find_allocation t (jb_allocationId j) = Some a \<and> image_holds w a (ob_before r))"

definition images_hold :: "live_tables \<Rightarrow> bool" where
  "images_hold t \<longleftrightarrow> (\<forall>r\<in>set (pending_rows t). row_backed t r)"

text \<open>Balances that changed have changed the generation; amounts of an allocation have not changed.\<close>

definition wallet_follows :: "live_wallet \<Rightarrow> live_wallet \<Rightarrow> bool" where
  "wallet_follows w w' \<longleftrightarrow> vw_generation w \<le> vw_generation w' \<and> (vw_generation w' = vw_generation w \<longrightarrow> vw_native w' = vw_native w)"

definition funds_follow :: "live_tables \<Rightarrow> live_tables \<Rightarrow> bool" where
  "funds_follow t t' \<longleftrightarrow> (\<forall>w. lt_wallet t = Some w \<longrightarrow> (\<exists>w'. lt_wallet t' = Some w' \<and> wallet_follows w w')) \<and>
     (\<forall>i a. find_allocation t i = Some a \<longrightarrow> (\<exists>a'. find_allocation t' i = Some a' \<and> vl_nativeSpend a' = vl_nativeSpend a \<and>
        vl_exitReserve a' = vl_exitReserve a))"

definition rows_from :: "live_tables \<Rightarrow> live_tables \<Rightarrow> bool" where
  "rows_from t t' \<longleftrightarrow> (\<forall>s\<in>set (pending_rows t'). \<exists>r\<in>set (pending_rows t). same_row r s)"

lemma image_holds_follows:
  "image_holds w a b \<Longrightarrow> wallet_follows w w' \<Longrightarrow> vl_nativeSpend a' = vl_nativeSpend a \<Longrightarrow> vl_exitReserve a' = vl_exitReserve a \<Longrightarrow>
   image_holds w' a' b"
  by (auto simp: image_holds_def wallet_follows_def)

lemma row_backed_follows:
  assumes "row_backed t r" "same_row r s" "funds_follow t t'" "record_extends t t'"
  shows "row_backed t' s"
proof -
  obtain j w a where j: "j \<in> set (lt_jobs t)" "jb_id j = ob_jobId r" and w: "lt_wallet t = Some w"
    and a: "find_allocation t (jb_allocationId j) = Some a" and image: "image_holds w a (ob_before r)"
    using assms(1) unfolding row_backed_def by blast
  obtain k where k: "k \<in> set (lt_jobs t')" "same_job j k"
    using assms(4) j(1) unfolding record_extends_def job_extends_def by blast
  obtain w' where w': "lt_wallet t' = Some w'" "wallet_follows w w'" using assms(3) w unfolding funds_follow_def by blast
  obtain a' where a': "find_allocation t' (jb_allocationId j) = Some a'" "vl_nativeSpend a' = vl_nativeSpend a"
    "vl_exitReserve a' = vl_exitReserve a" using assms(3) a unfolding funds_follow_def by blast
  have "image_holds w' a' (ob_before s)" using image_holds_follows [OF image w'(2) a'(2,3)] assms(2) by (simp add: same_row_def)
  moreover have "jb_id k = ob_jobId s" "jb_allocationId k = jb_allocationId j" using j(2) k(2) assms(2) by (simp_all add: same_job_def same_row_def)
  ultimately show ?thesis using k(1) w'(1) a'(1) unfolding row_backed_def by auto
qed

lemma images_hold_follow:
  assumes "\<And>s. s \<in> set (pending_rows t') \<Longrightarrow> \<exists>r. row_backed t r \<and> same_row r s" "funds_follow t t'" "record_extends t t'"
  shows "images_hold t'"
  using assms row_backed_follows unfolding images_hold_def by blast

lemma images_hold_from:
  assumes "images_hold t" "rows_from t t'" "funds_follow t t'" "record_extends t t'"
  shows "images_hold t'"
  using assms images_hold_follow unfolding images_hold_def rows_from_def by blast

subsection \<open>Transactions that keep the rows\<close>

lemma wallet_follows_refl [simp]: "wallet_follows w w"
  by (simp add: wallet_follows_def)

lemma holdings_follow: "same_holdings t t' \<Longrightarrow> funds_follow t t'"
  by (simp add: same_holdings_def funds_follow_def find_allocation_def)

lemma same_rows_from: "lt_outbox t' = lt_outbox t \<Longrightarrow> rows_from t t'"
  unfolding rows_from_def pending_rows_def by (metis same_row_refl)

lemma set_stage_rows_from:
  assumes "\<And>r. r \<in> set (lt_outbox t) \<Longrightarrow> ob_jobId r = i \<Longrightarrow> ob_stage r = s \<Longrightarrow>
    same_row r (f r) \<and> (pending_status (ob_status (f r)) \<longrightarrow> pending_status (ob_status r))"
    and "lt_outbox t' = lt_outbox (set_stage i s f t)"
  shows "rows_from t t'"
  unfolding rows_from_def
proof
  fix u assume "u \<in> set (pending_rows t')"
  then have u: "u \<in> set (lt_outbox t')" "pending_status (ob_status u)" by (simp_all add: pending_rows_def)
  then obtain r where r: "r \<in> set (lt_outbox t)" "u = (if ob_jobId r = i \<and> ob_stage r = s then f r else r)"
    unfolding assms(2) set_stage_simps set_map by blast
  then have "same_row r u" "pending_status (ob_status r)" using u(2) assms(1) [OF r(1)] by (auto split: if_splits)
  with r(1) show "\<exists>r\<in>set (pending_rows t). same_row r u" by (auto simp: pending_rows_def)
qed

lemma rotate_outbox [simp]: "lt_outbox (rotate c i t) = lt_outbox t"
  by (simp add: rotate_def Let_def)

lemma take_job_outbox: "take_job now token ms fresh row t = Inr (c, t') \<Longrightarrow> lt_outbox t' = lt_outbox t"
  by (auto simp: take_job_def Let_def bind_ok_Inr_iff split: if_splits)

lemma claimNext_outbox:
  assumes "claimNext now token ms t = Inr (c, t')"
  shows "lt_outbox t' = lt_outbox t"
proof -
  from assms consider "t' = t" | row fresh where "take_job now token ms fresh row t = Inr (c, t')"
    | a row where "take_job now token ms True row (park now a t) = Inr (c, t')"
    by (auto simp: claimNext_def bind_ok_Inr_iff split: if_splits option.splits)
  then show ?thesis by cases (auto dest: take_job_outbox simp: park_def)
qed

lemma jobs_only_outbox:
  "recordReview h now x t = Inr (rv, t') \<Longrightarrow> lt_outbox t' = lt_outbox t"
  "renewLease now i token ms t = Inr (j, t') \<Longrightarrow> lt_outbox t' = lt_outbox t"
  "yieldAfterConfirmedReceipt now i stage token t = Inr t' \<Longrightarrow> lt_outbox t' = lt_outbox t"
  "transition now i token s u n t = Inr (j, t') \<Longrightarrow> lt_outbox t' = lt_outbox t"
  "cancelQueued now i t = Inr t' \<Longrightarrow> lt_outbox t' = lt_outbox t"
  "enqueue q now jid e t = Inr (qr, t') \<Longrightarrow> lt_outbox t' = lt_outbox t"
  "releaseLiveWalletAllocation h i t = Inr t' \<Longrightarrow> lt_outbox t' = lt_outbox t"
  "consumeReviewAndReserve h a now ids d x' t = Inr (qr, t') \<Longrightarrow> lt_outbox t' = lt_outbox t"
  by (auto simp: recordReview_def renewLease_def yieldAfterConfirmedReceipt_def transition_def cancelQueued_def Let_def bind_ok_Inr_iff
    release_row_def split: option.splits elim!: enqueue_result release_result consume_result)

lemma recordSigned_rows_from:
  assumes "recordSigned q now i stage token raw t = Inr (r', t')" "tables_ok t"
  shows "rows_from t t'"
proof -
  from assms(1) obtain r where r: "find_stage t i stage = Some r"
    unfolding recordSigned_def by (auto simp: bind_ok_Inr_iff split: option.splits)
  from assms(1) consider "t' = t" | hash where "ob_status r = Ob_prepared"
      "t' = set_stage i stage (\<lambda>r. r\<lparr>ob_signed := Some (lower raw, hash), ob_status := Ob_signed\<rparr>) t"
    unfolding recordSigned_def by (auto simp: bind_ok_Inr_iff r Let_def split: if_splits)
  then show ?thesis
  proof cases
    case 1
    then show ?thesis using same_rows_from by blast
  next
    case (2 hash)
    then show ?thesis using find_stage_unique [OF r assms(2)]
      by (intro set_stage_rows_from [of t i stage "\<lambda>r. r\<lparr>ob_signed := Some (lower raw, hash), ob_status := Ob_signed\<rparr>"])
        (auto simp: pending_status_def)
  qed
qed

lemma cancelPrepared_rows_from: "cancelPrepared now i stage token t = Inr t' \<Longrightarrow> rows_from t t'"
  by (auto simp: cancelPrepared_def bind_ok_Inr_iff pending_status_def
    intro!: set_stage_rows_from [of t i stage "\<lambda>r. r\<lparr>ob_status := Ob_cancelled\<rparr>"])

lemma finish_rows_from:
  assumes "finish q now i token t = Inr (pf, t')"
  shows "rows_from t t'"
  using assms
proof (cases rule: finish_result)
  case (1 j a r)
  then show ?thesis by (intro set_stage_rows_from [of t i "ob_stage r" "\<lambda>r. r\<lparr>ob_cleanup := Some pf\<rparr>"]) simp_all
qed

subsection \<open>Snapshots, reservations and releases\<close>

lemma snapshot_funds_follow:
  assumes "applyWalletSnapshotInTransaction h now i t = Inr (w', t')"
  shows "funds_follow t t'"
  using assms
proof (cases rule: snapshot_result)
  case (1 rows changed)
  have "wallet_follows w w'" if "lt_wallet t = Some w" for w
  proof -
    have "changed \<or> vw_native w = Some (wc_native (sx_content i))"
      using 1(2) that by (auto simp: snapshot_follows_def balance_changed_def bind_ok_Inr_iff Let_def)
    then show ?thesis using 1(7,10) that by (auto simp: wallet_follows_def)
  qed
  then show ?thesis by (simp add: funds_follow_def 1(4) find_allocation_def)
qed

lemma find_map_same: "(\<And>x. P (f x) = P x) \<Longrightarrow> find P (map f xs) = map_option f (find P xs)"
  by (induction xs) auto

lemma next_generation_follows: "wallet_follows w (next_generation h t w source nonce pend native)"
  by (simp add: wallet_follows_def next_generation_def Let_def)

lemma release_funds_follow:
  assumes "releaseLiveWalletAllocation h i t = Inr t'"
  shows "funds_follow t t'"
  using assms
proof (cases rule: release_result)
  case (release a w source nonce pend native)
  have "find_allocation t' k = map_option (\<lambda>a. if vl_id a = i then a\<lparr>vl_state := Live_released\<rparr> else a) (find_allocation t k)" for k
    by (simp add: find_allocation_def release(6) release_row_def find_map_same)
  then show ?thesis using next_generation_follows release(4) by (auto simp: funds_follow_def release(6))
qed (simp add: funds_follow_def)

lemma find_append_Some: "find P xs = Some x \<Longrightarrow> find P (xs @ ys) = Some x"
  by (induction xs) (auto split: if_splits)

lemma consume_funds_follow:
  assumes "consumeReviewAndReserve h a now ids d i t = Inr (res, t')"
  shows "funds_follow t t'"
  using assms
proof (cases rule: consume_result)
  case (reserved tokens w source r p nfts)
  obtain w' where w': "lt_wallet t' = Some w'" "vw_generation w' = vw_generation w + 1"
    using reserve_rows_wallet reserved(9) by blast
  then have "wallet_follows w w'" by (simp add: wallet_follows_def)
  moreover have "find_allocation t' k = Some b" if "find_allocation t k = Some b" for k b
    using that by (simp add: find_allocation_def reserved(9) find_append_Some)
  ultimately show ?thesis using reserve_review_checks_Inr(1) [OF reserved(3)] w'(1) by (auto simp: funds_follow_def)
qed (simp add: funds_follow_def)

subsection \<open>A prepared transaction, an attributed receipt\<close>

lemma prepareStage_result:
  assumes "prepareStage q now i token x t = Inr (r, t')"
  obtains (replayed) "t' = t" | (prepared) j p w a au prior where "owned now t i token = Inr j" "lt_wallet t = Some w"
    "find_allocation t (jb_allocationId j) = Some a" "authorized_before q t w j a p (pr_plan x) au = Inr prior"
    "insert_stage q now i x j p au prior t = Inr (r, t')"
proof -
  from assms obtain p j w where j: "parse_pilot_intent q (pr_intent x) = Inr p" "owned now t i token = Inr j" "prepare_wallet_checks p t = Inr w"
    unfolding prepareStage_def by (auto simp: bind_ok_Inr_iff)
  then have w: "lt_wallet t = Some w" by (auto simp: prepare_wallet_checks_def bind_ok_Inr_iff split: option.splits)
  from assms j obtain a where a: "find_allocation t (jb_allocationId j) = Some a"
    unfolding prepareStage_def by (auto simp: bind_ok_Inr_iff split: option.splits)
  from assms j a obtain au prior where au: "authorized_before q t w j a p (pr_plan x) au = Inr prior"
    and rest: "(\<exists>old. find_stage t i (pr_stage x) = Some old) \<and> t' = t \<or> insert_stage q now i x j p au prior t = Inr (r, t')"
    unfolding prepareStage_def by (auto simp: bind_ok_Inr_iff split: option.splits)
  from rest show ?thesis using replayed prepared [OF j(2) w a au] by blast
qed

lemma authorized_before_image:
  assumes "authorized_before q t w j a p plan au = Inr prior"
  shows "image_holds w a prior"
  using assms
  by (auto simp: authorized_before_def image_holds_def frozen_before_def before_wallet_checks_def before_allocation_checks_def bind_ok_Inr_iff
    Let_def split: option.splits)

lemma prepareStage_images:
  assumes "prepareStage q now i token x t = Inr (r, t')" "images_hold t" "record_extends t t'"
  shows "images_hold t'"
  using assms(1)
proof (cases rule: prepareStage_result)
  case (prepared j p w a au prior)
  define row where "row = prepared_row i (pr_stage x) p (au_plan au) prior"
  have "image_holds w a prior" using authorized_before_image [OF prepared(4)] .
  then have "row_backed t row"
    using owned_Inr(1,2) [OF prepared(1)] prepared(2,3) by (auto simp: row_backed_def row_def prepared_row_def)
  moreover have "pending_rows t' = pending_rows t @ [row]"
    using prepared(5) by (auto simp: insert_stage_def Let_def bind_ok_Inr_iff pending_rows_def row_def prepared_row_def pending_status_def)
  ultimately show ?thesis
    using assms(2,3) holdings_follow [OF prepareStage_holdings [OF assms(1)]] unfolding images_hold_def
    by (intro images_hold_follow [of t' t, unfolded images_hold_def]) (auto intro: same_row_refl)
qed (use assms(2) in simp)

lemma lane_inv_pending:
  assumes "lane_inv t"
  shows "length (pending_rows t) \<le> 1"
proof -
  have unblocked: "ob_status r \<noteq> Ob_blocked" if "r \<in> set (lt_outbox t)" for r
    using lane_invD(2) [OF assms that] by (auto simp: row_shape_def)
  have "filter (\<lambda>r. pending_status (ob_status r)) (lt_outbox t) = filter row_holds_nonce (lt_outbox t)"
    using unblocked by (intro filter_cong) (auto simp: pending_status_def row_holds_nonce_def)
  then show ?thesis using lane_invD(1) [OF assms] by (simp add: pending_rows_def tables_ok_def outbox_ok_def)
qed

lemma attributed_outbox:
  assumes "attribute_receipt q now j r w v t = Inr (r', t')"
  shows "lt_outbox t' = lt_outbox (set_stage (jb_id j) (ob_stage r) (attribute_row v) t)"
  using assms
proof (rule attribute_receipt_result)
  fix t1 t2 t3 w'
  assume "settle_allocation (jb_allocationId j) v t = Inr t1" "settle_custody j v t1 = Inr t2"
    "applyWalletSnapshotInTransaction (qw_hashes q) now (receipt_snapshot q t2 (jb_id j) (ob_stage r) w v) t2 = Inr (w', t3)"
  then have "lt_outbox t3 = lt_outbox t" using settle_allocation_keeps(2) settle_custody_keeps(2) snapshot_keeps(2) by metis
  moreover assume "t' = set_job (jb_id j) (\<lambda>j. touch now (j\<lparr>jb_status := receipt_job_status v\<rparr>))
    (set_stage (jb_id j) (ob_stage r) (attribute_row v) (rehash_allocation q (jb_allocationId j) (vw_generation w') v t3))"
  ultimately show ?thesis by simp
qed

lemma reconcileStage_images:
  assumes "reconcileStage q now i stage token t = Inr (r', t')" "images_hold t" "lane_inv t"
  shows "images_hold t'"
  using assms(1)
proof (cases rule: reconcileStage_result)
  case (attributed j r w v)
  note r = find_stage_Some [OF attributed(2)] and id = owned_Inr(2) [OF attributed(1)]
  have pending: "r \<in> set (pending_rows t)" using r(1) attributed(5) by (auto simp: pending_rows_def pending_status_def)
  then have one: "pending_rows t = [r]" using lane_inv_pending [OF assms(3)] by (cases "pending_rows t") auto
  have "pending_rows t' = []"
  proof (rule ccontr)
    assume "pending_rows t' \<noteq> []"
    then obtain s where "s \<in> set (lt_outbox t')" "pending_status (ob_status s)" by (force simp: pending_rows_def filter_empty_conv)
    then obtain u where u: "u \<in> set (lt_outbox t)"
      "s = (if ob_jobId u = jb_id j \<and> ob_stage u = ob_stage r then attribute_row v u else u)" "pending_status (ob_status s)"
      unfolding attributed_outbox [OF attributed(9)] set_stage_simps set_map by blast
    have "\<not> pending_status (ob_status (attribute_row v u))" by (simp add: attribute_row_def pending_status_def)
    with u have "u \<in> set (pending_rows t)" "\<not> (ob_jobId u = jb_id j \<and> ob_stage u = ob_stage r)"
      by (auto simp: pending_rows_def split: if_splits)
    with one r id show False by simp
  qed
  then show ?thesis by (simp add: images_hold_def)
qed (use assms(2) in simp)

subsection \<open>The machine keeps the images\<close>

lemma run_call_rows_from:
  assumes "run_call q a now c t = Inr t'" "tables_ok t" "\<not> settles c" "\<And>i token x. c \<noteq> Prepare_call i token x"
  shows "rows_from t t'"
  using assms by (cases c) (auto simp: bind_ok_Inr_iff intro: same_rows_from jobs_only_outbox claimNext_outbox
    recordSigned_rows_from cancelPrepared_rows_from finish_rows_from)

lemma run_call_images:
  assumes "run_call q a now c t = Inr t'" "images_hold t" "lane_inv t" "record_extends t t'"
  shows "images_hold t'"
proof -
  have kept: "images_hold t'" if "rows_from t t'" "funds_follow t t'" using images_hold_from [OF assms(2) that assms(4)] .
  show ?thesis
  proof (cases "settles c")
    case True
    show ?thesis
    proof (cases c)
      case (Snapshot_call i)
      with assms(1) obtain w where "applyWalletSnapshotInTransaction (qw_hashes q) now i t = Inr (w, t')" by (auto simp: bind_ok_Inr_iff)
      then show ?thesis using snapshot_funds_follow snapshot_keeps(2) same_rows_from by (intro kept) blast+
    next
      case (Reserve_call ids d i)
      with assms(1) obtain r where "consumeReviewAndReserve (qw_hashes q) a now ids d i t = Inr (r, t')" by (auto simp: bind_ok_Inr_iff)
      then show ?thesis using consume_funds_follow jobs_only_outbox(8) same_rows_from by (intro kept) blast+
    next
      case (Release_call i)
      with assms(1) have "releaseLiveWalletAllocation (qw_hashes q) i t = Inr t'" by simp
      then show ?thesis using release_funds_follow jobs_only_outbox(7) same_rows_from by (intro kept) blast+
    next
      case (Reconcile_call i stage token)
      with assms show ?thesis by (auto simp: bind_ok_Inr_iff intro: reconcileStage_images)
    qed (use True in simp_all)
  next
    case False
    show ?thesis
    proof (cases "\<exists>i token x. c = Prepare_call i token x")
      case True
      with assms show ?thesis by (auto simp: bind_ok_Inr_iff intro: prepareStage_images)
    next
      case other: False
      with False assms(1) lane_invD(1) [OF assms(3)] show ?thesis
        by (intro kept run_call_rows_from holdings_follow run_call_holdings) auto
    qed
  qed
qed

lemma elsewhere_funds_follow:
  "t' = t\<lparr>lt_deployments := d, lt_runtime := g, lt_profiles := p, lt_custody := n, lt_allocations := map (activate ids) (lt_allocations t)\<rparr> \<Longrightarrow>
   funds_follow t t'"
  by (auto simp: funds_follow_def find_allocation_def find_map_same activate_def)

lemma wallet_step_images:
  assumes "wallet_step q a t t'" "images_hold t" "lane_inv t"
  shows "images_hold t'"
  using assms(1)
proof cases
  case (call now c)
  then show ?thesis using run_call_images assms wallet.step_extends by blast
next
  case elsewhere
  then have "rows_from t t'" "funds_follow t t'"
    using same_rows_from [of t' t] elsewhere_funds_follow [OF elsewhere(1)] by simp_all
  then show ?thesis using images_hold_from assms wallet.step_extends by blast
qed

definition receipt_inv :: "live_tables \<Rightarrow> bool" where
  "receipt_inv t \<longleftrightarrow> lane_inv t \<and> images_hold t"

interpretation receipts: invariant_machine empty_tables "wallet_step q a" receipt_inv for q a
proof
  show "receipt_inv s" if "empty_tables s" for s
    using that empty_lane_inv by (simp add: receipt_inv_def images_hold_def pending_rows_def empty_tables_def)
  show "receipt_inv s'" if "receipt_inv s" "wallet_step q a s s'" for s s'
    using that wallet.step_inv wallet_step_images unfolding receipt_inv_def by blast
qed

subsection \<open>Gas\<close>

lemma find_job_unique: "find_job t i = Some j \<Longrightarrow> tables_ok t \<Longrightarrow> k \<in> set (lt_jobs t) \<Longrightarrow> jb_id k = i \<Longrightarrow> k = j"
  using jobs_by_id by (auto simp: find_job_def dest!: find_set)

lemma owned_job: "owned now t i token = Inr j \<Longrightarrow> find_job t i = Some j"
  by (auto simp: owned_def bind_ok_Inr_iff split: option.splits)

lemma pending_image:
  assumes "receipt_inv t" "find_stage t i stage = Some r" "pending_status (ob_status r)" "find_job t i = Some j" "lt_wallet t = Some w"
  obtains a where "find_allocation t (jb_allocationId j) = Some a" "image_holds w a (ob_before r)"
proof -
  note r = find_stage_Some [OF assms(2)]
  from assms(1,3) r(1) have "row_backed t r" by (auto simp: receipt_inv_def images_hold_def pending_rows_def)
  then obtain k a where k: "k \<in> set (lt_jobs t)" "jb_id k = i" and a: "find_allocation t (jb_allocationId k) = Some a" "image_holds w a (ob_before r)"
    using assms(5) r(2) by (auto simp: row_backed_def)
  have "k = j" using find_job_unique [OF assms(4) _ k] assms(1) lane_invD(1) by (auto simp: receipt_inv_def)
  with a that show ?thesis by blast
qed

lemma settled_allocation:
  assumes "settle_allocation i v t = Inr t1" "find_allocation t i = Some a"
  shows "\<exists>b. find_allocation t1 i = Some b \<and> vl_nativeSpend b = vq_nextNativeSpendWei v \<and> vl_exitReserve b = vq_nextExitReserveWei v \<and>
    vl_pendingNative b = 0" "filter (\<lambda>a. vl_id a \<noteq> i) (lt_allocations t1) = filter (\<lambda>a. vl_id a \<noteq> i) (lt_allocations t)"
proof -
  define f :: "live_allocation \<Rightarrow> live_allocation" where "f = (\<lambda>a. if vl_id a = i then a\<lparr>vl_nativeSpend := vq_nextNativeSpendWei v, vl_pendingNative := 0,
      vl_exitReserve := vq_nextExitReserveWei v, vl_sourceHash := ks_hash (vq_source v)\<rparr> else a)"
  have rows: "lt_allocations t1 = map f (lt_allocations t)"
    using assms(1) by (auto simp: settle_allocation_def bind_ok_Inr_iff f_def)
  have "vl_id a = i" using assms(2) by (auto simp: find_allocation_def dest: find_set)
  then show "\<exists>b. find_allocation t1 i = Some b \<and> vl_nativeSpend b = vq_nextNativeSpendWei v \<and> vl_exitReserve b = vq_nextExitReserveWei v \<and>
    vl_pendingNative b = 0"
    using assms(2) by (simp add: find_allocation_def rows find_map_same f_def)
  have "filter (\<lambda>a. vl_id a \<noteq> i) (map f as) = filter (\<lambda>a. vl_id a \<noteq> i) as" for as by (induction as) (simp_all add: f_def)
  then show "filter (\<lambda>a. vl_id a \<noteq> i) (lt_allocations t1) = filter (\<lambda>a. vl_id a \<noteq> i) (lt_allocations t)" by (simp add: rows)
qed

lemma rehashed_allocation:
  "find_allocation t i = Some a \<Longrightarrow> \<exists>b. find_allocation (rehash_allocation q i g v t) i = Some b \<and> vl_nativeSpend b = vl_nativeSpend a \<and>
     vl_exitReserve b = vl_exitReserve a \<and> vl_pendingNative b = vl_pendingNative a"
  "filter (\<lambda>a. vl_id a \<noteq> i) (lt_allocations (rehash_allocation q i g v t)) = filter (\<lambda>a. vl_id a \<noteq> i) (lt_allocations t)"
proof -
  show "find_allocation t i = Some a \<Longrightarrow> \<exists>b. find_allocation (rehash_allocation q i g v t) i = Some b \<and> vl_nativeSpend b = vl_nativeSpend a \<and>
     vl_exitReserve b = vl_exitReserve a \<and> vl_pendingNative b = vl_pendingNative a"
    by (simp add: find_allocation_def rehash_allocation_def find_map_same)
  have "filter (\<lambda>a. vl_id a \<noteq> i) (map (\<lambda>a. if vl_id a = i then h a else a) as) = filter (\<lambda>a. vl_id a \<noteq> i) as"
    if "\<And>a. vl_id (h a) = vl_id a" for h :: "live_allocation \<Rightarrow> live_allocation" and as by (induction as) (simp_all add: that)
  then show "filter (\<lambda>a. vl_id a \<noteq> i) (lt_allocations (rehash_allocation q i g v t)) = filter (\<lambda>a. vl_id a \<noteq> i) (lt_allocations t)"
    by (simp add: rehash_allocation_def)
qed

text \<open>The wallet and the allocation after a receipt is attributed.\<close>

lemma attributed_funds:
  assumes "attribute_receipt q now j r w v t = Inr (r', t')" "find_allocation t (jb_allocationId j) = Some a"
  shows "\<exists>w' b. lt_wallet t' = Some w' \<and> vw_native w' = Some (im_nativeWei (vq_afterWallet v)) \<and> vw_nonce w' = Some (im_nonce (vq_afterWallet v)) \<and>
    find_allocation t' (jb_allocationId j) = Some b \<and> vl_nativeSpend b = vq_nextNativeSpendWei v \<and> vl_exitReserve b = vq_nextExitReserveWei v \<and>
    vl_pendingNative b = 0 \<and>
    filter (\<lambda>a. vl_id a \<noteq> jb_allocationId j) (lt_allocations t') = filter (\<lambda>a. vl_id a \<noteq> jb_allocationId j) (lt_allocations t)"
  using assms(1)
proof (rule attribute_receipt_result)
  fix t1 t2 t3 w'
  let ?i = "jb_allocationId j"
  assume settle: "settle_allocation ?i v t = Inr t1" and custody: "settle_custody j v t1 = Inr t2"
    and snapshot: "applyWalletSnapshotInTransaction (qw_hashes q) now (receipt_snapshot q t2 (jb_id j) (ob_stage r) w v) t2 = Inr (w', t3)"
  define t4 where "t4 = rehash_allocation q ?i (vw_generation w') v t3"
  have same: "lt_allocations t3 = lt_allocations t1" using settle_custody_keeps(8) [OF custody] snapshot_keeps(5) [OF snapshot] by simp
  obtain b1 where b1: "find_allocation t3 ?i = Some b1" "vl_nativeSpend b1 = vq_nextNativeSpendWei v" "vl_exitReserve b1 = vq_nextExitReserveWei v"
    "vl_pendingNative b1 = 0" using settled_allocation(1) [OF settle assms(2)] by (auto simp: find_allocation_def same)
  obtain b where b: "find_allocation t4 ?i = Some b" "vl_nativeSpend b = vq_nextNativeSpendWei v" "vl_exitReserve b = vq_nextExitReserveWei v"
    "vl_pendingNative b = 0" using rehashed_allocation(1) [OF b1(1)] b1(2-4) unfolding t4_def by metis
  have others: "filter (\<lambda>a. vl_id a \<noteq> ?i) (lt_allocations t4) = filter (\<lambda>a. vl_id a \<noteq> ?i) (lt_allocations t)"
    unfolding t4_def rehashed_allocation(2) same by (rule settled_allocation(2) [OF settle assms(2)])
  have w': "lt_wallet t4 = Some w'" "vw_native w' = Some (im_nativeWei (vq_afterWallet v))" "vw_nonce w' = Some (im_nonce (vq_afterWallet v))"
    using snapshot by (auto elim!: snapshot_result simp: t4_def rehash_allocation_def receipt_snapshot_def Let_def)
  assume "t' = set_job (jb_id j) (\<lambda>j. touch now (j\<lparr>jb_status := receipt_job_status v\<rparr>))
    (set_stage (jb_id j) (ob_stage r) (attribute_row v) (rehash_allocation q ?i (vw_generation w') v t3))"
  then have "lt_wallet t' = lt_wallet t4" "lt_allocations t' = lt_allocations t4" by (simp_all add: t4_def set_job_def set_stage_def)
  with w' b others show ?thesis by (auto simp: find_allocation_def)
qed

end
