(* ===== verification/Shared_Wallet.thy ===== *)
theory Shared_Wallet
  imports Wallet_Receipts
begin

section \<open>What a shared live wallet guarantees\<close>

text \<open>
  The properties of the wallet's machine, over all orders of its transactions, with the states of the
  concrete run as their witnesses.
\<close>

subsection \<open>Funds\<close>

lemma token_obligation_none: "a \<notin> set (allocated_addresses t) \<Longrightarrow> token_obligation t a = 0"
proof -
  assume "a \<notin> set (allocated_addresses t)"
  then have "filter (\<lambda>x. at_token x = a) (live_allocation_tokens t) = []" by (auto simp: allocated_addresses_def filter_empty_conv)
  then show ?thesis by (simp add: token_obligation_def)
qed

lemma balance_nonneg: "tables_ok t \<Longrightarrow> 0 \<le> balance_in (lt_tokens t) a"
  by (auto simp: balance_in_def tables_ok_def split: option.splits dest!: map_of_SomeD)

text \<open>
  C2: while a shared wallet is available, whatever transactions have run, the tokens promised to its
  live allocations are at most its last confirmed balance of every token, and the native amounts
  promised to them at most its native balance.
\<close>

theorem wallet_never_oversubscribed:
  assumes "reachable empty_tables (wallet_step q a) t" "lt_wallet t = Some w" "vw_status w = Wallet_available"
  shows "token_obligation t token \<le> balance_in (lt_tokens t) token \<and> native_obligation t \<le> or_zero (vw_native w)"
proof -
  have inv: "lane_inv t" "solvent t" using funds.reachable_inv [OF assms(1)] by (simp_all add: wallet_inv_def)
  with assms(2,3) have "\<not> oversubscribed t (lt_tokens t) (or_zero (vw_native w))" by (simp add: solvent_def)
  then show ?thesis
    using token_obligation_none balance_nonneg [OF lane_invD(1) [OF inv(1)]]
    by (cases "token \<in> set (allocated_addresses t)") (auto simp: oversubscribed_def not_less)
qed

theorem wallet_never_oversubscribed_witness:
  "token_obligation run_reserved (run_address (CHR ''1'')) \<le> balance_in (lt_tokens run_reserved) (run_address (CHR ''1'')) \<and>
   native_obligation run_reserved \<le> or_zero (vw_native (run_wallet 2)) \<and> native_obligation run_reserved = 150"
  using wallet_never_oversubscribed [OF run_reachable(1), of "run_wallet 2" "run_address (CHR ''1'')"]
  by (simp add: run_wallet_def native_obligation_def live_allocations_def reserved_allocation_def run_reserve_def)

subsection \<open>The lane\<close>

text \<open>
  C8: at most one job owns the wallet, at most one transaction of it may still be pending, and it is
  that job's; every transaction holds the nonce of its intent, and no two that were not cancelled
  share a nonce.
\<close>

theorem wallet_lane_exclusive:
  assumes "reachable empty_tables (wallet_step q a) t"
  shows "length (active_jobs t) \<le> 1 \<and> length (pending_rows t) \<le> 1 \<and>
    (\<forall>r\<in>set (pending_rows t). \<exists>j. active_jobs t = [j] \<and> jb_id j = ob_jobId r) \<and>
    (\<forall>r\<in>set (lt_outbox t). ob_nonce r = pt_nonce (ob_intent r)) \<and>
    distinct (map ob_nonce (filter (\<lambda>r. ob_status r \<noteq> Ob_cancelled) (lt_outbox t)))"
proof -
  have inv: "lane_inv t" using wallet.reachable_inv [OF assms] .
  note ok = lane_invD(1) [OF inv]
  have jobs: "length (active_jobs t) \<le> 1" using ok by (simp add: tables_ok_def jobs_ok_def active_jobs_def)
  have rows: "length (pending_rows t) \<le> 1" using lane_inv_pending [OF inv] .
  have owner: "\<exists>j. active_jobs t = [j] \<and> jb_id j = ob_jobId r" if "r \<in> set (pending_rows t)" for r
  proof -
    obtain j where "j \<in> set (active_jobs t)" "jb_id j = ob_jobId r" using lane_invD(4) [OF inv] \<open>r \<in> _\<close> unfolding pending_owned_def by blast
    with jobs show ?thesis by (cases "active_jobs t") auto
  qed
  show ?thesis using jobs rows owner lane_invD(2) [OF inv] ok by (simp add: row_shape_def tables_ok_def outbox_ok_def)
qed

theorem wallet_lane_exclusive_witness:
  "length (active_jobs run_signed) \<le> 1 \<and> pending_rows run_signed = [run_signed_row] \<and>
   (\<exists>j. active_jobs run_signed = [j] \<and> jb_id j = ob_jobId run_signed_row)"
  using wallet_lane_exclusive [OF run_reachable(2)]
  by (simp add: pending_rows_def pending_status_def)

subsection \<open>What is recorded stays\<close>

lemma find_stage_in: "tables_ok t \<Longrightarrow> s \<in> set (lt_outbox t) \<Longrightarrow> find_stage t (ob_jobId s) (ob_stage s) = Some s"
proof -
  assume ok: "tables_ok t" and s: "s \<in> set (lt_outbox t)"
  then obtain u where u: "find_stage t (ob_jobId s) (ob_stage s) = Some u"
    unfolding find_stage_def by (metis (mono_tags, lifting) find_None_iff not_Some_eq)
  with find_stage_unique [OF u ok s] show ?thesis by simp
qed

lemma find_job_in: "tables_ok t \<Longrightarrow> j \<in> set (lt_jobs t) \<Longrightarrow> find_job t (jb_id j) = Some j"
proof -
  assume ok: "tables_ok t" and j: "j \<in> set (lt_jobs t)"
  then obtain k where k: "find_job t (jb_id j) = Some k"
    unfolding find_job_def by (metis (mono_tags, lifting) find_None_iff not_Some_eq)
  then have "k \<in> set (lt_jobs t)" "jb_id k = jb_id j" by (auto simp: find_job_def dest: find_set)
  with jobs_by_id [OF ok j] k show ?thesis by metis
qed

text \<open>
  C6: the bytes of a signed transaction are never lost or replaced: in every later state of the wallet
  the stage has the same intent, plan, nonce and bytes, and is signed, confirmed or reverted, never
  cancelled; once its receipt is attributed, receipt, effects and outcome stay too.
\<close>

theorem signed_bytes_are_permanent:
  assumes "reachable empty_tables (wallet_step q a) t" "(wallet_step q a)\<^sup>*\<^sup>* t t'"
    and "find_stage t i stage = Some r" "ob_signed r = Some bytes"
  shows "\<exists>s. find_stage t' i stage = Some s \<and> same_row r s \<and> ob_signed s = Some bytes \<and>
    ob_status s \<in> {Ob_signed, Ob_confirmed, Ob_reverted} \<and>
    (ob_receipt r \<noteq> None \<longrightarrow> ob_receipt s = ob_receipt r \<and> ob_effects s = ob_effects r \<and> ob_status s = ob_status r)"
proof -
  note r = find_stage_Some [OF assms(3)]
  have inv: "lane_inv t" using wallet.reachable_inv [OF assms(1)] .
  have inv': "lane_inv t'" using wallet.run_inv [OF assms(2) inv] .
  obtain s where s: "s \<in> set (lt_outbox t')" "row_extends r s"
    using wallet.reachable_extends [OF assms(1,2)] r(1) unfolding record_extends_def by blast
  note e = row_extendsD [OF s(2)]
  have key: "ob_jobId s = i" "ob_stage s = stage" using e(1) r(2,3) by (simp_all add: same_row_def)
  have "find_stage t' i stage = Some s" using find_stage_in [OF lane_invD(1) [OF inv'] s(1)] key by simp
  moreover have "ob_signed s = Some bytes" using e(2) assms(4) by simp
  moreover have "ob_status s \<in> {Ob_signed, Ob_confirmed, Ob_reverted}"
    using lane_invD(2) [OF inv' s(1)] \<open>ob_signed s = _\<close> by (cases "ob_status s") (simp_all add: row_shape_def)
  ultimately show ?thesis using e(1,4-6) by blast
qed

theorem signed_bytes_are_permanent_witness:
  "\<exists>s. find_stage run_finished ''j'' ''mint'' = Some s \<and> same_row run_signed_row s \<and>
    ob_signed s = Some (''0xab'', run_hash (CHR ''c''))"
proof -
  have "find_stage run_signed ''j'' ''mint'' = Some run_signed_row" by (simp add: find_stage_def)
  from signed_bytes_are_permanent [OF run_reachable(2,4) this, of "(''0xab'', run_hash (CHR ''c''))"] show ?thesis by auto
qed

text \<open>
  C12: a job that ended stays as it ended, and one that succeeded has no pending transaction: all its
  stages were confirmed or cancelled unsigned, or are the attributed reverts its kind may settle with,
  and the last attributed one carries a cleanup proof.
\<close>

theorem ended_jobs_are_settled:
  assumes "reachable empty_tables (wallet_step q a) t" "(wallet_step q a)\<^sup>*\<^sup>* t t'"
    and "find_job t i = Some j" "terminal_release_status (jb_status j)"
  shows "\<exists>k. find_job t' i = Some k \<and> same_job j k \<and> jb_status k = jb_status j \<and>
    (jb_status k = Job_succeeded \<longrightarrow> settled_rows (jb_kind k) (job_rows i t') \<and> (\<forall>r\<in>set (pending_rows t'). ob_jobId r \<noteq> i))"
proof -
  have j: "j \<in> set (lt_jobs t)" "jb_id j = i" using assms(3) by (auto simp: find_job_def dest: find_set)
  have inv: "lane_inv t" using wallet.reachable_inv [OF assms(1)] .
  have inv': "lane_inv t'" using wallet.run_inv [OF assms(2) inv] .
  obtain k where k: "k \<in> set (lt_jobs t')" "job_extends j k"
    using wallet.reachable_extends [OF assms(1,2)] j(1) unfolding record_extends_def by blast
  have id: "jb_id k = i" "same_job j k" "jb_status k = jb_status j"
    using k(2) j(2) assms(4) by (simp_all add: job_extends_def same_job_def)
  have settled: "settled_rows (jb_kind k) (job_rows i t')" if "jb_status k = Job_succeeded"
    using lane_invD(3) [OF inv' k(1)] that id(1) by (simp add: job_shape_def)
  moreover have "ob_jobId r \<noteq> i" if "jb_status k = Job_succeeded" "r \<in> set (pending_rows t')" for r
  proof
    assume "ob_jobId r = i"
    with that(2) have "r \<in> set (job_rows i t')" "pending_status (ob_status r)" by (auto simp: pending_rows_def job_rows_def)
    with settled [OF that(1)] show False
      using good_row_settled [of "jb_kind k" r] by (auto simp: settled_rows_def pending_status_def)
  qed
  ultimately show ?thesis using find_job_in [OF lane_invD(1) [OF inv'] k(1)] id by auto
qed

theorem ended_jobs_are_settled_witness:
  "\<exists>k. find_job run_finished ''j'' = Some k \<and> jb_status k = Job_succeeded \<and> settled_rows Kind_open (job_rows ''j'' run_finished)"
proof -
  have j: "find_job run_finished ''j'' = Some ((run_job Job_succeeded (Some ''mint''))\<lparr>jb_lease := None\<rparr>)"
    by (simp add: find_job_def run_finished_def)
  from ended_jobs_are_settled [OF run_reachable(3) rtranclp.rtrancl_refl j] show ?thesis
    using j by (auto simp: terminal_release_status_def)
qed

subsection \<open>Requests\<close>

lemma find_request_in: "tables_ok t \<Longrightarrow> j \<in> set (lt_jobs t) \<Longrightarrow> find_request t (jb_idempotencyKey j) = Some j"
proof -
  assume ok: "tables_ok t" and j: "j \<in> set (lt_jobs t)"
  then obtain k where k: "find_request t (jb_idempotencyKey j) = Some k"
    unfolding find_request_def by (metis (mono_tags, lifting) find_None_iff not_Some_eq)
  then have "k \<in> set (lt_jobs t)" "jb_idempotencyKey k = jb_idempotencyKey j" by (auto simp: find_request_def dest: find_set)
  moreover have "inj_on jb_idempotencyKey (set (lt_jobs t))" using ok by (simp add: tables_ok_def jobs_ok_def distinct_map)
  ultimately show ?thesis using k j by (metis inj_onD)
qed

lemma consume_job:
  assumes "consumeReviewAndReserve h a now ids d i t = Inr (res, t')"
  obtains j where "j \<in> set (lt_jobs t')" "jb_idempotencyKey j = ri_requestId i" "jb_requestDigest j = ri_requestDigest i"
    "jb_id j = qr_jobId res" "jb_campaignId j = qr_campaignId res" "jb_allocationId j = qr_allocationId res"
  using assms
proof (cases rule: consume_result)
  case (replayed j)
  then have "j \<in> set (lt_jobs t)" "jb_idempotencyKey j = ri_requestId i" by (auto simp: find_request_def dest: find_set)
  with replayed show ?thesis by (intro that [of j]) (simp_all add: prior_result_def)
next
  case (reserved tokens w source r p nfts)
  then show ?thesis by (intro that [of "reserved_job now h ids i r (lt_sequence t)"]) (simp_all add: reserved_job_def)
qed

text \<open>
  C10: a request reserves at most once: after a reservation succeeded, in every later state of the
  wallet and whatever identities, clocks or dependencies it is sent with, the same request changes
  nothing and answers with the campaign, the allocation and the job of the first.
\<close>

theorem reservation_happens_once:
  assumes "reachable empty_tables (wallet_step q a) t" "consumeReviewAndReserve (qw_hashes q) a now ids d i t = Inr (res, t1)"
    and "(wallet_step q a)\<^sup>*\<^sup>* t1 t2"
  shows "\<exists>status. consumeReviewAndReserve (qw_hashes q) a now' ids' d' i t2 = Inr (res\<lparr>qr_status := status, qr_replayed := True\<rparr>, t2)"
proof -
  have step: "wallet_step q a t t1" using assms(2) by (intro wallet_step.call [of q a now "Reserve_call ids d i"]) simp
  have inv: "lane_inv t" using wallet.reachable_inv [OF assms(1)] .
  then have inv1: "lane_inv t1" using step wallet.step_inv by blast
  have inv2: "lane_inv t2" using wallet.run_inv [OF assms(3) inv1] .
  have address: "lt_address t2 = lt_address t"
    using wallet_steps_address [OF assms(3)] wallet_steps_address [of q a t t1] step by auto
  obtain j where j: "j \<in> set (lt_jobs t1)" "jb_idempotencyKey j = ri_requestId i" "jb_requestDigest j = ri_requestDigest i"
    "jb_id j = qr_jobId res" "jb_campaignId j = qr_campaignId res" "jb_allocationId j = qr_allocationId res"
    using consume_job [OF assms(2)] by blast
  obtain k where k: "k \<in> set (lt_jobs t2)" "job_extends j k"
    using wallet.run_extends [OF assms(3) inv1] j(1) unfolding record_extends_def by blast
  then have same: "jb_idempotencyKey k = ri_requestId i" "jb_requestDigest k = ri_requestDigest i" "jb_id k = qr_jobId res"
    "jb_campaignId k = qr_campaignId res" "jb_allocationId k = qr_allocationId res"
    using j by (simp_all add: job_extends_def same_job_def)
  have found: "find_request t2 (ri_requestId i) = Some k" using find_request_in [OF lane_invD(1) [OF inv2] k(1)] same(1) by simp
  obtain tokens where checks: "reserve_input_checks (lt_address t) i = Inr ()" "reserve_amount_checks (qw_hashes q) i = Inr tokens"
    using assms(2) unfolding consumeReviewAndReserve_def bind_ok_Inr_iff by auto
  have "prior_result k = res\<lparr>qr_status := jb_status k, qr_replayed := True\<rparr>" using same by (simp add: prior_result_def)
  then show ?thesis
    by (intro exI [of _ "jb_status k"]) (simp add: consumeReviewAndReserve_def address checks found same(2))
qed

theorem reservation_happens_once_witness:
  "\<exists>res. consumeReviewAndReserve run_hashes (\<lambda>_. True) run_clocks run_ids None run_reserve run_reviewed = Inr (res, run_reserved) \<and>
    (\<exists>status. consumeReviewAndReserve run_hashes (\<lambda>_. True) run_clocks \<lparr>fr_campaign = ''d'', fr_allocation = ''e'', fr_job = ''f''\<rparr> None
      run_reserve run_signed = Inr (res\<lparr>qr_status := status, qr_replayed := True\<rparr>, run_signed))"
proof -
  obtain res where res: "consumeReviewAndReserve (qw_hashes run_world) (\<lambda>_. True) run_clocks run_ids None run_reserve run_reviewed =
      Inr (res, run_reserved)"
    using run_reserve_step by (auto simp: bind_ok_Inr_iff)
  have reached: "reachable empty_tables (wallet_step run_world (\<lambda>_. True)) run_reviewed"
    using run_reaches(1-3) wallet.reachable_step by blast
  from reservation_happens_once [OF reached res run_reachable(5)] res show ?thesis by auto
qed

subsection \<open>Receipts\<close>

text \<open>
  C4: attributing a receipt lowers the wallet's native balance, and the native amounts held for the
  campaign, by exactly the gas that is recorded with the receipt, advances the nonce by one, and leaves
  every other allocation as it was.
\<close>

theorem receipts_conserve_gas:
  assumes "reachable empty_tables (wallet_step q a) t" "find_stage t i stage = Some r" "ob_receipt r = None"
    and "reconcileStage q now i stage token t = Inr (s, t')"
  shows "\<exists>j w b w' b' e. find_job t i = Some j \<and> lt_wallet t = Some w \<and> lt_wallet t' = Some w' \<and> ob_effects s = Some e \<and>
    find_allocation t (jb_allocationId j) = Some b \<and> find_allocation t' (jb_allocationId j) = Some b' \<and>
    vw_native w' = Some (or_zero (vw_native w) - ee_gasWei e) \<and> vw_nonce w' = Some (ob_nonce r + 1) \<and>
    vl_nativeSpend b' + vl_exitReserve b' = vl_nativeSpend b + vl_exitReserve b - ee_gasWei e \<and> vl_pendingNative b' = 0 \<and>
    filter (\<lambda>a. vl_id a \<noteq> jb_allocationId j) (lt_allocations t') = filter (\<lambda>a. vl_id a \<noteq> jb_allocationId j) (lt_allocations t)"
  using assms(4)
proof (cases rule: reconcileStage_result)
  case (replayed r)
  with assms(2,3) show ?thesis by simp
next
  case (attributed j r0 w v)
  have r0: "r0 = r" using attributed(2) assms(2) by simp
  have inv: "receipt_inv t" using receipts.reachable_inv [OF assms(1)] .
  note j = owned_job [OF attributed(1)]
  obtain b where b: "find_allocation t (jb_allocationId j) = Some b" "image_holds w b (ob_before r)"
    using pending_image [OF inv assms(2) _ j attributed(6)] attributed(5) r0 by (auto simp: pending_status_def)
  have checks: "receipt_wallet_checks (lt_address t) r w v = Inr ()" "s = attribute_row v r"
    using attributed(9) r0 by (auto elim!: attribute_receipt_result)
  then have gas: "im_nonce (vq_afterWallet v) = ob_nonce r + 1" "bi_walletGeneration (ob_before r) = vw_generation w"
    "im_nativeWei (bi_wallet (ob_before r)) - im_nativeWei (vq_afterWallet v) = vq_gasWei v"
    "ia_nativeSpendWei (bi_allocation (ob_before r)) + ia_exitReserveWei (bi_allocation (ob_before r)) - vq_gasWei v =
      vq_nextNativeSpendWei v + vq_nextExitReserveWei v"
    by (auto simp: receipt_wallet_checks_def bind_ok_Inr_iff Let_def)
  obtain w' b' where after: "lt_wallet t' = Some w'" "vw_native w' = Some (im_nativeWei (vq_afterWallet v))"
    "vw_nonce w' = Some (im_nonce (vq_afterWallet v))" "find_allocation t' (jb_allocationId j) = Some b'"
    "vl_nativeSpend b' = vq_nextNativeSpendWei v" "vl_exitReserve b' = vq_nextExitReserveWei v" "vl_pendingNative b' = 0"
    "filter (\<lambda>a. vl_id a \<noteq> jb_allocationId j) (lt_allocations t') = filter (\<lambda>a. vl_id a \<noteq> jb_allocationId j) (lt_allocations t)"
    using attributed_funds [OF attributed(9) b(1)] by blast
  have effects: "ob_effects s = Some (receipt_evidence v)" "ee_gasWei (receipt_evidence v) = vq_gasWei v"
    by (simp_all add: checks(2) attribute_row_def receipt_evidence_def)
  have "or_zero (vw_native w) = im_nativeWei (bi_wallet (ob_before r))" using b(2) gas(2) by (simp add: image_holds_def or_zero_def)
  then have "vw_native w' = Some (or_zero (vw_native w) - vq_gasWei v)" using after(2) gas(3) by simp
  moreover have "vl_nativeSpend b' + vl_exitReserve b' = vl_nativeSpend b + vl_exitReserve b - vq_gasWei v"
    using b(2) gas(4) after(5,6) by (simp add: image_holds_def)
  ultimately show ?thesis using j attributed(6) b(1) after effects gas(1) by auto
qed

theorem receipts_conserve_gas_witness:
  "\<exists>j w b w' b' e s. reconcileStage run_world run_clocks ''j'' ''mint'' ''token'' run_signed = Inr (s, run_attributed) \<and>
    find_job run_signed ''j'' = Some j \<and> lt_wallet run_signed = Some w \<and> lt_wallet run_attributed = Some w' \<and> ob_effects s = Some e \<and>
    find_allocation run_attributed (jb_allocationId j) = Some b' \<and> find_allocation run_signed (jb_allocationId j) = Some b \<and>
    vw_native w' = Some (or_zero (vw_native w) - ee_gasWei e) \<and>
    vl_nativeSpend b' + vl_exitReserve b' = vl_nativeSpend b + vl_exitReserve b - ee_gasWei e"
proof -
  have row: "find_stage run_signed ''j'' ''mint'' = Some run_signed_row" by (simp add: find_stage_def)
  obtain s where s: "reconcileStage run_world run_clocks ''j'' ''mint'' ''token'' run_signed = Inr (s, run_attributed)"
    using run_reconcile_step by (auto simp: bind_ok_Inr_iff)
  from receipts_conserve_gas [OF run_reachable(2) row _ s] s show ?thesis by auto
qed

subsection \<open>Refinement\<close>

text \<open>
  C14: every transaction of the store and of the queue, and every change that other components make to
  the tables they share, is a sequence of the protocol's changes: of jobs along their life, of rows from
  prepared to settled, of reviews to consumed.
\<close>

theorem wallet_refines_protocol:
  assumes "reachable empty_tables (wallet_step q a) t" "wallet_step q a t t'"
  shows "lane_step\<^sup>*\<^sup>* t t' \<and> lane_inv t'"
  using wallet_step_refines [OF assms(2) wallet.reachable_inv [OF assms(1)]]
    wallet.reachable_inv [OF wallet.reachable_step [OF assms]] by blast

theorem wallet_refines_protocol_witness:
  "lane_step\<^sup>*\<^sup>* run_signed run_attributed \<and> lane_inv run_attributed \<and> run_signed \<noteq> run_attributed"
proof -
  have "map ob_status (lt_outbox run_signed) \<noteq> map ob_status (lt_outbox run_attributed)"
    by (simp add: attribute_row_def)
  then have "run_signed \<noteq> run_attributed" by (rule contrapos_nn) (erule arg_cong)
  then show ?thesis using wallet_refines_protocol [OF run_reachable(2) run_reaches(8)] by blast
qed

end
