(* ===== verification/Spec2Isabelle.thy ===== *)
theory Spec2Isabelle
  imports Fee_Accounting Swap_Math Replay_Changes Oracle_Policy Rpc_Health Keeper_Events
    Stable_Baseline Shared_Wallet
begin

text \<open>
  A verification development for the exact-integer core of \<open>conc-liq\<close>, a research, paper and
  live-pilot system for concentrated liquidity in Uniswap v3 pools.  The system replays pool
  events exactly, values positions, simulates ranges and policies over observed history, judges
  risk and the health of its data sources, and, separately guarded, plans and authorizes the
  transactions of a live position manager (\<open>RangeKeeper\<close>).  The TypeScript sources are under
  \<open>src/\<close> of the repository; file names below are relative to it.

  \<^bold>\<open>Parts and theories.\<close>
  \<^item> Token mathematics.  \<open>Tick_Math\<close>, \<open>Backtest_Domain\<close> and \<open>Principal\<close>: \<open>backtest/domain.ts\<close> and
    \<open>backtest/principal.ts\<close>, the tick table, the amounts of a position and the reconstruction of
    a snapshot.  \<open>Fee_Accounting\<close>: \<open>accounting/math.ts\<close>, fee growth modulo \<open>2^256\<close>.
    \<open>Position_Math\<close>: \<open>v3/position-math.ts\<close>, rounded amounts and paper mints.  \<open>Swap_Math\<close>:
    \<open>research/swap.ts\<close>, the swap step and the reconstruction of an observed swap.
  \<^item> Event replay.  \<open>Tick_Book\<close>, \<open>Replay_State\<close>, \<open>Replay_Changes\<close>: \<open>replay/state.ts\<close>, pools, positions
    and tick books under initialize, mint, burn, collect, swap and the other events, with the
    dirty sets that \<open>changes\<close> and \<open>clearChanges\<close> read.  A thrown error carries the state it
    leaves, since the code mutates before it throws.
  \<^item> Simulation.  \<open>Range_Sim\<close>, \<open>Ranking\<close>, \<open>Static_Sim\<close>: \<open>simulator/math.ts\<close> and \<open>evaluate.ts\<close>;
    \<open>Policy_Replay\<close>: \<open>simulator/replay.ts\<close>; \<open>Oracle_Mark\<close>: \<open>oracle/math.ts\<close> and \<open>evaluate.ts\<close>;
    \<open>Oracle_Policy\<close>: \<open>oracle-policy/replay.ts\<close>.
  \<^item> Baseline.  \<open>Stable_Baseline\<close>: \<open>backtest/baseline.ts\<close>, the fees that positions nobody touched
    accrued between two accounting runs.
  \<^item> Judgement.  \<open>Fail_Closed\<close> states the contract that every evaluator keeps: eligible exactly when
    no reason against it was found.  \<open>Risk_Gate\<close>: \<open>risk/evaluate.ts\<close> and \<open>gate.ts\<close>;
    \<open>Rpc_Health\<close>: \<open>rpc-health/policy.ts\<close>.
  \<^item> RangeKeeper, \<open>strategy/rangekeeper\<close>.  \<open>Keeper_Candidate\<close> and \<open>Keeper_Plan\<close>: \<open>planner.ts\<close>, the
    sizing and swap search of a candidate and the decision state machine; \<open>Json_Text\<close> and
    \<open>Keeper_Json\<close>: the persisted JSON of \<open>live-domain.ts\<close>; \<open>Keeper_Wallet\<close>: \<open>allowance-policy.ts\<close>,
    \<open>funding.ts\<close> and \<open>cost.ts\<close>; \<open>Keeper_Calldata\<close>: \<open>calldata.ts\<close> and the quote of \<open>chain.ts\<close>;
    \<open>Keeper_Config\<close>: \<open>config.ts\<close> and \<open>state.ts\<close>, the schemas as predicates on parsed records;
    \<open>Keeper_Stage\<close>: \<open>live-stage.ts\<close>, \<open>stages.ts\<close> and the first checks of \<open>submit\<close> in
    \<open>live-controller.ts\<close>.
  \<^item> Campaigns of a shared wallet, \<open>deployments\<close>.  \<open>Keeper_Campaign\<close>: every function that changes the
    state of a campaign, from \<open>rangekeeper-live-campaign.ts\<close> (reviews of a manager, exits, close),
    \<open>rangekeeper-live-management-recovery.ts\<close> (errors settled, replans), the receipt effects of
    \<open>rangekeeper-live-campaign-effects.ts\<close>, openings, observations and marks.  \<open>Machines\<close> holds the
    contracts of state machines, \<open>Campaign_Machine\<close> puts the functions together into one:
    \<open>campaign_step\<close> has one rule for each place of the code that stores a new state.
    \<open>Campaign_Request\<close>: the request to prove a stage, the checks and the costs of
    \<open>rangekeeper-live-stage-proof.ts\<close>, and the budgets before signing.  \<open>Keeper_Events\<close>: the
    runtime rows and the event log of \<open>rangekeeper-live-campaign-store.ts\<close>, under any interleaving
    of handlers.
  \<^item> The shared wallet itself, \<open>deployments\<close>.  \<open>Wallet_Allocation\<close>: \<open>live-wallet-allocation.ts\<close>, the
    balances of an inventory divided between the active commitments, fail closed.  \<open>Live_Tables\<close>: the
    rows of the tables of \<open>storage/deployment-live-wallet-migration.ts\<close> that the transactions read
    and write, with the unique keys, checks and triggers of that schema as the predicate \<open>tables_ok\<close> that every commit must
    satisfy.  \<open>Wallet_Store\<close>: the transactions of \<open>live-wallet-store.ts\<close>, which apply confirmed wallet
    snapshots, record reviews, reserve funds for a campaign and release them.  \<open>Wallet_Queue\<close> and
    \<open>Queue_Receipt\<close>: the queue of \<open>live-wallet-queue.ts\<close>, which claims jobs under a lease, prepares,
    signs and cancels their transactions, attributes their receipts and finishes them.
    \<open>Queue_Protocol\<close> is the abstract protocol, \<open>lane_step\<close>, of jobs, transactions and reviews, and
    \<open>Queue_Machine\<close> shows that each transaction of the code refines it.  \<open>Wallet_Safety\<close>: one machine of
    all transactions, \<open>wallet_step\<close>, which also allows what other components may change in the
    tables they share.  \<open>Wallet_Solvency\<close> and \<open>Wallet_Receipts\<close>: its invariants on funds and on the
    frozen images that a transaction is prepared with.  \<open>Wallet_Run\<close>: a concrete wallet through every
    phase, from the empty tables to a finished opening.  \<open>Shared_Wallet\<close>: what follows for callers.
  \<open>Liq_Prelude\<close> holds the result type, the integer division of the language and the helpers on
  strings and lists that all of them share.

  \<^bold>\<open>How the code is read.\<close>  A \<open>bigint\<close> is an \<open>int\<close>; \<open>/\<close> and \<open>%\<close> truncate (\<open>sdiv\<close>, \<open>smod\<close>); where the code
  reduces modulo \<open>2^256\<close> by hand that is written out and proved to be subtraction of 256-bit
  words.  A \<open>number\<close> that is a tick, a time or a count is an \<open>int\<close>, with \<open>Number.isSafeInteger\<close>
  written out where the code checks it.  Interfaces are records with the source's fields; a
  field whose name another record uses has a short prefix.  A throw is the left value of a sum,
  with its message; \<open>null\<close> and \<open>undefined\<close> are \<open>None\<close>.  Strings are lists of 8-bit characters,
  which the addresses, hashes, reasons and decimal texts of the code are.  A decimal text that
  the code only ever converts with \<open>BigInt\<close> is the number it stands for.

  \<^bold>\<open>Loops.\<close>  Loops over intervals, events, segments and list entries are structural recursion.
  The binary searches (\<open>tick_search\<close>, \<open>size_search\<close>, \<open>peak_search\<close> and its companions) and
  Newton's iteration (\<open>isqrt_loop\<close>) terminate by a measure.  The loop of a swap attempt counts
  down from the 20,001 steps the code allows and fails after them as the code does.  The swap
  search of a candidate opens no new grid of amounts beyond 320 and 400 evaluations, so with the
  last grids it asks for at most 419 quotes.  The JSON parser has fuel of twice the length of its input and
  one, which every printed value fits; a text that needed more would be rejected.

  \<^bold>\<open>Parameters.\<close>  Code outside \<open>src/\<close> is an argument: the hash function, \<open>Date.parse\<close> and
  \<open>toISOString\<close>, \<open>localeCompare\<close>, viem's address and unit functions, the contract's quoter, the
  simulation of calldata, the re-check that a block is still canonical, the two clocks and the fresh
  identities of a transaction, the recovery of a signer from signed bytes, and the readers of
  receipts and of cleanup proofs.  A transaction of the database is one function of the tables: it
  holds the wallet's lock from start to end, and a throw or a violated constraint leaves them as
  they were.  The quotes of one
  planning call are made at one frozen block, so the quoter is a function of token and amount;
  concurrent calls are modelled in order, which nothing observes.  JSON is modelled for the
  values the code persists: integers, no fractions, no member names that are array indices.

  \<^bold>\<open>What the lemmas show.\<close>
  \<^item> The tick table is strictly increasing and \<open>tickAtPrice\<close> inverts it; the amounts of a position
    are the exact rational amounts rounded down (up by at most one unit); a mint never spends
    more than it was given; a reconstructed swap is a chain of steps that ends at the observed
    state.
  \<^item> Replay keeps the relation between positions, ticks and active liquidity, so that a swap event
    is accepted exactly when its liquidity is right, and what \<open>changes\<close> reports is complete.
  \<^item> Sizing is maximal within its budget; every simulated candidate's books balance at every step;
    rankings number the completed candidates once each.  The baseline is the plain sums and counts
    over positions, in whatever order they come.
  \<^item> Gates open exactly on the conditions stated, with a reason for every refusal; the RPC breaker
    refines a four-state abstract breaker and recovers after the configured number of samples.
  \<^item> RangeKeeper acts only inside its budgets and limits and after two confirmations at different
    blocks; every stage it plans passes the authorization made before signing; receipts are
    booked once; persisted state is read back as it was and satisfies its schema; the two
    allowance checks agree.
  \<^item> In every state a campaign reaches, phase, position, candidate and progress fit together, its
    record only grows, and completed work is not planned again; the stages it prepares pass the
    proof, and their costs stay within the budgets; the event log is one chain of state hashes in
    which an effect is applied once, and handlers with stale reads cannot store a state that the
    campaign's own steps do not reach.
  \<^item> An available shared wallet never promises more than it holds, whatever transactions have run
    in whatever order; one job owns it at a time and one transaction at most is pending; the bytes of
    a signed transaction, and a receipt once attributed, are never lost or replaced; a job that
    succeeded has settled every action; a request reserves once; a receipt takes exactly its gas
    from the wallet and from its campaign and nothing from any other.
  The interfaces between parts are locales (a chain of fail-closed evaluators, an order of ticks,
  books that represent positions, a quoter behind a monotonicity check, machines with an invariant
  and a growing record), each interpreted on the definitions that provide it.

  \<^bold>\<open>Not modelled.\<close>  SQL stores and migrations, RPC and HTTP readers, signing and process control,
  the dashboard, ABI encoding and the offline studies in floating point: they are input and
  output, or presentation, around the parts above, and the manifest lists them with reasons.
  Of the shared wallet, the comparison of an inventory with the stored state, the checks of text
  columns, the first mark that a reservation inserts, retries after a serialization failure and the
  older controller's journal are left out.
  Pure evaluators that could follow: \<open>replay/reconcile.ts\<close>, \<open>joined-policy/evaluate.ts\<close>, the paper
  close and cost models of \<open>deployments/\<close>, and the evaluators of \<open>perp-basis\<close>, \<open>action-cost\<close> and
  \<open>canary-plan\<close>.
\<close>

end
